(* ===== verification/Prelude.thy ===== *)
theory Prelude
  imports Complex_Main "HOL-Library.Char_ord" "HOL-Library.List_Lexorder"
    "HOL-Library.Multiset" "HOL-Library.AList" "HOL-Library.Sublist"
begin

text \<open>
  Shared vocabulary of the development: the dynamic values a Go \<open>any\<close> can hold, Go maps as
  association lists, results that carry an error, and the generic facts about lists,
  association lists and reachability that the component theories use.

  A Go map is an association list with distinct keys. Reading is \<^const>\<open>map_of\<close>, assignment is
  \<^const>\<open>AList.update\<close>, \<open>delete\<close> is \<^const>\<open>AList.delete\<close>. Go leaves the iteration order of a map
  unspecified; the order of the list stands for the order the runtime happens to choose, so
  a theorem about every list is a theorem about every iteration order.
\<close>

named_theorems go_defs \<open>definitions of small helpers that proofs unfold\<close>

section \<open>Go values\<close>

text \<open>
  \<open>VFloat\<close> holds a finite float64 (numbers decoded from JSON are finite); \<open>VInt\<close> is Go's
  \<open>int\<close>, \<open>VInt64\<close> its \<open>int64\<close>. Strings and byte slices are sequences of bytes.
\<close>

datatype val =
    VNil
  | VBool bool
  | VInt int
  | VInt64 int
  | VFloat rat
  | VStr string
  | VBytes string
  | VList "val list"
  | VMap "(string \<times> val) list"

type_synonym gomap = "(string \<times> val) list"

fun as_string :: "val option \<Rightarrow> string option" where
  "as_string (Some (VStr s)) = Some s"
| "as_string _ = None"

text \<open>The Go idiom \<open>s, _ := m[k].(string)\<close>: the zero value when the assertion fails.\<close>

definition str_or_empty :: "val option \<Rightarrow> string" where
  "str_or_empty v = (case as_string v of Some s \<Rightarrow> s | None \<Rightarrow> [])"

fun as_map :: "val option \<Rightarrow> gomap option" where
  "as_map (Some (VMap m)) = Some m"
| "as_map _ = None"

text \<open>Go's conversion \<open>int(f)\<close> of a float64: the fraction is discarded, towards zero.\<close>

definition go_trunc :: "rat \<Rightarrow> int" where
  "go_trunc q = (if q < 0 then - \<lfloor>- q\<rfloor> else \<lfloor>q\<rfloor>)"

text \<open>Two's complement wrap-around of Go's 64-bit integers.\<close>

definition wrap64 :: "int \<Rightarrow> int" where
  "wrap64 n = (n + 2 ^ 63) mod 2 ^ 64 - 2 ^ 63"

lemma wrap64_id: "- (2 ^ 63) \<le> n \<Longrightarrow> n < 2 ^ 63 \<Longrightarrow> wrap64 n = n"
  by (simp add: wrap64_def)

lemma wrap64_range: "- (2 ^ 63) \<le> wrap64 n \<and> wrap64 n < 2 ^ 63"
proof -
  have "0 \<le> (n + 2 ^ 63) mod 2 ^ 64" "(n + 2 ^ 63) mod 2 ^ 64 < (2 ^ 64 :: int)"
    by simp_all
  then show ?thesis by (simp add: wrap64_def)
qed

lemma as_string_Some_iff [simp]: "as_string v = Some s \<longleftrightarrow> v = Some (VStr s)"
  by (cases v rule: as_string.cases) auto

lemma as_map_Some_iff [simp]: "as_map v = Some m \<longleftrightarrow> v = Some (VMap m)"
  by (cases v rule: as_map.cases) auto

lemma str_or_empty_simps [simp]:
  "str_or_empty (Some (VStr s)) = s" "str_or_empty None = []"
  by (simp_all add: str_or_empty_def)

section \<open>Association lists as Go maps\<close>

definition wf_map :: "('k \<times> 'v) list \<Rightarrow> bool" where
  "wf_map m = distinct (map fst m)"

lemma wf_map_simps [simp]:
  "wf_map []"
  "wf_map ((k, v) # m) \<longleftrightarrow> k \<notin> fst ` set m \<and> wf_map m"
  by (auto simp: wf_map_def)

lemma wf_map_update [simp]: "wf_map m \<Longrightarrow> wf_map (AList.update k v m)"
  by (simp add: wf_map_def distinct_update)

lemma wf_map_delete [simp]: "wf_map m \<Longrightarrow> wf_map (AList.delete k m)"
  by (simp add: wf_map_def distinct_delete)

lemma map_of_update [simp]: "map_of (AList.update k v m) = (map_of m)(k \<mapsto> v)"
  by (rule update_conv')

lemma map_of_delete [simp]: "map_of (AList.delete k m) = (map_of m)(k := None)"
  by (rule delete_conv')

lemma map_of_None_iff: "map_of m k = None \<longleftrightarrow> k \<notin> fst ` set m"
  by (rule map_of_eq_None_iff)

lemma update_fresh: "k \<notin> fst ` set m \<Longrightarrow> AList.update k v m = m @ [(k, v)]"
  by (induction m) auto

lemma remove1_keys:
  "distinct (map fst xs) \<Longrightarrow> (k, v) \<in> set xs \<Longrightarrow> fst ` set (remove1 (k, v) xs) = fst ` set xs - {k}"
  by (induction xs) (auto simp: image_iff)

section \<open>Closures of relations\<close>

text \<open>A set that holds the starting points and is closed under the steps holds everything reachable.\<close>

lemma rtrancl_closed:
  assumes "(x, y) \<in> r\<^sup>*" and "x \<in> A" and "\<And>u v. u \<in> A \<Longrightarrow> (u, v) \<in> r \<Longrightarrow> v \<in> A"
  shows "y \<in> A"
  using assms(1,2) by (induction rule: rtrancl_induct) (auto intro: assms(3))

lemma trancl_closed:
  assumes "(x, y) \<in> r\<^sup>+" and "\<And>v. (x, v) \<in> r \<Longrightarrow> v \<in> A"
    and "\<And>u v. u \<in> A \<Longrightarrow> (u, v) \<in> r \<Longrightarrow> v \<in> A"
  shows "y \<in> A"
  using assms(1) by (induction rule: trancl_induct) (auto intro: assms(2,3))

end
