(* ===== verification/Store_Types.thy ===== *)
theory Store_Types
  imports Prelude
begin

text \<open>
  The domain types of \<open>internal/store/store.go\<close> that the engine, the vaults and the
  validators share. A nilable Go field is an option, a Go map is an association list;
  timestamps that no decision reads are left out.
\<close>

record node_position =
  np_X :: rat
  np_Y :: rat

record retry_policy =
  rp_MaxRetries :: int
  rp_BackoffMs :: int

record output_parser =
  op_Kind :: string
  op_Source :: string
  op_Pattern :: string
  op_CaptureGroup :: int

record workflow_node =
  wn_ID :: string
  wn_TypeID :: string
  wn_Label :: string
  wn_Position :: node_position
  wn_Config :: "gomap option"
  wn_SensitiveKeys :: "(string \<times> bool) list option"
  wn_RetryPolicy :: "retry_policy option"
  wn_OutputParsers :: "(string \<times> output_parser) list"

record workflow_edge =
  we_ID :: string
  we_SourceID :: string
  we_TargetID :: string
  we_BranchLabel :: "string option"
  we_IsLoopBack :: bool

record trigger =
  tr_Kind :: string
  tr_CronExpr :: string
  tr_KafkaBrokers :: string
  tr_KafkaTopic :: string
  tr_KafkaGroupID :: string
  tr_SQSQueueURL :: string
  tr_SQSRegion :: string

record workflow =
  wf_ID :: string
  wf_Name :: string
  wf_Description :: string
  wf_Trigger :: trigger
  wf_TimeoutSeconds :: int
  wf_Nodes :: "workflow_node list"
  wf_Edges :: "workflow_edge list"
  wf_InitialDataSchema :: string

datatype run_status = RunStatusPending | RunStatusRunning | RunStatusSucceeded | RunStatusFailed

text \<open>Reading a nil Go map yields no entries: the entries of a node's configuration.\<close>

definition cfg_entries :: "gomap option \<Rightarrow> gomap" where
  "cfg_entries c = (case c of None \<Rightarrow> [] | Some m \<Rightarrow> m)"

lemma cfg_entries_simps [simp]: "cfg_entries None = []" "cfg_entries (Some m) = m"
  by (simp_all add: cfg_entries_def)

text \<open>The type tag of the loop controller (\<open>loopControllerTypeID\<close> in \<open>engine/dag.go\<close>).\<close>

abbreviation loopControllerTypeID :: string where
  "loopControllerTypeID \<equiv> ''loop.controller''"

end
