(* ===== verification/Dag.thy ===== *)
theory Dag
  imports Store_Types
begin

text \<open>
  The workflow graph of \<open>internal/engine/dag.go\<close>: \<open>Build\<close> and the searches it runs
  (\<open>topoSort\<close>, \<open>collectAncestors\<close>, \<open>computeLoopBodyNodes\<close>), statement by statement. The
  recursive closures of the Go code carry a fuel argument here; \<open>None\<close> is running out of
  fuel, and \<open>Dag_Facts\<close> shows that the fuel \<open>Build\<close> passes is always enough.
\<close>

section \<open>State\<close>

record dag =
  d_Nodes :: "(string \<times> workflow_node) list"
  d_Successors :: "string \<Rightarrow> string list"
  d_Predecessors :: "string \<Rightarrow> string list"
  d_TopologicalOrder :: "string list"
  d_OutEdges :: "string \<Rightarrow> workflow_edge list"
  d_Ancestors :: "string \<Rightarrow> string list"
  d_LoopBackEdges :: "workflow_edge list"
  d_LoopBodyNodes :: "(string \<times> string list) list"

datatype build_error =
    TooManyControllers nat
  | LoopBackLabelled string
  | LoopBackTarget string string string
  | UnknownSource string string
  | UnknownTarget string string
  | LoopBackUnknownSource string string
  | LoopBackUnknownTarget string string
  | ErrCycleDetected string
  | MissingLoopBodyEdge string
  | MissingExitEdge string
  | OutOfFuel

section \<open>Structural checks on loop-back edges\<close>

text \<open>
  \<open>nodeType[id]\<close>: the type of the last node in the list with that id, the empty string when
  there is none.
\<close>

definition nodeType :: "workflow_node list \<Rightarrow> string \<Rightarrow> string" where
  "nodeType nodes i = (case map_of (rev (map (\<lambda>n. (wn_ID n, wn_TypeID n)) nodes)) i of
     None \<Rightarrow> [] | Some t \<Rightarrow> t)"

definition controllerCount :: "workflow_node list \<Rightarrow> nat" where
  "controllerCount nodes = length (filter (\<lambda>n. wn_TypeID n = loopControllerTypeID) nodes)"

fun checkLoopBackEdges :: "workflow_node list \<Rightarrow> workflow_edge list \<Rightarrow> build_error + unit" where
  "checkLoopBackEdges nodes [] = Inr ()"
| "checkLoopBackEdges nodes (e # es) =
     (if we_BranchLabel e \<noteq> None then Inl (LoopBackLabelled (we_ID e))
      else if nodeType nodes (we_TargetID e) \<noteq> loopControllerTypeID
      then Inl (LoopBackTarget (we_ID e) (we_TargetID e) (nodeType nodes (we_TargetID e)))
      else checkLoopBackEdges nodes es)"

definition validateLoopConstraints ::
    "workflow_node list \<Rightarrow> workflow_edge list \<Rightarrow> build_error + unit" where
  "validateLoopConstraints nodes loopBackEdges =
     (if controllerCount nodes > 1 then Inl (TooManyControllers (controllerCount nodes))
      else checkLoopBackEdges nodes loopBackEdges)"

section \<open>Adjacency\<close>

definition initDag :: "workflow_node list \<Rightarrow> workflow_edge list \<Rightarrow> dag" where
  "initDag nodes loopBackEdges =
     \<lparr> d_Nodes = fold (\<lambda>n m. AList.update (wn_ID n) n m) nodes [],
       d_Successors = (\<lambda>_. []), d_Predecessors = (\<lambda>_. []),
       d_TopologicalOrder = [],
       d_OutEdges = (\<lambda>_. []), d_Ancestors = (\<lambda>_. []),
       d_LoopBackEdges = loopBackEdges, d_LoopBodyNodes = [] \<rparr>"

definition addEdge :: "workflow_edge \<Rightarrow> dag \<Rightarrow> dag" where
  "addEdge e d = d
     \<lparr> d_Successors := (d_Successors d)(we_SourceID e := d_Successors d (we_SourceID e) @ [we_TargetID e]),
       d_Predecessors := (d_Predecessors d)(we_TargetID e := d_Predecessors d (we_TargetID e) @ [we_SourceID e]),
       d_OutEdges := (d_OutEdges d)(we_SourceID e := d_OutEdges d (we_SourceID e) @ [e]) \<rparr>"

fun addForwardEdges :: "workflow_edge list \<Rightarrow> dag \<Rightarrow> build_error + dag" where
  "addForwardEdges [] d = Inr d"
| "addForwardEdges (e # es) d =
     (if map_of (d_Nodes d) (we_SourceID e) = None then Inl (UnknownSource (we_ID e) (we_SourceID e))
      else if map_of (d_Nodes d) (we_TargetID e) = None then Inl (UnknownTarget (we_ID e) (we_TargetID e))
      else addForwardEdges es (addEdge e d))"

fun checkLoopBackEndpoints :: "workflow_edge list \<Rightarrow> dag \<Rightarrow> build_error + unit" where
  "checkLoopBackEndpoints [] d = Inr ()"
| "checkLoopBackEndpoints (e # es) d =
     (if map_of (d_Nodes d) (we_SourceID e) = None
      then Inl (LoopBackUnknownSource (we_ID e) (we_SourceID e))
      else if map_of (d_Nodes d) (we_TargetID e) = None
      then Inl (LoopBackUnknownTarget (we_ID e) (we_TargetID e))
      else checkLoopBackEndpoints es d)"

section \<open>Topological sort\<close>

datatype colour = White | Grey | Black

record dfs_state =
  color :: "string \<Rightarrow> colour"
  order :: "string list"

text \<open>
  The closure \<open>visit\<close> of \<open>topoSort\<close> and its loop over the successors. The outer option is
  fuel, one unit per nested call; \<open>Inl\<close> is the cycle error with the offending node.
\<close>

fun visit :: "nat \<Rightarrow> (string \<Rightarrow> string list) \<Rightarrow> string \<Rightarrow> dfs_state \<Rightarrow> (build_error + dfs_state) option"
and visitAll :: "nat \<Rightarrow> (string \<Rightarrow> string list) \<Rightarrow> string list \<Rightarrow> dfs_state \<Rightarrow> (build_error + dfs_state) option"
where
  "visit 0 S i st = None"
| "visit (Suc k) S i st =
     (case color st i of
        Grey \<Rightarrow> Some (Inl (ErrCycleDetected i))
      | Black \<Rightarrow> Some (Inr st)
      | White \<Rightarrow>
          (case visitAll k S (S i) (st\<lparr>color := (color st)(i := Grey)\<rparr>) of
             Some (Inr st') \<Rightarrow>
               Some (Inr (st'\<lparr>color := (color st')(i := Black), order := order st' @ [i]\<rparr>))
           | r \<Rightarrow> r))"
| "visitAll k S [] st = Some (Inr st)"
| "visitAll k S (x # xs) st =
     (case visit k S x st of
        Some (Inr st') \<Rightarrow> visitAll k S xs st'
      | r \<Rightarrow> r)"

fun visitRoots :: "nat \<Rightarrow> (string \<Rightarrow> string list) \<Rightarrow> string list \<Rightarrow> dfs_state \<Rightarrow> (build_error + dfs_state) option" where
  "visitRoots k S [] st = Some (Inr st)"
| "visitRoots k S (x # xs) st =
     (if color st x = White
      then (case visit k S x st of
              Some (Inr st') \<Rightarrow> visitRoots k S xs st'
            | r \<Rightarrow> r)
      else visitRoots k S xs st)"

definition topoSort :: "dag \<Rightarrow> build_error + string list" where
  "topoSort d =
     (case visitRoots (Suc (length (d_Nodes d))) (d_Successors d) (sort (map fst (d_Nodes d)))
             \<lparr>color = (\<lambda>_. White), order = []\<rparr> of
        None \<Rightarrow> Inl OutOfFuel
      | Some (Inl e) \<Rightarrow> Inl e
      | Some (Inr st) \<Rightarrow> Inr (rev (order st)))"

section \<open>Ancestors\<close>

fun walk :: "nat \<Rightarrow> (string \<Rightarrow> string list) \<Rightarrow> string \<Rightarrow> string list \<Rightarrow> string list option"
and walkAll :: "nat \<Rightarrow> (string \<Rightarrow> string list) \<Rightarrow> string list \<Rightarrow> string list \<Rightarrow> string list option"
where
  "walk 0 P i vis = None"
| "walk (Suc k) P i vis = walkAll k P (P i) vis"
| "walkAll k P [] vis = Some vis"
| "walkAll k P (p # ps) vis =
     (if p \<in> set vis then walkAll k P ps vis
      else (case walk k P p (vis @ [p]) of
              None \<Rightarrow> None
            | Some vis' \<Rightarrow> walkAll k P ps vis'))"

definition collectAncestors :: "nat \<Rightarrow> string \<Rightarrow> (string \<Rightarrow> string list) \<Rightarrow> string list option" where
  "collectAncestors k i P = map_option sort (walk k P i [])"

fun setAncestors :: "nat \<Rightarrow> string list \<Rightarrow> dag \<Rightarrow> build_error + dag" where
  "setAncestors k [] d = Inr d"
| "setAncestors k (i # is) d =
     (case collectAncestors k i (d_Predecessors d) of
        None \<Rightarrow> Inl OutOfFuel
      | Some as \<Rightarrow> setAncestors k is (d\<lparr>d_Ancestors := (d_Ancestors d)(i := as)\<rparr>))"

section \<open>Loop bodies\<close>

fun bodySearch :: "nat \<Rightarrow> (string \<Rightarrow> string list) \<Rightarrow> string \<Rightarrow> string list \<Rightarrow> string list \<Rightarrow> string list \<Rightarrow> string list option" where
  "bodySearch k S c exits body [] = Some body"
| "bodySearch 0 S c exits body (cur # queue) = None"
| "bodySearch (Suc k) S c exits body (cur # queue) =
     (if cur \<in> set body \<or> cur = c \<or> cur \<in> set exits
      then bodySearch k S c exits body queue
      else bodySearch k S c exits (body @ [cur])
             (queue @ filter (\<lambda>s. s \<notin> set (body @ [cur]) \<and> s \<noteq> c \<and> s \<notin> set exits) (S cur)))"

definition exitTargets :: "dag \<Rightarrow> string \<Rightarrow> string list" where
  "exitTargets d c = map we_TargetID (filter (\<lambda>e. we_BranchLabel e \<noteq> Some ''loop_body'') (d_OutEdges d c))"

definition bodyStarts :: "dag \<Rightarrow> string \<Rightarrow> string list" where
  "bodyStarts d c = map we_TargetID (filter (\<lambda>e. we_BranchLabel e = Some ''loop_body'') (d_OutEdges d c))"

definition computeLoopBodyNodes :: "nat \<Rightarrow> string \<Rightarrow> dag \<Rightarrow> string list option" where
  "computeLoopBodyNodes k c d = bodySearch k (d_Successors d) c (exitTargets d c) [] (bodyStarts d c)"

fun setLoopBodies :: "nat \<Rightarrow> workflow_node list \<Rightarrow> dag \<Rightarrow> build_error + dag" where
  "setLoopBodies k [] d = Inr d"
| "setLoopBodies k (n # ns) d =
     (if wn_TypeID n = loopControllerTypeID
      then (case computeLoopBodyNodes k (wn_ID n) d of
              None \<Rightarrow> Inl OutOfFuel
            | Some b \<Rightarrow> setLoopBodies k ns (d\<lparr>d_LoopBodyNodes := AList.update (wn_ID n) b (d_LoopBodyNodes d)\<rparr>))
      else setLoopBodies k ns d)"

fun checkControllerLabels :: "workflow_node list \<Rightarrow> dag \<Rightarrow> build_error + unit" where
  "checkControllerLabels [] d = Inr ()"
| "checkControllerLabels (n # ns) d =
     (if wn_TypeID n \<noteq> loopControllerTypeID then checkControllerLabels ns d
      else if \<not> (\<exists>e \<in> set (d_OutEdges d (wn_ID n)). we_BranchLabel e = Some ''loop_body'')
      then Inl (MissingLoopBodyEdge (wn_ID n))
      else if \<not> (\<exists>e \<in> set (d_OutEdges d (wn_ID n)). we_BranchLabel e = Some ''exit'')
      then Inl (MissingExitEdge (wn_ID n))
      else checkControllerLabels ns d)"

section \<open>Build\<close>

text \<open>
  Fuel: a search along predecessors nests at most once per node, and the body search pops at
  most one entry per forward edge plus one per edge that leaves the controller.
\<close>

definition Build :: "workflow_node list \<Rightarrow> workflow_edge list \<Rightarrow> build_error + dag" where
  "Build nodes edges =
     (let loopBackEdges = filter we_IsLoopBack edges;
          forwardEdges = filter (\<lambda>e. \<not> we_IsLoopBack e) edges
      in case validateLoopConstraints nodes loopBackEdges of
           Inl e \<Rightarrow> Inl e
         | Inr _ \<Rightarrow>
      (case addForwardEdges forwardEdges (initDag nodes loopBackEdges) of
           Inl e \<Rightarrow> Inl e
         | Inr d \<Rightarrow>
      (case checkLoopBackEndpoints loopBackEdges d of
           Inl e \<Rightarrow> Inl e
         | Inr _ \<Rightarrow>
      (case topoSort d of
           Inl e \<Rightarrow> Inl e
         | Inr ord \<Rightarrow>
      (case setAncestors (Suc (length (d_Nodes d))) (map fst (d_Nodes d)) (d\<lparr>d_TopologicalOrder := ord\<rparr>) of
           Inl e \<Rightarrow> Inl e
         | Inr d2 \<Rightarrow>
      (case setLoopBodies (2 * length forwardEdges) nodes d2 of
           Inl e \<Rightarrow> Inl e
         | Inr d3 \<Rightarrow>
      (case checkControllerLabels nodes d3 of
           Inl e \<Rightarrow> Inl e
         | Inr _ \<Rightarrow> Inr d3)))))))"

definition CycleDetect :: "workflow_node list \<Rightarrow> workflow_edge list \<Rightarrow> build_error + unit" where
  "CycleDetect nodes edges = (case Build nodes edges of Inl e \<Rightarrow> Inl e | Inr _ \<Rightarrow> Inr ())"

end
