(* ===== verification/Dag_Facts.thy ===== *)
theory Dag_Facts
  imports Dag
begin

text \<open>
  Correctness of the graph searches of \<open>engine/dag.go\<close> taken one by one: the depth-first
  \<open>visit\<close> computes a closed order or finds a real cycle, \<open>walk\<close> collects exactly the
  transitive predecessors, \<open>bodySearch\<close> exactly the nodes reachable without crossing the
  loop boundary, and each of them returns within the fuel it is given.
\<close>

section \<open>Specification vocabulary\<close>

definition edge_rel :: "(string \<Rightarrow> string list) \<Rightarrow> (string \<times> string) set" where
  "edge_rel S = {(u, v). v \<in> set (S u)}"

text \<open>Every element of the list has all its successors earlier in the list.\<close>

definition closed_order :: "(string \<Rightarrow> string list) \<Rightarrow> string list \<Rightarrow> bool" where
  "closed_order S os = (\<forall>xs v ys. os = xs @ v # ys \<longrightarrow> set (S v) \<subseteq> set xs)"

text \<open>A set of nodes that no edge leaves.\<close>

definition closed_set :: "(string \<Rightarrow> string list) \<Rightarrow> string set \<Rightarrow> bool" where
  "closed_set S N = (\<forall>u \<in> N. set (S u) \<subseteq> N)"

lemma edge_rel_iff [simp]: "(u, v) \<in> edge_rel S \<longleftrightarrow> v \<in> set (S u)"
  by (simp add: edge_rel_def)

lemma closed_order_Nil [simp]: "closed_order S []"
  by (simp add: closed_order_def)

lemma closed_order_snoc [simp]:
  "closed_order S (os @ [v]) \<longleftrightarrow> closed_order S os \<and> set (S v) \<subseteq> set os"
proof
  assume a: "closed_order S (os @ [v])"
  have "set (S u) \<subseteq> set xs" if "os = xs @ u # ys" for xs u ys
  proof -
    from that have "os @ [v] = xs @ u # (ys @ [v])" by simp
    with a show ?thesis unfolding closed_order_def by blast
  qed
  moreover from a have "set (S v) \<subseteq> set os" unfolding closed_order_def by blast
  ultimately show "closed_order S os \<and> set (S v) \<subseteq> set os" by (auto simp: closed_order_def)
next
  assume a: "closed_order S os \<and> set (S v) \<subseteq> set os"
  show "closed_order S (os @ [v])"
    unfolding closed_order_def
  proof (intro allI impI)
    fix xs u ys
    assume e: "os @ [v] = xs @ u # ys"
    show "set (S u) \<subseteq> set xs"
    proof (cases ys rule: rev_cases)
      case Nil
      with e a show ?thesis by simp
    next
      case (snoc ys' y)
      with e have "os = xs @ u # ys'" by simp
      with a show ?thesis unfolding closed_order_def by blast
    qed
  qed
qed

lemma closed_orderD: "closed_order S os \<Longrightarrow> u \<in> set os \<Longrightarrow> set (S u) \<subseteq> set os"
  by (drule split_list) (fastforce simp: closed_order_def)

text \<open>A closed order leaves no room for a cycle through its elements.\<close>

lemma closed_order_acyclic_on:
  assumes "closed_order S os" and "distinct os"
  shows "v \<in> set os \<Longrightarrow> (v, v) \<notin> (edge_rel S)\<^sup>+"
  using assms
proof (induction os arbitrary: v rule: rev_induct)
  case Nil
  then show ?case by simp
next
  case (snoc x os)
  then have co: "closed_order S os" and sx: "set (S x) \<subseteq> set os" and x: "x \<notin> set os" and d: "distinct os"
    by auto
  have stay: "w \<in> set os" if "(u, w) \<in> (edge_rel S)\<^sup>+" and "u \<in> set (os @ [x])" for u w
  proof (rule trancl_closed [OF that(1)])
    fix v assume "(u, v) \<in> edge_rel S"
    with that(2) closed_orderD [OF co] sx show "v \<in> set os" by auto
  next
    fix u' v' assume "u' \<in> set os" "(u', v') \<in> edge_rel S"
    with closed_orderD [OF co] show "v' \<in> set os" by auto
  qed
  show ?case
  proof
    assume c: "(v, v) \<in> (edge_rel S)\<^sup>+"
    with stay snoc.prems(1) have "v \<in> set os" by blast
    with snoc.IH co d c show False by blast
  qed
qed

section \<open>Depth-first visit\<close>

definition greys :: "dfs_state \<Rightarrow> string set" where
  "greys st = {v. color st v = Grey}"

definition whites :: "string set \<Rightarrow> dfs_state \<Rightarrow> string set" where
  "whites N st = {v \<in> N. color st v = White}"

definition dfs_inv :: "(string \<Rightarrow> string list) \<Rightarrow> dfs_state \<Rightarrow> bool" where
  "dfs_inv S st \<longleftrightarrow> distinct (order st) \<and> set (order st) = {v. color st v = Black} \<and> closed_order S (order st)"

text \<open>What a successful visit changes: blacks grow, greys stay, the order is extended.\<close>

definition dfs_ext :: "string set \<Rightarrow> dfs_state \<Rightarrow> dfs_state \<Rightarrow> bool" where
  "dfs_ext N st st' \<longleftrightarrow> greys st' = greys st \<and> set (order st) \<subseteq> set (order st') \<and>
     (set (order st) \<subseteq> N \<longrightarrow> set (order st') \<subseteq> N)"

lemma dfs_ext_refl [simp]: "dfs_ext N st st"
  by (simp add: dfs_ext_def)

lemma dfs_ext_trans: "dfs_ext N a b \<Longrightarrow> dfs_ext N b c \<Longrightarrow> dfs_ext N a c"
  by (auto simp: dfs_ext_def)

lemma dfs_invD: "dfs_inv S st \<Longrightarrow> color st v = Black \<longleftrightarrow> v \<in> set (order st)"
  by (auto simp: dfs_inv_def)

lemma dfs_inv_grey [simp]:
  assumes "dfs_inv S st" and "color st i = White"
  shows "dfs_inv S (st\<lparr>color := (color st)(i := Grey)\<rparr>)"
proof -
  have "{v. ((color st)(i := Grey)) v = Black} = {v. color st v = Black}"
    using assms(2) by auto
  with assms(1) show ?thesis by (simp add: dfs_inv_def)
qed

lemma dfs_finish:
  assumes "dfs_inv S st'" and "color st i = White"
    and "dfs_ext N (st\<lparr>color := (color st)(i := Grey)\<rparr>) st'"
    and "set (S i) \<subseteq> set (order st')" and "i \<in> N"
  defines "st2 \<equiv> st'\<lparr>color := (color st')(i := Black), order := order st' @ [i]\<rparr>"
  shows "dfs_inv S st2 \<and> dfs_ext N st st2 \<and> i \<in> set (order st2)"
proof -
  have g: "greys st' = insert i (greys st)"
    using assms(3) by (auto simp: dfs_ext_def greys_def)
  then have ci: "color st' i = Grey" by (auto simp: greys_def)
  then have "i \<notin> set (order st')"
    using dfs_invD [OF assms(1), of i] by simp
  moreover have "insert i {v. color st' v = Black} = {v. ((color st')(i := Black)) v = Black}"
    by auto
  ultimately have "dfs_inv S st2"
    using assms(1,4) by (auto simp: dfs_inv_def st2_def)
  moreover have "greys st2 = greys st"
    using g assms(2) by (auto simp: greys_def st2_def)
  ultimately show ?thesis
    using assms(3,5) by (auto simp: dfs_ext_def st2_def)
qed

lemma visit_inv:
  shows "visit k S i st = Some (Inr st') \<Longrightarrow> dfs_inv S st \<Longrightarrow> closed_set S N \<Longrightarrow> i \<in> N \<Longrightarrow>
           dfs_inv S st' \<and> dfs_ext N st st' \<and> i \<in> set (order st')"
    and "visitAll k S xs st = Some (Inr st') \<Longrightarrow> dfs_inv S st \<Longrightarrow> closed_set S N \<Longrightarrow> set xs \<subseteq> N \<Longrightarrow>
           dfs_inv S st' \<and> dfs_ext N st st' \<and> set xs \<subseteq> set (order st')"
proof (induction k S i st and k S xs st arbitrary: st' and st' rule: visit_visitAll.induct)
  case (1 S i st)
  then show ?case by simp
next
  case (2 k S i st)
  show ?case
  proof (cases "color st i")
    case White
    let ?g = "st\<lparr>color := (color st)(i := Grey)\<rparr>"
    from White "2.prems"(1) obtain st2 where
        v: "visitAll k S (S i) ?g = Some (Inr st2)"
        and st': "st' = st2\<lparr>color := (color st2)(i := Black), order := order st2 @ [i]\<rparr>"
      by (auto split: option.splits sum.splits)
    from "2.prems" have "set (S i) \<subseteq> N" by (auto simp: closed_set_def)
    with "2.IH" [OF White v] "2.prems" White
    have "dfs_inv S st2" "dfs_ext N ?g st2" "set (S i) \<subseteq> set (order st2)" by simp_all
    from dfs_finish [OF this(1) White this(2,3)] "2.prems"(4) st' show ?thesis by simp
  next
    case Grey
    with "2.prems" show ?thesis by simp
  next
    case Black
    with "2.prems" show ?thesis by (auto simp: dfs_invD)
  qed
next
  case (3 k S st)
  then show ?case by simp
next
  case (4 k S x xs st)
  from "4.prems"(1) obtain st1 where v: "visit k S x st = Some (Inr st1)"
      and va: "visitAll k S xs st1 = Some (Inr st')"
    by (auto split: option.splits sum.splits)
  from "4.IH"(1) [OF v] "4.prems" have a: "dfs_inv S st1" "dfs_ext N st st1" "x \<in> set (order st1)"
    by simp_all
  from "4.IH"(2) [OF v _ va] a(1) "4.prems" have b: "dfs_inv S st'" "dfs_ext N st1 st'" "set xs \<subseteq> set (order st')"
    by simp_all
  from a b show ?case by (auto intro: dfs_ext_trans simp: dfs_ext_def)
qed

text \<open>The cycle error names a node that really lies on a cycle: every grey node reaches the node
  being visited.\<close>

definition greys_reach :: "(string \<Rightarrow> string list) \<Rightarrow> dfs_state \<Rightarrow> string set \<Rightarrow> bool" where
  "greys_reach S st T = (\<forall>g \<in> greys st. \<forall>t \<in> T. (g, t) \<in> (edge_rel S)\<^sup>+)"

definition real_cycle :: "(string \<Rightarrow> string list) \<Rightarrow> build_error \<Rightarrow> bool" where
  "real_cycle S e = (\<exists>x. e = ErrCycleDetected x \<and> (x, x) \<in> (edge_rel S)\<^sup>+)"

lemma greys_reach_step:
  assumes "greys_reach S st {i}"
  shows "greys_reach S (st\<lparr>color := (color st)(i := Grey)\<rparr>) (set (S i))"
  using assms by (auto simp: greys_reach_def greys_def intro: trancl_into_trancl)

lemma visit_cycle:
  shows "visit k S i st = Some (Inl e) \<Longrightarrow> dfs_inv S st \<Longrightarrow> greys_reach S st {i} \<Longrightarrow> real_cycle S e"
    and "visitAll k S xs st = Some (Inl e) \<Longrightarrow> dfs_inv S st \<Longrightarrow> greys_reach S st (set xs) \<Longrightarrow> real_cycle S e"
proof (induction k S i st and k S xs st rule: visit_visitAll.induct)
  case (1 S i st)
  then show ?case by simp
next
  case (2 k S i st)
  show ?case
  proof (cases "color st i")
    case White
    let ?g = "st\<lparr>color := (color st)(i := Grey)\<rparr>"
    from White "2.prems"(1) have "visitAll k S (S i) ?g = Some (Inl e)"
      by (auto split: option.splits sum.splits)
    from "2.IH" [OF White this] "2.prems" White greys_reach_step show ?thesis by simp
  next
    case Grey
    with "2.prems" show ?thesis by (auto simp: greys_reach_def greys_def real_cycle_def)
  next
    case Black
    with "2.prems" show ?thesis by simp
  qed
next
  case (3 k S st)
  then show ?case by simp
next
  case (4 k S x xs st)
  show ?case
  proof (cases "visit k S x st")
    case (Some r)
    show ?thesis
    proof (cases r)
      case (Inl e')
      with Some "4.prems" "4.IH"(1) show ?thesis by (simp add: greys_reach_def)
    next
      case (Inr st1)
      with Some have v: "visit k S x st = Some (Inr st1)" by simp
      from visit_inv(1) [OF v "4.prems"(2), of UNIV] have "dfs_inv S st1" "greys st1 = greys st"
        by (simp_all add: closed_set_def dfs_ext_def)
      with "4.IH"(2) [OF v] "4.prems" v show ?thesis by (simp add: greys_reach_def)
    qed
  qed (use "4.prems" in simp)
qed

text \<open>One unit of fuel per white node is enough.\<close>

lemma whites_mono:
  assumes "dfs_inv S st" "dfs_inv S st'" "dfs_ext N st st'"
  shows "whites N st' \<subseteq> whites N st"
proof
  fix v assume "v \<in> whites N st'"
  then have "v \<in> N" "color st' v = White" by (auto simp: whites_def)
  from assms(3) have "v \<in> greys st' \<longleftrightarrow> v \<in> greys st" and "set (order st) \<subseteq> set (order st')"
    by (auto simp: dfs_ext_def)
  with \<open>color st' v = White\<close> have "color st v \<noteq> Grey" "color st v \<noteq> Black"
    using dfs_invD [OF assms(1), of v] dfs_invD [OF assms(2), of v] by (auto simp: greys_def)
  then have "color st v = White" by (cases "color st v") auto
  with \<open>v \<in> N\<close> show "v \<in> whites N st" by (simp add: whites_def)
qed

lemma finite_whites [simp]: "finite N \<Longrightarrow> finite (whites N st)"
  by (simp add: whites_def)

lemma whites_grey:
  "color st i = White \<Longrightarrow> i \<in> N \<Longrightarrow> finite N \<Longrightarrow>
     card (whites N (st\<lparr>color := (color st)(i := Grey)\<rparr>)) < card (whites N st)"
  by (rule psubset_card_mono) (auto simp: whites_def)

lemma visit_fuel:
  assumes N: "finite N" "closed_set S N"
  shows "dfs_inv S st \<Longrightarrow> i \<in> N \<Longrightarrow> card (whites N st) < k \<Longrightarrow> visit k S i st \<noteq> None"
    and "dfs_inv S st \<Longrightarrow> set xs \<subseteq> N \<Longrightarrow> card (whites N st) < k \<Longrightarrow> visitAll k S xs st \<noteq> None"
  using N(2)
proof (induction k S i st and k S xs st rule: visit_visitAll.induct)
  case (1 S i st)
  then show ?case by simp
next
  case (2 k S i st)
  show ?case
  proof (cases "color st i")
    case White
    let ?g = "st\<lparr>color := (color st)(i := Grey)\<rparr>"
    from whites_grey [OF White "2.prems"(2) N(1)] "2.prems"(3) have "card (whites N ?g) < k" by simp
    moreover from "2.prems" have "set (S i) \<subseteq> N" by (auto simp: closed_set_def)
    ultimately have "visitAll k S (S i) ?g \<noteq> None" using "2.IH" "2.prems" White by simp
    then show ?thesis using White by (auto split: option.splits sum.splits)
  qed simp_all
next
  case (3 k S st)
  then show ?case by simp
next
  case (4 k S x xs st)
  then have "visit k S x st \<noteq> None" by simp
  then obtain r where r: "visit k S x st = Some r" by blast
  show ?case
  proof (cases r)
    case (Inr st1)
    with r have v: "visit k S x st = Some (Inr st1)" by simp
    from visit_inv(1) [OF v "4.prems"(1,4)] "4.prems"(2) have i: "dfs_inv S st1" "dfs_ext N st st1" by auto
    from whites_mono [OF "4.prems"(1) i] have "card (whites N st1) \<le> card (whites N st)"
      using N(1) by (simp add: card_mono)
    with "4.IH"(2) [OF v] "4.prems" i(1) v show ?thesis by simp
  qed (use r in simp)
qed

section \<open>The loop over all roots\<close>

lemma visitRoots_inv:
  "visitRoots k S xs st = Some (Inr st') \<Longrightarrow> dfs_inv S st \<Longrightarrow> greys st = {} \<Longrightarrow> closed_set S N \<Longrightarrow> set xs \<subseteq> N \<Longrightarrow>
     dfs_inv S st' \<and> dfs_ext N st st' \<and> set xs \<subseteq> set (order st')"
proof (induction k S xs st rule: visitRoots.induct)
  case (2 k S x xs st)
  show ?case
  proof (cases "color st x = White")
    case True
    with "2.prems"(1) obtain st1 where v: "visit k S x st = Some (Inr st1)"
        and va: "visitRoots k S xs st1 = Some (Inr st')"
      by (auto split: option.splits sum.splits)
    from visit_inv(1) [OF v "2.prems"(2,4)] "2.prems"(5)
    have a: "dfs_inv S st1" "dfs_ext N st st1" "x \<in> set (order st1)" by auto
    then have "greys st1 = {}" using "2.prems"(3) by (simp add: dfs_ext_def)
    with "2.IH"(1) [OF True v _ va] a "2.prems"
    have "dfs_inv S st'" "dfs_ext N st1 st'" "set xs \<subseteq> set (order st')" by simp_all
    with a show ?thesis by (auto intro: dfs_ext_trans simp: dfs_ext_def)
  next
    case False
    with "2.prems"(3) have "color st x = Black"
      by (cases "color st x") (auto simp: greys_def)
    with dfs_invD [OF "2.prems"(2)] have "x \<in> set (order st)" by simp
    with False "2.IH"(2) "2.prems" show ?thesis by (auto simp: dfs_ext_def)
  qed
qed simp

lemma visitRoots_cycle:
  "visitRoots k S xs st = Some (Inl e) \<Longrightarrow> dfs_inv S st \<Longrightarrow> greys st = {} \<Longrightarrow> real_cycle S e"
proof (induction k S xs st rule: visitRoots.induct)
  case (2 k S x xs st)
  show ?case
  proof (cases "color st x = White")
    case True
    show ?thesis
    proof (cases "visit k S x st")
      case (Some r)
      show ?thesis
      proof (cases r)
        case (Inl e')
        with Some True "2.prems" show ?thesis
          by (auto intro: visit_cycle(1) simp: greys_reach_def)
      next
        case (Inr st1)
        with Some have v: "visit k S x st = Some (Inr st1)" by simp
        from visit_inv(1) [OF v "2.prems"(2), of UNIV] "2.prems"(3)
        have "dfs_inv S st1" "greys st1 = {}" by (simp_all add: closed_set_def dfs_ext_def)
        with "2.IH"(1) [OF True v] "2.prems" v True show ?thesis by simp
      qed
    qed (use "2.prems" True in simp)
  qed (use "2.IH"(2) "2.prems" in simp)
qed simp

lemma visitRoots_fuel:
  assumes N: "finite N" "closed_set S N"
  shows "dfs_inv S st \<Longrightarrow> set xs \<subseteq> N \<Longrightarrow> card (whites N st) < k \<Longrightarrow> visitRoots k S xs st \<noteq> None"
  using N(2)
proof (induction k S xs st rule: visitRoots.induct)
  case (2 k S x xs st)
  show ?case
  proof (cases "color st x = White")
    case True
    from visit_fuel(1) [OF N(1) "2.prems"(4,1), of x k] "2.prems" obtain r
      where r: "visit k S x st = Some r" by auto
    show ?thesis
    proof (cases r)
      case (Inr st1)
      with r have v: "visit k S x st = Some (Inr st1)" by simp
      from visit_inv(1) [OF v "2.prems"(1,4)] "2.prems"(2) have i: "dfs_inv S st1" "dfs_ext N st st1" by auto
      from whites_mono [OF "2.prems"(1) i] have "card (whites N st1) \<le> card (whites N st)"
        using N(1) by (simp add: card_mono)
      with "2.IH"(1) [OF True v] "2.prems" i(1) v True show ?thesis by simp
    qed (use r True in simp)
  qed (use "2.IH"(2) "2.prems" in simp)
qed simp

section \<open>Ancestors\<close>

definition walked :: "(string \<Rightarrow> string list) \<Rightarrow> string set \<Rightarrow> string list \<Rightarrow> string list \<Rightarrow> bool" where
  "walked P A vis vis' \<longleftrightarrow> set vis \<subseteq> set vis' \<and> A \<subseteq> set vis' \<and>
     (\<forall>v \<in> set vis' - set vis. set (P v) \<subseteq> set vis' \<and> (\<exists>a \<in> A. (a, v) \<in> (edge_rel P)\<^sup>*)) \<and>
     (distinct vis \<longrightarrow> distinct vis')"

lemma walked_step:
  assumes "walked P (set (P p)) (vis @ [p]) vis1" and "walked P A vis1 vis'" and "p \<notin> set vis"
  shows "walked P (insert p A) vis vis'"
proof -
  have sub: "set vis1 \<subseteq> set vis'" "set (P p) \<subseteq> set vis1"
    using assms(1,2) by (auto simp: walked_def)
  have new1: "set (P v) \<subseteq> set vis1" if "v \<in> set vis1" "v \<notin> set (vis @ [p])" for v
    using assms(1) that by (auto simp: walked_def)
  have new2: "set (P v) \<subseteq> set vis'" if "v \<in> set vis'" "v \<notin> set vis1" for v
    using assms(2) that by (auto simp: walked_def)
  have cl: "set (P v) \<subseteq> set vis'" if "v \<in> set vis'" "v \<notin> set vis" for v
    using that new1 new2 sub by (cases "v = p"; cases "v \<in> set vis1") auto
  have "\<exists>a \<in> insert p A. (a, v) \<in> (edge_rel P)\<^sup>*" if v: "v \<in> set vis'" "v \<notin> set vis" for v
  proof (cases "v \<in> set vis1 \<and> v \<noteq> p")
    case True
    with v have "v \<in> set vis1 - set (vis @ [p])" by simp
    with assms(1) obtain a where "a \<in> set (P p)" "(a, v) \<in> (edge_rel P)\<^sup>*"
      unfolding walked_def by blast
    then have "(p, v) \<in> (edge_rel P)\<^sup>*" by (auto intro: converse_rtrancl_into_rtrancl)
    then show ?thesis by blast
  next
    case False
    with v assms(2) show ?thesis by (auto simp: walked_def)
  qed
  moreover have "insert p A \<subseteq> set vis'" "set vis \<subseteq> set vis'" "distinct vis \<longrightarrow> distinct vis'"
    using assms by (auto simp: walked_def)
  ultimately show ?thesis using cl by (simp add: walked_def)
qed

lemma walk_walked:
  shows "walk k P i vis = Some vis' \<Longrightarrow> walked P (set (P i)) vis vis'"
    and "walkAll k P ps vis = Some vis' \<Longrightarrow> walked P (set ps) vis vis'"
proof (induction k P i vis and k P ps vis arbitrary: vis' and vis' rule: walk_walkAll.induct)
  case (4 k P p ps vis)
  show ?case
  proof (cases "p \<in> set vis")
    case True
    with "4.IH"(1) "4.prems" show ?thesis by (auto simp: walked_def)
  next
    case False
    with "4.prems" obtain vis1 where w: "walk k P p (vis @ [p]) = Some vis1"
        and wa: "walkAll k P ps vis1 = Some vis'"
      by (auto split: option.splits)
    from walked_step [OF "4.IH"(2) [OF False w] "4.IH"(3) [OF False w wa] False] show ?thesis by simp
  qed
qed (auto simp: walked_def)

lemma walk_fuel:
  assumes N: "finite N" "closed_set P N"
  shows "i \<in> N \<Longrightarrow> card (N - set vis) < k \<Longrightarrow> walk k P i vis \<noteq> None"
    and "set ps \<subseteq> N \<Longrightarrow> card (N - set vis) \<le> k \<Longrightarrow> walkAll k P ps vis \<noteq> None"
  using N(2)
proof (induction k P i vis and k P ps vis rule: walk_walkAll.induct)
  case (2 k P i vis)
  then show ?case by (auto simp: closed_set_def)
next
  case (4 k P p ps vis)
  show ?case
  proof (cases "p \<in> set vis")
    case True
    with "4.IH"(1) "4.prems" show ?thesis by simp
  next
    case False
    have "card (N - set (vis @ [p])) < card (N - set vis)"
      by (rule psubset_card_mono) (use N(1) False "4.prems"(1) in auto)
    with "4.IH"(2) [OF False] "4.prems" obtain vis1 where w: "walk k P p (vis @ [p]) = Some vis1" by auto
    from walk_walked(1) [OF w] have "set vis \<subseteq> set vis1" by (auto simp: walked_def)
    then have "card (N - set vis1) \<le> card (N - set vis)" using N(1) by (intro card_mono) auto
    with "4.IH"(3) [OF False w] "4.prems" w False show ?thesis by simp
  qed
qed simp_all

lemma collectAncestors_spec:
  assumes "collectAncestors k i P = Some as"
  shows "set as = {v. (i, v) \<in> (edge_rel P)\<^sup>+} \<and> distinct as \<and> sorted as"
proof -
  from assms obtain vis where w: "walk k P i [] = Some vis" and as: "as = sort vis"
    by (auto simp: collectAncestors_def)
  from walk_walked(1) [OF w] have *: "set (P i) \<subseteq> set vis" "distinct vis"
    "\<And>v. v \<in> set vis \<Longrightarrow> set (P v) \<subseteq> set vis \<and> (\<exists>a \<in> set (P i). (a, v) \<in> (edge_rel P)\<^sup>*)"
    by (auto simp: walked_def)
  have "v \<in> set vis \<longleftrightarrow> (i, v) \<in> (edge_rel P)\<^sup>+" for v
  proof
    assume "v \<in> set vis"
    with *(3) obtain a where "(i, a) \<in> edge_rel P" "(a, v) \<in> (edge_rel P)\<^sup>*" by auto
    then show "(i, v) \<in> (edge_rel P)\<^sup>+" by (rule rtrancl_into_trancl2)
  next
    assume "(i, v) \<in> (edge_rel P)\<^sup>+"
    then show "v \<in> set vis" by (rule trancl_closed) (use * in auto)
  qed
  with as *(2) show ?thesis by auto
qed

lemma collectAncestors_total:
  assumes "finite N" "closed_set P N" "i \<in> N" "card N < k"
  shows "\<exists>as. collectAncestors k i P = Some as"
  using walk_fuel(1) [OF assms(1-3), of "[]" k] assms(4) by (auto simp: collectAncestors_def)

section \<open>Loop bodies\<close>

text \<open>
  The nodes reachable from the starting points without entering the controller or an
  exit target.
\<close>

definition body_rel :: "(string \<Rightarrow> string list) \<Rightarrow> string set \<Rightarrow> (string \<times> string) set" where
  "body_rel S B = {(u, v). v \<in> set (S u) \<and> v \<notin> B}"

definition body_spec :: "(string \<Rightarrow> string list) \<Rightarrow> string set \<Rightarrow> string set \<Rightarrow> string set" where
  "body_spec S B Q = {v. \<exists>q \<in> Q. q \<notin> B \<and> (q, v) \<in> (body_rel S B)\<^sup>*}"

definition body_closed :: "(string \<Rightarrow> string list) \<Rightarrow> string set \<Rightarrow> string set \<Rightarrow> string set \<Rightarrow> bool" where
  "body_closed S B body T = (\<forall>u \<in> body. set (S u) - B \<subseteq> T)"

lemma body_spec_mono: "Q \<subseteq> Q' \<Longrightarrow> body_spec S B Q \<subseteq> body_spec S B Q'"
  by (auto simp: body_spec_def)

lemma body_spec_step:
  assumes "cur \<notin> B"
  shows "insert cur (body_spec S B (Q \<union> (set (S cur) - B))) \<subseteq> body_spec S B (insert cur Q)"
proof -
  have "v \<in> body_spec S B (insert cur Q)" if "s \<in> set (S cur)" "s \<notin> B" "(s, v) \<in> (body_rel S B)\<^sup>*" for s v
  proof -
    from that have "(cur, v) \<in> (body_rel S B)\<^sup>*"
      by (auto simp: body_rel_def intro: converse_rtrancl_into_rtrancl)
    with assms show ?thesis by (auto simp: body_spec_def)
  qed
  with assms show ?thesis by (auto simp: body_spec_def)
qed

lemma bodySearch_sound:
  "bodySearch k S c exits body queue = Some b \<Longrightarrow>
     set b \<subseteq> set body \<union> body_spec S (insert c (set exits)) (set queue) \<and> (distinct body \<longrightarrow> distinct b)"
proof (induction k S c exits body queue rule: bodySearch.induct)
  case (3 k S c exits body cur queue)
  let ?B = "insert c (set exits)"
  show ?case
  proof (cases "cur \<in> set body \<or> cur = c \<or> cur \<in> set exits")
    case True
    with "3.IH"(1) "3.prems" body_spec_mono [of "set queue" "set (cur # queue)" S ?B]
    show ?thesis by fastforce
  next
    case False
    let ?q = "queue @ filter (\<lambda>s. s \<notin> set (body @ [cur]) \<and> s \<noteq> c \<and> s \<notin> set exits) (S cur)"
    from "3.IH"(2) [OF False] "3.prems" False
    have IH: "set b \<subseteq> set (body @ [cur]) \<union> body_spec S ?B (set ?q)" "distinct body \<longrightarrow> distinct b"
      by simp_all
    have "body_spec S ?B (set ?q) \<subseteq> body_spec S ?B (set queue \<union> (set (S cur) - ?B))"
      by (rule body_spec_mono) auto
    with body_spec_step [of cur ?B S "set queue"] False IH show ?thesis by fastforce
  qed
qed auto

lemma bodySearch_closed:
  "bodySearch k S c exits body queue = Some b \<Longrightarrow>
     body_closed S (insert c (set exits)) (set body) (set body \<union> set queue) \<Longrightarrow>
     set body \<subseteq> set b \<and> set queue - insert c (set exits) \<subseteq> set b \<and>
     body_closed S (insert c (set exits)) (set b) (set b)"
proof (induction k S c exits body queue rule: bodySearch.induct)
  case (3 k S c exits body cur queue)
  show ?case
  proof (cases "cur \<in> set body \<or> cur = c \<or> cur \<in> set exits")
    case True
    with "3.prems"(2) have "body_closed S (insert c (set exits)) (set body) (set body \<union> set queue)"
      by (auto simp: body_closed_def)
    with "3.IH"(1) [OF True] "3.prems"(1) True show ?thesis by auto
  next
    case False
    let ?q = "queue @ filter (\<lambda>s. s \<notin> set (body @ [cur]) \<and> s \<noteq> c \<and> s \<notin> set exits) (S cur)"
    from "3.prems"(2)
    have "body_closed S (insert c (set exits)) (set (body @ [cur])) (set (body @ [cur]) \<union> set ?q)"
      by (auto simp: body_closed_def)
    with "3.IH"(2) [OF False] "3.prems"(1) False show ?thesis by auto
  qed
qed simp_all

lemma bodySearch_spec:
  assumes "bodySearch k S c exits [] queue = Some b"
  shows "set b = body_spec S (insert c (set exits)) (set queue) \<and> distinct b"
proof -
  let ?B = "insert c (set exits)"
  from bodySearch_closed [OF assms] have q: "set queue - ?B \<subseteq> set b" and cl: "body_closed S ?B (set b) (set b)"
    by (auto simp: body_closed_def)
  have "v \<in> set b" if "v \<in> body_spec S ?B (set queue)" for v
  proof -
    from that obtain x where "x \<in> set queue" "x \<notin> ?B" and r: "(x, v) \<in> (body_rel S ?B)\<^sup>*"
      by (auto simp: body_spec_def)
    with q have "x \<in> set b" by blast
    with r show ?thesis
      by (rule rtrancl_closed) (use cl in \<open>auto simp: body_rel_def body_closed_def\<close>)
  qed
  with bodySearch_sound [OF assms] show ?thesis by auto
qed

lemma bodySearch_avoids:
  "bodySearch k S c exits [] queue = Some b \<Longrightarrow> set b \<inter> insert c (set exits) = {}"
proof -
  have "bodySearch k S c exits body queue = Some b \<Longrightarrow> set body \<inter> insert c (set exits) = {} \<Longrightarrow> set b \<inter> insert c (set exits) = {}" for body
    by (induction k S c exits body queue rule: bodySearch.induct) (auto split: if_splits)
  then show "bodySearch k S c exits [] queue = Some b \<Longrightarrow> set b \<inter> insert c (set exits) = {}" by simp
qed

definition body_work :: "(string \<Rightarrow> string list) \<Rightarrow> string set \<Rightarrow> string list \<Rightarrow> string list \<Rightarrow> nat" where
  "body_work S N body queue = length queue + (\<Sum>n \<in> N - set body. length (S n))"

lemma body_work_step:
  assumes "finite N" "cur \<in> N" "cur \<notin> set body"
  shows "body_work S N (body @ [cur]) (queue @ filter p (S cur)) < body_work S N body (cur # queue)"
proof -
  have "N - set (body @ [cur]) = N - set body - {cur}" by auto
  then have "(\<Sum>n \<in> N - set body. length (S n)) = length (S cur) + (\<Sum>n \<in> N - set (body @ [cur]). length (S n))"
    using assms by (simp add: sum.remove [of "N - set body" cur])
  then show ?thesis by (simp add: body_work_def less_Suc_eq_le)
qed

lemma bodySearch_fuel:
  assumes N: "finite N"
  shows "closed_set S N \<Longrightarrow> set queue \<subseteq> N \<Longrightarrow> body_work S N body queue \<le> k \<Longrightarrow>
           bodySearch k S c exits body queue \<noteq> None"
proof (induction k S c exits body queue rule: bodySearch.induct)
  case (2 S c exits body cur queue)
  then show ?case by (simp add: body_work_def)
next
  case (3 k S c exits body cur queue)
  show ?case
  proof (cases "cur \<in> set body \<or> cur = c \<or> cur \<in> set exits")
    case True
    with "3.IH"(1) [OF True] "3.prems" show ?thesis by (simp add: body_work_def)
  next
    case False
    let ?p = "\<lambda>s. s \<notin> set (body @ [cur]) \<and> s \<noteq> c \<and> s \<notin> set exits"
    from "3.prems" have "set (queue @ filter ?p (S cur)) \<subseteq> N" by (auto simp: closed_set_def)
    moreover from "3.prems" body_work_step [OF N, of cur body S queue ?p] False
    have "body_work S N (body @ [cur]) (queue @ filter ?p (S cur)) \<le> k" by simp
    ultimately show ?thesis using "3.IH"(2) [OF False "3.prems"(1)] False by simp
  qed
qed simp

end
