(* ===== verification/Dag_Build.thy ===== *)
theory Dag_Build
  imports Dag_Facts
begin

text \<open>
  What a successful \<open>Build\<close> promises. The locale \<open>wf_dag\<close> is the contract the runner relies
  on: adjacency lists that agree with one list of forward edges, a topological order of
  exactly the nodes, ancestors that are the transitive predecessors, loop bodies that are the
  reachable region, and well-formed loop edges. It is interpreted on the graph \<open>Build\<close>
  returns.
\<close>

definition fwd :: "workflow_edge list \<Rightarrow> workflow_edge list" where
  "fwd edges = filter (\<lambda>e. \<not> we_IsLoopBack e) edges"

definition arcs :: "workflow_edge list \<Rightarrow> (string \<times> string) set" where
  "arcs F = (\<lambda>e. (we_SourceID e, we_TargetID e)) ` set F"

definition node_ids :: "dag \<Rightarrow> string set" where
  "node_ids d = fst ` set (d_Nodes d)"

text \<open>\<open>a\<close> stands strictly before \<open>b\<close> in the list.\<close>

definition before :: "'a list \<Rightarrow> 'a \<Rightarrow> 'a \<Rightarrow> bool" where
  "before xs a b = (\<exists>us vs. xs = us @ vs \<and> a \<in> set us \<and> b \<in> set vs)"

section \<open>The contract\<close>

locale wf_dag =
  fixes d :: dag and F :: "workflow_edge list"
  assumes nodes_wf: "wf_map (d_Nodes d)"
    and node_id: "map_of (d_Nodes d) i = Some n \<Longrightarrow> wn_ID n = i"
    and out_edges: "d_OutEdges d u = filter (\<lambda>e. we_SourceID e = u) F"
    and successors: "d_Successors d u = map we_TargetID (filter (\<lambda>e. we_SourceID e = u) F)"
    and predecessors: "d_Predecessors d v = map we_SourceID (filter (\<lambda>e. we_TargetID e = v) F)"
    and endpoints: "e \<in> set F \<Longrightarrow> we_SourceID e \<in> node_ids d \<and> we_TargetID e \<in> node_ids d"
    and order_distinct: "distinct (d_TopologicalOrder d)"
    and order_set: "set (d_TopologicalOrder d) = node_ids d"
    and order_closed: "closed_order (d_Successors d) (rev (d_TopologicalOrder d))"
    and ancestors: "i \<in> node_ids d \<Longrightarrow> set (d_Ancestors d i) = {u. (u, i) \<in> (arcs F)\<^sup>+}"
begin

lemma edge_rel_arcs: "edge_rel (d_Successors d) = arcs F"
  by (auto simp: edge_rel_def successors arcs_def image_iff)

lemma finite_nodes [simp]: "finite (node_ids d)"
  by (simp add: node_ids_def)

lemma arcs_nodes: "(u, v) \<in> (arcs F)\<^sup>+ \<Longrightarrow> u \<in> node_ids d \<and> v \<in> node_ids d"
  by (induction rule: trancl_induct) (auto simp: arcs_def dest: endpoints)

lemma acyclic_arcs: "acyclic (arcs F)"
  unfolding acyclic_def
proof (intro allI notI)
  fix x assume c: "(x, x) \<in> (arcs F)\<^sup>+"
  then have "x \<in> set (rev (d_TopologicalOrder d))" using arcs_nodes order_set by auto
  from closed_order_acyclic_on [OF order_closed _ this] order_distinct c show False
    by (simp add: edge_rel_arcs)
qed

lemma order_before:
  assumes "e \<in> set F"
  shows "before (d_TopologicalOrder d) (we_SourceID e) (we_TargetID e)"
proof -
  from endpoints [OF assms] order_set have "we_SourceID e \<in> set (rev (d_TopologicalOrder d))" by simp
  then obtain xs ys where r: "rev (d_TopologicalOrder d) = xs @ we_SourceID e # ys"
    by (meson split_list)
  with order_closed have "set (d_Successors d (we_SourceID e)) \<subseteq> set xs" by (auto simp: closed_order_def)
  with assms have "we_TargetID e \<in> set xs" by (auto simp: successors)
  moreover from r have "d_TopologicalOrder d = (rev ys @ [we_SourceID e]) @ rev xs"
    by (simp add: rev_swap)
  ultimately show ?thesis unfolding before_def
    by (intro exI [of _ "rev ys @ [we_SourceID e]"] exI [of _ "rev xs"]) simp
qed

text \<open>A property that passes from all predecessors to a node holds of every node.\<close>

lemma topo_induct:
  assumes "v \<in> node_ids d"
    and step: "\<And>v. v \<in> node_ids d \<Longrightarrow> (\<And>e. e \<in> set F \<Longrightarrow> we_TargetID e = v \<Longrightarrow> Q (we_SourceID e)) \<Longrightarrow> Q v"
  shows "Q v"
proof -
  have "wf (arcs F)"
    by (rule finite_acyclic_wf [OF _ acyclic_arcs]) (simp add: arcs_def)
  then show ?thesis using assms(1)
  proof (induction v rule: wf_induct_rule)
    case (less v)
    show ?case
    proof (rule step [OF less.prems])
      fix e assume e: "e \<in> set F" "we_TargetID e = v"
      then have "(we_SourceID e, v) \<in> arcs F" by (auto simp: arcs_def)
      with less.IH endpoints [OF e(1)] show "Q (we_SourceID e)" by blast
    qed
  qed
qed

lemma ancestor_induct:
  assumes "v \<in> node_ids d" and step: "\<And>v. v \<in> node_ids d \<Longrightarrow> (\<And>u. (u, v) \<in> (arcs F)\<^sup>+ \<Longrightarrow> Q u) \<Longrightarrow> Q v"
  shows "Q v"
proof -
  have "wf ((arcs F)\<^sup>+)"
    by (rule wf_trancl [OF finite_acyclic_wf [OF _ acyclic_arcs]]) (simp add: arcs_def)
  then show ?thesis using assms(1)
    by (induction v rule: wf_induct_rule) (blast intro: step dest: arcs_nodes)
qed

end

section \<open>The steps of Build\<close>

lemma map_of_rev_ids:
  "map_of (fold (\<lambda>n m. AList.update (wn_ID n) n m) nodes m) = map_of m ++ map_of (rev (map (\<lambda>n. (wn_ID n, n)) nodes))"
proof (induction nodes arbitrary: m)
  case (Cons n ns)
  show ?case by (simp add: Cons map_add_def fun_eq_iff split: option.splits)
qed simp

lemma fold_update_wf [simp]: "wf_map m \<Longrightarrow> wf_map (fold (\<lambda>n m. AList.update (wn_ID n) n m) nodes m)"
  by (induction nodes arbitrary: m) auto

lemma fold_update_keys:
  "fst ` set (fold (\<lambda>n m. AList.update (wn_ID n) n m) nodes m) = fst ` set m \<union> wn_ID ` set nodes"
  by (induction nodes arbitrary: m) (auto simp: dom_update)

lemma fold_update_vals:
  "\<forall>(i, n) \<in> set m. wn_ID n = i \<Longrightarrow> (i, n) \<in> set (fold (\<lambda>n m. AList.update (wn_ID n) n m) nodes m) \<Longrightarrow> wn_ID n = i"
proof (induction nodes arbitrary: m)
  case (Cons x xs)
  have "set (AList.update (wn_ID x) x m) \<subseteq> insert (wn_ID x, x) (set m)"
    by (induction m) (auto split: if_splits)
  with Cons.prems(1) have "\<forall>(i, n) \<in> set (AList.update (wn_ID x) x m). wn_ID n = i" by auto
  from Cons.IH [OF this] Cons.prems(2) show ?case by simp
qed auto

lemma initDag_simps [simp]:
  "d_LoopBackEdges (initDag ns L) = L" "d_OutEdges (initDag ns L) = (\<lambda>_. [])"
  "d_Successors (initDag ns L) = (\<lambda>_. [])" "d_Predecessors (initDag ns L) = (\<lambda>_. [])"
  "wf_map (d_Nodes (initDag ns L))" "node_ids (initDag ns L) = wn_ID ` set ns"
  by (simp_all add: initDag_def node_ids_def fold_update_keys)

lemma initDag_node_id: "map_of (d_Nodes (initDag ns L)) i = Some n \<Longrightarrow> wn_ID n = i"
  using fold_update_vals [of "[]" i n ns] by (auto simp: initDag_def dest: map_of_SomeD)

text \<open>The result of \<open>addForwardEdges\<close>: what was there before, extended edge by edge.\<close>

lemma addForwardEdges_Inr:
  "addForwardEdges es d = Inr d' \<Longrightarrow>
     d' = d\<lparr> d_Successors := (\<lambda>u. d_Successors d u @ map we_TargetID (filter (\<lambda>e. we_SourceID e = u) es)),
             d_Predecessors := (\<lambda>v. d_Predecessors d v @ map we_SourceID (filter (\<lambda>e. we_TargetID e = v) es)),
             d_OutEdges := (\<lambda>u. d_OutEdges d u @ filter (\<lambda>e. we_SourceID e = u) es) \<rparr> \<and>
     (\<forall>e \<in> set es. we_SourceID e \<in> node_ids d \<and> we_TargetID e \<in> node_ids d)"
proof (induction es d rule: addForwardEdges.induct)
  case (2 e es d)
  from "2.prems" have n: "we_SourceID e \<in> node_ids d" "we_TargetID e \<in> node_ids d"
    and r: "addForwardEdges es (addEdge e d) = Inr d'"
    by (auto simp: node_ids_def map_of_None_iff split: if_splits)
  from n have "map_of (d_Nodes d) (we_SourceID e) \<noteq> None" "map_of (d_Nodes d) (we_TargetID e) \<noteq> None"
    by (simp_all add: node_ids_def map_of_None_iff)
  from "2.IH" [OF this r] n show ?case
    by (auto simp: addEdge_def node_ids_def fun_eq_iff intro!: dag.equality)
qed simp

lemma addForwardEdges_Inl:
  "addForwardEdges es d = Inl e \<Longrightarrow> (\<forall>x. e \<noteq> ErrCycleDetected x) \<and> e \<noteq> OutOfFuel"
  by (induction es d rule: addForwardEdges.induct) (auto split: if_splits)

lemma checks_Inl:
  "checkLoopBackEdges nodes es = Inl e \<Longrightarrow> (\<forall>x. e \<noteq> ErrCycleDetected x) \<and> e \<noteq> OutOfFuel"
  "validateLoopConstraints nodes es = Inl e \<Longrightarrow> (\<forall>x. e \<noteq> ErrCycleDetected x) \<and> e \<noteq> OutOfFuel"
  "checkLoopBackEndpoints es d = Inl e \<Longrightarrow> (\<forall>x. e \<noteq> ErrCycleDetected x) \<and> e \<noteq> OutOfFuel"
  "checkControllerLabels nodes d = Inl e \<Longrightarrow> (\<forall>x. e \<noteq> ErrCycleDetected x) \<and> e \<noteq> OutOfFuel"
proof -
  show a: "checkLoopBackEdges nodes es = Inl e \<Longrightarrow> (\<forall>x. e \<noteq> ErrCycleDetected x) \<and> e \<noteq> OutOfFuel"
    by (induction nodes es rule: checkLoopBackEdges.induct) (auto split: if_splits)
  then show "validateLoopConstraints nodes es = Inl e \<Longrightarrow> (\<forall>x. e \<noteq> ErrCycleDetected x) \<and> e \<noteq> OutOfFuel"
    by (auto simp: validateLoopConstraints_def split: if_splits)
  show "checkLoopBackEndpoints es d = Inl e \<Longrightarrow> (\<forall>x. e \<noteq> ErrCycleDetected x) \<and> e \<noteq> OutOfFuel"
    by (induction es d rule: checkLoopBackEndpoints.induct) (auto split: if_splits)
  show "checkControllerLabels nodes d = Inl e \<Longrightarrow> (\<forall>x. e \<noteq> ErrCycleDetected x) \<and> e \<noteq> OutOfFuel"
    by (induction nodes d rule: checkControllerLabels.induct) (auto split: if_splits)
qed

lemma dfs_start: "dfs_inv S \<lparr>color = (\<lambda>_. White), order = []\<rparr>" "greys \<lparr>color = (\<lambda>_. White), order = []\<rparr> = {}"
  by (simp_all add: dfs_inv_def greys_def)

lemma topoSort_Inr:
  assumes "topoSort d = Inr ord" and "closed_set (d_Successors d) (node_ids d)"
  shows "distinct ord \<and> set ord = node_ids d \<and> closed_order (d_Successors d) (rev ord)"
proof -
  from assms(1) obtain st where
      v: "visitRoots (Suc (length (d_Nodes d))) (d_Successors d) (sort (map fst (d_Nodes d)))
            \<lparr>color = (\<lambda>_. White), order = []\<rparr> = Some (Inr st)" and o: "ord = rev (order st)"
    by (auto simp: topoSort_def split: option.splits sum.splits)
  from visitRoots_inv [OF v dfs_start assms(2)] o show ?thesis
    by (auto simp: dfs_inv_def dfs_ext_def node_ids_def)
qed

lemma topoSort_Inl:
  assumes "topoSort d = Inl e" and "closed_set (d_Successors d) (node_ids d)"
  shows "real_cycle (d_Successors d) e"
proof -
  let ?st = "\<lparr>color = (\<lambda>_. White), order = []\<rparr>"
  let ?r = "visitRoots (Suc (length (d_Nodes d))) (d_Successors d) (sort (map fst (d_Nodes d))) ?st"
  have "card (whites (node_ids d) ?st) \<le> length (d_Nodes d)"
    by (simp add: whites_def node_ids_def) (metis List.finite_set card_length card_image_le le_trans)
  then have "?r \<noteq> None"
    by (intro visitRoots_fuel [OF _ assms(2) dfs_start(1)]) (simp_all add: node_ids_def)
  with assms(1) have "?r = Some (Inl e)"
    by (auto simp: topoSort_def split: option.splits sum.splits)
  then show ?thesis by (rule visitRoots_cycle) (rule dfs_start)+
qed

lemma setAncestors_Inr:
  "setAncestors k is d = Inr d' \<Longrightarrow>
     (\<exists>A. d' = d\<lparr>d_Ancestors := A\<rparr> \<and>
          (\<forall>i. i \<notin> set is \<longrightarrow> A i = d_Ancestors d i) \<and>
          (\<forall>i \<in> set is. collectAncestors k i (d_Predecessors d) = Some (A i)))"
proof (induction k "is" d rule: setAncestors.induct)
  case (1 k d)
  then show ?case by (intro exI [of _ "d_Ancestors d"]) simp
next
  case (2 k i "is" d)
  from "2.prems" obtain as where c: "collectAncestors k i (d_Predecessors d) = Some as"
      and r: "setAncestors k is (d\<lparr>d_Ancestors := (d_Ancestors d)(i := as)\<rparr>) = Inr d'"
    by (auto split: option.splits)
  from "2.IH" [OF c r] obtain A where A: "d' = d\<lparr>d_Ancestors := A\<rparr>"
      "\<forall>j. j \<notin> set is \<longrightarrow> A j = ((d_Ancestors d)(i := as)) j"
      "\<forall>j \<in> set is. collectAncestors k j (d_Predecessors d) = Some (A j)"
    by auto
  with c have "A i = as" by (cases "i \<in> set is") auto
  with A c show ?case by (intro exI [of _ A]) auto
qed

lemma setAncestors_total:
  "\<forall>i \<in> set is. \<exists>as. collectAncestors k i (d_Predecessors d) = Some as \<Longrightarrow> \<exists>d'. setAncestors k is d = Inr d'"
  by (induction k "is" d rule: setAncestors.induct) auto

lemma setLoopBodies_Inr:
  "setLoopBodies k ns d = Inr d' \<Longrightarrow>
     (\<exists>L. d' = d\<lparr>d_LoopBodyNodes := L\<rparr> \<and>
          (\<forall>n \<in> set ns. wn_TypeID n = loopControllerTypeID \<longrightarrow> map_of L (wn_ID n) = computeLoopBodyNodes k (wn_ID n) d) \<and>
          (\<forall>c b. map_of L c = Some b \<longrightarrow> map_of (d_LoopBodyNodes d) c = Some b \<or>
             (\<exists>n \<in> set ns. wn_ID n = c \<and> wn_TypeID n = loopControllerTypeID)) \<and>
          (\<forall>c. c \<notin> wn_ID ` {n \<in> set ns. wn_TypeID n = loopControllerTypeID} \<longrightarrow>
             map_of L c = map_of (d_LoopBodyNodes d) c))"
proof (induction k ns d rule: setLoopBodies.induct)
  case (1 k d)
  then show ?case by (intro exI [of _ "d_LoopBodyNodes d"]) simp
next
  case (2 k n ns d)
  show ?case
  proof (cases "wn_TypeID n = loopControllerTypeID")
    case False
    with "2.prems" have "setLoopBodies k ns d = Inr d'" by simp
    from "2.IH"(2) [OF False this] obtain L where "d' = d\<lparr>d_LoopBodyNodes := L\<rparr>"
        "\<forall>n \<in> set ns. wn_TypeID n = loopControllerTypeID \<longrightarrow> map_of L (wn_ID n) = computeLoopBodyNodes k (wn_ID n) d"
        "\<forall>c b. map_of L c = Some b \<longrightarrow> map_of (d_LoopBodyNodes d) c = Some b \<or>
             (\<exists>n \<in> set ns. wn_ID n = c \<and> wn_TypeID n = loopControllerTypeID)"
        "\<forall>c. c \<notin> wn_ID ` {n \<in> set ns. wn_TypeID n = loopControllerTypeID} \<longrightarrow>
             map_of L c = map_of (d_LoopBodyNodes d) c"
      by blast
    with False show ?thesis by (intro exI [of _ L]) auto
  next
    case True
    with "2.prems" obtain b where c: "computeLoopBodyNodes k (wn_ID n) d = Some b"
        and r: "setLoopBodies k ns (d\<lparr>d_LoopBodyNodes := AList.update (wn_ID n) b (d_LoopBodyNodes d)\<rparr>) = Inr d'"
      by (auto split: option.splits)
    have same: "computeLoopBodyNodes k i (d\<lparr>d_LoopBodyNodes := M\<rparr>) = computeLoopBodyNodes k i d" for i M
      by (simp add: computeLoopBodyNodes_def exitTargets_def bodyStarts_def)
    from "2.IH"(1) [OF True c r] obtain L where L: "d' = d\<lparr>d_LoopBodyNodes := L\<rparr>"
        "\<forall>n \<in> set ns. wn_TypeID n = loopControllerTypeID \<longrightarrow> map_of L (wn_ID n) = computeLoopBodyNodes k (wn_ID n) d"
        "\<forall>c b'. map_of L c = Some b' \<longrightarrow> ((map_of (d_LoopBodyNodes d))(wn_ID n \<mapsto> b)) c = Some b' \<or>
             (\<exists>n \<in> set ns. wn_ID n = c \<and> wn_TypeID n = loopControllerTypeID)"
        "\<forall>c. c \<notin> wn_ID ` {n \<in> set ns. wn_TypeID n = loopControllerTypeID} \<longrightarrow>
             map_of L c = ((map_of (d_LoopBodyNodes d))(wn_ID n \<mapsto> b)) c"
      by (auto simp: same)
    have "map_of L (wn_ID n) = computeLoopBodyNodes k (wn_ID n) d"
    proof (cases "wn_ID n \<in> wn_ID ` {n \<in> set ns. wn_TypeID n = loopControllerTypeID}")
      case True
      then obtain m where "m \<in> set ns" "wn_TypeID m = loopControllerTypeID" "wn_ID m = wn_ID n" by auto
      with L(2) show ?thesis by metis
    next
      case False
      with L(4) c show ?thesis by simp
    qed
    with L True show ?thesis by (intro exI [of _ L]) (auto split: if_splits)
  qed
qed

lemma sum_out_degree:
  "finite N \<Longrightarrow> (\<Sum>n\<in>N. length (filter (\<lambda>e. we_SourceID e = n) F)) \<le> length F"
proof (induction F)
  case (Cons e F)
  have "(\<Sum>n\<in>N. length (filter (\<lambda>e. we_SourceID e = n) (e # F)))
      = (\<Sum>n\<in>N. (if we_SourceID e = n then 1 else 0) + length (filter (\<lambda>e. we_SourceID e = n) F))"
    by (rule sum.cong) auto
  also have "\<dots> = (\<Sum>n\<in>N. if we_SourceID e = n then 1 else 0) + (\<Sum>n\<in>N. length (filter (\<lambda>e. we_SourceID e = n) F))"
    by (rule sum.distrib)
  also have "(\<Sum>n\<in>N. if we_SourceID e = n then 1 else 0 :: nat) \<le> 1"
    using Cons.prems by simp
  finally show ?case using Cons.IH [OF Cons.prems] by simp
qed simp

lemma computeLoopBodyNodes_total:
  assumes "finite N" "closed_set (d_Successors d) N"
    and out: "\<And>u. d_OutEdges d u = filter (\<lambda>e. we_SourceID e = u) F"
    and suc: "\<And>u. d_Successors d u = map we_TargetID (filter (\<lambda>e. we_SourceID e = u) F)"
    and tgt: "\<And>e. e \<in> set F \<Longrightarrow> we_TargetID e \<in> N"
  shows "\<exists>b. computeLoopBodyNodes (2 * length F) c d = Some b"
proof -
  have "(\<Sum>n\<in>N. length (d_Successors d n)) \<le> length F"
    using sum_out_degree [OF assms(1), of F] by (simp add: suc)
  moreover have "length (bodyStarts d c) \<le> length F"
    by (simp add: bodyStarts_def out le_trans [OF length_filter_le length_filter_le])
  ultimately have "body_work (d_Successors d) N [] (bodyStarts d c) \<le> 2 * length F"
    by (simp add: body_work_def)
  moreover have "set (bodyStarts d c) \<subseteq> N" using tgt by (auto simp: bodyStarts_def out)
  ultimately show ?thesis
    using bodySearch_fuel [OF assms(1,2)] unfolding computeLoopBodyNodes_def by blast
qed

lemma setLoopBodies_total:
  "(\<And>c L. \<exists>b. computeLoopBodyNodes k c (d\<lparr>d_LoopBodyNodes := L\<rparr>) = Some b) \<Longrightarrow> \<exists>d'. setLoopBodies k ns d = Inr d'"
proof (induction k ns d rule: setLoopBodies.induct)
  case (2 k n ns d)
  from "2.prems" [of "wn_ID n" "d_LoopBodyNodes d"] obtain b
    where "computeLoopBodyNodes k (wn_ID n) d = Some b" by auto
  with 2 show ?case by auto
qed simp

section \<open>Build implements the contract\<close>

text \<open>The graph after the adjacency pass, and what the later passes add to it.\<close>

lemma Build_stages:
  assumes "Build nodes edges = Inr d"
  obtains d0 ord where
    "addForwardEdges (fwd edges) (initDag nodes (filter we_IsLoopBack edges)) = Inr d0"
    "validateLoopConstraints nodes (filter we_IsLoopBack edges) = Inr ()"
    "checkLoopBackEndpoints (filter we_IsLoopBack edges) d0 = Inr ()"
    "topoSort d0 = Inr ord"
    "\<exists>d2. setAncestors (Suc (length (d_Nodes d0))) (map fst (d_Nodes d0)) (d0\<lparr>d_TopologicalOrder := ord\<rparr>) = Inr d2 \<and>
          setLoopBodies (2 * length (fwd edges)) nodes d2 = Inr d"
    "checkControllerLabels nodes d = Inr ()"
  using assms by (auto simp: Build_def Let_def fwd_def split: sum.splits)

text \<open>The adjacency of the graph, in one statement.\<close>

definition adjacent :: "workflow_node list \<Rightarrow> workflow_edge list \<Rightarrow> workflow_edge list \<Rightarrow> dag \<Rightarrow> bool" where
  "adjacent nodes F L d \<longleftrightarrow>
     d_Nodes d = d_Nodes (initDag nodes L) \<and> d_LoopBackEdges d = L \<and>
     d_OutEdges d = (\<lambda>u. filter (\<lambda>e. we_SourceID e = u) F) \<and>
     d_Successors d = (\<lambda>u. map we_TargetID (filter (\<lambda>e. we_SourceID e = u) F)) \<and>
     d_Predecessors d = (\<lambda>v. map we_SourceID (filter (\<lambda>e. we_TargetID e = v) F)) \<and>
     (\<forall>e \<in> set F. we_SourceID e \<in> wn_ID ` set nodes \<and> we_TargetID e \<in> wn_ID ` set nodes)"

lemma addForwardEdges_adjacent:
  "addForwardEdges F (initDag nodes L) = Inr d \<Longrightarrow> adjacent nodes F L d"
  by (drule addForwardEdges_Inr) (auto simp: adjacent_def)

lemma adjacent_update [simp]:
  "adjacent nodes F L (d\<lparr>d_TopologicalOrder := x\<rparr>) = adjacent nodes F L d"
  "adjacent nodes F L (d\<lparr>d_Ancestors := y\<rparr>) = adjacent nodes F L d"
  "adjacent nodes F L (d\<lparr>d_LoopBodyNodes := z\<rparr>) = adjacent nodes F L d"
  by (simp_all add: adjacent_def)

lemma adjacent_ids: "adjacent nodes F L d \<Longrightarrow> node_ids d = wn_ID ` set nodes"
  using initDag_simps(6) [of nodes L] by (simp add: adjacent_def node_ids_def)

lemma adjacent_closed:
  "adjacent nodes F L d \<Longrightarrow> closed_set (d_Successors d) (node_ids d)"
  "adjacent nodes F L d \<Longrightarrow> closed_set (d_Predecessors d) (node_ids d)"
proof -
  assume a: "adjacent nodes F L d"
  then have e: "we_SourceID e \<in> node_ids d \<and> we_TargetID e \<in> node_ids d" if "e \<in> set F" for e
    unfolding adjacent_ids [OF a] using that by (simp add: adjacent_def)
  from a e show "closed_set (d_Successors d) (node_ids d)" "closed_set (d_Predecessors d) (node_ids d)"
    by (auto simp: adjacent_def closed_set_def)
qed

lemma adjacent_rel:
  "adjacent nodes F L d \<Longrightarrow> edge_rel (d_Successors d) = arcs F"
  "adjacent nodes F L d \<Longrightarrow> edge_rel (d_Predecessors d) = (arcs F)\<inverse>"
  by (auto simp: adjacent_def edge_rel_def arcs_def image_iff)

lemma adjacent_ancestors_total:
  assumes "adjacent nodes F L d" "i \<in> node_ids d"
  shows "\<exists>as. collectAncestors (Suc (length (d_Nodes d))) i (d_Predecessors d) = Some as"
proof (rule collectAncestors_total [OF _ adjacent_closed(2) [OF assms(1)] assms(2)])
  show "finite (node_ids d)" by (simp add: node_ids_def)
  show "card (node_ids d) < Suc (length (d_Nodes d))"
    by (metis node_ids_def List.finite_set card_length card_image_le le_trans less_Suc_eq_le)
qed

lemma adjacent_bodies_total:
  assumes "adjacent nodes F L d"
  shows "\<exists>d'. setLoopBodies (2 * length F) ns d = Inr d'"
proof (rule setLoopBodies_total)
  fix c M
  let ?d = "d\<lparr>d_LoopBodyNodes := M\<rparr>"
  from assms have a: "adjacent nodes F L ?d" by simp
  show "\<exists>b. computeLoopBodyNodes (2 * length F) c ?d = Some b"
    by (rule computeLoopBodyNodes_total [OF _ adjacent_closed(1) [OF a]])
       (use assms adjacent_ids [OF assms] in \<open>auto simp: adjacent_def node_ids_def\<close>)
qed

text \<open>
  Everything a successful \<open>Build\<close> guarantees, collected: the graph is adjacent to the forward
  edges, its order is topological, its ancestors are the transitive predecessors, and its loop
  bodies are the computed ones.
\<close>

lemma Build_Inr:
  assumes "Build nodes edges = Inr d"
  shows "adjacent nodes (fwd edges) (filter we_IsLoopBack edges) d"
    and "distinct (d_TopologicalOrder d)" "set (d_TopologicalOrder d) = node_ids d"
    and "closed_order (d_Successors d) (rev (d_TopologicalOrder d))"
    and "i \<in> node_ids d \<Longrightarrow> collectAncestors (Suc (length (d_Nodes d))) i (d_Predecessors d) = Some (d_Ancestors d i)"
    and "\<And>n. n \<in> set nodes \<Longrightarrow> wn_TypeID n = loopControllerTypeID \<Longrightarrow>
          \<exists>b. map_of (d_LoopBodyNodes d) (wn_ID n) = Some b \<and> computeLoopBodyNodes (2 * length (fwd edges)) (wn_ID n) d = Some b"
    and "\<And>c. c \<notin> wn_ID ` {n \<in> set nodes. wn_TypeID n = loopControllerTypeID} \<Longrightarrow> map_of (d_LoopBodyNodes d) c = None"
    and "checkControllerLabels nodes d = Inr ()"
    and "validateLoopConstraints nodes (filter we_IsLoopBack edges) = Inr ()"
proof -
  let ?L = "filter we_IsLoopBack edges"
  obtain d0 ord d2 where
    s: "addForwardEdges (fwd edges) (initDag nodes ?L) = Inr d0" "topoSort d0 = Inr ord"
       "setAncestors (Suc (length (d_Nodes d0))) (map fst (d_Nodes d0)) (d0\<lparr>d_TopologicalOrder := ord\<rparr>) = Inr d2"
       "setLoopBodies (2 * length (fwd edges)) nodes d2 = Inr d"
    and c: "checkControllerLabels nodes d = Inr ()" "validateLoopConstraints nodes ?L = Inr ()"
    by (rule Build_stages [OF assms]) blast
  have a0: "adjacent nodes (fwd edges) ?L d0" by (rule addForwardEdges_adjacent [OF s(1)])
  from setAncestors_Inr [OF s(3)] obtain A where
    A: "d2 = d0\<lparr>d_TopologicalOrder := ord, d_Ancestors := A\<rparr>"
       "\<forall>i \<in> set (map fst (d_Nodes d0)). collectAncestors (Suc (length (d_Nodes d0))) i (d_Predecessors d0) = Some (A i)"
    by auto
  from setLoopBodies_Inr [OF s(4)] obtain B where
    B: "d = d2\<lparr>d_LoopBodyNodes := B\<rparr>"
       "\<forall>n \<in> set nodes. wn_TypeID n = loopControllerTypeID \<longrightarrow> map_of B (wn_ID n) = computeLoopBodyNodes (2 * length (fwd edges)) (wn_ID n) d2"
       "\<forall>c. c \<notin> wn_ID ` {n \<in> set nodes. wn_TypeID n = loopControllerTypeID} \<longrightarrow> map_of B c = map_of (d_LoopBodyNodes d2) c"
    by auto
  have d: "d = d0\<lparr>d_TopologicalOrder := ord, d_Ancestors := A, d_LoopBodyNodes := B\<rparr>"
    using A(1) B(1) by simp
  show a: "adjacent nodes (fwd edges) ?L d" using a0 d by simp
  from topoSort_Inr [OF s(2) adjacent_closed(1) [OF a0]]
  show "distinct (d_TopologicalOrder d)" "set (d_TopologicalOrder d) = node_ids d"
       "closed_order (d_Successors d) (rev (d_TopologicalOrder d))"
    by (simp_all add: d node_ids_def)
  show "collectAncestors (Suc (length (d_Nodes d))) i (d_Predecessors d) = Some (d_Ancestors d i)" if "i \<in> node_ids d"
    using A(2) that by (auto simp: d node_ids_def)
  show "\<exists>b. map_of (d_LoopBodyNodes d) (wn_ID n) = Some b \<and> computeLoopBodyNodes (2 * length (fwd edges)) (wn_ID n) d = Some b"
    if "n \<in> set nodes" "wn_TypeID n = loopControllerTypeID" for n
  proof -
    have "computeLoopBodyNodes k (wn_ID n) d = computeLoopBodyNodes k (wn_ID n) d2" for k
      by (simp add: B(1) computeLoopBodyNodes_def exitTargets_def bodyStarts_def)
    moreover have "\<exists>b. computeLoopBodyNodes (2 * length (fwd edges)) (wn_ID n) d = Some b"
      by (rule computeLoopBodyNodes_total [OF _ adjacent_closed(1) [OF a]])
         (use a adjacent_ids [OF a] in \<open>auto simp: adjacent_def node_ids_def\<close>)
    ultimately show ?thesis using B that by simp
  qed
  show "map_of (d_LoopBodyNodes d) c = None"
    if "c \<notin> wn_ID ` {n \<in> set nodes. wn_TypeID n = loopControllerTypeID}" for c
  proof -
    have "d_LoopBodyNodes d0 = []" using addForwardEdges_Inr [OF s(1)] by (simp add: initDag_def)
    with B(3) that show ?thesis by (simp add: d A(1))
  qed
qed (use Build_stages [OF assms] in blast)+

text \<open>
  The graph and the forward edges the runner works with: the result of a successful \<open>Build\<close>,
  the empty graph when \<open>Build\<close> fails (\<open>Engine.Run\<close> then returns before the runner starts).
\<close>

definition builtDag :: "workflow_node list \<Rightarrow> workflow_edge list \<Rightarrow> dag" where
  "builtDag nodes edges = (case Build nodes edges of Inl _ \<Rightarrow> initDag [] [] | Inr d \<Rightarrow> d)"

definition builtEdges :: "workflow_node list \<Rightarrow> workflow_edge list \<Rightarrow> workflow_edge list" where
  "builtEdges nodes edges = (case Build nodes edges of Inl _ \<Rightarrow> [] | Inr _ \<Rightarrow> fwd edges)"

lemma Build_wf_dag:
  assumes "Build nodes edges = Inr d"
  shows "wf_dag d (fwd edges)"
proof
  note B = Build_Inr [OF assms]
  note ids = adjacent_ids [OF B(1)]
  have N: "d_Nodes d = d_Nodes (initDag nodes (filter we_IsLoopBack edges))"
    using B(1) by (simp add: adjacent_def)
  show "wf_map (d_Nodes d)" by (simp add: N)
  show "wn_ID n = i" if "map_of (d_Nodes d) i = Some n" for i n
    using that by (simp add: N initDag_node_id)
  show "d_OutEdges d u = filter (\<lambda>e. we_SourceID e = u) (fwd edges)"
       "d_Successors d u = map we_TargetID (filter (\<lambda>e. we_SourceID e = u) (fwd edges))"
       "d_Predecessors d u = map we_SourceID (filter (\<lambda>e. we_TargetID e = u) (fwd edges))" for u
    using B(1) by (simp_all add: adjacent_def)
  show "we_SourceID e \<in> node_ids d \<and> we_TargetID e \<in> node_ids d" if "e \<in> set (fwd edges)" for e
    using B(1) that by (simp add: adjacent_def ids)
  show "distinct (d_TopologicalOrder d)" "set (d_TopologicalOrder d) = node_ids d"
       "closed_order (d_Successors d) (rev (d_TopologicalOrder d))" by (rule B)+
  show "set (d_Ancestors d i) = {u. (u, i) \<in> (arcs (fwd edges))\<^sup>+}" if "i \<in> node_ids d" for i
    using collectAncestors_spec [OF B(5) [OF that]]
    by (simp add: adjacent_rel [OF B(1)] trancl_converse)
qed

interpretation bd: wf_dag "builtDag nodes edges" "builtEdges nodes edges"
  for nodes edges
proof (cases "Build nodes edges")
  case (Inl e)
  then show "wf_dag (builtDag nodes edges) (builtEdges nodes edges)"
    by unfold_locales (simp_all add: builtDag_def builtEdges_def initDag_def node_ids_def arcs_def)
next
  case (Inr d)
  with Build_wf_dag show "wf_dag (builtDag nodes edges) (builtEdges nodes edges)"
    by (simp add: builtDag_def builtEdges_def)
qed

lemma builtDag_Inr: "Build nodes edges = Inr d \<Longrightarrow> builtDag nodes edges = d \<and> builtEdges nodes edges = fwd edges"
  by (simp add: builtDag_def builtEdges_def)

lemma Build_ids: "Build nodes edges = Inr d \<Longrightarrow> node_ids d = wn_ID ` set nodes"
  using Build_Inr(1) adjacent_ids by blast

section \<open>When Build succeeds\<close>

text \<open>The structural rules, as a predicate on the lists the caller passes.\<close>

definition loop_edge_ok :: "workflow_node list \<Rightarrow> workflow_edge \<Rightarrow> bool" where
  "loop_edge_ok nodes e \<longleftrightarrow> we_BranchLabel e = None \<and> nodeType nodes (we_TargetID e) = loopControllerTypeID"

definition controller_ok :: "workflow_edge list \<Rightarrow> workflow_node \<Rightarrow> bool" where
  "controller_ok F n \<longleftrightarrow>
     (\<exists>e \<in> set F. we_SourceID e = wn_ID n \<and> we_BranchLabel e = Some ''loop_body'') \<and>
     (\<exists>e \<in> set F. we_SourceID e = wn_ID n \<and> we_BranchLabel e = Some ''exit'')"

definition valid_graph :: "workflow_node list \<Rightarrow> workflow_edge list \<Rightarrow> bool" where
  "valid_graph nodes edges \<longleftrightarrow>
     controllerCount nodes \<le> 1 \<and>
     (\<forall>e \<in> set edges. we_IsLoopBack e \<longrightarrow> loop_edge_ok nodes e) \<and>
     (\<forall>e \<in> set edges. we_SourceID e \<in> wn_ID ` set nodes \<and> we_TargetID e \<in> wn_ID ` set nodes) \<and>
     acyclic (arcs (fwd edges)) \<and>
     (\<forall>n \<in> set nodes. wn_TypeID n = loopControllerTypeID \<longrightarrow> controller_ok (fwd edges) n)"

lemma checkLoopBackEdges_iff: "checkLoopBackEdges nodes es = Inr () \<longleftrightarrow> (\<forall>e \<in> set es. loop_edge_ok nodes e)"
  by (induction nodes es rule: checkLoopBackEdges.induct) (auto simp: loop_edge_ok_def)

lemma checkLoopBackEndpoints_iff:
  "checkLoopBackEndpoints es d = Inr () \<longleftrightarrow> (\<forall>e \<in> set es. we_SourceID e \<in> node_ids d \<and> we_TargetID e \<in> node_ids d)"
  by (induction es d rule: checkLoopBackEndpoints.induct) (auto simp: node_ids_def map_of_None_iff)

lemma checkControllerLabels_iff:
  "(\<And>u. d_OutEdges d u = filter (\<lambda>e. we_SourceID e = u) F) \<Longrightarrow>
   checkControllerLabels ns d = Inr () \<longleftrightarrow> (\<forall>n \<in> set ns. wn_TypeID n = loopControllerTypeID \<longrightarrow> controller_ok F n)"
  by (induction ns d rule: checkControllerLabels.induct) (auto simp: controller_ok_def)

lemma addForwardEdges_total:
  "\<forall>e \<in> set es. we_SourceID e \<in> node_ids d \<and> we_TargetID e \<in> node_ids d \<Longrightarrow> \<exists>d'. addForwardEdges es d = Inr d'"
proof (induction es d rule: addForwardEdges.induct)
  case (2 e es d)
  have "node_ids (addEdge e d) = node_ids d" by (simp add: addEdge_def node_ids_def)
  with 2 show ?case by (auto simp: node_ids_def map_of_None_iff)
qed simp

lemma Build_sound: "Build nodes edges = Inr d \<Longrightarrow> valid_graph nodes edges"
proof -
  assume b: "Build nodes edges = Inr d"
  note B = Build_Inr [OF b]
  have L: "checkLoopBackEdges nodes (filter we_IsLoopBack edges) = Inr ()" "controllerCount nodes \<le> 1"
    using B(9) by (auto simp: validateLoopConstraints_def split: if_splits)
  obtain d0 where d0: "addForwardEdges (fwd edges) (initDag nodes (filter we_IsLoopBack edges)) = Inr d0"
      "checkLoopBackEndpoints (filter we_IsLoopBack edges) d0 = Inr ()"
    by (rule Build_stages [OF b])
  have "node_ids d0 = wn_ID ` set nodes"
    by (rule adjacent_ids [OF addForwardEdges_adjacent [OF d0(1)]])
  with d0(2) have "\<forall>e \<in> set edges. we_IsLoopBack e \<longrightarrow> we_SourceID e \<in> wn_ID ` set nodes \<and> we_TargetID e \<in> wn_ID ` set nodes"
    by (simp add: checkLoopBackEndpoints_iff)
  moreover have "\<forall>e \<in> set edges. \<not> we_IsLoopBack e \<longrightarrow> we_SourceID e \<in> wn_ID ` set nodes \<and> we_TargetID e \<in> wn_ID ` set nodes"
    using B(1) by (simp add: adjacent_def fwd_def)
  moreover have "acyclic (arcs (fwd edges))"
    using bd.acyclic_arcs [of nodes edges] builtDag_Inr [OF b] by simp
  moreover have "\<forall>n \<in> set nodes. wn_TypeID n = loopControllerTypeID \<longrightarrow> controller_ok (fwd edges) n"
    using checkControllerLabels_iff [of d "fwd edges" nodes] B(1,8) by (simp add: adjacent_def)
  ultimately show ?thesis using L by (auto simp: valid_graph_def checkLoopBackEdges_iff)
qed

text \<open>The fuel of the two later passes is enough.\<close>

lemma later_passes_total:
  assumes "adjacent nodes F L d0"
  shows "\<exists>d2. setAncestors (Suc (length (d_Nodes d0))) (map fst (d_Nodes d0)) (d0\<lparr>d_TopologicalOrder := ord\<rparr>) = Inr d2 \<and>
           adjacent nodes F L d2 \<and>
           (\<exists>d3. setLoopBodies (2 * length F) nodes d2 = Inr d3 \<and> adjacent nodes F L d3)"
proof -
  let ?d1 = "d0\<lparr>d_TopologicalOrder := ord\<rparr>"
  obtain d2 where d2: "setAncestors (Suc (length (d_Nodes d0))) (map fst (d_Nodes d0)) ?d1 = Inr d2"
    using setAncestors_total [of "map fst (d_Nodes d0)" "Suc (length (d_Nodes d0))" ?d1]
      adjacent_ancestors_total [OF assms] by (auto simp: node_ids_def)
  have a2: "adjacent nodes F L d2" using setAncestors_Inr [OF d2] assms by auto
  obtain d3 where d3: "setLoopBodies (2 * length F) nodes d2 = Inr d3"
    using adjacent_bodies_total [OF a2] by blast
  with setLoopBodies_Inr [OF d3] a2 d2 show ?thesis by auto
qed

lemma Build_complete:
  assumes "valid_graph nodes edges"
  shows "\<exists>d. Build nodes edges = Inr d"
proof -
  let ?L = "filter we_IsLoopBack edges"
  note v = assms [unfolded valid_graph_def]
  have 1: "validateLoopConstraints nodes ?L = Inr ()"
    using v by (simp add: validateLoopConstraints_def checkLoopBackEdges_iff)
  obtain d0 where d0: "addForwardEdges (fwd edges) (initDag nodes ?L) = Inr d0"
    using addForwardEdges_total [of "fwd edges" "initDag nodes ?L"] v by (auto simp: fwd_def)
  note a0 = addForwardEdges_adjacent [OF d0]
  have 2: "checkLoopBackEndpoints ?L d0 = Inr ()"
    using v by (simp add: checkLoopBackEndpoints_iff adjacent_ids [OF a0])
  obtain ord where ord: "topoSort d0 = Inr ord"
  proof (cases "topoSort d0")
    case (Inl e)
    with topoSort_Inl [OF Inl adjacent_closed(1) [OF a0]] v adjacent_rel(1) [OF a0]
    show ?thesis by (auto simp: real_cycle_def acyclic_def)
  qed (use that in blast)
  from later_passes_total [OF a0, of ord] obtain d2 d3 where
      d2: "setAncestors (Suc (length (d_Nodes d0))) (map fst (d_Nodes d0)) (d0\<lparr>d_TopologicalOrder := ord\<rparr>) = Inr d2"
      "setLoopBodies (2 * length (fwd edges)) nodes d2 = Inr d3"
    and a3: "adjacent nodes (fwd edges) ?L d3" by blast
  have 3: "checkControllerLabels nodes d3 = Inr ()"
    using checkControllerLabels_iff [of d3 "fwd edges" nodes] a3 v by (simp add: adjacent_def)
  show ?thesis using 1 d0 2 ord d2 3 by (simp add: Build_def Let_def fwd_def)
qed

lemma Build_Inl:
  assumes "Build nodes edges = Inl e"
  shows "e \<noteq> OutOfFuel \<and> (\<forall>x. e = ErrCycleDetected x \<longrightarrow> (x, x) \<in> (arcs (fwd edges))\<^sup>+)"
    (is "?ok e")
proof -
  let ?L = "filter we_IsLoopBack edges"
  have plain: "?ok e" if "(\<forall>x. e \<noteq> ErrCycleDetected x) \<and> e \<noteq> OutOfFuel" for e
    using that by blast
  show ?thesis
  proof (cases "addForwardEdges (fwd edges) (initDag nodes ?L)")
    case (Inl e')
    with assms show ?thesis
      by (auto simp: Build_def Let_def fwd_def [symmetric] split: sum.splits dest: checks_Inl addForwardEdges_Inl intro!: plain)
  next
    case (Inr d0)
    note a0 = addForwardEdges_adjacent [OF Inr]
    have t: "?ok e'" if "topoSort d0 = Inl e'" for e'
      using topoSort_Inl [OF that adjacent_closed(1) [OF a0]] adjacent_rel(1) [OF a0]
      by (auto simp: real_cycle_def)
    have "\<exists>d2 d3. setAncestors (Suc (length (d_Nodes d0))) (map fst (d_Nodes d0)) (d0\<lparr>d_TopologicalOrder := ord\<rparr>) = Inr d2 \<and>
        setLoopBodies (2 * length (fwd edges)) nodes d2 = Inr d3" for ord
      using later_passes_total [OF a0, of ord] by blast
    then have l: "setAncestors (Suc (length (d_Nodes d0))) (map fst (d_Nodes d0)) (d0\<lparr>d_TopologicalOrder := ord\<rparr>) \<noteq> Inl e'"
      "setAncestors (Suc (length (d_Nodes d0))) (map fst (d_Nodes d0)) (d0\<lparr>d_TopologicalOrder := ord\<rparr>) = Inr d2 \<Longrightarrow>
       setLoopBodies (2 * length (fwd edges)) nodes d2 \<noteq> Inl e'" for ord e' d2
      by (metis sum.distinct(1), metis sum.distinct(1) sum.inject(2))
    from assms Inr t l show ?thesis
      by (auto simp: Build_def Let_def fwd_def [symmetric] split: sum.splits dest: checks_Inl)
  qed
qed

section \<open>Properties of Build\<close>

text \<open>
  A sample workflow with a loop: \<open>s\<close> feeds the controller \<open>c\<close>, whose body is \<open>b\<close> and whose
  exit is \<open>x\<close>; \<open>b\<close> also feeds \<open>x\<close>, and the loop-back edge leads from \<open>b\<close> to \<open>c\<close>.
\<close>

definition sample_node :: "string \<Rightarrow> string \<Rightarrow> workflow_node" where
  "sample_node i t = \<lparr> wn_ID = i, wn_TypeID = t, wn_Label = [], wn_Position = \<lparr>np_X = 0, np_Y = 0\<rparr>,
     wn_Config = None, wn_SensitiveKeys = None, wn_RetryPolicy = None, wn_OutputParsers = [] \<rparr>"

definition sample_edge :: "string \<Rightarrow> string \<Rightarrow> string \<Rightarrow> string option \<Rightarrow> bool \<Rightarrow> workflow_edge" where
  "sample_edge i u v l b = \<lparr> we_ID = i, we_SourceID = u, we_TargetID = v, we_BranchLabel = l, we_IsLoopBack = b \<rparr>"

definition loop_nodes :: "workflow_node list" where
  "loop_nodes = [sample_node ''x'' ''t'', sample_node ''b'' ''t'', sample_node ''c'' loopControllerTypeID, sample_node ''s'' ''t'']"

definition loop_edges :: "workflow_edge list" where
  "loop_edges = [sample_edge ''1'' ''s'' ''c'' None False, sample_edge ''2'' ''c'' ''b'' (Some ''loop_body'') False,
     sample_edge ''3'' ''c'' ''x'' (Some ''exit'') False, sample_edge ''4'' ''b'' ''x'' None False,
     sample_edge ''5'' ''b'' ''c'' None True]"

lemma loop_graph_built: "\<exists>d. Build loop_nodes loop_edges = Inr d"
proof -
  have "\<not> isl (Build loop_nodes loop_edges)" by code_simp
  then show ?thesis by (cases "Build loop_nodes loop_edges") auto
qed

text \<open>
  C12. The topological order. When \<open>Build\<close> accepts a workflow, its order lists every node id
  exactly once, and the source of every edge that is not a loop-back edge stands strictly
  before the edge's target.
\<close>

theorem build_topological:
  assumes "Build nodes edges = Inr d"
  shows "distinct (d_TopologicalOrder d) \<and> set (d_TopologicalOrder d) = wn_ID ` set nodes \<and>
    (\<forall>e \<in> set edges. \<not> we_IsLoopBack e \<longrightarrow> before (d_TopologicalOrder d) (we_SourceID e) (we_TargetID e))"
proof -
  note b = builtDag_Inr [OF assms]
  have "distinct (d_TopologicalOrder d)" "set (d_TopologicalOrder d) = wn_ID ` set nodes"
    using bd.order_distinct [of nodes edges] bd.order_set [of nodes edges] b Build_ids [OF assms] by simp_all
  moreover have "before (d_TopologicalOrder d) (we_SourceID e) (we_TargetID e)"
    if "e \<in> set edges" "\<not> we_IsLoopBack e" for e
    using bd.order_before [of e nodes edges] b that by (simp add: fwd_def)
  ultimately show ?thesis by blast
qed

theorem build_topological_witness:
  "\<exists>d. Build loop_nodes loop_edges = Inr d \<and> d_TopologicalOrder d = [''s'', ''c'', ''b'', ''x''] \<and>
     distinct (d_TopologicalOrder d) \<and> before (d_TopologicalOrder d) ''b'' ''x''"
proof -
  obtain d where d: "Build loop_nodes loop_edges = Inr d" using loop_graph_built by blast
  have "d_TopologicalOrder (builtDag loop_nodes loop_edges) = [''s'', ''c'', ''b'', ''x'']" by code_simp
  then have "d_TopologicalOrder d = [''s'', ''c'', ''b'', ''x'']" by (simp add: builtDag_def d)
  moreover have "sample_edge ''4'' ''b'' ''x'' None False \<in> set loop_edges" by (simp add: loop_edges_def)
  ultimately show ?thesis using d build_topological [OF d] by (force simp: sample_edge_def)
qed

text \<open>
  C13. Exactness. \<open>Build\<close> accepts a workflow if and only if the workflow obeys the structural
  rules: at most one loop controller, loop-back edges unlabelled and aimed at a controller,
  edges between known nodes, no cycle among the other edges, and a controller with both a
  \<open>loop_body\<close> and an \<open>exit\<close> edge.
\<close>

theorem build_succeeds_iff: "(\<exists>d. Build nodes edges = Inr d) \<longleftrightarrow> valid_graph nodes edges"
  using Build_sound Build_complete by blast

text \<open>
  Errors. The search never runs out of fuel, and a cycle error is true: the node it
  names lies on a cycle of edges that are not loop-back edges.
\<close>

theorem build_cycle_error_sound:
  "case Build nodes edges of
     Inr d \<Rightarrow> acyclic (arcs (fwd edges))
   | Inl (ErrCycleDetected x) \<Rightarrow> (x, x) \<in> (arcs (fwd edges))\<^sup>+
   | Inl e \<Rightarrow> e \<noteq> OutOfFuel"
proof (cases "Build nodes edges")
  case (Inl e)
  with Build_Inl [OF Inl] show ?thesis by (cases e) auto
next
  case (Inr d)
  with Build_sound [OF Inr] show ?thesis by (simp add: valid_graph_def)
qed

text \<open>
  Ancestors. The ancestors of a node are the nodes from which a non-empty path of
  forward edges leads to it, each once, in sorted order; a node is never its own ancestor.
\<close>

theorem build_ancestors:
  assumes "Build nodes edges = Inr d" and "i \<in> wn_ID ` set nodes"
  shows "set (d_Ancestors d i) = {u. (u, i) \<in> (arcs (fwd edges))\<^sup>+} \<and> sorted (d_Ancestors d i) \<and>
    distinct (d_Ancestors d i) \<and> i \<notin> set (d_Ancestors d i)"
proof -
  note B = Build_Inr [OF assms(1)]
  have i: "i \<in> node_ids d" using assms Build_ids by blast
  have "set (d_Ancestors d i) = {u. (u, i) \<in> (arcs (fwd edges))\<^sup>+}"
    using bd.ancestors [of i nodes edges] builtDag_Inr [OF assms(1)] i by simp
  moreover have "acyclic (arcs (fwd edges))"
    using Build_sound [OF assms(1)] by (simp add: valid_graph_def)
  ultimately show ?thesis
    using collectAncestors_spec [OF B(5) [OF i]] by (auto simp: acyclic_def)
qed

theorem build_ancestors_witness:
  "\<exists>d. Build loop_nodes loop_edges = Inr d \<and> d_Ancestors d ''x'' = [''b'', ''c'', ''s''] \<and>
     (''s'', ''x'') \<in> (arcs (fwd loop_edges))\<^sup>+"
proof -
  obtain d where d: "Build loop_nodes loop_edges = Inr d" using loop_graph_built by blast
  have "d_Ancestors (builtDag loop_nodes loop_edges) ''x'' = [''b'', ''c'', ''s'']" by code_simp
  then have a: "d_Ancestors d ''x'' = [''b'', ''c'', ''s'']" by (simp add: builtDag_def d)
  have "''x'' \<in> wn_ID ` set loop_nodes" by (simp add: loop_nodes_def sample_node_def)
  from build_ancestors [OF d this] a have "{u. (u, ''x'') \<in> (arcs (fwd loop_edges))\<^sup>+} = {''b'', ''c'', ''s''}"
    by simp
  then have "(''s'', ''x'') \<in> (arcs (fwd loop_edges))\<^sup>+" by blast
  with d a show ?thesis by blast
qed

text \<open>
  Loop bodies. The body recorded for a loop controller \<open>c\<close> is exactly the set of nodes
  reachable from the targets of \<open>c\<close>'s \<open>loop_body\<close> edges along forward edges without ever
  entering \<open>c\<close> or a target of one of \<open>c\<close>'s other edges.
\<close>

theorem build_loop_body:
  assumes "Build nodes edges = Inr d" and "n \<in> set nodes" and "wn_TypeID n = loopControllerTypeID"
  defines "outer \<equiv> insert (wn_ID n) {we_TargetID e | e. e \<in> set (fwd edges) \<and> we_SourceID e = wn_ID n \<and> we_BranchLabel e \<noteq> Some ''loop_body''}"
  shows "\<exists>b. map_of (d_LoopBodyNodes d) (wn_ID n) = Some b \<and> distinct b \<and>
    set b = {v. \<exists>e \<in> set (fwd edges). we_SourceID e = wn_ID n \<and> we_BranchLabel e = Some ''loop_body'' \<and> we_TargetID e \<notin> outer \<and>
                 (we_TargetID e, v) \<in> {(u, w) \<in> arcs (fwd edges). w \<notin> outer}\<^sup>*}"
proof -
  note B = Build_Inr [OF assms(1)]
  from B(6) [OF assms(2,3)] obtain b where b: "map_of (d_LoopBodyNodes d) (wn_ID n) = Some b"
    and c: "computeLoopBodyNodes (2 * length (fwd edges)) (wn_ID n) d = Some b" by blast
  have o: "insert (wn_ID n) (set (exitTargets d (wn_ID n))) = outer"
    using B(1) by (auto simp: exitTargets_def outer_def adjacent_def)
  have r: "body_rel (d_Successors d) outer = {(u, w) \<in> arcs (fwd edges). w \<notin> outer}"
    using adjacent_rel(1) [OF B(1)] by (auto simp: body_rel_def edge_rel_def)
  from bodySearch_spec [OF c [unfolded computeLoopBodyNodes_def]] o r b B(1) show ?thesis
    by (auto simp: body_spec_def bodyStarts_def adjacent_def)
qed

theorem build_loop_body_witness:
  "\<exists>d. Build loop_nodes loop_edges = Inr d \<and> map_of (d_LoopBodyNodes d) ''c'' = Some [''b''] \<and>
     (\<exists>b. map_of (d_LoopBodyNodes d) ''c'' = Some b \<and> distinct b)"
proof -
  obtain d where d: "Build loop_nodes loop_edges = Inr d" using loop_graph_built by blast
  have "map_of (d_LoopBodyNodes (builtDag loop_nodes loop_edges)) ''c'' = Some [''b'']" by code_simp
  then have a: "map_of (d_LoopBodyNodes d) ''c'' = Some [''b'']" by (simp add: builtDag_def d)
  let ?n = "sample_node ''c'' loopControllerTypeID"
  have n: "?n \<in> set loop_nodes" "wn_TypeID ?n = loopControllerTypeID" "wn_ID ?n = ''c''"
    by (simp_all add: loop_nodes_def sample_node_def)
  from build_loop_body [OF d n(1,2)] n(3) d a show ?thesis by auto
qed

end
