(* ===== verification/Exec_Context.thy ===== *)
theory Exec_Context
  imports Dag
begin

text \<open>
  The run-scoped store of node outputs (\<open>internal/engine/context.go\<close>). Reads and writes hold
  the context's lock, so each is one step of the run.
\<close>

type_synonym exec_context = "(string \<times> gomap) list"

definition newExecutionContext :: exec_context where
  "newExecutionContext = []"

definition ctx_set :: "string \<Rightarrow> gomap \<Rightarrow> exec_context \<Rightarrow> exec_context" where
  "ctx_set nodeID data ec = AList.update nodeID data ec"

definition mergeUpstream :: "string list \<Rightarrow> exec_context \<Rightarrow> gomap" where
  "mergeUpstream predecessorIDs ec =
     fold (\<lambda>i merged. case map_of ec i of None \<Rightarrow> merged | Some out \<Rightarrow> AList.update i (VMap out) merged)
       predecessorIDs
       (case map_of ec ''_initial'' of None \<Rightarrow> [] | Some init \<Rightarrow> [(''_initial'', VMap init)])"

definition sinkOutputs :: "dag \<Rightarrow> exec_context \<Rightarrow> (string \<times> gomap) list" where
  "sinkOutputs d ec =
     fold (\<lambda>i result. if d_Successors d i = []
                      then (case map_of ec i of None \<Rightarrow> result | Some out \<Rightarrow> AList.update i out result)
                      else result)
       (map fst (d_Nodes d)) []"

lemma map_of_ctx_set [simp]: "map_of (ctx_set i out ec) = (map_of ec)(i \<mapsto> out)"
  by (simp add: ctx_set_def)

text \<open>What the merge contains: \<open>_initial\<close> and the outputs of the listed nodes.\<close>

lemma fold_merge:
  "map_of (fold (\<lambda>i merged. case map_of ec i of None \<Rightarrow> merged | Some out \<Rightarrow> AList.update i (VMap out) merged) is m) k =
     (if k \<in> set is \<and> map_of ec k \<noteq> None then map_option VMap (map_of ec k) else map_of m k)"
proof (induction "is" arbitrary: m)
  case (Cons i "is")
  show ?case by (simp add: Cons split: option.splits) auto
qed simp

lemma mergeUpstream_lookup:
  "map_of (mergeUpstream is ec) k =
     (if k \<in> insert ''_initial'' (set is) then map_option VMap (map_of ec k) else None)"
  unfolding mergeUpstream_def fold_merge by (auto split: option.splits)

text \<open>The merge reads the context at the listed ids and at \<open>_initial\<close> only.\<close>

lemma mergeUpstream_cong:
  assumes "\<And>i. i \<in> insert ''_initial'' (set is) \<Longrightarrow> map_of ec i = map_of ec' i"
  shows "mergeUpstream is ec = mergeUpstream is ec'"
  unfolding mergeUpstream_def using assms
  by (intro fold_cong) (auto intro!: option.case_cong)

lemma fold_sinks:
  "map_of (fold (\<lambda>i result. if d_Successors d i = []
                      then (case map_of ec i of None \<Rightarrow> result | Some out \<Rightarrow> AList.update i out result)
                      else result) is m) k =
     (if k \<in> set is \<and> d_Successors d k = [] \<and> map_of ec k \<noteq> None then map_of ec k else map_of m k)"
proof (induction "is" arbitrary: m)
  case (Cons i "is")
  show ?case by (simp add: Cons split: option.splits) auto
qed simp

lemma sinkOutputs_lookup:
  "map_of (sinkOutputs d ec) k =
     (if map_of (d_Nodes d) k \<noteq> None \<and> d_Successors d k = [] then map_of ec k else None)"
  unfolding sinkOutputs_def fold_sinks by (auto simp: map_of_None_iff [of "d_Nodes d"])

lemma sinkOutputs_cong:
  assumes "\<And>i. i \<in> fst ` set (d_Nodes d) \<Longrightarrow> map_of ec i = map_of ec' i"
  shows "sinkOutputs d ec = sinkOutputs d ec'"
  unfolding sinkOutputs_def
proof (rule fold_cong [OF refl refl])
  fix i assume "i \<in> set (map fst (d_Nodes d))"
  then have eq: "map_of ec i = map_of ec' i" using assms by simp
  show "(\<lambda>result. if d_Successors d i = []
                  then (case map_of ec i of None \<Rightarrow> result | Some out \<Rightarrow> AList.update i out result) else result) =
             (\<lambda>result. if d_Successors d i = []
                  then (case map_of ec' i of None \<Rightarrow> result | Some out \<Rightarrow> AList.update i out result) else result)"
    unfolding eq by (rule refl)
qed

end
