(* ===== verification/Output_Parser.thy ===== *)
theory Output_Parser
  imports Store_Types
begin

text \<open>
  Post-execution extraction of named fields (\<open>internal/node/outputparser/parser.go\<close>).
  Three libraries are parameters: \<open>gjson\<close> (a path lookup that yields a decoded value and the
  raw JSON text), \<open>regexp\<close> (compilation and the submatches of the first match) and the JSON
  encoder.
\<close>

record gjson_result =
  gj_Value :: val
  gj_Raw :: string

record parse_libs =
  gjson_Get :: "string \<Rightarrow> string \<Rightarrow> gjson_result option"
  regexp_Compile :: "string \<Rightarrow> bool"
  FindStringSubmatch :: "string \<Rightarrow> string \<Rightarrow> string list option"
  json_Marshal :: "val \<Rightarrow> string option"

datatype parse_error =
    NoMatch string
  | NullValue string
  | CompileError string
  | GroupOutOfRange int
  | UnknownKind string
  | EmptyPattern string
  | NegativeGroup string int

definition sourceString :: "parse_libs \<Rightarrow> gomap \<Rightarrow> string \<Rightarrow> string" where
  "sourceString lib data k = (case map_of data k of
     None \<Rightarrow> []
   | Some VNil \<Rightarrow> []
   | Some (VStr s) \<Rightarrow> s
   | Some raw \<Rightarrow> (case json_Marshal lib raw of None \<Rightarrow> [] | Some b \<Rightarrow> b))"

definition extract_value :: "parse_libs \<Rightarrow> string \<Rightarrow> output_parser \<Rightarrow> parse_error + val" where
  "extract_value lib src p =
     (if op_Kind p = ''json_path'' then
        (case gjson_Get lib src (op_Pattern p) of
           None \<Rightarrow> Inl (NoMatch (op_Pattern p))
         | Some r \<Rightarrow>
             (case gj_Value r of
                VNil \<Rightarrow> Inl (NullValue (op_Pattern p))
              | VList _ \<Rightarrow> Inr (VStr (gj_Raw r))
              | VMap _ \<Rightarrow> Inr (VStr (gj_Raw r))
              | v \<Rightarrow> Inr v))
      else if op_Kind p = ''regex'' then
        (if \<not> regexp_Compile lib (op_Pattern p) then Inl (CompileError (op_Pattern p))
         else case FindStringSubmatch lib (op_Pattern p) src of
           None \<Rightarrow> Inl (NoMatch (op_Pattern p))
         | Some matches \<Rightarrow>
             (let idx = op_CaptureGroup p
              in if idx < 0 \<or> idx \<ge> int (length matches) then Inl (GroupOutOfRange idx)
                 else Inr (VStr (matches ! nat idx))))
      else Inl (UnknownKind (op_Kind p)))"

definition Apply :: "parse_libs \<Rightarrow> gomap \<Rightarrow> (string \<times> output_parser) list \<Rightarrow> gomap" where
  "Apply lib data parsers =
     (if parsers = [] then data
      else fold (\<lambda>(name, p) result.
                   case extract_value lib (sourceString lib data (op_Source p)) p of
                     Inl _ \<Rightarrow> result
                   | Inr v \<Rightarrow> AList.update name v result) parsers data)"

definition Validate :: "parse_libs \<Rightarrow> string \<Rightarrow> output_parser \<Rightarrow> parse_error + unit" where
  "Validate lib name p =
     (if op_Kind p = ''json_path'' then
        (if op_Pattern p = [] then Inl (EmptyPattern name) else Inr ())
      else if op_Kind p = ''regex'' then
        (if \<not> regexp_Compile lib (op_Pattern p) then Inl (CompileError name)
         else if op_CaptureGroup p < 0 then Inl (NegativeGroup name (op_CaptureGroup p))
         else Inr ())
      else Inl (UnknownKind (op_Kind p)))"

fun ValidateAll :: "parse_libs \<Rightarrow> (string \<times> output_parser) list \<Rightarrow> parse_error + unit" where
  "ValidateAll lib [] = Inr ()"
| "ValidateAll lib ((name, p) # ps) =
     (case Validate lib name p of Inl e \<Rightarrow> Inl e | Inr _ \<Rightarrow> ValidateAll lib ps)"

section \<open>Facts\<close>

lemma fold_extract:
  "wf_map ps \<Longrightarrow>
   map_of (fold (\<lambda>(name, p) result. case f p of Inl _ \<Rightarrow> result | Inr v \<Rightarrow> AList.update name v result) ps m) k =
     (case map_of ps k of
        None \<Rightarrow> map_of m k
      | Some p \<Rightarrow> (case f p of Inl _ \<Rightarrow> map_of m k | Inr v \<Rightarrow> Some v))"
proof (induction ps arbitrary: m k)
  case (Cons a ps)
  obtain n q where a: "a = (n, q)" by (cases a)
  with Cons.prems have w: "wf_map ps" "map_of ps n = None" by (auto simp: map_of_None_iff)
  show ?case
    by (cases "k = n"; cases "f q") (simp_all add: a Cons.IH [OF w(1)] w(2) split: option.splits sum.splits)
qed simp

lemma Apply_lookup:
  assumes "wf_map parsers"
  shows "map_of (Apply lib data parsers) k =
    (case map_of parsers k of
       None \<Rightarrow> map_of data k
     | Some p \<Rightarrow> (case extract_value lib (sourceString lib data (op_Source p)) p of
                   Inl _ \<Rightarrow> map_of data k | Inr v \<Rightarrow> Some v))"
  using fold_extract [OF assms, of "\<lambda>p. extract_value lib (sourceString lib data (op_Source p)) p" data k]
  by (simp add: Apply_def)

end
