(* ===== verification/Registry.thy ===== *)
theory Registry
  imports Prelude
begin

text \<open>
  The two handler catalogues: \<open>NodeRegistry\<close> (\<open>internal/node/registry.go\<close>) and
  \<open>GraderRegistry\<close> (\<open>internal/eval/grader_plugin/registry.go\<close>). Both keep a map from type id to
  a handler and close a handler's connection when it leaves the map. A handler is represented
  by its metadata, an identity and whether it implements \<open>io.Closer\<close>; the calls of \<open>Close\<close> are
  recorded in order. Every operation holds the registry's lock for its whole effect on the
  map, so a concurrent use is some sequence of these operations.

  The locale \<open>registry\<close> is the contract both keep; what it gives is that entries always sit
  under their own type id and that every connection ever added is either still registered
  or closed exactly once.
\<close>

section \<open>The contract\<close>

datatype 'h reg_op = Add 'h | Put 'h | Drop string

locale registry =
  fixes key :: "'h \<Rightarrow> string"
    and own :: "'h \<Rightarrow> nat multiset"
    and lookup :: "'r \<Rightarrow> string \<Rightarrow> 'h option"
    and add :: "'h \<Rightarrow> 'r \<Rightarrow> 'e + 'r"
    and put :: "'h \<Rightarrow> 'r \<Rightarrow> 'r"
    and drop_key :: "string \<Rightarrow> 'r \<Rightarrow> 'e + 'r"
    and held :: "'r \<Rightarrow> nat multiset"
    and gone :: "'r \<Rightarrow> nat multiset"
    and good :: "'r \<Rightarrow> bool"
  assumes add_dup: "lookup r (key h) = Some h' \<Longrightarrow> \<exists>e. add h r = Inl e"
    and add_new: "good r \<Longrightarrow> lookup r (key h) = None \<Longrightarrow>
          \<exists>r'. add h r = Inr r' \<and> good r' \<and> lookup r' = (lookup r)(key h \<mapsto> h) \<and>
               held r' + gone r' = held r + gone r + own h"
    and put_law: "good r \<Longrightarrow> good (put h r) \<and> lookup (put h r) = (lookup r)(key h \<mapsto> h) \<and>
          held (put h r) + gone (put h r) = held r + gone r + own h"
    and drop_absent: "lookup r k = None \<Longrightarrow> \<exists>e. drop_key k r = Inl e"
    and drop_present: "good r \<Longrightarrow> lookup r k = Some h \<Longrightarrow>
          \<exists>r'. drop_key k r = Inr r' \<and> good r' \<and> lookup r' = (lookup r)(k := None) \<and>
               held r' + gone r' = held r + gone r"
    and held_lookup: "good r \<Longrightarrow> i \<in># held r \<Longrightarrow> \<exists>k h. lookup r k = Some h \<and> i \<in># own h"
begin

text \<open>A failed operation leaves the registry as it was; \<open>taken\<close> is what an operation adds.\<close>

fun perform :: "'h reg_op \<Rightarrow> 'r \<Rightarrow> 'r" where
  "perform (Add h) r = (case add h r of Inl _ \<Rightarrow> r | Inr r' \<Rightarrow> r')"
| "perform (Put h) r = put h r"
| "perform (Drop k) r = (case drop_key k r of Inl _ \<Rightarrow> r | Inr r' \<Rightarrow> r')"

fun taken :: "'h reg_op \<Rightarrow> 'r \<Rightarrow> nat multiset" where
  "taken (Add h) r = (if lookup r (key h) = None then own h else {#})"
| "taken (Put h) r = own h"
| "taken (Drop k) r = {#}"

fun all_taken :: "'h reg_op list \<Rightarrow> 'r \<Rightarrow> nat multiset" where
  "all_taken [] r = {#}"
| "all_taken (p # ps) r = taken p r + all_taken ps (perform p r)"

definition keyed :: "'r \<Rightarrow> bool" where
  "keyed r = (\<forall>k h. lookup r k = Some h \<longrightarrow> key h = k)"

lemma perform_law:
  assumes "good r"
  shows "good (perform p r) \<and> held (perform p r) + gone (perform p r) = held r + gone r + taken p r \<and>
    (keyed r \<longrightarrow> keyed (perform p r))"
proof (cases p)
  case (Add h)
  show ?thesis
  proof (cases "lookup r (key h)")
    case None
    with add_new [OF assms None] Add show ?thesis by (auto simp: keyed_def split: if_splits)
  next
    case (Some h')
    with add_dup [OF Some] Add assms show ?thesis by auto
  qed
next
  case (Put h)
  with put_law [OF assms, of h] show ?thesis by (auto simp: keyed_def split: if_splits)
next
  case (Drop k)
  show ?thesis
  proof (cases "lookup r k")
    case None
    with drop_absent [OF None] Drop assms show ?thesis by auto
  next
    case (Some h)
    with drop_present [OF assms Some] Drop show ?thesis by (auto simp: keyed_def split: if_splits)
  qed
qed

lemma performs_law:
  assumes "good r"
  shows "good (fold perform ps r) \<and> (keyed r \<longrightarrow> keyed (fold perform ps r)) \<and>
    held (fold perform ps r) + gone (fold perform ps r) = held r + gone r + all_taken ps r"
  using assms
proof (induction ps arbitrary: r)
  case (Cons p ps)
  from perform_law [OF Cons.prems, of p] Cons.IH [of "perform p r"] show ?case
    by (simp add: ac_simps)
qed simp

text \<open>With identities that are added once, nothing registered is closed and nothing is closed twice.\<close>

lemma no_double_close:
  assumes "good r" "held r = {#}" "gone r = {#}" and once: "\<And>i. count (all_taken ps r) i \<le> 1"
  shows "(\<forall>i. count (gone (fold perform ps r)) i \<le> 1) \<and>
    (\<forall>i. i \<in># held (fold perform ps r) \<longrightarrow> i \<notin># gone (fold perform ps r)) \<and>
    (\<forall>i. i \<in># all_taken ps r \<longrightarrow> i \<in># held (fold perform ps r) \<or> i \<in># gone (fold perform ps r))"
proof -
  let ?r = "fold perform ps r"
  have e: "held ?r + gone ?r = all_taken ps r"
    using performs_law [OF assms(1), of ps] assms(2,3) by simp
  have c: "count (held ?r) i + count (gone ?r) i \<le> 1" for i
    using once [of i] by (simp add: e [symmetric])
  have "i \<in># held ?r \<or> i \<in># gone ?r" if "i \<in># all_taken ps r" for i
    using that by (simp add: e [symmetric])
  moreover have "i \<notin># gone ?r" if "i \<in># held ?r" for i
    using c [of i] that count_greater_zero_iff [of "held ?r" i] count_greater_zero_iff [of "gone ?r" i]
    by linarith
  moreover have "count (gone ?r) i \<le> 1" for i using c [of i] by simp
  ultimately show ?thesis by blast
qed

end

section \<open>NodeRegistry\<close>

record node_meta =
  nm_TypeID :: string
  nm_DisplayName :: string
  nm_Category :: string
  nm_Description :: string
  nm_InputSchema :: string
  nm_OutputSchema :: string

record node_handler =
  nh_Meta :: node_meta
  nh_ident :: nat
  nh_closer :: bool

record node_registry =
  nr_handlers :: "(string \<times> node_handler) list"
  nr_closed :: "nat list"

datatype reg_error = ErrNodeNotFound string | ErrDuplicateTypeID string

definition NewRegistry :: node_registry where
  "NewRegistry = \<lparr> nr_handlers = [], nr_closed = [] \<rparr>"

text \<open>\<open>if c, ok := h.(io.Closer); ok { c.Close() }\<close>\<close>

definition closeHandler :: "node_handler \<Rightarrow> node_registry \<Rightarrow> node_registry" where
  "closeHandler h r = (if nh_closer h then r\<lparr>nr_closed := nr_closed r @ [nh_ident h]\<rparr> else r)"

text \<open>\<open>Register\<close> panics on a duplicate; \<open>None\<close> is the panic.\<close>

definition Register :: "node_handler \<Rightarrow> node_registry \<Rightarrow> node_registry option" where
  "Register h r =
     (let typeID = nm_TypeID (nh_Meta h)
      in if map_of (nr_handlers r) typeID \<noteq> None then None
         else Some (r\<lparr>nr_handlers := AList.update typeID h (nr_handlers r)\<rparr>))"

definition Lookup :: "string \<Rightarrow> node_registry \<Rightarrow> reg_error + node_handler" where
  "Lookup typeID r = (case map_of (nr_handlers r) typeID of
     None \<Rightarrow> Inl (ErrNodeNotFound typeID)
   | Some h \<Rightarrow> Inr h)"

definition TryRegister :: "node_handler \<Rightarrow> node_registry \<Rightarrow> reg_error + node_registry" where
  "TryRegister h r =
     (let typeID = nm_TypeID (nh_Meta h)
      in if map_of (nr_handlers r) typeID \<noteq> None then Inl (ErrDuplicateTypeID typeID)
         else Inr (r\<lparr>nr_handlers := AList.update typeID h (nr_handlers r)\<rparr>))"

definition Unregister :: "string \<Rightarrow> node_registry \<Rightarrow> reg_error + node_registry" where
  "Unregister typeID r = (case map_of (nr_handlers r) typeID of
     None \<Rightarrow> Inl (ErrNodeNotFound typeID)
   | Some h \<Rightarrow> Inr (closeHandler h (r\<lparr>nr_handlers := AList.delete typeID (nr_handlers r)\<rparr>)))"

definition Replace :: "node_handler \<Rightarrow> node_registry \<Rightarrow> node_registry" where
  "Replace h r =
     (let typeID = nm_TypeID (nh_Meta h);
          old = map_of (nr_handlers r) typeID;
          r1 = r\<lparr>nr_handlers := AList.update typeID h (nr_handlers r)\<rparr>
      in case old of None \<Rightarrow> r1 | Some o' \<Rightarrow> closeHandler o' r1)"

definition Shutdown :: "node_registry \<Rightarrow> node_registry" where
  "Shutdown r = fold (\<lambda>(k, h). closeHandler h) (nr_handlers r) r"

definition ListAll :: "node_registry \<Rightarrow> node_meta list" where
  "ListAll r = sort_key nm_TypeID (map (\<lambda>(k, h). nh_Meta h) (nr_handlers r))"

definition node_key :: "node_handler \<Rightarrow> string" where
  "node_key h = nm_TypeID (nh_Meta h)"

definition node_own :: "node_handler \<Rightarrow> nat multiset" where
  "node_own h = (if nh_closer h then {#nh_ident h#} else {#})"

definition node_held :: "node_registry \<Rightarrow> nat multiset" where
  "node_held r = (\<Sum>(k, h) \<in># mset (nr_handlers r). node_own h)"

section \<open>GraderRegistry\<close>

record grader_meta =
  gm_TypeID :: string
  gm_DisplayName :: string
  gm_Description :: string
  gm_ConfigSchema :: string

record grpc_proxy =
  gp_meta :: grader_meta
  gp_ident :: nat

record grader_registry =
  gr_entries :: "(string \<times> grpc_proxy) list"
  gr_closed :: "nat list"

datatype grader_reg_error = ErrGraderAlreadyRegistered string | ErrGraderNotFound string

definition NewGraderRegistry :: grader_registry where
  "NewGraderRegistry = \<lparr> gr_entries = [], gr_closed = [] \<rparr>"

definition closeProxy :: "grpc_proxy \<Rightarrow> grader_registry \<Rightarrow> grader_registry" where
  "closeProxy p r = r\<lparr>gr_closed := gr_closed r @ [gp_ident p]\<rparr>"

definition GraderRegister :: "grpc_proxy \<Rightarrow> grader_registry \<Rightarrow> grader_reg_error + grader_registry" where
  "GraderRegister p r =
     (if map_of (gr_entries r) (gm_TypeID (gp_meta p)) \<noteq> None
      then Inl (ErrGraderAlreadyRegistered (gm_TypeID (gp_meta p)))
      else Inr (r\<lparr>gr_entries := AList.update (gm_TypeID (gp_meta p)) p (gr_entries r)\<rparr>))"

definition GraderReplace :: "grpc_proxy \<Rightarrow> grader_registry \<Rightarrow> grader_registry" where
  "GraderReplace p r =
     (let old = map_of (gr_entries r) (gm_TypeID (gp_meta p));
          r1 = r\<lparr>gr_entries := AList.update (gm_TypeID (gp_meta p)) p (gr_entries r)\<rparr>
      in case old of None \<Rightarrow> r1 | Some o' \<Rightarrow> closeProxy o' r1)"

definition GraderGet :: "grader_registry \<Rightarrow> string \<Rightarrow> grpc_proxy option" where
  "GraderGet r typeID = map_of (gr_entries r) typeID"

definition GraderUnregister :: "string \<Rightarrow> grader_registry \<Rightarrow> grader_reg_error + grader_registry" where
  "GraderUnregister typeID r = (case map_of (gr_entries r) typeID of
     None \<Rightarrow> Inl (ErrGraderNotFound typeID)
   | Some p \<Rightarrow> Inr (closeProxy p (r\<lparr>gr_entries := AList.delete typeID (gr_entries r)\<rparr>)))"

definition GraderList :: "grader_registry \<Rightarrow> grader_meta list" where
  "GraderList r = map (\<lambda>(k, p). gp_meta p) (gr_entries r)"

definition GraderShutdown :: "grader_registry \<Rightarrow> grader_registry" where
  "GraderShutdown r = fold (\<lambda>(k, p). closeProxy p) (gr_entries r) r"

definition grader_key :: "grpc_proxy \<Rightarrow> string" where
  "grader_key p = gm_TypeID (gp_meta p)"

definition grader_held :: "grader_registry \<Rightarrow> nat multiset" where
  "grader_held r = (\<Sum>(k, p) \<in># mset (gr_entries r). {#gp_ident p#})"

section \<open>Both keep the contract\<close>

text \<open>Summing a quantity over the entries of a map, when one entry is added, replaced or removed.\<close>

definition entry_sum :: "('h \<Rightarrow> nat multiset) \<Rightarrow> (string \<times> 'h) list \<Rightarrow> nat multiset" where
  "entry_sum f m = (\<Sum>(k, h) \<in># mset m. f h)"

lemma entry_sum_simps [simp]: "entry_sum f [] = {#}" "entry_sum f ((k, h) # m) = f h + entry_sum f m"
  by (simp_all add: entry_sum_def)

lemma entry_sum_update:
  "wf_map m \<Longrightarrow> entry_sum f (AList.update k h m) + (case map_of m k of None \<Rightarrow> {#} | Some o' \<Rightarrow> f o') = entry_sum f m + f h"
proof (induction m)
  case (Cons a m)
  obtain i x where a: "a = (i, x)" by (cases a)
  from Cons a show ?case
    by (cases "i = k") (auto simp: map_of_None_iff ac_simps)
qed simp

lemma entry_sum_delete:
  "wf_map m \<Longrightarrow> map_of m k = Some h \<Longrightarrow> entry_sum f (AList.delete k m) + f h = entry_sum f m"
proof (induction m)
  case (Cons a m)
  obtain i x where a: "a = (i, x)" by (cases a)
  show ?case
  proof (cases "i = k")
    case True
    with Cons.prems a have "k \<notin> fst ` set m" "x = h" by auto
    moreover from this(1) have "AList.delete k m = m" by (metis delete_id)
    ultimately show ?thesis using a True by (simp add: ac_simps)
  next
    case False
    with Cons a show ?thesis by (simp add: ac_simps)
  qed
qed simp

lemma entry_sum_mem: "wf_map m \<Longrightarrow> i \<in># entry_sum f m \<Longrightarrow> \<exists>k h. map_of m k = Some h \<and> i \<in># f h"
  by (force simp: entry_sum_def wf_map_def in_Union_mset_iff)

lemma sum_swap: "(e :: nat multiset) + old = s + new \<Longrightarrow> e + (c + old) = s + c + new"
  by (metis add.commute add.left_commute)

lemma held_entry_sum: "node_held r = entry_sum node_own (nr_handlers r)" "grader_held g = entry_sum (\<lambda>p. {#gp_ident p#}) (gr_entries g)"
  by (simp_all add: node_held_def grader_held_def entry_sum_def)

lemma closeHandler_simps [simp]:
  "nr_handlers (closeHandler h r) = nr_handlers r" "mset (nr_closed (closeHandler h r)) = mset (nr_closed r) + node_own h"
  by (simp_all add: closeHandler_def node_own_def)

interpretation nodes: registry node_key node_own "\<lambda>r. map_of (nr_handlers r)" TryRegister Replace Unregister
  node_held "\<lambda>r. mset (nr_closed r)" "\<lambda>r. wf_map (nr_handlers r)"
proof (unfold_locales, goal_cases)
  case (2 r h)
  from 2(2) entry_sum_update [OF 2(1), of node_own "node_key h" h]
  have "entry_sum node_own (AList.update (node_key h) h (nr_handlers r)) = entry_sum node_own (nr_handlers r) + node_own h"
    by simp
  then show ?case using 2 by (simp add: TryRegister_def node_key_def held_entry_sum)
next
  case (3 r h)
  with sum_swap [OF entry_sum_update [OF 3, of node_own "node_key h" h], of "mset (nr_closed r)"] show ?case
    by (cases "map_of (nr_handlers r) (node_key h)") (simp_all add: Replace_def node_key_def held_entry_sum)
next
  case (5 r k h)
  from sum_swap [of _ _ _ "{#}" "mset (nr_closed r)"] entry_sum_delete [OF 5, of node_own] 5 show ?case
    by (simp add: Unregister_def held_entry_sum)
next
  case (6 r i)
  with entry_sum_mem show ?case by (simp add: held_entry_sum)
qed (auto simp: TryRegister_def Unregister_def node_key_def Let_def)

interpretation graders: registry grader_key "\<lambda>p. {#gp_ident p#}" GraderGet GraderRegister GraderReplace GraderUnregister
  grader_held "\<lambda>r. mset (gr_closed r)" "\<lambda>r. wf_map (gr_entries r)"
proof (unfold_locales, goal_cases)
  case (2 r h)
  from 2(2) entry_sum_update [OF 2(1), of "\<lambda>p. {#gp_ident p#}" "grader_key h" h]
  have "entry_sum (\<lambda>p. {#gp_ident p#}) (AList.update (grader_key h) h (gr_entries r)) = entry_sum (\<lambda>p. {#gp_ident p#}) (gr_entries r) + {#gp_ident h#}"
    by (simp add: GraderGet_def)
  then show ?case using 2 by (simp add: GraderRegister_def GraderGet_def [abs_def] grader_key_def held_entry_sum)
next
  case (3 r h)
  with sum_swap [OF entry_sum_update [OF 3, of "\<lambda>p. {#gp_ident p#}" "grader_key h" h], of "mset (gr_closed r)"] show ?case
    by (cases "map_of (gr_entries r) (grader_key h)")
       (simp_all add: GraderReplace_def closeProxy_def GraderGet_def [abs_def] grader_key_def held_entry_sum)
next
  case (5 r k h)
  from sum_swap [of _ _ _ "{#}" "mset (gr_closed r)"] entry_sum_delete [of "gr_entries r" k h "\<lambda>p. {#gp_ident p#}"] 5 show ?case
    by (simp add: GraderUnregister_def GraderGet_def [abs_def] closeProxy_def held_entry_sum)
next
  case (6 r i)
  with entry_sum_mem show ?case by (fastforce simp: held_entry_sum GraderGet_def)
qed (auto simp: GraderRegister_def GraderUnregister_def GraderGet_def grader_key_def Let_def)

section \<open>Properties\<close>

lemma NewRegistry_simps [simp]: "nr_handlers NewRegistry = []" "nr_closed NewRegistry = []" "node_held NewRegistry = {#}"
  by (simp_all add: NewRegistry_def node_held_def)

lemma Lookup_iff: "Lookup k r = Inr h \<longleftrightarrow> map_of (nr_handlers r) k = Some h"
  by (simp add: Lookup_def split: option.splits)

lemma count_distinct: "(\<forall>i. count (mset xs) i \<le> 1) \<Longrightarrow> distinct xs"
  by (metis One_nat_def count_mset_0_iff distinct_count_atmost_1 le_Suc_eq le_zero_eq)

lemma node_held_registered:
  "map_of (nr_handlers r) k = Some h \<Longrightarrow> nh_closer h \<Longrightarrow> nh_ident h \<in># node_held r"
  by (force simp: node_held_def node_own_def dest: map_of_SomeD)

definition sample_handler :: "string \<Rightarrow> nat \<Rightarrow> node_handler" where
  "sample_handler t i = \<lparr> nh_Meta = \<lparr> nm_TypeID = t, nm_DisplayName = [], nm_Category = [], nm_Description = [],
      nm_InputSchema = [], nm_OutputSchema = [] \<rparr>, nh_ident = i, nh_closer = True \<rparr>"

text \<open>
  Connections. However node handlers are registered, replaced and removed, every handler
  is found under its own type id; a registered handler is not closed, none is closed twice,
  and every connection ever taken is still registered or has been closed.
\<close>

theorem registry_closes_once:
  assumes "\<forall>i. count (nodes.all_taken ps NewRegistry) i \<le> 1"
  defines "r \<equiv> fold nodes.perform ps NewRegistry"
  shows "(\<forall>k h. Lookup k r = Inr h \<longrightarrow> nm_TypeID (nh_Meta h) = k \<and> (nh_closer h \<longrightarrow> nh_ident h \<notin> set (nr_closed r))) \<and>
    distinct (nr_closed r) \<and>
    (\<forall>i. i \<in># nodes.all_taken ps NewRegistry \<longrightarrow> i \<in># node_held r \<or> i \<in> set (nr_closed r))"
proof -
  have "nodes.keyed NewRegistry" by (simp add: nodes.keyed_def)
  with nodes.performs_law [of NewRegistry ps] have "nodes.keyed r" by (simp add: r_def)
  moreover note nodes.no_double_close [of NewRegistry ps]
  ultimately show ?thesis using assms(1) count_distinct [of "nr_closed r"] node_held_registered [of r]
    by (auto simp: r_def Lookup_iff nodes.keyed_def node_key_def)
qed

theorem registry_closes_once_witness:
  "let ps = [Add (sample_handler ''a'' 1), Add (sample_handler ''a'' 2), Put (sample_handler ''a'' 3), Add (sample_handler ''b'' 4), Drop ''b''];
       r = fold nodes.perform ps NewRegistry
   in nr_closed r = [1, 4] \<and> distinct (nr_closed r) \<and> Lookup ''a'' r = Inr (sample_handler ''a'' 3)"
proof -
  let ?ps = "[Add (sample_handler ''a'' 1), Add (sample_handler ''a'' 2), Put (sample_handler ''a'' 3), Add (sample_handler ''b'' 4), Drop ''b'']"
  let ?r = "fold nodes.perform ?ps NewRegistry"
  have r: "?r = \<lparr>nr_handlers = [(''a'', sample_handler ''a'' 3)], nr_closed = [1, 4]\<rparr>"
    by (simp add: Let_def sample_handler_def NewRegistry_def TryRegister_def Replace_def Unregister_def closeHandler_def)
  have "nodes.all_taken ?ps NewRegistry = {#1, 3, 4#}"
    by (simp add: Let_def sample_handler_def NewRegistry_def TryRegister_def Replace_def Unregister_def closeHandler_def
        node_own_def node_key_def)
  then have "\<forall>i. count (nodes.all_taken ?ps NewRegistry) i \<le> 1" by simp
  from registry_closes_once [OF this] r show ?thesis by (simp add: Lookup_def)
qed

text \<open>
  Listing. The metadata \<open>ListAll\<close> returns is strictly sorted by type id and names exactly
  the type ids that \<open>Lookup\<close> finds.
\<close>

theorem registry_list_all:
  fixes ps :: "node_handler reg_op list"
  defines "r \<equiv> fold nodes.perform ps NewRegistry"
  shows "sorted (map nm_TypeID (ListAll r)) \<and> distinct (map nm_TypeID (ListAll r)) \<and>
    (\<forall>k. k \<in> set (map nm_TypeID (ListAll r)) \<longleftrightarrow> (\<exists>h. Lookup k r = Inr h))"
proof -
  from nodes.performs_law [of NewRegistry ps] have w: "wf_map (nr_handlers r)" and "nodes.keyed r"
    by (simp_all add: r_def nodes.keyed_def)
  then have k: "nm_TypeID (nh_Meta h) = i" if "(i, h) \<in> set (nr_handlers r)" for i h
    using that by (simp add: nodes.keyed_def node_key_def wf_map_def)
  have "map nm_TypeID (map (\<lambda>(k, h). nh_Meta h) (nr_handlers r)) = map fst (nr_handlers r)"
    using k by auto
  then have "mset (map nm_TypeID (ListAll r)) = mset (map fst (nr_handlers r))"
    by (metis ListAll_def mset_map mset_sort)
  then have "distinct (map nm_TypeID (ListAll r))" and s: "set (map nm_TypeID (ListAll r)) = fst ` set (nr_handlers r)"
    using w by (metis mset_eq_imp_distinct_iff wf_map_def, metis mset_eq_setD set_map)
  moreover have "sorted (map nm_TypeID (ListAll r))" by (simp add: ListAll_def)
  moreover have "k \<in> fst ` set (nr_handlers r) \<longleftrightarrow> (\<exists>h. Lookup k r = Inr h)" for k
    using map_of_None_iff [of "nr_handlers r" k] by (auto simp: Lookup_iff)
  ultimately show ?thesis using s by simp
qed

end
