(* ===== verification/Event_Bus.thy ===== *)
theory Event_Bus
  imports Prelude
begin

text \<open>
  The fan-out of run events to subscribers: \<open>EventBus\<close> (\<open>internal/engine/event.go\<close>) and its
  twin \<open>EvalEventBus\<close> (\<open>internal/eval/event.go\<close>). A subscriber's channel is a buffer of at most
  256 events that is open or closed; the bus maps a run id to the channels subscribed to it.
  \<open>Publish\<close> holds the read lock for its whole loop and \<open>cleanup\<close> the write lock, so a concurrent
  use is a sequence of these operations. Sending on a closed channel and closing a channel
  twice panic in Go; here both are \<open>None\<close>.

  The locale \<open>fan_out\<close> is the contract of both buses; its lemmas show that no sequence of
  operations in which a subscription is cleaned up at most once can panic, and what a
  subscriber receives.
\<close>

section \<open>Channels\<close>

record 'e channel =
  ch_buf :: "'e list"
  ch_open :: bool

record 'e bus =
  subscribers :: "(string \<times> nat list) list"
  channels :: "nat \<Rightarrow> 'e channel"
  next_chan :: nat

definition chan_cap :: nat where
  "chan_cap = 256"

definition subs_of :: "'e bus \<Rightarrow> string \<Rightarrow> nat list" where
  "subs_of b runID = (case map_of (subscribers b) runID of None \<Rightarrow> [] | Some cs \<Rightarrow> cs)"

text \<open>The non-blocking send \<open>select { case ch <- event: default: }\<close>.\<close>

definition try_send :: "'e \<Rightarrow> nat \<Rightarrow> 'e bus \<Rightarrow> 'e bus option" where
  "try_send ev c b =
     (if \<not> ch_open (channels b c) then None
      else if length (ch_buf (channels b c)) < chan_cap
      then Some (b\<lparr>channels := (channels b)(c := (channels b c)\<lparr>ch_buf := ch_buf (channels b c) @ [ev]\<rparr>)\<rparr>)
      else Some b)"

fun send_all :: "'e \<Rightarrow> nat list \<Rightarrow> 'e bus \<Rightarrow> 'e bus option" where
  "send_all ev [] b = Some b"
| "send_all ev (c # cs) b = (case try_send ev c b of None \<Rightarrow> None | Some b' \<Rightarrow> send_all ev cs b')"

definition subscribe :: "string \<Rightarrow> 'e bus \<Rightarrow> nat \<times> 'e bus" where
  "subscribe runID b =
     (let c = next_chan b
      in (c, b\<lparr> subscribers := AList.update runID (subs_of b runID @ [c]) (subscribers b),
                channels := (channels b)(c := \<lparr>ch_buf = [], ch_open = True\<rparr>),
                next_chan := Suc c \<rparr>))"

definition cleanup :: "string \<Rightarrow> nat \<Rightarrow> 'e bus \<Rightarrow> 'e bus option" where
  "cleanup runID c b =
     (let subs = subs_of b runID;
          b1 = (if c \<in> set subs then b\<lparr>subscribers := AList.update runID (remove1 c subs) (subscribers b)\<rparr> else b);
          b2 = (if subs_of b1 runID = [] then b1\<lparr>subscribers := AList.delete runID (subscribers b1)\<rparr> else b1)
      in if \<not> ch_open (channels b2 c) then None
         else Some (b2\<lparr>channels := (channels b2)(c := (channels b2 c)\<lparr>ch_open := False\<rparr>)\<rparr>))"

text \<open>The subscriber's side: taking the oldest event out of the buffer.\<close>

definition take_event :: "nat \<Rightarrow> 'e bus \<Rightarrow> 'e bus" where
  "take_event c b = b\<lparr>channels := (channels b)(c := (channels b c)\<lparr>ch_buf := tl (ch_buf (channels b c))\<rparr>)\<rparr>"

definition emptyBus :: "'e bus" where
  "emptyBus = \<lparr> subscribers = [], channels = (\<lambda>_. \<lparr>ch_buf = [], ch_open = False\<rparr>), next_chan = 0 \<rparr>"

section \<open>The two buses\<close>

datatype node_error =
    HandlerError string
  | NodeTypeNotFound string
  | NodePanicked string string
  | CtxErr
  | AllSinksSuppressed

datatype event_type = EventNodePending | EventNodeRunning | EventNodeSucceeded | EventNodeFailed
  | EventRunSucceeded | EventRunFailed

record node_event =
  ev_RunID :: string
  ev_NodeID :: string
  ev_Type :: event_type
  ev_Output :: "gomap option"
  ev_Error :: "node_error option"

type_synonym event_bus = "node_event bus"

definition NewEventBus :: event_bus where
  "NewEventBus = emptyBus"

definition Subscribe :: "string \<Rightarrow> event_bus \<Rightarrow> nat \<times> event_bus" where
  "Subscribe runID b = subscribe runID b"

definition Publish :: "node_event \<Rightarrow> event_bus \<Rightarrow> event_bus option" where
  "Publish ev b = send_all ev (subs_of b (ev_RunID ev)) b"

datatype eval_event_type = EvalEventTestCaseStarted | EvalEventTestCaseCompleted | EvalEventRunCompleted | EvalEventRunFailed

record eval_run_summary =
  ers_TotalCases :: int
  ers_PassedCount :: int
  ers_FailedCount :: int
  ers_ErrorCount :: int

record eval_event =
  ee_EvalRunID :: string
  ee_Type :: eval_event_type
  ee_TestCaseName :: string
  ee_Summary :: "eval_run_summary option"

type_synonym eval_event_bus = "eval_event bus"

definition NewEvalEventBus :: eval_event_bus where
  "NewEvalEventBus = emptyBus"

definition EvalSubscribe :: "string \<Rightarrow> eval_event_bus \<Rightarrow> nat \<times> eval_event_bus" where
  "EvalSubscribe runID b = subscribe runID b"

text \<open>\<open>Publish\<close> of the eval bus accepts a nil bus and then does nothing.\<close>

definition EvalPublish :: "eval_event \<Rightarrow> eval_event_bus option \<Rightarrow> eval_event_bus option option" where
  "EvalPublish ev ob = (case ob of
     None \<Rightarrow> Some None
   | Some b \<Rightarrow> map_option Some (send_all ev (subs_of b (ee_EvalRunID ev)) b))"

definition eval_publish :: "eval_event \<Rightarrow> eval_event_bus \<Rightarrow> eval_event_bus option" where
  "eval_publish ev b = (case EvalPublish ev (Some b) of Some (Some b') \<Rightarrow> Some b' | _ \<Rightarrow> None)"

section \<open>The invariant\<close>

definition bus_inv :: "'e bus \<Rightarrow> bool" where
  "bus_inv b \<longleftrightarrow>
     (\<forall>r c. c \<in> set (subs_of b r) \<longrightarrow> ch_open (channels b c) \<and> c < next_chan b) \<and>
     (\<forall>r. distinct (subs_of b r)) \<and>
     (\<forall>r r' c. c \<in> set (subs_of b r) \<longrightarrow> c \<in> set (subs_of b r') \<longrightarrow> r = r') \<and>
     (\<forall>c. length (ch_buf (channels b c)) \<le> chan_cap)"

lemma subs_of_simps [simp]:
  "subs_of (b\<lparr>channels := h\<rparr>) = subs_of b" "subs_of (b\<lparr>next_chan := n\<rparr>) = subs_of b"
  "subs_of (b\<lparr>subscribers := AList.update r cs m\<rparr>) x = (if x = r then cs else subs_of (b\<lparr>subscribers := m\<rparr>) x)"
  "subs_of (b\<lparr>subscribers := AList.delete r m\<rparr>) x = (if x = r then [] else subs_of (b\<lparr>subscribers := m\<rparr>) x)"
  "subs_of (b\<lparr>subscribers := subscribers b\<rparr>) = subs_of b"
  by (auto simp: subs_of_def fun_eq_iff)

lemma subs_of_cong: "subscribers b' = subscribers b \<Longrightarrow> subs_of b' = subs_of b"
  by (auto simp: subs_of_def fun_eq_iff)

lemma try_send_inv:
  assumes "bus_inv b" "ch_open (channels b c)"
  shows "\<exists>b'. try_send ev c b = Some b' \<and> bus_inv b' \<and> subscribers b' = subscribers b \<and> next_chan b' = next_chan b \<and>
    (\<forall>x. ch_open (channels b' x) = ch_open (channels b x)) \<and>
    (\<forall>x. ch_buf (channels b' x) = ch_buf (channels b x) @
       (if x = c \<and> length (ch_buf (channels b c)) < chan_cap then [ev] else []))"
  using assms by (auto simp: try_send_def bus_inv_def)

lemma send_all_inv:
  assumes "bus_inv b" "\<forall>c \<in> set cs. ch_open (channels b c)" "distinct cs"
  shows "\<exists>b'. send_all ev cs b = Some b' \<and> bus_inv b' \<and> subscribers b' = subscribers b \<and> next_chan b' = next_chan b \<and>
    (\<forall>x. ch_open (channels b' x) = ch_open (channels b x)) \<and>
    (\<forall>x. ch_buf (channels b' x) = ch_buf (channels b x) @
       (if x \<in> set cs \<and> length (ch_buf (channels b x)) < chan_cap then [ev] else []))"
  using assms
proof (induction cs arbitrary: b)
  case (Cons c cs)
  from try_send_inv [of b c ev] Cons.prems obtain b1 where b1: "try_send ev c b = Some b1" "bus_inv b1"
      "subscribers b1 = subscribers b" "next_chan b1 = next_chan b" "\<forall>x. ch_open (channels b1 x) = ch_open (channels b x)"
      "\<forall>x. ch_buf (channels b1 x) = ch_buf (channels b x) @ (if x = c \<and> length (ch_buf (channels b c)) < chan_cap then [ev] else [])"
    by auto
  have "\<forall>x \<in> set cs. ch_open (channels b1 x)" "distinct cs" using Cons.prems b1(5) by auto
  from Cons.IH [OF b1(2) this] obtain b2 where "send_all ev cs b1 = Some b2" "bus_inv b2"
      "subscribers b2 = subscribers b1" "next_chan b2 = next_chan b1" "\<forall>x. ch_open (channels b2 x) = ch_open (channels b1 x)"
      "\<forall>x. ch_buf (channels b2 x) = ch_buf (channels b1 x) @ (if x \<in> set cs \<and> length (ch_buf (channels b1 x)) < chan_cap then [ev] else [])"
    by auto
  with b1 Cons.prems(3) show ?case by (intro exI [of _ b2]) auto
qed simp

lemma bus_inv_empty: "bus_inv emptyBus"
  by (simp add: bus_inv_def emptyBus_def subs_of_def)

lemma subscribe_inv:
  assumes "bus_inv b"
  shows "bus_inv (snd (subscribe r b))" "fst (subscribe r b) = next_chan b"
    "subs_of (snd (subscribe r b)) x = (if x = r then subs_of b r @ [next_chan b] else subs_of b x)"
    "next_chan (snd (subscribe r b)) = Suc (next_chan b)"
    "channels (snd (subscribe r b)) = (channels b)(next_chan b := \<lparr>ch_buf = [], ch_open = True\<rparr>)"
proof -
  show s: "fst (subscribe r b) = next_chan b" "next_chan (snd (subscribe r b)) = Suc (next_chan b)"
    "channels (snd (subscribe r b)) = (channels b)(next_chan b := \<lparr>ch_buf = [], ch_open = True\<rparr>)"
    and t: "\<And>x. subs_of (snd (subscribe r b)) x = (if x = r then subs_of b r @ [next_chan b] else subs_of b x)"
    by (simp_all add: subscribe_def Let_def)
  have "c \<in> set (subs_of b y) \<Longrightarrow> c \<noteq> next_chan b" for c y using assms by (auto simp: bus_inv_def)
  with assms show "bus_inv (snd (subscribe r b))"
    unfolding bus_inv_def s t by (auto simp: less_Suc_eq split: if_splits)
qed

lemma cleanup_inv:
  assumes "bus_inv b" "ch_open (channels b c)" "c \<in> set (subs_of b r)"
  shows "\<exists>b'. cleanup r c b = Some b' \<and> bus_inv b' \<and> next_chan b' = next_chan b \<and>
    (\<forall>x. subs_of b' x = (if x = r then remove1 c (subs_of b r) else subs_of b x)) \<and>
    (\<forall>x. ch_open (channels b' x) = (x \<noteq> c \<and> ch_open (channels b x))) \<and>
    (\<forall>x. ch_buf (channels b' x) = ch_buf (channels b x))"
proof -
  let ?b2 = "if remove1 c (subs_of b r) = []
     then b\<lparr>subscribers := AList.delete r (AList.update r (remove1 c (subs_of b r)) (subscribers b))\<rparr>
     else b\<lparr>subscribers := AList.update r (remove1 c (subs_of b r)) (subscribers b)\<rparr>"
  let ?b' = "?b2\<lparr>channels := (channels ?b2)(c := (channels ?b2 c)\<lparr>ch_open := False\<rparr>)\<rparr>"
  have "cleanup r c b = Some ?b'" using assms by (simp add: cleanup_def Let_def)
  moreover have sub: "subs_of ?b' x = (if x = r then remove1 c (subs_of b r) else subs_of b x)" for x
    by simp
  moreover have "bus_inv ?b'"
  proof -
    have d: "distinct (subs_of b r)" and u: "\<And>r'. c \<in> set (subs_of b r') \<Longrightarrow> r' = r" using assms by (auto simp: bus_inv_def)
    have "set (remove1 c (subs_of b r)) = set (subs_of b r) - {c}" using d by simp
    then show ?thesis using assms(1) d u unfolding bus_inv_def sub by (auto split: if_splits)
  qed
  ultimately show ?thesis by (intro exI [of _ ?b']) auto
qed

section \<open>The contract of a bus\<close>

datatype 'e bus_op = BSub string | BPub 'e | BClean string nat | BTake nat

text \<open>A subscription is cleaned up by its owner, while it is still registered.\<close>

fun allowed :: "'e bus_op \<Rightarrow> 'e bus \<Rightarrow> bool" where
  "allowed (BClean r c) b = (c \<in> set (subs_of b r))"
| "allowed _ b = True"

locale fan_out =
  fixes run_of :: "'e \<Rightarrow> string" and publish :: "'e \<Rightarrow> 'e bus \<Rightarrow> 'e bus option"
    and register :: "string \<Rightarrow> 'e bus \<Rightarrow> nat \<times> 'e bus"
  assumes publish_law: "bus_inv b \<Longrightarrow> \<exists>b'. publish ev b = Some b' \<and> bus_inv b' \<and> subs_of b' = subs_of b \<and>
      next_chan b' = next_chan b \<and> (\<forall>x. ch_open (channels b' x) = ch_open (channels b x)) \<and>
      (\<forall>x. ch_buf (channels b' x) = ch_buf (channels b x) @
         (if x \<in> set (subs_of b (run_of ev)) \<and> length (ch_buf (channels b x)) < chan_cap then [ev] else []))"
    and register_law: "bus_inv b \<Longrightarrow> bus_inv (snd (register r b)) \<and> fst (register r b) = next_chan b \<and>
      next_chan (snd (register r b)) = Suc (next_chan b) \<and>
      (\<forall>x. subs_of (snd (register r b)) x = (if x = r then subs_of b r @ [next_chan b] else subs_of b x)) \<and>
      channels (snd (register r b)) = (channels b)(next_chan b := \<lparr>ch_buf = [], ch_open = True\<rparr>)"
begin

fun operate :: "'e bus_op \<Rightarrow> 'e bus \<Rightarrow> 'e bus option" where
  "operate (BSub r) b = Some (snd (register r b))"
| "operate (BPub ev) b = publish ev b"
| "operate (BClean r c) b = cleanup r c b"
| "operate (BTake c) b = Some (take_event c b)"

fun operates :: "'e bus_op list \<Rightarrow> 'e bus \<Rightarrow> 'e bus option" where
  "operates [] b = Some b"
| "operates (p # ps) b = (case operate p b of None \<Rightarrow> None | Some b' \<Rightarrow> operates ps b')"

fun all_allowed :: "'e bus_op list \<Rightarrow> 'e bus \<Rightarrow> bool" where
  "all_allowed [] b = True"
| "all_allowed (p # ps) b = (allowed p b \<and> (case operate p b of None \<Rightarrow> True | Some b' \<Rightarrow> all_allowed ps b'))"

lemma operate_law:
  assumes "bus_inv b" "allowed p b"
  shows "\<exists>b'. operate p b = Some b' \<and> bus_inv b' \<and> next_chan b \<le> next_chan b' \<and>
    (\<forall>c r. c < next_chan b \<longrightarrow> p \<noteq> BClean r c \<longrightarrow> c \<in> set (subs_of b r) \<longrightarrow> c \<in> set (subs_of b' r))"
proof (cases p)
  case (BSub r)
  with register_law [OF assms(1), of r] show ?thesis by auto
next
  case (BPub ev)
  with publish_law [OF assms(1), of ev] show ?thesis by auto
next
  case (BClean r c)
  with assms have c: "c \<in> set (subs_of b r)" "ch_open (channels b c)" by (auto simp: bus_inv_def)
  from cleanup_inv [OF assms(1) c(2,1)] obtain b' where b': "cleanup r c b = Some b'" "bus_inv b'" "next_chan b' = next_chan b"
    "\<And>x. subs_of b' x = (if x = r then remove1 c (subs_of b r) else subs_of b x)" by auto
  have "x \<in> set (subs_of b' y)" if "BClean r c \<noteq> BClean y x" "x \<in> set (subs_of b y)" for x y
    using that by (auto simp: b'(4) in_set_remove1)
  with b' BClean show ?thesis by auto
next
  case (BTake c)
  have "length (ch_buf (channels b c)) \<le> chan_cap" using assms(1) by (simp add: bus_inv_def)
  then have "length (ch_buf (channels b c)) - 1 \<le> chan_cap" by linarith
  with assms(1) have "bus_inv (take_event c b)" by (auto simp: bus_inv_def take_event_def)
  with BTake show ?thesis by (auto simp: take_event_def)
qed

lemma no_panic: "bus_inv b \<Longrightarrow> all_allowed ps b \<Longrightarrow> \<exists>b'. operates ps b = Some b' \<and> bus_inv b'"
proof (induction ps arbitrary: b)
  case (Cons p ps)
  from operate_law [of b p] Cons.prems obtain b1 where "operate p b = Some b1" "bus_inv b1" by auto
  with Cons show ?case by auto
qed simp

text \<open>What was published for a run, and what the reader of a channel has taken.\<close>

definition published :: "string \<Rightarrow> 'e bus_op list \<Rightarrow> 'e list" where
  "published r ps = concat (map (\<lambda>p. case p of BPub ev \<Rightarrow> if run_of ev = r then [ev] else [] | _ \<Rightarrow> []) ps)"

fun taken :: "nat \<Rightarrow> 'e bus_op list \<Rightarrow> 'e bus \<Rightarrow> 'e list" where
  "taken c [] b = []"
| "taken c (p # ps) b = (if p = BTake c then take 1 (ch_buf (channels b c)) else []) @
     (case operate p b of None \<Rightarrow> [] | Some b' \<Rightarrow> taken c ps b')"

lemma published_Cons: "published r (p # ps) = (case p of BPub ev \<Rightarrow> if run_of ev = r then [ev] else [] | _ \<Rightarrow> []) @ published r ps"
  by (simp add: published_def)

lemma delivery_step:
  assumes "bus_inv b" "allowed p b" "c \<in> set (subs_of b r)" "p \<noteq> BClean r c" "operate p b = Some b'"
  shows "c \<in> set (subs_of b' r)"
    "(if p = BTake c then take 1 (ch_buf (channels b c)) else []) @ ch_buf (channels b' c) = ch_buf (channels b c) @
       (case p of BPub ev \<Rightarrow> if run_of ev = r \<and> length (ch_buf (channels b c)) < chan_cap then [ev] else [] | _ \<Rightarrow> [])"
proof -
  have c: "c < next_chan b" using assms(1,3) by (auto simp: bus_inv_def)
  from operate_law [OF assms(1,2)] c assms(3-5) show "c \<in> set (subs_of b' r)" by auto
  show "(if p = BTake c then take 1 (ch_buf (channels b c)) else []) @ ch_buf (channels b' c) = ch_buf (channels b c) @
       (case p of BPub ev \<Rightarrow> if run_of ev = r \<and> length (ch_buf (channels b c)) < chan_cap then [ev] else [] | _ \<Rightarrow> [])"
  proof (cases p)
    case (BSub r')
    with register_law [OF assms(1), of r'] assms(5) c show ?thesis by auto
  next
    case (BPub ev)
    have "c \<in> set (subs_of b (run_of ev)) \<longleftrightarrow> run_of ev = r" using assms(1,3) unfolding bus_inv_def by blast
    with publish_law [OF assms(1), of ev] assms(5) BPub show ?thesis by auto
  next
    case (BClean r' c')
    have "c' \<in> set (subs_of b r')" "ch_open (channels b c')" using assms(1,2) BClean by (auto simp: bus_inv_def)
    from cleanup_inv [OF assms(1) this(2,1)] assms(5) BClean show ?thesis by auto
  next
    case (BTake c')
    with assms(5) show ?thesis by (cases "ch_buf (channels b c)") (auto simp: take_event_def)
  qed
qed

lemma delivery:
  assumes "bus_inv b" "all_allowed ps b" "c \<in> set (subs_of b r)" "BClean r c \<notin> set ps" "operates ps b = Some b'"
  shows "\<exists>X. taken c ps b @ ch_buf (channels b' c) = ch_buf (channels b c) @ X \<and> subseq X (published r ps) \<and>
    (length (ch_buf (channels b c)) + length (published r ps) \<le> chan_cap \<longrightarrow> X = published r ps)"
  using assms
proof (induction ps arbitrary: b)
  case Nil
  then show ?case by (simp add: published_def)
next
  case (Cons p ps)
  from operate_law [of b p] Cons.prems obtain b1 where b1: "operate p b = Some b1" "bus_inv b1" by auto
  let ?new = "case p of BPub ev \<Rightarrow> if run_of ev = r then [ev] else [] | _ \<Rightarrow> []"
  let ?got = "case p of BPub ev \<Rightarrow> if run_of ev = r \<and> length (ch_buf (channels b c)) < chan_cap then [ev] else [] | _ \<Rightarrow> []"
  from delivery_step [OF Cons.prems(1) _ Cons.prems(3) _ b1(1)] Cons.prems(2,4)
  have in1: "c \<in> set (subs_of b1 r)" and d: "(if p = BTake c then take 1 (ch_buf (channels b c)) else []) @ ch_buf (channels b1 c) = ch_buf (channels b c) @ ?got"
    by auto
  from Cons.IH [of b1] b1 in1 Cons.prems obtain X where X: "taken c ps b1 @ ch_buf (channels b' c) = ch_buf (channels b1 c) @ X"
    "subseq X (published r ps)" "length (ch_buf (channels b1 c)) + length (published r ps) \<le> chan_cap \<longrightarrow> X = published r ps"
    by auto
  have "taken c (p # ps) b @ ch_buf (channels b' c) = ch_buf (channels b c) @ (?got @ X)"
  proof -
    have "taken c (p # ps) b @ ch_buf (channels b' c) = (if p = BTake c then take 1 (ch_buf (channels b c)) else []) @ ch_buf (channels b1 c) @ X"
      using b1(1) X(1) by simp
    also have "\<dots> = ((if p = BTake c then take 1 (ch_buf (channels b c)) else []) @ ch_buf (channels b1 c)) @ X" by simp
    also have "\<dots> = (ch_buf (channels b c) @ ?got) @ X" unfolding d ..
    finally show ?thesis by simp
  qed
  moreover have "subseq (?got @ X) (published r (p # ps))"
    unfolding published_Cons by (rule list_emb_append_mono [OF _ X(2)]) (auto split: bus_op.splits)
  moreover have "?got @ X = published r (p # ps)" if room: "length (ch_buf (channels b c)) + length (published r (p # ps)) \<le> chan_cap"
  proof -
    have "?got = ?new" using room unfolding published_Cons by (auto split: bus_op.splits)
    moreover have "length (ch_buf (channels b1 c)) \<le> length (ch_buf (channels b c)) + length ?got"
      using arg_cong [OF d, of length] by simp
    ultimately show ?thesis using X(3) room unfolding published_Cons by auto
  qed
  ultimately show ?case by blast
qed

end

interpretation node_bus: fan_out ev_RunID Publish Subscribe
proof (unfold_locales, goal_cases)
  case (1 b ev)
  have "\<forall>c \<in> set (subs_of b (ev_RunID ev)). ch_open (channels b c)" "distinct (subs_of b (ev_RunID ev))"
    using 1 by (auto simp: bus_inv_def)
  from send_all_inv [OF 1 this, of ev] subs_of_cong [of _ b] show ?case
    by (auto simp: Publish_def)
next
  case (2 b r)
  with subscribe_inv [OF 2] show ?case by (simp add: Subscribe_def)
qed

interpretation eval_bus: fan_out ee_EvalRunID eval_publish EvalSubscribe
proof (unfold_locales, goal_cases)
  case (1 b ev)
  have "\<forall>c \<in> set (subs_of b (ee_EvalRunID ev)). ch_open (channels b c)" "distinct (subs_of b (ee_EvalRunID ev))"
    using 1 by (auto simp: bus_inv_def)
  from send_all_inv [OF 1 this, of ev] subs_of_cong [of _ b] show ?case
    by (auto simp: eval_publish_def EvalPublish_def)
next
  case (2 b r)
  with subscribe_inv [OF 2] show ?case by (simp add: EvalSubscribe_def)
qed

section \<open>Properties\<close>

definition sample_event :: "string \<Rightarrow> string \<Rightarrow> node_event" where
  "sample_event r n = \<lparr> ev_RunID = r, ev_NodeID = n, ev_Type = EventNodeRunning, ev_Output = None, ev_Error = None \<rparr>"

text \<open>
  C9. Delivery. However subscriptions, publications, cleanups and reads are interleaved, as long
  as every subscription is cleaned up at most once and by its owner, nothing panics (no send on a
  closed channel, no double close). A subscriber of run \<open>r\<close> sees, in order, a subsequence of the
  events published for \<open>r\<close> since it subscribed, and all of them while at most 256 were published.
\<close>

theorem bus_delivery:
  assumes "node_bus.all_allowed ps NewEventBus"
  shows "\<exists>b. node_bus.operates ps NewEventBus = Some b \<and>
    (\<forall>c b2. Subscribe r b = (c, b2) \<and> node_bus.all_allowed qs b2 \<and> BClean r c \<notin> set qs \<longrightarrow>
       (\<exists>b3. node_bus.operates qs b2 = Some b3 \<and>
          subseq (node_bus.taken c qs b2 @ ch_buf (channels b3 c)) (node_bus.published r qs) \<and>
          (length (node_bus.published r qs) \<le> 256 \<longrightarrow>
             node_bus.taken c qs b2 @ ch_buf (channels b3 c) = node_bus.published r qs)))"
proof -
  have "bus_inv NewEventBus" by (simp add: NewEventBus_def bus_inv_empty)
  from node_bus.no_panic [OF this assms] obtain b where b: "node_bus.operates ps NewEventBus = Some b" "bus_inv b" by blast
  have "\<exists>b3. node_bus.operates qs b2 = Some b3 \<and>
          subseq (node_bus.taken c qs b2 @ ch_buf (channels b3 c)) (node_bus.published r qs) \<and>
          (length (node_bus.published r qs) \<le> 256 \<longrightarrow>
             node_bus.taken c qs b2 @ ch_buf (channels b3 c) = node_bus.published r qs)"
    if s: "Subscribe r b = (c, b2)" "node_bus.all_allowed qs b2" "BClean r c \<notin> set qs" for c b2
  proof -
    from node_bus.register_law [OF b(2), of r] s(1) have i2: "bus_inv b2" "c \<in> set (subs_of b2 r)" "ch_buf (channels b2 c) = []"
      by auto
    from node_bus.no_panic [OF i2(1) s(2)] obtain b3 where b3: "node_bus.operates qs b2 = Some b3" by blast
    from node_bus.delivery [OF i2(1) s(2) i2(2) s(3) b3] b3 i2(3) show ?thesis by (auto simp: chan_cap_def)
  qed
  with b(1) show ?thesis by blast
qed

theorem bus_delivery_witness:
  "let qs = [BPub (sample_event ''r'' ''a''), BPub (sample_event ''other'' ''z''), BTake 0, BPub (sample_event ''r'' ''b'')];
       b2 = snd (Subscribe ''r'' NewEventBus)
   in (\<exists>b3. node_bus.operates qs b2 = Some b3 \<and>
        node_bus.taken 0 qs b2 @ ch_buf (channels b3 0) = [sample_event ''r'' ''a'', sample_event ''r'' ''b''])"
proof -
  let ?qs = "[BPub (sample_event ''r'' ''a''), BPub (sample_event ''other'' ''z''), BTake 0, BPub (sample_event ''r'' ''b'')]"
  let ?b2 = "snd (Subscribe ''r'' NewEventBus)"
  have s: "Subscribe ''r'' NewEventBus = (0, ?b2)" by (simp add: Subscribe_def subscribe_def NewEventBus_def emptyBus_def Let_def)
  have a: "node_bus.all_allowed ?qs ?b2" by (simp split: option.splits)
  have p: "node_bus.published ''r'' ?qs = [sample_event ''r'' ''a'', sample_event ''r'' ''b'']"
    by (simp add: node_bus.published_def sample_event_def)
  have "node_bus.all_allowed [] NewEventBus" by simp
  from bus_delivery [OF this, of "''r''" ?qs] s a p show ?thesis by (auto simp: Let_def)
qed

end
