(* ===== verification/Runner.thy ===== *)
theory Runner
  imports Exec_Context Output_Parser Registry Event_Bus
begin

text \<open>
  The concurrent execution of a workflow graph (\<open>internal/engine/runner.go\<close>).

  The supervisor loop of \<open>runDAG\<close> is one goroutine; its local maps and counters are the record
  \<open>sup\<close>, and what it does with one result is the executable function \<open>receive\<close>. Every dispatched
  node is a goroutine of its own, which first reads the shared context (\<open>executeNode_start\<close>) and
  later delivers a result (\<open>executeNode_finish\<close>); \<open>Runner_Steps\<close> interleaves them.

  What a handler does is a parameter: the outcome of each attempt, and whether the context was
  found cancelled during the pause before an attempt. \<open>propagateSkip\<close> is recursive over the
  graph and carries fuel; \<open>None\<close> is running out of it, which never happens on a built graph.
\<close>

section \<open>Results and errors\<close>

record node_result =
  nodeID :: string
  nodeOutput :: gomap
  routingOutput :: gomap
  err :: "node_error option"

datatype stored_result = Succeeded gomap | FailedWith node_error

record node_input =
  UpstreamData :: gomap
  Config :: "gomap option"
  DirectPredecessorIDs :: "string list"

section \<open>Routing\<close>

definition branchAllows :: "workflow_edge \<Rightarrow> gomap \<Rightarrow> string \<Rightarrow> bool" where
  "branchAllows edge out sourceTypeID = (case we_BranchLabel edge of
     None \<Rightarrow> True
   | Some label \<Rightarrow>
       (if sourceTypeID = loopControllerTypeID then str_or_empty (map_of out ''action'') = label
        else case map_of out ''matched_rule'' of
          Some (VStr mr) \<Rightarrow> mr = label
        | _ \<Rightarrow> (case map_of out ''result'' of
            Some (VBool res) \<Rightarrow> (label = ''true'') = res
          | _ \<Rightarrow> False)))"

text \<open>
  \<open>int(n)\<close> of a float64 outside the int64 range is implementation-defined in Go; the model
  wraps it, and the theorems that depend on it state the range they need.
\<close>

definition maxIterFromConfig :: "gomap option \<Rightarrow> int" where
  "maxIterFromConfig config = (case map_of (cfg_entries config) ''max_iterations'' of
     Some (VFloat n) \<Rightarrow> wrap64 (go_trunc n)
   | Some (VInt n) \<Rightarrow> n
   | Some (VInt64 n) \<Rightarrow> n
   | _ \<Rightarrow> 10)"

text \<open>\<open>dag.Nodes[id]\<close>: the zero node when the id is unknown.\<close>

definition zeroNode :: workflow_node where
  "zeroNode = \<lparr> wn_ID = [], wn_TypeID = [], wn_Label = [], wn_Position = \<lparr>np_X = 0, np_Y = 0\<rparr>,
     wn_Config = None, wn_SensitiveKeys = None, wn_RetryPolicy = None, wn_OutputParsers = [] \<rparr>"

definition nodeAt :: "dag \<Rightarrow> string \<Rightarrow> workflow_node" where
  "nodeAt d i = (case map_of (d_Nodes d) i of None \<Rightarrow> zeroNode | Some n \<Rightarrow> n)"

definition bodyOf :: "dag \<Rightarrow> string \<Rightarrow> string list" where
  "bodyOf d c = (case map_of (d_LoopBodyNodes d) c of None \<Rightarrow> [] | Some b \<Rightarrow> b)"

definition computeMaxDispatches :: "dag \<Rightarrow> int" where
  "computeMaxDispatches d =
     (let base = fold (\<lambda>(ctrlID, bodyNodes) base.
                   wrap64 (base + wrap64 (maxIterFromConfig (wn_Config (nodeAt d ctrlID)) * (int (length bodyNodes) + 1))))
                 (d_LoopBodyNodes d) (int (length (d_Nodes d)))
      in if base < 1 then 1 else base)"

definition countBodyInternalPredecessors :: "dag \<Rightarrow> string \<Rightarrow> string list \<Rightarrow> int" where
  "countBodyInternalPredecessors d bodyID bodyNodes =
     int (length (filter (\<lambda>p. p \<in> set bodyNodes) (d_Predecessors d bodyID)))"

definition sliceContains :: "string list \<Rightarrow> string \<Rightarrow> bool" where
  "sliceContains slice s = (\<exists>v \<in> set slice. v = s)"

section \<open>Executing one node\<close>

datatype call_outcome = Returned gomap | Errored string | Panicked string

record attempts =
  at_call :: "nat \<Rightarrow> call_outcome"
  at_done :: "nat \<Rightarrow> bool"

datatype retry_outcome = RetryOk gomap | RetryErr node_error | RetryPanic string

text \<open>The pause before attempt \<open>a\<close>, in nanoseconds, with Go's 64-bit products.\<close>

definition retryDelay :: "int \<Rightarrow> nat \<Rightarrow> int" where
  "retryDelay backoffMs a = wrap64 (wrap64 (backoffMs * int a) * 1000000)"

text \<open>
  The attempt loop: \<open>left\<close> attempts remain, the next one is number \<open>a\<close>; the pauses are
  recorded in order.
\<close>

fun retryLoop :: "nat \<Rightarrow> nat \<Rightarrow> int \<Rightarrow> attempts \<Rightarrow> node_error option \<Rightarrow> int list \<Rightarrow> int list \<times> retry_outcome" where
  "retryLoop 0 a backoffMs w lastErr pauses =
     (pauses, case lastErr of None \<Rightarrow> RetryOk [] | Some e \<Rightarrow> RetryErr e)"
| "retryLoop (Suc left) a backoffMs w lastErr pauses =
     (let pauses' = (if a > 0 then pauses @ [retryDelay backoffMs a] else pauses)
      in if a > 0 \<and> at_done w a then (pauses', RetryErr CtxErr)
         else case at_call w a of
                Returned out \<Rightarrow> (pauses', RetryOk out)
              | Errored e \<Rightarrow> retryLoop left (Suc a) backoffMs w (Some (HandlerError e)) pauses'
              | Panicked m \<Rightarrow> (pauses', RetryPanic m))"

definition executeWithRetry :: "retry_policy option \<Rightarrow> attempts \<Rightarrow> int list \<times> retry_outcome" where
  "executeWithRetry rp w =
     (let maxRetries = (case rp of None \<Rightarrow> 0 | Some p \<Rightarrow> rp_MaxRetries p);
          backoffMs = (case rp of None \<Rightarrow> 1000 | Some p \<Rightarrow> rp_BackoffMs p)
      in retryLoop (nat (maxRetries + 1)) 0 backoffMs w None [])"

record run_env =
  re_runID :: string
  re_registry :: node_registry
  re_mocks :: "(string \<times> gomap) list"
  re_libs :: parse_libs

datatype start_outcome = Immediate node_result | Begun node_input

text \<open>The first part of \<open>executeNode\<close>: mock interception, lookup, and the read of the context.\<close>

definition executeNode_start :: "run_env \<Rightarrow> dag \<Rightarrow> (string \<Rightarrow> string list) \<Rightarrow> exec_context \<Rightarrow> string \<Rightarrow> start_outcome" where
  "executeNode_start E d anc ec i =
     (case map_of (re_mocks E) i of
        Some mockOut \<Rightarrow>
          (let out = AList.update ''mocked'' (VBool True) mockOut
           in Immediate \<lparr> nodeID = i, nodeOutput = out, routingOutput = out, err = None \<rparr>)
      | None \<Rightarrow>
          (case Lookup (wn_TypeID (nodeAt d i)) (re_registry E) of
             Inl _ \<Rightarrow> Immediate \<lparr> nodeID = i, nodeOutput = [], routingOutput = [],
                                  err = Some (NodeTypeNotFound (wn_TypeID (nodeAt d i))) \<rparr>
           | Inr h \<Rightarrow> Begun \<lparr> UpstreamData = mergeUpstream (anc i) ec,
                              Config = wn_Config (nodeAt d i),
                              DirectPredecessorIDs = d_Predecessors d i \<rparr>))"

text \<open>The second part: the attempts, the output parsers and the result that is sent.\<close>

definition executeNode_finish :: "run_env \<Rightarrow> dag \<Rightarrow> string \<Rightarrow> attempts \<Rightarrow> node_result" where
  "executeNode_finish E d i w =
     (case snd (executeWithRetry (wn_RetryPolicy (nodeAt d i)) w) of
        RetryErr e \<Rightarrow> \<lparr> nodeID = i, nodeOutput = [], routingOutput = [], err = Some e \<rparr>
      | RetryPanic m \<Rightarrow> \<lparr> nodeID = i, nodeOutput = [], routingOutput = [], err = Some (NodePanicked i m) \<rparr>
      | RetryOk out \<Rightarrow> \<lparr> nodeID = i, nodeOutput = Apply (re_libs E) out (wn_OutputParsers (nodeAt d i)),
                         routingOutput = out, err = None \<rparr>)"

text \<open>The events a node goroutine publishes, in order.\<close>

definition stateEvent :: "run_env \<Rightarrow> event_type \<Rightarrow> string \<Rightarrow> node_event" where
  "stateEvent E t i = \<lparr> ev_RunID = re_runID E, ev_NodeID = i, ev_Type = t, ev_Output = None, ev_Error = None \<rparr>"

definition resultEvent :: "run_env \<Rightarrow> node_result \<Rightarrow> node_event" where
  "resultEvent E r = (case err r of
     None \<Rightarrow> (stateEvent E EventNodeSucceeded (nodeID r))\<lparr>ev_Output := Some (nodeOutput r)\<rparr>
   | Some e \<Rightarrow> (stateEvent E EventNodeFailed (nodeID r))\<lparr>ev_Error := Some e\<rparr>)"

fun startEvents :: "run_env \<Rightarrow> string \<Rightarrow> start_outcome \<Rightarrow> node_event list" where
  "startEvents E i (Immediate r) = [stateEvent E EventNodeRunning i, resultEvent E r]"
| "startEvents E i (Begun inp) = [stateEvent E EventNodeRunning i]"

section \<open>The supervisor\<close>

record sup =
  execCtx :: exec_context
  nodeResults :: "(string \<times> stored_result) list"
  pending :: "string \<Rightarrow> int"
  skipped :: "string list"
  hasLive :: "string \<Rightarrow> bool"
  loopIterations :: "string \<Rightarrow> int"
  ancestorsOf :: "string \<Rightarrow> string list"
  dispatched :: nat
  received :: nat
  firstErr :: "node_error option"
  spawned :: "string list"

text \<open>
  \<open>dispatch\<close> counts the node and starts its goroutine; \<open>spawned\<close> lists the goroutines in the
  order they were started.
\<close>

definition dispatch :: "string \<Rightarrow> sup \<Rightarrow> sup" where
  "dispatch i s = s\<lparr> dispatched := dispatched s + 1, spawned := spawned s @ [i] \<rparr>"

fun propagateSkip :: "nat \<Rightarrow> dag \<Rightarrow> string \<Rightarrow> sup \<Rightarrow> sup option"
and propagateSkips :: "nat \<Rightarrow> dag \<Rightarrow> workflow_edge list \<Rightarrow> sup \<Rightarrow> sup option"
where
  "propagateSkip 0 d i s = None"
| "propagateSkip (Suc k) d i s =
     (let s1 = s\<lparr>pending := (pending s)(i := pending s i - 1)\<rparr>
      in if pending s1 i > 0 \<or> i \<in> set (skipped s1) then Some s1
         else if hasLive s1 i then Some (dispatch i s1)
         else propagateSkips k d (d_OutEdges d i) (s1\<lparr>skipped := List.insert i (skipped s1)\<rparr>))"
| "propagateSkips k d [] s = Some s"
| "propagateSkips k d (e # es) s =
     (case propagateSkip k d (we_TargetID e) s of
        None \<Rightarrow> None
      | Some s' \<Rightarrow> propagateSkips k d es s')"

text \<open>One outgoing edge of a node that succeeded with routing output \<open>out\<close>.\<close>

definition routeEdge :: "nat \<Rightarrow> dag \<Rightarrow> string \<Rightarrow> gomap \<Rightarrow> workflow_edge \<Rightarrow> sup \<Rightarrow> sup option" where
  "routeEdge k d typeID out e s =
     (if \<not> branchAllows e out typeID then propagateSkip k d (we_TargetID e) s
      else let succ = we_TargetID e;
               s1 = s\<lparr>hasLive := (hasLive s)(succ := True), pending := (pending s)(succ := pending s succ - 1)\<rparr>
           in Some (if pending s1 succ = 0 then dispatch succ s1 else s1))"

fun routeEdges :: "nat \<Rightarrow> dag \<Rightarrow> string \<Rightarrow> gomap \<Rightarrow> workflow_edge list \<Rightarrow> sup \<Rightarrow> sup option" where
  "routeEdges k d typeID out [] s = Some s"
| "routeEdges k d typeID out (e # es) s =
     (case routeEdge k d typeID out e s of
        None \<Rightarrow> None
      | Some s' \<Rightarrow> routeEdges k d typeID out es s')"

definition fireLoopBack :: "string \<Rightarrow> workflow_edge \<Rightarrow> sup \<Rightarrow> sup" where
  "fireLoopBack i lbe s =
     (if we_SourceID lbe = i
      then let c = we_TargetID lbe;
               s1 = s\<lparr>pending := (pending s)(c := pending s c - 1)\<rparr>
           in if pending s1 c = 0 then dispatch c s1 else s1
      else s)"

text \<open>\<open>handleLoopIteration\<close>: the new state and whether the normal routing is skipped.\<close>

definition addAncestor :: "string \<Rightarrow> string \<Rightarrow> sup \<Rightarrow> sup" where
  "addAncestor c a s =
     (if sliceContains (ancestorsOf s c) a then s
      else s\<lparr>ancestorsOf := (ancestorsOf s)(c := ancestorsOf s c @ [a])\<rparr>)"

definition resetBodyNode :: "dag \<Rightarrow> string list \<Rightarrow> string \<Rightarrow> sup \<Rightarrow> sup" where
  "resetBodyNode d body b s = s
     \<lparr> pending := (pending s)(b := countBodyInternalPredecessors d b body),
       skipped := removeAll b (skipped s),
       hasLive := (hasLive s)(b := False) \<rparr>"

definition startBodyRoot :: "string \<Rightarrow> sup \<Rightarrow> sup" where
  "startBodyRoot b s =
     (if pending s b = 0 then dispatch b (s\<lparr>hasLive := (hasLive s)(b := True)\<rparr>) else s)"

definition handleLoopIteration :: "dag \<Rightarrow> node_result \<Rightarrow> sup \<Rightarrow> sup \<times> bool" where
  "handleLoopIteration d r s =
     (let c = nodeID r;
          action = str_or_empty (map_of (routingOutput r) ''action'');
          maxIter = maxIterFromConfig (wn_Config (nodeAt d c));
          body = bodyOf d c
      in if action = ''loop_body'' \<and> loopIterations s c < maxIter
         then let s1 = s\<lparr>loopIterations := (loopIterations s)(c := loopIterations s c + 1)\<rparr>;
                  s2 = s1\<lparr>execCtx := ctx_set ''_loop_state'' [(''iteration'', VInt (loopIterations s1 c))] (execCtx s1)\<rparr>;
                  s3 = addAncestor c ''_loop_state'' s2;
                  s4 = fold (addAncestor c) body s3;
                  s5 = fold (resetBodyNode d body) body s4;
                  loopBackCount = int (length (filter (\<lambda>e. we_TargetID e = c) (d_LoopBackEdges d)));
                  s6 = s5\<lparr>pending := (pending s5)(c := loopBackCount)\<rparr>
              in (fold startBodyRoot body s6, True)
         else (s\<lparr>skipped := fold List.insert body (skipped s)\<rparr>, False))"

text \<open>The body of the supervisor loop for one received result.\<close>

definition receive :: "dag \<Rightarrow> node_result \<Rightarrow> sup \<Rightarrow> sup option" where
  "receive d r s =
     (let i = nodeID r; s0 = s\<lparr>received := received s + 1\<rparr>
      in case err r of
           Some e \<Rightarrow>
             Some (s0\<lparr> nodeResults := AList.update i (FailedWith e) (nodeResults s0),
                       firstErr := (case firstErr s0 of None \<Rightarrow> Some e | Some e' \<Rightarrow> Some e') \<rparr>)
         | None \<Rightarrow>
             (let s1 = s0\<lparr> nodeResults := AList.update i (Succeeded (nodeOutput r)) (nodeResults s0),
                           execCtx := ctx_set i (nodeOutput r) (execCtx s0) \<rparr>
              in if firstErr s1 \<noteq> None then Some s1
                 else let typeID = wn_TypeID (nodeAt d i);
                          (s2, again) = (if typeID = loopControllerTypeID then handleLoopIteration d r s1 else (s1, False))
                      in if again then Some s2
                         else (case routeEdges (Suc (length (d_Nodes d))) d typeID (routingOutput r) (d_OutEdges d i) s2 of
                                 None \<Rightarrow> None
                               | Some s3 \<Rightarrow> Some (fold (fireLoopBack i) (d_LoopBackEdges d) s3))))"

text \<open>The set-up of \<open>runDAG\<close>: contexts, counters and the dispatch of the root nodes.\<close>

definition startRun :: "dag \<Rightarrow> gomap \<Rightarrow> sup" where
  "startRun d initData =
     (let ec = ctx_set ''_loop_state'' [(''iteration'', VInt 0)] (ctx_set ''_initial'' initData newExecutionContext);
          pend = (\<lambda>i. if map_of (d_Nodes d) i = None then 0 else int (length (d_Predecessors d i)));
          s = \<lparr> execCtx = ec, nodeResults = [], pending = pend, skipped = [], hasLive = (\<lambda>_. False),
                loopIterations = (\<lambda>_. 0), ancestorsOf = d_Ancestors d, dispatched = 0, received = 0,
                firstErr = None, spawned = [] \<rparr>
      in fold (\<lambda>i s. if pending s i = 0 then dispatch i s else s) (map fst (d_Nodes d)) s)"

text \<open>What \<open>runDAG\<close> returns once every dispatched node has reported.\<close>

definition finishRun :: "dag \<Rightarrow> sup \<Rightarrow> node_error + (string \<times> gomap) list" where
  "finishRun d s =
     (case firstErr s of
        Some e \<Rightarrow> Inl e
      | None \<Rightarrow>
          (let finalOutput = sinkOutputs d (execCtx s)
           in if finalOutput = [] \<and> skipped s \<noteq> [] \<and> (\<exists>i \<in> set (skipped s). d_Successors d i = [])
              then Inl AllSinksSuppressed
              else Inr finalOutput))"

text \<open>The early return of \<open>runDAG\<close> on a graph without nodes.\<close>

definition emptyRun :: "dag \<Rightarrow> ((string \<times> gomap) list \<times> (string \<times> stored_result) list) option" where
  "emptyRun d = (if d_Nodes d = [] then Some ([], []) else None)"

end
