(* ===== verification/Runner_Steps.thy ===== *)
theory Runner_Steps
  imports Runner Dag_Build
begin

text \<open>
  The interleaving of a run: the supervisor, the node goroutines and the result channel as an
  inductive step relation. A goroutine that was dispatched is waiting until it reads the shared
  context, running until its handler has finished, and then its result sits in the channel
  until the supervisor receives it. The events published on the bus are recorded in order. The channel is the buffered \<open>resultCh\<close>; a goroutine whose
  result does not fit stays where it is.

  The parameter \<open>world\<close> says which attempt outcomes a handler may show for a node and an
  input. Once the context is cancelled (by the first failure or by the run's deadline) any
  outcome is possible.
\<close>

type_synonym world = "string \<Rightarrow> node_input \<Rightarrow> attempts \<Rightarrow> bool"

record cfg =
  c_sup :: sup
  c_waiting :: "string list"
  c_running :: "(string \<times> node_input) list"
  c_chan :: "node_result list"
  c_cancelled :: bool
  c_deadline :: bool
  c_events :: "node_event list"

text \<open>
  The state after the dispatch of the entry nodes. The channel of the results is made: \<open>make(chan nodeResult, n)\<close> panics only for a size of billions,
  far above what the limit of 100 in the schema of the loop controller asks for.
\<close>

definition initial_cfg :: "run_env \<Rightarrow> dag \<Rightarrow> gomap \<Rightarrow> cfg" where
  "initial_cfg E d initData =
     \<lparr> c_sup = startRun d initData, c_waiting = spawned (startRun d initData), c_running = [], c_chan = [],
       c_cancelled = False, c_deadline = False,
       c_events = map (stateEvent E EventNodePending) (spawned (startRun d initData)) \<rparr>"

definition room :: "dag \<Rightarrow> cfg \<Rightarrow> bool" where
  "room d c \<longleftrightarrow> int (length (c_chan c)) < computeMaxDispatches d"

definition fresh :: "sup \<Rightarrow> sup \<Rightarrow> string list" where
  "fresh s s' = drop (length (spawned s)) (spawned s')"

inductive step :: "run_env \<Rightarrow> dag \<Rightarrow> world \<Rightarrow> cfg \<Rightarrow> cfg \<Rightarrow> bool" for E d world where
  immediate: "\<lbrakk> i \<in> set (c_waiting c); room d c;
     executeNode_start E d (ancestorsOf (c_sup c)) (execCtx (c_sup c)) i = Immediate r \<rbrakk>
   \<Longrightarrow> step E d world c (c\<lparr> c_waiting := remove1 i (c_waiting c), c_chan := c_chan c @ [r],
                             c_events := c_events c @ startEvents E i (Immediate r) \<rparr>)"
| begin_node: "\<lbrakk> i \<in> set (c_waiting c);
     executeNode_start E d (ancestorsOf (c_sup c)) (execCtx (c_sup c)) i = Begun inp \<rbrakk>
   \<Longrightarrow> step E d world c (c\<lparr> c_waiting := remove1 i (c_waiting c), c_running := c_running c @ [(i, inp)],
                             c_events := c_events c @ startEvents E i (Begun inp) \<rparr>)"
| finish: "\<lbrakk> (i, inp) \<in> set (c_running c); room d c; c_cancelled c \<or> world i inp w \<rbrakk>
   \<Longrightarrow> step E d world c (c\<lparr> c_running := remove1 (i, inp) (c_running c),
                             c_chan := c_chan c @ [executeNode_finish E d i w],
                             c_events := c_events c @ [resultEvent E (executeNode_finish E d i w)] \<rparr>)"
| recv: "\<lbrakk> c_chan c = r # rest; receive d r (c_sup c) = Some s' \<rbrakk>
   \<Longrightarrow> step E d world c (c\<lparr> c_sup := s', c_chan := rest,
                             c_waiting := c_waiting c @ fresh (c_sup c) s',
                             c_cancelled := c_cancelled c \<or> err r \<noteq> None,
                             c_events := c_events c @ map (stateEvent E EventNodePending) (fresh (c_sup c) s') \<rparr>)"
| deadline: "step E d world c (c\<lparr> c_cancelled := True, c_deadline := True \<rparr>)"

inductive reach :: "run_env \<Rightarrow> dag \<Rightarrow> world \<Rightarrow> gomap \<Rightarrow> cfg \<Rightarrow> bool" for E d world initData where
  init: "reach E d world initData (initial_cfg E d initData)"
| move: "reach E d world initData c \<Longrightarrow> step E d world c c' \<Longrightarrow> reach E d world initData c'"

text \<open>The nodes whose result is still to come, and the end of the supervisor loop.\<close>

definition outstanding :: "cfg \<Rightarrow> string list" where
  "outstanding c = c_waiting c @ map fst (c_running c) @ map nodeID (c_chan c)"

definition finished :: "cfg \<Rightarrow> bool" where
  "finished c \<longleftrightarrow> received (c_sup c) \<ge> dispatched (c_sup c)"

section \<open>What a skip or a routed edge leaves alone\<close>

definition same_rest :: "sup \<Rightarrow> sup \<Rightarrow> bool" where
  "same_rest s s' \<longleftrightarrow> execCtx s' = execCtx s \<and> nodeResults s' = nodeResults s \<and> received s' = received s \<and>
     firstErr s' = firstErr s \<and> ancestorsOf s' = ancestorsOf s \<and> loopIterations s' = loopIterations s"

lemma same_rest_refl [simp]: "same_rest s s"
  by (simp add: same_rest_def)

lemma same_rest_trans: "same_rest a b \<Longrightarrow> same_rest b c \<Longrightarrow> same_rest a c"
  by (simp add: same_rest_def)

lemma same_rest_simps [simp]:
  "same_rest s (s\<lparr>pending := p\<rparr>)" "same_rest s (s\<lparr>skipped := k\<rparr>)" "same_rest s (s\<lparr>hasLive := h\<rparr>)"
  "same_rest s (dispatch i s)"
  "same_rest s (t\<lparr>pending := p\<rparr>) = same_rest s t" "same_rest s (t\<lparr>skipped := k\<rparr>) = same_rest s t"
  "same_rest s (t\<lparr>hasLive := h\<rparr>) = same_rest s t" "same_rest s (dispatch i t) = same_rest s t"
  by (simp_all add: same_rest_def dispatch_def)

lemma dispatch_simps [simp]:
  "pending (dispatch i s) = pending s" "skipped (dispatch i s) = skipped s" "hasLive (dispatch i s) = hasLive s"
  "spawned (dispatch i s) = spawned s @ [i]" "dispatched (dispatch i s) = Suc (dispatched s)"
  by (simp_all add: dispatch_def)

text \<open>
  Skips and routing never withdraw a dispatch, a skip, or touch the rest of the state; and a
  skip adds to the dispatches only.
\<close>

definition grows :: "sup \<Rightarrow> sup \<Rightarrow> bool" where
  "grows s s' \<longleftrightarrow> same_rest s s' \<and> set (skipped s) \<subseteq> set (skipped s') \<and>
     (\<exists>xs. spawned s' = spawned s @ xs \<and> dispatched s' = dispatched s + length xs)"

lemma grows_refl [simp]: "grows s s"
  by (simp add: grows_def)

lemma grows_trans: "grows a b \<Longrightarrow> grows b c \<Longrightarrow> grows a c"
  by (auto simp: grows_def intro: same_rest_trans)

lemma propagateSkip_grows:
  shows "propagateSkip k d i s = Some s' \<Longrightarrow> grows s s'"
    and "propagateSkips k d es s = Some s' \<Longrightarrow> grows s s'"
proof (induction k d i s and k d es s arbitrary: s' and s' rule: propagateSkip_propagateSkips.induct)
  case (2 k d i s)
  let ?s1 = "s\<lparr>pending := (pending s)(i := pending s i - 1)\<rparr>"
  let ?s2 = "?s1\<lparr>skipped := List.insert i (skipped ?s1)\<rparr>"
  consider "pending ?s1 i > 0 \<or> i \<in> set (skipped ?s1)" | "\<not> (pending ?s1 i > 0 \<or> i \<in> set (skipped ?s1))" "hasLive s i"
    | "\<not> (pending ?s1 i > 0 \<or> i \<in> set (skipped ?s1))" "\<not> hasLive s i" by blast
  then show ?case
  proof cases
    case 3
    with "2.prems" have "propagateSkips k d (d_OutEdges d i) ?s2 = Some s'" by (simp add: Let_def)
    with "2.IH" [OF refl] 3 have "grows ?s2 s'" by simp
    moreover have "grows s ?s2" by (auto simp: grows_def)
    ultimately show ?thesis by (blast intro: grows_trans)
  qed (use "2.prems" in \<open>auto simp: Let_def grows_def\<close>)
next
  case (4 k d e es s)
  then show ?case by (auto split: option.splits intro: grows_trans)
qed auto

lemma routeEdge_grows: "routeEdge k d t out e s = Some s' \<Longrightarrow> grows s s'"
  by (auto simp: routeEdge_def Let_def grows_def split: if_splits dest!: propagateSkip_grows(1))

lemma routeEdges_grows: "routeEdges k d t out es s = Some s' \<Longrightarrow> grows s s'"
  by (induction k d t out es s rule: routeEdges.induct)
     (auto split: option.splits intro: grows_trans dest: routeEdge_grows)

section \<open>Skipping always terminates\<close>

lemma propagateSkip_fuel:
  assumes N: "finite N" and out: "\<And>u e. e \<in> set (d_OutEdges d u) \<Longrightarrow> we_TargetID e \<in> N"
  shows "i \<in> N \<Longrightarrow> card (N - set (skipped s)) < k \<Longrightarrow> propagateSkip k d i s \<noteq> None"
    and "(\<forall>e \<in> set es. we_TargetID e \<in> N) \<Longrightarrow> card (N - set (skipped s)) < k \<Longrightarrow> propagateSkips k d es s \<noteq> None"
  using out
proof (induction k d i s and k d es s rule: propagateSkip_propagateSkips.induct)
  case (2 k d i s)
  let ?s1 = "s\<lparr>pending := (pending s)(i := pending s i - 1)\<rparr>"
  let ?s2 = "?s1\<lparr>skipped := List.insert i (skipped ?s1)\<rparr>"
  show ?case
  proof (cases "pending ?s1 i > 0 \<or> i \<in> set (skipped ?s1) \<or> hasLive s i")
    case False
    have "N - set (skipped ?s2) = N - set (skipped s) - {i}" by auto
    with False "2.prems"(1,2) N have "card (N - set (skipped ?s2)) < k"
      by (simp add: card_Diff_singleton) (metis DiffI card_gt_0_iff diff_less_mono empty_iff finite_Diff less_Suc_eq_le One_nat_def Suc_leI diff_Suc_1)
    with "2.IH" [OF refl] False "2.prems"(3) have "propagateSkips k d (d_OutEdges d i) ?s2 \<noteq> None" by simp
    with False show ?thesis by (simp add: Let_def)
  qed (auto simp: Let_def)
next
  case (4 k d e es s)
  from "4.IH"(1) "4.prems" obtain s' where s': "propagateSkip k d (we_TargetID e) s = Some s'" by auto
  from propagateSkip_grows(1) [OF s'] have "N - set (skipped s') \<subseteq> N - set (skipped s)" by (auto simp: grows_def)
  then have "card (N - set (skipped s')) < k" using "4.prems"(2) N
    by (meson card_mono finite_Diff le_less_trans)
  with "4.IH"(2) [OF s'] "4.prems" s' show ?case by simp
qed auto

section \<open>After a failure\<close>

text \<open>A failure, or a result after a failure, schedules nothing.\<close>

lemma receive_no_schedule:
  assumes "receive d r s = Some s'" "err r \<noteq> None \<or> firstErr s \<noteq> None"
  shows "pending s' = pending s" "skipped s' = skipped s" "hasLive s' = hasLive s" "spawned s' = spawned s"
    "dispatched s' = dispatched s" "ancestorsOf s' = ancestorsOf s" "received s' = Suc (received s)"
    "firstErr s' = (case firstErr s of None \<Rightarrow> err r | Some e \<Rightarrow> Some e)"
    "execCtx s' = (if err r = None then ctx_set (nodeID r) (nodeOutput r) (execCtx s) else execCtx s)"
    "nodeResults s' = AList.update (nodeID r) (case err r of None \<Rightarrow> Succeeded (nodeOutput r) | Some e \<Rightarrow> FailedWith e) (nodeResults s)"
  using assms by (auto simp: receive_def Let_def split: option.splits)

end
