(* ===== verification/Runner_Inv.thy ===== *)
theory Runner_Inv
  imports Runner_Steps
begin

text \<open>
  The supervisor's bookkeeping on a graph without a loop controller. The invariant relates the
  counters to the edges still to be accounted for: an edge is open while its source has neither
  succeeded nor been skipped, or while the supervisor is about to process it (the multiset
  \<open>W\<close>, which is the call stack of \<open>propagateSkip\<close> and the rest of the routing loop). Then
  \<open>pending\<close> counts the open edges into a node, and whether a node has been dispatched or
  skipped is a function of \<open>pending\<close> and \<open>hasLive\<close>.
\<close>

definition open_edges :: "workflow_edge list \<Rightarrow> string set \<Rightarrow> workflow_edge multiset \<Rightarrow> workflow_edge multiset" where
  "open_edges F Q W = filter_mset (\<lambda>e. we_SourceID e \<notin> Q) (mset F) + W"

definition edges_into :: "string \<Rightarrow> workflow_edge multiset \<Rightarrow> nat" where
  "edges_into v U = size (filter_mset (\<lambda>e. we_TargetID e = v) U)"

definition sup_inv :: "dag \<Rightarrow> workflow_edge list \<Rightarrow> string set \<Rightarrow> workflow_edge set \<Rightarrow> workflow_edge multiset \<Rightarrow> sup \<Rightarrow> bool" where
  "sup_inv d F P L W s \<longleftrightarrow>
     open_edges F (P \<union> set (skipped s)) W \<subseteq># mset F \<and>
     (\<forall>v. pending s v = int (edges_into v (open_edges F (P \<union> set (skipped s)) W))) \<and>
     (\<forall>v. hasLive s v \<longleftrightarrow> (\<exists>e \<in> L. we_TargetID e = v)) \<and>
     distinct (spawned s) \<and> dispatched s = length (spawned s) \<and> P \<subseteq> set (spawned s) \<and>
     (\<forall>v. v \<in> set (spawned s) \<longleftrightarrow> v \<in> node_ids d \<and> pending s v = 0 \<and> (d_Predecessors d v = [] \<or> hasLive s v)) \<and>
     (\<forall>v. v \<in> set (skipped s) \<longleftrightarrow> v \<in> node_ids d \<and> pending s v = 0 \<and> d_Predecessors d v \<noteq> [] \<and> \<not> hasLive s v)"

lemma edges_into_add [simp]: "edges_into v (A + B) = edges_into v A + edges_into v B"
  by (simp add: edges_into_def)

lemma edges_into_empty [simp]: "edges_into v {#} = 0"
  by (simp add: edges_into_def)

lemma edges_into_insert [simp]: "edges_into v (add_mset e U) = (if we_TargetID e = v then 1 else 0) + edges_into v U"
  by (simp add: edges_into_def)

lemma edges_into_zero: "edges_into v U = 0 \<longleftrightarrow> (\<forall>e \<in># U. we_TargetID e \<noteq> v)"
  by (auto simp: edges_into_def filter_mset_eq_conv)

text \<open>Processing one edge of \<open>W\<close>: the open edges lose it.\<close>

lemma open_edges_minus:
  "e \<in># W \<Longrightarrow> open_edges F Q W = open_edges F Q (W - {#e#}) + {#e#}"
  unfolding open_edges_def by (metis insert_DiffM2 add.assoc)

text \<open>A node that settles hands its outgoing edges over to \<open>W\<close>.\<close>

lemma open_edges_settle:
  assumes "u \<notin> Q"
  shows "open_edges F Q W = open_edges F (insert u Q) (mset (filter (\<lambda>e. we_SourceID e = u) F) + W)"
proof -
  have "filter_mset (\<lambda>e. we_SourceID e \<notin> Q) (mset F) =
     filter_mset (\<lambda>e. we_SourceID e \<notin> insert u Q) (mset F) + filter_mset (\<lambda>e. we_SourceID e = u) (mset F)"
    using assms by (induction F) auto
  then show ?thesis by (simp add: open_edges_def mset_filter ac_simps)
qed

text \<open>The target of an edge about to be processed is neither dispatched nor skipped.\<close>

lemma sup_inv_target:
  assumes "sup_inv d F P L W s" and "e \<in># W"
  shows "e \<in> set F" "pending s (we_TargetID e) \<ge> 1" "we_TargetID e \<notin> set (spawned s)" "we_TargetID e \<notin> set (skipped s)"
    "we_TargetID e \<notin> P"
proof -
  let ?Q = "P \<union> set (skipped s)"
  from assms(1) have sub: "open_edges F ?Q W \<subseteq># mset F" by (simp add: sup_inv_def)
  have "e \<in># open_edges F ?Q W" using assms(2) by (simp add: open_edges_def)
  from mset_subset_eqD [OF sub this] show "e \<in> set F" by simp
  have "pending s (we_TargetID e) = int (edges_into (we_TargetID e) (open_edges F ?Q W))"
    using assms(1) by (simp add: sup_inv_def)
  also have "\<dots> \<ge> 1" unfolding open_edges_minus [OF assms(2)] by simp
  finally show p: "pending s (we_TargetID e) \<ge> 1" .
  from p assms(1) show "we_TargetID e \<notin> set (spawned s)" "we_TargetID e \<notin> set (skipped s)"
    by (simp_all add: sup_inv_def)
  then show "we_TargetID e \<notin> P" using assms(1) by (auto simp: sup_inv_def)
qed

definition after_edge :: "workflow_edge \<Rightarrow> bool \<Rightarrow> sup \<Rightarrow> sup" where
  "after_edge e live s = (let v = we_TargetID e in
     s\<lparr>hasLive := (hasLive s)(v := hasLive s v \<or> live), pending := (pending s)(v := pending s v - 1)\<rparr>)"

lemma after_edge_simps [simp]:
  "pending (after_edge e b s) = (pending s)(we_TargetID e := pending s (we_TargetID e) - 1)"
  "hasLive (after_edge e b s) = (hasLive s)(we_TargetID e := hasLive s (we_TargetID e) \<or> b)"
  "skipped (after_edge e b s) = skipped s" "spawned (after_edge e b s) = spawned s" "dispatched (after_edge e b s) = dispatched s"
  by (simp_all add: after_edge_def Let_def)

lemma after_edge_dead: "after_edge e False s = s\<lparr>pending := (pending s)(we_TargetID e := pending s (we_TargetID e) - 1)\<rparr>"
  by (simp add: after_edge_def Let_def)

text \<open>
  One edge of \<open>W\<close> is processed. Whichever way the target is then treated, the invariant holds
  again without that edge; a target that is skipped hands over its own edges.
\<close>

locale plain_dag = wf_dag +
  assumes no_controller: "map_of (d_Nodes d) i = Some n \<Longrightarrow> wn_TypeID n \<noteq> loopControllerTypeID"
    and no_loop_back: "d_LoopBackEdges d = []"
    and no_bodies: "d_LoopBodyNodes d = []"
begin

lemma target_node: "e \<in> set F \<Longrightarrow> we_TargetID e \<in> node_ids d \<and> d_Predecessors d (we_TargetID e) \<noteq> []"
  using endpoints by (auto simp: predecessors filter_empty_conv)

lemma sup_inv_edge:
  fixes b :: bool
  assumes inv: "sup_inv d F P L W s" and e: "e \<in># W"
  defines "v \<equiv> we_TargetID e" and "W' \<equiv> W - {#e#}" and "L' \<equiv> (if b then insert e L else L)"
    and "s1 \<equiv> after_edge e b s"
  shows sup_inv_still: "pending s1 v > 0 \<Longrightarrow> sup_inv d F P L' W' s1"
    and sup_inv_fire: "pending s1 v = 0 \<Longrightarrow> hasLive s1 v \<Longrightarrow> sup_inv d F P L' W' (dispatch v s1)"
    and sup_inv_skip: "pending s1 v = 0 \<Longrightarrow> \<not> hasLive s1 v \<Longrightarrow>
      sup_inv d F P L' (mset (d_OutEdges d v) + W') (s1\<lparr>skipped := List.insert v (skipped s1)\<rparr>)"
proof -
  let ?Q = "P \<union> set (skipped s)"
  note t = sup_inv_target [OF inv e, folded v_def]
  note n = target_node [OF t(1), folded v_def]
  have U: "open_edges F ?Q W = open_edges F ?Q W' + {#e#}"
    unfolding W'_def by (rule open_edges_minus [OF e])
  have sub: "open_edges F ?Q W' \<subseteq># mset F"
    using inv unfolding sup_inv_def U by (metis mset_subset_eq_add_left subset_mset.order_trans)
  have pend: "pending s1 x = int (edges_into x (open_edges F ?Q W'))" for x
    using inv unfolding sup_inv_def U by (simp add: s1_def v_def)
  have live: "hasLive s1 x \<longleftrightarrow> (\<exists>e \<in> L'. we_TargetID e = x)" for x
    using inv by (auto simp: sup_inv_def s1_def L'_def)
  have old: "distinct (spawned s)" "dispatched s = length (spawned s)" "P \<subseteq> set (spawned s)"
    "\<And>x. x \<in> set (spawned s) \<longleftrightarrow> x \<in> node_ids d \<and> pending s x = 0 \<and> (d_Predecessors d x = [] \<or> hasLive s x)"
    "\<And>x. x \<in> set (skipped s) \<longleftrightarrow> x \<in> node_ids d \<and> pending s x = 0 \<and> d_Predecessors d x \<noteq> [] \<and> \<not> hasLive s x"
    using inv by (simp_all add: sup_inv_def)
  have other: "pending s1 x = pending s x \<and> hasLive s1 x = hasLive s x" if "x \<noteq> v" for x
    using that by (simp add: s1_def v_def)
  have sp1: "x \<in> set (spawned s) \<longleftrightarrow> x \<noteq> v \<and> x \<in> node_ids d \<and> pending s1 x = 0 \<and> (d_Predecessors d x = [] \<or> hasLive s1 x)" for x
    using old(4) [of x] other [of x] t(3) by (cases "x = v") auto
  have sk1: "x \<in> set (skipped s) \<longleftrightarrow> x \<noteq> v \<and> x \<in> node_ids d \<and> pending s1 x = 0 \<and> d_Predecessors d x \<noteq> [] \<and> \<not> hasLive s1 x" for x
    using old(5) [of x] other [of x] t(4) by (cases "x = v") auto
  have s1: "skipped s1 = skipped s" "spawned s1 = spawned s" "dispatched s1 = dispatched s" by (simp_all add: s1_def)
  show "sup_inv d F P L' W' s1" if "pending s1 v > 0"
  proof -
    from that have "x \<noteq> v \<and> pending s1 x = 0 \<longleftrightarrow> pending s1 x = 0" for x by auto
    with sub pend live old(1-3) sp1 sk1 show ?thesis unfolding sup_inv_def s1 by blast
  qed
  show "sup_inv d F P L' W' (dispatch v s1)" if "pending s1 v = 0" "hasLive s1 v"
    unfolding sup_inv_def dispatch_simps s1 using sub pend live old(1-3) sp1 sk1 that t(3) n by auto
  show "sup_inv d F P L' (mset (d_OutEdges d v) + W') (s1\<lparr>skipped := List.insert v (skipped s1)\<rparr>)"
    if "pending s1 v = 0" "\<not> hasLive s1 v"
  proof -
    have "open_edges F (P \<union> set (List.insert v (skipped s))) (mset (d_OutEdges d v) + W') = open_edges F ?Q W'"
      using open_edges_settle [of v ?Q F W'] t(4,5) by (simp add: out_edges)
    then show ?thesis
      unfolding sup_inv_def using sub pend live old(1-3) sp1 sk1 that n by (simp add: s1) blast
  qed
qed

text \<open>The net effect of \<open>propagateSkip\<close> on the open edges is to remove the edge it was called for.\<close>

lemma propagateSkip_inv:
  shows "propagateSkip k d' i s = Some s' \<Longrightarrow> d' = d \<Longrightarrow> sup_inv d F P L W s \<Longrightarrow> e \<in># W \<Longrightarrow> we_TargetID e = i \<Longrightarrow>
           sup_inv d F P L (W - {#e#}) s'"
    and "propagateSkips k d' es s = Some s' \<Longrightarrow> d' = d \<Longrightarrow> sup_inv d F P L (mset es + W) s \<Longrightarrow> sup_inv d F P L W s'"
proof (induction k d' i s and k d' es s arbitrary: s' W e and s' W rule: propagateSkip_propagateSkips.induct)
  case (2 k d' i s)
  let ?s1 = "after_edge e False s"
  note E = sup_inv_edge [OF "2.prems"(3,4), of False, simplified if_False "2.prems"(5)]
  have p: "pending ?s1 i \<ge> 0" "i \<notin> set (skipped s)"
    using sup_inv_target [OF "2.prems"(3,4)] "2.prems"(5) by auto
  have s1: "s\<lparr>pending := (pending s)(i := pending s i - 1)\<rparr> = ?s1"
    using "2.prems"(5) by (simp add: after_edge_dead)
  consider "pending ?s1 i > 0" | "pending ?s1 i = 0" "hasLive ?s1 i" | "pending ?s1 i = 0" "\<not> hasLive ?s1 i"
    using p(1) by linarith
  then show ?case
  proof cases
    case 1
    with "2.prems"(1) have "s' = ?s1" by (simp add: s1 Let_def)
    with E(1) 1 show ?thesis by simp
  next
    case 2
    with "2.prems"(1) p have "s' = dispatch i ?s1" by (simp add: s1 Let_def)
    with E(2) 2 show ?thesis by simp
  next
    case 3
    let ?s2 = "?s1\<lparr>skipped := List.insert i (skipped ?s1)\<rparr>"
    from 3 "2.prems"(1) p have "propagateSkips k d' (d_OutEdges d' i) ?s2 = Some s'" by (simp add: s1 Let_def)
    with "2.IH" [of ?s1] 3 p(2) E(3) "2.prems"(2) s1 show ?thesis by (simp add: List.insert_def)
  qed
next
  case (4 k d' e es s)
  then obtain s1 where s1: "propagateSkip k d' (we_TargetID e) s = Some s1" and r: "propagateSkips k d' es s1 = Some s'"
    by (auto split: option.splits)
  from "4.IH"(1) [OF s1 "4.prems"(2,3), of e] have "sup_inv d F P L (mset es + W) s1" by simp
  from "4.IH"(2) [OF s1 r "4.prems"(2) this] show ?case .
qed auto

lemma routeEdge_inv:
  assumes "routeEdge k d t out e s = Some s'" and inv: "sup_inv d F P L W s" and e: "e \<in># W"
  shows "sup_inv d F P (if branchAllows e out t then insert e L else L) (W - {#e#}) s'"
proof (cases "branchAllows e out t")
  case False
  with assms(1) have "propagateSkip k d (we_TargetID e) s = Some s'" by (simp add: routeEdge_def)
  from propagateSkip_inv(1) [OF this refl inv e refl] False show ?thesis by simp
next
  case True
  let ?v = "we_TargetID e" and ?s1 = "after_edge e True s"
  from True assms(1) have s': "s' = (if pending ?s1 ?v = 0 then dispatch ?v ?s1 else ?s1)"
    by (auto simp: routeEdge_def after_edge_def Let_def split: if_splits)
  have "pending ?s1 ?v \<ge> 0" using sup_inv_target(2) [OF inv e] by simp
  then consider "pending ?s1 ?v > 0" | "pending ?s1 ?v = 0" by linarith
  then show ?thesis
  proof cases
    case 1
    with sup_inv_edge(1) [OF inv e, of True] True s' show ?thesis by simp
  next
    case 2
    with sup_inv_edge(2) [OF inv e, of True] True s' show ?thesis by simp
  qed
qed

lemma routeEdges_inv:
  assumes "routeEdges k d t out es s = Some s'" and "sup_inv d F P L (mset es + W) s"
  shows "sup_inv d F P (L \<union> {e \<in> set es. branchAllows e out t}) W s'"
  using assms
proof (induction es arbitrary: s L)
  case (Cons e es)
  then obtain s1 where s1: "routeEdge k d t out e s = Some s1" "routeEdges k d t out es s1 = Some s'"
    by (auto split: option.splits)
  let ?L = "if branchAllows e out t then insert e L else L"
  from routeEdge_inv [OF s1(1) Cons.prems(2), of] have "sup_inv d F P ?L (mset es + W) s1" by simp
  from Cons.IH [OF s1(2) this]
  have "sup_inv d F P (?L \<union> {e \<in> set es. branchAllows e out t}) W s'" .
  moreover have "?L \<union> {e \<in> set es. branchAllows e out t} = L \<union> {x \<in> set (e # es). branchAllows x out t}" by auto
  ultimately show ?case by (simp del: set_simps)
qed simp

lemma nodeAt_type: "i \<in> node_ids d \<Longrightarrow> wn_TypeID (nodeAt d i) \<noteq> loopControllerTypeID"
  using no_controller by (auto simp: nodeAt_def node_ids_def map_of_None_iff split: option.splits)

definition live_out :: "string \<Rightarrow> gomap \<Rightarrow> workflow_edge set" where
  "live_out u out = {e \<in> set F. we_SourceID e = u \<and> branchAllows e out (wn_TypeID (nodeAt d u))}"

text \<open>A success that is received before any failure settles its node.\<close>

lemma receive_success_inv:
  assumes r: "receive d r s = Some s'" "err r = None" and f: "firstErr s = None"
    and inv: "sup_inv d F P L {#} s" and u: "nodeID r \<in> set (spawned s)" "nodeID r \<notin> P"
  shows "sup_inv d F (insert (nodeID r) P) (L \<union> live_out (nodeID r) (routingOutput r)) {#} s'"
    and "nodeResults s' = AList.update (nodeID r) (Succeeded (nodeOutput r)) (nodeResults s)"
    and "execCtx s' = ctx_set (nodeID r) (nodeOutput r) (execCtx s)"
    and "firstErr s' = None" "ancestorsOf s' = ancestorsOf s" "received s' = Suc (received s)"
    and "\<exists>xs. spawned s' = spawned s @ xs"
proof -
  let ?u = "nodeID r" and ?s1 = "s\<lparr> received := received s + 1,
      nodeResults := AList.update (nodeID r) (Succeeded (nodeOutput r)) (nodeResults s),
      execCtx := ctx_set (nodeID r) (nodeOutput r) (execCtx s) \<rparr>"
  let ?t = "wn_TypeID (nodeAt d ?u)"
  have N: "?u \<in> node_ids d" and sk: "?u \<notin> set (skipped s)" using inv u(1) by (auto simp: sup_inv_def)
  have re: "routeEdges (Suc (length (d_Nodes d))) d ?t (routingOutput r) (d_OutEdges d ?u) ?s1 = Some s'"
    using r f nodeAt_type [OF N] by (simp add: receive_def Let_def no_loop_back split: option.splits)
  have "open_edges F (insert ?u P \<union> set (skipped s)) (mset (d_OutEdges d ?u)) = open_edges F (P \<union> set (skipped s)) {#}"
    using open_edges_settle [of ?u "P \<union> set (skipped s)" F "{#}"] u(2) sk by (simp add: out_edges)
  with inv u(1) have "sup_inv d F (insert ?u P) L (mset (d_OutEdges d ?u) + {#}) ?s1"
    by (simp add: sup_inv_def)
  from routeEdges_inv [OF re this]
  show "sup_inv d F (insert ?u P) (L \<union> live_out ?u (routingOutput r)) {#} s'"
    by (simp add: live_out_def out_edges conj_assoc)
  from routeEdges_grows [OF re] f
  show "nodeResults s' = AList.update ?u (Succeeded (nodeOutput r)) (nodeResults s)"
    "execCtx s' = ctx_set ?u (nodeOutput r) (execCtx s)"
    "firstErr s' = None" "ancestorsOf s' = ancestorsOf s" "received s' = Suc (received s)"
    "\<exists>xs. spawned s' = spawned s @ xs"
    by (auto simp: grows_def same_rest_def)
qed

lemma edges_into_all: "edges_into v (mset F) = length (d_Predecessors d v)"
  by (simp add: edges_into_def predecessors flip: mset_filter)

lemma fold_dispatch_roots:
  "\<exists>xs. xs = filter (\<lambda>i. pending s i = 0) is \<and>
     fold (\<lambda>i s. if pending s i = 0 then dispatch i s else s) is s = s\<lparr>spawned := spawned s @ xs, dispatched := dispatched s + length xs\<rparr>"
proof (induction "is" arbitrary: s)
  case (Cons i "is")
  show ?case
  proof (cases "pending s i = 0")
    case True
    with Cons [of "dispatch i s"] show ?thesis by (simp add: dispatch_def)
  next
    case False
    with Cons [of s] show ?thesis by simp
  qed
qed simp

lemma startRun_inv: "sup_inv d F {} {} {#} (startRun d initData)"
proof -
  let ?p = "\<lambda>i. if map_of (d_Nodes d) i = None then 0 else int (length (d_Predecessors d i))"
  let ?s = "startRun d initData"
  have sp: "spawned ?s = filter (\<lambda>i. ?p i = 0) (map fst (d_Nodes d))" "dispatched ?s = length (spawned ?s)"
    and st: "pending ?s = ?p" "skipped ?s = []" "hasLive ?s = (\<lambda>_. False)"
    using fold_dispatch_roots unfolding startRun_def Let_def by (simp_all add: fold_dispatch_roots [simplified])
  have "v \<notin> node_ids d \<Longrightarrow> d_Predecessors d v = []" for v
    using endpoints by (auto simp: predecessors filter_empty_conv)
  then have p: "?p v = int (edges_into v (mset F))" for v
    by (simp add: edges_into_all map_of_None_iff node_ids_def)
  have "distinct (spawned ?s)" using nodes_wf by (simp add: sp wf_map_def)
  moreover have "v \<in> set (spawned ?s) \<longleftrightarrow> v \<in> node_ids d \<and> d_Predecessors d v = []" for v
    by (auto simp: sp node_ids_def map_of_None_iff)
  ultimately show ?thesis unfolding sup_inv_def
    using p sp(2) by (auto simp: st open_edges_def node_ids_def map_of_None_iff edges_into_all)
qed

end

end
