(* ===== verification/Runner_Correct.thy ===== *)
theory Runner_Correct
  imports Runner_Inv
begin

text \<open>
  The invariant of a whole run on a graph without a loop controller, and what follows from it:
  no node is dispatched twice, a node starts only when everything before it has settled, the
  channel never fills, the run comes to an end, and at the end every node has run or been
  skipped.
\<close>

section \<open>Single goroutines\<close>

lemma executeNode_start_id: "executeNode_start E d anc ec i = Immediate r \<Longrightarrow> nodeID r = i"
  by (auto simp: executeNode_start_def Let_def split: option.splits sum.splits)

lemma executeNode_finish_id [simp]: "nodeID (executeNode_finish E d i w) = i"
  by (simp add: executeNode_finish_def split: retry_outcome.splits)

lemma executeNode_start_cong:
  assumes "\<And>j. j \<in> insert ''_initial'' (set (anc i)) \<Longrightarrow> map_of ec j = map_of ec' j"
  shows "executeNode_start E d anc ec i = executeNode_start E d anc ec' i"
proof -
  have "mergeUpstream (anc i) ec = mergeUpstream (anc i) ec'"
    by (rule mergeUpstream_cong) (rule assms)
  then show ?thesis by (simp add: executeNode_start_def split: option.split sum.split)
qed

text \<open>
  The steps a run can still make: every node not yet dispatched can be started, finished and
  received once.
\<close>

definition work :: "dag \<Rightarrow> cfg \<Rightarrow> nat" where
  "work d c = 3 * (length (d_Nodes d) - dispatched (c_sup c)) + 3 * length (c_waiting c) +
     2 * length (c_running c) + length (c_chan c)"

section \<open>The supervisor never gets stuck on a result\<close>

context wf_dag
begin

lemma routeEdge_total:
  assumes "we_TargetID e \<in> node_ids d"
  shows "\<exists>s'. routeEdge (Suc (length (d_Nodes d))) d t out e s = Some s'"
proof -
  have "card (node_ids d - set (skipped s)) \<le> card (node_ids d)" by (rule card_mono) auto
  also have "\<dots> \<le> length (d_Nodes d)"
    unfolding node_ids_def by (metis List.finite_set card_image_le card_length le_trans)
  finally have "propagateSkip (Suc (length (d_Nodes d))) d (we_TargetID e) s \<noteq> None"
    using endpoints assms by (intro propagateSkip_fuel(1)) (auto simp: out_edges)
  then show ?thesis by (auto simp: routeEdge_def Let_def)
qed

lemma routeEdges_total:
  "\<forall>e \<in> set es. we_TargetID e \<in> node_ids d \<Longrightarrow> \<exists>s'. routeEdges (Suc (length (d_Nodes d))) d t out es s = Some s'"
proof (induction es arbitrary: s)
  case (Cons e es)
  from routeEdge_total [of e t out s] Cons.prems obtain s1
    where "routeEdge (Suc (length (d_Nodes d))) d t out e s = Some s1" by auto
  with Cons show ?case by simp
qed simp

lemma receive_total: "\<exists>s'. receive d r s = Some s'"
proof -
  have "routeEdges (Suc (length (d_Nodes d))) d t out (d_OutEdges d i) s2 \<noteq> None" for t out i s2
    using routeEdges_total [of "d_OutEdges d i" t out s2] endpoints by (auto simp: out_edges)
  then show ?thesis
    by (auto simp: receive_def Let_def simp del: not_None_eq split: option.split prod.split)
qed

end

section \<open>The invariant\<close>

context plain_dag
begin

definition all_live :: "string set \<Rightarrow> (string \<Rightarrow> gomap) \<Rightarrow> workflow_edge set" where
  "all_live P ro = (\<Union>u \<in> P. live_out u (ro u))"

definition cfg_inv :: "string set \<Rightarrow> (string \<Rightarrow> gomap) \<Rightarrow> cfg \<Rightarrow> bool" where
  "cfg_inv P ro c \<longleftrightarrow>
     sup_inv d F P (all_live P ro) {#} (c_sup c) \<and>
     mset (spawned (c_sup c)) = mset (outstanding c) + mset (map fst (nodeResults (c_sup c))) \<and>
     P \<subseteq> fst ` set (nodeResults (c_sup c)) \<and>
     (\<forall>u \<in> P. \<exists>out. map_of (nodeResults (c_sup c)) u = Some (Succeeded out)) \<and>
     (firstErr (c_sup c) = None \<longrightarrow> P = fst ` set (nodeResults (c_sup c))) \<and>
     received (c_sup c) = length (nodeResults (c_sup c)) \<and>
     ancestorsOf (c_sup c) = d_Ancestors d \<and>
     (firstErr (c_sup c) \<noteq> None \<longrightarrow> c_cancelled c) \<and>
     (\<not> c_deadline c \<longrightarrow> firstErr (c_sup c) = None \<longrightarrow> \<not> c_cancelled c)"

lemma cfg_inv_sup: "cfg_inv P ro c \<Longrightarrow> sup_inv d F P (all_live P ro) {#} (c_sup c)"
  by (simp add: cfg_inv_def)

lemma all_live_insert:
  "u \<notin> P \<Longrightarrow> all_live (insert u P) (ro(u := out)) = all_live P ro \<union> live_out u out"
  by (auto simp: all_live_def split: if_splits)

lemma initial_inv: "cfg_inv {} ro (initial_cfg E d initData)"
proof -
  have "nodeResults (startRun d initData) = []" "received (startRun d initData) = 0"
    "ancestorsOf (startRun d initData) = d_Ancestors d" "firstErr (startRun d initData) = None"
    using fold_dispatch_roots unfolding startRun_def Let_def by (simp_all add: fold_dispatch_roots [simplified])
  with startRun_inv show ?thesis
    by (simp add: cfg_inv_def initial_cfg_def outstanding_def all_live_def)
qed

text \<open>The received result belongs to a node that is outstanding and has no result yet.\<close>

lemma chan_fresh:
  assumes "cfg_inv P ro c" and "r \<in> set (c_chan c)"
  shows "nodeID r \<in> set (spawned (c_sup c))" "nodeID r \<notin> fst ` set (nodeResults (c_sup c))" "nodeID r \<notin> P"
proof -
  from assms(2) have o: "nodeID r \<in># mset (outstanding c)" by (auto simp: outstanding_def)
  have m: "mset (spawned (c_sup c)) = mset (outstanding c) + mset (map fst (nodeResults (c_sup c)))"
    and d: "distinct (spawned (c_sup c))" and P: "P \<subseteq> fst ` set (nodeResults (c_sup c))"
    using assms(1) by (simp_all add: cfg_inv_def sup_inv_def)
  from m o show "nodeID r \<in> set (spawned (c_sup c))" by (metis UnCI set_mset_mset set_mset_union)
  from d m have "distinct (outstanding c @ map fst (nodeResults (c_sup c)))"
    by (metis mset_append mset_eq_imp_distinct_iff)
  with o show n: "nodeID r \<notin> fst ` set (nodeResults (c_sup c))" by auto
  with P show "nodeID r \<notin> P" by auto
qed

definition after_recv :: "run_env \<Rightarrow> node_result \<Rightarrow> node_result list \<Rightarrow> sup \<Rightarrow> cfg \<Rightarrow> cfg" where
  "after_recv E r rest s' c = c\<lparr> c_sup := s', c_chan := rest, c_waiting := c_waiting c @ fresh (c_sup c) s',
     c_cancelled := c_cancelled c \<or> err r \<noteq> None,
     c_events := c_events c @ map (stateEvent E EventNodePending) (fresh (c_sup c) s') \<rparr>"

lemma recv_success_inv:
  assumes inv: "cfg_inv P ro c" and ch: "c_chan c = r # rest" and rc: "receive d r (c_sup c) = Some s'"
    and t: "err r = None" "firstErr (c_sup c) = None"
  shows "cfg_inv (insert (nodeID r) P) (ro(nodeID r := routingOutput r)) (after_recv E r rest s' c)"
proof -
  note fr = chan_fresh [OF inv, of r, unfolded ch, simplified]
  note u = update_fresh [OF fr(2)]
  have "sup_inv d F P (all_live P ro) {#} (c_sup c)" using inv by (simp add: cfg_inv_def)
  note R = receive_success_inv [OF rc t this fr(1,3)]
  from R(7) obtain xs where xs: "spawned s' = spawned (c_sup c) @ xs" by blast
  have m: "map_of (nodeResults s') = (map_of (nodeResults (c_sup c)))(nodeID r \<mapsto> Succeeded (nodeOutput r))"
    by (simp add: R(2))
  have k: "mset (map fst (nodeResults s')) = add_mset (nodeID r) (mset (map fst (nodeResults (c_sup c))))"
    "fst ` set (nodeResults s') = insert (nodeID r) (fst ` set (nodeResults (c_sup c)))"
    "length (nodeResults s') = Suc (length (nodeResults (c_sup c)))"
    by (simp_all add: R(2) u)
  show ?thesis
    unfolding cfg_inv_def all_live_insert [OF fr(3)] after_recv_def
    using R(1,4-6) t inv ch xs m k by (simp add: cfg_inv_def outstanding_def fresh_def)
qed

lemma recv_other_inv:
  assumes inv: "cfg_inv P ro c" and ch: "c_chan c = r # rest" and rc: "receive d r (c_sup c) = Some s'"
    and ne: "err r \<noteq> None \<or> firstErr (c_sup c) \<noteq> None"
  shows "cfg_inv P ro (after_recv E r rest s' c)"
proof -
  note fr = chan_fresh [OF inv, of r, unfolded ch, simplified]
  note u = update_fresh [OF fr(2)]
  note R = receive_no_schedule [OF rc ne]
  have "sup_inv d F P (all_live P ro) {#} s'" using inv R by (simp add: cfg_inv_def sup_inv_def)
  moreover have "firstErr s' \<noteq> None" using R(8) ne by (auto split: option.splits)
  moreover have "\<forall>v \<in> P. \<exists>out. map_of (nodeResults s') v = Some (Succeeded out)"
    using inv fr(3) by (auto simp: R(10) cfg_inv_def)
  moreover have "mset (map fst (nodeResults s')) = add_mset (nodeID r) (mset (map fst (nodeResults (c_sup c))))"
    "fst ` set (nodeResults s') = insert (nodeID r) (fst ` set (nodeResults (c_sup c)))"
    "length (nodeResults s') = Suc (length (nodeResults (c_sup c)))"
    by (simp_all add: R(10) u)
  moreover have "c_cancelled c \<or> err r \<noteq> None" "P \<subseteq> insert (nodeID r) (fst ` set (nodeResults (c_sup c)))"
    using inv ne by (auto simp: cfg_inv_def)
  ultimately show ?thesis
    unfolding cfg_inv_def after_recv_def using R(4,6,7) inv ch
    by (simp add: cfg_inv_def outstanding_def fresh_def del: not_None_eq)
qed

lemma cfg_inv_moved:
  "cfg_inv P ro c \<Longrightarrow> c_sup c' = c_sup c \<Longrightarrow> c_cancelled c' = c_cancelled c \<Longrightarrow> c_deadline c' = c_deadline c \<Longrightarrow>
   mset (outstanding c') = mset (outstanding c) \<Longrightarrow> cfg_inv P ro c'"
  unfolding cfg_inv_def by simp

lemma outstanding_immediate:
  "i \<in> set (c_waiting c) \<Longrightarrow> nodeID r = i \<Longrightarrow>
   mset (outstanding (c\<lparr>c_waiting := remove1 i (c_waiting c), c_chan := c_chan c @ [r], c_events := evs\<rparr>)) = mset (outstanding c)"
  by (simp add: outstanding_def)

lemma outstanding_begin:
  "i \<in> set (c_waiting c) \<Longrightarrow>
   mset (outstanding (c\<lparr>c_waiting := remove1 i (c_waiting c), c_running := c_running c @ [(i, inp)], c_events := evs\<rparr>)) = mset (outstanding c)"
  by (simp add: outstanding_def)

lemma outstanding_finish:
  assumes "(i, inp) \<in> set (c_running c)" and "nodeID r = i"
  shows "mset (outstanding (c\<lparr>c_running := remove1 (i, inp) (c_running c), c_chan := c_chan c @ [r], c_events := evs\<rparr>)) = mset (outstanding c)"
proof -
  have "mset (c_running c) = add_mset (i, inp) (mset (remove1 (i, inp) (c_running c)))" using assms(1) by simp
  then have "mset (map fst (c_running c)) = add_mset i (mset (map fst (remove1 (i, inp) (c_running c))))"
    by (metis fst_conv image_mset_add_mset mset_map)
  with assms(2) show ?thesis by (simp add: outstanding_def)
qed

lemma step_inv:
  assumes "step E d world c c'" and "cfg_inv P ro c"
  shows "\<exists>P' ro'. cfg_inv P' ro' c'"
  using assms(1)
proof (cases rule: step.cases)
  case (immediate i r)
  from cfg_inv_moved [OF assms(2), of c'] outstanding_immediate [OF immediate(2) executeNode_start_id [OF immediate(4)]] immediate(1)
  show ?thesis by auto
next
  case (begin_node i inp)
  from cfg_inv_moved [OF assms(2), of c'] outstanding_begin [OF begin_node(2)] begin_node(1) show ?thesis by auto
next
  case (finish i inp w)
  from cfg_inv_moved [OF assms(2), of c'] outstanding_finish [OF finish(2) executeNode_finish_id] finish(1) show ?thesis by auto
next
  case (recv r rest s')
  then have "c' = after_recv E r rest s' c" by (simp add: after_recv_def)
  with recv_success_inv [OF assms(2) recv(2,3)] recv_other_inv [OF assms(2) recv(2,3)] show ?thesis
    by (cases "err r = None \<and> firstErr (c_sup c) = None") auto
next
  case deadline
  with assms(2) show ?thesis by (auto simp: cfg_inv_def outstanding_def)
qed

lemma reach_inv: "reach E d world initData c \<Longrightarrow> \<exists>P ro. cfg_inv P ro c"
  by (induction rule: reach.induct) (blast intro: initial_inv step_inv)+

section \<open>Consequences\<close>

lemma settled_preds:
  assumes "sup_inv d F P L {#} s" "pending s v = 0" "e \<in> set F" "we_TargetID e = v"
  shows "we_SourceID e \<in> P \<union> set (skipped s)"
proof (rule ccontr)
  assume "we_SourceID e \<notin> P \<union> set (skipped s)"
  with assms(3) have "e \<in># open_edges F (P \<union> set (skipped s)) {#}" by (simp add: open_edges_def)
  moreover have "edges_into v (open_edges F (P \<union> set (skipped s)) {#}) = 0"
    using assms(1,2) by (simp add: sup_inv_def)
  ultimately show False using assms(4) by (auto simp: edges_into_zero)
qed

lemma settled_ancestors:
  assumes "sup_inv d F P L {#} s" and "(u, v) \<in> (arcs F)\<^sup>+" and "v \<in> set (spawned s) \<union> set (skipped s)"
  shows "u \<in> P \<union> set (skipped s)"
proof -
  have p0: "pending s w = 0" if "w \<in> set (spawned s) \<union> set (skipped s) \<union> P" for w
    using assms(1) that by (auto simp: sup_inv_def)
  have st: "x \<in> P \<union> set (skipped s)" if "(x, y) \<in> arcs F" "y \<in> set (spawned s) \<union> set (skipped s) \<union> P" for x y
    using settled_preds [OF assms(1) p0 [OF that(2)]] that(1) by (auto simp: arcs_def)
  show ?thesis using assms(2)
  proof (induction rule: converse_trancl_induct)
    case (base y)
    with st [of y v] assms(3) show ?case by blast
  next
    case (step y z)
    with st [of y z] show ?case by blast
  qed
qed

lemma finished_iff: "cfg_inv P ro c \<Longrightarrow> finished c \<longleftrightarrow> outstanding c = []"
proof -
  assume "cfg_inv P ro c"
  then have "mset (spawned (c_sup c)) = mset (outstanding c) + mset (map fst (nodeResults (c_sup c)))"
    "dispatched (c_sup c) = length (spawned (c_sup c))" "received (c_sup c) = length (nodeResults (c_sup c))"
    by (simp_all add: cfg_inv_def sup_inv_def)
  moreover from this(1) have "length (spawned (c_sup c)) = length (outstanding c) + length (nodeResults (c_sup c))"
    by (metis length_map size_mset size_union)
  ultimately show ?thesis by (simp add: finished_def)
qed

lemma all_settled:
  assumes inv: "cfg_inv P ro c" and "outstanding c = []" and "firstErr (c_sup c) = None"
  shows "P = set (spawned (c_sup c))" "node_ids d = P \<union> set (skipped (c_sup c))"
proof -
  let ?s = "c_sup c"
  have s: "sup_inv d F P (all_live P ro) {#} ?s" using inv by (simp add: cfg_inv_def)
  have P: "P = fst ` set (nodeResults ?s)" and m: "mset (spawned ?s) = mset (map fst (nodeResults ?s))"
    using assms by (simp_all add: cfg_inv_def)
  from mset_eq_setD [OF m] P show sp: "P = set (spawned ?s)" by simp
  have "v \<in> P \<union> set (skipped ?s)" if "v \<in> node_ids d" for v
  proof (rule topo_induct [OF that])
    fix v assume v: "v \<in> node_ids d" and pre: "\<And>e. e \<in> set F \<Longrightarrow> we_TargetID e = v \<Longrightarrow> we_SourceID e \<in> P \<union> set (skipped ?s)"
    have "edges_into v (open_edges F (P \<union> set (skipped ?s)) {#}) = 0"
      using pre by (auto simp: edges_into_zero open_edges_def)
    then have "pending ?s v = 0" using s by (simp add: sup_inv_def)
    then show "v \<in> P \<union> set (skipped ?s)" using s v sp by (auto simp: sup_inv_def)
  qed
  moreover have "P \<union> set (skipped ?s) \<subseteq> node_ids d" using s sp by (auto simp: sup_inv_def)
  ultimately show "node_ids d = P \<union> set (skipped ?s)" by blast
qed

lemma spawned_le: "cfg_inv P ro c \<Longrightarrow> dispatched (c_sup c) \<le> length (d_Nodes d)"
proof -
  assume "cfg_inv P ro c"
  then have "distinct (spawned (c_sup c))" "set (spawned (c_sup c)) \<subseteq> node_ids d" "dispatched (c_sup c) = length (spawned (c_sup c))"
    by (auto simp: cfg_inv_def sup_inv_def)
  then have "dispatched (c_sup c) \<le> card (node_ids d)" by (metis card_mono distinct_card finite_nodes)
  also have "\<dots> \<le> length (d_Nodes d)"
    unfolding node_ids_def by (metis List.finite_set card_image_le card_length le_trans)
  finally show ?thesis .
qed

lemma max_dispatches: "computeMaxDispatches d \<ge> int (length (d_Nodes d))"
  by (simp add: computeMaxDispatches_def no_bodies Let_def)

lemma outstanding_le:
  assumes "cfg_inv P ro c"
  shows "length (outstanding c) + length (nodeResults (c_sup c)) = dispatched (c_sup c)"
proof -
  have "mset (spawned (c_sup c)) = mset (outstanding c) + mset (map fst (nodeResults (c_sup c)))"
    "dispatched (c_sup c) = length (spawned (c_sup c))"
    using assms by (simp_all add: cfg_inv_def sup_inv_def)
  then show ?thesis by (metis length_map size_mset size_union)
qed

text \<open>No goroutine ever waits for room in the channel.\<close>

lemma always_room:
  assumes "cfg_inv P ro c" and "c_waiting c \<noteq> [] \<or> c_running c \<noteq> []"
  shows "room d c"
proof -
  have "length (c_chan c) < length (outstanding c)" using assms(2) by (auto simp: outstanding_def)
  with outstanding_le [OF assms(1)] spawned_le [OF assms(1)] max_dispatches show ?thesis
    by (simp add: room_def)
qed

section \<open>The run comes to an end\<close>

lemma dispatched_grows:
  assumes inv: "cfg_inv P ro c" and "c_chan c = r # rest" "receive d r (c_sup c) = Some s'"
  shows "dispatched s' = dispatched (c_sup c) + length (fresh (c_sup c) s') \<and> dispatched s' \<le> length (d_Nodes d)"
proof -
  obtain P' ro' where i': "cfg_inv P' ro' (after_recv E r rest s' c)"
    using recv_success_inv [OF assms] recv_other_inv [OF assms]
    by (cases "err r = None \<and> firstErr (c_sup c) = None") auto
  note fr = chan_fresh [OF inv, of r, unfolded assms(2), simplified]
  have si: "sup_inv d F P (all_live P ro) {#} (c_sup c)" using inv by (simp add: cfg_inv_def)
  have "\<exists>xs. spawned s' = spawned (c_sup c) @ xs"
    using receive_success_inv(7) [OF assms(3) _ _ si fr(1,3)] receive_no_schedule(4) [OF assms(3)]
    by (cases "err r = None \<and> firstErr (c_sup c) = None") auto
  moreover have "dispatched s' = length (spawned s')" "dispatched (c_sup c) = length (spawned (c_sup c))"
    using i' inv by (simp_all add: cfg_inv_def sup_inv_def after_recv_def)
  ultimately show ?thesis using spawned_le [OF i'] by (auto simp: fresh_def after_recv_def)
qed

lemma step_work:
  assumes "step E d world c c'" and inv: "cfg_inv P ro c"
  shows "work d c' < work d c \<or> c' = c\<lparr>c_cancelled := True, c_deadline := True\<rparr>"
  using assms(1)
proof (cases rule: step.cases)
  case (immediate i r)
  then obtain n where "length (c_waiting c) = Suc n" by (cases "c_waiting c") auto
  with immediate show ?thesis by (simp add: work_def length_remove1)
next
  case (begin_node i inp)
  then obtain n where "length (c_waiting c) = Suc n" by (cases "c_waiting c") auto
  with begin_node show ?thesis by (simp add: work_def length_remove1)
next
  case (finish i inp w)
  then obtain n where "length (c_running c) = Suc n" by (cases "c_running c") auto
  with finish show ?thesis by (simp add: work_def length_remove1)
next
  case (recv r rest s')
  with dispatched_grows [OF inv recv(2,3)] have "work d c' < work d c"
    by (simp add: work_def) arith
  then show ?thesis ..
next
  case deadline
  then show ?thesis by simp
qed

lemma step_possible:
  assumes inv: "cfg_inv P ro c" and "\<not> finished c" and world: "\<And>i inp. \<exists>w. world i inp w"
  shows "\<exists>c'. step E d world c c' \<and> work d c' < work d c"
proof -
  have "outstanding c \<noteq> []" using finished_iff [OF inv] assms(2) by blast
  then consider i where "i \<in> set (c_waiting c)" | i inp where "(i, inp) \<in> set (c_running c)" | r rest where "c_chan c = r # rest"
    unfolding outstanding_def by (cases "c_waiting c"; cases "c_running c"; cases "c_chan c") auto
  then obtain c' where st: "step E d world c c'" and ne: "c_waiting c' \<noteq> c_waiting c \<or> c_running c' \<noteq> c_running c \<or> c_chan c' \<noteq> c_chan c"
  proof cases
    case 1
    have "room d c" by (rule always_room [OF inv]) (use 1 in auto)
    moreover have "remove1 i (c_waiting c) \<noteq> c_waiting c"
      using 1 by (metis length_remove1 length_pos_if_in_set diff_less less_irrefl zero_less_one)
    ultimately show ?thesis
      using that step.immediate [OF 1] step.begin_node [OF 1]
      by (cases "executeNode_start E d (ancestorsOf (c_sup c)) (execCtx (c_sup c)) i") fastforce+
  next
    case 2
    have "room d c" by (rule always_room [OF inv]) (use 2 in auto)
    moreover have "remove1 (i, inp) (c_running c) \<noteq> c_running c"
      using 2 by (metis length_remove1 length_pos_if_in_set diff_less less_irrefl zero_less_one)
    ultimately show ?thesis using that step.finish [OF 2, of d world _ E] world [of i inp] by fastforce
  next
    case 3
    obtain s' where "receive d r (c_sup c) = Some s'" using receive_total by blast
    from step.recv [OF 3 this] 3 show ?thesis by (intro that) auto
  qed
  from step_work [OF st inv] ne st show ?thesis by auto
qed

end

section \<open>The built graph of a workflow without a loop controller\<close>

definition plain_workflow :: "workflow_node list \<Rightarrow> bool" where
  "plain_workflow nodes \<longleftrightarrow> (\<forall>n \<in> set nodes. wn_TypeID n \<noteq> loopControllerTypeID)"

definition plainDag :: "workflow_node list \<Rightarrow> workflow_edge list \<Rightarrow> dag" where
  "plainDag nodes edges = (if plain_workflow nodes then builtDag nodes edges else initDag [] [])"

definition plainEdges :: "workflow_node list \<Rightarrow> workflow_edge list \<Rightarrow> workflow_edge list" where
  "plainEdges nodes edges = (if plain_workflow nodes then builtEdges nodes edges else [])"

lemma initDag_nodes: "(i, n) \<in> set (d_Nodes (initDag nodes L)) \<Longrightarrow> n \<in> set nodes"
proof -
  have "(i, n) \<in> set (fold (\<lambda>n m. AList.update (wn_ID n) n m) ns m) \<Longrightarrow> n \<in> set ns \<or> (i, n) \<in> set m" for ns m
  proof (induction ns arbitrary: m)
    case (Cons x xs)
    have "set (AList.update (wn_ID x) x m) \<subseteq> insert (wn_ID x, x) (set m)"
      by (induction m) (auto split: if_splits)
    with Cons show ?case by fastforce
  qed simp
  then show "(i, n) \<in> set (d_Nodes (initDag nodes L)) \<Longrightarrow> n \<in> set nodes" by (fastforce simp: initDag_def)
qed

lemma nodeType_controller: "nodeType nodes t = loopControllerTypeID \<Longrightarrow> \<not> plain_workflow nodes"
  by (force simp: nodeType_def plain_workflow_def dest!: map_of_SomeD split: option.splits)

lemma Build_plain_dag:
  assumes b: "Build nodes edges = Inr d" and pl: "plain_workflow nodes"
  shows "plain_dag d (fwd edges)"
proof -
  note B = Build_Inr [OF b]
  show ?thesis
  proof (intro plain_dag.intro plain_dag_axioms.intro Build_wf_dag [OF b])
    show "wn_TypeID n \<noteq> loopControllerTypeID" if "map_of (d_Nodes d) i = Some n" for i n
      using that pl B(1) initDag_nodes by (fastforce simp: adjacent_def plain_workflow_def dest: map_of_SomeD)
    show "d_LoopBackEdges d = []"
      using Build_sound [OF b] B(1) nodeType_controller pl
      by (auto simp: adjacent_def valid_graph_def loop_edge_ok_def filter_empty_conv)
    have "map_of (d_LoopBodyNodes d) c = None" for c
      using B(7) pl by (auto simp: plain_workflow_def)
    then have "map_of (d_LoopBodyNodes d) = Map.empty" by blast
    then show "d_LoopBodyNodes d = []" by (simp only: map_of_eq_empty_iff)
  qed
qed

interpretation pd: plain_dag "plainDag nodes edges" "plainEdges nodes edges"
  for nodes edges
proof (cases "plain_workflow nodes \<and> \<not> isl (Build nodes edges)")
  case True
  then obtain d where b: "Build nodes edges = Inr d" by (cases "Build nodes edges") auto
  with Build_plain_dag [OF b] True show "plain_dag (plainDag nodes edges) (plainEdges nodes edges)"
    by (simp add: plainDag_def plainEdges_def builtDag_def builtEdges_def)
next
  case False
  then have "plainDag nodes edges = initDag [] []" "plainEdges nodes edges = []"
    by (auto simp: plainDag_def plainEdges_def builtDag_def builtEdges_def split: sum.splits)
  then show "plain_dag (plainDag nodes edges) (plainEdges nodes edges)"
    by unfold_locales (simp_all add: initDag_def node_ids_def arcs_def)
qed

lemma plainDag_eq: "Build nodes edges = Inr d \<Longrightarrow> plain_workflow nodes \<Longrightarrow> plainDag nodes edges = d \<and> plainEdges nodes edges = fwd edges"
  by (simp add: plainDag_def plainEdges_def builtDag_Inr)

end
