(* ===== verification/Runner_Det.thy ===== *)
theory Runner_Det
  imports Runner_Correct
begin

text \<open>
  What a run computes does not depend on the order in which goroutines are scheduled. The
  results received before any failure are explained by the handlers alone: each node ran on
  the outputs of its ancestors, which had all settled when it read the context. Two finished
  runs of the same workflow therefore agree on every node, provided a handler's outcome is a
  function of its node and input and the deadline did not strike.
\<close>

text \<open>A handler's outcome is a function of its node and its input.\<close>

definition functional_world :: "world \<Rightarrow> bool" where
  "functional_world world \<longleftrightarrow> (\<forall>i inp w w'. world i inp w \<longrightarrow> world i inp w' \<longrightarrow> w = w')"

context plain_dag
begin

definition result_ok :: "run_env \<Rightarrow> world \<Rightarrow> exec_context \<Rightarrow> node_result \<Rightarrow> bool" where
  "result_ok E world ec r \<longleftrightarrow>
     (case executeNode_start E d (d_Ancestors d) ec (nodeID r) of
        Immediate r' \<Rightarrow> r = r'
      | Begun inp \<Rightarrow> (\<exists>w. world (nodeID r) inp w \<and> r = executeNode_finish E d (nodeID r) w))"

definition det_inv :: "run_env \<Rightarrow> world \<Rightarrow> gomap \<Rightarrow> string set \<Rightarrow> (string \<Rightarrow> node_result) \<Rightarrow> cfg \<Rightarrow> bool" where
  "det_inv E world initData P res c \<longleftrightarrow>
     cfg_inv P (\<lambda>u. routingOutput (res u)) c \<and>
     (\<forall>u \<in> P. nodeID (res u) = u \<and> err (res u) = None \<and> result_ok E world (execCtx (c_sup c)) (res u) \<and>
               map_of (execCtx (c_sup c)) u = Some (nodeOutput (res u))) \<and>
     map_of (execCtx (c_sup c)) ''_initial'' = Some initData \<and>
     (\<forall>v \<in> node_ids d. v \<notin> fst ` set (nodeResults (c_sup c)) \<longrightarrow> map_of (execCtx (c_sup c)) v = None) \<and>
     (\<forall>(i, inp) \<in> set (c_running c). executeNode_start E d (d_Ancestors d) (execCtx (c_sup c)) i = Begun inp) \<and>
     (\<not> c_cancelled c \<longrightarrow> (\<forall>r \<in> set (c_chan c). result_ok E world (execCtx (c_sup c)) r)) \<and>
     (\<forall>e. firstErr (c_sup c) = Some e \<longrightarrow>
        (\<exists>r. nodeID r \<in> set (spawned (c_sup c)) \<and> result_ok E world (execCtx (c_sup c)) r \<and> err r = Some e))"

lemmas det_invD = det_inv_def [THEN iffD1]

text \<open>
  Storing the output of a node that has not settled is invisible to every node already
  dispatched: all of their ancestors have settled.
\<close>

lemma start_stable:
  assumes inv: "sup_inv d F P L {#} s" and u: "u \<in> set (spawned s)" "u \<notin> P" "u \<noteq> ''_initial''"
    and other: "\<And>j. j \<noteq> u \<Longrightarrow> map_of ec' j = map_of ec j" and v: "v \<in> set (spawned s)"
  shows "executeNode_start E d (d_Ancestors d) ec' v = executeNode_start E d (d_Ancestors d) ec v"
proof (rule executeNode_start_cong)
  fix j assume j: "j \<in> insert ''_initial'' (set (d_Ancestors d v))"
  have "v \<in> node_ids d" "u \<notin> set (skipped s)" using inv u v by (auto simp: sup_inv_def)
  with j settled_ancestors [OF inv, of j v] v u(2,3) have "j \<noteq> u" by (auto simp: ancestors)
  then show "map_of ec' j = map_of ec j" by (rule other)
qed

lemma result_stable:
  assumes "sup_inv d F P L {#} s" "u \<in> set (spawned s)" "u \<notin> P" "u \<noteq> ''_initial''"
    and "\<And>j. j \<noteq> u \<Longrightarrow> map_of ec' j = map_of ec j" and "nodeID r \<in> set (spawned s)"
  shows "result_ok E world ec' r = result_ok E world ec r"
  using start_stable [OF assms, of E] by (simp add: result_ok_def)

text \<open>Two possible results of one node on one context are equal when handlers are functional.\<close>

lemma result_unique:
  assumes "result_ok E world ec r" "result_ok E world ec' r'" "nodeID r = nodeID r'"
    and "executeNode_start E d (d_Ancestors d) ec (nodeID r) = executeNode_start E d (d_Ancestors d) ec' (nodeID r)"
    and "functional_world world"
  shows "r = r'"
  using assms unfolding result_ok_def functional_world_def by (auto split: start_outcome.splits) metis

section \<open>Preservation\<close>

lemma det_initial:
  assumes "''_initial'' \<notin> node_ids d" "''_loop_state'' \<notin> node_ids d"
  shows "det_inv E world initData {} res (initial_cfg E d initData)"
proof -
  have "execCtx (startRun d initData) = ctx_set ''_loop_state'' [(''iteration'', VInt 0)] (ctx_set ''_initial'' initData newExecutionContext)"
    "firstErr (startRun d initData) = None"
    using fold_dispatch_roots unfolding startRun_def Let_def by (simp_all add: fold_dispatch_roots [simplified])
  with assms initial_inv [of "\<lambda>u. routingOutput (res u)" E initData] show ?thesis
    by (auto simp: det_inv_def initial_cfg_def newExecutionContext_def)
qed

text \<open>
  What \<open>receive\<close> does to the parts of the state the invariant mentions, whatever the result.
\<close>

lemma receive_effect:
  assumes "cfg_inv P ro c" and ch: "c_chan c = r # rest" and rc: "receive d r (c_sup c) = Some s'"
  shows "\<And>j. j \<noteq> nodeID r \<Longrightarrow> map_of (execCtx s') j = map_of (execCtx (c_sup c)) j"
    and "err r = None \<Longrightarrow> map_of (execCtx s') (nodeID r) = Some (nodeOutput r)"
    and "fst ` set (nodeResults s') = insert (nodeID r) (fst ` set (nodeResults (c_sup c)))"
    and "firstErr s' = (case firstErr (c_sup c) of None \<Rightarrow> err r | Some e \<Rightarrow> Some e)"
    and "set (spawned (c_sup c)) \<subseteq> set (spawned s')"
proof -
  note fr = chan_fresh [OF assms(1), of r, unfolded ch, simplified]
  have si: "sup_inv d F P (all_live P ro) {#} (c_sup c)" using assms(1) by (simp add: cfg_inv_def)
  note S = receive_success_inv [OF rc _ _ si fr(1,3)] and N = receive_no_schedule [OF rc]
  consider (ok) "err r = None" "firstErr (c_sup c) = None" | (bad) "err r \<noteq> None \<or> firstErr (c_sup c) \<noteq> None" by blast
  note cases = this
  show "map_of (execCtx s') j = map_of (execCtx (c_sup c)) j" if "j \<noteq> nodeID r" for j
    using cases that by cases (simp_all add: S(3) N(9))
  show "map_of (execCtx s') (nodeID r) = Some (nodeOutput r)" if "err r = None"
    using cases that by cases (simp_all add: S(3) N(9))
  show "fst ` set (nodeResults s') = insert (nodeID r) (fst ` set (nodeResults (c_sup c)))"
    using cases by cases (simp_all add: S(2) N(10) update_fresh [OF fr(2)])
  show "firstErr s' = (case firstErr (c_sup c) of None \<Rightarrow> err r | Some e \<Rightarrow> Some e)"
    using cases by cases (simp_all add: S(4) N(8))
  show "set (spawned (c_sup c)) \<subseteq> set (spawned s')"
    using cases S(7) by cases (auto simp: N(4))
qed

lemma det_recv:
  assumes det: "det_inv E world initData P res c" and ch: "c_chan c = r # rest" and rc: "receive d r (c_sup c) = Some s'"
    and nd: "\<not> c_deadline c" and ini: "''_initial'' \<notin> node_ids d"
  shows "\<exists>P' res'. det_inv E world initData P' res' (after_recv E r rest s' c)"
proof -
  let ?u = "nodeID r" and ?s = "c_sup c" and ?c' = "after_recv E r rest s' c"
  let ?ok = "\<lambda>s. result_ok E world (execCtx s)"
  have inv: "cfg_inv P (\<lambda>u. routingOutput (res u)) c" using det by (simp add: det_inv_def)
  note fr = chan_fresh [OF inv, of r, unfolded ch, simplified] and R = receive_effect [OF inv ch rc]
  have si: "sup_inv d F P (all_live P (\<lambda>u. routingOutput (res u))) {#} ?s" using inv by (simp add: cfg_inv_def)
  have un: "?u \<noteq> ''_initial''" "?u \<in> node_ids d" using si fr(1) ini by (auto simp: sup_inv_def)
  have "mset (spawned ?s) = mset (outstanding c) + mset (map fst (nodeResults ?s))" using inv by (simp add: cfg_inv_def)
  from arg_cong [OF this, of set_mset] have ran: "i \<in> set (spawned ?s)" if "i \<in> set (outstanding c)" for i using that by auto
  have rst: "nodeID q \<in> set (spawned ?s)" if "q \<in> set (r # rest)" for q
    using ran [of "nodeID q"] that ch by (auto simp: outstanding_def)
  have st: "executeNode_start E d (d_Ancestors d) (execCtx s') v = executeNode_start E d (d_Ancestors d) (execCtx ?s) v"
    if "v \<in> set (spawned ?s)" for v
    by (rule start_stable [OF si fr(1,3) un(1) _ that]) (rule R(1))
  have rs: "?ok s' q = ?ok ?s q" if "nodeID q \<in> set (spawned ?s)" for q
    by (rule result_stable [OF si fr(1,3) un(1) _ that]) (rule R(1))
  have A: "nodeID (res v) = v \<and> err (res v) = None \<and> ?ok s' (res v) \<and> map_of (execCtx s') v = Some (nodeOutput (res v)) \<and> v \<noteq> ?u"
    if "v \<in> P" for v
    using det that fr(3) si rs [of "res v"] R(1) [of v] by (auto simp: det_inv_def sup_inv_def subset_iff)
  have B: "map_of (execCtx s') ''_initial'' = Some initData" using det R(1) un(1) by (simp add: det_inv_def)
  have C: "map_of (execCtx s') v = None" if "v \<in> node_ids d" "v \<notin> fst ` set (nodeResults s')" for v
    using det that R(1) [of v] by (simp add: det_inv_def R(3))
  have D: "executeNode_start E d (d_Ancestors d) (execCtx s') i = Begun inp" if "(i, inp) \<in> set (c_running c)" for i inp
  proof -
    have "i \<in> set (outstanding c)" using that by (force simp: outstanding_def)
    moreover have "executeNode_start E d (d_Ancestors d) (execCtx ?s) i = Begun inp"
      using det that by (auto simp: det_inv_def)
    ultimately show ?thesis using st [OF ran, of i] by simp
  qed
  have ok: "?ok s' q" if "\<not> c_cancelled c" "q \<in> set (r # rest)" for q
    using det that ch rs [OF rst [OF that(2)]] by (auto simp: det_inv_def)
  have G: "\<exists>q. nodeID q \<in> set (spawned s') \<and> ?ok s' q \<and> err q = Some e" if "firstErr s' = Some e" for e
  proof (cases "firstErr ?s")
    case None
    with inv nd have "\<not> c_cancelled c" by (simp add: cfg_inv_def)
    with ok [of r] R(4,5) None that fr(1) show ?thesis by auto
  next
    case (Some e')
    with R(4) that det obtain q where "nodeID q \<in> set (spawned ?s)" "?ok ?s q" "err q = Some e" by (auto simp: det_inv_def)
    with rs [of q] R(5) show ?thesis by blast
  qed
  show ?thesis
  proof (cases "err r = None \<and> firstErr ?s = None")
    case True
    then have t: "err r = None" "firstErr ?s = None" by simp_all
    have nc: "\<not> c_cancelled c" using inv nd t by (simp add: cfg_inv_def)
    have "(\<lambda>u. routingOutput (res u))(?u := routingOutput r) = (\<lambda>u. routingOutput ((res(?u := r)) u))" by auto
    with recv_success_inv [OF inv ch rc t]
    have "cfg_inv (insert ?u P) (\<lambda>u. routingOutput ((res(?u := r)) u)) ?c'" by simp
    then have "det_inv E world initData (insert ?u P) (res(?u := r)) ?c'"
      unfolding det_inv_def using A B C D G ok [OF nc] R(2) [OF t(1)] t(1) by (auto simp: after_recv_def)
    then show ?thesis by blast
  next
    case False
    then have "cfg_inv P (\<lambda>u. routingOutput (res u)) ?c'" using recv_other_inv [OF inv ch rc] by auto
    then have "det_inv E world initData P res ?c'"
      unfolding det_inv_def using A B C D G ok by (auto simp: after_recv_def)
    then show ?thesis by blast
  qed
qed

lemma det_step:
  assumes st: "step E d world c c'" and det: "det_inv E world initData P res c"
    and nd: "\<not> c_deadline c'" and ini: "''_initial'' \<notin> node_ids d"
  shows "\<exists>P' res'. det_inv E world initData P' res' c'"
  using st
proof (cases rule: step.cases)
  case (immediate i r)
  have inv: "cfg_inv P (\<lambda>u. routingOutput (res u)) c" and anc: "ancestorsOf (c_sup c) = d_Ancestors d"
    using det by (simp_all add: det_inv_def cfg_inv_def)
  note id = executeNode_start_id [OF immediate(4)]
  have "cfg_inv P (\<lambda>u. routingOutput (res u)) c'"
    by (rule cfg_inv_moved [OF inv]) (use immediate(1) outstanding_immediate [OF immediate(2) id] in simp_all)
  moreover have "result_ok E world (execCtx (c_sup c)) r"
    using immediate(4) anc id by (simp add: result_ok_def)
  ultimately show ?thesis using det immediate(1)
    by (intro exI [of _ P] exI [of _ res]) (auto simp: det_inv_def)
next
  case (begin_node i inp)
  have inv: "cfg_inv P (\<lambda>u. routingOutput (res u)) c" and anc: "ancestorsOf (c_sup c) = d_Ancestors d"
    using det by (simp_all add: det_inv_def cfg_inv_def)
  have "cfg_inv P (\<lambda>u. routingOutput (res u)) c'"
    by (rule cfg_inv_moved [OF inv]) (use begin_node(1) outstanding_begin [OF begin_node(2)] in simp_all)
  then show ?thesis using det begin_node(1,3) anc
    by (intro exI [of _ P] exI [of _ res]) (auto simp: det_inv_def)
next
  case (finish i inp w)
  have inv: "cfg_inv P (\<lambda>u. routingOutput (res u)) c" using det by (simp add: det_inv_def)
  have "cfg_inv P (\<lambda>u. routingOutput (res u)) c'"
    by (rule cfg_inv_moved [OF inv]) (use finish(1) outstanding_finish [OF finish(2) executeNode_finish_id] in simp_all)
  moreover have "executeNode_start E d (d_Ancestors d) (execCtx (c_sup c)) i = Begun inp"
    using det finish(2) by (auto simp: det_inv_def)
  then have "c_cancelled c \<or> result_ok E world (execCtx (c_sup c)) (executeNode_finish E d i w)"
    using finish(4) by (auto simp: result_ok_def)
  moreover have "set (remove1 (i, inp) (c_running c)) \<subseteq> set (c_running c)" by (rule set_remove1_subset)
  ultimately show ?thesis using det finish(1)
    by (intro exI [of _ P] exI [of _ res]) (auto simp: det_inv_def)
next
  case (recv r rest s')
  then have "c' = after_recv E r rest s' c" by (simp add: after_recv_def)
  with det_recv [OF det recv(2,3) _ ini] nd show ?thesis by (simp add: after_recv_def)
next
  case deadline
  with nd show ?thesis by simp
qed

lemma reach_det:
  assumes "reach E d world initData c" "''_initial'' \<notin> node_ids d" "''_loop_state'' \<notin> node_ids d"
  shows "\<not> c_deadline c \<Longrightarrow> \<exists>P res. det_inv E world initData P res c"
  using assms(1)
proof (induction rule: reach.induct)
  case init
  with det_initial assms(2,3) show ?case by blast
next
  case (move c c')
  have "\<not> c_deadline c" using move.hyps(2) move.prems by (cases rule: step.cases) auto
  with move det_step assms(2) show ?case by blast
qed

section \<open>Schedule independence\<close>

lemma skipped_no_output:
  assumes "det_inv E world initData P res c" "u \<in> set (skipped (c_sup c))"
  shows "map_of (execCtx (c_sup c)) u = None"
proof -
  have "cfg_inv P (\<lambda>u. routingOutput (res u)) c" using assms(1) by (simp add: det_inv_def)
  then have s: "sup_inv d F P (all_live P (\<lambda>u. routingOutput (res u))) {#} (c_sup c)"
    and m: "mset (spawned (c_sup c)) = mset (outstanding c) + mset (map fst (nodeResults (c_sup c)))"
    by (simp_all add: cfg_inv_def)
  have "u \<in> node_ids d" "u \<notin> set (spawned (c_sup c))" using s assms(2) by (auto simp: sup_inv_def)
  moreover from this(2) arg_cong [OF m, of set_mset] have "u \<notin> fst ` set (nodeResults (c_sup c))" by auto
  ultimately show ?thesis using assms(1) by (simp add: det_inv_def)
qed

text \<open>
  A finished run without failure decides what every other run may do: where the other has
  dispatched or skipped a node, this one has too, with the same result.
\<close>

lemma agree:
  assumes det1: "det_inv E world initData P res c" and fin: "outstanding c = []" "firstErr (c_sup c) = None"
    and det2: "det_inv E world initData P' res' c'"
    and det_world: "functional_world world"
    and v: "v \<in> node_ids d"
  shows "(v \<in> set (spawned (c_sup c')) \<longrightarrow> v \<in> P \<and>
            executeNode_start E d (d_Ancestors d) (execCtx (c_sup c)) v = executeNode_start E d (d_Ancestors d) (execCtx (c_sup c')) v) \<and>
         (v \<in> P' \<longrightarrow> res' v = res v) \<and> (v \<in> set (skipped (c_sup c')) \<longrightarrow> v \<in> set (skipped (c_sup c)))"
    (is "?Q v")
proof (rule ancestor_induct [OF v])
  fix v assume v: "v \<in> node_ids d" and IH: "\<And>u. (u, v) \<in> (arcs F)\<^sup>+ \<Longrightarrow> ?Q u"
  let ?ro = "\<lambda>u. routingOutput (res u)" and ?ro' = "\<lambda>u. routingOutput (res' u)"
  have i1: "cfg_inv P ?ro c" and i2: "cfg_inv P' ?ro' c'" using det1 det2 by (simp_all add: det_inv_def)
  note all = all_settled [OF i1 fin]
  have s1: "sup_inv d F P (all_live P ?ro) {#} (c_sup c)" and s2: "sup_inv d F P' (all_live P' ?ro') {#} (c_sup c')"
    using i1 i2 by (simp_all add: cfg_inv_def)
  have P's: "P' \<subseteq> set (spawned (c_sup c'))" using s2 by (simp add: sup_inv_def)
  have disj: "u \<notin> set (skipped (c_sup c))" if "u \<in> P" for u using s1 that all(1) by (auto simp: sup_inv_def)
  note none = skipped_no_output [OF det1] skipped_no_output [OF det2]
  have ctx: "map_of (execCtx (c_sup c)) u = map_of (execCtx (c_sup c')) u"
    if "(u, v) \<in> (arcs F)\<^sup>+" "u \<in> P' \<union> set (skipped (c_sup c'))" for u
    using that(2)
  proof
    assume "u \<in> P'"
    with IH [OF that(1)] P's have "u \<in> P" "res' u = res u" by auto
    with \<open>u \<in> P'\<close> det1 det2 show ?thesis by (simp add: det_inv_def)
  next
    assume "u \<in> set (skipped (c_sup c'))"
    with IH [OF that(1)] none show ?thesis by simp
  qed
  have edge: "(we_SourceID e, v) \<in> (arcs F)\<^sup>+" if "e \<in> set F" "we_TargetID e = v" for e
    using that by (force simp: arcs_def)
  have start: "executeNode_start E d (d_Ancestors d) (execCtx (c_sup c)) v = executeNode_start E d (d_Ancestors d) (execCtx (c_sup c')) v"
    if "v \<in> set (spawned (c_sup c'))"
  proof (rule executeNode_start_cong)
    fix j assume "j \<in> insert ''_initial'' (set (d_Ancestors d v))"
    then show "map_of (execCtx (c_sup c)) j = map_of (execCtx (c_sup c')) j"
      using det1 det2 ctx [of j] settled_ancestors [OF s2, of j v] that v by (auto simp: det_inv_def ancestors)
  qed
  have live: "hasLive (c_sup c) v \<longleftrightarrow> hasLive (c_sup c') v" if "pending (c_sup c') v = 0"
  proof -
    have "e \<in> all_live P ?ro \<longleftrightarrow> e \<in> all_live P' ?ro'" if e: "e \<in> set F" "we_TargetID e = v" for e
    proof -
      have "we_SourceID e \<in> P' \<union> set (skipped (c_sup c'))"
        by (rule settled_preds [OF s2 \<open>pending (c_sup c') v = 0\<close> e])
      with IH [OF edge [OF e]] P's disj e show ?thesis by (auto simp: all_live_def live_out_def)
    qed
    moreover have "all_live A r \<subseteq> set F" for A r by (auto simp: all_live_def live_out_def)
    moreover have "hasLive (c_sup c) v \<longleftrightarrow> (\<exists>e \<in> all_live P ?ro. we_TargetID e = v)"
      "hasLive (c_sup c') v \<longleftrightarrow> (\<exists>e \<in> all_live P' ?ro'. we_TargetID e = v)"
      using s1 s2 by (simp_all add: sup_inv_def)
    ultimately show ?thesis by (meson subsetD)
  qed
  have inP: "v \<in> P" if "v \<in> set (spawned (c_sup c'))"
  proof -
    have "pending (c_sup c') v = 0" "d_Predecessors d v = [] \<or> hasLive (c_sup c') v"
      using s2 that by (auto simp: sup_inv_def)
    with live have "v \<notin> set (skipped (c_sup c))" using s1 by (auto simp: sup_inv_def)
    with all v show ?thesis by blast
  qed
  show "?Q v"
  proof (intro conjI impI)
    assume sp: "v \<in> set (spawned (c_sup c'))"
    then show "v \<in> P" by (rule inP)
    show "executeNode_start E d (d_Ancestors d) (execCtx (c_sup c)) v = executeNode_start E d (d_Ancestors d) (execCtx (c_sup c')) v"
      by (rule start [OF sp])
  next
    assume p: "v \<in> P'"
    then have sp: "v \<in> set (spawned (c_sup c'))" using P's by blast
    with p inP [OF sp] det1 det2 show "res' v = res v"
      using result_unique [of E world "execCtx (c_sup c')" "res' v" "execCtx (c_sup c)" "res v"] start [OF sp] det_world
      by (simp add: det_inv_def)
  next
    assume "v \<in> set (skipped (c_sup c'))"
    then have "pending (c_sup c') v = 0" "d_Predecessors d v \<noteq> []" "\<not> hasLive (c_sup c') v"
      using s2 by (auto simp: sup_inv_def)
    with live have "v \<notin> set (spawned (c_sup c))" using s1 by (auto simp: sup_inv_def)
    with all v show "v \<in> set (skipped (c_sup c))" by blast
  qed
qed

lemma finished_agree:
  assumes det1: "det_inv E world initData P res c" and fin: "outstanding c = []" "firstErr (c_sup c) = None"
    and det2: "det_inv E world initData P' res' c'" and fin': "outstanding c' = []"
    and det_world: "functional_world world"
  shows "firstErr (c_sup c') = None"
    and "v \<in> node_ids d \<Longrightarrow> map_of (execCtx (c_sup c')) v = map_of (execCtx (c_sup c)) v"
    and "set (skipped (c_sup c')) = set (skipped (c_sup c))"
proof -
  note A = agree [OF det1 fin det2 det_world]
  have i2: "cfg_inv P' (\<lambda>u. routingOutput (res' u)) c'" using det2 by (simp add: det_inv_def)
  then have s2: "sup_inv d F P' (all_live P' (\<lambda>u. routingOutput (res' u))) {#} (c_sup c')" by (simp add: cfg_inv_def)
  show ok: "firstErr (c_sup c') = None"
  proof (rule ccontr)
    assume "firstErr (c_sup c') \<noteq> None"
    with det2 obtain e r where r: "nodeID r \<in> set (spawned (c_sup c'))" "result_ok E world (execCtx (c_sup c')) r" "err r = Some e"
      by (auto simp: det_inv_def)
    from r(1) s2 have "nodeID r \<in> node_ids d" by (auto simp: sup_inv_def)
    from A [OF this] r(1) have p: "nodeID r \<in> P"
      "executeNode_start E d (d_Ancestors d) (execCtx (c_sup c')) (nodeID r) = executeNode_start E d (d_Ancestors d) (execCtx (c_sup c)) (nodeID r)"
      by auto
    with det1 have "result_ok E world (execCtx (c_sup c)) (res (nodeID r))" "nodeID (res (nodeID r)) = nodeID r" "err (res (nodeID r)) = None"
      by (simp_all add: det_inv_def)
    with result_unique [OF r(2) this(1) _ p(2) det_world] r(3) show False by simp
  qed
  note all = all_settled [OF i2 fin' ok]
  show "map_of (execCtx (c_sup c')) v = map_of (execCtx (c_sup c)) v" if v: "v \<in> node_ids d"
  proof (cases "v \<in> P'")
    case True
    with A [OF v] all(1) det1 det2 show ?thesis by (simp add: det_inv_def)
  next
    case False
    with all v have "v \<in> set (skipped (c_sup c'))" by blast
    with A [OF v] skipped_no_output [OF det1] skipped_no_output [OF det2] show ?thesis by simp
  qed
  have "set (skipped (c_sup x)) \<subseteq> node_ids d" if "det_inv E world initData p q x" for p q x
    using that by (auto simp: det_inv_def cfg_inv_def sup_inv_def)
  with A agree [OF det2 fin' ok det1 det_world] det1 det2
  show "set (skipped (c_sup c')) = set (skipped (c_sup c))" by blast
qed

end

end
