(* ===== verification/Runner_Props.thy ===== *)
theory Runner_Props
  imports Runner_Det
begin

text \<open>
  The properties of the runner, and one executable schedule. \<open>drive\<close> always prefers to receive,
  then to finish the oldest running node, then to start the oldest waiting one; it is one of the
  interleavings of \<open>step\<close>, and \<open>runDAG\<close> is the whole run under it.
\<close>

type_synonym behaviour = "string \<Rightarrow> node_input \<Rightarrow> attempts"

definition obeys :: "behaviour \<Rightarrow> world" where
  "obeys beh = (\<lambda>i inp w. w = beh i inp)"

definition drive1 :: "run_env \<Rightarrow> dag \<Rightarrow> behaviour \<Rightarrow> cfg \<Rightarrow> cfg option" where
  "drive1 E d beh c =
     (case c_chan c of
        r # rest \<Rightarrow>
          map_option (\<lambda>s'. c\<lparr> c_sup := s', c_chan := rest, c_waiting := c_waiting c @ fresh (c_sup c) s',
                              c_cancelled := c_cancelled c \<or> err r \<noteq> None,
                              c_events := c_events c @ map (stateEvent E EventNodePending) (fresh (c_sup c) s') \<rparr>) (receive d r (c_sup c))
      | [] \<Rightarrow> (case c_running c of
            (i, inp) # rs \<Rightarrow> Some (c\<lparr> c_running := rs, c_chan := [executeNode_finish E d i (beh i inp)],
                                     c_events := c_events c @ [resultEvent E (executeNode_finish E d i (beh i inp))] \<rparr>)
          | [] \<Rightarrow> (case c_waiting c of
                i # ws \<Rightarrow>
                  (case executeNode_start E d (ancestorsOf (c_sup c)) (execCtx (c_sup c)) i of
                     Immediate r \<Rightarrow> Some (c\<lparr> c_waiting := ws, c_chan := [r], c_events := c_events c @ startEvents E i (Immediate r) \<rparr>)
                   | Begun inp \<Rightarrow> Some (c\<lparr> c_waiting := ws, c_running := [(i, inp)], c_events := c_events c @ startEvents E i (Begun inp) \<rparr>))
              | [] \<Rightarrow> None)))"

fun drive :: "nat \<Rightarrow> run_env \<Rightarrow> dag \<Rightarrow> behaviour \<Rightarrow> cfg \<Rightarrow> cfg" where
  "drive 0 E d beh c = c"
| "drive (Suc n) E d beh c = (case drive1 E d beh c of None \<Rightarrow> c | Some c' \<Rightarrow> drive n E d beh c')"

definition runDAG :: "nat \<Rightarrow> run_env \<Rightarrow> dag \<Rightarrow> behaviour \<Rightarrow> gomap \<Rightarrow> node_error + (string \<times> gomap) list" where
  "runDAG fuel E d beh initData =
     (case emptyRun d of
        Some (outs, _) \<Rightarrow> Inr outs
      | None \<Rightarrow> finishRun d (c_sup (drive fuel E d beh (initial_cfg E d initData))))"

lemma room_one: "c_chan c = [] \<Longrightarrow> room d c"
  by (simp add: room_def computeMaxDispatches_def Let_def)

lemma drive1_step: "drive1 E d beh c = Some c' \<Longrightarrow> step E d (obeys beh) c c'"
proof -
  assume a: "drive1 E d beh c = Some c'"
  show "step E d (obeys beh) c c'"
  proof (cases "c_chan c")
    case (Cons r rest)
    with a obtain s' where s': "receive d r (c_sup c) = Some s'"
      and c': "c' = c\<lparr> c_sup := s', c_chan := rest, c_waiting := c_waiting c @ fresh (c_sup c) s', c_cancelled := c_cancelled c \<or> err r \<noteq> None,
         c_events := c_events c @ map (stateEvent E EventNodePending) (fresh (c_sup c) s') \<rparr>"
      by (auto simp: drive1_def)
    show ?thesis unfolding c' by (rule step.recv [OF Cons s'])
  next
    case ch: Nil
    note rm = room_one [OF ch, of d]
    show ?thesis
    proof (cases "c_running c")
      case (Cons x rs)
      obtain i inp where x: "x = (i, inp)" by (cases x)
      from step.finish [of i inp c d "obeys beh" "beh i inp" E] Cons x rm a ch show ?thesis
        by (simp add: drive1_def obeys_def)
    next
      case Nil
      with a ch obtain i ws where w: "c_waiting c = i # ws" by (auto simp: drive1_def split: list.splits)
      show ?thesis
      proof (cases "executeNode_start E d (ancestorsOf (c_sup c)) (execCtx (c_sup c)) i")
        case (Immediate r)
        from step.immediate [OF _ rm Immediate] a ch Nil w Immediate show ?thesis by (simp add: drive1_def)
      next
        case (Begun inp)
        from step.begin_node [OF _ Begun] a ch Nil w Begun show ?thesis by (simp add: drive1_def)
      qed
    qed
  qed
qed

lemma drive_reach: "reach E d (obeys beh) initData c \<Longrightarrow> reach E d (obeys beh) initData (drive n E d beh c)"
  by (induction n E d beh c rule: drive.induct) (auto split: option.splits intro: reach.move drive1_step)

lemma obeys_functional: "functional_world (obeys beh)"
  by (simp add: functional_world_def obeys_def)

lemma drive1_keeps: "drive1 E d beh c = Some c' \<Longrightarrow> c_deadline c' = c_deadline c"
  by (auto simp: drive1_def split: list.splits start_outcome.splits)

lemma drive_keeps: "c_deadline (drive n E d beh c) = c_deadline c"
  by (induction n E d beh c rule: drive.induct) (auto split: option.splits dest: drive1_keeps)

section \<open>A sample workflow\<close>

text \<open>
  A branch node \<open>a\<close> with edges labelled \<open>yes\<close> to \<open>b\<close> and \<open>no\<close> to \<open>c\<close>, both of which feed \<open>m\<close>.
\<close>

definition branch_nodes :: "workflow_node list" where
  "branch_nodes = [sample_node ''a'' ''t'', sample_node ''b'' ''t'', sample_node ''c'' ''t'', sample_node ''m'' ''t'']"

definition branch_edges :: "workflow_edge list" where
  "branch_edges = [sample_edge ''1'' ''a'' ''b'' (Some ''yes'') False, sample_edge ''2'' ''a'' ''c'' (Some ''no'') False,
     sample_edge ''3'' ''b'' ''m'' None False, sample_edge ''4'' ''c'' ''m'' None False]"

definition sample_libs :: parse_libs where
  "sample_libs = \<lparr> gjson_Get = (\<lambda>_ _. None), regexp_Compile = (\<lambda>_. True),
     FindStringSubmatch = (\<lambda>_ _. None), json_Marshal = (\<lambda>_. None) \<rparr>"

definition sample_env :: run_env where
  "sample_env = \<lparr> re_runID = ''run'', re_registry = \<lparr> nr_handlers = [(''t'', sample_handler ''t'' 0)], nr_closed = [] \<rparr>,
     re_mocks = [], re_libs = sample_libs \<rparr>"

definition sample_behaviour :: behaviour where
  "sample_behaviour i inp = \<lparr> at_call = (\<lambda>_. Returned [(''matched_rule'', VStr ''yes'')]), at_done = (\<lambda>_. False) \<rparr>"

definition branch_dag :: dag where
  "branch_dag = builtDag branch_nodes branch_edges"

definition branch_end :: cfg where
  "branch_end = drive 30 sample_env branch_dag sample_behaviour (initial_cfg sample_env branch_dag [])"

lemma branch_built: "Build branch_nodes branch_edges = Inr branch_dag"
proof -
  have "\<not> isl (Build branch_nodes branch_edges)" by code_simp
  then show ?thesis by (cases "Build branch_nodes branch_edges") (auto simp: branch_dag_def builtDag_def)
qed

lemma branch_plain: "plain_workflow branch_nodes" by code_simp

lemma branch_reach: "reach sample_env branch_dag (obeys sample_behaviour) [] branch_end"
  unfolding branch_end_def by (rule drive_reach) (rule reach.init)

lemma branch_facts:
  "finished branch_end" "firstErr (c_sup branch_end) = None" "spawned (c_sup branch_end) = [''a'', ''b'', ''m'']"
  "skipped (c_sup branch_end) = [''c'']" "\<not> c_deadline branch_end"
  by code_simp+

text \<open>
  Two independent nodes \<open>p\<close> and \<open>q\<close> that both feed \<open>m\<close>, run once in the order \<open>p\<close>, \<open>q\<close> and once
  with \<open>q\<close> first.
\<close>

definition join_nodes :: "workflow_node list" where
  "join_nodes = [sample_node ''p'' ''t'', sample_node ''q'' ''t'', sample_node ''m'' ''t'']"

definition join_edges :: "workflow_edge list" where
  "join_edges = [sample_edge ''1'' ''p'' ''m'' None False, sample_edge ''2'' ''q'' ''m'' None False]"

definition join_dag :: dag where
  "join_dag = builtDag join_nodes join_edges"

definition join_end :: cfg where
  "join_end = drive 30 sample_env join_dag sample_behaviour (initial_cfg sample_env join_dag [])"

definition q_input :: node_input where
  "q_input = \<lparr> UpstreamData = [(''_initial'', VMap [])], Config = None, DirectPredecessorIDs = [] \<rparr>"

definition q_first :: cfg where
  "q_first = (initial_cfg sample_env join_dag [])\<lparr> c_waiting := remove1 ''q'' (c_waiting (initial_cfg sample_env join_dag [])),
     c_running := c_running (initial_cfg sample_env join_dag []) @ [(''q'', q_input)],
     c_events := c_events (initial_cfg sample_env join_dag []) @ startEvents sample_env ''q'' (Begun q_input) \<rparr>"

definition join_end2 :: cfg where
  "join_end2 = drive 30 sample_env join_dag sample_behaviour q_first"

lemma join_built: "Build join_nodes join_edges = Inr join_dag"
proof -
  have "\<not> isl (Build join_nodes join_edges)" by code_simp
  then show ?thesis by (cases "Build join_nodes join_edges") (auto simp: join_dag_def builtDag_def)
qed

lemma join_plain: "plain_workflow join_nodes" by code_simp

lemma join_reach:
  "reach sample_env join_dag (obeys sample_behaviour) [] join_end" "reach sample_env join_dag (obeys sample_behaviour) [] join_end2"
proof -
  show "reach sample_env join_dag (obeys sample_behaviour) [] join_end"
    unfolding join_end_def by (rule drive_reach) (rule reach.init)
  have "''q'' \<in> set (c_waiting (initial_cfg sample_env join_dag []))" by code_simp
  moreover have "executeNode_start sample_env join_dag (ancestorsOf (c_sup (initial_cfg sample_env join_dag []))) (execCtx (c_sup (initial_cfg sample_env join_dag []))) ''q'' = Begun q_input"
    by code_simp
  ultimately have "step sample_env join_dag (obeys sample_behaviour) (initial_cfg sample_env join_dag []) q_first"
    unfolding q_first_def by (rule step.begin_node)
  with reach.init have "reach sample_env join_dag (obeys sample_behaviour) [] q_first" by (rule reach.move)
  then show "reach sample_env join_dag (obeys sample_behaviour) [] join_end2" unfolding join_end2_def by (rule drive_reach)
qed

section \<open>Properties of every run of a workflow without a loop controller\<close>

lemma plain_reach_inv:
  assumes "Build nodes edges = Inr d" "plain_workflow nodes" "reach E d world initData c"
  shows "\<exists>P ro. pd.cfg_inv nodes edges P ro c"
  using pd.reach_inv [of E nodes edges world initData c] assms plainDag_eq by metis

text \<open>
  C2. Dispatch discipline, for workflows without a loop controller. In every state a run can
  reach, under every interleaving and every handler behaviour: no node has been dispatched
  twice; the results still to come plus those received add up to the dispatches; and every
  ancestor of a dispatched node has either succeeded or been skipped.
\<close>

theorem run_dispatch_discipline:
  assumes "Build nodes edges = Inr d" "plain_workflow nodes" "reach E d world initData c"
  shows "distinct (spawned (c_sup c)) \<and>
    received (c_sup c) + length (outstanding c) = dispatched (c_sup c) \<and>
    (\<forall>v \<in> set (spawned (c_sup c)). \<forall>u \<in> set (d_Ancestors d v).
       (\<exists>out. map_of (nodeResults (c_sup c)) u = Some (Succeeded out)) \<or> u \<in> set (skipped (c_sup c)))"
proof -
  obtain P ro where inv: "pd.cfg_inv nodes edges P ro c" using plain_reach_inv [OF assms] by blast
  have e: "plainDag nodes edges = d" "plainEdges nodes edges = fwd edges" using plainDag_eq [OF assms(1,2)] by auto
  note s = pd.cfg_inv_sup [OF inv, unfolded e]
  have "u \<in> P \<union> set (skipped (c_sup c))" if "v \<in> set (spawned (c_sup c))" "u \<in> set (d_Ancestors d v)" for u v
  proof -
    have "v \<in> node_ids d" using s that(1) by (auto simp: sup_inv_def)
    then have "(u, v) \<in> (arcs (fwd edges))\<^sup>+" using pd.ancestors [of v nodes edges] that(2) by (simp add: e)
    from pd.settled_ancestors [of nodes edges, unfolded e, OF s this] that(1) show ?thesis by blast
  qed
  moreover have "\<exists>out. map_of (nodeResults (c_sup c)) u = Some (Succeeded out)" if "u \<in> P" for u
    using inv that by (simp add: pd.cfg_inv_def)
  moreover have "received (c_sup c) + length (outstanding c) = dispatched (c_sup c)"
    using pd.outstanding_le [OF inv] inv by (simp add: pd.cfg_inv_def)
  moreover have "distinct (spawned (c_sup c))" using s by (simp add: sup_inv_def)
  ultimately show ?thesis by blast
qed

theorem run_dispatch_discipline_witness:
  "distinct (spawned (c_sup branch_end)) \<and> set (spawned (c_sup branch_end)) = {''a'', ''b'', ''m''} \<and>
   received (c_sup branch_end) + length (outstanding branch_end) = dispatched (c_sup branch_end)"
  using run_dispatch_discipline [OF branch_built branch_plain branch_reach] branch_facts by simp

text \<open>
  C3. Completion, for workflows without a loop controller. When a run has ended without a
  failure, every node of the workflow has either succeeded or been skipped, and never both.
\<close>

theorem run_completes:
  assumes "Build nodes edges = Inr d" "plain_workflow nodes" "reach E d world initData c"
    and "finished c" "firstErr (c_sup c) = None" "v \<in> wn_ID ` set nodes"
  shows "(\<exists>out. map_of (nodeResults (c_sup c)) v = Some (Succeeded out)) \<noteq> (v \<in> set (skipped (c_sup c)))"
proof -
  obtain P ro where inv: "pd.cfg_inv nodes edges P ro c" using plain_reach_inv [OF assms(1-3)] by blast
  have e: "plainDag nodes edges = d" "plainEdges nodes edges = fwd edges" using plainDag_eq [OF assms(1,2)] by auto
  note s = pd.cfg_inv_sup [OF inv, unfolded e]
  have o: "outstanding c = []" using pd.finished_iff [OF inv] assms(4) by blast
  note all = pd.all_settled [OF inv o assms(5), unfolded e]
  have v: "v \<in> node_ids d" using assms(6) Build_ids [OF assms(1)] by blast
  have P: "P = fst ` set (nodeResults (c_sup c))" "\<forall>u \<in> P. \<exists>out. map_of (nodeResults (c_sup c)) u = Some (Succeeded out)"
    using inv assms(5) by (simp_all add: pd.cfg_inv_def)
  have disj: "u \<notin> set (skipped (c_sup c))" if "u \<in> P" for u using s that all(1) by (auto simp: sup_inv_def)
  show ?thesis
  proof (cases "v \<in> P")
    case True
    with P(2) disj show ?thesis by blast
  next
    case False
    with P(1) have "map_of (nodeResults (c_sup c)) v = None" by (simp add: map_of_None_iff)
    with False all(2) v show ?thesis by auto
  qed
qed

theorem run_completes_witness:
  "(\<exists>out. map_of (nodeResults (c_sup branch_end)) ''c'' = Some (Succeeded out)) \<noteq> (''c'' \<in> set (skipped (c_sup branch_end))) \<and>
   (\<exists>out. map_of (nodeResults (c_sup branch_end)) ''m'' = Some (Succeeded out)) \<noteq> (''m'' \<in> set (skipped (c_sup branch_end)))"
proof -
  note r = run_completes [OF branch_built branch_plain branch_reach branch_facts(1,2)]
  have "''c'' \<in> wn_ID ` set branch_nodes" "''m'' \<in> wn_ID ` set branch_nodes"
    by (simp_all add: branch_nodes_def sample_node_def)
  from r [OF this(1)] r [OF this(2)] show ?thesis by blast
qed

text \<open>
  C4. Termination, for workflows without a loop controller and handlers that always return. A
  run that has not ended can always make a step, and every step except the expiry of the
  deadline uses up some of a bounded amount of work, at most three steps per node: a run cannot
  hang and cannot go on forever. No goroutine ever waits for room in the result channel.
\<close>

theorem run_terminates:
  assumes "Build nodes edges = Inr d" "plain_workflow nodes" "reach E d world initData c"
    and "\<forall>i inp. \<exists>w. world i inp w"
  shows "(finished c \<or> (\<exists>c'. step E d world c c' \<and> work d c' < work d c)) \<and>
    (\<forall>c'. step E d world c c' \<longrightarrow> work d c' < work d c \<or> c' = c\<lparr>c_cancelled := True, c_deadline := True\<rparr>) \<and>
    (c_waiting c \<noteq> [] \<or> c_running c \<noteq> [] \<longrightarrow> room d c) \<and>
    work d (initial_cfg E d initData) \<le> 3 * length (d_Nodes d)"
proof -
  obtain P ro where inv: "pd.cfg_inv nodes edges P ro c" using plain_reach_inv [OF assms(1-3)] by blast
  have e: "plainDag nodes edges = d" using plainDag_eq [OF assms(1,2)] by auto
  have i0: "pd.cfg_inv nodes edges {} ro (initial_cfg E d initData)" using pd.initial_inv [of nodes edges] by (simp add: e)
  have "dispatched (startRun d initData) = length (spawned (startRun d initData))"
    using i0 by (simp add: pd.cfg_inv_def sup_inv_def initial_cfg_def)
  with pd.spawned_le [OF i0] have "work d (initial_cfg E d initData) \<le> 3 * length (d_Nodes d)"
    by (simp add: work_def initial_cfg_def e)
  with pd.step_possible [OF inv] pd.step_work [OF _ inv] pd.always_room [OF inv] assms(4) show ?thesis
    unfolding e by blast
qed

theorem run_terminates_witness:
  "work branch_dag (initial_cfg sample_env branch_dag []) \<le> 3 * length (d_Nodes branch_dag) \<and>
   (\<exists>c'. step sample_env branch_dag (obeys sample_behaviour) (initial_cfg sample_env branch_dag []) c' \<and>
         work branch_dag c' < work branch_dag (initial_cfg sample_env branch_dag []))"
proof -
  have w: "\<forall>i inp. \<exists>w. obeys sample_behaviour i inp w" by (simp add: obeys_def)
  have "\<not> finished (initial_cfg sample_env branch_dag [])" by code_simp
  with run_terminates [OF branch_built branch_plain reach.init w] show ?thesis by blast
qed

text \<open>
  C1. Schedule independence. Take a workflow without a loop controller in which no node uses a
  reserved name, and suppose a handler's outcome is a function of its node and its input. Take
  any two finished runs of it that the deadline did not cut short, whatever the order in which
  goroutines were scheduled. If one succeeds so does the other; and if they succeed, they skip
  the same nodes, store the same output for every node, and \<open>runDAG\<close> returns the
  same value. Which error a failing run reports, and what it had stored by then, may depend on
  the schedule.
\<close>

theorem run_schedule_independent:
  assumes "Build nodes edges = Inr d" "plain_workflow nodes" "functional_world world"
    and "''_initial'' \<notin> wn_ID ` set nodes" "''_loop_state'' \<notin> wn_ID ` set nodes"
    and "reach E d world initData c" "finished c" "\<not> c_deadline c"
    and "reach E d world initData c'" "finished c'" "\<not> c_deadline c'"
  shows "(firstErr (c_sup c) = None) = (firstErr (c_sup c') = None) \<and>
    (firstErr (c_sup c) = None \<longrightarrow>
       set (skipped (c_sup c)) = set (skipped (c_sup c')) \<and>
       (\<forall>v \<in> wn_ID ` set nodes. map_of (execCtx (c_sup c)) v = map_of (execCtx (c_sup c')) v) \<and>
       finishRun d (c_sup c) = finishRun d (c_sup c'))"
proof -
  have e: "plainDag nodes edges = d" "plainEdges nodes edges = fwd edges" using plainDag_eq [OF assms(1,2)] by auto
  note ids = Build_ids [OF assms(1)]
  have d1: "\<exists>P res. pd.det_inv nodes edges E world initData P res c"
    using pd.reach_det [of E nodes edges world initData c] assms(4-6,8) ids by (simp add: e)
  have d2: "\<exists>P res. pd.det_inv nodes edges E world initData P res c'"
    using pd.reach_det [of E nodes edges world initData c'] assms(4,5,9,11) ids by (simp add: e)
  obtain P res P' res' where d: "pd.det_inv nodes edges E world initData P res c" "pd.det_inv nodes edges E world initData P' res' c'"
    using d1 d2 by blast
  have o: "outstanding c = []" "outstanding c' = []"
    using plain_reach_inv [OF assms(1,2,6)] plain_reach_inv [OF assms(1,2,9)] pd.finished_iff assms(7,10) by blast+
  note A = pd.finished_agree [OF d(1) o(1) _ d(2) o(2) assms(3), unfolded e]
    and B = pd.finished_agree [OF d(2) o(2) _ d(1) o(1) assms(3), unfolded e]
  have "finishRun d (c_sup c) = finishRun d (c_sup c')"
    if f: "firstErr (c_sup c) = None" "firstErr (c_sup c') = None"
  proof -
    have "sinkOutputs d (execCtx (c_sup c)) = sinkOutputs d (execCtx (c_sup c'))"
      by (rule sinkOutputs_cong) (use A(2) [OF f(1)] in \<open>simp add: node_ids_def\<close>)
    moreover have "skipped (c_sup c) = [] \<longleftrightarrow> skipped (c_sup c') = []" using A(3) [OF f(1)] by (metis set_empty)
    ultimately show ?thesis using A(3) [OF f(1)] by (simp add: finishRun_def f)
  qed
  then show ?thesis using A B ids by auto
qed

theorem run_schedule_independent_witness:
  "map fst (nodeResults (c_sup join_end)) = [''p'', ''q'', ''m''] \<and> map fst (nodeResults (c_sup join_end2)) = [''q'', ''p'', ''m''] \<and>
   finishRun join_dag (c_sup join_end) = finishRun join_dag (c_sup join_end2)"
proof -
  have n: "''_initial'' \<notin> wn_ID ` set join_nodes" "''_loop_state'' \<notin> wn_ID ` set join_nodes"
    by (simp_all add: join_nodes_def sample_node_def)
  have f: "finished join_end" "\<not> c_deadline join_end" "finished join_end2" "\<not> c_deadline join_end2"
    "firstErr (c_sup join_end) = None" "map fst (nodeResults (c_sup join_end)) = [''p'', ''q'', ''m'']"
    "map fst (nodeResults (c_sup join_end2)) = [''q'', ''p'', ''m'']"
    by code_simp+
  from run_schedule_independent [OF join_built join_plain obeys_functional n join_reach(1) f(1,2) join_reach(2) f(3,4)] f(5-7)
  show ?thesis by simp
qed

end
