(* ===== verification/Runner_Loops.thy ===== *)
theory Runner_Loops
  imports Runner_Props
begin

text \<open>
  Properties of the runner on every graph, loop controllers included: a failure stops all
  scheduling, the supervisor always digests a result, the number of loop iterations respects
  the configured maximum, what one iteration resets and starts; and the retry loop of a single
  node.
\<close>

section \<open>Loop iterations\<close>

lemma dispatch_keeps [simp]:
  "execCtx (dispatch i s) = execCtx s" "nodeResults (dispatch i s) = nodeResults s" "received (dispatch i s) = received s"
  "firstErr (dispatch i s) = firstErr s" "ancestorsOf (dispatch i s) = ancestorsOf s" "loopIterations (dispatch i s) = loopIterations s"
  by (simp_all add: dispatch_def)

lemma addAncestor_keeps [simp]:
  "pending (addAncestor c a s) = pending s" "skipped (addAncestor c a s) = skipped s" "hasLive (addAncestor c a s) = hasLive s"
  "loopIterations (addAncestor c a s) = loopIterations s" "execCtx (addAncestor c a s) = execCtx s"
  "spawned (addAncestor c a s) = spawned s" "dispatched (addAncestor c a s) = dispatched s" "firstErr (addAncestor c a s) = firstErr s"
  by (simp_all add: addAncestor_def)

lemma addAncestor_set: "set (ancestorsOf (addAncestor c a s) c) = insert a (set (ancestorsOf s c))"
  by (auto simp: addAncestor_def sliceContains_def)

lemma addAncestors_keeps [simp]:
  "pending (fold (addAncestor c) bs s) = pending s" "skipped (fold (addAncestor c) bs s) = skipped s"
  "hasLive (fold (addAncestor c) bs s) = hasLive s" "loopIterations (fold (addAncestor c) bs s) = loopIterations s"
  "execCtx (fold (addAncestor c) bs s) = execCtx s" "spawned (fold (addAncestor c) bs s) = spawned s"
  "dispatched (fold (addAncestor c) bs s) = dispatched s" "firstErr (fold (addAncestor c) bs s) = firstErr s"
  by (induction bs arbitrary: s) simp_all

lemma addAncestors_set: "set (ancestorsOf (fold (addAncestor c) bs s) c) = set bs \<union> set (ancestorsOf s c)"
  by (induction bs arbitrary: s) (auto simp: addAncestor_set)

lemma resetBodyNodes [simp]:
  "loopIterations (fold (resetBodyNode d body) bs s) = loopIterations s" "execCtx (fold (resetBodyNode d body) bs s) = execCtx s"
  "spawned (fold (resetBodyNode d body) bs s) = spawned s" "ancestorsOf (fold (resetBodyNode d body) bs s) = ancestorsOf s"
  "dispatched (fold (resetBodyNode d body) bs s) = dispatched s" "firstErr (fold (resetBodyNode d body) bs s) = firstErr s"
  by (induction bs arbitrary: s) (simp_all add: resetBodyNode_def)

lemma resetBodyNodes_pending:
  "pending (fold (resetBodyNode d body) bs s) x = (if x \<in> set bs then countBodyInternalPredecessors d x body else pending s x)"
  by (induction bs arbitrary: s) (auto simp: resetBodyNode_def)

lemma resetBodyNodes_skipped: "set (skipped (fold (resetBodyNode d body) bs s)) = set (skipped s) - set bs"
  by (induction bs arbitrary: s) (auto simp: resetBodyNode_def)

lemma startBodyRoots:
  "pending (fold startBodyRoot bs s) = pending s" "skipped (fold startBodyRoot bs s) = skipped s"
  "loopIterations (fold startBodyRoot bs s) = loopIterations s" "execCtx (fold startBodyRoot bs s) = execCtx s"
  "ancestorsOf (fold startBodyRoot bs s) = ancestorsOf s" "firstErr (fold startBodyRoot bs s) = firstErr s"
  "spawned (fold startBodyRoot bs s) = spawned s @ filter (\<lambda>b. pending s b = 0) bs"
  by (induction bs arbitrary: s) (simp_all add: startBodyRoot_def)

lemma fireLoopBacks_keeps [simp]:
  "firstErr (fold (fireLoopBack i) es s) = firstErr s" "loopIterations (fold (fireLoopBack i) es s) = loopIterations s"
  by (induction es arbitrary: s) (simp_all add: fireLoopBack_def Let_def)

text \<open>What one iteration does, on the branch that iterates and on the branch that leaves.\<close>

lemma handleLoopIteration_again:
  assumes "str_or_empty (map_of (routingOutput r) ''action'') = ''loop_body''"
    and "loopIterations s (nodeID r) < maxIterFromConfig (wn_Config (nodeAt d (nodeID r)))"
    and "handleLoopIteration d r s = (s', again)" and "nodeID r \<notin> set (bodyOf d (nodeID r))"
  shows "again" "loopIterations s' = (loopIterations s)(nodeID r := loopIterations s (nodeID r) + 1)" "firstErr s' = firstErr s"
    "\<And>b. b \<in> set (bodyOf d (nodeID r)) \<Longrightarrow> pending s' b = countBodyInternalPredecessors d b (bodyOf d (nodeID r)) \<and>
        b \<notin> set (skipped s') \<and> b \<in> set (ancestorsOf s' (nodeID r))"
    "pending s' (nodeID r) = int (length (filter (\<lambda>e. we_TargetID e = nodeID r) (d_LoopBackEdges d)))"
    "spawned s' = spawned s @ filter (\<lambda>b. countBodyInternalPredecessors d b (bodyOf d (nodeID r)) = 0) (bodyOf d (nodeID r))"
    "map_of (execCtx s') ''_loop_state'' = Some [(''iteration'', VInt (loopIterations s (nodeID r) + 1))]"
    "''_loop_state'' \<in> set (ancestorsOf s' (nodeID r))"
proof -
  let ?c = "nodeID r" and ?body = "bodyOf d (nodeID r)"
  define s4 where "s4 = fold (addAncestor ?c) ?body (addAncestor ?c ''_loop_state''
     (s\<lparr>loopIterations := (loopIterations s)(?c := loopIterations s ?c + 1),
        execCtx := ctx_set ''_loop_state'' [(''iteration'', VInt (loopIterations s ?c + 1))] (execCtx s)\<rparr>))"
  define s6 where "s6 = (let s5 = fold (resetBodyNode d ?body) ?body s4
     in s5\<lparr>pending := (pending s5)(?c := int (length (filter (\<lambda>e. we_TargetID e = ?c) (d_LoopBackEdges d))))\<rparr>)"
  have s': "s' = fold startBodyRoot ?body s6" "again"
    using assms(1-3) by (simp_all add: handleLoopIteration_def Let_def s4_def s6_def)
  have p: "b \<in> set ?body \<Longrightarrow> pending s6 b = countBodyInternalPredecessors d b ?body" for b
    using assms(4) by (auto simp: s6_def Let_def resetBodyNodes_pending)
  show "again" by (rule s')
  show "loopIterations s' = (loopIterations s)(?c := loopIterations s ?c + 1)" "firstErr s' = firstErr s"
    by (simp_all add: s'(1) startBodyRoots s6_def s4_def Let_def)
  show "pending s' b = countBodyInternalPredecessors d b ?body \<and> b \<notin> set (skipped s') \<and> b \<in> set (ancestorsOf s' ?c)"
    if "b \<in> set ?body" for b
    using that p by (simp add: s'(1) startBodyRoots) (simp add: s6_def s4_def Let_def resetBodyNodes_skipped addAncestors_set)
  show "pending s' ?c = int (length (filter (\<lambda>e. we_TargetID e = ?c) (d_LoopBackEdges d)))"
    "map_of (execCtx s') ''_loop_state'' = Some [(''iteration'', VInt (loopIterations s ?c + 1))]"
    "''_loop_state'' \<in> set (ancestorsOf s' ?c)"
    by (simp_all add: s'(1) startBodyRoots s6_def s4_def Let_def addAncestors_set addAncestor_set)
  have "filter (\<lambda>b. pending s6 b = 0) ?body = filter (\<lambda>b. countBodyInternalPredecessors d b ?body = 0) ?body"
    using p by (auto intro: filter_cong)
  then show "spawned s' = spawned s @ filter (\<lambda>b. countBodyInternalPredecessors d b ?body = 0) ?body"
    by (simp add: s'(1) startBodyRoots) (simp add: s6_def s4_def Let_def)
qed

lemma handleLoopIteration_leave:
  assumes "handleLoopIteration d r s = (s', False)"
  shows "s' = s\<lparr>skipped := fold List.insert (bodyOf d (nodeID r)) (skipped s)\<rparr>"
  using assms by (auto simp: handleLoopIteration_def Let_def split: if_splits)

lemma handleLoopIteration_keeps:
  assumes "handleLoopIteration d r s = (s', again)"
  shows "firstErr s' = firstErr s \<and> (\<forall>c. loopIterations s' c = loopIterations s c \<or>
    c = nodeID r \<and> loopIterations s' c = loopIterations s c + 1 \<and> loopIterations s c < maxIterFromConfig (wn_Config (nodeAt d c)))"
  using assms by (auto simp: handleLoopIteration_def Let_def startBodyRoots split: if_splits)

lemma receive_keeps:
  assumes "receive d r s = Some s'"
  shows "(err r = None \<and> firstErr s = None \<longrightarrow> firstErr s' = None) \<and> (\<forall>c. loopIterations s' c = loopIterations s c \<or>
    loopIterations s' c = loopIterations s c + 1 \<and> loopIterations s c < maxIterFromConfig (wn_Config (nodeAt d c)))"
proof (cases "err r = None \<and> firstErr s = None")
  case False
  then show ?thesis using assms by (auto simp: receive_def Let_def split: option.splits)
next
  case True
  let ?s1 = "s\<lparr> received := received s + 1, nodeResults := AList.update (nodeID r) (Succeeded (nodeOutput r)) (nodeResults s),
     execCtx := ctx_set (nodeID r) (nodeOutput r) (execCtx s) \<rparr>"
  obtain s2 again where h: "(if wn_TypeID (nodeAt d (nodeID r)) = loopControllerTypeID then handleLoopIteration d r ?s1 else (?s1, False)) = (s2, again)"
    by fastforce
  have k: "firstErr s2 = None \<and> (\<forall>c. loopIterations s2 c = loopIterations s c \<or>
    loopIterations s2 c = loopIterations s c + 1 \<and> loopIterations s c < maxIterFromConfig (wn_Config (nodeAt d c)))"
    using h True handleLoopIteration_keeps [of d r ?s1 s2 again] by (auto split: if_splits)
  show ?thesis
  proof (cases again)
    case True
    with h assms \<open>err r = None \<and> firstErr s = None\<close> have "s' = s2" by (auto simp: receive_def Let_def split: if_splits)
    with k show ?thesis by simp
  next
    case False
    with h assms True obtain s3 where r: "routeEdges (Suc (length (d_Nodes d))) d (wn_TypeID (nodeAt d (nodeID r))) (routingOutput r) (d_OutEdges d (nodeID r)) s2 = Some s3"
      and s': "s' = fold (fireLoopBack (nodeID r)) (d_LoopBackEdges d) s3"
      by (auto simp: receive_def Let_def split: option.splits if_splits)
    from routeEdges_grows [OF r] k s' show ?thesis by (simp add: grows_def same_rest_def)
  qed
qed

section \<open>Retries\<close>

text \<open>Attempt \<open>b\<close> of a node failed, and the pause before it was not cut short.\<close>

definition failed_at :: "attempts \<Rightarrow> nat \<Rightarrow> bool" where
  "failed_at w b \<longleftrightarrow> (b = 0 \<or> \<not> at_done w b) \<and> (\<exists>e. at_call w b = Errored e)"

lemma retryLoop_all_fail:
  "(\<And>b. a \<le> b \<Longrightarrow> b < a + n \<Longrightarrow> failed_at w b) \<Longrightarrow>
   retryLoop n a ms w lastErr ps =
     (ps @ map (retryDelay ms) (filter (\<lambda>b. b > 0) [a..<a + n]),
      if n = 0 then (case lastErr of None \<Rightarrow> RetryOk [] | Some e \<Rightarrow> RetryErr e)
      else RetryErr (HandlerError (case at_call w (a + n - 1) of Errored e \<Rightarrow> e | _ \<Rightarrow> [])))"
proof (induction n arbitrary: a lastErr ps)
  case (Suc n)
  from Suc.prems [of a] obtain e where e: "at_call w a = Errored e" "a = 0 \<or> \<not> at_done w a"
    by (auto simp: failed_at_def)
  have up: "[a..<a + Suc n] = a # [Suc a..<Suc a + n]" by (simp add: upt_conv_Cons)
  from Suc.IH [of "Suc a" "Some (HandlerError e)" "if a > 0 then ps @ [retryDelay ms a] else ps"] Suc.prems e
  show ?case unfolding up by (cases n) auto
qed simp

lemma retryLoop_success:
  "(\<And>b. a \<le> b \<Longrightarrow> b < a + k \<Longrightarrow> failed_at w b) \<Longrightarrow> k < n \<Longrightarrow> at_call w (a + k) = Returned out \<Longrightarrow>
   a + k = 0 \<or> \<not> at_done w (a + k) \<Longrightarrow>
   retryLoop n a ms w lastErr ps = (ps @ map (retryDelay ms) (filter (\<lambda>b. b > 0) [a..<Suc (a + k)]), RetryOk out)"
proof (induction k arbitrary: n a lastErr ps)
  case 0
  then obtain m where "n = Suc m" by (cases n) auto
  with 0 show ?case by auto
next
  case (Suc k)
  then obtain m where n: "n = Suc m" by (cases n) auto
  from Suc.prems(1) [of a] obtain e where e: "at_call w a = Errored e" "a = 0 \<or> \<not> at_done w a"
    by (auto simp: failed_at_def)
  have up: "[a..<Suc (a + Suc k)] = a # [Suc a..<Suc (Suc a + k)]" by (simp add: upt_conv_Cons)
  from Suc.IH [of "Suc a" m "Some (HandlerError e)" "if a > 0 then ps @ [retryDelay ms a] else ps"] Suc.prems n e
  show ?case unfolding up by auto
qed

section \<open>Properties\<close>

text \<open>
  C5. Fail fast. No step that ends in a state with a recorded failure dispatches a node, on
  any graph: the failing result itself schedules nothing, and neither does anything received
  after it. The first failure is never overwritten.
\<close>

theorem run_fail_fast:
  assumes "step E d world c c'" "firstErr (c_sup c') \<noteq> None"
  shows "spawned (c_sup c') = spawned (c_sup c) \<and> dispatched (c_sup c') = dispatched (c_sup c) \<and>
    set (c_waiting c') \<subseteq> set (c_waiting c) \<and>
    (firstErr (c_sup c) \<noteq> None \<longrightarrow> firstErr (c_sup c') = firstErr (c_sup c))"
  using assms(1)
proof (cases rule: step.cases)
  case (recv r rest s')
  have "err r \<noteq> None \<or> firstErr (c_sup c) \<noteq> None"
    using receive_keeps [OF recv(3)] assms(2) recv(1) by auto
  note N = receive_no_schedule [OF recv(3) this]
  from recv(1) N(4,5,8) show ?thesis by (auto simp: fresh_def split: option.splits)
qed (use set_remove1_subset in fastforce)+

definition failing_behaviour :: behaviour where
  "failing_behaviour i inp = \<lparr> at_call = (\<lambda>_. Errored ''boom''), at_done = (\<lambda>_. False) \<rparr>"

definition failing_before :: cfg where
  "failing_before = drive 2 sample_env branch_dag failing_behaviour (initial_cfg sample_env branch_dag [])"

definition failing_after :: cfg where
  "failing_after = drive 3 sample_env branch_dag failing_behaviour (initial_cfg sample_env branch_dag [])"

theorem run_fail_fast_witness:
  "firstErr (c_sup failing_after) = Some (HandlerError ''boom'') \<and> spawned (c_sup failing_after) = spawned (c_sup failing_before) \<and>
   set (c_waiting failing_after) \<subseteq> set (c_waiting failing_before)"
proof -
  have d: "drive1 sample_env branch_dag failing_behaviour failing_before = Some failing_after"
  proof -
    have "drive1 sample_env branch_dag failing_behaviour failing_before \<noteq> None" by code_simp
    moreover have "drive 3 E' d' b' c0 = (case drive1 E' d' b' (drive 2 E' d' b' c0) of None \<Rightarrow> drive 2 E' d' b' c0 | Some c' \<Rightarrow> c')"
      if "drive1 E' d' b' c0 \<noteq> None" "drive1 E' d' b' (the (drive1 E' d' b' c0)) \<noteq> None" for E' d' b' c0
      using that by (auto simp: numeral_3_eq_3 numeral_2_eq_2 split: option.splits)
    moreover have "drive1 sample_env branch_dag failing_behaviour (initial_cfg sample_env branch_dag []) \<noteq> None"
      "drive1 sample_env branch_dag failing_behaviour (the (drive1 sample_env branch_dag failing_behaviour (initial_cfg sample_env branch_dag []))) \<noteq> None"
      by code_simp+
    ultimately show ?thesis by (auto simp: failing_before_def failing_after_def split: option.splits)
  qed
  have f: "firstErr (c_sup failing_after) = Some (HandlerError ''boom'')" by code_simp
  with run_fail_fast [OF drive1_step [OF d]] show ?thesis by simp
qed

text \<open>
  C6. The supervisor never gets stuck on a result: on every graph that \<open>Build\<close> accepts, loops
  included, and in every state, \<open>receive\<close> returns; the recursion of \<open>propagateSkip\<close> ends.
\<close>

theorem receive_returns:
  assumes "Build nodes edges = Inr d"
  shows "\<exists>s'. receive d r s = Some s'"
  using bd.receive_total [of nodes edges r s] builtDag_Inr [OF assms] by simp

theorem receive_returns_witness:
  "\<exists>s'. receive branch_dag \<lparr>nodeID = ''a'', nodeOutput = [], routingOutput = [], err = None\<rparr> (startRun branch_dag []) = Some s'"
  by (rule receive_returns [OF branch_built])

text \<open>
  The iterations of a run, counted from outside: a received result restarts the loop of its
  controller when \<open>handleLoopIteration\<close> starts a node or asks the supervisor to skip the
  ordinary routing. \<open>loop_run\<close> counts the restarts of every controller along the steps of a
  run, without looking at \<open>loopIterations\<close>.
\<close>

definition restarts :: "dag \<Rightarrow> node_result \<Rightarrow> sup \<Rightarrow> bool" where
  "restarts d r s \<longleftrightarrow> err r = None \<and> firstErr s = None \<and> wn_TypeID (nodeAt d (nodeID r)) = loopControllerTypeID \<and>
     (let (s', again) = handleLoopIteration d r s in again \<or> spawned s' \<noteq> spawned s)"

definition restartStep :: "dag \<Rightarrow> cfg \<Rightarrow> cfg \<Rightarrow> string \<Rightarrow> bool" where
  "restartStep d c c' i \<longleftrightarrow> (case c_chan c of [] \<Rightarrow> False | r # rest \<Rightarrow> c_chan c' = rest \<and> nodeID r = i \<and> restarts d r (c_sup c))"

inductive loop_run :: "run_env \<Rightarrow> dag \<Rightarrow> world \<Rightarrow> gomap \<Rightarrow> (string \<Rightarrow> nat) \<Rightarrow> cfg \<Rightarrow> bool" for E d world initData where
  start: "loop_run E d world initData (\<lambda>_. 0) (initial_cfg E d initData)"
| move: "loop_run E d world initData n c \<Longrightarrow> step E d world c c' \<Longrightarrow>
    loop_run E d world initData (\<lambda>i. if restartStep d c c' i then Suc (n i) else n i) c'"

lemma restarts_iff:
  "restarts d r s \<longleftrightarrow> err r = None \<and> firstErr s = None \<and> wn_TypeID (nodeAt d (nodeID r)) = loopControllerTypeID \<and>
     str_or_empty (map_of (routingOutput r) ''action'') = ''loop_body'' \<and>
     loopIterations s (nodeID r) < maxIterFromConfig (wn_Config (nodeAt d (nodeID r)))"
  by (auto simp: restarts_def handleLoopIteration_def Let_def)

lemma receive_restarts:
  assumes "receive d r s = Some s'"
  shows "loopIterations s' = (if restarts d r s then (loopIterations s)(nodeID r := loopIterations s (nodeID r) + 1) else loopIterations s)"
proof (cases "err r = None \<and> firstErr s = None")
  case False
  then show ?thesis using assms by (auto simp: receive_def restarts_iff Let_def split: option.splits)
next
  case True
  let ?s1 = "s\<lparr> received := received s + 1, nodeResults := AList.update (nodeID r) (Succeeded (nodeOutput r)) (nodeResults s),
     execCtx := ctx_set (nodeID r) (nodeOutput r) (execCtx s) \<rparr>"
  obtain s2 again where h: "(if wn_TypeID (nodeAt d (nodeID r)) = loopControllerTypeID then handleLoopIteration d r ?s1 else (?s1, False)) = (s2, again)"
    by fastforce
  have k: "loopIterations s2 = (if restarts d r s then (loopIterations s)(nodeID r := loopIterations s (nodeID r) + 1) else loopIterations s)"
    "again = restarts d r s"
    using h True by (auto simp: restarts_iff handleLoopIteration_def Let_def startBodyRoots split: if_splits)
  show ?thesis
  proof (cases again)
    case True
    with h assms \<open>err r = None \<and> firstErr s = None\<close> have "s' = s2" by (auto simp: receive_def Let_def split: if_splits)
    with k show ?thesis by simp
  next
    case False
    with h assms True obtain s3 where r: "routeEdges (Suc (length (d_Nodes d))) d (wn_TypeID (nodeAt d (nodeID r))) (routingOutput r) (d_OutEdges d (nodeID r)) s2 = Some s3"
      and s': "s' = fold (fireLoopBack (nodeID r)) (d_LoopBackEdges d) s3"
      by (auto simp: receive_def Let_def split: option.splits if_splits)
    from routeEdges_grows [OF r] k s' show ?thesis by (simp add: grows_def same_rest_def)
  qed
qed

lemma startRun_loopIterations: "loopIterations (startRun d initData) = (\<lambda>_. 0)"
proof -
  have "loopIterations (fold (\<lambda>i s. if pending s i = 0 then dispatch i s else s) is s) = loopIterations s" for "is" s
    by (induction "is" arbitrary: s) auto
  then show ?thesis by (simp add: startRun_def Let_def)
qed

lemma restartStep_iterations:
  assumes "step E d world c c'"
  shows "loopIterations (c_sup c') i = loopIterations (c_sup c) i + (if restartStep d c c' i then 1 else 0) \<and>
    (restartStep d c c' i \<longrightarrow> loopIterations (c_sup c) i < maxIterFromConfig (wn_Config (nodeAt d i)))"
  using assms
proof (cases rule: step.cases)
  case (recv r rest s')
  then show ?thesis using receive_restarts [OF recv(3)] by (auto simp: restartStep_def restarts_iff)
qed (auto simp: restartStep_def split: list.splits)

lemma loop_run_counts:
  "loop_run E d world initData n c \<Longrightarrow>
     int (n i) = loopIterations (c_sup c) i \<and> int (n i) \<le> max 0 (maxIterFromConfig (wn_Config (nodeAt d i)))"
proof (induction rule: loop_run.induct)
  case start
  then show ?case by (simp add: initial_cfg_def startRun_loopIterations)
next
  case (move n c c')
  from restartStep_iterations [OF move.hyps(2), of i] move.IH show ?case by auto
qed

lemma loop_run_reach: "reach E d world initData c \<Longrightarrow> \<exists>n. loop_run E d world initData n c"
  by (induction rule: reach.induct) (blast intro: loop_run.intros)+

text \<open>
  C7. Iteration limit. Along every run, on every graph, the number of received results that
  restart the loop of a controller (the supervisor starts the body again instead of routing) is
  at most the controller's configured \<open>max_iterations\<close> (ten by default), and zero when that limit
  is negative; it is the number kept in \<open>loopIterations\<close>. Every reachable state is reached by
  such a counted run.
\<close>

theorem loop_iterations_bounded:
  assumes "reach E d world initData c"
  shows "(\<exists>n. loop_run E d world initData n c) \<and>
    (\<forall>n i. loop_run E d world initData n c \<longrightarrow>
       int (n i) \<le> max 0 (maxIterFromConfig (wn_Config (nodeAt d i))) \<and> loopIterations (c_sup c) i = int (n i))"
  using loop_run_reach [OF assms] loop_run_counts by (metis (no_types, lifting))

text \<open>A loop whose controller always asks for another iteration, limited to two.\<close>

definition looping_nodes :: "workflow_node list" where
  "looping_nodes = [sample_node ''x'' ''t'', sample_node ''b'' ''t'',
     (sample_node ''c'' loopControllerTypeID)\<lparr>wn_Config := Some [(''max_iterations'', VInt 2)]\<rparr>, sample_node ''s'' ''t'']"

definition looping_dag :: dag where
  "looping_dag = builtDag looping_nodes loop_edges"

definition looping_env :: run_env where
  "looping_env = sample_env\<lparr> re_registry := \<lparr> nr_handlers = [(''t'', sample_handler ''t'' 0), (loopControllerTypeID, sample_handler loopControllerTypeID 1)], nr_closed = [] \<rparr> \<rparr>"

definition looping_behaviour :: behaviour where
  "looping_behaviour i inp = \<lparr> at_call = (\<lambda>_. Returned [(''action'', VStr ''loop_body'')]), at_done = (\<lambda>_. False) \<rparr>"

definition looping_end :: cfg where
  "looping_end = drive 60 looping_env looping_dag looping_behaviour (initial_cfg looping_env looping_dag [])"

lemma looping_reach: "reach looping_env looping_dag (obeys looping_behaviour) [] looping_end"
  unfolding looping_end_def by (rule drive_reach) (rule reach.init)

theorem loop_iterations_bounded_witness:
  "\<exists>n. loop_run looping_env looping_dag (obeys looping_behaviour) [] n looping_end \<and> n ''c'' = 2 \<and>
     maxIterFromConfig (wn_Config (nodeAt looping_dag ''c'')) = 2"
proof -
  note B = loop_iterations_bounded [OF looping_reach]
  have "loopIterations (c_sup looping_end) ''c'' = 2" "maxIterFromConfig (wn_Config (nodeAt looping_dag ''c'')) = 2"
    by code_simp+
  moreover from B obtain n where "loop_run looping_env looping_dag (obeys looping_behaviour) [] n looping_end" by blast
  ultimately show ?thesis using conjunct2 [OF B] by fastforce
qed

text \<open>
  One iteration. When a controller's result asks for the loop body and the limit is not
  reached, the supervisor grants the iteration: every body node gets the count of its
  predecessors inside the body, is no longer skipped and becomes visible to the controller,
  exactly the body nodes without a predecessor inside the body are started, the controller
  waits for its loop-back edges, and the next iteration number is visible to it. Otherwise
  nothing is started and the whole body counts as skipped.
\<close>

theorem loop_iteration_effect:
  assumes "Build nodes edges = Inr d" and "n \<in> set nodes" and "wn_TypeID n = loopControllerTypeID" and "nodeID r = wn_ID n"
    and "handleLoopIteration d r s = (s', again)"
  defines "body \<equiv> bodyOf d (wn_ID n)"
    and "granted \<equiv> str_or_empty (map_of (routingOutput r) ''action'') = ''loop_body'' \<and>
      loopIterations s (wn_ID n) < maxIterFromConfig (wn_Config (nodeAt d (wn_ID n)))"
  shows "again = granted \<and>
    (granted \<longrightarrow>
       (\<forall>b \<in> set body. pending s' b = countBodyInternalPredecessors d b body \<and> b \<notin> set (skipped s') \<and> b \<in> set (ancestorsOf s' (wn_ID n))) \<and>
       spawned s' = spawned s @ filter (\<lambda>b. countBodyInternalPredecessors d b body = 0) body \<and>
       pending s' (wn_ID n) = int (length (filter (\<lambda>e. we_TargetID e = wn_ID n) (d_LoopBackEdges d))) \<and>
       map_of (execCtx s') ''_loop_state'' = Some [(''iteration'', VInt (loopIterations s (wn_ID n) + 1))]) \<and>
    (\<not> granted \<longrightarrow> spawned s' = spawned s \<and> set (skipped s') = set body \<union> set (skipped s) \<and> pending s' = pending s)"
proof -
  have nb: "nodeID r \<notin> set (bodyOf d (nodeID r))"
  proof -
    from Build_Inr(6) [OF assms(1-3)] obtain b where b: "map_of (d_LoopBodyNodes d) (wn_ID n) = Some b"
      "computeLoopBodyNodes (2 * length (fwd edges)) (wn_ID n) d = Some b" by blast
    have "set b \<inter> insert (wn_ID n) (set (exitTargets d (wn_ID n))) = {}"
      using bodySearch_avoids [OF b(2) [unfolded computeLoopBodyNodes_def]] by simp
    with b(1) show ?thesis by (auto simp: bodyOf_def assms(4))
  qed
  show ?thesis
  proof (cases granted)
    case True
    note g = True [unfolded granted_def, folded assms(4)]
    note A = handleLoopIteration_again [OF g [THEN conjunct1] g [THEN conjunct2] assms(5) nb]
    show ?thesis using True A unfolding body_def assms(4) by blast
  next
    case False
    then have "again = False" using assms(5) by (auto simp: handleLoopIteration_def Let_def granted_def assms(4) split: if_splits)
    with handleLoopIteration_leave [of d r s s'] assms(5)
    have "s' = s\<lparr>skipped := fold List.insert body (skipped s)\<rparr>" by (simp add: body_def assms(4))
    moreover have "set (fold List.insert xs ys) = set xs \<union> set ys" for xs ys :: "string list"
      by (induction xs arbitrary: ys) auto
    ultimately show ?thesis using False \<open>again = False\<close> by simp
  qed
qed

theorem loop_iteration_effect_witness:
  "\<exists>s'. handleLoopIteration looping_dag \<lparr>nodeID = ''c'', nodeOutput = [], routingOutput = [(''action'', VStr ''loop_body'')], err = None\<rparr>
        (startRun looping_dag []) = (s', True) \<and> spawned s' = [''s'', ''b''] \<and> pending s' ''c'' = 1 \<and> pending s' ''b'' = 0"
proof -
  let ?r = "\<lparr>nodeID = ''c'', nodeOutput = [], routingOutput = [(''action'', VStr ''loop_body'')], err = None\<rparr>"
  let ?n = "(sample_node ''c'' loopControllerTypeID)\<lparr>wn_Config := Some [(''max_iterations'', VInt 2)]\<rparr>"
  have "\<not> isl (Build looping_nodes loop_edges)" by code_simp
  then have b: "Build looping_nodes loop_edges = Inr looping_dag"
    by (cases "Build looping_nodes loop_edges") (auto simp: looping_dag_def builtDag_def)
  have n: "?n \<in> set looping_nodes" "wn_TypeID ?n = loopControllerTypeID" "nodeID ?r = wn_ID ?n" "wn_ID ?n = ''c''"
    by (simp_all add: looping_nodes_def sample_node_def)
  obtain s' again where h: "handleLoopIteration looping_dag ?r (startRun looping_dag []) = (s', again)" by fastforce
  have c: "loopIterations (startRun looping_dag []) ''c'' < maxIterFromConfig (wn_Config (nodeAt looping_dag ''c''))"
    "bodyOf looping_dag ''c'' = [''b'']" "countBodyInternalPredecessors looping_dag ''b'' [''b''] = 0"
    "spawned (startRun looping_dag []) = [''s'']" "length (filter (\<lambda>e. we_TargetID e = ''c'') (d_LoopBackEdges looping_dag)) = 1"
    by code_simp+
  have "again \<and> spawned s' = [''s'', ''b''] \<and> pending s' ''c'' = 1 \<and> pending s' ''b'' = 0"
    using loop_iteration_effect [OF b n(1-3) h] n(4) c by simp
  with h show ?thesis by auto
qed

lemma upt_positive: "filter (\<lambda>b. b > 0) [0..<Suc k] = [1..<Suc k]"
  by (induction k) auto

text \<open>
  Retries. With a limit of \<open>m\<close> retries, a node succeeds with the output of its first
  successful attempt among \<open>m + 1\<close>, after pauses of one, two, \<dots> times the configured backoff; if
  all \<open>m + 1\<close> attempts fail, the node fails with the error of the last one.
\<close>

theorem retry_semantics:
  assumes "rp_MaxRetries p = int m"
  shows "(\<forall>k \<le> m. (\<forall>b < k. failed_at w b) \<and> (k = 0 \<or> \<not> at_done w k) \<and> at_call w k = Returned out \<longrightarrow>
      executeWithRetry (Some p) w = (map (retryDelay (rp_BackoffMs p)) [1..<Suc k], RetryOk out)) \<and>
    ((\<forall>b \<le> m. failed_at w b) \<and> at_call w m = Errored e \<longrightarrow>
      executeWithRetry (Some p) w = (map (retryDelay (rp_BackoffMs p)) [1..<Suc m], RetryErr (HandlerError e)))"
proof -
  have l: "executeWithRetry (Some p) w = retryLoop (Suc m) 0 (rp_BackoffMs p) w None []"
    using assms by (simp add: executeWithRetry_def nat_add_distrib)
  show ?thesis
  proof (intro conjI allI impI)
    fix k assume k: "k \<le> m" and h: "(\<forall>b < k. failed_at w b) \<and> (k = 0 \<or> \<not> at_done w k) \<and> at_call w k = Returned out"
    show "executeWithRetry (Some p) w = (map (retryDelay (rp_BackoffMs p)) [1..<Suc k], RetryOk out)"
      unfolding l using retryLoop_success [of 0 k w "Suc m" out "rp_BackoffMs p" None "[]"] h k
      by (simp add: upt_positive del: upt_Suc)
  next
    assume h: "(\<forall>b \<le> m. failed_at w b) \<and> at_call w m = Errored e"
    show "executeWithRetry (Some p) w = (map (retryDelay (rp_BackoffMs p)) [1..<Suc m], RetryErr (HandlerError e))"
      unfolding l using retryLoop_all_fail [of 0 "Suc m" w "rp_BackoffMs p" None "[]"] h
      by (simp add: upt_positive del: upt_Suc)
  qed
qed

definition flaky :: attempts where
  "flaky = \<lparr> at_call = (\<lambda>a. if a < 2 then Errored ''busy'' else Returned [(''v'', VInt 1)]), at_done = (\<lambda>_. False) \<rparr>"

theorem retry_semantics_witness:
  "executeWithRetry (Some \<lparr>rp_MaxRetries = 3, rp_BackoffMs = 100\<rparr>) flaky = ([100000000, 200000000], RetryOk [(''v'', VInt 1)])"
proof -
  have "rp_MaxRetries \<lparr>rp_MaxRetries = 3, rp_BackoffMs = 100\<rparr> = int 3" by simp
  from conjunct1 [OF retry_semantics [OF this, of flaky "[(''v'', VInt 1)]"], rule_format, of 2]
  have "executeWithRetry (Some \<lparr>rp_MaxRetries = 3, rp_BackoffMs = 100\<rparr>) flaky = (map (retryDelay 100) [1..<Suc 2], RetryOk [(''v'', VInt 1)])"
    by (simp add: flaky_def failed_at_def)
  moreover have "map (retryDelay 100) [1..<Suc 2] = [100000000, 200000000]" by code_simp
  ultimately show ?thesis by simp
qed

section \<open>Findings\<close>

text \<open>
  A negative \<open>max_retries\<close> makes the attempt loop run zero times: the handler is never called and
  the node counts as succeeded with an empty output.
\<close>

theorem negative_retries_succeed_without_running:
  "rp_MaxRetries p < 0 \<Longrightarrow> executeWithRetry (Some p) w = ([], RetryOk [])"
  by (simp add: executeWithRetry_def)

theorem negative_retries_witness:
  "executeWithRetry (Some \<lparr>rp_MaxRetries = -1, rp_BackoffMs = 100\<rparr>) \<lparr>at_call = (\<lambda>_. Errored ''never called''), at_done = (\<lambda>_. False)\<rparr> = ([], RetryOk [])"
  by (rule negative_retries_succeed_without_running) simp

text \<open>The controller of the sample loop, leaving after two iterations.\<close>

definition twice_behaviour :: behaviour where
  "twice_behaviour i inp = \<lparr> at_call = (\<lambda>_. Returned [(''action'',
       if map_of (UpstreamData inp) ''_loop_state'' = Some (VMap [(''iteration'', VInt 2)]) then VStr ''exit'' else VStr ''loop_body'')]),
     at_done = (\<lambda>_. False) \<rparr>"

text \<open>
  An exit target that a body node feeds as well: every iteration counts the body edge again, so
  after two iterations the target \<open>x\<close> is started although the controller has not left the loop;
  its last execution, which chooses \<open>exit\<close>, comes afterwards.
\<close>

theorem exit_target_starts_inside_loop:
  "spawned (c_sup (drive 60 looping_env looping_dag twice_behaviour (initial_cfg looping_env looping_dag []))) =
     [''s'', ''c'', ''b'', ''c'', ''b'', ''x'', ''c'']"
  by code_simp

text \<open>
  When a controller still answers \<open>loop_body\<close> at its limit (a mocked controller does), the loop
  ends but the \<open>exit\<close> edge is suppressed: the exit target \<open>x\<close> is skipped and the run succeeds.
\<close>

definition plain_exit_edges :: "workflow_edge list" where
  "plain_exit_edges = filter (\<lambda>e. we_ID e \<noteq> ''4'') loop_edges"

theorem exit_suppressed_at_limit:
  "let d = builtDag looping_nodes plain_exit_edges;
       s = c_sup (drive 60 looping_env d looping_behaviour (initial_cfg looping_env d []))
   in spawned s = [''s'', ''c'', ''b'', ''c'', ''b'', ''c''] \<and> ''x'' \<in> set (skipped s) \<and> firstErr s = None \<and> \<not> isl (finishRun d s)"
  by code_simp

end
