(* ===== verification/Runner_Events.thy ===== *)
theory Runner_Events
  imports Runner_Props
begin

text \<open>
  The event stream of a run. On a graph without a loop controller, the events published for a
  node are, in this order, \<open>pending\<close>, \<open>running\<close> and one of \<open>succeeded\<close> and \<open>failed\<close>, each at most
  once, in step with the state of the node's goroutine.
\<close>

definition node_events :: "cfg \<Rightarrow> string \<Rightarrow> event_type list" where
  "node_events c v = map ev_Type (filter (\<lambda>e. ev_NodeID e = v) (c_events c))"

definition phase_ok :: "cfg \<Rightarrow> string \<Rightarrow> bool" where
  "phase_ok c v \<longleftrightarrow>
     (if v \<in> set (c_waiting c) then node_events c v = [EventNodePending]
      else if v \<in> fst ` set (c_running c) then node_events c v = [EventNodePending, EventNodeRunning]
      else if v \<in> set (spawned (c_sup c))
      then node_events c v \<in> {[EventNodePending, EventNodeRunning, EventNodeSucceeded], [EventNodePending, EventNodeRunning, EventNodeFailed]}
      else node_events c v = [])"

lemma event_node_simps [simp]:
  "ev_NodeID (stateEvent E t i) = i" "ev_Type (stateEvent E t i) = t" "ev_NodeID (resultEvent E r) = nodeID r"
  by (simp_all add: stateEvent_def resultEvent_def split: option.split)

lemma result_type: "ev_Type (resultEvent E r) \<in> {EventNodeSucceeded, EventNodeFailed}"
  by (simp add: stateEvent_def resultEvent_def split: option.split)

lemma filter_pending:
  "distinct xs \<Longrightarrow> map ev_Type (filter (\<lambda>e. ev_NodeID e = v) (map (stateEvent E EventNodePending) xs)) =
     (if v \<in> set xs then [EventNodePending] else [])"
  by (induction xs) (auto simp: filter_empty_conv)

context plain_dag
begin

lemma cfg_inv_distinct:
  assumes "cfg_inv P ro c"
  shows "distinct (outstanding c)" "set (outstanding c) \<subseteq> set (spawned (c_sup c))" "distinct (spawned (c_sup c))"
proof -
  have m: "mset (spawned (c_sup c)) = mset (outstanding c @ map fst (nodeResults (c_sup c)))"
    and d: "distinct (spawned (c_sup c))"
    using assms by (simp_all add: cfg_inv_def sup_inv_def)
  from mset_eq_imp_distinct_iff [OF m] d show "distinct (outstanding c)" by simp
  from mset_eq_setD [OF m] show "set (outstanding c) \<subseteq> set (spawned (c_sup c))" by auto
  show "distinct (spawned (c_sup c))" by (rule d)
qed

lemma receive_extends:
  assumes "cfg_inv P ro c" "c_chan c = r # rest" "receive d r (c_sup c) = Some s'"
  shows "spawned s' = spawned (c_sup c) @ fresh (c_sup c) s'"
proof -
  note fr = chan_fresh [OF assms(1), of r, unfolded assms(2), simplified]
  have "\<exists>xs. spawned s' = spawned (c_sup c) @ xs"
    using receive_success_inv(7) [OF assms(3) _ _ cfg_inv_sup [OF assms(1)] fr(1,3)] receive_no_schedule(4) [OF assms(3)]
    by (cases "err r = None \<and> firstErr (c_sup c) = None") auto
  then show ?thesis by (auto simp: fresh_def)
qed

lemma phase_step:
  assumes st: "step E d world c c'" and inv: "cfg_inv P ro c" and ph: "\<And>v. phase_ok c v"
  shows "phase_ok c' v"
  using st
proof (cases rule: step.cases)
  case (immediate i r)
  note id = executeNode_start_id [OF immediate(4)]
  have i: "distinct (c_waiting c)" "i \<notin> fst ` set (c_running c)" "i \<in> set (spawned (c_sup c))"
    using cfg_inv_distinct [OF inv] immediate(2) by (auto simp: outstanding_def)
  have e: "node_events c' v = node_events c v @ (if v = i then [EventNodeRunning, ev_Type (resultEvent E r)] else [])"
    using immediate(1) id by (simp add: node_events_def)
  show ?thesis
  proof (cases "v = i")
    case True
    have "node_events c i = [EventNodePending]" using ph [of i] immediate(2) by (simp add: phase_ok_def)
    with True e i immediate(1) result_type [of E r] show ?thesis by (auto simp: phase_ok_def)
  next
    case False
    with ph [of v] e i(1) immediate(1) show ?thesis by (auto simp: phase_ok_def split: if_splits)
  qed
next
  case (begin_node i inp)
  have i: "distinct (c_waiting c)" "i \<notin> fst ` set (c_running c)" "i \<in> set (spawned (c_sup c))"
    using cfg_inv_distinct [OF inv] begin_node(2) by (auto simp: outstanding_def)
  have e: "node_events c' v = node_events c v @ (if v = i then [EventNodeRunning] else [])"
    using begin_node(1) by (simp add: node_events_def)
  show ?thesis
  proof (cases "v = i")
    case True
    have "node_events c i = [EventNodePending]" using ph [of i] begin_node(2) by (simp add: phase_ok_def)
    with True e i begin_node(1) show ?thesis by (simp add: phase_ok_def)
  next
    case False
    with ph [of v] e i(1) begin_node(1) show ?thesis by (auto simp: phase_ok_def split: if_splits)
  qed
next
  case (finish i inp w)
  have fi: "i \<in> fst ` set (c_running c)" using finish(2) by force
  have d: "distinct (map fst (c_running c))" and i: "i \<notin> set (c_waiting c)" "i \<in> set (spawned (c_sup c))"
    using cfg_inv_distinct(1,2) [OF inv] fi by (auto simp: outstanding_def simp del: map_map)
  have k: "fst ` set (remove1 (i, inp) (c_running c)) = fst ` set (c_running c) - {i}"
    using d finish(2) by (rule remove1_keys)
  have e: "node_events c' v = node_events c v @ (if v = i then [ev_Type (resultEvent E (executeNode_finish E d i w))] else [])"
    using finish(1) by (simp add: node_events_def)
  show ?thesis
  proof (cases "v = i")
    case True
    have "node_events c i = [EventNodePending, EventNodeRunning]" using ph [of i] i fi by (simp add: phase_ok_def)
    with True e i k finish(1) result_type [of E "executeNode_finish E d i w"] show ?thesis by (auto simp: phase_ok_def)
  next
    case False
    with ph [of v] e k finish(1) show ?thesis by (auto simp: phase_ok_def split: if_splits)
  qed
next
  case (recv r rest s')
  note x = receive_extends [OF inv recv(2,3)]
  obtain P' ro' where "cfg_inv P' ro' c'" using step_inv [OF st inv] by blast
  from cfg_inv_distinct(3) [OF this] recv(1) x have d: "distinct (spawned (c_sup c) @ fresh (c_sup c) s')" by simp
  have o: "v \<in> set (c_waiting c) \<Longrightarrow> v \<in> set (spawned (c_sup c))" "v \<in> fst ` set (c_running c) \<Longrightarrow> v \<in> set (spawned (c_sup c))"
    using cfg_inv_distinct(2) [OF inv] by (auto simp: outstanding_def)
  have e: "node_events c' v = node_events c v @ (if v \<in> set (fresh (c_sup c) s') then [EventNodePending] else [])"
    using recv(1) filter_pending [of "fresh (c_sup c) s'" v E] d by (simp add: node_events_def)
  show ?thesis
  proof (cases "v \<in> set (fresh (c_sup c) s')")
    case True
    with d have "v \<notin> set (spawned (c_sup c))" by auto
    with o have "v \<notin> set (c_waiting c)" "v \<notin> fst ` set (c_running c)" "v \<notin> set (spawned (c_sup c))" by blast+
    with ph [of v] have "node_events c v = []" by (simp add: phase_ok_def)
    with True e recv(1) show ?thesis by (simp add: phase_ok_def)
  next
    case False
    with ph [of v] e recv(1) x show ?thesis by (auto simp: phase_ok_def split: if_splits)
  qed
next
  case deadline
  then have "node_events c' v = node_events c v" "c_waiting c' = c_waiting c" "c_running c' = c_running c" "c_sup c' = c_sup c"
    by (simp_all add: node_events_def)
  with ph [of v] show ?thesis by (simp only: phase_ok_def)
qed

lemma reach_phase: "reach E d world initData c \<Longrightarrow> phase_ok c v"
proof (induction arbitrary: v rule: reach.induct)
  case (init x)
  have "distinct (spawned (startRun d initData))" using startRun_inv [of initData] by (simp add: sup_inv_def)
  from filter_pending [OF this, of x E] show ?case by (simp add: phase_ok_def node_events_def initial_cfg_def)
next
  case (move c c')
  with reach_inv [OF move.hyps(1)] phase_step [OF move.hyps(2)] show ?case by blast
qed

end

text \<open>
  C8. Event order. In every reachable state of a run, the events published so far for a node
  match where its goroutine is: \<open>pending\<close> once it is dispatched, then \<open>running\<close>, then exactly one
  of \<open>succeeded\<close> and \<open>failed\<close>; a node that was not dispatched has no event.
\<close>

theorem run_event_order:
  assumes "Build nodes edges = Inr d" "plain_workflow nodes" "reach E d world initData c"
  shows "if v \<in> set (c_waiting c) then node_events c v = [EventNodePending]
    else if v \<in> fst ` set (c_running c) then node_events c v = [EventNodePending, EventNodeRunning]
    else if v \<in> set (spawned (c_sup c))
    then node_events c v \<in> {[EventNodePending, EventNodeRunning, EventNodeSucceeded], [EventNodePending, EventNodeRunning, EventNodeFailed]}
    else node_events c v = []"
  using pd.reach_phase [of E nodes edges world initData c v] assms plainDag_eq by (simp add: phase_ok_def)

theorem run_event_order_witness:
  "node_events branch_end ''b'' = [EventNodePending, EventNodeRunning, EventNodeSucceeded] \<and> node_events branch_end ''c'' = []"
proof -
  have f: "c_waiting branch_end = []" "c_running branch_end = []" by code_simp+
  have "node_events branch_end ''b'' \<noteq> [EventNodePending, EventNodeRunning, EventNodeFailed]" by code_simp
  with run_event_order [OF branch_built branch_plain branch_reach, of "''b''"]
    run_event_order [OF branch_built branch_plain branch_reach, of "''c''"] f branch_facts(3) show ?thesis by simp
qed

end
