(* ===== verification/Database.thy ===== *)
theory Database
  imports Store_Types
begin

text \<open>
  The relational database behind \<open>internal/store/mysql\<close>: tables with a statement clock. MySQL is
  not part of the repository; what it decides is the parameter \<open>sql\<close>. Statement \<open>n\<close> may fail,
  and a failed write may still have been applied (\<open>DoneUnreported\<close>: the connection broke after
  the server had done the work). \<open>sql_key\<close> is the collation: two strings are equal for
  the server when their keys are. \<open>sql_json\<close> is how a \<open>JSON\<close> column prints back a document.

  \<open>query\<close>, \<open>exec\<close>, \<open>transaction\<close> and \<open>andThen\<close> are the calls the Go stores make on \<open>sqlx\<close>: a
  read, a write, \<open>BeginTxx\<close>/\<open>Commit\<close> with the deferred \<open>Rollback\<close>, and the \<open>if err != nil\<close>
  return between two of them. A transaction is one atomic step.
\<close>

datatype sql_outcome = Done | NotDone | DoneUnreported

record sql =
  sql_outcome :: "nat \<Rightarrow> sql_outcome"
  sql_key :: "string \<Rightarrow> string"
  sql_json :: "string \<Rightarrow> string"

record 't db =
  tables :: 't
  clock :: nat

datatype store_error = SqlFault | DuplicateKey | ErrNotFound | ErrWorkflowDeleted | MarshalFault | UnmarshalFault | StoreFault string

type_synonym ('t, 'a) dbm = "'t db \<Rightarrow> (store_error + 'a) \<times> 't db"

definition sql_eq :: "sql \<Rightarrow> string \<Rightarrow> string \<Rightarrow> bool" where
  "sql_eq q a b \<longleftrightarrow> sql_key q a = sql_key q b"

definition tick :: "'t db \<Rightarrow> 't db" where
  "tick d = d\<lparr>clock := Suc (clock d)\<rparr>"

definition query :: "sql \<Rightarrow> ('t \<Rightarrow> store_error + 'a) \<Rightarrow> ('t, 'a) dbm" where
  "query q f d = ((if sql_outcome q (clock d) = Done then f (tables d) else Inl SqlFault), tick d)"

definition exec :: "sql \<Rightarrow> ('t \<Rightarrow> store_error + 'a \<times> 't) \<Rightarrow> ('t, 'a) dbm" where
  "exec q f d =
     (case sql_outcome q (clock d) of
        NotDone \<Rightarrow> (Inl SqlFault, tick d)
      | Done \<Rightarrow> (case f (tables d) of Inl e \<Rightarrow> (Inl e, tick d) | Inr (a, t) \<Rightarrow> (Inr a, (tick d)\<lparr>tables := t\<rparr>))
      | DoneUnreported \<Rightarrow> (case f (tables d) of Inl e \<Rightarrow> (Inl SqlFault, tick d) | Inr (a, t) \<Rightarrow> (Inl SqlFault, (tick d)\<lparr>tables := t\<rparr>)))"

definition andThen :: "('t, 'a) dbm \<Rightarrow> ('a \<Rightarrow> ('t, 'b) dbm) \<Rightarrow> ('t, 'b) dbm" where
  "andThen m k d = (case m d of (Inl e, d') \<Rightarrow> (Inl e, d') | (Inr a, d') \<Rightarrow> k a d')"

definition give :: "'a \<Rightarrow> ('t, 'a) dbm" where
  "give a d = (Inr a, d)"

definition fail :: "store_error \<Rightarrow> ('t, 'a) dbm" where
  "fail e d = (Inl e, d)"

definition transaction :: "sql \<Rightarrow> ('t, 'a) dbm \<Rightarrow> ('t, 'a) dbm" where
  "transaction q body d =
     (if sql_outcome q (clock d) \<noteq> Done then (Inl SqlFault, tick d)
      else case body (tick d) of
             (Inl e, d') \<Rightarrow> (Inl e, d'\<lparr>tables := tables d\<rparr>)
           | (Inr a, d') \<Rightarrow>
               (case sql_outcome q (clock d') of
                  Done \<Rightarrow> (Inr a, tick d')
                | NotDone \<Rightarrow> (Inl SqlFault, (tick d')\<lparr>tables := tables d\<rparr>)
                | DoneUnreported \<Rightarrow> (Inl SqlFault, tick d')))"

text \<open>The loop \<open>for _, x := range xs { if err := f(x); err != nil { return err } }\<close>.\<close>

fun each :: "('a \<Rightarrow> ('t, unit) dbm) \<Rightarrow> 'a list \<Rightarrow> ('t, unit) dbm" where
  "each f [] = give ()"
| "each f (x # xs) = andThen (f x) (\<lambda>_. each f xs)"

section \<open>A database that does not fail\<close>

definition reliable :: "sql \<Rightarrow> bool" where
  "reliable q \<longleftrightarrow> sql_outcome q = (\<lambda>_. Done)"

named_theorems db_simps \<open>the database calls, unfolded\<close>

lemma tables_tick [simp]: "tables (tick d) = tables d"
  by (simp add: tick_def)

lemma query_reliable [db_simps]: "reliable q \<Longrightarrow> query q f d = (f (tables d), tick d)"
  by (simp add: query_def reliable_def)

lemma exec_reliable [db_simps]:
  "reliable q \<Longrightarrow> exec q f d =
     (case f (tables d) of Inl e \<Rightarrow> (Inl e, tick d) | Inr (a, t) \<Rightarrow> (Inr a, (tick d)\<lparr>tables := t\<rparr>))"
  by (simp add: exec_def reliable_def)

lemma transaction_reliable [db_simps]:
  "reliable q \<Longrightarrow> transaction q body d =
     (case body (tick d) of (Inl e, d') \<Rightarrow> (Inl e, d'\<lparr>tables := tables d\<rparr>) | (Inr a, d') \<Rightarrow> (Inr a, tick d'))"
  by (simp add: transaction_def reliable_def split: prod.split sum.split)

lemma give_fail [db_simps]: "give a d = (Inr a, d)" "fail e d = (Inl e, d)"
  by (simp_all add: give_def fail_def)

lemma andThen_simps [db_simps]:
  "andThen (give a) k = k a"
  "andThen (fail e) k = fail e"
  by (rule ext; simp add: andThen_def give_def fail_def)+

text \<open>Failed transactions change nothing, unless the commit itself was lost.\<close>

lemma transaction_atomic:
  assumes "transaction q body d = (Inl e, d')" "\<forall>n. sql_outcome q n \<noteq> DoneUnreported"
  shows "tables d' = tables d"
  using assms by (auto simp: transaction_def split: if_splits prod.splits sum.splits sql_outcome.splits)

lemma query_tables [simp]: "tables (snd (query q f d)) = tables d"
  by (simp add: query_def)

end
