(* ===== verification/Run_Store.thy ===== *)
theory Run_Store
  imports Database Runner
begin

text \<open>
  Persistence of runs (\<open>internal/store/mysql/run_store.go\<close>) over the tables \<open>workflows\<close> and
  \<open>runs\<close>. Of a workflow only the columns these statements read are kept. The JSON encoder is a
  parameter. Times are instants; \<open>now\<close> is passed where the code reads the clock.
\<close>

record json_lib =
  marshal_map :: "gomap \<Rightarrow> string option"
  unmarshal_map :: "string \<Rightarrow> gomap option"
  marshal_results :: "(string \<times> stored_result) list \<Rightarrow> string option"
  unmarshal_results :: "string \<Rightarrow> (string \<times> stored_result) list option"

record run =
  run_ID :: string
  run_WorkflowID :: string
  run_TriggeredBy :: string
  run_Status :: run_status
  run_WorkflowVersionNumber :: "int option"
  run_StartedAt :: "int option"
  run_FinishedAt :: "int option"
  run_FinalOutput :: "gomap option"
  run_ErrorDetail :: "gomap option"
  run_NodeResults :: "(string \<times> stored_result) list option"

record db_run =
  dr_ID :: string
  dr_WorkflowID :: string
  dr_TriggeredBy :: string
  dr_Status :: run_status
  dr_WorkflowVersionNumber :: "int option"
  dr_StartedAt :: "int option"
  dr_FinishedAt :: "int option"
  dr_FinalOutput :: "string option"
  dr_ErrorDetail :: "string option"
  dr_NodeResults :: "string option"

record run_filter =
  rf_WorkflowID :: string
  rf_Status :: string
  rf_Since :: "int option"
  rf_Until :: "int option"
  rf_Limit :: int

record run_tables =
  t_workflows :: "(string \<times> string) list"
  t_runs :: "db_run list"

text \<open>\<open>rowToRun\<close>: an absent or empty column leaves the field nil.\<close>

definition decode_col :: "sql \<Rightarrow> (string \<Rightarrow> 'a option) \<Rightarrow> string option \<Rightarrow> store_error + 'a option" where
  "decode_col q un col =
     (case col of
        None \<Rightarrow> Inr None
      | Some t \<Rightarrow> if sql_json q t = [] then Inr None
                  else (case un (sql_json q t) of None \<Rightarrow> Inl UnmarshalFault | Some x \<Rightarrow> Inr (Some x)))"

definition rowToRun :: "sql \<Rightarrow> json_lib \<Rightarrow> db_run \<Rightarrow> store_error + run" where
  "rowToRun q J row =
     (case decode_col q (unmarshal_map J) (dr_FinalOutput row) of
        Inl e \<Rightarrow> Inl e
      | Inr fo \<Rightarrow>
     (case decode_col q (unmarshal_map J) (dr_ErrorDetail row) of
        Inl e \<Rightarrow> Inl e
      | Inr ed \<Rightarrow>
     (case decode_col q (unmarshal_results J) (dr_NodeResults row) of
        Inl e \<Rightarrow> Inl e
      | Inr nr \<Rightarrow>
          Inr \<lparr> run_ID = dr_ID row, run_WorkflowID = dr_WorkflowID row, run_TriggeredBy = dr_TriggeredBy row,
                run_Status = dr_Status row, run_WorkflowVersionNumber = dr_WorkflowVersionNumber row,
                run_StartedAt = dr_StartedAt row, run_FinishedAt = dr_FinishedAt row,
                run_FinalOutput = fo, run_ErrorDetail = ed, run_NodeResults = nr \<rparr>)))"

definition runWriteRow :: "run \<Rightarrow> db_run" where
  "runWriteRow r =
     \<lparr> dr_ID = run_ID r, dr_WorkflowID = run_WorkflowID r, dr_TriggeredBy = run_TriggeredBy r, dr_Status = run_Status r,
       dr_WorkflowVersionNumber = run_WorkflowVersionNumber r, dr_StartedAt = run_StartedAt r, dr_FinishedAt = None,
       dr_FinalOutput = None, dr_ErrorDetail = None, dr_NodeResults = None \<rparr>"

definition insertRun :: "sql \<Rightarrow> run \<Rightarrow> run_tables \<Rightarrow> store_error + unit \<times> run_tables" where
  "insertRun q r t =
     (if \<exists>row \<in> set (t_runs t). sql_eq q (dr_ID row) (run_ID r) then Inl DuplicateKey
      else Inr ((), t\<lparr>t_runs := t_runs t @ [runWriteRow r]\<rparr>))"

definition CreateRun :: "sql \<Rightarrow> string \<Rightarrow> run \<Rightarrow> (run_tables, run) dbm" where
  "CreateRun q uuid r0 =
     (let r = (if run_ID r0 = [] then r0\<lparr>run_ID := uuid\<rparr> else r0)
      in transaction q
           (andThen (query q (\<lambda>t. Inr (length (filter (\<lambda>(i, _). sql_eq q i (run_WorkflowID r)) (t_workflows t)))))
              (\<lambda>exists. if exists = 0 then fail ErrNotFound
                        else andThen (exec q (insertRun q r)) (\<lambda>_. give r))))"

definition updateRuns :: "sql \<Rightarrow> string \<Rightarrow> (db_run \<Rightarrow> db_run) \<Rightarrow> run_tables \<Rightarrow> run_tables" where
  "updateRuns q i f t = t\<lparr>t_runs := map (\<lambda>row. if sql_eq q (dr_ID row) i then f row else row) (t_runs t)\<rparr>"

definition UpdateRunStatus :: "sql \<Rightarrow> json_lib \<Rightarrow> int \<Rightarrow> string \<Rightarrow> run_status \<Rightarrow> gomap option \<Rightarrow> (run_tables, unit) dbm" where
  "UpdateRunStatus q J now runID status result =
     (let write = (\<lambda>finalOutput errorDetail.
            exec q (\<lambda>t. Inr ((), updateRuns q runID (\<lambda>row. row\<lparr> dr_Status := status, dr_FinishedAt := Some now,
                                  dr_FinalOutput := finalOutput, dr_ErrorDetail := errorDetail \<rparr>) t)))
      in case result of
           None \<Rightarrow> write None None
         | Some m \<Rightarrow>
             (case marshal_map J m of
                None \<Rightarrow> fail MarshalFault
              | Some s \<Rightarrow> if status = RunStatusSucceeded then write (Some s) None else write None (Some s)))"

definition SaveRunNodeResults :: "sql \<Rightarrow> json_lib \<Rightarrow> string \<Rightarrow> (string \<times> stored_result) list \<Rightarrow> (run_tables, unit) dbm" where
  "SaveRunNodeResults q J runID results =
     (case marshal_results J results of
        None \<Rightarrow> fail MarshalFault
      | Some b \<Rightarrow> exec q (\<lambda>t. Inr ((), updateRuns q runID (\<lambda>row. row\<lparr>dr_NodeResults := Some b\<rparr>) t)))"

text \<open>\<open>GetRun\<close>; an empty \<open>org\<close> is a context without a tenant.\<close>

definition GetRun :: "sql \<Rightarrow> json_lib \<Rightarrow> string \<Rightarrow> string \<Rightarrow> (run_tables, run) dbm" where
  "GetRun q J org runID =
     andThen (query q (\<lambda>t.
        (case filter (\<lambda>row. sql_eq q (dr_ID row) runID \<and>
                (\<exists>(i, o') \<in> set (t_workflows t). sql_eq q i (dr_WorkflowID row) \<and> (org \<noteq> [] \<longrightarrow> sql_eq q o' org))) (t_runs t) of
           [] \<Rightarrow> Inl ErrNotFound
         | row # _ \<Rightarrow> Inr row)))
       (\<lambda>row d. (rowToRun q J row, d))"

definition orderByStartedDesc :: "db_run list \<Rightarrow> db_run list" where
  "orderByStartedDesc rows =
     sort_key (\<lambda>r. - the (dr_StartedAt r)) (filter (\<lambda>r. dr_StartedAt r \<noteq> None) rows) @
     filter (\<lambda>r. dr_StartedAt r = None) rows"

fun status_string :: "run_status \<Rightarrow> string" where
  "status_string RunStatusPending = ''pending''"
| "status_string RunStatusRunning = ''running''"
| "status_string RunStatusSucceeded = ''succeeded''"
| "status_string RunStatusFailed = ''failed''"

definition listed :: "sql \<Rightarrow> run_filter \<Rightarrow> db_run \<Rightarrow> bool" where
  "listed q f row \<longleftrightarrow>
     sql_eq q (dr_WorkflowID row) (rf_WorkflowID f) \<and>
     (rf_Status f = [] \<or> sql_eq q (status_string (dr_Status row)) (rf_Status f)) \<and>
     (case rf_Since f of None \<Rightarrow> True | Some a \<Rightarrow> (case dr_StartedAt row of None \<Rightarrow> False | Some t \<Rightarrow> a \<le> t)) \<and>
     (case rf_Until f of None \<Rightarrow> True | Some b \<Rightarrow> (case dr_StartedAt row of None \<Rightarrow> False | Some t \<Rightarrow> t \<le> b))"

fun rowsToRuns :: "sql \<Rightarrow> json_lib \<Rightarrow> db_run list \<Rightarrow> store_error + run list" where
  "rowsToRuns q J [] = Inr []"
| "rowsToRuns q J (row # rows) =
     (case rowToRun q J (row\<lparr>dr_NodeResults := None\<rparr>) of
        Inl e \<Rightarrow> Inl e
      | Inr r \<Rightarrow> (case rowsToRuns q J rows of Inl e \<Rightarrow> Inl e | Inr rs \<Rightarrow> Inr (r # rs)))"

definition ListRuns :: "sql \<Rightarrow> json_lib \<Rightarrow> run_filter \<Rightarrow> (run_tables, run list) dbm" where
  "ListRuns q J f =
     andThen (query q (\<lambda>t.
        (let rows = orderByStartedDesc (filter (listed q f) (t_runs t))
         in Inr (if rf_Limit f > 0 then take (nat (rf_Limit f)) rows else rows))))
       (\<lambda>rows d. (rowsToRuns q J rows, d))"

end
