(* ===== verification/Engine.thy ===== *)
theory Engine
  imports Run_Store Runner_Steps
begin

text \<open>
  The workflow engine (\<open>internal/engine/engine.go\<close>): \<open>Run\<close> loads the workflow, builds its
  graph, creates the run record and starts a goroutine that executes the graph, persists the
  outcome, publishes the terminal event and unsubscribes. \<open>eng\<close> is the state several such
  goroutines share (database, event bus); a goroutine is an \<open>active\<close> run with a program counter.
  Loading the workflow and its latest version go through the credential vault and are parameters.
\<close>

record run_request =
  rq_WorkflowID :: string
  rq_InitialData :: gomap
  rq_TriggeredBy :: string
  rq_NodeMocks :: "(string \<times> gomap) list"
  rq_WorkflowVersionNumber :: "int option"

datatype tail_pc = ToStart | InDAG | ToUpdateStatus | ToSaveResults | ToPublish | ToCleanup | Ended

record active =
  a_runID :: string
  a_env :: run_env
  a_dag :: dag
  a_chan :: nat
  a_cfg :: cfg
  a_timeout :: int
  a_pc :: tail_pc

record eng =
  en_db :: "run_tables db"
  en_bus :: event_bus
  en_active :: "active list"

record workflow_engine =
  we_sql :: sql
  we_json :: json_lib
  we_GetWorkflow :: "string \<Rightarrow> store_error + workflow"
  we_LatestVersion :: "string \<Rightarrow> store_error + int option"
  we_registry :: node_registry
  we_libs :: parse_libs
  we_errText :: "node_error \<Rightarrow> string"

datatype engine_error = GetWorkflowFailed store_error | BuildFailed build_error | CreateRunFailed store_error

record run_handle =
  rh_RunID :: string
  rh_Events :: nat

text \<open>\<open>time.Duration(wf.TimeoutSeconds) * time.Second\<close> in nanoseconds, with the default of five minutes.\<close>

definition runTimeout :: "int \<Rightarrow> int" where
  "runTimeout timeoutSeconds =
     (let timeout = wrap64 (timeoutSeconds * 1000000000) in if timeout \<le> 0 then 5 * 60 * 1000000000 else timeout)"

definition versionOf :: "workflow_engine \<Rightarrow> run_request \<Rightarrow> workflow \<Rightarrow> int option" where
  "versionOf V req w =
     (case rq_WorkflowVersionNumber req of
        Some n \<Rightarrow> Some n
      | None \<Rightarrow> (case we_LatestVersion V (wf_ID w) of Inl _ \<Rightarrow> None | Inr vn \<Rightarrow> vn))"

text \<open>The record \<open>Run\<close> creates, and the goroutine it starts.\<close>

definition newRun :: "workflow_engine \<Rightarrow> int \<Rightarrow> run_request \<Rightarrow> workflow \<Rightarrow> run" where
  "newRun V now req w =
     \<lparr> run_ID = [], run_WorkflowID = wf_ID w, run_TriggeredBy = rq_TriggeredBy req, run_Status = RunStatusRunning,
       run_WorkflowVersionNumber = versionOf V req w, run_StartedAt = Some now, run_FinishedAt = None,
       run_FinalOutput = None, run_ErrorDetail = None, run_NodeResults = None \<rparr>"

definition goroutine :: "workflow_engine \<Rightarrow> run_request \<Rightarrow> workflow \<Rightarrow> dag \<Rightarrow> string \<Rightarrow> nat \<Rightarrow> active" where
  "goroutine V req w d runID events =
     (let E = \<lparr> re_runID = runID, re_registry = we_registry V, re_mocks = rq_NodeMocks req, re_libs = we_libs V \<rparr>
      in \<lparr> a_runID = runID, a_env = E, a_dag = d, a_chan = events,
           a_cfg = initial_cfg E d (rq_InitialData req), a_timeout = runTimeout (wf_TimeoutSeconds w), a_pc = ToStart \<rparr>)"

definition Run :: "workflow_engine \<Rightarrow> string \<Rightarrow> int \<Rightarrow> run_request \<Rightarrow> eng \<Rightarrow> (engine_error + run_handle) \<times> eng" where
  "Run V uuid now req s =
     (case we_GetWorkflow V (rq_WorkflowID req) of
        Inl e \<Rightarrow> (Inl (GetWorkflowFailed e), s)
      | Inr w \<Rightarrow>
     (case Build (wf_Nodes w) (wf_Edges w) of
        Inl e \<Rightarrow> (Inl (BuildFailed e), s)
      | Inr d \<Rightarrow>
     (case CreateRun (we_sql V) uuid (newRun V now req w) (en_db s) of
        (Inl e, db') \<Rightarrow> (Inl (CreateRunFailed e), s\<lparr>en_db := db'\<rparr>)
      | (Inr run, db') \<Rightarrow>
          (case Subscribe (run_ID run) (en_bus s) of
             (events, bus') \<Rightarrow>
               (Inr \<lparr> rh_RunID = run_ID run, rh_Events = events \<rparr>,
                s\<lparr> en_db := db', en_bus := bus', en_active := en_active s @ [goroutine V req w d (run_ID run) events] \<rparr>)))))"

definition Dispatch :: "workflow_engine \<Rightarrow> string \<Rightarrow> int \<Rightarrow> run_request \<Rightarrow> eng \<Rightarrow> (engine_error + string) \<times> eng" where
  "Dispatch V uuid now req s =
     (case Run V uuid now req s of
        (Inl e, s') \<Rightarrow> (Inl e, s')
      | (Inr h, s') \<Rightarrow> (Inr (rh_RunID h), s'))"

section \<open>The goroutine after the graph has run\<close>

definition flattenOutput :: "(string \<times> gomap) list \<Rightarrow> gomap" where
  "flattenOutput m = map (\<lambda>(k, v). (k, VMap v)) m"

definition outcome :: "active \<Rightarrow> node_error + (string \<times> gomap) list" where
  "outcome a = finishRun (a_dag a) (c_sup (a_cfg a))"

definition statusUpdate :: "active \<Rightarrow> run_status" where
  "statusUpdate a = (case outcome a of Inl _ \<Rightarrow> RunStatusFailed | Inr _ \<Rightarrow> RunStatusSucceeded)"

definition outputMap :: "workflow_engine \<Rightarrow> active \<Rightarrow> gomap" where
  "outputMap V a = (case outcome a of Inl e \<Rightarrow> [(''error'', VStr (we_errText V e))] | Inr out \<Rightarrow> flattenOutput out)"

definition terminalEvent :: "active \<Rightarrow> node_event" where
  "terminalEvent a =
     (case outcome a of
        Inl e \<Rightarrow> \<lparr> ev_RunID = a_runID a, ev_NodeID = [], ev_Type = EventRunFailed, ev_Output = None, ev_Error = Some e \<rparr>
      | Inr _ \<Rightarrow> \<lparr> ev_RunID = a_runID a, ev_NodeID = [], ev_Type = EventRunSucceeded, ev_Output = None, ev_Error = None \<rparr>)"

definition nodeResultsOf :: "active \<Rightarrow> (string \<times> stored_result) list" where
  "nodeResultsOf a = nodeResults (c_sup (a_cfg a))"

text \<open>One action of the goroutine; \<open>None\<close> while the graph runs, after the end, and for a panic of the bus.\<close>

definition tailStep :: "workflow_engine \<Rightarrow> int \<Rightarrow> active \<Rightarrow> eng \<Rightarrow> (active \<times> eng) option" where
  "tailStep V now a s =
     (case a_pc a of
        ToStart \<Rightarrow> None
      | InDAG \<Rightarrow> None
      | ToUpdateStatus \<Rightarrow>
          Some (a\<lparr>a_pc := ToSaveResults\<rparr>,
                s\<lparr>en_db := snd (UpdateRunStatus (we_sql V) (we_json V) now (a_runID a) (statusUpdate a) (Some (outputMap V a)) (en_db s))\<rparr>)
      | ToSaveResults \<Rightarrow>
          Some (a\<lparr>a_pc := ToPublish\<rparr>,
                s\<lparr>en_db := snd (SaveRunNodeResults (we_sql V) (we_json V) (a_runID a) (nodeResultsOf a) (en_db s))\<rparr>)
      | ToPublish \<Rightarrow> map_option (\<lambda>b. (a\<lparr>a_pc := ToCleanup\<rparr>, s\<lparr>en_bus := b\<rparr>)) (Publish (terminalEvent a) (en_bus s))
      | ToCleanup \<Rightarrow> map_option (\<lambda>b. (a\<lparr>a_pc := Ended\<rparr>, s\<lparr>en_bus := b\<rparr>)) (cleanup (a_runID a) (a_chan a) (en_bus s))
      | Ended \<Rightarrow> None)"

fun publishAll :: "node_event list \<Rightarrow> event_bus \<Rightarrow> event_bus option" where
  "publishAll [] b = Some b"
| "publishAll (e # es) b = (case Publish e b of None \<Rightarrow> None | Some b' \<Rightarrow> publishAll es b')"

section \<open>Several runs and their observers\<close>

inductive estep :: "workflow_engine \<Rightarrow> world \<Rightarrow> eng \<Rightarrow> eng \<Rightarrow> bool" for V world where
  launch: "Run V uuid now req s = (res, s') \<Longrightarrow> estep V world s s'"
| dag_start: "\<lbrakk> i < length (en_active s); a = en_active s ! i; a_pc a = ToStart; publishAll (c_events (a_cfg a)) (en_bus s) = Some b \<rbrakk>
   \<Longrightarrow> estep V world s (s\<lparr> en_bus := b, en_active := (en_active s)[i := a\<lparr>a_pc := InDAG\<rparr>] \<rparr>)"
| dag_step: "\<lbrakk> i < length (en_active s); a = en_active s ! i; a_pc a = InDAG; step (a_env a) (a_dag a) world (a_cfg a) c';
     publishAll (drop (length (c_events (a_cfg a))) (c_events c')) (en_bus s) = Some b \<rbrakk>
   \<Longrightarrow> estep V world s (s\<lparr> en_bus := b, en_active := (en_active s)[i := a\<lparr>a_cfg := c'\<rparr>] \<rparr>)"
| dag_done: "\<lbrakk> i < length (en_active s); a = en_active s ! i; a_pc a = InDAG; finished (a_cfg a) \<rbrakk>
   \<Longrightarrow> estep V world s (s\<lparr> en_active := (en_active s)[i := a\<lparr>a_pc := ToUpdateStatus\<rparr>] \<rparr>)"
| tail: "\<lbrakk> i < length (en_active s); a = en_active s ! i; tailStep V now a s = Some (a', s') \<rbrakk>
   \<Longrightarrow> estep V world s (s'\<lparr> en_active := (en_active s')[i := a'] \<rparr>)"
| subscribe: "estep V world s (s\<lparr> en_bus := snd (Subscribe r (en_bus s)) \<rparr>)"
| unsubscribe: "\<lbrakk> c \<in> set (subs_of (en_bus s) r); c \<notin> a_chan ` set (en_active s); cleanup r c (en_bus s) = Some b \<rbrakk>
   \<Longrightarrow> estep V world s (s\<lparr> en_bus := b \<rparr>)"
| take: "estep V world s (s\<lparr> en_bus := take_event c (en_bus s) \<rparr>)"

definition engine_start :: "(string \<times> string) list \<Rightarrow> eng" where
  "engine_start workflows =
     \<lparr> en_db = \<lparr> tables = \<lparr> t_workflows = workflows, t_runs = [] \<rparr>, clock = 0 \<rparr>, en_bus = NewEventBus, en_active = [] \<rparr>"

inductive ereach :: "workflow_engine \<Rightarrow> world \<Rightarrow> (string \<times> string) list \<Rightarrow> eng \<Rightarrow> bool" for V world workflows where
  start: "ereach V world workflows (engine_start workflows)"
| move: "ereach V world workflows s \<Longrightarrow> estep V world s s' \<Longrightarrow> ereach V world workflows s'"

end
