(* ===== verification/Engine_Props.thy ===== *)
theory Engine_Props
  imports Engine Runner_Props
begin

text \<open>
  Invariants of the engine: the bus never panics, every active run owns its row, and a terminal
  event sits in a subscriber's buffer only after the outcome it announces is in the database.
\<close>

section \<open>The run table\<close>

definition runRow :: "sql \<Rightarrow> run_tables \<Rightarrow> string \<Rightarrow> db_run option" where
  "runRow q t i = find (\<lambda>row. sql_eq q (dr_ID row) i) (t_runs t)"

definition run_keys :: "sql \<Rightarrow> run_tables \<Rightarrow> string list" where
  "run_keys q t = map (\<lambda>row. sql_key q (dr_ID row)) (t_runs t)"

lemma run_keys_update:
  assumes "\<And>row. dr_ID (f row) = dr_ID row"
  shows "run_keys q (updateRuns q i f t) = run_keys q t"
  by (simp add: run_keys_def updateRuns_def assms)

lemma runRow_update:
  assumes "\<And>row. dr_ID (f row) = dr_ID row"
  shows "runRow q (updateRuns q i f t) j = (if sql_eq q i j then map_option f (runRow q t j) else runRow q t j)"
proof -
  have "find (\<lambda>row. sql_eq q (dr_ID row) j) (map (\<lambda>row. if sql_eq q (dr_ID row) i then f row else row) rows) =
    (if sql_eq q i j then map_option f (find (\<lambda>row. sql_eq q (dr_ID row) j) rows) else find (\<lambda>row. sql_eq q (dr_ID row) j) rows)" for rows
    by (induction rows) (auto simp: assms sql_eq_def)
  then show ?thesis by (simp add: runRow_def updateRuns_def)
qed

lemma runRow_None: "runRow q t i = None \<longleftrightarrow> sql_key q i \<notin> set (run_keys q t)"
  by (force simp: runRow_def run_keys_def find_None_iff sql_eq_def)

text \<open>With distinct keys, the filter of \<open>GetRun\<close> finds that row or nothing.\<close>

lemma runRow_filter:
  assumes "distinct (run_keys q t)" "filter (\<lambda>row. sql_eq q (dr_ID row) i \<and> P row) (t_runs t) = row # rest"
  shows "runRow q t i = Some row"
proof -
  have "distinct (map (\<lambda>row. sql_key q (dr_ID row)) rows) \<Longrightarrow> filter (\<lambda>row. sql_eq q (dr_ID row) i \<and> P row) rows = row # rest \<Longrightarrow>
    find (\<lambda>row. sql_eq q (dr_ID row) i) rows = Some row" for rows
  proof (induction rows)
    case (Cons x rows)
    show ?case
    proof (cases "sql_eq q (dr_ID x) i \<and> \<not> P x")
      case True
      with Cons.prems have "row \<in> set (filter (\<lambda>row. sql_eq q (dr_ID row) i \<and> P row) rows)" by simp
      with True have "sql_key q (dr_ID x) \<in> set (map (\<lambda>row. sql_key q (dr_ID row)) rows)" by (force simp: sql_eq_def)
      with Cons.prems(1) show ?thesis by simp
    qed (use Cons in \<open>auto split: if_splits\<close>)
  qed simp
  with assms show ?thesis by (simp add: run_keys_def runRow_def)
qed

lemma CreateRun_reliable:
  assumes "reliable q" "CreateRun q uuid r d = (res, d')" "run_ID r = []"
  shows "(\<exists>e. res = Inl e \<and> tables d' = tables d) \<or>
    (res = Inr (r\<lparr>run_ID := uuid\<rparr>) \<and> runRow q (tables d) uuid = None \<and>
       tables d' = (tables d)\<lparr>t_runs := t_runs (tables d) @ [runWriteRow (r\<lparr>run_ID := uuid\<rparr>)]\<rparr>)"
  using assms
  by (auto simp: CreateRun_def Let_def db_simps andThen_def insertRun_def runRow_def find_None_iff
      split: if_splits prod.splits sum.splits)

lemma find_append: "find P (xs @ ys) = (case find P xs of None \<Rightarrow> find P ys | Some x \<Rightarrow> Some x)"
  by (induction xs) auto

lemma runRow_append:
  assumes "dr_ID row = i" "runRow q t i = None"
  shows "runRow q (t\<lparr>t_runs := t_runs t @ [row]\<rparr>) j = (if sql_eq q i j then Some row else runRow q t j)"
proof -
  have e: "runRow q (t\<lparr>t_runs := t_runs t @ [row]\<rparr>) j =
    (case runRow q t j of None \<Rightarrow> if sql_eq q i j then Some row else None | Some x \<Rightarrow> Some x)"
    by (cases "runRow q t j") (simp_all add: runRow_def find_append assms(1))
  have "sql_eq q i j \<Longrightarrow> runRow q t j = None" using assms(2) by (simp add: runRow_None sql_eq_def)
  with e show ?thesis by (auto split: option.splits)
qed

section \<open>The bus under the engine\<close>

definition bus_ok :: "eng \<Rightarrow> bool" where
  "bus_ok s \<longleftrightarrow> bus_inv (en_bus s) \<and> distinct (map a_chan (en_active s)) \<and>
     (\<forall>a \<in> set (en_active s). a_chan a < next_chan (en_bus s) \<and>
        (a_pc a \<noteq> Ended \<longrightarrow> a_chan a \<in> set (subs_of (en_bus s) (a_runID a))))"

lemma publishAll_law:
  assumes "bus_inv b"
  shows "\<exists>b'. publishAll es b = Some b' \<and> bus_inv b' \<and> subs_of b' = subs_of b \<and> next_chan b' = next_chan b \<and>
    (\<forall>x. set (ch_buf (channels b' x)) \<subseteq> set (ch_buf (channels b x)) \<union> set es)"
  using assms
proof (induction es arbitrary: b)
  case (Cons e es)
  from node_bus.publish_law [OF Cons.prems, of e] obtain b1 where b1: "Publish e b = Some b1" "bus_inv b1" "subs_of b1 = subs_of b"
    "next_chan b1 = next_chan b" "\<forall>x. set (ch_buf (channels b1 x)) \<subseteq> set (ch_buf (channels b x)) \<union> {e}" by fastforce
  from Cons.IH [OF b1(2)] b1 show ?case by fastforce
qed auto

lemma cleanup_law:
  assumes "bus_inv b" "c \<in> set (subs_of b r)" "cleanup r c b = Some b'"
  shows "bus_inv b'" "next_chan b' = next_chan b" "set (subs_of b x) - {c} \<subseteq> set (subs_of b' x)"
    "ch_buf (channels b' n) = ch_buf (channels b n)"
proof -
  have "ch_open (channels b c)" using assms(1,2) unfolding bus_inv_def by blast
  from cleanup_inv [OF assms(1) this assms(2)] assms(3)
  have l: "bus_inv b'" "next_chan b' = next_chan b" "subs_of b' x = (if x = r then remove1 c (subs_of b r) else subs_of b x)"
    "ch_buf (channels b' n) = ch_buf (channels b n)" by simp_all
  have "distinct (subs_of b r)" using assms(1) unfolding bus_inv_def by blast
  then have "set (remove1 c (subs_of b r)) = set (subs_of b r) - {c}" by (rule set_remove1_eq)
  with l show "bus_inv b'" "next_chan b' = next_chan b" "set (subs_of b x) - {c} \<subseteq> set (subs_of b' x)"
    "ch_buf (channels b' n) = ch_buf (channels b n)" by auto
qed

text \<open>Replacing an active run by one with the same identity and channel.\<close>

lemma set_list_update: "y \<in> set (xs[i := x]) \<Longrightarrow> y = x \<or> y \<in> set xs"
  using set_update_subset_insert by fastforce

lemma map_update_same:
  assumes "i < length xs" "f x = f (xs ! i)"
  shows "map f (xs[i := x]) = map f xs"
  using assms by (simp add: map_update list_update_same_conv)

lemma bus_ok_update:
  assumes "bus_ok s" "i < length (en_active s)" "a_chan a' = a_chan (en_active s ! i)" "a_runID a' = a_runID (en_active s ! i)"
    "a_pc a' = Ended \<or> a_pc (en_active s ! i) \<noteq> Ended"
    "bus_inv b" "next_chan b = next_chan (en_bus s)" "subs_of b = subs_of (en_bus s)"
  shows "bus_ok (s\<lparr>en_bus := b, en_active := (en_active s)[i := a']\<rparr>)"
  using assms nth_mem [OF assms(2)]
  by (auto simp: bus_ok_def map_update_same [OF assms(2), of a_chan] dest!: set_list_update)

lemma goroutine_simps [simp]:
  "a_runID (goroutine V req w d r c) = r" "a_chan (goroutine V req w d r c) = c" "a_pc (goroutine V req w d r c) = ToStart"
  "re_runID (a_env (goroutine V req w d r c)) = r" "a_dag (goroutine V req w d r c) = d"
  "a_cfg (goroutine V req w d r c) = initial_cfg (a_env (goroutine V req w d r c)) d (rq_InitialData req)"
  "a_timeout (goroutine V req w d r c) = runTimeout (wf_TimeoutSeconds w)"
  by (simp_all add: goroutine_def Let_def)

lemma Run_cases:
  assumes "Run V uuid now req s = (res, s')"
  obtains (refused) e where "res = Inl e" "s' = s"
  | (not_created) w e db' where "CreateRun (we_sql V) uuid (newRun V now req w) (en_db s) = (Inl e, db')" "res = Inl (CreateRunFailed e)" "s' = s\<lparr>en_db := db'\<rparr>"
  | (started) w d run db' where "Build (wf_Nodes w) (wf_Edges w) = Inr d"
      "CreateRun (we_sql V) uuid (newRun V now req w) (en_db s) = (Inr run, db')"
      "res = Inr \<lparr> rh_RunID = run_ID run, rh_Events = fst (Subscribe (run_ID run) (en_bus s)) \<rparr>"
      "s' = s\<lparr>en_db := db', en_bus := snd (Subscribe (run_ID run) (en_bus s)),
              en_active := en_active s @ [goroutine V req w d (run_ID run) (fst (Subscribe (run_ID run) (en_bus s)))]\<rparr>"
      "we_GetWorkflow V (rq_WorkflowID req) = Inr w"
proof (cases "we_GetWorkflow V (rq_WorkflowID req)")
  case (Inl e)
  with assms show ?thesis by (intro refused [of "GetWorkflowFailed e"]) (simp_all add: Run_def)
next
  case w: (Inr w)
  show ?thesis
  proof (cases "Build (wf_Nodes w) (wf_Edges w)")
    case (Inl e)
    with w assms show ?thesis by (intro refused [of "BuildFailed e"]) (simp_all add: Run_def)
  next
    case d: (Inr d)
    obtain x db' where x: "CreateRun (we_sql V) uuid (newRun V now req w) (en_db s) = (x, db')" by fastforce
    show ?thesis
    proof (cases x)
      case (Inl e)
      with w d x assms not_created show ?thesis by (simp add: Run_def)
    next
      case (Inr run)
      with w d x assms started [of w d run db'] show ?thesis by (simp add: Run_def split: prod.splits)
    qed
  qed
qed

lemma pc_irrelevant [simp]:
  "outcome (a\<lparr>a_pc := p\<rparr>) = outcome a" "terminalEvent (a\<lparr>a_pc := p\<rparr>) = terminalEvent a"
  "statusUpdate (a\<lparr>a_pc := p\<rparr>) = statusUpdate a" "outputMap V (a\<lparr>a_pc := p\<rparr>) = outputMap V a"
  "nodeResultsOf (a\<lparr>a_pc := p\<rparr>) = nodeResultsOf a"
  by (simp_all add: outcome_def terminalEvent_def statusUpdate_def outputMap_def nodeResultsOf_def split: sum.split)

lemma tailStep_cases:
  assumes "tailStep V now a s = Some (a', s')"
  obtains (update) "a_pc a = ToUpdateStatus" "a' = a\<lparr>a_pc := ToSaveResults\<rparr>"
      "s' = s\<lparr>en_db := snd (UpdateRunStatus (we_sql V) (we_json V) now (a_runID a) (statusUpdate a) (Some (outputMap V a)) (en_db s))\<rparr>"
  | (save) "a_pc a = ToSaveResults" "a' = a\<lparr>a_pc := ToPublish\<rparr>"
      "s' = s\<lparr>en_db := snd (SaveRunNodeResults (we_sql V) (we_json V) (a_runID a) (nodeResultsOf a) (en_db s))\<rparr>"
  | (publish) b where "a_pc a = ToPublish" "a' = a\<lparr>a_pc := ToCleanup\<rparr>" "s' = s\<lparr>en_bus := b\<rparr>" "Publish (terminalEvent a) (en_bus s) = Some b"
  | (clean) b where "a_pc a = ToCleanup" "a' = a\<lparr>a_pc := Ended\<rparr>" "s' = s\<lparr>en_bus := b\<rparr>" "cleanup (a_runID a) (a_chan a) (en_bus s) = Some b"
proof (cases "a_pc a")
  case ToUpdateStatus
  with assms update show ?thesis by (auto simp: tailStep_def)
next
  case ToSaveResults
  with assms save show ?thesis by (auto simp: tailStep_def)
next
  case ToPublish
  with assms publish show ?thesis by (auto simp: tailStep_def)
next
  case ToCleanup
  with assms clean show ?thesis by (auto simp: tailStep_def)
qed (use assms in \<open>simp_all add: tailStep_def\<close>)

text \<open>Closing a run's own channel touches no other run's subscription.\<close>

lemma bus_ok_clean:
  assumes "bus_ok s" "i < length (en_active s)" "a = en_active s ! i" "a_chan a \<in> set (subs_of (en_bus s) (a_runID a))"
    "cleanup (a_runID a) (a_chan a) (en_bus s) = Some b" "a' = a\<lparr>a_pc := Ended\<rparr>"
  shows "bus_ok (s\<lparr>en_bus := b, en_active := (en_active s)[i := a']\<rparr>)"
proof -
  have inv: "bus_inv (en_bus s)" using assms(1) by (simp add: bus_ok_def)
  note b = cleanup_law [OF inv assms(4,5)]
  have d: "distinct (map a_chan ((en_active s)[i := a']))" "map a_chan ((en_active s)[i := a']) = map a_chan (en_active s)"
    using assms(1,2,3,6) map_update_same [of i "en_active s" a_chan a'] by (auto simp: bus_ok_def)
  have "a_chan x < next_chan b \<and> (a_pc x \<noteq> Ended \<longrightarrow> a_chan x \<in> set (subs_of b (a_runID x)))"
    if x: "x \<in> set ((en_active s)[i := a'])" for x
  proof (cases "x = a'")
    case True
    with assms b(2) show ?thesis by (auto simp: bus_ok_def)
  next
    case False
    from x obtain j where j: "j < length (en_active s)" "x = (en_active s)[i := a'] ! j" by (auto simp: in_set_conv_nth)
    with False have ij: "i \<noteq> j" using assms(2) by auto
    then have xj: "x = en_active s ! j" "x \<in> set (en_active s)" using j by auto
    then have "a_chan x \<noteq> a_chan a" using ij j(1) assms(1,2,3) by (auto simp: bus_ok_def distinct_conv_nth)
    with xj assms(1) b(2,3) show ?thesis by (auto simp: bus_ok_def)
  qed
  with b d show ?thesis by (simp add: bus_ok_def)
qed

lemma estep_bus: "estep V world s s' \<Longrightarrow> bus_ok s \<Longrightarrow> bus_ok s'"
proof (induction rule: estep.induct)
  case (launch uuid now req s res s')
  from launch(1) show ?case
  proof (cases rule: Run_cases)
    case (started w d run db')
    have "bus_inv (en_bus s)" using launch(2) by (simp add: bus_ok_def)
    from node_bus.register_law [OF this, of "run_ID run"] started(4) launch(2) show ?thesis
      by (auto simp: bus_ok_def less_Suc_eq)
  qed (use launch(2) in \<open>auto simp: bus_ok_def\<close>)
next
  case (dag_start i s a b)
  then have "bus_inv (en_bus s)" by (simp add: bus_ok_def)
  from publishAll_law [OF this, of "c_events (a_cfg a)"] dag_start have
    "bus_inv b" "next_chan b = next_chan (en_bus s)" "subs_of b = subs_of (en_bus s)" by auto
  with bus_ok_update [OF dag_start.prems dag_start.hyps(1)] dag_start.hyps show ?case by simp
next
  case (dag_step i s a c' b)
  then have "bus_inv (en_bus s)" by (simp add: bus_ok_def)
  from publishAll_law [OF this, of "drop (length (c_events (a_cfg a))) (c_events c')"] dag_step have
    "bus_inv b" "next_chan b = next_chan (en_bus s)" "subs_of b = subs_of (en_bus s)" by auto
  with bus_ok_update [OF dag_step.prems dag_step.hyps(1)] dag_step.hyps show ?case by simp
next
  case (dag_done i s a)
  then have "bus_ok (s\<lparr>en_bus := en_bus s, en_active := (en_active s)[i := a\<lparr>a_pc := ToUpdateStatus\<rparr>]\<rparr>)"
    by (intro bus_ok_update) (auto simp: bus_ok_def)
  then show ?case by simp
next
  case (tail i s a now a' s')
  have inv: "bus_inv (en_bus s)" and a: "a \<in> set (en_active s)" using tail by (auto simp: bus_ok_def)
  from tail(3) show ?case
  proof (cases rule: tailStep_cases)
    case update
    with bus_ok_update [OF tail.prems tail.hyps(1), of a' "en_bus s"] tail.hyps(2) inv show ?thesis by (simp add: bus_ok_def)
  next
    case save
    with bus_ok_update [OF tail.prems tail.hyps(1), of a' "en_bus s"] tail.hyps(2) inv show ?thesis by (simp add: bus_ok_def)
  next
    case (publish b)
    from node_bus.publish_law [OF inv, of "terminalEvent a"] publish
    have "bus_inv b" "next_chan b = next_chan (en_bus s)" "subs_of b = subs_of (en_bus s)" by auto
    with bus_ok_update [OF tail.prems tail.hyps(1), of a' b] tail.hyps(2) publish show ?thesis by simp
  next
    case (clean b)
    have own: "a_chan a \<in> set (subs_of (en_bus s) (a_runID a))" using a tail.prems clean by (auto simp: bus_ok_def)
    then have "bus_ok ((s\<lparr>en_bus := b, en_active := (en_active s)[i := a']\<rparr>))"
      using bus_ok_clean [OF tail.prems tail.hyps(1)] clean tail.hyps(2) by simp
    with clean show ?thesis by simp
  qed
next
  case (subscribe s r)
  then have "bus_inv (en_bus s)" by (simp add: bus_ok_def)
  from node_bus.register_law [OF this, of r] subscribe show ?case by (auto simp: bus_ok_def less_Suc_eq)
next
  case (unsubscribe c s r b)
  then have inv: "bus_inv (en_bus s)" by (simp add: bus_ok_def)
  note b = cleanup_law [OF inv unsubscribe(1,3)]
  have "a_chan x \<in> set (subs_of b (a_runID x))" if "x \<in> set (en_active s)" "a_pc x \<noteq> Ended" for x
  proof -
    have "a_chan x \<noteq> c" "a_chan x \<in> set (subs_of (en_bus s) (a_runID x))" using that unsubscribe(2,4) by (auto simp: bus_ok_def)
    with b(3) show ?thesis by blast
  qed
  with b(1,2) unsubscribe(4) show ?case by (simp add: bus_ok_def)
next
  case (take s c)
  then show ?case by (auto simp: bus_ok_def take_event_def bus_inv_def intro: le_trans [OF diff_le_self])
qed

lemma ereach_bus: "ereach V world W s \<Longrightarrow> bus_ok s"
  by (induction rule: ereach.induct)
     (auto simp: bus_ok_def engine_start_def NewEventBus_def bus_inv_empty dest: estep_bus)

section \<open>Terminal events\<close>

definition terminal :: "node_event \<Rightarrow> bool" where
  "terminal ev \<longleftrightarrow> ev_Type ev \<in> {EventRunSucceeded, EventRunFailed}"

definition announced :: "active \<Rightarrow> bool" where
  "announced a \<longleftrightarrow> a_pc a \<in> {ToCleanup, Ended}"

definition ev_ok :: "eng \<Rightarrow> bool" where
  "ev_ok s \<longleftrightarrow>
     (\<forall>a \<in> set (en_active s). \<forall>e \<in> set (c_events (a_cfg a)). \<not> terminal e) \<and>
     (\<forall>c. \<forall>ev \<in> set (ch_buf (channels (en_bus s) c)). terminal ev \<longrightarrow> (\<exists>a \<in> set (en_active s). announced a \<and> ev = terminalEvent a))"

lemma node_events_not_terminal:
  "t \<notin> {EventRunSucceeded, EventRunFailed} \<Longrightarrow> \<not> terminal (stateEvent E t i)" "\<not> terminal (resultEvent E r)"
  "e \<in> set (startEvents E i out) \<Longrightarrow> \<not> terminal e"
  by (cases out; auto simp: terminal_def stateEvent_def resultEvent_def split: option.splits)+

lemma step_events:
  assumes "step E d world c c'" "\<forall>e \<in> set (c_events c). \<not> terminal e"
  shows "\<forall>e \<in> set (c_events c'). \<not> terminal e"
  using assms by cases (auto simp: node_events_not_terminal dest: node_events_not_terminal(3))

lemma announced_update:
  assumes "x \<in> set xs" "announced x" "i < length xs" "announced (xs ! i) \<Longrightarrow> announced a' \<and> terminalEvent a' = terminalEvent (xs ! i)"
  shows "\<exists>a \<in> set (xs[i := a']). announced a \<and> terminalEvent a = terminalEvent x"
proof -
  from assms(1) obtain j where j: "j < length xs" "x = xs ! j" by (auto simp: in_set_conv_nth)
  then have "xs[i := a'] ! j \<in> set (xs[i := a'])" by simp
  with j assms(2,3,4) show ?thesis by (cases "i = j") (auto intro!: bexI [of _ "xs[i := a'] ! j"])
qed

lemma ev_ok_update:
  assumes "ev_ok s" "i < length (en_active s)" "\<forall>e \<in> set (c_events (a_cfg a')). \<not> terminal e"
    "announced (en_active s ! i) \<Longrightarrow> announced a' \<and> terminalEvent a' = terminalEvent (en_active s ! i)"
    "\<And>c ev. ev \<in> set (ch_buf (channels b c)) \<Longrightarrow> terminal ev \<Longrightarrow> ev \<in> set (ch_buf (channels (en_bus s) c)) \<or> (announced a' \<and> ev = terminalEvent a')"
  shows "ev_ok (s\<lparr>en_bus := b, en_active := (en_active s)[i := a']\<rparr>)"
proof -
  have "\<exists>a \<in> set ((en_active s)[i := a']). announced a \<and> ev = terminalEvent a"
    if ev: "ev \<in> set (ch_buf (channels b c))" "terminal ev" for c ev
  proof (cases "announced a' \<and> ev = terminalEvent a'")
    case True
    with assms(2) show ?thesis by (auto intro: bexI [of _ a'] simp: set_update_memI)
  next
    case False
    with assms(1) assms(5) [OF ev] ev(2) obtain x where "x \<in> set (en_active s)" "announced x" "ev = terminalEvent x"
      unfolding ev_ok_def by blast
    with announced_update [OF this(1,2) assms(2,4)] show ?thesis by metis
  qed
  moreover have "\<forall>a \<in> set ((en_active s)[i := a']). \<forall>e \<in> set (c_events (a_cfg a)). \<not> terminal e"
    using assms(1,3) by (auto simp: ev_ok_def dest!: set_list_update)
  ultimately show ?thesis by (auto simp: ev_ok_def)
qed

lemma set_tlD: "x \<in> set (tl xs) \<Longrightarrow> x \<in> set xs"
  by (cases xs) auto

lemma estep_ev: "estep V world s s' \<Longrightarrow> bus_ok s \<Longrightarrow> ev_ok s \<Longrightarrow> ev_ok s'"
proof (induction rule: estep.induct)
  case (launch uuid now req s res s')
  from launch(1) show ?case
  proof (cases rule: Run_cases)
    case (started w d run db')
    have "bus_inv (en_bus s)" using launch(2) by (simp add: bus_ok_def)
    from node_bus.register_law [OF this, of "run_ID run"] started(4) launch(3) show ?thesis
      by (auto simp: ev_ok_def initial_cfg_def node_events_not_terminal)
  qed (use launch(3) in \<open>auto simp: ev_ok_def\<close>)
next
  case (dag_start i s a b)
  have inv: "bus_inv (en_bus s)" and nt: "\<forall>e \<in> set (c_events (a_cfg a)). \<not> terminal e"
    using dag_start by (auto simp: bus_ok_def ev_ok_def)
  from publishAll_law [OF inv, of "c_events (a_cfg a)"] dag_start.hyps(4)
  have "\<forall>x. set (ch_buf (channels b x)) \<subseteq> set (ch_buf (channels (en_bus s) x)) \<union> set (c_events (a_cfg a))" by auto
  then show ?case using dag_start.hyps nt
    by (intro ev_ok_update [OF dag_start.prems(2) dag_start.hyps(1)]) (auto simp: announced_def)
next
  case (dag_step i s a c' b)
  have inv: "bus_inv (en_bus s)" and nt: "\<forall>e \<in> set (c_events (a_cfg a)). \<not> terminal e"
    using dag_step by (auto simp: bus_ok_def ev_ok_def)
  note nt' = step_events [OF dag_step.hyps(4) nt]
  from publishAll_law [OF inv, of "drop (length (c_events (a_cfg a))) (c_events c')"] dag_step.hyps(5)
  have "\<forall>x. set (ch_buf (channels b x)) \<subseteq> set (ch_buf (channels (en_bus s) x)) \<union> set (c_events c')"
    using set_drop_subset [of _ "c_events c'"] by fastforce
  then show ?case using dag_step.hyps nt'
    by (intro ev_ok_update [OF dag_step.prems(2) dag_step.hyps(1)]) (auto simp: announced_def)
next
  case (dag_done i s a)
  have "ev_ok (s\<lparr>en_bus := en_bus s, en_active := (en_active s)[i := a\<lparr>a_pc := ToUpdateStatus\<rparr>]\<rparr>)"
    using dag_done by (intro ev_ok_update) (auto simp: announced_def ev_ok_def)
  then show ?case by simp
next
  case (tail i s a now a' s')
  have inv: "bus_inv (en_bus s)" and a: "a \<in> set (en_active s)" and nt: "\<forall>e \<in> set (c_events (a_cfg a)). \<not> terminal e"
    using tail by (auto simp: bus_ok_def ev_ok_def)
  note up = ev_ok_update [OF tail.prems(2) tail.hyps(1), of a']
  from tail(3) show ?case
  proof (cases rule: tailStep_cases)
    case update
    with up [of "en_bus s"] tail.hyps(2) nt show ?thesis by (simp add: announced_def ev_ok_def)
  next
    case save
    with up [of "en_bus s"] tail.hyps(2) nt show ?thesis by (simp add: announced_def ev_ok_def)
  next
    case (publish b)
    from node_bus.publish_law [OF inv, of "terminalEvent a"] publish(4)
    have b: "\<forall>x. set (ch_buf (channels b x)) \<subseteq> set (ch_buf (channels (en_bus s) x)) \<union> {terminalEvent a}" by fastforce
    have "terminalEvent a' = terminalEvent a" using publish(2) by simp
    with b publish tail.hyps(2) nt have "ev_ok (s\<lparr>en_bus := b, en_active := (en_active s)[i := a']\<rparr>)"
      by (intro up) (auto simp: announced_def)
    with publish(3) show ?thesis by simp
  next
    case (clean b)
    have own: "a_chan a \<in> set (subs_of (en_bus s) (a_runID a))" using a tail.prems(1) clean(1) by (auto simp: bus_ok_def)
    have "terminalEvent a' = terminalEvent a" using clean(2) by simp
    with cleanup_law(4) [OF inv own clean(4)] clean tail.hyps(2) nt have "ev_ok (s\<lparr>en_bus := b, en_active := (en_active s)[i := a']\<rparr>)"
      by (intro up) (auto simp: announced_def)
    with clean(3) show ?thesis by simp
  qed
next
  case (subscribe s r)
  then have "bus_inv (en_bus s)" by (simp add: bus_ok_def)
  from node_bus.register_law [OF this, of r] subscribe show ?case by (auto simp: ev_ok_def)
next
  case (unsubscribe c s r b)
  then have inv: "bus_inv (en_bus s)" by (simp add: bus_ok_def)
  from cleanup_law(4) [OF inv unsubscribe(1,3)] unsubscribe(5) show ?case by (simp add: ev_ok_def)
next
  case (take s c)
  then show ?case by (auto simp: ev_ok_def take_event_def dest: set_tlD split: if_splits)
qed

lemma ereach_ev: "ereach V world W s \<Longrightarrow> ev_ok s"
proof (induction rule: ereach.induct)
  case start
  then show ?case by (simp add: ev_ok_def engine_start_def NewEventBus_def emptyBus_def)
next
  case (move s s')
  with estep_ev ereach_bus show ?case by blast
qed

section \<open>The rows of active runs\<close>

text \<open>
  What the code relies on from the JSON encoder and the column: an output map and a result map
  can be encoded, and what the column prints back is not empty and decodes.
\<close>

definition json_ok :: "sql \<Rightarrow> json_lib \<Rightarrow> bool" where
  "json_ok q J \<longleftrightarrow>
     (\<forall>m. \<exists>t. marshal_map J m = Some t \<and> sql_json q t \<noteq> [] \<and> unmarshal_map J (sql_json q t) \<noteq> None) \<and>
     (\<forall>m. \<exists>t. marshal_results J m = Some t \<and> sql_json q t \<noteq> [] \<and> unmarshal_results J (sql_json q t) \<noteq> None)"

definition status_written :: "workflow_engine \<Rightarrow> active \<Rightarrow> db_run \<Rightarrow> bool" where
  "status_written V a row \<longleftrightarrow> dr_Status row = statusUpdate a \<and> dr_FinishedAt row \<noteq> None \<and>
     dr_FinalOutput row = (if statusUpdate a = RunStatusSucceeded then marshal_map (we_json V) (outputMap V a) else None) \<and>
     dr_ErrorDetail row = (if statusUpdate a = RunStatusSucceeded then None else marshal_map (we_json V) (outputMap V a))"

definition persisted :: "workflow_engine \<Rightarrow> active \<Rightarrow> db_run \<Rightarrow> bool" where
  "persisted V a row \<longleftrightarrow>
     (a_pc a \<in> {ToSaveResults, ToPublish, ToCleanup, Ended} \<longrightarrow> status_written V a row) \<and>
     (a_pc a \<in> {ToPublish, ToCleanup, Ended} \<longrightarrow> dr_NodeResults row = marshal_results (we_json V) (nodeResultsOf a))"

definition db_ok :: "workflow_engine \<Rightarrow> eng \<Rightarrow> bool" where
  "db_ok V s \<longleftrightarrow> distinct (run_keys (we_sql V) (tables (en_db s))) \<and>
     distinct (map (\<lambda>a. sql_key (we_sql V) (a_runID a)) (en_active s)) \<and>
     (\<forall>a \<in> set (en_active s). \<exists>row. runRow (we_sql V) (tables (en_db s)) (a_runID a) = Some row \<and> persisted V a row)"

lemma UpdateRunStatus_reliable:
  assumes "reliable q" "marshal_map J m = Some t"
  shows "tables (snd (UpdateRunStatus q J now i st (Some m) d)) =
    updateRuns q i (\<lambda>row. row\<lparr> dr_Status := st, dr_FinishedAt := Some now,
       dr_FinalOutput := if st = RunStatusSucceeded then Some t else None,
       dr_ErrorDetail := if st = RunStatusSucceeded then None else Some t \<rparr>) (tables d)"
  using assms by (simp add: UpdateRunStatus_def exec_reliable)

lemma SaveRunNodeResults_reliable:
  assumes "reliable q" "marshal_results J m = Some t"
  shows "tables (snd (SaveRunNodeResults q J i m d)) = updateRuns q i (\<lambda>row. row\<lparr>dr_NodeResults := Some t\<rparr>) (tables d)"
  using assms by (simp add: SaveRunNodeResults_def exec_reliable)

text \<open>One active run moves on and writes to its own row only.\<close>

lemma db_ok_update:
  assumes ok: "db_ok V s" and i: "i < length (en_active s)" and a: "a = en_active s ! i" "a_runID a' = a_runID a"
    and f: "\<And>row. dr_ID (f row) = dr_ID row" and T: "tables db' = updateRuns (we_sql V) (a_runID a) f (tables (en_db s))"
    and own: "\<And>row. persisted V a row \<Longrightarrow> persisted V a' (f row)"
  shows "db_ok V (s\<lparr>en_db := db', en_active := (en_active s)[i := a']\<rparr>)"
proof -
  let ?q = "we_sql V"
  have keys: "map (\<lambda>a. sql_key ?q (a_runID a)) ((en_active s)[i := a']) = map (\<lambda>a. sql_key ?q (a_runID a)) (en_active s)"
    using i a by (intro map_update_same) simp_all
  have "\<exists>row. runRow ?q (tables db') (a_runID x) = Some row \<and> persisted V x row" if x: "x \<in> set ((en_active s)[i := a'])" for x
  proof (cases "x = a'")
    case True
    from ok i a(1) obtain row where "runRow ?q (tables (en_db s)) (a_runID a) = Some row" "persisted V a row"
      unfolding db_ok_def using nth_mem [OF i] by blast
    with True own f a(2) show ?thesis by (auto simp: T runRow_update sql_eq_def)
  next
    case False
    from x obtain j where j: "j < length (en_active s)" "x = (en_active s)[i := a'] ! j" by (auto simp: in_set_conv_nth)
    with False have ij: "i \<noteq> j" using i by auto
    then have xj: "x = en_active s ! j" "x \<in> set (en_active s)" using j by auto
    have "sql_key ?q (a_runID a) \<noteq> sql_key ?q (a_runID x)"
      using ok ij i j(1) a(1) xj(1) by (auto simp: db_ok_def distinct_conv_nth)
    with ok xj(2) f show ?thesis by (auto simp: db_ok_def T runRow_update sql_eq_def)
  qed
  with ok keys f show ?thesis by (simp add: db_ok_def T run_keys_update)
qed

lemma db_ok_quiet:
  assumes "db_ok V s" "i < length (en_active s)" "a = en_active s ! i" "a_runID a' = a_runID a"
    "\<And>row. persisted V a row \<Longrightarrow> persisted V a' row"
  shows "db_ok V (s\<lparr>en_bus := b, en_active := (en_active s)[i := a']\<rparr>)"
proof -
  have "updateRuns (we_sql V) (a_runID a) (\<lambda>row. row) t = t" for t by (simp add: updateRuns_def)
  with db_ok_update [OF assms(1,2,3,4), of "\<lambda>row. row" "en_db s"] assms(5)
  have "db_ok V (s\<lparr>en_db := en_db s, en_active := (en_active s)[i := a']\<rparr>)" by simp
  then show ?thesis by (simp add: db_ok_def)
qed

lemma db_ok_launch:
  assumes "reliable (we_sql V)" "db_ok V s" "run_ID r = []" "CreateRun (we_sql V) uuid r (en_db s) = (Inr run, db')"
    "a_runID a = run_ID run" "a_pc a = ToStart"
  shows "db_ok V (s\<lparr>en_db := db', en_bus := b, en_active := en_active s @ [a]\<rparr>)"
proof -
  let ?q = "we_sql V" and ?row = "runWriteRow (r\<lparr>run_ID := uuid\<rparr>)" and ?T = "tables (en_db s)"
  from CreateRun_reliable [OF assms(1,4,3)] have c: "run = r\<lparr>run_ID := uuid\<rparr>" "runRow ?q ?T uuid = None"
    "tables db' = ?T\<lparr>t_runs := t_runs ?T @ [?row]\<rparr>" by auto
  have id: "dr_ID ?row = uuid" "a_runID a = uuid" using c(1) assms(5) by (simp_all add: runWriteRow_def)
  have new: "\<not> sql_eq ?q uuid (a_runID x)" if "x \<in> set (en_active s)" for x
  proof
    assume "sql_eq ?q uuid (a_runID x)"
    with c(2) have "runRow ?q ?T (a_runID x) = None" by (simp add: runRow_None sql_eq_def)
    with assms(2) that show False by (auto simp: db_ok_def)
  qed
  have "distinct (run_keys ?q (tables db'))"
    using assms(2) c(2) id(1) by (auto simp: db_ok_def c(3) run_keys_def runRow_None)
  moreover have "distinct (map (\<lambda>a. sql_key ?q (a_runID a)) (en_active s @ [a]))"
    using assms(2) new id(2) by (auto simp: db_ok_def sql_eq_def)
  moreover have "\<exists>row. runRow ?q (tables db') (a_runID x) = Some row \<and> persisted V x row" if "x \<in> set (en_active s @ [a])" for x
  proof (cases "x \<in> set (en_active s)")
    case True
    with new assms(2) show ?thesis by (auto simp: db_ok_def c(3) runRow_append [OF id(1) c(2)])
  next
    case False
    with that id(2) assms(6) show ?thesis by (auto simp: c(3) runRow_append [OF id(1) c(2)] sql_eq_def persisted_def)
  qed
  ultimately show ?thesis by (simp add: db_ok_def)
qed

lemma db_ok_cong: "tables (en_db s') = tables (en_db s) \<Longrightarrow> en_active s' = en_active s \<Longrightarrow> db_ok V s' = db_ok V s"
  by (simp add: db_ok_def)

lemma estep_db:
  assumes q: "reliable (we_sql V)" and J: "json_ok (we_sql V) (we_json V)"
  shows "estep V world s s' \<Longrightarrow> db_ok V s \<Longrightarrow> db_ok V s'"
proof (induction rule: estep.induct)
  case (launch uuid now req s res s')
  have id: "run_ID (newRun V now req w) = []" for w by (simp add: newRun_def)
  from launch(1) show ?case
  proof (cases rule: Run_cases)
    case (not_created w e db')
    from CreateRun_reliable [OF q not_created(1) id] have "tables db' = tables (en_db s)" by auto
    with not_created(3) launch(2) show ?thesis by (simp add: db_ok_def)
  next
    case (started w d run db')
    with db_ok_launch [OF q launch(2) id started(2)] show ?thesis by simp
  qed (use launch(2) in simp)
next
  case (tail i s a now a' s')
  from J obtain t where t: "marshal_map (we_json V) (outputMap V a) = Some t" by (auto simp: json_ok_def)
  from J obtain u where u: "marshal_results (we_json V) (nodeResultsOf a) = Some u" by (auto simp: json_ok_def)
  from tail(3) show ?case
  proof (cases rule: tailStep_cases)
    case update
    from db_ok_update [OF tail.prems tail.hyps(1,2), of a', OF _ _ UpdateRunStatus_reliable [OF q t]] update t show ?thesis
      by (simp add: persisted_def status_written_def)
  next
    case save
    from db_ok_update [OF tail.prems tail.hyps(1,2), of a', OF _ _ SaveRunNodeResults_reliable [OF q u]] save u show ?thesis
      by (simp add: persisted_def status_written_def)
  next
    case (publish b)
    from db_ok_quiet [OF tail.prems tail.hyps(1,2), of a' b] publish show ?thesis
      by (simp add: persisted_def status_written_def)
  next
    case (clean b)
    from db_ok_quiet [OF tail.prems tail.hyps(1,2), of a' b] clean show ?thesis
      by (simp add: persisted_def status_written_def)
  qed
next
  case (dag_start i s a b)
  then show ?case by (intro db_ok_quiet) (simp_all add: persisted_def)
next
  case (dag_step i s a c' b)
  then show ?case by (intro db_ok_quiet) (simp_all add: persisted_def)
next
  case (dag_done i s a)
  then have "db_ok V (s\<lparr>en_bus := en_bus s, en_active := (en_active s)[i := a\<lparr>a_pc := ToUpdateStatus\<rparr>]\<rparr>)"
    by (intro db_ok_quiet) (simp_all add: persisted_def)
  then show ?case by simp
qed (simp_all add: db_ok_def)

lemma ereach_db:
  assumes "reliable (we_sql V)" "json_ok (we_sql V) (we_json V)"
  shows "ereach V world W s \<Longrightarrow> db_ok V s"
proof (induction rule: ereach.induct)
  case start
  show ?case by (simp add: db_ok_def engine_start_def run_keys_def)
next
  case (move s s')
  then show ?case by (blast intro: estep_db [OF assms])
qed

section \<open>One executable schedule\<close>

definition eng1 :: "workflow_engine \<Rightarrow> behaviour \<Rightarrow> eng \<Rightarrow> eng option" where
  "eng1 V beh s =
     (case en_active s of
        [] \<Rightarrow> None
      | a # rest \<Rightarrow>
          (case a_pc a of
             ToStart \<Rightarrow> map_option (\<lambda>b. s\<lparr> en_bus := b, en_active := a\<lparr>a_pc := InDAG\<rparr> # rest \<rparr>) (publishAll (c_events (a_cfg a)) (en_bus s))
           | InDAG \<Rightarrow>
               (if finished (a_cfg a) then Some (s\<lparr> en_active := a\<lparr>a_pc := ToUpdateStatus\<rparr> # rest \<rparr>)
                else (case drive1 (a_env a) (a_dag a) beh (a_cfg a) of
                        None \<Rightarrow> None
                      | Some c' \<Rightarrow> map_option (\<lambda>b. s\<lparr> en_bus := b, en_active := a\<lparr>a_cfg := c'\<rparr> # rest \<rparr>)
                                     (publishAll (drop (length (c_events (a_cfg a))) (c_events c')) (en_bus s))))
           | _ \<Rightarrow> map_option (\<lambda>(a', s'). s'\<lparr> en_active := a' # rest \<rparr>) (tailStep V 1 a s)))"

fun driveEng :: "nat \<Rightarrow> workflow_engine \<Rightarrow> behaviour \<Rightarrow> eng \<Rightarrow> eng" where
  "driveEng 0 V beh s = s"
| "driveEng (Suc n) V beh s = (case eng1 V beh s of None \<Rightarrow> s | Some s' \<Rightarrow> driveEng n V beh s')"

lemma eng1_step:
  assumes "eng1 V beh s = Some s'"
  shows "estep V (obeys beh) s s'"
proof -
  obtain a rest where l: "en_active s = a # rest" using assms by (auto simp: eng1_def split: list.splits)
  have z: "0 < length (en_active s)" "a = en_active s ! 0" using l by simp_all
  have "tailStep V 1 a s = Some (a', s'') \<Longrightarrow> en_active s'' = en_active s" for a' s''
    by (auto simp: tailStep_def split: tail_pc.splits)
  then have t: "estep V (obeys beh) s (s''\<lparr>en_active := a' # rest\<rparr>)" if "tailStep V 1 a s = Some (a', s'')" for a' s''
    using estep.tail [OF z that] that l by simp
  show ?thesis
  proof (cases "a_pc a")
    case ToStart
    with assms l estep.dag_start [OF z ToStart] show ?thesis by (auto simp: eng1_def)
  next
    case InDAG
    show ?thesis
    proof (cases "finished (a_cfg a)")
      case True
      with assms l InDAG estep.dag_done [OF z InDAG True] show ?thesis by (auto simp: eng1_def)
    next
      case False
      with assms l InDAG obtain c' b where c': "drive1 (a_env a) (a_dag a) beh (a_cfg a) = Some c'"
        "publishAll (drop (length (c_events (a_cfg a))) (c_events c')) (en_bus s) = Some b"
        "s' = s\<lparr> en_bus := b, en_active := a\<lparr>a_cfg := c'\<rparr> # rest \<rparr>" by (auto simp: eng1_def split: option.splits)
      with estep.dag_step [OF z InDAG drive1_step [OF c'(1)] c'(2)] l show ?thesis by simp
    qed
  qed (use assms l t in \<open>auto simp: eng1_def\<close>)
qed

lemma driveEng_reach: "ereach V (obeys beh) W s \<Longrightarrow> ereach V (obeys beh) W (driveEng n V beh s)"
  by (induction n V beh s rule: driveEng.induct) (auto split: option.splits intro: ereach.move eng1_step)

definition sample_json :: json_lib where
  "sample_json = \<lparr> marshal_map = (\<lambda>_. Some ''{}''), unmarshal_map = (\<lambda>_. Some []),
     marshal_results = (\<lambda>_. Some ''{}''), unmarshal_results = (\<lambda>_. Some []) \<rparr>"

definition sample_sql :: sql where
  "sample_sql = \<lparr> sql_outcome = (\<lambda>_. Done), sql_key = (\<lambda>s. s), sql_json = (\<lambda>s. s) \<rparr>"

definition sample_workflow :: workflow where
  "sample_workflow = \<lparr> wf_ID = ''w'', wf_Name = [], wf_Description = [],
     wf_Trigger = \<lparr> tr_Kind = ''manual'', tr_CronExpr = [], tr_KafkaBrokers = [], tr_KafkaTopic = [], tr_KafkaGroupID = [], tr_SQSQueueURL = [], tr_SQSRegion = [] \<rparr>,
     wf_TimeoutSeconds = 0, wf_Nodes = branch_nodes, wf_Edges = branch_edges, wf_InitialDataSchema = [] \<rparr>"

definition sample_engine :: workflow_engine where
  "sample_engine = \<lparr> we_sql = sample_sql, we_json = sample_json, we_GetWorkflow = (\<lambda>_. Inr sample_workflow),
     we_LatestVersion = (\<lambda>_. Inr (Some 1)), we_registry = re_registry sample_env, we_libs = sample_libs, we_errText = (\<lambda>_. ''failed'') \<rparr>"

definition sample_request :: run_request where
  "sample_request = \<lparr> rq_WorkflowID = ''w'', rq_InitialData = [], rq_TriggeredBy = ''manual'', rq_NodeMocks = [], rq_WorkflowVersionNumber = None \<rparr>"

definition sample_launched :: eng where
  "sample_launched = snd (Run sample_engine ''r'' 0 sample_request (engine_start [(''w'', ''org'')]))"

definition sample_published :: eng where
  "sample_published = driveEng 15 sample_engine sample_behaviour sample_launched"

lemma sample_reach: "ereach sample_engine (obeys sample_behaviour) [(''w'', ''org'')] (driveEng n sample_engine sample_behaviour sample_launched)"
proof (rule driveEng_reach)
  have "estep sample_engine (obeys sample_behaviour) (engine_start [(''w'', ''org'')]) sample_launched"
    unfolding sample_launched_def by (rule estep.launch [OF prod.collapse [symmetric]])
  then show "ereach sample_engine (obeys sample_behaviour) [(''w'', ''org'')] sample_launched"
    by (rule ereach.move [OF ereach.start])
qed

section \<open>Properties\<close>

lemma GetRun_reliable:
  assumes "reliable q" "distinct (run_keys q (tables d))" "fst (GetRun q J org i d) \<noteq> Inl ErrNotFound"
  obtains row where "runRow q (tables d) i = Some row" "fst (GetRun q J org i d) = rowToRun q J row"
proof -
  let ?P = "\<lambda>row. \<exists>(i, o') \<in> set (t_workflows (tables d)). sql_eq q i (dr_WorkflowID row) \<and> (org \<noteq> [] \<longrightarrow> sql_eq q o' org)"
  show ?thesis
  proof (cases "filter (\<lambda>row. sql_eq q (dr_ID row) i \<and> ?P row) (t_runs (tables d))")
    case Nil
    then have "fst (GetRun q J org i d) = Inl ErrNotFound" using assms(1) by (simp add: GetRun_def andThen_def query_reliable)
    with assms(3) show ?thesis by blast
  next
    case (Cons row rest)
    from runRow_filter [OF assms(2) Cons] Cons assms(1) show ?thesis
      by (intro that [of row]) (simp_all add: GetRun_def andThen_def query_reliable)
  qed
qed

lemma decode_written:
  assumes "json_ok q J"
  shows "\<exists>m'. decode_col q (unmarshal_map J) (marshal_map J m) = Inr (Some m')"
    "\<exists>r'. decode_col q (unmarshal_results J) (marshal_results J r) = Inr (Some r')"
proof -
  from assms obtain t where "marshal_map J m = Some t" "sql_json q t \<noteq> []" "unmarshal_map J (sql_json q t) \<noteq> None"
    unfolding json_ok_def by blast
  then show "\<exists>m'. decode_col q (unmarshal_map J) (marshal_map J m) = Inr (Some m')" by (auto simp: decode_col_def)
  from assms obtain u where "marshal_results J r = Some u" "sql_json q u \<noteq> []" "unmarshal_results J (sql_json q u) \<noteq> None"
    unfolding json_ok_def by blast
  then show "\<exists>r'. decode_col q (unmarshal_results J) (marshal_results J r) = Inr (Some r')" by (auto simp: decode_col_def)
qed

lemma decode_None [simp]: "decode_col q un None = Inr None"
  by (simp add: decode_col_def)

text \<open>The record that \<open>GetRun\<close> decodes from a row whose outcome is written.\<close>

lemma final_record:
  assumes "json_ok (we_sql V) (we_json V)" "persisted V a row" "announced a"
  shows "\<exists>run. rowToRun (we_sql V) (we_json V) row = Inr run \<and> run_Status run = statusUpdate a \<and> run_FinishedAt run \<noteq> None \<and>
    (run_FinalOutput run \<noteq> None \<longleftrightarrow> statusUpdate a = RunStatusSucceeded) \<and>
    (run_ErrorDetail run \<noteq> None \<longleftrightarrow> statusUpdate a \<noteq> RunStatusSucceeded) \<and> run_NodeResults run \<noteq> None"
proof -
  from assms(2,3) have w: "status_written V a row" "dr_NodeResults row = marshal_results (we_json V) (nodeResultsOf a)"
    by (auto simp: persisted_def announced_def)
  from decode_written [OF assms(1)] obtain m r where
    "decode_col (we_sql V) (unmarshal_map (we_json V)) (marshal_map (we_json V) (outputMap V a)) = Inr (Some m)"
    "decode_col (we_sql V) (unmarshal_results (we_json V)) (marshal_results (we_json V) (nodeResultsOf a)) = Inr (Some r)" by blast
  with w show ?thesis by (cases "statusUpdate a = RunStatusSucceeded") (auto simp: rowToRun_def status_written_def)
qed

text \<open>
  C10. Persistence before notification, on a database whose statements succeed and with a JSON
  encoder that encodes the engine's maps. However several runs, subscribers and readers are
  interleaved, once a terminal event of a run is in any subscriber's buffer, a client whose
  tenant may see the run and who then calls \<open>GetRun\<close> sees the final record: the
  announced status, a finish time, the final output exactly when the run succeeded, the error
  detail exactly when it failed, and the node results. (\<open>ErrNotFound\<close> is the answer
  for another tenant. When the UPDATE of the status fails, \<open>Run\<close> only logs that and
  publishes the event all the same.)
\<close>

theorem terminal_event_after_persist:
  assumes "ereach V world W s" "reliable (we_sql V)" "json_ok (we_sql V) (we_json V)"
    "ev \<in> set (ch_buf (channels (en_bus s) c))" "ev_Type ev \<in> {EventRunSucceeded, EventRunFailed}"
    "fst (GetRun (we_sql V) (we_json V) org (ev_RunID ev) (en_db s)) \<noteq> Inl ErrNotFound"
  shows "\<exists>run. fst (GetRun (we_sql V) (we_json V) org (ev_RunID ev) (en_db s)) = Inr run \<and>
    run_Status run = (if ev_Type ev = EventRunSucceeded then RunStatusSucceeded else RunStatusFailed) \<and>
    run_FinishedAt run \<noteq> None \<and>
    (run_FinalOutput run \<noteq> None \<longleftrightarrow> ev_Type ev = EventRunSucceeded) \<and>
    (run_ErrorDetail run \<noteq> None \<longleftrightarrow> ev_Type ev = EventRunFailed) \<and> run_NodeResults run \<noteq> None"
proof -
  have db: "db_ok V s" by (rule ereach_db [OF assms(2,3,1)])
  from ereach_ev [OF assms(1)] assms(4,5) obtain a where a: "a \<in> set (en_active s)" "announced a" "ev = terminalEvent a"
    unfolding ev_ok_def terminal_def by blast
  have r: "ev_RunID ev = a_runID a" and t: "ev_Type ev = (if statusUpdate a = RunStatusSucceeded then EventRunSucceeded else EventRunFailed)"
    "statusUpdate a \<in> {RunStatusSucceeded, RunStatusFailed}"
    using a(3) by (auto simp: terminalEvent_def statusUpdate_def split: sum.splits)
  have "distinct (run_keys (we_sql V) (tables (en_db s)))" using db by (simp add: db_ok_def)
  from GetRun_reliable [OF assms(2) this assms(6)] obtain row where row: "runRow (we_sql V) (tables (en_db s)) (a_runID a) = Some row"
    "fst (GetRun (we_sql V) (we_json V) org (ev_RunID ev) (en_db s)) = rowToRun (we_sql V) (we_json V) row" using r by auto
  with db a(1) have "persisted V a row" by (auto simp: db_ok_def)
  from final_record [OF assms(3) this a(2)] row(2) t show ?thesis by auto
qed

lemma sample_reliable: "reliable (we_sql sample_engine)" "json_ok (we_sql sample_engine) (we_json sample_engine)"
  by (simp_all add: reliable_def json_ok_def sample_engine_def sample_sql_def sample_json_def)

theorem terminal_event_after_persist_witness:
  "\<exists>run. fst (GetRun (we_sql sample_engine) (we_json sample_engine) ''org'' ''r'' (en_db sample_published)) = Inr run \<and>
     run_Status run = RunStatusSucceeded"
proof -
  let ?ev = "ch_buf (channels (en_bus sample_published) 0) ! 9"
  have "9 < length (ch_buf (channels (en_bus sample_published) 0))" by code_simp
  then have ev: "?ev \<in> set (ch_buf (channels (en_bus sample_published) 0))" by simp
  have t: "ev_Type ?ev = EventRunSucceeded" by code_simp
  then have t': "ev_Type ?ev \<in> {EventRunSucceeded, EventRunFailed}" by simp
  have r: "ev_RunID ?ev = ''r''" by code_simp
  have nf: "isl (fst (GetRun (we_sql sample_engine) (we_json sample_engine) ''org'' ''r'' (en_db sample_published))) = False" by code_simp
  then have "fst (GetRun (we_sql sample_engine) (we_json sample_engine) ''org'' (ev_RunID ?ev) (en_db sample_published)) \<noteq> Inl ErrNotFound"
    unfolding r by (metis sum.disc(1))
  from terminal_event_after_persist [OF sample_reach [of 15, folded sample_published_def] sample_reliable ev t' this] t show ?thesis unfolding r by auto
qed

text \<open>
  C11. No goroutine of the engine gets stuck or panics on the bus: in every reachable state, with
  or without database failures, every active run owns an open subscription of its own until it
  ends, a run that has started can publish its pending events, and a run whose graph has finished
  can take its next action, so that the terminal event is published even when persisting failed.
\<close>

theorem engine_never_stuck:
  assumes "ereach V world W s" "i < length (en_active s)" "a = en_active s ! i"
  shows "distinct (map a_chan (en_active s)) \<and>
    (a_pc a \<noteq> Ended \<longrightarrow> a_chan a \<in> set (subs_of (en_bus s) (a_runID a)) \<and> ch_open (channels (en_bus s) (a_chan a))) \<and>
    (a_pc a = ToStart \<longrightarrow> publishAll (c_events (a_cfg a)) (en_bus s) \<noteq> None) \<and>
    (a_pc a \<notin> {ToStart, InDAG, Ended} \<longrightarrow>
       (\<exists>a' s'. tailStep V now a s = Some (a', s') \<and>
          a_pc a' = (case a_pc a of ToUpdateStatus \<Rightarrow> ToSaveResults | ToSaveResults \<Rightarrow> ToPublish | ToPublish \<Rightarrow> ToCleanup | _ \<Rightarrow> Ended)))"
proof -
  have ok: "bus_ok s" by (rule ereach_bus [OF assms(1)])
  then have inv: "bus_inv (en_bus s)" and own: "a_pc a \<noteq> Ended \<Longrightarrow> a_chan a \<in> set (subs_of (en_bus s) (a_runID a))"
    using assms(2,3) by (auto simp: bus_ok_def)
  have op: "a_pc a \<noteq> Ended \<Longrightarrow> ch_open (channels (en_bus s) (a_chan a))" using inv own unfolding bus_inv_def by blast
  have "publishAll (c_events (a_cfg a)) (en_bus s) \<noteq> None" using publishAll_law [OF inv] by fastforce
  moreover have "a_pc a = ToPublish \<Longrightarrow> Publish (terminalEvent a) (en_bus s) \<noteq> None" using node_bus.publish_law [OF inv] by fastforce
  moreover have "a_pc a = ToCleanup \<Longrightarrow> cleanup (a_runID a) (a_chan a) (en_bus s) \<noteq> None"
    using cleanup_inv [OF inv op own] by fastforce
  ultimately show ?thesis using ok own op by (cases "a_pc a") (auto simp: tailStep_def bus_ok_def)
qed

theorem engine_never_stuck_witness:
  "let s = driveEng 13 sample_engine sample_behaviour sample_launched
   in \<exists>a' s'. tailStep sample_engine 1 (en_active s ! 0) s = Some (a', s') \<and> a_pc a' = ToCleanup"
proof -
  let ?s = "driveEng 13 sample_engine sample_behaviour sample_launched"
  have l: "0 < length (en_active ?s)" by code_simp
  have "a_pc (en_active ?s ! 0) = ToPublish" by code_simp
  with engine_never_stuck [OF sample_reach l refl, of 1] show ?thesis by (simp add: Let_def)
qed

lemma runTimeout_pos: "0 < runTimeout n"
  by (simp add: runTimeout_def Let_def)

lemma runTimeout_seconds:
  "0 < n \<Longrightarrow> n \<le> 9223372036 \<Longrightarrow> runTimeout n = n * 1000000000"
  "-9223372036 \<le> n \<Longrightarrow> n \<le> 0 \<Longrightarrow> runTimeout n = 300 * 1000000000"
  by (simp_all add: runTimeout_def Let_def wrap64_id)

text \<open>
  Launching a run, on every branch. A refused launch (unknown workflow, invalid graph, no
  run record) starts no goroutine, publishes and subscribes nothing and leaves the run table as it
  was. A launch that succeeds has built the graph, has inserted one new row under the returned id,
  in status running and with the version the request named or else the latest one, and has
  added exactly one goroutine, whose deadline is positive: the workflow's timeout, or five
  minutes when that is not positive.
\<close>

theorem run_launch:
  assumes "Run V uuid now req s = (res, s')" "reliable (we_sql V)"
  shows "case res of
      Inl e \<Rightarrow> en_active s' = en_active s \<and> en_bus s' = en_bus s \<and> tables (en_db s') = tables (en_db s)
    | Inr h \<Rightarrow> (\<exists>w d a row.
        we_GetWorkflow V (rq_WorkflowID req) = Inr w \<and> Build (wf_Nodes w) (wf_Edges w) = Inr d \<and>
        rh_RunID h = uuid \<and> runRow (we_sql V) (tables (en_db s)) uuid = None \<and>
        t_runs (tables (en_db s')) = t_runs (tables (en_db s)) @ [row] \<and>
        dr_ID row = uuid \<and> dr_WorkflowID row = wf_ID w \<and> dr_Status row = RunStatusRunning \<and>
        dr_WorkflowVersionNumber row = versionOf V req w \<and>
        en_active s' = en_active s @ [a] \<and> a_runID a = uuid \<and> a_dag a = d \<and> a_chan a = rh_Events h \<and>
        0 < a_timeout a \<and>
        (0 < wf_TimeoutSeconds w \<and> wf_TimeoutSeconds w \<le> 9223372036 \<longrightarrow> a_timeout a = wf_TimeoutSeconds w * 1000000000) \<and>
        (- 9223372036 \<le> wf_TimeoutSeconds w \<and> wf_TimeoutSeconds w \<le> 0 \<longrightarrow> a_timeout a = 300 * 1000000000))"
  using assms(1)
proof (cases rule: Run_cases)
  case (not_created w e db')
  from CreateRun_reliable [OF assms(2) not_created(1)] have "tables db' = tables (en_db s)" by (auto simp: newRun_def)
  with not_created show ?thesis by simp
next
  case (started w d run db')
  have "we_GetWorkflow V (rq_WorkflowID req) = Inr w" by (rule started(5))
  moreover from CreateRun_reliable [OF assms(2) started(2)] have "run_ID run = uuid" "runRow (we_sql V) (tables (en_db s)) uuid = None"
    "t_runs (tables db') = t_runs (tables (en_db s)) @ [runWriteRow ((newRun V now req w)\<lparr>run_ID := uuid\<rparr>)]" by (auto simp: newRun_def)
  moreover have "dr_ID (runWriteRow ((newRun V now req w)\<lparr>run_ID := uuid\<rparr>)) = uuid"
    "dr_WorkflowID (runWriteRow ((newRun V now req w)\<lparr>run_ID := uuid\<rparr>)) = wf_ID w"
    "dr_Status (runWriteRow ((newRun V now req w)\<lparr>run_ID := uuid\<rparr>)) = RunStatusRunning"
    "dr_WorkflowVersionNumber (runWriteRow ((newRun V now req w)\<lparr>run_ID := uuid\<rparr>)) = versionOf V req w"
    by (simp_all add: newRun_def runWriteRow_def)
  ultimately show ?thesis using started(1,3,4) runTimeout_pos runTimeout_seconds by auto
qed simp

theorem run_launch_witness:
  "\<exists>row. t_runs (tables (en_db sample_launched)) = [row] \<and> dr_Status row = RunStatusRunning \<and>
     map a_timeout (en_active sample_launched) = [300000000000]"
proof -
  let ?r = "Run sample_engine ''r'' 0 sample_request (engine_start [(''w'', ''org'')])"
  obtain h where h: "fst ?r = Inr h"
  proof (cases "fst ?r")
    case (Inl e)
    have "isl (fst ?r) = False" by code_simp
    with Inl show ?thesis by simp
  qed
  have "?r = (Inr h, sample_launched)" unfolding sample_launched_def h [symmetric] by simp
  from run_launch [OF this sample_reliable(1)]
  show ?thesis by (auto simp: engine_start_def sample_engine_def sample_workflow_def)
qed

end
