(* ===== verification/Base64.thy ===== *)
theory Base64
  imports Prelude
begin

text \<open>
  The standard base64 encoding with padding, as \<open>base64.StdEncoding\<close> of Go's library has it:
  \<open>EncodeToString\<close>, and \<open>DecodeString\<close>, which ignores line breaks, rejects every other foreign
  character and misplaced padding, and does not check the unused bits of the last character. The
  vaults store ciphertexts in this form.
\<close>

definition b64_alphabet :: string where
  "b64_alphabet = ''ABCDEFGHIJKLMNOPQRSTUVWXYZabcdefghijklmnopqrstuvwxyz0123456789+/''"

definition b64_char :: "nat \<Rightarrow> char" where
  "b64_char n = b64_alphabet ! n"

definition b64_pad :: char where
  "b64_pad = CHR ''=''"

fun index_of :: "char \<Rightarrow> string \<Rightarrow> nat option" where
  "index_of c [] = None"
| "index_of c (x # xs) = (if c = x then Some 0 else map_option Suc (index_of c xs))"

definition b64_value :: "char \<Rightarrow> nat option" where
  "b64_value c = index_of c b64_alphabet"

abbreviation byte :: "char \<Rightarrow> nat" where
  "byte c \<equiv> of_char c"

fun EncodeToString :: "string \<Rightarrow> string" where
  "EncodeToString [] = []"
| "EncodeToString [a] = [b64_char (byte a div 4), b64_char (byte a mod 4 * 16), b64_pad, b64_pad]"
| "EncodeToString [a, b] =
     [b64_char (byte a div 4), b64_char (byte a mod 4 * 16 + byte b div 16), b64_char (byte b mod 16 * 4), b64_pad]"
| "EncodeToString (a # b # c # rest) =
     [b64_char (byte a div 4), b64_char (byte a mod 4 * 16 + byte b div 16),
      b64_char (byte b mod 16 * 4 + byte c div 64), b64_char (byte c mod 64)] @ EncodeToString rest"

definition byte1 :: "nat \<Rightarrow> nat \<Rightarrow> char" where
  "byte1 v w = char_of (v * 4 + w div 16)"

definition byte2 :: "nat \<Rightarrow> nat \<Rightarrow> char" where
  "byte2 w x = char_of (w mod 16 * 16 + x div 4)"

definition byte3 :: "nat \<Rightarrow> nat \<Rightarrow> char" where
  "byte3 x y = char_of (x mod 4 * 64 + y)"

fun decode_quanta :: "string \<Rightarrow> string option" where
  "decode_quanta [] = Some []"
| "decode_quanta (a # b # c # d # rest) =
     (case (b64_value a, b64_value b) of
        (Some v, Some w) \<Rightarrow>
          (if c = b64_pad then (if d = b64_pad \<and> rest = [] then Some [byte1 v w] else None)
           else case b64_value c of
             None \<Rightarrow> None
           | Some x \<Rightarrow>
               (if d = b64_pad then (if rest = [] then Some [byte1 v w, byte2 w x] else None)
                else case b64_value d of
                  None \<Rightarrow> None
                | Some y \<Rightarrow> map_option (\<lambda>r. byte1 v w # byte2 w x # byte3 x y # r) (decode_quanta rest)))
      | _ \<Rightarrow> None)"
| "decode_quanta _ = None"

definition is_newline :: "char \<Rightarrow> bool" where
  "is_newline c \<longleftrightarrow> c = CHR 0x0A \<or> c = CHR 0x0D"

definition DecodeString :: "string \<Rightarrow> string option" where
  "DecodeString s = decode_quanta (filter (\<lambda>c. \<not> is_newline c) s)"

section \<open>Decoding what was encoded\<close>

lemma b64_chars:
  assumes "n < 64"
  shows "b64_value (b64_char n) = Some n" "b64_char n \<noteq> b64_pad" "\<not> is_newline (b64_char n)"
proof -
  have "list_all (\<lambda>n. b64_value (b64_char n) = Some n \<and> b64_char n \<noteq> b64_pad \<and> \<not> is_newline (b64_char n)) [0..<64]"
    by code_simp
  with assms show "b64_value (b64_char n) = Some n" "b64_char n \<noteq> b64_pad" "\<not> is_newline (b64_char n)"
    by (auto simp: list_all_iff)
qed

lemma byte_less: "byte c < 256"
  by (rule nat_of_char_less_256)

lemma byte_parts: "byte c div 4 < 64" "byte c div 16 < 16" "byte c div 64 < 4"
  using byte_less [of c] by (simp_all add: less_mult_imp_div_less)

lemma digits_less: "x < k \<Longrightarrow> y < m \<Longrightarrow> x * m + y < k * (m :: nat)"
proof -
  assume "x < k" "y < m"
  then have "x * m + y < Suc x * m" "Suc x * m \<le> k * m" by (simp, intro mult_le_mono1, simp)
  then show ?thesis by simp
qed

lemma quantum_values [simp]:
  "byte a div 4 < 64" "byte a mod 4 * 16 + byte b div 16 < 64" "byte a mod 4 * 16 < 64"
  "byte b mod 16 * 4 + byte c div 64 < 64" "byte b mod 16 * 4 < 64" "byte c mod 64 < 64"
  using digits_less [of "byte a mod 4" 4 "byte b div 16" 16] digits_less [of "byte b mod 16" 16 "byte c div 64" 4]
    digits_less [of "byte a mod 4" 4 0 16] digits_less [of "byte b mod 16" 16 0 4] by (simp_all add: byte_parts)

lemma digit_split: "(y :: nat) < k \<Longrightarrow> (x * k + y) div k = x" "(y :: nat) < k \<Longrightarrow> (x * k + y) mod k = y"
  by simp_all

lemma quantum_bytes [simp]:
  "byte1 (byte a div 4) (byte a mod 4 * 16 + byte b div 16) = a" "byte1 (byte a div 4) (byte a mod 4 * 16) = a"
  "byte2 (byte a mod 4 * 16 + byte b div 16) (byte b mod 16 * 4 + byte c div 64) = b"
  "byte2 (byte a mod 4 * 16 + byte b div 16) (byte b mod 16 * 4) = b"
  "byte3 (byte b mod 16 * 4 + byte c div 64) (byte c mod 64) = c"
  unfolding byte1_def byte2_def byte3_def
  by (simp_all add: digit_split byte_parts del: of_char_of)

lemma newline_free: "\<not> is_newline b64_pad" "list_all (\<lambda>c. \<not> is_newline c) (EncodeToString bs)"
  by (induction bs rule: EncodeToString.induct) (simp_all add: b64_chars, simp_all add: is_newline_def b64_pad_def)

lemma decode_encode_quanta: "decode_quanta (EncodeToString bs) = Some bs"
  by (induction bs rule: EncodeToString.induct) (simp_all add: b64_chars)

lemma decode_encode [simp]: "DecodeString (EncodeToString bs) = Some bs"
proof -
  have "filter (\<lambda>c. \<not> is_newline c) (EncodeToString bs) = EncodeToString bs"
    using newline_free(2) [of bs] by (simp add: filter_id_conv list_all_iff)
  then show ?thesis by (simp add: DecodeString_def decode_encode_quanta)
qed

end
