(* ===== verification/Cipher.thy ===== *)
theory Cipher
  imports Base64 Store_Types
begin

text \<open>
  Authenticated encryption of secrets (\<open>internal/crypto/encrypt.go\<close>) and the string format
  \<open>enc:<base64>\<close> that \<open>ConfigVault\<close> and \<open>GraderVault\<close> share. AES-256-GCM itself is a parameter
  (\<open>aead\<close>), as is the random source: \<open>draw n\<close> is what the \<open>n\<close>-th read of \<open>rand.Reader\<close> gives,
  and the counter of draws is threaded through every operation that encrypts, so that each
  encryption has a draw of its own.
\<close>

section \<open>AES-256-GCM\<close>

record aead =
  NonceSize :: nat
  Seal :: "string \<Rightarrow> string \<Rightarrow> string \<Rightarrow> string"
  Open :: "string \<Rightarrow> string \<Rightarrow> string \<Rightarrow> string option"

datatype crypto_error =
    BadKeyLength nat
  | NonceFailure
  | TooShort
  | OpenFailed
  | Base64Failed
  | FieldError string string crypto_error

record cipher =
  ci_key :: string
  ci_gcm :: aead
  ci_draw :: "nat \<Rightarrow> string option"

definition NewCipher :: "aead \<Rightarrow> (nat \<Rightarrow> string option) \<Rightarrow> string \<Rightarrow> crypto_error + cipher" where
  "NewCipher A draw key =
     (if length key \<noteq> 32 then Inl (BadKeyLength (length key))
      else Inr \<lparr> ci_key = key, ci_gcm = A, ci_draw = draw \<rparr>)"

text \<open>\<open>aes.NewCipher\<close> accepts keys of 16, 24 and 32 bytes.\<close>

definition aes_key_ok :: "string \<Rightarrow> bool" where
  "aes_key_ok key \<longleftrightarrow> length key \<in> {16, 24, 32}"

definition Encrypt :: "cipher \<Rightarrow> string \<Rightarrow> nat \<Rightarrow> (crypto_error + string) \<times> nat" where
  "Encrypt c plaintext n =
     (if \<not> aes_key_ok (ci_key c) then (Inl (BadKeyLength (length (ci_key c))), n)
      else case ci_draw c n of
             None \<Rightarrow> (Inl NonceFailure, Suc n)
           | Some nonce \<Rightarrow> (Inr (nonce @ Seal (ci_gcm c) (ci_key c) nonce plaintext), Suc n))"

definition Decrypt :: "cipher \<Rightarrow> string \<Rightarrow> crypto_error + string" where
  "Decrypt c data =
     (if \<not> aes_key_ok (ci_key c) then Inl (BadKeyLength (length (ci_key c)))
      else let nonceSize = NonceSize (ci_gcm c)
           in if length data < nonceSize then Inl TooShort
              else case Open (ci_gcm c) (ci_key c) (take nonceSize data) (drop nonceSize data) of
                     None \<Rightarrow> Inl OpenFailed
                   | Some p \<Rightarrow> Inr p)"

text \<open>
  What the code relies on: opening what was sealed under the same key and nonce gives the
  plaintext back, the tag adds 16 bytes, a nonce has 12, and \<open>io.ReadFull\<close> fills the buffer.
\<close>

definition gcm_ok :: "cipher \<Rightarrow> bool" where
  "gcm_ok c \<longleftrightarrow> length (ci_key c) = 32 \<and> NonceSize (ci_gcm c) = 12 \<and>
     (\<forall>n x. ci_draw c n = Some x \<longrightarrow> length x = 12) \<and>
     (\<forall>k x p. length x = 12 \<longrightarrow> Open (ci_gcm c) k x (Seal (ci_gcm c) k x p) = Some p) \<and>
     (\<forall>k x p. length (Seal (ci_gcm c) k x p) = length p + 16)"

lemma Encrypt_Inr:
  assumes "gcm_ok c" "Encrypt c p n = (Inr ct, n')"
  shows "Decrypt c ct = Inr p" "length ct = length p + 28" "n' = Suc n"
  using assms by (auto simp: gcm_ok_def Encrypt_def Decrypt_def aes_key_ok_def Let_def split: if_splits option.splits)

section \<open>The string format\<close>

definition encPrefix :: string where
  "encPrefix = ''enc:''"

definition HasPrefix :: "string \<Rightarrow> string \<Rightarrow> bool" where
  "HasPrefix s p \<longleftrightarrow> take (length p) s = p"

definition TrimPrefix :: "string \<Rightarrow> string \<Rightarrow> string" where
  "TrimPrefix s p = (if HasPrefix s p then drop (length p) s else s)"

lemma HasPrefix_append [simp]: "HasPrefix (p @ s) p"
  by (simp add: HasPrefix_def)

lemma TrimPrefix_append [simp]: "TrimPrefix (p @ s) p = s"
  by (simp add: TrimPrefix_def)

definition sealString :: "cipher \<Rightarrow> string \<Rightarrow> nat \<Rightarrow> (crypto_error + string) \<times> nat" where
  "sealString c plain n =
     (case Encrypt c plain n of
        (Inl e, n') \<Rightarrow> (Inl e, n')
      | (Inr ct, n') \<Rightarrow> (Inr (encPrefix @ EncodeToString ct), n'))"

definition openString :: "cipher \<Rightarrow> string \<Rightarrow> crypto_error + string" where
  "openString c encrypted =
     (if \<not> HasPrefix encrypted encPrefix then Inr encrypted
      else case DecodeString (TrimPrefix encrypted encPrefix) of
             None \<Rightarrow> Inl Base64Failed
           | Some decoded \<Rightarrow> Decrypt c decoded)"

lemma openString_sealString:
  assumes "gcm_ok c" "sealString c p n = (Inr t, n')"
  shows "openString c t = Inr p"
  using assms by (auto simp: sealString_def openString_def Encrypt_Inr split: prod.splits sum.splits)

lemma sealString_format:
  assumes "gcm_ok c" "sealString c p n = (Inr t, n')"
  shows "\<exists>ct. t = encPrefix @ EncodeToString ct \<and> length ct = length p + 28"
  using assms by (auto simp: sealString_def Encrypt_Inr split: prod.splits sum.splits)

section \<open>The contract of an encrypted string\<close>

text \<open>
  Both vaults encrypt strings under this contract: \<open>looks\<close> says which strings count as
  already encrypted; those are returned unchanged. Decrypting what encryption produced gives
  back every string that does not look encrypted.
\<close>

locale string_vault =
  fixes enc :: "cipher \<Rightarrow> string \<Rightarrow> nat \<Rightarrow> (crypto_error + string) \<times> nat"
    and dec :: "cipher \<Rightarrow> string \<Rightarrow> crypto_error + string"
    and looks :: "string \<Rightarrow> bool"
  assumes kept: "looks s \<Longrightarrow> enc c s n = (Inr s, n)"
    and sealed: "\<not> looks s \<Longrightarrow> enc c s n = sealString c s n"
    and opened: "dec c s = openString c s"
    and recognised: "\<lbrakk>gcm_ok c; sealString c s n = (Inr t, n'); s \<noteq> []\<rbrakk> \<Longrightarrow> looks t"
begin

lemma roundtrip:
  assumes "gcm_ok c" "\<not> looks s" "enc c s n = (Inr t, n')"
  shows "dec c t = Inr s"
  using assms by (simp add: sealed opened openString_sealString)

lemma idempotent:
  assumes "gcm_ok c" "s \<noteq> []" "enc c s n = (Inr t, n')"
  shows "enc c t m = (Inr t, m)"
proof (cases "looks s")
  case True
  with assms kept [of s c n] show ?thesis by (auto simp: kept)
next
  case False
  with assms show ?thesis by (intro kept recognised [OF assms(1)]) (simp_all add: sealed)
qed

end

end
