(* ===== verification/Config_Vault.thy ===== *)
theory Config_Vault
  imports Cipher Registry Database
begin

text \<open>
  The credential vault (\<open>internal/crypto/config_vault.go\<close>): a store that encrypts the sensitive
  configuration values of workflow nodes and the SMTP password before they reach the inner store
  and decrypts them on the way back. Which keys are sensitive comes from the node type's JSON
  schema; decoding a schema is the parameter \<open>cv_schema\<close>. The inner store is a record of its
  operations over a state; the remaining methods of the vault only delegate to it.
\<close>

section \<open>Nodes\<close>

record config_vault =
  cv_cipher :: cipher
  cv_registry :: node_registry
  cv_schema :: "string \<Rightarrow> (string \<times> bool) list option"

definition parseSensitiveKeys :: "config_vault \<Rightarrow> string \<Rightarrow> string list" where
  "parseSensitiveKeys v schema =
     (case cv_schema v schema of None \<Rightarrow> [] | Some props \<Rightarrow> map fst (filter snd props))"

definition sensitiveKeys :: "config_vault \<Rightarrow> string \<Rightarrow> string list" where
  "sensitiveKeys v typeID =
     (case Lookup typeID (cv_registry v) of
        Inl _ \<Rightarrow> []
      | Inr h \<Rightarrow> parseSensitiveKeys v (nm_InputSchema (nh_Meta h)))"

type_synonym flags = "(string \<times> bool) list"

fun encryptKeys :: "config_vault \<Rightarrow> string \<Rightarrow> string list \<Rightarrow> gomap \<Rightarrow> flags \<Rightarrow> nat \<Rightarrow> (crypto_error + gomap \<times> flags) \<times> nat" where
  "encryptKeys v i [] cfg fl n = (Inr (cfg, fl), n)"
| "encryptKeys v i (k # ks) cfg fl n =
     (case map_of cfg k of
        Some (VStr strVal) \<Rightarrow>
          (case Encrypt (cv_cipher v) strVal n of
             (Inl e, n') \<Rightarrow> (Inl (FieldError i k e), n')
           | (Inr ct, n') \<Rightarrow> encryptKeys v i ks (AList.update k (VBytes ct) cfg) (AList.update k True fl) n')
      | _ \<Rightarrow> encryptKeys v i ks cfg fl n)"

text \<open>The stored ciphertext that the sentinel \<open>***\<close> stands for.\<close>

definition prevCiphertext :: "(string \<times> workflow_node) list \<Rightarrow> string \<Rightarrow> string \<Rightarrow> string option" where
  "prevCiphertext existing i k =
     (case map_of existing i of
        None \<Rightarrow> None
      | Some prev \<Rightarrow> (case map_of (cfg_entries (wn_Config prev)) k of Some (VBytes ct) \<Rightarrow> Some ct | _ \<Rightarrow> None))"

fun encryptKeysPreserving :: "config_vault \<Rightarrow> (string \<times> workflow_node) list \<Rightarrow> string \<Rightarrow> string list \<Rightarrow> gomap \<Rightarrow> flags \<Rightarrow> nat
    \<Rightarrow> (crypto_error + gomap \<times> flags) \<times> nat" where
  "encryptKeysPreserving v existing i [] cfg fl n = (Inr (cfg, fl), n)"
| "encryptKeysPreserving v existing i (k # ks) cfg fl n =
     (case map_of cfg k of
        Some (VStr strVal) \<Rightarrow>
          (if strVal = ''***'' then
             (case prevCiphertext existing i k of
                Some ct \<Rightarrow> encryptKeysPreserving v existing i ks (AList.update k (VBytes ct) cfg) (AList.update k True fl) n
              | None \<Rightarrow> encryptKeysPreserving v existing i ks (AList.delete k cfg) fl n)
           else
             (case Encrypt (cv_cipher v) strVal n of
                (Inl e, n') \<Rightarrow> (Inl (FieldError i k e), n')
              | (Inr ct, n') \<Rightarrow> encryptKeysPreserving v existing i ks (AList.update k (VBytes ct) cfg) (AList.update k True fl) n'))
      | _ \<Rightarrow> encryptKeysPreserving v existing i ks cfg fl n)"

text \<open>The part both loops share: a nil configuration is skipped, a nil flag map is made.\<close>

definition encryptNodeWith :: "(string list \<Rightarrow> gomap \<Rightarrow> flags \<Rightarrow> nat \<Rightarrow> (crypto_error + gomap \<times> flags) \<times> nat) \<Rightarrow> config_vault
    \<Rightarrow> workflow_node \<Rightarrow> nat \<Rightarrow> (crypto_error + workflow_node) \<times> nat" where
  "encryptNodeWith f v nd n =
     (case wn_Config nd of
        None \<Rightarrow> (Inr nd, n)
      | Some cfg \<Rightarrow>
          (case f (sensitiveKeys v (wn_TypeID nd)) cfg (case wn_SensitiveKeys nd of None \<Rightarrow> [] | Some fl \<Rightarrow> fl) n of
             (Inl e, n') \<Rightarrow> (Inl e, n')
           | (Inr (cfg', fl'), n') \<Rightarrow> (Inr (nd\<lparr>wn_Config := Some cfg', wn_SensitiveKeys := Some fl'\<rparr>), n')))"

fun eachNode :: "(workflow_node \<Rightarrow> nat \<Rightarrow> (crypto_error + workflow_node) \<times> nat) \<Rightarrow> workflow_node list \<Rightarrow> nat
    \<Rightarrow> (crypto_error + workflow_node list) \<times> nat" where
  "eachNode f [] n = (Inr [], n)"
| "eachNode f (nd # nds) n =
     (case f nd n of
        (Inl e, n') \<Rightarrow> (Inl e, n')
      | (Inr nd', n') \<Rightarrow>
          (case eachNode f nds n' of (Inl e, n'') \<Rightarrow> (Inl e, n'') | (Inr nds', n'') \<Rightarrow> (Inr (nd' # nds'), n'')))"

definition encryptNodes :: "config_vault \<Rightarrow> workflow_node list \<Rightarrow> nat \<Rightarrow> (crypto_error + workflow_node list) \<times> nat" where
  "encryptNodes v = eachNode (\<lambda>nd. encryptNodeWith (encryptKeys v (wn_ID nd)) v nd)"

definition encryptNodesPreserving :: "config_vault \<Rightarrow> (string \<times> workflow_node) list \<Rightarrow> workflow_node list \<Rightarrow> nat
    \<Rightarrow> (crypto_error + workflow_node list) \<times> nat" where
  "encryptNodesPreserving v existing = eachNode (\<lambda>nd. encryptNodeWith (encryptKeysPreserving v existing (wn_ID nd)) v nd)"

fun decryptKeys :: "config_vault \<Rightarrow> string \<Rightarrow> flags \<Rightarrow> gomap \<Rightarrow> crypto_error + gomap" where
  "decryptKeys v i [] cfg = Inr cfg"
| "decryptKeys v i ((k, isSensitive) # fl) cfg =
     (if \<not> isSensitive then decryptKeys v i fl cfg
      else case map_of cfg k of
             Some (VBytes ct) \<Rightarrow>
               (case Decrypt (cv_cipher v) ct of
                  Inl e \<Rightarrow> Inl (FieldError i k e)
                | Inr p \<Rightarrow> decryptKeys v i fl (AList.update k (VStr p) cfg))
           | _ \<Rightarrow> decryptKeys v i fl cfg)"

definition decryptNode :: "config_vault \<Rightarrow> workflow_node \<Rightarrow> crypto_error + workflow_node" where
  "decryptNode v nd =
     (case wn_Config nd of
        None \<Rightarrow> Inr nd
      | Some cfg \<Rightarrow>
          (case decryptKeys v (wn_ID nd) (case wn_SensitiveKeys nd of None \<Rightarrow> [] | Some fl \<Rightarrow> fl) cfg of
             Inl e \<Rightarrow> Inl e
           | Inr cfg' \<Rightarrow> Inr (nd\<lparr>wn_Config := Some cfg'\<rparr>)))"

fun decryptNodes :: "config_vault \<Rightarrow> workflow_node list \<Rightarrow> crypto_error + workflow_node list" where
  "decryptNodes v [] = Inr []"
| "decryptNodes v (nd # nds) =
     (case decryptNode v nd of
        Inl e \<Rightarrow> Inl e
      | Inr nd' \<Rightarrow> (case decryptNodes v nds of Inl e \<Rightarrow> Inl e | Inr nds' \<Rightarrow> Inr (nd' # nds')))"

section \<open>The store operations\<close>

datatype vault_error = FromStore store_error | FromCipher crypto_error

record workflow_version =
  wv_WorkflowID :: string
  wv_VersionNumber :: int
  wv_Definition :: workflow

record org_email_settings =
  oe_OrgID :: string
  oe_SMTPHost :: string
  oe_SMTPPort :: string
  oe_SMTPUser :: string
  oe_SMTPPassword :: string
  oe_SMTPFrom :: string
  oe_Subject :: string
  oe_Body :: string

record 's inner_store =
  in_CreateWorkflow :: "workflow \<Rightarrow> 's \<Rightarrow> (store_error + workflow) \<times> 's"
  in_GetWorkflow :: "string \<Rightarrow> 's \<Rightarrow> (store_error + workflow) \<times> 's"
  in_UpdateWorkflow :: "workflow \<Rightarrow> 's \<Rightarrow> (store_error + workflow) \<times> 's"
  in_CreateWorkflowVersion :: "workflow \<Rightarrow> 's \<Rightarrow> (store_error + unit) \<times> 's"
  in_GetWorkflowVersion :: "string \<Rightarrow> int \<Rightarrow> 's \<Rightarrow> (store_error + workflow_version) \<times> 's"
  in_RestoreWorkflowVersion :: "string \<Rightarrow> int \<Rightarrow> 's \<Rightarrow> (store_error + workflow) \<times> 's"
  in_UpsertOrgEmailSettings :: "org_email_settings \<Rightarrow> 's \<Rightarrow> (store_error + unit) \<times> 's"
  in_GetOrgEmailSettings :: "string \<Rightarrow> 's \<Rightarrow> (store_error + org_email_settings) \<times> 's"

definition decryptWorkflow :: "config_vault \<Rightarrow> workflow \<Rightarrow> vault_error + workflow" where
  "decryptWorkflow v w =
     (case decryptNodes v (wf_Nodes w) of Inl e \<Rightarrow> Inl (FromCipher e) | Inr nds \<Rightarrow> Inr (w\<lparr>wf_Nodes := nds\<rparr>))"

text \<open>The tail that create and update share: write, snapshot a version (best effort), decrypt the result.\<close>

definition writeAndSnapshot :: "config_vault \<Rightarrow> 's inner_store \<Rightarrow> (workflow \<Rightarrow> 's \<Rightarrow> (store_error + workflow) \<times> 's) \<Rightarrow> workflow \<Rightarrow> 's
    \<Rightarrow> (vault_error + workflow) \<times> 's" where
  "writeAndSnapshot v I write w s =
     (case write w s of
        (Inl e, s') \<Rightarrow> (Inl (FromStore e), s')
      | (Inr stored, s') \<Rightarrow> (decryptWorkflow v stored, snd (in_CreateWorkflowVersion I stored s')))"

definition CreateWorkflow :: "config_vault \<Rightarrow> 's inner_store \<Rightarrow> workflow \<Rightarrow> 's \<times> nat \<Rightarrow> (vault_error + workflow) \<times> 's \<times> nat" where
  "CreateWorkflow v I w = (\<lambda>(s, n).
     case encryptNodes v (wf_Nodes w) n of
       (Inl e, n') \<Rightarrow> (Inl (FromCipher e), s, n')
     | (Inr nds, n') \<Rightarrow>
         (case writeAndSnapshot v I (in_CreateWorkflow I) (w\<lparr>wf_Nodes := nds\<rparr>) s of (res, s') \<Rightarrow> (res, s', n')))"

definition GetWorkflow :: "config_vault \<Rightarrow> 's inner_store \<Rightarrow> string \<Rightarrow> 's \<Rightarrow> (vault_error + workflow) \<times> 's" where
  "GetWorkflow v I i s =
     (case in_GetWorkflow I i s of (Inl e, s') \<Rightarrow> (Inl (FromStore e), s') | (Inr w, s') \<Rightarrow> (decryptWorkflow v w, s'))"

definition nodesByID :: "workflow_node list \<Rightarrow> (string \<times> workflow_node) list" where
  "nodesByID nds = fold (\<lambda>nd m. AList.update (wn_ID nd) nd m) nds []"

definition UpdateWorkflow :: "config_vault \<Rightarrow> 's inner_store \<Rightarrow> workflow \<Rightarrow> 's \<times> nat \<Rightarrow> (vault_error + workflow) \<times> 's \<times> nat" where
  "UpdateWorkflow v I w = (\<lambda>(s, n).
     case in_GetWorkflow I (wf_ID w) s of
       (Inl e, s1) \<Rightarrow> (Inl (FromStore e), s1, n)
     | (Inr existing, s1) \<Rightarrow>
         (case encryptNodesPreserving v (nodesByID (wf_Nodes existing)) (wf_Nodes w) n of
            (Inl e, n') \<Rightarrow> (Inl (FromCipher e), s1, n')
          | (Inr nds, n') \<Rightarrow>
              (case writeAndSnapshot v I (in_UpdateWorkflow I) (w\<lparr>wf_Nodes := nds\<rparr>) s1 of (res, s') \<Rightarrow> (res, s', n'))))"

definition GetWorkflowVersion :: "config_vault \<Rightarrow> 's inner_store \<Rightarrow> string \<Rightarrow> int \<Rightarrow> 's \<Rightarrow> (vault_error + workflow_version) \<times> 's" where
  "GetWorkflowVersion v I i k s =
     (case in_GetWorkflowVersion I i k s of
        (Inl e, s') \<Rightarrow> (Inl (FromStore e), s')
      | (Inr ver, s') \<Rightarrow>
          (case decryptWorkflow v (wv_Definition ver) of
             Inl e \<Rightarrow> (Inl e, s')
           | Inr w \<Rightarrow> (Inr (ver\<lparr>wv_Definition := w\<rparr>), s')))"

definition RestoreWorkflowVersion :: "config_vault \<Rightarrow> 's inner_store \<Rightarrow> string \<Rightarrow> int \<Rightarrow> 's \<Rightarrow> (vault_error + workflow) \<times> 's" where
  "RestoreWorkflowVersion v I i k s =
     (case in_RestoreWorkflowVersion I i k s of
        (Inl e, s') \<Rightarrow> (Inl (FromStore e), s')
      | (Inr w, s') \<Rightarrow> (decryptWorkflow v w, s'))"

section \<open>The SMTP password\<close>

definition encryptString :: "cipher \<Rightarrow> string \<Rightarrow> nat \<Rightarrow> (crypto_error + string) \<times> nat" where
  "encryptString c plain n = (if HasPrefix plain encPrefix then (Inr plain, n) else sealString c plain n)"

definition decryptString :: "cipher \<Rightarrow> string \<Rightarrow> crypto_error + string" where
  "decryptString c encrypted = openString c encrypted"

definition UpsertOrgEmailSettings :: "config_vault \<Rightarrow> 's inner_store \<Rightarrow> org_email_settings \<Rightarrow> 's \<times> nat \<Rightarrow> (vault_error + unit) \<times> 's \<times> nat" where
  "UpsertOrgEmailSettings v I o' = (\<lambda>(s, n).
     if oe_SMTPPassword o' \<noteq> [] then
       (case encryptString (cv_cipher v) (oe_SMTPPassword o') n of
          (Inl e, n') \<Rightarrow> (Inl (FromCipher e), s, n')
        | (Inr enc, n') \<Rightarrow>
            (case in_UpsertOrgEmailSettings I (o'\<lparr>oe_SMTPPassword := enc\<rparr>) s of
               (Inl e, s') \<Rightarrow> (Inl (FromStore e), s', n') | (Inr u, s') \<Rightarrow> (Inr (), s', n')))
     else
       (case in_UpsertOrgEmailSettings I o' s of
          (Inl e, s') \<Rightarrow> (Inl (FromStore e), s', n) | (Inr u, s') \<Rightarrow> (Inr (), s', n)))"

definition GetOrgEmailSettings :: "config_vault \<Rightarrow> 's inner_store \<Rightarrow> string \<Rightarrow> 's \<Rightarrow> (vault_error + org_email_settings) \<times> 's" where
  "GetOrgEmailSettings v I orgID s =
     (case in_GetOrgEmailSettings I orgID s of
        (Inl e, s') \<Rightarrow> (Inl (FromStore e), s')
      | (Inr o', s') \<Rightarrow>
          (if oe_SMTPPassword o' \<noteq> [] then
             (case decryptString (cv_cipher v) (oe_SMTPPassword o') of
                Inl e \<Rightarrow> (Inl (FromCipher e), s')
              | Inr plain \<Rightarrow> (Inr (o'\<lparr>oe_SMTPPassword := plain\<rparr>), s'))
           else (Inr o', s')))"

end
