(* ===== verification/Vault_Props.thy ===== *)
theory Vault_Props
  imports Config_Vault
begin

text \<open>
  What the credential vault guarantees. The abstract view of a node's configuration is the
  plaintext map; \<open>enc_rel\<close> relates it to the configuration the inner store holds, and every loop of
  the vault is shown to act on the abstract map as its specification says: encryption leaves it
  alone, the sentinel \<open>***\<close> is replaced by the stored plaintext or removed, and decryption returns it.
\<close>

section \<open>The abstraction\<close>

definition enc_at :: "cipher \<Rightarrow> val option \<Rightarrow> val option \<Rightarrow> bool \<Rightarrow> bool" where
  "enc_at c r x flagged =
     (case x of
        Some (VBytes ct) \<Rightarrow> flagged \<and> (\<exists>s. r = Some (VStr s) \<and> Decrypt c ct = Inr s)
      | _ \<Rightarrow> r = x)"

definition enc_rel :: "cipher \<Rightarrow> (string \<rightharpoonup> val) \<Rightarrow> gomap \<Rightarrow> flags \<Rightarrow> bool" where
  "enc_rel c R C fl \<longleftrightarrow> (\<forall>k. enc_at c (R k) (map_of C k) ((k, True) \<in> set fl))"

definition plain :: "gomap \<Rightarrow> bool" where
  "plain cfg \<longleftrightarrow> (\<forall>k ct. map_of cfg k \<noteq> Some (VBytes ct))"

definition prevPlain :: "config_vault \<Rightarrow> (string \<times> workflow_node) list \<Rightarrow> string \<Rightarrow> string \<Rightarrow> val option" where
  "prevPlain v existing i k =
     (case prevCiphertext existing i k of
        None \<Rightarrow> None
      | Some ct \<Rightarrow> (case Decrypt (cv_cipher v) ct of Inl _ \<Rightarrow> None | Inr p \<Rightarrow> Some (VStr p)))"

text \<open>The specification of an update: \<open>***\<close> under a sensitive key means the stored value.\<close>

definition resolved :: "config_vault \<Rightarrow> (string \<times> workflow_node) list \<Rightarrow> string \<Rightarrow> string list \<Rightarrow> (string \<rightharpoonup> val) \<Rightarrow> (string \<rightharpoonup> val)" where
  "resolved v existing i ks m =
     (\<lambda>k. if k \<in> set ks \<and> m k = Some (VStr ''***'') then prevPlain v existing i k else m k)"

definition readable :: "config_vault \<Rightarrow> (string \<times> workflow_node) list \<Rightarrow> bool" where
  "readable v existing \<longleftrightarrow> (\<forall>i k ct. prevCiphertext existing i k = Some ct \<longrightarrow> \<not> isl (Decrypt (cv_cipher v) ct))"

lemma enc_at_simps [simp]:
  "enc_at c r (Some (VBytes ct)) b \<longleftrightarrow> b \<and> (\<exists>s. r = Some (VStr s) \<and> Decrypt c ct = Inr s)"
  "enc_at c r (Some (VStr s)) b \<longleftrightarrow> r = Some (VStr s)"
  "enc_at c r None b \<longleftrightarrow> r = None"
  by (simp_all add: enc_at_def)

lemma enc_at_other: "(\<And>ct. x \<noteq> Some (VBytes ct)) \<Longrightarrow> enc_at c r x b \<longleftrightarrow> r = x"
  by (auto simp: enc_at_def split: option.splits val.splits)

lemma enc_at_mono: "enc_at c r x b \<Longrightarrow> (b \<Longrightarrow> b') \<Longrightarrow> enc_at c r x b'"
  by (auto simp: enc_at_def split: option.splits val.splits)

lemma enc_rel_plain: "plain cfg \<Longrightarrow> enc_rel c (map_of cfg) cfg fl"
  by (simp add: enc_rel_def plain_def enc_at_other)

lemma set_update_key: "(k, True) \<in> set (AList.update k True fl)"
  by (induction fl) auto

lemma set_update_keep: "(j, True) \<in> set fl \<Longrightarrow> (j, True) \<in> set (AList.update k True fl)"
  by (induction fl) auto

lemma enc_rel_seal:
  assumes "enc_rel c R C fl" "Decrypt c ct = Inr s"
  shows "enc_rel c (R(k \<mapsto> VStr s)) (AList.update k (VBytes ct) C) (AList.update k True fl)"
  unfolding enc_rel_def
proof
  fix j
  have "enc_at c (R j) (map_of C j) ((j, True) \<in> set fl)" using assms(1) by (simp add: enc_rel_def)
  then have "enc_at c (R j) (map_of C j) ((j, True) \<in> set (AList.update k True fl))"
    by (rule enc_at_mono) (rule set_update_keep)
  then show "enc_at c ((R(k \<mapsto> VStr s)) j) (map_of (AList.update k (VBytes ct) C) j) ((j, True) \<in> set (AList.update k True fl))"
    using assms(2) set_update_key [of k fl] by simp
qed

lemma enc_rel_drop: "enc_rel c R C fl \<Longrightarrow> enc_rel c (R(k := None)) (AList.delete k C) fl"
  by (simp add: enc_rel_def)

lemma enc_rel_open:
  assumes "enc_rel c R C fl" "map_of C k = Some (VBytes ct)"
  obtains s where "Decrypt c ct = Inr s" "(k, True) \<in> set fl" "enc_rel c R (AList.update k (VStr s) C) fl"
proof -
  have "enc_at c (R k) (map_of C k) ((k, True) \<in> set fl)" using assms(1) by (simp add: enc_rel_def)
  with assms(2) obtain s where s: "(k, True) \<in> set fl" "R k = Some (VStr s)" "Decrypt c ct = Inr s" by auto
  with assms(1) have "enc_rel c R (AList.update k (VStr s) C) fl" by (simp add: enc_rel_def)
  with s that show ?thesis by blast
qed

lemma enc_rel_string: "enc_rel c R C fl \<Longrightarrow> map_of C k = Some (VStr s) \<Longrightarrow> R k = Some (VStr s)"
  unfolding enc_rel_def by (metis enc_at_simps(2))

section \<open>The loops over keys\<close>

lemma encryptKeys_rel:
  assumes "gcm_ok (cv_cipher v)"
  shows "encryptKeys v i ks C fl n = (Inr (C', fl'), n') \<Longrightarrow> enc_rel (cv_cipher v) R C fl \<Longrightarrow> enc_rel (cv_cipher v) R C' fl'"
proof (induction ks arbitrary: C fl n)
  case (Cons k ks)
  show ?case
  proof (cases "\<exists>s. map_of C k = Some (VStr s)")
    case True
    then obtain s where s: "map_of C k = Some (VStr s)" by blast
    with Cons.prems(1) obtain ct m where ct: "Encrypt (cv_cipher v) s n = (Inr ct, m)"
      "encryptKeys v i ks (AList.update k (VBytes ct) C) (AList.update k True fl) m = (Inr (C', fl'), n')"
      by (auto split: prod.splits sum.splits)
    have "R(k \<mapsto> VStr s) = R" using enc_rel_string [OF Cons.prems(2) s] by auto
    with enc_rel_seal [OF Cons.prems(2) Encrypt_Inr(1) [OF assms ct(1)], of k] Cons.IH [OF ct(2)] show ?thesis by simp
  next
    case False
    then have "encryptKeys v i (k # ks) C fl n = encryptKeys v i ks C fl n" by (auto split: option.splits val.splits)
    with Cons show ?thesis by simp
  qed
qed simp

lemma encryptKeysPreserving_rel:
  assumes "gcm_ok (cv_cipher v)" "readable v existing"
  shows "encryptKeysPreserving v existing i ks C fl n = (Inr (C', fl'), n') \<Longrightarrow> distinct ks \<Longrightarrow>
    \<forall>k \<in> set ks. R k = map_of C k \<Longrightarrow> enc_rel (cv_cipher v) R C fl \<Longrightarrow>
    enc_rel (cv_cipher v) (resolved v existing i ks R) C' fl'"
proof (induction ks arbitrary: C fl n R)
  case Nil
  then show ?case by (simp add: resolved_def)
next
  case (Cons k ks)
  let ?c = "cv_cipher v"
  have k: "k \<notin> set ks" "distinct ks" "R k = map_of C k" using Cons.prems by auto
  have later: "resolved v existing i (k # ks) R = resolved v existing i ks (R(k := x))"
    if "x = (if R k = Some (VStr ''***'') then prevPlain v existing i k else R k)" for x
    using k(1) that by (auto simp: resolved_def fun_eq_iff)
  have same: "\<forall>j \<in> set ks. (R(k := x)) j = ((map_of C)(k := y)) j" for x y
    using k(1) Cons.prems(3) by auto
  show ?case
  proof (cases "\<exists>s. map_of C k = Some (VStr s)")
    case True
    then obtain s where s: "map_of C k = Some (VStr s)" by blast
    show ?thesis
    proof (cases "s = ''***''")
      case sentinel: True
      show ?thesis
      proof (cases "prevCiphertext existing i k")
        case None
        with s sentinel Cons.prems(1) have "encryptKeysPreserving v existing i ks (AList.delete k C) fl n = (Inr (C', fl'), n')" by simp
        from Cons.IH [OF this k(2) _ enc_rel_drop [OF Cons.prems(4)]] same later [of None] k(3) s sentinel None
        show ?thesis by (simp only: map_of_delete) (simp add: prevPlain_def del: fun_upd_apply)
      next
        case (Some ct)
        with assms(2) obtain p where p: "Decrypt ?c ct = Inr p" by (auto simp: readable_def isl_def split: sum.splits) (metis sum.exhaust)
        from Some s sentinel Cons.prems(1)
        have "encryptKeysPreserving v existing i ks (AList.update k (VBytes ct) C) (AList.update k True fl) n = (Inr (C', fl'), n')" by simp
        from Cons.IH [OF this k(2) _ enc_rel_seal [OF Cons.prems(4) p]] same later [of "Some (VStr p)"] k(3) s sentinel Some p
        show ?thesis by (simp only: map_of_update) (simp add: prevPlain_def del: fun_upd_apply)
      qed
    next
      case False
      with s Cons.prems(1) obtain ct m where ct: "Encrypt ?c s n = (Inr ct, m)"
        "encryptKeysPreserving v existing i ks (AList.update k (VBytes ct) C) (AList.update k True fl) m = (Inr (C', fl'), n')"
        by (auto split: prod.splits sum.splits)
      from Cons.IH [OF ct(2) k(2) _ enc_rel_seal [OF Cons.prems(4) Encrypt_Inr(1) [OF assms(1) ct(1)]]] same k(3) later [of "Some (VStr s)"] s False
      show ?thesis by (simp only: map_of_update) (simp del: fun_upd_apply)
    qed
  next
    case False
    then have "encryptKeysPreserving v existing i (k # ks) C fl n = encryptKeysPreserving v existing i ks C fl n"
      by (auto split: option.splits val.splits)
    moreover have "resolved v existing i (k # ks) R = resolved v existing i ks R"
    proof -
      have "R k \<noteq> Some (VStr ''***'')" using False k(3) by metis
      then show ?thesis by (auto simp: resolved_def fun_eq_iff)
    qed
    ultimately show ?thesis using Cons.IH [of C fl n R] Cons.prems by simp
  qed
qed

text \<open>No string is left under a sensitive key.\<close>

lemma encryptKeysPreserving_other:
  "encryptKeysPreserving v existing i ks C fl n = (Inr (C', fl'), n') \<Longrightarrow> k \<notin> set ks \<Longrightarrow> map_of C' k = map_of C k"
  by (induction ks arbitrary: C fl n) (auto split: option.splits val.splits prod.splits sum.splits if_splits)

lemma encryptKeys_other:
  "encryptKeys v i ks C fl n = (Inr (C', fl'), n') \<Longrightarrow> k \<notin> set ks \<Longrightarrow> map_of C' k = map_of C k"
  by (induction ks arbitrary: C fl n) (auto split: option.splits val.splits prod.splits sum.splits)

lemma encryptKeysPreserving_sealed:
  "encryptKeysPreserving v existing i ks C fl n = (Inr (C', fl'), n') \<Longrightarrow> distinct ks \<Longrightarrow> k \<in> set ks \<Longrightarrow> map_of C' k \<noteq> Some (VStr s)"
proof (induction ks arbitrary: C fl n)
  case (Cons j ks)
  show ?case
  proof (cases "k = j")
    case True
    with Cons.prems(2) have "k \<notin> set ks" by simp
    with True Cons.prems(1) show ?thesis
      by (auto dest!: encryptKeysPreserving_other split: option.splits val.splits prod.splits sum.splits if_splits)
  next
    case False
    with Cons show ?thesis by (auto split: option.splits val.splits prod.splits sum.splits if_splits)
  qed
qed simp

lemma encryptKeys_sealed:
  "encryptKeys v i ks C fl n = (Inr (C', fl'), n') \<Longrightarrow> distinct ks \<Longrightarrow> k \<in> set ks \<Longrightarrow> map_of C' k \<noteq> Some (VStr s)"
proof (induction ks arbitrary: C fl n)
  case (Cons j ks)
  show ?case
  proof (cases "k = j")
    case True
    with Cons.prems(2) have "k \<notin> set ks" by simp
    with True Cons.prems(1) show ?thesis
      by (auto dest!: encryptKeys_other split: option.splits val.splits prod.splits sum.splits)
  next
    case False
    with Cons show ?thesis by (auto split: option.splits val.splits prod.splits sum.splits)
  qed
qed simp

text \<open>Decryption never fails on related configurations and opens every flagged key.\<close>

lemma decryptKeys_rel:
  "enc_rel (cv_cipher v) R C fl0 \<Longrightarrow> set fl \<subseteq> set fl0 \<Longrightarrow>
   \<exists>C'. decryptKeys v i fl C = Inr C' \<and> enc_rel (cv_cipher v) R C' fl0 \<and>
        (\<forall>k ct. map_of C' k = Some (VBytes ct) \<longrightarrow> map_of C k = Some (VBytes ct) \<and> (k, True) \<notin> set fl)"
proof (induction fl arbitrary: C)
  case (Cons f fl)
  obtain k b where f: "f = (k, b)" by (cases f)
  show ?case
  proof (cases "b \<and> (\<exists>ct. map_of C k = Some (VBytes ct))")
    case True
    then obtain ct where ct: "map_of C k = Some (VBytes ct)" by blast
    from enc_rel_open [OF Cons.prems(1) ct] obtain s where s: "Decrypt (cv_cipher v) ct = Inr s"
      "enc_rel (cv_cipher v) R (AList.update k (VStr s) C) fl0" by blast
    from Cons.IH [OF s(2)] Cons.prems(2) obtain C' where C': "decryptKeys v i fl (AList.update k (VStr s) C) = Inr C'"
      "enc_rel (cv_cipher v) R C' fl0"
      "\<forall>j ct. map_of C' j = Some (VBytes ct) \<longrightarrow> map_of (AList.update k (VStr s) C) j = Some (VBytes ct) \<and> (j, True) \<notin> set fl" by auto
    have "decryptKeys v i (f # fl) C = Inr C'" using True f ct s(1) C'(1) by simp
    moreover have "map_of C j = Some (VBytes ct) \<and> (j, True) \<notin> set (f # fl)" if "map_of C' j = Some (VBytes ct)" for j ct
      using C'(3) [rule_format, OF that] f by (auto split: if_splits)
    ultimately show ?thesis using C'(2) by blast
  next
    case False
    then have "decryptKeys v i (f # fl) C = decryptKeys v i fl C" using f by (auto split: option.splits val.splits)
    moreover from Cons.IH [OF Cons.prems(1)] Cons.prems(2) obtain C' where C': "decryptKeys v i fl C = Inr C'"
      "enc_rel (cv_cipher v) R C' fl0"
      "\<forall>j ct. map_of C' j = Some (VBytes ct) \<longrightarrow> map_of C j = Some (VBytes ct) \<and> (j, True) \<notin> set fl" by auto
    ultimately show ?thesis using False f by auto
  qed
qed auto

lemma decryptKeys_opens:
  assumes "enc_rel (cv_cipher v) R C fl"
  shows "\<exists>C'. decryptKeys v i fl C = Inr C' \<and> map_of C' = R"
proof -
  from decryptKeys_rel [OF assms subset_refl] obtain C' where C': "decryptKeys v i fl C = Inr C'" "enc_rel (cv_cipher v) R C' fl"
    "\<And>k ct. map_of C' k = Some (VBytes ct) \<Longrightarrow> (k, True) \<notin> set fl" by blast
  have "map_of C' k = R k" for k
  proof -
    have at: "enc_at (cv_cipher v) (R k) (map_of C' k) ((k, True) \<in> set fl)" using C'(2) by (simp add: enc_rel_def)
    then have "\<And>ct. map_of C' k \<noteq> Some (VBytes ct)" using C'(3) by fastforce
    with at show ?thesis by (simp add: enc_at_other)
  qed
  with C'(1) show ?thesis by auto
qed

section \<open>Whole workflows\<close>

definition same_node :: "workflow_node \<Rightarrow> workflow_node \<Rightarrow> bool" where
  "same_node a b \<longleftrightarrow> b\<lparr>wn_Config := wn_Config a, wn_SensitiveKeys := wn_SensitiveKeys a\<rparr> = a"

lemma same_nodeD: "same_node a b \<Longrightarrow> wn_TypeID b = wn_TypeID a \<and> wn_ID b = wn_ID a"
  unfolding same_node_def by (metis workflow_node.select_convs(1,2) workflow_node.surjective workflow_node.update_convs(5,6))

text \<open>Node \<open>b\<close> is node \<open>a\<close> with a configuration that reads as \<open>spec a\<close> says.\<close>

definition reads_as :: "(workflow_node \<Rightarrow> (string \<rightharpoonup> val) \<Rightarrow> (string \<rightharpoonup> val)) \<Rightarrow> workflow_node \<Rightarrow> workflow_node \<Rightarrow> bool" where
  "reads_as spec a b \<longleftrightarrow> same_node a b \<and> rel_option (\<lambda>x y. map_of y = spec a (map_of x)) (wn_Config a) (wn_Config b)"

lemma eachNode_all:
  "eachNode f nds n = (Inr out, n') \<Longrightarrow> list_all2 (\<lambda>a b. \<exists>m m'. f a m = (Inr b, m')) nds out"
  by (induction nds arbitrary: n out) (fastforce split: prod.splits sum.splits)+

lemma decryptNodes_all: "list_all2 (\<lambda>a b. decryptNode v a = Inr b) nds out \<Longrightarrow> decryptNodes v nds = Inr out"
  by (induction rule: list_all2_induct) simp_all

lemma encryptNode_opens:
  assumes "encryptNodeWith f v nd n = (Inr nd', n')" "plain (cfg_entries (wn_Config nd))"
    and f: "\<And>cfg fl C' fl' m. f (sensitiveKeys v (wn_TypeID nd)) cfg fl n = (Inr (C', fl'), m) \<Longrightarrow> plain cfg \<Longrightarrow>
              enc_rel (cv_cipher v) (spec nd (map_of cfg)) C' fl'"
  shows "\<exists>nd''. decryptNode v nd' = Inr nd'' \<and> reads_as spec nd nd''"
proof (cases "wn_Config nd")
  case None
  with assms(1) show ?thesis by (simp add: encryptNodeWith_def decryptNode_def reads_as_def same_node_def)
next
  case (Some cfg)
  with assms(1) obtain C' fl' where c: "f (sensitiveKeys v (wn_TypeID nd)) cfg (case wn_SensitiveKeys nd of None \<Rightarrow> [] | Some fl \<Rightarrow> fl) n = (Inr (C', fl'), n')"
    "nd' = nd\<lparr>wn_Config := Some C', wn_SensitiveKeys := Some fl'\<rparr>" by (auto simp: encryptNodeWith_def split: prod.splits sum.splits)
  from f [OF c(1)] assms(2) Some have "enc_rel (cv_cipher v) (spec nd (map_of cfg)) C' fl'" by simp
  from decryptKeys_opens [OF this, of "wn_ID nd"] Some c(2) show ?thesis
    by (auto simp: decryptNode_def reads_as_def same_node_def)
qed

lemma eachNode_opens:
  assumes "eachNode f nds n = (Inr out, n')"
    and "\<And>a b m m'. a \<in> set nds \<Longrightarrow> f a m = (Inr b, m') \<Longrightarrow> \<exists>d. decryptNode v b = Inr d \<and> reads_as spec a d"
  shows "\<exists>opened. decryptNodes v out = Inr opened \<and> list_all2 (reads_as spec) nds opened"
proof -
  have "\<exists>opened. list_all2 (\<lambda>b d. decryptNode v b = Inr d) out opened \<and> list_all2 (reads_as spec) nds opened"
    using eachNode_all [OF assms(1)] assms(2)
  proof (induction rule: list_all2_induct)
    case (Cons a as b bs)
    from Cons.IH Cons.prems obtain ds where "list_all2 (\<lambda>b d. decryptNode v b = Inr d) bs ds" "list_all2 (reads_as spec) as ds" by auto
    moreover from Cons.hyps(1) obtain m m' where "f a m = (Inr b, m')" by blast
    with Cons.prems [of a] obtain d where "decryptNode v b = Inr d" "reads_as spec a d" by (metis list.set_intros(1))
    ultimately show ?case by (intro exI [of _ "d # ds"]) simp
  qed auto
  with decryptNodes_all show ?thesis by blast
qed

section \<open>Properties of the configuration vault\<close>

definition sample_cipher :: cipher where
  "sample_cipher = \<lparr> ci_key = replicate 32 (CHR ''k''),
     ci_gcm = \<lparr> NonceSize = 12, Seal = (\<lambda>k n p. rev p @ replicate 16 (CHR ''t'')), Open = (\<lambda>k n ct. Some (rev (take (length ct - 16) ct))) \<rparr>,
     ci_draw = (\<lambda>n. Some (replicate 12 (CHR ''n''))) \<rparr>"

lemma sample_gcm_ok: "gcm_ok sample_cipher"
  by (simp add: gcm_ok_def sample_cipher_def)

definition sample_vault :: config_vault where
  "sample_vault = \<lparr> cv_cipher = sample_cipher,
     cv_registry = \<lparr> nr_handlers = [(''llm'', \<lparr> nh_Meta = \<lparr> nm_TypeID = ''llm'', nm_DisplayName = [], nm_Category = [], nm_Description = [],
         nm_InputSchema = ''schema'', nm_OutputSchema = [] \<rparr>, nh_ident = 0, nh_closer = False \<rparr>)], nr_closed = [] \<rparr>,
     cv_schema = (\<lambda>_. Some [(''api_key'', True), (''prompt'', False)]) \<rparr>"

definition secret_node :: "string \<Rightarrow> string \<Rightarrow> workflow_node" where
  "secret_node i key = \<lparr> wn_ID = i, wn_TypeID = ''llm'', wn_Label = [], wn_Position = \<lparr>np_X = 0, np_Y = 0\<rparr>,
     wn_Config = Some [(''api_key'', VStr key), (''prompt'', VStr ''hi'')], wn_SensitiveKeys = None, wn_RetryPolicy = None, wn_OutputParsers = [] \<rparr>"

text \<open>
  C14. Round trip of secrets. Whatever nodes are saved, if \<open>encryptNodes\<close> accepts them then
  \<open>decryptNodes\<close> succeeds on what it produced and gives every node back unchanged, with every
  configuration value, sensitive or not, reading as before. The hypotheses are that AES-GCM opens
  what it sealed and that no incoming value is already a byte slice (JSON has none).
\<close>

theorem vault_roundtrip:
  assumes "gcm_ok (cv_cipher v)" "\<forall>nd \<in> set nds. plain (cfg_entries (wn_Config nd))" "encryptNodes v nds n = (Inr sealed, n')"
  shows "\<exists>opened. decryptNodes v sealed = Inr opened \<and> list_all2 (reads_as (\<lambda>nd m. m)) nds opened"
proof (rule eachNode_opens [OF assms(3) [unfolded encryptNodes_def]])
  fix a b m m'
  assume a: "a \<in> set nds" "encryptNodeWith (encryptKeys v (wn_ID a)) v a m = (Inr b, m')"
  show "\<exists>d. decryptNode v b = Inr d \<and> reads_as (\<lambda>nd m. m) a d"
    using assms(2) a(1) encryptKeys_rel [OF assms(1)] enc_rel_plain by (intro encryptNode_opens [OF a(2)]) auto
qed

theorem vault_roundtrip_witness:
  "\<exists>sealed n' opened. encryptNodes sample_vault [secret_node ''a'' ''sk-1''] 0 = (Inr sealed, n') \<and>
     decryptNodes sample_vault sealed = Inr opened \<and> list_all2 (reads_as (\<lambda>nd m. m)) [secret_node ''a'' ''sk-1''] opened"
proof -
  have p: "\<forall>nd \<in> set [secret_node ''a'' ''sk-1'']. plain (cfg_entries (wn_Config nd))"
    by (simp add: secret_node_def plain_def)
  have "\<not> isl (fst (encryptNodes sample_vault [secret_node ''a'' ''sk-1''] 0))" by code_simp
  then obtain sealed n' where s: "encryptNodes sample_vault [secret_node ''a'' ''sk-1''] 0 = (Inr sealed, n')"
    by (cases "encryptNodes sample_vault [secret_node ''a'' ''sk-1''] 0") (auto simp: isl_def split: sum.splits, metis sum.exhaust)
  have "gcm_ok (cv_cipher sample_vault)" by (simp add: sample_vault_def sample_gcm_ok)
  from vault_roundtrip [OF this p s] s show ?thesis by blast
qed

text \<open>
  C16. Nothing sensitive at rest. In every node that \<open>encryptNodes\<close> or \<open>encryptNodesPreserving\<close>
  hands to the inner store, no configuration key that the node type's schema marks sensitive
  holds a string, also not the mask \<open>***\<close>, and every other key holds what was submitted.
\<close>

theorem vault_at_rest:
  assumes "\<And>t. distinct (sensitiveKeys v t)"
    "encryptNodes v nds n = (Inr sealed, n') \<or> encryptNodesPreserving v existing nds n = (Inr sealed, n')"
  shows "list_all2 (\<lambda>a b. same_node a b \<and>
      (\<forall>k s. k \<in> set (sensitiveKeys v (wn_TypeID b)) \<longrightarrow> map_of (cfg_entries (wn_Config b)) k \<noteq> Some (VStr s)) \<and>
      (\<forall>k. k \<notin> set (sensitiveKeys v (wn_TypeID b)) \<longrightarrow>
           map_of (cfg_entries (wn_Config b)) k = map_of (cfg_entries (wn_Config a)) k)) nds sealed"
proof -
  have one: "same_node a b \<and>
      (\<forall>k s. k \<in> set (sensitiveKeys v (wn_TypeID b)) \<longrightarrow> map_of (cfg_entries (wn_Config b)) k \<noteq> Some (VStr s)) \<and>
      (\<forall>k. k \<notin> set (sensitiveKeys v (wn_TypeID b)) \<longrightarrow>
           map_of (cfg_entries (wn_Config b)) k = map_of (cfg_entries (wn_Config a)) k)"
    if f: "f = encryptKeys v (wn_ID a) \<or> f = encryptKeysPreserving v existing (wn_ID a)" and r: "encryptNodeWith f v a m = (Inr b, m')"
    for f a b m m'
  proof (cases "wn_Config a")
    case None
    with r show ?thesis by (simp add: encryptNodeWith_def same_node_def)
  next
    case (Some cfg)
    with r obtain C' fl' where c: "f (sensitiveKeys v (wn_TypeID a)) cfg (case wn_SensitiveKeys a of None \<Rightarrow> [] | Some fl \<Rightarrow> fl) m = (Inr (C', fl'), m')"
      "b = a\<lparr>wn_Config := Some C', wn_SensitiveKeys := Some fl'\<rparr>" by (auto simp: encryptNodeWith_def split: prod.splits sum.splits)
    from f show ?thesis
    proof
      assume "f = encryptKeys v (wn_ID a)"
      with encryptKeys_sealed encryptKeys_other c Some assms(1) show ?thesis by (auto simp: same_node_def)
    next
      assume "f = encryptKeysPreserving v existing (wn_ID a)"
      with encryptKeysPreserving_sealed encryptKeysPreserving_other c Some assms(1) show ?thesis by (auto simp: same_node_def)
    qed
  qed
  from assms(2) show ?thesis
  proof
    assume "encryptNodes v nds n = (Inr sealed, n')"
    from eachNode_all [OF this [unfolded encryptNodes_def]] show ?thesis
      by (rule list_all2_mono) (use one in blast)
  next
    assume "encryptNodesPreserving v existing nds n = (Inr sealed, n')"
    from eachNode_all [OF this [unfolded encryptNodesPreserving_def]] show ?thesis
      by (rule list_all2_mono) (use one in blast)
  qed
qed

lemma sample_keys: "distinct (sensitiveKeys sample_vault t)"
  by (simp add: sensitiveKeys_def parseSensitiveKeys_def sample_vault_def split: sum.split)

lemma sum_Inr: "\<not> isl (fst p) \<Longrightarrow> \<exists>x y. p = (Inr x, y)"
  by (cases p; cases "fst p") auto

theorem vault_at_rest_witness:
  "\<exists>b n'. encryptNodes sample_vault [secret_node ''a'' ''sk-1''] 0 = (Inr [b], n') \<and>
     map_of (cfg_entries (wn_Config b)) ''api_key'' \<noteq> Some (VStr ''sk-1'') \<and>
     map_of (cfg_entries (wn_Config b)) ''prompt'' = Some (VStr ''hi'')"
proof -
  have "\<not> isl (fst (encryptNodes sample_vault [secret_node ''a'' ''sk-1''] 0))" by code_simp
  then obtain sealed n' where s: "encryptNodes sample_vault [secret_node ''a'' ''sk-1''] 0 = (Inr sealed, n')"
    using sum_Inr by blast
  have k: "sensitiveKeys sample_vault ''llm'' = [''api_key'']" by code_simp
  from vault_at_rest [OF sample_keys disjI1 [OF s]] obtain b where b: "sealed = [b]" "same_node (secret_node ''a'' ''sk-1'') b"
    "\<And>k s. k \<in> set (sensitiveKeys sample_vault (wn_TypeID b)) \<Longrightarrow> map_of (cfg_entries (wn_Config b)) k \<noteq> Some (VStr s)"
    "\<And>k. k \<notin> set (sensitiveKeys sample_vault (wn_TypeID b)) \<Longrightarrow>
       map_of (cfg_entries (wn_Config b)) k = map_of (cfg_entries (wn_Config (secret_node ''a'' ''sk-1''))) k"
    by (auto simp: list_all2_Cons1)
  have "wn_TypeID b = ''llm''" using same_nodeD [OF b(2)] by (simp add: secret_node_def)
  with b(1,3,4) s k show ?thesis by (auto simp: secret_node_def)
qed

text \<open>
  C15. Saving with masked secrets. \<open>UpdateWorkflow\<close> refines the plaintext specification: the
  workflow it returns has every node of the request, and each configuration reads as submitted,
  except that \<open>***\<close> under a sensitive key reads as the plaintext stored before for that node and
  key, and is absent when there was none. The hypotheses on the inner store are that it
  returns the nodes it was given and that the ciphertexts it held can be opened.
\<close>

theorem vault_update_refines:
  assumes "gcm_ok (cv_cipher v)" "\<And>t. distinct (sensitiveKeys v t)" "\<forall>nd \<in> set (wf_Nodes w). plain (cfg_entries (wn_Config nd))"
    and "in_GetWorkflow I (wf_ID w) s = (Inr old, s1)" "readable v (nodesByID (wf_Nodes old))"
    and "\<And>x y a b. in_UpdateWorkflow I x a = (Inr y, b) \<Longrightarrow> wf_Nodes y = wf_Nodes x"
    and "UpdateWorkflow v I w (s, n) = (Inr w', s', n')"
  shows "list_all2 (reads_as (\<lambda>nd. resolved v (nodesByID (wf_Nodes old)) (wn_ID nd) (sensitiveKeys v (wn_TypeID nd))))
    (wf_Nodes w) (wf_Nodes w')"
proof -
  let ?ex = "nodesByID (wf_Nodes old)"
  from assms(4,7) obtain nds where e: "encryptNodesPreserving v ?ex (wf_Nodes w) n = (Inr nds, n')"
    and d: "fst (writeAndSnapshot v I (in_UpdateWorkflow I) (w\<lparr>wf_Nodes := nds\<rparr>) s1) = Inr w'"
    by (auto simp: UpdateWorkflow_def split: prod.splits sum.splits)
  from d obtain y b where "in_UpdateWorkflow I (w\<lparr>wf_Nodes := nds\<rparr>) s1 = (Inr y, b)" "decryptWorkflow v y = Inr w'"
    by (auto simp: writeAndSnapshot_def split: prod.splits sum.splits)
  with assms(6) have w': "decryptNodes v nds = Inr (wf_Nodes w')" by (fastforce simp: decryptWorkflow_def split: sum.splits)
  have "\<exists>opened. decryptNodes v nds = Inr opened \<and>
    list_all2 (reads_as (\<lambda>nd. resolved v ?ex (wn_ID nd) (sensitiveKeys v (wn_TypeID nd)))) (wf_Nodes w) opened"
  proof (rule eachNode_opens [OF e [unfolded encryptNodesPreserving_def]])
    fix a b m m'
    assume a: "a \<in> set (wf_Nodes w)" "encryptNodeWith (encryptKeysPreserving v ?ex (wn_ID a)) v a m = (Inr b, m')"
    show "\<exists>d. decryptNode v b = Inr d \<and> reads_as (\<lambda>nd. resolved v ?ex (wn_ID nd) (sensitiveKeys v (wn_TypeID nd))) a d"
      using assms(2,3) a(1) encryptKeysPreserving_rel [OF assms(1,5)] enc_rel_plain by (intro encryptNode_opens [OF a(2)]) auto
  qed
  with w' show ?thesis by auto
qed

definition sample_inner :: "workflow inner_store" where
  "sample_inner = \<lparr> in_CreateWorkflow = (\<lambda>w s. (Inr w, w)), in_GetWorkflow = (\<lambda>_ s. (Inr s, s)), in_UpdateWorkflow = (\<lambda>w s. (Inr w, w)),
     in_CreateWorkflowVersion = (\<lambda>_ s. (Inl SqlFault, s)), in_GetWorkflowVersion = (\<lambda>_ _ s. (Inl ErrNotFound, s)),
     in_RestoreWorkflowVersion = (\<lambda>_ _ s. (Inl ErrNotFound, s)), in_UpsertOrgEmailSettings = (\<lambda>_ s. (Inr (), s)),
     in_GetOrgEmailSettings = (\<lambda>_ s. (Inl ErrNotFound, s)) \<rparr>"

definition sample_wf :: "workflow_node list \<Rightarrow> workflow" where
  "sample_wf nds = \<lparr> wf_ID = ''w'', wf_Name = [], wf_Description = [],
     wf_Trigger = \<lparr> tr_Kind = ''manual'', tr_CronExpr = [], tr_KafkaBrokers = [], tr_KafkaTopic = [], tr_KafkaGroupID = [], tr_SQSQueueURL = [], tr_SQSRegion = [] \<rparr>,
     wf_TimeoutSeconds = 0, wf_Nodes = nds, wf_Edges = [], wf_InitialDataSchema = [] \<rparr>"

definition sample_old :: workflow where
  "sample_old = sample_wf (projr (fst (encryptNodes sample_vault [secret_node ''a'' ''sk-1''] 0)))"

theorem vault_update_witness:
  "\<exists>b w' s' n'. UpdateWorkflow sample_vault sample_inner (sample_wf [secret_node ''a'' ''***'']) (sample_old, 1) = (Inr w', s', n') \<and>
     wf_Nodes w' = [b] \<and> map_of (cfg_entries (wn_Config b)) ''api_key'' = Some (VStr ''sk-1'')"
proof -
  let ?w = "sample_wf [secret_node ''a'' ''***'']" and ?ex = "nodesByID (wf_Nodes sample_old)"
  let ?r = "UpdateWorkflow sample_vault sample_inner ?w (sample_old, 1)"
  have "\<not> isl (fst ?r)" by code_simp
  then obtain w' s' n' where r: "?r = (Inr w', s', n')" using sum_Inr by (metis prod.collapse)
  have g: "in_GetWorkflow sample_inner (wf_ID ?w) sample_old = (Inr sample_old, sample_old)" by (simp add: sample_inner_def)
  have ok: "gcm_ok (cv_cipher sample_vault)" by (simp add: sample_vault_def sample_gcm_ok)
  have op: "\<not> isl (Decrypt (cv_cipher sample_vault) ct)" if "12 \<le> length ct" for ct
    using that by (simp add: Decrypt_def sample_vault_def sample_cipher_def aes_key_ok_def)
  have "map fst ?ex = [''a'']" by code_simp
  then have ids: "map_of ?ex i = None" if "i \<noteq> ''a''" for i using that by (metis list.set(1,2) list.set_map map_of_None_iff singletonD)
  have cs: "list_all (\<lambda>(k, x). case x of VBytes ct \<Rightarrow> 12 \<le> length ct | _ \<Rightarrow> True)
      (case map_of ?ex ''a'' of None \<Rightarrow> [] | Some nd \<Rightarrow> cfg_entries (wn_Config nd))" by code_simp
  have "12 \<le> length ct" if "prevCiphertext ?ex i k = Some ct" for i k ct
  proof -
    from that obtain nd where nd: "map_of ?ex i = Some nd" "map_of (cfg_entries (wn_Config nd)) k = Some (VBytes ct)"
      by (auto simp: prevCiphertext_def split: option.splits val.splits)
    with ids [of i] have "i = ''a''" by auto
    with nd cs have "list_all (\<lambda>(k, x). case x of VBytes ct \<Rightarrow> 12 \<le> length ct | _ \<Rightarrow> True) (cfg_entries (wn_Config nd))" by simp
    with map_of_SomeD [OF nd(2)] show ?thesis by (auto simp: list_all_iff)
  qed
  with op have rd: "readable sample_vault ?ex" by (auto simp: readable_def)
  have p: "\<forall>nd \<in> set (wf_Nodes ?w). plain (cfg_entries (wn_Config nd))" by (simp add: sample_wf_def secret_node_def plain_def)
  have ret: "wf_Nodes y = wf_Nodes x" if "in_UpdateWorkflow sample_inner x a = (Inr y, b)" for x y a b using that by (simp add: sample_inner_def)
  have "list_all2 (reads_as (\<lambda>nd. resolved sample_vault ?ex (wn_ID nd) (sensitiveKeys sample_vault (wn_TypeID nd)))) (wf_Nodes ?w) (wf_Nodes w')"
    by (rule vault_update_refines [OF ok sample_keys p g rd _ r]) (rule ret)
  then obtain b where b: "wf_Nodes w' = [b]"
    "reads_as (\<lambda>nd. resolved sample_vault ?ex (wn_ID nd) (sensitiveKeys sample_vault (wn_TypeID nd))) (secret_node ''a'' ''***'') b"
    by (auto simp: sample_wf_def list_all2_Cons1)
  have "sensitiveKeys sample_vault ''llm'' = [''api_key'']" "prevPlain sample_vault ?ex ''a'' ''api_key'' = Some (VStr ''sk-1'')" by code_simp+
  with b(2) have "map_of (cfg_entries (wn_Config b)) ''api_key'' = Some (VStr ''sk-1'')"
    by (cases "wn_Config b") (auto simp: reads_as_def secret_node_def resolved_def)
  with r b(1) show ?thesis by blast
qed

section \<open>The SMTP password\<close>

interpretation config_strings: string_vault encryptString decryptString "\<lambda>s. HasPrefix s encPrefix"
proof
  fix c s n t n'
  assume "gcm_ok c" "sealString c s n = (Inr t, n')"
  from sealString_format [OF this] show "HasPrefix t encPrefix" by auto
qed (simp_all add: encryptString_def decryptString_def)

text \<open>
  The SMTP password of an organisation survives storage. When \<open>UpsertOrgEmailSettings\<close> has
  stored settings whose password does not start with \<open>enc:\<close>, what reaches the inner store is
  sealed text, and decrypting exactly that gives the password back; an empty password is stored as
  it is. A password that does start with \<open>enc:\<close> is handed to the inner store in clear.
\<close>

theorem smtp_password_storage:
  assumes "gcm_ok (cv_cipher v)" "UpsertOrgEmailSettings v I o' (s, n) = (Inr (), s', n')"
  shows "\<exists>stored. in_UpsertOrgEmailSettings I (o'\<lparr>oe_SMTPPassword := stored\<rparr>) s = (Inr (), s') \<and>
    (oe_SMTPPassword o' = [] \<longrightarrow> stored = []) \<and>
    (HasPrefix (oe_SMTPPassword o') encPrefix \<longrightarrow> stored = oe_SMTPPassword o') \<and>
    (oe_SMTPPassword o' \<noteq> [] \<and> \<not> HasPrefix (oe_SMTPPassword o') encPrefix \<longrightarrow>
       HasPrefix stored encPrefix \<and> decryptString (cv_cipher v) stored = Inr (oe_SMTPPassword o') \<and>
       (\<forall>t t'. in_GetOrgEmailSettings I (oe_OrgID o') t = (Inr (o'\<lparr>oe_SMTPPassword := stored\<rparr>), t') \<longrightarrow>
          GetOrgEmailSettings v I (oe_OrgID o') t = (Inr o', t')))"
proof (cases "oe_SMTPPassword o' = []")
  case True
  then have e: "o'\<lparr>oe_SMTPPassword := []\<rparr> = o'" by (cases o') simp
  have "in_UpsertOrgEmailSettings I (o'\<lparr>oe_SMTPPassword := []\<rparr>) s = (Inr (), s')"
    unfolding e using True assms(2) by (auto simp: UpsertOrgEmailSettings_def split: prod.splits sum.splits)
  with True show ?thesis by (intro exI [of _ "[]"]) (simp add: HasPrefix_def encPrefix_def)
next
  case False
  with assms(2) obtain stored where st: "encryptString (cv_cipher v) (oe_SMTPPassword o') n = (Inr stored, n')"
    "in_UpsertOrgEmailSettings I (o'\<lparr>oe_SMTPPassword := stored\<rparr>) s = (Inr (), s')"
    by (auto simp: UpsertOrgEmailSettings_def split: prod.splits sum.splits)
  have same: "o'\<lparr>oe_SMTPPassword := oe_SMTPPassword o'\<rparr> = o'" by simp
  have "HasPrefix stored encPrefix \<and> decryptString (cv_cipher v) stored = Inr (oe_SMTPPassword o')"
    if "\<not> HasPrefix (oe_SMTPPassword o') encPrefix"
    using config_strings.roundtrip [OF assms(1) that st(1)] config_strings.recognised [OF assms(1) _ False] st(1) that
    by (simp add: encryptString_def)
  moreover have "HasPrefix (oe_SMTPPassword o') encPrefix \<Longrightarrow> stored = oe_SMTPPassword o'"
    using st(1) by (simp add: encryptString_def)
  moreover have "stored \<noteq> []" if "HasPrefix stored encPrefix" using that by (auto simp: HasPrefix_def encPrefix_def)
  ultimately show ?thesis using False st(2)
    by (intro exI [of _ stored]) (auto simp: GetOrgEmailSettings_def)
qed

definition sample_settings :: "string \<Rightarrow> org_email_settings" where
  "sample_settings pw = \<lparr> oe_OrgID = ''org'', oe_SMTPHost = ''h'', oe_SMTPPort = ''25'', oe_SMTPUser = ''u'', oe_SMTPPassword = pw,
     oe_SMTPFrom = ''f'', oe_Subject = [], oe_Body = [] \<rparr>"

theorem smtp_password_witness:
  "\<exists>stored. HasPrefix stored encPrefix \<and> decryptString sample_cipher stored = Inr ''hunter2''"
proof -
  have p: "UpsertOrgEmailSettings sample_vault sample_inner (sample_settings ''hunter2'') (sample_wf [], 0) = (Inr (), sample_wf [], 1)"
    by code_simp
  have ok: "gcm_ok (cv_cipher sample_vault)" "cv_cipher sample_vault = sample_cipher" by (simp_all add: sample_vault_def sample_gcm_ok)
  have "oe_SMTPPassword (sample_settings ''hunter2'') = ''hunter2''" "\<not> HasPrefix ''hunter2'' encPrefix"
    by (simp_all add: sample_settings_def HasPrefix_def encPrefix_def)
  with smtp_password_storage [OF ok(1) p] ok(2) show ?thesis by auto
qed

end
