(* ===== verification/Grader_Vault.thy ===== *)
theory Grader_Vault
  imports Cipher
begin

text \<open>
  Encryption of grader API keys and of webhook secrets (\<open>internal/eval/vault.go\<close>). Unlike the
  configuration vault it takes a string for encrypted only when the text after \<open>enc:\<close> decodes to
  at least 29 bytes.
\<close>

record grader_def =
  gd_ID :: string
  gd_Name :: string
  gd_Type :: string
  gd_Scope :: string
  gd_NodeID :: string
  gd_Config :: "gomap option"

definition minCiphertextLen :: nat where
  "minCiphertextLen = 29"

definition sensitiveGraderTypes :: "string list" where
  "sensitiveGraderTypes = [''llm_judge'', ''checklist'']"

definition looksEncrypted :: "string \<Rightarrow> bool" where
  "looksEncrypted s \<longleftrightarrow> HasPrefix s encPrefix \<and>
     (case DecodeString (TrimPrefix s encPrefix) of None \<Rightarrow> False | Some decoded \<Rightarrow> minCiphertextLen \<le> length decoded)"

definition EncryptValue :: "cipher \<Rightarrow> string \<Rightarrow> nat \<Rightarrow> (crypto_error + string) \<times> nat" where
  "EncryptValue c plaintext n = (if looksEncrypted plaintext then (Inr plaintext, n) else sealString c plaintext n)"

definition DecryptValue :: "cipher \<Rightarrow> string \<Rightarrow> crypto_error + string" where
  "DecryptValue c encrypted = openString c encrypted"

text \<open>The API key of a grader whose type carries one.\<close>

definition apiKey :: "grader_def \<Rightarrow> string option" where
  "apiKey g = (if gd_Type g \<in> set sensitiveGraderTypes
     then as_string (case gd_Config g of None \<Rightarrow> None | Some cfg \<Rightarrow> map_of cfg ''api_key'') else None)"

definition setApiKey :: "string \<Rightarrow> grader_def \<Rightarrow> grader_def" where
  "setApiKey k g = g\<lparr>gd_Config := map_option (AList.update ''api_key'' (VStr k)) (gd_Config g)\<rparr>"

definition encryptGrader :: "cipher \<Rightarrow> grader_def \<Rightarrow> nat \<Rightarrow> (crypto_error + grader_def) \<times> nat" where
  "encryptGrader c g n =
     (case apiKey g of
        None \<Rightarrow> (Inr g, n)
      | Some strKey \<Rightarrow>
          (if strKey = [] \<or> strKey = ''***'' \<or> looksEncrypted strKey then (Inr g, n)
           else (case sealString c strKey n of
                   (Inl e, n') \<Rightarrow> (Inl (FieldError (gd_ID g) ''api_key'' e), n')
                 | (Inr t, n') \<Rightarrow> (Inr (setApiKey t g), n'))))"

fun EncryptGraders :: "cipher \<Rightarrow> grader_def list \<Rightarrow> nat \<Rightarrow> (crypto_error + grader_def list) \<times> nat" where
  "EncryptGraders c [] n = (Inr [], n)"
| "EncryptGraders c (g # gs) n =
     (case encryptGrader c g n of
        (Inl e, n') \<Rightarrow> (Inl e, n')
      | (Inr g', n') \<Rightarrow> (case EncryptGraders c gs n' of (Inl e, n'') \<Rightarrow> (Inl e, n'') | (Inr gs', n'') \<Rightarrow> (Inr (g' # gs'), n'')))"

definition decryptGrader :: "cipher \<Rightarrow> grader_def \<Rightarrow> crypto_error + grader_def" where
  "decryptGrader c g =
     (case apiKey g of
        None \<Rightarrow> Inr g
      | Some strKey \<Rightarrow>
          (if \<not> HasPrefix strKey encPrefix then Inr g
           else (case DecodeString (TrimPrefix strKey encPrefix) of
                   None \<Rightarrow> Inl (FieldError (gd_ID g) ''api_key'' Base64Failed)
                 | Some decoded \<Rightarrow>
                     (case Decrypt c decoded of
                        Inl e \<Rightarrow> Inl (FieldError (gd_ID g) ''api_key'' e)
                      | Inr p \<Rightarrow> Inr (setApiKey p g)))))"

fun DecryptGraders :: "cipher \<Rightarrow> grader_def list \<Rightarrow> crypto_error + grader_def list" where
  "DecryptGraders c [] = Inr []"
| "DecryptGraders c (g # gs) =
     (case decryptGrader c g of
        Inl e \<Rightarrow> Inl e
      | Inr g' \<Rightarrow> (case DecryptGraders c gs of Inl e \<Rightarrow> Inl e | Inr gs' \<Rightarrow> Inr (g' # gs')))"

definition maskGrader :: "grader_def \<Rightarrow> grader_def" where
  "maskGrader g =
     (if gd_Type g \<in> set sensitiveGraderTypes \<and> (case gd_Config g of None \<Rightarrow> False | Some cfg \<Rightarrow> map_of cfg ''api_key'' \<noteq> None)
      then setApiKey ''***'' g else g)"

definition MaskGraders :: "grader_def list \<Rightarrow> grader_def list" where
  "MaskGraders gs = map maskGrader gs"

section \<open>Facts\<close>

interpretation grader_strings: string_vault EncryptValue DecryptValue looksEncrypted
proof
  fix c s n t n'
  assume a: "gcm_ok c" "sealString c s n = (Inr t, n')" "s \<noteq> []"
  from sealString_format [OF a(1,2)] a(3) show "looksEncrypted t"
    by (cases s) (auto simp: looksEncrypted_def minCiphertextLen_def)
qed (simp_all add: EncryptValue_def DecryptValue_def)

lemma update_overwrite: "AList.update k v (AList.update k x m) = AList.update k v m"
  by (induction m) auto

lemma update_same: "map_of m k = Some v \<Longrightarrow> AList.update k v m = m"
  by (induction m) auto

lemma apiKey_setApiKey: "apiKey g = Some k \<Longrightarrow> apiKey (setApiKey t g) = Some t"
  by (auto simp: apiKey_def setApiKey_def split: if_splits option.splits)

lemma setApiKey_back: "apiKey g = Some k \<Longrightarrow> setApiKey k (setApiKey t g) = g"
  by (cases g) (auto simp: apiKey_def setApiKey_def update_overwrite update_same split: if_splits option.splits)

lemma setApiKey_setApiKey: "setApiKey k (setApiKey t g) = setApiKey k g"
  by (cases "gd_Config g") (simp_all add: setApiKey_def update_overwrite)

lemma DecryptGraders_all: "list_all2 (\<lambda>a b. decryptGrader c a = Inr b) gs out \<Longrightarrow> DecryptGraders c gs = Inr out"
  by (induction rule: list_all2_induct) simp_all

lemma EncryptGraders_all:
  "EncryptGraders c gs n = (Inr out, n') \<Longrightarrow> list_all2 (\<lambda>a b. \<exists>m m'. encryptGrader c a m = (Inr b, m')) gs out"
  by (induction gs arbitrary: n out) (fastforce split: prod.splits sum.splits)+

lemma encryptGrader_opens:
  assumes "gcm_ok c" "encryptGrader c g n = (Inr g', n')" "\<And>k. apiKey g = Some k \<Longrightarrow> \<not> looksEncrypted k \<and> (HasPrefix k encPrefix \<longrightarrow> k \<noteq> [])"
  shows "decryptGrader c g' = Inr g \<and> encryptGrader c g' m = (Inr g', m)"
proof (cases "apiKey g")
  case None
  with assms(2) show ?thesis by (simp add: encryptGrader_def decryptGrader_def)
next
  case (Some k)
  show ?thesis
  proof (cases "k = [] \<or> k = ''***''")
    case True
    with Some assms(2) have "g' = g" by (auto simp: encryptGrader_def)
    with True Some show ?thesis by (auto simp: encryptGrader_def decryptGrader_def HasPrefix_def encPrefix_def)
  next
    case False
    with Some assms(2,3) obtain t where t: "sealString c k n = (Inr t, n')" "g' = setApiKey t g"
      by (auto simp: encryptGrader_def split: prod.splits sum.splits)
    have "looksEncrypted t" using grader_strings.recognised [OF assms(1) t(1)] False by simp
    moreover have o: "openString c t = Inr k" by (rule openString_sealString [OF assms(1) t(1)])
    ultimately show ?thesis using t(2) apiKey_setApiKey [OF Some, of t] setApiKey_back [OF Some, of t]
      by (auto simp: decryptGrader_def encryptGrader_def looksEncrypted_def openString_def split: option.splits sum.splits)
  qed
qed

section \<open>Properties\<close>

text \<open>
  Grader API keys survive storage. When no incoming key looks encrypted already, graders
  that were encrypted decrypt to exactly the graders that were submitted, and encrypting the
  stored form again changes nothing and draws no randomness, so a re-save cannot wrap a key twice.
\<close>

theorem grader_vault_roundtrip:
  assumes "gcm_ok c" "EncryptGraders c gs n = (Inr stored, n')" "\<forall>g \<in> set gs. \<forall>k. apiKey g = Some k \<longrightarrow> \<not> looksEncrypted k"
  shows "DecryptGraders c stored = Inr gs \<and> EncryptGraders c stored m = (Inr stored, m)"
proof -
  have one: "decryptGrader c b = Inr a \<and> encryptGrader c b m = (Inr b, m)" if "a \<in> set gs" "encryptGrader c a i = (Inr b, i')" for a b i i'
  proof (rule encryptGrader_opens [OF assms(1) that(2)])
    show "\<And>k. apiKey a = Some k \<Longrightarrow> \<not> looksEncrypted k \<and> (HasPrefix k encPrefix \<longrightarrow> k \<noteq> [])"
      using assms(3) that(1) by (auto simp: HasPrefix_def encPrefix_def)
  qed
  have "list_all2 (\<lambda>b a. decryptGrader c b = Inr a) stored gs \<and> EncryptGraders c stored m = (Inr stored, m)"
    using EncryptGraders_all [OF assms(2)] one
  proof (induction rule: list_all2_induct)
    case (Cons a as b bs)
    from Cons.hyps(1) obtain i i' where "encryptGrader c a i = (Inr b, i')" by blast
    from Cons.prems [OF _ this] have "decryptGrader c b = Inr a" "encryptGrader c b m = (Inr b, m)" by simp_all
    moreover have "list_all2 (\<lambda>b a. decryptGrader c b = Inr a) bs as \<and> EncryptGraders c bs m = (Inr bs, m)"
      by (rule Cons.IH) (rule Cons.prems, auto)
    ultimately show ?case by simp
  qed simp
  with DecryptGraders_all show ?thesis by blast
qed

definition judge :: "string \<Rightarrow> grader_def" where
  "judge k = \<lparr> gd_ID = ''g'', gd_Name = [], gd_Type = ''llm_judge'', gd_Scope = ''workflow'', gd_NodeID = [],
     gd_Config = Some [(''api_key'', VStr k)] \<rparr>"

definition sample_grader_cipher :: cipher where
  "sample_grader_cipher = \<lparr> ci_key = replicate 32 (CHR ''k''),
     ci_gcm = \<lparr> NonceSize = 12, Seal = (\<lambda>k n p. p @ replicate 16 (CHR ''t'')), Open = (\<lambda>k n ct. Some (take (length ct - 16) ct)) \<rparr>,
     ci_draw = (\<lambda>n. Some (replicate 12 (CHR ''n''))) \<rparr>"

theorem grader_vault_roundtrip_witness:
  "\<exists>stored n'. EncryptGraders sample_grader_cipher [judge ''enc:key''] 0 = (Inr stored, n') \<and>
     DecryptGraders sample_grader_cipher stored = Inr [judge ''enc:key'']"
proof -
  have ok: "gcm_ok sample_grader_cipher" by (simp add: gcm_ok_def sample_grader_cipher_def)
  have "\<not> isl (fst (EncryptGraders sample_grader_cipher [judge ''enc:key''] 0))" by code_simp
  then obtain stored n' where s: "EncryptGraders sample_grader_cipher [judge ''enc:key''] 0 = (Inr stored, n')"
    by (cases "EncryptGraders sample_grader_cipher [judge ''enc:key''] 0"; cases "fst (EncryptGraders sample_grader_cipher [judge ''enc:key''] 0)") auto
  have "\<not> looksEncrypted ''enc:key''" by code_simp
  then have "\<forall>g \<in> set [judge ''enc:key'']. \<forall>k. apiKey g = Some k \<longrightarrow> \<not> looksEncrypted k"
    by (simp add: judge_def apiKey_def sensitiveGraderTypes_def)
  from grader_vault_roundtrip [OF ok s this] s show ?thesis by blast
qed

text \<open>
  Masked responses reveal nothing of the keys: two lists of graders that differ only in the
  API keys of the graders that carry one are masked to the same list, which holds \<open>***\<close> in
  place of each key.
\<close>

theorem grader_mask_hides:
  assumes "list_all2 (\<lambda>a b. a = b \<or> (\<exists>k. apiKey a \<noteq> None \<and> b = setApiKey k a)) gs hs"
  shows "MaskGraders gs = MaskGraders hs \<and>
    (\<forall>g \<in> set (MaskGraders gs). \<forall>k. apiKey g = Some k \<longrightarrow> k = ''***'')"
proof -
  have "maskGrader a = maskGrader b" if "apiKey a \<noteq> None" "b = setApiKey k a" for a b k
  proof -
    from that(1) have "gd_Type a \<in> set sensitiveGraderTypes" "\<exists>cfg x. gd_Config a = Some cfg \<and> map_of cfg ''api_key'' = Some (VStr x)"
      by (auto simp: apiKey_def split: if_splits option.splits)
    with that(2) show ?thesis by (auto simp: maskGrader_def setApiKey_def update_overwrite)
  qed
  then have "list_all2 (\<lambda>a b. maskGrader a = maskGrader b) gs hs" using assms by (auto elim!: list_all2_mono)
  then have "MaskGraders gs = MaskGraders hs" unfolding MaskGraders_def by (induction rule: list_all2_induct) simp_all
  moreover have "apiKey (maskGrader g) = Some k \<Longrightarrow> k = ''***''" for g k
    by (auto simp: maskGrader_def apiKey_def setApiKey_def split: if_splits option.splits)
  ultimately show ?thesis by (auto simp: MaskGraders_def)
qed

theorem grader_mask_hides_witness:
  "MaskGraders [judge ''sk-1''] = MaskGraders [judge ''sk-2'']"
proof -
  have "apiKey (judge ''sk-1'') = Some ''sk-1''" "judge ''sk-2'' = setApiKey ''sk-2'' (judge ''sk-1'')"
    by (simp_all add: judge_def apiKey_def setApiKey_def sensitiveGraderTypes_def)
  then have "list_all2 (\<lambda>a b. a = b \<or> (\<exists>k. apiKey a \<noteq> None \<and> b = setApiKey k a)) [judge ''sk-1''] [judge ''sk-2'']" by auto
  from grader_mask_hides [OF this] show ?thesis by simp
qed

end
