(* ===== verification/Node_Control.thy ===== *)
theory Node_Control
  imports Runner
begin

text \<open>
  The control and data nodes under \<open>internal/node/builtin\<close>: \<open>conditional\<close>, \<open>loop_controller\<close>,
  \<open>merge\<close>, \<open>data_transform\<close> and the helpers of \<open>nodeutil\<close>. The expression language CEL, Go's
  \<open>text/template\<close> engine, \<open>strconv.Quote\<close> and the JSON decoding of a rule list are parameters. The
  cache of compiled expressions is part of the handler's state.
\<close>

datatype handler_error =
    CfgMissing string
  | CfgType string
  | CompileFailed string
  | EvalFailed string
  | NotBool string
  | TemplateFailed string
  | RuleError string handler_error
  | FieldFailed string handler_error
  | RuleInvalid string

section \<open>Shared helpers (nodeutil)\<close>

type_synonym template_engine = "string \<Rightarrow> gomap \<Rightarrow> string option"

definition containsBraces :: "string \<Rightarrow> bool" where
  "containsBraces s \<longleftrightarrow> sublist ''{{'' s"

definition RenderTemplate :: "template_engine \<Rightarrow> string \<Rightarrow> gomap \<Rightarrow> handler_error + string" where
  "RenderTemplate T s data =
     (if \<not> containsBraces s then Inr s
      else case T s data of None \<Rightarrow> Inl (TemplateFailed s) | Some r \<Rightarrow> Inr r)"

definition ToInt :: "val option \<Rightarrow> int \<Rightarrow> int" where
  "ToInt v fallback = (case v of Some (VInt n) \<Rightarrow> n | Some (VFloat n) \<Rightarrow> wrap64 (go_trunc n) | _ \<Rightarrow> fallback)"

fun resolveEach :: "template_engine \<Rightarrow> gomap \<Rightarrow> val list \<Rightarrow> handler_error + val list" where
  "resolveEach T up [] = Inr []"
| "resolveEach T up (v # vs) =
     (case (case v of VStr s \<Rightarrow> (case RenderTemplate T s up of Inl e \<Rightarrow> Inl e | Inr r \<Rightarrow> Inr (VStr r)) | _ \<Rightarrow> Inr v) of
        Inl e \<Rightarrow> Inl e
      | Inr x \<Rightarrow> (case resolveEach T up vs of Inl e \<Rightarrow> Inl e | Inr xs \<Rightarrow> Inr (x # xs)))"

definition ResolveParams :: "template_engine \<Rightarrow> val option \<Rightarrow> gomap \<Rightarrow> handler_error + val list" where
  "ResolveParams T params up =
     (case params of
        None \<Rightarrow> Inr []
      | Some VNil \<Rightarrow> Inr []
      | Some (VList vs) \<Rightarrow> resolveEach T up vs
      | Some _ \<Rightarrow> Inl (CfgType ''params''))"

definition GetRequiredString :: "gomap \<Rightarrow> string \<Rightarrow> handler_error + string" where
  "GetRequiredString cfg key =
     (case map_of cfg key of
        None \<Rightarrow> Inl (CfgMissing key)
      | Some VNil \<Rightarrow> Inl (CfgMissing key)
      | Some (VStr s) \<Rightarrow> Inr s
      | Some _ \<Rightarrow> Inl (CfgType key))"

definition GetOptionalString :: "gomap \<Rightarrow> string \<Rightarrow> handler_error + string" where
  "GetOptionalString cfg key =
     (case map_of cfg key of
        None \<Rightarrow> Inr []
      | Some VNil \<Rightarrow> Inr []
      | Some (VStr s) \<Rightarrow> Inr s
      | Some _ \<Rightarrow> Inl (CfgType key))"

section \<open>Compiled expressions\<close>

record ('a, 'p) cel_lib =
  cel_Compile :: "string \<Rightarrow> 'a option"
  cel_OutputType :: "'a \<Rightarrow> string"
  cel_Program :: "'a \<Rightarrow> 'p option"
  cel_Eval :: "'p \<Rightarrow> gomap \<Rightarrow> val option"

type_synonym 'p programs = "(string \<times> 'p) list"

text \<open>\<open>getProgram\<close>: the cached program, or compile and cache.\<close>

definition getProgram :: "('a, 'p) cel_lib \<Rightarrow> string \<Rightarrow> 'p programs \<Rightarrow> (handler_error + 'p) \<times> 'p programs" where
  "getProgram L expr ps =
     (case map_of ps expr of
        Some prg \<Rightarrow> (Inr prg, ps)
      | None \<Rightarrow>
          (case cel_Compile L expr of
             None \<Rightarrow> (Inl (CompileFailed expr), ps)
           | Some ast \<Rightarrow>
               (case cel_Program L ast of
                  None \<Rightarrow> (Inl (CompileFailed expr), ps)
                | Some prg \<Rightarrow> (Inr prg, AList.update expr prg ps))))"

definition evalBool :: "('a, 'p) cel_lib \<Rightarrow> string \<Rightarrow> gomap \<Rightarrow> 'p programs \<Rightarrow> (handler_error + bool) \<times> 'p programs" where
  "evalBool L expr up ps =
     (case getProgram L expr ps of
        (Inl e, ps') \<Rightarrow> (Inl e, ps')
      | (Inr prg, ps') \<Rightarrow>
          ((case cel_Eval L prg [(''ctx'', VMap up)] of
              None \<Rightarrow> Inl (EvalFailed expr)
            | Some (VBool b) \<Rightarrow> Inr b
            | Some _ \<Rightarrow> Inl (NotBool expr)), ps'))"

definition ValidateExpression :: "('a, 'p) cel_lib \<Rightarrow> string \<Rightarrow> handler_error + unit" where
  "ValidateExpression L expr =
     (case cel_Compile L expr of
        None \<Rightarrow> Inl (CompileFailed expr)
      | Some ast \<Rightarrow> if cel_OutputType L ast \<noteq> ''bool'' \<and> cel_OutputType L ast \<noteq> ''dyn'' then Inl (NotBool expr) else Inr ())"

section \<open>Conditional branch\<close>

record conditional_condition =
  cc_NodeID :: string
  cc_Field :: string
  cc_Operator :: string
  cc_Value :: string
  cc_ValueType :: string

record conditional_rule =
  cr_Label :: string
  cr_Logic :: string
  cr_Conditions :: "conditional_condition list"

definition validOperators :: "string list" where
  "validOperators = [''=='', ''!='', ''>'', ''>='', ''<'', ''<='', ''contains'']"

definition celLiteral :: "(string \<Rightarrow> string) \<Rightarrow> string \<Rightarrow> string \<Rightarrow> string" where
  "celLiteral quote v valueType =
     (if valueType = ''number'' then v
      else if valueType = ''boolean'' then (if v = ''true'' then ''true'' else ''false'')
      else quote v)"

definition conditionToCEL :: "(string \<Rightarrow> string) \<Rightarrow> conditional_condition \<Rightarrow> string" where
  "conditionToCEL quote c =
     (let ref = ''ctx['' @ quote (cc_NodeID c) @ '']['' @ quote (cc_Field c) @ '']''
      in if cc_Operator c = ''contains'' then ref @ ''.contains('' @ celLiteral quote (cc_Value c) ''string'' @ '')''
         else ref @ '' '' @ cc_Operator c @ '' '' @ celLiteral quote (cc_Value c) (cc_ValueType c))"

fun joinWith :: "string \<Rightarrow> string list \<Rightarrow> string" where
  "joinWith sep [] = []"
| "joinWith sep [x] = x"
| "joinWith sep (x # y # ys) = x @ sep @ joinWith sep (y # ys)"

definition rulesToCEL :: "(string \<Rightarrow> string) \<Rightarrow> conditional_rule \<Rightarrow> string" where
  "rulesToCEL quote r =
     joinWith (if cr_Logic r = ''OR'' then '' || '' else '' && '') (map (conditionToCEL quote) (cr_Conditions r))"

fun validateConditions :: "string \<Rightarrow> conditional_condition list \<Rightarrow> handler_error + unit" where
  "validateConditions label [] = Inr ()"
| "validateConditions label (c # cs) =
     (if cc_Operator c \<notin> set validOperators then Inl (RuleInvalid label)
      else if cc_NodeID c = [] then Inl (RuleInvalid label)
      else if cc_Field c = [] then Inl (RuleInvalid label)
      else if cc_ValueType c \<notin> {''string'', ''number'', ''boolean''} then Inl (RuleInvalid label)
      else validateConditions label cs)"

fun validateRulesFrom :: "('a, 'p) cel_lib \<Rightarrow> (string \<Rightarrow> string) \<Rightarrow> string list \<Rightarrow> conditional_rule list \<Rightarrow> handler_error + unit" where
  "validateRulesFrom L quote seen [] = Inr ()"
| "validateRulesFrom L quote seen (r # rs) =
     (if cr_Label r = [] then Inl (RuleInvalid [])
      else if cr_Label r = ''fallback'' then Inl (RuleInvalid ''fallback'')
      else if cr_Label r \<in> set seen then Inl (RuleInvalid (cr_Label r))
      else if cr_Conditions r = [] then Inl (RuleInvalid (cr_Label r))
      else if cr_Logic r \<noteq> ''AND'' \<and> cr_Logic r \<noteq> ''OR'' then Inl (RuleInvalid (cr_Label r))
      else case validateConditions (cr_Label r) (cr_Conditions r) of
             Inl e \<Rightarrow> Inl e
           | Inr _ \<Rightarrow>
               (case ValidateExpression L (rulesToCEL quote r) of
                  Inl e \<Rightarrow> Inl (RuleError (cr_Label r) e)
                | Inr _ \<Rightarrow> validateRulesFrom L quote (cr_Label r # seen) rs))"

definition ValidateRules :: "('a, 'p) cel_lib \<Rightarrow> (string \<Rightarrow> string) \<Rightarrow> conditional_rule list \<Rightarrow> handler_error + unit" where
  "ValidateRules L quote rules = (if rules = [] then Inl (RuleInvalid []) else validateRulesFrom L quote [] rules)"

fun executeRules :: "('a, 'p) cel_lib \<Rightarrow> (string \<Rightarrow> string) \<Rightarrow> conditional_rule list \<Rightarrow> gomap \<Rightarrow> 'p programs
    \<Rightarrow> (handler_error + gomap) \<times> 'p programs" where
  "executeRules L quote [] up ps = (Inr [(''matched_rule'', VStr ''fallback'')], ps)"
| "executeRules L quote (r # rs) up ps =
     (case evalBool L (rulesToCEL quote r) up ps of
        (Inl e, ps') \<Rightarrow> (Inl (RuleError (cr_Label r) e), ps')
      | (Inr matched, ps') \<Rightarrow>
          (if matched then (Inr [(''matched_rule'', VStr (cr_Label r))], ps') else executeRules L quote rs up ps'))"

definition executeLegacy :: "('a, 'p) cel_lib \<Rightarrow> string \<Rightarrow> gomap \<Rightarrow> 'p programs \<Rightarrow> (handler_error + gomap) \<times> 'p programs" where
  "executeLegacy L expr up ps =
     (case evalBool L expr up ps of
        (Inl e, ps') \<Rightarrow> (Inl e, ps')
      | (Inr b, ps') \<Rightarrow> (Inr [(''result'', VBool b)], ps'))"

definition conditional_Execute :: "('a, 'p) cel_lib \<Rightarrow> (string \<Rightarrow> string) \<Rightarrow> (val \<Rightarrow> conditional_rule list option) \<Rightarrow> node_input \<Rightarrow> 'p programs
    \<Rightarrow> (handler_error + gomap) \<times> 'p programs" where
  "conditional_Execute L quote parseRules input ps =
     (let expr = str_or_empty (map_of (cfg_entries (Config input)) ''expression'')
      in if expr \<noteq> [] then executeLegacy L expr (UpstreamData input) ps
         else case map_of (cfg_entries (Config input)) ''rules'' of
                None \<Rightarrow> (Inl (CfgMissing ''rules''), ps)
              | Some raw \<Rightarrow>
                  (case parseRules raw of
                     None \<Rightarrow> (Inl (CfgType ''rules''), ps)
                   | Some rules \<Rightarrow> executeRules L quote rules (UpstreamData input) ps))"

section \<open>Loop controller\<close>

definition maxIterations :: "gomap option \<Rightarrow> handler_error + int" where
  "maxIterations config =
     (case map_of (cfg_entries config) ''max_iterations'' of
        None \<Rightarrow> Inl (CfgMissing ''max_iterations'')
      | Some (VFloat n) \<Rightarrow> Inr (wrap64 (go_trunc n))
      | Some (VInt n) \<Rightarrow> Inr n
      | Some (VInt64 n) \<Rightarrow> Inr n
      | Some _ \<Rightarrow> Inl (CfgType ''max_iterations''))"

definition currentIteration :: "gomap \<Rightarrow> int" where
  "currentIteration up =
     (case map_of up ''_loop_state'' of
        Some (VMap state) \<Rightarrow>
          (case map_of state ''iteration'' of
             Some (VFloat n) \<Rightarrow> wrap64 (go_trunc n)
           | Some (VInt n) \<Rightarrow> n
           | Some (VInt64 n) \<Rightarrow> n
           | _ \<Rightarrow> 0)
      | _ \<Rightarrow> 0)"

text \<open>The controller has its own cache and its own copies of the compile and validate functions.\<close>

definition loop_getProgram :: "('a, 'p) cel_lib \<Rightarrow> string \<Rightarrow> 'p programs \<Rightarrow> (handler_error + 'p) \<times> 'p programs" where
  "loop_getProgram L expr ps = getProgram L expr ps"

definition ValidateExitCondition :: "('a, 'p) cel_lib \<Rightarrow> string \<Rightarrow> handler_error + unit" where
  "ValidateExitCondition L expr = ValidateExpression L expr"

definition evalExitCondition :: "('a, 'p) cel_lib \<Rightarrow> string \<Rightarrow> gomap \<Rightarrow> 'p programs \<Rightarrow> (handler_error + bool) \<times> 'p programs" where
  "evalExitCondition L expr up ps =
     (case loop_getProgram L expr ps of
        (Inl e, ps') \<Rightarrow> (Inl e, ps')
      | (Inr prg, ps') \<Rightarrow>
          ((case cel_Eval L prg [(''ctx'', VMap up)] of
              None \<Rightarrow> Inl (EvalFailed expr)
            | Some (VBool b) \<Rightarrow> Inr b
            | Some _ \<Rightarrow> Inl (NotBool expr)), ps'))"

definition loop_Execute :: "('a, 'p) cel_lib \<Rightarrow> node_input \<Rightarrow> 'p programs \<Rightarrow> (handler_error + gomap) \<times> 'p programs" where
  "loop_Execute L input ps =
     (case maxIterations (Config input) of
        Inl e \<Rightarrow> (Inl e, ps)
      | Inr maxIter \<Rightarrow>
          (let iteration = currentIteration (UpstreamData input);
               continue = [(''action'', VStr ''loop_body''), (''iteration'', VInt iteration)];
               leave = (\<lambda>reason. [(''action'', VStr ''exit''), (''iteration'', VInt iteration), (''exit_reason'', VStr reason)]);
               expr = str_or_empty (map_of (cfg_entries (Config input)) ''exit_condition'')
           in if iteration \<ge> maxIter then (Inr (leave ''max_iterations''), ps)
              else if expr \<noteq> [] then
                (case evalExitCondition L expr (UpstreamData input) ps of
                   (Inl e, ps') \<Rightarrow> (Inl e, ps')
                 | (Inr shouldExit, ps') \<Rightarrow> (Inr (if shouldExit then leave ''condition'' else continue), ps'))
              else (Inr continue, ps)))"

section \<open>Merge\<close>

definition merge_Execute :: "node_input \<Rightarrow> gomap" where
  "merge_Execute input =
     (let ids = (if DirectPredecessorIDs input = [] then filter (\<lambda>k. k \<noteq> ''_initial'') (map fst (UpstreamData input))
                 else DirectPredecessorIDs input)
      in fold (\<lambda>i out. case map_of (UpstreamData input) i of
                         Some (VMap m) \<Rightarrow> fold (\<lambda>(mk, mv) out. AList.update mk mv out) m out
                       | _ \<Rightarrow> out)
           (sort ids) [])"

section \<open>Data transform\<close>

fun renderFields :: "template_engine \<Rightarrow> gomap \<Rightarrow> gomap \<Rightarrow> gomap \<Rightarrow> handler_error + gomap" where
  "renderFields T up [] out = Inr out"
| "renderFields T up ((key, v) # fs) out =
     (case v of
        VStr tmpl \<Rightarrow>
          (case RenderTemplate T tmpl up of
             Inl e \<Rightarrow> Inl (FieldFailed key e)
           | Inr rendered \<Rightarrow> renderFields T up fs (AList.update key (VStr rendered) out))
      | _ \<Rightarrow> renderFields T up fs (AList.update key v out))"

definition transform_Execute :: "template_engine \<Rightarrow> node_input \<Rightarrow> handler_error + gomap" where
  "transform_Execute T input =
     (case map_of (cfg_entries (Config input)) ''fields'' of
        None \<Rightarrow> Inr []
      | Some (VMap fs) \<Rightarrow> renderFields T (UpstreamData input) fs []
      | Some _ \<Rightarrow> Inl (CfgType ''fields''))"

end
