(* ===== verification/Workflow_Validator.thy ===== *)
theory Workflow_Validator
  imports Node_Control
begin

text \<open>
  Save-time validation of a workflow (\<open>internal/api/workflow_validator.go\<close> and \<open>validate\<close>,
  \<open>applyDefaults\<close> of \<open>workflow_handler.go\<close>). Every validator appends to one list of errors. The
  decoding of a JSON Schema, the template parser, the decoding of a rule list and the CEL and
  regular expression libraries are parameters, gathered in one record. A message is the case of
  the validator that wrote it.
\<close>

datatype problem =
    FieldMissing
  | FieldEmpty
  | BadTemplate
  | BadParser parse_error
  | RulesNull
  | RulesFormat
  | RulesRejected handler_error
  | NoRulesNoExpression
  | BadExpression handler_error
  | LoopLabel string
  | LabelOnPlainNode string
  | LabelUnknown string
  | LabelNotBoolean string
  | BackEdgeLabelled
  | BackEdgeTarget string string
  | BadExitCondition handler_error

record field_validation_error =
  fe_NodeID :: string
  fe_Field :: string
  fe_Message :: problem

record schema_property =
  sp_XTemplate :: bool
  sp_AdditionalXTemplate :: "bool option"

record ('a, 'p) validator_libs =
  schema_Required :: "string \<Rightarrow> string list option"
  schema_Properties :: "string \<Rightarrow> (string \<times> schema_property) list option"
  template_Parses :: "string \<Rightarrow> bool"
  rules_Decode :: "val \<Rightarrow> conditional_rule list option"
  quote_String :: "string \<Rightarrow> string"
  cel :: "('a, 'p) cel_lib"
  parsers :: parse_libs

section \<open>Required fields\<close>

definition parseRequiredFields :: "('a, 'p) validator_libs \<Rightarrow> string \<Rightarrow> string list" where
  "parseRequiredFields V schema = (case schema_Required V schema of None \<Rightarrow> [] | Some r \<Rightarrow> r)"

definition requiredFieldError :: "workflow_node \<Rightarrow> string \<Rightarrow> field_validation_error list" where
  "requiredFieldError n f =
     (case map_of (cfg_entries (wn_Config n)) f of
        None \<Rightarrow> [\<lparr> fe_NodeID = wn_ID n, fe_Field = f, fe_Message = FieldMissing \<rparr>]
      | Some VNil \<Rightarrow> [\<lparr> fe_NodeID = wn_ID n, fe_Field = f, fe_Message = FieldMissing \<rparr>]
      | Some (VStr s) \<Rightarrow> (if s = [] then [\<lparr> fe_NodeID = wn_ID n, fe_Field = f, fe_Message = FieldEmpty \<rparr>] else [])
      | Some _ \<Rightarrow> [])"

definition validateRequiredFields :: "('a, 'p) validator_libs \<Rightarrow> workflow \<Rightarrow> node_registry \<Rightarrow> field_validation_error list" where
  "validateRequiredFields V w reg =
     concat (map (\<lambda>n. case Lookup (wn_TypeID n) reg of
                        Inl _ \<Rightarrow> []
                      | Inr h \<Rightarrow> concat (map (requiredFieldError n) (parseRequiredFields V (nm_InputSchema (nh_Meta h)))))
       (wf_Nodes w))"

section \<open>Templates\<close>

record template_field =
  tf_key :: string
  tf_isMap :: bool

definition templateFieldOf :: "string \<Rightarrow> schema_property \<Rightarrow> template_field list" where
  "templateFieldOf k p =
     (if sp_XTemplate p then [\<lparr> tf_key = k, tf_isMap = False \<rparr>]
      else if sp_AdditionalXTemplate p = Some True then [\<lparr> tf_key = k, tf_isMap = True \<rparr>]
      else [])"

definition parseTemplateFields :: "('a, 'p) validator_libs \<Rightarrow> string \<Rightarrow> template_field list" where
  "parseTemplateFields V schema =
     (case schema_Properties V schema of
        None \<Rightarrow> []
      | Some props \<Rightarrow> concat (map (\<lambda>(k, p). templateFieldOf k p) props))"

definition templateError :: "('a, 'p) validator_libs \<Rightarrow> string \<Rightarrow> string \<Rightarrow> val \<Rightarrow> field_validation_error list" where
  "templateError V i label v =
     (case v of
        VStr s \<Rightarrow> (if containsBraces s \<and> \<not> template_Parses V s
                    then [\<lparr> fe_NodeID = i, fe_Field = label, fe_Message = BadTemplate \<rparr>] else [])
      | _ \<Rightarrow> [])"

definition templateFieldErrors :: "('a, 'p) validator_libs \<Rightarrow> workflow_node \<Rightarrow> template_field \<Rightarrow> field_validation_error list" where
  "templateFieldErrors V n f =
     (case map_of (cfg_entries (wn_Config n)) (tf_key f) of
        None \<Rightarrow> []
      | Some v \<Rightarrow>
          (if tf_isMap f then
             (case v of
                VMap m \<Rightarrow> concat (map (\<lambda>(mapKey, x). templateError V (wn_ID n) (tf_key f @ ''['' @ mapKey @ '']'') x) m)
              | _ \<Rightarrow> [])
           else templateError V (wn_ID n) (tf_key f) v))"

definition validateTemplates :: "('a, 'p) validator_libs \<Rightarrow> workflow \<Rightarrow> node_registry \<Rightarrow> field_validation_error list" where
  "validateTemplates V w reg =
     concat (map (\<lambda>n. case Lookup (wn_TypeID n) reg of
                        Inl _ \<Rightarrow> []
                      | Inr h \<Rightarrow> concat (map (templateFieldErrors V n) (parseTemplateFields V (nm_InputSchema (nh_Meta h)))))
       (wf_Nodes w))"

section \<open>Output parsers and expressions\<close>

definition validateOutputParsers :: "('a, 'p) validator_libs \<Rightarrow> workflow_node list \<Rightarrow> field_validation_error list" where
  "validateOutputParsers V nodes =
     concat (map (\<lambda>n. case ValidateAll (parsers V) (wn_OutputParsers n) of
                        Inl e \<Rightarrow> [\<lparr> fe_NodeID = wn_ID n, fe_Field = [], fe_Message = BadParser e \<rparr>]
                      | Inr _ \<Rightarrow> []) nodes)"

definition conditionalNodeErrors :: "('a, 'p) validator_libs \<Rightarrow> workflow_node \<Rightarrow> field_validation_error list" where
  "conditionalNodeErrors V n =
     (case map_of (cfg_entries (wn_Config n)) ''rules'' of
        Some raw \<Rightarrow>
          (if raw = VNil then [\<lparr> fe_NodeID = wn_ID n, fe_Field = ''rules'', fe_Message = RulesNull \<rparr>]
           else case rules_Decode V raw of
                  None \<Rightarrow> [\<lparr> fe_NodeID = wn_ID n, fe_Field = ''rules'', fe_Message = RulesFormat \<rparr>]
                | Some rules \<Rightarrow>
                    (case ValidateRules (cel V) (quote_String V) rules of
                       Inl e \<Rightarrow> [\<lparr> fe_NodeID = wn_ID n, fe_Field = ''rules'', fe_Message = RulesRejected e \<rparr>]
                     | Inr _ \<Rightarrow> []))
      | None \<Rightarrow>
          (let expr = str_or_empty (map_of (cfg_entries (wn_Config n)) ''expression'')
           in if expr = [] then [\<lparr> fe_NodeID = wn_ID n, fe_Field = [], fe_Message = NoRulesNoExpression \<rparr>]
              else case ValidateExpression (cel V) expr of
                     Inl e \<Rightarrow> [\<lparr> fe_NodeID = wn_ID n, fe_Field = ''expression'', fe_Message = BadExpression e \<rparr>]
                   | Inr _ \<Rightarrow> []))"

definition validateCELExpressions :: "('a, 'p) validator_libs \<Rightarrow> workflow_node list \<Rightarrow> field_validation_error list" where
  "validateCELExpressions V nodes =
     concat (map (\<lambda>n. if wn_TypeID n = ''conditional.branch'' then conditionalNodeErrors V n else []) nodes)"

section \<open>Edges\<close>

text \<open>A map built by assigning for each node in turn: the last node with an id wins.\<close>

definition nodeTypeOf :: "workflow_node list \<Rightarrow> string \<Rightarrow> string" where
  "nodeTypeOf nodes i = (case map_of (rev (map (\<lambda>n. (wn_ID n, wn_TypeID n)) nodes)) i of None \<Rightarrow> [] | Some t \<Rightarrow> t)"

record node_format =
  nf_isNew :: bool
  nf_labels :: "string list"

definition nodeFormatOf :: "('a, 'p) validator_libs \<Rightarrow> workflow_node \<Rightarrow> node_format" where
  "nodeFormatOf V n =
     (case map_of (cfg_entries (wn_Config n)) ''rules'' of
        None \<Rightarrow> \<lparr> nf_isNew = False, nf_labels = [] \<rparr>
      | Some raw \<Rightarrow>
          (if raw = VNil then \<lparr> nf_isNew = True, nf_labels = [''fallback''] \<rparr>
           else case rules_Decode V raw of
                  None \<Rightarrow> \<lparr> nf_isNew = True, nf_labels = [''fallback''] \<rparr>
                | Some rules \<Rightarrow> \<lparr> nf_isNew = True, nf_labels = map cr_Label rules @ [''fallback''] \<rparr>))"

definition nodeFormats :: "('a, 'p) validator_libs \<Rightarrow> workflow_node list \<Rightarrow> string \<Rightarrow> node_format option" where
  "nodeFormats V nodes i =
     map_of (rev (map (\<lambda>n. (wn_ID n, nodeFormatOf V n)) (filter (\<lambda>n. wn_TypeID n = ''conditional.branch'') nodes))) i"

definition edgeLabelErrors :: "('a, 'p) validator_libs \<Rightarrow> workflow_node list \<Rightarrow> workflow_edge \<Rightarrow> field_validation_error list" where
  "edgeLabelErrors V nodes e =
     (case we_BranchLabel e of
        None \<Rightarrow> []
      | Some label \<Rightarrow>
          (if we_IsLoopBack e then []
           else if nodeTypeOf nodes (we_SourceID e) = loopControllerTypeID then
             (if label \<noteq> ''loop_body'' \<and> label \<noteq> ''exit''
              then [\<lparr> fe_NodeID = we_SourceID e, fe_Field = [], fe_Message = LoopLabel label \<rparr>] else [])
           else case nodeFormats V nodes (we_SourceID e) of
                  None \<Rightarrow> [\<lparr> fe_NodeID = we_SourceID e, fe_Field = [], fe_Message = LabelOnPlainNode label \<rparr>]
                | Some nf \<Rightarrow>
                    (if nf_isNew nf then
                       (if label \<notin> set (nf_labels nf)
                        then [\<lparr> fe_NodeID = we_SourceID e, fe_Field = [], fe_Message = LabelUnknown label \<rparr>] else [])
                     else if label \<noteq> ''true'' \<and> label \<noteq> ''false''
                     then [\<lparr> fe_NodeID = we_SourceID e, fe_Field = [], fe_Message = LabelNotBoolean label \<rparr>] else [])))"

definition validateEdgeBranchLabels :: "('a, 'p) validator_libs \<Rightarrow> workflow_node list \<Rightarrow> workflow_edge list \<Rightarrow> field_validation_error list" where
  "validateEdgeBranchLabels V nodes edges = concat (map (edgeLabelErrors V nodes) edges)"

definition loopBackErrors :: "workflow_node list \<Rightarrow> workflow_edge \<Rightarrow> field_validation_error list" where
  "loopBackErrors nodes e =
     (if \<not> we_IsLoopBack e then []
      else (if we_BranchLabel e \<noteq> None then [\<lparr> fe_NodeID = we_SourceID e, fe_Field = [], fe_Message = BackEdgeLabelled \<rparr>] else []) @
           (if nodeTypeOf nodes (we_TargetID e) \<noteq> loopControllerTypeID
            then [\<lparr> fe_NodeID = we_SourceID e, fe_Field = [],
                    fe_Message = BackEdgeTarget (we_TargetID e) (nodeTypeOf nodes (we_TargetID e)) \<rparr>] else []))"

definition exitConditionErrors :: "('a, 'p) validator_libs \<Rightarrow> workflow_node \<Rightarrow> field_validation_error list" where
  "exitConditionErrors V n =
     (if wn_TypeID n \<noteq> loopControllerTypeID then []
      else let expr = str_or_empty (map_of (cfg_entries (wn_Config n)) ''exit_condition'')
           in if expr = [] then []
              else case ValidateExitCondition (cel V) expr of
                     Inl e \<Rightarrow> [\<lparr> fe_NodeID = wn_ID n, fe_Field = ''exit_condition'', fe_Message = BadExitCondition e \<rparr>]
                   | Inr _ \<Rightarrow> [])"

definition validateLoopEdges :: "('a, 'p) validator_libs \<Rightarrow> workflow_node list \<Rightarrow> workflow_edge list \<Rightarrow> field_validation_error list" where
  "validateLoopEdges V nodes edges =
     concat (map (loopBackErrors nodes) edges) @ concat (map (exitConditionErrors V) nodes)"

section \<open>The whole validation\<close>

definition collectValidationErrors :: "('a, 'p) validator_libs \<Rightarrow> workflow \<Rightarrow> node_registry \<Rightarrow> field_validation_error list" where
  "collectValidationErrors V w reg =
     validateRequiredFields V w reg @
     validateTemplates V w reg @
     validateOutputParsers V (wf_Nodes w) @
     validateCELExpressions V (wf_Nodes w) @
     validateEdgeBranchLabels V (wf_Nodes w) (wf_Edges w) @
     validateLoopEdges V (wf_Nodes w) (wf_Edges w)"

datatype invalid_workflow = NameRequired | UnknownTypeID string

definition applyDefaults :: "workflow \<Rightarrow> workflow" where
  "applyDefaults w = (if tr_Kind (wf_Trigger w) = [] then w\<lparr>wf_Trigger := (wf_Trigger w)\<lparr>tr_Kind := ''manual''\<rparr>\<rparr> else w)"

definition validate :: "node_registry \<Rightarrow> workflow \<Rightarrow> invalid_workflow + unit" where
  "validate reg w =
     (if wf_Name w = [] then Inl NameRequired
      else case find (\<lambda>n. isl (Lookup (wn_TypeID n) reg)) (wf_Nodes w) of
             Some n \<Rightarrow> Inl (UnknownTypeID (wn_TypeID n))
           | None \<Rightarrow> Inr ())"

end
