(* ===== verification/Node_Props.thy ===== *)
theory Node_Props
  imports Node_Control Runner_Loops
begin

text \<open>
  Correctness of the control nodes, alone and together with the runner that routes on what they
  return.
\<close>

section \<open>The cache of compiled expressions\<close>

definition compiled :: "('a, 'p) cel_lib \<Rightarrow> string \<Rightarrow> 'p option" where
  "compiled L expr = Option.bind (cel_Compile L expr) (cel_Program L)"

definition cache_ok :: "('a, 'p) cel_lib \<Rightarrow> 'p programs \<Rightarrow> bool" where
  "cache_ok L ps \<longleftrightarrow> (\<forall>e p. map_of ps e = Some p \<longrightarrow> compiled L e = Some p)"

text \<open>The specification: compile and evaluate afresh.\<close>

definition evalFresh :: "('a, 'p) cel_lib \<Rightarrow> string \<Rightarrow> gomap \<Rightarrow> handler_error + bool" where
  "evalFresh L expr up =
     (case compiled L expr of
        None \<Rightarrow> Inl (CompileFailed expr)
      | Some prg \<Rightarrow>
          (case cel_Eval L prg [(''ctx'', VMap up)] of
             None \<Rightarrow> Inl (EvalFailed expr)
           | Some (VBool b) \<Rightarrow> Inr b
           | Some _ \<Rightarrow> Inl (NotBool expr)))"

lemma getProgram_cached:
  assumes "cache_ok L ps"
  shows "cache_ok L (snd (getProgram L expr ps))"
    "fst (getProgram L expr ps) = (case compiled L expr of None \<Rightarrow> Inl (CompileFailed expr) | Some p \<Rightarrow> Inr p)"
  using assms by (auto simp: getProgram_def cache_ok_def compiled_def split: option.splits if_splits)

lemma evalBool_cached:
  assumes "cache_ok L ps"
  shows "fst (evalBool L expr up ps) = evalFresh L expr up" "cache_ok L (snd (evalBool L expr up ps))"
  using getProgram_cached [OF assms, of expr]
  by (auto simp: evalBool_def evalFresh_def split: prod.splits sum.splits option.splits)

section \<open>Conditional branch\<close>

text \<open>The rule that decides: the first one that does not evaluate to false.\<close>

fun firstMatch :: "('a, 'p) cel_lib \<Rightarrow> (string \<Rightarrow> string) \<Rightarrow> conditional_rule list \<Rightarrow> gomap \<Rightarrow> handler_error + string" where
  "firstMatch L quote [] up = Inr ''fallback''"
| "firstMatch L quote (r # rs) up =
     (case evalFresh L (rulesToCEL quote r) up of
        Inl e \<Rightarrow> Inl (RuleError (cr_Label r) e)
      | Inr True \<Rightarrow> Inr (cr_Label r)
      | Inr False \<Rightarrow> firstMatch L quote rs up)"

lemma executeRules_cached:
  "cache_ok L ps \<Longrightarrow>
   fst (executeRules L quote rules up ps) = (case firstMatch L quote rules up of Inl e \<Rightarrow> Inl e | Inr l \<Rightarrow> Inr [(''matched_rule'', VStr l)]) \<and>
   cache_ok L (snd (executeRules L quote rules up ps))"
proof (induction rules arbitrary: ps)
  case (Cons r rs)
  obtain res ps' where e: "evalBool L (rulesToCEL quote r) up ps = (res, ps')" by fastforce
  from evalBool_cached [OF Cons.prems, of "rulesToCEL quote r" up] e have "res = evalFresh L (rulesToCEL quote r) up" "cache_ok L ps'" by simp_all
  with e Cons.IH show ?case by (auto split: sum.splits bool.splits)
qed simp

lemma validateRules_labels:
  "validateRulesFrom L quote seen rules = Inr () \<Longrightarrow>
   distinct (map cr_Label rules) \<and> set (map cr_Label rules) \<inter> set seen = {} \<and>
   ''fallback'' \<notin> set (map cr_Label rules) \<and> (\<forall>r \<in> set rules. cr_Conditions r \<noteq> [] \<and> cel_Compile L (rulesToCEL quote r) \<noteq> None)"
proof (induction rules arbitrary: seen)
  case (Cons r rs)
  from Cons.prems have "validateRulesFrom L quote (cr_Label r # seen) rs = Inr ()" "cr_Label r \<noteq> ''fallback''" "cr_Label r \<notin> set seen"
    "cr_Conditions r \<noteq> []" "cel_Compile L (rulesToCEL quote r) \<noteq> None"
    by (auto simp: ValidateExpression_def split: if_splits sum.splits option.splits)
  with Cons.IH [of "cr_Label r # seen"] show ?case by auto
qed simp

lemma firstMatch_cases:
  "firstMatch L quote rules up = Inr l \<Longrightarrow>
   (\<exists>pre r post. rules = pre @ r # post \<and> l = cr_Label r \<and> evalFresh L (rulesToCEL quote r) up = Inr True \<and>
      (\<forall>x \<in> set pre. evalFresh L (rulesToCEL quote x) up = Inr False)) \<or>
   (l = ''fallback'' \<and> (\<forall>x \<in> set rules. evalFresh L (rulesToCEL quote x) up = Inr False))"
proof (induction rules)
  case (Cons r rs)
  show ?case
  proof (cases "evalFresh L (rulesToCEL quote r) up")
    case (Inl e)
    with Cons.prems show ?thesis by simp
  next
    case (Inr b)
    show ?thesis
    proof (cases b)
      case True
      with Inr Cons.prems show ?thesis by (intro disjI1 exI [of _ "[]"] exI [of _ r] exI [of _ rs]) simp
    next
      case False
      with Inr Cons.prems have "firstMatch L quote rs up = Inr l" by simp
      from Cons.IH [OF this] show ?thesis
      proof
        assume "\<exists>pre r post. rs = pre @ r # post \<and> l = cr_Label r \<and> evalFresh L (rulesToCEL quote r) up = Inr True \<and>
          (\<forall>x \<in> set pre. evalFresh L (rulesToCEL quote x) up = Inr False)"
        then obtain pre r' post where "rs = pre @ r' # post" "l = cr_Label r'" "evalFresh L (rulesToCEL quote r') up = Inr True"
          "\<forall>x \<in> set pre. evalFresh L (rulesToCEL quote x) up = Inr False" by blast
        with Inr False show ?thesis by (intro disjI1 exI [of _ "r # pre"] exI [of _ r'] exI [of _ post]) simp
      qed (use Inr False in auto)
    qed
  qed
qed simp

text \<open>
  First match wins. With any cache of programs the handler has built up, executing a list of
  rules that \<open>ValidateRules\<close> accepted either fails, or chooses one label: that of the first rule
  that evaluates to true, all earlier ones being false, or \<open>fallback\<close> when every rule is false.
  The runner then lets through exactly the edges that carry the chosen label, and no label
  of another rule equals it.
\<close>

theorem conditional_routes_first_match:
  assumes "cache_ok L ps" "ValidateRules L quote rules = Inr ()" "executeRules L quote rules up ps = (Inr out, ps')"
  shows "cache_ok L ps' \<and>
    (\<exists>l. ((\<exists>pre r post. rules = pre @ r # post \<and> l = cr_Label r \<and> l \<notin> set (map cr_Label (pre @ post)) \<and> l \<noteq> ''fallback'' \<and>
             evalFresh L (rulesToCEL quote r) up = Inr True \<and> (\<forall>x \<in> set pre. evalFresh L (rulesToCEL quote x) up = Inr False)) \<or>
           (l = ''fallback'' \<and> (\<forall>x \<in> set rules. evalFresh L (rulesToCEL quote x) up = Inr False))) \<and>
       (\<forall>e lab t. we_BranchLabel e = Some lab \<and> t \<noteq> loopControllerTypeID \<longrightarrow> branchAllows e out t = (lab = l)))"
proof -
  from executeRules_cached [OF assms(1), of quote rules up] assms(3) obtain l where
    l: "firstMatch L quote rules up = Inr l" "out = [(''matched_rule'', VStr l)]" and c: "cache_ok L ps'"
    by (auto split: sum.splits)
  from assms(2) have v: "distinct (map cr_Label rules)" "''fallback'' \<notin> set (map cr_Label rules)"
    using validateRules_labels [of L quote "[]" rules] by (auto simp: ValidateRules_def split: if_splits)
  have "(\<exists>pre r post. rules = pre @ r # post \<and> l = cr_Label r \<and> l \<notin> set (map cr_Label (pre @ post)) \<and> l \<noteq> ''fallback'' \<and>
             evalFresh L (rulesToCEL quote r) up = Inr True \<and> (\<forall>x \<in> set pre. evalFresh L (rulesToCEL quote x) up = Inr False)) \<or>
           (l = ''fallback'' \<and> (\<forall>x \<in> set rules. evalFresh L (rulesToCEL quote x) up = Inr False))"
    using firstMatch_cases [OF l(1)]
  proof
    assume "\<exists>pre r post. rules = pre @ r # post \<and> l = cr_Label r \<and> evalFresh L (rulesToCEL quote r) up = Inr True \<and>
      (\<forall>x \<in> set pre. evalFresh L (rulesToCEL quote x) up = Inr False)"
    then obtain pre r post where p: "rules = pre @ r # post" "l = cr_Label r" "evalFresh L (rulesToCEL quote r) up = Inr True"
      "\<forall>x \<in> set pre. evalFresh L (rulesToCEL quote x) up = Inr False" by blast
    with v have "l \<notin> set (map cr_Label (pre @ post))" "l \<noteq> ''fallback''" by auto
    with p show ?thesis by blast
  qed blast
  moreover have "\<forall>e lab t. we_BranchLabel e = Some lab \<and> t \<noteq> loopControllerTypeID \<longrightarrow> branchAllows e out t = (lab = l)"
    by (auto simp: branchAllows_def l(2))
  ultimately show ?thesis using c by blast
qed

definition sample_quote :: "string \<Rightarrow> string" where
  "sample_quote s = CHR 0x22 # s @ [CHR 0x22]"

definition sample_rule :: "string \<Rightarrow> string \<Rightarrow> conditional_rule" where
  "sample_rule l v = \<lparr> cr_Label = l, cr_Logic = ''AND'',
     cr_Conditions = [\<lparr> cc_NodeID = ''n1'', cc_Field = ''score'', cc_Operator = ''>'', cc_Value = v, cc_ValueType = ''number'' \<rparr>] \<rparr>"

definition sample_cel :: "(string, string) cel_lib" where
  "sample_cel = \<lparr> cel_Compile = Some, cel_OutputType = (\<lambda>_. ''bool''), cel_Program = Some,
     cel_Eval = (\<lambda>p _. Some (VBool (p = rulesToCEL sample_quote (sample_rule [] ''5'')))) \<rparr>"

theorem conditional_routes_first_match_witness:
  "\<exists>out ps'. executeRules sample_cel sample_quote [sample_rule ''high'' ''9'', sample_rule ''mid'' ''5''] [] [] = (Inr out, ps') \<and>
     (\<exists>l. branchAllows (sample_edge ''e'' ''a'' ''b'' (Some ''mid'') False) out ''conditional.branch'' = (''mid'' = l) \<and> l = ''mid'')"
proof -
  let ?rs = "[sample_rule ''high'' ''9'', sample_rule ''mid'' ''5'']"
  have c: "cache_ok sample_cel []" by (simp add: cache_ok_def)
  have v: "ValidateRules sample_cel sample_quote ?rs = Inr ()" by code_simp
  have "\<not> isl (fst (executeRules sample_cel sample_quote ?rs [] []))" by code_simp
  then obtain out ps' where x: "executeRules sample_cel sample_quote ?rs [] [] = (Inr out, ps')"
    by (cases "executeRules sample_cel sample_quote ?rs [] []"; cases "fst (executeRules sample_cel sample_quote ?rs [] [])") auto
  have "branchAllows (sample_edge ''e'' ''a'' ''b'' (Some ''mid'') False) (projr (fst (executeRules sample_cel sample_quote ?rs [] []))) ''conditional.branch''"
    by code_simp
  then have b: "branchAllows (sample_edge ''e'' ''a'' ''b'' (Some ''mid'') False) out ''conditional.branch''" unfolding x fst_conv sum.sel .
  from conditional_routes_first_match [OF c v x] obtain l where
    "\<forall>e lab t. we_BranchLabel e = Some lab \<and> t \<noteq> loopControllerTypeID \<longrightarrow> branchAllows e out t = (lab = l)" by blast
  then have "branchAllows (sample_edge ''e'' ''a'' ''b'' (Some ''mid'') False) out ''conditional.branch'' = (''mid'' = l)"
    by (simp add: sample_edge_def)
  with b x show ?thesis by blast
qed

section \<open>Loop controller\<close>

lemma maxIterations_engine: "maxIterations cfg = Inr n \<Longrightarrow> maxIterFromConfig cfg = n"
  by (auto simp: maxIterations_def maxIterFromConfig_def split: option.splits val.splits)

text \<open>
  The loop controller and the engine agree. When the controller node ran with its own
  configuration and saw the engine's iteration count, the engine starts another iteration exactly when
  the controller asked for one, so the limit the controller applied is the engine's limit and
  its answer is never overruled. When it answers \<open>exit\<close>, the runner follows exactly the edges labelled
  \<open>exit\<close>; it answers \<open>exit\<close> at the latest when the count has reached \<open>max_iterations\<close>.
\<close>

theorem loop_controller_agrees:
  assumes "loop_Execute L input ps = (Inr out, ps')" "Config input = wn_Config (nodeAt d (nodeID r))" "routingOutput r = out"
    "currentIteration (UpstreamData input) = loopIterations s (nodeID r)"
  shows "snd (handleLoopIteration d r s) = (map_of out ''action'' = Some (VStr ''loop_body'')) \<and>
    (map_of out ''action'' = Some (VStr ''loop_body'') \<or> map_of out ''action'' = Some (VStr ''exit'')) \<and>
    (loopIterations s (nodeID r) \<ge> maxIterFromConfig (wn_Config (nodeAt d (nodeID r))) \<longrightarrow> map_of out ''action'' = Some (VStr ''exit'')) \<and>
    (\<forall>e lab. we_BranchLabel e = Some lab \<and> map_of out ''action'' = Some (VStr ''exit'') \<longrightarrow>
       branchAllows e out loopControllerTypeID = (lab = ''exit''))"
proof -
  from assms(1) obtain n where n: "maxIterations (Config input) = Inr n" by (auto simp: loop_Execute_def split: sum.splits)
  then have m: "maxIterFromConfig (wn_Config (nodeAt d (nodeID r))) = n" using maxIterations_engine assms(2) by metis
  have a: "map_of out ''action'' = Some (VStr ''exit'') \<or> map_of out ''action'' = Some (VStr ''loop_body'') \<and> loopIterations s (nodeID r) < n"
    using assms(1,4) n by (auto simp: loop_Execute_def Let_def split: if_splits prod.splits sum.splits)
  moreover have "snd (handleLoopIteration d r s) = (map_of out ''action'' = Some (VStr ''loop_body''))"
    using a m assms(3) by (auto simp: handleLoopIteration_def Let_def)
  moreover have "branchAllows e out loopControllerTypeID = (lab = ''exit'')"
    if "we_BranchLabel e = Some lab" "map_of out ''action'' = Some (VStr ''exit'')" for e lab
    using that by (auto simp: branchAllows_def)
  ultimately show ?thesis using m by auto
qed

definition sample_loop_input :: node_input where
  "sample_loop_input = \<lparr> UpstreamData = [(''_loop_state'', VMap [(''iteration'', VInt 0)])],
     Config = Some [(''max_iterations'', VInt 2)], DirectPredecessorIDs = [] \<rparr>"

definition sample_ctrl_dag :: dag where
  "sample_ctrl_dag = initDag [(sample_node ''c'' loopControllerTypeID)\<lparr>wn_Config := Some [(''max_iterations'', VInt 2)]\<rparr>] []"

theorem loop_controller_agrees_witness:
  "\<exists>out. loop_Execute sample_cel sample_loop_input [] = (Inr out, []) \<and>
     snd (handleLoopIteration sample_ctrl_dag \<lparr> nodeID = ''c'', nodeOutput = out, routingOutput = out, err = None \<rparr> (startRun sample_ctrl_dag []))"
proof -
  let ?out = "[(''action'', VStr ''loop_body''), (''iteration'', VInt 0)]"
  let ?r = "\<lparr> nodeID = ''c'', nodeOutput = ?out, routingOutput = ?out, err = None \<rparr>"
  have x: "loop_Execute sample_cel sample_loop_input [] = (Inr ?out, [])" by code_simp
  have c: "Config sample_loop_input = wn_Config (nodeAt sample_ctrl_dag (nodeID ?r))" by code_simp
  have i: "currentIteration (UpstreamData sample_loop_input) = loopIterations (startRun sample_ctrl_dag []) (nodeID ?r)" by code_simp
  from loop_controller_agrees [OF x c _ i] x show ?thesis by auto
qed

lemma startRun_ancestors: "ancestorsOf (startRun d initData) = d_Ancestors d"
proof -
  have "ancestorsOf (fold (\<lambda>i s. if pending s i = 0 then dispatch i s else s) is s) = ancestorsOf s" for "is" s
    by (induction "is" arbitrary: s) simp_all
  then show ?thesis by (simp add: startRun_def Let_def)
qed

lemma handleLoopIteration_slot:
  assumes "handleLoopIteration d r s = (s', True)"
  shows "map_of (execCtx s') ''_loop_state'' = Some [(''iteration'', VInt (loopIterations s' (nodeID r)))]"
  using assms by (auto simp: handleLoopIteration_def Let_def startBodyRoots split: if_splits)

text \<open>
  What a controller sees of \<open>_loop_state\<close>. On its first dispatch, before any iteration was
  granted to it, the key is absent from the input of a controller, although the run sets it to
  iteration 0 beforehand: only ancestors are visible. Once iterations run, the key is one
  slot shared by all controllers: after a grant to one controller, every controller that can see
  the slot reads that controller's count instead of its own.
\<close>

theorem loop_state_visibility:
  assumes "Build nodes edges = Inr d" "''_loop_state'' \<notin> wn_ID ` set nodes" "i \<in> wn_ID ` set nodes"
  shows "map_of (mergeUpstream (ancestorsOf (startRun d initData) i) (execCtx (startRun d initData))) ''_loop_state'' = None \<and>
    (\<forall>r s s' x. handleLoopIteration d r s = (s', True) \<and> ''_loop_state'' \<in> set (ancestorsOf s' x) \<longrightarrow>
       currentIteration (mergeUpstream (ancestorsOf s' x) (execCtx s')) = loopIterations s' (nodeID r))"
proof -
  note W = Build_wf_dag [OF assms(1)] and ids = Build_ids [OF assms(1)]
  have "set (d_Ancestors d i) = {u. (u, i) \<in> (arcs (fwd edges))\<^sup>+}"
    using wf_dag.ancestors [OF W] assms(3) ids by blast
  with wf_dag.arcs_nodes [OF W] assms(2) ids have "''_loop_state'' \<notin> set (d_Ancestors d i)" by blast
  then have first: "map_of (mergeUpstream (ancestorsOf (startRun d initData) i) (execCtx (startRun d initData))) ''_loop_state'' = None"
    by (simp add: startRun_ancestors mergeUpstream_lookup)
  have "currentIteration (mergeUpstream (ancestorsOf s' x) (execCtx s')) = loopIterations s' (nodeID r)"
    if h: "handleLoopIteration d r s = (s', True)" "''_loop_state'' \<in> set (ancestorsOf s' x)" for r s s' x
    using handleLoopIteration_slot [OF h(1)] h(2) by (simp add: currentIteration_def mergeUpstream_lookup)
  with first show ?thesis by blast
qed

theorem loop_state_visibility_witness:
  "\<exists>d. Build loop_nodes loop_edges = Inr d \<and>
     map_of (mergeUpstream (ancestorsOf (startRun d []) ''c'') (execCtx (startRun d []))) ''_loop_state'' = None"
proof -
  obtain d where d: "Build loop_nodes loop_edges = Inr d" using loop_graph_built by blast
  have "''_loop_state'' \<notin> wn_ID ` set loop_nodes" "''c'' \<in> wn_ID ` set loop_nodes"
    by (simp_all add: sample_node_def loop_nodes_def)
  from loop_state_visibility [OF d this] d show ?thesis by blast
qed

section \<open>Merge\<close>

lemma fold_update_map:
  "wf_map m \<Longrightarrow> map_of (fold (\<lambda>(mk, mv) out. AList.update mk mv out) m out) = map_of out ++ map_of m"
proof (induction m arbitrary: out)
  case (Cons a m)
  obtain mk mv where [simp]: "a = (mk, mv)" by (cases a)
  from Cons.prems have "map_of m mk = None" "wf_map m" by (auto simp: map_of_None_iff)
  with Cons.IH show ?case by (auto simp: fun_eq_iff map_add_def split: option.splits)
qed simp

text \<open>The nodes a merge takes from, and whether node \<open>i\<close> offers the key.\<close>

definition mergeSources :: "node_input \<Rightarrow> string set" where
  "mergeSources input =
     (if DirectPredecessorIDs input = [] then fst ` set (UpstreamData input) - {''_initial''} else set (DirectPredecessorIDs input))"

definition offers :: "gomap \<Rightarrow> string \<Rightarrow> string \<Rightarrow> val option" where
  "offers up k i = (case map_of up i of Some (VMap m) \<Rightarrow> map_of m k | _ \<Rightarrow> None)"

definition mergeOne :: "gomap \<Rightarrow> string \<Rightarrow> gomap \<Rightarrow> gomap" where
  "mergeOne up i out = (case map_of up i of
      Some (VMap m) \<Rightarrow> fold (\<lambda>(mk, mv) out. AList.update mk mv out) m out | _ \<Rightarrow> out)"

lemma mergeOne_lookup:
  assumes "\<And>i m. map_of up i = Some (VMap m) \<Longrightarrow> wf_map m"
  shows "map_of (mergeOne up i out) k = (case offers up k i of Some v \<Rightarrow> Some v | None \<Rightarrow> map_of out k)"
  using assms by (auto simp: mergeOne_def offers_def fold_update_map map_add_def split: option.splits val.splits)

lemma fold_mergeOne_last:
  assumes "\<And>i m. map_of up i = Some (VMap m) \<Longrightarrow> wf_map m"
  shows "sorted ids \<Longrightarrow> map_of (fold (mergeOne up) ids []) k = Some v \<longleftrightarrow>
    (\<exists>i \<in> set ids. offers up k i = Some v \<and> (\<forall>j \<in> set ids. i < j \<longrightarrow> offers up k j = None))"
proof (induction ids rule: rev_induct)
  case (snoc x xs)
  then have le: "\<forall>y \<in> set xs. y \<le> x" and IH: "map_of (fold (mergeOne up) xs []) k = Some v \<longleftrightarrow>
    (\<exists>i \<in> set xs. offers up k i = Some v \<and> (\<forall>j \<in> set xs. i < j \<longrightarrow> offers up k j = None))"
    by (simp_all add: sorted_append)
  show ?case
  proof (cases "offers up k x")
    case None
    then show ?thesis using IH by (auto simp: mergeOne_lookup [OF assms])
  next
    case (Some w)
    then have "map_of (fold (mergeOne up) (xs @ [x]) []) k = Some w" by (simp add: mergeOne_lookup [OF assms])
    moreover have "i = x" if "i \<in> set (xs @ [x])" "\<forall>j \<in> set (xs @ [x]). i < j \<longrightarrow> offers up k j = None" for i
    proof (rule ccontr)
      assume "i \<noteq> x"
      with that(1) le have "i < x" by force
      with that(2) Some show False by simp
    qed
    moreover have "\<forall>j \<in> set (xs @ [x]). x < j \<longrightarrow> offers up k j = None" using le by auto
    ultimately show ?thesis using Some by (metis in_set_conv_decomp option.inject)
  qed
qed simp

text \<open>
  A merge is deterministic. Its result depends only on the set of direct predecessors and on what
  they returned, not on the order in which they are listed or maps are iterated: a key of the
  result has the value given by the alphabetically last of the merged nodes that offer the key, and
  every offered key is present.
\<close>

theorem merge_last_wins:
  assumes "\<And>i m. map_of (UpstreamData input) i = Some (VMap m) \<Longrightarrow> wf_map m"
  shows "map_of (merge_Execute input) k = Some v \<longleftrightarrow>
    (\<exists>i \<in> mergeSources input. offers (UpstreamData input) k i = Some v \<and>
       (\<forall>j \<in> mergeSources input. i < j \<longrightarrow> offers (UpstreamData input) k j = None))"
proof -
  let ?ids = "sort (if DirectPredecessorIDs input = [] then filter (\<lambda>k. k \<noteq> ''_initial'') (map fst (UpstreamData input))
      else DirectPredecessorIDs input)"
  have f: "(\<lambda>i out. case map_of (UpstreamData input) i of
      Some (VMap m) \<Rightarrow> fold (\<lambda>(mk, mv) out. AList.update mk mv out) m out | _ \<Rightarrow> out) = mergeOne (UpstreamData input)"
    by (rule ext)+ (simp add: mergeOne_def)
  have "merge_Execute input = fold (mergeOne (UpstreamData input)) ?ids []"
    unfolding merge_Execute_def Let_def f ..
  moreover have "set ?ids = mergeSources input" by (auto simp: mergeSources_def)
  ultimately show ?thesis using fold_mergeOne_last [where up = "UpstreamData input" and k = k and v = v and ids = ?ids, OF assms] by simp
qed

definition sample_merge_input :: node_input where
  "sample_merge_input = \<lparr> UpstreamData = [(''b'', VMap [(''x'', VInt 2)]), (''a'', VMap [(''x'', VInt 1), (''y'', VInt 3)])],
     Config = None, DirectPredecessorIDs = [''b'', ''a''] \<rparr>"

theorem merge_last_wins_witness:
  "map_of (merge_Execute sample_merge_input) ''x'' = Some (VInt 2) \<and> map_of (merge_Execute sample_merge_input) ''y'' = Some (VInt 3)"
proof -
  have w: "wf_map m" if "map_of (UpstreamData sample_merge_input) i = Some (VMap m)" for i m
    using that by (auto simp: sample_merge_input_def split: if_splits)
  have "\<not> ''b'' < ''a''" "''a'' < ''b''" by code_simp+
  then show ?thesis
    using merge_last_wins [of sample_merge_input "''x''" "VInt 2", OF w] merge_last_wins [of sample_merge_input "''y''" "VInt 3", OF w]
    by (simp add: sample_merge_input_def mergeSources_def offers_def)
qed

end
