(* ===== verification/Validator_Props.thy ===== *)
theory Validator_Props
  imports Workflow_Validator Node_Props
begin

text \<open>
  What save-time validation buys at run time: the nodes of a workflow that was accepted do not fail
  for reasons of their configuration, and their labelled edges can be followed. The one gap, a
  conditional node that carries both formats, is described too.
\<close>

section \<open>What an empty error list says\<close>

lemma no_errors_node:
  assumes "collectValidationErrors V w reg = []" "n \<in> set (wf_Nodes w)"
  shows "Lookup (wn_TypeID n) reg = Inr h \<Longrightarrow> f \<in> set (parseRequiredFields V (nm_InputSchema (nh_Meta h))) \<Longrightarrow> requiredFieldError n f = []"
    and "ValidateAll (parsers V) (wn_OutputParsers n) = Inr ()"
    and "wn_TypeID n = ''conditional.branch'' \<Longrightarrow> conditionalNodeErrors V n = []"
    and "exitConditionErrors V n = []"
proof -
  show "requiredFieldError n f = []" if "Lookup (wn_TypeID n) reg = Inr h" "f \<in> set (parseRequiredFields V (nm_InputSchema (nh_Meta h)))"
    using assms that by (fastforce simp: collectValidationErrors_def validateRequiredFields_def split: sum.splits)
  show "ValidateAll (parsers V) (wn_OutputParsers n) = Inr ()"
    using assms by (cases "ValidateAll (parsers V) (wn_OutputParsers n)")
      (force simp: collectValidationErrors_def validateOutputParsers_def)+
  show "conditionalNodeErrors V n = []" if "wn_TypeID n = ''conditional.branch''"
    using assms that by (fastforce simp: collectValidationErrors_def validateCELExpressions_def split: if_splits)
  show "exitConditionErrors V n = []"
    using assms by (auto simp: collectValidationErrors_def validateLoopEdges_def)
qed

lemma no_errors_edge:
  assumes "collectValidationErrors V w reg = []" "e \<in> set (wf_Edges w)"
  shows "edgeLabelErrors V (wf_Nodes w) e = []" "loopBackErrors (wf_Nodes w) e = []"
  using assms by (auto simp: collectValidationErrors_def validateEdgeBranchLabels_def validateLoopEdges_def)

section \<open>Run-time failures that remain possible\<close>

text \<open>Failures that depend on the data of the run, not on the configuration.\<close>

fun dataFailure :: "handler_error \<Rightarrow> bool" where
  "dataFailure (EvalFailed _) = True"
| "dataFailure (NotBool _) = True"
| "dataFailure (RuleError _ e) = dataFailure e"
| "dataFailure _ = False"

fun extractionFailure :: "parse_error \<Rightarrow> bool" where
  "extractionFailure (NoMatch _) = True"
| "extractionFailure (NullValue _) = True"
| "extractionFailure (GroupOutOfRange i) = (0 \<le> i)"
| "extractionFailure _ = False"

lemma ValidateAll_member: "ValidateAll lib ps = Inr () \<Longrightarrow> (name, p) \<in> set ps \<Longrightarrow> Validate lib name p = Inr ()"
  by (induction lib ps rule: ValidateAll.induct) (auto split: sum.splits)

lemma validated_parser:
  assumes "Validate lib name p = Inr ()" "extract_value lib src p = Inl e"
  shows "extractionFailure e"
  using assms by (auto simp: Validate_def extract_value_def Let_def split: if_splits option.splits val.splits)

text \<open>The library builds a program for every expression it compiles.\<close>

definition buildsPrograms :: "('a, 'p) cel_lib \<Rightarrow> bool" where
  "buildsPrograms L \<longleftrightarrow> (\<forall>x ast. cel_Compile L x = Some ast \<longrightarrow> cel_Program L ast \<noteq> None)"

lemma evalFresh_validated:
  "buildsPrograms L \<Longrightarrow> cel_Compile L expr \<noteq> None \<Longrightarrow> evalFresh L expr up = Inl e \<Longrightarrow> dataFailure e"
  by (fastforce simp: buildsPrograms_def evalFresh_def compiled_def split: option.splits val.splits)

lemma ValidateExpression_compiles: "ValidateExpression L expr = Inr () \<Longrightarrow> cel_Compile L expr \<noteq> None"
  by (auto simp: ValidateExpression_def split: option.splits)

lemma firstMatch_validated:
  assumes "buildsPrograms L"
  shows "\<forall>r \<in> set rules. cel_Compile L (rulesToCEL quote r) \<noteq> None \<Longrightarrow> firstMatch L quote rules up = Inl e \<Longrightarrow> dataFailure e"
proof (induction rules)
  case (Cons r rs)
  with evalFresh_validated [OF assms, of "rulesToCEL quote r" up] show ?case by (auto split: sum.splits bool.splits)
qed simp

lemma executeLegacy_cached:
  "cache_ok L ps \<Longrightarrow> fst (executeLegacy L expr up ps) = (case evalFresh L expr up of Inl e \<Rightarrow> Inl e | Inr b \<Rightarrow> Inr [(''result'', VBool b)])"
  using evalBool_cached [of L ps expr up] by (auto simp: executeLegacy_def split: prod.splits sum.splits)

lemma evalExitCondition_evalBool: "evalExitCondition L expr up ps = evalBool L expr up ps"
  by (simp add: evalExitCondition_def evalBool_def loop_getProgram_def)

text \<open>A conditional node that carries only one of the two formats.\<close>

definition oneFormat :: "workflow_node \<Rightarrow> bool" where
  "oneFormat n \<longleftrightarrow> map_of (cfg_entries (wn_Config n)) ''rules'' = None \<or> str_or_empty (map_of (cfg_entries (wn_Config n)) ''expression'') = []"

definition inputOf :: "workflow_node \<Rightarrow> gomap \<Rightarrow> string list \<Rightarrow> node_input" where
  "inputOf n up preds = \<lparr> UpstreamData = up, Config = wn_Config n, DirectPredecessorIDs = preds \<rparr>"

abbreviation runConditional :: "('a, 'p) validator_libs \<Rightarrow> workflow_node \<Rightarrow> gomap \<Rightarrow> string list \<Rightarrow> 'p programs \<Rightarrow> handler_error + gomap" where
  "runConditional V n up preds ps \<equiv> fst (conditional_Execute (cel V) (quote_String V) (rules_Decode V) (inputOf n up preds) ps)"

lemma validated_conditional_cases:
  assumes "conditionalNodeErrors V n = []" "oneFormat n" "cache_ok (cel V) ps"
  obtains raw rules where "map_of (cfg_entries (wn_Config n)) ''rules'' = Some raw" "raw \<noteq> VNil" "rules_Decode V raw = Some rules"
      "ValidateRules (cel V) (quote_String V) rules = Inr ()"
      "runConditional V n up preds ps = fst (executeRules (cel V) (quote_String V) rules up ps)"
  | expr where "map_of (cfg_entries (wn_Config n)) ''rules'' = None" "ValidateExpression (cel V) expr = Inr ()"
      "runConditional V n up preds ps = (case evalFresh (cel V) expr up of Inl e \<Rightarrow> Inl e | Inr b \<Rightarrow> Inr [(''result'', VBool b)])"
proof (cases "map_of (cfg_entries (wn_Config n)) ''rules''")
  case (Some raw)
  from assms(1) Some obtain rules where r: "raw \<noteq> VNil" "rules_Decode V raw = Some rules" "ValidateRules (cel V) (quote_String V) rules = Inr ()"
    by (auto simp: conditionalNodeErrors_def split: if_splits option.splits sum.splits)
  moreover from assms(2) Some r have "runConditional V n up preds ps = fst (executeRules (cel V) (quote_String V) rules up ps)"
    by (simp add: oneFormat_def conditional_Execute_def inputOf_def)
  ultimately show ?thesis using Some that(1) by blast
next
  case None
  let ?expr = "str_or_empty (map_of (cfg_entries (wn_Config n)) ''expression'')"
  from assms(1) None have v: "?expr \<noteq> []" "ValidateExpression (cel V) ?expr = Inr ()"
    by (auto simp: conditionalNodeErrors_def Let_def split: if_splits sum.splits)
  then have "runConditional V n up preds ps = fst (executeLegacy (cel V) ?expr up ps)"
    by (simp add: conditional_Execute_def inputOf_def Let_def)
  with executeLegacy_cached [OF assms(3)] v None that(2) show ?thesis by metis
qed

text \<open>
  C17. What acceptance by the validators excludes. When they report nothing about a workflow,
  then for each of its nodes: every required field of the node's type is present and not empty;
  an output parser can only fail to find its value, never because of its kind, pattern or a
  negative group; a conditional node that has rules or an expression but not both, and a loop
  controller, fail only when an expression cannot be evaluated on the data or is not boolean
  there, the controller also when \<open>max_iterations\<close> is absent or no number. Compiled
  expressions are assumed to yield programs.
\<close>

theorem accepted_nodes_fail_only_on_data:
  assumes "collectValidationErrors V w reg = []" "n \<in> set (wf_Nodes w)" "cache_ok (cel V) ps"
    "buildsPrograms (cel V)"
  shows "(\<forall>h f. Lookup (wn_TypeID n) reg = Inr h \<and> f \<in> set (parseRequiredFields V (nm_InputSchema (nh_Meta h))) \<longrightarrow>
             map_of (cfg_entries (wn_Config n)) f \<notin> {None, Some VNil, Some (VStr [])}) \<and>
    (\<forall>name p src e. (name, p) \<in> set (wn_OutputParsers n) \<and> extract_value (parsers V) src p = Inl e \<longrightarrow> extractionFailure e) \<and>
    (wn_TypeID n = ''conditional.branch'' \<and> oneFormat n \<longrightarrow> (\<forall>e. runConditional V n up preds ps = Inl e \<longrightarrow> dataFailure e)) \<and>
    (wn_TypeID n = loopControllerTypeID \<longrightarrow>
       (\<forall>e. fst (loop_Execute (cel V) (inputOf n up preds) ps) = Inl e \<longrightarrow>
          dataFailure e \<or> e = CfgMissing ''max_iterations'' \<or> e = CfgType ''max_iterations''))"
proof (intro conjI)
  show "\<forall>h f. Lookup (wn_TypeID n) reg = Inr h \<and> f \<in> set (parseRequiredFields V (nm_InputSchema (nh_Meta h))) \<longrightarrow>
      map_of (cfg_entries (wn_Config n)) f \<notin> {None, Some VNil, Some (VStr [])}"
    using no_errors_node(1) [OF assms(1,2)] by (fastforce simp: requiredFieldError_def)
  show "\<forall>name p src e. (name, p) \<in> set (wn_OutputParsers n) \<and> extract_value (parsers V) src p = Inl e \<longrightarrow> extractionFailure e"
    using ValidateAll_member [OF no_errors_node(2) [OF assms(1,2)]] validated_parser by blast
  show "wn_TypeID n = ''conditional.branch'' \<and> oneFormat n \<longrightarrow> (\<forall>e. runConditional V n up preds ps = Inl e \<longrightarrow> dataFailure e)"
  proof (intro impI allI)
    fix e assume t: "wn_TypeID n = ''conditional.branch'' \<and> oneFormat n" and f: "runConditional V n up preds ps = Inl e"
    with no_errors_node(3) [OF assms(1,2)] have c: "conditionalNodeErrors V n = []" "oneFormat n" by auto
    show "dataFailure e"
    proof (cases rule: validated_conditional_cases [OF c assms(3), where up = up and preds = preds])
      case (1 raw rules)
      from 1(4) have "\<forall>r \<in> set rules. cel_Compile (cel V) (rulesToCEL (quote_String V) r) \<noteq> None"
        using validateRules_labels [of "cel V" "quote_String V" "[]" rules] by (auto simp: ValidateRules_def split: if_splits)
      with firstMatch_validated [OF assms(4)] executeRules_cached [OF assms(3), of "quote_String V" rules up] 1(5) f
      show ?thesis by (auto split: sum.splits)
    next
      case (2 expr)
      with evalFresh_validated [OF assms(4) ValidateExpression_compiles [OF 2(2)]] f show ?thesis by (auto split: sum.splits)
    qed
  qed
  show "wn_TypeID n = loopControllerTypeID \<longrightarrow>
      (\<forall>e. fst (loop_Execute (cel V) (inputOf n up preds) ps) = Inl e \<longrightarrow>
         dataFailure e \<or> e = CfgMissing ''max_iterations'' \<or> e = CfgType ''max_iterations'')"
  proof (intro impI allI)
    fix e assume t: "wn_TypeID n = loopControllerTypeID" and f: "fst (loop_Execute (cel V) (inputOf n up preds) ps) = Inl e"
    let ?expr = "str_or_empty (map_of (cfg_entries (wn_Config n)) ''exit_condition'')"
    from t no_errors_node(4) [OF assms(1,2)] have v: "?expr \<noteq> [] \<Longrightarrow> cel_Compile (cel V) ?expr \<noteq> None"
      using ValidateExpression_compiles [of "cel V" ?expr]
      by (auto simp: exitConditionErrors_def ValidateExitCondition_def Let_def split: if_splits sum.splits)
    show "dataFailure e \<or> e = CfgMissing ''max_iterations'' \<or> e = CfgType ''max_iterations''"
    proof (cases "maxIterations (wn_Config n)")
      case (Inl e')
      with f show ?thesis by (auto simp: loop_Execute_def inputOf_def maxIterations_def split: option.splits val.splits)
    next
      case (Inr m)
      with f have "?expr \<noteq> []" "fst (evalBool (cel V) ?expr up ps) = Inl e"
        by (auto simp: loop_Execute_def inputOf_def Let_def evalExitCondition_evalBool split: if_splits prod.splits sum.splits)
      then show ?thesis using evalFresh_validated [OF assms(4) v] evalBool_cached(1) [OF assms(3)] by metis
    qed
  qed
qed

definition sample_validators :: "(string, string) validator_libs" where
  "sample_validators = \<lparr> schema_Required = (\<lambda>s. if s = ''cond'' then Some [''rules''] else None), schema_Properties = (\<lambda>_. None),
     template_Parses = (\<lambda>_. True), rules_Decode = (\<lambda>_. Some [sample_rule ''high'' ''9'', sample_rule ''mid'' ''5'']),
     quote_String = sample_quote, cel = sample_cel,
     parsers = \<lparr> gjson_Get = (\<lambda>_ _. None), regexp_Compile = (\<lambda>_. True), FindStringSubmatch = (\<lambda>_ _. None), json_Marshal = (\<lambda>_. None) \<rparr> \<rparr>"

definition sample_cond :: "gomap \<Rightarrow> workflow_node" where
  "sample_cond cfg = (sample_node ''a'' ''conditional.branch'')\<lparr>wn_Config := Some cfg\<rparr>"

definition sample_flow :: "gomap \<Rightarrow> workflow" where
  "sample_flow cfg = \<lparr> wf_ID = ''w'', wf_Name = ''flow'', wf_Description = [],
     wf_Trigger = \<lparr> tr_Kind = ''manual'', tr_CronExpr = [], tr_KafkaBrokers = [], tr_KafkaTopic = [], tr_KafkaGroupID = [], tr_SQSQueueURL = [], tr_SQSRegion = [] \<rparr>,
     wf_TimeoutSeconds = 0, wf_Nodes = [sample_cond cfg, sample_node ''b'' ''t'', sample_node ''c'' ''t''],
     wf_Edges = [sample_edge ''1'' ''a'' ''b'' (Some ''mid'') False, sample_edge ''2'' ''a'' ''c'' (Some ''high'') False], wf_InitialDataSchema = [] \<rparr>"

definition cond_registry :: node_registry where
  "cond_registry = \<lparr> nr_handlers = [(''conditional.branch'', \<lparr> nh_Meta = \<lparr> nm_TypeID = ''conditional.branch'', nm_DisplayName = [], nm_Category = [],
     nm_Description = [], nm_InputSchema = ''cond'', nm_OutputSchema = [] \<rparr>, nh_ident = 0, nh_closer = False \<rparr>)], nr_closed = [] \<rparr>"

abbreviation rules_only :: gomap where
  "rules_only \<equiv> [(''rules'', VList [VNil])]"

abbreviation both_formats :: gomap where
  "both_formats \<equiv> [(''rules'', VList [VNil]), (''expression'', VStr ''x'')]"

lemma sample_cel_builds: "buildsPrograms (cel sample_validators)" "cache_ok (cel sample_validators) []"
  by (simp_all add: buildsPrograms_def cache_ok_def sample_validators_def sample_cel_def)

lemma sample_flow_accepted:
  "collectValidationErrors sample_validators (sample_flow rules_only) cond_registry = []"
  "collectValidationErrors sample_validators (sample_flow both_formats) cond_registry = []"
  by code_simp+

theorem accepted_nodes_witness:
  "collectValidationErrors sample_validators (sample_flow rules_only) cond_registry = [] \<and>
   map_of (cfg_entries (wn_Config (sample_cond rules_only))) ''rules'' \<notin> {None, Some VNil, Some (VStr [])}"
proof -
  have n: "sample_cond rules_only \<in> set (wf_Nodes (sample_flow rules_only))" by (simp add: sample_flow_def)
  have "\<not> isl (Lookup (wn_TypeID (sample_cond rules_only)) cond_registry) \<and>
    parseRequiredFields sample_validators (nm_InputSchema (nh_Meta (projr (Lookup (wn_TypeID (sample_cond rules_only)) cond_registry)))) = [''rules'']"
    by code_simp
  then obtain h where "Lookup (wn_TypeID (sample_cond rules_only)) cond_registry = Inr h" "''rules'' \<in> set (parseRequiredFields sample_validators (nm_InputSchema (nh_Meta h)))"
    by (cases "Lookup (wn_TypeID (sample_cond rules_only)) cond_registry") auto
  with accepted_nodes_fail_only_on_data [OF sample_flow_accepted(1) n sample_cel_builds(2,1)] sample_flow_accepted(1)
  show ?thesis by blast
qed

section \<open>Labelled edges\<close>

text \<open>The labels the output of a node can choose between.\<close>

definition labelsOf :: "('a, 'p) validator_libs \<Rightarrow> workflow_node \<Rightarrow> string set" where
  "labelsOf V n =
     (if wn_TypeID n = loopControllerTypeID then {''loop_body'', ''exit''}
      else if wn_TypeID n = ''conditional.branch'' then
        (if nf_isNew (nodeFormatOf V n) then set (nf_labels (nodeFormatOf V n)) else {''true'', ''false''})
      else {})"

lemma map_of_rev_distinct: "distinct (map fst xs) \<Longrightarrow> map_of (rev xs) = map_of xs"
  by (rule map_of_eqI) (auto simp: rev_map [symmetric] distinct_rev)

lemma nodeTypeOf_member:
  assumes "distinct (map wn_ID nodes)" "n \<in> set nodes"
  shows "nodeTypeOf nodes (wn_ID n) = wn_TypeID n"
proof -
  have "map_of (map (\<lambda>n. (wn_ID n, wn_TypeID n)) nodes) (wn_ID n) = Some (wn_TypeID n)"
    using assms by (auto intro!: map_of_is_SomeI simp: comp_def)
  then show ?thesis using assms(1) by (simp add: nodeTypeOf_def map_of_rev_distinct comp_def)
qed

lemma nodeFormats_member:
  assumes "distinct (map wn_ID nodes)" "n \<in> set nodes"
  shows "nodeFormats V nodes (wn_ID n) = (if wn_TypeID n = ''conditional.branch'' then Some (nodeFormatOf V n) else None)"
proof -
  let ?c = "filter (\<lambda>n. wn_TypeID n = ''conditional.branch'') nodes"
  have d: "distinct (map wn_ID ?c)" using assms(1) by (rule distinct_map_filter)
  have "map_of (map (\<lambda>n. (wn_ID n, nodeFormatOf V n)) ?c) (wn_ID n) = (if wn_TypeID n = ''conditional.branch'' then Some (nodeFormatOf V n) else None)"
  proof (cases "wn_TypeID n = ''conditional.branch''")
    case True
    then show ?thesis using assms(2) d by (auto intro!: map_of_is_SomeI simp: comp_def)
  next
    case False
    have "wn_ID n \<notin> wn_ID ` set ?c" using assms False by (auto simp: distinct_map inj_on_def)
    with False show ?thesis by (auto simp: map_of_eq_None_iff image_iff)
  qed
  then show ?thesis using d by (simp add: nodeFormats_def map_of_rev_distinct comp_def)
qed

lemma accepted_label:
  assumes "collectValidationErrors V w reg = []" "distinct (map wn_ID (wf_Nodes w))" "n \<in> set (wf_Nodes w)"
    "e \<in> set (wf_Edges w)" "we_SourceID e = wn_ID n" "we_BranchLabel e = Some lab" "\<not> we_IsLoopBack e"
  shows "lab \<in> labelsOf V n"
  using no_errors_edge(1) [OF assms(1,4)] nodeTypeOf_member [OF assms(2,3)] nodeFormats_member [OF assms(2,3), of V] assms(5-7)
  by (auto simp: edgeLabelErrors_def labelsOf_def split: if_splits)

text \<open>
  Labelled edges of an accepted workflow. Such an edge leaves a conditional node or a loop
  controller and carries a label its source can choose. When a conditional node with one format
  returns, there is one label among those the node can choose, and of its labelled edges exactly those
  with this label are followed. Loop-back edges have no label and lead to a loop controller.
\<close>

theorem accepted_edges_route:
  assumes "collectValidationErrors V w reg = []" "distinct (map wn_ID (wf_Nodes w))" "n \<in> set (wf_Nodes w)"
  shows "(\<forall>e \<in> set (wf_Edges w). \<forall>lab. we_SourceID e = wn_ID n \<and> we_BranchLabel e = Some lab \<and> \<not> we_IsLoopBack e \<longrightarrow> lab \<in> labelsOf V n) \<and>
    (\<forall>e \<in> set (wf_Edges w). we_IsLoopBack e \<longrightarrow> we_BranchLabel e = None \<and> (wn_ID n = we_TargetID e \<longrightarrow> wn_TypeID n = loopControllerTypeID)) \<and>
    (\<forall>up preds ps out. wn_TypeID n = ''conditional.branch'' \<and> oneFormat n \<and> cache_ok (cel V) ps \<and> runConditional V n up preds ps = Inr out \<longrightarrow>
       (\<exists>l \<in> labelsOf V n. \<forall>e \<in> set (wf_Edges w). \<forall>lab. we_SourceID e = wn_ID n \<and> we_BranchLabel e = Some lab \<and> \<not> we_IsLoopBack e \<longrightarrow>
          branchAllows e out (wn_TypeID n) = (lab = l)))"
proof (intro conjI)
  show "\<forall>e \<in> set (wf_Edges w). \<forall>lab. we_SourceID e = wn_ID n \<and> we_BranchLabel e = Some lab \<and> \<not> we_IsLoopBack e \<longrightarrow> lab \<in> labelsOf V n"
    using accepted_label [OF assms] by blast
  show "\<forall>e \<in> set (wf_Edges w). we_IsLoopBack e \<longrightarrow> we_BranchLabel e = None \<and> (wn_ID n = we_TargetID e \<longrightarrow> wn_TypeID n = loopControllerTypeID)"
  proof (intro ballI impI)
    fix e assume e: "e \<in> set (wf_Edges w)" and "we_IsLoopBack e"
    with no_errors_edge(2) [OF assms(1) e] nodeTypeOf_member [OF assms(2,3)]
    show "we_BranchLabel e = None \<and> (wn_ID n = we_TargetID e \<longrightarrow> wn_TypeID n = loopControllerTypeID)"
      by (auto simp: loopBackErrors_def split: if_splits)
  qed
  show "\<forall>up preds ps out. wn_TypeID n = ''conditional.branch'' \<and> oneFormat n \<and> cache_ok (cel V) ps \<and> runConditional V n up preds ps = Inr out \<longrightarrow>
       (\<exists>l \<in> labelsOf V n. \<forall>e \<in> set (wf_Edges w). \<forall>lab. we_SourceID e = wn_ID n \<and> we_BranchLabel e = Some lab \<and> \<not> we_IsLoopBack e \<longrightarrow>
          branchAllows e out (wn_TypeID n) = (lab = l))"
  proof (intro allI impI)
    fix up preds ps out
    assume A: "wn_TypeID n = ''conditional.branch'' \<and> oneFormat n \<and> cache_ok (cel V) ps \<and> runConditional V n up preds ps = Inr out"
    then have t: "wn_TypeID n = ''conditional.branch''" and o: "oneFormat n" and c: "cache_ok (cel V) ps" and r: "runConditional V n up preds ps = Inr out"
      by blast+
    note lab = accepted_label [OF assms]
    from validated_conditional_cases [OF no_errors_node(3) [OF assms(1,3) t] o c, where up = up and preds = preds]
    show "\<exists>l \<in> labelsOf V n. \<forall>e \<in> set (wf_Edges w). \<forall>lab. we_SourceID e = wn_ID n \<and> we_BranchLabel e = Some lab \<and> \<not> we_IsLoopBack e \<longrightarrow>
        branchAllows e out (wn_TypeID n) = (lab = l)"
    proof cases
      case (1 raw rules)
      from executeRules_cached [OF c, of "quote_String V" rules up] 1(5) r obtain l where
        l: "firstMatch (cel V) (quote_String V) rules up = Inr l" "out = [(''matched_rule'', VStr l)]" by (auto split: sum.splits)
      have "l \<in> labelsOf V n" using firstMatch_cases [OF l(1)] t 1(1-3) by (auto simp: labelsOf_def nodeFormatOf_def)
      then show ?thesis using t by (intro bexI [of _ l]) (auto simp: branchAllows_def l(2))
    next
      case (2 expr)
      from 2(3) r obtain b where b: "out = [(''result'', VBool b)]" by (auto split: sum.splits)
      have n: "labelsOf V n = {''true'', ''false''}" using t 2(1) by (simp add: labelsOf_def nodeFormatOf_def)
      show ?thesis using lab n t
        by (intro bexI [of _ "if b then ''true'' else ''false''"]) (fastforce simp: branchAllows_def b)+
    qed
  qed
qed

theorem accepted_edges_witness:
  "\<exists>out. runConditional sample_validators (sample_cond rules_only) [] [] [] = Inr out \<and>
     branchAllows (sample_edge ''1'' ''a'' ''b'' (Some ''mid'') False) out ''conditional.branch'' \<and>
     ''mid'' \<in> labelsOf sample_validators (sample_cond rules_only)"
proof -
  have n: "sample_cond rules_only \<in> set (wf_Nodes (sample_flow rules_only))" "distinct (map wn_ID (wf_Nodes (sample_flow rules_only)))"
    by (simp_all add: sample_flow_def sample_cond_def sample_node_def)
  have e: "sample_edge ''1'' ''a'' ''b'' (Some ''mid'') False \<in> set (wf_Edges (sample_flow rules_only))"
    "we_SourceID (sample_edge ''1'' ''a'' ''b'' (Some ''mid'') False) = wn_ID (sample_cond rules_only)"
    "we_BranchLabel (sample_edge ''1'' ''a'' ''b'' (Some ''mid'') False) = Some ''mid''"
    "\<not> we_IsLoopBack (sample_edge ''1'' ''a'' ''b'' (Some ''mid'') False)"
    by (simp_all add: sample_flow_def sample_cond_def sample_node_def sample_edge_def)
  have "\<not> isl (runConditional sample_validators (sample_cond rules_only) [] [] []) \<and>
    branchAllows (sample_edge ''1'' ''a'' ''b'' (Some ''mid'') False) (projr (runConditional sample_validators (sample_cond rules_only) [] [] [])) ''conditional.branch''"
    by code_simp
  then obtain out where o: "runConditional sample_validators (sample_cond rules_only) [] [] [] = Inr out"
    "branchAllows (sample_edge ''1'' ''a'' ''b'' (Some ''mid'') False) out ''conditional.branch''"
    by (cases "runConditional sample_validators (sample_cond rules_only) [] [] []") auto
  from accepted_edges_route [OF sample_flow_accepted(1) n(2,1)] e o show ?thesis by blast
qed

section \<open>Both formats on one node\<close>

text \<open>
  The validators read \<open>rules\<close> first, the node reads \<open>expression\<close> first. A conditional node of an
  accepted workflow that has both, evaluates the expression, which nobody validated: its outcome does not
  depend on the rules. All edges that carry a rule label other than \<open>true\<close> are then treated
  alike: none is followed when the expression is true, all of them when it is false.
\<close>

theorem both_formats_route_alike:
  assumes "collectValidationErrors V w reg = []" "n \<in> set (wf_Nodes w)" "wn_TypeID n = ''conditional.branch''" "cache_ok (cel V) ps"
    "map_of (cfg_entries (wn_Config n)) ''rules'' = Some raw" "str_or_empty (map_of (cfg_entries (wn_Config n)) ''expression'') = expr" "expr \<noteq> []"
  shows "(\<exists>rules. rules_Decode V raw = Some rules \<and> ValidateRules (cel V) (quote_String V) rules = Inr ()) \<and>
    runConditional V n up preds ps = (case evalFresh (cel V) expr up of Inl e \<Rightarrow> Inl e | Inr b \<Rightarrow> Inr [(''result'', VBool b)]) \<and>
    (\<forall>b e lab. evalFresh (cel V) expr up = Inr b \<and> we_BranchLabel e = Some lab \<and> lab \<noteq> ''true'' \<longrightarrow>
       branchAllows e [(''result'', VBool b)] (wn_TypeID n) = (\<not> b))"
proof (intro conjI)
  show "\<exists>rules. rules_Decode V raw = Some rules \<and> ValidateRules (cel V) (quote_String V) rules = Inr ()"
    using no_errors_node(3) [OF assms(1-3)] assms(5) by (auto simp: conditionalNodeErrors_def split: if_splits option.splits sum.splits)
  have "runConditional V n up preds ps = fst (executeLegacy (cel V) expr up ps)"
    using assms(6,7) by (simp add: conditional_Execute_def inputOf_def Let_def)
  then show "runConditional V n up preds ps = (case evalFresh (cel V) expr up of Inl e \<Rightarrow> Inl e | Inr b \<Rightarrow> Inr [(''result'', VBool b)])"
    by (simp add: executeLegacy_cached [OF assms(4)])
  show "\<forall>b e lab. evalFresh (cel V) expr up = Inr b \<and> we_BranchLabel e = Some lab \<and> lab \<noteq> ''true'' \<longrightarrow>
       branchAllows e [(''result'', VBool b)] (wn_TypeID n) = (\<not> b)"
    using assms(3) by (auto simp: branchAllows_def)
qed

theorem both_formats_witness:
  "runConditional sample_validators (sample_cond both_formats) [] [] [] = Inr [(''result'', VBool False)] \<and>
   branchAllows (sample_edge ''1'' ''a'' ''b'' (Some ''mid'') False) [(''result'', VBool False)] ''conditional.branch'' \<and>
   branchAllows (sample_edge ''2'' ''a'' ''c'' (Some ''high'') False) [(''result'', VBool False)] ''conditional.branch''"
proof -
  have n: "sample_cond both_formats \<in> set (wf_Nodes (sample_flow both_formats))" "wn_TypeID (sample_cond both_formats) = ''conditional.branch''"
    "map_of (cfg_entries (wn_Config (sample_cond both_formats))) ''rules'' = Some (VList [VNil])"
    "str_or_empty (map_of (cfg_entries (wn_Config (sample_cond both_formats))) ''expression'') = ''x''" "''x'' \<noteq> []"
    by (simp_all add: sample_flow_def sample_cond_def sample_node_def)
  have f: "evalFresh (cel sample_validators) ''x'' [] = Inr False" by code_simp
  have e: "we_BranchLabel (sample_edge ''1'' ''a'' ''b'' (Some ''mid'') False) = Some ''mid''"
    "we_BranchLabel (sample_edge ''2'' ''a'' ''c'' (Some ''high'') False) = Some ''high''" by (simp_all add: sample_edge_def)
  note P = both_formats_route_alike [OF sample_flow_accepted(2) n(1,2) sample_cel_builds(2) n(3,4,5), of "[]" "[]"]
  from P have "runConditional sample_validators (sample_cond both_formats) [] [] [] = Inr [(''result'', VBool False)]" using f by simp
  moreover from P f e n(2) have "branchAllows (sample_edge ''1'' ''a'' ''b'' (Some ''mid'') False) [(''result'', VBool False)] ''conditional.branch''"
    "branchAllows (sample_edge ''2'' ''a'' ''c'' (Some ''high'') False) [(''result'', VBool False)] ''conditional.branch''" by auto
  ultimately show ?thesis by blast
qed

end
