(* ===== verification/Float64.thy ===== *)
theory Float64
  imports Prelude
begin

text \<open>
  Rounding of Go's \<open>float64\<close>: a finite value is a rational number, and the result of an
  operation is the exact result rounded to nearest, ties to even, with a 53-bit significand and
  subnormal numbers below \<open>2 ^ (-1022)\<close>. Overflow to infinity does not occur in the
  code that uses it (ratios of counts, conversions of 64-bit integers).
\<close>

definition roundHalfEven :: "rat \<Rightarrow> int" where
  "roundHalfEven q =
     (let f = \<lfloor>q\<rfloor>; r = q - of_int f
      in if r < 1 / 2 then f else if r > 1 / 2 then f + 1 else if even f then f else f + 1)"

text \<open>How often a value below 1 is doubled to reach 1, and one from 2 on halved to get below 2.\<close>

fun doublings :: "nat \<Rightarrow> rat \<Rightarrow> nat" where
  "doublings 0 q = 0"
| "doublings (Suc n) q = (if 1 \<le> q then 0 else Suc (doublings n (2 * q)))"

fun halvings :: "nat \<Rightarrow> rat \<Rightarrow> nat" where
  "halvings 0 q = 0"
| "halvings (Suc n) q = (if q < 2 then 0 else Suc (halvings n (q / 2)))"

definition roundPos :: "rat \<Rightarrow> rat" where
  "roundPos q =
     (let scale = 2 ^ (52 + doublings 1022 q) / 2 ^ halvings 1024 q
      in of_int (roundHalfEven (q * scale)) / scale)"

definition fl64 :: "rat \<Rightarrow> rat" where
  "fl64 q = (if q < 0 then - roundPos (- q) else roundPos q)"

definition float64_div :: "nat \<Rightarrow> nat \<Rightarrow> rat" where
  "float64_div a b = fl64 (of_nat a / of_nat b)"

section \<open>Rounding is monotone and keeps what is representable\<close>

lemma roundHalfEven_of_int [simp]: "roundHalfEven (of_int k) = k"
  by (simp add: roundHalfEven_def)

lemma roundHalfEven_mono:
  assumes "p \<le> q" shows "roundHalfEven p \<le> roundHalfEven q"
proof -
  have f: "\<lfloor>p\<rfloor> \<le> \<lfloor>q\<rfloor>" using assms by (rule floor_mono)
  show ?thesis
  proof (cases "\<lfloor>p\<rfloor> = \<lfloor>q\<rfloor>")
    case True
    then show ?thesis using assms by (auto simp: roundHalfEven_def Let_def)
  next
    case False
    then have "\<lfloor>p\<rfloor> + 1 \<le> \<lfloor>q\<rfloor>" using f by simp
    moreover have "roundHalfEven p \<le> \<lfloor>p\<rfloor> + 1" "\<lfloor>q\<rfloor> \<le> roundHalfEven q" by (auto simp: roundHalfEven_def Let_def)
    ultimately show ?thesis by linarith
  qed
qed

lemma roundHalfEven_error: "\<bar>of_int (roundHalfEven q) - q\<bar> \<le> 1 / 2"
proof -
  obtain r where r: "q = of_int \<lfloor>q\<rfloor> + r" "0 \<le> r" "r < 1"
    by (metis add_diff_cancel_left' diff_add_cancel frac_def frac_ge_0 frac_lt_1 add.commute)
  then have "roundHalfEven q = \<lfloor>q\<rfloor> \<and> r \<le> 1 / 2 \<or> roundHalfEven q = \<lfloor>q\<rfloor> + 1 \<and> 1 / 2 \<le> r"
    by (auto simp: roundHalfEven_def Let_def split: if_splits)
  then show ?thesis
  proof
    assume "roundHalfEven q = \<lfloor>q\<rfloor> \<and> r \<le> 1 / 2"
    then have "of_int (roundHalfEven q) - q = - r" "r \<le> 1 / 2" using r(1) by (metis add_diff_cancel_left' minus_diff_eq, blast)
    then show ?thesis using r(2) by simp
  next
    assume "roundHalfEven q = \<lfloor>q\<rfloor> + 1 \<and> 1 / 2 \<le> r"
    then have "of_int (roundHalfEven q) - q = 1 - r" "1 / 2 \<le> r" using r(1)
      by (metis add_diff_cancel_left of_int_1 of_int_add, blast)
    then show ?thesis using r(3) by simp
  qed
qed

lemma doublings_le: "doublings n q \<le> n"
  by (induction n arbitrary: q) auto

lemma doublings_reach: "doublings n q < n \<Longrightarrow> 1 \<le> q * 2 ^ doublings n q"
proof (induction n arbitrary: q)
  case (Suc n)
  then show ?case using Suc.IH [of "2 * q"] by (auto simp: mult.assoc mult.left_commute split: if_splits)
qed simp

lemma doublings_before: "doublings n q = Suc j \<Longrightarrow> q * 2 ^ j < 1"
proof (induction n arbitrary: q j)
  case (Suc n)
  then show ?case using Suc.IH [of "2 * q" "j - 1"]
    by (cases j) (auto simp: mult.assoc mult.left_commute split: if_splits)
qed simp

lemma doublings_antimono: "p \<le> q \<Longrightarrow> doublings n q \<le> doublings n p"
  by (induction n arbitrary: p q) auto

lemma halvings_small: "q < 2 \<Longrightarrow> halvings n q = 0"
  by (cases n) auto

lemma fl64_unit: "0 \<le> q \<Longrightarrow> q < 2 \<Longrightarrow>
    fl64 q = of_int (roundHalfEven (q * 2 ^ (52 + doublings 1022 q))) / 2 ^ (52 + doublings 1022 q)"
  by (simp add: fl64_def roundPos_def halvings_small Let_def)

text \<open>Below 2, a value on the grid of \<open>q\<close> that bounds \<open>q\<close> bounds its rounding.\<close>

lemma fl64_grid:
  assumes "0 \<le> q" "q < 2" "j \<le> 52 + doublings 1022 q"
  shows "q \<le> of_int k / 2 ^ j \<Longrightarrow> fl64 q \<le> of_int k / 2 ^ j"
    and "of_int k / 2 ^ j \<le> q \<Longrightarrow> of_int k / 2 ^ j \<le> fl64 q"
proof -
  let ?s = "52 + doublings 1022 q"
  have g: "of_int k / 2 ^ j * 2 ^ ?s = (of_int (k * 2 ^ (?s - j)) :: rat)"
  proof -
    have "(2 ^ ?s :: rat) = 2 ^ (?s - j) * 2 ^ j" using assms(3) by (metis le_add_diff_inverse2 power_add)
    then show ?thesis by simp
  qed
  show "fl64 q \<le> of_int k / 2 ^ j" if "q \<le> of_int k / 2 ^ j"
  proof -
    from that have "q * 2 ^ ?s \<le> of_int k / 2 ^ j * 2 ^ ?s" by (intro mult_right_mono) simp_all
    with roundHalfEven_mono have "roundHalfEven (q * 2 ^ ?s) \<le> k * 2 ^ (?s - j)" unfolding g by (metis roundHalfEven_of_int)
    then have "of_int (roundHalfEven (q * 2 ^ ?s)) \<le> (of_int k / 2 ^ j * 2 ^ ?s :: rat)" unfolding g by (simp only: of_int_le_iff)
    then show ?thesis unfolding fl64_unit [OF assms(1,2)] by (simp add: pos_divide_le_eq)
  qed
  show "of_int k / 2 ^ j \<le> fl64 q" if "of_int k / 2 ^ j \<le> q"
  proof -
    from that have "of_int k / 2 ^ j * 2 ^ ?s \<le> q * 2 ^ ?s" by (intro mult_right_mono) simp_all
    with roundHalfEven_mono have "k * 2 ^ (?s - j) \<le> roundHalfEven (q * 2 ^ ?s)" unfolding g by (metis roundHalfEven_of_int)
    then have "(of_int k / 2 ^ j * 2 ^ ?s :: rat) \<le> of_int (roundHalfEven (q * 2 ^ ?s))" unfolding g by (simp only: of_int_le_iff)
    then show ?thesis unfolding fl64_unit [OF assms(1,2)] by (simp add: pos_le_divide_eq)
  qed
qed

lemma fl64_mono:
  assumes "0 \<le> p" "p \<le> q" "q < 2"
  shows "fl64 p \<le> fl64 q"
proof (cases "doublings 1022 p = doublings 1022 q")
  case True
  have "p * 2 ^ (52 + doublings 1022 q) \<le> q * 2 ^ (52 + doublings 1022 q)" using assms by (intro mult_right_mono) simp_all
  then show ?thesis using assms True by (simp add: fl64_unit divide_right_mono roundHalfEven_mono)
next
  case False
  define j where "j = doublings 1022 q"
  with False doublings_antimono [OF assms(2), of 1022] have j: "j < doublings 1022 p" by linarith
  then obtain i where i: "doublings 1022 p = Suc i" "j \<le> i" by (metis Suc_le_D Suc_le_mono Suc_leI)
  have "1 \<le> q * 2 ^ j" using doublings_reach [of 1022 q] j doublings_le [of 1022 p] unfolding j_def by linarith
  then have q: "of_int 1 / 2 ^ j \<le> q" by (simp add: pos_divide_le_eq)
  have "p * 2 ^ i < 1" using doublings_before [OF i(1)] .
  moreover have "p * 2 ^ j \<le> p * 2 ^ i" using assms(1) i(2) by (intro mult_left_mono power_increasing) simp_all
  ultimately have p: "p \<le> of_int 1 / 2 ^ j" by (simp add: pos_le_divide_eq)
  have "fl64 p \<le> of_int 1 / 2 ^ j" using assms j p by (intro fl64_grid(1)) simp_all
  also have "\<dots> \<le> fl64 q" using assms q by (intro fl64_grid(2)) (simp_all add: j_def)
  finally show ?thesis .
qed

lemma fl64_error:
  assumes "0 \<le> q" "q < 2" shows "\<bar>fl64 q - q\<bar> \<le> 1 / 2 ^ 53"
proof -
  let ?s = "52 + doublings 1022 q"
  have "fl64 q - q = (of_int (roundHalfEven (q * 2 ^ ?s)) - q * 2 ^ ?s) / 2 ^ ?s"
    using assms by (simp add: fl64_unit diff_divide_distrib)
  then have "\<bar>fl64 q - q\<bar> = \<bar>of_int (roundHalfEven (q * 2 ^ ?s)) - q * 2 ^ ?s\<bar> / 2 ^ ?s" by (simp add: abs_divide)
  also have "\<dots> \<le> (1 / 2) / 2 ^ ?s" by (intro divide_right_mono roundHalfEven_error) simp
  also have "\<dots> \<le> (1 / 2) / 2 ^ 52" by (intro divide_left_mono power_increasing) simp_all
  finally show ?thesis by simp
qed

lemma fl64_exact [simp]: "fl64 0 = 0" "fl64 1 = 1"
proof -
  show "fl64 0 = 0" using roundHalfEven_of_int [of 0] by (simp add: fl64_unit)
  show "fl64 1 = 1" using roundHalfEven_of_int [of "2 ^ 52"] by (simp add: fl64_unit numeral_eq_Suc)
qed

text \<open>A threshold that is a \<open>float64\<close> compared with a rounded ratio of counts.\<close>

lemma float64_div_threshold:
  assumes "a \<le> b" "0 < b" "0 \<le> t" "t \<le> 1" "fl64 t = t"
  shows "t \<le> of_nat a / of_nat b \<Longrightarrow> t \<le> float64_div a b"
    and "t \<le> float64_div a b \<Longrightarrow> t - 1 / 2 ^ 53 \<le> of_nat a / of_nat b"
proof -
  have q: "0 \<le> (of_nat a / of_nat b :: rat)" "(of_nat a / of_nat b :: rat) < 2"
    using assms(1,2) by (simp_all add: divide_less_eq)
  show "t \<le> float64_div a b" if "t \<le> of_nat a / of_nat b"
    using fl64_mono [OF assms(3) that q(2)] assms(5) by (simp add: float64_div_def)
  show "t - 1 / 2 ^ 53 \<le> of_nat a / of_nat b" if "t \<le> float64_div a b"
    using fl64_error [OF q] that unfolding float64_div_def by linarith
qed

lemma float64_div_full [simp]: "0 < b \<Longrightarrow> float64_div b b = 1"
  by (simp add: float64_div_def)

lemma float64_div_none [simp]: "float64_div 0 b = 0"
  by (simp add: float64_div_def)

end
