(* ===== verification/Graders.thy ===== *)
theory Graders
  imports Grader_Vault Registry Output_Parser Float64
begin

text \<open>
  The graders of an evaluation (\<open>internal/eval/grader.go\<close>, \<open>internal/eval/graders\<close> and the
  gRPC proxy of \<open>internal/eval/grader_plugin\<close>). What the graders call is gathered in one
  record of parameters: \<open>gjson\<close>, the JSON encoder and decoders, \<open>regexp\<close>, the JSON Schema library,
  the verbs of \<open>fmt\<close>, and the connection to a grader plugin. An LLM client answers a request with a
  completion or an error text. The text of an encoder error is left out of explanations.
\<close>

section \<open>Data\<close>

datatype verdict = VerdictPass | VerdictFail | VerdictError

record criterion_result =
  crr_Criterion :: string
  crr_Met :: bool
  crr_Explanation :: string

record grader_result =
  grr_GraderID :: string
  grr_GraderName :: string
  grr_GraderType :: string
  grr_Verdict :: verdict
  grr_Score :: "rat option"
  grr_Explanation :: string
  grr_ActualValue :: "val option"
  grr_CriteriaResults :: "criterion_result list"

definition baseResult :: "string \<Rightarrow> verdict \<Rightarrow> string \<Rightarrow> grader_result" where
  "baseResult t v expl = \<lparr> grr_GraderID = [], grr_GraderName = [], grr_GraderType = t, grr_Verdict = v, grr_Score = None,
     grr_Explanation = expl, grr_ActualValue = None, grr_CriteriaResults = [] \<rparr>"

record llm_request =
  lr_APIKey :: string
  lr_Model :: string
  lr_SystemMsg :: string
  lr_Prompt :: string

type_synonym llm_client = "llm_request \<Rightarrow> string + string"

text \<open>A JSON Schema validation error is a tree of causes; other errors are a text.\<close>

datatype validation_error = ValidationError (ve_Message: string) (ve_InstanceLocation: string) (ve_Causes: "validation_error list")

datatype schema_error = SchemaInvalid validation_error | SchemaOther string

record plugin_grade =
  pg_Verdict :: string
  pg_Explanation :: string
  pg_Score :: "rat option"
  pg_ActualValue :: string
  pg_CriteriaResults :: string

record plugin_response =
  pr_Error :: "(string \<times> string) option"
  pr_GradeResult :: "plugin_grade option"

record 's grader_libs =
  glib :: parse_libs
  regex_Error :: "string \<Rightarrow> string option"
  regex_MatchString :: "string \<Rightarrow> string \<Rightarrow> bool"
  fmt_q :: "string \<Rightarrow> string"
  fmt_v :: "val \<Rightarrow> string"
  fmt_T :: "val \<Rightarrow> string"
  fmt_d :: "nat \<Rightarrow> string"
  schema_Compile :: "string \<Rightarrow> string + 's"
  schema_Validate :: "'s \<Rightarrow> val \<Rightarrow> schema_error option"
  judge_Decode :: "string \<Rightarrow> (string \<times> string) option"
  criteria_Decode :: "string \<Rightarrow> criterion_result list option"
  value_Decode :: "string \<Rightarrow> val option"
  plugin_Grade :: "nat \<Rightarrow> string \<Rightarrow> string \<Rightarrow> string + plugin_response"

text \<open>
  \<open>strings.TrimSpace\<close> on UTF-8 bytes: \<open>unicode.IsSpace\<close> holds of six ASCII characters, of U+0085 and U+00A0 (two bytes) and of U+1680, U+2000 to U+200A, U+2028, U+2029,
  U+202F, U+205F and U+3000 (three bytes). \<open>trimRunes\<close> takes them off the front; the end of the string is trimmed on the reversed bytes.
\<close>

definition isSpace :: "char \<Rightarrow> bool" where
  "isSpace c \<longleftrightarrow> c \<in> {CHR 0x09, CHR 0x0A, CHR 0x0B, CHR 0x0C, CHR 0x0D, CHR 0x20}"

definition isSpace2 :: "char \<Rightarrow> char \<Rightarrow> bool" where
  "isSpace2 a b \<longleftrightarrow> a = CHR 0xC2 \<and> (b = CHR 0x85 \<or> b = CHR 0xA0)"

definition isSpace3 :: "char \<Rightarrow> char \<Rightarrow> char \<Rightarrow> bool" where
  "isSpace3 a b c \<longleftrightarrow>
     a = CHR 0xE1 \<and> b = CHR 0x9A \<and> c = CHR 0x80 \<or>
     a = CHR 0xE2 \<and> b = CHR 0x80 \<and> (of_char c \<in> {0x80 .. 0x8A :: nat} \<or> c \<in> {CHR 0xA8, CHR 0xA9, CHR 0xAF}) \<or>
     a = CHR 0xE2 \<and> b = CHR 0x81 \<and> c = CHR 0x9F \<or>
     a = CHR 0xE3 \<and> b = CHR 0x80 \<and> c = CHR 0x80"

fun trimRunes :: "(char \<Rightarrow> char \<Rightarrow> bool) \<Rightarrow> (char \<Rightarrow> char \<Rightarrow> char \<Rightarrow> bool) \<Rightarrow> string \<Rightarrow> string" where
  "trimRunes two three (a # b # c # s) =
     (if isSpace a then trimRunes two three (b # c # s)
      else if two a b then trimRunes two three (c # s)
      else if three a b c then trimRunes two three s
      else a # b # c # s)"
| "trimRunes two three [a, b] = (if isSpace a then trimRunes two three [b] else if two a b then [] else [a, b])"
| "trimRunes two three [a] = (if isSpace a then [] else [a])"
| "trimRunes two three [] = []"

definition TrimSpace :: "string \<Rightarrow> string" where
  "TrimSpace s = rev (trimRunes (\<lambda>b a. isSpace2 a b) (\<lambda>c b a. isSpace3 a b c) (rev (trimRunes isSpace2 isSpace3 s)))"

text \<open>
  \<open>strings.ToLower\<close> for comparison with ASCII texts, its only use (and for \<open>strings.EqualFold\<close> with \<open>Bearer\<close>): ASCII letters, and the two other letters whose lower case is
  ASCII, the dotted capital I (U+0130) and the Kelvin sign (U+212A). The remaining letters outside ASCII keep their bytes: in either case they are equal to no ASCII text.
\<close>

definition lowerByte :: "char \<Rightarrow> char" where
  "lowerByte c = (if CHR ''A'' \<le> c \<and> c \<le> CHR ''Z'' then char_of (of_char c + 32 :: nat) else c)"

fun ToLower :: "string \<Rightarrow> string" where
  "ToLower (a # b # c # s) =
     (if a = CHR 0xC4 \<and> b = CHR 0xB0 then CHR ''i'' # ToLower (c # s)
      else if a = CHR 0xE2 \<and> b = CHR 0x84 \<and> c = CHR 0xAA then CHR ''k'' # ToLower s
      else lowerByte a # ToLower (b # c # s))"
| "ToLower [a, b] = (if a = CHR 0xC4 \<and> b = CHR 0xB0 then ''i'' else [lowerByte a, lowerByte b])"
| "ToLower [a] = [lowerByte a]"
| "ToLower [] = []"

section \<open>Looking up the graded value\<close>

text \<open>A nil map encodes as \<open>null\<close>.\<close>

definition asJSON :: "gomap option \<Rightarrow> val" where
  "asJSON data = (case data of None \<Rightarrow> VNil | Some m \<Rightarrow> VMap m)"

definition resolveField :: "'s grader_libs \<Rightarrow> gomap option \<Rightarrow> string \<Rightarrow> val option" where
  "resolveField G data fieldPath =
     (case json_Marshal (glib G) (asJSON data) of
        None \<Rightarrow> None
      | Some b \<Rightarrow> map_option gj_Value (gjson_Get (glib G) b fieldPath))"

definition coerceString :: "'s grader_libs \<Rightarrow> val \<Rightarrow> string" where
  "coerceString G v = (case v of VStr s \<Rightarrow> s | _ \<Rightarrow> fmt_v G v)"

definition cfgString :: "grader_def \<Rightarrow> string \<Rightarrow> string" where
  "cfgString d k = str_or_empty (map_of (cfg_entries (gd_Config d)) k)"

section \<open>String match\<close>

record string_match =
  sm_fieldPath :: string
  sm_matchType :: string
  sm_expected :: string

definition NewStringMatch :: "'s grader_libs \<Rightarrow> grader_def \<Rightarrow> string + string_match" where
  "NewStringMatch G d =
     (let ev = cfgString d ''expected_value'';
          g = \<lparr> sm_fieldPath = cfgString d ''field_path'', sm_matchType = cfgString d ''match_type'', sm_expected = ev \<rparr>
      in if sm_matchType g = ''regex'' then
           (case regex_Error G ev of
              Some e \<Rightarrow> Inl (''string_match: invalid regex '' @ fmt_q G ev @ '': '' @ e)
            | None \<Rightarrow> Inr g)
         else Inr g)"

definition stringMatchGrade :: "'s grader_libs \<Rightarrow> string_match \<Rightarrow> gomap option \<Rightarrow> grader_result" where
  "stringMatchGrade G g data =
     (case resolveField G data (sm_fieldPath g) of
        None \<Rightarrow> baseResult ''string_match'' VerdictError ''field not found''
      | Some actual \<Rightarrow>
          (let str = coerceString G actual;
               res = (\<lambda>v expl. (baseResult ''string_match'' v expl)\<lparr>grr_ActualValue := Some actual\<rparr>)
           in if sm_matchType g = ''exact'' then
                (if str = sm_expected g then res VerdictPass []
                 else res VerdictFail (''expected '' @ fmt_q G (sm_expected g) @ '', got '' @ fmt_q G str))
              else if sm_matchType g = ''contains'' then
                (if sublist (sm_expected g) str then res VerdictPass []
                 else res VerdictFail (fmt_q G (sm_expected g) @ '' not found in '' @ fmt_q G str))
              else if sm_matchType g = ''regex'' then
                (if regex_MatchString G (sm_expected g) str then res VerdictPass []
                 else res VerdictFail (fmt_q G str @ '' did not match pattern '' @ fmt_q G (sm_expected g)))
              else res VerdictError (''unknown match_type '' @ fmt_q G (sm_matchType g))))"

section \<open>Numeric threshold\<close>

record numeric_threshold =
  nt_fieldPath :: string
  nt_operator :: string
  nt_threshold :: rat

definition toFloat64 :: "val \<Rightarrow> rat option" where
  "toFloat64 v = (case v of VFloat n \<Rightarrow> Some n | VInt n \<Rightarrow> Some (fl64 (of_int n)) | VInt64 n \<Rightarrow> Some (fl64 (of_int n)) | _ \<Rightarrow> None)"

definition NewNumericThreshold :: "'s grader_libs \<Rightarrow> grader_def \<Rightarrow> string + numeric_threshold" where
  "NewNumericThreshold G d =
     (case Option.bind (map_of (cfg_entries (gd_Config d)) ''threshold'') toFloat64 of
        None \<Rightarrow> Inl ''numeric_threshold: threshold must be a number''
      | Some threshold \<Rightarrow>
          (let op = cfgString d ''operator''
           in if op \<in> {''=='', ''!='', ''>'', ''>='', ''<'', ''<=''}
              then Inr \<lparr> nt_fieldPath = cfgString d ''field_path'', nt_operator = op, nt_threshold = threshold \<rparr>
              else Inl (''numeric_threshold: unknown operator '' @ fmt_q G op)))"

definition compare_op :: "rat \<Rightarrow> string \<Rightarrow> rat \<Rightarrow> bool" where
  "compare_op a op b =
     (if op = ''=='' then a = b
      else if op = ''!='' then a \<noteq> b
      else if op = ''>'' then a > b
      else if op = ''>='' then a \<ge> b
      else if op = ''<'' then a < b
      else if op = ''<='' then a \<le> b
      else False)"

definition numericGrade :: "'s grader_libs \<Rightarrow> numeric_threshold \<Rightarrow> gomap option \<Rightarrow> grader_result" where
  "numericGrade G g data =
     (case resolveField G data (nt_fieldPath g) of
        None \<Rightarrow> baseResult ''numeric_threshold'' VerdictError ''field not found''
      | Some actual \<Rightarrow>
          (let res = (\<lambda>v expl. (baseResult ''numeric_threshold'' v expl)\<lparr>grr_ActualValue := Some actual\<rparr>)
           in case toFloat64 actual of
                None \<Rightarrow> res VerdictError (''field is not numeric (got '' @ fmt_T G actual @ '')'')
              | Some num \<Rightarrow>
                  (if compare_op num (nt_operator g) (nt_threshold g) then res VerdictPass []
                   else res VerdictFail (fmt_v G (VFloat num) @ '' '' @ nt_operator g @ '' '' @ fmt_v G (VFloat (nt_threshold g)) @ '' is false''))))"

section \<open>JSON Schema\<close>

record 's json_schema_grader =
  js_fieldPath :: string
  js_schema :: 's

definition NewJSONSchema :: "'s grader_libs \<Rightarrow> grader_def \<Rightarrow> string + 's json_schema_grader" where
  "NewJSONSchema G d =
     (case map_of (cfg_entries (gd_Config d)) ''schema'' of
        None \<Rightarrow> Inl ''json_schema: schema is required''
      | Some schemaVal \<Rightarrow>
          (case json_Marshal (glib G) schemaVal of
             None \<Rightarrow> Inl ''json_schema: cannot marshal schema''
           | Some b \<Rightarrow>
               (case schema_Compile G b of
                  Inl e \<Rightarrow> Inl (''json_schema: '' @ e)
                | Inr compiled \<Rightarrow> Inr \<lparr> js_fieldPath = cfgString d ''field_path'', js_schema = compiled \<rparr>)))"

fun joinStrings :: "string \<Rightarrow> string list \<Rightarrow> string" where
  "joinStrings sep [] = []"
| "joinStrings sep [x] = x"
| "joinStrings sep (x # y # ys) = x @ sep @ joinStrings sep (y # ys)"

fun collectMessages :: "validation_error \<Rightarrow> string list" where
  "collectMessages (ValidationError msg loc causes) =
     (if msg \<noteq> [] then [(if loc = [] then ''#'' else loc) @ '': '' @ msg] else []) @ concat (map collectMessages causes)"

definition formatSchemaError :: "schema_error \<Rightarrow> string" where
  "formatSchemaError e = (case e of SchemaInvalid ve \<Rightarrow> joinStrings ''; '' (collectMessages ve) | SchemaOther t \<Rightarrow> t)"

definition jsonSchemaGrade :: "'s grader_libs \<Rightarrow> 's json_schema_grader \<Rightarrow> gomap option \<Rightarrow> grader_result" where
  "jsonSchemaGrade G g data =
     (case (if js_fieldPath g \<noteq> [] then resolveField G data (js_fieldPath g) else Some (VMap (cfg_entries data))) of
        None \<Rightarrow> baseResult ''json_schema'' VerdictError ''field not found''
      | Some target \<Rightarrow>
          (let res = (\<lambda>v expl. (baseResult ''json_schema'' v expl)\<lparr>grr_ActualValue := Some target\<rparr>)
           in case schema_Validate G (js_schema g) target of
                Some e \<Rightarrow> res VerdictFail (formatSchemaError e)
              | None \<Rightarrow> res VerdictPass []))"

section \<open>Reading the answer of a model\<close>

definition lastIndex :: "char \<Rightarrow> string \<Rightarrow> nat option" where
  "lastIndex c s = (if c \<in> set s then Some (length s - Suc (length (takeWhile (\<lambda>x. x \<noteq> c) (rev s)))) else None)"

text \<open>The loop \<open>for i := end; i >= 0; i--\<close>; the counter is \<open>i + 1\<close>.\<close>

fun matchBack :: "char \<Rightarrow> char \<Rightarrow> string \<Rightarrow> nat \<Rightarrow> int \<Rightarrow> nat option" where
  "matchBack opn cls s 0 depth = None"
| "matchBack opn cls s (Suc i) depth =
     (if s ! i = cls then matchBack opn cls s i (depth + 1)
      else if s ! i = opn then (if depth - 1 = 0 then Some i else matchBack opn cls s i (depth - 1))
      else matchBack opn cls s i depth)"

definition extractBracketed :: "char \<Rightarrow> char \<Rightarrow> string \<Rightarrow> string" where
  "extractBracketed opn cls s =
     (case lastIndex cls s of
        None \<Rightarrow> s
      | Some e \<Rightarrow>
          (case matchBack opn cls s (Suc e) 0 of
             None \<Rightarrow> s
           | Some i \<Rightarrow> take (e + 1 - i) (drop i s)))"

definition extractJSON :: "string \<Rightarrow> string" where
  "extractJSON s = extractBracketed (CHR ''{'') (CHR ''}'') s"

definition extractJSONArray :: "string \<Rightarrow> string" where
  "extractJSONArray s = extractBracketed (CHR ''['') (CHR '']'') s"

section \<open>LLM judge\<close>

abbreviation newline :: string where
  "newline \<equiv> [CHR 0x0A]"

abbreviation emDash :: string where
  "emDash \<equiv> [CHR 0xE2, CHR 0x80, CHR 0x94]"

definition judgeSystemPrompt :: string where
  \<open>judgeSystemPrompt =
     ''You are a pass/fail evaluator. Given content and a rubric, decide whether the content satisfies the rubric.'' @ newline @
     ''Respond with ONLY a JSON object on a single line '' @ emDash @ '' no preamble, no markdown, no extra text:'' @ newline @
     ''{"verdict":"pass","explanation":"..."} or {"verdict":"fail","explanation":"..."}''\<close>

record llm_judge =
  lj_model :: string
  lj_apiKey :: string
  lj_rubric :: string
  lj_fieldPath :: string
  lj_client :: llm_client

definition NewLLMJudge :: "grader_def \<Rightarrow> llm_client \<Rightarrow> string + llm_judge" where
  "NewLLMJudge d client =
     (if cfgString d ''rubric'' = [] then Inl ''llm_judge: rubric is required''
      else Inr \<lparr> lj_model = cfgString d ''model'', lj_apiKey = cfgString d ''api_key'', lj_rubric = cfgString d ''rubric'',
                 lj_fieldPath = cfgString d ''field_path'', lj_client = client \<rparr>)"

text \<open>Resolve the field, or use the full data.\<close>

definition targetValue :: "'s grader_libs \<Rightarrow> gomap option \<Rightarrow> string \<Rightarrow> val option" where
  "targetValue G data fieldPath = (if fieldPath \<noteq> [] then resolveField G data fieldPath else Some (asJSON data))"

definition judgeVerdict :: "'s grader_libs \<Rightarrow> val \<Rightarrow> string \<Rightarrow> grader_result" where
  "judgeVerdict G target completion =
     (let res = (\<lambda>v expl. (baseResult ''llm_judge'' v expl)\<lparr>grr_ActualValue := Some target\<rparr>)
      in case judge_Decode G (extractJSON (TrimSpace completion)) of
           None \<Rightarrow> res VerdictError ''judge response could not be parsed''
         | Some (v, explanation) \<Rightarrow>
             (if v = ''pass'' then res VerdictPass explanation
              else if v = ''fail'' then res VerdictFail explanation
              else res VerdictError (''judge returned unknown verdict '' @ fmt_q G v)))"

definition llmJudgeGrade :: "'s grader_libs \<Rightarrow> llm_judge \<Rightarrow> gomap option \<Rightarrow> grader_result" where
  "llmJudgeGrade G g data =
     (case targetValue G data (lj_fieldPath g) of
        None \<Rightarrow> baseResult ''llm_judge'' VerdictError ''field not found''
      | Some target \<Rightarrow>
          (let res = (\<lambda>v expl. (baseResult ''llm_judge'' v expl)\<lparr>grr_ActualValue := Some target\<rparr>)
           in case json_Marshal (glib G) target of
                None \<Rightarrow> res VerdictError ''could not serialize target''
              | Some targetJSON \<Rightarrow>
                  (case lj_client g \<lparr> lr_APIKey = lj_apiKey g, lr_Model = lj_model g, lr_SystemMsg = judgeSystemPrompt,
                      lr_Prompt = ''Rubric: '' @ lj_rubric g @ newline @ newline @ ''Content:'' @ newline @ targetJSON \<rparr> of
                     Inl e \<Rightarrow> res VerdictError e
                   | Inr completion \<Rightarrow> judgeVerdict G target completion)))"

section \<open>Checklist\<close>

record checklist =
  cl_model :: string
  cl_apiKey :: string
  cl_criteria :: "string list"
  cl_passThreshold :: rat
  cl_fieldPath :: string
  cl_client :: llm_client

fun stringItems :: "val list \<Rightarrow> string list option" where
  "stringItems [] = Some []"
| "stringItems (VStr s # vs) = map_option (Cons s) (stringItems vs)"
| "stringItems (_ # vs) = None"

definition toStringSlice :: "val \<Rightarrow> string list option" where
  "toStringSlice v = (case v of VList vs \<Rightarrow> stringItems vs | _ \<Rightarrow> None)"

definition checklistThreshold :: "val option \<Rightarrow> rat" where
  "checklistThreshold v =
     (case v of
        Some (VFloat n) \<Rightarrow> if n > 0 then n else 1
      | Some (VInt n) \<Rightarrow> if n > 0 then fl64 (of_int n) else 1
      | _ \<Rightarrow> 1)"

definition NewChecklist :: "grader_def \<Rightarrow> llm_client \<Rightarrow> string + checklist" where
  "NewChecklist d client =
     (case map_of (cfg_entries (gd_Config d)) ''criteria'' of
        None \<Rightarrow> Inl ''checklist: criteria is required''
      | Some raw \<Rightarrow>
          (case toStringSlice raw of
             None \<Rightarrow> Inl ''checklist: criteria must be a non-empty array of strings''
           | Some criteria \<Rightarrow>
               (if criteria = [] then Inl ''checklist: criteria must be a non-empty array of strings''
                else Inr \<lparr> cl_model = cfgString d ''model'', cl_apiKey = cfgString d ''api_key'', cl_criteria = criteria,
                           cl_passThreshold = checklistThreshold (map_of (cfg_entries (gd_Config d)) ''pass_threshold''),
                           cl_fieldPath = cfgString d ''field_path'', cl_client = client \<rparr>)))"

definition checklistSystemMsg :: string where
  \<open>checklistSystemMsg =
     ''You are a checklist evaluator. For each criterion in the list, decide whether the content satisfies it.'' @ newline @
     ''Respond with ONLY a JSON array '' @ emDash @ '' one object per criterion, in the same order '' @ emDash @ '' no preamble, no markdown, no extra text:'' @ newline @
     ''[{"criterion":"...","met":true,"explanation":"..."}, ...]''\<close>

definition checklistVerdict :: "'s grader_libs \<Rightarrow> checklist \<Rightarrow> val \<Rightarrow> string \<Rightarrow> grader_result" where
  "checklistVerdict G g target completion =
     (let res = (\<lambda>v expl. (baseResult ''checklist'' v expl)\<lparr>grr_ActualValue := Some target\<rparr>)
      in case criteria_Decode G (extractJSONArray (TrimSpace completion)) of
           None \<Rightarrow> res VerdictError ''checklist response could not be parsed''
         | Some items \<Rightarrow>
             (if items = [] then res VerdictError ''checklist: LLM returned no criteria results''
              else
                (let met = length (filter crr_Met items);
                     score = float64_div met (length items)
                 in (res (if score \<ge> cl_passThreshold g then VerdictPass else VerdictFail)
                       (fmt_d G met @ '' of '' @ fmt_d G (length items) @ '' criteria met''))
                      \<lparr>grr_Score := Some score, grr_CriteriaResults := items\<rparr>)))"

definition checklistGrade :: "'s grader_libs \<Rightarrow> checklist \<Rightarrow> gomap option \<Rightarrow> grader_result" where
  "checklistGrade G g data =
     (case targetValue G data (cl_fieldPath g) of
        None \<Rightarrow> baseResult ''checklist'' VerdictError ''field not found''
      | Some target \<Rightarrow>
          (let res = (\<lambda>v expl. (baseResult ''checklist'' v expl)\<lparr>grr_ActualValue := Some target\<rparr>)
           in case json_Marshal (glib G) target of
                None \<Rightarrow> res VerdictError ''could not serialize target''
              | Some targetJSON \<Rightarrow>
                  (let criteriaJSON = (case json_Marshal (glib G) (VList (map VStr (cl_criteria g))) of None \<Rightarrow> [] | Some b \<Rightarrow> b)
                   in case cl_client g \<lparr> lr_APIKey = cl_apiKey g, lr_Model = cl_model g, lr_SystemMsg = checklistSystemMsg,
                        lr_Prompt = ''Criteria:'' @ newline @ criteriaJSON @ newline @ newline @ ''Content:'' @ newline @ targetJSON \<rparr> of
                        Inl e \<Rightarrow> res VerdictError e
                      | Inr completion \<Rightarrow> checklistVerdict G g target completion)))"

section \<open>Grader plugins\<close>

record plugin_grader =
  pgr_proxy :: grpc_proxy
  pgr_config :: "gomap option"

definition NewPluginGrader :: "'s grader_libs \<Rightarrow> grader_registry \<Rightarrow> string \<Rightarrow> gomap option \<Rightarrow> string + plugin_grader" where
  "NewPluginGrader G reg typeID config =
     (case GraderGet reg typeID of
        None \<Rightarrow> Inl (''grader plugin '' @ fmt_q G typeID @ '': not registered'')
      | Some proxy \<Rightarrow> Inr \<lparr> pgr_proxy = proxy, pgr_config = config \<rparr>)"

definition mustBe :: string where
  \<open>mustBe = '' (must be "pass", "fail", or "error")''\<close>

definition pluginResult :: "'s grader_libs \<Rightarrow> string \<Rightarrow> plugin_grade \<Rightarrow> grader_result" where
  "pluginResult G typeID gr =
     (let verdict = ToLower (TrimSpace (pg_Verdict gr));
          ok = (\<lambda>v. (baseResult ''plugin'' v (pg_Explanation gr))
                 \<lparr>grr_Score := pg_Score gr,
                  grr_ActualValue := (if pg_ActualValue gr = [] then None else value_Decode G (pg_ActualValue gr)),
                  grr_CriteriaResults := (if pg_CriteriaResults gr = [] then []
                                          else case criteria_Decode G (pg_CriteriaResults gr) of None \<Rightarrow> [] | Some crs \<Rightarrow> crs)\<rparr>)
      in if verdict = ''pass'' then ok VerdictPass
         else if verdict = ''fail'' then ok VerdictFail
         else if verdict = ''error'' then ok VerdictError
         else baseResult ''plugin'' VerdictError (''grader plugin '' @ typeID @ '': invalid verdict '' @ fmt_q G (pg_Verdict gr) @ mustBe))"

definition pluginGrade :: "'s grader_libs \<Rightarrow> plugin_grader \<Rightarrow> gomap option \<Rightarrow> grader_result" where
  "pluginGrade G g data =
     (let typeID = gm_TypeID (gp_meta (pgr_proxy g));
          bad = (\<lambda>t. baseResult ''plugin'' VerdictError (''grader plugin '' @ typeID @ t))
      in case json_Marshal (glib G) (asJSON data) of
           None \<Rightarrow> bad '': marshal data''
         | Some dataJSON \<Rightarrow>
             (case json_Marshal (glib G) (asJSON (pgr_config g)) of
                None \<Rightarrow> bad '': marshal config''
              | Some configJSON \<Rightarrow>
                  (case plugin_Grade G (gp_ident (pgr_proxy g)) dataJSON configJSON of
                     Inl e \<Rightarrow> bad ('': grade rpc: '' @ e)
                   | Inr resp \<Rightarrow>
                       (case pr_Error resp of
                          Some (code, msg) \<Rightarrow> baseResult ''plugin'' VerdictError (''['' @ code @ ''] '' @ msg)
                        | None \<Rightarrow>
                            (case pr_GradeResult resp of
                               None \<Rightarrow> bad '': response has neither grade_result nor error set''
                             | Some gr \<Rightarrow> pluginResult G typeID gr)))))"

section \<open>Building and running a grader\<close>

datatype 's grader =
    GStringMatch string_match
  | GNumeric numeric_threshold
  | GJSONSchema "'s json_schema_grader"
  | GLLMJudge llm_judge
  | GChecklist checklist
  | GPlugin plugin_grader

type_synonym llm_factory = "(string \<Rightarrow> string + llm_client) option"

definition BuildGrader :: "'s grader_libs \<Rightarrow> grader_def \<Rightarrow> llm_factory \<Rightarrow> grader_registry option \<Rightarrow> string + 's grader" where
  "BuildGrader G d factory regs =
     (if gd_Type d = ''string_match'' then map_sum id GStringMatch (NewStringMatch G d)
      else if gd_Type d = ''numeric_threshold'' then map_sum id GNumeric (NewNumericThreshold G d)
      else if gd_Type d = ''json_schema'' then map_sum id GJSONSchema (NewJSONSchema G d)
      else if gd_Type d = ''llm_judge'' then
        (case factory of
           None \<Rightarrow> Inl ''llm_judge grader requires an LLM factory''
         | Some fac \<Rightarrow>
             (case fac (cfgString d ''provider'') of
                Inl e \<Rightarrow> Inl (''llm_judge: '' @ e)
              | Inr client \<Rightarrow> map_sum id GLLMJudge (NewLLMJudge d client)))
      else if gd_Type d = ''checklist'' then
        (case factory of
           None \<Rightarrow> Inl ''checklist grader requires an LLM factory''
         | Some fac \<Rightarrow>
             (case fac (cfgString d ''provider'') of
                Inl e \<Rightarrow> Inl (''checklist: '' @ e)
              | Inr client \<Rightarrow> map_sum id GChecklist (NewChecklist d client)))
      else if gd_Type d = ''plugin'' then
        (case regs of
           None \<Rightarrow> Inl ''plugin grader requires a grader registry''
         | Some reg \<Rightarrow>
             (let typeID = cfgString d ''plugin_type_id''
              in if typeID = [] then Inl ''plugin grader: plugin_type_id must be set in config''
                 else map_sum id GPlugin (NewPluginGrader G reg typeID (gd_Config d))))
      else Inl (''unknown grader type '' @ fmt_q G (gd_Type d)))"

fun Grade :: "'s grader_libs \<Rightarrow> 's grader \<Rightarrow> gomap option \<Rightarrow> grader_result" where
  "Grade G (GStringMatch g) data = stringMatchGrade G g data"
| "Grade G (GNumeric g) data = numericGrade G g data"
| "Grade G (GJSONSchema g) data = jsonSchemaGrade G g data"
| "Grade G (GLLMJudge g) data = llmJudgeGrade G g data"
| "Grade G (GChecklist g) data = checklistGrade G g data"
| "Grade G (GPlugin g) data = pluginGrade G g data"

end
