(* ===== verification/Grader_Props.thy ===== *)
theory Grader_Props
  imports Graders
begin

text \<open>
  The model-backed graders: finding the answer in a completion, and scoring a checklist. Both
  extraction functions are one algorithm on a pair of brackets; the locale \<open>brackets\<close> holds the
  facts for any such pair, and the two interpretations apply them to objects and to arrays.
\<close>

section \<open>Finding the bracketed answer\<close>

inductive balanced :: "char \<Rightarrow> char \<Rightarrow> string \<Rightarrow> bool" for opn cls where
  empty: "balanced opn cls []"
| other: "x \<noteq> opn \<Longrightarrow> x \<noteq> cls \<Longrightarrow> balanced opn cls xs \<Longrightarrow> balanced opn cls (x # xs)"
| nested: "balanced opn cls xs \<Longrightarrow> balanced opn cls ys \<Longrightarrow> balanced opn cls (opn # xs @ cls # ys)"

lemma lastIndex_append: "cls \<notin> set post \<Longrightarrow> lastIndex cls (pre @ cls # post) = Some (length pre)"
proof -
  assume "cls \<notin> set post"
  then have "\<forall>x \<in> set (rev post). x \<noteq> cls" by auto
  then have "takeWhile (\<lambda>x. x \<noteq> cls) (rev post @ cls # rev pre) = rev post"
    by (subst takeWhile_append2) auto
  then show ?thesis by (simp add: lastIndex_def)
qed

text \<open>An ASCII character that is no white space belongs to no white space rune.\<close>

definition ink :: "char \<Rightarrow> bool" where
  "ink x \<longleftrightarrow> \<not> isSpace x \<and> of_char x < (128 :: nat)"

lemma ink_no_space:
  assumes "ink x"
  shows "\<not> isSpace x" "\<not> isSpace2 x b" "\<not> isSpace2 b x" "\<not> isSpace3 x b c" "\<not> isSpace3 b x c" "\<not> isSpace3 b c x"
  using assms by (auto simp: ink_def isSpace2_def isSpace3_def)

lemma trimRunes_split:
  assumes "\<not> isSpace x" "\<And>b. \<not> two x b \<and> \<not> two b x" "\<And>b c. \<not> three x b c \<and> \<not> three b x c \<and> \<not> three b c x"
  shows "\<exists>p. trimRunes two three (pre @ x # rest) = p @ x # rest \<and> set p \<subseteq> set pre"
proof (induction "length pre" arbitrary: pre rule: less_induct)
  case less
  have keep: ?case if "trimRunes two three (pre @ x # rest) = pre @ x # rest"
    using that by (intro exI [of _ pre]) simp
  have drop: ?case if "trimRunes two three (pre @ x # rest) = trimRunes two three (pre' @ x # rest)" "length pre' < length pre" "set pre' \<subseteq> set pre" for pre'
    using less [OF that(2)] that(1,3) by auto
  show ?case
  proof (cases pre)
    case Nil
    then show ?thesis using keep assms by (cases rest; cases "tl rest") auto
  next
    case (Cons a pre1)
    show ?thesis
    proof (cases pre1)
      case Nil
      then show ?thesis using keep drop [of "[]"] assms Cons by (cases rest) auto
    next
      case (Cons b pre2)
      note ab = \<open>pre = a # pre1\<close> Cons
      show ?thesis
      proof (cases pre2)
        case Nil
        then show ?thesis using keep drop [of "[b]"] drop [of "[]"] assms ab by (cases "isSpace a"; cases "two a b") auto
      next
        case (Cons c pre3)
        then show ?thesis using keep drop [of pre1] drop [of pre2] drop [of pre3] ab by (cases "isSpace a"; cases "two a b"; cases "three a b c") auto
      qed
    qed
  qed
qed

lemma TrimSpace_split:
  assumes "ink x" "ink y"
  shows "\<exists>p q. TrimSpace (pre @ x # mid @ y # post) = p @ x # mid @ y # q \<and> set q \<subseteq> set post"
proof -
  obtain p where p: "trimRunes isSpace2 isSpace3 (pre @ x # mid @ y # post) = p @ x # mid @ y # post"
    using trimRunes_split [of x isSpace2 isSpace3] ink_no_space [OF assms(1)] by blast
  let ?trim = "trimRunes (\<lambda>b a. isSpace2 a b) (\<lambda>c b a. isSpace3 a b c)"
  obtain q where q: "?trim (rev post @ y # rev (p @ x # mid)) = q @ y # rev (p @ x # mid)" "set q \<subseteq> set (rev post)"
    using trimRunes_split [of y "\<lambda>b a. isSpace2 a b" "\<lambda>c b a. isSpace3 a b c"] ink_no_space [OF assms(2)] by blast
  have "TrimSpace (pre @ x # mid @ y # post) = rev (?trim (rev post @ y # rev (p @ x # mid)))"
    by (simp add: TrimSpace_def p)
  with q have "TrimSpace (pre @ x # mid @ y # post) = p @ x # mid @ y # rev q" by simp
  with q(2) show ?thesis by (metis set_rev)
qed

locale brackets =
  fixes opn :: char
    and cls :: char
  assumes differ: "opn \<noteq> cls"
    and inked: "ink opn" "ink cls"
begin

lemma matchBack_step:
  "matchBack opn cls (pre @ x # rest) (Suc (length pre)) d =
     (if x = cls then matchBack opn cls (pre @ x # rest) (length pre) (d + 1)
      else if x = opn then (if d - 1 = 0 then Some (length pre) else matchBack opn cls (pre @ x # rest) (length pre) (d - 1))
      else matchBack opn cls (pre @ x # rest) (length pre) d)"
  by simp

lemma skip_balanced:
  "balanced opn cls body \<Longrightarrow> 1 \<le> d \<Longrightarrow>
   matchBack opn cls (pre @ body @ rest) (length pre + length body) d = matchBack opn cls (pre @ body @ rest) (length pre) d"
proof (induction arbitrary: pre rest d rule: balanced.induct)
  case (other x xs)
  have "matchBack opn cls (pre @ (x # xs) @ rest) (length pre + length (x # xs)) d =
      matchBack opn cls ((pre @ [x]) @ xs @ rest) (length (pre @ [x]) + length xs) d" by simp
  also have "\<dots> = matchBack opn cls ((pre @ [x]) @ xs @ rest) (length (pre @ [x])) d" using other by blast
  also have "\<dots> = matchBack opn cls (pre @ (x # xs) @ rest) (length pre) d" using other(1,2) by simp
  finally show ?case .
next
  case (nested xs ys)
  let ?s = "pre @ (opn # xs @ cls # ys) @ rest"
  have "matchBack opn cls ?s (length pre + length (opn # xs @ cls # ys)) d =
      matchBack opn cls ((pre @ opn # xs @ [cls]) @ ys @ rest) (length (pre @ opn # xs @ [cls]) + length ys) d" by (simp add: algebra_simps)
  also have "\<dots> = matchBack opn cls ((pre @ opn # xs @ [cls]) @ ys @ rest) (length (pre @ opn # xs @ [cls])) d" using nested by blast
  also have "\<dots> = matchBack opn cls ((pre @ opn # xs) @ cls # ys @ rest) (Suc (length (pre @ opn # xs))) d" by simp
  also have "\<dots> = matchBack opn cls ((pre @ [opn]) @ xs @ cls # ys @ rest) (length (pre @ [opn]) + length xs) (d + 1)"
    by (subst matchBack_step) simp
  also have "\<dots> = matchBack opn cls ((pre @ [opn]) @ xs @ cls # ys @ rest) (length (pre @ [opn])) (d + 1)"
    using nested(3) [of "d + 1" "pre @ [opn]" "cls # ys @ rest"] nested(5) by simp
  also have "\<dots> = matchBack opn cls (pre @ opn # xs @ cls # ys @ rest) (Suc (length pre)) (d + 1)" by simp
  also have "\<dots> = matchBack opn cls ?s (length pre) d" using nested(5) differ by (subst matchBack_step) simp
  finally show ?case .
qed simp

lemma extract_found:
  assumes "balanced opn cls body" "cls \<notin> set post"
  shows "extractBracketed opn cls (pre @ opn # body @ cls # post) = opn # body @ [cls]"
proof -
  let ?s = "pre @ opn # body @ cls # post"
  have e: "lastIndex cls ?s = Some (length (pre @ opn # body))"
    using lastIndex_append [OF assms(2), of "pre @ opn # body"] by simp
  have "matchBack opn cls ?s (Suc (length (pre @ opn # body))) 0 =
      matchBack opn cls ((pre @ [opn]) @ body @ cls # post) (length (pre @ [opn]) + length body) 1"
    using matchBack_step [of "pre @ opn # body" cls post 0] by simp
  also have "\<dots> = matchBack opn cls ((pre @ [opn]) @ body @ cls # post) (length (pre @ [opn])) 1"
    by (rule skip_balanced [OF assms(1)]) simp
  also have "\<dots> = Some (length pre)" using matchBack_step [of pre opn "body @ cls # post" 1] differ by simp
  finally have m: "matchBack opn cls ?s (Suc (length (pre @ opn # body))) 0 = Some (length pre)" .
  show ?thesis unfolding extractBracketed_def e option.case m by simp
qed

lemma extract_answer:
  assumes "balanced opn cls body" "cls \<notin> set post"
  shows "extractBracketed opn cls (TrimSpace (pre @ opn # body @ cls # post)) = opn # body @ [cls]"
proof -
  obtain p q where "TrimSpace (pre @ opn # body @ cls # post) = p @ opn # body @ cls # q" "set q \<subseteq> set post"
    using TrimSpace_split [OF inked] by blast
  with extract_found [OF assms(1), of q p] assms(2) show ?thesis by auto
qed

end

interpretation objects: brackets "CHR ''{''" "CHR ''}''"
  by unfold_locales (simp_all add: ink_def isSpace_def)

interpretation arrays: brackets "CHR ''[''" "CHR '']''"
  by unfold_locales (simp_all add: ink_def isSpace_def)

text \<open>
  Text around the answer does not matter. When a completion consists of a preamble, one
  bracket-balanced JSON object (for the checklist: array) and trailing text without a closing
  bracket, the grader's result is the one for the bare object or array, whatever stray opening or
  closing brackets the preamble holds.
\<close>

theorem answer_survives_preamble:
  assumes "balanced (CHR ''{'') (CHR ''}'') body" "CHR ''}'' \<notin> set post"
    "balanced (CHR ''['') (CHR '']'') items" "CHR '']'' \<notin> set post'"
  shows "judgeVerdict G target (pre @ ''{'' @ body @ ''}'' @ post) = judgeVerdict G target (''{'' @ body @ ''}'') \<and>
    checklistVerdict G g target (pre' @ ''['' @ items @ '']'' @ post') = checklistVerdict G g target (''['' @ items @ '']'')"
proof -
  have "extractJSON (TrimSpace (pre @ ''{'' @ body @ ''}'' @ post)) = extractJSON (TrimSpace (''{'' @ body @ ''}''))"
    using objects.extract_answer [OF assms(1,2), of pre] objects.extract_answer [OF assms(1), of "[]" "[]"] by (simp add: extractJSON_def)
  moreover have "extractJSONArray (TrimSpace (pre' @ ''['' @ items @ '']'' @ post')) = extractJSONArray (TrimSpace (''['' @ items @ '']''))"
    using arrays.extract_answer [OF assms(3,4), of pre'] arrays.extract_answer [OF assms(3), of "[]" "[]"] by (simp add: extractJSONArray_def)
  ultimately show ?thesis by (simp add: judgeVerdict_def checklistVerdict_def)
qed

definition sample_grader_libs :: "unit grader_libs" where
  "sample_grader_libs = \<lparr>
     glib = \<lparr> gjson_Get = (\<lambda>_ _. None), regexp_Compile = (\<lambda>_. True), FindStringSubmatch = (\<lambda>_ _. None), json_Marshal = (\<lambda>_. Some []) \<rparr>,
     regex_Error = (\<lambda>_. None), regex_MatchString = (\<lambda>_ _. False), fmt_q = id, fmt_v = (\<lambda>_. []), fmt_T = (\<lambda>_. []), fmt_d = (\<lambda>_. []),
     schema_Compile = (\<lambda>_. Inr ()), schema_Validate = (\<lambda>_ _. None),
     judge_Decode = (\<lambda>s. if s = ''{a{b}}'' then Some (''pass'', ''fine'') else None),
     criteria_Decode = (\<lambda>s. if s = ''[x]'' then Some [\<lparr> crr_Criterion = ''x'', crr_Met = True, crr_Explanation = [] \<rparr>] else None),
     value_Decode = (\<lambda>_. None), plugin_Grade = (\<lambda>_ _ _. Inl ''no connection'') \<rparr>"

definition sample_checklist :: "string list \<Rightarrow> checklist" where
  "sample_checklist cs = \<lparr> cl_model = [], cl_apiKey = [], cl_criteria = cs, cl_passThreshold = 1, cl_fieldPath = [], cl_client = (\<lambda>_. Inr ''[x]'') \<rparr>"

theorem answer_survives_preamble_witness:
  "grr_Verdict (judgeVerdict sample_grader_libs VNil (''note } { '' @ ''{'' @ ''a{b}'' @ ''}'' @ '' ok'')) = VerdictPass"
proof -
  have b: "balanced (CHR ''{'') (CHR ''}'') ''a{b}''" "balanced (CHR ''['') (CHR '']'') ''x''"
    using balanced.other [of "CHR ''a''" "CHR ''{''" "CHR ''}''" "''{b}''"] balanced.nested [of "CHR ''{''" "CHR ''}''" "''b''" "[]"]
    by (auto intro: balanced.intros)
  have p: "CHR ''}'' \<notin> set '' ok''" "CHR '']'' \<notin> set ([] :: string)" by simp_all
  have "grr_Verdict (judgeVerdict sample_grader_libs VNil (''{'' @ ''a{b}'' @ ''}'')) = VerdictPass" by code_simp
  with answer_survives_preamble [OF b(1) p(1) b(2) p(2), of sample_grader_libs VNil "''note } { ''" "sample_checklist []" "[]"]
  show ?thesis by metis
qed

section \<open>Scoring a checklist\<close>

lemma checklistVerdict_items:
  assumes "criteria_Decode G (extractJSONArray (TrimSpace completion)) = Some items" "items \<noteq> []"
  shows "grr_Score (checklistVerdict G g target completion) = Some (float64_div (length (filter crr_Met items)) (length items))"
    "grr_Verdict (checklistVerdict G g target completion) =
       (if cl_passThreshold g \<le> float64_div (length (filter crr_Met items)) (length items) then VerdictPass else VerdictFail)"
    "grr_CriteriaResults (checklistVerdict G g target completion) = items"
  using assms by (simp_all add: checklistVerdict_def Let_def baseResult_def)

text \<open>
  C18. The score of a checklist. Suppose the model answers one item per configured criterion, as the prompt demands. Then the
  score is the share of criteria met, as a \<open>float64\<close>, every answer is reported, and with a threshold in \<open>(0, 1]\<close> that
  is a \<open>float64\<close> the verdict is pass when that share reaches the threshold, fail when it stays below it by more
  than \<open>2 ^ (-53)\<close>, pass when all criteria are met, fail when none is.
\<close>

theorem checklist_scores_criteria:
  assumes "criteria_Decode G (extractJSONArray (TrimSpace completion)) = Some items"
    "length items = length (cl_criteria g)" "cl_criteria g \<noteq> []"
    "0 < cl_passThreshold g" "cl_passThreshold g \<le> 1" "fl64 (cl_passThreshold g) = cl_passThreshold g"
  shows "grr_Score (checklistVerdict G g target completion) = Some (fl64 (of_nat (length (filter crr_Met items)) / of_nat (length (cl_criteria g)))) \<and>
    grr_CriteriaResults (checklistVerdict G g target completion) = items \<and>
    (cl_passThreshold g \<le> of_nat (length (filter crr_Met items)) / of_nat (length (cl_criteria g)) \<longrightarrow> grr_Verdict (checklistVerdict G g target completion) = VerdictPass) \<and>
    (of_nat (length (filter crr_Met items)) / of_nat (length (cl_criteria g)) < cl_passThreshold g - 1 / 2 ^ 53 \<longrightarrow> grr_Verdict (checklistVerdict G g target completion) = VerdictFail) \<and>
    (list_all crr_Met items \<longrightarrow> grr_Verdict (checklistVerdict G g target completion) = VerdictPass) \<and>
    (\<not> list_ex crr_Met items \<longrightarrow> grr_Verdict (checklistVerdict G g target completion) = VerdictFail)"
proof -
  have ne: "items \<noteq> []" using assms(2,3) by auto
  let ?met = "length (filter crr_Met items)" and ?n = "length items"
  have n: "?met \<le> ?n" "0 < ?n" "0 \<le> cl_passThreshold g" using ne assms(4) by simp_all
  note v = checklistVerdict_items [OF assms(1) ne, of g target]
  note t = float64_div_threshold [OF n assms(5,6)]
  have all: "cl_passThreshold g \<le> float64_div ?met ?n" if "list_all crr_Met items"
  proof -
    from that have "?met = ?n" by (simp add: list_all_iff filter_id_conv)
    then show ?thesis using n(2) assms(5) by simp
  qed
  have none: "\<not> cl_passThreshold g \<le> float64_div ?met ?n" if "\<not> list_ex crr_Met items"
  proof -
    from that have "?met = 0" by (simp add: list_ex_iff filter_empty_conv)
    then show ?thesis using assms(4) by simp
  qed
  have "float64_div ?met ?n = fl64 (of_nat ?met / of_nat ?n)" by (simp add: float64_div_def)
  with v(1,3) have r: "grr_Score (checklistVerdict G g target completion) = Some (fl64 (of_nat ?met / of_nat ?n))"
    "grr_CriteriaResults (checklistVerdict G g target completion) = items" by simp_all
  have f: "\<not> cl_passThreshold g \<le> float64_div ?met ?n" if "of_nat ?met / of_nat ?n < cl_passThreshold g - 1 / 2 ^ 53"
    using t(2) that by (meson not_le)
  show ?thesis unfolding v(2) assms(2)[symmetric] using r t(1) f all none by simp
qed

theorem checklist_scores_criteria_witness:
  "grr_Verdict (checklistVerdict sample_grader_libs (sample_checklist [''x'']) VNil ''[x]'') = VerdictPass \<and>
   grr_Score (checklistVerdict sample_grader_libs (sample_checklist [''x'']) VNil ''[x]'') = Some (fl64 1)"
proof -
  let ?items = "[\<lparr> crr_Criterion = ''x'', crr_Met = True, crr_Explanation = [] \<rparr>]"
  have d: "criteria_Decode sample_grader_libs (extractJSONArray (TrimSpace ''[x]'')) = Some ?items" by code_simp
  have t: "length ?items = length (cl_criteria (sample_checklist [''x'']))" "cl_criteria (sample_checklist [''x'']) \<noteq> []"
    "0 < cl_passThreshold (sample_checklist [''x''])" "cl_passThreshold (sample_checklist [''x'']) \<le> 1"
    "fl64 (cl_passThreshold (sample_checklist [''x''])) = cl_passThreshold (sample_checklist [''x''])"
    by (simp_all add: sample_checklist_def)
  have l: "length (cl_criteria (sample_checklist [''x''])) = 1" using t(1) by simp
  from checklist_scores_criteria [OF d t, of VNil] show ?thesis unfolding l by simp
qed

text \<open>
  The code divides by the number of items in the answer, not by the number of criteria: an answer with fewer
  items than criteria is scored as if the missing ones did not exist.
\<close>

theorem checklist_skips_unanswered:
  assumes "criteria_Decode G (extractJSONArray (TrimSpace completion)) = Some items" "items \<noteq> []" "list_all crr_Met items" "cl_passThreshold g \<le> 1"
  shows "\<forall>cs. grr_Verdict (checklistVerdict G (g\<lparr>cl_criteria := cs\<rparr>) target completion) = VerdictPass"
proof
  fix cs
  have "length (filter crr_Met items) = length items" using assms(3) by (simp add: list_all_iff filter_id_conv)
  then show "grr_Verdict (checklistVerdict G (g\<lparr>cl_criteria := cs\<rparr>) target completion) = VerdictPass"
    using assms(2,4) by (simp add: checklistVerdict_items(2) [OF assms(1,2)])
qed

end
