(* ===== verification/Eval_Store.thy ===== *)
theory Eval_Store
  imports Run_Store Graders
begin

text \<open>
  Persistence of evaluations (\<open>internal/store/mysql/eval_store.go\<close>): suites, test cases, eval runs
  and test case results. The JSON codec of the blob columns is a parameter, as is what the columns
  \<open>pass_threshold DECIMAL(4,3)\<close> and \<open>max_concurrency TINYINT UNSIGNED\<close> make of a number (\<open>None\<close>: out of
  range). An affected-rows count is the number of matching rows, which \<open>Open\<close> asks of the driver.
  Rows with equal sort keys keep their table order. A nil map or slice is the empty one: it is
  written as \<open>null\<close> and read back as empty. \<open>org\<close> is the tenant of the request's context, empty when
  there is none.
\<close>

section \<open>Records\<close>

record node_mock =
  nm_NodeID :: string
  nm_Output :: gomap

record eval_suite =
  es_ID :: string
  es_WorkflowID :: string
  es_Name :: string
  es_Description :: string
  es_PassThreshold :: rat
  es_MaxConcurrency :: int
  es_WorkflowDeleted :: bool
  es_TriggerKind :: string
  es_CronExpr :: string
  es_WebhookSecret :: string
  es_CreatedAt :: int
  es_UpdatedAt :: int

record test_case =
  tc_ID :: string
  tc_SuiteID :: string
  tc_Name :: string
  tc_Description :: string
  tc_Position :: int
  tc_InitialData :: gomap
  tc_Mocks :: "node_mock list"
  tc_Graders :: "grader_def list"
  tc_CreatedAt :: int
  tc_UpdatedAt :: int

datatype eval_status = EvalRunPending | EvalRunRunning | EvalRunCompleted | EvalRunFailed

record eval_counts =
  ec_Passed :: nat
  ec_Failed :: nat
  ec_Error :: nat

record eval_run =
  er_ID :: string
  er_SuiteID :: string
  er_TriggeredBy :: string
  er_Status :: eval_status
  er_TotalCases :: nat
  er_Counts :: eval_counts
  er_WorkflowVersionNumber :: "int option"
  er_StartedAt :: "int option"
  er_FinishedAt :: "int option"
  er_CreatedAt :: int

record eval_run_filter =
  ef_SuiteID :: string
  ef_Status :: string
  ef_Limit :: int
  ef_Offset :: int

record test_case_result =
  tr_ID :: string
  tr_EvalRunID :: string
  tr_TestCaseID :: string
  tr_TestCaseName :: string
  tr_WorkflowRunID :: string
  tr_WorkflowRunStatus :: string
  tr_NodeOutputs :: "(string \<times> gomap) list"
  tr_GraderResults :: "grader_result list"
  tr_Passed :: bool
  tr_CreatedAt :: int

record eval_suite_summary =
  ss_Suite :: eval_suite
  ss_TestCaseCount :: nat
  ss_LastRun :: "(eval_status \<times> int) option"

section \<open>Rows\<close>

record db_eval_suite =
  ds_ID :: string
  ds_OrgID :: string
  ds_WorkflowID :: string
  ds_Name :: string
  ds_Description :: string
  ds_PassThreshold :: rat
  ds_MaxConcurrency :: int
  ds_WorkflowDeleted :: bool
  ds_TriggerKind :: string
  ds_TriggerConfig :: string
  ds_CreatedAt :: int
  ds_UpdatedAt :: int

record db_test_case =
  dt_ID :: string
  dt_SuiteID :: string
  dt_Name :: string
  dt_Description :: string
  dt_Position :: int
  dt_InitialData :: string
  dt_Mocks :: string
  dt_Graders :: string
  dt_CreatedAt :: int
  dt_UpdatedAt :: int

record db_test_case_result =
  dx_ID :: string
  dx_EvalRunID :: string
  dx_TestCaseID :: string
  dx_TestCaseName :: string
  dx_WorkflowRunID :: string
  dx_WorkflowRunStatus :: string
  dx_NodeOutputs :: string
  dx_GraderResults :: string
  dx_Passed :: bool
  dx_CreatedAt :: int

text \<open>The columns of \<open>eval_runs\<close> are those of the record \<open>eval_run\<close> itself.\<close>

record eval_tables =
  t_suites :: "db_eval_suite list"
  t_cases :: "db_test_case list"
  t_eval_runs :: "eval_run list"
  t_results :: "db_test_case_result list"

record eval_json =
  enc_data :: "gomap \<Rightarrow> string option"
  dec_data :: "string \<Rightarrow> gomap option"
  enc_mocks :: "node_mock list \<Rightarrow> string option"
  dec_mocks :: "string \<Rightarrow> node_mock list option"
  enc_graders :: "grader_def list \<Rightarrow> string option"
  dec_graders :: "string \<Rightarrow> grader_def list option"
  enc_outputs :: "(string \<times> gomap) list \<Rightarrow> string option"
  dec_outputs :: "string \<Rightarrow> (string \<times> gomap) list option"
  enc_results :: "grader_result list \<Rightarrow> string option"
  dec_results :: "string \<Rightarrow> grader_result list option"
  enc_trigger :: "(string \<times> string) list \<Rightarrow> string option"
  dec_trigger :: "string \<Rightarrow> (string \<times> string) list option"
  col_threshold :: "rat \<Rightarrow> rat option"
  col_concurrency :: "int \<Rightarrow> int option"

text \<open>A blob column: an empty one leaves the field at its empty value.\<close>

definition readBlob :: "sql \<Rightarrow> (string \<Rightarrow> 'a list option) \<Rightarrow> string \<Rightarrow> store_error + 'a list" where
  "readBlob q dec t =
     (if sql_json q t = [] then Inr []
      else case dec (sql_json q t) of None \<Rightarrow> Inl UnmarshalFault | Some x \<Rightarrow> Inr x)"

definition rowToEvalSuite :: "sql \<Rightarrow> eval_json \<Rightarrow> db_eval_suite \<Rightarrow> store_error + eval_suite" where
  "rowToEvalSuite q J row =
     (let s = \<lparr> es_ID = ds_ID row, es_WorkflowID = ds_WorkflowID row, es_Name = ds_Name row, es_Description = ds_Description row,
                es_PassThreshold = ds_PassThreshold row, es_MaxConcurrency = ds_MaxConcurrency row, es_WorkflowDeleted = ds_WorkflowDeleted row,
                es_TriggerKind = ds_TriggerKind row, es_CronExpr = [], es_WebhookSecret = [], es_CreatedAt = ds_CreatedAt row, es_UpdatedAt = ds_UpdatedAt row \<rparr>
      in case readBlob q (dec_trigger J) (ds_TriggerConfig row) of
           Inl e \<Rightarrow> Inl e
         | Inr cfg \<Rightarrow> Inr (s\<lparr> es_CronExpr := (case map_of cfg ''cron_expr'' of None \<Rightarrow> [] | Some c \<Rightarrow> c),
                              es_WebhookSecret := (case map_of cfg ''webhook_secret'' of None \<Rightarrow> [] | Some c \<Rightarrow> c) \<rparr>))"

definition rowToTestCase :: "sql \<Rightarrow> eval_json \<Rightarrow> db_test_case \<Rightarrow> store_error + test_case" where
  "rowToTestCase q J row =
     (case readBlob q (dec_data J) (dt_InitialData row) of
        Inl e \<Rightarrow> Inl e
      | Inr d \<Rightarrow>
     (case readBlob q (dec_mocks J) (dt_Mocks row) of
        Inl e \<Rightarrow> Inl e
      | Inr ms \<Rightarrow>
     (case readBlob q (dec_graders J) (dt_Graders row) of
        Inl e \<Rightarrow> Inl e
      | Inr gs \<Rightarrow>
          Inr \<lparr> tc_ID = dt_ID row, tc_SuiteID = dt_SuiteID row, tc_Name = dt_Name row, tc_Description = dt_Description row,
                tc_Position = dt_Position row, tc_InitialData = d, tc_Mocks = ms, tc_Graders = gs,
                tc_CreatedAt = dt_CreatedAt row, tc_UpdatedAt = dt_UpdatedAt row \<rparr>)))"

definition rowToTestCaseResult :: "sql \<Rightarrow> eval_json \<Rightarrow> db_test_case_result \<Rightarrow> store_error + test_case_result" where
  "rowToTestCaseResult q J row =
     (case readBlob q (dec_outputs J) (dx_NodeOutputs row) of
        Inl e \<Rightarrow> Inl e
      | Inr outs \<Rightarrow>
     (case readBlob q (dec_results J) (dx_GraderResults row) of
        Inl e \<Rightarrow> Inl e
      | Inr grs \<Rightarrow>
          Inr \<lparr> tr_ID = dx_ID row, tr_EvalRunID = dx_EvalRunID row, tr_TestCaseID = dx_TestCaseID row, tr_TestCaseName = dx_TestCaseName row,
                tr_WorkflowRunID = dx_WorkflowRunID row, tr_WorkflowRunStatus = dx_WorkflowRunStatus row, tr_NodeOutputs = outs,
                tr_GraderResults = grs, tr_Passed = dx_Passed row, tr_CreatedAt = dx_CreatedAt row \<rparr>))"

text \<open>The loop over the rows of a result set that stops at the first row that cannot be read.\<close>

fun readRows :: "('r \<Rightarrow> store_error + 'a) \<Rightarrow> 'r list \<Rightarrow> store_error + 'a list" where
  "readRows f [] = Inr []"
| "readRows f (row # rows) =
     (case f row of
        Inl e \<Rightarrow> Inl e
      | Inr x \<Rightarrow> (case readRows f rows of Inl e \<Rightarrow> Inl e | Inr xs \<Rightarrow> Inr (x # xs)))"

definition marshalTriggerConfig :: "eval_json \<Rightarrow> eval_suite \<Rightarrow> string option" where
  "marshalTriggerConfig J s =
     enc_trigger J (if es_TriggerKind s = ''cron'' then [(''cron_expr'', es_CronExpr s)]
                    else if es_TriggerKind s = ''webhook'' then [(''webhook_secret'', es_WebhookSecret s)] else [])"

abbreviation firstRow :: "('r \<Rightarrow> bool) \<Rightarrow> 'r list \<Rightarrow> store_error + 'r" where
  "firstRow P rows \<equiv> (case find P rows of None \<Rightarrow> Inl ErrNotFound | Some row \<Rightarrow> Inr row)"

abbreviation decoded :: "(store_error + 'a) \<Rightarrow> ('t, 'a) dbm" where
  "decoded x \<equiv> (\<lambda>d. (x, d))"

section \<open>Suites\<close>

definition defaultOrg :: string where
  "defaultOrg = ''00000000-0000-0000-0000-000000000001''"

definition suiteVisible :: "sql \<Rightarrow> string \<Rightarrow> string \<Rightarrow> db_eval_suite \<Rightarrow> bool" where
  "suiteVisible q org i row \<longleftrightarrow> sql_eq q (ds_ID row) i \<and> (org \<noteq> [] \<longrightarrow> sql_eq q (ds_OrgID row) org)"

definition insertSuite :: "sql \<Rightarrow> eval_json \<Rightarrow> string \<Rightarrow> string \<Rightarrow> eval_suite \<Rightarrow> eval_tables \<Rightarrow> store_error + unit \<times> eval_tables" where
  "insertSuite q J org trigCfg s t =
     (case (col_threshold J (es_PassThreshold s), col_concurrency J (es_MaxConcurrency s)) of
        (Some th, Some mc) \<Rightarrow>
          (if \<exists>row \<in> set (t_suites t). sql_eq q (ds_ID row) (es_ID s) then Inl DuplicateKey
           else Inr ((), t\<lparr>t_suites := t_suites t @ [\<lparr> ds_ID = es_ID s, ds_OrgID = org, ds_WorkflowID = es_WorkflowID s, ds_Name = es_Name s,
                  ds_Description = es_Description s, ds_PassThreshold = th, ds_MaxConcurrency = mc, ds_WorkflowDeleted = es_WorkflowDeleted s,
                  ds_TriggerKind = es_TriggerKind s, ds_TriggerConfig = trigCfg, ds_CreatedAt = es_CreatedAt s, ds_UpdatedAt = es_UpdatedAt s \<rparr>]\<rparr>))
      | _ \<Rightarrow> Inl SqlFault)"

definition CreateEvalSuite :: "sql \<Rightarrow> eval_json \<Rightarrow> string \<Rightarrow> string \<Rightarrow> int \<Rightarrow> eval_suite \<Rightarrow> (eval_tables, eval_suite) dbm" where
  "CreateEvalSuite q J org uuid now s0 =
     (let s = s0\<lparr> es_ID := (if es_ID s0 = [] then uuid else es_ID s0),
                  es_PassThreshold := (if es_PassThreshold s0 = 0 then 1 else es_PassThreshold s0),
                  es_MaxConcurrency := (if es_MaxConcurrency s0 = 0 then 1 else es_MaxConcurrency s0),
                  es_TriggerKind := (if es_TriggerKind s0 = [] then ''none'' else es_TriggerKind s0),
                  es_CreatedAt := now, es_UpdatedAt := now \<rparr>
      in case marshalTriggerConfig J s of
           None \<Rightarrow> fail MarshalFault
         | Some trigCfg \<Rightarrow>
             andThen (exec q (insertSuite q J (if org = [] then defaultOrg else org) trigCfg s)) (\<lambda>_. give s))"

definition GetEvalSuite :: "sql \<Rightarrow> eval_json \<Rightarrow> string \<Rightarrow> string \<Rightarrow> (eval_tables, eval_suite) dbm" where
  "GetEvalSuite q J org i =
     andThen (query q (\<lambda>t. firstRow (suiteVisible q org i) (t_suites t))) (\<lambda>row. decoded (rowToEvalSuite q J row))"

text \<open>The correlated subqueries of the suite list.\<close>

definition newestRun :: "sql \<Rightarrow> string \<Rightarrow> eval_tables \<Rightarrow> eval_run option" where
  "newestRun q suiteID t =
     (case sort_key (\<lambda>r. - er_CreatedAt r) (filter (\<lambda>r. sql_eq q (er_SuiteID r) suiteID) (t_eval_runs t)) of [] \<Rightarrow> None | r # _ \<Rightarrow> Some r)"

definition summaryRow :: "sql \<Rightarrow> eval_json \<Rightarrow> eval_tables \<Rightarrow> db_eval_suite \<Rightarrow> store_error + eval_suite_summary" where
  "summaryRow q J t row =
     (case rowToEvalSuite q J row of
        Inl e \<Rightarrow> Inl e
      | Inr s \<Rightarrow> Inr \<lparr> ss_Suite = s, ss_TestCaseCount = length (filter (\<lambda>c. sql_eq q (dt_SuiteID c) (ds_ID row)) (t_cases t)),
                         ss_LastRun = map_option (\<lambda>r. (er_Status r, er_CreatedAt r)) (newestRun q (ds_ID row) t) \<rparr>)"

definition ListEvalSuites :: "sql \<Rightarrow> eval_json \<Rightarrow> string \<Rightarrow> string \<Rightarrow> (eval_tables, eval_suite_summary list) dbm" where
  "ListEvalSuites q J org workflowID =
     query q (\<lambda>t. readRows (summaryRow q J t)
       (sort_key (\<lambda>r. - ds_CreatedAt r)
          (filter (\<lambda>r. sql_eq q (ds_WorkflowID r) workflowID \<and> (org \<noteq> [] \<longrightarrow> sql_eq q (ds_OrgID r) org)) (t_suites t))))"

definition ListEvalSuitesByCronTrigger :: "sql \<Rightarrow> eval_json \<Rightarrow> (eval_tables, eval_suite list) dbm" where
  "ListEvalSuitesByCronTrigger q J =
     query q (\<lambda>t. readRows (rowToEvalSuite q J)
       (filter (\<lambda>r. sql_eq q (ds_TriggerKind r) ''cron'' \<and> \<not> ds_WorkflowDeleted r) (t_suites t)))"

definition updateSuites :: "sql \<Rightarrow> eval_json \<Rightarrow> string \<Rightarrow> string \<Rightarrow> eval_suite \<Rightarrow> eval_tables \<Rightarrow> store_error + nat \<times> eval_tables" where
  "updateSuites q J org trigCfg s t =
     (let hit = suiteVisible q org (es_ID s); n = length (filter hit (t_suites t))
      in if n = 0 then Inr (0, t)
         else case (col_threshold J (es_PassThreshold s), col_concurrency J (es_MaxConcurrency s)) of
                (Some th, Some mc) \<Rightarrow>
                  Inr (n, t\<lparr>t_suites := map (\<lambda>row. if hit row then row\<lparr> ds_Name := es_Name s, ds_Description := es_Description s,
                         ds_PassThreshold := th, ds_MaxConcurrency := mc, ds_TriggerKind := es_TriggerKind s,
                         ds_TriggerConfig := trigCfg, ds_UpdatedAt := es_UpdatedAt s \<rparr> else row) (t_suites t)\<rparr>)
              | _ \<Rightarrow> Inl SqlFault)"

definition UpdateEvalSuite :: "sql \<Rightarrow> eval_json \<Rightarrow> string \<Rightarrow> int \<Rightarrow> eval_suite \<Rightarrow> (eval_tables, eval_suite) dbm" where
  "UpdateEvalSuite q J org now s0 =
     (let s = s0\<lparr> es_UpdatedAt := now, es_TriggerKind := (if es_TriggerKind s0 = [] then ''none'' else es_TriggerKind s0) \<rparr>
      in case marshalTriggerConfig J s of
           None \<Rightarrow> fail MarshalFault
         | Some trigCfg \<Rightarrow>
             andThen (exec q (updateSuites q J org trigCfg s))
               (\<lambda>n. if n = 0 then fail ErrNotFound else GetEvalSuite q J org (es_ID s)))"

definition deleteRows :: "('r \<Rightarrow> bool) \<Rightarrow> 'r list \<Rightarrow> 'r list" where
  "deleteRows P rows = filter (\<lambda>r. \<not> P r) rows"

definition DeleteEvalSuite :: "sql \<Rightarrow> string \<Rightarrow> string \<Rightarrow> (eval_tables, unit) dbm" where
  "DeleteEvalSuite q org i =
     transaction q
       (andThen (exec q (\<lambda>t. Inr ((), t\<lparr>t_results := deleteRows (\<lambda>x. \<exists>r \<in> set (t_eval_runs t). sql_eq q (er_SuiteID r) i \<and> sql_eq q (dx_EvalRunID x) (er_ID r)) (t_results t)\<rparr>)))
        (\<lambda>_. andThen (exec q (\<lambda>t. Inr ((), t\<lparr>t_eval_runs := deleteRows (\<lambda>r. sql_eq q (er_SuiteID r) i) (t_eval_runs t)\<rparr>)))
        (\<lambda>_. andThen (exec q (\<lambda>t. Inr ((), t\<lparr>t_cases := deleteRows (\<lambda>c. sql_eq q (dt_SuiteID c) i) (t_cases t)\<rparr>)))
        (\<lambda>_. andThen (exec q (\<lambda>t. Inr (length (filter (suiteVisible q org i) (t_suites t)), t\<lparr>t_suites := deleteRows (suiteVisible q org i) (t_suites t)\<rparr>)))
        (\<lambda>n. if n = 0 then fail ErrNotFound else give ())))))"

section \<open>Test cases\<close>

definition encodeCase :: "eval_json \<Rightarrow> test_case \<Rightarrow> (string \<times> string \<times> string) option" where
  "encodeCase J tc =
     (case enc_data J (tc_InitialData tc) of
        None \<Rightarrow> None
      | Some d \<Rightarrow>
     (case enc_mocks J (tc_Mocks tc) of
        None \<Rightarrow> None
      | Some ms \<Rightarrow>
     (case enc_graders J (tc_Graders tc) of
        None \<Rightarrow> None
      | Some gs \<Rightarrow> Some (d, ms, gs))))"

text \<open>\<open>SELECT MAX(position)\<close>; an error of this query is ignored.\<close>

definition nextPosition :: "sql \<Rightarrow> test_case \<Rightarrow> (eval_tables, int) dbm" where
  "nextPosition q tc d =
     (if tc_Position tc \<noteq> 0 then (Inr (tc_Position tc), d)
      else case query q (\<lambda>t. Inr (map dt_Position (filter (\<lambda>c. sql_eq q (dt_SuiteID c) (tc_SuiteID tc)) (t_cases t)))) d of
             (Inl _, d') \<Rightarrow> (Inr 0, d')
           | (Inr [], d') \<Rightarrow> (Inr 0, d')
           | (Inr (p # ps), d') \<Rightarrow> (Inr (Max (set (p # ps)) + 1), d'))"

definition insertCase :: "sql \<Rightarrow> test_case \<Rightarrow> string \<times> string \<times> string \<Rightarrow> eval_tables \<Rightarrow> store_error + unit \<times> eval_tables" where
  "insertCase q tc blobs t =
     (if \<exists>row \<in> set (t_cases t). sql_eq q (dt_ID row) (tc_ID tc) then Inl DuplicateKey
      else case blobs of
        (d, ms, gs) \<Rightarrow>
          Inr ((), t\<lparr>t_cases := t_cases t @ [\<lparr> dt_ID = tc_ID tc, dt_SuiteID = tc_SuiteID tc, dt_Name = tc_Name tc, dt_Description = tc_Description tc,
            dt_Position = tc_Position tc, dt_InitialData = d, dt_Mocks = ms, dt_Graders = gs, dt_CreatedAt = tc_CreatedAt tc, dt_UpdatedAt = tc_UpdatedAt tc \<rparr>]\<rparr>))"

definition CreateTestCase :: "sql \<Rightarrow> eval_json \<Rightarrow> string \<Rightarrow> int \<Rightarrow> test_case \<Rightarrow> (eval_tables, test_case) dbm" where
  "CreateTestCase q J uuid now tc0 =
     (let tc = tc0\<lparr> tc_ID := (if tc_ID tc0 = [] then uuid else tc_ID tc0), tc_CreatedAt := now, tc_UpdatedAt := now \<rparr>
      in case encodeCase J tc of
           None \<Rightarrow> fail MarshalFault
         | Some blobs \<Rightarrow>
             transaction q
               (andThen (nextPosition q tc)
                  (\<lambda>p. let tc' = tc\<lparr>tc_Position := p\<rparr> in andThen (exec q (insertCase q tc' blobs)) (\<lambda>_. give tc'))))"

definition GetTestCase :: "sql \<Rightarrow> eval_json \<Rightarrow> string \<Rightarrow> (eval_tables, test_case) dbm" where
  "GetTestCase q J i =
     andThen (query q (\<lambda>t. firstRow (\<lambda>row. sql_eq q (dt_ID row) i) (t_cases t))) (\<lambda>row. decoded (rowToTestCase q J row))"

definition ListTestCases :: "sql \<Rightarrow> eval_json \<Rightarrow> string \<Rightarrow> (eval_tables, test_case list) dbm" where
  "ListTestCases q J suiteID =
     query q (\<lambda>t. readRows (rowToTestCase q J)
       (sort_key dt_Position (sort_key dt_CreatedAt (filter (\<lambda>c. sql_eq q (dt_SuiteID c) suiteID) (t_cases t)))))"

definition updateCases :: "(db_test_case \<Rightarrow> bool) \<Rightarrow> (db_test_case \<Rightarrow> db_test_case) \<Rightarrow> eval_tables \<Rightarrow> store_error + nat \<times> eval_tables" where
  "updateCases hit f t =
     Inr (length (filter hit (t_cases t)), t\<lparr>t_cases := map (\<lambda>row. if hit row then f row else row) (t_cases t)\<rparr>)"

definition UpdateTestCase :: "sql \<Rightarrow> eval_json \<Rightarrow> int \<Rightarrow> test_case \<Rightarrow> (eval_tables, test_case) dbm" where
  "UpdateTestCase q J now tc =
     (case encodeCase J tc of
        None \<Rightarrow> fail MarshalFault
      | Some (d, ms, gs) \<Rightarrow>
          andThen (exec q (updateCases (\<lambda>row. sql_eq q (dt_ID row) (tc_ID tc))
                     (\<lambda>row. row\<lparr> dt_Name := tc_Name tc, dt_Description := tc_Description tc, dt_InitialData := d, dt_Mocks := ms,
                                  dt_Graders := gs, dt_UpdatedAt := now \<rparr>)))
            (\<lambda>n. if n = 0 then fail ErrNotFound else GetTestCase q J (tc_ID tc)))"

definition DeleteTestCase :: "sql \<Rightarrow> string \<Rightarrow> (eval_tables, unit) dbm" where
  "DeleteTestCase q i =
     transaction q
       (andThen (exec q (\<lambda>t. Inr ((), t\<lparr>t_results := deleteRows (\<lambda>x. sql_eq q (dx_TestCaseID x) i) (t_results t)\<rparr>)))
        (\<lambda>_. andThen (exec q (\<lambda>t. Inr (length (filter (\<lambda>c. sql_eq q (dt_ID c) i) (t_cases t)), t\<lparr>t_cases := deleteRows (\<lambda>c. sql_eq q (dt_ID c) i) (t_cases t)\<rparr>)))
        (\<lambda>n. if n = 0 then fail ErrNotFound else give ())))"

definition ReorderTestCases :: "sql \<Rightarrow> string \<Rightarrow> string list \<Rightarrow> (eval_tables, unit) dbm" where
  "ReorderTestCases q suiteID orderedIDs =
     transaction q
       (each (\<lambda>(i, caseID).
          andThen (exec q (updateCases (\<lambda>row. sql_eq q (dt_ID row) caseID \<and> sql_eq q (dt_SuiteID row) suiteID) (\<lambda>row. row\<lparr>dt_Position := int i\<rparr>)))
            (\<lambda>n. if n = 0 then fail ErrNotFound else give ()))
          (enumerate 0 orderedIDs))"

section \<open>Eval runs\<close>

definition CreateEvalRun :: "sql \<Rightarrow> string \<Rightarrow> int \<Rightarrow> eval_run \<Rightarrow> (eval_tables, eval_run) dbm" where
  "CreateEvalRun q uuid now r0 =
     (let r = r0\<lparr> er_ID := (if er_ID r0 = [] then uuid else er_ID r0),
                  er_TriggeredBy := (if er_TriggeredBy r0 = [] then ''manual'' else er_TriggeredBy r0), er_CreatedAt := now \<rparr>
      in andThen (exec q (\<lambda>t. if \<exists>row \<in> set (t_eval_runs t). sql_eq q (er_ID row) (er_ID r) then Inl DuplicateKey
                              else Inr ((), t\<lparr>t_eval_runs := t_eval_runs t @ [r\<lparr> er_StartedAt := None, er_FinishedAt := None \<rparr>]\<rparr>)))
           (\<lambda>_. give r))"

definition GetEvalRun :: "sql \<Rightarrow> string \<Rightarrow> (eval_tables, eval_run) dbm" where
  "GetEvalRun q i = query q (\<lambda>t. firstRow (\<lambda>r. sql_eq q (er_ID r) i) (t_eval_runs t))"

fun eval_status_string :: "eval_status \<Rightarrow> string" where
  "eval_status_string EvalRunPending = ''pending''"
| "eval_status_string EvalRunRunning = ''running''"
| "eval_status_string EvalRunCompleted = ''completed''"
| "eval_status_string EvalRunFailed = ''failed''"

text \<open>\<open>LIMIT\<close> and \<open>OFFSET\<close> are appended when positive; MySQL rejects an \<open>OFFSET\<close> without \<open>LIMIT\<close>.\<close>

definition ListEvalRuns :: "sql \<Rightarrow> eval_run_filter \<Rightarrow> (eval_tables, eval_run list) dbm" where
  "ListEvalRuns q f =
     query q (\<lambda>t.
       (let rows = sort_key (\<lambda>r. - er_CreatedAt r)
              (filter (\<lambda>r. sql_eq q (er_SuiteID r) (ef_SuiteID f) \<and> (ef_Status f = [] \<or> sql_eq q (eval_status_string (er_Status r)) (ef_Status f))) (t_eval_runs t))
        in if ef_Offset f > 0 \<and> \<not> ef_Limit f > 0 then Inl SqlFault
           else Inr ((if ef_Limit f > 0 then take (nat (ef_Limit f)) else id) (drop (nat (ef_Offset f)) rows))))"

definition updateEvalRuns :: "sql \<Rightarrow> string \<Rightarrow> (eval_run \<Rightarrow> eval_run) \<Rightarrow> eval_tables \<Rightarrow> store_error + nat \<times> eval_tables" where
  "updateEvalRuns q i f t =
     Inr (length (filter (\<lambda>r. sql_eq q (er_ID r) i) (t_eval_runs t)),
          t\<lparr>t_eval_runs := map (\<lambda>r. if sql_eq q (er_ID r) i then f r else r) (t_eval_runs t)\<rparr>)"

definition UpdateEvalRunStatus :: "sql \<Rightarrow> int \<Rightarrow> string \<Rightarrow> eval_status \<Rightarrow> eval_counts \<Rightarrow> (eval_tables, unit) dbm" where
  "UpdateEvalRunStatus q now runID status counts =
     andThen (exec q (updateEvalRuns q runID
         (\<lambda>r. if status = EvalRunRunning
              then r\<lparr> er_Status := status, er_StartedAt := (case er_StartedAt r of None \<Rightarrow> Some now | Some t \<Rightarrow> Some t) \<rparr>
              else r\<lparr> er_Status := status, er_Counts := counts, er_FinishedAt := Some now \<rparr>)))
       (\<lambda>n. if n = 0 then fail ErrNotFound else give ())"

definition IncrementEvalRunCounts :: "sql \<Rightarrow> string \<Rightarrow> eval_counts \<Rightarrow> (eval_tables, unit) dbm" where
  "IncrementEvalRunCounts q runID delta =
     andThen (exec q (updateEvalRuns q runID
         (\<lambda>r. r\<lparr> er_Counts := \<lparr> ec_Passed = ec_Passed (er_Counts r) + ec_Passed delta, ec_Failed = ec_Failed (er_Counts r) + ec_Failed delta,
                               ec_Error = ec_Error (er_Counts r) + ec_Error delta \<rparr> \<rparr>)))
       (\<lambda>n. if n = 0 then fail ErrNotFound else give ())"

section \<open>Test case results\<close>

text \<open>Besides the primary key the table has a unique key on the run and the test case.\<close>

definition CreateTestCaseResult :: "sql \<Rightarrow> eval_json \<Rightarrow> string \<Rightarrow> int \<Rightarrow> test_case_result \<Rightarrow> (eval_tables, test_case_result) dbm" where
  "CreateTestCaseResult q J uuid now r0 =
     (let r = r0\<lparr> tr_ID := (if tr_ID r0 = [] then uuid else tr_ID r0), tr_CreatedAt := now \<rparr>
      in case enc_outputs J (tr_NodeOutputs r) of
           None \<Rightarrow> fail MarshalFault
         | Some outs \<Rightarrow>
             (case enc_results J (tr_GraderResults r) of
                None \<Rightarrow> fail MarshalFault
              | Some grs \<Rightarrow>
                  andThen (exec q (\<lambda>t. if \<exists>row \<in> set (t_results t). sql_eq q (dx_ID row) (tr_ID r) \<or>
                          sql_eq q (dx_EvalRunID row) (tr_EvalRunID r) \<and> sql_eq q (dx_TestCaseID row) (tr_TestCaseID r) then Inl DuplicateKey
                     else Inr ((), t\<lparr>t_results := t_results t @ [\<lparr> dx_ID = tr_ID r, dx_EvalRunID = tr_EvalRunID r, dx_TestCaseID = tr_TestCaseID r,
                       dx_TestCaseName = tr_TestCaseName r, dx_WorkflowRunID = tr_WorkflowRunID r, dx_WorkflowRunStatus = tr_WorkflowRunStatus r,
                       dx_NodeOutputs = outs, dx_GraderResults = grs, dx_Passed = tr_Passed r, dx_CreatedAt = tr_CreatedAt r \<rparr>]\<rparr>)))
                    (\<lambda>_. give r)))"

definition GetTestCaseResult :: "sql \<Rightarrow> eval_json \<Rightarrow> string \<Rightarrow> (eval_tables, test_case_result) dbm" where
  "GetTestCaseResult q J i =
     andThen (query q (\<lambda>t. firstRow (\<lambda>row. sql_eq q (dx_ID row) i) (t_results t))) (\<lambda>row. decoded (rowToTestCaseResult q J row))"

definition ListTestCaseResults :: "sql \<Rightarrow> eval_json \<Rightarrow> string \<Rightarrow> (eval_tables, test_case_result list) dbm" where
  "ListTestCaseResults q J evalRunID =
     query q (\<lambda>t. readRows (rowToTestCaseResult q J)
       (sort_key dx_CreatedAt (filter (\<lambda>x. sql_eq q (dx_EvalRunID x) evalRunID) (t_results t))))"

end
