(* ===== verification/Eval_Runner.thy ===== *)
theory Eval_Runner
  imports Eval_Store Engine
begin

text \<open>
  The eval runner (\<open>internal/eval/runner.go\<close>): \<open>Execute\<close> records an eval run, \<open>executeTestCase\<close>
  runs the workflow for one test case and grades it, and \<open>runAsync\<close> runs all test cases with
  a semaphore of \<open>max_concurrency\<close> slots, stores the results, and closes the run. The workflow engine
  is the interface \<open>engineRunner\<close>: for the \<open>n\<close>-th test case it refuses to start, or yields a run id
  and the events that arrive until the channel is closed; \<open>ep_GetRun\<close> is the run record read after
  that. \<open>runAsync\<close> is a set of goroutines whose steps interleave: \<open>mainStep\<close> is the main one,
  \<open>taskStep\<close> one per test case.
\<close>

record 's eval_ports =
  ep_sql :: sql
  ep_json :: eval_json
  ep_now :: int
  ep_uuid :: "nat \<Rightarrow> string"
  ep_Run :: "nat \<Rightarrow> run_request \<Rightarrow> string + string \<times> node_event list"
  ep_GetRun :: "nat \<Rightarrow> string \<Rightarrow> string + run"
  ep_LatestVersion :: "string \<Rightarrow> store_error + int option"
  ep_cipher :: cipher
  ep_graders :: "'s grader_libs"
  ep_llmFactory :: llm_factory
  ep_registry :: "grader_registry option"

section \<open>Starting an eval run\<close>

datatype eval_exec_error = ExecGetSuite store_error | ExecWorkflowDeleted | ExecListCases store_error | ExecDecrypt string crypto_error | ExecCreateRun store_error

record eval_job =
  ej_evalRunID :: string
  ej_suite :: eval_suite
  ej_testCases :: "test_case list"
  ej_version :: "int option"

fun decryptCases :: "cipher \<Rightarrow> test_case list \<Rightarrow> (string \<times> crypto_error) + test_case list" where
  "decryptCases c [] = Inr []"
| "decryptCases c (tc # tcs) =
     (case DecryptGraders c (tc_Graders tc) of
        Inl e \<Rightarrow> Inl (tc_ID tc, e)
      | Inr dec \<Rightarrow> (case decryptCases c tcs of Inl e \<Rightarrow> Inl e | Inr tcs' \<Rightarrow> Inr (tc\<lparr>tc_Graders := dec\<rparr> # tcs')))"

definition newEvalRun :: "'s eval_ports \<Rightarrow> string \<Rightarrow> string \<Rightarrow> nat \<Rightarrow> int option \<Rightarrow> eval_run" where
  "newEvalRun P suiteID triggeredBy totalCases version =
     \<lparr> er_ID = ep_uuid P 0, er_SuiteID = suiteID, er_TriggeredBy = (if triggeredBy = [] then ''manual'' else triggeredBy),
       er_Status = EvalRunPending, er_TotalCases = totalCases, er_Counts = \<lparr> ec_Passed = 0, ec_Failed = 0, ec_Error = 0 \<rparr>,
       er_WorkflowVersionNumber = version, er_StartedAt = None, er_FinishedAt = None, er_CreatedAt = 0 \<rparr>"

definition Execute :: "'s eval_ports \<Rightarrow> string \<Rightarrow> string \<Rightarrow> string \<Rightarrow> eval_tables db \<Rightarrow> (eval_exec_error + eval_job) \<times> eval_tables db" where
  "Execute P org suiteID triggeredBy d =
     (case GetEvalSuite (ep_sql P) (ep_json P) org suiteID d of
        (Inl e, d1) \<Rightarrow> (Inl (ExecGetSuite e), d1)
      | (Inr suite, d1) \<Rightarrow>
          (if es_WorkflowDeleted suite then (Inl ExecWorkflowDeleted, d1)
           else
     (case ListTestCases (ep_sql P) (ep_json P) suiteID d1 of
        (Inl e, d2) \<Rightarrow> (Inl (ExecListCases e), d2)
      | (Inr testCases, d2) \<Rightarrow>
     (case decryptCases (ep_cipher P) testCases of
        Inl (i, e) \<Rightarrow> (Inl (ExecDecrypt i e), d2)
      | Inr testCases' \<Rightarrow>
          (let version = (case ep_LatestVersion P (es_WorkflowID suite) of Inl _ \<Rightarrow> None | Inr vn \<Rightarrow> vn)
           in case CreateEvalRun (ep_sql P) [] (ep_now P) (newEvalRun P suiteID triggeredBy (length testCases') version) d2 of
                (Inl e, d3) \<Rightarrow> (Inl (ExecCreateRun e), d3)
              | (Inr r, d3) \<Rightarrow> (Inr \<lparr> ej_evalRunID = er_ID r, ej_suite = suite, ej_testCases = testCases', ej_version = version \<rparr>, d3))))))"

section \<open>One test case\<close>

definition errorGraderResults :: "grader_def list \<Rightarrow> string \<Rightarrow> grader_result list" where
  "errorGraderResults graders expl =
     map (\<lambda>g. (baseResult (gd_Type g) VerdictError expl)\<lparr> grr_GraderID := gd_ID g, grr_GraderName := gd_Name g \<rparr>) graders"

definition nodeMocksOf :: "test_case \<Rightarrow> (string \<times> gomap) list" where
  "nodeMocksOf tc = fold (\<lambda>mk acc. AList.update (nm_NodeID mk) (nm_Output mk) acc) (tc_Mocks tc) []"

definition captureNodes :: "test_case \<Rightarrow> string list" where
  "captureNodes tc = map gd_NodeID (filter (\<lambda>g. gd_Scope g = ''node'' \<and> gd_NodeID g \<noteq> []) (tc_Graders tc))"

definition drainEvents :: "string list \<Rightarrow> node_event list \<Rightarrow> (string \<times> gomap) list" where
  "drainEvents captured events =
     fold (\<lambda>ev outs. if ev_Type ev = EventNodeSucceeded \<and> ev_NodeID ev \<in> set captured
                     then AList.update (ev_NodeID ev) (cfg_entries (ev_Output ev)) outs else outs) events []"

definition identify :: "grader_def \<Rightarrow> grader_result \<Rightarrow> grader_result" where
  "identify g r = r\<lparr> grr_GraderID := gd_ID g, grr_GraderName := gd_Name g, grr_GraderType := gd_Type g \<rparr>"

text \<open>One turn of the loop over the graders: an error verdict written by the runner, or the grader's own result.\<close>

definition gradeOne :: "'s eval_ports \<Rightarrow> bool \<Rightarrow> gomap option \<Rightarrow> (string \<times> gomap) list \<Rightarrow> grader_def \<Rightarrow> grader_result" where
  "gradeOne P runFailed finalOutput nodeOutputs g =
     (let refuse = (\<lambda>expl. identify g (baseResult (gd_Type g) VerdictError expl));
          grade = (\<lambda>data. case BuildGrader (ep_graders P) g (ep_llmFactory P) (ep_registry P) of
                            Inl e \<Rightarrow> refuse (''grader not available: '' @ e)
                          | Inr gr \<Rightarrow> identify g (Grade (ep_graders P) gr data))
      in if gd_Scope g = ''node'' then
           (case map_of nodeOutputs (gd_NodeID g) of
              Some nodeOut \<Rightarrow> grade (Some nodeOut)
            | None \<Rightarrow> refuse (if runFailed then ''node did not execute (workflow run failed)'' else ''node did not execute''))
         else if runFailed then refuse ''workflow run failed''
         else grade finalOutput)"

text \<open>\<open>isErr\<close> and \<open>passed\<close>: error verdicts leave the denominator of the pass rate.\<close>

definition classify :: "bool \<Rightarrow> rat \<Rightarrow> grader_result list \<Rightarrow> bool \<times> bool" where
  "classify runFailed threshold results =
     (let passCount = length (filter (\<lambda>r. grr_Verdict r = VerdictPass) results);
          errorGraderCount = length (filter (\<lambda>r. grr_Verdict r = VerdictError) results);
          evaluableCount = length results - errorGraderCount;
          isErr = (runFailed \<or> (results \<noteq> [] \<and> evaluableCount = 0))
      in (if isErr then False
          else if results = [] then True
          else float64_div passCount evaluableCount \<ge> threshold,
          isErr))"

definition caseResult :: "'s eval_ports \<Rightarrow> nat \<Rightarrow> string \<Rightarrow> test_case \<Rightarrow> string \<Rightarrow> string \<Rightarrow> (string \<times> gomap) list \<Rightarrow> grader_result list \<Rightarrow> bool \<Rightarrow> test_case_result" where
  "caseResult P n evalRunID tc runID status outs grs passed =
     \<lparr> tr_ID = ep_uuid P (Suc n), tr_EvalRunID = evalRunID, tr_TestCaseID = tc_ID tc, tr_TestCaseName = tc_Name tc, tr_WorkflowRunID = runID,
       tr_WorkflowRunStatus = status, tr_NodeOutputs = outs, tr_GraderResults = grs, tr_Passed = passed, tr_CreatedAt = ep_now P \<rparr>"

definition executeTestCase :: "'s eval_ports \<Rightarrow> string \<Rightarrow> eval_suite \<Rightarrow> int option \<Rightarrow> nat \<Rightarrow> test_case \<Rightarrow> test_case_result \<times> bool \<times> bool" where
  "executeTestCase P evalRunID suite version n tc =
     (let req = \<lparr> rq_WorkflowID = es_WorkflowID suite, rq_InitialData = tc_InitialData tc, rq_TriggeredBy = ''eval'',
                  rq_NodeMocks = nodeMocksOf tc, rq_WorkflowVersionNumber = version \<rparr>
      in case ep_Run P n req of
           Inl e \<Rightarrow>
             (caseResult P n evalRunID tc [] (status_string RunStatusFailed) []
                (errorGraderResults (tc_Graders tc) (''workflow run could not start: '' @ e)) False, False, True)
         | Inr (runID, events) \<Rightarrow>
             (let nodeOutputs = drainEvents (captureNodes tc) events
              in case ep_GetRun P n runID of
                   Inl e \<Rightarrow>
                     (caseResult P n evalRunID tc runID (status_string RunStatusFailed) nodeOutputs
                        (errorGraderResults (tc_Graders tc) (''could not fetch workflow run status: '' @ e)) False, False, True)
                 | Inr wfRun \<Rightarrow>
                     (let runFailed = (run_Status wfRun = RunStatusFailed);
                          graderResults = map (gradeOne P runFailed (run_FinalOutput wfRun) nodeOutputs) (tc_Graders tc)
                      in case classify runFailed (es_PassThreshold suite) graderResults of
                           (passed, isErr) \<Rightarrow>
                             (caseResult P n evalRunID tc runID (status_string (run_Status wfRun)) nodeOutputs graderResults passed, passed, isErr))))"

section \<open>All test cases\<close>

record result_event = eval_event +
  ee_Result :: "test_case_result option"

datatype task_pc = TaskStarting | TaskExecuting | TaskPersisting test_case_result | TaskPublishing test_case_result | TaskReleasing | TaskFinishing

datatype main_pc = MainStart | MainSpawn nat | MainWait | MainTerminal bool | MainDone

record eval_state =
  v_db :: "eval_tables db"
  v_pc :: main_pc
  v_tasks :: "(nat \<times> task_pc) list"
  v_outcomes :: "(bool \<times> bool) list"
  v_events :: "result_event list"

definition concurrencyOf :: "eval_suite \<Rightarrow> nat" where
  "concurrencyOf suite = (if es_MaxConcurrency suite \<le> 0 then 1 else nat (es_MaxConcurrency suite))"

text \<open>A slot of the semaphore is held from the spawn until the release.\<close>

definition slotsHeld :: "eval_state \<Rightarrow> nat" where
  "slotsHeld s = length (filter (\<lambda>(i, pc). pc \<noteq> TaskFinishing) (v_tasks s))"

definition tally :: "(bool \<times> bool) list \<Rightarrow> eval_counts" where
  "tally outcomes =
     \<lparr> ec_Passed = length (filter (\<lambda>(passed, isErr). \<not> isErr \<and> passed) outcomes),
       ec_Failed = length (filter (\<lambda>(passed, isErr). \<not> isErr \<and> \<not> passed) outcomes),
       ec_Error = length (filter (\<lambda>(passed, isErr). isErr) outcomes) \<rparr>"

definition caseEvent :: "string \<Rightarrow> eval_event_type \<Rightarrow> string \<Rightarrow> test_case_result option \<Rightarrow> result_event" where
  "caseEvent evalRunID t name res = \<lparr> ee_EvalRunID = evalRunID, ee_Type = t, ee_TestCaseName = name, ee_Summary = None, ee_Result = res \<rparr>"

definition evalTerminalEvent :: "eval_job \<Rightarrow> bool \<Rightarrow> (bool \<times> bool) list \<Rightarrow> result_event" where
  "evalTerminalEvent j ok outcomes =
     \<lparr> ee_EvalRunID = ej_evalRunID j, ee_Type = (if ok then EvalEventRunCompleted else EvalEventRunFailed), ee_TestCaseName = [],
       ee_Summary = Some \<lparr> ers_TotalCases = int (length (ej_testCases j)), ers_PassedCount = int (ec_Passed (tally outcomes)),
                          ers_FailedCount = int (ec_Failed (tally outcomes)), ers_ErrorCount = int (ec_Error (tally outcomes)) \<rparr>,
       ee_Result = None \<rparr>"

definition noCounts :: eval_counts where
  "noCounts = \<lparr> ec_Passed = 0, ec_Failed = 0, ec_Error = 0 \<rparr>"

definition mainStep :: "'s eval_ports \<Rightarrow> eval_job \<Rightarrow> eval_state \<Rightarrow> eval_state option" where
  "mainStep P j s =
     (case v_pc s of
        MainStart \<Rightarrow>
          Some (s\<lparr> v_db := snd (UpdateEvalRunStatus (ep_sql P) (ep_now P) (ej_evalRunID j) EvalRunRunning noCounts (v_db s)), v_pc := MainSpawn 0 \<rparr>)
      | MainSpawn i \<Rightarrow>
          (if i < length (ej_testCases j) then
             (if slotsHeld s < concurrencyOf (ej_suite j)
              then Some (s\<lparr> v_tasks := v_tasks s @ [(i, TaskStarting)], v_pc := MainSpawn (Suc i) \<rparr>) else None)
           else Some (s\<lparr>v_pc := MainWait\<rparr>))
      | MainWait \<Rightarrow>
          (if v_tasks s \<noteq> [] then None
           else case UpdateEvalRunStatus (ep_sql P) (ep_now P) (ej_evalRunID j) EvalRunCompleted (tally (v_outcomes s)) (v_db s) of
                  (res, db') \<Rightarrow> Some (s\<lparr> v_db := db', v_pc := MainTerminal (\<not> isl res) \<rparr>))
      | MainTerminal ok \<Rightarrow> Some (s\<lparr> v_events := v_events s @ [evalTerminalEvent j ok (v_outcomes s)], v_pc := MainDone \<rparr>)
      | MainDone \<Rightarrow> None)"

definition taskStep :: "'s eval_ports \<Rightarrow> eval_job \<Rightarrow> nat \<Rightarrow> eval_state \<Rightarrow> eval_state" where
  "taskStep P j k s =
     (let i = fst (v_tasks s ! k); tc = ej_testCases j ! i; goto = (\<lambda>pc s. s\<lparr>v_tasks := (v_tasks s)[k := (i, pc)]\<rparr>)
      in case snd (v_tasks s ! k) of
           TaskStarting \<Rightarrow>
             goto TaskExecuting (s\<lparr>v_events := v_events s @ [caseEvent (ej_evalRunID j) EvalEventTestCaseStarted (tc_Name tc) None]\<rparr>)
         | TaskExecuting \<Rightarrow>
             (case executeTestCase P (ej_evalRunID j) (ej_suite j) (ej_version j) i tc of
                (result, verdicts) \<Rightarrow> goto (TaskPersisting result) (s\<lparr>v_outcomes := (v_outcomes s)[i := verdicts]\<rparr>))
         | TaskPersisting result \<Rightarrow>
             (case CreateTestCaseResult (ep_sql P) (ep_json P) [] (ep_now P) result (v_db s) of
                (Inl e, db') \<Rightarrow> goto TaskReleasing (s\<lparr>v_db := db'\<rparr>)
              | (Inr stored, db') \<Rightarrow> goto (TaskPublishing stored) (s\<lparr>v_db := db'\<rparr>))
         | TaskPublishing stored \<Rightarrow>
             goto TaskReleasing (s\<lparr>v_events := v_events s @ [caseEvent (ej_evalRunID j) EvalEventTestCaseCompleted (tc_Name tc) (Some stored)]\<rparr>)
         | TaskReleasing \<Rightarrow> goto TaskFinishing s
         | TaskFinishing \<Rightarrow> s\<lparr>v_tasks := take k (v_tasks s) @ drop (Suc k) (v_tasks s)\<rparr>)"

definition startEval :: "eval_job \<Rightarrow> eval_tables db \<Rightarrow> eval_state" where
  "startEval j d = \<lparr> v_db = d, v_pc = MainStart, v_tasks = [], v_outcomes = replicate (length (ej_testCases j)) (False, False), v_events = [] \<rparr>"

inductive evstep :: "'s eval_ports \<Rightarrow> eval_job \<Rightarrow> eval_state \<Rightarrow> eval_state \<Rightarrow> bool" for P j where
  main: "mainStep P j s = Some s' \<Longrightarrow> evstep P j s s'"
| task: "k < length (v_tasks s) \<Longrightarrow> s' = taskStep P j k s \<Longrightarrow> evstep P j s s'"

inductive evreach :: "'s eval_ports \<Rightarrow> eval_job \<Rightarrow> eval_tables db \<Rightarrow> eval_state \<Rightarrow> bool" for P j d where
  start: "evreach P j d (startEval j d)"
| move: "evreach P j d s \<Longrightarrow> evstep P j s s' \<Longrightarrow> evreach P j d s'"

end
