(* ===== verification/Eval_Props.thy ===== *)
theory Eval_Props
  imports Eval_Runner
begin

text \<open>
  Correctness of eval runs: how one test case is classified, and what holds of a whole run whatever the
  interleaving of its goroutines and whatever the database does.
\<close>

section \<open>Classifying a test case\<close>

lemma verdict_counts:
  "length (filter (\<lambda>r. grr_Verdict r = VerdictPass) rs) + length (filter (\<lambda>r. grr_Verdict r = VerdictFail) rs) =
   length rs - length (filter (\<lambda>r. grr_Verdict r = VerdictError) rs)"
proof -
  have "length (filter (\<lambda>r. grr_Verdict r = VerdictPass) rs) + length (filter (\<lambda>r. grr_Verdict r = VerdictFail) rs) +
    length (filter (\<lambda>r. grr_Verdict r = VerdictError) rs) = length rs"
  proof (induction rs)
    case (Cons r rs)
    then show ?case by (cases "grr_Verdict r") simp_all
  qed simp
  then show ?thesis by linarith
qed

abbreviation passes :: "grader_result list \<Rightarrow> nat" where
  "passes rs \<equiv> length (filter (\<lambda>r. grr_Verdict r = VerdictPass) rs)"

abbreviation fails :: "grader_result list \<Rightarrow> nat" where
  "fails rs \<equiv> length (filter (\<lambda>r. grr_Verdict r = VerdictFail) rs)"

lemma classify_alt:
  "classify runFailed t rs =
     (\<not> runFailed \<and> (rs = [] \<or> passes rs + fails rs \<noteq> 0 \<and> t \<le> float64_div (passes rs) (passes rs + fails rs)),
      runFailed \<or> (rs \<noteq> [] \<and> passes rs + fails rs = 0))"
  using verdict_counts [of rs] by (auto simp: classify_def Let_def)

text \<open>
  How a test case is classified. It is an error exactly when the workflow run failed or
  there are graders and all of them erred; it never passes then. Without graders it passes. Otherwise
  the share of passes among the graders that gave a verdict decides: it passes when the
  share reaches the threshold, fails when it is below by more than \<open>2 ^ (-53)\<close>, and adding
  graders that err changes nothing as long as one gave a verdict.
\<close>

theorem test_case_classification:
  assumes "0 < t" "t \<le> 1" "fl64 t = t"
  shows "snd (classify runFailed t rs) = (runFailed \<or> (rs \<noteq> [] \<and> list_all (\<lambda>r. grr_Verdict r = VerdictError) rs)) \<and>
    (snd (classify runFailed t rs) \<longrightarrow> \<not> fst (classify runFailed t rs)) \<and>
    (\<not> runFailed \<and> rs = [] \<longrightarrow> fst (classify runFailed t rs)) \<and>
    (\<not> snd (classify runFailed t rs) \<and> rs \<noteq> [] \<longrightarrow>
       (t \<le> of_nat (passes rs) / of_nat (passes rs + fails rs) \<longrightarrow> fst (classify runFailed t rs)) \<and>
       (of_nat (passes rs) / of_nat (passes rs + fails rs) < t - 1 / 2 ^ 53 \<longrightarrow> \<not> fst (classify runFailed t rs)) \<and>
       (\<forall>es. list_all (\<lambda>r. grr_Verdict r = VerdictError) es \<longrightarrow> classify runFailed t (rs @ es) = classify runFailed t rs))"
proof -
  have none: "passes rs + fails rs = 0 \<longleftrightarrow> list_all (\<lambda>r. grr_Verdict r = VerdictError) rs" for rs
    unfolding add_is_0 length_0_conv filter_empty_conv list_all_iff by (metis verdict.exhaust verdict.distinct(3,5))
  have app: "classify runFailed t (rs @ es) = classify runFailed t rs"
    if "list_all (\<lambda>r. grr_Verdict r = VerdictError) es" "rs \<noteq> []" for es
    using that none [of es] by (simp add: classify_alt)
  have t: "t \<le> of_nat (passes rs) / of_nat (passes rs + fails rs) \<Longrightarrow> t \<le> float64_div (passes rs) (passes rs + fails rs)"
    "t \<le> float64_div (passes rs) (passes rs + fails rs) \<Longrightarrow> t - 1 / 2 ^ 53 \<le> of_nat (passes rs) / of_nat (passes rs + fails rs)"
    if "passes rs + fails rs \<noteq> 0"
    using float64_div_threshold [of "passes rs" "passes rs + fails rs" t] assms that by auto
  have e: "snd (classify runFailed t rs) = (runFailed \<or> (rs \<noteq> [] \<and> list_all (\<lambda>r. grr_Verdict r = VerdictError) rs))"
    by (simp only: classify_alt snd_conv none)
  moreover have "\<not> fst (classify runFailed t rs)" if "snd (classify runFailed t rs)"
    using that by (auto simp: classify_alt)
  moreover have "fst (classify runFailed t rs)" if "\<not> runFailed" "rs = []" using that by (simp add: classify_alt)
  moreover have "(t \<le> of_nat (passes rs) / of_nat (passes rs + fails rs) \<longrightarrow> fst (classify runFailed t rs)) \<and>
      (of_nat (passes rs) / of_nat (passes rs + fails rs) < t - 1 / 2 ^ 53 \<longrightarrow> \<not> fst (classify runFailed t rs))"
    if "\<not> snd (classify runFailed t rs)" "rs \<noteq> []"
  proof -
    from that have "passes rs + fails rs \<noteq> 0" "\<not> runFailed" by (auto simp: classify_alt)
    with t that(2) show ?thesis unfolding classify_alt fst_conv by (meson not_le)
  qed
  ultimately show ?thesis using app by blast
qed

theorem test_case_classification_witness:
  "classify False 1 [baseResult ''string_match'' VerdictPass []] = (True, False)"
proof -
  let ?rs = "[baseResult ''string_match'' VerdictPass []]"
  have one: "0 < (1 :: rat)" "(1 :: rat) \<le> 1" "fl64 1 = 1" by simp_all
  have rs: "\<not> list_all (\<lambda>r. grr_Verdict r = VerdictError) ?rs" "(1 :: rat) \<le> of_nat (passes ?rs) / of_nat (passes ?rs + fails ?rs)" "?rs \<noteq> []"
    by (simp_all add: baseResult_def)
  note T = test_case_classification [OF one, of False ?rs]
  from T rs(1) have e: "\<not> snd (classify False 1 ?rs)" by blast
  with T rs(2,3) have "fst (classify False 1 ?rs)" by blast
  with e show ?thesis by (simp add: prod_eq_iff)
qed

text \<open>
  Only a stored status \<open>failed\<close> counts as a failure: when the engine could not store the final status,
  the record still says \<open>running\<close>, and a test case without graders passes.
\<close>

lemma unfinished_run_passes:
  assumes "\<And>req. ep_Run P n req = Inr (runID, events)" "ep_GetRun P n runID = Inr wfRun" "run_Status wfRun = RunStatusRunning" "tc_Graders tc = []"
  shows "snd (executeTestCase P evalRunID suite version n tc) = (True, False)"
  using assms by (simp add: executeTestCase_def Let_def classify_def)

section \<open>The invariant of an eval run\<close>

fun spawned :: "eval_job \<Rightarrow> main_pc \<Rightarrow> nat" where
  "spawned j MainStart = 0"
| "spawned j (MainSpawn i) = i"
| "spawned j _ = length (ej_testCases j)"

definition caseOutcome :: "'s eval_ports \<Rightarrow> eval_job \<Rightarrow> nat \<Rightarrow> bool \<times> bool" where
  "caseOutcome P j i = snd (executeTestCase P (ej_evalRunID j) (ej_suite j) (ej_version j) i (ej_testCases j ! i))"

fun beforeExecution :: "task_pc \<Rightarrow> bool" where
  "beforeExecution TaskStarting = True"
| "beforeExecution TaskExecuting = True"
| "beforeExecution _ = False"

definition stored :: "eval_state \<Rightarrow> test_case_result \<Rightarrow> bool" where
  "stored s r \<longleftrightarrow> tr_ID r \<in> dx_ID ` set (t_results (tables (v_db s)))"

definition ev_inv :: "'s eval_ports \<Rightarrow> eval_job \<Rightarrow> eval_state \<Rightarrow> bool" where
  "ev_inv P j s \<longleftrightarrow>
     length (v_outcomes s) = length (ej_testCases j) \<and> spawned j (v_pc s) \<le> length (ej_testCases j) \<and>
     distinct (map fst (v_tasks s)) \<and> fst ` set (v_tasks s) \<subseteq> {..<spawned j (v_pc s)} \<and>
     slotsHeld s \<le> concurrencyOf (ej_suite j) \<and>
     (\<forall>i < spawned j (v_pc s). v_outcomes s ! i = caseOutcome P j i \<or> (\<exists>pc. (i, pc) \<in> set (v_tasks s) \<and> beforeExecution pc)) \<and>
     (v_pc s = MainDone \<or> (\<exists>ok. v_pc s = MainTerminal ok) \<longrightarrow> v_tasks s = []) \<and>
     (\<forall>i r. (i, TaskPublishing r) \<in> set (v_tasks s) \<longrightarrow> stored s r) \<and>
     (\<forall>e r. e \<in> set (v_events s) \<and> ee_Result e = Some r \<longrightarrow> stored s r)"

lemma concurrency_pos: "0 < concurrencyOf suite"
  by (simp add: concurrencyOf_def)

lemma exec_results_kept:
  assumes "\<And>t n t'. f t = Inr (n, t') \<Longrightarrow> t_results t' = t_results t"
  shows "t_results (tables (snd (exec q f d))) = t_results (tables d)"
  using assms by (auto simp: exec_def split: sql_outcome.splits sum.splits prod.splits)

lemma UpdateEvalRunStatus_results: "t_results (tables (snd (UpdateEvalRunStatus q now i st c d))) = t_results (tables d)"
proof -
  let ?f = "updateEvalRuns q i (\<lambda>r. if st = EvalRunRunning
      then r\<lparr> er_Status := st, er_StartedAt := (case er_StartedAt r of None \<Rightarrow> Some now | Some t \<Rightarrow> Some t) \<rparr>
      else r\<lparr> er_Status := st, er_Counts := c, er_FinishedAt := Some now \<rparr>)"
  have "t_results (tables (snd (exec q ?f d))) = t_results (tables d)"
    by (rule exec_results_kept) (auto simp: updateEvalRuns_def)
  then show ?thesis by (auto simp: UpdateEvalRunStatus_def andThen_def db_simps split: prod.splits sum.splits if_splits)
qed

lemma CreateTestCaseResult_results:
  assumes "CreateTestCaseResult q J u now r d = (res, d')"
  shows "dx_ID ` set (t_results (tables d)) \<subseteq> dx_ID ` set (t_results (tables d'))"
    and "res = Inr stored' \<Longrightarrow> tr_ID stored' \<in> dx_ID ` set (t_results (tables d'))"
  using assms
  by (auto simp: CreateTestCaseResult_def Let_def andThen_def exec_def db_simps
      split: option.splits sql_outcome.splits sum.splits prod.splits if_splits)

lemma stored_mono: "dx_ID ` set (t_results (tables (v_db s))) \<subseteq> dx_ID ` set (t_results (tables (v_db s'))) \<Longrightarrow> stored s r \<Longrightarrow> stored s' r"
  by (auto simp: stored_def)

lemma filter_update_length:
  assumes "k < length xs" "Q y \<longrightarrow> Q (xs ! k)"
  shows "length (filter Q (xs[k := y])) \<le> length (filter Q xs)"
proof -
  have "length (filter Q xs) = length (filter Q (take k xs @ xs ! k # drop (Suc k) xs))" using assms(1) by (simp add: id_take_nth_drop [symmetric])
  then show ?thesis using assms by (simp add: upd_conv_take_nth_drop)
qed

lemma ev_inv_start: "ev_inv P j (startEval j d)"
  by (simp add: ev_inv_def startEval_def slotsHeld_def)

text \<open>A step of one task: its program counter moves on, the database only grows.\<close>

lemma ev_inv_goto:
  assumes inv: "ev_inv P j s" and k: "k < length (v_tasks s)" "v_tasks s ! k = (i, pc0)"
    and s': "v_tasks s' = (v_tasks s)[k := (i, pc)]" "v_pc s' = v_pc s"
    and out: "v_outcomes s' = (v_outcomes s)[i := caseOutcome P j i] \<or> v_outcomes s' = v_outcomes s \<and> (beforeExecution pc \<or> \<not> beforeExecution pc0)"
    and slot: "pc \<noteq> TaskFinishing \<longrightarrow> pc0 \<noteq> TaskFinishing"
    and grow: "\<And>r. stored s r \<Longrightarrow> stored s' r"
    and pub: "\<And>r. pc = TaskPublishing r \<Longrightarrow> stored s' r"
    and evs: "\<And>e r. e \<in> set (v_events s') \<Longrightarrow> ee_Result e = Some r \<Longrightarrow> e \<in> set (v_events s) \<or> stored s' r"
  shows "ev_inv P j s'"
proof -
  have ne: "v_tasks s \<noteq> []" using k(1) by auto
  have fst': "map fst (v_tasks s') = map fst (v_tasks s)"
    using k unfolding s'(1) by (metis fst_conv list_update_id map_update)
  then have fsts: "fst ` set (v_tasks s') = fst ` set (v_tasks s)" by (metis list.set_map)
  have "(i, pc0) \<in> set (v_tasks s)" using k by (metis nth_mem)
  then have "i \<in> fst ` set (v_tasks s)" by force
  moreover have "fst ` set (v_tasks s) \<subseteq> {..<spawned j (v_pc s)}" "spawned j (v_pc s) \<le> length (v_outcomes s)" using inv by (simp_all add: ev_inv_def)
  ultimately have i: "i < length (v_outcomes s)" by (meson lessThan_iff less_le_trans subsetD)
  have sub: "set (v_tasks s') \<subseteq> insert (i, pc) (set (v_tasks s))" unfolding s'(1) by (rule set_update_subset_insert)
  have uniq: "x = (i, pc0)" if "x \<in> set (v_tasks s)" "fst x = i" for x
  proof -
    have "distinct (map fst (v_tasks s))" "(i, pc0) \<in> set (v_tasks s)" using inv k nth_mem [OF k(1)] by (auto simp: ev_inv_def)
    with that show ?thesis by (metis eq_key_imp_eq_value prod.collapse)
  qed
  have mem: "(i, pc) \<in> set (v_tasks s')" using k(1) by (simp add: s'(1) set_update_memI)
  have keep: "x \<in> set (v_tasks s')" if x: "x \<in> set (v_tasks s)" "fst x \<noteq> i" for x
  proof -
    from x obtain l where "l < length (v_tasks s)" "v_tasks s ! l = x" by (meson in_set_conv_nth)
    with x k have "k \<noteq> l" by auto
    with \<open>v_tasks s ! l = x\<close> have "(v_tasks s)[k := (i, pc)] ! l = x" by simp
    then show ?thesis using \<open>l < length (v_tasks s)\<close> unfolding s'(1) by (metis length_list_update nth_mem)
  qed
  have outs: "v_outcomes s' ! l = caseOutcome P j l \<or> (\<exists>pc. (l, pc) \<in> set (v_tasks s') \<and> beforeExecution pc)"
    if l: "l < spawned j (v_pc s)" for l
  proof (cases "l = i")
    case True
    have "v_outcomes s ! i = caseOutcome P j i \<or> (\<exists>pc. (i, pc) \<in> set (v_tasks s) \<and> beforeExecution pc)"
      using inv l unfolding True by (simp add: ev_inv_def)
    then have "v_outcomes s ! i = caseOutcome P j i \<or> beforeExecution pc0" using uniq by fastforce
    with True out i mem show ?thesis by (metis nth_list_update_eq)
  next
    case False
    have "v_outcomes s' ! l = v_outcomes s ! l" using out False by auto
    moreover have "v_outcomes s ! l = caseOutcome P j l \<or> (\<exists>pc. (l, pc) \<in> set (v_tasks s) \<and> beforeExecution pc)"
      using inv l by (simp add: ev_inv_def)
    ultimately show ?thesis using keep False by (metis fst_conv)
  qed
  have slots: "slotsHeld s' \<le> slotsHeld s" unfolding slotsHeld_def s'(1)
    by (rule filter_update_length [OF k(1)]) (use k slot in auto)
  show ?thesis unfolding ev_inv_def s'(2)
  proof (intro conjI)
    show "distinct (map fst (v_tasks s'))" using inv fst' by (simp add: ev_inv_def)
    show "fst ` set (v_tasks s') \<subseteq> {..<spawned j (v_pc s)}" using inv fsts by (simp add: ev_inv_def)
    show "slotsHeld s' \<le> concurrencyOf (ej_suite j)" using inv slots unfolding ev_inv_def by linarith
    show "\<forall>i r. (i, TaskPublishing r) \<in> set (v_tasks s') \<longrightarrow> stored s' r" using inv sub pub grow unfolding ev_inv_def by blast
    show "\<forall>e r. e \<in> set (v_events s') \<and> ee_Result e = Some r \<longrightarrow> stored s' r" using inv evs grow unfolding ev_inv_def by blast
    show "v_pc s = MainDone \<or> (\<exists>ok. v_pc s = MainTerminal ok) \<longrightarrow> v_tasks s' = []" using inv ne by (simp add: ev_inv_def)
  qed (use inv outs out in \<open>auto simp: ev_inv_def\<close>)
qed

lemma ev_inv_main:
  assumes inv: "ev_inv P j s" and st: "mainStep P j s = Some s'"
  shows "ev_inv P j s'"
proof (cases "v_pc s")
  case MainStart
  with st have s': "s' = s\<lparr> v_db := snd (UpdateEvalRunStatus (ep_sql P) (ep_now P) (ej_evalRunID j) EvalRunRunning noCounts (v_db s)), v_pc := MainSpawn 0 \<rparr>"
    by (simp add: mainStep_def)
  have "stored s' r = stored s r" for r by (simp add: s' stored_def UpdateEvalRunStatus_results)
  with inv MainStart show ?thesis by (simp add: ev_inv_def s' slotsHeld_def)
next
  case (MainSpawn i)
  show ?thesis
  proof (cases "i < length (ej_testCases j)")
    case True
    with st MainSpawn have c: "slotsHeld s < concurrencyOf (ej_suite j)"
      and s': "s' = s\<lparr> v_tasks := v_tasks s @ [(i, TaskStarting)], v_pc := MainSpawn (Suc i) \<rparr>"
      by (auto simp: mainStep_def split: if_splits)
    have "stored s' r = stored s r" for r by (simp add: s' stored_def)
    moreover have "\<exists>pc. (l, pc) \<in> set (v_tasks s') \<and> beforeExecution pc"
      if "v_outcomes s ! l \<noteq> caseOutcome P j l" "l < Suc i" for l
    proof (cases "l = i")
      case True
      then show ?thesis by (auto simp: s')
    next
      case False
      with that(2) have "l < i" by simp
      with inv MainSpawn that(1) show ?thesis by (auto simp: ev_inv_def s')
    qed
    moreover have "slotsHeld s' = Suc (slotsHeld s)" by (simp add: s' slotsHeld_def)
    moreover have "i \<notin> fst ` set (v_tasks s)" using inv MainSpawn by (auto simp: ev_inv_def)
    ultimately show ?thesis using inv MainSpawn True c by (auto simp: ev_inv_def s')
  next
    case False
    with st MainSpawn have s': "s' = s\<lparr>v_pc := MainWait\<rparr>" by (simp add: mainStep_def)
    have "stored s' r = stored s r" for r by (simp add: s' stored_def)
    with inv MainSpawn False show ?thesis by (auto simp: ev_inv_def s' slotsHeld_def)
  qed
next
  case MainWait
  let ?u = "UpdateEvalRunStatus (ep_sql P) (ep_now P) (ej_evalRunID j) EvalRunCompleted (tally (v_outcomes s)) (v_db s)"
  from st MainWait have "v_tasks s = []" and s': "s' = s\<lparr> v_db := snd ?u, v_pc := MainTerminal (\<not> isl (fst ?u)) \<rparr>"
    by (auto simp: mainStep_def split: if_splits prod.splits)
  moreover have "stored s' r = stored s r" for r by (simp add: s' stored_def UpdateEvalRunStatus_results)
  ultimately show ?thesis using inv MainWait by (simp add: ev_inv_def slotsHeld_def)
next
  case (MainTerminal ok)
  with st have s': "s' = s\<lparr> v_events := v_events s @ [evalTerminalEvent j ok (v_outcomes s)], v_pc := MainDone \<rparr>" by (simp add: mainStep_def)
  have "stored s' r = stored s r" for r by (simp add: s' stored_def)
  with inv MainTerminal show ?thesis by (auto simp: ev_inv_def s' slotsHeld_def evalTerminalEvent_def)
next
  case MainDone
  with st show ?thesis by (simp add: mainStep_def)
qed

lemma ev_inv_task:
  assumes inv: "ev_inv P j s" and k: "k < length (v_tasks s)"
  shows "ev_inv P j (taskStep P j k s)"
proof -
  obtain i pc where t: "v_tasks s ! k = (i, pc)" by fastforce
  note goto = ev_inv_goto [OF inv k t]
  show ?thesis
  proof (cases pc)
    case TaskStarting
    show ?thesis by (rule goto [where pc = TaskExecuting]) (auto simp: taskStep_def t TaskStarting stored_def caseEvent_def)
  next
    case TaskExecuting
    obtain r o' where e: "executeTestCase P (ej_evalRunID j) (ej_suite j) (ej_version j) i (ej_testCases j ! i) = (r, o')" by (rule prod.exhaust)
    then have "o' = caseOutcome P j i" by (simp add: caseOutcome_def)
    then show ?thesis by (intro goto [where pc = "TaskPersisting r"]) (auto simp: taskStep_def t TaskExecuting e stored_def)
  next
    case (TaskPersisting r)
    obtain res d' where c: "CreateTestCaseResult (ep_sql P) (ep_json P) [] (ep_now P) r (v_db s) = (res, d')" by fastforce
    note R = CreateTestCaseResult_results [OF c]
    show ?thesis
    proof (cases res)
      case (Inl e)
      show ?thesis using R(1) by (intro goto [where pc = TaskReleasing]) (auto simp: taskStep_def t TaskPersisting c Inl stored_def)
    next
      case (Inr w)
      show ?thesis using R(1) R(2) [OF Inr] by (intro goto [where pc = "TaskPublishing w"]) (auto simp: taskStep_def t TaskPersisting c Inr stored_def)
    qed
  next
    case (TaskPublishing w)
    have "(i, TaskPublishing w) \<in> set (v_tasks s)" using t k TaskPublishing by (metis nth_mem)
    then have "stored s w" using inv by (auto simp: ev_inv_def)
    then show ?thesis by (intro goto [where pc = TaskReleasing]) (auto simp: taskStep_def t TaskPublishing stored_def caseEvent_def)
  next
    case TaskReleasing
    show ?thesis by (rule goto [where pc = TaskFinishing]) (auto simp: taskStep_def t TaskReleasing stored_def)
  next
    case TaskFinishing
    have s': "taskStep P j k s = s\<lparr>v_tasks := take k (v_tasks s) @ drop (Suc k) (v_tasks s)\<rparr>" by (simp add: taskStep_def t TaskFinishing)
    have split: "v_tasks s = take k (v_tasks s) @ (i, TaskFinishing) # drop (Suc k) (v_tasks s)"
      using k t TaskFinishing by (metis id_take_nth_drop)
    define A where "A = take k (v_tasks s)"
    define B where "B = drop (Suc k) (v_tasks s)"
    have tasks: "v_tasks s = A @ (i, TaskFinishing) # B" unfolding A_def B_def by (rule split)
    have "stored (taskStep P j k s) r = stored s r" for r by (simp add: s' stored_def)
    then show ?thesis using inv unfolding s' A_def [symmetric] B_def [symmetric] by (auto simp: ev_inv_def slotsHeld_def tasks)
  qed
qed

lemma evreach_inv: "evreach P j d s \<Longrightarrow> ev_inv P j s"
proof (induction rule: evreach.induct)
  case (move s s')
  from move(2,3) show ?case by cases (auto intro: ev_inv_main ev_inv_task)
qed (rule ev_inv_start)

section \<open>The run as a whole\<close>

fun taskWeight :: "task_pc \<Rightarrow> nat" where
  "taskWeight TaskStarting = 6"
| "taskWeight TaskExecuting = 5"
| "taskWeight (TaskPersisting _) = 4"
| "taskWeight (TaskPublishing _) = 3"
| "taskWeight TaskReleasing = 2"
| "taskWeight TaskFinishing = 1"

fun mainRank :: "main_pc \<Rightarrow> nat" where
  "mainRank MainStart = 4"
| "mainRank (MainSpawn _) = 3"
| "mainRank MainWait = 2"
| "mainRank (MainTerminal _) = 1"
| "mainRank MainDone = 0"

definition evalWork :: "eval_job \<Rightarrow> eval_state \<Rightarrow> nat" where
  "evalWork j s = 8 * (length (ej_testCases j) - spawned j (v_pc s)) + (\<Sum>(i, pc) \<leftarrow> v_tasks s. taskWeight pc) + mainRank (v_pc s)"

lemma sum_list_update_less:
  assumes "k < length xs" "f y < (f (xs ! k) :: nat)"
  shows "sum_list (map f (xs[k := y])) < sum_list (map f xs)"
proof -
  have "sum_list (map f xs) = sum_list (map f (take k xs @ xs ! k # drop (Suc k) xs))" using assms(1) by (simp add: id_take_nth_drop [symmetric])
  then show ?thesis using assms by (simp add: upd_conv_take_nth_drop)
qed

lemma taskStep_work:
  assumes "k < length (v_tasks s)"
  shows "evalWork j (taskStep P j k s) < evalWork j s"
proof -
  obtain i pc where t: "v_tasks s ! k = (i, pc)" by fastforce
  have pc: "v_pc (taskStep P j k s) = v_pc s" by (auto simp: taskStep_def Let_def split: task_pc.splits prod.splits sum.splits)
  have "\<exists>pc'. v_tasks (taskStep P j k s) = (v_tasks s)[k := (i, pc')] \<and> taskWeight pc' < taskWeight pc" if "pc \<noteq> TaskFinishing"
    using that t by (cases pc) (auto simp: taskStep_def Let_def split: prod.splits sum.splits)
  moreover have "v_tasks (taskStep P j k s) = take k (v_tasks s) @ drop (Suc k) (v_tasks s)" if "pc = TaskFinishing"
    using that t by (simp add: taskStep_def)
  moreover have "(\<Sum>(i, pc) \<leftarrow> v_tasks s. taskWeight pc) =
      (\<Sum>(i, pc) \<leftarrow> take k (v_tasks s) @ (i, pc) # drop (Suc k) (v_tasks s). taskWeight pc)"
    using id_take_nth_drop [OF assms] t by simp
  ultimately have "(\<Sum>(i, pc) \<leftarrow> v_tasks (taskStep P j k s). taskWeight pc) < (\<Sum>(i, pc) \<leftarrow> v_tasks s. taskWeight pc)"
    using sum_list_update_less [OF assms, of "\<lambda>(i, pc). taskWeight pc"] t by (cases "pc = TaskFinishing") fastforce+
  then show ?thesis by (simp add: evalWork_def pc)
qed

lemma mainStep_work: "mainStep P j s = Some s' \<Longrightarrow> evalWork j s' < evalWork j s"
  by (cases "v_pc s") (auto simp: mainStep_def evalWork_def split: if_splits prod.splits)

text \<open>
  C20. An eval run always finishes within its limits. In every state an eval run can reach, at most
  \<open>max_concurrency\<close> (at least one) test cases are being executed, no test case is executed by
  two goroutines, some goroutine can proceed unless the run is over, and every step uses up a bounded
  amount of work: however the goroutines are scheduled and however the database fails, the
  run ends.
\<close>

theorem eval_run_finishes:
  assumes "evreach P j d s"
  shows "slotsHeld s \<le> concurrencyOf (ej_suite j) \<and> distinct (map fst (v_tasks s)) \<and>
    (v_pc s \<noteq> MainDone \<longrightarrow> (\<exists>s'. evstep P j s s')) \<and>
    (\<forall>s'. evstep P j s s' \<longrightarrow> evalWork j s' < evalWork j s) \<and> evalWork j (startEval j d) = 8 * length (ej_testCases j) + 4"
proof -
  note inv = evreach_inv [OF assms]
  have "\<exists>s'. evstep P j s s'" if "v_pc s \<noteq> MainDone"
  proof (cases "v_tasks s = []")
    case True
    then have "slotsHeld s < concurrencyOf (ej_suite j)" using concurrency_pos by (simp add: slotsHeld_def)
    with True that have "\<exists>s'. mainStep P j s = Some s'" by (cases "v_pc s") (auto simp: mainStep_def split: prod.splits)
    then show ?thesis by (auto intro: evstep.main)
  next
    case False
    then show ?thesis by (auto intro: evstep.task [of 0])
  qed
  moreover have "evalWork j s' < evalWork j s" if "evstep P j s s'" for s'
    using that by cases (auto intro: mainStep_work taskStep_work)
  ultimately show ?thesis using inv by (simp add: ev_inv_def evalWork_def startEval_def)
qed

lemma tally_sum: "ec_Passed (tally os) + ec_Failed (tally os) + ec_Error (tally os) = length os"
proof (induction os)
  case (Cons a os)
  obtain p e where "a = (p, e)" by (cases a)
  with Cons show ?case by (cases p; cases e) (simp_all add: tally_def)
qed (simp add: tally_def)

lemma UpdateEvalRunStatus_ok:
  assumes "UpdateEvalRunStatus q now i EvalRunCompleted c d = (Inr u, d')"
  shows "\<exists>r \<in> set (t_eval_runs (tables d')). sql_eq q (er_ID r) i"
    and "\<forall>r \<in> set (t_eval_runs (tables d')). sql_eq q (er_ID r) i \<longrightarrow> er_Status r = EvalRunCompleted \<and> er_Counts r = c"
proof -
  let ?f = "\<lambda>r. r\<lparr> er_Status := EvalRunCompleted, er_Counts := c, er_FinishedAt := Some now \<rparr>"
  from assms have d': "t_eval_runs (tables d') = map (\<lambda>r. if sql_eq q (er_ID r) i then ?f r else r) (t_eval_runs (tables d))"
    and n: "filter (\<lambda>r. sql_eq q (er_ID r) i) (t_eval_runs (tables d)) \<noteq> []"
    by (auto simp: UpdateEvalRunStatus_def andThen_def exec_def updateEvalRuns_def db_simps
        split: sql_outcome.splits prod.splits sum.splits if_splits)
  from n obtain r where "r \<in> set (t_eval_runs (tables d))" "sql_eq q (er_ID r) i" by (auto simp: filter_empty_conv)
  then show "\<exists>r \<in> set (t_eval_runs (tables d')). sql_eq q (er_ID r) i" by (auto simp: d' intro!: bexI [of _ "?f r"])
  show "\<forall>r \<in> set (t_eval_runs (tables d')). sql_eq q (er_ID r) i \<longrightarrow> er_Status r = EvalRunCompleted \<and> er_Counts r = c"
    by (auto simp: d')
qed

text \<open>What a finished run has published and stored.\<close>

definition ev_end :: "'s eval_ports \<Rightarrow> eval_job \<Rightarrow> eval_state \<Rightarrow> bool" where
  "ev_end P j s \<longleftrightarrow>
     (\<forall>ok. v_pc s = MainTerminal ok \<longrightarrow> ok \<longrightarrow>
        (\<forall>r \<in> set (t_eval_runs (tables (v_db s))). sql_eq (ep_sql P) (er_ID r) (ej_evalRunID j) \<longrightarrow>
           er_Status r = EvalRunCompleted \<and> er_Counts r = tally (v_outcomes s))) \<and>
     (v_pc s \<noteq> MainDone \<longrightarrow> (\<forall>e \<in> set (v_events s). ee_Summary e = None)) \<and>
     (v_pc s = MainDone \<longrightarrow> (\<exists>es ok. v_events s = es @ [evalTerminalEvent j ok (v_outcomes s)] \<and> (\<forall>e \<in> set es. ee_Summary e = None) \<and>
        (ok \<longrightarrow> (\<forall>r \<in> set (t_eval_runs (tables (v_db s))). sql_eq (ep_sql P) (er_ID r) (ej_evalRunID j) \<longrightarrow>
           er_Status r = EvalRunCompleted \<and> er_Counts r = tally (v_outcomes s)))))"

lemma taskStep_summaries:
  "v_pc (taskStep P j k s) = v_pc s \<and> (\<forall>e \<in> set (v_events (taskStep P j k s)). e \<in> set (v_events s) \<or> ee_Summary e = None)"
  by (auto simp: taskStep_def Let_def caseEvent_def split: task_pc.splits prod.splits sum.splits)

lemma evreach_end: "evreach P j d s \<Longrightarrow> ev_end P j s"
proof (induction rule: evreach.induct)
  case start
  show ?case by (simp add: ev_end_def startEval_def)
next
  case (move s s')
  from move(2) show ?case
  proof cases
    case main
    show ?thesis
    proof (cases "v_pc s")
      case MainWait
      let ?u = "UpdateEvalRunStatus (ep_sql P) (ep_now P) (ej_evalRunID j) EvalRunCompleted (tally (v_outcomes s)) (v_db s)"
      from main MainWait have s': "s' = s\<lparr> v_db := snd ?u, v_pc := MainTerminal (\<not> isl (fst ?u)) \<rparr>"
        by (auto simp: mainStep_def split: if_splits prod.splits)
      have "fst ?u = Inr () \<Longrightarrow> ?u = (Inr (), snd ?u)" by (metis prod.collapse)
      from UpdateEvalRunStatus_ok(2) [OF this] move(3) MainWait show ?thesis
        by (cases "fst ?u") (auto simp: ev_end_def s')
    qed (use move(3) main in \<open>auto simp: ev_end_def mainStep_def split: if_splits\<close>)
  next
    case (task k)
    have "v_tasks s \<noteq> []" using task(1) by auto
    with evreach_inv [OF move(1)] have "v_pc s \<noteq> MainDone" "\<And>ok. v_pc s \<noteq> MainTerminal ok" by (auto simp: ev_inv_def)
    with move(3) taskStep_summaries [of P j k s] show ?thesis by (auto simp: ev_end_def task(2))
  qed
qed

text \<open>
  C19. What a finished eval run has done. Whatever the interleaving: every test case was executed
  and its outcome is the one of \<open>executeTestCase\<close>; passed, failed and error counts add up to the number of
  test cases; the last event, and only it, carries the summary with these counts; when it says
  completed, the stored eval run is completed with the same counts. No event announces a result that is
  not in the database, even when the database fails.
\<close>

theorem eval_run_outcome:
  assumes "evreach P j d s" "v_pc s = MainDone"
  shows "v_outcomes s = map (caseOutcome P j) [0..<length (ej_testCases j)] \<and>
    ec_Passed (tally (v_outcomes s)) + ec_Failed (tally (v_outcomes s)) + ec_Error (tally (v_outcomes s)) = length (ej_testCases j) \<and>
    (\<exists>es ok. v_events s = es @ [evalTerminalEvent j ok (v_outcomes s)] \<and> (\<forall>e \<in> set es. ee_Summary e = None) \<and>
       (ok \<longrightarrow> (\<forall>r \<in> set (t_eval_runs (tables (v_db s))). sql_eq (ep_sql P) (er_ID r) (ej_evalRunID j) \<longrightarrow>
          er_Status r = EvalRunCompleted \<and> er_Counts r = tally (v_outcomes s)))) \<and>
    (\<forall>e \<in> set (v_events s). \<forall>r. ee_Result e = Some r \<longrightarrow> tr_ID r \<in> dx_ID ` set (t_results (tables (v_db s))))"
proof -
  note inv = evreach_inv [OF assms(1)] and fin = evreach_end [OF assms(1)]
  have "v_outcomes s = map (caseOutcome P j) [0..<length (ej_testCases j)]"
    by (rule nth_equalityI) (use inv assms(2) in \<open>auto simp: ev_inv_def\<close>)
  moreover have "length (v_outcomes s) = length (ej_testCases j)" using inv by (simp add: ev_inv_def)
  moreover have "\<forall>e \<in> set (v_events s). \<forall>r. ee_Result e = Some r \<longrightarrow> tr_ID r \<in> dx_ID ` set (t_results (tables (v_db s)))"
    using inv by (auto simp: ev_inv_def stored_def)
  ultimately show ?thesis using tally_sum [of "v_outcomes s"] fin assms(2) by (auto simp: ev_end_def)
qed

text \<open>One schedule: the first task that runs goes on, the main goroutine moves when there is none.\<close>

fun driveEval :: "'s eval_ports \<Rightarrow> eval_job \<Rightarrow> nat \<Rightarrow> eval_state \<Rightarrow> eval_state" where
  "driveEval P j 0 s = s"
| "driveEval P j (Suc n) s =
     (if v_tasks s \<noteq> [] then driveEval P j n (taskStep P j 0 s)
      else case mainStep P j s of None \<Rightarrow> s | Some s' \<Rightarrow> driveEval P j n s')"

lemma driveEval_reach: "evreach P j d s \<Longrightarrow> evreach P j d (driveEval P j n s)"
proof (induction n arbitrary: s)
  case (Suc n)
  show ?case
  proof (cases "v_tasks s = []")
    case True
    with Suc show ?thesis by (auto intro: evreach.move evstep.main split: option.split)
  next
    case False
    with Suc show ?thesis by (auto intro: evreach.move evstep.task [of 0])
  qed
qed simp

definition sample_ports :: "unit eval_ports" where
  "sample_ports = \<lparr> ep_sql = \<lparr> sql_outcome = (\<lambda>_. Done), sql_key = id, sql_json = id \<rparr>,
     ep_json = \<lparr> enc_data = (\<lambda>_. Some []), dec_data = (\<lambda>_. None), enc_mocks = (\<lambda>_. Some []), dec_mocks = (\<lambda>_. None), enc_graders = (\<lambda>_. Some []),
       dec_graders = (\<lambda>_. None), enc_outputs = (\<lambda>_. Some []), dec_outputs = (\<lambda>_. None), enc_results = (\<lambda>_. Some []), dec_results = (\<lambda>_. None),
       enc_trigger = (\<lambda>_. Some []), dec_trigger = (\<lambda>_. None), col_threshold = Some, col_concurrency = Some \<rparr>,
     ep_now = 5, ep_uuid = (\<lambda>n. replicate n (CHR ''u'')), ep_Run = (\<lambda>_ _. Inl ''no such workflow''), ep_GetRun = (\<lambda>_ _. Inl []), ep_LatestVersion = (\<lambda>_. Inr None),
     ep_cipher = undefined, ep_graders = undefined, ep_llmFactory = None, ep_registry = None \<rparr>"

definition sample_job :: eval_job where
  "sample_job = \<lparr> ej_evalRunID = ''run'',
     ej_suite = \<lparr> es_ID = ''s'', es_WorkflowID = ''w'', es_Name = [], es_Description = [], es_PassThreshold = 1, es_MaxConcurrency = 2, es_WorkflowDeleted = False,
       es_TriggerKind = ''none'', es_CronExpr = [], es_WebhookSecret = [], es_CreatedAt = 0, es_UpdatedAt = 0 \<rparr>,
     ej_testCases = [\<lparr> tc_ID = ''t'', tc_SuiteID = ''s'', tc_Name = ''first'', tc_Description = [], tc_Position = 0, tc_InitialData = [], tc_Mocks = [],
       tc_Graders = [], tc_CreatedAt = 0, tc_UpdatedAt = 0 \<rparr>], ej_version = None \<rparr>"

definition sample_tables :: "eval_tables db" where
  "sample_tables = \<lparr> tables = \<lparr> t_suites = [], t_cases = [], t_eval_runs = [], t_results = [] \<rparr>, clock = 0 \<rparr>"

theorem eval_run_finishes_witness:
  "slotsHeld (driveEval sample_ports sample_job 3 (startEval sample_job sample_tables)) = 1 \<and>
   concurrencyOf (ej_suite sample_job) = 2 \<and> evalWork sample_job (startEval sample_job sample_tables) = 12"
proof -
  have "evreach sample_ports sample_job sample_tables (driveEval sample_ports sample_job 3 (startEval sample_job sample_tables))"
    by (intro driveEval_reach evreach.start)
  from eval_run_finishes [OF this] have "evalWork sample_job (startEval sample_job sample_tables) = 12" by (simp add: sample_job_def)
  moreover have "slotsHeld (driveEval sample_ports sample_job 3 (startEval sample_job sample_tables)) = 1" "concurrencyOf (ej_suite sample_job) = 2" by code_simp+
  ultimately show ?thesis by blast
qed

theorem eval_run_outcome_witness:
  "v_outcomes (driveEval sample_ports sample_job 12 (startEval sample_job sample_tables)) = [(False, True)]"
proof -
  let ?s = "driveEval sample_ports sample_job 12 (startEval sample_job sample_tables)"
  have r: "evreach sample_ports sample_job sample_tables ?s" by (intro driveEval_reach evreach.start)
  have d: "v_pc ?s = MainDone" by code_simp
  have "caseOutcome sample_ports sample_job 0 = (False, True)" "length (ej_testCases sample_job) = 1" by code_simp+
  with eval_run_outcome [OF r d] show ?thesis by simp
qed

end
