(* ===== verification/Triggers.thy ===== *)
theory Triggers
  imports Eval_Runner
begin

text \<open>
  What arms a workflow or an eval suite: the cron schedulers (\<open>internal/trigger/cron.go\<close>,
  \<open>internal/eval/scheduler.go\<close>), the trigger manager with its Kafka and SQS consumers
  (\<open>internal/trigger/manager.go\<close>, \<open>kafka.go\<close>, \<open>sqs.go\<close>) and the webhook (\<open>webhook.go\<close>). The cron library,
  the AWS configuration and the clients of the message brokers are parameters. Each operation of a
  scheduler holds its lock, so a concurrent use is a sequence of operations.
\<close>

section \<open>The cron library\<close>

record 'c cron_lib =
  cron_AddFunc :: "string \<Rightarrow> string \<Rightarrow> 'c \<Rightarrow> (nat \<times> 'c) option"
  cron_Remove :: "nat \<Rightarrow> 'c \<Rightarrow> 'c"
  cron_ParseStandard :: "string \<Rightarrow> bool"
  cron_Entries :: "'c \<Rightarrow> nat \<Rightarrow> (string \<times> string) option"

text \<open>
  Documented behaviour: \<open>AddFunc\<close> refuses what the standard parser refuses and otherwise adds one
  entry under a new id, \<open>Remove\<close> removes the entry. \<open>cron_Entries\<close> is the schedule: the job
  (here: whom it fires for) and the expression under each id.
\<close>

definition cron_lib_ok :: "'c cron_lib \<Rightarrow> bool" where
  "cron_lib_ok L \<longleftrightarrow>
     (\<forall>e w c. cron_AddFunc L e w c = None \<longleftrightarrow> \<not> cron_ParseStandard L e) \<and>
     (\<forall>e w c i c'. cron_AddFunc L e w c = Some (i, c') \<longrightarrow> cron_Entries L c i = None \<and> cron_Entries L c' = (cron_Entries L c)(i \<mapsto> (w, e))) \<and>
     (\<forall>i c. cron_Entries L (cron_Remove L i c) = (cron_Entries L c)(i := None))"

datatype cron_error = CronExprRequired | CronExprInvalid string

definition ValidateCronExpr :: "'c cron_lib \<Rightarrow> string \<Rightarrow> cron_error + unit" where
  "ValidateCronExpr L expr =
     (if expr = [] then Inl CronExprRequired
      else if \<not> cron_ParseStandard L expr then Inl (CronExprInvalid expr)
      else Inr ())"

section \<open>The workflow scheduler\<close>

record 'c cron_scheduler =
  cs_c :: 'c
  cs_entries :: "(string \<times> nat) list"

definition cron_add :: "'c cron_lib \<Rightarrow> string \<Rightarrow> string \<Rightarrow> 'c cron_scheduler \<Rightarrow> (cron_error + unit) \<times> 'c cron_scheduler" where
  "cron_add L workflowID expr cs =
     (let c = (case map_of (cs_entries cs) workflowID of None \<Rightarrow> cs_c cs | Some old \<Rightarrow> cron_Remove L old (cs_c cs))
      in case cron_AddFunc L expr workflowID c of
           None \<Rightarrow> (Inl (CronExprInvalid expr), cs\<lparr> cs_c := c, cs_entries := AList.delete workflowID (cs_entries cs) \<rparr>)
         | Some (entryID, c') \<Rightarrow> (Inr (), cs\<lparr> cs_c := c', cs_entries := AList.update workflowID entryID (cs_entries cs) \<rparr>))"

definition cron_remove :: "'c cron_lib \<Rightarrow> string \<Rightarrow> 'c cron_scheduler \<Rightarrow> 'c cron_scheduler" where
  "cron_remove L workflowID cs =
     (case map_of (cs_entries cs) workflowID of
        None \<Rightarrow> cs
      | Some entryID \<Rightarrow> cs\<lparr> cs_c := cron_Remove L entryID (cs_c cs), cs_entries := AList.delete workflowID (cs_entries cs) \<rparr>)"

section \<open>The eval scheduler\<close>

record 'c eval_scheduler =
  sc_c :: 'c
  sc_entries :: "(string \<times> nat) list"

definition Disarm :: "'c cron_lib \<Rightarrow> string \<Rightarrow> 'c eval_scheduler \<Rightarrow> 'c eval_scheduler" where
  "Disarm L suiteID s =
     (case map_of (sc_entries s) suiteID of
        None \<Rightarrow> s
      | Some i \<Rightarrow> s\<lparr> sc_c := cron_Remove L i (sc_c s), sc_entries := AList.delete suiteID (sc_entries s) \<rparr>)"

definition Arm :: "'c cron_lib \<Rightarrow> string \<Rightarrow> string \<Rightarrow> 'c eval_scheduler \<Rightarrow> (cron_error + unit) \<times> 'c eval_scheduler" where
  "Arm L suiteID cronExpr s =
     (let s1 = (case map_of (sc_entries s) suiteID of
                  None \<Rightarrow> s
                | Some old \<Rightarrow> s\<lparr> sc_c := cron_Remove L old (sc_c s), sc_entries := AList.delete suiteID (sc_entries s) \<rparr>)
      in case cron_AddFunc L cronExpr suiteID (sc_c s1) of
           None \<Rightarrow> (Inl (CronExprInvalid cronExpr), s1)
         | Some (i, c') \<Rightarrow> (Inr (), s1\<lparr> sc_c := c', sc_entries := AList.update suiteID i (sc_entries s1) \<rparr>))"

definition sched_LoadAll :: "'c cron_lib \<Rightarrow> eval_suite list \<Rightarrow> 'c eval_scheduler \<Rightarrow> 'c eval_scheduler" where
  "sched_LoadAll L suites s = fold (\<lambda>suite s. snd (Arm L (es_ID suite) (es_CronExpr suite) s)) suites s"

text \<open>The scheduled function: a suite whose workflow is gone disarms itself.\<close>

definition sched_fire :: "'c cron_lib \<Rightarrow> string \<Rightarrow> eval_exec_error + eval_job \<Rightarrow> 'c eval_scheduler \<Rightarrow> 'c eval_scheduler" where
  "sched_fire L suiteID res s = (case res of Inl ExecWorkflowDeleted \<Rightarrow> Disarm L suiteID s | _ \<Rightarrow> s)"

section \<open>Consumers\<close>

datatype trigger_error = BadCron cron_error | BadKafka string | BadSQS string | UnknownKind string

definition ValidateKafkaConfig :: "string \<Rightarrow> string \<Rightarrow> trigger_error + unit" where
  "ValidateKafkaConfig brokers topic =
     (if TrimSpace brokers = [] then Inl (BadKafka ''kafka_brokers'')
      else if TrimSpace topic = [] then Inl (BadKafka ''kafka_topic'')
      else Inr ())"

definition ValidateSQSConfig :: "string \<Rightarrow> string \<Rightarrow> trigger_error + unit" where
  "ValidateSQSConfig queueURL region =
     (if TrimSpace queueURL = [] then Inl (BadSQS ''sqs_queue_url'')
      else if TrimSpace region = [] then Inl (BadSQS ''sqs_region'')
      else Inr ())"

datatype consumer =
    KafkaConsumer (kc_brokers: "string list") (kc_topic: string) (kc_groupID: string)
  | SQSConsumer (qc_queueURL: string) (qc_region: string)

fun splitOn :: "char \<Rightarrow> string \<Rightarrow> string list" where
  "splitOn c [] = [[]]"
| "splitOn c (x # xs) = (if x = c then [] # splitOn c xs else (case splitOn c xs of p # ps \<Rightarrow> (x # p) # ps | [] \<Rightarrow> [[x]]))"

definition newKafkaConsumer :: "string \<Rightarrow> string \<Rightarrow> string \<Rightarrow> string \<Rightarrow> trigger_error + consumer" where
  "newKafkaConsumer workflowID brokers topic groupID =
     (case ValidateKafkaConfig brokers topic of
        Inl e \<Rightarrow> Inl e
      | Inr _ \<Rightarrow> Inr (KafkaConsumer (map TrimSpace (splitOn (CHR '','') brokers)) topic
                        (if groupID = [] then ''cogniflow-'' @ workflowID else groupID)))"

definition newSQSConsumer :: "(string \<Rightarrow> bool) \<Rightarrow> string \<Rightarrow> string \<Rightarrow> trigger_error + consumer" where
  "newSQSConsumer awsConfigLoads queueURL region =
     (case ValidateSQSConfig queueURL region of
        Inl e \<Rightarrow> Inl e
      | Inr _ \<Rightarrow> if awsConfigLoads region then Inr (SQSConsumer queueURL region) else Inl (BadSQS ''load AWS config''))"

section \<open>The manager\<close>

text \<open>
  \<open>mg_consumers\<close> maps a workflow to the cancel function of its consumer goroutine, which is named by a number;
  \<open>mg_started\<close> and \<open>mg_cancelled\<close> record the goroutines started and the cancel functions called.
\<close>

record 'c manager =
  mg_cron :: "'c cron_scheduler"
  mg_consumers :: "(string \<times> nat) list"
  mg_started :: "(string \<times> consumer) list"
  mg_cancelled :: "nat list"

definition stopConsumer :: "string \<Rightarrow> 'c manager \<Rightarrow> 'c manager" where
  "stopConsumer workflowID mg =
     (case map_of (mg_consumers mg) workflowID of
        None \<Rightarrow> mg
      | Some cancel \<Rightarrow> mg\<lparr> mg_cancelled := mg_cancelled mg @ [cancel], mg_consumers := AList.delete workflowID (mg_consumers mg) \<rparr>)"

definition setConsumer :: "string \<Rightarrow> nat \<Rightarrow> 'c manager \<Rightarrow> 'c manager" where
  "setConsumer workflowID cancel mg =
     (let mg1 = (case map_of (mg_consumers mg) workflowID of None \<Rightarrow> mg | Some old \<Rightarrow> mg\<lparr>mg_cancelled := mg_cancelled mg @ [old]\<rparr>)
      in mg1\<lparr>mg_consumers := AList.update workflowID cancel (mg_consumers mg1)\<rparr>)"

definition startConsumer :: "string \<Rightarrow> trigger_error + consumer \<Rightarrow> 'c manager \<Rightarrow> (trigger_error + unit) \<times> 'c manager" where
  "startConsumer workflowID made mg =
     (case made of
        Inl e \<Rightarrow> (Inl e, mg)
      | Inr cons \<Rightarrow>
          (let mg1 = setConsumer workflowID (length (mg_started mg)) mg
           in (Inr (), mg1\<lparr>mg_started := mg_started mg1 @ [(workflowID, cons)]\<rparr>)))"

definition activate :: "'c cron_lib \<Rightarrow> (string \<Rightarrow> bool) \<Rightarrow> string \<Rightarrow> trigger \<Rightarrow> 'c manager \<Rightarrow> (trigger_error + unit) \<times> 'c manager" where
  "activate L aws workflowID cfg mg =
     (if tr_Kind cfg = ''cron'' then
        (let mg1 = stopConsumer workflowID mg
         in case cron_add L workflowID (tr_CronExpr cfg) (mg_cron mg1) of
              (Inl e, cs) \<Rightarrow> (Inl (BadCron e), mg1\<lparr>mg_cron := cs\<rparr>)
            | (Inr _, cs) \<Rightarrow> (Inr (), mg1\<lparr>mg_cron := cs\<rparr>))
      else if tr_Kind cfg = ''kafka'' then
        startConsumer workflowID (newKafkaConsumer workflowID (tr_KafkaBrokers cfg) (tr_KafkaTopic cfg) (tr_KafkaGroupID cfg))
          (mg\<lparr>mg_cron := cron_remove L workflowID (mg_cron mg)\<rparr>)
      else if tr_Kind cfg = ''sqs'' then
        startConsumer workflowID (newSQSConsumer aws (tr_SQSQueueURL cfg) (tr_SQSRegion cfg))
          (mg\<lparr>mg_cron := cron_remove L workflowID (mg_cron mg)\<rparr>)
      else if tr_Kind cfg = ''webhook'' \<or> tr_Kind cfg = ''manual'' \<or> tr_Kind cfg = [] then
        (Inr (), stopConsumer workflowID (mg\<lparr>mg_cron := cron_remove L workflowID (mg_cron mg)\<rparr>))
      else (Inl (UnknownKind (tr_Kind cfg)), mg))"

definition Upsert :: "'c cron_lib \<Rightarrow> (string \<Rightarrow> bool) \<Rightarrow> string \<Rightarrow> trigger \<Rightarrow> 'c manager \<Rightarrow> (trigger_error + unit) \<times> 'c manager" where
  "Upsert L aws workflowID cfg mg = activate L aws workflowID cfg mg"

definition Remove :: "'c cron_lib \<Rightarrow> string \<Rightarrow> 'c manager \<Rightarrow> 'c manager" where
  "Remove L workflowID mg = stopConsumer workflowID (mg\<lparr>mg_cron := cron_remove L workflowID (mg_cron mg)\<rparr>)"

text \<open>\<open>LoadAll\<close> logs a trigger that cannot be activated and goes on.\<close>

definition manager_LoadAll :: "'c cron_lib \<Rightarrow> (string \<Rightarrow> bool) \<Rightarrow> store_error + (string \<times> trigger) list \<Rightarrow> 'c manager \<Rightarrow> (store_error + unit) \<times> 'c manager" where
  "manager_LoadAll L aws found mg =
     (case found of
        Inl e \<Rightarrow> (Inl e, mg)
      | Inr triggers \<Rightarrow> (Inr (), fold (\<lambda>(w, cfg) mg. snd (activate L aws w cfg mg)) triggers mg))"

text \<open>\<open>Stop\<close> after the cron jobs have drained: every consumer is cancelled.\<close>

definition Stop :: "'c manager \<Rightarrow> 'c manager" where
  "Stop mg = mg\<lparr> mg_cancelled := mg_cancelled mg @ map snd (mg_consumers mg), mg_consumers := [] \<rparr>"

section \<open>Messages\<close>

definition parseMessageJSON :: "(string \<Rightarrow> gomap option) \<Rightarrow> string \<Rightarrow> gomap" where
  "parseMessageJSON decode data = (if data = [] then [] else case decode data of None \<Rightarrow> [] | Some m \<Rightarrow> m)"

definition messageRequest :: "(string \<Rightarrow> gomap option) \<Rightarrow> string \<Rightarrow> string \<Rightarrow> string \<Rightarrow> run_request" where
  "messageRequest decode workflowID kind data =
     \<lparr> rq_WorkflowID = workflowID, rq_InitialData = parseMessageJSON decode data, rq_TriggeredBy = kind, rq_NodeMocks = [], rq_WorkflowVersionNumber = None \<rparr>"

definition second :: int where
  "second = 1000000000"

definition nextBackoff :: "int \<Rightarrow> int" where
  "nextBackoff b = min (b * 2) (30 * second)"

text \<open>
  The Kafka consumer of one partition: \<open>topic\<close> is the partition, a reader hands out the message at \<open>ks_next\<close>, and
  a fresh reader starts at the group's committed offset. \<open>ks_dispatched\<close> are the offsets whose run was
  dispatched, with the request; \<open>ks_waits\<close> the back-offs slept. What the broker, the engine
  and the context do in a turn of the loop is a \<open>kafka_turn\<close>.
\<close>

record kafka_state =
  ks_backoff :: int
  ks_committed :: nat
  ks_next :: nat
  ks_dispatched :: "(nat \<times> run_request) list"
  ks_waits :: "int list"

record kafka_turn =
  kt_fetched :: bool
  kt_cancelled :: bool
  kt_dispatch :: "engine_error + string"
  kt_commitOK :: bool

datatype kafka_next = Again | Reconnect | Halt

definition backOff :: "bool \<Rightarrow> kafka_state \<Rightarrow> kafka_next \<times> kafka_state" where
  "backOff cancelled s =
     (if cancelled then (Halt, s)
      else (Reconnect, s\<lparr> ks_waits := ks_waits s @ [ks_backoff s], ks_backoff := nextBackoff (ks_backoff s) \<rparr>))"

definition consumeTurn :: "(string \<Rightarrow> gomap option) \<Rightarrow> string \<Rightarrow> (nat \<Rightarrow> string) \<Rightarrow> kafka_turn \<Rightarrow> kafka_state \<Rightarrow> kafka_next \<times> kafka_state" where
  "consumeTurn decode workflowID topic t s =
     (if \<not> kt_fetched t then backOff (kt_cancelled t) s
      else
        (let msg = ks_next s; req = messageRequest decode workflowID ''kafka'' (topic msg)
         in case kt_dispatch t of
              Inl _ \<Rightarrow> backOff (kt_cancelled t) s
            | Inr _ \<Rightarrow>
                (Again, s\<lparr> ks_dispatched := ks_dispatched s @ [(msg, req)], ks_backoff := second, ks_next := Suc msg,
                          ks_committed := (if kt_commitOK t then Suc msg else ks_committed s) \<rparr>)))"

definition newReader :: "kafka_state \<Rightarrow> kafka_state" where
  "newReader s = s\<lparr>ks_next := ks_committed s\<rparr>"

fun kafka_consume :: "(string \<Rightarrow> gomap option) \<Rightarrow> string \<Rightarrow> (nat \<Rightarrow> string) \<Rightarrow> kafka_turn list \<Rightarrow> kafka_state \<Rightarrow> kafka_state" where
  "kafka_consume decode workflowID topic [] s = s"
| "kafka_consume decode workflowID topic (t # ts) s =
     (case consumeTurn decode workflowID topic t s of
        (Halt, s') \<Rightarrow> s'
      | (Reconnect, s') \<Rightarrow> if kt_cancelled t then s' else kafka_consume decode workflowID topic ts (newReader s')
      | (Again, s') \<Rightarrow> kafka_consume decode workflowID topic ts s')"

definition kafka_run :: "(string \<Rightarrow> gomap option) \<Rightarrow> string \<Rightarrow> (nat \<Rightarrow> string) \<Rightarrow> nat \<Rightarrow> kafka_turn list \<Rightarrow> kafka_state" where
  "kafka_run decode workflowID topic committed ts =
     kafka_consume decode workflowID topic ts
       (newReader \<lparr> ks_backoff = second, ks_committed = committed, ks_next = 0, ks_dispatched = [], ks_waits = [] \<rparr>)"

text \<open>The SQS consumer: the bodies whose run was dispatched and those whose deletion was requested.\<close>

record sqs_state =
  sq_backoff :: int
  sq_dispatched :: "run_request list"
  sq_deleted :: "string list"
  sq_waits :: "int list"

definition handleMessage :: "(run_request \<Rightarrow> engine_error + string) \<Rightarrow> (string \<Rightarrow> gomap option) \<Rightarrow> string \<Rightarrow> string \<Rightarrow> sqs_state \<Rightarrow> sqs_state" where
  "handleMessage disp decode workflowID body s =
     (let req = messageRequest decode workflowID ''sqs'' body
      in case disp req of
           Inl _ \<Rightarrow> s
         | Inr _ \<Rightarrow> s\<lparr> sq_dispatched := sq_dispatched s @ [req], sq_deleted := sq_deleted s @ [body] \<rparr>)"

datatype sqs_receive = SqsCancelled | SqsError bool | SqsMessages "string list"

text \<open>\<open>SqsError c\<close> is a failed receive, with \<open>c\<close> when the context ends before the back-off is over.\<close>

fun sqs_run :: "(run_request \<Rightarrow> engine_error + string) \<Rightarrow> (string \<Rightarrow> gomap option) \<Rightarrow> string \<Rightarrow> sqs_receive list \<Rightarrow> sqs_state \<Rightarrow> sqs_state" where
  "sqs_run disp decode workflowID [] s = s"
| "sqs_run disp decode workflowID (SqsCancelled # rs) s = s"
| "sqs_run disp decode workflowID (SqsError c # rs) s =
     (if c then s
      else sqs_run disp decode workflowID rs (s\<lparr> sq_waits := sq_waits s @ [sq_backoff s], sq_backoff := nextBackoff (sq_backoff s) \<rparr>))"
| "sqs_run disp decode workflowID (SqsMessages msgs # rs) s =
     sqs_run disp decode workflowID rs (fold (handleMessage disp decode workflowID) msgs (s\<lparr>sq_backoff := second\<rparr>))"

section \<open>The webhook\<close>

datatype 'b http = Reply nat 'b | Refuse nat string

definition webhook_handle :: "(string \<Rightarrow> store_error + trigger) \<Rightarrow> (run_request \<Rightarrow> engine_error + string) \<Rightarrow> string \<Rightarrow> gomap option option \<Rightarrow> string http" where
  "webhook_handle getTriggerConfig disp workflowID body =
     (case getTriggerConfig workflowID of
        Inl e \<Rightarrow> if e = ErrNotFound then Refuse 404 ''NOT_FOUND'' else Refuse 500 ''INTERNAL_ERROR''
      | Inr cfg \<Rightarrow>
          (if tr_Kind cfg \<noteq> ''webhook'' then Refuse 400 ''INVALID_TRIGGER''
           else case body of
                  None \<Rightarrow> Refuse 400 ''INVALID_BODY''
                | Some initialData \<Rightarrow>
                    (case disp \<lparr> rq_WorkflowID = workflowID, rq_InitialData = cfg_entries initialData, rq_TriggeredBy = ''webhook'', rq_NodeMocks = [],
                        rq_WorkflowVersionNumber = None \<rparr> of
                       Inl _ \<Rightarrow> Refuse 500 ''ENGINE_ERROR''
                     | Inr runID \<Rightarrow> Reply 202 runID)))"

end
