(* ===== verification/Trigger_Props.thy ===== *)
theory Trigger_Props
  imports Triggers
begin

text \<open>
  The triggers keep their promises. Both cron schedulers are tables of jobs (locale \<open>job_table\<close>); the trigger
  manager implements a map from workflows to the one trigger that is live for them, and leaks no
  consumer; the message consumers lose no message.
\<close>

section \<open>Tables of scheduled jobs\<close>

text \<open>
  What a client of a scheduler relies on: \<open>jobs\<close> is the table of expressions by owner. Arming replaces the
  owner's job, and leaves the owner without a job when the expression is refused.
\<close>

datatype sched_op = OpArm string string | OpDisarm string

locale job_table =
  fixes lib :: "'l \<Rightarrow> bool"
    and accepts :: "'l \<Rightarrow> string \<Rightarrow> bool"
    and good :: "'l \<Rightarrow> 's \<Rightarrow> bool"
    and jobs :: "'l \<Rightarrow> 's \<Rightarrow> string \<Rightarrow> string option"
    and arm :: "'l \<Rightarrow> string \<Rightarrow> string \<Rightarrow> 's \<Rightarrow> (cron_error + unit) \<times> 's"
    and disarm :: "'l \<Rightarrow> string \<Rightarrow> 's \<Rightarrow> 's"
  assumes arm_good: "lib L \<Longrightarrow> good L s \<Longrightarrow> good L (snd (arm L w e s))"
    and disarm_good: "lib L \<Longrightarrow> good L s \<Longrightarrow> good L (disarm L w s)"
    and arm_accepts: "lib L \<Longrightarrow> good L s \<Longrightarrow> fst (arm L w e s) = (if accepts L e then Inr () else Inl (CronExprInvalid e))"
    and arm_jobs: "lib L \<Longrightarrow> good L s \<Longrightarrow> jobs L (snd (arm L w e s)) = (jobs L s)(w := if accepts L e then Some e else None)"
    and disarm_jobs: "lib L \<Longrightarrow> good L s \<Longrightarrow> jobs L (disarm L w s) = (jobs L s)(w := None)"
begin

definition sched_step :: "'l \<Rightarrow> sched_op \<Rightarrow> 's \<Rightarrow> 's" where
  "sched_step L op s = (case op of OpArm w e \<Rightarrow> snd (arm L w e s) | OpDisarm w \<Rightarrow> disarm L w s)"

definition table_step :: "'l \<Rightarrow> sched_op \<Rightarrow> (string \<Rightarrow> string option) \<Rightarrow> string \<Rightarrow> string option" where
  "table_step L op t = (case op of OpArm w e \<Rightarrow> t(w := if accepts L e then Some e else None) | OpDisarm w \<Rightarrow> t(w := None))"

lemma sched_steps:
  "lib L \<Longrightarrow> good L s \<Longrightarrow> good L (fold (sched_step L) ops s) \<and> jobs L (fold (sched_step L) ops s) = fold (table_step L) ops (jobs L s)"
proof (induction ops arbitrary: s)
  case (Cons op ops)
  have "good L (sched_step L op s)" and "jobs L (sched_step L op s) = table_step L op (jobs L s)"
    using Cons.prems by (cases op; simp add: sched_step_def table_step_def arm_good disarm_good arm_jobs disarm_jobs)+
  with Cons show ?case by simp
qed simp

end

section \<open>A scheduler over the cron library\<close>

text \<open>
  Both schedulers keep the library's entries and an index from owners to entry ids; they agree when each
  entry is the indexed entry of its owner.
\<close>

definition indexed :: "'c cron_lib \<Rightarrow> 'c \<Rightarrow> (string \<Rightarrow> nat option) \<Rightarrow> bool" where
  "indexed L c es \<longleftrightarrow> (\<forall>w i. es w = Some i \<longleftrightarrow> (\<exists>e. cron_Entries L c i = Some (w, e)))"

definition jobsOf :: "'c cron_lib \<Rightarrow> 'c \<Rightarrow> (string \<Rightarrow> nat option) \<Rightarrow> string \<Rightarrow> string option" where
  "jobsOf L c es w = (case es w of None \<Rightarrow> None | Some i \<Rightarrow> map_option snd (cron_Entries L c i))"

lemma cron_lib_Add:
  "cron_lib_ok L \<Longrightarrow> cron_AddFunc L e w c = Some (i, c') \<Longrightarrow>
     cron_ParseStandard L e \<and> cron_Entries L c i = None \<and> cron_Entries L c' = (cron_Entries L c)(i \<mapsto> (w, e))"
  unfolding cron_lib_ok_def by (metis option.distinct(1))

lemma cron_lib_Add_None: "cron_lib_ok L \<Longrightarrow> cron_AddFunc L e w c = None \<longleftrightarrow> \<not> cron_ParseStandard L e"
  unfolding cron_lib_ok_def by blast

lemma cron_lib_Remove: "cron_lib_ok L \<Longrightarrow> cron_Entries L (cron_Remove L i c) = (cron_Entries L c)(i := None)"
  unfolding cron_lib_ok_def by blast

lemma indexed_drop:
  assumes "cron_lib_ok L" "indexed L c es" "es w = Some i"
  shows "indexed L (cron_Remove L i c) (es(w := None))"
    and "jobsOf L (cron_Remove L i c) (es(w := None)) = (jobsOf L c es)(w := None)"
proof -
  have other: "i' \<noteq> i" if "es w' = Some i'" "w' \<noteq> w" for w' i'
    using assms(2,3) that unfolding indexed_def by (metis option.inject prod.inject)
  have mine: "i' = i" if "cron_Entries L c i' = Some (w, e)" for i' e
    using assms(2,3) that unfolding indexed_def by (metis option.inject)
  show "indexed L (cron_Remove L i c) (es(w := None))"
    using assms(2) other unfolding indexed_def by (auto simp: cron_lib_Remove[OF assms(1)] dest: mine; blast)
  show "jobsOf L (cron_Remove L i c) (es(w := None)) = (jobsOf L c es)(w := None)"
    by (rule ext) (auto simp: jobsOf_def cron_lib_Remove[OF assms(1)] split: option.split dest: other)
qed

lemma indexed_add:
  assumes "cron_lib_ok L" "indexed L c es" "es w = None" "cron_AddFunc L e w c = Some (i, c')"
  shows "indexed L c' (es(w \<mapsto> i))" and "jobsOf L c' (es(w \<mapsto> i)) = (jobsOf L c es)(w := Some e)"
proof -
  note lib = cron_lib_Add[OF assms(1,4)]
  have other: "i' \<noteq> i" if "es w' = Some i'" for w' i'
    using assms(2) lib that unfolding indexed_def by (metis option.distinct(1))
  have none: "cron_Entries L c i' \<noteq> Some (w, e')" for i' e'
    using assms(2,3) unfolding indexed_def by (metis option.distinct(1))
  show "indexed L c' (es(w \<mapsto> i))"
    using assms(2) lib other none unfolding indexed_def by (auto; metis)
  show "jobsOf L c' (es(w \<mapsto> i)) = (jobsOf L c es)(w := Some e)"
    using lib other by (auto simp: jobsOf_def fun_eq_iff split: option.split)
qed

text \<open>The two operations on library state and index that both schedulers perform.\<close>

definition dropJob :: "'c cron_lib \<Rightarrow> string \<Rightarrow> 'c \<Rightarrow> (string \<Rightarrow> nat option) \<Rightarrow> 'c" where
  "dropJob L w c es = (case es w of None \<Rightarrow> c | Some i \<Rightarrow> cron_Remove L i c)"

lemma dropJob:
  assumes "cron_lib_ok L" "indexed L c es"
  shows "indexed L (dropJob L w c es) (es(w := None))"
    and "jobsOf L (dropJob L w c es) (es(w := None)) = (jobsOf L c es)(w := None)"
proof -
  have "dropJob L w c es = c" "es(w := None) = es" "(jobsOf L c es)(w := None) = jobsOf L c es" if "es w = None"
    using that by (auto simp: dropJob_def jobsOf_def fun_eq_iff)
  moreover have "dropJob L w c es = cron_Remove L i c" if "es w = Some i" for i
    using that by (simp add: dropJob_def)
  ultimately show "indexed L (dropJob L w c es) (es(w := None))"
    and "jobsOf L (dropJob L w c es) (es(w := None)) = (jobsOf L c es)(w := None)"
    using assms(2) indexed_drop[OF assms] by (cases "es w"; simp)+
qed

lemma replaceJob:
  assumes "cron_lib_ok L" "indexed L c es" "cron_AddFunc L e w (dropJob L w c es) = Some (i, c')"
  shows "indexed L c' (es(w \<mapsto> i))" and "jobsOf L c' (es(w \<mapsto> i)) = (jobsOf L c es)(w := Some e)"
  using indexed_add[OF assms(1) dropJob(1)[OF assms(1,2)] _ assms(3)] dropJob(2)[OF assms(1,2), of w] by simp_all

section \<open>Both schedulers are job tables\<close>

definition cron_good :: "'c cron_lib \<Rightarrow> 'c cron_scheduler \<Rightarrow> bool" where
  "cron_good L cs = indexed L (cs_c cs) (map_of (cs_entries cs))"

definition cron_jobs :: "'c cron_lib \<Rightarrow> 'c cron_scheduler \<Rightarrow> string \<Rightarrow> string option" where
  "cron_jobs L cs = jobsOf L (cs_c cs) (map_of (cs_entries cs))"

definition eval_good :: "'c cron_lib \<Rightarrow> 'c eval_scheduler \<Rightarrow> bool" where
  "eval_good L s = indexed L (sc_c s) (map_of (sc_entries s))"

definition eval_jobs :: "'c cron_lib \<Rightarrow> 'c eval_scheduler \<Rightarrow> string \<Rightarrow> string option" where
  "eval_jobs L s = jobsOf L (sc_c s) (map_of (sc_entries s))"

lemma cron_add_eq:
  "cron_add L w e cs = (let c = dropJob L w (cs_c cs) (map_of (cs_entries cs)) in
     case cron_AddFunc L e w c of
       None \<Rightarrow> (Inl (CronExprInvalid e), cs\<lparr> cs_c := c, cs_entries := AList.delete w (cs_entries cs) \<rparr>)
     | Some (i, c') \<Rightarrow> (Inr (), cs\<lparr> cs_c := c', cs_entries := AList.update w i (cs_entries cs) \<rparr>))"
  by (simp add: cron_add_def dropJob_def cong: option.case_cong)

lemma cron_remove_eq:
  "cs_c (cron_remove L w cs) = dropJob L w (cs_c cs) (map_of (cs_entries cs))"
  "map_of (cs_entries (cron_remove L w cs)) = (map_of (cs_entries cs))(w := None)"
  by (auto simp: cron_remove_def dropJob_def split: option.split)

interpretation wfJobs: job_table cron_lib_ok cron_ParseStandard cron_good cron_jobs cron_add cron_remove
proof (unfold_locales, goal_cases)
  case (1 L s w e)
  then show ?case
    using dropJob(1)[OF 1(1)] replaceJob(1)[OF 1(1)] by (auto simp: cron_good_def cron_add_eq Let_def split: option.split)
next
  case (2 L s w)
  then show ?case
    using dropJob(1)[OF 2(1)] by (auto simp: cron_good_def cron_remove_eq)
next
  case (3 L s w e)
  then show ?case
    by (auto simp: cron_add_eq Let_def cron_lib_Add_None split: option.split dest: cron_lib_Add)
next
  case (4 L s w e)
  then show ?case
    using dropJob(2)[OF 4(1)] replaceJob(2)[OF 4(1)]
    by (auto simp: cron_good_def cron_jobs_def cron_add_eq Let_def cron_lib_Add_None split: option.split dest: cron_lib_Add)
next
  case (5 L s w)
  then show ?case
    using dropJob(2)[OF 5(1)] by (auto simp: cron_good_def cron_jobs_def cron_remove_eq)
qed

lemma Disarm_eq:
  "sc_c (Disarm L w s) = dropJob L w (sc_c s) (map_of (sc_entries s))"
  "map_of (sc_entries (Disarm L w s)) = (map_of (sc_entries s))(w := None)"
  by (auto simp: Disarm_def dropJob_def split: option.split)

lemma Arm_eq:
  "Arm L w e s = (case cron_AddFunc L e w (sc_c (Disarm L w s)) of
       None \<Rightarrow> (Inl (CronExprInvalid e), Disarm L w s)
     | Some (i, c') \<Rightarrow> (Inr (), (Disarm L w s)\<lparr> sc_c := c', sc_entries := AList.update w i (sc_entries (Disarm L w s)) \<rparr>))"
  by (simp add: Arm_def Disarm_def Let_def cong: option.case_cong)

interpretation evalJobs: job_table cron_lib_ok cron_ParseStandard eval_good eval_jobs Arm Disarm
proof (unfold_locales, goal_cases)
  case (1 L s w e)
  then show ?case
    using dropJob(1)[OF 1(1)] replaceJob(1)[OF 1(1)] by (auto simp: eval_good_def Arm_eq Disarm_eq split: option.split)
next
  case (2 L s w)
  then show ?case
    using dropJob(1)[OF 2(1)] by (auto simp: eval_good_def Disarm_eq)
next
  case (3 L s w e)
  then show ?case
    by (auto simp: Arm_eq cron_lib_Add_None split: option.split dest: cron_lib_Add)
next
  case (4 L s w e)
  then show ?case
    using dropJob(2)[OF 4(1)] replaceJob(2)[OF 4(1)]
    by (auto simp: eval_good_def eval_jobs_def Arm_eq Disarm_eq cron_lib_Add_None split: option.split dest: cron_lib_Add)
next
  case (5 L s w)
  then show ?case
    using dropJob(2)[OF 5(1)] by (auto simp: eval_good_def eval_jobs_def Disarm_eq)
qed

section \<open>The trigger manager\<close>

text \<open>The one trigger that is live for a workflow; webhooks are answered from the store and need none.\<close>

datatype live = ByCron string | ByConsumer consumer

definition liveOf :: "'c cron_lib \<Rightarrow> 'c manager \<Rightarrow> string \<Rightarrow> live option" where
  "liveOf L mg w =
     (case map_of (mg_consumers mg) w of
        Some i \<Rightarrow> Some (ByConsumer (snd (mg_started mg ! i)))
      | None \<Rightarrow> map_option ByCron (cron_jobs L (mg_cron mg) w))"

text \<open>
  The invariant: a goroutine that was started and not cancelled is the registered consumer of its workflow, no
  cancel function is called twice, and no workflow has both a job and a consumer.
\<close>

definition consumers_ok :: "'c manager \<Rightarrow> bool" where
  "consumers_ok mg \<longleftrightarrow>
     distinct (mg_cancelled mg) \<and> set (mg_cancelled mg) \<subseteq> {..<length (mg_started mg)} \<and>
     (\<forall>w i. map_of (mg_consumers mg) w = Some i \<longleftrightarrow>
        i < length (mg_started mg) \<and> i \<notin> set (mg_cancelled mg) \<and> fst (mg_started mg ! i) = w)"

definition manager_ok :: "'c cron_lib \<Rightarrow> 'c manager \<Rightarrow> bool" where
  "manager_ok L mg \<longleftrightarrow> cron_good L (mg_cron mg) \<and> consumers_ok mg \<and>
     (\<forall>w i. map_of (mg_consumers mg) w = Some i \<longrightarrow> cron_jobs L (mg_cron mg) w = None)"

lemma consumers_ok_cron [simp]: "consumers_ok (mg\<lparr>mg_cron := cs\<rparr>) = consumers_ok mg"
  by (simp add: consumers_ok_def)

lemma stopConsumer_simps [simp]:
  "mg_cron (stopConsumer w mg) = mg_cron mg"
  "map_of (mg_consumers (stopConsumer w mg)) = (map_of (mg_consumers mg))(w := None)"
  "mg_started (stopConsumer w mg) = mg_started mg"
  by (auto simp: stopConsumer_def fun_eq_iff split: option.split)

definition cancelOld :: "string \<Rightarrow> 'c manager \<Rightarrow> nat list" where
  "cancelOld w mg = (case map_of (mg_consumers mg) w of None \<Rightarrow> [] | Some i \<Rightarrow> [i])"

lemma cancelOld:
  assumes "consumers_ok mg"
  shows "distinct (mg_cancelled mg @ cancelOld w mg)"
    and "set (mg_cancelled mg @ cancelOld w mg) \<subseteq> {..<length (mg_started mg)}"
    and "((map_of (mg_consumers mg))(w := None)) v = Some i \<longleftrightarrow>
      i < length (mg_started mg) \<and> i \<notin> set (mg_cancelled mg @ cancelOld w mg) \<and> fst (mg_started mg ! i) = v"
proof -
  note ok = assms[unfolded consumers_ok_def]
  have reg: "i < length (mg_started mg) \<and> i \<notin> set (mg_cancelled mg)" if "map_of (mg_consumers mg) w = Some i" for i
    using ok that by blast
  have base: "distinct (mg_cancelled mg)" "set (mg_cancelled mg) \<subseteq> {..<length (mg_started mg)}"
    using ok by blast+
  show "distinct (mg_cancelled mg @ cancelOld w mg)" "set (mg_cancelled mg @ cancelOld w mg) \<subseteq> {..<length (mg_started mg)}"
    using base reg by (auto simp: cancelOld_def split: option.split)
  have "i \<in> set (cancelOld w mg) \<longleftrightarrow> map_of (mg_consumers mg) w = Some i"
    by (auto simp: cancelOld_def split: option.split)
  moreover have "map_of (mg_consumers mg) v = Some i \<longleftrightarrow>
      i < length (mg_started mg) \<and> i \<notin> set (mg_cancelled mg) \<and> fst (mg_started mg ! i) = v" for v
    using ok by blast
  ultimately show "((map_of (mg_consumers mg))(w := None)) v = Some i \<longleftrightarrow>
      i < length (mg_started mg) \<and> i \<notin> set (mg_cancelled mg @ cancelOld w mg) \<and> fst (mg_started mg ! i) = v"
    by auto
qed

lemma stopConsumer_ok: "consumers_ok mg \<Longrightarrow> consumers_ok (stopConsumer w mg)"
proof -
  assume ok: "consumers_ok mg"
  have "mg_cancelled (stopConsumer w mg) = mg_cancelled mg @ cancelOld w mg"
    by (auto simp: stopConsumer_def cancelOld_def split: option.split)
  then show ?thesis
    using cancelOld[OF ok] unfolding consumers_ok_def by (simp only: stopConsumer_simps) blast
qed

lemma startConsumer_simps [simp]:
  "mg_cron (snd (startConsumer w made mg)) = mg_cron mg"
  "fst (startConsumer w (Inr c) mg) = Inr ()"
  "startConsumer w (Inl e) mg = (Inl e, mg)"
  "map_of (mg_consumers (snd (startConsumer w (Inr c) mg))) = (map_of (mg_consumers mg))(w \<mapsto> length (mg_started mg))"
  "mg_started (snd (startConsumer w (Inr c) mg)) = mg_started mg @ [(w, c)]"
  by (auto simp: startConsumer_def setConsumer_def Let_def split: option.split sum.split)

lemma startConsumer_ok:
  assumes "consumers_ok mg" shows "consumers_ok (snd (startConsumer w made mg))"
proof (cases made)
  case (Inr c)
  have "mg_cancelled (snd (startConsumer w (Inr c) mg)) = mg_cancelled mg @ cancelOld w mg"
    by (auto simp: startConsumer_def setConsumer_def cancelOld_def Let_def split: option.split)
  moreover have "((map_of (mg_consumers mg))(w \<mapsto> length (mg_started mg))) v = Some i \<longleftrightarrow>
      i < length (mg_started mg @ [(w, c)]) \<and> i \<notin> set (mg_cancelled mg @ cancelOld w mg) \<and> fst ((mg_started mg @ [(w, c)]) ! i) = v" for v i
    using cancelOld(2)[OF assms, of w] cancelOld(3)[OF assms, of w v i] cancelOld(3)[OF assms, of w w i]
    by (cases "i < length (mg_started mg)"; cases "v = w") (auto simp: nth_append less_Suc_eq)
  moreover have "set (mg_cancelled mg @ cancelOld w mg) \<subseteq> {..<length (mg_started mg @ [(w, c)])}"
    using cancelOld(2)[OF assms, of w] by auto
  ultimately show ?thesis
    using cancelOld(1)[OF assms] Inr unfolding consumers_ok_def by (simp only: startConsumer_simps) blast
qed (use assms in simp)

section \<open>The manager refines a map of live triggers\<close>

definition liveStart :: "string \<Rightarrow> trigger_error + consumer \<Rightarrow> (string \<Rightarrow> live option) \<Rightarrow> string \<Rightarrow> live option" where
  "liveStart w made t =
     (case made of
        Inr c \<Rightarrow> t(w \<mapsto> ByConsumer c)
      | Inl _ \<Rightarrow> (case t w of Some (ByCron _) \<Rightarrow> t(w := None) | _ \<Rightarrow> t))"

definition liveUpsert :: "'c cron_lib \<Rightarrow> (string \<Rightarrow> bool) \<Rightarrow> string \<Rightarrow> trigger \<Rightarrow> (string \<Rightarrow> live option) \<Rightarrow> string \<Rightarrow> live option" where
  "liveUpsert L aws w cfg t =
     (if tr_Kind cfg = ''cron'' then t(w := if cron_ParseStandard L (tr_CronExpr cfg) then Some (ByCron (tr_CronExpr cfg)) else None)
      else if tr_Kind cfg = ''kafka'' then liveStart w (newKafkaConsumer w (tr_KafkaBrokers cfg) (tr_KafkaTopic cfg) (tr_KafkaGroupID cfg)) t
      else if tr_Kind cfg = ''sqs'' then liveStart w (newSQSConsumer aws (tr_SQSQueueURL cfg) (tr_SQSRegion cfg)) t
      else if tr_Kind cfg \<in> {''webhook'', ''manual'', []} then t(w := None)
      else t)"

datatype trigger_op = OpUpsert string trigger | OpRemove string

definition manager_step :: "'c cron_lib \<Rightarrow> (string \<Rightarrow> bool) \<Rightarrow> trigger_op \<Rightarrow> 'c manager \<Rightarrow> 'c manager" where
  "manager_step L aws op mg = (case op of OpUpsert w cfg \<Rightarrow> snd (Upsert L aws w cfg mg) | OpRemove w \<Rightarrow> Remove L w mg)"

definition live_step :: "'c cron_lib \<Rightarrow> (string \<Rightarrow> bool) \<Rightarrow> trigger_op \<Rightarrow> (string \<Rightarrow> live option) \<Rightarrow> string \<Rightarrow> live option" where
  "live_step L aws op t = (case op of OpUpsert w cfg \<Rightarrow> liveUpsert L aws w cfg t | OpRemove w \<Rightarrow> t(w := None))"

definition cronOff :: "'c cron_lib \<Rightarrow> string \<Rightarrow> 'c manager \<Rightarrow> 'c manager" where
  "cronOff L w mg = mg\<lparr>mg_cron := cron_remove L w (mg_cron mg)\<rparr>"

lemma cronOff_simps [simp]:
  "mg_consumers (cronOff L w mg) = mg_consumers mg" "mg_started (cronOff L w mg) = mg_started mg"
  "mg_cron (cronOff L w mg) = cron_remove L w (mg_cron mg)" "consumers_ok (cronOff L w mg) = consumers_ok mg"
  by (simp_all add: cronOff_def consumers_ok_def)

lemma live_bound: "consumers_ok mg \<Longrightarrow> map_of (mg_consumers mg) v = Some i \<Longrightarrow> i < length (mg_started mg)"
  by (simp add: consumers_ok_def)

lemma cronOff_live:
  assumes "cron_lib_ok L" "manager_ok L mg"
  shows "manager_ok L (cronOff L w mg)"
    and "liveOf L (cronOff L w mg) = (case liveOf L mg w of Some (ByCron _) \<Rightarrow> (liveOf L mg)(w := None) | _ \<Rightarrow> liveOf L mg)"
    and "cron_jobs L (mg_cron (cronOff L w mg)) w = None"
  using assms unfolding manager_ok_def
  by (auto simp: liveOf_def fun_eq_iff wfJobs.disarm_good wfJobs.disarm_jobs split: option.split)

lemma stop_live:
  assumes "manager_ok L mg"
  shows "manager_ok L (stopConsumer w mg)"
    and "cron_jobs L (mg_cron mg) w = None \<Longrightarrow> liveOf L (stopConsumer w mg) = (liveOf L mg)(w := None)"
  using assms unfolding manager_ok_def
  by (auto simp: liveOf_def fun_eq_iff stopConsumer_ok split: option.split)

lemma start_live:
  assumes "manager_ok L mg" "cron_jobs L (mg_cron mg) w = None"
  shows "manager_ok L (snd (startConsumer w made mg))"
    and "liveOf L (snd (startConsumer w (Inr c) mg)) = (liveOf L mg)(w \<mapsto> ByConsumer c)"
  using assms live_bound[of mg] unfolding manager_ok_def
  by (cases made; auto simp: liveOf_def fun_eq_iff startConsumer_ok nth_append split: option.split)+

lemma off_live:
  assumes "cron_lib_ok L" "manager_ok L mg"
  shows "manager_ok L (stopConsumer w (cronOff L w mg))"
    and "liveOf L (stopConsumer w (cronOff L w mg)) = (liveOf L mg)(w := None)"
  using stop_live[OF cronOff_live(1)[OF assms], of w] cronOff_live(2,3)[OF assms, of w]
  by (auto split: option.splits live.splits)

lemma cronOn_live:
  assumes "cron_lib_ok L" "manager_ok L mg"
  shows "manager_ok L (stopConsumer w mg\<lparr>mg_cron := snd (cron_add L w e (mg_cron mg))\<rparr>)"
    and "liveOf L (stopConsumer w mg\<lparr>mg_cron := snd (cron_add L w e (mg_cron mg))\<rparr>) =
      (liveOf L mg)(w := if cron_ParseStandard L e then Some (ByCron e) else None)"
  using assms(2) stopConsumer_ok[of mg w] unfolding manager_ok_def
  by (auto simp: liveOf_def fun_eq_iff wfJobs.arm_good[OF assms(1)] wfJobs.arm_jobs[OF assms(1)] split: option.split)

lemma switch_live:
  assumes "cron_lib_ok L" "manager_ok L mg"
  shows "manager_ok L (snd (startConsumer w made (cronOff L w mg)))"
    and "liveOf L (snd (startConsumer w made (cronOff L w mg))) = liveStart w made (liveOf L mg)"
  using start_live[OF cronOff_live(1,3)[OF assms], of w] cronOff_live(1,2)[OF assms, of w]
  by (cases made; auto simp: liveStart_def split: option.splits live.splits)+

lemma activate_state:
  "snd (activate L aws w cfg mg) =
     (if tr_Kind cfg = ''cron'' then stopConsumer w mg\<lparr>mg_cron := snd (cron_add L w (tr_CronExpr cfg) (mg_cron mg))\<rparr>
      else if tr_Kind cfg = ''kafka'' then
        snd (startConsumer w (newKafkaConsumer w (tr_KafkaBrokers cfg) (tr_KafkaTopic cfg) (tr_KafkaGroupID cfg)) (cronOff L w mg))
      else if tr_Kind cfg = ''sqs'' then snd (startConsumer w (newSQSConsumer aws (tr_SQSQueueURL cfg) (tr_SQSRegion cfg)) (cronOff L w mg))
      else if tr_Kind cfg \<in> {''webhook'', ''manual'', []} then stopConsumer w (cronOff L w mg)
      else mg)"
  by (simp add: activate_def Let_def cronOff_def split: prod.split sum.split)

lemma manager_step_refines:
  assumes "cron_lib_ok L" and "manager_ok L mg"
  shows "manager_ok L (manager_step L aws op mg) \<and> liveOf L (manager_step L aws op mg) = live_step L aws op (liveOf L mg)"
proof (cases op)
  case (OpRemove w)
  then show ?thesis
    using off_live[OF assms, of w] by (simp add: manager_step_def live_step_def Remove_def cronOff_def)
next
  case (OpUpsert w cfg)
  then show ?thesis
    using cronOn_live[OF assms] switch_live[OF assms] off_live[OF assms] assms(2)
    by (simp add: manager_step_def live_step_def Upsert_def activate_state liveUpsert_def)
qed

lemma manager_steps_refine:
  assumes "cron_lib_ok L" and "manager_ok L mg"
  shows "manager_ok L (fold (manager_step L aws) ops mg) \<and>
    liveOf L (fold (manager_step L aws) ops mg) = fold (live_step L aws) ops (liveOf L mg)"
  using assms(2) by (induction ops arbitrary: mg) (simp_all add: manager_step_refines[OF assms(1)])

text \<open>
  C21. The trigger manager implements a map from workflows to their one live trigger. Whatever sequence of
  updates and removals it is given, the trigger that fires for each workflow is the one the
  last accepted configuration asks for: a cron job with its expression, one consumer, or none. A refused
  cron expression leaves the workflow without a trigger; a refused Kafka or SQS
  configuration removes a cron job but leaves a running consumer alone; an unknown kind changes nothing. No workflow
  ever has two triggers, the goroutines running are exactly the registered consumers, and none is cancelled twice.
\<close>

theorem manager_refines_live_triggers:
  assumes "cron_lib_ok L" and "manager_ok L mg"
  shows "manager_ok L (fold (manager_step L aws) ops mg) \<and>
    liveOf L (fold (manager_step L aws) ops mg) = fold (live_step L aws) ops (liveOf L mg)"
  by (rule manager_steps_refine[OF assms])

text \<open>Loading at start-up is a sequence of updates; the eval scheduler arms exactly the suites with an accepted expression.\<close>

lemma manager_LoadAll_live:
  assumes "cron_lib_ok L" "manager_ok L mg" "manager_LoadAll L aws (Inr triggers) mg = (r, mg')"
  shows "manager_ok L mg' \<and> liveOf L mg' = fold (\<lambda>(w, cfg). liveUpsert L aws w cfg) triggers (liveOf L mg)"
proof -
  have "fold (\<lambda>(w, cfg) mg. snd (activate L aws w cfg mg)) triggers mg = fold (manager_step L aws) (map (case_prod OpUpsert) triggers) mg" for mg :: "'a manager"
    by (induction triggers arbitrary: mg) (auto simp: manager_step_def Upsert_def)
  moreover have "fold (\<lambda>(w, cfg). liveUpsert L aws w cfg) triggers t = fold (live_step L aws) (map (case_prod OpUpsert) triggers) t" for t
    by (induction triggers arbitrary: t) (auto simp: live_step_def)
  ultimately show ?thesis using assms(3) manager_steps_refine[OF assms(1,2)] by (auto simp: manager_LoadAll_def)
qed

lemma sched_LoadAll_jobs:
  assumes "cron_lib_ok L" "eval_good L s" "distinct (map es_ID suites)"
  shows "eval_good L (sched_LoadAll L suites s) \<and>
    (\<forall>suite \<in> set suites. eval_jobs L (sched_LoadAll L suites s) (es_ID suite) =
       (if cron_ParseStandard L (es_CronExpr suite) then Some (es_CronExpr suite) else None)) \<and>
    (\<forall>w. w \<notin> es_ID ` set suites \<longrightarrow> eval_jobs L (sched_LoadAll L suites s) w = eval_jobs L s w)"
  using assms(2,3)
proof (induction suites arbitrary: s)
  case (Cons suite suites)
  note step = evalJobs.arm_good[OF assms(1) Cons.prems(1)] evalJobs.arm_jobs[OF assms(1) Cons.prems(1)]
  show ?case
    using Cons.IH[OF step(1)[of "es_ID suite" "es_CronExpr suite"]] Cons.prems(2) step(2)
    by (auto simp: sched_LoadAll_def)
qed (simp add: sched_LoadAll_def)

text \<open>A cron library that keeps its entries in a list and refuses empty expressions.\<close>

definition list_cron :: "(nat \<times> (string \<times> string)) list cron_lib" where
  "list_cron = \<lparr>
     cron_AddFunc = (\<lambda>e w c. if e = [] then None else let i = Suc (sum_list (map fst c)) in Some (i, (i, (w, e)) # c)),
     cron_Remove = (\<lambda>i c. AList.delete i c),
     cron_ParseStandard = (\<lambda>e. e \<noteq> []),
     cron_Entries = (\<lambda>c i. map_of c i) \<rparr>"

lemma list_cron_ok: "cron_lib_ok list_cron"
proof -
  have "map_of c (Suc (sum_list (map fst c))) = None" for c :: "(nat \<times> (string \<times> string)) list"
    using member_le_sum_list[of _ "map fst c"] by (fastforce simp: map_of_eq_None_iff)
  then show ?thesis by (auto simp: cron_lib_ok_def list_cron_def Let_def fun_eq_iff)
qed

definition idleManager :: "(nat \<times> (string \<times> string)) list manager" where
  "idleManager = \<lparr> mg_cron = \<lparr> cs_c = [], cs_entries = [] \<rparr>, mg_consumers = [], mg_started = [], mg_cancelled = [] \<rparr>"

lemma idleManager_ok: "manager_ok list_cron idleManager"
  by (simp add: manager_ok_def idleManager_def consumers_ok_def cron_good_def indexed_def list_cron_def)

definition cronTrigger :: "string \<Rightarrow> trigger" where
  "cronTrigger e = \<lparr> tr_Kind = ''cron'', tr_CronExpr = e, tr_KafkaBrokers = [], tr_KafkaTopic = [], tr_KafkaGroupID = [], tr_SQSQueueURL = [], tr_SQSRegion = [] \<rparr>"

definition kafkaTrigger :: "string \<Rightarrow> trigger" where
  "kafkaTrigger topic = (cronTrigger [])\<lparr> tr_Kind := ''kafka'', tr_KafkaBrokers := ''b:1, c:2'', tr_KafkaTopic := topic \<rparr>"

definition demoOps :: "trigger_op list" where
  "demoOps =
     [OpUpsert ''w'' (cronTrigger ''@daily''), OpUpsert ''w'' (kafkaTrigger ''t''), OpUpsert ''w'' (kafkaTrigger []),
      OpUpsert ''v'' (cronTrigger ''@daily''), OpUpsert ''v'' (cronTrigger [])]"

lemma manager_refines_live_triggers_witness:
  "liveOf list_cron (fold (manager_step list_cron (\<lambda>_. True)) demoOps idleManager)
   = [''w'' \<mapsto> ByConsumer (KafkaConsumer [''b:1'', ''c:2''] ''t'' ''cogniflow-w'')]"
proof -
  have idle: "liveOf list_cron idleManager = Map.empty"
    by (simp add: liveOf_def idleManager_def cron_jobs_def jobsOf_def fun_eq_iff)
  have parse: "cron_ParseStandard list_cron e \<longleftrightarrow> e \<noteq> []" for e
    by (simp add: list_cron_def)
  have good: "newKafkaConsumer ''w'' ''b:1, c:2'' ''t'' [] = Inr (KafkaConsumer [''b:1'', ''c:2''] ''t'' ''cogniflow-w'')"
    by code_simp
  have "isl (newKafkaConsumer ''w'' ''b:1, c:2'' [] [])"
    by code_simp
  then obtain e where bad: "newKafkaConsumer ''w'' ''b:1, c:2'' [] [] = Inl e"
    by (auto simp: isl_def)
  have "fold (live_step list_cron (\<lambda>_. True)) demoOps Map.empty = [''w'' \<mapsto> ByConsumer (KafkaConsumer [''b:1'', ''c:2''] ''t'' ''cogniflow-w'')]"
    by (simp add: demoOps_def live_step_def liveUpsert_def liveStart_def cronTrigger_def kafkaTrigger_def parse good bad fun_eq_iff)
  then show ?thesis
    using manager_refines_live_triggers[OF list_cron_ok idleManager_ok, of "\<lambda>_. True" demoOps] idle by metis
qed

section \<open>Message consumers\<close>

lemma nextBackoff_bounds: "second \<le> b \<Longrightarrow> b \<le> 30 * second \<Longrightarrow> second \<le> nextBackoff b \<and> nextBackoff b \<le> 30 * second"
  by (simp add: nextBackoff_def second_def)

definition stretch :: "(string \<Rightarrow> gomap option) \<Rightarrow> string \<Rightarrow> (nat \<Rightarrow> string) \<Rightarrow> nat \<Rightarrow> nat \<Rightarrow> (nat \<times> run_request) set" where
  "stretch decode w topic c0 n = (\<lambda>i. (i, messageRequest decode w ''kafka'' (topic i))) ` {c0..<n}"

definition kafka_inv :: "(string \<Rightarrow> gomap option) \<Rightarrow> string \<Rightarrow> (nat \<Rightarrow> string) \<Rightarrow> nat \<Rightarrow> kafka_state \<Rightarrow> bool" where
  "kafka_inv decode w topic c0 s \<longleftrightarrow>
     second \<le> ks_backoff s \<and> ks_backoff s \<le> 30 * second \<and> (\<forall>b \<in> set (ks_waits s). second \<le> b \<and> b \<le> 30 * second) \<and>
     c0 \<le> ks_committed s \<and> ks_committed s \<le> ks_next s \<and>
     (\<exists>n \<ge> ks_next s. set (ks_dispatched s) = stretch decode w topic c0 n)"

lemma newReader_inv: "kafka_inv decode w topic c0 s \<Longrightarrow> kafka_inv decode w topic c0 (newReader s)"
  unfolding kafka_inv_def newReader_def by (simp; meson le_trans)

lemma backOff_inv: "kafka_inv decode w topic c0 s \<Longrightarrow> kafka_inv decode w topic c0 (snd (backOff b s))"
  using nextBackoff_bounds[of "ks_backoff s"] unfolding kafka_inv_def backOff_def by simp

lemma stretch_insert:
  "c0 \<le> i \<Longrightarrow> i \<le> n \<Longrightarrow> insert (i, messageRequest decode w ''kafka'' (topic i)) (stretch decode w topic c0 n) = stretch decode w topic c0 (max n (Suc i))"
proof -
  assume "c0 \<le> i" "i \<le> n"
  then have "{c0..<max n (Suc i)} = insert i {c0..<n}" by auto
  then show ?thesis by (simp add: stretch_def)
qed

lemma dispatched_inv:
  assumes "kafka_inv decode w topic c0 s"
  shows "kafka_inv decode w topic c0 (s\<lparr> ks_dispatched := ks_dispatched s @ [(ks_next s, messageRequest decode w ''kafka'' (topic (ks_next s)))],
     ks_backoff := second, ks_next := Suc (ks_next s), ks_committed := (if ok then Suc (ks_next s) else ks_committed s) \<rparr>)"
proof -
  obtain n where n: "ks_next s \<le> n" "set (ks_dispatched s) = stretch decode w topic c0 n"
    using assms by (auto simp: kafka_inv_def)
  have "c0 \<le> ks_next s" using assms by (simp add: kafka_inv_def)
  from stretch_insert[OF this n(1), of decode w topic]
  have "\<exists>m \<ge> Suc (ks_next s). insert (ks_next s, messageRequest decode w ''kafka'' (topic (ks_next s))) (set (ks_dispatched s)) = stretch decode w topic c0 m"
    using n(2) by (metis max.cobounded2)
  with assms show ?thesis by (simp add: kafka_inv_def second_def)
qed

lemma consumeTurn_inv: "kafka_inv decode w topic c0 s \<Longrightarrow> kafka_inv decode w topic c0 (snd (consumeTurn decode w topic t s))"
  using backOff_inv[of decode w topic c0 s "kt_cancelled t"] dispatched_inv[of decode w topic c0 s "kt_commitOK t"]
  by (cases "kt_fetched t"; cases "kt_dispatch t"; cases "kt_commitOK t") (simp_all add: consumeTurn_def Let_def)

lemma kafka_consume_inv: "kafka_inv decode w topic c0 s \<Longrightarrow> kafka_inv decode w topic c0 (kafka_consume decode w topic ts s)"
proof (induction ts arbitrary: s)
  case (Cons t ts)
  obtain nxt s' where turn: "consumeTurn decode w topic t s = (nxt, s')" by fastforce
  then have "kafka_inv decode w topic c0 s'" using consumeTurn_inv[OF Cons.prems, of t] by simp
  then show ?case using Cons.IH newReader_inv turn by (cases nxt) auto
qed simp

text \<open>
  C22. At-least-once delivery. Whatever the broker, the engine and the network do, the Kafka consumer has
  dispatched a run for every message below the committed offset, with that message as the initial data;
  what it has dispatched is a gap-free stretch of the topic from the offset it started at; and
  every back-off it sleeps is between one and thirty seconds.
\<close>

theorem kafka_at_least_once:
  "let s = kafka_run decode w topic c0 ts
   in (\<exists>n \<ge> ks_committed s. set (ks_dispatched s) = (\<lambda>i. (i, messageRequest decode w ''kafka'' (topic i))) ` {c0..<n}) \<and>
      (\<forall>b \<in> set (ks_waits s). second \<le> b \<and> b \<le> 30 * second)"
proof -
  have "kafka_inv decode w topic c0 (kafka_run decode w topic c0 ts)"
    unfolding kafka_run_def
    by (intro kafka_consume_inv) (auto simp: kafka_inv_def stretch_def newReader_def second_def intro!: exI[of _ c0])
  then show ?thesis
    unfolding kafka_inv_def stretch_def Let_def by (meson le_trans)
qed

definition turn :: "bool \<Rightarrow> bool \<Rightarrow> bool \<Rightarrow> kafka_turn" where
  "turn fetched sent commit =
     \<lparr> kt_fetched = fetched, kt_cancelled = False, kt_dispatch = (if sent then Inr ''r'' else Inl (CreateRunFailed ErrNotFound)), kt_commitOK = commit \<rparr>"

text \<open>A failed dispatch and an uncommitted message are both dispatched again.\<close>

lemma kafka_at_least_once_witness:
  "let s = kafka_run (\<lambda>_. None) ''w'' (\<lambda>_. ''x'') 5 [turn True True True, turn True False True, turn True True False, turn False True True, turn True True True]
   in map fst (ks_dispatched s) = [5, 6, 6] \<and> ks_committed s = 7 \<and> (\<exists>n \<ge> 7. fst ` set (ks_dispatched s) = {5..<n})"
proof -
  let ?s = "kafka_run (\<lambda>_. None) ''w'' (\<lambda>_. ''x'') 5 [turn True True True, turn True False True, turn True True False, turn False True True, turn True True True]"
  have run: "map fst (ks_dispatched ?s) = [5, 6, 6]" "ks_committed ?s = 7"
    by code_simp+
  obtain n where "n \<ge> 7" "set (ks_dispatched ?s) = (\<lambda>i. (i, messageRequest (\<lambda>_. None) ''w'' ''kafka'' ''x'')) ` {5..<n}"
    using kafka_at_least_once[of "\<lambda>_. None" "''w''" "\<lambda>_. ''x''" 5 "[turn True True True, turn True False True, turn True True False, turn False True True, turn True True True]"] run(2)
    unfolding Let_def by auto
  then have "fst ` set (ks_dispatched ?s) = {5..<n}" by (simp add: image_image)
  with run \<open>n \<ge> 7\<close> show ?thesis unfolding Let_def by blast
qed

text \<open>SQS: what is deleted from the queue is exactly what was dispatched, with its body as the initial data.\<close>

lemma handleMessages_deleted:
  "sq_dispatched s = map (messageRequest decode w ''sqs'') (sq_deleted s) \<Longrightarrow>
   sq_dispatched (fold (handleMessage disp decode w) msgs s) = map (messageRequest decode w ''sqs'') (sq_deleted (fold (handleMessage disp decode w) msgs s))"
  by (induction msgs arbitrary: s) (auto simp: handleMessage_def Let_def split: sum.split)

lemma sqs_deleted_is_dispatched:
  "sq_dispatched s = map (messageRequest decode w ''sqs'') (sq_deleted s) \<Longrightarrow>
   sq_dispatched (sqs_run disp decode w rs s) = map (messageRequest decode w ''sqs'') (sq_deleted (sqs_run disp decode w rs s))"
  by (induction disp decode w rs s rule: sqs_run.induct) (simp_all add: handleMessages_deleted)

end
