(* ===== verification/Workflow_Store.thy ===== *)
theory Workflow_Store
  imports Eval_Store Config_Vault
begin

text \<open>
  Persistence of workflows and their versions (\<open>internal/store/mysql/workflow_store.go\<close>,
  \<open>workflow_version_store.go\<close>) over the tables \<open>workflows\<close>, \<open>workflow_nodes\<close>, \<open>node_configs\<close>, \<open>workflow_edges\<close>,
  \<open>workflow_versions\<close> and \<open>runs\<close>. The JSON codec is a parameter, as is what the columns make of a row
  (\<open>None\<close>: refused, as a value out of range is). An affected-rows count is the number of matching
  rows, which \<open>Open\<close> asks of the driver. \<open>org\<close> is the tenant of the request's context, empty when there is
  none. The creation time is not part of the model; \<open>updated_at\<close> is kept for the list order.
\<close>

section \<open>Rows\<close>

record db_workflow =
  dw_ID :: string
  dw_OrgID :: string
  dw_Name :: string
  dw_Description :: string
  dw_TriggerKind :: string
  dw_TriggerConfig :: "string option"
  dw_InitialDataSchema :: "string option"
  dw_TimeoutSeconds :: int
  dw_UpdatedAt :: int

record db_node =
  dn_WorkflowID :: string
  dn_ID :: string
  dn_TypeID :: string
  dn_Label :: string
  dn_PositionX :: rat
  dn_PositionY :: rat
  dn_RetryMax :: int
  dn_RetryBackoffMs :: int
  dn_OutputParsers :: "string option"

record db_edge =
  de_WorkflowID :: string
  de_ID :: string
  de_SourceID :: string
  de_TargetID :: string
  de_BranchLabel :: "string option"
  de_IsLoopBack :: bool

record db_config =
  dc_WorkflowID :: string
  dc_NodeID :: string
  dc_Key :: string
  dc_PlainValue :: "string option"
  dc_EncValue :: "string option"
  dc_IsSensitive :: bool

record db_version =
  dv_ID :: string
  dv_WorkflowID :: string
  dv_VersionNumber :: int
  dv_NodeCount :: nat
  dv_Definition :: string

record wf_tables =
  t_wf :: "db_workflow list"
  t_nodes :: "db_node list"
  t_edges :: "db_edge list"
  t_configs :: "db_config list"
  t_versions :: "db_version list"
  t_wf_runs :: "db_run list"

record version_snapshot =
  vs_ID :: string
  vs_Name :: string
  vs_Description :: string
  vs_Trigger :: trigger
  vs_TimeoutSeconds :: int
  vs_Nodes :: "workflow_node list"
  vs_Edges :: "workflow_edge list"
  vs_InitialDataSchema :: string

record workflow_summary =
  sm_ID :: string
  sm_Name :: string
  sm_Description :: string
  sm_TriggerKind :: string
  sm_TimeoutSeconds :: int
  sm_NodeCount :: nat
  sm_UpdatedAt :: int

text \<open>
  \<open>dec_extra\<close> decodes into a struct of string fields and ignores the error, so it yields the fields
  that were set.
\<close>

record wf_json =
  enc_any :: "val \<Rightarrow> string option"
  dec_any :: "string \<Rightarrow> val option"
  enc_parsers :: "(string \<times> output_parser) list \<Rightarrow> string option"
  dec_parsers :: "string \<Rightarrow> (string \<times> output_parser) list option"
  dec_extra :: "string \<Rightarrow> (string \<times> string) list"
  enc_snapshot :: "version_snapshot \<Rightarrow> string option"
  dec_snapshot :: "string \<Rightarrow> version_snapshot option"
  col_workflow :: "db_workflow \<Rightarrow> db_workflow option"
  col_node :: "db_node \<Rightarrow> db_node option"
  col_edge :: "db_edge \<Rightarrow> db_edge option"
  col_config :: "db_config \<Rightarrow> db_config option"
  col_version :: "db_version \<Rightarrow> db_version option"

section \<open>Columns\<close>

abbreviation defaultRetryBackoffMs :: int where
  "defaultRetryBackoffMs \<equiv> 1000"

definition rawMessageToPtr :: "string \<Rightarrow> string option" where
  "rawMessageToPtr msg = (if msg = [] \<or> msg = ''null'' then None else Some msg)"

definition ptrToRawMessage :: "sql \<Rightarrow> string option \<Rightarrow> string" where
  "ptrToRawMessage q s = (case s of None \<Rightarrow> [] | Some t \<Rightarrow> sql_json q t)"

definition stringField :: "string \<Rightarrow> string \<Rightarrow> gomap" where
  "stringField k s = (if s \<noteq> [] then [(k, VStr s)] else [])"

definition triggerExtra :: "trigger \<Rightarrow> gomap" where
  "triggerExtra t =
     stringField ''cron_expr'' (tr_CronExpr t) @ stringField ''kafka_brokers'' (tr_KafkaBrokers t) @
     stringField ''kafka_topic'' (tr_KafkaTopic t) @ stringField ''kafka_group_id'' (tr_KafkaGroupID t) @
     stringField ''sqs_queue_url'' (tr_SQSQueueURL t) @ stringField ''sqs_region'' (tr_SQSRegion t)"

definition extraField :: "(string \<times> string) list \<Rightarrow> string \<Rightarrow> string" where
  "extraField m k = (case map_of m k of None \<Rightarrow> [] | Some s \<Rightarrow> s)"

definition unmarshalTriggerConfig :: "sql \<Rightarrow> wf_json \<Rightarrow> string \<Rightarrow> string option \<Rightarrow> trigger" where
  "unmarshalTriggerConfig q J kind raw =
     (let extra = (case raw of None \<Rightarrow> [] | Some s \<Rightarrow> dec_extra J (sql_json q s))
      in \<lparr> tr_Kind = kind, tr_CronExpr = extraField extra ''cron_expr'', tr_KafkaBrokers = extraField extra ''kafka_brokers'',
           tr_KafkaTopic = extraField extra ''kafka_topic'', tr_KafkaGroupID = extraField extra ''kafka_group_id'',
           tr_SQSQueueURL = extraField extra ''sqs_queue_url'', tr_SQSRegion = extraField extra ''sqs_region'' \<rparr>)"

text \<open>Identifiers: a random (version 4) UUID of sixteen random bytes.\<close>

definition hexDigits :: "nat \<Rightarrow> string" where
  "hexDigits b = [''0123456789abcdef'' ! (b div 16), ''0123456789abcdef'' ! (b mod 16)]"

definition newUUID :: "nat list \<Rightarrow> string" where
  "newUUID r =
     (let u = r[6 := r ! 6 mod 16 + 64, 8 := r ! 8 mod 64 + 128]; hex = (\<lambda>i j. concat (map hexDigits (take (j - i) (drop i u))))
      in hex 0 4 @ ''-'' @ hex 4 6 @ ''-'' @ hex 6 8 @ ''-'' @ hex 8 10 @ ''-'' @ hex 10 16)"

lemma concat_hexDigits: "length (concat (map hexDigits bs)) = 2 * length bs"
  by (induction bs) (simp_all add: hexDigits_def)

lemma newUUID_length: "length r = 16 \<Longrightarrow> length (newUUID r) = 36"
  by (simp add: newUUID_def Let_def concat_hexDigits)

section \<open>Writing the graph\<close>

text \<open>An \<open>INSERT\<close>: the columns may refuse the row, the key may be taken.\<close>

definition insertRow :: "('r \<Rightarrow> 'r option) \<Rightarrow> ('r \<Rightarrow> 'r \<Rightarrow> bool) \<Rightarrow> 'r \<Rightarrow> 'r list \<Rightarrow> store_error + 'r list" where
  "insertRow col same row rows =
     (case col row of
        None \<Rightarrow> Inl SqlFault
      | Some r \<Rightarrow> if \<exists>r' \<in> set rows. same r' r then Inl DuplicateKey else Inr (rows @ [r]))"

definition into :: "store_error + 'r \<Rightarrow> ('r \<Rightarrow> 't) \<Rightarrow> store_error + unit \<times> 't" where
  "into x put = (case x of Inl e \<Rightarrow> Inl e | Inr rows \<Rightarrow> Inr ((), put rows))"

definition sameConfig :: "sql \<Rightarrow> db_config \<Rightarrow> db_config \<Rightarrow> bool" where
  "sameConfig q a b \<longleftrightarrow> sql_eq q (dc_WorkflowID a) (dc_WorkflowID b) \<and> sql_eq q (dc_NodeID a) (dc_NodeID b) \<and> sql_eq q (dc_Key a) (dc_Key b)"

definition sameNode :: "sql \<Rightarrow> db_node \<Rightarrow> db_node \<Rightarrow> bool" where
  "sameNode q a b \<longleftrightarrow> sql_eq q (dn_WorkflowID a) (dn_WorkflowID b) \<and> sql_eq q (dn_ID a) (dn_ID b)"

definition sameEdge :: "sql \<Rightarrow> db_edge \<Rightarrow> db_edge \<Rightarrow> bool" where
  "sameEdge q a b \<longleftrightarrow> sql_eq q (de_WorkflowID a) (de_WorkflowID b) \<and> sql_eq q (de_ID a) (de_ID b)"

definition isSensitive :: "workflow_node \<Rightarrow> string \<Rightarrow> bool" where
  "isSensitive n key \<longleftrightarrow> (case wn_SensitiveKeys n of None \<Rightarrow> False | Some fl \<Rightarrow> map_of fl key = Some True)"

definition configRow :: "wf_json \<Rightarrow> string \<Rightarrow> workflow_node \<Rightarrow> string \<times> val \<Rightarrow> store_error + db_config" where
  "configRow J workflowID n = (\<lambda>(key, v).
     let row = \<lparr> dc_WorkflowID = workflowID, dc_NodeID = wn_ID n, dc_Key = key, dc_PlainValue = None, dc_EncValue = None, dc_IsSensitive = False \<rparr>
     in if isSensitive n key then
          (case v of VBytes ciphertext \<Rightarrow> Inr (row\<lparr> dc_EncValue := Some ciphertext, dc_IsSensitive := True \<rparr>)
                   | _ \<Rightarrow> Inl (StoreFault ''sensitive value is not []byte''))
        else (case enc_any J v of None \<Rightarrow> Inl MarshalFault | Some s \<Rightarrow> Inr (row\<lparr>dc_PlainValue := Some s\<rparr>)))"

definition insertConfigs :: "sql \<Rightarrow> wf_json \<Rightarrow> string \<Rightarrow> workflow_node \<Rightarrow> (wf_tables, unit) dbm" where
  "insertConfigs q J workflowID n =
     each (\<lambda>entry. case configRow J workflowID n entry of
             Inl e \<Rightarrow> fail e
           | Inr row \<Rightarrow> exec q (\<lambda>t. into (insertRow (col_config J) (sameConfig q) row (t_configs t)) (\<lambda>rows. t\<lparr>t_configs := rows\<rparr>)))
       (cfg_entries (wn_Config n))"

definition nodeRow :: "wf_json \<Rightarrow> string \<Rightarrow> workflow_node \<Rightarrow> store_error + db_node" where
  "nodeRow J workflowID n =
     (let (retryMax, retryMs) = (case wn_RetryPolicy n of None \<Rightarrow> (0, defaultRetryBackoffMs) | Some p \<Rightarrow> (rp_MaxRetries p, rp_BackoffMs p));
          row = (\<lambda>parsersJSON. \<lparr> dn_WorkflowID = workflowID, dn_ID = wn_ID n, dn_TypeID = wn_TypeID n, dn_Label = wn_Label n,
                   dn_PositionX = np_X (wn_Position n), dn_PositionY = np_Y (wn_Position n), dn_RetryMax = retryMax,
                   dn_RetryBackoffMs = retryMs, dn_OutputParsers = parsersJSON \<rparr>)
      in if wn_OutputParsers n = [] then Inr (row None)
         else (case enc_parsers J (wn_OutputParsers n) of None \<Rightarrow> Inl MarshalFault | Some s \<Rightarrow> Inr (row (Some s))))"

definition insertNodes :: "sql \<Rightarrow> wf_json \<Rightarrow> string \<Rightarrow> workflow_node list \<Rightarrow> (wf_tables, unit) dbm" where
  "insertNodes q J workflowID =
     each (\<lambda>n. case nodeRow J workflowID n of
             Inl e \<Rightarrow> fail e
           | Inr row \<Rightarrow>
               andThen (exec q (\<lambda>t. into (insertRow (col_node J) (sameNode q) row (t_nodes t)) (\<lambda>rows. t\<lparr>t_nodes := rows\<rparr>)))
                 (\<lambda>_. insertConfigs q J workflowID n))"

definition edgeRow :: "string \<Rightarrow> workflow_edge \<Rightarrow> db_edge" where
  "edgeRow workflowID e =
     \<lparr> de_WorkflowID = workflowID, de_ID = we_ID e, de_SourceID = we_SourceID e, de_TargetID = we_TargetID e,
       de_BranchLabel = we_BranchLabel e, de_IsLoopBack = we_IsLoopBack e \<rparr>"

definition insertEdges :: "sql \<Rightarrow> wf_json \<Rightarrow> string \<Rightarrow> workflow_edge list \<Rightarrow> (wf_tables, unit) dbm" where
  "insertEdges q J workflowID =
     each (\<lambda>e. exec q (\<lambda>t. into (insertRow (col_edge J) (sameEdge q) (edgeRow workflowID e) (t_edges t)) (\<lambda>rows. t\<lparr>t_edges := rows\<rparr>)))"

definition deleteNodeConfigs :: "sql \<Rightarrow> string \<Rightarrow> (wf_tables, unit) dbm" where
  "deleteNodeConfigs q workflowID =
     exec q (\<lambda>t. Inr ((), t\<lparr>t_configs := filter (\<lambda>r. \<not> sql_eq q (dc_WorkflowID r) workflowID) (t_configs t)\<rparr>))"

definition deleteNodes :: "sql \<Rightarrow> string \<Rightarrow> (wf_tables, unit) dbm" where
  "deleteNodes q workflowID =
     exec q (\<lambda>t. Inr ((), t\<lparr>t_nodes := filter (\<lambda>r. \<not> sql_eq q (dn_WorkflowID r) workflowID) (t_nodes t)\<rparr>))"

definition deleteEdges :: "sql \<Rightarrow> string \<Rightarrow> (wf_tables, unit) dbm" where
  "deleteEdges q workflowID =
     exec q (\<lambda>t. Inr ((), t\<lparr>t_edges := filter (\<lambda>r. \<not> sql_eq q (de_WorkflowID r) workflowID) (t_edges t)\<rparr>))"

definition replaceNodesAndEdges :: "sql \<Rightarrow> wf_json \<Rightarrow> string \<Rightarrow> workflow_node list \<Rightarrow> workflow_edge list \<Rightarrow> (wf_tables, unit) dbm" where
  "replaceNodesAndEdges q J workflowID nds eds =
     andThen (deleteNodeConfigs q workflowID) (\<lambda>_.
     andThen (deleteNodes q workflowID) (\<lambda>_.
     andThen (deleteEdges q workflowID) (\<lambda>_.
     andThen (insertNodes q J workflowID nds) (\<lambda>_.
     insertEdges q J workflowID eds))))"

section \<open>Reading the graph\<close>

definition configValue :: "wf_json \<Rightarrow> db_config \<Rightarrow> val" where
  "configValue J r =
     (if dc_IsSensitive r then VBytes (case dc_EncValue r of None \<Rightarrow> [] | Some b \<Rightarrow> b)
      else case dc_PlainValue r of
             None \<Rightarrow> VNil
           | Some s \<Rightarrow> if s = [] then VNil else (case dec_any J s of None \<Rightarrow> VStr s | Some v \<Rightarrow> v))"

text \<open>
  The maps that \<open>loadConfigs\<close> fills, per node. Writing through a node id that is not in the outer map
  writes to a nil map, which panics.
\<close>

type_synonym loaded = "(string \<times> gomap \<times> (string \<times> bool) list) list"

fun addConfigs :: "wf_json \<Rightarrow> db_config list \<Rightarrow> loaded \<Rightarrow> loaded option" where
  "addConfigs J [] m = Some m"
| "addConfigs J (r # rows) m =
     (case map_of m (dc_NodeID r) of
        None \<Rightarrow> None
      | Some (cfg, fl) \<Rightarrow>
          addConfigs J rows (AList.update (dc_NodeID r)
            (AList.update (dc_Key r) (configValue J r) cfg, AList.update (dc_Key r) (dc_IsSensitive r) fl) m))"

definition loadConfigs :: "sql \<Rightarrow> wf_json \<Rightarrow> string \<Rightarrow> string list \<Rightarrow> (wf_tables, loaded) dbm" where
  "loadConfigs q J workflowID nodeIDs =
     andThen (query q (\<lambda>t. Inr (filter (\<lambda>r. sql_eq q (dc_WorkflowID r) workflowID \<and> (\<exists>i \<in> set nodeIDs. sql_eq q (dc_NodeID r) i)) (t_configs t))))
       (\<lambda>rows. case addConfigs J rows (fold (\<lambda>i. AList.update i ([], [])) nodeIDs []) of
                 None \<Rightarrow> fail (StoreFault ''assignment to entry in nil map'')
               | Some m \<Rightarrow> give m)"

definition rowToNode :: "sql \<Rightarrow> wf_json \<Rightarrow> loaded \<Rightarrow> db_node \<Rightarrow> workflow_node" where
  "rowToNode q J m r =
     \<lparr> wn_ID = dn_ID r, wn_TypeID = dn_TypeID r, wn_Label = dn_Label r, wn_Position = \<lparr> np_X = dn_PositionX r, np_Y = dn_PositionY r \<rparr>,
       wn_Config = map_option fst (map_of m (dn_ID r)), wn_SensitiveKeys = map_option snd (map_of m (dn_ID r)),
       wn_RetryPolicy = (if dn_RetryMax r > 0 \<or> dn_RetryBackoffMs r \<noteq> defaultRetryBackoffMs
                         then Some \<lparr> rp_MaxRetries = dn_RetryMax r, rp_BackoffMs = dn_RetryBackoffMs r \<rparr> else None),
       wn_OutputParsers = (case dn_OutputParsers r of
                             None \<Rightarrow> []
                           | Some s \<Rightarrow> if sql_json q s = [] then [] else (case dec_parsers J (sql_json q s) of None \<Rightarrow> [] | Some p \<Rightarrow> p)) \<rparr>"

definition loadNodes :: "sql \<Rightarrow> wf_json \<Rightarrow> string \<Rightarrow> (wf_tables, workflow_node list) dbm" where
  "loadNodes q J workflowID =
     andThen (query q (\<lambda>t. Inr (sort_key (\<lambda>r. sql_key q (dn_ID r)) (filter (\<lambda>r. sql_eq q (dn_WorkflowID r) workflowID) (t_nodes t)))))
       (\<lambda>rows. if rows = [] then give []
               else andThen (loadConfigs q J workflowID (map dn_ID rows)) (\<lambda>m. give (map (rowToNode q J m) rows)))"

definition rowToEdge :: "db_edge \<Rightarrow> workflow_edge" where
  "rowToEdge r =
     \<lparr> we_ID = de_ID r, we_SourceID = de_SourceID r, we_TargetID = de_TargetID r, we_BranchLabel = de_BranchLabel r, we_IsLoopBack = de_IsLoopBack r \<rparr>"

definition loadEdges :: "sql \<Rightarrow> string \<Rightarrow> (wf_tables, workflow_edge list) dbm" where
  "loadEdges q workflowID =
     query q (\<lambda>t. Inr (map rowToEdge (sort_key (\<lambda>r. sql_key q (de_ID r)) (filter (\<lambda>r. sql_eq q (de_WorkflowID r) workflowID) (t_edges t)))))"

section \<open>Workflows\<close>

definition wfVisible :: "sql \<Rightarrow> string \<Rightarrow> string \<Rightarrow> db_workflow \<Rightarrow> bool" where
  "wfVisible q org i row \<longleftrightarrow> sql_eq q (dw_ID row) i \<and> (org \<noteq> [] \<longrightarrow> sql_eq q (dw_OrgID row) org)"

definition workflowWriteRow :: "string \<Rightarrow> string \<Rightarrow> int \<Rightarrow> workflow \<Rightarrow> db_workflow" where
  "workflowWriteRow org cfg now w =
     \<lparr> dw_ID = wf_ID w, dw_OrgID = org, dw_Name = wf_Name w, dw_Description = wf_Description w, dw_TriggerKind = tr_Kind (wf_Trigger w),
       dw_TriggerConfig = Some cfg, dw_InitialDataSchema = rawMessageToPtr (wf_InitialDataSchema w), dw_TimeoutSeconds = wf_TimeoutSeconds w,
       dw_UpdatedAt = now \<rparr>"

definition defaultKind :: "workflow \<Rightarrow> workflow" where
  "defaultKind w = (if tr_Kind (wf_Trigger w) = [] then w\<lparr>wf_Trigger := (wf_Trigger w)\<lparr>tr_Kind := ''manual''\<rparr>\<rparr> else w)"

definition createDefaults :: "string \<Rightarrow> workflow \<Rightarrow> workflow" where
  "createDefaults uuid w =
     defaultKind (w\<lparr> wf_ID := (if wf_ID w = [] then uuid else wf_ID w),
                     wf_TimeoutSeconds := (if wf_TimeoutSeconds w = 0 then 300 else wf_TimeoutSeconds w) \<rparr>)"

definition mysql_CreateWorkflow :: "sql \<Rightarrow> wf_json \<Rightarrow> string \<Rightarrow> string \<Rightarrow> int \<Rightarrow> workflow \<Rightarrow> (wf_tables, workflow) dbm" where
  "mysql_CreateWorkflow q J org uuid now w0 =
     (let w = createDefaults uuid w0
      in case enc_any J (VMap (triggerExtra (wf_Trigger w))) of
           None \<Rightarrow> fail MarshalFault
         | Some cfg \<Rightarrow>
             transaction q
               (andThen (exec q (\<lambda>t. into (insertRow (col_workflow J) (\<lambda>a b. sql_eq q (dw_ID a) (dw_ID b))
                                    (workflowWriteRow (if org = [] then defaultOrg else org) cfg now w) (t_wf t)) (\<lambda>rows. t\<lparr>t_wf := rows\<rparr>))) (\<lambda>_.
                andThen (insertNodes q J (wf_ID w) (wf_Nodes w)) (\<lambda>_.
                andThen (insertEdges q J (wf_ID w) (wf_Edges w)) (\<lambda>_.
                give w)))))"

definition mysql_GetWorkflow :: "sql \<Rightarrow> wf_json \<Rightarrow> string \<Rightarrow> string \<Rightarrow> (wf_tables, workflow) dbm" where
  "mysql_GetWorkflow q J org i =
     andThen (query q (\<lambda>t. firstRow (wfVisible q org i) (t_wf t))) (\<lambda>row.
     andThen (loadNodes q J i) (\<lambda>nds.
     andThen (loadEdges q i) (\<lambda>eds.
     give \<lparr> wf_ID = dw_ID row, wf_Name = dw_Name row, wf_Description = dw_Description row,
            wf_Trigger = unmarshalTriggerConfig q J (dw_TriggerKind row) (dw_TriggerConfig row), wf_TimeoutSeconds = dw_TimeoutSeconds row,
            wf_Nodes = nds, wf_Edges = eds, wf_InitialDataSchema = ptrToRawMessage q (dw_InitialDataSchema row) \<rparr>)))"

definition GetWorkflowSchema :: "sql \<Rightarrow> string \<Rightarrow> string \<Rightarrow> (wf_tables, string) dbm" where
  "GetWorkflowSchema q org i =
     andThen (query q (\<lambda>t. firstRow (wfVisible q org i) (t_wf t))) (\<lambda>row. give (ptrToRawMessage q (dw_InitialDataSchema row)))"

definition ListWorkflows :: "sql \<Rightarrow> string \<Rightarrow> (wf_tables, workflow_summary list) dbm" where
  "ListWorkflows q org =
     query q (\<lambda>t. Inr (map (\<lambda>row. \<lparr> sm_ID = dw_ID row, sm_Name = dw_Name row, sm_Description = dw_Description row, sm_TriggerKind = dw_TriggerKind row,
                          sm_TimeoutSeconds = dw_TimeoutSeconds row,
                          sm_NodeCount = length (filter (\<lambda>n. sql_eq q (dn_WorkflowID n) (dw_ID row)) (t_nodes t)), sm_UpdatedAt = dw_UpdatedAt row \<rparr>)
                 (sort_key (\<lambda>row. - dw_UpdatedAt row) (filter (\<lambda>row. org \<noteq> [] \<longrightarrow> sql_eq q (dw_OrgID row) org) (t_wf t)))))"

text \<open>An \<open>UPDATE\<close> of the matching rows; the columns may refuse a new row. The result is the number of matching rows.\<close>

definition updateRows :: "('r \<Rightarrow> 'r option) \<Rightarrow> ('r \<Rightarrow> bool) \<Rightarrow> ('r \<Rightarrow> 'r) \<Rightarrow> 'r list \<Rightarrow> store_error + nat \<times> 'r list" where
  "updateRows col P f rows =
     (case those (map (\<lambda>r. if P r then col (f r) else Some r) rows) of
        None \<Rightarrow> Inl SqlFault
      | Some rows' \<Rightarrow> Inr (length (filter P rows), rows'))"

text \<open>The \<open>ON UPDATE CURRENT_TIMESTAMP\<close> of \<open>updated_at\<close>: only a row that changes is stamped.\<close>

definition stamped :: "int \<Rightarrow> (db_workflow \<Rightarrow> db_workflow) \<Rightarrow> db_workflow \<Rightarrow> db_workflow" where
  "stamped now f r = (if f r = r then r else (f r)\<lparr>dw_UpdatedAt := now\<rparr>)"

definition updateWorkflows :: "sql \<Rightarrow> wf_json \<Rightarrow> (db_workflow \<Rightarrow> bool) \<Rightarrow> (db_workflow \<Rightarrow> db_workflow) \<Rightarrow> (wf_tables, nat) dbm" where
  "updateWorkflows q J P f =
     exec q (\<lambda>t. case updateRows (col_workflow J) P f (t_wf t) of Inl e \<Rightarrow> Inl e | Inr (n, rows) \<Rightarrow> Inr (n, t\<lparr>t_wf := rows\<rparr>))"

definition setWorkflow :: "string \<Rightarrow> workflow \<Rightarrow> db_workflow \<Rightarrow> db_workflow" where
  "setWorkflow cfg w r =
     r\<lparr> dw_Name := wf_Name w, dw_Description := wf_Description w, dw_TriggerKind := tr_Kind (wf_Trigger w), dw_TriggerConfig := Some cfg,
        dw_InitialDataSchema := rawMessageToPtr (wf_InitialDataSchema w), dw_TimeoutSeconds := wf_TimeoutSeconds w \<rparr>"

definition mysql_UpdateWorkflow :: "sql \<Rightarrow> wf_json \<Rightarrow> string \<Rightarrow> int \<Rightarrow> workflow \<Rightarrow> (wf_tables, workflow) dbm" where
  "mysql_UpdateWorkflow q J org now w0 =
     (let w = defaultKind w0
      in case enc_any J (VMap (triggerExtra (wf_Trigger w))) of
           None \<Rightarrow> fail MarshalFault
         | Some cfg \<Rightarrow>
             transaction q
               (andThen (updateWorkflows q J (wfVisible q org (wf_ID w)) (stamped now (setWorkflow cfg w))) (\<lambda>n.
                if n = 0 then fail ErrNotFound
                else
                  andThen (replaceNodesAndEdges q J (wf_ID w) (wf_Nodes w) (wf_Edges w)) (\<lambda>_.
                  andThen (query q (\<lambda>t. firstRow (\<lambda>r. sql_eq q (dw_ID r) (wf_ID w)) (t_wf t))) (\<lambda>_.
                  give w)))))"

definition deleteRuns :: "sql \<Rightarrow> string \<Rightarrow> (wf_tables, unit) dbm" where
  "deleteRuns q i = exec q (\<lambda>t. Inr ((), t\<lparr>t_wf_runs := filter (\<lambda>r. \<not> sql_eq q (dr_WorkflowID r) i) (t_wf_runs t)\<rparr>))"

definition DeleteWorkflowVersions :: "sql \<Rightarrow> string \<Rightarrow> (wf_tables, unit) dbm" where
  "DeleteWorkflowVersions q i = exec q (\<lambda>t. Inr ((), t\<lparr>t_versions := filter (\<lambda>r. \<not> sql_eq q (dv_WorkflowID r) i) (t_versions t)\<rparr>))"

definition mysql_DeleteWorkflow :: "sql \<Rightarrow> string \<Rightarrow> string \<Rightarrow> (wf_tables, unit) dbm" where
  "mysql_DeleteWorkflow q org i =
     transaction q
       (andThen (deleteNodeConfigs q i) (\<lambda>_.
        andThen (deleteNodes q i) (\<lambda>_.
        andThen (deleteEdges q i) (\<lambda>_.
        andThen (deleteRuns q i) (\<lambda>_.
        andThen (DeleteWorkflowVersions q i) (\<lambda>_.
        andThen (exec q (\<lambda>t. Inr (length (filter (wfVisible q org i) (t_wf t)), t\<lparr>t_wf := filter (\<lambda>r. \<not> wfVisible q org i r) (t_wf t)\<rparr>))) (\<lambda>n.
        if n = 0 then fail ErrNotFound else give ())))))))"

section \<open>Triggers\<close>

definition SaveTriggerConfig :: "sql \<Rightarrow> wf_json \<Rightarrow> int \<Rightarrow> string \<Rightarrow> trigger \<Rightarrow> (wf_tables, unit) dbm" where
  "SaveTriggerConfig q J now workflowID cfg =
     (case enc_any J (VMap (triggerExtra cfg)) of
        None \<Rightarrow> fail MarshalFault
      | Some b \<Rightarrow>
          andThen (updateWorkflows q J (\<lambda>r. sql_eq q (dw_ID r) workflowID) (stamped now (\<lambda>r. r\<lparr> dw_TriggerKind := tr_Kind cfg, dw_TriggerConfig := Some b \<rparr>)))
            (\<lambda>n. if n = 0 then fail ErrNotFound else give ()))"

definition GetTriggerConfig :: "sql \<Rightarrow> wf_json \<Rightarrow> string \<Rightarrow> (wf_tables, trigger) dbm" where
  "GetTriggerConfig q J workflowID =
     andThen (query q (\<lambda>t. firstRow (\<lambda>r. sql_eq q (dw_ID r) workflowID) (t_wf t)))
       (\<lambda>row. give (unmarshalTriggerConfig q J (dw_TriggerKind row) (dw_TriggerConfig row)))"

definition ListTriggerConfigs :: "sql \<Rightarrow> wf_json \<Rightarrow> (wf_tables, (string \<times> trigger) list) dbm" where
  "ListTriggerConfigs q J =
     query q (\<lambda>t. Inr (map (\<lambda>row. (dw_ID row, unmarshalTriggerConfig q J (dw_TriggerKind row) (dw_TriggerConfig row)))
                         (filter (\<lambda>row. \<not> sql_eq q (dw_TriggerKind row) ''manual'') (t_wf t))))"

section \<open>Versions\<close>

definition workflowToSnapshot :: "workflow \<Rightarrow> version_snapshot" where
  "workflowToSnapshot w =
     \<lparr> vs_ID = wf_ID w, vs_Name = wf_Name w, vs_Description = wf_Description w, vs_Trigger = wf_Trigger w, vs_TimeoutSeconds = wf_TimeoutSeconds w,
       vs_Nodes = wf_Nodes w, vs_Edges = wf_Edges w, vs_InitialDataSchema = wf_InitialDataSchema w \<rparr>"

fun snapshotConfig :: "workflow_node \<Rightarrow> gomap \<Rightarrow> store_error + gomap" where
  "snapshotConfig sn [] = Inr []"
| "snapshotConfig sn ((k, v) # entries) =
     (case (if isSensitive sn k
            then (case v of
                    VStr s \<Rightarrow> (case DecodeString s of None \<Rightarrow> Inl (StoreFault ''base64 decode'') | Some b \<Rightarrow> Inr (VBytes b))
                  | _ \<Rightarrow> Inl (StoreFault ''sensitive config is not a string''))
            else Inr v) of
        Inl e \<Rightarrow> Inl e
      | Inr v' \<Rightarrow> (case snapshotConfig sn entries of Inl e \<Rightarrow> Inl e | Inr cfg \<Rightarrow> Inr ((k, v') # cfg)))"

definition snapshotNode :: "workflow_node \<Rightarrow> store_error + workflow_node" where
  "snapshotNode sn = (case snapshotConfig sn (cfg_entries (wn_Config sn)) of Inl e \<Rightarrow> Inl e | Inr cfg \<Rightarrow> Inr (sn\<lparr>wn_Config := Some cfg\<rparr>))"

definition snapshotToWorkflow :: "version_snapshot \<Rightarrow> store_error + workflow" where
  "snapshotToWorkflow snap =
     (case readRows snapshotNode (vs_Nodes snap) of
        Inl e \<Rightarrow> Inl e
      | Inr nds \<Rightarrow>
          Inr \<lparr> wf_ID = vs_ID snap, wf_Name = vs_Name snap, wf_Description = vs_Description snap, wf_Trigger = vs_Trigger snap,
                wf_TimeoutSeconds = vs_TimeoutSeconds snap, wf_Nodes = nds, wf_Edges = vs_Edges snap, wf_InitialDataSchema = vs_InitialDataSchema snap \<rparr>)"

definition maxVersion :: "sql \<Rightarrow> string \<Rightarrow> wf_tables \<Rightarrow> int option" where
  "maxVersion q i t =
     (case map dv_VersionNumber (filter (\<lambda>r. sql_eq q (dv_WorkflowID r) i) (t_versions t)) of [] \<Rightarrow> None | n # ns \<Rightarrow> Some (fold max ns n))"

definition sameVersion :: "sql \<Rightarrow> db_version \<Rightarrow> db_version \<Rightarrow> bool" where
  "sameVersion q a b \<longleftrightarrow> sql_eq q (dv_ID a) (dv_ID b) \<or> sql_eq q (dv_WorkflowID a) (dv_WorkflowID b) \<and> dv_VersionNumber a = dv_VersionNumber b"

definition createWorkflowVersionInTx :: "sql \<Rightarrow> wf_json \<Rightarrow> string \<Rightarrow> workflow \<Rightarrow> (wf_tables, unit) dbm" where
  "createWorkflowVersionInTx q J uuid w =
     (case enc_snapshot J (workflowToSnapshot w) of
        None \<Rightarrow> fail MarshalFault
      | Some defJSON \<Rightarrow>
          andThen (query q (\<lambda>t. Inr (maxVersion q (wf_ID w) t))) (\<lambda>maxVer.
          exec q (\<lambda>t. into (insertRow (col_version J) (sameVersion q)
             \<lparr> dv_ID = uuid, dv_WorkflowID = wf_ID w, dv_VersionNumber = (case maxVer of None \<Rightarrow> 1 | Some m \<Rightarrow> m + 1),
               dv_NodeCount = length (wf_Nodes w), dv_Definition = defJSON \<rparr> (t_versions t)) (\<lambda>rows. t\<lparr>t_versions := rows\<rparr>))))"

definition mysql_CreateWorkflowVersion :: "sql \<Rightarrow> wf_json \<Rightarrow> string \<Rightarrow> workflow \<Rightarrow> (wf_tables, unit) dbm" where
  "mysql_CreateWorkflowVersion q J uuid w = transaction q (createWorkflowVersionInTx q J uuid w)"

definition GetLatestWorkflowVersionNumber :: "sql \<Rightarrow> string \<Rightarrow> (wf_tables, int option) dbm" where
  "GetLatestWorkflowVersionNumber q i = query q (\<lambda>t. Inr (maxVersion q i t))"

definition ListWorkflowVersions :: "sql \<Rightarrow> string \<Rightarrow> (wf_tables, (string \<times> int \<times> nat) list) dbm" where
  "ListWorkflowVersions q i =
     query q (\<lambda>t. Inr (map (\<lambda>r. (dv_ID r, dv_VersionNumber r, dv_NodeCount r))
                  (sort_key (\<lambda>r. - dv_VersionNumber r) (filter (\<lambda>r. sql_eq q (dv_WorkflowID r) i) (t_versions t)))))"

definition versionRow :: "sql \<Rightarrow> string \<Rightarrow> int \<Rightarrow> (wf_tables, db_version) dbm" where
  "versionRow q i k = query q (\<lambda>t. firstRow (\<lambda>r. sql_eq q (dv_WorkflowID r) i \<and> dv_VersionNumber r = k) (t_versions t))"

definition readDefinition :: "wf_json \<Rightarrow> string \<Rightarrow> string \<Rightarrow> store_error + workflow" where
  "readDefinition J i def =
     (case dec_snapshot J def of
        None \<Rightarrow> Inl UnmarshalFault
      | Some snap \<Rightarrow> (case snapshotToWorkflow snap of Inl e \<Rightarrow> Inl e | Inr w \<Rightarrow> Inr (w\<lparr>wf_ID := i\<rparr>)))"

definition mysql_GetWorkflowVersion :: "sql \<Rightarrow> wf_json \<Rightarrow> string \<Rightarrow> int \<Rightarrow> (wf_tables, workflow_version) dbm" where
  "mysql_GetWorkflowVersion q J i k =
     andThen (versionRow q i k) (\<lambda>row.
     andThen (decoded (readDefinition J i (dv_Definition row))) (\<lambda>w.
     give \<lparr> wv_WorkflowID = dv_WorkflowID row, wv_VersionNumber = dv_VersionNumber row, wv_Definition = w \<rparr>))"

definition mysql_RestoreWorkflowVersion :: "sql \<Rightarrow> wf_json \<Rightarrow> string \<Rightarrow> int \<Rightarrow> string \<Rightarrow> int \<Rightarrow> (wf_tables, workflow) dbm" where
  "mysql_RestoreWorkflowVersion q J uuid now i k =
     transaction q
       (andThen (versionRow q i k) (\<lambda>row.
        andThen (decoded (readDefinition J i (dv_Definition row))) (\<lambda>w.
        case enc_any J (VMap (triggerExtra (wf_Trigger w))) of
          None \<Rightarrow> fail MarshalFault
        | Some cfg \<Rightarrow>
            andThen (replaceNodesAndEdges q J i (wf_Nodes w) (wf_Edges w)) (\<lambda>_.
            andThen (updateWorkflows q J (\<lambda>r. sql_eq q (dw_ID r) i) (\<lambda>r. (setWorkflow cfg w r)\<lparr>dw_UpdatedAt := now\<rparr>)) (\<lambda>n.
            if n = 0 then fail ErrNotFound
            else
              andThen (query q (\<lambda>t. firstRow (\<lambda>r. sql_eq q (dw_ID r) i) (t_wf t))) (\<lambda>_.
              andThen (createWorkflowVersionInTx q J uuid w) (\<lambda>_.
              give w)))))))"

text \<open>The store that the vault wraps. Identifiers and times are drawn per statement; the e-mail settings live elsewhere.\<close>

definition mysql_store :: "sql \<Rightarrow> wf_json \<Rightarrow> string \<Rightarrow> (nat \<Rightarrow> string) \<Rightarrow> (nat \<Rightarrow> int)
    \<Rightarrow> (org_email_settings \<Rightarrow> (wf_tables, unit) dbm) \<Rightarrow> (string \<Rightarrow> (wf_tables, org_email_settings) dbm) \<Rightarrow> wf_tables db inner_store" where
  "mysql_store q J org uuid now upsertEmail getEmail = \<lparr>
     in_CreateWorkflow = (\<lambda>w d. mysql_CreateWorkflow q J org (uuid (clock d)) (now (clock d)) w d),
     in_GetWorkflow = mysql_GetWorkflow q J org,
     in_UpdateWorkflow = (\<lambda>w d. mysql_UpdateWorkflow q J org (now (clock d)) w d),
     in_CreateWorkflowVersion = (\<lambda>w d. mysql_CreateWorkflowVersion q J (uuid (clock d)) w d),
     in_GetWorkflowVersion = mysql_GetWorkflowVersion q J,
     in_RestoreWorkflowVersion = (\<lambda>i k d. mysql_RestoreWorkflowVersion q J (uuid (clock d)) (now (clock d)) i k d),
     in_UpsertOrgEmailSettings = upsertEmail, in_GetOrgEmailSettings = getEmail \<rparr>"

end
