(* ===== verification/Workflow_Handler.thy ===== *)
theory Workflow_Handler
  imports Workflow_Store Triggers Workflow_Validator
begin

text \<open>
  The HTTP handlers for workflows and their versions (\<open>internal/api/workflow_handler.go\<close>,
  \<open>workflow_version_handler.go\<close>, \<open>response.go\<close>) over the vault, the MySQL store, the validators and the trigger manager, as
  \<open>cmd/server\<close> composes them. A request body is what the JSON decoder makes of it (\<open>None\<close>: refused). The
  state is the database, the draws of the random source, the trigger manager and
  the failures that are only logged. \<open>org\<close> is the tenant that the authentication middleware has put in the request.
\<close>

section \<open>Parsing a version number\<close>

text \<open>\<open>strconv.Atoi\<close>: an optional sign and decimal digits, in the range of a 64-bit integer.\<close>

definition digitVal :: "char \<Rightarrow> int option" where
  "digitVal c = (if CHR ''0'' \<le> c \<and> c \<le> CHR ''9'' then Some (of_char c - 48) else None)"

fun digitsVal :: "string \<Rightarrow> int \<Rightarrow> int option" where
  "digitsVal [] acc = Some acc"
| "digitsVal (c # s) acc = (case digitVal c of None \<Rightarrow> None | Some d \<Rightarrow> digitsVal s (10 * acc + d))"

definition Atoi :: "string \<Rightarrow> int option" where
  "Atoi s =
     (let neg = (s \<noteq> [] \<and> hd s = CHR ''-''); ds = (if s \<noteq> [] \<and> (hd s = CHR ''-'' \<or> hd s = CHR ''+'') then tl s else s)
      in if ds = [] then None
         else case digitsVal ds 0 of
                None \<Rightarrow> None
              | Some n \<Rightarrow> (let m = (if neg then - n else n) in if wrap64 m = m then Some m else None))"

section \<open>The handlers' surroundings\<close>

record ('a, 'p, 'c) api =
  api_vault :: config_vault
  api_sql :: sql
  api_json :: wf_json
  api_uuid :: "nat \<Rightarrow> string"
  api_now :: "nat \<Rightarrow> int"
  api_putEmail :: "org_email_settings \<Rightarrow> (wf_tables, unit) dbm"
  api_getEmail :: "string \<Rightarrow> (wf_tables, org_email_settings) dbm"
  api_registry :: node_registry
  api_libs :: "('a, 'p) validator_libs"
  api_cron :: "'c cron_lib"
  api_aws :: "string \<Rightarrow> bool"

datatype api_log = TriggerActivationFailed string | RollbackFailed string | RearmFailed string

record 'c api_state =
  as_db :: "wf_tables db"
  as_rand :: nat
  as_triggers :: "'c manager"
  as_log :: "api_log list"

definition api_store :: "('a, 'p, 'c) api \<Rightarrow> string \<Rightarrow> wf_tables db inner_store" where
  "api_store A org = mysql_store (api_sql A) (api_json A) org (api_uuid A) (api_now A) (api_putEmail A) (api_getEmail A)"

section \<open>Responses\<close>

record trigger_response =
  tp_Kind :: string
  tp_CronExpr :: string
  tp_WebhookURL :: string
  tp_KafkaBrokers :: string
  tp_KafkaTopic :: string
  tp_KafkaGroupID :: string
  tp_SQSQueueURL :: string
  tp_SQSRegion :: string

record workflow_response =
  wr_ID :: string
  wr_Name :: string
  wr_Description :: string
  wr_Trigger :: trigger_response
  wr_TimeoutSeconds :: int
  wr_Nodes :: "workflow_node list"
  wr_Edges :: "workflow_edge list"
  wr_InitialDataSchema :: string

record workflow_version_response =
  vr_WorkflowID :: string
  vr_VersionNumber :: int
  vr_Definition :: workflow_response

datatype body =
    NoContent
  | TheWorkflow workflow_response
  | Summaries "workflow_summary list"
  | TheVersion workflow_version_response
  | VersionSummaries "(string \<times> int \<times> nat) list"

datatype cause =
    InvalidBody
  | InvalidWorkflow invalid_workflow
  | InvalidFields "field_validation_error list"
  | InvalidTrigger trigger_error
  | InvalidGraph build_error
  | InvalidVersionNumber
  | Missing
  | StoreSays store_error
  | VaultSays vault_error
  | TriggersSay trigger_error

datatype response = WriteJSON nat body | WriteError nat string cause

fun status :: "response \<Rightarrow> nat" where
  "status (WriteJSON s b) = s"
| "status (WriteError s code c) = s"

definition writeValidationErrors :: "field_validation_error list \<Rightarrow> response" where
  "writeValidationErrors errs = WriteError 400 ''VALIDATION_FAILED'' (InvalidFields errs)"

definition toWorkflowResponse :: "workflow \<Rightarrow> workflow_response" where
  "toWorkflowResponse w =
     (let t = wf_Trigger w
      in \<lparr> wr_ID = wf_ID w, wr_Name = wf_Name w, wr_Description = wf_Description w,
           wr_Trigger = \<lparr> tp_Kind = tr_Kind t, tp_CronExpr = tr_CronExpr t,
                          tp_WebhookURL = (if tr_Kind t = ''webhook'' then ''/v1/webhooks/'' @ wf_ID w else []),
                          tp_KafkaBrokers = tr_KafkaBrokers t, tp_KafkaTopic = tr_KafkaTopic t, tp_KafkaGroupID = tr_KafkaGroupID t,
                          tp_SQSQueueURL = tr_SQSQueueURL t, tp_SQSRegion = tr_SQSRegion t \<rparr>,
           wr_TimeoutSeconds = wf_TimeoutSeconds w, wr_Nodes = wf_Nodes w, wr_Edges = wf_Edges w, wr_InitialDataSchema = wf_InitialDataSchema w \<rparr>)"

text \<open>Masking assigns to the keys of the configuration that are flagged; a key that is flagged but absent is left absent.\<close>

definition maskConfig :: "(string \<times> bool) list \<Rightarrow> gomap \<Rightarrow> gomap" where
  "maskConfig fl cfg =
     fold (\<lambda>(key, sens) c. if sens \<and> map_of c key \<noteq> None then AList.update key (VStr ''***'') c else c) fl cfg"

definition maskSensitiveConfig :: "workflow_node list \<Rightarrow> workflow_node list" where
  "maskSensitiveConfig nodes =
     map (\<lambda>n. n\<lparr>wn_Config := map_option (maskConfig (case wn_SensitiveKeys n of None \<Rightarrow> [] | Some fl \<Rightarrow> fl)) (wn_Config n)\<rparr>) nodes"

definition maskedResponse :: "workflow \<Rightarrow> workflow_response" where
  "maskedResponse w = toWorkflowResponse (w\<lparr>wf_Nodes := maskSensitiveConfig (wf_Nodes w)\<rparr>)"

section \<open>Validation of a request\<close>

definition validateTrigger :: "'c cron_lib \<Rightarrow> trigger \<Rightarrow> trigger_error + unit" where
  "validateTrigger L t =
     (if tr_Kind t = ''cron'' then (case ValidateCronExpr L (tr_CronExpr t) of Inl e \<Rightarrow> Inl (BadCron e) | Inr u \<Rightarrow> Inr u)
      else if tr_Kind t = ''kafka'' then ValidateKafkaConfig (tr_KafkaBrokers t) (tr_KafkaTopic t)
      else if tr_Kind t = ''sqs'' then ValidateSQSConfig (tr_SQSQueueURL t) (tr_SQSRegion t)
      else Inr ())"

text \<open>The checks that create and update make, in their order, once defaults are applied.\<close>

definition checkWorkflow :: "('a, 'p, 'c) api \<Rightarrow> workflow \<Rightarrow> response + unit" where
  "checkWorkflow A w =
     (case validate (api_registry A) w of
        Inl e \<Rightarrow> Inl (WriteError 400 ''VALIDATION_FAILED'' (InvalidWorkflow e))
      | Inr _ \<Rightarrow>
          (let verrs = collectValidationErrors (api_libs A) w (api_registry A)
           in if verrs \<noteq> [] then Inl (writeValidationErrors verrs)
              else case validateTrigger (api_cron A) (wf_Trigger w) of
                     Inl e \<Rightarrow> Inl (WriteError 400 ''VALIDATION_FAILED'' (InvalidTrigger e))
                   | Inr _ \<Rightarrow>
                       (case CycleDetect (wf_Nodes w) (wf_Edges w) of
                          Inl (ErrCycleDetected i) \<Rightarrow> Inl (WriteError 400 ''CYCLE_DETECTED'' (InvalidGraph (ErrCycleDetected i)))
                        | Inl e \<Rightarrow> Inl (WriteError 400 ''VALIDATION_FAILED'' (InvalidGraph e))
                        | Inr _ \<Rightarrow> Inr ())))"

section \<open>Workflows\<close>

definition list_workflows :: "('a, 'p, 'c) api \<Rightarrow> string \<Rightarrow> 'c api_state \<Rightarrow> response \<times> 'c api_state" where
  "list_workflows A org st =
     (case ListWorkflows (api_sql A) org (as_db st) of
        (Inl e, d) \<Rightarrow> (WriteError 500 ''INTERNAL_ERROR'' (StoreSays e), st\<lparr>as_db := d\<rparr>)
      | (Inr summaries, d) \<Rightarrow> (WriteJSON 200 (Summaries summaries), st\<lparr>as_db := d\<rparr>))"

definition create :: "('a, 'p, 'c) api \<Rightarrow> string \<Rightarrow> workflow option \<Rightarrow> 'c api_state \<Rightarrow> response \<times> 'c api_state" where
  "create A org reqBody st =
     (case reqBody of
        None \<Rightarrow> (WriteError 400 ''VALIDATION_FAILED'' InvalidBody, st)
      | Some w0 \<Rightarrow>
          (let w = applyDefaults w0
           in case checkWorkflow A w of
                Inl r \<Rightarrow> (r, st)
              | Inr _ \<Rightarrow>
                  (case CreateWorkflow (api_vault A) (api_store A org) w (as_db st, as_rand st) of
                     (Inl e, d, n) \<Rightarrow> (WriteError 500 ''WORKFLOW_SAVE_FAILED'' (VaultSays e), st\<lparr> as_db := d, as_rand := n \<rparr>)
                   | (Inr created, d, n) \<Rightarrow>
                       (case Upsert (api_cron A) (api_aws A) (wf_ID created) (wf_Trigger created) (as_triggers st) of
                          (Inl e, mg) \<Rightarrow>
                            (case mysql_DeleteWorkflow (api_sql A) org (wf_ID created) d of (undone, d') \<Rightarrow>
                               (WriteError 500 ''TRIGGER_ACTIVATION_FAILED'' (TriggersSay e),
                                st\<lparr> as_db := d', as_rand := n, as_triggers := mg,
                                    as_log := as_log st @ [TriggerActivationFailed (wf_ID created)] @ (if isl undone then [RollbackFailed (wf_ID created)] else []) \<rparr>))
                        | (Inr _, mg) \<Rightarrow>
                            (WriteJSON 201 (TheWorkflow (maskedResponse created)), st\<lparr> as_db := d, as_rand := n, as_triggers := mg \<rparr>)))))"

definition get :: "('a, 'p, 'c) api \<Rightarrow> string \<Rightarrow> string \<Rightarrow> 'c api_state \<Rightarrow> response \<times> 'c api_state" where
  "get A org i st =
     (case GetWorkflow (api_vault A) (api_store A org) i (as_db st) of
        (Inl e, d) \<Rightarrow>
          ((if e = FromStore ErrNotFound then WriteError 404 ''NOT_FOUND'' Missing else WriteError 500 ''INTERNAL_ERROR'' (VaultSays e)), st\<lparr>as_db := d\<rparr>)
      | (Inr w, d) \<Rightarrow> (WriteJSON 200 (TheWorkflow (maskedResponse w)), st\<lparr>as_db := d\<rparr>))"

definition update :: "('a, 'p, 'c) api \<Rightarrow> string \<Rightarrow> string \<Rightarrow> workflow option \<Rightarrow> 'c api_state \<Rightarrow> response \<times> 'c api_state" where
  "update A org i reqBody st =
     (case reqBody of
        None \<Rightarrow> (WriteError 400 ''VALIDATION_FAILED'' InvalidBody, st)
      | Some w0 \<Rightarrow>
          (let w = applyDefaults (w0\<lparr>wf_ID := i\<rparr>)
           in case checkWorkflow A w of
                Inl r \<Rightarrow> (r, st)
              | Inr _ \<Rightarrow>
                  (case UpdateWorkflow (api_vault A) (api_store A org) w (as_db st, as_rand st) of
                     (Inl e, d, n) \<Rightarrow>
                       ((if e = FromStore ErrNotFound then WriteError 404 ''NOT_FOUND'' Missing else WriteError 500 ''WORKFLOW_SAVE_FAILED'' (VaultSays e)),
                        st\<lparr> as_db := d, as_rand := n \<rparr>)
                   | (Inr updated, d, n) \<Rightarrow>
                       (case Upsert (api_cron A) (api_aws A) (wf_ID updated) (wf_Trigger updated) (as_triggers st) of
                          (Inl e, mg) \<Rightarrow>
                            (WriteError 500 ''TRIGGER_ACTIVATION_FAILED'' (TriggersSay e),
                             st\<lparr> as_db := d, as_rand := n, as_triggers := mg, as_log := as_log st @ [TriggerActivationFailed (wf_ID updated)] \<rparr>)
                        | (Inr _, mg) \<Rightarrow>
                            (WriteJSON 200 (TheWorkflow (maskedResponse updated)), st\<lparr> as_db := d, as_rand := n, as_triggers := mg \<rparr>)))))"

definition delete_workflow :: "('a, 'p, 'c) api \<Rightarrow> string \<Rightarrow> string \<Rightarrow> 'c api_state \<Rightarrow> response \<times> 'c api_state" where
  "delete_workflow A org i st =
     (case mysql_DeleteWorkflow (api_sql A) org i (as_db st) of
        (Inl e, d) \<Rightarrow>
          ((if e = ErrNotFound then WriteError 404 ''NOT_FOUND'' Missing else WriteError 500 ''INTERNAL_ERROR'' (StoreSays e)), st\<lparr>as_db := d\<rparr>)
      | (Inr _, d) \<Rightarrow> (WriteJSON 204 NoContent, st\<lparr> as_db := d, as_triggers := Remove (api_cron A) i (as_triggers st) \<rparr>))"

section \<open>Versions\<close>

definition listVersions :: "('a, 'p, 'c) api \<Rightarrow> string \<Rightarrow> string \<Rightarrow> 'c api_state \<Rightarrow> response \<times> 'c api_state" where
  "listVersions A org i st =
     (case GetWorkflow (api_vault A) (api_store A org) i (as_db st) of
        (Inl e, d) \<Rightarrow>
          ((if e = FromStore ErrNotFound then WriteError 404 ''NOT_FOUND'' Missing else WriteError 500 ''INTERNAL_ERROR'' (VaultSays e)), st\<lparr>as_db := d\<rparr>)
      | (Inr _, d) \<Rightarrow>
          (case ListWorkflowVersions (api_sql A) i d of
             (Inl e, d') \<Rightarrow> (WriteError 500 ''INTERNAL_ERROR'' (StoreSays e), st\<lparr>as_db := d'\<rparr>)
           | (Inr summaries, d') \<Rightarrow> (WriteJSON 200 (VersionSummaries summaries), st\<lparr>as_db := d'\<rparr>)))"

definition versionNumber :: "string \<Rightarrow> int option" where
  "versionNumber s = (case Atoi s of None \<Rightarrow> None | Some n \<Rightarrow> if n < 1 then None else Some n)"

definition getVersion :: "('a, 'p, 'c) api \<Rightarrow> string \<Rightarrow> string \<Rightarrow> string \<Rightarrow> 'c api_state \<Rightarrow> response \<times> 'c api_state" where
  "getVersion A org i number st =
     (case versionNumber number of
        None \<Rightarrow> (WriteError 400 ''VALIDATION_FAILED'' InvalidVersionNumber, st)
      | Some k \<Rightarrow>
          (case GetWorkflowVersion (api_vault A) (api_store A org) i k (as_db st) of
             (Inl e, d) \<Rightarrow>
               ((if e = FromStore ErrNotFound then WriteError 404 ''NOT_FOUND'' Missing else WriteError 500 ''INTERNAL_ERROR'' (VaultSays e)), st\<lparr>as_db := d\<rparr>)
           | (Inr ver, d) \<Rightarrow>
               (WriteJSON 200 (TheVersion \<lparr> vr_WorkflowID = wv_WorkflowID ver, vr_VersionNumber = wv_VersionNumber ver,
                                            vr_Definition = maskedResponse (wv_Definition ver) \<rparr>), st\<lparr>as_db := d\<rparr>)))"

definition restoreVersion :: "('a, 'p, 'c) api \<Rightarrow> string \<Rightarrow> string \<Rightarrow> string \<Rightarrow> 'c api_state \<Rightarrow> response \<times> 'c api_state" where
  "restoreVersion A org i number st =
     (case versionNumber number of
        None \<Rightarrow> (WriteError 400 ''VALIDATION_FAILED'' InvalidVersionNumber, st)
      | Some k \<Rightarrow>
          (case RestoreWorkflowVersion (api_vault A) (api_store A org) i k (as_db st) of
             (Inl e, d) \<Rightarrow>
               ((if e = FromStore ErrNotFound then WriteError 404 ''NOT_FOUND'' Missing else WriteError 500 ''INTERNAL_ERROR'' (VaultSays e)), st\<lparr>as_db := d\<rparr>)
           | (Inr restored, d) \<Rightarrow>
               (case Upsert (api_cron A) (api_aws A) i (wf_Trigger restored) (as_triggers st) of (res, mg) \<Rightarrow>
                  (WriteJSON 200 (TheWorkflow (maskedResponse restored)),
                   st\<lparr> as_db := d, as_triggers := mg, as_log := as_log st @ (if isl res then [RearmFailed i] else []) \<rparr>))))"

section \<open>Requests\<close>

datatype request =
    ReqList
  | ReqCreate "workflow option"
  | ReqGet string
  | ReqUpdate string "workflow option"
  | ReqDelete string
  | ReqListVersions string
  | ReqGetVersion string string
  | ReqRestoreVersion string string

text \<open>The routes of \<open>router.go\<close>.\<close>

fun handle :: "('a, 'p, 'c) api \<Rightarrow> string \<Rightarrow> request \<Rightarrow> 'c api_state \<Rightarrow> response \<times> 'c api_state" where
  "handle A org ReqList = list_workflows A org"
| "handle A org (ReqCreate b) = create A org b"
| "handle A org (ReqGet i) = get A org i"
| "handle A org (ReqUpdate i b) = update A org i b"
| "handle A org (ReqDelete i) = delete_workflow A org i"
| "handle A org (ReqListVersions i) = listVersions A org i"
| "handle A org (ReqGetVersion i k) = getVersion A org i k"
| "handle A org (ReqRestoreVersion i k) = restoreVersion A org i k"

end
