(* ===== verification/Workflow_Store_Props.thy ===== *)
theory Workflow_Store_Props
  imports Workflow_Store
begin

text \<open>
  Properties of the workflow store: tenants are isolated from each other's workflows, an operation touches the
  rows of its own workflow only, what was written is read back, and versions are numbered
  and restored consistently.
\<close>

section \<open>Successful calls\<close>

lemma andThen_InrE:
  assumes "andThen m k d = (Inr b, d2)"
  obtains a d1 where "m d = (Inr a, d1)" "k a d1 = (Inr b, d2)"
  using assms by (auto simp: andThen_def split: prod.splits sum.splits)

lemma exec_Inr: "exec q f d = (Inr a, d') \<Longrightarrow> f (tables d) = Inr (a, tables d')"
  by (auto simp: exec_def split: sql_outcome.splits sum.splits)

lemma exec_pure: "exec q (\<lambda>t. Inr (a, g t)) d = (Inr b, d') \<Longrightarrow> b = a \<and> tables d' = g (tables d)"
  by (auto simp: exec_def split: sql_outcome.splits)

lemma query_Inr: "query q f d = (Inr a, d') \<Longrightarrow> f (tables d) = Inr a \<and> tables d' = tables d"
  by (auto simp: query_def split: if_splits)

lemma transaction_InrE:
  assumes "transaction q body d = (Inr a, d')"
  obtains d1 where "body (tick d) = (Inr a, d1)" "tables d1 = tables d'"
  using assms by (auto simp: transaction_def split: if_splits prod.splits sum.splits sql_outcome.splits)

lemma into_Inr: "into x put = Inr ((), t) \<longleftrightarrow> (\<exists>rows. x = Inr rows \<and> t = put rows)"
  by (auto simp: into_def split: sum.splits)

lemma insertRow_Inr:
  "insertRow col same row rows = Inr rows' \<longleftrightarrow> (\<exists>r. col row = Some r \<and> (\<forall>r' \<in> set rows. \<not> same r' r) \<and> rows' = rows @ [r])"
  by (auto simp: insertRow_def split: option.splits if_splits)

section \<open>What a call may touch\<close>

text \<open>The part of the database that does not belong to workflow \<open>i\<close>.\<close>

definition others :: "sql \<Rightarrow> string \<Rightarrow> wf_tables \<Rightarrow> wf_tables" where
  "others q i t = \<lparr> t_wf = filter (\<lambda>r. \<not> sql_eq q (dw_ID r) i) (t_wf t), t_nodes = filter (\<lambda>r. \<not> sql_eq q (dn_WorkflowID r) i) (t_nodes t),
     t_edges = filter (\<lambda>r. \<not> sql_eq q (de_WorkflowID r) i) (t_edges t), t_configs = filter (\<lambda>r. \<not> sql_eq q (dc_WorkflowID r) i) (t_configs t),
     t_versions = filter (\<lambda>r. \<not> sql_eq q (dv_WorkflowID r) i) (t_versions t), t_wf_runs = filter (\<lambda>r. \<not> sql_eq q (dr_WorkflowID r) i) (t_wf_runs t) \<rparr>"

definition frames :: "('t \<Rightarrow> 'v) \<Rightarrow> ('t, 'a) dbm \<Rightarrow> bool" where
  "frames v m \<longleftrightarrow> (\<forall>d. v (tables (snd (m d))) = v (tables d))"

named_theorems frame_rules \<open>calls that keep a view of the database\<close>

lemma frames_query [frame_rules]: "frames v (query q f)"
  by (simp add: frames_def)

lemma frames_give [frame_rules]: "frames v (give a)" "frames v (fail e)" "frames v (\<lambda>d. (x, d))"
  by (simp_all add: frames_def give_def fail_def)

lemma frames_exec: "(\<And>t a t'. f t = Inr (a, t') \<Longrightarrow> v t' = v t) \<Longrightarrow> frames v (exec q f)"
  by (auto simp: frames_def exec_def split: sql_outcome.split sum.split)

lemma frames_andThen [frame_rules]: "frames v m \<Longrightarrow> (\<And>a. frames v (k a)) \<Longrightarrow> frames v (andThen m k)"
  unfolding frames_def andThen_def by (auto split: prod.split sum.split) (metis snd_conv)+

lemma frames_transaction [frame_rules]: "frames v body \<Longrightarrow> frames v (transaction q body)"
  unfolding frames_def transaction_def by (auto split: prod.split sum.split sql_outcome.split) (metis snd_conv tables_tick)+

lemma frames_each [frame_rules]: "(\<And>x. frames v (f x)) \<Longrightarrow> frames v (each f xs)"
  by (induction xs) (auto intro: frame_rules)

lemma frames_if [frame_rules]: "(b \<Longrightarrow> frames v m) \<Longrightarrow> (\<not> b \<Longrightarrow> frames v m') \<Longrightarrow> frames v (if b then m else m')"
  by simp

lemma frames_sum [frame_rules]: "(\<And>e. frames v (l e)) \<Longrightarrow> (\<And>a. frames v (r a)) \<Longrightarrow> frames v (case x of Inl e \<Rightarrow> l e | Inr a \<Rightarrow> r a)"
  by (simp split: sum.split)

lemma frames_option [frame_rules]: "frames v n \<Longrightarrow> (\<And>a. frames v (s a)) \<Longrightarrow> frames v (case x of None \<Rightarrow> n | Some a \<Rightarrow> s a)"
  by (simp split: option.split)

text \<open>The columns keep the keys of a row.\<close>

definition cols_keep :: "wf_json \<Rightarrow> bool" where
  "cols_keep J \<longleftrightarrow>
     (\<forall>r r'. col_workflow J r = Some r' \<longrightarrow> dw_ID r' = dw_ID r \<and> dw_OrgID r' = dw_OrgID r) \<and>
     (\<forall>r r'. col_node J r = Some r' \<longrightarrow> dn_WorkflowID r' = dn_WorkflowID r \<and> dn_ID r' = dn_ID r) \<and>
     (\<forall>r r'. col_edge J r = Some r' \<longrightarrow> de_WorkflowID r' = de_WorkflowID r \<and> de_ID r' = de_ID r) \<and>
     (\<forall>r r'. col_config J r = Some r' \<longrightarrow> dc_WorkflowID r' = dc_WorkflowID r \<and> dc_NodeID r' = dc_NodeID r) \<and>
     (\<forall>r r'. col_version J r = Some r' \<longrightarrow> dv_WorkflowID r' = dv_WorkflowID r \<and> dv_VersionNumber r' = dv_VersionNumber r)"

lemma sql_eq_refl [simp]: "sql_eq q a a"
  by (simp add: sql_eq_def)

lemma configRow_wid: "configRow J i n entry = Inr row \<Longrightarrow> dc_WorkflowID row = i"
  by (cases entry) (auto simp: configRow_def Let_def split: if_splits val.splits option.splits)

lemma nodeRow_wid: "nodeRow J i n = Inr row \<Longrightarrow> dn_WorkflowID row = i"
  by (auto simp: nodeRow_def Let_def split: if_splits option.splits)

lemma frames_insertConfigs [frame_rules]:
  assumes "cols_keep J" shows "frames (others q i) (insertConfigs q J i n)"
  unfolding insertConfigs_def
proof (rule frames_each)
  fix entry
  show "frames (others q i) (case configRow J i n entry of Inl e \<Rightarrow> fail e
     | Inr row \<Rightarrow> exec q (\<lambda>t. into (insertRow (col_config J) (sameConfig q) row (t_configs t)) (\<lambda>rows. t\<lparr>t_configs := rows\<rparr>)))"
    using assms by (auto split: sum.split intro!: frame_rules frames_exec dest!: configRow_wid simp: into_Inr insertRow_Inr others_def cols_keep_def)
qed

lemma frames_insertNodes [frame_rules]:
  assumes "cols_keep J" shows "frames (others q i) (insertNodes q J i nds)"
  unfolding insertNodes_def
proof (rule frames_each)
  fix n
  show "frames (others q i) (case nodeRow J i n of Inl e \<Rightarrow> fail e
     | Inr row \<Rightarrow> andThen (exec q (\<lambda>t. into (insertRow (col_node J) (sameNode q) row (t_nodes t)) (\<lambda>rows. t\<lparr>t_nodes := rows\<rparr>))) (\<lambda>_. insertConfigs q J i n))"
    using assms by (auto split: sum.split intro!: frame_rules frames_exec dest!: nodeRow_wid simp: into_Inr insertRow_Inr others_def cols_keep_def)
qed

lemma frames_insertEdges [frame_rules]: "cols_keep J \<Longrightarrow> frames (others q i) (insertEdges q J i eds)"
  unfolding insertEdges_def
  by (intro frame_rules frames_exec) (auto simp: into_Inr insertRow_Inr others_def cols_keep_def edgeRow_def)

lemma frames_deletes [frame_rules]:
  "frames (others q i) (deleteNodeConfigs q i)" "frames (others q i) (deleteNodes q i)" "frames (others q i) (deleteEdges q i)"
  "frames (others q i) (deleteRuns q i)" "frames (others q i) (DeleteWorkflowVersions q i)"
  unfolding deleteNodeConfigs_def deleteNodes_def deleteEdges_def deleteRuns_def DeleteWorkflowVersions_def
  by (rule frames_exec; auto simp: others_def)+

lemma frames_replace [frame_rules]: "cols_keep J \<Longrightarrow> frames (others q i) (replaceNodesAndEdges q J i nds eds)"
  unfolding replaceNodesAndEdges_def by (intro frame_rules)

lemma those_filter:
  "those (map (\<lambda>r. if P r then g r else Some r) rows) = Some rows' \<Longrightarrow> (\<And>r r'. P r \<Longrightarrow> g r = Some r' \<Longrightarrow> \<not> Q r \<and> \<not> Q r') \<Longrightarrow> filter Q rows' = filter Q rows"
  by (induction rows arbitrary: rows') (auto split: if_splits option.splits)

lemma frames_updateWorkflows [frame_rules]:
  assumes "cols_keep J" "\<And>r. P r \<Longrightarrow> sql_eq q (dw_ID r) i" "\<And>r. dw_ID (f r) = dw_ID r"
  shows "frames (others q i) (updateWorkflows q J P f)"
  unfolding updateWorkflows_def
proof (rule frames_exec)
  fix t t' :: wf_tables and a
  assume "(case updateRows (col_workflow J) P f (t_wf t) of Inl e \<Rightarrow> Inl e | Inr (n, rows) \<Rightarrow> Inr (n, t\<lparr>t_wf := rows\<rparr>)) = Inr (a, t')"
  then obtain rows where rows: "those (map (\<lambda>r. if P r then col_workflow J (f r) else Some r) (t_wf t)) = Some rows" "t' = t\<lparr>t_wf := rows\<rparr>"
    by (auto simp: updateRows_def split: option.splits)
  from rows(1) have "filter (\<lambda>r. \<not> sql_eq q (dw_ID r) i) rows = filter (\<lambda>r. \<not> sql_eq q (dw_ID r) i) (t_wf t)"
    using assms by (intro those_filter[OF rows(1)]) (auto simp: cols_keep_def)
  with rows(2) show "others q i t' = others q i t" by (simp add: others_def)
qed

lemma frames_version [frame_rules]: "cols_keep J \<Longrightarrow> wf_ID w = i \<Longrightarrow> frames (others q i) (createWorkflowVersionInTx q J uuid w)"
  unfolding createWorkflowVersionInTx_def
  by (intro frame_rules frames_exec) (auto simp: into_Inr insertRow_Inr others_def cols_keep_def)

lemma readDefinition_ID: "readDefinition J i def = Inr w \<Longrightarrow> wf_ID w = i"
  by (auto simp: readDefinition_def split: option.splits sum.splits)

lemma frames_decoded [frame_rules]: "(\<And>a. x = Inr a \<Longrightarrow> frames v (k a)) \<Longrightarrow> frames v (andThen (\<lambda>d. (x, d)) k)"
  by (cases x) (auto simp: frames_def andThen_def)

lemma ids_simps [simp]:
  "dw_ID (stamped now f r) = (if f r = r then dw_ID r else dw_ID (f r))" "dw_ID (setWorkflow cfg w r) = dw_ID r" "wf_ID (defaultKind w) = wf_ID w"
  by (simp_all add: stamped_def setWorkflow_def defaultKind_def)

lemma frames_insertWorkflow [frame_rules]:
  "cols_keep J \<Longrightarrow> wf_ID w = i \<Longrightarrow> frames (others q i) (exec q (\<lambda>t. into (insertRow (col_workflow J) same (workflowWriteRow org cfg now w) (t_wf t)) (\<lambda>rows. t\<lparr>t_wf := rows\<rparr>)))"
  by (rule frames_exec) (auto simp: into_Inr insertRow_Inr others_def cols_keep_def workflowWriteRow_def)

lemma Create_frame: "cols_keep J \<Longrightarrow> frames (others q (wf_ID (createDefaults uuid w))) (mysql_CreateWorkflow q J org uuid now w)"
  unfolding mysql_CreateWorkflow_def Let_def by (intro frame_rules) auto

lemma Update_frame: "cols_keep J \<Longrightarrow> frames (others q (wf_ID w)) (mysql_UpdateWorkflow q J org now w)"
  unfolding mysql_UpdateWorkflow_def Let_def
  by (auto intro!: frame_rules split: option.split simp: wfVisible_def)

lemma Delete_frame: "frames (others q i) (mysql_DeleteWorkflow q org i)"
  unfolding mysql_DeleteWorkflow_def
  by (intro frame_rules frames_exec) (auto simp: others_def wfVisible_def intro: filter_cong)

lemma Restore_frame: "cols_keep J \<Longrightarrow> frames (others q i) (mysql_RestoreWorkflowVersion q J uuid now i k)"
  unfolding mysql_RestoreWorkflowVersion_def versionRow_def
  by (intro frame_rules) (auto dest: readDefinition_ID)

lemma Version_frame: "cols_keep J \<Longrightarrow> frames (others q (wf_ID w)) (mysql_CreateWorkflowVersion q J uuid w)"
  unfolding mysql_CreateWorkflowVersion_def by (intro frame_rules) auto

section \<open>Tenants\<close>

text \<open>No row of workflow \<open>i\<close> belongs to the tenant.\<close>

definition foreign :: "sql \<Rightarrow> string \<Rightarrow> string \<Rightarrow> wf_tables \<Rightarrow> bool" where
  "foreign q org i t \<longleftrightarrow> (\<forall>r \<in> set (t_wf t). \<not> wfVisible q org i r)"

lemma foreign_filter: "foreign q org i t \<Longrightarrow> filter (wfVisible q org i) (t_wf t) = []" "foreign q org i t \<Longrightarrow> find (wfVisible q org i) (t_wf t) = None"
  by (auto simp: foreign_def filter_empty_conv find_None_iff)

text \<open>A transaction whose body cannot succeed from the current tables leaves them as they are.\<close>

lemma transaction_refused:
  "(\<And>d1. tables d1 = tables d \<Longrightarrow> isl (fst (body d1))) \<Longrightarrow> isl (fst (transaction q body d)) \<and> tables (snd (transaction q body d)) = tables d"
  unfolding transaction_def by (auto split: prod.split sum.split) (metis fst_conv sum.disc(2) tables_tick)+

lemma andThen_refused:
  "(\<And>a d1. m d = (Inr a, d1) \<Longrightarrow> isl (fst (k a d1))) \<Longrightarrow> isl (fst (andThen m k d))"
  by (auto simp: andThen_def split: prod.split sum.split)

lemma updateWorkflows_refused:
  "foreign q org i (tables d) \<Longrightarrow> updateWorkflows q J (wfVisible q org i) f d = (Inr n, d1) \<Longrightarrow> n = 0"
  by (auto dest!: exec_Inr simp: updateWorkflows_def updateRows_def foreign_filter split: sum.splits option.splits)

lemma deletes_keep_workflows:
  "frames t_wf (deleteNodeConfigs q i)" "frames t_wf (deleteNodes q i)" "frames t_wf (deleteEdges q i)"
  "frames t_wf (deleteRuns q i)" "frames t_wf (DeleteWorkflowVersions q i)"
  unfolding deleteNodeConfigs_def deleteNodes_def deleteEdges_def deleteRuns_def DeleteWorkflowVersions_def
  by (rule frames_exec; auto)+

lemma framesD: "frames v m \<Longrightarrow> m d = (x, d') \<Longrightarrow> v (tables d') = v (tables d)"
  unfolding frames_def by (metis snd_conv)

lemma Delete_refused:
  assumes "foreign q org i (tables d)"
  shows "isl (fst (mysql_DeleteWorkflow q org i d)) \<and> tables (snd (mysql_DeleteWorkflow q org i d)) = tables d"
  unfolding mysql_DeleteWorkflow_def
proof (rule transaction_refused)
  fix d1 :: "wf_tables db"
  assume "tables d1 = tables d"
  note keep = deletes_keep_workflows[THEN framesD]
  show "isl (fst (andThen (deleteNodeConfigs q i) (\<lambda>_. andThen (deleteNodes q i) (\<lambda>_. andThen (deleteEdges q i) (\<lambda>_.
     andThen (deleteRuns q i) (\<lambda>_. andThen (DeleteWorkflowVersions q i) (\<lambda>_.
     andThen (exec q (\<lambda>t. Inr (length (filter (wfVisible q org i) (t_wf t)), t\<lparr>t_wf := filter (\<lambda>r. \<not> wfVisible q org i r) (t_wf t)\<rparr>)))
       (\<lambda>n. if n = 0 then fail ErrNotFound else give ())))))) d1))"
  proof (intro andThen_refused)
    fix a1 d2 a2 d3 a3 d4 a4 d5 a5 d6 n d7
    assume "deleteNodeConfigs q i d1 = (Inr a1, d2)" "deleteNodes q i d2 = (Inr a2, d3)" "deleteEdges q i d3 = (Inr a3, d4)"
      "deleteRuns q i d4 = (Inr a4, d5)" "DeleteWorkflowVersions q i d5 = (Inr a5, d6)"
      and del: "exec q (\<lambda>t. Inr (length (filter (wfVisible q org i) (t_wf t)), t\<lparr>t_wf := filter (\<lambda>r. \<not> wfVisible q org i r) (t_wf t)\<rparr>)) d6 = (Inr n, d7)"
    then have "t_wf (tables d6) = t_wf (tables d)" using keep \<open>tables d1 = tables d\<close> by metis
    with assms have "foreign q org i (tables d6)" by (simp add: foreign_def)
    with exec_Inr[OF del] have "n = 0" by (simp add: foreign_filter)
    then show "isl (fst ((if n = 0 then fail ErrNotFound else give ()) d7))" by (simp add: fail_def)
  qed
qed

lemma Update_refused:
  assumes "foreign q org (wf_ID w) (tables d)"
  shows "isl (fst (mysql_UpdateWorkflow q J org now w d)) \<and> tables (snd (mysql_UpdateWorkflow q J org now w d)) = tables d"
proof (cases "enc_any J (VMap (triggerExtra (wf_Trigger (defaultKind w))))")
  case (Some cfg)
  show ?thesis
    unfolding mysql_UpdateWorkflow_def Let_def Some option.case
  proof (intro transaction_refused andThen_refused)
    fix d1 d2 :: "wf_tables db" and n
    assume "tables d1 = tables d" and upd: "updateWorkflows q J (wfVisible q org (wf_ID (defaultKind w))) (stamped now (setWorkflow cfg (defaultKind w))) d1 = (Inr n, d2)"
    then have "n = 0" using updateWorkflows_refused[OF _ upd] assms by simp
    then show "isl (fst ((if n = 0 then fail ErrNotFound
       else andThen (replaceNodesAndEdges q J (wf_ID (defaultKind w)) (wf_Nodes (defaultKind w)) (wf_Edges (defaultKind w))) (\<lambda>_.
         andThen (query q (\<lambda>t. firstRow (\<lambda>r. sql_eq q (dw_ID r) (wf_ID (defaultKind w))) (t_wf t))) (\<lambda>_. give (defaultKind w)))) d2))"
      by (simp add: fail_def)
  qed
qed (simp add: mysql_UpdateWorkflow_def Let_def fail_def)

lemma Get_refused:
  assumes "foreign q org i (tables d)"
  shows "isl (fst (mysql_GetWorkflow q J org i d)) \<and> tables (snd (mysql_GetWorkflow q J org i d)) = tables d"
    and "isl (fst (GetWorkflowSchema q org i d))"
  using assms by (auto simp: mysql_GetWorkflow_def GetWorkflowSchema_def andThen_def query_def foreign_filter)

text \<open>
  C24. Tenants and workflows are kept apart. Let a request carry a tenant, and let no row of
  workflow \<open>i\<close> belong to that tenant. Then \<open>GetWorkflow\<close>,
  \<open>GetWorkflowSchema\<close>, \<open>UpdateWorkflow\<close> and
  \<open>DeleteWorkflow\<close> fail, and the tables are exactly as before, also when statements
  fail half-way: the child rows that \<open>DeleteWorkflow\<close> removes before it checks the
  owner are restored. And whatever creating, updating, deleting a workflow or restoring one of
  its versions does, with any outcome of any statement, the rows of all other workflows stay as
  they are. The operations on versions take no tenant, so the first part does not cover them.
\<close>

theorem workflow_store_isolation:
  assumes "org \<noteq> []" "\<forall>r \<in> set (t_wf (tables d)). sql_eq q (dw_ID r) i \<longrightarrow> \<not> sql_eq q (dw_OrgID r) org" and "cols_keep J" "wf_ID w = i" "wf_ID fresh = i" "i \<noteq> []"
  shows "isl (fst (mysql_GetWorkflow q J org i d)) \<and> isl (fst (GetWorkflowSchema q org i d)) \<and>
    isl (fst (mysql_UpdateWorkflow q J org now w d)) \<and> tables (snd (mysql_UpdateWorkflow q J org now w d)) = tables d \<and>
    isl (fst (mysql_DeleteWorkflow q org i d)) \<and> tables (snd (mysql_DeleteWorkflow q org i d)) = tables d \<and>
    (\<forall>tenant d'. others q i (tables (snd (mysql_CreateWorkflow q J tenant uuid now fresh d'))) = others q i (tables d') \<and>
       others q i (tables (snd (mysql_UpdateWorkflow q J tenant now w d'))) = others q i (tables d') \<and>
       others q i (tables (snd (mysql_DeleteWorkflow q tenant i d'))) = others q i (tables d') \<and>
       others q i (tables (snd (mysql_RestoreWorkflowVersion q J uuid now i k d'))) = others q i (tables d'))"
proof -
  have foreign: "foreign q org i (tables d)" using assms(1,2) by (auto simp: foreign_def wfVisible_def)
  have id: "wf_ID (createDefaults uuid fresh) = i" using assms(5,6) by (simp add: createDefaults_def)
  show ?thesis
    using Get_refused[OF foreign] Update_refused[of q org w d] Delete_refused[OF foreign] foreign assms(4)
      Create_frame[OF assms(3), of q uuid fresh] Update_frame[OF assms(3), of q w] Delete_frame[of q i] Restore_frame[OF assms(3), of q i] id
    by (simp add: frames_def)
qed

end
