(* ===== verification/Workflow_Roundtrip.thy ===== *)
theory Workflow_Roundtrip
  imports Workflow_Store_Props Vault_Props
begin

text \<open>
  What the workflow store reads back. A graph that was written and read again is the same up to what the
  tables cannot express: nodes and edges come back ordered by their ids, a configuration is
  never nil, every configuration key carries its sensitivity, and the retry policy that means no retries
  with the default back-off becomes no policy. Composed with the vault, a saved workflow reads as submitted.
\<close>

section \<open>Tables that rows are appended to\<close>

locale appendable =
  fixes get :: "wf_tables \<Rightarrow> 'r list" and put :: "'r list \<Rightarrow> wf_tables \<Rightarrow> wf_tables"
  assumes get_put: "get (put rows t) = rows"
    and put_put: "put rows (put rows' t) = put rows t"
    and put_get: "put (get t) t = t"
begin

lemma each_appends:
  assumes "\<And>x d d'. f x d = (Inr (), d') \<Longrightarrow>
      \<exists>r. R x r \<and> (\<forall>r' \<in> set (get (tables d)). \<not> same r' r) \<and> tables d' = put (get (tables d) @ [r]) (tables d)"
    and "each f xs d = (Inr (), d')"
  shows "\<exists>rows. list_all2 R xs rows \<and> sorted_wrt (\<lambda>a b. \<not> same a b) rows \<and>
      (\<forall>a \<in> set (get (tables d)). \<forall>b \<in> set rows. \<not> same a b) \<and> tables d' = put (get (tables d) @ rows) (tables d)"
  using assms(2)
proof (induction xs arbitrary: d)
  case Nil
  then show ?case by (simp add: give_def put_get)
next
  case (Cons x xs)
  from Cons.prems obtain d1 where d1: "f x d = (Inr (), d1)" "each f xs d1 = (Inr (), d')" by (auto elim: andThen_InrE)
  from assms(1)[OF d1(1)] obtain r where r: "R x r" "\<forall>r' \<in> set (get (tables d)). \<not> same r' r" "tables d1 = put (get (tables d) @ [r]) (tables d)"
    by blast
  from Cons.IH[OF d1(2)] obtain rows where "list_all2 R xs rows" "sorted_wrt (\<lambda>a b. \<not> same a b) rows"
    "\<forall>a \<in> set (get (tables d) @ [r]). \<forall>b \<in> set rows. \<not> same a b" "tables d' = put (get (tables d) @ r # rows) (tables d)"
    by (auto simp: r(3) get_put put_put)
  with r show ?case by (intro exI[of _ "r # rows"]) auto
qed

end

interpretation configTable: appendable t_configs "\<lambda>rows t. t\<lparr>t_configs := rows\<rparr>"
  by unfold_locales simp_all

interpretation edgeTable: appendable t_edges "\<lambda>rows t. t\<lparr>t_edges := rows\<rparr>"
  by unfold_locales simp_all

text \<open>Columns that keep what they are given.\<close>

definition cols_same :: "wf_json \<Rightarrow> bool" where
  "cols_same J \<longleftrightarrow> (\<forall>r r'. col_workflow J r = Some r' \<longrightarrow> r' = r) \<and> (\<forall>r r'. col_node J r = Some r' \<longrightarrow> r' = r) \<and>
     (\<forall>r r'. col_edge J r = Some r' \<longrightarrow> r' = r) \<and> (\<forall>r r'. col_config J r = Some r' \<longrightarrow> r' = r) \<and> (\<forall>r r'. col_version J r = Some r' \<longrightarrow> r' = r)"

lemma cols_sameD:
  "cols_same J \<Longrightarrow> col_workflow J r = Some r' \<Longrightarrow> r' = r" "cols_same J \<Longrightarrow> col_node J n = Some n' \<Longrightarrow> n' = n"
  "cols_same J \<Longrightarrow> col_edge J e = Some e' \<Longrightarrow> e' = e" "cols_same J \<Longrightarrow> col_config J c = Some c' \<Longrightarrow> c' = c"
  "cols_same J \<Longrightarrow> col_version J v = Some v' \<Longrightarrow> v' = v"
  unfolding cols_same_def by blast+

lemma cols_same_keep: "cols_same J \<Longrightarrow> cols_keep J"
  unfolding cols_same_def cols_keep_def by blast

definition configRows :: "sql \<Rightarrow> wf_json \<Rightarrow> string \<Rightarrow> workflow_node \<Rightarrow> db_config list \<Rightarrow> bool" where
  "configRows q J i n rows \<longleftrightarrow> list_all2 (\<lambda>e r. configRow J i n e = Inr r) (cfg_entries (wn_Config n)) rows \<and> sorted_wrt (\<lambda>a b. \<not> sameConfig q a b) rows"

lemma insertConfigs_Inr:
  assumes "cols_same J" "insertConfigs q J i n d = (Inr (), d')"
  shows "\<exists>rows. configRows q J i n rows \<and> tables d' = (tables d)\<lparr>t_configs := t_configs (tables d) @ rows\<rparr>"
proof -
  have step: "\<exists>r. configRow J i n e = Inr r \<and> (\<forall>r' \<in> set (t_configs (tables d)). \<not> sameConfig q r' r) \<and>
      tables d' = (tables d)\<lparr>t_configs := t_configs (tables d) @ [r]\<rparr>"
    if "(case configRow J i n e of Inl e \<Rightarrow> fail e
       | Inr row \<Rightarrow> exec q (\<lambda>t. into (insertRow (col_config J) (sameConfig q) row (t_configs t)) (\<lambda>rows. t\<lparr>t_configs := rows\<rparr>))) d = (Inr (), d')"
    for e and d d' :: "wf_tables db"
    using that assms(1) by (auto simp: fail_def into_Inr insertRow_Inr dest!: exec_Inr cols_sameD(4)[OF assms(1)] split: sum.splits)
  have "\<exists>rows. list_all2 (\<lambda>e r. configRow J i n e = Inr r) (cfg_entries (wn_Config n)) rows \<and> sorted_wrt (\<lambda>a b. \<not> sameConfig q a b) rows \<and>
      (\<forall>a \<in> set (t_configs (tables d)). \<forall>b \<in> set rows. \<not> sameConfig q a b) \<and> tables d' = (tables d)\<lparr>t_configs := t_configs (tables d) @ rows\<rparr>"
    by (rule configTable.each_appends[OF _ assms(2)[unfolded insertConfigs_def]]) (rule step)
  then show ?thesis unfolding configRows_def by blast
qed

lemma insertEdges_Inr:
  assumes "cols_same J" "insertEdges q J i eds d = (Inr (), d')"
  shows "tables d' = (tables d)\<lparr>t_edges := t_edges (tables d) @ map (edgeRow i) eds\<rparr>"
proof -
  have step: "\<exists>r. r = edgeRow i e \<and> (\<forall>r' \<in> set (t_edges (tables d)). \<not> sameEdge q r' r) \<and> tables d' = (tables d)\<lparr>t_edges := t_edges (tables d) @ [r]\<rparr>"
    if "exec q (\<lambda>t. into (insertRow (col_edge J) (sameEdge q) (edgeRow i e) (t_edges t)) (\<lambda>rows. t\<lparr>t_edges := rows\<rparr>)) d = (Inr (), d')"
    for e and d d' :: "wf_tables db"
    using that by (auto simp: into_Inr insertRow_Inr dest!: exec_Inr cols_sameD(3)[OF assms(1)])
  have "\<exists>rows. list_all2 (\<lambda>e r. r = edgeRow i e) eds rows \<and> sorted_wrt (\<lambda>a b. \<not> sameEdge q a b) rows \<and>
      (\<forall>a \<in> set (t_edges (tables d)). \<forall>b \<in> set rows. \<not> sameEdge q a b) \<and> tables d' = (tables d)\<lparr>t_edges := t_edges (tables d) @ rows\<rparr>"
    by (rule edgeTable.each_appends[OF _ assms(2)[unfolded insertEdges_def]]) (rule step)
  then obtain rows where "list_all2 (\<lambda>e r. r = edgeRow i e) eds rows" "tables d' = (tables d)\<lparr>t_edges := t_edges (tables d) @ rows\<rparr>"
    by blast
  moreover from this(1) have "rows = map (edgeRow i) eds" by (induction rule: list_all2_induct) auto
  ultimately show ?thesis by simp
qed

definition nodeRows :: "sql \<Rightarrow> wf_json \<Rightarrow> string \<Rightarrow> workflow_node list \<Rightarrow> db_node list \<Rightarrow> db_config list list \<Rightarrow> bool" where
  "nodeRows q J i nds nrows crows \<longleftrightarrow> list_all2 (\<lambda>n r. nodeRow J i n = Inr r) nds nrows \<and>
     sorted_wrt (\<lambda>a b. \<not> sameNode q a b) nrows \<and> list_all2 (configRows q J i) nds crows"

lemma insertNodes_Inr:
  assumes "cols_same J" "insertNodes q J i nds d = (Inr (), d')"
  shows "\<exists>nrows crows. nodeRows q J i nds nrows crows \<and> (\<forall>a \<in> set (t_nodes (tables d)). \<forall>b \<in> set nrows. \<not> sameNode q a b) \<and>
    tables d' = (tables d)\<lparr>t_nodes := t_nodes (tables d) @ nrows, t_configs := t_configs (tables d) @ concat crows\<rparr>"
  using assms(2)
proof (induction nds arbitrary: d)
  case Nil
  then show ?case by (auto simp: insertNodes_def give_def nodeRows_def)
next
  case (Cons n nds)
  from Cons.prems obtain d2 where d2: "(case nodeRow J i n of Inl e \<Rightarrow> fail e
      | Inr row \<Rightarrow> andThen (exec q (\<lambda>t. into (insertRow (col_node J) (sameNode q) row (t_nodes t)) (\<lambda>rows. t\<lparr>t_nodes := rows\<rparr>)))
          (\<lambda>_. insertConfigs q J i n)) d = (Inr (), d2)" "insertNodes q J i nds d2 = (Inr (), d')"
    by (auto simp: insertNodes_def elim: andThen_InrE)
  then obtain row d1 where row: "nodeRow J i n = Inr row" "insertConfigs q J i n d1 = (Inr (), d2)"
    "exec q (\<lambda>t. into (insertRow (col_node J) (sameNode q) row (t_nodes t)) (\<lambda>rows. t\<lparr>t_nodes := rows\<rparr>)) d = (Inr (), d1)"
    by (auto simp: fail_def elim: andThen_InrE split: sum.splits)
  then have t1: "\<forall>r \<in> set (t_nodes (tables d)). \<not> sameNode q r row" "tables d1 = (tables d)\<lparr>t_nodes := t_nodes (tables d) @ [row]\<rparr>"
    by (auto simp: into_Inr insertRow_Inr dest!: exec_Inr cols_sameD(2)[OF assms(1)])
  from insertConfigs_Inr[OF assms(1) row(2)] obtain crow where crow: "configRows q J i n crow"
    "tables d2 = (tables d1)\<lparr>t_configs := t_configs (tables d1) @ crow\<rparr>" by blast
  from Cons.IH[OF d2(2)] obtain nrows crows where rest: "nodeRows q J i nds nrows crows"
    "\<forall>a \<in> set (t_nodes (tables d2)). \<forall>b \<in> set nrows. \<not> sameNode q a b"
    "tables d' = (tables d2)\<lparr>t_nodes := t_nodes (tables d2) @ nrows, t_configs := t_configs (tables d2) @ concat crows\<rparr>" by blast
  show ?case
    using t1 crow rest row(1) by (intro exI[of _ "row # nrows"] exI[of _ "crow # crows"]) (auto simp: nodeRows_def)
qed

section \<open>Reading a graph\<close>

text \<open>The rows of workflow \<open>i\<close> hold the graph.\<close>

definition holds :: "sql \<Rightarrow> wf_json \<Rightarrow> string \<Rightarrow> workflow_node list \<Rightarrow> workflow_edge list \<Rightarrow> wf_tables \<Rightarrow> bool" where
  "holds q J i nds eds t \<longleftrightarrow>
     (\<exists>nrows crows. nodeRows q J i nds nrows crows \<and> filter (\<lambda>r. sql_eq q (dn_WorkflowID r) i) (t_nodes t) = nrows \<and>
        filter (\<lambda>r. sql_eq q (dc_WorkflowID r) i) (t_configs t) = concat crows) \<and>
     filter (\<lambda>r. sql_eq q (de_WorkflowID r) i) (t_edges t) = map (edgeRow i) eds"

definition vacant :: "sql \<Rightarrow> string \<Rightarrow> wf_tables \<Rightarrow> bool" where
  "vacant q i t \<longleftrightarrow> filter (\<lambda>r. sql_eq q (dn_WorkflowID r) i) (t_nodes t) = [] \<and> filter (\<lambda>r. sql_eq q (dc_WorkflowID r) i) (t_configs t) = [] \<and>
     filter (\<lambda>r. sql_eq q (de_WorkflowID r) i) (t_edges t) = []"

lemma list_all2_right: "list_all2 P xs ys \<Longrightarrow> y \<in> set ys \<Longrightarrow> \<exists>x \<in> set xs. P x y"
  by (induction rule: list_all2_induct) auto

lemma configRowsD: "configRows q J i n rows \<Longrightarrow> r \<in> set rows \<Longrightarrow> \<exists>e \<in> set (cfg_entries (wn_Config n)). configRow J i n e = Inr r"
  unfolding configRows_def by (blast dest: list_all2_right)

lemma nodeRows_ids:
  assumes "nodeRows q J i nds nrows crows"
  shows "filter (\<lambda>r. sql_eq q (dn_WorkflowID r) i) nrows = nrows" "filter (\<lambda>r. sql_eq q (dc_WorkflowID r) i) (concat crows) = concat crows"
proof -
  have lists: "list_all2 (\<lambda>n r. nodeRow J i n = Inr r) nds nrows" "list_all2 (configRows q J i) nds crows"
    using assms unfolding nodeRows_def by blast+
  have "dn_WorkflowID r = i" if "r \<in> set nrows" for r
    using list_all2_right[OF lists(1) that] by (auto dest: nodeRow_wid)
  then show "filter (\<lambda>r. sql_eq q (dn_WorkflowID r) i) nrows = nrows" by (simp add: filter_id_conv)
  have "dc_WorkflowID r = i" if "rows \<in> set crows" "r \<in> set rows" for rows r
    using list_all2_right[OF lists(2) that(1)] that(2) by (auto dest!: configRowsD intro: configRow_wid)
  then show "filter (\<lambda>r. sql_eq q (dc_WorkflowID r) i) (concat crows) = concat crows" by (auto simp: filter_id_conv)
qed

lemma insert_graph:
  assumes "cols_same J" "vacant q i (tables d)" "insertNodes q J i nds d = (Inr (), d1)" "insertEdges q J i eds d1 = (Inr (), d2)"
  shows "holds q J i nds eds (tables d2)" and "t_wf (tables d2) = t_wf (tables d)" "t_versions (tables d2) = t_versions (tables d)"
proof -
  from insertNodes_Inr[OF assms(1,3)] obtain nrows crows where rows: "nodeRows q J i nds nrows crows"
    "tables d1 = (tables d)\<lparr>t_nodes := t_nodes (tables d) @ nrows, t_configs := t_configs (tables d) @ concat crows\<rparr>" by blast
  note edges = insertEdges_Inr[OF assms(1,4)]
  show "holds q J i nds eds (tables d2)"
    unfolding holds_def using rows(1) nodeRows_ids[OF rows(1)] assms(2)
    by (intro conjI exI[of _ nrows] exI[of _ crows]) (simp_all add: edges rows(2) vacant_def edgeRow_def filter_map comp_def)
  show "t_wf (tables d2) = t_wf (tables d)" "t_versions (tables d2) = t_versions (tables d)" by (simp_all add: edges rows(2))
qed

text \<open>What \<open>loadConfigs\<close> makes of the rows, node by node.\<close>

lemma addConfigs_all:
  "dc_NodeID ` set rows \<subseteq> dom (map_of m) \<Longrightarrow> \<exists>m'. addConfigs J rows m = Some m' \<and>
     (\<forall>i. map_of m' i = map_option (\<lambda>(cfg, fl).
        (fold (\<lambda>r. AList.update (dc_Key r) (configValue J r)) (filter (\<lambda>r. dc_NodeID r = i) rows) cfg,
         fold (\<lambda>r. AList.update (dc_Key r) (dc_IsSensitive r)) (filter (\<lambda>r. dc_NodeID r = i) rows) fl)) (map_of m i))"
proof (induction rows arbitrary: m)
  case Nil
  then show ?case by (auto simp: option.map_ident split_def)
next
  case (Cons r rows)
  then obtain cfg fl where r: "map_of m (dc_NodeID r) = Some (cfg, fl)" by fastforce
  let ?m = "AList.update (dc_NodeID r) (AList.update (dc_Key r) (configValue J r) cfg, AList.update (dc_Key r) (dc_IsSensitive r) fl) m"
  have "dc_NodeID ` set rows \<subseteq> dom (map_of ?m)" using Cons.prems by auto
  from Cons.IH[OF this] r show ?case by auto
qed

lemma fold_update_fresh:
  "distinct (map k rows) \<Longrightarrow> k ` set rows \<inter> fst ` set m = {} \<Longrightarrow> fold (\<lambda>r. AList.update (k r) (v r)) rows m = m @ map (\<lambda>r. (k r, v r)) rows"
  by (induction rows arbitrary: m) (auto simp: update_fresh)

text \<open>Values that the JSON codec, and a \<open>JSON\<close> column, give back.\<close>

definition survives :: "wf_json \<Rightarrow> val \<Rightarrow> bool" where
  "survives J v \<longleftrightarrow> (\<forall>s. enc_any J v = Some s \<longrightarrow> s \<noteq> [] \<and> dec_any J s = Some v)"

definition parsersSurvive :: "sql \<Rightarrow> wf_json \<Rightarrow> (string \<times> output_parser) list \<Rightarrow> bool" where
  "parsersSurvive q J p \<longleftrightarrow> (\<forall>s. enc_parsers J p = Some s \<longrightarrow> sql_json q s \<noteq> [] \<and> dec_parsers J (sql_json q s) = Some p)"

definition nodeSurvives :: "sql \<Rightarrow> wf_json \<Rightarrow> workflow_node \<Rightarrow> bool" where
  "nodeSurvives q J n \<longleftrightarrow> (\<forall>(k, v) \<in> set (cfg_entries (wn_Config n)). \<not> isSensitive n k \<longrightarrow> survives J v) \<and> parsersSurvive q J (wn_OutputParsers n)"

definition keyFlags :: "workflow_node \<Rightarrow> (string \<times> bool) list" where
  "keyFlags n = map (\<lambda>(k, v). (k, isSensitive n k)) (cfg_entries (wn_Config n))"

definition storedRetry :: "retry_policy option \<Rightarrow> retry_policy option" where
  "storedRetry p = (case p of None \<Rightarrow> None | Some p \<Rightarrow> if rp_MaxRetries p > 0 \<or> rp_BackoffMs p \<noteq> defaultRetryBackoffMs then Some p else None)"

definition storedNode :: "workflow_node \<Rightarrow> workflow_node" where
  "storedNode n = n\<lparr> wn_Config := Some (cfg_entries (wn_Config n)), wn_SensitiveKeys := Some (keyFlags n), wn_RetryPolicy := storedRetry (wn_RetryPolicy n) \<rparr>"

lemma configRow_back:
  assumes "configRow J i n (k, v) = Inr r" "\<not> isSensitive n k \<longrightarrow> survives J v"
  shows "dc_WorkflowID r = i" "dc_NodeID r = wn_ID n" "dc_Key r = k" "dc_IsSensitive r = isSensitive n k" "configValue J r = v"
  using assms by (auto simp: configRow_def configValue_def survives_def Let_def split: if_splits val.splits option.splits)

lemma configRows_back:
  assumes "configRows q J i n rows" "\<forall>(k, v) \<in> set (cfg_entries (wn_Config n)). \<not> isSensitive n k \<longrightarrow> survives J v"
  shows "map (\<lambda>r. (dc_Key r, configValue J r)) rows = cfg_entries (wn_Config n)" "map (\<lambda>r. (dc_Key r, dc_IsSensitive r)) rows = keyFlags n"
    "\<forall>r \<in> set rows. dc_NodeID r = wn_ID n" "distinct (map dc_Key rows)"
proof -
  have all: "list_all2 (\<lambda>e r. configRow J i n e = Inr r) es rows \<Longrightarrow> (\<forall>(k, v) \<in> set es. \<not> isSensitive n k \<longrightarrow> survives J v) \<Longrightarrow>
      map (\<lambda>r. (dc_Key r, configValue J r)) rows = es \<and> map (\<lambda>r. (dc_Key r, dc_IsSensitive r)) rows = map (\<lambda>(k, v). (k, isSensitive n k)) es \<and>
      (\<forall>r \<in> set rows. dc_NodeID r = wn_ID n \<and> dc_WorkflowID r = i)" for es
    by (induction rule: list_all2_induct) (auto dest: configRow_back)
  have "list_all2 (\<lambda>e r. configRow J i n e = Inr r) (cfg_entries (wn_Config n)) rows" using assms(1) by (simp add: configRows_def)
  from all[OF this assms(2)] have got: "map (\<lambda>r. (dc_Key r, configValue J r)) rows = cfg_entries (wn_Config n)"
    "map (\<lambda>r. (dc_Key r, dc_IsSensitive r)) rows = keyFlags n" "\<forall>r \<in> set rows. dc_NodeID r = wn_ID n \<and> dc_WorkflowID r = i"
    unfolding keyFlags_def by blast+
  then show "map (\<lambda>r. (dc_Key r, configValue J r)) rows = cfg_entries (wn_Config n)" "map (\<lambda>r. (dc_Key r, dc_IsSensitive r)) rows = keyFlags n"
    "\<forall>r \<in> set rows. dc_NodeID r = wn_ID n" by blast+
  have "sorted_wrt (\<lambda>a b. \<not> sameConfig q a b) rows" using assms(1) by (simp add: configRows_def)
  then have "sorted_wrt (\<lambda>a b. dc_Key a \<noteq> dc_Key b) rows"
    by (rule sorted_wrt_mono_rel[rotated]) (use got(3) in \<open>auto simp: sameConfig_def\<close>)
  then show "distinct (map dc_Key rows)" by (induction rows) auto
qed

lemma distinct_nodes:
  assumes "nodeRows q J i nds nrows crows" shows "distinct (map wn_ID nds)"
proof -
  have ids: "list_all2 (\<lambda>n r. nodeRow J i n = Inr r) xs rows \<Longrightarrow> map dn_ID rows = map wn_ID xs \<and> (\<forall>r \<in> set rows. dn_WorkflowID r = i)" for xs rows
    by (induction rule: list_all2_induct) (auto simp: nodeRow_def Let_def split: option.splits if_splits)
  have "sorted_wrt (\<lambda>a b. \<not> sameNode q a b) nrows" "list_all2 (\<lambda>n r. nodeRow J i n = Inr r) nds nrows"
    using assms by (simp_all add: nodeRows_def)
  have wid: "dn_WorkflowID r = i" if "r \<in> set nrows" for r using ids[OF \<open>list_all2 _ nds nrows\<close>] that by blast
  have neq: "dn_ID a \<noteq> dn_ID b" if "a \<in> set nrows" "b \<in> set nrows" "\<not> sameNode q a b" for a b
    using wid[OF that(1)] wid[OF that(2)] that(3) by (auto simp: sameNode_def)
  from \<open>sorted_wrt _ nrows\<close> have "sorted_wrt (\<lambda>a b. dn_ID a \<noteq> dn_ID b) nrows"
    by (rule sorted_wrt_mono_rel[rotated]) (rule neq)
  then have "distinct (map dn_ID nrows)" by (induction nrows) auto
  with ids[OF \<open>list_all2 _ nds nrows\<close>] show ?thesis by simp
qed

lemma rows_of_node:
  assumes "list_all2 (\<lambda>n rows. \<forall>r \<in> set rows. dc_NodeID r = wn_ID n) nds crows" "distinct (map wn_ID nds)" "(n, rows) \<in> set (zip nds crows)"
  shows "filter (\<lambda>r. dc_NodeID r = wn_ID n) (concat crows) = rows"
  using assms
proof (induction rule: list_all2_induct)
  case (Cons m ms rows' crows)
  have other: "filter (\<lambda>r. dc_NodeID r = wn_ID m) (concat crows) = []"
    using list_all2_right[OF Cons.hyps(2)] Cons.prems(1) by (auto simp: filter_empty_conv) (metis image_eqI)
  show ?case
  proof (cases "n = m \<and> rows = rows'")
    case True
    then show ?thesis using Cons.hyps(1) other by (simp add: filter_id_conv)
  next
    case False
    then have mem: "(n, rows) \<in> set (zip ms crows)" using Cons.prems(2) by auto
    then have "wn_ID n \<noteq> wn_ID m" using Cons.prems(1) set_zip_leftD[OF mem] by (metis distinct.simps(2) image_eqI list.map(2) list.set_map)
    then show ?thesis using Cons.hyps(1) Cons.IH[OF _ mem] Cons.prems(1) by (auto simp: filter_empty_conv)
  qed
qed simp

lemma sort_key_map: "sort_key f (map g xs) = map g (sort_key (\<lambda>x. f (g x)) xs)"
proof -
  have "insort_key f (g x) (map g ys) = map g (insort_key (\<lambda>x. f (g x)) x ys)" for x ys
    by (induction ys) auto
  then show ?thesis by (induction xs) (simp_all add: sort_key_def)
qed

lemma nodeRow_fields:
  assumes "nodeRow J i n = Inr r"
  shows "dn_ID r = wn_ID n" "dn_TypeID r = wn_TypeID n" "dn_Label r = wn_Label n" "dn_PositionX r = np_X (wn_Position n)" "dn_PositionY r = np_Y (wn_Position n)"
    "(dn_RetryMax r, dn_RetryBackoffMs r) = (case wn_RetryPolicy n of None \<Rightarrow> (0, defaultRetryBackoffMs) | Some p \<Rightarrow> (rp_MaxRetries p, rp_BackoffMs p))"
    "if wn_OutputParsers n = [] then dn_OutputParsers r = None else \<exists>s. enc_parsers J (wn_OutputParsers n) = Some s \<and> dn_OutputParsers r = Some s"
  using assms by (auto simp: nodeRow_def Let_def split: if_splits option.splits prod.splits)

lemma rowToNode_stored:
  assumes "nodeRow J i n = Inr r" "parsersSurvive q J (wn_OutputParsers n)" "map_of m (wn_ID n) = Some (cfg_entries (wn_Config n), keyFlags n)"
  shows "rowToNode q J m r = storedNode n"
proof (rule workflow_node.equality)
  note f = nodeRow_fields[OF assms(1)]
  show "wn_RetryPolicy (rowToNode q J m r) = wn_RetryPolicy (storedNode n)"
    using f(6) by (cases "wn_RetryPolicy n") (simp_all add: rowToNode_def storedNode_def storedRetry_def)
  show "wn_OutputParsers (rowToNode q J m r) = wn_OutputParsers (storedNode n)"
    using f(7) assms(2) by (cases "wn_OutputParsers n = []") (auto simp: rowToNode_def storedNode_def parsersSurvive_def)
  show "wn_Position (rowToNode q J m r) = wn_Position (storedNode n)"
    using f(4,5) by (intro node_position.equality) (simp_all add: rowToNode_def storedNode_def)
qed (use nodeRow_fields[OF assms(1)] assms(3) in \<open>simp_all add: rowToNode_def storedNode_def\<close>)

lemma empty_configs: "map_of (fold (\<lambda>i. AList.update i ([], [])) ids m) i = (if i \<in> set ids then Some ([], []) else map_of m i)"
  by (induction ids arbitrary: m) auto

lemma loadConfigs_holds:
  assumes rel: "reliable q" and rows: "nodeRows q J i nds nrows crows" and surv: "\<forall>n \<in> set nds. nodeSurvives q J n"
    and tab: "filter (\<lambda>r. sql_eq q (dc_WorkflowID r) i) (t_configs (tables d)) = concat crows" and ids: "set ids = wn_ID ` set nds"
  shows "\<exists>m d'. loadConfigs q J i ids d = (Inr m, d') \<and> tables d' = tables d \<and>
    (\<forall>n \<in> set nds. map_of m (wn_ID n) = Some (cfg_entries (wn_Config n), keyFlags n))"
proof -
  have lists: "list_all2 (configRows q J i) nds crows" using rows by (simp add: nodeRows_def)
  have each: "(\<forall>r \<in> set rs. dc_NodeID r = wn_ID n) \<and> map (\<lambda>r. (dc_Key r, configValue J r)) rs = cfg_entries (wn_Config n) \<and>
      map (\<lambda>r. (dc_Key r, dc_IsSensitive r)) rs = keyFlags n \<and> distinct (map dc_Key rs)" if "(n, rs) \<in> set (zip nds crows)" for n rs
    using configRows_back[of q J i n rs] that lists surv set_zip_leftD[OF that] by (auto simp: list_all2_iff nodeSurvives_def)
  have owned: "list_all2 (\<lambda>n rs. \<forall>r \<in> set rs. dc_NodeID r = wn_ID n) nds crows"
    using each lists by (auto simp: list_all2_iff)
  have node: "dc_NodeID r \<in> wn_ID ` set nds" if "rs \<in> set crows" "r \<in> set rs" for r rs
    using that list_all2_right[OF owned] by auto
  have sel: "filter (\<lambda>r. sql_eq q (dc_WorkflowID r) i \<and> (\<exists>j \<in> set ids. sql_eq q (dc_NodeID r) j)) (t_configs (tables d)) = concat crows"
  proof -
    have "filter (\<lambda>r. \<exists>j \<in> set ids. sql_eq q (dc_NodeID r) j) (concat crows) = concat crows"
      using node ids by (auto simp: filter_id_conv) (metis sql_eq_refl image_iff)
    then show ?thesis by (simp add: tab[symmetric] conj_commute del: filter_filter) (simp add: filter_filter conj_commute)
  qed
  let ?m0 = "fold (\<lambda>i. AList.update i ([], [])) ids [] :: loaded"
  have "dc_NodeID ` set (concat crows) \<subseteq> dom (map_of ?m0)" using node ids by (auto simp: empty_configs)
  from addConfigs_all[OF this, of J] obtain m where m: "addConfigs J (concat crows) ?m0 = Some m"
    "\<And>j. map_of m j = map_option (\<lambda>(cfg, fl).
        (fold (\<lambda>r. AList.update (dc_Key r) (configValue J r)) (filter (\<lambda>r. dc_NodeID r = j) (concat crows)) cfg,
         fold (\<lambda>r. AList.update (dc_Key r) (dc_IsSensitive r)) (filter (\<lambda>r. dc_NodeID r = j) (concat crows)) fl)) (map_of ?m0 j)" by blast
  have "map_of m (wn_ID n) = Some (cfg_entries (wn_Config n), keyFlags n)" if n: "n \<in> set nds" for n
  proof -
    from n lists obtain rs where rs: "(n, rs) \<in> set (zip nds crows)"
      by (metis in_set_impl_in_set_zip1 list_all2_lengthD)
    note r = each[OF rs] rows_of_node[OF owned distinct_nodes[OF rows] rs]
    have "map_of ?m0 (wn_ID n) = Some ([], [])" using n ids by (simp add: empty_configs)
    with m(2) r show ?thesis by (simp add: fold_update_fresh)
  qed
  moreover have "loadConfigs q J i ids d = (Inr m, tick d)"
    using rel by (simp add: loadConfigs_def andThen_def query_reliable sel m(1) give_def)
  ultimately show ?thesis by auto
qed

definition byID :: "sql \<Rightarrow> ('a \<Rightarrow> string) \<Rightarrow> 'a list \<Rightarrow> 'a list" where
  "byID q f xs = sort_key (\<lambda>x. sql_key q (f x)) xs"

lemma loadNodes_holds:
  assumes "reliable q" "holds q J i nds eds (tables d)" "\<forall>n \<in> set nds. nodeSurvives q J n"
  shows "\<exists>d'. loadNodes q J i d = (Inr (byID q wn_ID (map storedNode nds)), d') \<and> tables d' = tables d"
proof -
  obtain nrows crows where rows: "nodeRows q J i nds nrows crows" "filter (\<lambda>r. sql_eq q (dn_WorkflowID r) i) (t_nodes (tables d)) = nrows"
    "filter (\<lambda>r. sql_eq q (dc_WorkflowID r) i) (t_configs (tables d)) = concat crows" using assms(2) by (auto simp: holds_def)
  have lists: "list_all2 (\<lambda>n r. nodeRow J i n = Inr r) nds nrows" using rows(1) by (simp add: nodeRows_def)
  then have fields: "map dn_ID nrows = map wn_ID nds" by (induction rule: list_all2_induct) (auto dest: nodeRow_fields)
  let ?sorted = "sort_key (\<lambda>r. sql_key q (dn_ID r)) nrows"
  have "set (map dn_ID ?sorted) = wn_ID ` set nds" using fields by (metis list.set_map set_sort)
  from loadConfigs_holds[OF assms(1) rows(1) assms(3) _ this, of "tick d"] rows(3) obtain m d' where m:
    "loadConfigs q J i (map dn_ID ?sorted) (tick d) = (Inr m, d')" "tables d' = tables d"
    "\<forall>n \<in> set nds. map_of m (wn_ID n) = Some (cfg_entries (wn_Config n), keyFlags n)" by auto
  have "map (rowToNode q J m) nrows = map storedNode nds"
    using lists m(3) assms(3) by (induction rule: list_all2_induct) (auto simp: nodeSurvives_def intro: rowToNode_stored)
  then have "map (rowToNode q J m) ?sorted = byID q wn_ID (map storedNode nds)"
    using sort_key_map[of "\<lambda>n. sql_key q (wn_ID n)" "rowToNode q J m" nrows] by (simp add: byID_def rowToNode_def)
  moreover have "nds = []" if "nrows = []" using lists that by simp
  ultimately show ?thesis
    using m(1,2) assms(1) rows(2) by (auto simp: loadNodes_def andThen_def query_reliable give_def byID_def sort_key_def)
qed

lemma rowToEdge_edgeRow [simp]: "rowToEdge (edgeRow i e) = e" "de_ID (edgeRow i e) = we_ID e"
  by (simp_all add: rowToEdge_def edgeRow_def)

lemma loadEdges_holds:
  assumes "reliable q" "holds q J i nds eds (tables d)"
  shows "loadEdges q i d = (Inr (byID q we_ID eds), tick d)"
  using assms by (simp add: loadEdges_def query_reliable holds_def sort_key_map byID_def comp_def)

section \<open>Reading a workflow\<close>

text \<open>The fields of the trigger configuration survive the codec and the column.\<close>

definition triggerSurvives :: "sql \<Rightarrow> wf_json \<Rightarrow> trigger \<Rightarrow> bool" where
  "triggerSurvives q J t \<longleftrightarrow> (\<forall>s. enc_any J (VMap (triggerExtra t)) = Some s \<longrightarrow>
     (\<forall>k. map_of (dec_extra J (sql_json q s)) k = Option.bind (map_of (triggerExtra t) k) (\<lambda>v. as_string (Some v))))"

lemma trigger_read:
  assumes "triggerSurvives q J t" "enc_any J (VMap (triggerExtra t)) = Some s"
  shows "unmarshalTriggerConfig q J (tr_Kind t) (Some s) = t"
  using assms by (intro trigger.equality) (simp_all add: unmarshalTriggerConfig_def triggerSurvives_def extraField_def Let_def triggerExtra_def stringField_def)

definition readBack :: "sql \<Rightarrow> workflow \<Rightarrow> workflow" where
  "readBack q w = w\<lparr> wf_Nodes := byID q wn_ID (map storedNode (wf_Nodes w)), wf_Edges := byID q we_ID (wf_Edges w),
     wf_InitialDataSchema := ptrToRawMessage q (rawMessageToPtr (wf_InitialDataSchema w)) \<rparr>"

definition workflowSurvives :: "sql \<Rightarrow> wf_json \<Rightarrow> workflow \<Rightarrow> bool" where
  "workflowSurvives q J w \<longleftrightarrow> (\<forall>n \<in> set (wf_Nodes w). nodeSurvives q J n) \<and> triggerSurvives q J (wf_Trigger w)"

lemma Get_holds:
  assumes "reliable q" "holds q J i (wf_Nodes w) (wf_Edges w) (tables d)" "workflowSurvives q J w"
    and "find (wfVisible q org i) (t_wf (tables d)) = Some row" "setWorkflow cfg w row = row" "dw_ID row = wf_ID w"
    and "enc_any J (VMap (triggerExtra (wf_Trigger w))) = Some cfg"
  shows "\<exists>d'. mysql_GetWorkflow q J org i d = (Inr (readBack q w), d') \<and> tables d' = tables d"
proof -
  have surv: "\<forall>n \<in> set (wf_Nodes w). nodeSurvives q J n" "triggerSurvives q J (wf_Trigger w)" using assms(3) by (simp_all add: workflowSurvives_def)
  obtain d1 where nodes: "loadNodes q J i (tick d) = (Inr (byID q wn_ID (map storedNode (wf_Nodes w))), d1)" "tables d1 = tables d"
    using loadNodes_holds[OF assms(1) _ surv(1), of i "wf_Edges w" "tick d"] assms(2) by auto
  have edges: "loadEdges q i d1 = (Inr (byID q we_ID (wf_Edges w)), tick d1)"
    using loadEdges_holds[OF assms(1), of J i "wf_Nodes w" "wf_Edges w" d1] assms(2) nodes(2) by simp
  have row: "dw_Name row = wf_Name w" "dw_Description row = wf_Description w" "dw_TriggerKind row = tr_Kind (wf_Trigger w)" "dw_TriggerConfig row = Some cfg"
    "dw_InitialDataSchema row = rawMessageToPtr (wf_InitialDataSchema w)" "dw_TimeoutSeconds row = wf_TimeoutSeconds w"
    using arg_cong[OF assms(5), of dw_Name] arg_cong[OF assms(5), of dw_Description] arg_cong[OF assms(5), of dw_TriggerKind]
      arg_cong[OF assms(5), of dw_TriggerConfig] arg_cong[OF assms(5), of dw_InitialDataSchema] arg_cong[OF assms(5), of dw_TimeoutSeconds]
    by (simp_all add: setWorkflow_def)
  have "mysql_GetWorkflow q J org i d = (Inr (readBack q w), tick d1)"
    using assms(1,4,6) nodes edges row trigger_read[OF surv(2) assms(7)]
    by (auto simp: mysql_GetWorkflow_def andThen_def query_reliable give_def readBack_def intro!: workflow.equality)
  with nodes show ?thesis by simp
qed

text \<open>The tables that \<open>GetWorkflow\<close> reads.\<close>

definition core :: "wf_tables \<Rightarrow> db_workflow list \<times> db_node list \<times> db_edge list \<times> db_config list" where
  "core t = (t_wf t, t_nodes t, t_edges t, t_configs t)"

lemma holds_core: "core t = core t' \<Longrightarrow> holds q J i nds eds t \<longleftrightarrow> holds q J i nds eds t'"
  by (simp add: holds_def core_def)

section \<open>Create and update\<close>

lemma setWorkflow_row [simp]:
  "setWorkflow cfg w (workflowWriteRow org cfg now w) = workflowWriteRow org cfg now w"
  "setWorkflow cfg w (stamped now (setWorkflow cfg w) r) = stamped now (setWorkflow cfg w) r"
  by (simp_all add: setWorkflow_def workflowWriteRow_def stamped_def)

lemma deletes_vacate:
  assumes "deleteNodeConfigs q i d = (Inr (), d1)" "deleteNodes q i d1 = (Inr (), d2)" "deleteEdges q i d2 = (Inr (), d3)"
  shows "vacant q i (tables d3)" "t_wf (tables d3) = t_wf (tables d)" "t_versions (tables d3) = t_versions (tables d)"
proof -
  have "tables d3 = (tables d)\<lparr> t_configs := filter (\<lambda>r. \<not> sql_eq q (dc_WorkflowID r) i) (t_configs (tables d)),
      t_nodes := filter (\<lambda>r. \<not> sql_eq q (dn_WorkflowID r) i) (t_nodes (tables d)), t_edges := filter (\<lambda>r. \<not> sql_eq q (de_WorkflowID r) i) (t_edges (tables d)) \<rparr>"
    using assms[unfolded deleteNodeConfigs_def deleteNodes_def deleteEdges_def, THEN exec_pure] by simp
  then show "vacant q i (tables d3)" "t_wf (tables d3) = t_wf (tables d)" "t_versions (tables d3) = t_versions (tables d)"
    by (simp_all add: vacant_def filter_filter)
qed

lemma replace_holds:
  assumes "cols_same J" "replaceNodesAndEdges q J i nds eds d = (Inr (), d')"
  shows "holds q J i nds eds (tables d')" "t_wf (tables d') = t_wf (tables d)" "t_versions (tables d') = t_versions (tables d)"
proof -
  obtain d1 d2 d3 d4 where steps: "deleteNodeConfigs q i d = (Inr (), d1)" "deleteNodes q i d1 = (Inr (), d2)" "deleteEdges q i d2 = (Inr (), d3)"
    "insertNodes q J i nds d3 = (Inr (), d4)" "insertEdges q J i eds d4 = (Inr (), d')"
    using assms(2) unfolding replaceNodesAndEdges_def by (auto elim!: andThen_InrE)
  note vac = deletes_vacate[OF steps(1-3)]
  from insert_graph[OF assms(1) vac(1) steps(4,5)] vac
  show "holds q J i nds eds (tables d')" "t_wf (tables d') = t_wf (tables d)" "t_versions (tables d') = t_versions (tables d)" by simp_all
qed

lemma Create_Inr:
  assumes "cols_same J" "mysql_CreateWorkflow q J org uuid now w d = (Inr w', d')" "vacant q (wf_ID w') (tables d)"
  shows "w' = createDefaults uuid w" "holds q J (wf_ID w') (wf_Nodes w') (wf_Edges w') (tables d')"
    "\<exists>cfg. enc_any J (VMap (triggerExtra (wf_Trigger w'))) = Some cfg \<and> (\<forall>r \<in> set (t_wf (tables d)). \<not> sql_eq q (dw_ID r) (wf_ID w')) \<and>
       t_wf (tables d') = t_wf (tables d) @ [workflowWriteRow (if org = [] then defaultOrg else org) cfg now w']"
proof -
  let ?w = "createDefaults uuid w" and ?org = "if org = [] then defaultOrg else org"
  obtain cfg where cfg: "enc_any J (VMap (triggerExtra (wf_Trigger ?w))) = Some cfg"
    using assms(2) by (auto simp: mysql_CreateWorkflow_def Let_def fail_def split: option.splits)
  obtain u1 u2 u3 d1 d2 d3 where steps: "exec q (\<lambda>t. into (insertRow (col_workflow J) (\<lambda>a b. sql_eq q (dw_ID a) (dw_ID b)) (workflowWriteRow ?org cfg now ?w) (t_wf t))
       (\<lambda>rows. t\<lparr>t_wf := rows\<rparr>)) (tick d) = (Inr u1, d1)"
    "insertNodes q J (wf_ID ?w) (wf_Nodes ?w) d1 = (Inr u2, d2)" "insertEdges q J (wf_ID ?w) (wf_Edges ?w) d2 = (Inr u3, d3)" "tables d3 = tables d'" "w' = ?w"
    using assms(2)[unfolded mysql_CreateWorkflow_def Let_def cfg option.case]
    by (elim transaction_InrE andThen_InrE, unfold give_def prod.inject sum.inject, elim conjE) blast
  have row: "\<forall>r \<in> set (t_wf (tables d)). \<not> sql_eq q (dw_ID r) (wf_ID ?w)" "tables d1 = (tables d)\<lparr>t_wf := t_wf (tables d) @ [workflowWriteRow ?org cfg now ?w]\<rparr>"
  proof -
    from exec_Inr[OF steps(1)] obtain rows where rows: "tables d1 = (tables d)\<lparr>t_wf := rows\<rparr>"
      "insertRow (col_workflow J) (\<lambda>a b. sql_eq q (dw_ID a) (dw_ID b)) (workflowWriteRow ?org cfg now ?w) (t_wf (tables d)) = Inr rows"
      by (auto simp: into_Inr)
    from rows(2) obtain r where r: "col_workflow J (workflowWriteRow ?org cfg now ?w) = Some r" "\<forall>r' \<in> set (t_wf (tables d)). \<not> sql_eq q (dw_ID r') (dw_ID r)"
      "rows = t_wf (tables d) @ [r]" unfolding insertRow_Inr by blast
    from cols_sameD(1)[OF assms(1) r(1)] r(2,3) rows(1)
    show "\<forall>r \<in> set (t_wf (tables d)). \<not> sql_eq q (dw_ID r) (wf_ID ?w)" "tables d1 = (tables d)\<lparr>t_wf := t_wf (tables d) @ [workflowWriteRow ?org cfg now ?w]\<rparr>"
      by (simp_all add: workflowWriteRow_def)
  qed
  from steps(5) show "w' = ?w" .
  have vac: "vacant q (wf_ID ?w) (tables d1)" using assms(3) row(2) steps(5) by (simp add: vacant_def)
  have ins: "insertNodes q J (wf_ID ?w) (wf_Nodes ?w) d1 = (Inr (), d2)" "insertEdges q J (wf_ID ?w) (wf_Edges ?w) d2 = (Inr (), d3)"
    using steps(2,3) by simp_all
  note graph = insert_graph[OF assms(1) vac ins]
  show "holds q J (wf_ID w') (wf_Nodes w') (wf_Edges w') (tables d')" using graph(1) steps(4,5) by simp
  show "\<exists>cfg. enc_any J (VMap (triggerExtra (wf_Trigger w'))) = Some cfg \<and> (\<forall>r \<in> set (t_wf (tables d)). \<not> sql_eq q (dw_ID r) (wf_ID w')) \<and>
       t_wf (tables d') = t_wf (tables d) @ [workflowWriteRow ?org cfg now w']"
    using cfg row graph(2) steps(4,5) by (intro exI[of _ cfg]) auto
qed

lemma find_app: "find P (xs @ ys) = (case find P xs of None \<Rightarrow> find P ys | Some x \<Rightarrow> Some x)"
  by (induction xs) auto

lemma Create_Get:
  assumes "reliable q" "cols_same J" "mysql_CreateWorkflow q J org uuid now w d = (Inr w', d')" "vacant q (wf_ID w') (tables d)" "workflowSurvives q J w'"
    and "core (tables e) = core (tables d')"
  shows "\<exists>d''. mysql_GetWorkflow q J org (wf_ID w') e = (Inr (readBack q w'), d'') \<and> tables d'' = tables e"
proof -
  note create = Create_Inr[OF assms(2-4)]
  from create(3) obtain cfg where cfg: "enc_any J (VMap (triggerExtra (wf_Trigger w'))) = Some cfg" "\<forall>r \<in> set (t_wf (tables d)). \<not> sql_eq q (dw_ID r) (wf_ID w')"
    "t_wf (tables d') = t_wf (tables d) @ [workflowWriteRow (if org = [] then defaultOrg else org) cfg now w']" by blast
  have "find (wfVisible q org (wf_ID w')) (t_wf (tables e)) = Some (workflowWriteRow (if org = [] then defaultOrg else org) cfg now w')"
  proof -
    have "find (wfVisible q org (wf_ID w')) (t_wf (tables d)) = None" using cfg(2) by (auto simp: find_None_iff wfVisible_def)
    then show ?thesis using cfg(3) assms(6) by (simp add: core_def find_app wfVisible_def workflowWriteRow_def)
  qed
  from Get_holds[OF assms(1) _ assms(5) this _ _ cfg(1)] create(2) holds_core[OF assms(6)] show ?thesis by (simp add: workflowWriteRow_def setWorkflow_def)
qed

lemma find_those:
  assumes "those (map (\<lambda>r. if P r then col (f r) else Some r) rows) = Some rows'" "\<And>r r'. P r \<Longrightarrow> col (f r) = Some r' \<Longrightarrow> r' = f r \<and> P (f r)" "find P rows \<noteq> None"
  shows "\<exists>r. P r \<and> r \<in> set rows \<and> find P rows' = Some (f r)"
  using assms(1,3)
proof (induction rows arbitrary: rows')
  case (Cons r rows)
  show ?case
  proof (cases "P r")
    case True
    then obtain r' rest where "col (f r) = Some r'" "rows' = r' # rest" using Cons.prems(1) by (auto split: option.splits)
    with assms(2)[OF True] True show ?thesis by auto
  next
    case False
    then obtain rest where "rows' = r # rest" "those (map (\<lambda>r. if P r then col (f r) else Some r) rows) = Some rest"
      using Cons.prems(1) by (auto split: option.splits)
    with Cons.IH[of rest] Cons.prems(2) False show ?thesis by auto
  qed
qed simp

lemma Update_Get:
  assumes "reliable q" "cols_same J" "mysql_UpdateWorkflow q J org now w d = (Inr w', d')" "workflowSurvives q J w'"
    and exact: "\<forall>r \<in> set (t_wf (tables d)). sql_eq q (dw_ID r) (wf_ID w) \<longrightarrow> dw_ID r = wf_ID w"
  shows "w' = defaultKind w \<and> (\<exists>d''. mysql_GetWorkflow q J org (wf_ID w') d' = (Inr (readBack q w'), d'') \<and> tables d'' = tables d')"
proof -
  let ?w = "defaultKind w"
  obtain cfg where cfg: "enc_any J (VMap (triggerExtra (wf_Trigger ?w))) = Some cfg"
    using assms(3) by (auto simp: mysql_UpdateWorkflow_def Let_def fail_def split: option.splits)
  let ?P = "wfVisible q org (wf_ID ?w)" and ?f = "stamped now (setWorkflow cfg ?w)"
  obtain n d1 d3 where step1: "updateWorkflows q J ?P ?f (tick d) = (Inr n, d1)" and
    step2: "(if n = 0 then fail ErrNotFound else
       andThen (replaceNodesAndEdges q J (wf_ID ?w) (wf_Nodes ?w) (wf_Edges ?w)) (\<lambda>_.
       andThen (query q (\<lambda>t. firstRow (\<lambda>r. sql_eq q (dw_ID r) (wf_ID ?w)) (t_wf t))) (\<lambda>_. give ?w))) d1 = (Inr w', d3)" "tables d3 = tables d'"
    using assms(3)[unfolded mysql_UpdateWorkflow_def Let_def cfg option.case] by (elim transaction_InrE andThen_InrE) simp
  from step2(1) have "n \<noteq> 0" by (auto simp: fail_def split: if_splits)
  with step2(1) obtain d2 where repl: "replaceNodesAndEdges q J (wf_ID ?w) (wf_Nodes ?w) (wf_Edges ?w) d1 = (Inr (), d2)" "tables d3 = tables d2" "w' = ?w"
    by (auto simp: give_def elim!: andThen_InrE dest!: query_Inr)
  from exec_Inr[OF step1[unfolded updateWorkflows_def]] obtain rows where rows: "those (map (\<lambda>r. if ?P r then col_workflow J (?f r) else Some r) (t_wf (tables d))) = Some rows"
    "n = length (filter ?P (t_wf (tables d)))" "t_wf (tables d1) = rows"
    by (auto simp: updateRows_def split: option.splits) (metis wf_tables.select_convs(1) wf_tables.surjective wf_tables.update_convs(1))
  have "find ?P (t_wf (tables d)) \<noteq> None" using \<open>n \<noteq> 0\<close> rows(2) by (auto simp: find_None_iff filter_empty_conv)
  moreover have "r' = ?f r \<and> ?P (?f r)" if "?P r" "col_workflow J (?f r) = Some r'" for r r'
    using cols_sameD(1)[OF assms(2) that(2)] that(1) by (simp add: wfVisible_def) (simp add: stamped_def setWorkflow_def)
  ultimately obtain r where r: "?P r" "r \<in> set (t_wf (tables d))" "find ?P rows = Some (?f r)"
    using find_those[where f = ?f, OF rows(1)] by blast
  note graph = replace_holds[OF assms(2) repl(1)]
  have found: "find (wfVisible q org (wf_ID w')) (t_wf (tables d')) = Some (?f r)" using r(3) rows(3) graph(2) repl(2,3) step2(2) by simp
  have "dw_ID (?f r) = wf_ID w'" using r(1,2) exact repl(3) by (auto simp: wfVisible_def)
  from Get_holds[OF assms(1) _ assms(4) found _ this] graph(1) repl(2,3) step2(2) cfg show ?thesis by simp
qed

text \<open>
  What is saved is read back. When \<open>CreateWorkflow\<close> or \<open>UpdateWorkflow\<close> has succeeded, \<open>GetWorkflow\<close> for the
  same tenant returns the workflow as it was saved, up to what the tables cannot express (\<open>readBack\<close>):
  nodes and edges are ordered by id, a configuration is never nil, each of its keys
  carries its sensitivity, an absent schema and the schema \<open>null\<close> are the same, and a retry policy without retries and with the default
  back-off becomes no policy. Hypotheses: the database does not fail and its columns keep what they
  accept, the codec gives back what it encoded, and no rows are left over under a new id.
\<close>

theorem workflow_store_roundtrip:
  assumes "reliable q" "cols_same J" "workflowSurvives q J w'"
    and "mysql_CreateWorkflow q J org uuid now w d = (Inr w', d') \<and> vacant q (wf_ID w') (tables d) \<or>
         mysql_UpdateWorkflow q J org now w d = (Inr w', d') \<and> (\<forall>r \<in> set (t_wf (tables d)). sql_eq q (dw_ID r) (wf_ID w) \<longrightarrow> dw_ID r = wf_ID w)"
  shows "\<exists>d''. mysql_GetWorkflow q J org (wf_ID w') d' = (Inr (readBack q w'), d'') \<and> tables d'' = tables d'"
  using assms(4) Create_Get[OF assms(1,2) _ _ assms(3) refl] Update_Get[OF assms(1,2) _ assms(3)] by blast

section \<open>Through the vault\<close>

text \<open>What the vault seals is flagged, and what is not sealed is what was submitted.\<close>

lemma encryptKeys_sealed_flags:
  assumes "encryptKeys v i ks C fl n = (Inr (C', fl'), n')" "wf_map C" "\<forall>k ct. map_of C k = Some (VBytes ct) \<longrightarrow> map_of fl k = Some True"
  shows "wf_map C' \<and> (\<forall>k ct. map_of C' k = Some (VBytes ct) \<longrightarrow> map_of fl' k = Some True) \<and>
    (\<forall>k x. map_of C' k = Some x \<longrightarrow> (\<exists>ct. x = VBytes ct) \<or> map_of C k = Some x)"
  using assms
proof (induction ks arbitrary: C fl n)
  case (Cons k ks)
  show ?case
  proof (cases "\<exists>s. map_of C k = Some (VStr s)")
    case True
    then obtain s where s: "map_of C k = Some (VStr s)" by blast
    with Cons.prems(1) obtain ct n1 where e: "Encrypt (cv_cipher v) s n = (Inr ct, n1)"
      "encryptKeys v i ks (AList.update k (VBytes ct) C) (AList.update k True fl) n1 = (Inr (C', fl'), n')"
      by (auto split: prod.splits sum.splits)
    have "\<forall>j c. map_of (AList.update k (VBytes ct) C) j = Some (VBytes c) \<longrightarrow> map_of (AList.update k True fl) j = Some True"
      using Cons.prems(3) by simp
    from Cons.IH[OF e(2) _ this] Cons.prems(2) s show ?thesis by (auto split: if_splits) (metis option.inject val.distinct)+
  next
    case False
    then have "encryptKeys v i ks C fl n = (Inr (C', fl'), n')" using Cons.prems(1) by (auto split: option.splits val.splits)
    from Cons.IH[OF this Cons.prems(2,3)] show ?thesis .
  qed
qed simp

definition submitted :: "sql \<Rightarrow> wf_json \<Rightarrow> workflow_node \<Rightarrow> bool" where
  "submitted q J n \<longleftrightarrow> wn_SensitiveKeys n = None \<and> wf_map (cfg_entries (wn_Config n)) \<and> plain (cfg_entries (wn_Config n)) \<and>
     (\<forall>(k, x) \<in> set (cfg_entries (wn_Config n)). survives J x) \<and> parsersSurvive q J (wn_OutputParsers n)"

text \<open>The configuration of the stored node, opened, reads as submitted.\<close>

lemma sealed_node:
  assumes "gcm_ok (cv_cipher v)" "submitted q J a" "encryptNodeWith (encryptKeys v (wn_ID a)) v a m = (Inr b, m')"
  shows "nodeSurvives q J b" "wn_ID b = wn_ID a"
    "\<exists>c. decryptNode v (storedNode b) = Inr c \<and> map_of (cfg_entries (wn_Config c)) = map_of (cfg_entries (wn_Config a)) \<and>
       c = (storedNode a)\<lparr>wn_Config := wn_Config c, wn_SensitiveKeys := wn_SensitiveKeys c\<rparr>"
proof -
  obtain C' fl' where b: "cfg_entries (wn_Config b) = C'" "wf_map C'" "b = a\<lparr>wn_Config := wn_Config b, wn_SensitiveKeys := wn_SensitiveKeys b\<rparr>"
    "\<forall>k ct. map_of C' k = Some (VBytes ct) \<longrightarrow> isSensitive b k" "\<forall>k x. map_of C' k = Some x \<longrightarrow> (\<exists>ct. x = VBytes ct) \<or> map_of (cfg_entries (wn_Config a)) k = Some x"
    "enc_rel (cv_cipher v) (map_of (cfg_entries (wn_Config a))) C' fl'" "\<forall>k. isSensitive b k \<longrightarrow> map_of fl' k = Some True"
  proof (cases "wn_Config a")
    case None
    with assms(2,3) have "b = a" "isSensitive b k = False" for k by (auto simp: encryptNodeWith_def submitted_def isSensitive_def)
    with None that[of "[]" "[]"] show ?thesis by (simp add: enc_rel_def)
  next
    case (Some cfg)
    with assms(2,3) obtain C' fl' where e: "encryptKeys v (wn_ID a) (sensitiveKeys v (wn_TypeID a)) cfg [] m = (Inr (C', fl'), m')"
      "b = a\<lparr>wn_Config := Some C', wn_SensitiveKeys := Some fl'\<rparr>"
      by (auto simp: encryptNodeWith_def submitted_def split: prod.splits sum.splits)
    have cfg: "wf_map cfg" "plain cfg" using assms(2) Some by (simp_all add: submitted_def)
    from encryptKeys_sealed_flags[OF e(1) cfg(1)] cfg(2) encryptKeys_rel[OF assms(1) e(1) enc_rel_plain[OF cfg(2)]] e(2) Some
    show ?thesis by (intro that[of C' fl']) (auto simp: plain_def isSensitive_def)
  qed
  show "wn_ID b = wn_ID a" by (subst b(3)) simp
  have parsers: "wn_OutputParsers b = wn_OutputParsers a" by (subst b(3)) simp
  have val: "map_of C' k = Some x" if "(k, x) \<in> set C'" for k x using that b(2) by (simp add: wf_map_def)
  have "survives J x" if "(k, x) \<in> set C'" "\<not> isSensitive b k" for k x
  proof -
    have "map_of (cfg_entries (wn_Config a)) k = Some x" using b(4,5) val[OF that(1)] that(2) by blast
    from map_of_SomeD[OF this] show ?thesis using assms(2) by (auto simp: submitted_def)
  qed
  then show "nodeSurvives q J b" using assms(2) parsers b(1) by (auto simp: nodeSurvives_def submitted_def)
  have "enc_rel (cv_cipher v) (map_of (cfg_entries (wn_Config a))) C' (keyFlags b)"
    unfolding enc_rel_def
  proof
    fix k
    have "(k, True) \<in> set (keyFlags b)" if "map_of C' k = Some (VBytes ct)" for ct
      using that b(1,4) map_of_SomeD[OF that] by (force simp: keyFlags_def)
    then show "enc_at (cv_cipher v) (map_of (cfg_entries (wn_Config a)) k) (map_of C' k) ((k, True) \<in> set (keyFlags b))"
      using b(6)[unfolded enc_rel_def, rule_format, of k] by (cases "\<exists>ct. map_of C' k = Some (VBytes ct)") (auto simp: enc_at_other)
  qed
  from decryptKeys_opens[OF this, of "wn_ID b"] obtain C'' where C'': "decryptKeys v (wn_ID b) (keyFlags b) C' = Inr C''"
    "map_of C'' = map_of (cfg_entries (wn_Config a))" by blast
  let ?c = "(storedNode b)\<lparr>wn_Config := Some C''\<rparr>"
  have "decryptNode v (storedNode b) = Inr ?c" using C''(1) b(1) by (simp add: decryptNode_def storedNode_def)
  moreover have "?c = (storedNode a)\<lparr>wn_Config := wn_Config ?c, wn_SensitiveKeys := wn_SensitiveKeys ?c\<rparr>"
  proof -
    have "wn_ID b = wn_ID a" "wn_TypeID b = wn_TypeID a" "wn_Label b = wn_Label a" "wn_Position b = wn_Position a"
      "wn_RetryPolicy b = wn_RetryPolicy a" "wn_OutputParsers b = wn_OutputParsers a" by (subst b(3), simp)+
    then show ?thesis by (intro workflow_node.equality) (simp_all add: storedNode_def)
  qed
  ultimately show "\<exists>c. decryptNode v (storedNode b) = Inr c \<and> map_of (cfg_entries (wn_Config c)) = map_of (cfg_entries (wn_Config a)) \<and>
       c = (storedNode a)\<lparr>wn_Config := wn_Config c, wn_SensitiveKeys := wn_SensitiveKeys c\<rparr>"
    using C''(2) by (intro exI[of _ ?c]) simp
qed

lemma list_all2_byID:
  assumes "list_all2 R xs ys" "\<And>x y. R x y \<Longrightarrow> f x = g y"
  shows "list_all2 R (byID q f xs) (byID q g ys)"
proof -
  have ins: "list_all2 R (insort_key (\<lambda>x. sql_key q (f x)) x xs) (insort_key (\<lambda>x. sql_key q (g x)) y ys)" if "list_all2 R xs ys" "R x y" for xs ys x y
    using that(1) by (induction rule: list_all2_induct) (use that(2) assms(2) in auto)
  show ?thesis
    unfolding byID_def using assms(1) by (induction rule: list_all2_induct) (simp_all add: sort_key_def ins)
qed

definition reads_submitted :: "workflow_node \<Rightarrow> workflow_node \<Rightarrow> bool" where
  "reads_submitted a c \<longleftrightarrow> map_of (cfg_entries (wn_Config c)) = map_of (cfg_entries (wn_Config a)) \<and>
     c = (storedNode a)\<lparr>wn_Config := wn_Config c, wn_SensitiveKeys := wn_SensitiveKeys c\<rparr>"

lemma sealed_nodes:
  assumes "gcm_ok (cv_cipher v)" "\<forall>a \<in> set nds. submitted q J a" "encryptNodes v nds n = (Inr sealed, n')"
  shows "\<forall>b \<in> set sealed. nodeSurvives q J b"
    and "\<exists>opened. decryptNodes v (byID q wn_ID (map storedNode sealed)) = Inr opened \<and> list_all2 reads_submitted (byID q wn_ID nds) opened"
proof -
  have step: "nodeSurvives q J b \<and> wn_ID a = wn_ID b \<and> (\<exists>c. decryptNode v (storedNode b) = Inr c \<and> reads_submitted a c)"
    if "submitted q J a" "\<exists>m m'. encryptNodeWith (encryptKeys v (wn_ID a)) v a m = (Inr b, m')" for a b
    using that sealed_node[OF assms(1) that(1)] unfolding reads_submitted_def by metis
  have "list_all2 (\<lambda>a b. \<exists>m m'. encryptNodeWith (encryptKeys v (wn_ID a)) v a m = (Inr b, m')) nds sealed"
    using eachNode_all[OF assms(3)[unfolded encryptNodes_def]] by simp
  then have all: "list_all2 (\<lambda>a b. nodeSurvives q J b \<and> wn_ID a = wn_ID b \<and> (\<exists>c. decryptNode v (storedNode b) = Inr c \<and> reads_submitted a c)) nds sealed"
    by (rule list.rel_mono_strong) (use assms(2) step in blast)
  then show "\<forall>b \<in> set sealed. nodeSurvives q J b" using list_all2_right by fastforce
  from all have "list_all2 (\<lambda>a b. nodeSurvives q J b \<and> wn_ID a = wn_ID b \<and> (\<exists>c. decryptNode v (storedNode b) = Inr c \<and> reads_submitted a c)) (byID q wn_ID nds) (byID q wn_ID sealed)"
    by (rule list_all2_byID) blast
  then have "\<exists>opened. list_all2 (\<lambda>b c. decryptNode v b = Inr c) (map storedNode (byID q wn_ID sealed)) opened \<and> list_all2 reads_submitted (byID q wn_ID nds) opened"
  proof (induction rule: list_all2_induct)
    case (Cons a as b bs)
    then obtain c cs where "decryptNode v (storedNode b) = Inr c" "reads_submitted a c"
      "list_all2 (\<lambda>b c. decryptNode v b = Inr c) (map storedNode bs) cs" "list_all2 reads_submitted as cs" by blast
    then show ?case by (intro exI[of _ "c # cs"]) simp
  qed simp
  moreover have "byID q wn_ID (map storedNode sealed) = map storedNode (byID q wn_ID sealed)"
    by (simp add: byID_def sort_key_map storedNode_def)
  ultimately show "\<exists>opened. decryptNodes v (byID q wn_ID (map storedNode sealed)) = Inr opened \<and> list_all2 reads_submitted (byID q wn_ID nds) opened"
    using decryptNodes_all by metis
qed

lemma version_core: "frames core (mysql_CreateWorkflowVersion q J uuid w)"
  unfolding mysql_CreateWorkflowVersion_def createWorkflowVersionInTx_def
  by (intro frame_rules frames_exec) (auto simp: into_Inr core_def)

lemma encryptNodeWith_ID: "encryptNodeWith f v a m = (Inr b, m') \<Longrightarrow> wn_ID b = wn_ID a \<and> wn_TypeID b = wn_TypeID a"
  by (auto simp: encryptNodeWith_def split: option.splits prod.splits sum.splits)

lemma vault_Create_Get:
  assumes "reliable q" "cols_same J" "gcm_ok (cv_cipher v)" "\<forall>a \<in> set (wf_Nodes w). submitted q J a" "triggerSurvives q J (wf_Trigger w1)"
    and "CreateWorkflow v (mysql_store q J org uuid now putEmail getEmail) w (d, n) = (Inr w1, d1, n1)" "vacant q (wf_ID w1) (tables d)"
  shows "\<exists>w2 d2. GetWorkflow v (mysql_store q J org uuid now putEmail getEmail) (wf_ID w1) d1 = (Inr w2, d2) \<and>
    list_all2 reads_submitted (byID q wn_ID (wf_Nodes w)) (wf_Nodes w2) \<and> wf_Edges w2 = byID q we_ID (wf_Edges w) \<and>
    wf_ID w2 = wf_ID w1 \<and> wf_Name w2 = wf_Name w \<and> wf_Trigger w2 = wf_Trigger w1 \<and> wf_TimeoutSeconds w2 = wf_TimeoutSeconds w1 \<and> distinct (map wn_ID (wf_Nodes w))"
proof -
  obtain sealed stored d0 where enc: "encryptNodes v (wf_Nodes w) n = (Inr sealed, n1)"
    and create: "mysql_CreateWorkflow q J org (uuid (clock d)) (now (clock d)) (w\<lparr>wf_Nodes := sealed\<rparr>) d = (Inr stored, d0)"
    and rest: "decryptWorkflow v stored = Inr w1" "d1 = snd (mysql_CreateWorkflowVersion q J (uuid (clock d0)) stored d0)"
    using assms(6) by (auto simp: CreateWorkflow_def writeAndSnapshot_def mysql_store_def split: prod.splits sum.splits)
  have id: "wf_ID stored = wf_ID w1" "wf_Trigger stored = wf_Trigger w1" "wf_TimeoutSeconds stored = wf_TimeoutSeconds w1"
    using rest(1) by (auto simp: decryptWorkflow_def split: sum.splits)
  have vac: "vacant q (wf_ID stored) (tables d)" using assms(7) id by simp
  note stored = Create_Inr(1)[OF assms(2) create vac]
  have fields: "wf_Nodes stored = sealed" "wf_Edges stored = wf_Edges w" "wf_Name stored = wf_Name w"
    by (simp_all add: stored createDefaults_def defaultKind_def)
  have "list_all2 (\<lambda>a b. \<exists>m m'. encryptNodeWith (encryptKeys v (wn_ID a)) v a m = (Inr b, m')) (wf_Nodes w) sealed"
    using eachNode_all[OF enc[unfolded encryptNodes_def]] by simp
  then have "map wn_ID sealed = map wn_ID (wf_Nodes w)"
    by (induction rule: list_all2_induct) (auto dest: encryptNodeWith_ID)
  moreover have "distinct (map wn_ID sealed)" using Create_Inr(2)[OF assms(2) create vac] fields(1) by (auto simp: holds_def dest: distinct_nodes)
  ultimately have dist: "distinct (map wn_ID (wf_Nodes w))" by simp
  note nodes = sealed_nodes[OF assms(3,4) enc]
  have surv: "workflowSurvives q J stored" using nodes(1) fields(1) assms(5) id(2) by (simp add: workflowSurvives_def)
  have "core (tables d1) = core (tables d0)" using version_core rest(2) by (auto simp: frames_def)
  from Create_Get[OF assms(1,2) create vac surv this] obtain d2 where get: "mysql_GetWorkflow q J org (wf_ID stored) d1 = (Inr (readBack q stored), d2)" by blast
  from nodes(2) obtain opened where "decryptNodes v (wf_Nodes (readBack q stored)) = Inr opened" "list_all2 reads_submitted (byID q wn_ID (wf_Nodes w)) opened"
    by (auto simp: readBack_def fields(1))
  with get id fields dist show ?thesis
    by (auto simp: GetWorkflow_def mysql_store_def decryptWorkflow_def readBack_def)
qed

text \<open>
  C23. From the request to the database and back. A workflow that \<open>CreateWorkflow\<close> of the vault accepted, over the MySQL
  store, is read back by \<open>GetWorkflow\<close> of the vault with every secret opened: the nodes come back in the
  order of their ids, each with the configuration values that were submitted, and otherwise as the store keeps them. The best-effort version
  snapshot that \<open>CreateWorkflow\<close> takes in between does not disturb this, whether it succeeds or not.
\<close>

theorem saved_secrets_read_back:
  assumes "reliable q" "cols_same J" "gcm_ok (cv_cipher v)" "\<forall>a \<in> set (wf_Nodes w). submitted q J a" "triggerSurvives q J (wf_Trigger w1)"
    and "CreateWorkflow v (mysql_store q J org uuid now putEmail getEmail) w (d, n) = (Inr w1, d1, n1)" "vacant q (wf_ID w1) (tables d)"
  shows "\<exists>w2 d2. GetWorkflow v (mysql_store q J org uuid now putEmail getEmail) (wf_ID w1) d1 = (Inr w2, d2) \<and>
    list_all2 reads_submitted (byID q wn_ID (wf_Nodes w)) (wf_Nodes w2) \<and> wf_Edges w2 = byID q we_ID (wf_Edges w) \<and>
    wf_ID w2 = wf_ID w1 \<and> wf_Name w2 = wf_Name w \<and> wf_Trigger w2 = wf_Trigger w1 \<and> wf_TimeoutSeconds w2 = wf_TimeoutSeconds w1"
  using vault_Create_Get[OF assms] by blast

end
