(* ===== verification/Workflow_Versions.thy ===== *)
theory Workflow_Versions
  imports Workflow_Roundtrip
begin

text \<open>
  Versions of a workflow. A snapshot is a JSON document, in which the sealed configuration values appear as
  base64 strings; reading it gives the workflow back. Restoring a version is one transaction
  that replaces the graph and records the restored state as the newest version.
\<close>

section \<open>Snapshots\<close>

fun jsonValue :: "val \<Rightarrow> val" where
  "jsonValue (VBytes b) = VStr (EncodeToString b)"
| "jsonValue v = v"

definition jsonNode :: "workflow_node \<Rightarrow> workflow_node" where
  "jsonNode n = n\<lparr>wn_Config := (case cfg_entries (wn_Config n) of [] \<Rightarrow> None | e # es \<Rightarrow> Some (map (apsnd jsonValue) (e # es)))\<rparr>"

text \<open>
  The codec on the snapshot of a workflow: byte slices become base64 strings, and an empty configuration map is left out by \<open>omitempty\<close> and read back as
  \<open>nil\<close>; nothing else changes.
\<close>

definition snapshotSurvives :: "wf_json \<Rightarrow> workflow \<Rightarrow> bool" where
  "snapshotSurvives J w \<longleftrightarrow> (\<forall>s. enc_snapshot J (workflowToSnapshot w) = Some s \<longrightarrow>
     dec_snapshot J s = Some ((workflowToSnapshot w)\<lparr>vs_Nodes := map jsonNode (wf_Nodes w)\<rparr>))"

text \<open>Exactly the sensitive values of the node are sealed.\<close>

definition sealedNode :: "workflow_node \<Rightarrow> bool" where
  "sealedNode n \<longleftrightarrow> (\<forall>(k, v) \<in> set (cfg_entries (wn_Config n)). isSensitive n k \<longleftrightarrow> (\<exists>b. v = VBytes b))"

lemma snapshotConfig_json:
  "\<forall>(k, v) \<in> set es. isSensitive n k \<longleftrightarrow> (\<exists>b. v = VBytes b) \<Longrightarrow> (\<And>k. isSensitive m k = isSensitive n k) \<Longrightarrow>
   snapshotConfig m (map (apsnd jsonValue) es) = Inr es"
proof (induction es)
  case (Cons e es)
  obtain k v where "e = (k, v)" by fastforce
  with Cons show ?case by (cases v) (auto simp: decode_encode)
qed simp

lemma snapshotNode_json: "sealedNode n \<Longrightarrow> snapshotNode (jsonNode n) = Inr (n\<lparr>wn_Config := Some (cfg_entries (wn_Config n))\<rparr>)"
proof -
  assume "sealedNode n"
  then have "snapshotConfig (jsonNode n) (map (apsnd jsonValue) (cfg_entries (wn_Config n))) = Inr (cfg_entries (wn_Config n))"
    unfolding sealedNode_def by (rule snapshotConfig_json) (simp add: isSensitive_def jsonNode_def)
  moreover have "cfg_entries (wn_Config (jsonNode n)) = map (apsnd jsonValue) (cfg_entries (wn_Config n))"
    by (cases "cfg_entries (wn_Config n)") (simp_all add: jsonNode_def)
  ultimately show ?thesis by (simp add: snapshotNode_def jsonNode_def)
qed

lemma readRows_map: "(\<And>x. x \<in> set xs \<Longrightarrow> f (g x) = Inr (h x)) \<Longrightarrow> readRows f (map g xs) = Inr (map h xs)"
  by (induction xs) auto

text \<open>What a snapshot is read as.\<close>

definition versioned :: "workflow \<Rightarrow> workflow" where
  "versioned w = w\<lparr>wf_Nodes := map (\<lambda>n. n\<lparr>wn_Config := Some (cfg_entries (wn_Config n))\<rparr>) (wf_Nodes w)\<rparr>"

lemma readDefinition_versioned:
  assumes "snapshotSurvives J w" "\<forall>n \<in> set (wf_Nodes w). sealedNode n" "enc_snapshot J (workflowToSnapshot w) = Some s"
  shows "readDefinition J (wf_ID w) s = Inr (versioned w)"
  using assms readRows_map[of "wf_Nodes w" snapshotNode jsonNode "\<lambda>n. n\<lparr>wn_Config := Some (cfg_entries (wn_Config n))\<rparr>"] snapshotNode_json
  by (auto simp: readDefinition_def snapshotSurvives_def snapshotToWorkflow_def versioned_def workflowToSnapshot_def intro!: workflow.equality)

section \<open>Numbering\<close>

lemma fold_max: "x \<in> set (n # ns) \<Longrightarrow> x \<le> fold max ns (n::int)"
  using Max_ge[of "set (n # ns)" x] by (simp only: Max.set_eq_fold[symmetric] finite_set)

lemma maxVersion_bound:
  assumes "r \<in> set (t_versions t)" "sql_eq q (dv_WorkflowID r) i"
  shows "\<exists>m. maxVersion q i t = Some m \<and> dv_VersionNumber r \<le> m"
proof -
  have mem: "dv_VersionNumber r \<in> set (map dv_VersionNumber (filter (\<lambda>r. sql_eq q (dv_WorkflowID r) i) (t_versions t)))" using assms by simp
  then obtain n ns where "map dv_VersionNumber (filter (\<lambda>r. sql_eq q (dv_WorkflowID r) i) (t_versions t)) = n # ns"
    by (cases "map dv_VersionNumber (filter (\<lambda>r. sql_eq q (dv_WorkflowID r) i) (t_versions t))") auto
  with mem fold_max[of "dv_VersionNumber r" n ns] show ?thesis by (auto simp: maxVersion_def)
qed

lemma createVersion_Inr:
  assumes "cols_same J" "createWorkflowVersionInTx q J uuid w d = (Inr (), d')"
  shows "\<exists>new. tables d' = (tables d)\<lparr>t_versions := t_versions (tables d) @ [new]\<rparr> \<and> dv_WorkflowID new = wf_ID w \<and> enc_snapshot J (workflowToSnapshot w) = Some (dv_Definition new) \<and>
    dv_NodeCount new = length (wf_Nodes w) \<and> (\<forall>r \<in> set (t_versions (tables d)). sql_eq q (dv_WorkflowID r) (wf_ID w) \<longrightarrow> dv_VersionNumber r < dv_VersionNumber new)"
proof -
  obtain s where s: "enc_snapshot J (workflowToSnapshot w) = Some s"
    using assms(2) by (auto simp: createWorkflowVersionInTx_def fail_def split: option.splits)
  let ?row = "\<lparr> dv_ID = uuid, dv_WorkflowID = wf_ID w, dv_VersionNumber = (case maxVersion q (wf_ID w) (tables d) of None \<Rightarrow> 1 | Some m \<Rightarrow> m + 1),
     dv_NodeCount = length (wf_Nodes w), dv_Definition = s \<rparr>"
  from assms(2)[unfolded createWorkflowVersionInTx_def s option.case] obtain m d1 where m: "query q (\<lambda>t. Inr (maxVersion q (wf_ID w) t)) d = (Inr m, d1)"
    "exec q (\<lambda>t. into (insertRow (col_version J) (sameVersion q) \<lparr> dv_ID = uuid, dv_WorkflowID = wf_ID w, dv_VersionNumber = (case m of None \<Rightarrow> 1 | Some m \<Rightarrow> m + 1),
       dv_NodeCount = length (wf_Nodes w), dv_Definition = s \<rparr> (t_versions t)) (\<lambda>rows. t\<lparr>t_versions := rows\<rparr>)) d1 = (Inr (), d')"
    by (rule andThen_InrE)
  from query_Inr[OF m(1)] have max: "m = maxVersion q (wf_ID w) (tables d)" "tables d1 = tables d" by auto
  from exec_Inr[OF m(2)] obtain r where r: "tables d' = (tables d)\<lparr>t_versions := t_versions (tables d) @ [r]\<rparr>" "col_version J ?row = Some r"
    by (auto simp: into_Inr insertRow_Inr max)
  have "dv_VersionNumber x < dv_VersionNumber ?row" if "x \<in> set (t_versions (tables d))" "sql_eq q (dv_WorkflowID x) (wf_ID w)" for x
    using maxVersion_bound[OF that] by auto
  with r cols_sameD(5)[OF assms(1) r(2)] s show ?thesis by (intro exI[of _ ?row]) simp
qed

section \<open>Restoring\<close>

lemma Restore_Inr:
  assumes "cols_same J" "mysql_RestoreWorkflowVersion q J uuid now i k d = (Inr w, d')"
  obtains old cfg new where "old \<in> set (t_versions (tables d))" "sql_eq q (dv_WorkflowID old) i" "dv_VersionNumber old = k"
    "readDefinition J i (dv_Definition old) = Inr w" "enc_any J (VMap (triggerExtra (wf_Trigger w))) = Some cfg"
    "holds q J i (wf_Nodes w) (wf_Edges w) (tables d')" "\<exists>r \<in> set (t_wf (tables d)). sql_eq q (dw_ID r) i"
    "those (map (\<lambda>r. if sql_eq q (dw_ID r) i then col_workflow J ((setWorkflow cfg w r)\<lparr>dw_UpdatedAt := now\<rparr>) else Some r) (t_wf (tables d))) = Some (t_wf (tables d'))"
    "t_versions (tables d') = t_versions (tables d) @ [new]" "dv_WorkflowID new = i" "enc_snapshot J (workflowToSnapshot w) = Some (dv_Definition new)"
    "\<forall>r \<in> set (t_versions (tables d)). sql_eq q (dv_WorkflowID r) i \<longrightarrow> dv_VersionNumber r < dv_VersionNumber new"
proof -
  obtain old w1 d1 d2 d6 where s1: "versionRow q i k (tick d) = (Inr old, d1)" "readDefinition J i (dv_Definition old) = Inr w1" "tables d6 = tables d'" and
    s2: "(case enc_any J (VMap (triggerExtra (wf_Trigger w1))) of None \<Rightarrow> fail MarshalFault
        | Some cfg \<Rightarrow>
            andThen (replaceNodesAndEdges q J i (wf_Nodes w1) (wf_Edges w1)) (\<lambda>_.
            andThen (updateWorkflows q J (\<lambda>r. sql_eq q (dw_ID r) i) (\<lambda>r. (setWorkflow cfg w1 r)\<lparr>dw_UpdatedAt := now\<rparr>)) (\<lambda>n.
            if n = 0 then fail ErrNotFound
            else andThen (query q (\<lambda>t. firstRow (\<lambda>r. sql_eq q (dw_ID r) i) (t_wf t))) (\<lambda>_.
              andThen (createWorkflowVersionInTx q J uuid w1) (\<lambda>_. give w1))))) d1 = (Inr w, d6)"
    using assms(2)[unfolded mysql_RestoreWorkflowVersion_def] by (elim transaction_InrE andThen_InrE) auto
  from query_Inr[OF s1(1)[unfolded versionRow_def]] have old: "find (\<lambda>r. sql_eq q (dv_WorkflowID r) i \<and> dv_VersionNumber r = k) (t_versions (tables d)) = Some old" "tables d1 = tables d"
    by (auto split: option.splits)
  obtain cfg where cfg: "enc_any J (VMap (triggerExtra (wf_Trigger w1))) = Some cfg" using s2 by (auto simp: fail_def split: option.splits)
  from s2[unfolded cfg option.case] obtain u n d3 d4 where s3: "replaceNodesAndEdges q J i (wf_Nodes w1) (wf_Edges w1) d1 = (Inr u, d3)"
    "updateWorkflows q J (\<lambda>r. sql_eq q (dw_ID r) i) (\<lambda>r. (setWorkflow cfg w1 r)\<lparr>dw_UpdatedAt := now\<rparr>) d3 = (Inr n, d4)"
    "(if n = 0 then fail ErrNotFound else andThen (query q (\<lambda>t. firstRow (\<lambda>r. sql_eq q (dw_ID r) i) (t_wf t))) (\<lambda>_.
        andThen (createWorkflowVersionInTx q J uuid w1) (\<lambda>_. give w1))) d4 = (Inr w, d6)"
    by (elim andThen_InrE) blast
  from s3(3) have "n \<noteq> 0" by (cases "n = 0") (simp_all add: fail_def)
  obtain row u5 d5 d7 where q5: "query q (\<lambda>t. firstRow (\<lambda>r. sql_eq q (dw_ID r) i) (t_wf t)) d4 = (Inr row, d5)"
    "createWorkflowVersionInTx q J uuid w1 d5 = (Inr u5, d7)" "give w1 d7 = (Inr w, d6)"
    using s3(3)[unfolded if_not_P[OF \<open>n \<noteq> 0\<close>]] by (elim andThen_InrE) blast
  then have s5: "createWorkflowVersionInTx q J uuid w1 d5 = (Inr (), d6)" "tables d5 = tables d4" "w = w1"
    using query_Inr[OF q5(1)] by (simp_all add: give_def)
  have repl: "replaceNodesAndEdges q J i (wf_Nodes w1) (wf_Edges w1) d1 = (Inr (), d3)" using s3(1) by simp
  note graph = replace_holds[OF assms(1) repl]
  from exec_Inr[OF s3(2)[unfolded updateWorkflows_def]] obtain rows where rows:
    "those (map (\<lambda>r. if sql_eq q (dw_ID r) i then col_workflow J ((setWorkflow cfg w1 r)\<lparr>dw_UpdatedAt := now\<rparr>) else Some r) (t_wf (tables d3))) = Some rows"
    "n = length (filter (\<lambda>r. sql_eq q (dw_ID r) i) (t_wf (tables d3)))" "tables d4 = (tables d3)\<lparr>t_wf := rows\<rparr>"
    by (auto simp: updateRows_def split: option.splits)
  obtain new where new: "tables d6 = (tables d5)\<lparr>t_versions := t_versions (tables d5) @ [new]\<rparr>" "dv_WorkflowID new = wf_ID w1"
    "enc_snapshot J (workflowToSnapshot w1) = Some (dv_Definition new)"
    "\<forall>r \<in> set (t_versions (tables d5)). sql_eq q (dv_WorkflowID r) (wf_ID w1) \<longrightarrow> dv_VersionNumber r < dv_VersionNumber new"
    using createVersion_Inr[OF assms(1) s5(1)] by blast
  have id: "wf_ID w1 = i" by (rule readDefinition_ID[OF s1(2)])
  have tabs: "tables d' = (tables d3)\<lparr>t_wf := rows, t_versions := t_versions (tables d) @ [new]\<rparr>"
    using new(1) s5(2) rows(3) graph(3) old(2) s1(3) by simp
  have "holds q J i (wf_Nodes w) (wf_Edges w) (tables d')"
    using graph(1) s5(3) by (simp add: tabs holds_def)
  moreover have "\<exists>r \<in> set (t_wf (tables d)). sql_eq q (dw_ID r) i"
    using \<open>n \<noteq> 0\<close> rows(2) graph(2) old(2) by (auto simp: filter_empty_conv)
  ultimately show thesis
    using that[of old cfg new] old(1) s1(2) s5(3) cfg new id rows(1) graph(2,3) old(2) tabs s5(2) rows(3) by (auto simp: find_Some_iff)
qed

lemma snapshotNode_config: "snapshotNode sn = Inr n \<Longrightarrow> n\<lparr>wn_Config := Some (cfg_entries (wn_Config n))\<rparr> = n"
  by (auto simp: snapshotNode_def split: sum.splits)

lemma readRows_all: "readRows f xs = Inr ys \<Longrightarrow> y \<in> set ys \<Longrightarrow> \<exists>x \<in> set xs. f x = Inr y"
  by (induction xs arbitrary: ys) (auto split: sum.splits)

lemma readDefinition_fixed: "readDefinition J i def = Inr w \<Longrightarrow> versioned w = w"
proof -
  assume "readDefinition J i def = Inr w"
  then obtain nds where "readRows snapshotNode nds = Inr (wf_Nodes w)"
    by (auto simp: readDefinition_def snapshotToWorkflow_def split: option.splits sum.splits)
  from readRows_all[OF this] have "\<forall>n \<in> set (wf_Nodes w). n\<lparr>wn_Config := Some (cfg_entries (wn_Config n))\<rparr> = n"
    by (auto dest: snapshotNode_config)
  then show ?thesis by (simp add: versioned_def map_idI)
qed

text \<open>
  C25. Restoring a version. When \<open>RestoreWorkflowVersion\<close> succeeds, the version existed; reading the workflow
  afterwards gives its definition; all earlier versions are kept and exactly one is added, with a
  number above all others of that workflow, and reading that new version gives the restored workflow again. When it fails, nothing has
  changed. \<open>reliable\<close> rules out lost connections; the other hypotheses are those of the round trip.
\<close>

theorem restore_version:
  assumes "reliable q" "cols_same J" "mysql_RestoreWorkflowVersion q J uuid now i k d = (Inr w, d')" "workflowSurvives q J w"
    and "\<forall>r \<in> set (t_wf (tables d)). sql_eq q (dw_ID r) i \<longrightarrow> dw_ID r = i" "snapshotSurvives J w" "\<forall>n \<in> set (wf_Nodes w). sealedNode n"
  shows "(\<exists>old new d''. old \<in> set (t_versions (tables d)) \<and> sql_eq q (dv_WorkflowID old) i \<and> dv_VersionNumber old = k \<and> readDefinition J i (dv_Definition old) = Inr w \<and>
      t_versions (tables d') = t_versions (tables d) @ [new] \<and> readDefinition J i (dv_Definition new) = Inr w \<and>
      (\<forall>r \<in> set (t_versions (tables d)). sql_eq q (dv_WorkflowID r) i \<longrightarrow> dv_VersionNumber r < dv_VersionNumber new) \<and>
      mysql_GetWorkflow q J [] i d' = (Inr (readBack q w), d'')) \<and>
    (\<forall>j e. isl (fst (mysql_RestoreWorkflowVersion q J uuid now i j e)) \<longrightarrow> tables (snd (mysql_RestoreWorkflowVersion q J uuid now i j e)) = tables e)"
proof
  let ?f = "\<lambda>cfg r. (setWorkflow cfg w r)\<lparr>dw_UpdatedAt := now\<rparr>" and ?P = "\<lambda>r. sql_eq q (dw_ID r) i"
  obtain old cfg new where r: "old \<in> set (t_versions (tables d))" "sql_eq q (dv_WorkflowID old) i" "dv_VersionNumber old = k"
    "readDefinition J i (dv_Definition old) = Inr w" "enc_any J (VMap (triggerExtra (wf_Trigger w))) = Some cfg"
    "holds q J i (wf_Nodes w) (wf_Edges w) (tables d')" "\<exists>r \<in> set (t_wf (tables d)). sql_eq q (dw_ID r) i"
    "those (map (\<lambda>r. if ?P r then col_workflow J (?f cfg r) else Some r) (t_wf (tables d))) = Some (t_wf (tables d'))"
    "t_versions (tables d') = t_versions (tables d) @ [new]" "dv_WorkflowID new = i" "enc_snapshot J (workflowToSnapshot w) = Some (dv_Definition new)"
    "\<forall>r \<in> set (t_versions (tables d)). sql_eq q (dv_WorkflowID r) i \<longrightarrow> dv_VersionNumber r < dv_VersionNumber new"
    by (rule Restore_Inr[OF assms(2,3)])
  have id: "wf_ID w = i" by (rule readDefinition_ID[OF r(4)])
  have "r' = ?f cfg r \<and> ?P (?f cfg r)" if "?P r" "col_workflow J (?f cfg r) = Some r'" for r r'
    using cols_sameD(1)[OF assms(2) that(2)] that(1) by (simp add: setWorkflow_def)
  moreover have "find ?P (t_wf (tables d)) \<noteq> None" using r(7) by (auto simp: find_None_iff)
  ultimately obtain row where row: "?P row" "row \<in> set (t_wf (tables d))" "find ?P (t_wf (tables d')) = Some (?f cfg row)"
    using find_those[where f = "?f cfg", OF r(8)] by blast
  have found: "find (wfVisible q [] i) (t_wf (tables d')) = Some (?f cfg row)" using row(3) by (simp add: wfVisible_def[abs_def])
  have "setWorkflow cfg w (?f cfg row) = ?f cfg row" "dw_ID (?f cfg row) = wf_ID w" using row(1,2) assms(5) id by (simp_all add: setWorkflow_def)
  from Get_holds[OF assms(1) r(6) assms(4) found this r(5)] obtain d'' where "mysql_GetWorkflow q J [] i d' = (Inr (readBack q w), d'')" by blast
  moreover have "readDefinition J i (dv_Definition new) = Inr w"
    using readDefinition_versioned[OF assms(6,7) r(11)] readDefinition_fixed[OF r(4)] id by simp
  ultimately show "\<exists>old new d''. old \<in> set (t_versions (tables d)) \<and> sql_eq q (dv_WorkflowID old) i \<and> dv_VersionNumber old = k \<and> readDefinition J i (dv_Definition old) = Inr w \<and>
      t_versions (tables d') = t_versions (tables d) @ [new] \<and> readDefinition J i (dv_Definition new) = Inr w \<and>
      (\<forall>r \<in> set (t_versions (tables d)). sql_eq q (dv_WorkflowID r) i \<longrightarrow> dv_VersionNumber r < dv_VersionNumber new) \<and>
      mysql_GetWorkflow q J [] i d' = (Inr (readBack q w), d'')"
    using r(1-4,9,12) by blast
  show "\<forall>j e. isl (fst (mysql_RestoreWorkflowVersion q J uuid now i j e)) \<longrightarrow> tables (snd (mysql_RestoreWorkflowVersion q J uuid now i j e)) = tables e"
    using assms(1) unfolding mysql_RestoreWorkflowVersion_def
    by (auto simp: transaction_reliable split: prod.split sum.split)
qed

section \<open>A concrete database\<close>

text \<open>A database that does not fail, with a codec for strings and for one snapshot.\<close>

definition plain_sql :: sql where
  "plain_sql = \<lparr> sql_outcome = (\<lambda>_. Done), sql_key = (\<lambda>s. s), sql_json = (\<lambda>s. s) \<rparr>"

fun enc_string :: "val \<Rightarrow> string option" where
  "enc_string (VStr s) = Some (CHR ''s'' # s)"
| "enc_string (VMap []) = Some ''{}''"
| "enc_string _ = None"

fun dec_string :: "string \<Rightarrow> val option" where
  "dec_string (c # s) = (if c = CHR ''s'' then Some (VStr s) else None)"
| "dec_string [] = None"

definition string_json :: "version_snapshot \<Rightarrow> wf_json" where
  "string_json snap = \<lparr> enc_any = enc_string, dec_any = dec_string, enc_parsers = (\<lambda>_. None), dec_parsers = (\<lambda>_. None), dec_extra = (\<lambda>_. []),
     enc_snapshot = (\<lambda>_. Some ''snapshot''), dec_snapshot = (\<lambda>_. Some snap),
     col_workflow = Some, col_node = Some, col_edge = Some, col_config = Some, col_version = Some \<rparr>"

lemma string_json_cols: "cols_same (string_json snap)" "cols_keep (string_json snap)"
  by (simp_all add: cols_same_def cols_keep_def string_json_def)

lemma plain_sql_reliable: "reliable plain_sql"
  by (simp add: reliable_def plain_sql_def)

definition empty_db :: "wf_tables db" where
  "empty_db = \<lparr> tables = \<lparr> t_wf = [], t_nodes = [], t_edges = [], t_configs = [], t_versions = [], t_wf_runs = [] \<rparr>, clock = 0 \<rparr>"

definition demo_wf :: "string \<Rightarrow> workflow_node list \<Rightarrow> workflow" where
  "demo_wf name nds = (sample_wf nds)\<lparr> wf_Name := name, wf_TimeoutSeconds := 60 \<rparr>"

definition demo_created :: "workflow \<Rightarrow> wf_tables db" where
  "demo_created w = snd (mysql_CreateWorkflow plain_sql (string_json (workflowToSnapshot w)) ''org'' ''u'' 1 w empty_db)"

lemma workflow_store_isolation_witness:
  "isl (fst (mysql_DeleteWorkflow plain_sql ''other'' ''w'' (demo_created (demo_wf ''n'' [])))) \<and>
   tables (snd (mysql_DeleteWorkflow plain_sql ''other'' ''w'' (demo_created (demo_wf ''n'' [])))) = tables (demo_created (demo_wf ''n'' []))"
proof -
  have "t_wf (tables (demo_created (demo_wf ''n'' []))) = [\<lparr> dw_ID = ''w'', dw_OrgID = ''org'', dw_Name = ''n'', dw_Description = [], dw_TriggerKind = ''manual'',
      dw_TriggerConfig = Some ''{}'', dw_InitialDataSchema = None, dw_TimeoutSeconds = 60, dw_UpdatedAt = 1 \<rparr>]"
    by code_simp
  then have own: "\<forall>r \<in> set (t_wf (tables (demo_created (demo_wf ''n'' [])))). sql_eq plain_sql (dw_ID r) ''w'' \<longrightarrow> \<not> sql_eq plain_sql (dw_OrgID r) ''other''"
    by (simp add: sql_eq_def plain_sql_def)
  have "wf_ID (demo_wf ''n'' []) = ''w''" by (simp add: demo_wf_def sample_wf_def)
  from workflow_store_isolation[OF _ own string_json_cols(2) this this] show ?thesis by blast
qed

lemma demo_survives: "triggerSurvives plain_sql (string_json snap) (wf_Trigger (demo_wf name nds))"
  by (simp add: triggerSurvives_def string_json_def demo_wf_def sample_wf_def triggerExtra_def stringField_def)

lemma sum_Inr_pair: "\<not> isl (fst p) \<Longrightarrow> p = (Inr (projr (fst p)), snd p)"
  by (cases p; cases "fst p") auto

text \<open>A node without configuration, with a retry policy that the store cannot tell from none.\<close>

definition retry_node :: workflow_node where
  "retry_node = (secret_node ''a'' [])\<lparr> wn_Config := None, wn_RetryPolicy := Some \<lparr> rp_MaxRetries = 0, rp_BackoffMs = 1000 \<rparr> \<rparr>"

lemma workflow_store_roundtrip_witness:
  "\<exists>w d'. mysql_GetWorkflow plain_sql (string_json (workflowToSnapshot (demo_wf ''n'' [retry_node]))) ''org'' ''w'' (demo_created (demo_wf ''n'' [retry_node])) = (Inr w, d') \<and>
     wf_Name w = ''n'' \<and> map wn_RetryPolicy (wf_Nodes w) = [None]"
proof -
  let ?w = "demo_wf ''n'' [retry_node]" let ?J = "string_json (workflowToSnapshot ?w)"
  let ?c = "mysql_CreateWorkflow plain_sql ?J ''org'' ''u'' 1 ?w empty_db"
  have "\<not> isl (fst ?c)" by code_simp
  from sum_Inr_pair[OF this] have c: "?c = (Inr (projr (fst ?c)), demo_created ?w)" by (simp add: demo_created_def)
  have w: "projr (fst ?c) = ?w" by code_simp
  have "workflowSurvives plain_sql ?J ?w"
    using demo_survives[of "workflowToSnapshot ?w" "''n''" "[retry_node]"]
    by (simp add: workflowSurvives_def nodeSurvives_def parsersSurvive_def) (simp add: demo_wf_def sample_wf_def retry_node_def string_json_def)
  moreover have "vacant plain_sql (wf_ID ?w) (tables empty_db)" by (simp add: vacant_def empty_db_def)
  ultimately obtain d'' where get: "mysql_GetWorkflow plain_sql ?J ''org'' (wf_ID ?w) (demo_created ?w) = (Inr (readBack plain_sql ?w), d'')"
    using workflow_store_roundtrip[OF plain_sql_reliable string_json_cols(1), of "workflowToSnapshot ?w" ?w "''org''" "''u''" 1 ?w empty_db "demo_created ?w"] c[unfolded w]
    by blast
  have "wf_ID ?w = ''w''" by (simp add: demo_wf_def sample_wf_def)
  moreover have "wf_Name (readBack plain_sql ?w) = ''n''" "map wn_RetryPolicy (wf_Nodes (readBack plain_sql ?w)) = [None]" by code_simp+
  ultimately show ?thesis using get by auto
qed

definition demo_store :: "wf_tables db inner_store" where
  "demo_store = mysql_store plain_sql (string_json (workflowToSnapshot (demo_wf ''n'' []))) ''org'' (\<lambda>_. ''u'') (\<lambda>_. 1) (\<lambda>_. give ()) (\<lambda>_. fail ErrNotFound)"

lemma saved_secrets_read_back_witness:
  "\<exists>w1 d1 n1 w2 d2. CreateWorkflow sample_vault demo_store
       (demo_wf ''n'' [secret_node ''a'' ''sk-1'']) (empty_db, 0) = (Inr w1, d1, n1) \<and>
     GetWorkflow sample_vault demo_store
       (wf_ID w1) d1 = (Inr w2, d2) \<and> map (\<lambda>n. map_of (cfg_entries (wn_Config n)) ''api_key'') (wf_Nodes w2) = [Some (VStr ''sk-1'')]"
proof -
  let ?w = "demo_wf ''n'' [secret_node ''a'' ''sk-1'']" let ?J = "string_json (workflowToSnapshot (demo_wf ''n'' []))"
  let ?c = "CreateWorkflow sample_vault demo_store ?w (empty_db, 0)"
  have "\<not> isl (fst ?c)" by code_simp
  from sum_Inr_pair[OF this] obtain w1 d1 n1 where c: "?c = (Inr w1, d1, n1)" by (metis prod.collapse)
  have "wf_Trigger (projr (fst ?c)) = wf_Trigger ?w" by code_simp
  with c have trig: "triggerSurvives plain_sql ?J (wf_Trigger w1)" by (simp add: demo_survives)
  have sub: "\<forall>a \<in> set (wf_Nodes ?w). submitted plain_sql ?J a"
    by (simp add: submitted_def demo_wf_def sample_wf_def secret_node_def plain_def survives_def parsersSurvive_def string_json_def)
  have gcm: "gcm_ok (cv_cipher sample_vault)" by (simp add: sample_vault_def sample_gcm_ok)
  have "vacant plain_sql (wf_ID w1) (tables empty_db)" by (simp add: vacant_def empty_db_def)
  from saved_secrets_read_back[OF plain_sql_reliable string_json_cols(1) gcm sub trig c[unfolded demo_store_def] this] obtain w2 d2 where g:
    "GetWorkflow sample_vault demo_store (wf_ID w1) d1 = (Inr w2, d2)"
    "list_all2 reads_submitted (byID plain_sql wn_ID (wf_Nodes ?w)) (wf_Nodes w2)" unfolding demo_store_def by blast
  have "byID plain_sql wn_ID (wf_Nodes ?w) = [secret_node ''a'' ''sk-1'']" by (simp add: demo_wf_def sample_wf_def byID_def sort_key_def)
  with g(2) obtain b where "wf_Nodes w2 = [b]" "reads_submitted (secret_node ''a'' ''sk-1'') b" by (auto simp: list_all2_Cons1)
  then have "map (\<lambda>n. map_of (cfg_entries (wn_Config n)) ''api_key'') (wf_Nodes w2) = [Some (VStr ''sk-1'')]"
    by (simp add: reads_submitted_def) (simp add: secret_node_def)
  with c g(1) show ?thesis by (intro exI conjI)
qed

definition demo_versioned :: "wf_tables db" where
  "demo_versioned = snd (mysql_CreateWorkflowVersion plain_sql (string_json (workflowToSnapshot (demo_wf ''n'' []))) ''v1'' (demo_wf ''n'' []) (demo_created (demo_wf ''n'' [])))"

lemma restore_version_witness:
  "\<exists>w d' d''. mysql_RestoreWorkflowVersion plain_sql (string_json (workflowToSnapshot (demo_wf ''n'' []))) ''v2'' 2 ''w'' 1 demo_versioned = (Inr w, d') \<and>
     map dv_VersionNumber (t_versions (tables d')) = [1, 2] \<and>
     mysql_GetWorkflow plain_sql (string_json (workflowToSnapshot (demo_wf ''n'' []))) [] ''w'' d' = (Inr (readBack plain_sql w), d'')"
proof -
  let ?w = "demo_wf ''n'' []" let ?J = "string_json (workflowToSnapshot ?w)"
  let ?r = "mysql_RestoreWorkflowVersion plain_sql ?J ''v2'' 2 ''w'' 1 demo_versioned"
  have run: "\<not> isl (fst ?r)" "map dv_VersionNumber (t_versions (tables (snd ?r))) = [1, 2]" "projr (fst ?r) = ?w" by code_simp+
  from sum_Inr_pair[OF run(1)] run(3) have r: "?r = (Inr ?w, snd ?r)" by simp
  have nodes: "wf_Nodes ?w = []" by (simp add: demo_wf_def sample_wf_def)
  have surv: "workflowSurvives plain_sql ?J ?w" using demo_survives nodes by (simp add: workflowSurvives_def)
  have "map dw_ID (t_wf (tables demo_versioned)) = [''w'']" by code_simp
  then have ids: "\<forall>r \<in> set (t_wf (tables demo_versioned)). sql_eq plain_sql (dw_ID r) ''w'' \<longrightarrow> dw_ID r = ''w''" by (auto simp: sql_eq_def plain_sql_def)
  have snap: "snapshotSurvives ?J ?w" using nodes by (simp add: snapshotSurvives_def string_json_def workflowToSnapshot_def)
  from restore_version[OF plain_sql_reliable string_json_cols(1) r surv ids snap] nodes obtain d'' where
    "mysql_GetWorkflow plain_sql ?J [] ''w'' (snd ?r) = (Inr (readBack plain_sql ?w), d'')" by auto
  with r run(2) show ?thesis by (intro exI conjI)
qed

end
