(* ===== verification/Handler_Sync.thy ===== *)
theory Handler_Sync
  imports Workflow_Handler Workflow_Versions Trigger_Props Dag_Build
begin

text \<open>
  The live triggers follow the database through every sequence of workflow requests: what each call does to the
  rows of the workflows table and to the trigger manager, request by request, from start-up on.
\<close>

section \<open>The trigger a configuration asks for\<close>

definition armedFor :: "'c cron_lib \<Rightarrow> (string \<Rightarrow> bool) \<Rightarrow> string \<Rightarrow> trigger \<Rightarrow> live option" where
  "armedFor L aws i cfg =
     (if tr_Kind cfg = ''cron'' then (if cron_ParseStandard L (tr_CronExpr cfg) then Some (ByCron (tr_CronExpr cfg)) else None)
      else if tr_Kind cfg = ''kafka'' then
        (case newKafkaConsumer i (tr_KafkaBrokers cfg) (tr_KafkaTopic cfg) (tr_KafkaGroupID cfg) of Inl _ \<Rightarrow> None | Inr c \<Rightarrow> Some (ByConsumer c))
      else if tr_Kind cfg = ''sqs'' then (case newSQSConsumer aws (tr_SQSQueueURL cfg) (tr_SQSRegion cfg) of Inl _ \<Rightarrow> None | Inr c \<Rightarrow> Some (ByConsumer c))
      else None)"

lemma Upsert_armed:
  assumes "cron_lib_ok L" "manager_ok L mg" "Upsert L aws i cfg mg = (Inr u, mg')"
  shows "manager_ok L mg' \<and> liveOf L mg' = (liveOf L mg)(i := armedFor L aws i cfg)"
proof -
  have step: "manager_ok L mg' \<and> liveOf L mg' = liveUpsert L aws i cfg (liveOf L mg)"
    using manager_step_refines[OF assms(1,2), of aws "OpUpsert i cfg"] assms(3) by (simp add: manager_step_def live_step_def)
  have "liveUpsert L aws i cfg t = t(i := armedFor L aws i cfg)" for t
    using assms(3) by (auto simp: Upsert_def activate_def startConsumer_def liveUpsert_def liveStart_def armedFor_def split: if_splits sum.splits)
  with step show ?thesis by simp
qed

lemma liveUpsert_fresh: "t i = None \<Longrightarrow> liveUpsert L aws i cfg t = t(i := armedFor L aws i cfg)"
  by (auto simp: liveUpsert_def liveStart_def armedFor_def fun_eq_iff split: sum.splits)

lemma Remove_live:
  assumes "cron_lib_ok L" "manager_ok L mg"
  shows "manager_ok L (Remove L i mg) \<and> liveOf L (Remove L i mg) = (liveOf L mg)(i := None)"
  using manager_step_refines[OF assms, of "\<lambda>_. True" "OpRemove i"] by (simp add: manager_step_def live_step_def)

section \<open>The rows of the workflows table\<close>

definition rowTrigger :: "sql \<Rightarrow> wf_json \<Rightarrow> db_workflow \<Rightarrow> trigger" where
  "rowTrigger q J r = unmarshalTriggerConfig q J (dw_TriggerKind r) (dw_TriggerConfig r)"

definition storedTrigger :: "sql \<Rightarrow> wf_json \<Rightarrow> wf_tables \<Rightarrow> string \<Rightarrow> trigger option" where
  "storedTrigger q J t i = map_option (rowTrigger q J) (find (\<lambda>r. dw_ID r = i) (t_wf t))"

lemma storedTrigger_rows: "t_wf t' = t_wf t \<Longrightarrow> storedTrigger q J t' = storedTrigger q J t"
  by (simp add: storedTrigger_def fun_eq_iff)

lemma find_map: "find P (map f xs) = map_option f (find (\<lambda>x. P (f x)) xs)"
  by (induction xs) auto

lemma find_cong_set: "(\<And>x. x \<in> set xs \<Longrightarrow> P x = Q x) \<Longrightarrow> find P xs = find Q xs"
  by (induction xs) auto

lemma find_filter: "find P (filter Q xs) = find (\<lambda>x. Q x \<and> P x) xs"
  by (induction xs) auto

lemma those_same:
  assumes "\<And>r r'. col r = Some r' \<Longrightarrow> r' = r"
  shows "those (map (\<lambda>r. if P r then col (f r) else Some r) rows) = Some rows' \<Longrightarrow> rows' = map (\<lambda>r. if P r then f r else r) rows"
  by (induction rows arbitrary: rows') (auto split: option.splits if_splits dest: assms)

lemma updateWorkflows_rows:
  assumes "cols_same J" "updateWorkflows q J P f d = (Inr n, d')"
  shows "n = length (filter P (t_wf (tables d)))" "tables d' = (tables d)\<lparr>t_wf := map (\<lambda>r. if P r then f r else r) (t_wf (tables d))\<rparr>"
  using exec_Inr[OF assms(2)[unfolded updateWorkflows_def]] those_same[OF cols_sameD(1)[OF assms(1)]]
  by (auto simp: updateRows_def split: option.splits)

text \<open>The graph of a workflow lives in other tables.\<close>

lemma graph_frames [frame_rules]:
  "frames t_wf (insertNodes q J i nds)" "frames t_wf (insertEdges q J i eds)" "frames t_wf (replaceNodesAndEdges q J i nds eds)"
  "frames t_wf (deleteNodeConfigs q i)" "frames t_wf (deleteNodes q i)" "frames t_wf (deleteEdges q i)" "frames t_wf (deleteRuns q i)"
  "frames t_wf (DeleteWorkflowVersions q i)" "frames t_wf (createWorkflowVersionInTx q J uuid w)"
  unfolding replaceNodesAndEdges_def insertNodes_def insertConfigs_def insertEdges_def deleteNodeConfigs_def deleteNodes_def deleteEdges_def
    deleteRuns_def DeleteWorkflowVersions_def createWorkflowVersionInTx_def
  by (intro frame_rules frames_exec; auto simp: into_Inr)+

lemma Get_frames [frame_rules]: "frames v (mysql_GetWorkflow q J org i)"
  unfolding mysql_GetWorkflow_def loadNodes_def loadConfigs_def loadEdges_def by (intro frame_rules)

lemma transaction_undone: "transaction q m d = (Inl e, d') \<Longrightarrow> e \<noteq> SqlFault \<Longrightarrow> tables d' = tables d"
  by (auto simp: transaction_def split: if_splits prod.splits sum.splits sql_outcome.splits)

section \<open>What each call does to the workflows\<close>

lemma Create_rows:
  assumes "cols_same J" "mysql_CreateWorkflow q J org uuid now w d = (Inr w', d')"
  shows "w' = createDefaults uuid w" "\<exists>cfg. enc_any J (VMap (triggerExtra (wf_Trigger w'))) = Some cfg \<and> (\<forall>r \<in> set (t_wf (tables d)). \<not> sql_eq q (dw_ID r) (wf_ID w')) \<and>
    t_wf (tables d') = t_wf (tables d) @ [workflowWriteRow (if org = [] then defaultOrg else org) cfg now w']"
proof -
  let ?w = "createDefaults uuid w" and ?org = "if org = [] then defaultOrg else org"
  obtain cfg where cfg: "enc_any J (VMap (triggerExtra (wf_Trigger ?w))) = Some cfg"
    using assms(2) by (auto simp: mysql_CreateWorkflow_def Let_def fail_def split: option.splits)
  let ?row = "workflowWriteRow ?org cfg now ?w"
  obtain u1 d1 rest where steps: "exec q (\<lambda>t. into (insertRow (col_workflow J) (\<lambda>a b. sql_eq q (dw_ID a) (dw_ID b)) ?row (t_wf t)) (\<lambda>rows. t\<lparr>t_wf := rows\<rparr>)) (tick d) = (Inr u1, d1)"
    "andThen (insertNodes q J (wf_ID ?w) (wf_Nodes ?w)) (\<lambda>_. andThen (insertEdges q J (wf_ID ?w) (wf_Edges ?w)) (\<lambda>_. give ?w)) d1 = (Inr w', rest)" "tables rest = tables d'"
    using assms(2)[unfolded mysql_CreateWorkflow_def Let_def cfg option.case] by (elim transaction_InrE andThen_InrE[where m = "exec _ _"]) blast
  have "frames t_wf (andThen (insertNodes q J (wf_ID ?w) (wf_Nodes ?w)) (\<lambda>_. andThen (insertEdges q J (wf_ID ?w) (wf_Edges ?w)) (\<lambda>_. give ?w)))"
    by (intro frame_rules)
  from framesD[OF this steps(2)] have same: "t_wf (tables d') = t_wf (tables d1)" using steps(3) by simp
  show w': "w' = ?w" using steps(2) by (elim andThen_InrE) (simp add: give_def)
  from exec_Inr[OF steps(1)] obtain r where "col_workflow J ?row = Some r" "\<forall>r' \<in> set (t_wf (tables d)). \<not> sql_eq q (dw_ID r') (dw_ID r)"
    "t_wf (tables d1) = t_wf (tables d) @ [r]" by (auto simp: into_Inr insertRow_Inr)
  moreover from cols_sameD(1)[OF assms(1) this(1)] have "r = ?row" .
  ultimately show "\<exists>cfg. enc_any J (VMap (triggerExtra (wf_Trigger w'))) = Some cfg \<and> (\<forall>r \<in> set (t_wf (tables d)). \<not> sql_eq q (dw_ID r) (wf_ID w')) \<and>
      t_wf (tables d') = t_wf (tables d) @ [workflowWriteRow ?org cfg now w']"
    using cfg same w' by (intro exI[of _ cfg]) (simp add: workflowWriteRow_def)
qed

lemma Update_rows:
  assumes "cols_same J" "mysql_UpdateWorkflow q J org now w d = (Inr w', d')"
  shows "w' = defaultKind w" "\<exists>cfg. enc_any J (VMap (triggerExtra (wf_Trigger w'))) = Some cfg \<and> (\<exists>r \<in> set (t_wf (tables d)). wfVisible q org (wf_ID w') r) \<and>
    t_wf (tables d') = map (\<lambda>r. if wfVisible q org (wf_ID w') r then stamped now (setWorkflow cfg w') r else r) (t_wf (tables d))"
proof -
  let ?w = "defaultKind w"
  obtain cfg where cfg: "enc_any J (VMap (triggerExtra (wf_Trigger ?w))) = Some cfg"
    using assms(2) by (auto simp: mysql_UpdateWorkflow_def Let_def fail_def split: option.splits)
  let ?P = "wfVisible q org (wf_ID ?w)" and ?f = "stamped now (setWorkflow cfg ?w)"
  obtain n d1 d3 where step1: "updateWorkflows q J ?P ?f (tick d) = (Inr n, d1)" and
    step2: "(if n = 0 then fail ErrNotFound else
       andThen (replaceNodesAndEdges q J (wf_ID ?w) (wf_Nodes ?w) (wf_Edges ?w)) (\<lambda>_.
       andThen (query q (\<lambda>t. firstRow (\<lambda>r. sql_eq q (dw_ID r) (wf_ID ?w)) (t_wf t))) (\<lambda>_. give ?w))) d1 = (Inr w', d3)" "tables d3 = tables d'"
    using assms(2)[unfolded mysql_UpdateWorkflow_def Let_def cfg option.case] by (elim transaction_InrE andThen_InrE) simp
  note rows = updateWorkflows_rows[OF assms(1) step1]
  have n: "n \<noteq> 0" using step2(1) by (auto simp: fail_def split: if_splits)
  show w': "w' = ?w" using step2(1) n by (auto simp: give_def elim!: andThen_InrE)
  have "frames t_wf (if n = 0 then fail ErrNotFound else
       andThen (replaceNodesAndEdges q J (wf_ID ?w) (wf_Nodes ?w) (wf_Edges ?w)) (\<lambda>_.
       andThen (query q (\<lambda>t. firstRow (\<lambda>r. sql_eq q (dw_ID r) (wf_ID ?w)) (t_wf t))) (\<lambda>_. give ?w)))"
    by (intro frame_rules)
  from framesD[OF this step2(1)] have "t_wf (tables d') = t_wf (tables d1)" using step2(2) by simp
  with rows cfg w' n show "\<exists>cfg. enc_any J (VMap (triggerExtra (wf_Trigger w'))) = Some cfg \<and> (\<exists>r \<in> set (t_wf (tables d)). wfVisible q org (wf_ID w') r) \<and>
    t_wf (tables d') = map (\<lambda>r. if wfVisible q org (wf_ID w') r then stamped now (setWorkflow cfg w') r else r) (t_wf (tables d))"
    by (intro exI[of _ cfg]) (auto simp: filter_empty_conv)
qed

lemma Restore_rows:
  assumes "cols_same J" "mysql_RestoreWorkflowVersion q J uuid now i k d = (Inr w, d')"
  shows "\<exists>cfg. enc_any J (VMap (triggerExtra (wf_Trigger w))) = Some cfg \<and> (\<exists>r \<in> set (t_wf (tables d)). sql_eq q (dw_ID r) i) \<and>
    t_wf (tables d') = map (\<lambda>r. if sql_eq q (dw_ID r) i then (setWorkflow cfg w r)\<lparr>dw_UpdatedAt := now\<rparr> else r) (t_wf (tables d))"
proof -
  obtain old cfg new where r: "enc_any J (VMap (triggerExtra (wf_Trigger w))) = Some cfg" "\<exists>r \<in> set (t_wf (tables d)). sql_eq q (dw_ID r) i"
    "those (map (\<lambda>r. if sql_eq q (dw_ID r) i then col_workflow J ((setWorkflow cfg w r)\<lparr>dw_UpdatedAt := now\<rparr>) else Some r) (t_wf (tables d))) = Some (t_wf (tables d'))"
    by (rule Restore_Inr[OF assms])
  have "t_wf (tables d') = map (\<lambda>r. if sql_eq q (dw_ID r) i then (setWorkflow cfg w r)\<lparr>dw_UpdatedAt := now\<rparr> else r) (t_wf (tables d))"
    by (rule those_same[where col = "col_workflow J", OF _ r(3)]) (rule cols_sameD(1)[OF assms(1)])
  with r(1,2) show ?thesis by (intro exI[of _ cfg]) simp
qed

lemma Delete_rows:
  assumes "mysql_DeleteWorkflow q org i d = (Inr u, d')"
  shows "t_wf (tables d') = filter (\<lambda>r. \<not> wfVisible q org i r) (t_wf (tables d))" "\<exists>r \<in> set (t_wf (tables d)). wfVisible q org i r"
proof -
  obtain d1 d2 n d3 where steps: "andThen (deleteNodeConfigs q i) (\<lambda>_. andThen (deleteNodes q i) (\<lambda>_. andThen (deleteEdges q i) (\<lambda>_. andThen (deleteRuns q i) (\<lambda>_. DeleteWorkflowVersions q i)))) (tick d) = (Inr (), d1)"
    "exec q (\<lambda>t. Inr (length (filter (wfVisible q org i) (t_wf t)), t\<lparr>t_wf := filter (\<lambda>r. \<not> wfVisible q org i r) (t_wf t)\<rparr>)) d1 = (Inr n, d2)"
    "(if n = 0 then fail ErrNotFound else give ()) d2 = (Inr u, d3)" "tables d3 = tables d'"
    using assms unfolding mysql_DeleteWorkflow_def by (elim transaction_InrE andThen_InrE) (simp add: andThen_def)
  have "frames t_wf (andThen (deleteNodeConfigs q i) (\<lambda>_. andThen (deleteNodes q i) (\<lambda>_. andThen (deleteEdges q i) (\<lambda>_. andThen (deleteRuns q i) (\<lambda>_. DeleteWorkflowVersions q i)))))"
    by (intro frame_rules)
  from framesD[OF this steps(1)] exec_Inr[OF steps(2)] have "t_wf (tables d2) = filter (\<lambda>r. \<not> wfVisible q org i r) (t_wf (tables d))"
    "n = length (filter (wfVisible q org i) (t_wf (tables d)))" by (simp_all add: prod_eq_iff) (metis wf_tables.select_convs(1) wf_tables.surjective wf_tables.update_convs(1))
  with steps(3,4) show "t_wf (tables d') = filter (\<lambda>r. \<not> wfVisible q org i r) (t_wf (tables d))" "\<exists>r \<in> set (t_wf (tables d)). wfVisible q org i r"
    by (auto simp: give_def fail_def filter_empty_conv split: if_splits)
qed

section \<open>Live triggers follow the database\<close>

lemma find_id: "distinct (map dw_ID rows) \<Longrightarrow> r \<in> set rows \<Longrightarrow> find (\<lambda>r. dw_ID r = dw_ID r0) rows = (if dw_ID r = dw_ID r0 then Some r else find (\<lambda>r. dw_ID r = dw_ID r0) rows)"
  by (induction rows) (auto simp: image_iff)

lemma stored_append:
  assumes "t_wf t' = t_wf t @ [row]" "dw_ID row \<notin> dw_ID ` set (t_wf t)"
  shows "storedTrigger q J t' = (storedTrigger q J t)(dw_ID row \<mapsto> rowTrigger q J row)"
proof
  fix j
  have "find (\<lambda>r. dw_ID r = dw_ID row) (t_wf t) = None" using assms(2) by (force simp: find_None_iff image_iff)
  then show "storedTrigger q J t' j = ((storedTrigger q J t)(dw_ID row \<mapsto> rowTrigger q J row)) j"
    using assms(1) by (auto simp: storedTrigger_def find_app split: option.split)
qed

lemma stored_map:
  assumes "t_wf t' = map (\<lambda>r. if P r then f r else r) (t_wf t)" "distinct (map dw_ID (t_wf t))" "r0 \<in> set (t_wf t)" "P r0"
    and "\<And>r. r \<in> set (t_wf t) \<Longrightarrow> P r \<Longrightarrow> dw_ID r = i \<and> dw_ID (f r) = i \<and> rowTrigger q J (f r) = tr"
  shows "storedTrigger q J t' = (storedTrigger q J t)(i \<mapsto> tr)" "map dw_ID (t_wf t') = map dw_ID (t_wf t)"
proof -
  show ids: "map dw_ID (t_wf t') = map dw_ID (t_wf t)" using assms(1,5) by simp
  have "find (\<lambda>r. dw_ID r = j) (t_wf t') = map_option (\<lambda>r. if P r then f r else r) (find (\<lambda>r. dw_ID r = j) (t_wf t))" for j
    unfolding assms(1) find_map using assms(5) by (auto intro!: arg_cong[of _ _ "map_option _"] find_cong_set)
  moreover have "find (\<lambda>r. dw_ID r = i) (t_wf t) = Some r0" using find_id[OF assms(2,3), of r0] assms(5)[OF assms(3,4)] by simp
  moreover have "\<not> P r" if "find (\<lambda>r. dw_ID r = j) (t_wf t) = Some r" "j \<noteq> i" for r j
    using that assms(5)[of r] by (auto simp: find_Some_iff)
  ultimately show "storedTrigger q J t' = (storedTrigger q J t)(i \<mapsto> tr)"
    using assms(4) assms(5)[OF assms(3,4)] by (auto simp: storedTrigger_def fun_eq_iff split: option.splits) (case_tac "find (\<lambda>r. dw_ID r = x) (t_wf t)"; auto)+
qed

lemma stored_filter:
  assumes "t_wf t' = filter (\<lambda>r. \<not> P r) (t_wf t)" "distinct (map dw_ID (t_wf t))" "r0 \<in> set (t_wf t)" "P r0"
    and "\<And>r. r \<in> set (t_wf t) \<Longrightarrow> P r \<Longrightarrow> dw_ID r = i"
  shows "storedTrigger q J t' = (storedTrigger q J t)(i := None)"
proof
  fix j
  show "storedTrigger q J t' j = ((storedTrigger q J t)(i := None)) j"
  proof (cases "j = i")
    case True
    have "find (\<lambda>r. dw_ID r = i) (t_wf t) = Some r0" using find_id[OF assms(2,3), of r0] assms(5)[OF assms(3,4)] by simp
    have "\<not> (\<exists>r \<in> set (t_wf t). \<not> P r \<and> dw_ID r = i)"
      using assms(2,3,4) assms(5)[OF assms(3,4)] by (metis distinct_map inj_onD)
    then show ?thesis using True by (auto simp: storedTrigger_def assms(1) find_filter find_None_iff)
  next
    case False
    then have "find (\<lambda>r. \<not> P r \<and> dw_ID r = j) (t_wf t) = find (\<lambda>r. dw_ID r = j) (t_wf t)"
      using assms(5) by (intro find_cong_set) auto
    then show ?thesis using False by (simp add: storedTrigger_def assms(1) find_filter)
  qed
qed

definition in_sync :: "('a, 'p, 'c) api \<Rightarrow> string set \<Rightarrow> 'c api_state \<Rightarrow> bool" where
  "in_sync A S st \<longleftrightarrow> manager_ok (api_cron A) (as_triggers st) \<and> distinct (map dw_ID (t_wf (tables (as_db st)))) \<and> dw_ID ` set (t_wf (tables (as_db st))) \<subseteq> S \<and>
     (\<forall>i. liveOf (api_cron A) (as_triggers st) i = Option.bind (storedTrigger (api_sql A) (api_json A) (tables (as_db st)) i) (armedFor (api_cron A) (api_aws A) i))"

text \<open>
  The surroundings: the cron library as documented, columns and codec that keep a trigger, and identifiers in \<open>S\<close>
  that the collation tells apart (lower-case UUIDs, say).
\<close>

definition surroundings :: "('a, 'p, 'c) api \<Rightarrow> string set \<Rightarrow> bool" where
  "surroundings A S \<longleftrightarrow> cron_lib_ok (api_cron A) \<and> cols_same (api_json A) \<and> (\<forall>t. triggerSurvives (api_sql A) (api_json A) t) \<and>
     inj_on (sql_key (api_sql A)) S \<and> range (api_uuid A) \<subseteq> S"

lemma in_sync_same:
  assumes "in_sync A S st" "as_triggers st' = as_triggers st" "t_wf (tables (as_db st')) = t_wf (tables (as_db st))"
  shows "in_sync A S st'"
  using assms storedTrigger_rows[OF assms(3)] by (simp add: in_sync_def)

lemma in_sync_upsert:
  assumes "surroundings A S" "in_sync A S st" "Upsert (api_cron A) (api_aws A) i tr (as_triggers st) = (Inr u, as_triggers st')"
    and "storedTrigger (api_sql A) (api_json A) (tables (as_db st')) = (storedTrigger (api_sql A) (api_json A) (tables (as_db st)))(i \<mapsto> tr)"
    and "distinct (map dw_ID (t_wf (tables (as_db st'))))" "dw_ID ` set (t_wf (tables (as_db st'))) \<subseteq> S"
  shows "in_sync A S st'"
  using Upsert_armed[OF _ _ assms(3)] assms by (auto simp: in_sync_def surroundings_def)

lemma stored_id: "surroundings A S \<Longrightarrow> in_sync A S st \<Longrightarrow> r \<in> set (t_wf (tables (as_db st))) \<Longrightarrow> i \<in> S \<Longrightarrow> sql_eq (api_sql A) (dw_ID r) i \<Longrightarrow> dw_ID r = i"
  by (auto simp: surroundings_def in_sync_def sql_eq_def inj_on_def)

lemma rowTrigger_written:
  assumes "surroundings A S" "enc_any (api_json A) (VMap (triggerExtra (wf_Trigger w))) = Some cfg"
  shows "rowTrigger (api_sql A) (api_json A) (workflowWriteRow org cfg now w) = wf_Trigger w"
    "rowTrigger (api_sql A) (api_json A) (stamped now (setWorkflow cfg w) r) = wf_Trigger w"
    "rowTrigger (api_sql A) (api_json A) ((setWorkflow cfg w r)\<lparr>dw_UpdatedAt := n\<rparr>) = wf_Trigger w"
proof -
  have read: "unmarshalTriggerConfig (api_sql A) (api_json A) (tr_Kind (wf_Trigger w)) (Some cfg) = wf_Trigger w"
    by (rule trigger_read[OF _ assms(2)]) (use assms(1) in \<open>simp add: surroundings_def\<close>)
  have "dw_TriggerKind (stamped now (setWorkflow cfg w) r) = tr_Kind (wf_Trigger w)" "dw_TriggerConfig (stamped now (setWorkflow cfg w) r) = Some cfg"
    by (auto simp: stamped_def) (auto simp: setWorkflow_def dest: arg_cong[of _ _ dw_TriggerKind] arg_cong[of _ _ dw_TriggerConfig])
  with read show "rowTrigger (api_sql A) (api_json A) (workflowWriteRow org cfg now w) = wf_Trigger w"
    "rowTrigger (api_sql A) (api_json A) (stamped now (setWorkflow cfg w) r) = wf_Trigger w"
    "rowTrigger (api_sql A) (api_json A) ((setWorkflow cfg w r)\<lparr>dw_UpdatedAt := n\<rparr>) = wf_Trigger w"
    by (simp_all add: rowTrigger_def) (simp_all add: workflowWriteRow_def setWorkflow_def)
qed

text \<open>Through the vault.\<close>

lemma decryptWorkflow_fields: "decryptWorkflow v w = Inr w' \<Longrightarrow> wf_ID w' = wf_ID w \<and> wf_Trigger w' = wf_Trigger w"
  by (auto simp: decryptWorkflow_def split: sum.splits)

lemma version_rows: "t_wf (tables (snd (mysql_CreateWorkflowVersion q J uuid w d))) = t_wf (tables d)"
proof -
  have "frames t_wf (mysql_CreateWorkflowVersion q J uuid w)" unfolding mysql_CreateWorkflowVersion_def by (intro frame_rules)
  then show ?thesis by (simp add: frames_def)
qed

lemma vault_Create:
  assumes "CreateWorkflow (api_vault A) (api_store A org) w (d, n) = (Inr w', d', n')"
  obtains nds w1 d1 where "mysql_CreateWorkflow (api_sql A) (api_json A) org (api_uuid A (clock d)) (api_now A (clock d)) (w\<lparr>wf_Nodes := nds\<rparr>) d = (Inr w1, d1)"
    "t_wf (tables d') = t_wf (tables d1)" "wf_ID w' = wf_ID w1" "wf_Trigger w' = wf_Trigger w1"
  using assms
  by (auto simp: CreateWorkflow_def api_store_def mysql_store_def writeAndSnapshot_def version_rows dest: decryptWorkflow_fields split: prod.splits sum.splits)

lemma vault_Update:
  assumes "UpdateWorkflow (api_vault A) (api_store A org) w (d, n) = (Inr w', d', n')"
  obtains nds w1 d0 now d1 where "mysql_UpdateWorkflow (api_sql A) (api_json A) org now (w\<lparr>wf_Nodes := nds\<rparr>) d0 = (Inr w1, d1)" "tables d0 = tables d"
    "t_wf (tables d') = t_wf (tables d1)" "wf_ID w' = wf_ID w1" "wf_Trigger w' = wf_Trigger w1"
proof -
  obtain old d0 nds w1 d1 where u: "mysql_GetWorkflow (api_sql A) (api_json A) org (wf_ID w) d = (Inr old, d0)"
    "mysql_UpdateWorkflow (api_sql A) (api_json A) org (api_now A (clock d0)) (w\<lparr>wf_Nodes := nds\<rparr>) d0 = (Inr w1, d1)"
    "decryptWorkflow (api_vault A) w1 = Inr w'" "d' = snd (mysql_CreateWorkflowVersion (api_sql A) (api_json A) (api_uuid A (clock d1)) w1 d1)"
    using assms by (auto simp: UpdateWorkflow_def api_store_def mysql_store_def writeAndSnapshot_def split: prod.splits sum.splits)
  have "tables d0 = tables d" using framesD[OF Get_frames u(1), of "\<lambda>t. t"] .
  with u that version_rows decryptWorkflow_fields[OF u(3)] show ?thesis by blast
qed

lemma vault_Update_missing:
  assumes "UpdateWorkflow (api_vault A) (api_store A org) w (d, n) = (Inl (FromStore ErrNotFound), d', n')"
  shows "tables d' = tables d"
proof -
  have get: "tables d0 = tables d" if "mysql_GetWorkflow (api_sql A) (api_json A) org (wf_ID w) d = (x, d0)" for x d0
    using framesD[OF Get_frames that, of "\<lambda>t. t"] .
  have upd: "tables d1 = tables d0" if "mysql_UpdateWorkflow (api_sql A) (api_json A) org now w1 d0 = (Inl ErrNotFound, d1)" for now w1 d0 d1
    using that by (auto simp: mysql_UpdateWorkflow_def Let_def fail_def dest: transaction_undone split: option.splits)
  show ?thesis
    using assms
    by (auto simp: UpdateWorkflow_def api_store_def mysql_store_def writeAndSnapshot_def decryptWorkflow_def dest!: get upd split: prod.splits sum.splits)
qed

lemma vault_reads: "tables (snd (GetWorkflow v (api_store A org) i d)) = tables d" "tables (snd (GetWorkflowVersion v (api_store A org) i k d)) = tables d"
proof -
  have "frames (\<lambda>t. t) (mysql_GetWorkflowVersion (api_sql A) (api_json A) i k)"
    unfolding mysql_GetWorkflowVersion_def versionRow_def by (intro frame_rules)
  with Get_frames[of "\<lambda>t. t" "api_sql A" "api_json A" org i]
  show "tables (snd (GetWorkflow v (api_store A org) i d)) = tables d" "tables (snd (GetWorkflowVersion v (api_store A org) i k d)) = tables d"
    by (auto simp: GetWorkflow_def GetWorkflowVersion_def api_store_def mysql_store_def frames_def split: prod.split sum.split) (metis snd_conv)+
qed

lemma vault_Restore:
  assumes "RestoreWorkflowVersion (api_vault A) (api_store A org) i k d = (x, d')"
  shows "x = Inl (FromStore ErrNotFound) \<Longrightarrow> tables d' = tables d"
    and "x = Inr w' \<Longrightarrow> \<exists>w1. mysql_RestoreWorkflowVersion (api_sql A) (api_json A) (api_uuid A (clock d)) (api_now A (clock d)) i k d = (Inr w1, d') \<and> wf_Trigger w' = wf_Trigger w1"
proof -
  have undone: "tables d' = tables d" if "mysql_RestoreWorkflowVersion (api_sql A) (api_json A) uuid now i k d = (Inl ErrNotFound, d')" for uuid now
    using that unfolding mysql_RestoreWorkflowVersion_def by (auto dest: transaction_undone)
  show "x = Inl (FromStore ErrNotFound) \<Longrightarrow> tables d' = tables d"
    using assms by (auto simp: RestoreWorkflowVersion_def api_store_def mysql_store_def decryptWorkflow_def dest!: undone split: prod.splits sum.splits)
  show "x = Inr w' \<Longrightarrow> \<exists>w1. mysql_RestoreWorkflowVersion (api_sql A) (api_json A) (api_uuid A (clock d)) (api_now A (clock d)) i k d = (Inr w1, d') \<and> wf_Trigger w' = wf_Trigger w1"
    using assms by (auto simp: RestoreWorkflowVersion_def api_store_def mysql_store_def dest: decryptWorkflow_fields split: prod.splits sum.splits)
qed

text \<open>One request. The identifiers it names are in \<open>S\<close>.\<close>

fun names :: "request \<Rightarrow> string set" where
  "names (ReqCreate (Some w)) = (if wf_ID w = [] then {} else {wf_ID w})"
| "names (ReqUpdate i b) = {i}"
| "names (ReqDelete i) = {i}"
| "names (ReqRestoreVersion i k) = {i}"
| "names _ = {}"

lemma applyDefaults_ID [simp]: "wf_ID (applyDefaults w) = wf_ID w"
  by (simp add: applyDefaults_def)

lemma checkWorkflow_status: "checkWorkflow A w = Inl r \<Longrightarrow> status r = 400"
  by (auto simp: checkWorkflow_def writeValidationErrors_def Let_def split: sum.splits if_splits build_error.splits)

lemma create_sync:
  assumes env: "surroundings A S" and sync: "in_sync A S st" and "names (ReqCreate b) \<subseteq> S" and h: "create A org b st = (r, st')" "status r < 500"
  shows "in_sync A S st'"
proof (cases "as_db st' = as_db st \<and> as_triggers st' = as_triggers st")
  case True
  then show ?thesis using in_sync_same[OF sync] by simp
next
  case False
  with h obtain w0 where b: "b = Some w0" "checkWorkflow A (applyDefaults w0) = Inr ()"
    by (auto simp: create_def Let_def split: option.splits sum.splits)
  from False h obtain w d n mg where w: "CreateWorkflow (api_vault A) (api_store A org) (applyDefaults w0) (as_db st, as_rand st) = (Inr w, d, n)"
    "Upsert (api_cron A) (api_aws A) (wf_ID w) (wf_Trigger w) (as_triggers st) = (Inr (), mg)" "as_db st' = d" "as_triggers st' = mg"
    by (auto simp: create_def Let_def b split: option.splits sum.splits prod.splits)
  from vault_Create[OF w(1)] obtain nds w1 d1 where c:
    "mysql_CreateWorkflow (api_sql A) (api_json A) org (api_uuid A (clock (as_db st))) (api_now A (clock (as_db st))) (applyDefaults w0\<lparr>wf_Nodes := nds\<rparr>) (as_db st) = (Inr w1, d1)"
    "t_wf (tables d) = t_wf (tables d1)" "wf_ID w = wf_ID w1" "wf_Trigger w = wf_Trigger w1" .
  have cols: "cols_same (api_json A)" using env by (simp add: surroundings_def)
  from Create_rows(2)[OF cols c(1)] obtain cfg org' now where row: "enc_any (api_json A) (VMap (triggerExtra (wf_Trigger w1))) = Some cfg"
    "\<forall>r \<in> set (t_wf (tables (as_db st))). \<not> sql_eq (api_sql A) (dw_ID r) (wf_ID w1)" "t_wf (tables d1) = t_wf (tables (as_db st)) @ [workflowWriteRow org' cfg now w1]" by blast
  have id: "dw_ID (workflowWriteRow org' cfg now w1) = wf_ID w1" by (simp add: workflowWriteRow_def)
  have new: "wf_ID w1 \<notin> dw_ID ` set (t_wf (tables (as_db st)))" using row(2) by (auto simp: sql_eq_def)
  have inS: "wf_ID w1 \<in> S"
    using Create_rows(1)[OF cols c(1)] assms(3) env b(1) by (auto simp: createDefaults_def defaultKind_def surroundings_def split: if_splits)
  from stored_append[where t = "tables (as_db st)" and t' = "tables d", unfolded c(2), OF row(3)] new id rowTrigger_written(1)[OF env row(1)]
  have "storedTrigger (api_sql A) (api_json A) (tables d) = (storedTrigger (api_sql A) (api_json A) (tables (as_db st)))(wf_ID w \<mapsto> wf_Trigger w)"
    using c(3,4) by simp
  from in_sync_upsert[OF env sync _ this[folded w(3)]] w c(2) row(3) id new inS sync show ?thesis by (simp add: in_sync_def)
qed

lemma update_sync:
  assumes env: "surroundings A S" and sync: "in_sync A S st" and "i \<in> S" and h: "update A org i b st = (r, st')" "status r < 500"
  shows "in_sync A S st'"
proof (cases "tables (as_db st') = tables (as_db st) \<and> as_triggers st' = as_triggers st")
  case True
  then show ?thesis using in_sync_same[OF sync] by simp
next
  case False
  with h obtain w0 where b: "b = Some w0" "checkWorkflow A (applyDefaults (w0\<lparr>wf_ID := i\<rparr>)) = Inr ()"
    by (auto simp: update_def Let_def split: option.splits sum.splits)
  from False h obtain w d n mg where w: "UpdateWorkflow (api_vault A) (api_store A org) (applyDefaults (w0\<lparr>wf_ID := i\<rparr>)) (as_db st, as_rand st) = (Inr w, d, n)"
    "Upsert (api_cron A) (api_aws A) (wf_ID w) (wf_Trigger w) (as_triggers st) = (Inr (), mg)" "as_db st' = d" "as_triggers st' = mg"
    by (auto simp: update_def Let_def b dest!: vault_Update_missing split: option.splits sum.splits prod.splits if_splits)
  from vault_Update[OF w(1)] obtain nds w1 d0 now d1 where u:
    "mysql_UpdateWorkflow (api_sql A) (api_json A) org now (applyDefaults (w0\<lparr>wf_ID := i\<rparr>)\<lparr>wf_Nodes := nds\<rparr>) d0 = (Inr w1, d1)" "tables d0 = tables (as_db st)"
    "t_wf (tables d) = t_wf (tables d1)" "wf_ID w = wf_ID w1" "wf_Trigger w = wf_Trigger w1" .
  have cols: "cols_same (api_json A)" using env by (simp add: surroundings_def)
  have id: "wf_ID w1 = i" using Update_rows(1)[OF cols u(1)] by (simp add: defaultKind_def)
  from Update_rows(2)[OF cols u(1)] obtain cfg r0 where row: "enc_any (api_json A) (VMap (triggerExtra (wf_Trigger w1))) = Some cfg"
    "r0 \<in> set (t_wf (tables (as_db st)))" "wfVisible (api_sql A) org i r0"
    "t_wf (tables d) = map (\<lambda>r. if wfVisible (api_sql A) org i r then stamped now (setWorkflow cfg w1) r else r) (t_wf (tables (as_db st)))"
    using id u(2,3) by auto
  have "dw_ID r = i \<and> dw_ID (stamped now (setWorkflow cfg w1) r) = i \<and> rowTrigger (api_sql A) (api_json A) (stamped now (setWorkflow cfg w1) r) = wf_Trigger w"
    if "r \<in> set (t_wf (tables (as_db st)))" "wfVisible (api_sql A) org i r" for r
    using stored_id[OF env sync that(1) assms(3)] that(2) rowTrigger_written(2)[OF env row(1)] u(5) by (simp add: wfVisible_def)
  note stored = stored_map[OF row(4) _ row(2,3) this]
  from in_sync_upsert[OF env sync _ stored(1)[folded w(3)]] stored(2) w u(4) id sync show ?thesis
    by (simp add: in_sync_def) (metis list.set_map)
qed

lemma delete_sync:
  assumes env: "surroundings A S" and sync: "in_sync A S st" and "i \<in> S" and h: "delete_workflow A org i st = (r, st')" "status r < 500"
  shows "in_sync A S st'"
proof (cases "tables (as_db st') = tables (as_db st) \<and> as_triggers st' = as_triggers st")
  case True
  then show ?thesis using in_sync_same[OF sync] by simp
next
  case False
  have undone: "tables d = tables (as_db st)" if "mysql_DeleteWorkflow (api_sql A) org i (as_db st) = (Inl ErrNotFound, d)" for d
    using that unfolding mysql_DeleteWorkflow_def by (auto dest: transaction_undone)
  from False h obtain u d where d: "mysql_DeleteWorkflow (api_sql A) org i (as_db st) = (Inr u, d)" "as_db st' = d" "as_triggers st' = Remove (api_cron A) i (as_triggers st)"
    by (auto simp: delete_workflow_def dest!: undone split: prod.splits sum.splits if_splits)
  note rows = Delete_rows[OF d(1)]
  then obtain r0 where r0: "r0 \<in> set (t_wf (tables (as_db st)))" "wfVisible (api_sql A) org i r0" by blast
  have "dw_ID r = i" if "r \<in> set (t_wf (tables (as_db st)))" "wfVisible (api_sql A) org i r" for r
    using stored_id[OF env sync that(1) assms(3)] that(2) by (simp add: wfVisible_def)
  from stored_filter[OF rows(1) _ r0 this] sync
  have "storedTrigger (api_sql A) (api_json A) (tables d) = (storedTrigger (api_sql A) (api_json A) (tables (as_db st)))(i := None)" by (simp add: in_sync_def)
  with Remove_live[of "api_cron A" "as_triggers st" i] env sync d rows(1) show ?thesis
    by (auto simp: in_sync_def surroundings_def distinct_map intro: inj_on_subset)
qed

lemma restore_sync:
  assumes env: "surroundings A S" and sync: "in_sync A S st" and "i \<in> S" and h: "restoreVersion A org i k st = (r, st')" "status r < 500" "as_log st' = as_log st"
  shows "in_sync A S st'"
proof (cases "tables (as_db st') = tables (as_db st) \<and> as_triggers st' = as_triggers st")
  case True
  then show ?thesis using in_sync_same[OF sync] by simp
next
  case False
  from False h obtain n w d res mg where w: "RestoreWorkflowVersion (api_vault A) (api_store A org) i n (as_db st) = (Inr w, d)" "versionNumber k = Some n"
    "Upsert (api_cron A) (api_aws A) i (wf_Trigger w) (as_triggers st) = (res, mg)" "\<not> isl res" "as_db st' = d" "as_triggers st' = mg"
    by (auto simp: restoreVersion_def dest!: vault_Restore(1)[OF _ refl] split: option.splits prod.splits sum.splits if_splits)
  from vault_Restore(2)[OF w(1) refl] obtain w1 uuid now where m:
    "mysql_RestoreWorkflowVersion (api_sql A) (api_json A) uuid now i n (as_db st) = (Inr w1, d)" "wf_Trigger w = wf_Trigger w1" by blast
  have cols: "cols_same (api_json A)" using env by (simp add: surroundings_def)
  from Restore_rows[OF cols m(1)] obtain cfg r0 where row: "enc_any (api_json A) (VMap (triggerExtra (wf_Trigger w1))) = Some cfg"
    "r0 \<in> set (t_wf (tables (as_db st)))" "sql_eq (api_sql A) (dw_ID r0) i"
    "t_wf (tables d) = map (\<lambda>r. if sql_eq (api_sql A) (dw_ID r) i then (setWorkflow cfg w1 r)\<lparr>dw_UpdatedAt := now\<rparr> else r) (t_wf (tables (as_db st)))" by blast
  have "dw_ID r = i \<and> dw_ID ((setWorkflow cfg w1 r)\<lparr>dw_UpdatedAt := now\<rparr>) = i \<and> rowTrigger (api_sql A) (api_json A) ((setWorkflow cfg w1 r)\<lparr>dw_UpdatedAt := now\<rparr>) = wf_Trigger w"
    if "r \<in> set (t_wf (tables (as_db st)))" "sql_eq (api_sql A) (dw_ID r) i" for r
    using stored_id[OF env sync that(1) assms(3) that(2)] rowTrigger_written(3)[OF env row(1)] m(2) by (simp add: setWorkflow_def)
  note stored = stored_map[OF row(4) _ row(2,3) this]
  from w(4) obtain u where "res = Inr u" by (cases res) auto
  with in_sync_upsert[OF env sync _ stored(1)[folded w(5)]] stored(2) w sync show ?thesis
    by (simp add: in_sync_def) (metis list.set_map)
qed

text \<open>Reads change neither the tables nor the triggers.\<close>

lemma reads_keep:
  "tables (as_db (snd (list_workflows A org st))) = tables (as_db st) \<and> as_triggers (snd (list_workflows A org st)) = as_triggers st"
  "tables (as_db (snd (get A org i st))) = tables (as_db st) \<and> as_triggers (snd (get A org i st)) = as_triggers st"
  "tables (as_db (snd (listVersions A org i st))) = tables (as_db st) \<and> as_triggers (snd (listVersions A org i st)) = as_triggers st"
  "tables (as_db (snd (getVersion A org i k st))) = tables (as_db st) \<and> as_triggers (snd (getVersion A org i k st)) = as_triggers st"
proof -
  have lists: "tables (snd (ListWorkflows q org d)) = tables d" "tables (snd (ListWorkflowVersions q i d)) = tables d" for q d
    by (simp_all add: ListWorkflows_def ListWorkflowVersions_def)
  note get = vault_reads(1)[of "api_vault A" A org i "as_db st"] and ver = vault_reads(2)[of "api_vault A" A org i _ "as_db st"]
  show "tables (as_db (snd (list_workflows A org st))) = tables (as_db st) \<and> as_triggers (snd (list_workflows A org st)) = as_triggers st"
    using lists(1)[of "api_sql A" "as_db st"] by (auto simp: list_workflows_def split: prod.split sum.split)
  show "tables (as_db (snd (get A org i st))) = tables (as_db st) \<and> as_triggers (snd (get A org i st)) = as_triggers st"
    using get by (auto simp: get_def split: prod.split sum.split)
  show "tables (as_db (snd (getVersion A org i k st))) = tables (as_db st) \<and> as_triggers (snd (getVersion A org i k st)) = as_triggers st"
  proof (cases "versionNumber k")
    case (Some n)
    then show ?thesis using ver[of n] by (auto simp: getVersion_def split: prod.split sum.split)
  qed (simp add: getVersion_def)
  show "tables (as_db (snd (listVersions A org i st))) = tables (as_db st) \<and> as_triggers (snd (listVersions A org i st)) = as_triggers st"
  proof (cases "GetWorkflow (api_vault A) (api_store A org) i (as_db st)")
    case (Pair x d)
    then show ?thesis using get lists(2)[of "api_sql A" d] by (auto simp: listVersions_def split: prod.split sum.split)
  qed
qed

lemma handle_sync:
  assumes env: "surroundings A S" and sync: "in_sync A S st" and "names rq \<subseteq> S" and h: "handle A org rq st = (r, st')" "status r < 500" "as_log st' = as_log st"
  shows "in_sync A S st'"
proof (cases rq)
  case ReqList
  then show ?thesis using reads_keep(1)[of A org st] h(1) by (intro in_sync_same[OF sync]) simp_all
next
  case (ReqGet i)
  then show ?thesis using reads_keep(2)[of A org i st] h(1) by (intro in_sync_same[OF sync]) simp_all
next
  case (ReqListVersions i)
  then show ?thesis using reads_keep(3)[of A org i st] h(1) by (intro in_sync_same[OF sync]) simp_all
next
  case (ReqGetVersion i k)
  then show ?thesis using reads_keep(4)[of A org i k st] h(1) by (intro in_sync_same[OF sync]) simp_all
next
  case (ReqCreate b)
  then show ?thesis using create_sync[OF env sync] assms(3) h by simp
next
  case (ReqUpdate i b)
  then show ?thesis using update_sync[OF env sync] assms(3) h by simp
next
  case (ReqDelete i)
  then show ?thesis using delete_sync[OF env sync] assms(3) h by simp
next
  case (ReqRestoreVersion i k)
  then show ?thesis using restore_sync[OF env sync] assms(3) h by simp
qed

section \<open>A server's life\<close>

text \<open>The requests of a server, each with the tenant it comes from, in the order in which they are served.\<close>

fun serve :: "('a, 'p, 'c) api \<Rightarrow> (string \<times> request) list \<Rightarrow> 'c api_state \<Rightarrow> response list \<times> 'c api_state" where
  "serve A [] st = ([], st)"
| "serve A ((org, rq) # rqs) st =
     (case handle A org rq st of (r, st1) \<Rightarrow> (case serve A rqs st1 of (rs, st2) \<Rightarrow> (r # rs, st2)))"

lemma handle_log: "\<exists>l. as_log (snd (handle A org rq st)) = as_log st @ l"
  by (cases rq) (simp_all add: list_workflows_def create_def get_def update_def delete_workflow_def listVersions_def getVersion_def restoreVersion_def Let_def
      split: option.split sum.split prod.split)

lemma serve_log: "\<exists>l. as_log (snd (serve A rqs st)) = as_log st @ l"
proof (induction rqs arbitrary: st)
  case (Cons rq rqs)
  obtain org q where "rq = (org, q)" by (cases rq)
  with Cons.IH[of "snd (handle A org q st)"] handle_log[of A org q st] show ?case by (auto split: prod.split)
qed simp

lemma serve_sync:
  assumes env: "surroundings A S" and "in_sync A S st" "\<forall>(org, rq) \<in> set rqs. names rq \<subseteq> S"
    and "serve A rqs st = (rs, st')" "\<forall>r \<in> set rs. status r < 500" "as_log st' = as_log st"
  shows "in_sync A S st'"
  using assms(2-)
proof (induction rqs arbitrary: st rs)
  case (Cons q rqs)
  obtain org rq r st1 rs' where q: "q = (org, rq)" "handle A org rq st = (r, st1)" "serve A rqs st1 = (rs', st')" "rs = r # rs'"
    using Cons.prems(3) by (cases q) (auto split: prod.splits)
  obtain l l' where "as_log st1 = as_log st @ l" "as_log st' = as_log st1 @ l'"
    using handle_log[of A org rq st] serve_log[of A rqs st1] q by auto
  then have log: "as_log st1 = as_log st" "as_log st' = as_log st1" using Cons.prems(5) by simp_all
  from handle_sync[OF env Cons.prems(1) _ q(2) _ log(1)] Cons.prems(2,4) q(1,4) have "in_sync A S st1" by simp
  from Cons.IH[OF this _ q(3) _ log(2)] Cons.prems(2,4) q(4) show ?case by simp
qed simp

lemma fold_armed:
  assumes "distinct (map fst trs)" "\<forall>(i, tr) \<in> set trs. t i = None"
  shows "fold (\<lambda>(i, tr). liveUpsert L aws i tr) trs t = (\<lambda>i. case map_of trs i of None \<Rightarrow> t i | Some tr \<Rightarrow> armedFor L aws i tr)"
  using assms
proof (induction trs arbitrary: t)
  case (Cons p trs)
  obtain i tr where p: "p = (i, tr)" by (cases p)
  have i: "map_of trs i = None" using Cons.prems(1) p by (simp add: map_of_eq_None_iff)
  have "\<forall>(j, tr') \<in> set trs. (t(i := armedFor L aws i tr)) j = None"
    using Cons.prems p by (fastforce simp: image_iff)
  have dist: "distinct (map fst trs)" using Cons.prems(1) by simp
  note IH = Cons.IH[OF dist \<open>\<forall>(j, tr') \<in> set trs. (t(i := armedFor L aws i tr)) j = None\<close>]
  have rest: "fold (\<lambda>(i, tr). liveUpsert L aws i tr) trs (t(i := armedFor L aws i tr)) = (\<lambda>j. case map_of trs j of None \<Rightarrow> (t(i := armedFor L aws i tr)) j | Some tr \<Rightarrow> armedFor L aws j tr)"
    by (rule IH)
  have "t i = None" using Cons.prems(2) p by simp
  from liveUpsert_fresh[of t i L aws tr, OF this]
  have "fold (\<lambda>(i, tr). liveUpsert L aws i tr) (p # trs) t = fold (\<lambda>(i, tr). liveUpsert L aws i tr) trs (t(i := armedFor L aws i tr))" using p by simp
  then show ?case unfolding rest using i p by (auto simp: fun_eq_iff split: option.split)
qed simp

lemma map_of_find: "map_of (map (\<lambda>r. (dw_ID r, g r)) (filter P rows)) i = map_option g (find (\<lambda>r. P r \<and> dw_ID r = i) rows)"
  by (induction rows) auto

text \<open>Loading at start-up arms every stored trigger that can be armed.\<close>

definition kinds_apart :: "sql \<Rightarrow> bool" where
  "kinds_apart q \<longleftrightarrow> (\<forall>k \<in> {''cron'', ''kafka'', ''sqs''}. \<not> sql_eq q k ''manual'')"

lemma startup_sync:
  assumes env: "surroundings A S" and "kinds_apart (api_sql A)" and rows: "distinct (map dw_ID (t_wf (tables d)))" "dw_ID ` set (t_wf (tables d)) \<subseteq> S"
    and idle: "manager_ok (api_cron A) mg" "liveOf (api_cron A) mg = Map.empty"
    and load: "ListTriggerConfigs (api_sql A) (api_json A) d = (Inr trs, d1)" "manager_LoadAll (api_cron A) (api_aws A) (Inr trs) mg = (res, mg1)"
  shows "in_sync A S \<lparr> as_db = d1, as_rand = n, as_triggers = mg1, as_log = lg \<rparr>"
proof -
  let ?q = "api_sql A" and ?J = "api_json A" and ?P = "\<lambda>r. \<not> sql_eq (api_sql A) (dw_TriggerKind r) ''manual''"
  from query_Inr[OF load(1)[unfolded ListTriggerConfigs_def]] have trs: "trs = map (\<lambda>r. (dw_ID r, rowTrigger ?q ?J r)) (filter ?P (t_wf (tables d)))" "tables d1 = tables d"
    by (auto simp: rowTrigger_def)
  have dist: "distinct (map fst trs)" using rows(1) by (auto simp: trs(1) o_def distinct_map intro: inj_on_subset)
  have live: "manager_ok (api_cron A) mg1" "liveOf (api_cron A) mg1 = (\<lambda>i. case map_of trs i of None \<Rightarrow> None | Some tr \<Rightarrow> armedFor (api_cron A) (api_aws A) i tr)"
    using manager_LoadAll_live[OF _ idle(1) load(2)] env fold_armed[OF dist, of Map.empty] idle(2) by (auto simp: surroundings_def)
  have manual: "armedFor (api_cron A) (api_aws A) i (rowTrigger ?q ?J r) = None" if "\<not> ?P r" for r i
    using that assms(2) by (auto simp: armedFor_def rowTrigger_def unmarshalTriggerConfig_def Let_def kinds_apart_def)
  have "(case map_of trs i of None \<Rightarrow> None | Some tr \<Rightarrow> armedFor (api_cron A) (api_aws A) i tr) = Option.bind (storedTrigger ?q ?J (tables d) i) (armedFor (api_cron A) (api_aws A) i)" for i
  proof (cases "find (\<lambda>r. dw_ID r = i) (t_wf (tables d))")
    case None
    then have "find (\<lambda>r. ?P r \<and> dw_ID r = i) (t_wf (tables d)) = None" by (auto simp: find_None_iff)
    with None show ?thesis by (simp add: trs(1) map_of_find storedTrigger_def)
  next
    case (Some r)
    then have r: "r \<in> set (t_wf (tables d))" "dw_ID r = i" by (auto simp: find_Some_iff)
    have same: "r' = r" if "r' \<in> set (t_wf (tables d))" "dw_ID r' = i" for r' using rows(1) r that by (auto simp: distinct_map dest: inj_onD)
    have "find (\<lambda>r. ?P r \<and> dw_ID r = i) (t_wf (tables d)) = (if ?P r then Some r else None)"
    proof (cases "?P r")
      case True
      then have "find (\<lambda>r. ?P r \<and> dw_ID r = i) (t_wf (tables d)) = find (\<lambda>r. dw_ID r = i) (t_wf (tables d))"
        using same by (intro find_cong_set) auto
      with True Some show ?thesis by simp
    qed (use same in \<open>auto simp: find_None_iff\<close>)
    with Some manual[of r i] show ?thesis by (simp add: trs(1) map_of_find storedTrigger_def)
  qed
  with live rows trs(2) show ?thesis by (simp add: in_sync_def)
qed

text \<open>
  C26. Live triggers follow the database. Start the server on any stored workflows: the trigger manager
  loads their triggers. Then serve any sequence of requests, from any tenants, of which none is answered with a server
  error and none is logged as a trigger that could not be armed again. At the end, what fires for a workflow (a cron job with its
  expression, a Kafka or SQS consumer, or nothing) is exactly what the trigger stored in its row asks for, and
  nothing fires for an identifier that is not stored. The identifiers in use are ones that the collation of the database
  tells apart; the database itself may fail at any statement.
\<close>

theorem live_triggers_follow_database:
  assumes "surroundings A S" "kinds_apart (api_sql A)" "distinct (map dw_ID (t_wf (tables d)))" "dw_ID ` set (t_wf (tables d)) \<subseteq> S"
    and "manager_ok (api_cron A) mg" "liveOf (api_cron A) mg = Map.empty"
    and "ListTriggerConfigs (api_sql A) (api_json A) d = (Inr trs, d')" "manager_LoadAll (api_cron A) (api_aws A) (Inr trs) mg = (Inr (), mg')"
    and "\<forall>(org, rq) \<in> set rqs. names rq \<subseteq> S"
    and "serve A rqs \<lparr> as_db = d', as_rand = n, as_triggers = mg', as_log = [] \<rparr> = (rs, st)" "\<forall>r \<in> set rs. status r < 500" "as_log st = []"
  shows "liveOf (api_cron A) (as_triggers st) i =
    Option.bind (storedTrigger (api_sql A) (api_json A) (tables (as_db st)) i) (armedFor (api_cron A) (api_aws A) i)"
proof -
  from startup_sync[OF assms(1-8)] have "in_sync A S \<lparr> as_db = d', as_rand = n, as_triggers = mg', as_log = [] \<rparr>" .
  from serve_sync[OF assms(1) this assms(9,10,11)] assms(12) show ?thesis by (simp add: in_sync_def)
qed

end
