(* ===== verification/Handler_Props.thy ===== *)
theory Handler_Props
  imports Handler_Sync Validator_Props
begin

text \<open>
  What a client may rely on: an accepted workflow can be loaded and built by the engine, and responses mask what the
  vault sealed. At the end, a small server on which the theorems about the workflow endpoints are applied.
\<close>

section \<open>Accepted workflows run\<close>

text \<open>The structural rules do not depend on the order of the lists, as long as no two nodes share an id.\<close>

lemma nodeType_same:
  assumes "distinct (map wn_ID ns)" "mset (map (\<lambda>n. (wn_ID n, wn_TypeID n)) ns) = mset (map (\<lambda>n. (wn_ID n, wn_TypeID n)) ns')"
  shows "nodeType ns = nodeType ns'"
proof
  fix i
  have "distinct (map fst (rev (map (\<lambda>n. (wn_ID n, wn_TypeID n)) ns)))" using assms(1) by (simp add: rev_map[symmetric] o_def)
  moreover have "mset (map fst (map (\<lambda>n. (wn_ID n, wn_TypeID n)) ns)) = mset (map fst (map (\<lambda>n. (wn_ID n, wn_TypeID n)) ns'))"
    using arg_cong[OF assms(2), of "image_mset fst"] by (simp only: mset_map)
  then have "mset (map wn_ID ns) = mset (map wn_ID ns')" by (simp add: o_def)
  with assms(1) have "distinct (map wn_ID ns')" by (metis mset_eq_imp_distinct_iff)
  then have "distinct (map fst (rev (map (\<lambda>n. (wn_ID n, wn_TypeID n)) ns')))" by (simp add: rev_map[symmetric] o_def)
  moreover have "set (rev (map (\<lambda>n. (wn_ID n, wn_TypeID n)) ns)) = set (rev (map (\<lambda>n. (wn_ID n, wn_TypeID n)) ns'))"
    using mset_eq_setD[OF assms(2)] by simp
  ultimately have "map_of (rev (map (\<lambda>n. (wn_ID n, wn_TypeID n)) ns)) = map_of (rev (map (\<lambda>n. (wn_ID n, wn_TypeID n)) ns'))"
    by (subst map_of_inject_set)
  then show "nodeType ns i = nodeType ns' i" by (simp add: nodeType_def)
qed

lemma valid_graph_same:
  assumes "valid_graph ns es" "distinct (map wn_ID ns)" "set es' = set es"
    and "mset (map (\<lambda>n. (wn_ID n, wn_TypeID n)) ns) = mset (map (\<lambda>n. (wn_ID n, wn_TypeID n)) ns')"
  shows "valid_graph ns' es'"
proof -
  let ?k = "\<lambda>n. (wn_ID n, wn_TypeID n)"
  have pairs: "?k ` set ns = ?k ` set ns'" using mset_eq_setD[OF assms(4)] by simp
  have mem: "\<exists>m \<in> set ns. wn_ID m = wn_ID n \<and> wn_TypeID m = wn_TypeID n" if "n \<in> set ns'" for n
  proof -
    have "?k n \<in> ?k ` set ns" using pairs that by simp
    then show ?thesis by auto
  qed
  have ids: "wn_ID ` set ns = wn_ID ` set ns'"
    using arg_cong[OF pairs, of "image fst"] by (simp add: image_image)
  have "controllerCount ns = size (filter_mset (\<lambda>p. snd p = loopControllerTypeID) (mset (map ?k ns)))" for ns
    unfolding controllerCount_def by (induction ns) auto
  then have cc: "controllerCount ns' = controllerCount ns" using assms(4) by simp
  have fwds: "set (fwd es') = set (fwd es)" using assms(3) by (simp add: fwd_def)
  then have arcs: "arcs (fwd es') = arcs (fwd es)" by (simp add: arcs_def)
  have ok: "controller_ok (fwd es') n" if n: "n \<in> set ns'" "wn_TypeID n = loopControllerTypeID" for n
  proof -
    from mem[OF n(1)] obtain m where m: "m \<in> set ns" "wn_ID m = wn_ID n" "wn_TypeID m = wn_TypeID n" by blast
    with assms(1) n(2) have "controller_ok (fwd es) m" by (simp add: valid_graph_def)
    with m(2) fwds show ?thesis by (simp add: controller_ok_def)
  qed
  show ?thesis
    using assms(1) nodeType_same[OF assms(2,4)] assms(3) ids cc arcs ok by (simp add: valid_graph_def loop_edge_ok_def)
qed

lemma validate_types: "validate reg w = Inr () \<Longrightarrow> n \<in> set (wf_Nodes w) \<Longrightarrow> \<exists>h. Lookup (wn_TypeID n) reg = Inr h"
proof -
  assume "validate reg w = Inr ()" "n \<in> set (wf_Nodes w)"
  then have "\<not> isl (Lookup (wn_TypeID n) reg)" by (simp add: validate_def find_None_iff split: if_splits option.splits)
  then show ?thesis by (cases "Lookup (wn_TypeID n) reg") auto
qed

lemma checkWorkflow_accepts:
  assumes "checkWorkflow A w = Inr ()"
  shows "validate (api_registry A) w = Inr ()" "valid_graph (wf_Nodes w) (wf_Edges w)" "collectValidationErrors (api_libs A) w (api_registry A) = []"
proof -
  have graph: "CycleDetect (wf_Nodes w) (wf_Edges w) = Inr ()"
    if "(case CycleDetect (wf_Nodes w) (wf_Edges w) of Inl (ErrCycleDetected i) \<Rightarrow> Inl (r1 i) | Inl e \<Rightarrow> Inl (r2 e) | Inr _ \<Rightarrow> Inr ()) = Inr ()" for r1 r2 :: "_ \<Rightarrow> response"
    using that by (cases "CycleDetect (wf_Nodes w) (wf_Edges w)") (auto split: build_error.splits)
  have all: "validate (api_registry A) w = Inr () \<and> CycleDetect (wf_Nodes w) (wf_Edges w) = Inr () \<and> collectValidationErrors (api_libs A) w (api_registry A) = []"
    using assms unfolding checkWorkflow_def Let_def
    by (cases "validate (api_registry A) w"; cases "validateTrigger (api_cron A) (wf_Trigger w)") (simp_all split: if_splits add: graph)
  then show "validate (api_registry A) w = Inr ()" "collectValidationErrors (api_libs A) w (api_registry A) = []" by simp_all
  from all Build_sound show "valid_graph (wf_Nodes w) (wf_Edges w)" by (auto simp: CycleDetect_def split: sum.splits)
qed

lemma byID_mset: "mset (byID q f xs) = mset xs"
  by (simp add: byID_def)

lemma reads_submitted_keys: "list_all2 reads_submitted as cs \<Longrightarrow> map (\<lambda>n. (wn_ID n, wn_TypeID n)) cs = map (\<lambda>n. (wn_ID n, wn_TypeID n)) as"
proof (induction rule: list_all2_induct)
  case (Cons a as c cs)
  from Cons.hyps(1) have "wn_ID c = wn_ID (storedNode a)" "wn_TypeID c = wn_TypeID (storedNode a)"
    unfolding reads_submitted_def by (metis workflow_node.select_convs workflow_node.surjective workflow_node.update_convs)+
  with Cons.IH show ?case by (simp add: storedNode_def)
qed simp

text \<open>
  C27. What the API accepts, the engine can run. When \<open>POST /workflows\<close> answers 201, loading the workflow by the
  identifier in the answer, as the engine does before a run, succeeds; the loaded nodes have the
  submitted configuration with every secret opened, each node's type is registered, and \<open>Build\<close> makes a graph of them. The
  store returns nodes and edges in another order than they were submitted and validated in; validity does not depend on it.
\<close>

theorem accepted_workflow_runs:
  assumes "reliable (api_sql A)" "cols_same (api_json A)" "gcm_ok (cv_cipher (api_vault A))" "\<forall>t. triggerSurvives (api_sql A) (api_json A) t"
    and "\<forall>n \<in> set (wf_Nodes w0). submitted (api_sql A) (api_json A) n"
    and "create A org (Some w0) st = (WriteJSON 201 (TheWorkflow resp), st')" "vacant (api_sql A) (wr_ID resp) (tables (as_db st))"
  shows "\<exists>w d' dag. GetWorkflow (api_vault A) (api_store A org) (wr_ID resp) (as_db st') = (Inr w, d') \<and> Build (wf_Nodes w) (wf_Edges w) = Inr dag \<and>
    list_all2 reads_submitted (byID (api_sql A) wn_ID (wf_Nodes w0)) (wf_Nodes w) \<and> wf_Edges w = byID (api_sql A) we_ID (wf_Edges w0) \<and>
    (\<forall>n \<in> set (wf_Nodes w). \<exists>h. Lookup (wn_TypeID n) (api_registry A) = Inr h)"
proof -
  let ?w = "applyDefaults w0"
  have fields: "wf_Nodes ?w = wf_Nodes w0" "wf_Edges ?w = wf_Edges w0" by (simp_all add: applyDefaults_def)
  obtain w1 d n where c: "checkWorkflow A ?w = Inr ()" "CreateWorkflow (api_vault A) (api_store A org) ?w (as_db st, as_rand st) = (Inr w1, d, n)"
    "resp = maskedResponse w1" "as_db st' = d"
    using assms(6) checkWorkflow_status[of A ?w] by (auto simp: create_def Let_def split: sum.splits prod.splits)
  have id: "wr_ID resp = wf_ID w1" by (simp add: c(3) maskedResponse_def toWorkflowResponse_def Let_def)
  have sub: "\<forall>n \<in> set (wf_Nodes ?w). submitted (api_sql A) (api_json A) n" using assms(5) fields by simp
  from vault_Create_Get[OF assms(1,2,3) sub _ c(2)[unfolded api_store_def]] assms(4,7) id
  obtain w2 d2 where g: "GetWorkflow (api_vault A) (api_store A org) (wf_ID w1) d = (Inr w2, d2)"
    "list_all2 reads_submitted (byID (api_sql A) wn_ID (wf_Nodes w0)) (wf_Nodes w2)" "wf_Edges w2 = byID (api_sql A) we_ID (wf_Edges w0)" "distinct (map wn_ID (wf_Nodes w0))"
    by (auto simp: api_store_def fields)
  note acc = checkWorkflow_accepts[OF c(1)]
  have keys: "mset (map (\<lambda>n. (wn_ID n, wn_TypeID n)) (wf_Nodes w0)) = mset (map (\<lambda>n. (wn_ID n, wn_TypeID n)) (wf_Nodes w2))"
    unfolding reads_submitted_keys[OF g(2)] by (simp only: mset_map byID_mset)
  have "set (wf_Edges w2) = set (wf_Edges w0)" using mset_eq_setD[OF byID_mset] g(3) by metis
  from valid_graph_same[OF acc(2)[unfolded fields] g(4) this keys] Build_complete obtain dag where "Build (wf_Nodes w2) (wf_Edges w2) = Inr dag" by blast
  moreover have "\<exists>h. Lookup (wn_TypeID m) (api_registry A) = Inr h" if "m \<in> set (wf_Nodes w2)" for m
  proof -
    have "(wn_ID m, wn_TypeID m) \<in> (\<lambda>n. (wn_ID n, wn_TypeID n)) ` set (wf_Nodes w0)" using mset_eq_setD[OF keys] that by simp
    then show ?thesis using validate_types[OF acc(1)] fields(1) by auto
  qed
  ultimately show ?thesis using g c(4) id by auto
qed

section \<open>Secrets in responses\<close>

lemma maskConfig_val:
  "map_of (maskConfig fl cfg) k = (if (k, True) \<in> set fl \<and> map_of cfg k \<noteq> None then Some (VStr ''***'') else map_of cfg k)"
proof (induction fl arbitrary: cfg)
  case (Cons p fl)
  obtain a b where p: "p = (a, b)" by (cases p)
  let ?c = "if b \<and> map_of cfg a \<noteq> None then AList.update a (VStr ''***'') cfg else cfg"
  have "maskConfig (p # fl) cfg = maskConfig fl ?c" by (simp only: maskConfig_def p fold.simps o_def prod.case)
  moreover have "map_of ?c k = (if b \<and> a = k \<and> map_of cfg k \<noteq> None then Some (VStr ''***'') else map_of cfg k)" by auto
  ultimately show ?case by (auto simp: Cons.IH p)
qed (simp add: maskConfig_def)

definition masked :: "workflow_node \<Rightarrow> bool" where
  "masked n \<longleftrightarrow> (\<forall>k. isSensitive n k \<longrightarrow> map_of (cfg_entries (wn_Config n)) k \<in> {None, Some (VStr ''***'')})"

lemma maskSensitiveConfig_masked: "n \<in> set (maskSensitiveConfig nodes) \<Longrightarrow> masked n"
proof -
  assume "n \<in> set (maskSensitiveConfig nodes)"
  then obtain m where n: "n = m\<lparr>wn_Config := map_option (maskConfig (case wn_SensitiveKeys m of None \<Rightarrow> [] | Some fl \<Rightarrow> fl)) (wn_Config m)\<rparr>"
    by (auto simp: maskSensitiveConfig_def)
  have "(k, True) \<in> set (case wn_SensitiveKeys m of None \<Rightarrow> [] | Some fl \<Rightarrow> fl)" if "isSensitive n k" for k
    using that by (auto simp: n isSensitive_def dest: map_of_SomeD split: option.splits)
  then show ?thesis unfolding masked_def by (cases "wn_Config m") (auto simp: n maskConfig_val)
qed

lemma encryptKeys_flags:
  assumes "encryptKeys v i ks C fl n = (Inr (C', fl'), n')"
  shows "map_of fl' k = (if k \<in> set ks \<and> (\<exists>s. map_of C k = Some (VStr s)) then Some True else map_of fl k)"
  using assms
proof (induction ks arbitrary: C fl n)
  case (Cons a ks)
  show ?case
  proof (cases "\<exists>s. map_of C a = Some (VStr s)")
    case True
    then obtain s where s: "map_of C a = Some (VStr s)" by blast
    with Cons.prems obtain ct n1 where "encryptKeys v i ks (AList.update a (VBytes ct) C) (AList.update a True fl) n1 = (Inr (C', fl'), n')"
      by (auto split: prod.splits sum.splits)
    from Cons.IH[OF this] s show ?thesis by auto
  next
    case False
    then have "encryptKeys v i ks C fl n = (Inr (C', fl'), n')" using Cons.prems by (auto split: option.splits val.splits)
    from Cons.IH[OF this] False show ?thesis by auto
  qed
qed simp

lemma encryptKeys_wf_flags: "encryptKeys v i ks C fl n = (Inr (C', fl'), n') \<Longrightarrow> wf_map fl \<Longrightarrow> wf_map fl'"
  by (induction ks arbitrary: C fl n) (auto split: option.splits val.splits prod.splits sum.splits)

text \<open>What the client sees of a submitted node.\<close>

definition shown :: "config_vault \<Rightarrow> workflow_node \<Rightarrow> workflow_node \<Rightarrow> bool" where
  "shown v a c \<longleftrightarrow> wn_ID c = wn_ID a \<and> wn_TypeID c = wn_TypeID a \<and>
     (\<forall>k. map_of (cfg_entries (wn_Config c)) k =
        (if k \<in> set (sensitiveKeys v (wn_TypeID a)) \<and> (\<exists>s. map_of (cfg_entries (wn_Config a)) k = Some (VStr s))
         then Some (VStr ''***'') else map_of (cfg_entries (wn_Config a)) k))"

lemma sealed_shown:
  assumes "gcm_ok (cv_cipher v)" "wn_SensitiveKeys a = None" "plain (cfg_entries (wn_Config a))" "encryptNodeWith (encryptKeys v (wn_ID a)) v a m = (Inr b, m')" "decryptNode v b = Inr c"
  shows "shown v a (c\<lparr>wn_Config := map_option (maskConfig (case wn_SensitiveKeys c of None \<Rightarrow> [] | Some fl \<Rightarrow> fl)) (wn_Config c)\<rparr>)"
proof (cases "wn_Config a")
  case None
  with assms(4,5) show ?thesis by (auto simp: encryptNodeWith_def decryptNode_def shown_def)
next
  case (Some cfg)
  with assms(2,4) obtain C' fl' where e: "encryptKeys v (wn_ID a) (sensitiveKeys v (wn_TypeID a)) cfg [] m = (Inr (C', fl'), m')"
    "b = a\<lparr>wn_Config := Some C', wn_SensitiveKeys := Some fl'\<rparr>" by (auto simp: encryptNodeWith_def split: prod.splits sum.splits)
  have "plain cfg" using assms(3) Some by simp
  from encryptKeys_rel[OF assms(1) e(1) enc_rel_plain[OF this]] have "enc_rel (cv_cipher v) (map_of cfg) C' fl'" .
  from decryptKeys_opens[OF this] obtain C'' where C'': "decryptKeys v (wn_ID a) fl' C' = Inr C''" "map_of C'' = map_of cfg" by blast
  with assms(5) e(2) have c: "c = a\<lparr>wn_SensitiveKeys := Some fl', wn_Config := Some C''\<rparr>" by (simp add: decryptNode_def)
  have "(k, True) \<in> set fl' \<longleftrightarrow> map_of fl' k = Some True" for k
  proof
    have "wf_map fl'" using encryptKeys_wf_flags[OF e(1)] by simp
    then show "(k, True) \<in> set fl' \<Longrightarrow> map_of fl' k = Some True" by (simp add: wf_map_def)
  qed (rule map_of_SomeD)
  then show ?thesis
    using C''(2) encryptKeys_flags[OF e(1)] Some by (auto simp: shown_def c maskConfig_val)
qed

lemma shown_nodes:
  assumes "gcm_ok (cv_cipher v)" "list_all2 (\<lambda>a b. \<exists>m m'. encryptNodeWith (encryptKeys v (wn_ID a)) v a m = (Inr b, m')) as bs"
    and "decryptNodes v bs = Inr cs" "\<forall>n \<in> set as. wn_SensitiveKeys n = None \<and> plain (cfg_entries (wn_Config n))"
  shows "list_all2 (shown v) as (maskSensitiveConfig cs)"
  using assms(2-)
proof (induction arbitrary: cs rule: list_all2_induct)
  case (Cons a as b bs)
  then obtain c cs' where d: "cs = c # cs'" "decryptNode v b = Inr c" "decryptNodes v bs = Inr cs'" by (auto split: sum.splits)
  from Cons.hyps(1) obtain m m' where "encryptNodeWith (encryptKeys v (wn_ID a)) v a m = (Inr b, m')" by blast
  from sealed_shown[OF assms(1) _ _ this d(2)] Cons.prems(2) Cons.IH[OF d(3)] d(1) show ?case by (simp add: maskSensitiveConfig_def)
qed (simp add: maskSensitiveConfig_def)

fun response_nodes :: "response \<Rightarrow> workflow_node list" where
  "response_nodes (WriteJSON s (TheWorkflow r)) = wr_Nodes r"
| "response_nodes (WriteJSON s (TheVersion v)) = wr_Nodes (vr_Definition v)"
| "response_nodes _ = []"

lemma maskedResponse_nodes: "wr_Nodes (maskedResponse w) = maskSensitiveConfig (wf_Nodes w)"
  by (simp add: maskedResponse_def toWorkflowResponse_def Let_def)

lemma checkWorkflow_nodes: "checkWorkflow A w = Inl r \<Longrightarrow> response_nodes r = []"
  by (auto simp: checkWorkflow_def writeValidationErrors_def Let_def split: sum.splits if_splits build_error.splits)

lemma handle_masked: "n \<in> set (response_nodes (fst (handle A org rq st))) \<Longrightarrow> masked n"
proof (cases rq)
  case (ReqCreate b)
  assume "n \<in> set (response_nodes (fst (handle A org rq st)))"
  then show ?thesis unfolding ReqCreate handle.simps create_def Let_def
    by (auto simp: maskedResponse_nodes checkWorkflow_nodes dest: maskSensitiveConfig_masked split: option.splits sum.splits prod.splits)
next
  case (ReqUpdate i b)
  assume "n \<in> set (response_nodes (fst (handle A org rq st)))"
  then show ?thesis unfolding ReqUpdate handle.simps update_def Let_def
    by (auto simp: maskedResponse_nodes checkWorkflow_nodes dest: maskSensitiveConfig_masked split: option.splits sum.splits prod.splits if_splits)
qed (auto simp: list_workflows_def get_def delete_workflow_def listVersions_def getVersion_def restoreVersion_def maskedResponse_nodes
      dest: maskSensitiveConfig_masked split: option.splits sum.splits prod.splits if_splits)

text \<open>
  C28. Secrets do not come back. The answer to a successful \<open>POST /workflows\<close> shows the submitted nodes in their order with
  every configuration value as submitted, except that each value that the node type's schema declares sensitive reads \<open>***\<close>. And in the
  answer to any request on workflows or versions, every value that the vault sealed reads \<open>***\<close>. (A
  sensitive key whose value is not a string is neither sealed nor masked.)
\<close>

theorem responses_hide_secrets:
  assumes "gcm_ok (cv_cipher (api_vault A))" "\<forall>n \<in> set (wf_Nodes w0). wn_SensitiveKeys n = None \<and> plain (cfg_entries (wn_Config n))"
    and "create A org (Some w0) st = (WriteJSON 201 (TheWorkflow resp), st')"
  shows "list_all2 (shown (api_vault A)) (wf_Nodes w0) (wr_Nodes resp) \<and>
    (\<forall>org rq st. \<forall>n \<in> set (response_nodes (fst (handle A org rq st))). masked n)"
proof -
  let ?v = "api_vault A"
  have nodes: "wf_Nodes (applyDefaults w0) = wf_Nodes w0" by (simp add: applyDefaults_def)
  obtain w1 d n where c: "CreateWorkflow ?v (api_store A org) (applyDefaults w0) (as_db st, as_rand st) = (Inr w1, d, n)" "resp = maskedResponse w1"
    using assms(3) checkWorkflow_status[of A "applyDefaults w0"] by (auto simp: create_def Let_def split: sum.splits prod.splits)
  obtain sealed stored where e: "encryptNodes ?v (wf_Nodes w0) (as_rand st) = (Inr sealed, n)" "wf_Nodes stored = sealed" "decryptWorkflow ?v stored = Inr w1"
  proof -
    from c(1) obtain sealed stored d1 where x: "encryptNodes ?v (wf_Nodes w0) (as_rand st) = (Inr sealed, n)" "decryptWorkflow ?v stored = Inr w1"
      "mysql_CreateWorkflow (api_sql A) (api_json A) org (api_uuid A (clock (as_db st))) (api_now A (clock (as_db st))) (applyDefaults w0\<lparr>wf_Nodes := sealed\<rparr>) (as_db st) = (Inr stored, d1)"
      by (auto simp: CreateWorkflow_def api_store_def mysql_store_def writeAndSnapshot_def nodes split: prod.splits sum.splits)
    from x(3) have "stored = createDefaults (api_uuid A (clock (as_db st))) (applyDefaults w0\<lparr>wf_Nodes := sealed\<rparr>)"
      unfolding mysql_CreateWorkflow_def Let_def by (auto simp: fail_def give_def elim!: transaction_InrE andThen_InrE split: option.splits)
    then have "wf_Nodes stored = sealed" by (simp add: createDefaults_def defaultKind_def)
    with x that show ?thesis by blast
  qed
  have "list_all2 (\<lambda>a b. \<exists>m m'. encryptNodeWith (encryptKeys ?v (wn_ID a)) ?v a m = (Inr b, m')) (wf_Nodes w0) sealed"
    using eachNode_all[OF e(1)[unfolded encryptNodes_def]] by simp
  moreover have "decryptNodes ?v sealed = Inr (wf_Nodes w1)" using e(2,3) by (auto simp: decryptWorkflow_def split: sum.splits)
  ultimately have "list_all2 (shown ?v) (wf_Nodes w0) (maskSensitiveConfig (wf_Nodes w1))"
    using shown_nodes[OF assms(1) _ _ assms(2)] by blast
  then show ?thesis using handle_masked by (auto simp: c(2) maskedResponse_nodes)
qed

section \<open>A concrete server\<close>

text \<open>A codec for strings and for the configuration of a cron trigger.\<close>

fun enc_cron :: "val \<Rightarrow> string option" where
  "enc_cron (VStr s) = Some (CHR ''s'' # s)"
| "enc_cron (VMap m) = (case m of [] \<Rightarrow> Some ''{}'' | [(k, VStr e)] \<Rightarrow> if k = ''cron_expr'' then Some (CHR ''c'' # e) else None | _ \<Rightarrow> None)"
| "enc_cron _ = None"

fun dec_cron :: "string \<Rightarrow> (string \<times> string) list" where
  "dec_cron (c # e) = (if c = CHR ''c'' then [(''cron_expr'', e)] else [])"
| "dec_cron [] = []"

definition demo_api :: "(string, string, (nat \<times> (string \<times> string)) list) api" where
  "demo_api = \<lparr> api_vault = sample_vault, api_sql = plain_sql,
     api_json = (string_json (workflowToSnapshot (demo_wf ''n'' [])))\<lparr> enc_any := enc_cron, dec_extra := dec_cron \<rparr>,
     api_uuid = (\<lambda>_. ''u''), api_now = (\<lambda>_. 1), api_putEmail = (\<lambda>_. give ()), api_getEmail = (\<lambda>_. fail ErrNotFound),
     api_registry = cv_registry sample_vault, api_libs = sample_validators, api_cron = list_cron, api_aws = (\<lambda>_. True) \<rparr>"

definition demo_body :: "workflow_node list \<Rightarrow> trigger \<Rightarrow> workflow" where
  "demo_body nds tr = (demo_wf ''n'' nds)\<lparr> wf_Trigger := tr \<rparr>"

abbreviation secret_body :: workflow where
  "secret_body \<equiv> demo_body [secret_node ''a'' ''sk-1''] (cronTrigger ''@daily'')"

definition demo_start :: "(nat \<times> (string \<times> string)) list api_state" where
  "demo_start = \<lparr> as_db = tick empty_db, as_rand = 0, as_triggers = idleManager, as_log = [] \<rparr>"

definition demo_requests :: "(string \<times> request) list" where
  "demo_requests = [(''org'', ReqCreate (Some (demo_body [] (cronTrigger ''@daily'')))), (''other'', ReqDelete ''w''),
     (''org'', ReqUpdate ''w'' (Some (demo_body [] (cronTrigger ''@hourly''))))]"

lemma demo_triggers: "triggerSurvives (api_sql demo_api) (api_json demo_api) t"
  by (auto simp: triggerSurvives_def demo_api_def plain_sql_def triggerExtra_def stringField_def)

lemma demo_surroundings: "surroundings demo_api UNIV"
  using demo_triggers string_json_cols(1) list_cron_ok
  by (auto simp: surroundings_def) (auto simp: demo_api_def cols_same_def plain_sql_def)

lemma live_triggers_follow_database_witness:
  "map status (fst (serve demo_api demo_requests demo_start)) = [201, 404, 200] \<and>
   liveOf list_cron (as_triggers (snd (serve demo_api demo_requests demo_start))) ''w'' = Some (ByCron ''@hourly'')"
proof -
  let ?s = "serve demo_api demo_requests demo_start" let ?st = "snd (serve demo_api demo_requests demo_start)"
  have run: "map status (fst ?s) = [201, 404, 200]" "as_log ?st = []"
    "Option.bind (storedTrigger (api_sql demo_api) (api_json demo_api) (tables (as_db ?st)) ''w'') (armedFor (api_cron demo_api) (api_aws demo_api) ''w'') = Some (ByCron ''@hourly'')"
    by code_simp+
  have "status r \<in> {201, 404, 200}" if "r \<in> set (fst ?s)" for r using arg_cong[OF run(1), of set] that by auto
  then have ok: "\<forall>r \<in> set (fst ?s). status r < 500" by force
  have load: "ListTriggerConfigs (api_sql demo_api) (api_json demo_api) empty_db = (Inr [], tick empty_db)"
    by (simp add: ListTriggerConfigs_def query_def demo_api_def plain_sql_def empty_db_def)
  have "liveOf (api_cron demo_api) (as_triggers ?st) ''w'' =
      Option.bind (storedTrigger (api_sql demo_api) (api_json demo_api) (tables (as_db ?st)) ''w'') (armedFor (api_cron demo_api) (api_aws demo_api) ''w'')"
  proof (rule live_triggers_follow_database[OF demo_surroundings _ _ _ _ _ load, where rqs = demo_requests and rs = "fst ?s" and n = 0 and mg' = idleManager])
    show "kinds_apart (api_sql demo_api)" by (simp add: kinds_apart_def demo_api_def plain_sql_def sql_eq_def)
    show "manager_ok (api_cron demo_api) idleManager" using idleManager_ok by (simp add: demo_api_def)
    show "liveOf (api_cron demo_api) idleManager = Map.empty"
      by (simp add: liveOf_def idleManager_def cron_jobs_def jobsOf_def fun_eq_iff)
    show "serve demo_api demo_requests \<lparr> as_db = tick empty_db, as_rand = 0, as_triggers = idleManager, as_log = [] \<rparr> = (fst ?s, ?st)"
      by (simp add: demo_start_def)
  qed (use ok run(2) in \<open>auto simp: empty_db_def manager_LoadAll_def\<close>)
  with run show ?thesis by (simp add: demo_api_def)
qed

lemma demo_accepted:
  "\<exists>resp st. create demo_api ''org'' (Some secret_body) demo_start = (WriteJSON 201 (TheWorkflow resp), st) \<and> wr_ID resp = ''w''"
proof -
  let ?c = "create demo_api ''org'' (Some secret_body) demo_start"
  have "(case fst ?c of WriteJSON s (TheWorkflow r) \<Rightarrow> s = 201 \<and> wr_ID r = ''w'' | _ \<Rightarrow> False)" by code_simp
  then show ?thesis by (cases ?c) (auto split: response.splits body.splits)
qed

lemma accepted_workflow_runs_witness:
  "\<exists>resp st w d dag. create demo_api ''org'' (Some secret_body) demo_start = (WriteJSON 201 (TheWorkflow resp), st) \<and>
     GetWorkflow (api_vault demo_api) (api_store demo_api ''org'') (wr_ID resp) (as_db st) = (Inr w, d) \<and> Build (wf_Nodes w) (wf_Edges w) = Inr dag"
proof -
  obtain resp st where c: "create demo_api ''org'' (Some secret_body) demo_start = (WriteJSON 201 (TheWorkflow resp), st)"
    using demo_accepted by blast
  have sub: "\<forall>n \<in> set (wf_Nodes secret_body). submitted (api_sql demo_api) (api_json demo_api) n"
    by (simp add: demo_body_def demo_wf_def sample_wf_def submitted_def secret_node_def plain_def survives_def parsersSurvive_def demo_api_def string_json_def)
  have "reliable (api_sql demo_api)" "cols_same (api_json demo_api)" "gcm_ok (cv_cipher (api_vault demo_api))" "vacant (api_sql demo_api) (wr_ID resp) (tables (as_db demo_start))"
    using plain_sql_reliable demo_surroundings sample_gcm_ok
    by (simp_all add: surroundings_def) (simp_all add: demo_api_def sample_vault_def vacant_def demo_start_def empty_db_def)
  from accepted_workflow_runs[OF this(1-3) _ sub c this(4)] demo_triggers c show ?thesis by blast
qed

lemma responses_hide_secrets_witness:
  "\<exists>resp st. create demo_api ''org'' (Some secret_body) demo_start = (WriteJSON 201 (TheWorkflow resp), st) \<and>
     map (\<lambda>n. map_of (cfg_entries (wn_Config n)) ''api_key'') (wr_Nodes resp) = [Some (VStr ''***'')]"
proof -
  obtain resp st where c: "create demo_api ''org'' (Some secret_body) demo_start = (WriteJSON 201 (TheWorkflow resp), st)"
    using demo_accepted by blast
  have nodes: "wf_Nodes secret_body = [secret_node ''a'' ''sk-1'']" by (simp add: demo_body_def demo_wf_def sample_wf_def)
  have "gcm_ok (cv_cipher (api_vault demo_api))" by (simp add: demo_api_def sample_vault_def sample_gcm_ok)
  from responses_hide_secrets[OF this _ c] nodes have "list_all2 (shown (api_vault demo_api)) [secret_node ''a'' ''sk-1''] (wr_Nodes resp)"
    by (auto simp: secret_node_def plain_def)
  moreover have "''api_key'' \<in> set (sensitiveKeys (api_vault demo_api) ''llm'')" by code_simp
  ultimately have "map (\<lambda>n. map_of (cfg_entries (wn_Config n)) ''api_key'') (wr_Nodes resp) = [Some (VStr ''***'')]"
    by (auto simp: list_all2_Cons1 shown_def) (auto simp: secret_node_def)
  with c show ?thesis by (intro exI conjI)
qed

end
