(* ===== verification/Eval_Import.thy ===== *)
theory Eval_Import
  imports Eval_Store
begin

text \<open>
  Bulk import of test cases (\<open>internal/eval/importer.go\<close>). What the CSV reader and the JSON decoder make of
  their input is a parameter: a CSV file is the sequence of its records (\<open>Inl\<close>: a syntax error on that line), the JSON decoder is
  a function. The reader's rule that every record has as many fields as the header, and the scanner that splits
  a text into lines, are written out. \<open>iter\<close> is the order in which the runtime ranges over the map of extra columns for a row.
\<close>

record import_row =
  ir_Name :: string
  ir_Description :: string
  ir_InitialData :: gomap
  ir_RowNum :: nat

datatype import_problem = CsvParseError | RowNameRequired | InvalidJSON | StoreError store_error

record import_row_error =
  ie_Row :: nat
  ie_Message :: import_problem

definition maxImportRows :: nat where
  "maxImportRows = 500"

section \<open>The file type\<close>

text \<open>\<open>filepath.Ext\<close>: from the last dot of the last path element.\<close>

fun extOf :: "string \<Rightarrow> string \<Rightarrow> string" where
  "extOf acc [] = []"
| "extOf acc (c # rest) = (if c = CHR ''/'' then [] else if c = CHR ''.'' then c # acc else extOf (c # acc) rest)"

definition Ext :: "string \<Rightarrow> string" where
  "Ext filename = extOf [] (rev filename)"

datatype import_format = FormatCSV | FormatJSONL

definition detectFormat :: "string \<Rightarrow> import_format option" where
  "detectFormat filename =
     (let ext = ToLower (Ext filename)
      in if ext = ''.csv'' then Some FormatCSV else if ext = ''.jsonl'' then Some FormatJSONL else None)"

section \<open>CSV\<close>

datatype import_error = EmptyFile | BadHeader | NoNameColumn | ReadFailed

record csv_columns =
  cc_name :: "nat option"
  cc_desc :: "nat option"
  cc_extra :: "(nat \<times> string) list"

definition readHeader :: "string list \<Rightarrow> csv_columns" where
  "readHeader header =
     fold (\<lambda>(i, col) cc.
         let key = TrimSpace (ToLower col)
         in if key = ''name'' then cc\<lparr>cc_name := Some i\<rparr>
            else if key = ''description'' then cc\<lparr>cc_desc := Some i\<rparr>
            else cc\<lparr>cc_extra := AList.update i (TrimSpace col) (cc_extra cc)\<rparr>)
       (enumerate 0 header) \<lparr> cc_name = None, cc_desc = None, cc_extra = [] \<rparr>"

definition field :: "string list \<Rightarrow> nat \<Rightarrow> string" where
  "field record i = (if i < length record then TrimSpace (record ! i) else [])"

text \<open>\<open>csv.Reader\<close> reports a record whose number of fields differs from the header's.\<close>

definition checkFields :: "nat \<Rightarrow> unit + string list \<Rightarrow> unit + string list" where
  "checkFields n r = (case r of Inl u \<Rightarrow> Inl u | Inr record \<Rightarrow> if length record = n then Inr record else Inl ())"

type_synonym col_order = "nat \<Rightarrow> (nat \<times> string) list \<Rightarrow> (nat \<times> string) list"

definition csvRow :: "col_order \<Rightarrow> csv_columns \<Rightarrow> nat \<Rightarrow> nat \<Rightarrow> unit + string list \<Rightarrow> import_row_error + import_row" where
  "csvRow iter cc nameIdx rowNum r =
     (case r of
        Inl _ \<Rightarrow> Inl \<lparr> ie_Row = rowNum, ie_Message = CsvParseError \<rparr>
      | Inr record \<Rightarrow>
          (let name = field record nameIdx
           in if name = [] then Inl \<lparr> ie_Row = rowNum, ie_Message = RowNameRequired \<rparr>
              else Inr \<lparr> ir_Name = name, ir_Description = (case cc_desc cc of None \<Rightarrow> [] | Some i \<Rightarrow> field record i),
                         ir_InitialData = fold (\<lambda>(idx, colName) m. if idx < length record then AList.update colName (VStr (record ! idx)) m else m) (iter rowNum (cc_extra cc)) [],
                         ir_RowNum = rowNum \<rparr>))"

text \<open>A row goes to one of two lists.\<close>

fun partitionRows :: "(import_row_error + import_row) list \<Rightarrow> import_row list \<times> import_row_error list" where
  "partitionRows [] = ([], [])"
| "partitionRows (r # rs) =
     (case partitionRows rs of (rows, errs) \<Rightarrow> (case r of Inl e \<Rightarrow> (rows, e # errs) | Inr row \<Rightarrow> (row # rows, errs)))"

definition parseCSV :: "col_order \<Rightarrow> (unit + string list) list \<Rightarrow> import_error + import_row list \<times> import_row_error list" where
  "parseCSV iter records =
     (case records of
        [] \<Rightarrow> Inl EmptyFile
      | Inl _ # _ \<Rightarrow> Inl BadHeader
      | Inr header # rest \<Rightarrow>
          (let cc = readHeader header
           in case cc_name cc of
                None \<Rightarrow> Inl NoNameColumn
              | Some nameIdx \<Rightarrow>
                  Inr (partitionRows (map (\<lambda>(rowNum, r). csvRow iter cc nameIdx rowNum (checkFields (length header) r)) (enumerate 2 rest)))))"

section \<open>JSON lines\<close>

text \<open>\<open>bufio.ScanLines\<close>: lines without their terminator and without a trailing carriage return; a last line that is empty is none.\<close>

definition dropCR :: "string \<Rightarrow> string" where
  "dropCR s = (if s \<noteq> [] \<and> last s = CHR 0x0D then butlast s else s)"

fun scanLines :: "string \<Rightarrow> string \<Rightarrow> string list" where
  "scanLines acc [] = (if acc = [] then [] else [dropCR (rev acc)])"
| "scanLines acc (c # s) = (if c = CHR 0x0A then dropCR (rev acc) # scanLines [] s else scanLines (c # acc) s)"

record json_line =
  jl_Name :: string
  jl_Description :: string
  jl_InitialData :: "gomap option"

definition jsonRow :: "(string \<Rightarrow> json_line option) \<Rightarrow> nat \<Rightarrow> string \<Rightarrow> import_row_error + import_row" where
  "jsonRow decode lineNum line =
     (case decode line of
        None \<Rightarrow> Inl \<lparr> ie_Row = lineNum, ie_Message = InvalidJSON \<rparr>
      | Some jl \<Rightarrow>
          (if TrimSpace (jl_Name jl) = [] then Inl \<lparr> ie_Row = lineNum, ie_Message = RowNameRequired \<rparr>
           else Inr \<lparr> ir_Name = TrimSpace (jl_Name jl), ir_Description = jl_Description jl, ir_InitialData = cfg_entries (jl_InitialData jl), ir_RowNum = lineNum \<rparr>))"

definition parseJSONL :: "(string \<Rightarrow> json_line option) \<Rightarrow> bool \<Rightarrow> string \<Rightarrow> import_error + import_row list \<times> import_row_error list" where
  "parseJSONL decode readFails content =
     (if readFails then Inl ReadFailed
      else Inr (partitionRows (map (\<lambda>(lineNum, line). jsonRow decode lineNum line)
                  (enumerate 1 (filter (\<lambda>line. line \<noteq> []) (map TrimSpace (scanLines [] content)))))))"

section \<open>Facts\<close>

lemma partitionRows_split:
  "partitionRows rs = (rows, errs) \<Longrightarrow> rows = map projr (filter (\<lambda>r. \<not> isl r) rs) \<and> errs = map projl (filter isl rs) \<and> length rows + length errs = length rs"
  by (induction rs arbitrary: rows errs) (auto split: prod.splits sum.splits)

end
