(* ===== verification/Eval_Handler.thy ===== *)
theory Eval_Handler
  imports Eval_Import Triggers Workflow_Handler
begin

text \<open>
  The HTTP handlers of the evaluation endpoints (\<open>internal/eval/handler.go\<close>) over the eval store, the grader vault,
  the eval runner and the eval scheduler. A request body is what the JSON decoder makes of it (\<open>None\<close>:
  refused); the loading of the workflow whose nodes a mock names is a parameter, as are the regular expression
  compiler and the JSON encoder that check a grader's configuration. The state is the database, the draws of the random source, the
  scheduler and the eval runs started. \<open>org\<close> is the tenant of the request.
\<close>

section \<open>Validation of a test case\<close>

datatype field_ref = MocksField nat string | GradersField nat string

datatype field_problem = NodeUnknown string | BadRegex | SchemaMissing | SchemaNotJSON | SchemaNotObject | RubricMissing | CriteriaMissing | PluginTypeMissing | BadProvider | KeyNotStored

record field_error =
  fv_Field :: field_ref
  fv_Problem :: field_problem

abbreviation field_error_at :: "field_ref \<Rightarrow> field_problem \<Rightarrow> field_error" where
  "field_error_at f p \<equiv> \<lparr> fv_Field = f, fv_Problem = p \<rparr>"

record validation_libs =
  vl_regexCompiles :: "string \<Rightarrow> bool"
  vl_Marshal :: "val \<Rightarrow> string option"
  vl_UnmarshalObject :: "string \<Rightarrow> bool"

definition validateMocks :: "node_mock list \<Rightarrow> workflow_node list \<Rightarrow> field_error list" where
  "validateMocks mocks wfNodes =
     concat (map (\<lambda>(i, mk). if nm_NodeID mk \<in> wn_ID ` set wfNodes then [] else [field_error_at (MocksField i ''node_id'') (NodeUnknown (nm_NodeID mk))])
       (enumerate 0 mocks))"

definition validateLLMProvider :: "gomap \<Rightarrow> nat \<Rightarrow> field_error list" where
  "validateLLMProvider config i =
     (let provider = str_or_empty (map_of config ''provider'')
      in if provider \<noteq> ''openai'' \<and> provider \<noteq> ''anthropic'' then [field_error_at (GradersField i ''config.provider'') BadProvider] else [])"

definition hasNonEmptyCriteria :: "gomap \<Rightarrow> bool" where
  "hasNonEmptyCriteria config = (case map_of config ''criteria'' of Some (VList v) \<Rightarrow> v \<noteq> [] | _ \<Rightarrow> False)"

definition graderErrors :: "validation_libs \<Rightarrow> nat \<times> grader_def \<Rightarrow> field_error list" where
  "graderErrors V = (\<lambda>(i, g).
     let config = cfg_entries (gd_Config g)
     in if gd_Type g = ''string_match'' then
          (if str_or_empty (map_of config ''match_type'') = ''regex'' \<and> \<not> vl_regexCompiles V (str_or_empty (map_of config ''expected_value''))
           then [field_error_at (GradersField i ''config.expected_value'') BadRegex] else [])
        else if gd_Type g = ''json_schema'' then
          (case map_of config ''schema'' of
             None \<Rightarrow> [field_error_at (GradersField i ''config.schema'') SchemaMissing]
           | Some schemaVal \<Rightarrow>
               (case vl_Marshal V schemaVal of
                  None \<Rightarrow> [field_error_at (GradersField i ''config.schema'') SchemaNotJSON]
                | Some b \<Rightarrow> if vl_UnmarshalObject V b then [] else [field_error_at (GradersField i ''config.schema'') SchemaNotObject]))
        else if gd_Type g = ''llm_judge'' then
          (if str_or_empty (map_of config ''rubric'') = [] then [field_error_at (GradersField i ''config.rubric'') RubricMissing] else []) @ validateLLMProvider config i
        else if gd_Type g = ''checklist'' then
          (if \<not> hasNonEmptyCriteria config then [field_error_at (GradersField i ''config.criteria'') CriteriaMissing] else []) @ validateLLMProvider config i
        else if gd_Type g = ''plugin'' then
          (if str_or_empty (map_of config ''plugin_type_id'') = [] then [field_error_at (GradersField i ''config.plugin_type_id'') PluginTypeMissing] else [])
        else [])"

definition validateGraderConfigs :: "validation_libs \<Rightarrow> grader_def list \<Rightarrow> field_error list" where
  "validateGraderConfigs V graders = concat (map (graderErrors V) (enumerate 0 graders))"

definition validateTestCase :: "validation_libs \<Rightarrow> test_case \<Rightarrow> workflow_node list \<Rightarrow> field_error list" where
  "validateTestCase V tc wfNodes = validateMocks (tc_Mocks tc) wfNodes @ validateGraderConfigs V (tc_Graders tc)"

section \<open>The handlers' surroundings\<close>

record ('s, 'c) eval_api =
  eh_ports :: "'s eval_ports"
  eh_uuid :: "nat \<Rightarrow> string"
  eh_now :: "nat \<Rightarrow> int"
  eh_GetWorkflow :: "string \<Rightarrow> string \<Rightarrow> vault_error + workflow"
  eh_libs :: validation_libs
  eh_cron :: "'c cron_lib"
  eh_random :: "nat \<Rightarrow> nat list option"
  eh_decodeLine :: "string \<Rightarrow> json_line option"
  eh_iter :: col_order
  eh_runner :: bool

record 'c eval_state =
  ev_db :: "eval_tables db"
  ev_rand :: nat
  ev_sched :: "'c eval_scheduler"
  ev_jobs :: "eval_job list"

abbreviation eh_sql :: "('s, 'c) eval_api \<Rightarrow> sql" where
  "eh_sql A \<equiv> ep_sql (eh_ports A)"

abbreviation eh_json :: "('s, 'c) eval_api \<Rightarrow> eval_json" where
  "eh_json A \<equiv> ep_json (eh_ports A)"

abbreviation eh_cipher :: "('s, 'c) eval_api \<Rightarrow> cipher" where
  "eh_cipher A \<equiv> ep_cipher (eh_ports A)"

section \<open>Responses\<close>

record suite_response =
  sr_ID :: string
  sr_WorkflowID :: string
  sr_Name :: string
  sr_Description :: string
  sr_PassThreshold :: rat
  sr_MaxConcurrency :: int
  sr_WorkflowDeleted :: bool
  sr_TriggerKind :: string
  sr_CronExpr :: "string option"
  sr_WebhookURL :: "string option"
  sr_WebhookSecret :: "string option"

datatype change_type = Regressed | Improved | Unchanged | NewCase | MissingCase

record test_case_comparison =
  cmp_TestCaseID :: string
  cmp_TestCaseName :: string
  cmp_ChangeType :: change_type
  cmp_HeadPassed :: "bool option"
  cmp_BaselinePassed :: "bool option"
  cmp_HeadResultID :: string
  cmp_BaselineResultID :: string

record compare_response =
  cr_HeadRunID :: string
  cr_BaselineRunID :: string
  cr_SuiteID :: string
  cr_RegressedCount :: nat
  cr_ImprovedCount :: nat
  cr_UnchangedCount :: nat
  cr_NewCaseCount :: nat
  cr_MissingCount :: nat
  cr_Cases :: "test_case_comparison list"

datatype eval_body =
    NoBody
  | SuitesBody "eval_suite_summary list"
  | SuiteBody suite_response
  | SuiteWithCases suite_response "test_case list"
  | CasesBody "test_case list"
  | CaseBody test_case
  | ImportBody nat nat "import_row_error list"
  | StartedBody string
  | RunsBody "eval_run list"
  | RunBody eval_run "test_case_result list"
  | ResultBody test_case_result
  | CompareBody compare_response

datatype eval_response = EvalJSON nat eval_body | EvalError nat string "field_error list"

abbreviation badRequest :: eval_response where
  "badRequest \<equiv> EvalError 400 ''VALIDATION_FAILED'' []"

abbreviation internalError :: eval_response where
  "internalError \<equiv> EvalError 500 ''INTERNAL_ERROR'' []"

text \<open>The answer to an error of the store: 404 for \<open>ErrNotFound\<close>, 500 otherwise.\<close>

definition storeError :: "store_error \<Rightarrow> eval_response" where
  "storeError e = (if e = ErrNotFound then EvalError 404 ''NOT_FOUND'' [] else internalError)"

definition suiteResponse :: "eval_suite \<Rightarrow> string \<Rightarrow> suite_response" where
  "suiteResponse s plainSecret =
     \<lparr> sr_ID = es_ID s, sr_WorkflowID = es_WorkflowID s, sr_Name = es_Name s, sr_Description = es_Description s, sr_PassThreshold = es_PassThreshold s,
       sr_MaxConcurrency = es_MaxConcurrency s, sr_WorkflowDeleted = es_WorkflowDeleted s, sr_TriggerKind = es_TriggerKind s,
       sr_CronExpr = (if es_TriggerKind s = ''cron'' then Some (es_CronExpr s) else None),
       sr_WebhookURL = (if es_TriggerKind s = ''webhook'' then Some (''/v1/eval-webhooks/'' @ es_ID s) else None),
       sr_WebhookSecret = (if es_TriggerKind s = ''webhook'' then Some (if plainSecret \<noteq> [] then plainSecret else ''***'') else None) \<rparr>"

section \<open>Suites\<close>

definition eval_applyDefaults :: "eval_suite \<Rightarrow> eval_suite" where
  "eval_applyDefaults s =
     s\<lparr> es_PassThreshold := (if es_PassThreshold s = 0 then 1 else es_PassThreshold s),
        es_MaxConcurrency := (if es_MaxConcurrency s = 0 then 1 else es_MaxConcurrency s),
        es_TriggerKind := (if es_TriggerKind s = [] then ''none'' else es_TriggerKind s) \<rparr>"

text \<open>
  The result is the new secret in plain text, empty when none was made, with the suite as \<open>applyTrigger\<close> leaves it; \<open>None\<close> is a
  refusal. Thirty-two random bytes make a secret.
\<close>

definition applyTrigger :: "('s, 'c) eval_api \<Rightarrow> eval_suite \<Rightarrow> bool \<Rightarrow> nat \<Rightarrow> (string \<times> eval_suite) option \<times> nat" where
  "applyTrigger A s generateSecret n =
     (if es_TriggerKind s = [] \<or> es_TriggerKind s = ''none'' then
        (Some ([], s\<lparr> es_TriggerKind := ''none'', es_CronExpr := [], es_WebhookSecret := [] \<rparr>), n)
      else if es_TriggerKind s = ''cron'' then
        (case ValidateCronExpr (eh_cron A) (es_CronExpr s) of Inl _ \<Rightarrow> (None, n) | Inr _ \<Rightarrow> (Some ([], s\<lparr>es_WebhookSecret := []\<rparr>), n))
      else if es_TriggerKind s = ''webhook'' then
        (if generateSecret then
           (case eh_random A n of
              None \<Rightarrow> (None, Suc n)
            | Some raw \<Rightarrow>
                (let plain = concat (map hexDigits raw)
                 in case EncryptValue (eh_cipher A) plain (Suc n) of
                      (Inl _, n') \<Rightarrow> (None, n')
                    | (Inr enc, n') \<Rightarrow> (Some (plain, s\<lparr>es_WebhookSecret := enc\<rparr>), n')))
         else (Some ([], s), n))
      else (None, n))"

definition ListByWorkflow :: "('s, 'c) eval_api \<Rightarrow> string \<Rightarrow> string \<Rightarrow> 'c eval_state \<Rightarrow> eval_response \<times> 'c eval_state" where
  "ListByWorkflow A org workflowID st =
     (case ListEvalSuites (eh_sql A) (eh_json A) org workflowID (ev_db st) of
        (Inl e, d) \<Rightarrow> (internalError, st\<lparr>ev_db := d\<rparr>)
      | (Inr suites, d) \<Rightarrow>
          (EvalJSON 200 (SuitesBody (map (\<lambda>s. s\<lparr>ss_Suite := (ss_Suite s)\<lparr>es_WebhookSecret := []\<rparr>\<rparr>) suites)), st\<lparr>ev_db := d\<rparr>))"

definition CreateSuite :: "('s, 'c) eval_api \<Rightarrow> string \<Rightarrow> string \<Rightarrow> eval_suite option \<Rightarrow> 'c eval_state \<Rightarrow> eval_response \<times> 'c eval_state" where
  "CreateSuite A org workflowID reqBody st =
     (case reqBody of
        None \<Rightarrow> (badRequest, st)
      | Some b \<Rightarrow>
          (if es_Name b = [] then (badRequest, st)
           else case applyTrigger A (eval_applyDefaults (b\<lparr>es_WorkflowID := workflowID\<rparr>)) True (ev_rand st) of
                  (None, n) \<Rightarrow> (badRequest, st\<lparr>ev_rand := n\<rparr>)
                | (Some (plainSecret, body), n) \<Rightarrow>
                    (case CreateEvalSuite (eh_sql A) (eh_json A) org (eh_uuid A (clock (ev_db st))) (eh_now A (clock (ev_db st))) body (ev_db st) of
                       (Inl e, d) \<Rightarrow> (internalError, st\<lparr> ev_db := d, ev_rand := n \<rparr>)
                     | (Inr created, d) \<Rightarrow>
                         (EvalJSON 201 (SuiteBody (suiteResponse created plainSecret)),
                          st\<lparr> ev_db := d, ev_rand := n,
                              ev_sched := (if es_TriggerKind created = ''cron'' then snd (Arm (eh_cron A) (es_ID created) (es_CronExpr created) (ev_sched st))
                                           else ev_sched st) \<rparr>))))"

definition GetSuite :: "('s, 'c) eval_api \<Rightarrow> string \<Rightarrow> string \<Rightarrow> 'c eval_state \<Rightarrow> eval_response \<times> 'c eval_state" where
  "GetSuite A org suiteID st =
     (case GetEvalSuite (eh_sql A) (eh_json A) org suiteID (ev_db st) of
        (Inl e, d) \<Rightarrow> (storeError e, st\<lparr>ev_db := d\<rparr>)
      | (Inr suite, d) \<Rightarrow>
          (case ListTestCases (eh_sql A) (eh_json A) suiteID d of
             (Inl e, d') \<Rightarrow> (internalError, st\<lparr>ev_db := d'\<rparr>)
           | (Inr testCases, d') \<Rightarrow>
               (EvalJSON 200 (SuiteWithCases (suiteResponse suite []) (map (\<lambda>tc. tc\<lparr>tc_Graders := MaskGraders (tc_Graders tc)\<rparr>) testCases)), st\<lparr>ev_db := d'\<rparr>)))"

record update_suite =
  us_Name :: string
  us_Description :: "string option"
  us_PassThreshold :: "rat option"
  us_MaxConcurrency :: int
  us_TriggerKind :: string
  us_CronExpr :: string
  us_RotateWebhookSecret :: bool

definition mergeSuite :: "update_suite \<Rightarrow> eval_suite \<Rightarrow> eval_suite" where
  "mergeSuite b s0 =
     (let s = s0\<lparr> es_Name := (if us_Name b = [] then es_Name s0 else us_Name b),
                  es_PassThreshold := (case us_PassThreshold b of None \<Rightarrow> es_PassThreshold s0 | Some x \<Rightarrow> x),
                  es_Description := (case us_Description b of None \<Rightarrow> es_Description s0 | Some x \<Rightarrow> x),
                  es_MaxConcurrency := (if us_MaxConcurrency b = 0 then es_MaxConcurrency s0 else us_MaxConcurrency b) \<rparr>;
          s' = (if us_TriggerKind b = [] then s
                else s\<lparr> es_TriggerKind := us_TriggerKind b, es_CronExpr := us_CronExpr b,
                        es_WebhookSecret := (if us_TriggerKind b \<noteq> ''webhook'' then [] else es_WebhookSecret s) \<rparr>)
      in if us_RotateWebhookSecret b then s'\<lparr>es_TriggerKind := ''webhook''\<rparr> else s')"

definition UpdateSuite :: "('s, 'c) eval_api \<Rightarrow> string \<Rightarrow> string \<Rightarrow> update_suite option \<Rightarrow> 'c eval_state \<Rightarrow> eval_response \<times> 'c eval_state" where
  "UpdateSuite A org suiteID reqBody st =
     (case GetEvalSuite (eh_sql A) (eh_json A) org suiteID (ev_db st) of
        (Inl e, d) \<Rightarrow> (storeError e, st\<lparr>ev_db := d\<rparr>)
      | (Inr existing, d) \<Rightarrow>
          (case reqBody of
             None \<Rightarrow> (badRequest, st\<lparr>ev_db := d\<rparr>)
           | Some b \<Rightarrow>
               (if us_RotateWebhookSecret b \<and> us_TriggerKind b \<noteq> [] \<and> us_TriggerKind b \<noteq> ''webhook'' then (badRequest, st\<lparr>ev_db := d\<rparr>)
                else
                  (let s = mergeSuite b existing;
                       generateSecret = (us_RotateWebhookSecret b \<or> es_TriggerKind s = ''webhook'' \<and> es_WebhookSecret s = [])
                   in case applyTrigger A s generateSecret (ev_rand st) of
                        (None, n) \<Rightarrow> (badRequest, st\<lparr> ev_db := d, ev_rand := n \<rparr>)
                      | (Some (plainSecret, s'), n) \<Rightarrow>
                          (case UpdateEvalSuite (eh_sql A) (eh_json A) org (eh_now A (clock d)) s' d of
                             (Inl e, d') \<Rightarrow> (storeError e, st\<lparr> ev_db := d', ev_rand := n \<rparr>)
                           | (Inr updated, d') \<Rightarrow>
                               (EvalJSON 200 (SuiteBody (suiteResponse updated plainSecret)),
                                st\<lparr> ev_db := d', ev_rand := n,
                                    ev_sched := (if es_TriggerKind updated = ''cron'' then snd (Arm (eh_cron A) (es_ID updated) (es_CronExpr updated) (ev_sched st))
                                                 else Disarm (eh_cron A) (es_ID updated) (ev_sched st)) \<rparr>))))))"

definition DeleteSuite :: "('s, 'c) eval_api \<Rightarrow> string \<Rightarrow> string \<Rightarrow> 'c eval_state \<Rightarrow> eval_response \<times> 'c eval_state" where
  "DeleteSuite A org suiteID st =
     (case DeleteEvalSuite (eh_sql A) org suiteID (ev_db st) of
        (Inl e, d) \<Rightarrow> (storeError e, st\<lparr>ev_db := d\<rparr>)
      | (Inr _, d) \<Rightarrow> (EvalJSON 204 NoBody, st\<lparr> ev_db := d, ev_sched := Disarm (eh_cron A) suiteID (ev_sched st) \<rparr>))"

section \<open>Test cases\<close>

text \<open>What \<open>ParseMultipartForm\<close> and \<open>FormFile\<close> find in the request: a file with its name, its text and, for a CSV, its records.\<close>

datatype upload = BadForm | NoFile | Upload string "(unit + string list) list" bool string

definition importCase :: "string \<Rightarrow> import_row \<Rightarrow> test_case" where
  "importCase suiteID row =
     \<lparr> tc_ID = [], tc_SuiteID = suiteID, tc_Name = ir_Name row, tc_Description = ir_Description row, tc_Position = 0,
       tc_InitialData = ir_InitialData row, tc_Mocks = [], tc_Graders = [], tc_CreatedAt = 0, tc_UpdatedAt = 0 \<rparr>"

text \<open>The loop over the parsed rows: a row that the store refuses is reported and the loop goes on.\<close>

fun importRows :: "('s, 'c) eval_api \<Rightarrow> string \<Rightarrow> import_row list \<Rightarrow> nat \<times> import_row_error list \<times> eval_tables db \<Rightarrow> nat \<times> import_row_error list \<times> eval_tables db" where
  "importRows A suiteID [] acc = acc"
| "importRows A suiteID (row # rows) (created, errs, d) =
     (case CreateTestCase (eh_sql A) (eh_json A) (eh_uuid A (clock d)) (eh_now A (clock d)) (importCase suiteID row) d of
        (Inl e, d') \<Rightarrow> importRows A suiteID rows (created, errs @ [\<lparr> ie_Row = ir_RowNum row, ie_Message = StoreError e \<rparr>], d')
      | (Inr _, d') \<Rightarrow> importRows A suiteID rows (Suc created, errs, d'))"

definition parseUpload :: "('s, 'c) eval_api \<Rightarrow> import_format \<Rightarrow> (unit + string list) list \<Rightarrow> bool \<Rightarrow> string \<Rightarrow> import_error + import_row list \<times> import_row_error list" where
  "parseUpload A format records readFails content =
     (case format of FormatCSV \<Rightarrow> parseCSV (eh_iter A) records | FormatJSONL \<Rightarrow> parseJSONL (eh_decodeLine A) readFails content)"

definition ImportTestCases :: "('s, 'c) eval_api \<Rightarrow> string \<Rightarrow> string \<Rightarrow> upload \<Rightarrow> 'c eval_state \<Rightarrow> eval_response \<times> 'c eval_state" where
  "ImportTestCases A org suiteID up st =
     (case GetEvalSuite (eh_sql A) (eh_json A) org suiteID (ev_db st) of
        (Inl e, d) \<Rightarrow> (storeError e, st\<lparr>ev_db := d\<rparr>)
      | (Inr _, d) \<Rightarrow>
          (case up of
             Upload filename records readFails content \<Rightarrow>
               (case detectFormat filename of
                  None \<Rightarrow> (badRequest, st\<lparr>ev_db := d\<rparr>)
                | Some format \<Rightarrow>
                    (case parseUpload A format records readFails content of
                       Inl e \<Rightarrow> (badRequest, st\<lparr>ev_db := d\<rparr>)
                     | Inr (rows, rowErrs) \<Rightarrow>
                         (if length rows + length rowErrs > maxImportRows then (badRequest, st\<lparr>ev_db := d\<rparr>)
                          else case importRows A suiteID rows (0, rowErrs, d) of
                                 (created, errs, d') \<Rightarrow> (EvalJSON 200 (ImportBody created (length errs) errs), st\<lparr>ev_db := d'\<rparr>))))
           | _ \<Rightarrow> (badRequest, st\<lparr>ev_db := d\<rparr>)))"

definition ListCases :: "('s, 'c) eval_api \<Rightarrow> string \<Rightarrow> string \<Rightarrow> 'c eval_state \<Rightarrow> eval_response \<times> 'c eval_state" where
  "ListCases A org suiteID st =
     (case GetEvalSuite (eh_sql A) (eh_json A) org suiteID (ev_db st) of
        (Inl e, d) \<Rightarrow> (storeError e, st\<lparr>ev_db := d\<rparr>)
      | (Inr _, d) \<Rightarrow>
          (case ListTestCases (eh_sql A) (eh_json A) suiteID d of
             (Inl e, d') \<Rightarrow> (internalError, st\<lparr>ev_db := d'\<rparr>)
           | (Inr cases, d') \<Rightarrow> (EvalJSON 200 (CasesBody (map (\<lambda>tc. tc\<lparr>tc_Graders := MaskGraders (tc_Graders tc)\<rparr>) cases)), st\<lparr>ev_db := d'\<rparr>)))"

text \<open>A workflow that does not exist has no nodes.\<close>

definition workflowNodes :: "('s, 'c) eval_api \<Rightarrow> string \<Rightarrow> string \<Rightarrow> vault_error + workflow_node list" where
  "workflowNodes A org workflowID =
     (case eh_GetWorkflow A org workflowID of
        Inl e \<Rightarrow> if e = FromStore ErrNotFound then Inr [] else Inl e
      | Inr w \<Rightarrow> Inr (wf_Nodes w))"

definition CreateCase :: "('s, 'c) eval_api \<Rightarrow> string \<Rightarrow> string \<Rightarrow> test_case option \<Rightarrow> 'c eval_state \<Rightarrow> eval_response \<times> 'c eval_state" where
  "CreateCase A org suiteID reqBody st =
     (case GetEvalSuite (eh_sql A) (eh_json A) org suiteID (ev_db st) of
        (Inl e, d) \<Rightarrow> (storeError e, st\<lparr>ev_db := d\<rparr>)
      | (Inr suite, d) \<Rightarrow>
          (case reqBody of
             None \<Rightarrow> (badRequest, st\<lparr>ev_db := d\<rparr>)
           | Some tc0 \<Rightarrow>
               (if tc_Name tc0 = [] then (badRequest, st\<lparr>ev_db := d\<rparr>)
                else case workflowNodes A org (es_WorkflowID suite) of
                       Inl _ \<Rightarrow> (internalError, st\<lparr>ev_db := d\<rparr>)
                     | Inr wfNodes \<Rightarrow>
                         (let tc = tc0\<lparr>tc_SuiteID := suiteID\<rparr>; errs = validateTestCase (eh_libs A) tc wfNodes
                          in if errs \<noteq> [] then (EvalError 400 ''VALIDATION_FAILED'' errs, st\<lparr>ev_db := d\<rparr>)
                             else case EncryptGraders (eh_cipher A) (tc_Graders tc) (ev_rand st) of
                                    (Inl _, n) \<Rightarrow> (internalError, st\<lparr> ev_db := d, ev_rand := n \<rparr>)
                                  | (Inr encrypted, n) \<Rightarrow>
                                      (case CreateTestCase (eh_sql A) (eh_json A) (eh_uuid A (clock d)) (eh_now A (clock d)) (tc\<lparr>tc_Graders := encrypted\<rparr>) d of
                                         (Inl e, d') \<Rightarrow> (internalError, st\<lparr> ev_db := d', ev_rand := n \<rparr>)
                                       | (Inr created, d') \<Rightarrow>
                                           (EvalJSON 201 (CaseBody (created\<lparr>tc_Graders := MaskGraders (tc_Graders created)\<rparr>)), st\<lparr> ev_db := d', ev_rand := n \<rparr>))))))"

definition GetCase :: "('s, 'c) eval_api \<Rightarrow> string \<Rightarrow> string \<Rightarrow> 'c eval_state \<Rightarrow> eval_response \<times> 'c eval_state" where
  "GetCase A suiteID caseID st =
     (case GetTestCase (eh_sql A) (eh_json A) caseID (ev_db st) of
        (Inl e, d) \<Rightarrow> (storeError e, st\<lparr>ev_db := d\<rparr>)
      | (Inr tc, d) \<Rightarrow>
          (if tc_SuiteID tc \<noteq> suiteID then (storeError ErrNotFound, st\<lparr>ev_db := d\<rparr>)
           else (EvalJSON 200 (CaseBody (tc\<lparr>tc_Graders := MaskGraders (tc_Graders tc)\<rparr>)), st\<lparr>ev_db := d\<rparr>)))"

text \<open>
  The key that \<open>***\<close> stands for, when the stored grader with that id has one; an unknown id is an error. The map of stored graders keeps
  the last one of an id.
\<close>

definition keepKey :: "grader_def list \<Rightarrow> nat \<times> grader_def \<Rightarrow> field_error list \<times> grader_def" where
  "keepKey stored = (\<lambda>(i, g).
     if gd_Type g \<in> set sensitiveGraderTypes \<and> map_of (cfg_entries (gd_Config g)) ''api_key'' = Some (VStr ''***'') then
       (case find (\<lambda>p. gd_ID p = gd_ID g) (rev stored) of
          None \<Rightarrow> ([field_error_at (GradersField i ''config.api_key'') KeyNotStored], g)
        | Some prev \<Rightarrow>
            (case map_of (cfg_entries (gd_Config prev)) ''api_key'' of
               None \<Rightarrow> ([], g)
             | Some prevKey \<Rightarrow> ([], g\<lparr>gd_Config := Some (AList.update ''api_key'' prevKey (cfg_entries (gd_Config g)))\<rparr>)))
     else ([], g))"

definition UpdateCase :: "('s, 'c) eval_api \<Rightarrow> string \<Rightarrow> string \<Rightarrow> string \<Rightarrow> test_case option \<Rightarrow> 'c eval_state \<Rightarrow> eval_response \<times> 'c eval_state" where
  "UpdateCase A org suiteID caseID reqBody st =
     (case GetEvalSuite (eh_sql A) (eh_json A) org suiteID (ev_db st) of
        (Inl e, d) \<Rightarrow> (storeError e, st\<lparr>ev_db := d\<rparr>)
      | (Inr suite, d) \<Rightarrow>
     (case GetTestCase (eh_sql A) (eh_json A) caseID d of
        (Inl e, d1) \<Rightarrow> (storeError e, st\<lparr>ev_db := d1\<rparr>)
      | (Inr existing, d1) \<Rightarrow>
          (if tc_SuiteID existing \<noteq> suiteID then (storeError ErrNotFound, st\<lparr>ev_db := d1\<rparr>)
           else case reqBody of
             None \<Rightarrow> (badRequest, st\<lparr>ev_db := d1\<rparr>)
           | Some incoming0 \<Rightarrow>
               (if tc_Name incoming0 = [] then (badRequest, st\<lparr>ev_db := d1\<rparr>)
                else
                  (let kept = map (keepKey (tc_Graders existing)) (enumerate 0 (tc_Graders incoming0));
                       sentinelErrs = concat (map fst kept);
                       incoming = incoming0\<lparr>tc_Graders := map snd kept\<rparr>
                   in if sentinelErrs \<noteq> [] then (EvalError 400 ''VALIDATION_FAILED'' sentinelErrs, st\<lparr>ev_db := d1\<rparr>)
                      else case workflowNodes A org (es_WorkflowID suite) of
                             Inl _ \<Rightarrow> (internalError, st\<lparr>ev_db := d1\<rparr>)
                           | Inr wfNodes \<Rightarrow>
                               (let errs = validateTestCase (eh_libs A) incoming wfNodes
                                in if errs \<noteq> [] then (EvalError 400 ''VALIDATION_FAILED'' errs, st\<lparr>ev_db := d1\<rparr>)
                                   else case EncryptGraders (eh_cipher A) (tc_Graders incoming) (ev_rand st) of
                                          (Inl _, n) \<Rightarrow> (internalError, st\<lparr> ev_db := d1, ev_rand := n \<rparr>)
                                        | (Inr encrypted, n) \<Rightarrow>
                                            (case UpdateTestCase (eh_sql A) (eh_json A) (eh_now A (clock d1))
                                                    (existing\<lparr> tc_Name := tc_Name incoming, tc_Description := tc_Description incoming,
                                                       tc_InitialData := tc_InitialData incoming, tc_Mocks := tc_Mocks incoming, tc_Graders := encrypted \<rparr>) d1 of
                                               (Inl e, d2) \<Rightarrow> (storeError e, st\<lparr> ev_db := d2, ev_rand := n \<rparr>)
                                             | (Inr updated, d2) \<Rightarrow>
                                                 (EvalJSON 200 (CaseBody (updated\<lparr>tc_Graders := MaskGraders (tc_Graders updated)\<rparr>)),
                                                  st\<lparr> ev_db := d2, ev_rand := n \<rparr>))))))))"

definition DeleteCase :: "('s, 'c) eval_api \<Rightarrow> string \<Rightarrow> string \<Rightarrow> 'c eval_state \<Rightarrow> eval_response \<times> 'c eval_state" where
  "DeleteCase A suiteID caseID st =
     (case GetTestCase (eh_sql A) (eh_json A) caseID (ev_db st) of
        (Inl e, d) \<Rightarrow> (storeError e, st\<lparr>ev_db := d\<rparr>)
      | (Inr tc, d) \<Rightarrow>
          (if tc_SuiteID tc \<noteq> suiteID then (storeError ErrNotFound, st\<lparr>ev_db := d\<rparr>)
           else case DeleteTestCase (eh_sql A) caseID d of
                  (Inl e, d') \<Rightarrow> (storeError e, st\<lparr>ev_db := d'\<rparr>)
                | (Inr _, d') \<Rightarrow> (EvalJSON 204 NoBody, st\<lparr>ev_db := d'\<rparr>)))"

definition ReorderCases :: "('s, 'c) eval_api \<Rightarrow> string \<Rightarrow> string list option \<Rightarrow> 'c eval_state \<Rightarrow> eval_response \<times> 'c eval_state" where
  "ReorderCases A suiteID reqBody st =
     (case reqBody of
        None \<Rightarrow> (badRequest, st)
      | Some caseIDs \<Rightarrow>
          (if caseIDs = [] then (badRequest, st)
           else case ReorderTestCases (eh_sql A) suiteID caseIDs (ev_db st) of
                  (Inl e, d) \<Rightarrow> (storeError e, st\<lparr>ev_db := d\<rparr>)
                | (Inr _, d) \<Rightarrow> (EvalJSON 204 NoBody, st\<lparr>ev_db := d\<rparr>)))"

section \<open>Runs\<close>

text \<open>\<open>Execute\<close> with the identifier and the time drawn now; the goroutine it starts is recorded as a job.\<close>

definition startEvalRun :: "('s, 'c) eval_api \<Rightarrow> string \<Rightarrow> string \<Rightarrow> string \<Rightarrow> 'c eval_state \<Rightarrow> (eval_exec_error + string) \<times> 'c eval_state" where
  "startEvalRun A org suiteID triggeredBy st =
     (case Execute ((eh_ports A)\<lparr> ep_uuid := (\<lambda>_. eh_uuid A (clock (ev_db st))), ep_now := eh_now A (clock (ev_db st)) \<rparr>) org suiteID triggeredBy (ev_db st) of
        (Inl e, d) \<Rightarrow> (Inl e, st\<lparr>ev_db := d\<rparr>)
      | (Inr job, d) \<Rightarrow> (Inr (ej_evalRunID job), st\<lparr> ev_db := d, ev_jobs := ev_jobs st @ [job] \<rparr>))"

text \<open>\<open>errors.Is(err, store.ErrNotFound)\<close>: the wrapped errors of the store.\<close>

fun execNotFound :: "eval_exec_error \<Rightarrow> bool" where
  "execNotFound (ExecGetSuite e) = (e = ErrNotFound)"
| "execNotFound (ExecListCases e) = (e = ErrNotFound)"
| "execNotFound (ExecCreateRun e) = (e = ErrNotFound)"
| "execNotFound _ = False"

definition TriggerRun :: "('s, 'c) eval_api \<Rightarrow> string \<Rightarrow> string \<Rightarrow> 'c eval_state \<Rightarrow> eval_response \<times> 'c eval_state" where
  "TriggerRun A org suiteID st =
     (if \<not> eh_runner A then (EvalError 501 ''NOT_IMPLEMENTED'' [], st)
      else case startEvalRun A org suiteID ''manual'' st of
             (Inl e, st') \<Rightarrow>
               ((if execNotFound e then storeError ErrNotFound
                 else if e = ExecWorkflowDeleted then EvalError 400 ''WORKFLOW_DELETED'' []
                 else internalError), st')
           | (Inr evalRunID, st') \<Rightarrow> (EvalJSON 201 (StartedBody evalRunID), st'))"

definition bearerToken :: "string \<Rightarrow> string option" where
  "bearerToken authHeader =
     (if length authHeader \<le> 7 \<or> ToLower (take 7 authHeader) \<noteq> ''bearer '' then None else Some (drop 7 authHeader))"

text \<open>The public webhook: there is no tenant in its context.\<close>

definition WebhookTrigger :: "('s, 'c) eval_api \<Rightarrow> string \<Rightarrow> string \<Rightarrow> 'c eval_state \<Rightarrow> eval_response \<times> 'c eval_state" where
  "WebhookTrigger A suiteID authHeader st =
     (case GetEvalSuite (eh_sql A) (eh_json A) [] suiteID (ev_db st) of
        (Inl e, d) \<Rightarrow> (storeError e, st\<lparr>ev_db := d\<rparr>)
      | (Inr suite, d) \<Rightarrow>
          (let st1 = st\<lparr>ev_db := d\<rparr>
           in if es_WorkflowDeleted suite then (EvalError 400 ''WORKFLOW_DELETED'' [], st1)
              else if es_TriggerKind suite \<noteq> ''webhook'' then (EvalError 400 ''INVALID_TRIGGER'' [], st1)
              else case bearerToken authHeader of
                     None \<Rightarrow> (EvalError 401 ''UNAUTHORIZED'' [], st1)
                   | Some token \<Rightarrow>
                       (case DecryptValue (eh_cipher A) (es_WebhookSecret suite) of
                          Inl _ \<Rightarrow> (internalError, st1)
                        | Inr plainSecret \<Rightarrow>
                            (if token \<noteq> plainSecret then (EvalError 401 ''UNAUTHORIZED'' [], st1)
                             else if \<not> eh_runner A then (EvalError 501 ''NOT_IMPLEMENTED'' [], st1)
                             else case startEvalRun A [] suiteID ''webhook'' st1 of
                                    (Inl e, st') \<Rightarrow> ((if execNotFound e then storeError ErrNotFound else internalError), st')
                                  | (Inr evalRunID, st') \<Rightarrow> (EvalJSON 202 (StartedBody evalRunID), st')))))"

definition ListRuns_handler :: "('s, 'c) eval_api \<Rightarrow> string \<Rightarrow> string \<Rightarrow> string \<Rightarrow> string \<Rightarrow> string \<Rightarrow> 'c eval_state \<Rightarrow> eval_response \<times> 'c eval_state" where
  "ListRuns_handler A org suiteID statusParam limitParam offsetParam st =
     (case GetEvalSuite (eh_sql A) (eh_json A) org suiteID (ev_db st) of
        (Inl e, d) \<Rightarrow> (storeError e, st\<lparr>ev_db := d\<rparr>)
      | (Inr _, d) \<Rightarrow>
          (let filt = \<lparr> ef_SuiteID = suiteID, ef_Status = statusParam,
                        ef_Limit = (case Atoi limitParam of Some n \<Rightarrow> if n > 0 then n else 50 | None \<Rightarrow> 50),
                        ef_Offset = (case Atoi offsetParam of Some n \<Rightarrow> if n \<ge> 0 then n else 0 | None \<Rightarrow> 0) \<rparr>
           in case ListEvalRuns (eh_sql A) filt d of
                (Inl e, d') \<Rightarrow> (internalError, st\<lparr>ev_db := d'\<rparr>)
              | (Inr runs, d') \<Rightarrow> (EvalJSON 200 (RunsBody runs), st\<lparr>ev_db := d'\<rparr>)))"

definition GetRun_handler :: "('s, 'c) eval_api \<Rightarrow> string \<Rightarrow> 'c eval_state \<Rightarrow> eval_response \<times> 'c eval_state" where
  "GetRun_handler A runID st =
     (case GetEvalRun (eh_sql A) runID (ev_db st) of
        (Inl e, d) \<Rightarrow> (storeError e, st\<lparr>ev_db := d\<rparr>)
      | (Inr r, d) \<Rightarrow>
          (case ListTestCaseResults (eh_sql A) (eh_json A) runID d of
             (Inl e, d') \<Rightarrow> (internalError, st\<lparr>ev_db := d'\<rparr>)
           | (Inr results, d') \<Rightarrow> (EvalJSON 200 (RunBody r results), st\<lparr>ev_db := d'\<rparr>)))"

definition GetTestCaseResult_handler :: "('s, 'c) eval_api \<Rightarrow> string \<Rightarrow> 'c eval_state \<Rightarrow> eval_response \<times> 'c eval_state" where
  "GetTestCaseResult_handler A resultID st =
     (case GetTestCaseResult (eh_sql A) (eh_json A) resultID (ev_db st) of
        (Inl e, d) \<Rightarrow> (storeError e, st\<lparr>ev_db := d\<rparr>)
      | (Inr result, d) \<Rightarrow> (EvalJSON 200 (ResultBody result), st\<lparr>ev_db := d\<rparr>))"

section \<open>Comparing two runs\<close>

fun changeOrder :: "change_type \<Rightarrow> nat" where
  "changeOrder Regressed = 0"
| "changeOrder Improved = 1"
| "changeOrder NewCase = 2"
| "changeOrder MissingCase = 3"
| "changeOrder Unchanged = 4"

definition byCase :: "test_case_result list \<Rightarrow> (string \<times> test_case_result) list" where
  "byCase results = fold (\<lambda>res m. AList.update (tr_TestCaseID res) res m) results []"

definition compareCase :: "(string \<times> test_case_result) list \<Rightarrow> (string \<times> test_case_result) list \<Rightarrow> string \<Rightarrow> test_case_comparison" where
  "compareCase headByCase baseByCase i =
     (case (map_of headByCase i, map_of baseByCase i) of
        (Some head, Some base) \<Rightarrow>
          \<lparr> cmp_TestCaseID = i, cmp_TestCaseName = tr_TestCaseName head,
            cmp_ChangeType = (if \<not> tr_Passed head \<and> tr_Passed base then Regressed else if tr_Passed head \<and> \<not> tr_Passed base then Improved else Unchanged),
            cmp_HeadPassed = Some (tr_Passed head), cmp_BaselinePassed = Some (tr_Passed base), cmp_HeadResultID = tr_ID head, cmp_BaselineResultID = tr_ID base \<rparr>
      | (Some head, None) \<Rightarrow>
          \<lparr> cmp_TestCaseID = i, cmp_TestCaseName = tr_TestCaseName head, cmp_ChangeType = NewCase,
            cmp_HeadPassed = Some (tr_Passed head), cmp_BaselinePassed = None, cmp_HeadResultID = tr_ID head, cmp_BaselineResultID = [] \<rparr>
      | (None, base) \<Rightarrow>
          (let name = (case base of None \<Rightarrow> [] | Some b \<Rightarrow> tr_TestCaseName b); passed = (case base of None \<Rightarrow> False | Some b \<Rightarrow> tr_Passed b);
               rid = (case base of None \<Rightarrow> [] | Some b \<Rightarrow> tr_ID b)
           in \<lparr> cmp_TestCaseID = i, cmp_TestCaseName = name, cmp_ChangeType = MissingCase,
                cmp_HeadPassed = None, cmp_BaselinePassed = Some passed, cmp_HeadResultID = [], cmp_BaselineResultID = rid \<rparr>))"

definition countCase :: "test_case_comparison \<Rightarrow> compare_response \<Rightarrow> compare_response" where
  "countCase cmp resp =
     (let resp' = (case cmp_ChangeType cmp of
                     Regressed \<Rightarrow> resp\<lparr>cr_RegressedCount := Suc (cr_RegressedCount resp)\<rparr>
                   | Improved \<Rightarrow> resp\<lparr>cr_ImprovedCount := Suc (cr_ImprovedCount resp)\<rparr>
                   | Unchanged \<Rightarrow> resp\<lparr>cr_UnchangedCount := Suc (cr_UnchangedCount resp)\<rparr>
                   | NewCase \<Rightarrow> resp\<lparr>cr_NewCaseCount := Suc (cr_NewCaseCount resp)\<rparr>
                   | MissingCase \<Rightarrow> resp\<lparr>cr_MissingCount := Suc (cr_MissingCount resp)\<rparr>)
      in resp'\<lparr>cr_Cases := cr_Cases resp' @ [cmp]\<rparr>)"

definition sortCases :: "test_case_comparison list \<Rightarrow> test_case_comparison list" where
  "sortCases cs = sort_key (\<lambda>c. changeOrder (cmp_ChangeType c)) (sort_key cmp_TestCaseName (sort_key cmp_TestCaseID cs))"

text \<open>\<open>iter\<close> is the order in which the runtime ranges over \<open>allIDs\<close>.\<close>

definition compareResults :: "(string list \<Rightarrow> string list) \<Rightarrow> string \<Rightarrow> string \<Rightarrow> string \<Rightarrow> test_case_result list \<Rightarrow> test_case_result list \<Rightarrow> compare_response" where
  "compareResults iter headRunID baselineRunID suiteID headResults baselineResults =
     (let headByCase = byCase headResults; baseByCase = byCase baselineResults;
          allIDs = remdups (map fst headByCase @ map fst baseByCase);
          resp = fold (\<lambda>i. countCase (compareCase headByCase baseByCase i)) (iter allIDs)
            \<lparr> cr_HeadRunID = headRunID, cr_BaselineRunID = baselineRunID, cr_SuiteID = suiteID, cr_RegressedCount = 0, cr_ImprovedCount = 0,
              cr_UnchangedCount = 0, cr_NewCaseCount = 0, cr_MissingCount = 0, cr_Cases = [] \<rparr>
      in resp\<lparr>cr_Cases := sortCases (cr_Cases resp)\<rparr>)"

definition CompareRuns :: "('s, 'c) eval_api \<Rightarrow> (string list \<Rightarrow> string list) \<Rightarrow> string \<Rightarrow> string \<Rightarrow> 'c eval_state \<Rightarrow> eval_response \<times> 'c eval_state" where
  "CompareRuns A iter headRunID baselineRunID st =
     (if baselineRunID = [] \<or> headRunID = baselineRunID then (badRequest, st)
      else case GetEvalRun (eh_sql A) headRunID (ev_db st) of
        (Inl e, d) \<Rightarrow> (storeError e, st\<lparr>ev_db := d\<rparr>)
      | (Inr headRun, d) \<Rightarrow>
     (case GetEvalRun (eh_sql A) baselineRunID d of
        (Inl e, d1) \<Rightarrow> (storeError e, st\<lparr>ev_db := d1\<rparr>)
      | (Inr baselineRun, d1) \<Rightarrow>
          (if er_SuiteID headRun \<noteq> er_SuiteID baselineRun \<or> er_Status headRun \<noteq> EvalRunCompleted \<or> er_Status baselineRun \<noteq> EvalRunCompleted
           then (badRequest, st\<lparr>ev_db := d1\<rparr>)
           else case ListTestCaseResults (eh_sql A) (eh_json A) headRunID d1 of
             (Inl e, d2) \<Rightarrow> (internalError, st\<lparr>ev_db := d2\<rparr>)
           | (Inr headResults, d2) \<Rightarrow>
          (case ListTestCaseResults (eh_sql A) (eh_json A) baselineRunID d2 of
             (Inl e, d3) \<Rightarrow> (internalError, st\<lparr>ev_db := d3\<rparr>)
           | (Inr baselineResults, d3) \<Rightarrow>
               (EvalJSON 200 (CompareBody (compareResults iter headRunID baselineRunID (er_SuiteID headRun) headResults baselineResults)), st\<lparr>ev_db := d3\<rparr>)))))"

end
