(* ===== verification/Eval_Handler_Props.thy ===== *)
theory Eval_Handler_Props
  imports Eval_Handler Handler_Props Engine_Props
begin

text \<open>
  What the evaluation endpoints guarantee: the comparison of two runs, the accounting of an import, the webhook
  secret and the separation of tenants.
\<close>

section \<open>Stable sorting by several keys\<close>

lemma insort_lex:
  assumes "sorted_wrt (\<lambda>a b. f a < f b \<or> f a = f b \<and> R a b) xs" "\<And>y. y \<in> set xs \<Longrightarrow> R x y"
  shows "sorted_wrt (\<lambda>a b. f a < f b \<or> f a = (f b :: 'k :: linorder) \<and> R a b) (insort_key f x xs)"
  using assms
proof (induction xs)
  case (Cons y ys)
  show ?case
  proof (cases "f x \<le> f y")
    case True
    have "f x < f z \<or> f x = f z \<and> R x z" if "z \<in> set (y # ys)" for z
      using that Cons.prems True by (cases "z = y") (auto dest: order.strict_trans2 order.strict_trans1 intro: le_neq_trans)
    with True Cons.prems(1) show ?thesis by simp
  next
    case False
    with Cons show ?thesis by (auto simp: set_insort_key)
  qed
qed simp

lemma sort_key_lex:
  "sorted_wrt R xs \<Longrightarrow> sorted_wrt (\<lambda>a b. f a < f b \<or> f a = (f b :: 'k :: linorder) \<and> R a b) (sort_key f xs)"
proof (induction xs)
  case (Cons x xs)
  have "sort_key f (x # xs) = insort_key f x (sort_key f xs)" by (simp add: sort_key_def)
  moreover have "sorted_wrt (\<lambda>a b. f a < f b \<or> f a = f b \<and> R a b) (insort_key f x (sort_key f xs))"
    by (rule insort_lex) (use Cons in auto)
  ultimately show ?case by simp
qed simp

lemma sort_key_perm:
  assumes "mset xs = mset ys" "distinct (map f xs)"
  shows "sort_key f xs = sort_key (f :: _ \<Rightarrow> 'k :: linorder) ys"
proof (rule properties_for_sort_key)
  show "mset (sort_key f ys) = mset xs" using assms(1) by simp
  have d: "distinct (map f (sort_key f ys))" using assms by (metis distinct_map distinct_sort mset_eq_imp_distinct_iff mset_map mset_sort)
  show "filter (\<lambda>x. f k = f x) (sort_key f ys) = filter (\<lambda>x. f k = f x) xs" if "k \<in> set (sort_key f ys)" for k
  proof -
    have one: "filter (\<lambda>x. f k = f x) zs = [k]" if "distinct (map f zs)" "k \<in> set zs" for zs
      using that by (induction zs) (auto simp: filter_empty_conv image_iff)
    have "k \<in> set xs" using that assms(1) by (metis mset_eq_setD set_sort)
    then show ?thesis using one[OF d that] one[OF assms(2)] by simp
  qed
qed simp

section \<open>Comparing two runs\<close>

text \<open>The result that counts for a test case: the last one.\<close>

definition resultOf :: "test_case_result list \<Rightarrow> string \<Rightarrow> test_case_result option" where
  "resultOf results i = find (\<lambda>r. tr_TestCaseID r = i) (rev results)"

fun changeOf :: "bool option \<Rightarrow> bool option \<Rightarrow> change_type" where
  "changeOf (Some False) (Some True) = Regressed"
| "changeOf (Some True) (Some False) = Improved"
| "changeOf (Some h) (Some b) = Unchanged"
| "changeOf (Some h) None = NewCase"
| "changeOf None b = MissingCase"

definition precedes :: "test_case_comparison \<Rightarrow> test_case_comparison \<Rightarrow> bool" where
  "precedes a b \<longleftrightarrow> changeOrder (cmp_ChangeType a) < changeOrder (cmp_ChangeType b) \<or>
     cmp_ChangeType a = cmp_ChangeType b \<and> (cmp_TestCaseName a < cmp_TestCaseName b \<or> cmp_TestCaseName a = cmp_TestCaseName b \<and> cmp_TestCaseID a < cmp_TestCaseID b)"

lemma byCase_map_of: "map_of (byCase results) i = resultOf results i"
proof -
  have "map_of (fold (\<lambda>res m. AList.update (tr_TestCaseID res) res m) results m) i = (case resultOf results i of None \<Rightarrow> map_of m i | Some r \<Rightarrow> Some r)" for m
    by (induction results arbitrary: m) (auto simp: resultOf_def find_append split: option.split)
  then show ?thesis by (simp add: byCase_def split: option.split)
qed

lemma byCase_keys: "set (map fst (byCase results)) = tr_TestCaseID ` set results"
proof -
  have "i \<in> fst ` set (byCase results) \<longleftrightarrow> resultOf results i \<noteq> None" for i
    using map_of_None_iff[of "byCase results" i] by (simp add: byCase_map_of)
  moreover have "resultOf results i \<noteq> None \<longleftrightarrow> i \<in> tr_TestCaseID ` set results" for i
    by (auto simp: resultOf_def find_None_iff)
  ultimately show ?thesis unfolding set_map by blast
qed

lemma changeOrder_inj: "changeOrder a = changeOrder b \<longleftrightarrow> a = b"
  by (cases a; cases b) auto

lemma sortCases_sorted: "distinct (map cmp_TestCaseID cs) \<Longrightarrow> sorted_wrt precedes (sortCases cs)"
proof -
  assume "distinct (map cmp_TestCaseID cs)"
  then have "distinct (map cmp_TestCaseID (sort_key cmp_TestCaseID cs))" by (metis distinct_map distinct_sort set_sort)
  then have "sorted_wrt (\<lambda>a b. cmp_TestCaseID a < cmp_TestCaseID b) (sort_key cmp_TestCaseID cs)"
    using sorted_sort_key[of cmp_TestCaseID cs] by (simp add: strict_sorted_iff flip: sorted_wrt_map)
  from sort_key_lex[OF sort_key_lex[OF this, of cmp_TestCaseName], of "\<lambda>c. changeOrder (cmp_ChangeType c)"]
  show ?thesis unfolding sortCases_def precedes_def changeOrder_inj .
qed

lemma sortCases_perm: "mset xs = mset ys \<Longrightarrow> distinct (map cmp_TestCaseID xs) \<Longrightarrow> sortCases xs = sortCases ys"
  unfolding sortCases_def using sort_key_perm[of xs ys cmp_TestCaseID] by simp

lemma fold_countCase:
  "fold (\<lambda>i. countCase (f i)) is r = r\<lparr>
     cr_RegressedCount := cr_RegressedCount r + length (filter (\<lambda>c. cmp_ChangeType c = Regressed) (map f is)),
     cr_ImprovedCount := cr_ImprovedCount r + length (filter (\<lambda>c. cmp_ChangeType c = Improved) (map f is)),
     cr_UnchangedCount := cr_UnchangedCount r + length (filter (\<lambda>c. cmp_ChangeType c = Unchanged) (map f is)),
     cr_NewCaseCount := cr_NewCaseCount r + length (filter (\<lambda>c. cmp_ChangeType c = NewCase) (map f is)),
     cr_MissingCount := cr_MissingCount r + length (filter (\<lambda>c. cmp_ChangeType c = MissingCase) (map f is)),
     cr_Cases := cr_Cases r @ map f is \<rparr>"
  by (induction "is" arbitrary: r) (auto simp: countCase_def Let_def split: change_type.split)

definition compareCount :: "compare_response \<Rightarrow> change_type \<Rightarrow> nat" where
  "compareCount r t = (case t of Regressed \<Rightarrow> cr_RegressedCount r | Improved \<Rightarrow> cr_ImprovedCount r | Unchanged \<Rightarrow> cr_UnchangedCount r
     | NewCase \<Rightarrow> cr_NewCaseCount r | MissingCase \<Rightarrow> cr_MissingCount r)"

lemma compareCase_spec:
  "cmp_TestCaseID (compareCase (byCase hs) (byCase bs) i) = i"
  "resultOf hs i \<noteq> None \<or> resultOf bs i \<noteq> None \<Longrightarrow>
    cmp_HeadPassed (compareCase (byCase hs) (byCase bs) i) = map_option tr_Passed (resultOf hs i) \<and>
    cmp_BaselinePassed (compareCase (byCase hs) (byCase bs) i) = map_option tr_Passed (resultOf bs i) \<and>
    cmp_ChangeType (compareCase (byCase hs) (byCase bs) i) = changeOf (map_option tr_Passed (resultOf hs i)) (map_option tr_Passed (resultOf bs i))"
  by (cases "resultOf hs i"; cases "resultOf bs i"; auto simp: compareCase_def byCase_map_of Let_def;
      (case_tac "tr_Passed a"; case_tac "tr_Passed aa"; simp)?)+

text \<open>The comparison of two lists of results, whatever order the runtime ranges in.\<close>

definition comparison :: "test_case_result list \<Rightarrow> test_case_result list \<Rightarrow> compare_response \<Rightarrow> bool" where
  "comparison hs bs r \<longleftrightarrow>
     cmp_TestCaseID ` set (cr_Cases r) = tr_TestCaseID ` set (hs @ bs) \<and> sorted_wrt precedes (cr_Cases r) \<and>
     (\<forall>c \<in> set (cr_Cases r).
        cmp_HeadPassed c = map_option tr_Passed (resultOf hs (cmp_TestCaseID c)) \<and>
        cmp_BaselinePassed c = map_option tr_Passed (resultOf bs (cmp_TestCaseID c)) \<and>
        cmp_ChangeType c = changeOf (cmp_HeadPassed c) (cmp_BaselinePassed c)) \<and>
     (\<forall>t. compareCount r t = length (filter (\<lambda>c. cmp_ChangeType c = t) (cr_Cases r)))"

lemma compareResults_correct:
  assumes "\<forall>xs. mset (iter xs) = mset xs"
  shows "comparison hs bs (compareResults iter h b s hs bs)" "compareResults iter h b s hs bs = compareResults id h b s hs bs"
    "distinct (map cmp_TestCaseID (cr_Cases (compareResults iter h b s hs bs)))"
proof -
  let ?ids = "remdups (map fst (byCase hs) @ map fst (byCase bs))" let ?f = "compareCase (byCase hs) (byCase bs)"
  have ids: "distinct (iter ?ids)" "set (iter ?ids) = tr_TestCaseID ` set (hs @ bs)"
    using mset_eq_imp_distinct_iff[OF assms[rule_format, of ?ids]] mset_eq_setD[OF assms[rule_format, of ?ids]] byCase_keys[of hs] byCase_keys[of bs]
    by auto
  have self: "map cmp_TestCaseID (map ?f xs) = xs" for xs by (simp add: compareCase_spec(1) o_def)
  have perm: "mset (map ?f (iter ?ids)) = mset (map ?f ?ids)" using assms by simp
  have r: "compareResults iter h b s hs bs = \<lparr> cr_HeadRunID = h, cr_BaselineRunID = b, cr_SuiteID = s,
      cr_RegressedCount = length (filter (\<lambda>c. cmp_ChangeType c = Regressed) (map ?f (iter ?ids))), cr_ImprovedCount = length (filter (\<lambda>c. cmp_ChangeType c = Improved) (map ?f (iter ?ids))),
      cr_UnchangedCount = length (filter (\<lambda>c. cmp_ChangeType c = Unchanged) (map ?f (iter ?ids))), cr_NewCaseCount = length (filter (\<lambda>c. cmp_ChangeType c = NewCase) (map ?f (iter ?ids))),
      cr_MissingCount = length (filter (\<lambda>c. cmp_ChangeType c = MissingCase) (map ?f (iter ?ids))), cr_Cases = sortCases (map ?f (iter ?ids)) \<rparr>" for iter
    unfolding compareResults_def Let_def fold_countCase by simp
  have sorted_set: "mset (sortCases cs) = mset cs" for cs by (simp add: sortCases_def)
  have len: "length (filter P (map ?f (iter ?ids))) = length (filter P (sortCases (map ?f (iter ?ids))))" for P
    using arg_cong[OF sorted_set[of "map ?f (iter ?ids)"], of "\<lambda>m. size (filter_mset P m)"] by (metis mset_filter size_mset)
  have mem: "set (sortCases (map ?f (iter ?ids))) = ?f ` set (iter ?ids)" using mset_eq_setD[OF sorted_set] by (metis set_map)
  have dist: "distinct (map cmp_TestCaseID (map ?f (iter ?ids)))" unfolding self by (rule ids(1))
  show "distinct (map cmp_TestCaseID (cr_Cases (compareResults iter h b s hs bs)))"
    using dist sorted_set[of "map ?f (iter ?ids)"] by (simp add: r) (metis dist mset_eq_imp_distinct_iff mset_map)
  have "sortCases (map ?f (iter ?ids)) = sortCases (map ?f ?ids)" by (rule sortCases_perm[OF perm dist])
  moreover have "length (filter P (map ?f (iter ?ids))) = length (filter P (map ?f ?ids))" for P
    using arg_cong[OF perm, of "\<lambda>m. size (filter_mset P m)"] by (metis mset_filter size_mset)
  ultimately show "compareResults iter h b s hs bs = compareResults id h b s hs bs" unfolding r by simp
  have "resultOf hs i \<noteq> None \<or> resultOf bs i \<noteq> None" if "i \<in> set (iter ?ids)" for i
    using that unfolding ids(2) by (auto simp: resultOf_def find_None_iff)
  then have spec: "\<forall>c \<in> set (cr_Cases (compareResults iter h b s hs bs)).
        cmp_HeadPassed c = map_option tr_Passed (resultOf hs (cmp_TestCaseID c)) \<and>
        cmp_BaselinePassed c = map_option tr_Passed (resultOf bs (cmp_TestCaseID c)) \<and>
        cmp_ChangeType c = changeOf (cmp_HeadPassed c) (cmp_BaselinePassed c)"
    using mem by (auto simp: r compareCase_spec)
  have "cmp_TestCaseID ` set (cr_Cases (compareResults iter h b s hs bs)) = tr_TestCaseID ` set (hs @ bs)"
    using mem ids(2) by (simp add: r image_image compareCase_spec(1))
  moreover have "sorted_wrt precedes (cr_Cases (compareResults iter h b s hs bs))" using sortCases_sorted[OF dist] by (simp add: r)
  moreover have "compareCount (compareResults iter h b s hs bs) t = length (filter (\<lambda>c. cmp_ChangeType c = t) (cr_Cases (compareResults iter h b s hs bs)))" for t
    using len by (cases t) (simp_all add: r compareCount_def)
  ultimately show "comparison hs bs (compareResults iter h b s hs bs)" using spec unfolding comparison_def by blast
qed

lemma query_InrD: "query q f d = (Inr a, d') \<Longrightarrow> f (tables d) = Inr a" "query q f d = (x, d') \<Longrightarrow> tables d' = tables d"
  by (auto simp: query_def split: if_splits)

text \<open>
  Comparing two eval runs. When the endpoint answers 200, both runs are stored, completed and of the same suite, and the
  answer compares the stored results: it has one entry for each test case that either run has a result for, with the pass flags of both
  runs (of the last result, if a case has several), the change between them, the entries in order (regressions first, then improvements, new
  and missing cases, and unchanged ones; within a kind by name, then by id), and the five counters are the numbers of entries of each
  kind. The order in which the runtime ranges over its map has no influence.
\<close>

theorem compare_runs:
  assumes "CompareRuns A iter h b st = (EvalJSON 200 (CompareBody r), st')" "\<forall>xs. mset (iter xs) = mset xs"
  shows "\<exists>headRun baseRun hs bs.
      headRun \<in> set (t_eval_runs (tables (ev_db st))) \<and> sql_eq (eh_sql A) (er_ID headRun) h \<and> er_Status headRun = EvalRunCompleted \<and>
      baseRun \<in> set (t_eval_runs (tables (ev_db st))) \<and> sql_eq (eh_sql A) (er_ID baseRun) b \<and> er_Status baseRun = EvalRunCompleted \<and>
      er_SuiteID headRun = cr_SuiteID r \<and> er_SuiteID baseRun = cr_SuiteID r \<and>
      readRows (rowToTestCaseResult (eh_sql A) (eh_json A))
        (sort_key dx_CreatedAt (filter (\<lambda>x. sql_eq (eh_sql A) (dx_EvalRunID x) h) (t_results (tables (ev_db st))))) = Inr hs \<and>
      readRows (rowToTestCaseResult (eh_sql A) (eh_json A))
        (sort_key dx_CreatedAt (filter (\<lambda>x. sql_eq (eh_sql A) (dx_EvalRunID x) b) (t_results (tables (ev_db st))))) = Inr bs \<and>
      comparison hs bs r \<and> distinct (map cmp_TestCaseID (cr_Cases r)) \<and> r = compareResults id h b (cr_SuiteID r) hs bs"
proof -
  let ?q = "eh_sql A" let ?J = "eh_json A"
  obtain headRun d baseRun d1 hs d2 bs d3 where g: "GetEvalRun ?q h (ev_db st) = (Inr headRun, d)" "GetEvalRun ?q b d = (Inr baseRun, d1)"
    "er_SuiteID headRun = er_SuiteID baseRun" "er_Status headRun = EvalRunCompleted" "er_Status baseRun = EvalRunCompleted"
    "ListTestCaseResults ?q ?J h d1 = (Inr hs, d2)" "ListTestCaseResults ?q ?J b d2 = (Inr bs, d3)" "r = compareResults iter h b (er_SuiteID headRun) hs bs"
    using assms(1) by (auto simp: CompareRuns_def storeError_def split: if_splits prod.splits sum.splits)
  note reads = g(1,2)[unfolded GetEvalRun_def] g(6,7)[unfolded ListTestCaseResults_def]
  have t: "tables d = tables (ev_db st)" "tables d1 = tables (ev_db st)" "tables d2 = tables (ev_db st)"
    using query_InrD(2)[OF reads(1)] query_InrD(2)[OF reads(2)] query_InrD(2)[OF reads(3)] by simp_all
  from query_InrD(1)[OF reads(1)] query_InrD(1)[OF reads(2)] t
  have runs: "headRun \<in> set (t_eval_runs (tables (ev_db st)))" "sql_eq ?q (er_ID headRun) h" "baseRun \<in> set (t_eval_runs (tables (ev_db st)))" "sql_eq ?q (er_ID baseRun) b"
    by (auto simp: find_Some_iff split: option.splits)
  have suite: "cr_SuiteID r = er_SuiteID headRun" unfolding g(8) compareResults_def Let_def fold_countCase by simp
  note c = compareResults_correct[OF assms(2), where hs = hs and bs = bs and h = h and b = b and s = "er_SuiteID headRun"]
  from runs g(3-5,8) suite c query_InrD(1)[OF reads(3)] query_InrD(1)[OF reads(4)] t show ?thesis
    by (intro exI[of _ headRun] exI[of _ baseRun] exI[of _ hs] exI[of _ bs]) simp
qed

section \<open>Importing test cases\<close>

definition dataRows :: "('s, 'c) eval_api \<Rightarrow> upload \<Rightarrow> nat" where
  "dataRows A up =
     (case up of
        Upload filename records readFails content \<Rightarrow>
          (if detectFormat filename = Some FormatCSV then length records - 1
           else length (filter (\<lambda>line. TrimSpace line \<noteq> []) (scanLines [] content)))
      | _ \<Rightarrow> 0)"

lemma parseUpload_rows:
  assumes "detectFormat filename = Some format" "parseUpload A format records readFails content = Inr (rows, errs)"
  shows "length rows + length errs = dataRows A (Upload filename records readFails content)" "\<forall>r \<in> set rows. ir_Name r \<noteq> []"
proof -
  have names: "\<forall>r \<in> set rows. ir_Name r \<noteq> []" if "partitionRows (map g xs) = (rows, errs)" "\<And>x r. g x = Inr r \<Longrightarrow> ir_Name r \<noteq> []" for g xs
  proof
    fix r
    assume "r \<in> set rows"
    with partitionRows_split[OF that(1)] obtain x where "g x = Inr r" by (auto simp: isl_def)
    with that(2) show "ir_Name r \<noteq> []" .
  qed
  have csv: "ir_Name r \<noteq> []" if "csvRow iter cc n k x = Inr r" for iter cc n k x r
    using that by (auto simp: csvRow_def Let_def split: sum.splits if_splits)
  have jsonl: "ir_Name r \<noteq> []" if "jsonRow dec k x = Inr r" for dec k x r
    using that by (auto simp: jsonRow_def split: option.splits if_splits)
  show "length rows + length errs = dataRows A (Upload filename records readFails content)"
    using assms
    by (cases format) (auto simp: parseUpload_def parseCSV_def parseJSONL_def dataRows_def Let_def filter_map o_def dest!: partitionRows_split
        split: list.splits sum.splits option.splits if_splits)
  show "\<forall>r \<in> set rows. ir_Name r \<noteq> []"
  proof (cases format)
    case FormatCSV
    with assms(2) obtain header recs n where "partitionRows (map (\<lambda>(k, r). csvRow (eh_iter A) (readHeader header) n k (checkFields (length header) r)) (enumerate 2 recs)) = (rows, errs)"
      by (auto simp: parseUpload_def parseCSV_def Let_def split: list.splits sum.splits option.splits)
    then show ?thesis by (rule names) (auto dest: csv)
  next
    case FormatJSONL
    with assms(2) obtain ls where "partitionRows (map (\<lambda>(k, l). jsonRow (eh_decodeLine A) k l) (enumerate 1 ls)) = (rows, errs)"
      by (auto simp: parseUpload_def parseJSONL_def Let_def split: if_splits)
    then show ?thesis by (rule names) (auto dest: jsonl)
  qed
qed

text \<open>No statement is applied and then reported as failed.\<close>

definition no_lost_reply :: "sql \<Rightarrow> bool" where
  "no_lost_reply q \<longleftrightarrow> (\<forall>n. sql_outcome q n \<noteq> DoneUnreported)"

definition imported :: "string \<Rightarrow> import_row \<Rightarrow> db_test_case \<Rightarrow> bool" where
  "imported suiteID row c \<longleftrightarrow> dt_SuiteID c = suiteID \<and> dt_Name c = ir_Name row \<and> dt_Description c = ir_Description row"

lemma CreateTestCase_rows:
  assumes "no_lost_reply q" "CreateTestCase q J uuid now (importCase suiteID row) d = (x, d')"
  shows "case x of Inl _ \<Rightarrow> tables d' = tables d | Inr _ \<Rightarrow> \<exists>c. tables d' = (tables d)\<lparr>t_cases := t_cases (tables d) @ [c]\<rparr> \<and> imported suiteID row c"
proof (cases x)
  case (Inl e)
  with assms show ?thesis
    by (auto simp: CreateTestCase_def Let_def fail_def no_lost_reply_def dest: transaction_atomic split: option.splits)
next
  case (Inr tc)
  have pos: "tables d2 = tables d1" if "nextPosition q t d1 = (Inr p, d2)" for t d1 p d2
    using that by (auto simp: nextPosition_def query_def split: if_splits prod.splits sum.splits list.splits)
  from assms(2)[unfolded Inr CreateTestCase_def Let_def] obtain blobs p u d1 d2 where
    "nextPosition q ((importCase suiteID row)\<lparr>tc_ID := uuid, tc_CreatedAt := now, tc_UpdatedAt := now\<rparr>) (tick d) = (Inr p, d1)"
    "exec q (insertCase q ((importCase suiteID row)\<lparr>tc_ID := uuid, tc_CreatedAt := now, tc_UpdatedAt := now, tc_Position := p\<rparr>) blobs) d1 = (Inr u, d2)"
    "tables d2 = tables d'"
    by (auto simp: fail_def give_def importCase_def elim!: transaction_InrE andThen_InrE split: option.splits)
  note e = exec_Inr[OF this(2)] pos[OF this(1)] this(3)
  obtain b1 b2 b3 where "blobs = (b1, b2, b3)" by (cases blobs)
  with e have "tables d' = (tables d)\<lparr>t_cases := t_cases (tables d) @ [\<lparr> dt_ID = uuid, dt_SuiteID = suiteID, dt_Name = ir_Name row, dt_Description = ir_Description row,
      dt_Position = p, dt_InitialData = b1, dt_Mocks = b2, dt_Graders = b3, dt_CreatedAt = now, dt_UpdatedAt = now \<rparr>]\<rparr>"
    by (simp add: insertCase_def importCase_def split: if_splits)
  then show ?thesis by (auto simp: Inr imported_def)
qed

lemma importRows_spec:
  assumes "no_lost_reply (eh_sql A)" "importRows A suiteID rows (n, errs, d) = (created, errs', d')"
  shows "created + length errs' = n + length errs + length rows \<and>
    (\<exists>done new. subseq done rows \<and> list_all2 (imported suiteID) done new \<and> created = n + length new \<and> tables d' = (tables d)\<lparr>t_cases := t_cases (tables d) @ new\<rparr>)"
  using assms(2)
proof (induction rows arbitrary: n errs d)
  case Nil
  then show ?case by (auto intro: exI[of _ "[]"])
next
  case (Cons row rows)
  obtain x d1 where c: "CreateTestCase (eh_sql A) (eh_json A) (eh_uuid A (clock d)) (eh_now A (clock d)) (importCase suiteID row) d = (x, d1)" by fastforce
  note step = CreateTestCase_rows[OF assms(1) c]
  show ?case
  proof (cases x)
    case (Inl e)
    with Cons.prems c have "importRows A suiteID rows (n, errs @ [\<lparr> ie_Row = ir_RowNum row, ie_Message = StoreError e \<rparr>], d1) = (created, errs', d')" by simp
    from Cons.IH[OF this] step Inl show ?thesis by (auto intro: subseq_Cons')
  next
    case (Inr tc)
    with Cons.prems c have "importRows A suiteID rows (Suc n, errs, d1) = (created, errs', d')" by simp
    from Cons.IH[OF this] obtain "done" new where d: "created + length errs' = Suc n + length errs + length rows" "subseq done rows" "list_all2 (imported suiteID) done new"
      "created = Suc n + length new" "tables d' = (tables d1)\<lparr>t_cases := t_cases (tables d1) @ new\<rparr>" by blast
    from step Inr obtain c where "tables d1 = (tables d)\<lparr>t_cases := t_cases (tables d) @ [c]\<rparr>" "imported suiteID row c" by auto
    with d show ?thesis by (intro conjI exI[of _ "row # done"] exI[of _ "c # new"]) simp_all
  qed
qed

text \<open>
  An import accounts for every row. When the import endpoint answers 200, every data row of the upload (CSV records after the header, non-blank JSON
  lines) is either created or reported: the two counters add up to the number of data rows, the second is the
  number of errors listed. The test case table has grown by exactly the cases counted as created, each of them in the suite of the request with
  the name and description of its row, in the order of the rows, and the name is not empty; nothing else has changed.
\<close>

theorem import_accounts_for_every_row:
  assumes "no_lost_reply (eh_sql A)" "ImportTestCases A org suiteID up st = (EvalJSON 200 (ImportBody created refused errs), st')"
  shows "created + refused = dataRows A up \<and> refused = length errs \<and> created + refused \<le> maxImportRows \<and>
    (\<exists>filename format records readFails content rows rowErrs done new.
       up = Upload filename records readFails content \<and> detectFormat filename = Some format \<and> parseUpload A format records readFails content = Inr (rows, rowErrs) \<and>
       subseq done rows \<and> list_all2 (imported suiteID) done new \<and> length new = created \<and> (\<forall>r \<in> set done. ir_Name r \<noteq> []) \<and>
       tables (ev_db st') = (tables (ev_db st))\<lparr>t_cases := t_cases (tables (ev_db st)) @ new\<rparr>)"
proof -
  obtain suite d filename records readFails content format rows rowErrs d' where i:
    "GetEvalSuite (eh_sql A) (eh_json A) org suiteID (ev_db st) = (Inr suite, d)" "up = Upload filename records readFails content" "detectFormat filename = Some format"
    "parseUpload A format records readFails content = Inr (rows, rowErrs)" "length rows + length rowErrs \<le> maxImportRows"
    "importRows A suiteID rows (0, rowErrs, d) = (created, errs, d')" "refused = length errs" "ev_db st' = d'"
    using assms(2) by (auto simp: ImportTestCases_def storeError_def split: if_splits prod.splits sum.splits option.splits upload.splits)
  have t: "tables d = tables (ev_db st)"
    using i(1) by (auto simp: GetEvalSuite_def andThen_def query_def split: if_splits prod.splits sum.splits option.splits)
  note p = parseUpload_rows[OF i(3,4)]
  from importRows_spec[OF assms(1) i(6)] t i(8) obtain "done" new where n: "created + length errs = length rowErrs + length rows" "subseq done rows" "list_all2 (imported suiteID) done new"
    "created = length new" "tables (ev_db st') = (tables (ev_db st))\<lparr>t_cases := t_cases (tables (ev_db st)) @ new\<rparr>" by auto
  have "\<forall>r \<in> set done. ir_Name r \<noteq> []" using p(2) n(2) by (auto dest: list_emb_set)
  with n i p(1) show ?thesis
    by (intro conjI exI[of _ filename] exI[of _ format] exI[of _ records] exI[of _ readFails] exI[of _ content] exI[of _ rows] exI[of _ rowErrs] exI[of _ "done"] exI[of _ new]) simp_all
qed

section \<open>The webhook secret\<close>

lemma hexDigits_chars: "b < 256 \<Longrightarrow> set (hexDigits b) \<subseteq> set ''0123456789abcdef''"
proof -
  assume "b < 256"
  then have "b div 16 < length ''0123456789abcdef''" "b mod 16 < length ''0123456789abcdef''" by simp_all
  from nth_mem[OF this(1)] nth_mem[OF this(2)] show ?thesis unfolding hexDigits_def by (simp only: list.set) blast
qed

lemma hex_not_encrypted:
  assumes "\<forall>b \<in> set raw. b < 256"
  shows "\<not> looksEncrypted (concat (map hexDigits raw))"
proof
  assume "looksEncrypted (concat (map hexDigits raw))"
  then have "take 4 (concat (map hexDigits raw)) = ''enc:''" by (simp add: looksEncrypted_def HasPrefix_def encPrefix_def numeral_eq_Suc)
  then have "CHR '':'' \<in> set (concat (map hexDigits raw))" by (metis in_set_takeD list.set_intros)
  with assms hexDigits_chars show False by fastforce
qed

definition random_bytes :: "('s, 'c) eval_api \<Rightarrow> bool" where
  "random_bytes A \<longleftrightarrow> (\<forall>n raw. eh_random A n = Some raw \<longrightarrow> length raw = 32 \<and> (\<forall>b \<in> set raw. b < 256))"

definition secretSurvives :: "sql \<Rightarrow> eval_json \<Rightarrow> bool" where
  "secretSurvives q J \<longleftrightarrow> (\<forall>s cfg. enc_trigger J [(''webhook_secret'', s)] = Some cfg \<longrightarrow>
     sql_json q cfg \<noteq> [] \<and> (\<exists>m. dec_trigger J (sql_json q cfg) = Some m \<and> map_of m ''webhook_secret'' = Some s))"

text \<open>The row that a webhook suite leaves behind.\<close>

lemma CreateSuite_webhook:
  assumes "gcm_ok (eh_cipher A)" "random_bytes A" "secretSurvives (eh_sql A) (eh_json A)"
    and "CreateSuite A org wid (Some b) st = (EvalJSON 201 (SuiteBody resp), st')" "sr_TriggerKind resp = ''webhook''"
  obtains secret row suite where "sr_WebhookSecret resp = Some secret" "length secret = 64" "secret \<noteq> ''***''"
    "find (suiteVisible (eh_sql A) [] (sr_ID resp)) (t_suites (tables (ev_db st'))) = Some row" "rowToEvalSuite (eh_sql A) (eh_json A) row = Inr suite"
    "es_TriggerKind suite = ''webhook''" "es_WorkflowDeleted suite = sr_WorkflowDeleted resp" "DecryptValue (eh_cipher A) (es_WebhookSecret suite) = Inr secret"
proof -
  obtain plain body n created d where c: "applyTrigger A (eval_applyDefaults (b\<lparr>es_WorkflowID := wid\<rparr>)) True (ev_rand st) = (Some (plain, body), n)"
    "CreateEvalSuite (eh_sql A) (eh_json A) org (eh_uuid A (clock (ev_db st))) (eh_now A (clock (ev_db st))) body (ev_db st) = (Inr created, d)"
    "resp = suiteResponse created plain" "ev_db st' = d"
    using assms(4) by (auto simp: CreateSuite_def split: if_splits prod.splits option.splits sum.splits)
  let ?q = "eh_sql A" let ?J = "eh_json A"
  have kind: "es_TriggerKind created = ''webhook''" using assms(5) c(3) by (simp add: suiteResponse_def)
  obtain trigCfg u where ins: "marshalTriggerConfig ?J created = Some trigCfg"
    "exec ?q (insertSuite ?q ?J (if org = [] then defaultOrg else org) trigCfg created) (ev_db st) = (Inr u, d)"
    "es_TriggerKind created = (if es_TriggerKind body = [] then ''none'' else es_TriggerKind body)" "es_WebhookSecret created = es_WebhookSecret body"
    using c(2) by (auto simp: CreateEvalSuite_def Let_def fail_def give_def elim!: andThen_InrE split: option.splits)
  have "es_TriggerKind body = ''webhook''" using ins(3) kind by (auto split: if_splits)
  with c(1) obtain raw n1 enc where t: "eh_random A (ev_rand st) = Some raw" "plain = concat (map hexDigits raw)" "EncryptValue (eh_cipher A) plain n1 = (Inr enc, n)" "es_WebhookSecret body = enc"
    by (auto simp: applyTrigger_def Let_def split: if_splits option.splits prod.splits sum.splits)
  have raw: "length raw = 32" "\<forall>b \<in> set raw. b < 256" using assms(2) t(1) by (auto simp: random_bytes_def)
  have len: "length plain = 64" using raw(1) by (simp add: t(2) concat_hexDigits)
  have dec: "DecryptValue (eh_cipher A) enc = Inr plain"
    by (rule grader_strings.roundtrip[OF assms(1) _ t(3)]) (use hex_not_encrypted[OF raw(2)] t(2) in simp)
  from exec_Inr[OF ins(2)] obtain row where row: "t_suites (tables d) = t_suites (tables (ev_db st)) @ [row]" "\<forall>r \<in> set (t_suites (tables (ev_db st))). \<not> sql_eq ?q (ds_ID r) (es_ID created)"
    "ds_ID row = es_ID created" "ds_TriggerKind row = ''webhook''" "ds_TriggerConfig row = trigCfg" "ds_WorkflowDeleted row = es_WorkflowDeleted created"
    by (auto simp: insertSuite_def kind dest!: sym[of _ "tables d"] split: option.splits if_splits)
  have "enc_trigger ?J [(''webhook_secret'', enc)] = Some trigCfg" using ins(1,4) kind t(4) by (simp add: marshalTriggerConfig_def)
  with assms(3) obtain m where m: "sql_json ?q trigCfg \<noteq> []" "dec_trigger ?J (sql_json ?q trigCfg) = Some m" "map_of m ''webhook_secret'' = Some enc"
    unfolding secretSurvives_def by blast
  obtain suite where suite: "rowToEvalSuite ?q ?J row = Inr suite" "es_TriggerKind suite = ''webhook''" "es_WorkflowDeleted suite = es_WorkflowDeleted created" "es_WebhookSecret suite = enc"
    using m row(4,5,6) by (auto simp: rowToEvalSuite_def readBlob_def Let_def)
  have "find (suiteVisible ?q [] (es_ID created)) (t_suites (tables d)) = Some row"
  proof -
    have "find (suiteVisible ?q [] (es_ID created)) (t_suites (tables (ev_db st))) = None" using row(2) by (simp add: suiteVisible_def find_None_iff)
    then show ?thesis using row(3) by (simp add: row(1) find_append suiteVisible_def sql_eq_def)
  qed
  moreover have "plain \<noteq> []" "plain \<noteq> ''***''" using len by auto
  ultimately show ?thesis using that[of plain row suite] len suite dec c(3,4) kind by (simp add: suiteResponse_def)
qed

section \<open>Tenants\<close>

definition foreignSuite :: "sql \<Rightarrow> string \<Rightarrow> string \<Rightarrow> eval_tables \<Rightarrow> bool" where
  "foreignSuite q org i t \<longleftrightarrow> org \<noteq> [] \<and> (\<forall>row \<in> set (t_suites t). sql_eq q (ds_ID row) i \<longrightarrow> \<not> sql_eq q (ds_OrgID row) org)"

lemma foreign_Get:
  assumes "foreignSuite q org i (tables d)"
  shows "\<exists>e. GetEvalSuite q J org i d = (Inl e, tick d) \<and> (reliable q \<longrightarrow> e = ErrNotFound)"
proof -
  have "find (suiteVisible q org i) (t_suites (tables d)) = None" using assms by (auto simp: foreignSuite_def suiteVisible_def find_None_iff)
  then show ?thesis by (auto simp: GetEvalSuite_def andThen_def query_def reliable_def)
qed

lemma foreign_Delete:
  assumes "foreignSuite q org i (tables d)"
  shows "\<exists>e d'. DeleteEvalSuite q org i d = (Inl e, d') \<and> tables d' = tables d \<and> (reliable q \<longrightarrow> e = ErrNotFound)"
proof -
  have none: "filter (suiteVisible q org i) (t_suites (tables d)) = []" using assms by (auto simp: foreignSuite_def suiteVisible_def filter_empty_conv)
  have "isl (fst (DeleteEvalSuite q org i d)) \<and> tables (snd (DeleteEvalSuite q org i d)) = tables d"
    unfolding DeleteEvalSuite_def
  proof (intro transaction_refused andThen_refused)
    fix d1 u1 d2 u2 d3 u3 d4 n d5
    assume s: "tables d1 = tables d"
      "exec q (\<lambda>t. Inr ((), t\<lparr>t_results := deleteRows (\<lambda>x. \<exists>r \<in> set (t_eval_runs t). sql_eq q (er_SuiteID r) i \<and> sql_eq q (dx_EvalRunID x) (er_ID r)) (t_results t)\<rparr>)) d1 = (Inr u1, d2)"
      "exec q (\<lambda>t. Inr ((), t\<lparr>t_eval_runs := deleteRows (\<lambda>r. sql_eq q (er_SuiteID r) i) (t_eval_runs t)\<rparr>)) d2 = (Inr u2, d3)"
      "exec q (\<lambda>t. Inr ((), t\<lparr>t_cases := deleteRows (\<lambda>c. sql_eq q (dt_SuiteID c) i) (t_cases t)\<rparr>)) d3 = (Inr u3, d4)"
      "exec q (\<lambda>t. Inr (length (filter (suiteVisible q org i) (t_suites t)), t\<lparr>t_suites := deleteRows (suiteVisible q org i) (t_suites t)\<rparr>)) d4 = (Inr n, d5)"
    have "t_suites (tables d4) = t_suites (tables d)" using s(1) exec_pure[OF s(2)] exec_pure[OF s(3)] exec_pure[OF s(4)] by simp
    then have "n = 0" using exec_Inr[OF s(5)] none by simp
    then show "isl (fst ((if n = 0 then fail ErrNotFound else give ()) d5))" by (simp add: fail_def)
  qed
  moreover have "fst (DeleteEvalSuite q org i d) = Inl ErrNotFound" if "reliable q"
    using none by (simp add: DeleteEvalSuite_def db_simps that andThen_def)
  ultimately show ?thesis
    by (cases "DeleteEvalSuite q org i d") (auto simp: isl_def)
qed

text \<open>The requests that name a suite in their path and are answered for a tenant.\<close>

datatype suite_request =
    SuiteGet | SuitePut "update_suite option" | SuiteDelete | SuiteImport upload | CaseList | CasePost "test_case option"
  | CasePut string "test_case option" | RunPost | RunList string string string

fun serveSuite :: "('s, 'c) eval_api \<Rightarrow> string \<Rightarrow> string \<Rightarrow> suite_request \<Rightarrow> 'c eval_state \<Rightarrow> eval_response \<times> 'c eval_state" where
  "serveSuite A org i SuiteGet = GetSuite A org i"
| "serveSuite A org i (SuitePut b) = UpdateSuite A org i b"
| "serveSuite A org i SuiteDelete = DeleteSuite A org i"
| "serveSuite A org i (SuiteImport up) = ImportTestCases A org i up"
| "serveSuite A org i CaseList = ListCases A org i"
| "serveSuite A org i (CasePost b) = CreateCase A org i b"
| "serveSuite A org i (CasePut c b) = UpdateCase A org i c b"
| "serveSuite A org i RunPost = TriggerRun A org i"
| "serveSuite A org i (RunList s l off) = ListRuns_handler A org i s l off"

lemma foreign_run:
  assumes "foreignSuite (eh_sql A) org i (tables (ev_db st))"
  shows "\<exists>e. startEvalRun A org i t st = (Inl (ExecGetSuite e), st\<lparr>ev_db := tick (ev_db st)\<rparr>) \<and> (reliable (eh_sql A) \<longrightarrow> e = ErrNotFound)"
  using foreign_Get[OF assms, of "eh_json A"] by (auto simp: startEvalRun_def Execute_def)

text \<open>
  Tenants cannot reach each other's eval suites. A request for a suite that belongs to another tenant (or does not exist) - reading, changing or deleting the suite, importing, listing,
  adding or changing its test cases, starting or listing its runs - is answered with an error, and with 404 when the database
  works, and leaves the tables, the armed schedules and the started runs as they were. This holds whatever the database does.
\<close>

theorem eval_suites_are_separated:
  assumes "foreignSuite (eh_sql A) org i (tables (ev_db st))" "eh_runner A"
  shows "\<exists>code kind. fst (serveSuite A org i req st) = EvalError code kind [] \<and> (reliable (eh_sql A) \<longrightarrow> code = 404) \<and>
    tables (ev_db (snd (serveSuite A org i req st))) = tables (ev_db st) \<and>
    ev_sched (snd (serveSuite A org i req st)) = ev_sched st \<and> ev_jobs (snd (serveSuite A org i req st)) = ev_jobs st"
proof -
  obtain e where e: "GetEvalSuite (eh_sql A) (eh_json A) org i (ev_db st) = (Inl e, tick (ev_db st))" "reliable (eh_sql A) \<longrightarrow> e = ErrNotFound"
    using foreign_Get[OF assms(1)] by blast
  obtain e' d' where x: "DeleteEvalSuite (eh_sql A) org i (ev_db st) = (Inl e', d')" "tables d' = tables (ev_db st)" "reliable (eh_sql A) \<longrightarrow> e' = ErrNotFound"
    using foreign_Delete[OF assms(1)] by blast
  obtain e2 where r: "startEvalRun A org i ''manual'' st = (Inl (ExecGetSuite e2), st\<lparr>ev_db := tick (ev_db st)\<rparr>)" "reliable (eh_sql A) \<longrightarrow> e2 = ErrNotFound"
    using foreign_run[OF assms(1)] by blast
  show ?thesis
    by (cases req) (use e x r assms(2) in \<open>auto simp: GetSuite_def UpdateSuite_def DeleteSuite_def ImportTestCases_def ListCases_def CreateCase_def UpdateCase_def
        TriggerRun_def ListRuns_handler_def storeError_def split: if_splits\<close>)
qed

section \<open>A small instance\<close>

definition demo_ports :: "unit eval_ports" where
  "demo_ports = \<lparr> ep_sql = plain_sql,
     ep_json = \<lparr> enc_data = (\<lambda>_. Some []), dec_data = (\<lambda>_. None), enc_mocks = (\<lambda>_. Some []), dec_mocks = (\<lambda>_. None), enc_graders = (\<lambda>_. Some []),
       dec_graders = (\<lambda>_. None), enc_outputs = (\<lambda>_. Some []), dec_outputs = (\<lambda>_. None), enc_results = (\<lambda>_. Some []), dec_results = (\<lambda>_. None),
       enc_trigger = (\<lambda>kvs. Some (CHR ''x'' # (case kvs of [] \<Rightarrow> [] | (k, v) # _ \<Rightarrow> v))), dec_trigger = (\<lambda>t. Some [(''webhook_secret'', tl t)]),
       col_threshold = Some, col_concurrency = Some \<rparr>,
     ep_now = 5, ep_uuid = (\<lambda>n. ''id''), ep_Run = (\<lambda>_ _. Inl ''no such workflow''), ep_GetRun = (\<lambda>_ _. Inl []), ep_LatestVersion = (\<lambda>_. Inr None),
     ep_cipher = sample_cipher, ep_graders = undefined, ep_llmFactory = None, ep_registry = None \<rparr>"

definition demo_eval :: "(unit, (nat \<times> (string \<times> string)) list) eval_api" where
  "demo_eval = \<lparr> eh_ports = demo_ports, eh_uuid = (\<lambda>n. replicate (Suc n) (CHR ''u'')), eh_now = int, eh_GetWorkflow = (\<lambda>_ _. Inl (FromStore ErrNotFound)),
     eh_libs = \<lparr> vl_regexCompiles = (\<lambda>_. True), vl_Marshal = (\<lambda>_. Some []), vl_UnmarshalObject = (\<lambda>_. True) \<rparr>, eh_cron = list_cron,
     eh_random = (\<lambda>n. Some (replicate 32 171)), eh_decodeLine = (\<lambda>_. None), eh_iter = (\<lambda>_ cols. cols), eh_runner = True \<rparr>"

definition demo_suite_row :: "string \<Rightarrow> db_eval_suite" where
  "demo_suite_row kind = \<lparr> ds_ID = ''s'', ds_OrgID = ''acme'', ds_WorkflowID = ''w'', ds_Name = ''nightly'', ds_Description = [], ds_PassThreshold = 1, ds_MaxConcurrency = 1,
     ds_WorkflowDeleted = False, ds_TriggerKind = kind, ds_TriggerConfig = [], ds_CreatedAt = 0, ds_UpdatedAt = 0 \<rparr>"

definition demo_run :: "string \<Rightarrow> eval_run" where
  "demo_run i = \<lparr> er_ID = i, er_SuiteID = ''s'', er_TriggeredBy = ''manual'', er_Status = EvalRunCompleted, er_TotalCases = 2,
     er_Counts = \<lparr> ec_Passed = 1, ec_Failed = 1, ec_Error = 0 \<rparr>, er_WorkflowVersionNumber = None, er_StartedAt = None, er_FinishedAt = None, er_CreatedAt = 0 \<rparr>"

definition demo_result :: "string \<Rightarrow> string \<Rightarrow> bool \<Rightarrow> db_test_case_result" where
  "demo_result run tc ok = \<lparr> dx_ID = run @ tc, dx_EvalRunID = run, dx_TestCaseID = tc, dx_TestCaseName = tc, dx_WorkflowRunID = [], dx_WorkflowRunStatus = [],
     dx_NodeOutputs = [], dx_GraderResults = [], dx_Passed = ok, dx_CreatedAt = 0 \<rparr>"

definition demo_eval_start :: "(nat \<times> (string \<times> string)) list eval_state" where
  "demo_eval_start = \<lparr> ev_db = \<lparr> tables = \<lparr> t_suites = [demo_suite_row ''none''], t_cases = [], t_eval_runs = [demo_run ''h'', demo_run ''b''],
       t_results = [demo_result ''h'' ''1'' True, demo_result ''h'' ''2'' False, demo_result ''b'' ''2'' True] \<rparr>, clock = 0 \<rparr>,
     ev_rand = 0, ev_sched = \<lparr> sc_c = [], sc_entries = [] \<rparr>, ev_jobs = [] \<rparr>"

theorem compare_runs_witness:
  "\<exists>r hs bs. fst (CompareRuns demo_eval rev ''h'' ''b'' demo_eval_start) = EvalJSON 200 (CompareBody r) \<and> comparison hs bs r \<and>
     map cmp_TestCaseID (cr_Cases r) = [''2'', ''1''] \<and> cr_RegressedCount r = 1"
proof -
  let ?c = "CompareRuns demo_eval rev ''h'' ''b'' demo_eval_start"
  have "case ?c of (EvalJSON code (CompareBody r), _) \<Rightarrow> code = 200 \<and> map cmp_TestCaseID (cr_Cases r) = [''2'', ''1''] \<and> cr_RegressedCount r = 1 | _ \<Rightarrow> False" by code_simp
  then obtain r st' where c: "?c = (EvalJSON 200 (CompareBody r), st')" "map cmp_TestCaseID (cr_Cases r) = [''2'', ''1''] \<and> cr_RegressedCount r = 1"
    by (auto split: prod.splits eval_response.splits eval_body.splits if_splits)
  from compare_runs[OF c(1)] obtain hs bs where "comparison hs bs r" by auto
  with c show ?thesis by auto
qed

definition demo_upload :: upload where
  "demo_upload = Upload ''cases.csv'' [Inr [''Name'', ''q''], Inr [''first'', ''1''], Inr ['' '', ''2''], Inl (), Inr [''last'', ''4'']] False []"

theorem import_accounts_for_every_row_witness:
  "\<exists>errs. fst (ImportTestCases demo_eval ''acme'' ''s'' demo_upload demo_eval_start) = EvalJSON 200 (ImportBody 2 2 errs) \<and> length errs = 2 \<and> dataRows demo_eval demo_upload = 4"
proof -
  let ?c = "ImportTestCases demo_eval ''acme'' ''s'' demo_upload demo_eval_start"
  have "case ?c of (EvalJSON code (ImportBody c f errs), _) \<Rightarrow> code = 200 \<and> c = 2 \<and> f = 2 | _ \<Rightarrow> False" by code_simp
  then obtain errs st' where c: "?c = (EvalJSON 200 (ImportBody 2 2 errs), st')"
    by (auto split: prod.splits eval_response.splits eval_body.splits if_splits)
  have "no_lost_reply (eh_sql demo_eval)" by (simp add: no_lost_reply_def demo_eval_def demo_ports_def plain_sql_def)
  from import_accounts_for_every_row[OF this c] c show ?thesis by simp
qed

lemma demo_eval_secrets: "reliable (eh_sql demo_eval)" "gcm_ok (eh_cipher demo_eval)" "random_bytes demo_eval" "secretSurvives (eh_sql demo_eval) (eh_json demo_eval)"
  using plain_sql_reliable sample_gcm_ok
  by (auto simp: demo_eval_def demo_ports_def random_bytes_def secretSurvives_def plain_sql_def)

definition demo_hook :: eval_suite where
  "demo_hook = \<lparr> es_ID = [], es_WorkflowID = [], es_Name = ''hooked'', es_Description = [], es_PassThreshold = 0, es_MaxConcurrency = 0, es_WorkflowDeleted = False,
     es_TriggerKind = ''webhook'', es_CronExpr = [], es_WebhookSecret = [], es_CreatedAt = 0, es_UpdatedAt = 0 \<rparr>"

theorem eval_suites_are_separated_witness:
  "\<exists>kind. fst (serveSuite demo_eval ''other'' ''s'' SuiteDelete demo_eval_start) = EvalError 404 kind [] \<and>
     tables (ev_db (snd (serveSuite demo_eval ''other'' ''s'' SuiteDelete demo_eval_start))) = tables (ev_db demo_eval_start)"
proof -
  have f: "foreignSuite (eh_sql demo_eval) ''other'' ''s'' (tables (ev_db demo_eval_start))" by code_simp
  have "eh_runner demo_eval" by (simp add: demo_eval_def)
  from eval_suites_are_separated[OF f this, of SuiteDelete] demo_eval_secrets(1) show ?thesis by auto
qed

end
