(* ===== verification/Auth.thy ===== *)
theory Auth
  imports Cipher
begin

text \<open>
  Authentication (\<open>internal/auth\<close>): session tokens, passwords and the middleware, with the route guards of
  \<open>internal/api/router.go\<close>. The JWT library and bcrypt are parameters. A handler is a function of the request context and the state;
  \<open>Inl\<close> is an answer that the middleware has written itself.
\<close>

section \<open>Session tokens\<close>

record claims =
  cl_UserID :: string
  cl_OrgID :: string
  cl_Email :: string
  cl_Role :: string
  cl_OrgName :: string
  cl_Permissions :: "string list"

datatype signing_method = HMAC string | OtherMethod string

text \<open>
  \<open>SignedString\<close> of an HS256 token (key, claims, time of issue and of expiry in seconds) and \<open>ParseWithClaims\<close>, given the
  key function, the current time in milliseconds and the token; it yields the claims and the flag \<open>Valid\<close>.
\<close>

record jwt_lib =
  jw_SignedString :: "string \<Rightarrow> claims \<Rightarrow> int \<Rightarrow> int \<Rightarrow> string option"
  jw_ParseWithClaims :: "(signing_method \<Rightarrow> string option) \<Rightarrow> int \<Rightarrow> string \<Rightarrow> (claims \<times> bool) option"

definition Sign :: "jwt_lib \<Rightarrow> int \<Rightarrow> claims \<Rightarrow> string \<Rightarrow> int \<Rightarrow> string option" where
  "Sign L now claims secret ttl = jw_SignedString L secret claims (now div 1000) ((now + ttl) div 1000)"

datatype token_error = InvalidToken | TokenNotValid

fun hmacKey :: "string \<Rightarrow> signing_method \<Rightarrow> string option" where
  "hmacKey secret (HMAC alg) = Some secret"
| "hmacKey secret (OtherMethod alg) = None"

definition Verify :: "jwt_lib \<Rightarrow> int \<Rightarrow> string \<Rightarrow> string \<Rightarrow> token_error + claims" where
  "Verify L now tokenStr secret =
     (case jw_ParseWithClaims L (hmacKey secret) now tokenStr of
        None \<Rightarrow> Inl InvalidToken
      | Some (claims, valid) \<Rightarrow> if \<not> valid then Inl TokenNotValid else Inr claims)"

text \<open>
  Documented behaviour: signing with an HMAC key succeeds, and a signed token is accepted with its claims until it expires when the key
  function names its key.
\<close>

definition jwt_ok :: "jwt_lib \<Rightarrow> bool" where
  "jwt_ok L \<longleftrightarrow> (\<forall>key c iat expiry. jw_SignedString L key c iat expiry \<noteq> None) \<and> (\<forall>key c iat expiry t kf now. jw_SignedString L key c iat expiry = Some t \<longrightarrow> kf (HMAC ''HS256'') = Some key \<longrightarrow>
     jw_ParseWithClaims L kf now t = (if now < 1000 * expiry then Some (c, True) else None))"

lemma Verify_Sign:
  assumes "jwt_ok L" "Sign L now0 c secret ttl = Some t"
  shows "Verify L now t secret = (if now < 1000 * ((now0 + ttl) div 1000) then Inr c else Inl InvalidToken)"
proof -
  have "jw_ParseWithClaims L (hmacKey secret) now t = (if now < 1000 * ((now0 + ttl) div 1000) then Some (c, True) else None)"
    using assms unfolding jwt_ok_def Sign_def by simp
  then show ?thesis by (simp add: Verify_def)
qed

section \<open>Passwords\<close>

definition bcryptCost :: nat where
  "bcryptCost = 12"

record bcrypt_lib =
  bc_GenerateFromPassword :: "nat \<Rightarrow> string \<Rightarrow> string option"
  bc_CompareHashAndPassword :: "string \<Rightarrow> string \<Rightarrow> bool"

definition HashPassword :: "bcrypt_lib \<Rightarrow> string \<Rightarrow> string option" where
  "HashPassword B plain = bc_GenerateFromPassword B bcryptCost plain"

definition CheckPassword :: "bcrypt_lib \<Rightarrow> string \<Rightarrow> string \<Rightarrow> bool" where
  "CheckPassword B hash plain = bc_CompareHashAndPassword B hash plain"

text \<open>Documented behaviour: the hash of a password matches it.\<close>

definition bcrypt_ok :: "bcrypt_lib \<Rightarrow> bool" where
  "bcrypt_ok B \<longleftrightarrow> (\<forall>cost p h. bc_GenerateFromPassword B cost p = Some h \<longrightarrow> bc_CompareHashAndPassword B h p)"

section \<open>The middleware\<close>

record ctx =
  cx_claims :: "claims option"
  cx_org :: string

datatype guard_error = Unauthorized | Forbidden

type_synonym ('s, 'r) handler = "ctx \<Rightarrow> 's \<Rightarrow> (guard_error + 'r) \<times> 's"

definition Authenticate :: "jwt_lib \<Rightarrow> int \<Rightarrow> string \<Rightarrow> string \<Rightarrow> ('s, 'r) handler \<Rightarrow> ('s, 'r) handler" where
  "Authenticate L now jwtSecret header next ctx s =
     (if \<not> HasPrefix header ''Bearer '' then (Inl Unauthorized, s)
      else case Verify L now (TrimPrefix header ''Bearer '') jwtSecret of
             Inl _ \<Rightarrow> (Inl Unauthorized, s)
           | Inr claims \<Rightarrow> next (ctx\<lparr>cx_claims := Some claims\<rparr>) s)"

definition RequireRole :: "string list \<Rightarrow> ('s, 'r) handler \<Rightarrow> ('s, 'r) handler" where
  "RequireRole roles next ctx s =
     (case cx_claims ctx of
        None \<Rightarrow> (Inl Unauthorized, s)
      | Some claims \<Rightarrow> if cl_Role claims \<notin> set roles then (Inl Forbidden, s) else next ctx s)"

definition HasPermission :: "claims \<Rightarrow> string \<Rightarrow> bool" where
  "HasPermission claims scope = (cl_Role claims = ''system_admin'' \<or> cl_Role claims = ''org_admin'' \<or> scope \<in> set (cl_Permissions claims))"

definition RequirePermission :: "string \<Rightarrow> ('s, 'r) handler \<Rightarrow> ('s, 'r) handler" where
  "RequirePermission scope next ctx s =
     (case cx_claims ctx of
        None \<Rightarrow> (Inl Unauthorized, s)
      | Some claims \<Rightarrow> if \<not> HasPermission claims scope then (Inl Forbidden, s) else next ctx s)"

definition OrgIDFrom :: "ctx \<Rightarrow> string" where
  "OrgIDFrom ctx = (case cx_claims ctx of None \<Rightarrow> [] | Some c \<Rightarrow> cl_OrgID c)"

section \<open>The route guards\<close>

definition injectOrgID :: "('s, 'r) handler \<Rightarrow> ('s, 'r) handler" where
  "injectOrgID next ctx s = (let orgID = OrgIDFrom ctx in next (if orgID \<noteq> [] then ctx\<lparr>cx_org := orgID\<rparr> else ctx) s)"

record gate =
  ga_jwt :: jwt_lib
  ga_secret :: string
  ga_now :: int

abbreviation emptyCtx :: ctx where
  "emptyCtx \<equiv> \<lparr> cx_claims = None, cx_org = [] \<rparr>"

definition mux_public :: "('s, 'r) handler \<Rightarrow> 's \<Rightarrow> (guard_error + 'r) \<times> 's" where
  "mux_public h s = h emptyCtx s"

definition mux_authed :: "gate \<Rightarrow> string \<Rightarrow> ('s, 'r) handler \<Rightarrow> 's \<Rightarrow> (guard_error + 'r) \<times> 's" where
  "mux_authed G header h s = Authenticate (ga_jwt G) (ga_now G) (ga_secret G) header h emptyCtx s"

definition mux_perm :: "gate \<Rightarrow> string \<Rightarrow> string \<Rightarrow> ('s, 'r) handler \<Rightarrow> 's \<Rightarrow> (guard_error + 'r) \<times> 's" where
  "mux_perm G header scope h s = Authenticate (ga_jwt G) (ga_now G) (ga_secret G) header (injectOrgID (RequirePermission scope h)) emptyCtx s"

definition mux_role :: "gate \<Rightarrow> string \<Rightarrow> string list \<Rightarrow> ('s, 'r) handler \<Rightarrow> 's \<Rightarrow> (guard_error + 'r) \<times> 's" where
  "mux_role G header roles h s = Authenticate (ga_jwt G) (ga_now G) (ga_secret G) header (injectOrgID (RequireRole roles h)) emptyCtx s"

section \<open>Who passes\<close>

text \<open>The claims a request is served with, if any.\<close>

definition caller :: "gate \<Rightarrow> string \<Rightarrow> claims option" where
  "caller G header =
     (if \<not> HasPrefix header ''Bearer '' then None
      else case Verify (ga_jwt G) (ga_now G) (TrimPrefix header ''Bearer '') (ga_secret G) of Inl _ \<Rightarrow> None | Inr c \<Rightarrow> Some c)"

abbreviation served :: "claims \<Rightarrow> ctx" where
  "served c \<equiv> \<lparr> cx_claims = Some c, cx_org = cl_OrgID c \<rparr>"

lemma mux_authed_iff:
  "mux_authed G header h s = (case caller G header of None \<Rightarrow> (Inl Unauthorized, s) | Some c \<Rightarrow> h \<lparr> cx_claims = Some c, cx_org = [] \<rparr> s)"
  by (simp add: mux_authed_def Authenticate_def caller_def split: sum.split)

lemma mux_perm_iff:
  "mux_perm G header scope h s =
     (case caller G header of None \<Rightarrow> (Inl Unauthorized, s) | Some c \<Rightarrow> if HasPermission c scope then h (served c) s else (Inl Forbidden, s))"
  by (simp add: mux_perm_def Authenticate_def caller_def injectOrgID_def RequirePermission_def OrgIDFrom_def Let_def split: sum.split)

lemma mux_role_iff:
  "mux_role G header roles h s =
     (case caller G header of None \<Rightarrow> (Inl Unauthorized, s) | Some c \<Rightarrow> if cl_Role c \<in> set roles then h (served c) s else (Inl Forbidden, s))"
  by (simp add: mux_role_def Authenticate_def caller_def injectOrgID_def RequireRole_def OrgIDFrom_def Let_def split: sum.split)

end
