(* ===== verification/Auth_Store.thy ===== *)
theory Auth_Store
  imports Workflow_Store Eval_Store Auth
begin

text \<open>
  Organisations, users, invitations and e-mail settings in MySQL (\<open>internal/store/mysql/auth_store.go\<close>,
  \<open>email_template_store.go\<close>). The tables sit beside those of the workflow and the eval store, because deleting an organisation
  deletes from all of them. \<open>col_role\<close> and \<open>col_inviteRole\<close> are the two \<open>ENUM\<close> columns: what a string is stored as, \<open>None\<close> when the
  server refuses it. \<open>ORDER BY\<close> compares the keys of the collation. Of a RAG document only the owner matters here.
\<close>

section \<open>Data\<close>

record organization =
  og_ID :: string
  og_Name :: string
  og_CreatedAt :: int

record user =
  u_ID :: string
  u_OrgID :: string
  u_Email :: string
  u_PasswordHash :: string
  u_Role :: string
  u_Permissions :: "string list"
  u_CreatedAt :: int
  u_UpdatedAt :: int

record invitation =
  iv_ID :: string
  iv_OrgID :: string
  iv_Email :: string
  iv_Role :: string
  iv_Permissions :: "string list"
  iv_Token :: string
  iv_InvitedBy :: string
  iv_ExpiresAt :: int
  iv_AcceptedAt :: "int option"
  iv_CreatedAt :: int

definition DefaultPermissions :: "string list" where
  "DefaultPermissions = [''workflow:read'', ''workflow:write'', ''workflow:run'', ''eval:read'', ''eval:write'', ''eval:run'']"

abbreviation ErrDuplicateEmail :: store_error where
  "ErrDuplicateEmail \<equiv> StoreFault ''email already in use''"

section \<open>Tables\<close>

record db_user =
  du_ID :: string
  du_OrgID :: string
  du_Email :: string
  du_PasswordHash :: string
  du_Role :: string
  du_Permissions :: string
  du_CreatedAt :: int
  du_UpdatedAt :: int

record db_invitation =
  di_ID :: string
  di_OrgID :: string
  di_Email :: string
  di_Role :: string
  di_Permissions :: string
  di_Token :: string
  di_InvitedBy :: string
  di_ExpiresAt :: int
  di_AcceptedAt :: "int option"
  di_CreatedAt :: int

text \<open>The columns of \<open>organizations\<close> and of \<open>org_email_settings\<close> are those of the records themselves.\<close>

record auth_tables =
  a_orgs :: "organization list"
  a_users :: "db_user list"
  a_invitations :: "db_invitation list"
  a_email :: "org_email_settings list"
  a_rag :: "string list"
  a_wf :: wf_tables
  a_eval :: eval_tables

record auth_json =
  enc_perms :: "string list \<Rightarrow> string option"
  dec_perms :: "string \<Rightarrow> string list option"
  col_role :: "string \<Rightarrow> string option"
  col_inviteRole :: "string \<Rightarrow> string option"

definition toUser :: "sql \<Rightarrow> auth_json \<Rightarrow> db_user \<Rightarrow> store_error + user" where
  "toUser q J r =
     (case dec_perms J (sql_json q (du_Permissions r)) of
        None \<Rightarrow> Inl UnmarshalFault
      | Some perms \<Rightarrow> Inr \<lparr> u_ID = du_ID r, u_OrgID = du_OrgID r, u_Email = du_Email r, u_PasswordHash = du_PasswordHash r, u_Role = du_Role r,
          u_Permissions = perms, u_CreatedAt = du_CreatedAt r, u_UpdatedAt = du_UpdatedAt r \<rparr>)"

definition toInvitation :: "sql \<Rightarrow> auth_json \<Rightarrow> db_invitation \<Rightarrow> store_error + invitation" where
  "toInvitation q J r =
     (case dec_perms J (sql_json q (di_Permissions r)) of
        None \<Rightarrow> Inl UnmarshalFault
      | Some perms \<Rightarrow> Inr \<lparr> iv_ID = di_ID r, iv_OrgID = di_OrgID r, iv_Email = di_Email r, iv_Role = di_Role r, iv_Permissions = perms, iv_Token = di_Token r,
          iv_InvitedBy = di_InvitedBy r, iv_ExpiresAt = di_ExpiresAt r, iv_AcceptedAt = di_AcceptedAt r, iv_CreatedAt = di_CreatedAt r \<rparr>)"

section \<open>Organisations\<close>

definition CreateOrganization :: "sql \<Rightarrow> string \<Rightarrow> int \<Rightarrow> organization \<Rightarrow> (auth_tables, organization) dbm" where
  "CreateOrganization q uuid now org0 =
     (let org = org0\<lparr> og_ID := (if og_ID org0 = [] then uuid else og_ID org0), og_CreatedAt := now \<rparr>
      in andThen (exec q (\<lambda>t. if \<exists>o' \<in> set (a_orgs t). sql_eq q (og_ID o') (og_ID org) then Inl DuplicateKey
                               else Inr ((), t\<lparr>a_orgs := a_orgs t @ [org]\<rparr>))) (\<lambda>_. give org))"

definition GetOrganization :: "sql \<Rightarrow> string \<Rightarrow> (auth_tables, organization) dbm" where
  "GetOrganization q i = query q (\<lambda>t. firstRow (\<lambda>o'. sql_eq q (og_ID o') i) (a_orgs t))"

definition ListOrganizations :: "sql \<Rightarrow> (auth_tables, organization list) dbm" where
  "ListOrganizations q = query q (\<lambda>t. Inr (sort_key (\<lambda>o'. sql_key q (og_Name o')) (a_orgs t)))"

text \<open>The statements of the workflow store, on its part of the tables.\<close>

definition inWf :: "(wf_tables, 'a) dbm \<Rightarrow> (auth_tables, 'a) dbm" where
  "inWf m d = (case m \<lparr> tables = a_wf (tables d), clock = clock d \<rparr> of (x, d') \<Rightarrow> (x, \<lparr> tables = (tables d)\<lparr>a_wf := tables d'\<rparr>, clock = clock d' \<rparr>))"

definition orgDeletes :: "sql \<Rightarrow> string \<Rightarrow> (auth_tables \<Rightarrow> auth_tables) list" where
  "orgDeletes q i =
     [\<lambda>t. t\<lparr>a_users := deleteRows (\<lambda>r. sql_eq q (du_OrgID r) i) (a_users t)\<rparr>,
      \<lambda>t. t\<lparr>a_invitations := deleteRows (\<lambda>r. sql_eq q (di_OrgID r) i) (a_invitations t)\<rparr>,
      \<lambda>t. t\<lparr>a_eval := (a_eval t)\<lparr>t_suites := deleteRows (\<lambda>r. sql_eq q (ds_OrgID r) i) (t_suites (a_eval t))\<rparr>\<rparr>,
      \<lambda>t. t\<lparr>a_rag := deleteRows (\<lambda>r. sql_eq q r i) (a_rag t)\<rparr>,
      \<lambda>t. t\<lparr>a_email := deleteRows (\<lambda>r. sql_eq q (oe_OrgID r) i) (a_email t)\<rparr>]"

definition deleteWorkflowRows :: "sql \<Rightarrow> string \<Rightarrow> (auth_tables, unit) dbm" where
  "deleteWorkflowRows q wfID =
     andThen (inWf (deleteNodeConfigs q wfID)) (\<lambda>_.
     each (\<lambda>del. inWf (del q wfID)) [deleteNodes, deleteEdges, deleteRuns, DeleteWorkflowVersions])"

definition DeleteOrganization :: "sql \<Rightarrow> string \<Rightarrow> (auth_tables, unit) dbm" where
  "DeleteOrganization q i =
     transaction q
       (andThen (each (\<lambda>f. exec q (\<lambda>t. Inr ((), f t))) (orgDeletes q i)) (\<lambda>_.
        andThen (query q (\<lambda>t. Inr (map dw_ID (filter (\<lambda>r. sql_eq q (dw_OrgID r) i) (t_wf (a_wf t)))))) (\<lambda>wfIDs.
        andThen (each (deleteWorkflowRows q) wfIDs) (\<lambda>_.
        andThen (exec q (\<lambda>t. Inr ((), t\<lparr>a_wf := (a_wf t)\<lparr>t_wf := deleteRows (\<lambda>r. sql_eq q (dw_OrgID r) i) (t_wf (a_wf t))\<rparr>\<rparr>))) (\<lambda>_.
        exec q (\<lambda>t. Inr ((), t\<lparr>a_orgs := deleteRows (\<lambda>o'. sql_eq q (og_ID o') i) (a_orgs t)\<rparr>)))))))"

section \<open>Users\<close>

definition insertUser :: "sql \<Rightarrow> auth_json \<Rightarrow> user \<Rightarrow> string \<Rightarrow> auth_tables \<Rightarrow> store_error + unit \<times> auth_tables" where
  "insertUser q J u permsJSON t =
     (case col_role J (u_Role u) of
        None \<Rightarrow> Inl SqlFault
      | Some r \<Rightarrow>
          (if \<exists>row \<in> set (a_users t). sql_eq q (du_ID row) (u_ID u) \<or> sql_eq q (du_Email row) (u_Email u) then Inl DuplicateKey
           else Inr ((), t\<lparr>a_users := a_users t @ [\<lparr> du_ID = u_ID u, du_OrgID = u_OrgID u, du_Email = u_Email u, du_PasswordHash = u_PasswordHash u,
                  du_Role = r, du_Permissions = permsJSON, du_CreatedAt = u_CreatedAt u, du_UpdatedAt = u_UpdatedAt u \<rparr>]\<rparr>)))"

definition CreateUser :: "sql \<Rightarrow> auth_json \<Rightarrow> string \<Rightarrow> int \<Rightarrow> user \<Rightarrow> (auth_tables, user) dbm" where
  "CreateUser q J uuid now u0 =
     (let u = u0\<lparr> u_ID := (if u_ID u0 = [] then uuid else u_ID u0), u_CreatedAt := now, u_UpdatedAt := now,
                  u_Permissions := (if u_Permissions u0 = [] then DefaultPermissions else u_Permissions u0) \<rparr>
      in case enc_perms J (u_Permissions u) of
           None \<Rightarrow> fail MarshalFault
         | Some permsJSON \<Rightarrow>
             (\<lambda>d. case exec q (insertUser q J u permsJSON) d of
                    (Inl e, d') \<Rightarrow> (Inl (if e = DuplicateKey then ErrDuplicateEmail else e), d')
                  | (Inr _, d') \<Rightarrow> (Inr u, d')))"

definition GetUser :: "sql \<Rightarrow> auth_json \<Rightarrow> string \<Rightarrow> (auth_tables, user) dbm" where
  "GetUser q J i = andThen (query q (\<lambda>t. firstRow (\<lambda>r. sql_eq q (du_ID r) i) (a_users t))) (\<lambda>row. decoded (toUser q J row))"

definition GetUserByEmail :: "sql \<Rightarrow> auth_json \<Rightarrow> string \<Rightarrow> (auth_tables, user) dbm" where
  "GetUserByEmail q J email = andThen (query q (\<lambda>t. firstRow (\<lambda>r. sql_eq q (du_Email r) email) (a_users t))) (\<lambda>row. decoded (toUser q J row))"

definition ListUsers :: "sql \<Rightarrow> auth_json \<Rightarrow> string \<Rightarrow> (auth_tables, user list) dbm" where
  "ListUsers q J orgID =
     andThen (query q (\<lambda>t. Inr (sort_key (\<lambda>r. sql_key q (du_Email r)) (filter (\<lambda>r. orgID = [] \<or> sql_eq q (du_OrgID r) orgID) (a_users t)))))
       (\<lambda>rows. decoded (readRows (toUser q J) rows))"

text \<open>
  An \<open>UPDATE\<close> of one user: the number of rows it finds. A row that changes gets the time of the server in \<open>updated_at\<close>.
\<close>

definition updateUsers :: "sql \<Rightarrow> int \<Rightarrow> string \<Rightarrow> (db_user \<Rightarrow> db_user) \<Rightarrow> auth_tables \<Rightarrow> nat \<times> auth_tables" where
  "updateUsers q now userID f t =
     (length (filter (\<lambda>r. sql_eq q (du_ID r) userID) (a_users t)),
      t\<lparr>a_users := map (\<lambda>r. if sql_eq q (du_ID r) userID \<and> f r \<noteq> r then (f r)\<lparr>du_UpdatedAt := now\<rparr> else r) (a_users t)\<rparr>)"

definition affected :: "nat \<Rightarrow> (auth_tables, unit) dbm" where
  "affected n = (if n = 0 then fail ErrNotFound else give ())"

definition UpdateUserRole :: "sql \<Rightarrow> auth_json \<Rightarrow> int \<Rightarrow> string \<Rightarrow> string \<Rightarrow> (auth_tables, unit) dbm" where
  "UpdateUserRole q J now userID role =
     andThen (exec q (\<lambda>t. if \<forall>r \<in> set (a_users t). \<not> sql_eq q (du_ID r) userID then Inr (0, t)
                           else case col_role J role of None \<Rightarrow> Inl SqlFault | Some r' \<Rightarrow> Inr (updateUsers q now userID (\<lambda>r. r\<lparr>du_Role := r'\<rparr>) t))) affected"

definition UpdateUserPermissions :: "sql \<Rightarrow> auth_json \<Rightarrow> int \<Rightarrow> string \<Rightarrow> string list \<Rightarrow> (auth_tables, unit) dbm" where
  "UpdateUserPermissions q J now userID permissions =
     (case enc_perms J permissions of
        None \<Rightarrow> fail MarshalFault
      | Some b \<Rightarrow> andThen (exec q (\<lambda>t. Inr (updateUsers q now userID (\<lambda>r. r\<lparr>du_Permissions := b\<rparr>) t))) affected)"

definition DeleteUser :: "sql \<Rightarrow> string \<Rightarrow> (auth_tables, unit) dbm" where
  "DeleteUser q userID =
     andThen (exec q (\<lambda>t. Inr (length (filter (\<lambda>r. sql_eq q (du_ID r) userID) (a_users t)), t\<lparr>a_users := deleteRows (\<lambda>r. sql_eq q (du_ID r) userID) (a_users t)\<rparr>))) affected"

section \<open>Invitations\<close>

definition insertInvitation :: "sql \<Rightarrow> auth_json \<Rightarrow> invitation \<Rightarrow> string \<Rightarrow> auth_tables \<Rightarrow> store_error + unit \<times> auth_tables" where
  "insertInvitation q J invite permsJSON t =
     (case col_inviteRole J (iv_Role invite) of
        None \<Rightarrow> Inl SqlFault
      | Some r \<Rightarrow>
          (if \<exists>row \<in> set (a_invitations t). sql_eq q (di_ID row) (iv_ID invite) \<or> sql_eq q (di_Token row) (iv_Token invite) then Inl DuplicateKey
           else Inr ((), t\<lparr>a_invitations := a_invitations t @ [\<lparr> di_ID = iv_ID invite, di_OrgID = iv_OrgID invite, di_Email = iv_Email invite, di_Role = r,
                  di_Permissions = permsJSON, di_Token = iv_Token invite, di_InvitedBy = iv_InvitedBy invite, di_ExpiresAt = iv_ExpiresAt invite, di_AcceptedAt = None,
                  di_CreatedAt = iv_CreatedAt invite \<rparr>]\<rparr>)))"

definition CreateInvitation :: "sql \<Rightarrow> auth_json \<Rightarrow> string \<Rightarrow> int \<Rightarrow> invitation \<Rightarrow> (auth_tables, invitation) dbm" where
  "CreateInvitation q J uuid now invite0 =
     (let invite = invite0\<lparr> iv_ID := (if iv_ID invite0 = [] then uuid else iv_ID invite0), iv_CreatedAt := now \<rparr>
      in case enc_perms J (iv_Permissions invite) of
           None \<Rightarrow> fail MarshalFault
         | Some permsJSON \<Rightarrow> andThen (exec q (insertInvitation q J invite permsJSON)) (\<lambda>_. give invite))"

definition GetInvitationByToken :: "sql \<Rightarrow> auth_json \<Rightarrow> string \<Rightarrow> (auth_tables, invitation) dbm" where
  "GetInvitationByToken q J token =
     andThen (query q (\<lambda>t. firstRow (\<lambda>r. sql_eq q (di_Token r) token) (a_invitations t))) (\<lambda>row. decoded (toInvitation q J row))"

definition AcceptInvitation :: "sql \<Rightarrow> string \<Rightarrow> int \<Rightarrow> (auth_tables, unit) dbm" where
  "AcceptInvitation q invID now =
     andThen (exec q (\<lambda>t. let hit = (\<lambda>r. sql_eq q (di_ID r) invID \<and> di_AcceptedAt r = None)
                           in Inr (length (filter hit (a_invitations t)),
                                   t\<lparr>a_invitations := map (\<lambda>r. if hit r then r\<lparr>di_AcceptedAt := Some now\<rparr> else r) (a_invitations t)\<rparr>))) affected"

section \<open>E-mail settings\<close>

definition mysql_UpsertOrgEmailSettings :: "sql \<Rightarrow> org_email_settings \<Rightarrow> (auth_tables, unit) dbm" where
  "mysql_UpsertOrgEmailSettings q settings =
     exec q (\<lambda>t. Inr ((), t\<lparr>a_email :=
       (if \<exists>r \<in> set (a_email t). sql_eq q (oe_OrgID r) (oe_OrgID settings)
        then map (\<lambda>r. if sql_eq q (oe_OrgID r) (oe_OrgID settings) then settings\<lparr>oe_OrgID := oe_OrgID r\<rparr> else r) (a_email t)
        else a_email t @ [settings])\<rparr>))"

definition mysql_GetOrgEmailSettings :: "sql \<Rightarrow> string \<Rightarrow> (auth_tables, org_email_settings) dbm" where
  "mysql_GetOrgEmailSettings q orgID = query q (\<lambda>t. firstRow (\<lambda>r. sql_eq q (oe_OrgID r) orgID) (a_email t))"

definition mysql_DeleteOrgEmailSettings :: "sql \<Rightarrow> string \<Rightarrow> (auth_tables, unit) dbm" where
  "mysql_DeleteOrgEmailSettings q orgID = exec q (\<lambda>t. Inr ((), t\<lparr>a_email := deleteRows (\<lambda>r. sql_eq q (oe_OrgID r) orgID) (a_email t)\<rparr>))"

text \<open>The store that the vault wraps, with all tables.\<close>

definition auth_inner :: "sql \<Rightarrow> wf_tables db inner_store \<Rightarrow> auth_tables db inner_store" where
  "auth_inner q I = \<lparr>
     in_CreateWorkflow = (\<lambda>w. inWf (in_CreateWorkflow I w)),
     in_GetWorkflow = (\<lambda>i. inWf (in_GetWorkflow I i)),
     in_UpdateWorkflow = (\<lambda>w. inWf (in_UpdateWorkflow I w)),
     in_CreateWorkflowVersion = (\<lambda>w. inWf (in_CreateWorkflowVersion I w)),
     in_GetWorkflowVersion = (\<lambda>i k. inWf (in_GetWorkflowVersion I i k)),
     in_RestoreWorkflowVersion = (\<lambda>i k. inWf (in_RestoreWorkflowVersion I i k)),
     in_UpsertOrgEmailSettings = mysql_UpsertOrgEmailSettings q,
     in_GetOrgEmailSettings = mysql_GetOrgEmailSettings q \<rparr>"

end
