(* ===== verification/Email.thy ===== *)
theory Email
  imports Graders
begin

text \<open>
  Invitation e-mails (\<open>internal/email/sender.go\<close>). The template engine and the SMTP server are parameters: the engine renders a
  template or fails, the server answers the \<open>n\<close>-th command of a session. A session is the list of commands that were sent.
\<close>

definition DefaultSubject :: string where
  "DefaultSubject = ''You've been invited to join {{.OrgName}} on cogniflow''"

definition DefaultBody :: string where
  "DefaultBody = concat (map (\<lambda>l. l @ [CHR 0x0A])
     [''Hi,'', [],
      ''{{.InviterEmail}} has invited you to join {{.OrgName}} on cogniflow.'', [],
      ''Accept your invitation and set your password here:'',
      ''{{.InviteURL}}'', [],
      ''This link expires on {{.ExpiresAt.Format '' @ [CHR 0x22] @ ''January 2, 2006 at 3:04 PM UTC'' @ [CHR 0x22] @ ''}}.'', [],
      ''If you did not expect this invitation, you can safely ignore this email.''])"

record invite_data =
  id_OrgName :: string
  id_InviteURL :: string
  id_InviteeEmail :: string
  id_InviterEmail :: string
  id_ExpiresAt :: int

record email_sender =
  sd_host :: string
  sd_port :: string
  sd_user :: string
  sd_password :: string
  sd_from :: string

definition NewSender :: "string \<Rightarrow> string \<Rightarrow> string \<Rightarrow> string \<Rightarrow> string \<Rightarrow> email_sender" where
  "NewSender host port user password frm =
     \<lparr> sd_host = host, sd_port = (if port = [] then ''587'' else port), sd_user = user, sd_password = password, sd_from = frm \<rparr>"

record template_lib =
  tp_Parse :: "string \<Rightarrow> bool"
  tp_Execute :: "string \<Rightarrow> invite_data \<Rightarrow> string option"

datatype smtp_command = Dial string | StartTLS string | Auth string string string | Mail string | Rcpt string | Data | Write string | CloseData | Quit

record smtp_server =
  sm_STARTTLS :: bool
  sm_accepts :: "smtp_command \<Rightarrow> bool"

definition ParseTemplate :: "template_lib \<Rightarrow> string \<Rightarrow> bool" where
  "ParseTemplate T tmplStr = tp_Parse T tmplStr"

definition renderTemplate :: "template_lib \<Rightarrow> string \<Rightarrow> invite_data \<Rightarrow> string option" where
  "renderTemplate T tmplStr data =
     (if \<not> tp_Parse T tmplStr then None else case tp_Execute T tmplStr data of None \<Rightarrow> None | Some s \<Rightarrow> Some (TrimSpace s))"

definition sanitizeHeader :: "string \<Rightarrow> string" where
  "sanitizeHeader s = filter (\<lambda>r. r \<noteq> CHR 0x0D \<and> r \<noteq> CHR 0x0A) s"

abbreviation crlf :: string where
  "crlf \<equiv> [CHR 0x0D, CHR 0x0A]"

definition buildMessage :: "string \<Rightarrow> string \<Rightarrow> string \<Rightarrow> string \<Rightarrow> string" where
  "buildMessage frm to subject body =
     ''From: '' @ sanitizeHeader frm @ crlf @
     ''To: '' @ sanitizeHeader to @ crlf @
     ''Subject: '' @ sanitizeHeader subject @ crlf @
     ''Content-Type: text/plain; charset=utf-8'' @ crlf @
     crlf @ body"

text \<open>Commands in order, until one is refused: the commands sent and whether all were accepted.\<close>

fun session :: "smtp_server \<Rightarrow> smtp_command list \<Rightarrow> smtp_command list \<times> bool" where
  "session S [] = ([], True)"
| "session S (c # cs) = (if sm_accepts S c then (case session S cs of (sent, ok) \<Rightarrow> (c # sent, ok)) else ([c], False))"

definition SendInvite :: "template_lib \<Rightarrow> smtp_server \<Rightarrow> email_sender \<Rightarrow> string \<Rightarrow> invite_data \<Rightarrow> string \<Rightarrow> string \<Rightarrow> smtp_command list \<times> bool" where
  "SendInvite T S s to data subjectTmpl bodyTmpl =
     (case renderTemplate T (if subjectTmpl = [] then DefaultSubject else subjectTmpl) data of
        None \<Rightarrow> ([], False)
      | Some subject \<Rightarrow>
     (case renderTemplate T (if bodyTmpl = [] then DefaultBody else bodyTmpl) data of
        None \<Rightarrow> ([], False)
      | Some body \<Rightarrow>
          session S ([Dial (sd_host s @ '':'' @ sd_port s)] @
            (if sm_STARTTLS S then [StartTLS (sd_host s)] else []) @
            (if sd_user s \<noteq> [] then [Auth (sd_user s) (sd_password s) (sd_host s)] else []) @
            [Mail (sd_from s), Rcpt to, Data, Write (buildMessage (sd_from s) to subject body), CloseData, Quit])))"

section \<open>Header lines\<close>

text \<open>The lines of a message up to the first empty one, as a mail server reads them.\<close>

fun headerLines :: "string \<Rightarrow> string \<Rightarrow> string list" where
  "headerLines acc [] = [rev acc]"
| "headerLines acc [c] = [rev (c # acc)]"
| "headerLines acc (c # c' # s) =
     (if c = CHR 0x0D \<and> c' = CHR 0x0A then (if acc = [] then [] else rev acc # headerLines [] s) else headerLines (c # acc) (c' # s))"

lemma headerLines_line:
  "CHR 0x0D \<notin> set l \<Longrightarrow> l @ acc \<noteq> [] \<Longrightarrow> headerLines acc (l @ crlf @ s) = (rev acc @ l) # headerLines [] s"
proof (induction l arbitrary: acc)
  case (Cons c l)
  have "headerLines acc ((c # l) @ crlf @ s) = headerLines (c # acc) (l @ crlf @ s)"
    using Cons.prems(1) by (cases l) auto
  with Cons show ?case by simp
qed simp

lemma headerLines_block:
  "(\<And>l. l \<in> set ls \<Longrightarrow> CHR 0x0D \<notin> set l \<and> l \<noteq> []) \<Longrightarrow> headerLines [] (concat (map (\<lambda>l. l @ crlf) ls) @ crlf @ body) = ls"
proof (induction ls)
  case (Cons l ls)
  then have "headerLines [] (l @ crlf @ (concat (map (\<lambda>l. l @ crlf) ls) @ crlf @ body)) = l # headerLines [] (concat (map (\<lambda>l. l @ crlf) ls) @ crlf @ body)"
    using headerLines_line[of l "[]"] by simp
  with Cons show ?case by simp
qed simp

lemma sanitizeHeader_clean: "CHR 0x0D \<notin> set (sanitizeHeader s)" "CHR 0x0A \<notin> set (sanitizeHeader s)"
  by (auto simp: sanitizeHeader_def)

text \<open>
  No header can be injected: whatever the sender, the recipient and the rendered subject contain, a message has exactly four header
  lines, each the sanitised value behind its name.
\<close>

theorem message_headers:
  "headerLines [] (buildMessage frm to subject body) =
     [''From: '' @ sanitizeHeader frm, ''To: '' @ sanitizeHeader to, ''Subject: '' @ sanitizeHeader subject, ''Content-Type: text/plain; charset=utf-8'']"
proof -
  let ?ls = "[''From: '' @ sanitizeHeader frm, ''To: '' @ sanitizeHeader to, ''Subject: '' @ sanitizeHeader subject, ''Content-Type: text/plain; charset=utf-8'']"
  have "headerLines [] (concat (map (\<lambda>l. l @ crlf) ?ls) @ crlf @ body) = ?ls"
    by (rule headerLines_block) (auto simp: sanitizeHeader_clean)
  then show ?thesis by (simp add: buildMessage_def)
qed

end
