(* ===== verification/Auth_Handler.thy ===== *)
theory Auth_Handler
  imports Auth_Store Email
begin

text \<open>
  The endpoints for sessions, users, organisations and e-mail settings (\<open>internal/api/auth_handler.go\<close>,
  \<open>user_admin_handler.go\<close>, \<open>email_template_handler.go\<close>) and their routes in \<open>router.go\<close>. A request body is what the JSON decoder makes of it
  (\<open>None\<close>: refused). Requests are served one after the other; the texts of error messages are left out.
\<close>

section \<open>Surroundings\<close>

record auth_api =
  au_sql :: sql
  au_json :: auth_json
  au_uuid :: "nat \<Rightarrow> string"
  au_now :: "nat \<Rightarrow> int"
  au_jwt :: jwt_lib
  au_secret :: string
  au_ttl :: int
  au_bcrypt :: bcrypt_lib
  au_random :: "nat \<Rightarrow> nat list option"
  au_vault :: config_vault
  au_inner :: "wf_tables db inner_store"
  au_templates :: template_lib
  au_smtp :: "nat \<Rightarrow> smtp_server"
  au_frontendURL :: string

record auth_state =
  ad_db :: "auth_tables db"
  ad_rand :: nat
  ad_sent :: "smtp_command list list"

abbreviation nowOf :: "auth_api \<Rightarrow> auth_tables db \<Rightarrow> int" where
  "nowOf A d \<equiv> au_now A (clock d)"

abbreviation uuidOf :: "auth_api \<Rightarrow> auth_tables db \<Rightarrow> string" where
  "uuidOf A d \<equiv> au_uuid A (clock d)"

section \<open>Responses\<close>

record user_response =
  ur_ID :: string
  ur_OrgID :: string
  ur_OrgName :: string
  ur_Email :: string
  ur_Role :: string
  ur_Permissions :: "string list"
  ur_CreatedAt :: int

record settings_response =
  se_OrgID :: string
  se_SMTPHost :: string
  se_SMTPPort :: string
  se_SMTPUser :: string
  se_SMTPPassword :: string
  se_SMTPFrom :: string
  se_Subject :: string
  se_Body :: string
  se_SMTPConfigured :: bool
  se_IsDefault :: bool

datatype auth_body =
    Empty
  | SessionBody string user_response
  | UserBody user_response
  | InvitePreview string string string
  | UserList "user_response list"
  | InvitationBody string string string string int bool
  | OrgList "organization list"
  | OrgCreated organization user_response
  | SettingsBody settings_response

datatype auth_response = AuthJSON nat auth_body | AuthError nat string

abbreviation authInvalid :: auth_response where
  "authInvalid \<equiv> AuthError 400 ''VALIDATION_FAILED''"

abbreviation authInternal :: auth_response where
  "authInternal \<equiv> AuthError 500 ''INTERNAL_ERROR''"

abbreviation authRefused :: auth_response where
  "authRefused \<equiv> AuthError 401 ''UNAUTHORIZED''"

definition orNotFound :: "store_error \<Rightarrow> auth_response" where
  "orNotFound e = (if e = ErrNotFound then AuthError 404 ''NOT_FOUND'' else authInternal)"

definition toUserResponse :: "user \<Rightarrow> string \<Rightarrow> user_response" where
  "toUserResponse u orgName =
     \<lparr> ur_ID = u_ID u, ur_OrgID = u_OrgID u, ur_OrgName = orgName, ur_Email = u_Email u, ur_Role = u_Role u, ur_Permissions = u_Permissions u, ur_CreatedAt = u_CreatedAt u \<rparr>"

definition claimsOf :: "user \<Rightarrow> organization \<Rightarrow> claims" where
  "claimsOf user org =
     \<lparr> cl_UserID = u_ID user, cl_OrgID = u_OrgID user, cl_Email = u_Email user, cl_Role = u_Role user, cl_OrgName = og_Name org, cl_Permissions = u_Permissions user \<rparr>"

text \<open>\<open>ClaimsFrom\<close> without a check of its second result.\<close>

definition claimsOrZero :: "ctx \<Rightarrow> claims" where
  "claimsOrZero ctx = (case cx_claims ctx of
     None \<Rightarrow> \<lparr> cl_UserID = [], cl_OrgID = [], cl_Email = [], cl_Role = [], cl_OrgName = [], cl_Permissions = [] \<rparr> | Some c \<Rightarrow> c)"

section \<open>Sessions\<close>

text \<open>The common end of a login and of an accepted invitation: load the organisation and issue a token.\<close>

definition issue :: "auth_api \<Rightarrow> nat \<Rightarrow> user \<Rightarrow> auth_state \<Rightarrow> auth_response \<times> auth_state" where
  "issue A code user st =
     (case GetOrganization (au_sql A) (u_OrgID user) (ad_db st) of
        (Inl _, d) \<Rightarrow> (authInternal, st\<lparr>ad_db := d\<rparr>)
      | (Inr org, d) \<Rightarrow>
          (case Sign (au_jwt A) (nowOf A d) (claimsOf user org) (au_secret A) (au_ttl A) of
             None \<Rightarrow> (authInternal, st\<lparr>ad_db := d\<rparr>)
           | Some token \<Rightarrow> (AuthJSON code (SessionBody token (toUserResponse user (og_Name org))), st\<lparr>ad_db := d\<rparr>)))"

definition login :: "auth_api \<Rightarrow> (string \<times> string) option \<Rightarrow> auth_state \<Rightarrow> auth_response \<times> auth_state" where
  "login A reqBody st =
     (case reqBody of
        None \<Rightarrow> (authInvalid, st)
      | Some (email, password) \<Rightarrow>
          (if email = [] \<or> password = [] then (authInvalid, st)
           else case GetUserByEmail (au_sql A) (au_json A) email (ad_db st) of
                  (Inl _, d) \<Rightarrow> (authRefused, st\<lparr>ad_db := d\<rparr>)
                | (Inr user, d) \<Rightarrow>
                    (if \<not> CheckPassword (au_bcrypt A) (u_PasswordHash user) password then (authRefused, st\<lparr>ad_db := d\<rparr>)
                     else issue A 200 user (st\<lparr>ad_db := d\<rparr>))))"

definition me :: "auth_api \<Rightarrow> ctx \<Rightarrow> auth_state \<Rightarrow> auth_response \<times> auth_state" where
  "me A ctx st =
     (case cx_claims ctx of
        None \<Rightarrow> (authRefused, st)
      | Some claims \<Rightarrow>
          (case GetUser (au_sql A) (au_json A) (cl_UserID claims) (ad_db st) of
             (Inl e, d) \<Rightarrow> ((if e = ErrNotFound then authRefused else authInternal), st\<lparr>ad_db := d\<rparr>)
           | (Inr user, d) \<Rightarrow>
               (case GetOrganization (au_sql A) (u_OrgID user) d of
                  (Inl _, d') \<Rightarrow> (authInternal, st\<lparr>ad_db := d'\<rparr>)
                | (Inr org, d') \<Rightarrow> (AuthJSON 200 (UserBody (toUserResponse user (og_Name org))), st\<lparr>ad_db := d'\<rparr>))))"

definition getInvite :: "auth_api \<Rightarrow> string \<Rightarrow> auth_state \<Rightarrow> auth_response \<times> auth_state" where
  "getInvite A token st =
     (case GetInvitationByToken (au_sql A) (au_json A) token (ad_db st) of
        (Inl e, d) \<Rightarrow> (orNotFound e, st\<lparr>ad_db := d\<rparr>)
      | (Inr invite, d) \<Rightarrow>
          (if iv_AcceptedAt invite \<noteq> None then (AuthError 410 ''INVITATION_USED'', st\<lparr>ad_db := d\<rparr>)
           else if nowOf A d > iv_ExpiresAt invite then (AuthError 410 ''INVITATION_EXPIRED'', st\<lparr>ad_db := d\<rparr>)
           else case GetOrganization (au_sql A) (iv_OrgID invite) d of
                  (Inl _, d') \<Rightarrow> (authInternal, st\<lparr>ad_db := d'\<rparr>)
                | (Inr org, d') \<Rightarrow> (AuthJSON 200 (InvitePreview (iv_Email invite) (iv_Role invite) (og_Name org)), st\<lparr>ad_db := d'\<rparr>)))"

definition invitedUser :: "invitation \<Rightarrow> string \<Rightarrow> user" where
  "invitedUser invite hash =
     \<lparr> u_ID = [], u_OrgID = iv_OrgID invite, u_Email = iv_Email invite, u_PasswordHash = hash, u_Role = iv_Role invite, u_Permissions = iv_Permissions invite,
       u_CreatedAt = 0, u_UpdatedAt = 0 \<rparr>"

text \<open>A failure to mark the invitation as accepted is only logged.\<close>

definition acceptInvite :: "auth_api \<Rightarrow> (string \<times> string) option \<Rightarrow> auth_state \<Rightarrow> auth_response \<times> auth_state" where
  "acceptInvite A reqBody st =
     (case reqBody of
        None \<Rightarrow> (authInvalid, st)
      | Some (token, password) \<Rightarrow>
          (if token = [] \<or> password = [] \<or> length password < 8 then (authInvalid, st)
           else case GetInvitationByToken (au_sql A) (au_json A) token (ad_db st) of
                  (Inl e, d) \<Rightarrow> (orNotFound e, st\<lparr>ad_db := d\<rparr>)
                | (Inr invite, d) \<Rightarrow>
                    (if iv_AcceptedAt invite \<noteq> None then (AuthError 409 ''INVITATION_USED'', st\<lparr>ad_db := d\<rparr>)
                     else if nowOf A d > iv_ExpiresAt invite then (AuthError 410 ''INVITATION_EXPIRED'', st\<lparr>ad_db := d\<rparr>)
                     else case HashPassword (au_bcrypt A) password of
                            None \<Rightarrow> (authInternal, st\<lparr>ad_db := d\<rparr>)
                          | Some hash \<Rightarrow>
                              (case CreateUser (au_sql A) (au_json A) (uuidOf A d) (nowOf A d) (invitedUser invite hash) d of
                                 (Inl e, d1) \<Rightarrow> ((if e = ErrDuplicateEmail then AuthError 409 ''EMAIL_IN_USE'' else authInternal), st\<lparr>ad_db := d1\<rparr>)
                               | (Inr user, d1) \<Rightarrow>
                                   issue A 201 user (st\<lparr>ad_db := snd (AcceptInvitation (au_sql A) (iv_ID invite) (nowOf A d) d1)\<rparr>)))))"

section \<open>The users of an organisation\<close>

definition listOrgUsers :: "auth_api \<Rightarrow> ctx \<Rightarrow> string \<Rightarrow> auth_state \<Rightarrow> auth_response \<times> auth_state" where
  "listOrgUsers A ctx orgParam st =
     (let claims = claimsOrZero ctx;
          orgID = (if cl_Role claims = ''system_admin'' \<and> orgParam \<noteq> [] then orgParam else cl_OrgID claims)
      in case ListUsers (au_sql A) (au_json A) orgID (ad_db st) of
           (Inl _, d) \<Rightarrow> (authInternal, st\<lparr>ad_db := d\<rparr>)
         | (Inr users, d) \<Rightarrow>
             (case GetOrganization (au_sql A) orgID d of
                (Inl _, d') \<Rightarrow> (authInternal, st\<lparr>ad_db := d'\<rparr>)
              | (Inr org, d') \<Rightarrow> (AuthJSON 200 (UserList (map (\<lambda>u. toUserResponse u (og_Name org)) users)), st\<lparr>ad_db := d'\<rparr>)))"

definition newInviteToken :: "auth_api \<Rightarrow> nat \<Rightarrow> string option \<times> nat" where
  "newInviteToken A n = (map_option (\<lambda>b. concat (map hexDigits b)) (au_random A n), Suc n)"

text \<open>Whether the invitation e-mail went out; every failure on the way is only logged.\<close>

definition mailInvite :: "auth_api \<Rightarrow> claims \<Rightarrow> invitation \<Rightarrow> auth_state \<Rightarrow> bool \<times> auth_state" where
  "mailInvite A claims invite st =
     (case GetOrgEmailSettings (au_vault A) (auth_inner (au_sql A) (au_inner A)) (cl_OrgID claims) (ad_db st) of
        (Inl _, d) \<Rightarrow> (False, st\<lparr>ad_db := d\<rparr>)
      | (Inr settings, d) \<Rightarrow>
          (if oe_SMTPHost settings = [] then (False, st\<lparr>ad_db := d\<rparr>)
           else
             (let sender = NewSender (oe_SMTPHost settings) (oe_SMTPPort settings) (oe_SMTPUser settings) (oe_SMTPPassword settings) (oe_SMTPFrom settings)
              in case GetOrganization (au_sql A) (cl_OrgID claims) d of
                   (org, d') \<Rightarrow>
                     (case SendInvite (au_templates A) (au_smtp A (length (ad_sent st))) sender (iv_Email invite)
                             \<lparr> id_OrgName = (case org of Inl _ \<Rightarrow> [] | Inr org' \<Rightarrow> og_Name org'), id_InviteURL = au_frontendURL A @ ''/invite/'' @ iv_Token invite,
                               id_InviteeEmail = iv_Email invite, id_InviterEmail = cl_Email claims, id_ExpiresAt = iv_ExpiresAt invite \<rparr>
                             (oe_Subject settings) (oe_Body settings) of
                        (sent, ok) \<Rightarrow> (ok, st\<lparr> ad_db := d', ad_sent := ad_sent st @ [sent] \<rparr>)))))"

definition newInvitation :: "claims \<Rightarrow> string \<Rightarrow> string \<Rightarrow> string list \<Rightarrow> string \<Rightarrow> int \<Rightarrow> invitation" where
  "newInvitation claims email role permissions token now =
     \<lparr> iv_ID = [], iv_OrgID = cl_OrgID claims, iv_Email = email, iv_Role = role, iv_Permissions = permissions, iv_Token = token, iv_InvitedBy = cl_UserID claims,
       iv_ExpiresAt = now + 72 * 3600000, iv_AcceptedAt = None, iv_CreatedAt = 0 \<rparr>"

definition inviteUser :: "auth_api \<Rightarrow> ctx \<Rightarrow> (string \<times> string \<times> string list) option \<Rightarrow> auth_state \<Rightarrow> auth_response \<times> auth_state" where
  "inviteUser A ctx reqBody st =
     (let claims = claimsOrZero ctx
      in case reqBody of
           None \<Rightarrow> (authInvalid, st)
         | Some (email, role0, permissions0) \<Rightarrow>
             (let role = (if role0 = [] then ''member'' else role0)
              in if email = [] \<or> role \<noteq> ''org_admin'' \<and> role \<noteq> ''member'' then (authInvalid, st)
                 else case newInviteToken A (ad_rand st) of
                        (None, n) \<Rightarrow> (authInternal, st\<lparr>ad_rand := n\<rparr>)
                      | (Some token, n) \<Rightarrow>
                          (case CreateInvitation (au_sql A) (au_json A) (uuidOf A (ad_db st)) (nowOf A (ad_db st))
                                  (newInvitation claims email role (if permissions0 = [] then DefaultPermissions else permissions0) token (nowOf A (ad_db st))) (ad_db st) of
                             (Inl _, d) \<Rightarrow> (authInternal, st\<lparr> ad_db := d, ad_rand := n \<rparr>)
                           | (Inr invite, d) \<Rightarrow>
                               (case mailInvite A claims invite (st\<lparr> ad_db := d, ad_rand := n \<rparr>) of
                                  (emailSent, st') \<Rightarrow>
                                    (AuthJSON 201 (InvitationBody (iv_ID invite) (iv_Email invite) (iv_Role invite) (iv_Token invite) (iv_ExpiresAt invite) emailSent), st')))))"

text \<open>The check that three endpoints share: a caller who is not system_admin may only touch the users of his organisation that are not system_admin.\<close>

definition checkTarget :: "auth_api \<Rightarrow> claims \<Rightarrow> string \<Rightarrow> auth_state \<Rightarrow> auth_response option \<times> auth_state" where
  "checkTarget A claims targetID st =
     (if cl_Role claims = ''system_admin'' then (None, st)
      else case GetUser (au_sql A) (au_json A) targetID (ad_db st) of
             (Inl e, d) \<Rightarrow> (Some (orNotFound e), st\<lparr>ad_db := d\<rparr>)
           | (Inr target, d) \<Rightarrow>
               (if u_OrgID target \<noteq> cl_OrgID claims then (Some (AuthError 404 ''NOT_FOUND''), st\<lparr>ad_db := d\<rparr>)
                else if u_Role target = ''system_admin'' then (Some (AuthError 403 ''FORBIDDEN''), st\<lparr>ad_db := d\<rparr>)
                else (None, st\<lparr>ad_db := d\<rparr>)))"

text \<open>The end of these endpoints.\<close>

definition finish :: "(store_error + unit) \<times> auth_tables db \<Rightarrow> auth_state \<Rightarrow> auth_response \<times> auth_state" where
  "finish r st = (case r of (Inl e, d) \<Rightarrow> (orNotFound e, st\<lparr>ad_db := d\<rparr>) | (Inr _, d) \<Rightarrow> (AuthJSON 204 Empty, st\<lparr>ad_db := d\<rparr>))"

definition updateOrgUserRole :: "auth_api \<Rightarrow> ctx \<Rightarrow> string \<Rightarrow> string option \<Rightarrow> auth_state \<Rightarrow> auth_response \<times> auth_state" where
  "updateOrgUserRole A ctx targetID reqBody st =
     (let claims = claimsOrZero ctx
      in if targetID = cl_UserID claims then (authInvalid, st)
         else case reqBody of
                None \<Rightarrow> (authInvalid, st)
              | Some role \<Rightarrow>
                  (if role = ''system_admin'' \<and> cl_Role claims \<noteq> ''system_admin'' then (AuthError 403 ''FORBIDDEN'', st)
                   else if role = [] then (authInvalid, st)
                   else case checkTarget A claims targetID st of
                          (Some r, st') \<Rightarrow> (r, st')
                        | (None, st') \<Rightarrow> finish (UpdateUserRole (au_sql A) (au_json A) (nowOf A (ad_db st')) targetID role (ad_db st')) st'))"

text \<open>A missing \<open>permissions\<close> array is \<open>Some None\<close>.\<close>

definition updateOrgUserPermissions :: "auth_api \<Rightarrow> ctx \<Rightarrow> string \<Rightarrow> string list option option \<Rightarrow> auth_state \<Rightarrow> auth_response \<times> auth_state" where
  "updateOrgUserPermissions A ctx targetID reqBody st =
     (let claims = claimsOrZero ctx
      in case reqBody of
           Some (Some permissions) \<Rightarrow>
             (case checkTarget A claims targetID st of
                (Some r, st') \<Rightarrow> (r, st')
              | (None, st') \<Rightarrow> finish (UpdateUserPermissions (au_sql A) (au_json A) (nowOf A (ad_db st')) targetID permissions (ad_db st')) st')
         | _ \<Rightarrow> (authInvalid, st))"

definition removeOrgUser :: "auth_api \<Rightarrow> ctx \<Rightarrow> string \<Rightarrow> auth_state \<Rightarrow> auth_response \<times> auth_state" where
  "removeOrgUser A ctx targetID st =
     (let claims = claimsOrZero ctx
      in if targetID = cl_UserID claims then (authInvalid, st)
         else case checkTarget A claims targetID st of
                (Some r, st') \<Rightarrow> (r, st')
              | (None, st') \<Rightarrow> finish (DeleteUser (au_sql A) targetID (ad_db st')) st')"

section \<open>System administration\<close>

definition listOrgs :: "auth_api \<Rightarrow> auth_state \<Rightarrow> auth_response \<times> auth_state" where
  "listOrgs A st =
     (case ListOrganizations (au_sql A) (ad_db st) of
        (Inl _, d) \<Rightarrow> (authInternal, st\<lparr>ad_db := d\<rparr>)
      | (Inr orgs, d) \<Rightarrow> (AuthJSON 200 (OrgList orgs), st\<lparr>ad_db := d\<rparr>))"

definition createOrg :: "auth_api \<Rightarrow> (string \<times> string \<times> string) option \<Rightarrow> auth_state \<Rightarrow> auth_response \<times> auth_state" where
  "createOrg A reqBody st =
     (case reqBody of
        None \<Rightarrow> (authInvalid, st)
      | Some (name, adminEmail, adminPassword) \<Rightarrow>
          (if name = [] \<or> adminEmail = [] \<or> adminPassword = [] \<or> length adminPassword < 8 then (authInvalid, st)
           else case CreateOrganization (au_sql A) (uuidOf A (ad_db st)) (nowOf A (ad_db st)) \<lparr> og_ID = [], og_Name = name, og_CreatedAt = 0 \<rparr> (ad_db st) of
                  (Inl _, d) \<Rightarrow> (authInternal, st\<lparr>ad_db := d\<rparr>)
                | (Inr org, d) \<Rightarrow>
                    (case HashPassword (au_bcrypt A) adminPassword of
                       None \<Rightarrow> (authInternal, st\<lparr>ad_db := d\<rparr>)
                     | Some hash \<Rightarrow>
                         (case CreateUser (au_sql A) (au_json A) (uuidOf A d) (nowOf A d)
                                 \<lparr> u_ID = [], u_OrgID = og_ID org, u_Email = adminEmail, u_PasswordHash = hash, u_Role = ''org_admin'',
                                   u_Permissions = DefaultPermissions, u_CreatedAt = 0, u_UpdatedAt = 0 \<rparr> d of
                            (Inl e, d1) \<Rightarrow> ((if e = ErrDuplicateEmail then AuthError 409 ''EMAIL_IN_USE'' else authInternal), st\<lparr>ad_db := d1\<rparr>)
                          | (Inr admin, d1) \<Rightarrow> (AuthJSON 201 (OrgCreated org (toUserResponse admin (og_Name org))), st\<lparr>ad_db := d1\<rparr>)))))"

definition deleteOrg :: "auth_api \<Rightarrow> string \<Rightarrow> auth_state \<Rightarrow> auth_response \<times> auth_state" where
  "deleteOrg A i st = finish (DeleteOrganization (au_sql A) i (ad_db st)) st"

text \<open>The cache of organisation names; an organisation that cannot be loaded has no name.\<close>

fun nameUsers :: "auth_api \<Rightarrow> (string \<times> string) list \<Rightarrow> user list \<Rightarrow> auth_tables db \<Rightarrow> user_response list \<times> auth_tables db" where
  "nameUsers A orgNames [] d = ([], d)"
| "nameUsers A orgNames (u # us) d =
     (case map_of orgNames (u_OrgID u) of
        Some name \<Rightarrow> (case nameUsers A orgNames us d of (rs, d') \<Rightarrow> (toUserResponse u name # rs, d'))
      | None \<Rightarrow>
          (case GetOrganization (au_sql A) (u_OrgID u) d of
             (org, d1) \<Rightarrow>
               (let name = (case org of Inl _ \<Rightarrow> [] | Inr org' \<Rightarrow> og_Name org')
                in case nameUsers A ((u_OrgID u, name) # orgNames) us d1 of (rs, d') \<Rightarrow> (toUserResponse u name # rs, d'))))"

definition listAllUsers :: "auth_api \<Rightarrow> auth_state \<Rightarrow> auth_response \<times> auth_state" where
  "listAllUsers A st =
     (case ListUsers (au_sql A) (au_json A) [] (ad_db st) of
        (Inl _, d) \<Rightarrow> (authInternal, st\<lparr>ad_db := d\<rparr>)
      | (Inr users, d) \<Rightarrow> (case nameUsers A [] users d of (resp, d') \<Rightarrow> (AuthJSON 200 (UserList resp), st\<lparr>ad_db := d'\<rparr>)))"

definition deleteUser :: "auth_api \<Rightarrow> ctx \<Rightarrow> string \<Rightarrow> auth_state \<Rightarrow> auth_response \<times> auth_state" where
  "deleteUser A ctx targetID st =
     (if targetID = cl_UserID (claimsOrZero ctx) then (authInvalid, st) else finish (DeleteUser (au_sql A) targetID (ad_db st)) st)"

section \<open>E-mail settings\<close>

definition passwordMask :: string where
  "passwordMask = ''***''"

definition toSettingsResponse :: "org_email_settings \<Rightarrow> bool \<Rightarrow> settings_response" where
  "toSettingsResponse s isDefault =
     \<lparr> se_OrgID = oe_OrgID s, se_SMTPHost = oe_SMTPHost s, se_SMTPPort = oe_SMTPPort s, se_SMTPUser = oe_SMTPUser s,
       se_SMTPPassword = (if oe_SMTPPassword s \<noteq> [] then passwordMask else []), se_SMTPFrom = oe_SMTPFrom s, se_Subject = oe_Subject s, se_Body = oe_Body s,
       se_SMTPConfigured = (oe_SMTPHost s \<noteq> []), se_IsDefault = isDefault \<rparr>"

definition loadSettings :: "auth_api \<Rightarrow> string \<Rightarrow> auth_tables db \<Rightarrow> (vault_error + org_email_settings) \<times> auth_tables db" where
  "loadSettings A orgID d = GetOrgEmailSettings (au_vault A) (auth_inner (au_sql A) (au_inner A)) orgID d"

definition getOrgEmailSettings :: "auth_api \<Rightarrow> ctx \<Rightarrow> auth_state \<Rightarrow> auth_response \<times> auth_state" where
  "getOrgEmailSettings A ctx st =
     (let orgID = cl_OrgID (claimsOrZero ctx)
      in case loadSettings A orgID (ad_db st) of
           (Inl e, d) \<Rightarrow>
             ((if e = FromStore ErrNotFound
               then AuthJSON 200 (SettingsBody (toSettingsResponse \<lparr> oe_OrgID = orgID, oe_SMTPHost = [], oe_SMTPPort = ''587'', oe_SMTPUser = [], oe_SMTPPassword = [],
                 oe_SMTPFrom = [], oe_Subject = DefaultSubject, oe_Body = DefaultBody \<rparr> True))
               else authInternal), st\<lparr>ad_db := d\<rparr>)
         | (Inr settings, d) \<Rightarrow>
             (let resp = toSettingsResponse settings False
              in (AuthJSON 200 (SettingsBody (resp\<lparr> se_Subject := (if oe_Subject settings = [] then DefaultSubject else se_Subject resp),
                    se_Body := (if oe_Body settings = [] then DefaultBody else se_Body resp) \<rparr>)), st\<lparr>ad_db := d\<rparr>)))"

text \<open>
  The body that the endpoint of an organisation and the one of the system administrator share. The identifier in the request body is
  not read.
\<close>

definition upsertSettings :: "auth_api \<Rightarrow> string \<Rightarrow> org_email_settings option \<Rightarrow> auth_state \<Rightarrow> auth_response \<times> auth_state" where
  "upsertSettings A orgID reqBody st =
     (case reqBody of
        None \<Rightarrow> (authInvalid, st)
      | Some body \<Rightarrow>
          (if oe_Subject body \<noteq> [] \<and> \<not> ParseTemplate (au_templates A) (oe_Subject body) \<or> oe_Body body \<noteq> [] \<and> \<not> ParseTemplate (au_templates A) (oe_Body body)
           then (AuthError 422 ''INVALID_TEMPLATE'', st)
           else
             (case (if oe_SMTPPassword body = passwordMask
                    then (case loadSettings A orgID (ad_db st) of (Inl _, d) \<Rightarrow> ([], d) | (Inr existing, d) \<Rightarrow> (oe_SMTPPassword existing, d))
                    else (oe_SMTPPassword body, ad_db st)) of
                (password, d) \<Rightarrow>
                  (let settings = body\<lparr> oe_OrgID := orgID, oe_SMTPPassword := password, oe_SMTPPort := (if oe_SMTPPort body = [] then ''587'' else oe_SMTPPort body) \<rparr>
                   in case UpsertOrgEmailSettings (au_vault A) (auth_inner (au_sql A) (au_inner A)) settings (d, ad_rand st) of
                        (Inl _, d', n) \<Rightarrow> (authInternal, st\<lparr> ad_db := d', ad_rand := n \<rparr>)
                      | (Inr _, d', n) \<Rightarrow> (AuthJSON 200 (SettingsBody (toSettingsResponse settings False)), st\<lparr> ad_db := d', ad_rand := n \<rparr>)))))"

definition upsertOrgEmailSettings :: "auth_api \<Rightarrow> ctx \<Rightarrow> org_email_settings option \<Rightarrow> auth_state \<Rightarrow> auth_response \<times> auth_state" where
  "upsertOrgEmailSettings A ctx reqBody st = upsertSettings A (cl_OrgID (claimsOrZero ctx)) reqBody st"

definition upsertOrgEmailSettingsAdmin :: "auth_api \<Rightarrow> string \<Rightarrow> org_email_settings option \<Rightarrow> auth_state \<Rightarrow> auth_response \<times> auth_state" where
  "upsertOrgEmailSettingsAdmin A orgID reqBody st = (if orgID = [] then (authInvalid, st) else upsertSettings A orgID reqBody st)"

definition deleteOrgEmailSettings :: "auth_api \<Rightarrow> ctx \<Rightarrow> auth_state \<Rightarrow> auth_response \<times> auth_state" where
  "deleteOrgEmailSettings A ctx st =
     (case mysql_DeleteOrgEmailSettings (au_sql A) (cl_OrgID (claimsOrZero ctx)) (ad_db st) of
        (Inl _, d) \<Rightarrow> (authInternal, st\<lparr>ad_db := d\<rparr>)
      | (Inr _, d) \<Rightarrow> (AuthJSON 204 Empty, st\<lparr>ad_db := d\<rparr>))"

section \<open>Routes\<close>

datatype auth_request =
    PostLogin "(string \<times> string) option"
  | GetInvite string
  | PostAcceptInvite "(string \<times> string) option"
  | GetMe
  | GetOrgUsers string
  | PostInvite "(string \<times> string \<times> string list) option"
  | PutUserRole string "string option"
  | PutUserPermissions string "string list option option"
  | DeleteOrgUser string
  | GetEmailSettings
  | PutEmailSettings "org_email_settings option"
  | DeleteEmailSettings
  | PutAdminEmailSettings string "org_email_settings option"
  | GetAdminOrgs
  | PostAdminOrg "(string \<times> string \<times> string) option"
  | DeleteAdminOrg string
  | GetAdminUsers
  | DeleteAdminUser string
  | PutAdminUserRole string "string option"
  | PutAdminUserPermissions string "string list option option"

definition answer :: "(ctx \<Rightarrow> 's \<Rightarrow> 'r \<times> 's) \<Rightarrow> ('s, 'r) handler" where
  "answer h ctx s = (case h ctx s of (r, s') \<Rightarrow> (Inr r, s'))"

abbreviation orgAdmins :: "string list" where
  "orgAdmins \<equiv> [''org_admin'', ''system_admin'']"

abbreviation systemAdmins :: "string list" where
  "systemAdmins \<equiv> [''system_admin'']"

definition authGate :: "auth_api \<Rightarrow> auth_state \<Rightarrow> gate" where
  "authGate A st = \<lparr> ga_jwt = au_jwt A, ga_secret = au_secret A, ga_now = nowOf A (ad_db st) \<rparr>"

fun authRoute :: "auth_api \<Rightarrow> gate \<Rightarrow> string \<Rightarrow> auth_request \<Rightarrow> auth_state \<Rightarrow> (guard_error + auth_response) \<times> auth_state" where
  "authRoute A G hdr (PostLogin b) = mux_public (answer (\<lambda>_. login A b))"
| "authRoute A G hdr (GetInvite t) = mux_public (answer (\<lambda>_. getInvite A t))"
| "authRoute A G hdr (PostAcceptInvite b) = mux_public (answer (\<lambda>_. acceptInvite A b))"
| "authRoute A G hdr GetMe = mux_authed G hdr (answer (me A))"
| "authRoute A G hdr (GetOrgUsers p) = mux_role G hdr orgAdmins (answer (\<lambda>c. listOrgUsers A c p))"
| "authRoute A G hdr (PostInvite b) = mux_role G hdr orgAdmins (answer (\<lambda>c. inviteUser A c b))"
| "authRoute A G hdr (PutUserRole i b) = mux_role G hdr orgAdmins (answer (\<lambda>c. updateOrgUserRole A c i b))"
| "authRoute A G hdr (PutUserPermissions i b) = mux_role G hdr orgAdmins (answer (\<lambda>c. updateOrgUserPermissions A c i b))"
| "authRoute A G hdr (DeleteOrgUser i) = mux_role G hdr orgAdmins (answer (\<lambda>c. removeOrgUser A c i))"
| "authRoute A G hdr GetEmailSettings = mux_role G hdr orgAdmins (answer (getOrgEmailSettings A))"
| "authRoute A G hdr (PutEmailSettings b) = mux_role G hdr orgAdmins (answer (\<lambda>c. upsertOrgEmailSettings A c b))"
| "authRoute A G hdr DeleteEmailSettings = mux_role G hdr orgAdmins (answer (deleteOrgEmailSettings A))"
| "authRoute A G hdr (PutAdminEmailSettings i b) = mux_role G hdr systemAdmins (answer (\<lambda>_. upsertOrgEmailSettingsAdmin A i b))"
| "authRoute A G hdr GetAdminOrgs = mux_role G hdr systemAdmins (answer (\<lambda>_. listOrgs A))"
| "authRoute A G hdr (PostAdminOrg b) = mux_role G hdr systemAdmins (answer (\<lambda>_. createOrg A b))"
| "authRoute A G hdr (DeleteAdminOrg i) = mux_role G hdr systemAdmins (answer (\<lambda>_. deleteOrg A i))"
| "authRoute A G hdr GetAdminUsers = mux_role G hdr systemAdmins (answer (\<lambda>_. listAllUsers A))"
| "authRoute A G hdr (DeleteAdminUser i) = mux_role G hdr systemAdmins (answer (\<lambda>c. deleteUser A c i))"
| "authRoute A G hdr (PutAdminUserRole i b) = mux_role G hdr systemAdmins (answer (\<lambda>c. updateOrgUserRole A c i b))"
| "authRoute A G hdr (PutAdminUserPermissions i b) = mux_role G hdr systemAdmins (answer (\<lambda>c. updateOrgUserPermissions A c i b))"

definition serveAuth :: "auth_api \<Rightarrow> string \<times> auth_request \<Rightarrow> auth_state \<Rightarrow> (guard_error + auth_response) \<times> auth_state" where
  "serveAuth A r st = authRoute A (authGate A st) (fst r) (snd r) st"

end
