(* ===== verification/Auth_Steps.thy ===== *)
theory Auth_Steps
  imports Auth_Handler Workflow_Store_Props
begin

text \<open>
  The abstract specification of user administration: what a caller may do to the tables of users, invitations and organisations, as a step
  relation, and the proof that every request, whatever the database does, performs only steps that are permitted to its caller.
\<close>

section \<open>Permitted steps\<close>

text \<open>\<open>None\<close> is a caller without a valid token.\<close>

definition isSystemAdmin :: "claims option \<Rightarrow> bool" where
  "isSystemAdmin c \<longleftrightarrow> (\<exists>cl. c = Some cl \<and> cl_Role cl = ''system_admin'')"

definition isAdmin :: "claims option \<Rightarrow> bool" where
  "isAdmin c \<longleftrightarrow> (\<exists>cl. c = Some cl \<and> (cl_Role cl = ''org_admin'' \<or> cl_Role cl = ''system_admin''))"

definition orgOf :: "claims option \<Rightarrow> string" where
  "orgOf c = (case c of None \<Rightarrow> [] | Some cl \<Rightarrow> cl_OrgID cl)"

text \<open>The users a caller may change.\<close>

definition mayTouch :: "sql \<Rightarrow> claims option \<Rightarrow> string \<Rightarrow> auth_tables \<Rightarrow> bool" where
  "mayTouch q c i t \<longleftrightarrow> isSystemAdmin c \<or>
     isAdmin c \<and> (\<exists>r. find (\<lambda>r. sql_eq q (du_ID r) i) (a_users t) = Some r \<and> du_OrgID r = orgOf c \<and> du_Role r \<noteq> ''system_admin'')"

definition freshUser :: "sql \<Rightarrow> auth_json \<Rightarrow> db_user \<Rightarrow> auth_tables \<Rightarrow> bool" where
  "freshUser q J u t \<longleftrightarrow> (\<exists>ps. enc_perms J ps = Some (du_Permissions u)) \<and>
     (\<forall>r \<in> set (a_users t). \<not> sql_eq q (du_ID r) (du_ID u) \<and> \<not> sql_eq q (du_Email r) (du_Email u))"

text \<open>
  A step belongs to the request \<open>rq\<close> of a caller \<open>c\<close>: an account is created only for an open invitation that the request names by its token, not after the
  invitation has expired, and only that invitation is marked, once its account exists; a role is given only to the user and in the spelling that the request names.
\<close>

inductive permitted :: "sql \<Rightarrow> auth_json \<Rightarrow> claims option \<Rightarrow> auth_request \<Rightarrow> auth_tables \<Rightarrow> auth_tables \<Rightarrow> bool" for q J c rq where
  invite: "\<lbrakk>rq = PostInvite (Some (di_Email i, r0, ps0)); r = (if r0 = [] then ''member'' else r0); isAdmin c; di_OrgID i = orgOf c; r \<in> {''org_admin'', ''member''}; col_inviteRole J r = Some (di_Role i); enc_perms J ps = Some (di_Permissions i);
      \<forall>row \<in> set (a_invitations t). \<not> sql_eq q (di_ID row) (di_ID i) \<and> \<not> sql_eq q (di_Token row) (di_Token i)\<rbrakk>
    \<Longrightarrow> permitted q J c rq t (t\<lparr>a_invitations := a_invitations t @ [i]\<rparr>)"
| accept: "\<lbrakk>rq = PostAcceptInvite (Some (token, password)); sql_eq q (di_Token i) token; du_CreatedAt u \<le> di_ExpiresAt i;
      i \<in> set (a_invitations t); di_AcceptedAt i = None; du_OrgID u = di_OrgID i; du_Email u = di_Email i; col_role J (di_Role i) = Some (du_Role u); freshUser q J u t\<rbrakk>
    \<Longrightarrow> permitted q J c rq t (t\<lparr>a_users := a_users t @ [u]\<rparr>)"
| mark: "\<lbrakk>rq = PostAcceptInvite (Some (token, password)); sql_eq q (di_Token i) token; now \<le> di_ExpiresAt i; i \<in> set (a_invitations t); di_AcceptedAt i = None;
      u \<in> set (a_users t); du_OrgID u = di_OrgID i; du_Email u = di_Email i\<rbrakk>
    \<Longrightarrow> permitted q J c rq t (t\<lparr>a_invitations := map (\<lambda>r. if sql_eq q (di_ID r) (di_ID i) \<and> di_AcceptedAt r = None then r\<lparr>di_AcceptedAt := Some now\<rparr> else r) (a_invitations t)\<rparr>)"
| setRole: "\<lbrakk>rq \<in> {PutUserRole i (Some r), PutAdminUserRole i (Some r)}; mayTouch q c i t; r = ''system_admin'' \<longrightarrow> isSystemAdmin c; col_role J r = Some r'\<rbrakk>
    \<Longrightarrow> permitted q J c rq t (snd (updateUsers q now i (\<lambda>row. row\<lparr>du_Role := r'\<rparr>) t))"
| setPermissions: "\<lbrakk>rq \<in> {PutUserPermissions i (Some (Some ps)), PutAdminUserPermissions i (Some (Some ps))}; mayTouch q c i t; enc_perms J ps = Some b\<rbrakk> \<Longrightarrow> permitted q J c rq t (snd (updateUsers q now i (\<lambda>row. row\<lparr>du_Permissions := b\<rparr>) t))"
| remove: "\<lbrakk>rq \<in> {DeleteOrgUser i, DeleteAdminUser i}; mayTouch q c i t\<rbrakk> \<Longrightarrow> permitted q J c rq t (t\<lparr>a_users := deleteRows (\<lambda>r. sql_eq q (du_ID r) i) (a_users t)\<rparr>)"
| putSettings: "\<lbrakk>isAdmin c; isSystemAdmin c \<or> oe_OrgID s = orgOf c\<rbrakk> \<Longrightarrow> permitted q J c rq t (t\<lparr>a_email :=
      (if \<exists>r \<in> set (a_email t). sql_eq q (oe_OrgID r) (oe_OrgID s) then map (\<lambda>r. if sql_eq q (oe_OrgID r) (oe_OrgID s) then s\<lparr>oe_OrgID := oe_OrgID r\<rparr> else r) (a_email t)
       else a_email t @ [s])\<rparr>)"
| dropSettings: "isAdmin c \<Longrightarrow> permitted q J c rq t (t\<lparr>a_email := deleteRows (\<lambda>r. sql_eq q (oe_OrgID r) (orgOf c)) (a_email t)\<rparr>)"
| addOrg: "\<lbrakk>isSystemAdmin c; \<forall>o' \<in> set (a_orgs t). \<not> sql_eq q (og_ID o') (og_ID org)\<rbrakk> \<Longrightarrow> permitted q J c rq t (t\<lparr>a_orgs := a_orgs t @ [org]\<rparr>)"
| addAdmin: "\<lbrakk>isSystemAdmin c; col_role J ''org_admin'' = Some (du_Role u); freshUser q J u t\<rbrakk> \<Longrightarrow> permitted q J c rq t (t\<lparr>a_users := a_users t @ [u]\<rparr>)"
| purge: "\<lbrakk>isSystemAdmin c; a_users t' = deleteRows (\<lambda>r. sql_eq q (du_OrgID r) i) (a_users t); a_invitations t' = deleteRows (\<lambda>r. sql_eq q (di_OrgID r) i) (a_invitations t);
      a_orgs t' = deleteRows (\<lambda>o'. sql_eq q (og_ID o') i) (a_orgs t); a_email t' = deleteRows (\<lambda>r. sql_eq q (oe_OrgID r) i) (a_email t)\<rbrakk> \<Longrightarrow> permitted q J c rq t t'"

section \<open>What a call does to the tables\<close>

lemma exec_tables: "tables (snd (exec q f d)) = tables d \<or> (\<exists>a. f (tables d) = Inr (a, tables (snd (exec q f d))))"
  by (auto simp: exec_def split: sql_outcome.split sum.split)

text \<open>A call refines a relation when it leaves the tables alone or changes them within it.\<close>

definition stays :: "(auth_tables \<Rightarrow> auth_tables \<Rightarrow> bool) \<Rightarrow> (auth_tables, 'a) dbm \<Rightarrow> auth_tables db \<Rightarrow> bool" where
  "stays R m d \<longleftrightarrow> rtranclp R (tables d) (tables (snd (m d)))"

named_theorems stays_intros \<open>calls that stay within a relation\<close>

lemma stays_exec: "(\<And>a t'. f (tables d) = Inr (a, t') \<Longrightarrow> t' = tables d \<or> R (tables d) t') \<Longrightarrow> stays R (exec q f) d"
  using exec_tables[of q f d] by (auto simp: stays_def)

lemma stays_reads [stays_intros]: "stays R (query q f) d" "stays R (give a) d" "stays R (fail e) d" "stays R (\<lambda>d. (x, d)) d"
  by (simp_all add: stays_def give_def fail_def)

lemma stays_andThen [stays_intros]:
  "stays R m d \<Longrightarrow> (\<And>a d1. m d = (Inr a, d1) \<Longrightarrow> stays R (k a) d1) \<Longrightarrow> stays R (andThen m k) d"
  unfolding stays_def andThen_def by (cases "m d"; cases "fst (m d)") (auto split: sum.split)

lemma stays_affected [stays_intros]: "stays R (affected n) d"
  by (simp add: affected_def stays_intros)

lemma reads_only [simp]:
  "tables (snd (GetOrganization q i d)) = tables d" "tables (snd (ListOrganizations q d)) = tables d"
  "tables (snd (mysql_GetOrgEmailSettings q i d)) = tables d"
  by (simp_all add: GetOrganization_def ListOrganizations_def mysql_GetOrgEmailSettings_def)

lemma andThen_reads: "tables (snd (m d)) = tables d \<Longrightarrow> (\<And>a d1. tables (snd (k a d1)) = tables d1) \<Longrightarrow> tables (snd (andThen m k d)) = tables d"
  unfolding andThen_def by (cases "m d"; cases "fst (m d)") auto

lemma user_reads [simp]:
  "tables (snd (GetUser q J i d)) = tables d" "tables (snd (GetUserByEmail q J i d)) = tables d"
  "tables (snd (ListUsers q J i d)) = tables d" "tables (snd (GetInvitationByToken q J i d)) = tables d"
  by (simp_all add: GetUser_def GetUserByEmail_def ListUsers_def GetInvitationByToken_def andThen_reads)

lemma reads_eqD:
  "GetOrganization q i d = (x, d') \<Longrightarrow> tables d' = tables d" "ListOrganizations q d = (x1, d') \<Longrightarrow> tables d' = tables d"
  "GetUser q J i d = (x2, d') \<Longrightarrow> tables d' = tables d" "GetUserByEmail q J i d = (x2, d') \<Longrightarrow> tables d' = tables d"
  "ListUsers q J i d = (x3, d') \<Longrightarrow> tables d' = tables d" "GetInvitationByToken q J i d = (x4, d') \<Longrightarrow> tables d' = tables d"
  by (drule arg_cong[of _ _ "\<lambda>p. tables (snd p)"], simp)+

lemma find_mem: "find P xs = Some x \<Longrightarrow> x \<in> set xs \<and> P x"
  by (induction xs) (auto split: if_splits)

lemma lookup_InrE:
  assumes "andThen (query q (\<lambda>t. firstRow P (rows t))) (\<lambda>row. decoded (read row)) d = (Inr x, d')"
  obtains row where "find P (rows (tables d)) = Some row" "read row = Inr x" "row \<in> set (rows (tables d))" "P row"
  using assms by (auto simp: andThen_def query_def split: prod.splits sum.splits if_splits option.splits dest: find_mem)

lemmas reading = GetUser_def GetUserByEmail_def GetInvitationByToken_def

section \<open>The store operations\<close>

lemma stays_CreateUser:
  assumes "\<And>row. \<lbrakk>col_role J (u_Role u) = Some (du_Role row); du_OrgID row = u_OrgID u; du_Email row = u_Email u; du_CreatedAt row = now; freshUser q J row (tables d)\<rbrakk>
      \<Longrightarrow> R (tables d) ((tables d)\<lparr>a_users := a_users (tables d) @ [row]\<rparr>)"
  shows "stays R (CreateUser q J uuid now u) d"
proof -
  let ?u = "u\<lparr> u_ID := (if u_ID u = [] then uuid else u_ID u), u_CreatedAt := now, u_UpdatedAt := now,
    u_Permissions := (if u_Permissions u = [] then DefaultPermissions else u_Permissions u) \<rparr>"
  show ?thesis
  proof (cases "enc_perms J (u_Permissions ?u)")
    case (Some s)
    have "stays R (exec q (insertUser q J ?u s)) d"
    proof (rule stays_exec)
      fix a t'
      assume i: "insertUser q J ?u s (tables d) = Inr (a, t')"
      have "\<exists>ps. enc_perms J ps = Some s" using Some by blast
      with i show "t' = tables d \<or> R (tables d) t'"
        by (auto simp: insertUser_def freshUser_def intro!: assms split: option.splits if_splits)
    qed
    moreover have "snd (CreateUser q J uuid now u d) = snd (exec q (insertUser q J ?u s) d)"
      using Some by (auto simp: CreateUser_def Let_def split: prod.split sum.split)
    ultimately show ?thesis by (simp add: stays_def)
  qed (simp add: CreateUser_def Let_def stays_def fail_def)
qed

lemma stays_CreateInvitation:
  assumes "rq = PostInvite (Some (iv_Email i, r0, ps0))" "iv_Role i = (if r0 = [] then ''member'' else r0)"
    and "isAdmin c" "iv_OrgID i = orgOf c" "iv_Role i \<in> {''org_admin'', ''member''}"
  shows "stays (permitted q J c rq) (CreateInvitation q J uuid now i) d"
  unfolding CreateInvitation_def Let_def using assms
  by (auto intro!: stays_intros stays_exec permitted.invite[where ?r0.0 = r0 and ?ps0.0 = ps0] simp: insertInvitation_def split: option.splits if_splits)

lemma stays_AcceptInvitation:
  assumes "rq = PostAcceptInvite (Some (token, password))" "sql_eq q (di_Token i) token" "now \<le> di_ExpiresAt i" "i \<in> set (a_invitations (tables d))" "di_AcceptedAt i = None"
    and "u \<in> set (a_users (tables d))" "du_OrgID u = di_OrgID i" "du_Email u = di_Email i"
  shows "stays (permitted q J c rq) (AcceptInvitation q (di_ID i) now) d"
  unfolding AcceptInvitation_def Let_def
  by (auto intro!: stays_intros stays_exec permitted.mark[OF assms])

lemma stays_UpdateUserRole:
  assumes "rq \<in> {PutUserRole i (Some r), PutAdminUserRole i (Some r)}" "mayTouch q c i (tables d)" "r = ''system_admin'' \<longrightarrow> isSystemAdmin c"
  shows "stays (permitted q J c rq) (UpdateUserRole q J now i r) d"
  unfolding UpdateUserRole_def
proof (intro stays_intros stays_exec)
  fix a t'
  assume "(if \<forall>r \<in> set (a_users (tables d)). \<not> sql_eq q (du_ID r) i then Inr (0, tables d)
     else case col_role J r of None \<Rightarrow> Inl SqlFault | Some r' \<Rightarrow> Inr (updateUsers q now i (\<lambda>row. row\<lparr>du_Role := r'\<rparr>) (tables d))) = Inr (a, t')"
  then show "t' = tables d \<or> permitted q J c rq (tables d) t'"
    using permitted.setRole[OF assms, of J _ now] by (auto split: if_splits option.splits)
qed

lemma stays_UpdateUserPermissions:
  "rq \<in> {PutUserPermissions i (Some (Some ps)), PutAdminUserPermissions i (Some (Some ps))} \<Longrightarrow> mayTouch q c i (tables d) \<Longrightarrow> stays (permitted q J c rq) (UpdateUserPermissions q J now i ps) d"
  unfolding UpdateUserPermissions_def
  by (auto intro!: stays_intros stays_exec simp: updateUsers_def intro: permitted.setPermissions[unfolded updateUsers_def snd_conv] split: option.split)

lemma stays_DeleteUser: "rq \<in> {DeleteOrgUser i, DeleteAdminUser i} \<Longrightarrow> mayTouch q c i (tables d) \<Longrightarrow> stays (permitted q J c rq) (DeleteUser q i) d"
  unfolding DeleteUser_def by (auto intro!: stays_intros stays_exec permitted.remove)

lemma stays_settings:
  "isAdmin c \<Longrightarrow> isSystemAdmin c \<or> oe_OrgID s = orgOf c \<Longrightarrow> stays (permitted q J c rq) (mysql_UpsertOrgEmailSettings q s) d"
  "isAdmin c \<Longrightarrow> stays (permitted q J c rq) (mysql_DeleteOrgEmailSettings q (orgOf c)) d"
  unfolding mysql_UpsertOrgEmailSettings_def mysql_DeleteOrgEmailSettings_def
  by (auto intro!: stays_intros stays_exec permitted.dropSettings permitted.putSettings simp del: if_split)

lemma stays_CreateOrganization: "isSystemAdmin c \<Longrightarrow> stays (permitted q J c rq) (CreateOrganization q uuid now org) d"
  unfolding CreateOrganization_def Let_def by (auto intro!: stays_intros stays_exec permitted.addOrg split: if_splits)

text \<open>Deleting an organisation: nothing, or everything that belongs to it.\<close>

lemma each_updates: "each (\<lambda>f. exec q (\<lambda>t. Inr ((), f t))) fs d = (Inr u, d') \<Longrightarrow> tables d' = fold (\<lambda>f t. f t) fs (tables d)"
  by (induction fs arbitrary: d) (auto simp: give_def elim!: andThen_InrE dest!: exec_pure)

definition accounts :: "auth_tables \<Rightarrow> db_user list \<times> db_invitation list \<times> organization list \<times> org_email_settings list" where
  "accounts t = (a_users t, a_invitations t, a_orgs t, a_email t)"

lemma frames_inWf [frame_rules]: "frames accounts (inWf m)"
  by (auto simp: frames_def inWf_def accounts_def split: prod.split)

lemma frames_deleteWorkflowRows [frame_rules]: "frames accounts (deleteWorkflowRows q i)"
  unfolding deleteWorkflowRows_def by (intro frame_rules)

lemma stays_DeleteOrganization:
  assumes "isSystemAdmin c"
  shows "stays (permitted q J c rq) (DeleteOrganization q i) d"
proof -
  define body where "body = andThen (each (\<lambda>f. exec q (\<lambda>t. Inr ((), f t))) (orgDeletes q i)) (\<lambda>_.
    andThen (query q (\<lambda>t. Inr (map dw_ID (filter (\<lambda>r. sql_eq q (dw_OrgID r) i) (t_wf (a_wf t)))))) (\<lambda>wfIDs.
    andThen (each (deleteWorkflowRows q) wfIDs) (\<lambda>_.
    andThen (exec q (\<lambda>t. Inr ((), t\<lparr>a_wf := (a_wf t)\<lparr>t_wf := deleteRows (\<lambda>r. sql_eq q (dw_OrgID r) i) (t_wf (a_wf t))\<rparr>\<rparr>))) (\<lambda>_.
    exec q (\<lambda>t. Inr ((), t\<lparr>a_orgs := deleteRows (\<lambda>o'. sql_eq q (og_ID o') i) (a_orgs t)\<rparr>))))))"
  have "permitted q J c rq (tables d) (tables d6)" if "body (tick d) = (Inr u, d6)" for u d6
  proof -
    from that[unfolded body_def] obtain d1 d2 d3 d4 u1 ids u3 u4 where s:
      "each (\<lambda>f. exec q (\<lambda>t. Inr ((), f t))) (orgDeletes q i) (tick d) = (Inr u1, d1)"
      "query q (\<lambda>t. Inr (map dw_ID (filter (\<lambda>r. sql_eq q (dw_OrgID r) i) (t_wf (a_wf t))))) d1 = (Inr ids, d2)"
      "each (deleteWorkflowRows q) ids d2 = (Inr u3, d3)"
      "exec q (\<lambda>t. Inr ((), t\<lparr>a_wf := (a_wf t)\<lparr>t_wf := deleteRows (\<lambda>r. sql_eq q (dw_OrgID r) i) (t_wf (a_wf t))\<rparr>\<rparr>)) d3 = (Inr u4, d4)"
      "exec q (\<lambda>t. Inr ((), t\<lparr>a_orgs := deleteRows (\<lambda>o'. sql_eq q (og_ID o') i) (a_orgs t)\<rparr>)) d4 = (Inr u, d6)"
      by (elim andThen_InrE)
    have "frames accounts (each (deleteWorkflowRows q) ids)" by (intro frame_rules)
    from framesD[OF this s(3)] have "accounts (tables d3) = accounts (tables d1)" using query_Inr[OF s(2)] by simp
    moreover note each_updates[OF s(1)] exec_pure[OF s(4)] exec_pure[OF s(5)]
    ultimately show ?thesis
      by (intro permitted.purge[OF assms, where i = i]) (simp_all add: accounts_def orgDeletes_def)
  qed
  moreover have "tables (snd (transaction q body d)) = tables d \<or> (\<exists>u d6. body (tick d) = (Inr u, d6) \<and> tables (snd (transaction q body d)) = tables d6)"
    by (auto simp: transaction_def split: prod.split sum.split sql_outcome.split)
  ultimately show ?thesis unfolding stays_def DeleteOrganization_def body_def[symmetric] by (metis (lifting) r_into_rtranclp rtranclp.rtrancl_refl)
qed

section \<open>The requests\<close>

abbreviation tablesOf :: "auth_state \<Rightarrow> auth_tables" where
  "tablesOf st \<equiv> tables (ad_db st)"

abbreviation steps :: "auth_api \<Rightarrow> claims option \<Rightarrow> auth_request \<Rightarrow> auth_tables \<Rightarrow> auth_tables \<Rightarrow> bool" where
  "steps A c rq \<equiv> rtranclp (permitted (au_sql A) (au_json A) c rq)"

lemma steps_call: "stays (permitted (au_sql A) (au_json A) c rq) m (ad_db st) \<Longrightarrow> m (ad_db st) = (x, d) \<Longrightarrow> steps A c rq (tablesOf st) (tables d)"
  by (simp add: stays_def)

lemma issue_reads [simp]: "tablesOf (snd (issue A code u st)) = tablesOf st"
  by (auto simp: issue_def dest: reads_eqD split: prod.split sum.split option.split)

lemma login_reads: "tablesOf (snd (login A b st)) = tablesOf st"
  by (auto simp: login_def dest: reads_eqD split: prod.split sum.split option.split)

lemma get_reads:
  "tablesOf (snd (me A ctx st)) = tablesOf st" "tablesOf (snd (getInvite A t st)) = tablesOf st" "tablesOf (snd (listOrgUsers A ctx p st)) = tablesOf st"
  "tablesOf (snd (listOrgs A st)) = tablesOf st"
  by (auto simp: me_def getInvite_def listOrgUsers_def listOrgs_def Let_def dest!: reads_eqD split: prod.split sum.split option.split)

lemma nameUsers_reads: "nameUsers A names us d = (rs, d') \<Longrightarrow> tables d' = tables d"
  by (induction us arbitrary: names d rs) (auto simp: Let_def dest!: reads_eqD split: option.splits prod.splits)

lemma listAllUsers_reads: "tablesOf (snd (listAllUsers A st)) = tablesOf st"
  by (auto simp: listAllUsers_def dest!: reads_eqD nameUsers_reads split: prod.split sum.split)

lemma loadSettings_reads: "loadSettings A orgID d = (x, d') \<Longrightarrow> tables d' = tables d"
proof -
  have "tables d1 = tables d" if "mysql_GetOrgEmailSettings q i d = (y, d1)" for q i y d1
    using reads_only(3)[of q i d] that by simp
  then show "loadSettings A orgID d = (x, d') \<Longrightarrow> tables d' = tables d"
    by (auto simp: loadSettings_def GetOrgEmailSettings_def auth_inner_def split: prod.splits sum.splits if_splits)
qed

lemma settings_reads: "tablesOf (snd (getOrgEmailSettings A ctx st)) = tablesOf st"
  by (auto simp: getOrgEmailSettings_def Let_def dest!: loadSettings_reads split: prod.split sum.split)

lemma mailInvite_reads: "mailInvite A c i st = (ok, st') \<Longrightarrow> tablesOf st' = tablesOf st"
  by (auto simp: mailInvite_def Let_def dest!: reads_eqD loadSettings_reads[unfolded loadSettings_def] split: prod.splits sum.splits if_splits)

lemma CreateUser_row:
  assumes "CreateUser q J uuid now u d = (Inr x, d1)"
  obtains row where "row \<in> set (a_users (tables d1))" "du_OrgID row = u_OrgID u" "du_Email row = u_Email u" "a_invitations (tables d1) = a_invitations (tables d)"
proof -
  obtain s y where e: "exec q (insertUser q J y s) d = (Inr (), d1)" "u_OrgID y = u_OrgID u" "u_Email y = u_Email u"
    using assms by (auto simp: CreateUser_def Let_def fail_def split: option.splits prod.splits sum.splits)
  from exec_Inr[OF e(1)] show ?thesis
    by (auto simp: insertUser_def e(2,3) dest!: sym[of _ "tables d1"] split: option.splits if_splits intro: that)
qed

lemma acceptInvite_steps: "steps A c (PostAcceptInvite b) (tablesOf st) (tablesOf (snd (acceptInvite A b st)))"
proof -
  let ?q = "au_sql A" let ?J = "au_json A" let ?R = "steps A c (PostAcceptInvite b)"
  have run: "?R (tablesOf st) (tables d1)" "x = Inr user \<Longrightarrow> ?R (tablesOf st) (tables (snd (AcceptInvitation ?q (iv_ID invite) now d1)))"
    if g: "GetInvitationByToken ?q ?J token (ad_db st) = (Inr invite, d)" and fresh: "iv_AcceptedAt invite = None" "now \<le> iv_ExpiresAt invite"
      and cu: "CreateUser ?q ?J uuid now (invitedUser invite hash) d = (x, d1)" and b: "b = Some (token, password)" for token password invite d uuid now hash x d1 user
  proof -
    have d: "tables d = tablesOf st" using g by (rule reads_eqD)
    from g obtain i where i: "i \<in> set (a_invitations (tablesOf st))" "toInvitation ?q ?J i = Inr invite" "sql_eq ?q (di_Token i) token"
      unfolding reading by (elim lookup_InrE)
    then have f: "iv_OrgID invite = di_OrgID i" "iv_Email invite = di_Email i" "iv_Role invite = di_Role i" "di_AcceptedAt i = None" "now \<le> di_ExpiresAt i" "iv_ID invite = di_ID i"
      using fresh by (auto simp: toInvitation_def split: option.splits)
    have "stays (permitted ?q ?J c (PostAcceptInvite b)) (CreateUser ?q ?J uuid now (invitedUser invite hash)) d"
      by (rule stays_CreateUser) (use b i f d in \<open>auto intro!: permitted.accept[where i = i] simp: invitedUser_def\<close>)
    then show s1: "?R (tablesOf st) (tables d1)" using cu d by (simp add: stays_def)
    show "?R (tablesOf st) (tables (snd (AcceptInvitation ?q (iv_ID invite) now d1)))" if x: "x = Inr user"
    proof -
      from CreateUser_row[OF cu[unfolded x]] obtain u where u: "u \<in> set (a_users (tables d1))" "du_OrgID u = u_OrgID (invitedUser invite hash)"
        "du_Email u = u_Email (invitedUser invite hash)" "a_invitations (tables d1) = a_invitations (tables d)" .
      have "stays (permitted ?q ?J c (PostAcceptInvite b)) (AcceptInvitation ?q (di_ID i) now) d1"
        by (rule stays_AcceptInvitation[where u = u]) (use b i f d u in \<open>simp_all add: invitedUser_def\<close>)
      with s1 show ?thesis by (simp add: stays_def f(6))
    qed
  qed
  show ?thesis
  proof (cases b)
    case (Some body)
    obtain token password where body: "b = Some (token, password)" using Some by (cases body) auto
    note accepted = run(1)[OF _ _ _ _ body] run(2)[OF _ _ _ _ body refl]
    show ?thesis
      by (subst acceptInvite_def) (auto simp: body not_less simp del: rtranclp.simps dest: reads_eqD accepted[unfolded body] split: prod.split sum.split option.split)
  qed (simp add: acceptInvite_def)
qed

lemma checkTarget_touch:
  assumes "checkTarget A cl i st = (r, st')" "isAdmin (Some cl)"
  shows "tablesOf st' = tablesOf st" "r = None \<Longrightarrow> mayTouch (au_sql A) (Some cl) i (tablesOf st')"
proof -
  show t: "tablesOf st' = tablesOf st"
    using assms(1) by (auto simp: checkTarget_def dest!: reads_eqD split: if_splits prod.splits sum.splits)
  assume r: "r = None"
  show "mayTouch (au_sql A) (Some cl) i (tablesOf st')"
  proof (cases "cl_Role cl = ''system_admin''")
    case False
    with assms(1) r obtain u d where u: "GetUser (au_sql A) (au_json A) i (ad_db st) = (Inr u, d)" "u_OrgID u = cl_OrgID cl" "u_Role u \<noteq> ''system_admin''"
      by (auto simp: checkTarget_def split: if_splits prod.splits sum.splits)
    from u(1) obtain row where "find (\<lambda>r. sql_eq (au_sql A) (du_ID r) i) (a_users (tablesOf st)) = Some row" "toUser (au_sql A) (au_json A) row = Inr u"
      unfolding reading by (elim lookup_InrE)
    moreover from this(2) have "du_OrgID row = u_OrgID u" "du_Role row = u_Role u" by (auto simp: toUser_def split: option.splits)
    ultimately show ?thesis using assms(2) u(2,3) t by (auto simp: mayTouch_def orgOf_def)
  qed (simp add: mayTouch_def isSystemAdmin_def)
qed

lemma finish_tables: "tablesOf (snd (finish (m (ad_db st)) st)) = tables (snd (m (ad_db st)))"
  by (auto simp: finish_def split: prod.split sum.split)

text \<open>The end of a request that has passed the check of its target.\<close>

lemma target_steps:
  assumes "isAdmin (Some cl)" "\<And>st'. mayTouch (au_sql A) (Some cl) i (tablesOf st') \<Longrightarrow> stays (permitted (au_sql A) (au_json A) (Some cl) rq) (m st') (ad_db st')"
  shows "steps A (Some cl) rq (tablesOf st)
    (tablesOf (snd (case checkTarget A cl i st of (Some r, st') \<Rightarrow> (r, st') | (None, st') \<Rightarrow> finish (m st' (ad_db st')) st')))"
proof -
  obtain r st' where c: "checkTarget A cl i st = (r, st')" by fastforce
  show ?thesis
  proof (cases r)
    case None
    then show ?thesis
      using checkTarget_touch[OF c assms(1)] assms(2)[of st'] c finish_tables[of "m st'" st'] by (simp add: stays_def)
  qed (use c checkTarget_touch(1)[OF c assms(1)] in simp)
qed

lemma admin_steps:
  assumes a: "isAdmin (Some cl)"
  shows "rq \<in> {PutUserRole i b, PutAdminUserRole i b} \<Longrightarrow> steps A (Some cl) rq (tablesOf st) (tablesOf (snd (updateOrgUserRole A (served cl) i b st)))"
    and "rq \<in> {PutUserPermissions i ps, PutAdminUserPermissions i ps} \<Longrightarrow> steps A (Some cl) rq (tablesOf st) (tablesOf (snd (updateOrgUserPermissions A (served cl) i ps st)))"
    and "rq = DeleteOrgUser i \<Longrightarrow> steps A (Some cl) rq (tablesOf st) (tablesOf (snd (removeOrgUser A (served cl) i st)))"
    and "rq = PostInvite ib \<Longrightarrow> steps A (Some cl) rq (tablesOf st) (tablesOf (snd (inviteUser A (served cl) ib st)))"
    and "steps A (Some cl) rq (tablesOf st) (tablesOf (snd (deleteOrgEmailSettings A (served cl) st)))"
proof -
  let ?q = "au_sql A" let ?J = "au_json A"
  have z: "claimsOrZero (served cl) = cl" "orgOf (Some cl) = cl_OrgID cl" by (simp_all add: claimsOrZero_def orgOf_def)
  have role: "steps A (Some cl) rq (tablesOf st)
      (tablesOf (snd (case checkTarget A cl i st of (Some r, st') \<Rightarrow> (r, st') | (None, st') \<Rightarrow> finish (UpdateUserRole ?q ?J (nowOf A (ad_db st')) i r (ad_db st')) st')))"
    if "\<not> (r = ''system_admin'' \<and> cl_Role cl \<noteq> ''system_admin'')" "rq \<in> {PutUserRole i (Some r), PutAdminUserRole i (Some r)}" for r
    by (rule target_steps[OF a]) (use that in \<open>auto intro: stays_UpdateUserRole simp: isSystemAdmin_def\<close>)
  show "steps A (Some cl) rq (tablesOf st) (tablesOf (snd (updateOrgUserRole A (served cl) i b st)))" if "rq \<in> {PutUserRole i b, PutAdminUserRole i b}"
  proof (cases b)
    case (Some r)
    show ?thesis using role[of r] that by (simp add: updateOrgUserRole_def z Some Let_def)
  qed (simp add: updateOrgUserRole_def Let_def)
  have "steps A (Some cl) rq (tablesOf st)
      (tablesOf (snd (case checkTarget A cl i st of (Some r, st') \<Rightarrow> (r, st') | (None, st') \<Rightarrow> finish (UpdateUserPermissions ?q ?J (nowOf A (ad_db st')) i l (ad_db st')) st')))"
    if "rq \<in> {PutUserPermissions i (Some (Some l)), PutAdminUserPermissions i (Some (Some l))}" for l
    by (rule target_steps[OF a]) (rule stays_UpdateUserPermissions[OF that])
  then show "steps A (Some cl) rq (tablesOf st) (tablesOf (snd (updateOrgUserPermissions A (served cl) i ps st)))" if "rq \<in> {PutUserPermissions i ps, PutAdminUserPermissions i ps}"
    using that by (auto simp add: updateOrgUserPermissions_def z Let_def split: option.split)
  have "steps A (Some cl) rq (tablesOf st)
      (tablesOf (snd (case checkTarget A cl i st of (Some r, st') \<Rightarrow> (r, st') | (None, st') \<Rightarrow> finish (DeleteUser ?q i (ad_db st')) st')))" if "rq = DeleteOrgUser i"
    by (rule target_steps[OF a]) (rule stays_DeleteUser, use that in simp_all)
  then show "steps A (Some cl) rq (tablesOf st) (tablesOf (snd (removeOrgUser A (served cl) i st)))" if "rq = DeleteOrgUser i"
    using that by (simp add: removeOrgUser_def z Let_def)
  have inv: "steps A (Some cl) rq (tablesOf st) (tables d)"
    if "CreateInvitation ?q ?J uuid now i' (ad_db st) = (x, d)" "iv_OrgID i' = cl_OrgID cl" "iv_Role i' = ''org_admin'' \<or> iv_Role i' = ''member''"
      "rq = PostInvite (Some (iv_Email i', r0, ps0))" "iv_Role i' = (if r0 = [] then ''member'' else r0)" for uuid now i' x d r0 ps0
    by (rule steps_call[OF stays_CreateInvitation[OF that(4,5)] that(1)]) (use that a z in auto)
  show "steps A (Some cl) rq (tablesOf st) (tablesOf (snd (inviteUser A (served cl) ib st)))" if rq: "rq = PostInvite ib"
  proof (cases ib)
    case (Some req)
    obtain email r ps where req: "req = (email, r, ps)" by (cases req)
    let ?r = "if r = [] then ''member'' else r"
    show ?thesis
    proof (cases "email = [] \<or> ?r \<noteq> ''org_admin'' \<and> ?r \<noteq> ''member''")
      case False
      obtain tok n where tok: "newInviteToken A (ad_rand st) = (tok, n)" by fastforce
      show ?thesis
      proof (cases tok)
        case (Some token)
        let ?i = "newInvitation cl email ?r (if ps = [] then DefaultPermissions else ps) token (nowOf A (ad_db st))"
        obtain x d where x: "CreateInvitation ?q ?J (uuidOf A (ad_db st)) (nowOf A (ad_db st)) ?i (ad_db st) = (x, d)" by fastforce
        have "steps A (Some cl) rq (tablesOf st) (tables d)" by (rule inv[OF x, of r ps]) (use False rq \<open>ib = Some req\<close> req in \<open>auto simp: newInvitation_def\<close>)
        then show ?thesis
          using False by (auto simp: inviteUser_def z \<open>ib = Some req\<close> req tok Some x Let_def dest!: mailInvite_reads split: prod.split sum.split)
      qed (use False in \<open>simp add: inviteUser_def z Some req tok Let_def\<close>)
    qed (simp add: inviteUser_def Some req Let_def)
  qed (simp add: inviteUser_def Let_def)
  show "steps A (Some cl) rq (tablesOf st) (tablesOf (snd (deleteOrgEmailSettings A (served cl) st)))"
    using stays_settings(2)[OF a, of ?q ?J rq "ad_db st"] z
    by (auto simp: deleteOrgEmailSettings_def stays_def split: prod.split sum.split)
qed

lemma upsertSettings_steps:
  assumes "isAdmin c" "isSystemAdmin c \<or> orgID = orgOf c"
  shows "steps A c rq (tablesOf st) (tablesOf (snd (upsertSettings A orgID b st)))"
proof -
  let ?I = "auth_inner (au_sql A) (au_inner A)"
  have put: "steps A c rq (tables d) (tables d')" if "UpsertOrgEmailSettings (au_vault A) ?I s (d, n) = (x, d', n')" "oe_OrgID s = orgID" for s d n x d' n'
  proof -
    have "steps A c rq (tables d) (tables d1)" if "mysql_UpsertOrgEmailSettings (au_sql A) s' d = (y, d1)" "oe_OrgID s' = orgID" for s' y d1
      using stays_settings(1)[of c s' "au_sql A" "au_json A" rq d] assms that by (simp add: stays_def)
    with that show ?thesis
      by (auto simp: UpsertOrgEmailSettings_def auth_inner_def split: if_splits prod.splits sum.splits)
  qed
  show ?thesis
  proof (cases b)
    case (Some body)
    let ?bad = "oe_Subject body \<noteq> [] \<and> \<not> ParseTemplate (au_templates A) (oe_Subject body) \<or> oe_Body body \<noteq> [] \<and> \<not> ParseTemplate (au_templates A) (oe_Body body)"
    let ?pw = "if oe_SMTPPassword body = passwordMask
      then (case loadSettings A orgID (ad_db st) of (Inl _, d) \<Rightarrow> ([], d) | (Inr existing, d) \<Rightarrow> (oe_SMTPPassword existing, d)) else (oe_SMTPPassword body, ad_db st)"
    obtain pw d where pw: "?pw = (pw, d)" by fastforce
    then have d: "tables d = tablesOf st" by (auto dest!: loadSettings_reads split: if_splits prod.splits sum.splits)
    let ?s = "body\<lparr> oe_OrgID := orgID, oe_SMTPPassword := pw, oe_SMTPPort := (if oe_SMTPPort body = [] then ''587'' else oe_SMTPPort body) \<rparr>"
    obtain x d' n' where x: "UpsertOrgEmailSettings (au_vault A) ?I ?s (d, ad_rand st) = (x, d', n')" by (cases "UpsertOrgEmailSettings (au_vault A) ?I ?s (d, ad_rand st)") auto
    have "steps A c rq (tablesOf st) (tables d')" using put[OF x] d by simp
    then show ?thesis by (cases "?bad"; cases x) (simp_all only: upsertSettings_def Some option.case pw prod.case Let_def x sum.case if_True if_False snd_conv, simp_all)
  qed (simp add: upsertSettings_def)
qed

lemma system_steps:
  assumes s: "isSystemAdmin (Some cl)"
  shows "steps A (Some cl) rq (tablesOf st) (tablesOf (snd (createOrg A b st)))"
    and "steps A (Some cl) rq (tablesOf st) (tablesOf (snd (deleteOrg A i st)))"
    and "rq = DeleteAdminUser i \<Longrightarrow> steps A (Some cl) rq (tablesOf st) (tablesOf (snd (deleteUser A (served cl) i st)))"
proof -
  let ?q = "au_sql A" let ?J = "au_json A"
  have org: "steps A (Some cl) rq (tablesOf st) (tables d)" if "CreateOrganization ?q uuid now org (ad_db st) = (x, d)" for uuid now org x d
    by (rule steps_call[OF stays_CreateOrganization that]) (rule s)
  have admin: "steps A (Some cl) rq (tables d) (tables d1)" if "CreateUser ?q ?J uuid now u d = (x, d1)" "u_Role u = ''org_admin''" for uuid now u x d d1
  proof -
    have "stays (permitted ?q ?J (Some cl) rq) (CreateUser ?q ?J uuid now u) d"
      by (rule stays_CreateUser) (use that s in \<open>auto intro: permitted.addAdmin\<close>)
    then show ?thesis using that by (simp add: stays_def)
  qed
  show "steps A (Some cl) rq (tablesOf st) (tablesOf (snd (createOrg A b st)))"
    by (auto simp: createOrg_def dest: org intro: rtranclp_trans[OF org admin] split: option.split prod.split sum.split)
  show "steps A (Some cl) rq (tablesOf st) (tablesOf (snd (deleteOrg A i st)))"
    using stays_DeleteOrganization[OF s, of ?q ?J rq i "ad_db st"] by (simp add: deleteOrg_def finish_tables stays_def)
  have "mayTouch ?q (Some cl) i (tablesOf st)" using s by (simp add: mayTouch_def)
  from stays_DeleteUser[OF _ this, of rq ?J] show "steps A (Some cl) rq (tablesOf st) (tablesOf (snd (deleteUser A (served cl) i st)))" if "rq = DeleteAdminUser i"
    using that by (simp add: deleteUser_def finish_tables stays_def)
qed

section \<open>Refinement\<close>

lemma answer_state: "snd (answer h ctx s) = snd (h ctx s)"
  by (simp add: answer_def split: prod.split)

lemma role_steps:
  assumes "\<And>cl. cl_Role cl \<in> set roles \<Longrightarrow> caller G hdr = Some cl \<Longrightarrow> steps A (Some cl) rq (tablesOf st) (tablesOf (snd (h (served cl) st)))"
  shows "steps A (caller G hdr) rq (tablesOf st) (tablesOf (snd (mux_role G hdr roles (answer h) st)))"
  using assms by (auto simp: mux_role_iff answer_state split: option.split)

lemmas request_reads = login_reads get_reads listAllUsers_reads settings_reads

lemma serveAuth_steps: "steps A (caller (authGate A st) hdr) req (tablesOf st) (tablesOf (snd (serveAuth A (hdr, req) st)))"
proof (cases req)
  case GetMe
  then show ?thesis by (auto simp: serveAuth_def mux_authed_iff answer_state request_reads split: option.split)
next
  case (PutEmailSettings b)
  have "steps A (Some cl) req (tablesOf st) (tablesOf (snd (upsertOrgEmailSettings A (served cl) b st)))" if "cl_Role cl \<in> set orgAdmins" for cl
    unfolding upsertOrgEmailSettings_def
    by (rule upsertSettings_steps) (use that in \<open>auto simp: orgOf_def claimsOrZero_def isAdmin_def\<close>)
  with PutEmailSettings show ?thesis by (auto simp: serveAuth_def intro!: role_steps)
next
  case (PutAdminEmailSettings i b)
  have "steps A (Some cl) req (tablesOf st) (tablesOf (snd (upsertOrgEmailSettingsAdmin A i b st)))" if "cl_Role cl \<in> set systemAdmins" for cl
    unfolding upsertOrgEmailSettingsAdmin_def
    by (cases "i = []") (use that in \<open>auto intro!: upsertSettings_steps simp: isAdmin_def isSystemAdmin_def\<close>)
  with PutAdminEmailSettings show ?thesis by (auto simp: serveAuth_def intro!: role_steps)
qed (auto simp: serveAuth_def mux_public_def answer_state request_reads acceptInvite_steps isAdmin_def isSystemAdmin_def intro!: role_steps admin_steps system_steps)

end
