(* ===== verification/Auth_Props.thy ===== *)
theory Auth_Props
  imports Auth_Steps Workflow_Versions
begin

text \<open>
  What user administration guarantees: requests refine the permitted steps, the tables stay well formed, nobody becomes system_admin
  through a request of somebody who is not, tenants do not touch each other's users, and an invited user can log in.
\<close>

section \<open>Well-formed tables\<close>

definition keyed :: "sql \<Rightarrow> ('r \<Rightarrow> string) \<Rightarrow> 'r list \<Rightarrow> bool" where
  "keyed q f rows \<longleftrightarrow> distinct (map (\<lambda>r. sql_key q (f r)) rows)"

definition permsReadable :: "sql \<Rightarrow> auth_json \<Rightarrow> string \<Rightarrow> bool" where
  "permsReadable q J perms \<longleftrightarrow> dec_perms J (sql_json q perms) \<noteq> None"

definition auth_ok :: "sql \<Rightarrow> auth_json \<Rightarrow> auth_tables \<Rightarrow> bool" where
  "auth_ok q J t \<longleftrightarrow>
     keyed q du_ID (a_users t) \<and> keyed q du_Email (a_users t) \<and>
     (\<forall>u \<in> set (a_users t). du_Role u \<in> {''system_admin'', ''org_admin'', ''member''} \<and> permsReadable q J (du_Permissions u)) \<and>
     keyed q di_ID (a_invitations t) \<and> keyed q di_Token (a_invitations t) \<and>
     (\<forall>i \<in> set (a_invitations t). di_Role i \<in> {''org_admin'', ''member''} \<and> permsReadable q J (di_Permissions i)) \<and>
     keyed q og_ID (a_orgs t) \<and> keyed q oe_OrgID (a_email t)"

text \<open>Documented behaviour of the columns: an \<open>ENUM\<close> stores one of its members, a \<open>JSON\<close> column gives the permissions back.\<close>

definition columns_ok :: "sql \<Rightarrow> auth_json \<Rightarrow> bool" where
  "columns_ok q J \<longleftrightarrow>
     (\<forall>r r'. col_role J r = Some r' \<longrightarrow> r' \<in> {''system_admin'', ''org_admin'', ''member''}) \<and>
     (\<forall>r r'. col_inviteRole J r = Some r' \<longrightarrow> r' \<in> {''org_admin'', ''member''}) \<and>
     (\<forall>ps s. enc_perms J ps = Some s \<longrightarrow> dec_perms J (sql_json q s) = Some ps)"

lemma columns_okD:
  assumes "columns_ok q J"
  shows "col_role J r = Some r' \<Longrightarrow> r' \<in> {''system_admin'', ''org_admin'', ''member''}"
    and "col_inviteRole J r = Some r' \<Longrightarrow> r' \<in> {''org_admin'', ''member''}"
    and "enc_perms J ps = Some s \<Longrightarrow> dec_perms J (sql_json q s) = Some ps" "enc_perms J ps = Some s \<Longrightarrow> permsReadable q J s"
  using assms unfolding columns_ok_def permsReadable_def by blast+

lemma keyed_append: "keyed q f (rows @ [r]) \<longleftrightarrow> keyed q f rows \<and> (\<forall>r' \<in> set rows. \<not> sql_eq q (f r') (f r))"
  by (induction rows) (auto simp: keyed_def sql_eq_def)

lemma keyed_deleteRows: "keyed q f rows \<Longrightarrow> keyed q f (deleteRows P rows)"
  by (simp add: keyed_def deleteRows_def distinct_map_filter)

lemma keyed_map: "(\<And>r. f (g r) = f r) \<Longrightarrow> keyed q f (map g rows) = keyed q f rows"
  by (simp add: keyed_def o_def)

lemma keyed_unique: "keyed q f rows \<Longrightarrow> r \<in> set rows \<Longrightarrow> r' \<in> set rows \<Longrightarrow> sql_eq q (f r) k \<Longrightarrow> sql_eq q (f r') k \<Longrightarrow> r = r'"
  by (auto simp: keyed_def sql_eq_def distinct_map inj_on_def)

lemma deleteRows_set: "set (deleteRows P rows) = {r \<in> set rows. \<not> P r}"
  by (simp add: deleteRows_def)

lemmas keys = keyed_append keyed_deleteRows keyed_map deleteRows_set

lemma permitted_auth_ok:
  assumes "permitted q J c rq t t'" "columns_ok q J" "auth_ok q J t"
  shows "auth_ok q J t'"
  using assms
proof (induction rule: permitted.induct)
  case (invite i r0 ps0 r ps t)
  from columns_okD(2,4)[OF invite.prems(1)] invite show ?case by (auto simp: auth_ok_def keys)
next
  case (accept token password i u t)
  from columns_okD(1,4)[OF accept.prems(1)] accept show ?case by (auto simp: auth_ok_def freshUser_def keys)
next
  case (addAdmin u t)
  from columns_okD(1,4)[OF addAdmin.prems(1)] addAdmin show ?case by (auto simp: auth_ok_def freshUser_def keys)
next
  case (setRole i r t r' now)
  from columns_okD(1)[OF setRole.prems(1) setRole.hyps(4)] setRole.prems(2) show ?case
    by (auto simp: auth_ok_def updateUsers_def keys)
next
  case (setPermissions i ps t b now)
  from columns_okD(4)[OF setPermissions.prems(1) setPermissions.hyps(3)] setPermissions.prems(2) show ?case
    by (auto simp: auth_ok_def updateUsers_def keys)
next
  case (putSettings s t)
  have "keyed q oe_OrgID (map (\<lambda>r. if sql_eq q (oe_OrgID r) (oe_OrgID s) then s\<lparr>oe_OrgID := oe_OrgID r\<rparr> else r) (a_email t))"
    using putSettings by (subst keyed_map) (auto simp: auth_ok_def)
  with putSettings show ?case by (auto simp: auth_ok_def keys)
qed (auto simp: auth_ok_def keys)

text \<open>
  The tables of users, invitations and organisations are well formed. Identifiers, e-mail addresses and invitation tokens are unique
  under the collation, every role is one the column allows (an invitation never grants system_admin), and every stored
  permission list can be read back. Every request keeps this, whoever sends it and whatever the database does. Hypothesis: the columns behave as
  documented.
\<close>

theorem auth_tables_typed:
  assumes "columns_ok (au_sql A) (au_json A)" "auth_ok (au_sql A) (au_json A) (tables (ad_db st))"
  shows "auth_ok (au_sql A) (au_json A) (tables (ad_db (snd (serveAuth A r st))))"
proof -
  have "auth_ok (au_sql A) (au_json A) t'" if "steps A c rq (tables (ad_db st)) t'" for c rq t'
    using that by induction (use assms permitted_auth_ok in auto)
  with serveAuth_steps[of A st "fst r" "snd r"] show ?thesis by simp
qed


section \<open>Sequences of requests\<close>

fun serveAll :: "auth_api \<Rightarrow> (string \<times> auth_request) list \<Rightarrow> auth_state \<Rightarrow> auth_state" where
  "serveAll A [] st = st"
| "serveAll A (r # rs) st = serveAll A rs (snd (serveAuth A r st))"

text \<open>The callers of the requests, as the middleware identifies them.\<close>

fun callers :: "auth_api \<Rightarrow> (string \<times> auth_request) list \<Rightarrow> auth_state \<Rightarrow> claims option list" where
  "callers A [] st = []"
| "callers A (r # rs) st = caller (authGate A st) (fst r) # callers A rs (snd (serveAuth A r st))"

lemma serveAll_induct:
  assumes "I (tables (ad_db st))"
    and "\<And>c rq t t'. c \<in> set (callers A rs st) \<Longrightarrow> rq \<in> snd ` set rs \<Longrightarrow> permitted (au_sql A) (au_json A) c rq t t' \<Longrightarrow> I t \<Longrightarrow> I t'"
  shows "I (tables (ad_db (serveAll A rs st)))"
  using assms
proof (induction rs arbitrary: st)
  case (Cons r rs)
  have "I (tables (ad_db (snd (serveAuth A r st))))"
    using serveAuth_steps[of A st "fst r" "snd r", simplified]
    by induction (use Cons.prems in auto)
  then have "I (tables (ad_db (serveAll A rs (snd (serveAuth A r st)))))" 
  proof (rule Cons.IH)
    show "I t'" if "c \<in> set (callers A rs (snd (serveAuth A r st)))" "rq \<in> snd ` set rs" "permitted (au_sql A) (au_json A) c rq t t'" "I t" for c rq t t'
      by (rule Cons.prems(2)[OF _ _ that(3,4)]) (use that in auto)
  qed
  then show ?case by simp
qed simp

section \<open>Privileges\<close>

text \<open>
  An \<open>ENUM\<close> column stores a member that is sent in its own spelling as itself. Which other spellings it takes for a member is up to its collation;
  a request is exactly spelled when it does not ask for a role in another spelling that the column would store as system_admin.
\<close>

definition keeps_roles :: "auth_json \<Rightarrow> bool" where
  "keeps_roles J \<longleftrightarrow> (\<forall>r \<in> {''org_admin'', ''member''}. \<forall>r'. col_role J r = Some r' \<longrightarrow> r' = r)"

fun exactlySpelled :: "auth_json \<Rightarrow> auth_request \<Rightarrow> bool" where
  "exactlySpelled J (PutUserRole i (Some r)) \<longleftrightarrow> r = ''system_admin'' \<or> col_role J r \<noteq> Some ''system_admin''"
| "exactlySpelled J (PutAdminUserRole i (Some r)) \<longleftrightarrow> r = ''system_admin'' \<or> col_role J r \<noteq> Some ''system_admin''"
| "exactlySpelled J _ \<longleftrightarrow> True"

definition systemAdminRows :: "auth_tables \<Rightarrow> db_user list" where
  "systemAdminRows t = filter (\<lambda>u. du_Role u = ''system_admin'') (a_users t)"

lemma touch_row:
  assumes "auth_ok q J t" "mayTouch q c i t" "\<not> isSystemAdmin c" "r \<in> set (a_users t)" "sql_eq q (du_ID r) i"
  shows "du_OrgID r = orgOf c" "du_Role r \<noteq> ''system_admin''"
proof -
  from assms(2,3) obtain r0 where r0: "find (\<lambda>r. sql_eq q (du_ID r) i) (a_users t) = Some r0" "du_OrgID r0 = orgOf c" "du_Role r0 \<noteq> ''system_admin''"
    by (auto simp: mayTouch_def)
  have "r = r0" using keyed_unique[of q du_ID "a_users t" r r0 i] find_mem[OF r0(1)] assms(1,4,5) by (auto simp: auth_ok_def)
  with r0 show "du_OrgID r = orgOf c" "du_Role r \<noteq> ''system_admin''" by auto
qed

lemma filter_update:
  "(\<And>r. r \<in> set rows \<Longrightarrow> h r \<Longrightarrow> \<not> P r \<and> \<not> P (g r)) \<Longrightarrow> filter P (map (\<lambda>r. if h r then g r else r) rows) = filter P rows"
  by (induction rows) auto

lemma filter_deleteRows: "(\<And>r. r \<in> set rows \<Longrightarrow> h r \<Longrightarrow> \<not> P r) \<Longrightarrow> filter P (deleteRows h rows) = filter P rows"
  by (induction rows) (auto simp: deleteRows_def)

lemma permitted_systemAdmins:
  assumes "permitted q J c rq t t'" "auth_ok q J t" "keeps_roles J" "exactlySpelled J rq" "\<not> isSystemAdmin c"
  shows "systemAdminRows t' = systemAdminRows t \<and> a_orgs t' = a_orgs t"
  using assms
proof (induction rule: permitted.induct)
  case (accept token password i u t)
  then have "di_Role i \<in> {''org_admin'', ''member''}" by (auto simp: auth_ok_def)
  then have "du_Role u \<noteq> ''system_admin''" using accept.prems(2) accept.hyps(8) unfolding keeps_roles_def by auto
  with accept show ?case by (simp add: systemAdminRows_def)
next
  case (setRole i r t r' now)
  then have "r' \<noteq> ''system_admin''" by auto
  with setRole show ?case
    by (auto simp: systemAdminRows_def updateUsers_def dest: touch_row(2) intro!: filter_update)
next
  case (setPermissions i ps t b now)
  then show ?case by (auto simp: systemAdminRows_def updateUsers_def dest: touch_row(2) intro!: filter_update)
next
  case (remove i t)
  then show ?case by (auto simp: systemAdminRows_def dest: touch_row(2) intro!: filter_deleteRows)
qed (auto simp: systemAdminRows_def)

text \<open>Where an account comes from: it was there, or there is an invitation for it.\<close>

definition accountOf :: "auth_tables \<Rightarrow> auth_tables \<Rightarrow> db_user \<Rightarrow> bool" where
  "accountOf t0 t u \<longleftrightarrow>
     (\<exists>u0 \<in> set (a_users t0). du_ID u0 = du_ID u \<and> du_OrgID u0 = du_OrgID u \<and> du_Email u0 = du_Email u \<and> du_PasswordHash u0 = du_PasswordHash u) \<or>
     (\<exists>i \<in> set (a_invitations t). di_OrgID i = du_OrgID u \<and> di_Email i = du_Email u)"

lemma accountOf_updates:
  "accountOf t0 (t\<lparr>a_users := us\<rparr>) u = accountOf t0 t u" "accountOf t0 t (u\<lparr>du_Role := r\<rparr>) = accountOf t0 t u"
  "accountOf t0 t (u\<lparr>du_Permissions := s\<rparr>) = accountOf t0 t u" "accountOf t0 t (u\<lparr>du_UpdatedAt := n\<rparr>) = accountOf t0 t u"
  by (simp_all add: accountOf_def)

lemma accountOf_mark:
  "accountOf t0 t u \<Longrightarrow> accountOf t0 (t\<lparr>a_invitations := map (\<lambda>r. if P r then r\<lparr>di_AcceptedAt := Some now\<rparr> else r) (a_invitations t)\<rparr>) u"
proof -
  define g where "g r = (if P r then r\<lparr>di_AcceptedAt := Some now\<rparr> else r)" for r
  have "di_OrgID (g r) = di_OrgID r" "di_Email (g r) = di_Email r" for r by (simp_all add: g_def)
  then show "accountOf t0 t u \<Longrightarrow> ?thesis" by (simp add: accountOf_def flip: g_def)
qed

lemma permitted_accounts:
  assumes "permitted q J c rq t t'" "\<not> isSystemAdmin c" "\<forall>u \<in> set (a_users t). accountOf t0 t u"
  shows "\<forall>u \<in> set (a_users t'). accountOf t0 t' u"
  using assms
proof (induction rule: permitted.induct)
  case (mark token password i now t u)
  then show ?case by (simp add: accountOf_mark)
next
  case (accept token password i u t)
  then have "accountOf t0 t u" by (auto simp: accountOf_def)
  with accept show ?case by (simp add: accountOf_updates)
next
  case (invite i r0 ps0 r ps t)
  then show ?case by (auto simp: accountOf_def)
next
  case (putSettings s t)
  then show ?case by (simp add: accountOf_def)
next
  case (dropSettings t)
  then show ?case by (simp add: accountOf_def)
qed (auto simp: accountOf_updates updateUsers_def deleteRows_set isSystemAdmin_def)

text \<open>
  C31. Nobody becomes system_admin through exactly spelled requests of others. Take any sequence of requests none of which carries the token of a
  system_admin, and none of which asks for a role in a spelling other than system_admin that the column would store as system_admin. Then the rows of the system_admins
  are exactly the same afterwards, so are the organisations, and every account
  of the end state existed before with the same organisation, address and password, or belongs to an invitation for that organisation and address.
  Hypotheses: the columns behave as documented (under any collation).
\<close>

theorem no_privilege_escalation:
  assumes "columns_ok (au_sql A) (au_json A)" "keeps_roles (au_json A)" "auth_ok (au_sql A) (au_json A) (tables (ad_db st))"
    and "\<forall>c \<in> set (callers A rs st). \<not> isSystemAdmin c" "\<forall>r \<in> set rs. exactlySpelled (au_json A) (snd r)"
  shows "systemAdminRows (tables (ad_db (serveAll A rs st))) = systemAdminRows (tables (ad_db st)) \<and>
    a_orgs (tables (ad_db (serveAll A rs st))) = a_orgs (tables (ad_db st)) \<and>
    (\<forall>u \<in> set (a_users (tables (ad_db (serveAll A rs st)))). accountOf (tables (ad_db st)) (tables (ad_db (serveAll A rs st))) u)"
proof -
  let ?I = "\<lambda>t. auth_ok (au_sql A) (au_json A) t \<and> systemAdminRows t = systemAdminRows (tables (ad_db st)) \<and> a_orgs t = a_orgs (tables (ad_db st)) \<and>
    (\<forall>u \<in> set (a_users t). accountOf (tables (ad_db st)) t u)"
  have "?I (tables (ad_db (serveAll A rs st)))"
  proof (rule serveAll_induct)
    show "?I (tables (ad_db st))" using assms(3) by (auto simp: accountOf_def)
    show "?I t'" if "c \<in> set (callers A rs st)" "rq \<in> snd ` set rs" "permitted (au_sql A) (au_json A) c rq t t'" "?I t" for c rq t t'
    proof -
      have "exactlySpelled (au_json A) rq" using that(2) assms(5) by auto
      with permitted_auth_ok[OF that(3) assms(1)] permitted_systemAdmins[OF that(3) _ assms(2)] permitted_accounts[OF that(3)] that(1,4) assms(4) show ?thesis by auto
    qed
  qed
  then show ?thesis by blast
qed

section \<open>Tenants\<close>

definition plainInvitations :: "string \<Rightarrow> auth_tables \<Rightarrow> db_invitation list" where
  "plainInvitations org t = map (\<lambda>i. i\<lparr>di_AcceptedAt := None\<rparr>) (filter (\<lambda>i. di_OrgID i = org) (a_invitations t))"

definition settingsOf :: "sql \<Rightarrow> string \<Rightarrow> auth_tables \<Rightarrow> org_email_settings list" where
  "settingsOf q org t = filter (\<lambda>s. sql_eq q (oe_OrgID s) org) (a_email t)"

definition outsider :: "sql \<Rightarrow> string \<Rightarrow> claims option \<Rightarrow> bool" where
  "outsider q org c \<longleftrightarrow> \<not> isSystemAdmin c \<and> (\<forall>cl. c = Some cl \<longrightarrow> \<not> sql_eq q (cl_OrgID cl) org)"

text \<open>An account of the organisation that an outsider's request leaves or adds.\<close>

definition tenantKept :: "sql \<Rightarrow> string \<Rightarrow> auth_tables \<Rightarrow> auth_tables \<Rightarrow> bool" where
  "tenantKept q org t0 t \<longleftrightarrow>
     (\<forall>u \<in> set (a_users t0). du_OrgID u = org \<longrightarrow> u \<in> set (a_users t)) \<and>
     (\<forall>u \<in> set (a_users t). du_OrgID u = org \<longrightarrow> u \<in> set (a_users t0) \<or> (\<exists>i \<in> set (plainInvitations org t0). di_Email i = du_Email u)) \<and>
     plainInvitations org t = plainInvitations org t0 \<and> settingsOf q org t = settingsOf q org t0"

lemma outsider_org: "outsider q org c \<Longrightarrow> isAdmin c \<Longrightarrow> \<not> sql_eq q (orgOf c) org \<and> orgOf c \<noteq> org"
  by (auto simp: outsider_def isAdmin_def orgOf_def sql_eq_def)

lemma mayTouch_admin: "outsider q org c \<Longrightarrow> mayTouch q c i t \<Longrightarrow> isAdmin c \<and> \<not> isSystemAdmin c"
  by (auto simp: mayTouch_def outsider_def)

lemma tenant_users:
  assumes "tenantKept q org t0 t" "filter (\<lambda>u. du_OrgID u = org) us = filter (\<lambda>u. du_OrgID u = org) (a_users t)"
  shows "tenantKept q org t0 (t\<lparr>a_users := us\<rparr>)"
proof -
  have "u \<in> set us \<longleftrightarrow> u \<in> set (a_users t)" if "du_OrgID u = org" for u using arg_cong[OF assms(2), of "\<lambda>xs. u \<in> set xs"] that by simp
  with assms(1) show ?thesis by (auto simp: tenantKept_def plainInvitations_def settingsOf_def)
qed

lemma permitted_tenant:
  assumes "permitted q J c rq t t'" "auth_ok q J t" "outsider q org c" "tenantKept q org t0 t"
  shows "tenantKept q org t0 t'"
  using assms
proof (induction rule: permitted.induct)
  case (invite i r0 ps0 r ps t)
  with outsider_org[OF invite.prems(2)] show ?case by (auto simp: tenantKept_def plainInvitations_def settingsOf_def)
next
  case (accept token password i u t)
  have "i\<lparr>di_AcceptedAt := None\<rparr> \<in> set (plainInvitations org t)" if "du_OrgID u = org" using accept that by (auto simp: plainInvitations_def)
  then have "\<exists>i' \<in> set (plainInvitations org t0). di_Email i' = du_Email u" if "du_OrgID u = org"
    by (intro bexI[of _ "i\<lparr>di_AcceptedAt := None\<rparr>"]) (use that accept.prems(3) accept.hyps(7) in \<open>auto simp: tenantKept_def\<close>)
  with accept.prems(3) show ?case by (auto simp: tenantKept_def plainInvitations_def settingsOf_def)
next
  case (mark token password i now t u)
  have "plainInvitations org (t\<lparr>a_invitations := map (\<lambda>r. if P r then r\<lparr>di_AcceptedAt := Some now\<rparr> else r) (a_invitations t)\<rparr>) = plainInvitations org t" for P
    by (simp add: plainInvitations_def filter_map o_def if_distrib cong: if_cong)
  with mark show ?case by (simp add: tenantKept_def settingsOf_def)
next
  case (setRole i r t r' now)
  note m = mayTouch_admin[OF setRole.prems(2) setRole.hyps(2)]
  with outsider_org[OF setRole.prems(2)] touch_row(1)[OF setRole.prems(1) setRole.hyps(2)] show ?case
    unfolding updateUsers_def snd_conv by (intro tenant_users[OF setRole.prems(3)] filter_update) auto
next
  case (setPermissions i ps t b now)
  note m = mayTouch_admin[OF setPermissions.prems(2) setPermissions.hyps(2)]
  with outsider_org[OF setPermissions.prems(2)] touch_row(1)[OF setPermissions.prems(1) setPermissions.hyps(2)] show ?case
    unfolding updateUsers_def snd_conv by (intro tenant_users[OF setPermissions.prems(3)] filter_update) auto
next
  case (remove i t)
  note m = mayTouch_admin[OF remove.prems(2) remove.hyps(2)]
  with outsider_org[OF remove.prems(2)] touch_row(1)[OF remove.prems(1) remove.hyps(2)] show ?case
    by (intro tenant_users[OF remove.prems(3)] filter_deleteRows) auto
next
  case (putSettings s t)
  then have "\<not> sql_eq q (oe_OrgID s) org" using outsider_org[OF putSettings.prems(2)] by (auto simp: outsider_def)
  then have "settingsOf q org (t\<lparr>a_email := (if \<exists>r \<in> set (a_email t). sql_eq q (oe_OrgID r) (oe_OrgID s)
      then map (\<lambda>r. if sql_eq q (oe_OrgID r) (oe_OrgID s) then s\<lparr>oe_OrgID := oe_OrgID r\<rparr> else r) (a_email t) else a_email t @ [s])\<rparr>) = settingsOf q org t"
    by (auto simp: settingsOf_def sql_eq_def intro!: filter_update)
  with putSettings show ?case by (simp add: tenantKept_def plainInvitations_def)
next
  case (dropSettings t)
  with outsider_org[OF dropSettings.prems(2)] have "settingsOf q org (t\<lparr>a_email := deleteRows (\<lambda>r. sql_eq q (oe_OrgID r) (orgOf c)) (a_email t)\<rparr>) = settingsOf q org t"
    by (auto simp: settingsOf_def sql_eq_def intro!: filter_deleteRows)
  with dropSettings show ?case by (simp add: tenantKept_def plainInvitations_def)
qed (auto simp: outsider_def)

text \<open>
  Tenants do not administer each other. Take an organisation and any sequence of requests whose callers are neither system_admin nor of that
  organisation. Then all its accounts are still there unchanged, it has no new account except for an address it had invited before,
  and its invitations (but for the mark that one was accepted) and e-mail settings are the same.
\<close>

theorem user_administration_is_separated:
  assumes "columns_ok (au_sql A) (au_json A)" "auth_ok (au_sql A) (au_json A) (tables (ad_db st))"
    and "\<forall>c \<in> set (callers A rs st). outsider (au_sql A) org c"
  shows "tenantKept (au_sql A) org (tables (ad_db st)) (tables (ad_db (serveAll A rs st)))"
proof -
  let ?I = "\<lambda>t. auth_ok (au_sql A) (au_json A) t \<and> tenantKept (au_sql A) org (tables (ad_db st)) t"
  have "?I (tables (ad_db (serveAll A rs st)))"
  proof (rule serveAll_induct)
    show "?I (tables (ad_db st))" using assms(2) by (auto simp: tenantKept_def)
    show "?I t'" if "c \<in> set (callers A rs st)" "rq \<in> snd ` set rs" "permitted (au_sql A) (au_json A) c rq t t'" "?I t" for c rq t t'
      using permitted_auth_ok[OF that(3) assms(1)] permitted_tenant[OF that(3)] that(1,4) assms(3) by auto
  qed
  then show ?thesis by blast
qed

end
