(* ===== verification/Auth_Login.thy ===== *)
theory Auth_Login
  imports Auth_Props
begin

text \<open>From an invitation to a session, and a concrete instance of the authentication endpoints.\<close>

section \<open>Sessions\<close>

text \<open>A token that was issued at a time for the user of a response, and is valid until it expires.\<close>

definition sessionFor :: "auth_api \<Rightarrow> int \<Rightarrow> string \<Rightarrow> user_response \<Rightarrow> bool" where
  "sessionFor A issued t resp \<longleftrightarrow> (\<forall>now. Verify (au_jwt A) now t (au_secret A) =
     (if now < 1000 * ((issued + au_ttl A) div 1000)
      then Inr \<lparr> cl_UserID = ur_ID resp, cl_OrgID = ur_OrgID resp, cl_Email = ur_Email resp, cl_Role = ur_Role resp, cl_OrgName = ur_OrgName resp, cl_Permissions = ur_Permissions resp \<rparr>
      else Inl InvalidToken))"

lemma lookup_reliable:
  "reliable q \<Longrightarrow> andThen (query q (\<lambda>t. firstRow P (rows t))) (\<lambda>row. decoded (read row)) d =
     (case find P (rows (tables d)) of None \<Rightarrow> (Inl ErrNotFound, tick d) | Some row \<Rightarrow> (read row, tick d))"
  by (simp add: andThen_def query_reliable split: option.split)

lemma GetOrganization_reliable:
  "reliable q \<Longrightarrow> GetOrganization q i d = (case find (\<lambda>o'. sql_eq q (og_ID o') i) (a_orgs (tables d)) of None \<Rightarrow> (Inl ErrNotFound, tick d) | Some org \<Rightarrow> (Inr org, tick d))"
  by (simp add: GetOrganization_def query_reliable split: option.split)

lemma issue_session:
  assumes "issue A code u st = (AuthJSON c (SessionBody t resp), st')" "jwt_ok (au_jwt A)"
  shows "\<exists>issued. sessionFor A issued t resp" "\<exists>name. resp = toUserResponse u name"
proof -
  from assms(1) obtain org d where i: "Sign (au_jwt A) (nowOf A d) (claimsOf u org) (au_secret A) (au_ttl A) = Some t" "resp = toUserResponse u (og_Name org)"
    by (auto simp: issue_def split: prod.splits sum.splits option.splits)
  have "sessionFor A (nowOf A d) t resp"
    unfolding sessionFor_def using Verify_Sign[OF assms(2) i(1)] by (simp add: i(2) toUserResponse_def claimsOf_def)
  then show "\<exists>issued. sessionFor A issued t resp" by blast
  show "\<exists>name. resp = toUserResponse u name" using i(2) by blast
qed

lemma issue_reliable:
  assumes "reliable (au_sql A)" "jwt_ok (au_jwt A)" "find (\<lambda>o'. sql_eq (au_sql A) (og_ID o') (u_OrgID u)) (a_orgs (tables (ad_db st))) = Some org"
  obtains t st' where "issue A code u st = (AuthJSON code (SessionBody t (toUserResponse u (og_Name org))), st')"
proof -
  obtain t where "Sign (au_jwt A) (nowOf A (tick (ad_db st))) (claimsOf u org) (au_secret A) (au_ttl A) = Some t"
    using assms(2) unfolding jwt_ok_def Sign_def by (meson not_None_eq)
  with that assms(1,3) show ?thesis by (auto simp: issue_def GetOrganization_reliable)
qed

section \<open>Accepting an invitation\<close>

definition userRow :: "user \<Rightarrow> string \<Rightarrow> string \<Rightarrow> db_user" where
  "userRow u perms r = \<lparr> du_ID = u_ID u, du_OrgID = u_OrgID u, du_Email = u_Email u, du_PasswordHash = u_PasswordHash u, du_Role = r, du_Permissions = perms,
     du_CreatedAt = u_CreatedAt u, du_UpdatedAt = u_UpdatedAt u \<rparr>"

lemma CreateUser_Inr:
  assumes "CreateUser q J uuid now u0 d = (Inr u, d1)"
  obtains perms r where "u_OrgID u = u_OrgID u0" "u_Email u = u_Email u0" "u_PasswordHash u = u_PasswordHash u0" "u_Role u = u_Role u0"
    "enc_perms J (u_Permissions u) = Some perms" "col_role J (u_Role u) = Some r"
    "\<forall>row \<in> set (a_users (tables d)). \<not> sql_eq q (du_ID row) (u_ID u) \<and> \<not> sql_eq q (du_Email row) (u_Email u)"
    "tables d1 = (tables d)\<lparr>a_users := a_users (tables d) @ [userRow u perms r]\<rparr>"
proof -
  define u' where "u' = u0\<lparr> u_ID := (if u_ID u0 = [] then uuid else u_ID u0), u_CreatedAt := now, u_UpdatedAt := now,
    u_Permissions := (if u_Permissions u0 = [] then DefaultPermissions else u_Permissions u0) \<rparr>"
  from assms obtain perms un where c: "enc_perms J (u_Permissions u') = Some perms" "exec q (insertUser q J u' perms) d = (Inr un, d1)" "u = u'"
    unfolding CreateUser_def Let_def u'_def[symmetric] by (auto simp: fail_def split: option.splits prod.splits sum.splits)
  have "u_OrgID u' = u_OrgID u0" "u_Email u' = u_Email u0" "u_PasswordHash u' = u_PasswordHash u0" "u_Role u' = u_Role u0" by (simp_all add: u'_def)
  with c exec_Inr[OF c(2)] that show ?thesis by (auto simp: insertUser_def userRow_def split: option.splits if_splits)
qed

text \<open>What an accepted invitation leaves in the tables.\<close>

lemma acceptInvite_201:
  assumes "reliable (au_sql A)" "acceptInvite A (Some (token, password)) st = (AuthJSON 201 (SessionBody t resp), st')"
  obtains i invite hash u perms r now st1 where
    "find (\<lambda>r. sql_eq (au_sql A) (di_Token r) token) (a_invitations (tables (ad_db st))) = Some i" "toInvitation (au_sql A) (au_json A) i = Inr invite"
    "iv_AcceptedAt invite = None" "HashPassword (au_bcrypt A) password = Some hash" "token \<noteq> []" "password \<noteq> []"
    "u_OrgID u = iv_OrgID invite" "u_Email u = iv_Email invite" "u_PasswordHash u = hash" "u_Role u = iv_Role invite"
    "enc_perms (au_json A) (u_Permissions u) = Some perms" "col_role (au_json A) (u_Role u) = Some r"
    "\<forall>row \<in> set (a_users (tables (ad_db st))). \<not> sql_eq (au_sql A) (du_ID row) (u_ID u) \<and> \<not> sql_eq (au_sql A) (du_Email row) (u_Email u)"
    "tables (ad_db st') = (tables (ad_db st))\<lparr> a_users := a_users (tables (ad_db st)) @ [userRow u perms r],
       a_invitations := map (\<lambda>r. if sql_eq (au_sql A) (di_ID r) (iv_ID invite) \<and> di_AcceptedAt r = None then r\<lparr>di_AcceptedAt := Some now\<rparr> else r) (a_invitations (tables (ad_db st))) \<rparr>"
    "issue A 201 u st1 = (AuthJSON 201 (SessionBody t resp), st')" "a_orgs (tables (ad_db st1)) = a_orgs (tables (ad_db st))"
proof -
  let ?q = "au_sql A" let ?J = "au_json A"
  from assms(2) obtain invite d hash u d1 where a: "GetInvitationByToken ?q ?J token (ad_db st) = (Inr invite, d)" "iv_AcceptedAt invite = None"
    "HashPassword (au_bcrypt A) password = Some hash" "CreateUser ?q ?J (uuidOf A d) (nowOf A d) (invitedUser invite hash) d = (Inr u, d1)"
    "issue A 201 u (st\<lparr>ad_db := snd (AcceptInvitation ?q (iv_ID invite) (nowOf A d) d1)\<rparr>) = (AuthJSON 201 (SessionBody t resp), st')" "token \<noteq> []" "password \<noteq> []"
    by (auto simp: acceptInvite_def orNotFound_def split: if_splits prod.splits sum.splits option.splits)
  from a(1) obtain i where i: "find (\<lambda>r. sql_eq ?q (di_Token r) token) (a_invitations (tables (ad_db st))) = Some i" "toInvitation ?q ?J i = Inr invite"
    unfolding reading by (elim lookup_InrE)
  have d: "tables d = tables (ad_db st)" using a(1) by (rule reads_eqD)
  from CreateUser_Inr[OF a(4)] obtain perms r where c: "u_OrgID u = iv_OrgID invite" "u_Email u = iv_Email invite" "u_PasswordHash u = hash" "u_Role u = iv_Role invite"
    "enc_perms ?J (u_Permissions u) = Some perms" "col_role ?J (u_Role u) = Some r"
    "\<forall>row \<in> set (a_users (tables d)). \<not> sql_eq ?q (du_ID row) (u_ID u) \<and> \<not> sql_eq ?q (du_Email row) (u_Email u)"
    "tables d1 = (tables d)\<lparr>a_users := a_users (tables d) @ [userRow u perms r]\<rparr>"
    unfolding invitedUser_def user.select_convs .
  let ?g = "\<lambda>r. if sql_eq ?q (di_ID r) (iv_ID invite) \<and> di_AcceptedAt r = None then r\<lparr>di_AcceptedAt := Some (nowOf A d)\<rparr> else r"
  have m: "tables (snd (AcceptInvitation ?q (iv_ID invite) (nowOf A d) d1)) = (tables d1)\<lparr>a_invitations := map ?g (a_invitations (tables d1))\<rparr>"
    using assms(1) by (simp add: AcceptInvitation_def andThen_def exec_reliable affected_def fail_def give_def Let_def)
  have "tables (ad_db st') = tables (snd (AcceptInvitation ?q (iv_ID invite) (nowOf A d) d1))"
    using arg_cong[OF a(5), of "\<lambda>p. tables (ad_db (snd p))"] by simp
  then have st': "tables (ad_db st') = (tables (ad_db st))\<lparr> a_users := a_users (tables (ad_db st)) @ [userRow u perms r], a_invitations := map ?g (a_invitations (tables (ad_db st))) \<rparr>"
    using m c(8) d by simp
  show ?thesis by (rule that[OF i a(2,3,6,7) c(1-6) _ st' a(5)]) (use m c(7,8) d in simp_all)
qed

lemma toUser_userRow:
  assumes "columns_ok q J" "enc_perms J (u_Permissions u) = Some perms"
  shows "toUser q J (userRow u perms (u_Role u)) = Inr u"
  using columns_okD(3)[OF assms] by (simp add: toUser_def userRow_def)

lemma find_map_same: "(\<And>x. P (g x) = P x) \<Longrightarrow> find P (map g xs) = map_option g (find P xs)"
  by (induction xs) auto

lemma find_fresh: "(\<And>x. x \<in> set xs \<Longrightarrow> \<not> P x) \<Longrightarrow> P y \<Longrightarrow> find P (xs @ [y]) = Some y"
  by (induction xs) auto

text \<open>
  C33. An invited user can log in. When an invitation has been accepted, the token in the answer identifies a user of the invitation's
  organisation, address and role until it expires; logging in with that address and the chosen password answers 200 with a valid
  token for the same user; a password that bcrypt does not accept for the stored hash is refused with 401; and the invitation cannot be accepted again.
  Hypotheses: the database does not fail, bcrypt accepts a password against its own hash, the JWT library verifies what it signed, the columns
  behave as documented.
\<close>

theorem invited_user_can_log_in:
  assumes "reliable (au_sql A)" "bcrypt_ok (au_bcrypt A)" "jwt_ok (au_jwt A)" "columns_ok (au_sql A) (au_json A)" "keeps_roles (au_json A)"
    and "auth_ok (au_sql A) (au_json A) (tables (ad_db st))"
    and "acceptInvite A (Some (token, password)) st = (AuthJSON 201 (SessionBody t resp), st')"
  shows "\<exists>i \<in> set (a_invitations (tables (ad_db st))). sql_eq (au_sql A) (di_Token i) token \<and> di_AcceptedAt i = None \<and>
    ur_OrgID resp = di_OrgID i \<and> ur_Email resp = di_Email i \<and> ur_Role resp = di_Role i \<and> (\<exists>issued. sessionFor A issued t resp) \<and>
    (di_Email i \<noteq> [] \<longrightarrow> (\<exists>t2 st2 issued. login A (Some (di_Email i, password)) st' = (AuthJSON 200 (SessionBody t2 resp), st2) \<and> sessionFor A issued t2 resp)) \<and>
    (\<forall>p. di_Email i \<noteq> [] \<longrightarrow> p \<noteq> [] \<longrightarrow>
       (\<forall>row \<in> set (a_users (tables (ad_db st'))). du_ID row = ur_ID resp \<longrightarrow> \<not> CheckPassword (au_bcrypt A) (du_PasswordHash row) p) \<longrightarrow>
       fst (login A (Some (di_Email i, p)) st') = AuthError 401 ''UNAUTHORIZED'') \<and>
    (\<forall>p. 8 \<le> length p \<longrightarrow> fst (acceptInvite A (Some (token, p)) st') = AuthError 409 ''INVITATION_USED'')"
proof -
  let ?q = "au_sql A" let ?J = "au_json A"
  from acceptInvite_201[OF assms(1,7)] obtain i invite hash u perms r now st1 where a:
    "find (\<lambda>r. sql_eq ?q (di_Token r) token) (a_invitations (tables (ad_db st))) = Some i" "toInvitation ?q ?J i = Inr invite"
    "iv_AcceptedAt invite = None" "HashPassword (au_bcrypt A) password = Some hash" "token \<noteq> []" "password \<noteq> []"
    "u_OrgID u = iv_OrgID invite" "u_Email u = iv_Email invite" "u_PasswordHash u = hash" "u_Role u = iv_Role invite"
    "enc_perms ?J (u_Permissions u) = Some perms" "col_role ?J (u_Role u) = Some r"
    "\<forall>row \<in> set (a_users (tables (ad_db st))). \<not> sql_eq ?q (du_ID row) (u_ID u) \<and> \<not> sql_eq ?q (du_Email row) (u_Email u)"
    "tables (ad_db st') = (tables (ad_db st))\<lparr> a_users := a_users (tables (ad_db st)) @ [userRow u perms r],
       a_invitations := map (\<lambda>r. if sql_eq ?q (di_ID r) (iv_ID invite) \<and> di_AcceptedAt r = None then r\<lparr>di_AcceptedAt := Some now\<rparr> else r) (a_invitations (tables (ad_db st))) \<rparr>"
    "issue A 201 u st1 = (AuthJSON 201 (SessionBody t resp), st')" "a_orgs (tables (ad_db st1)) = a_orgs (tables (ad_db st))" .
  have i: "i \<in> set (a_invitations (tables (ad_db st)))" "sql_eq ?q (di_Token i) token" using find_mem[OF a(1)] by auto
  have f: "iv_ID invite = di_ID i" "iv_OrgID invite = di_OrgID i" "iv_Email invite = di_Email i" "iv_Role invite = di_Role i" "di_AcceptedAt i = None"
    using a(2,3) by (auto simp: toInvitation_def split: option.splits)
  have r: "r = u_Role u" using assms(5,6) i(1) a(10,12) f(4) by (auto simp: keeps_roles_def auth_ok_def)
  obtain name where resp: "resp = toUserResponse u name" using issue_session(2)[OF a(15) assms(3)] by blast
  have found: "GetUserByEmail ?q ?J (di_Email i) (ad_db st') = (Inr u, tick (ad_db st'))"
  proof -
    have "find (\<lambda>row. sql_eq ?q (du_Email row) (di_Email i)) (a_users (tables (ad_db st'))) = Some (userRow u perms r)"
      using a(13) a(8) f(3) by (simp add: a(14)) (rule find_fresh, auto simp: userRow_def sql_eq_def)
    then show ?thesis using toUser_userRow[OF assms(4) a(11)] assms(1) by (simp add: GetUserByEmail_def lookup_reliable r)
  qed
  have ok: "\<exists>t2 st2 issued. login A (Some (di_Email i, password)) st' = (AuthJSON 200 (SessionBody t2 resp), st2) \<and> sessionFor A issued t2 resp" if "di_Email i \<noteq> []"
  proof -
    have pw: "CheckPassword (au_bcrypt A) (u_PasswordHash u) password"
      using assms(2) a(4,9) by (auto simp: bcrypt_ok_def HashPassword_def CheckPassword_def)
    from a(15) assms(1) obtain org where org: "find (\<lambda>o'. sql_eq ?q (og_ID o') (u_OrgID u)) (a_orgs (tables (ad_db st1))) = Some org" "resp = toUserResponse u (og_Name org)"
      by (auto simp: issue_def GetOrganization_reliable split: option.splits)
    have "find (\<lambda>o'. sql_eq ?q (og_ID o') (u_OrgID u)) (a_orgs (tables (ad_db (st'\<lparr>ad_db := tick (ad_db st')\<rparr>)))) = Some org"
      using org(1) by (simp add: a(14,16))
    from issue_reliable[OF assms(1,3) this] obtain t2 st2 where t2: "issue A 200 u (st'\<lparr>ad_db := tick (ad_db st')\<rparr>) = (AuthJSON 200 (SessionBody t2 resp), st2)"
      unfolding org(2) .
    then have "login A (Some (di_Email i, password)) st' = (AuthJSON 200 (SessionBody t2 resp), st2)" using that a(6) pw by (simp add: login_def found)
    with issue_session(1)[OF t2 assms(3)] show ?thesis by blast
  qed
  have bad: "fst (login A (Some (di_Email i, p)) st') = AuthError 401 ''UNAUTHORIZED''"
    if "di_Email i \<noteq> []" "p \<noteq> []" "\<forall>row \<in> set (a_users (tables (ad_db st'))). du_ID row = ur_ID resp \<longrightarrow> \<not> CheckPassword (au_bcrypt A) (du_PasswordHash row) p" for p
  proof -
    have "\<not> CheckPassword (au_bcrypt A) (u_PasswordHash u) p" using that(3) by (simp add: a(14) resp toUserResponse_def userRow_def)
    then show ?thesis using that(1,2) by (simp add: login_def found)
  qed
  have used: "fst (acceptInvite A (Some (token, p)) st') = AuthError 409 ''INVITATION_USED''" if "8 \<le> length p" for p
  proof -
    have "find (\<lambda>r. sql_eq ?q (di_Token r) token) (a_invitations (tables (ad_db st'))) = Some (i\<lparr>di_AcceptedAt := Some now\<rparr>)"
      using a(1) f(1,5) by (simp add: a(14) find_map_same sql_eq_def)
    moreover have "toInvitation ?q ?J (i\<lparr>di_AcceptedAt := Some now\<rparr>) = Inr (invite\<lparr>iv_AcceptedAt := Some now\<rparr>)"
      using a(2) by (auto simp: toInvitation_def split: option.splits)
    ultimately have "GetInvitationByToken ?q ?J token (ad_db st') = (Inr (invite\<lparr>iv_AcceptedAt := Some now\<rparr>), tick (ad_db st'))"
      using assms(1) by (simp add: GetInvitationByToken_def lookup_reliable)
    moreover have "p \<noteq> []" using that by auto
    ultimately show ?thesis using that a(5) by (simp add: acceptInvite_def)
  qed
  have "ur_OrgID resp = di_OrgID i" "ur_Email resp = di_Email i" "ur_Role resp = di_Role i" using resp a(7,8,10) f by (simp_all add: toUserResponse_def)
  with i f(5) issue_session(1)[OF a(15) assms(3)] ok bad used show ?thesis by blast
qed

end
