(* ===== verification/Auth_Instance.thy ===== *)
theory Auth_Instance
  imports Auth_Login
begin

text \<open>
  A small server: a codec for lists of strings, a token format, a password hash and tables with two organisations. The theorems of the
  authentication endpoints are applied to it, and it shows what a role column does that ignores case.
\<close>

section \<open>Libraries\<close>

text \<open>A list of strings as one string: every character is marked, every element is closed.\<close>

definition packWord :: "string \<Rightarrow> string" where
  "packWord s = concat (map (\<lambda>c. [CHR ''.'', c]) s) @ '';''"

definition pack :: "string list \<Rightarrow> string" where
  "pack ss = concat (map packWord ss)"

fun unpack :: "string \<Rightarrow> string \<Rightarrow> string list option" where
  "unpack acc [] = (if acc = [] then Some [] else None)"
| "unpack acc [m] = (if m = CHR '';'' then Some [rev acc] else None)"
| "unpack acc (m # c # s) = (if m = CHR '';'' then map_option (\<lambda>ss. rev acc # ss) (unpack [] (c # s)) else unpack (c # acc) s)"

lemma unpack_close: "unpack acc ('';'' @ s) = map_option (\<lambda>ss. rev acc # ss) (unpack [] s)"
  by (cases s) auto

lemma unpack_packWord: "unpack acc (packWord w @ s) = map_option (\<lambda>ss. (rev acc @ w) # ss) (unpack [] s)"
  unfolding packWord_def append_assoc
proof (induction w arbitrary: acc)
  case (Cons c w)
  from Cons.IH[of "c # acc"] show ?case by simp
qed (use unpack_close in simp)

lemma unpack_pack: "unpack [] (pack ss) = Some ss"
proof (induction ss)
  case (Cons w ss)
  then show ?case using unpack_packWord[of "[]" w "pack ss"] by (simp add: pack_def)
qed (simp add: pack_def)

definition demo_json :: "(string \<Rightarrow> string option) \<Rightarrow> auth_json" where
  "demo_json roles = \<lparr> enc_perms = (\<lambda>ps. Some (pack ps)), dec_perms = unpack [], col_role = roles,
     col_inviteRole = (\<lambda>r. if r = ''org_admin'' \<or> r = ''member'' then Some r else None) \<rparr>"

definition caseSensitive :: "string \<Rightarrow> string option" where
  "caseSensitive r = (if r \<in> set [''system_admin'', ''org_admin'', ''member''] then Some r else None)"

text \<open>An \<open>ENUM\<close> column under a collation that ignores case, as \<open>utf8mb4_unicode_ci\<close> does.\<close>

definition caseInsensitive :: "string \<Rightarrow> string option" where
  "caseInsensitive r = find (\<lambda>m. m = ToLower r) [''system_admin'', ''org_admin'', ''member'']"

lemma caseInsensitive_members:
  "caseInsensitive ''system_admin'' = Some ''system_admin''" "caseInsensitive ''org_admin'' = Some ''org_admin''" "caseInsensitive ''member'' = Some ''member''"
  by (code_simp, code_simp, code_simp)

lemma caseInsensitive_range: "caseInsensitive r = Some r' \<Longrightarrow> r' \<in> {''system_admin'', ''org_admin'', ''member''}"
  by (auto simp: caseInsensitive_def split: if_splits)

lemma demo_columns: "columns_ok plain_sql (demo_json caseSensitive)" "columns_ok plain_sql (demo_json caseInsensitive)"
  "keeps_roles (demo_json caseSensitive)" "keeps_roles (demo_json caseInsensitive)"
  by (auto simp: columns_ok_def demo_json_def plain_sql_def unpack_pack caseSensitive_def keeps_roles_def caseInsensitive_members dest!: caseInsensitive_range split: if_splits)

text \<open>A token carries its key, its claims and its time of expiry, which is not negative here.\<close>

definition demo_jwt :: jwt_lib where
  "demo_jwt = \<lparr>
     jw_SignedString = (\<lambda>key c iat expiry. Some (pack ([key, cl_UserID c, cl_OrgID c, cl_Email c, cl_Role c, cl_OrgName c,
       (if expiry < 0 then CHR ''-'' # replicate (nat (- expiry)) (CHR ''1'') else replicate (nat expiry) (CHR ''1''))] @ cl_Permissions c))),
     jw_ParseWithClaims = (\<lambda>kf now t. case unpack [] t of
         Some (key # uid # org # email # r # orgName # e # perms) \<Rightarrow>
           (let expiry = (if e \<noteq> [] \<and> hd e = CHR ''-'' then - int (length (tl e)) else int (length e))
            in if kf (HMAC ''HS256'') = Some key \<and> now < 1000 * expiry
               then Some (\<lparr> cl_UserID = uid, cl_OrgID = org, cl_Email = email, cl_Role = r, cl_OrgName = orgName, cl_Permissions = perms \<rparr>, True) else None)
       | _ \<Rightarrow> None) \<rparr>"

lemma demo_jwt_ok: "jwt_ok demo_jwt"
proof -
  have "(if e < 0 then CHR ''-'' # replicate (nat (- e)) (CHR ''1'') else replicate (nat e) (CHR ''1'')) = s \<Longrightarrow>
      (if s \<noteq> [] \<and> hd s = CHR ''-'' then - int (length (tl s)) else int (length s)) = e" for e s
    by (cases "nat e") (auto split: if_splits)
  then show ?thesis by (auto simp: jwt_ok_def demo_jwt_def unpack_pack Let_def)
qed

definition demo_bcrypt :: bcrypt_lib where
  "demo_bcrypt = \<lparr> bc_GenerateFromPassword = (\<lambda>cost p. if length p \<le> 72 then Some (''hash of '' @ p) else None), bc_CompareHashAndPassword = (\<lambda>h p. h = ''hash of '' @ p) \<rparr>"

section \<open>A server\<close>

definition demo_auth :: "(string \<Rightarrow> string option) \<Rightarrow> auth_api" where
  "demo_auth roles = \<lparr> au_sql = plain_sql, au_json = demo_json roles, au_uuid = (\<lambda>n. CHR ''u'' # replicate n (CHR ''1'')), au_now = (\<lambda>n. 1000 * int n), au_jwt = demo_jwt,
     au_secret = ''key'', au_ttl = 60000, au_bcrypt = demo_bcrypt, au_random = (\<lambda>n. Some [171, n]), au_vault = sample_vault, au_inner = demo_store,
     au_templates = \<lparr> tp_Parse = (\<lambda>_. True), tp_Execute = (\<lambda>t d. Some t) \<rparr>,
     au_smtp = (\<lambda>_. \<lparr> sm_STARTTLS = True, sm_accepts = (\<lambda>_. True) \<rparr>), au_frontendURL = ''http://ui'' \<rparr>"

definition demo_user :: "string \<Rightarrow> string \<Rightarrow> string \<Rightarrow> db_user" where
  "demo_user i org r = \<lparr> du_ID = i, du_OrgID = org, du_Email = i @ ''@x'', du_PasswordHash = ''hash of '' @ i, du_Role = r, du_Permissions = pack [''eval:read''], du_CreatedAt = 0, du_UpdatedAt = 0 \<rparr>"

definition demo_auth_start :: auth_state where
  "demo_auth_start = \<lparr> ad_db = \<lparr> tables = \<lparr>
       a_orgs = [\<lparr> og_ID = ''o1'', og_Name = ''Acme'', og_CreatedAt = 0 \<rparr>, \<lparr> og_ID = ''o2'', og_Name = ''Other'', og_CreatedAt = 0 \<rparr>],
       a_users = [demo_user ''root'' ''o1'' ''system_admin'', demo_user ''ann'' ''o1'' ''org_admin'', demo_user ''bob'' ''o1'' ''member'', demo_user ''eve'' ''o2'' ''org_admin''],
       a_invitations = [\<lparr> di_ID = ''i'', di_OrgID = ''o1'', di_Email = ''new@x'', di_Role = ''member'', di_Permissions = pack [''eval:read''], di_Token = ''t0'',
         di_InvitedBy = ''ann'', di_ExpiresAt = 90000, di_AcceptedAt = None, di_CreatedAt = 0 \<rparr>], a_email = [], a_rag = [], a_wf = tables empty_db,
       a_eval = \<lparr> t_suites = [], t_cases = [], t_eval_runs = [], t_results = [] \<rparr> \<rparr>, clock = 0 \<rparr>, ad_rand = 0, ad_sent = [] \<rparr>"

definition demo_bearer :: "string \<Rightarrow> string \<Rightarrow> string \<Rightarrow> string" where
  "demo_bearer i org r = ''Bearer '' @ (case Sign demo_jwt 0 \<lparr> cl_UserID = i, cl_OrgID = org, cl_Email = i @ ''@x'', cl_Role = r, cl_OrgName = [], cl_Permissions = [] \<rparr> ''key'' 60000 of
     None \<Rightarrow> [] | Some t \<Rightarrow> t)"

lemma isSystemAdmin_code [code]: "isSystemAdmin c = (case c of None \<Rightarrow> False | Some cl \<Rightarrow> cl_Role cl = ''system_admin'')"
  by (simp add: isSystemAdmin_def split: option.split)

lemma outsider_code [code]: "outsider q org c = (\<not> isSystemAdmin c \<and> (case c of None \<Rightarrow> True | Some cl \<Rightarrow> \<not> sql_eq q (cl_OrgID cl) org))"
  by (simp add: outsider_def split: option.split)

lemma demo_auth_ok: "auth_ok plain_sql (demo_json roles) (tables (ad_db demo_auth_start))"
proof -
  have "auth_ok plain_sql (demo_json caseSensitive) (tables (ad_db demo_auth_start))" by code_simp
  then show ?thesis by (simp add: auth_ok_def permsReadable_def demo_json_def)
qed

lemma demo_auth_sel [simp]:
  "au_sql (demo_auth roles) = plain_sql" "au_json (demo_auth roles) = demo_json roles" "au_jwt (demo_auth roles) = demo_jwt" "au_bcrypt (demo_auth roles) = demo_bcrypt"
  by (simp_all add: demo_auth_def)

definition demo_admin_requests :: "(string \<times> auth_request) list" where
  "demo_admin_requests = [(demo_bearer ''ann'' ''o1'' ''org_admin'', PostInvite (Some (''zoe@x'', [], []))),
     (demo_bearer ''ann'' ''o1'' ''org_admin'', PutUserRole ''bob'' (Some ''org_admin'')),
     (demo_bearer ''ann'' ''o1'' ''org_admin'', DeleteOrgUser ''root'')]"

theorem auth_tables_typed_witness:
  "auth_ok plain_sql (demo_json caseSensitive) (tables (ad_db (snd (serveAuth (demo_auth caseSensitive) (hd demo_admin_requests) demo_auth_start))))"
  using auth_tables_typed[of "demo_auth caseSensitive" demo_auth_start "hd demo_admin_requests"] demo_columns demo_auth_ok by simp

text \<open>The witness uses the column that ignores case: what matters is how the requests spell the roles.\<close>

theorem no_privilege_escalation_witness:
  "systemAdminRows (tables (ad_db (serveAll (demo_auth caseInsensitive) demo_admin_requests demo_auth_start))) = [demo_user ''root'' ''o1'' ''system_admin'']"
proof -
  have "\<forall>c \<in> set (callers (demo_auth caseInsensitive) demo_admin_requests demo_auth_start). \<not> isSystemAdmin c" by code_simp
  moreover have "\<forall>r \<in> set demo_admin_requests. exactlySpelled (demo_json caseInsensitive) (snd r)" by code_simp
  moreover have "systemAdminRows (tables (ad_db demo_auth_start)) = [demo_user ''root'' ''o1'' ''system_admin'']" by code_simp
  ultimately show ?thesis
    using no_privilege_escalation[of "demo_auth caseInsensitive" demo_auth_start demo_admin_requests] demo_columns demo_auth_ok by simp
qed

definition demo_foreign_requests :: "(string \<times> auth_request) list" where
  "demo_foreign_requests = [(demo_bearer ''eve'' ''o2'' ''org_admin'', PutUserRole ''bob'' (Some ''org_admin'')), (demo_bearer ''eve'' ''o2'' ''org_admin'', DeleteOrgUser ''ann''), ([], PostLogin None)]"

theorem user_administration_is_separated_witness:
  "tenantKept plain_sql ''o1'' (tables (ad_db demo_auth_start)) (tables (ad_db (serveAll (demo_auth caseSensitive) demo_foreign_requests demo_auth_start)))"
proof -
  have "\<forall>c \<in> set (callers (demo_auth caseSensitive) demo_foreign_requests demo_auth_start). outsider plain_sql ''o1'' c" by code_simp
  then show ?thesis
    using user_administration_is_separated[of "demo_auth caseSensitive" demo_auth_start demo_foreign_requests "''o1''"] demo_columns demo_auth_ok by simp
qed

theorem invited_user_can_log_in_witness:
  "\<exists>t resp st' t2 st2. acceptInvite (demo_auth caseSensitive) (Some (''t0'', ''password'')) demo_auth_start = (AuthJSON 201 (SessionBody t resp), st') \<and>
     login (demo_auth caseSensitive) (Some (''new@x'', ''password'')) st' = (AuthJSON 200 (SessionBody t2 resp), st2)"
proof -
  let ?A = "demo_auth caseSensitive"
  let ?a = "acceptInvite ?A (Some (''t0'', ''password'')) demo_auth_start"
  have "case fst ?a of AuthJSON c (SessionBody t r) \<Rightarrow> c = 201 | _ \<Rightarrow> False" by code_simp
  then obtain t resp st' where a: "?a = (AuthJSON 201 (SessionBody t resp), st')"
    by (cases ?a) (auto split: auth_response.splits auth_body.splits)
  have "bcrypt_ok demo_bcrypt" by (auto simp: bcrypt_ok_def demo_bcrypt_def split: if_splits)
  from invited_user_can_log_in[OF _ _ _ _ _ _ a] this plain_sql_reliable demo_jwt_ok demo_columns demo_auth_ok
  obtain i t2 st2 where i: "i \<in> set (a_invitations (tables (ad_db demo_auth_start)))"
    "di_Email i \<noteq> [] \<longrightarrow> login ?A (Some (di_Email i, ''password'')) st' = (AuthJSON 200 (SessionBody t2 resp), st2)" by auto
  then have "di_Email i = ''new@x''" by (simp add: demo_auth_start_def)
  with i(2) a show ?thesis by auto
qed

section \<open>A role in another spelling\<close>

text \<open>
  C32. A role in another spelling is granted. The guard of the role endpoint compares the requested role with the exact spelling of system_admin and
  checks it in no other way. So whenever the \<open>role\<close> column stores another spelling as system_admin (the \<open>ENUM\<close> of the schema does, its collation ignores case), any
  org_admin who sends that spelling for any other user of the organisation gets 204, and the row of that user says system_admin: on a database that works, for every state of the tables.
\<close>

theorem role_spelling_grants_system_admin:
  assumes "reliable (au_sql A)" "auth_ok (au_sql A) (au_json A) (tables (ad_db st))"
    and "col_role (au_json A) s = Some ''system_admin''" "s \<noteq> ''system_admin''" "s \<noteq> []"
    and "caller (authGate A st) hdr = Some cl" "cl_Role cl = ''org_admin''"
    and "u \<in> set (a_users (tables (ad_db st)))" "du_OrgID u = cl_OrgID cl" "du_ID u \<noteq> cl_UserID cl" "du_Role u \<noteq> ''system_admin''"
  shows "\<exists>st' now. serveAuth A (hdr, PutUserRole (du_ID u) (Some s)) st = (Inr (AuthJSON 204 Empty), st') \<and>
    u\<lparr> du_Role := ''system_admin'', du_UpdatedAt := now \<rparr> \<in> set (a_users (tables (ad_db st')))"
proof -
  let ?q = "au_sql A" let ?J = "au_json A" let ?t = "tables (ad_db st)" let ?P = "\<lambda>r. sql_eq (au_sql A) (du_ID r) (du_ID u)"
  obtain u0 where f: "find ?P (a_users ?t) = Some u0" using assms(8) by (cases "find ?P (a_users ?t)") (auto simp: find_None_iff)
  have "u0 = u" using find_mem[OF f] keyed_unique[of ?q du_ID "a_users ?t" u0 u "du_ID u"] assms(2,8) by (auto simp: auth_ok_def)
  with f have f: "find ?P (a_users ?t) = Some u" by simp
  have "permsReadable ?q ?J (du_Permissions u)" using assms(2,8) by (auto simp: auth_ok_def)
  then obtain ps where ps: "dec_perms ?J (sql_json ?q (du_Permissions u)) = Some ps" by (auto simp: permsReadable_def)
  have check: "checkTarget A cl (du_ID u) st = (None, st\<lparr>ad_db := tick (ad_db st)\<rparr>)"
    using f ps assms(7,9,11) by (simp add: checkTarget_def GetUser_def lookup_reliable[OF assms(1)] toUser_def)
  let ?now = "nowOf A (tick (ad_db st))"
  let ?t' = "snd (updateUsers ?q ?now (du_ID u) (\<lambda>r. r\<lparr>du_Role := ''system_admin''\<rparr>) ?t)"
  have n: "\<not> (\<forall>r \<in> set (a_users ?t). \<not> ?P r)" "length (filter ?P (a_users ?t)) \<noteq> 0" using assms(8) by (auto simp: filter_empty_conv intro!: bexI[of _ u])
  have set: "u\<lparr>du_Role := ''system_admin''\<rparr> \<noteq> u" using assms(11) by (metis db_user.select_convs(5) db_user.simps(13) db_user.surjective db_user.update_convs(5))
  have "UpdateUserRole ?q ?J ?now (du_ID u) s (tick (ad_db st)) = (Inr (), (tick (tick (ad_db st)))\<lparr>tables := ?t'\<rparr>)"
    using n assms(3) by (auto simp: UpdateUserRole_def andThen_def exec_reliable[OF assms(1)] affected_def give_def updateUsers_def)
  then have r: "serveAuth A (hdr, PutUserRole (du_ID u) (Some s)) st = (Inr (AuthJSON 204 Empty), st\<lparr>ad_db := (tick (tick (ad_db st)))\<lparr>tables := ?t'\<rparr>\<rparr>)"
    using assms(4-7,10) check by (simp add: serveAuth_def mux_role_iff answer_def updateOrgUserRole_def claimsOrZero_def finish_def)
  have "u\<lparr> du_Role := ''system_admin'', du_UpdatedAt := ?now \<rparr> \<in> set (a_users ?t')"
    using assms(8) set by (auto simp: updateUsers_def intro!: rev_image_eqI[of u])
  with r show ?thesis by (intro exI[of _ "st\<lparr>ad_db := (tick (tick (ad_db st)))\<lparr>tables := ?t'\<rparr>\<rparr>"] exI[of _ ?now]) simp
qed

text \<open>On the small server with the column that ignores case; the member's next login yields a token that passes the guard of the system administration routes.\<close>

theorem role_spelling_grants_system_admin_witness:
  "\<exists>st' now. serveAuth (demo_auth caseInsensitive) (demo_bearer ''ann'' ''o1'' ''org_admin'', PutUserRole ''bob'' (Some ''SYSTEM_ADMIN'')) demo_auth_start = (Inr (AuthJSON 204 Empty), st') \<and>
     (demo_user ''bob'' ''o1'' ''member'')\<lparr> du_Role := ''system_admin'', du_UpdatedAt := now \<rparr> \<in> set (a_users (tables (ad_db st')))"
proof -
  let ?cl = "\<lparr> cl_UserID = ''ann'', cl_OrgID = ''o1'', cl_Email = ''ann@x'', cl_Role = ''org_admin'', cl_OrgName = [], cl_Permissions = [] \<rparr>"
  have c: "caller (authGate (demo_auth caseInsensitive) demo_auth_start) (demo_bearer ''ann'' ''o1'' ''org_admin'') = Some ?cl"
    "col_role (demo_json caseInsensitive) ''SYSTEM_ADMIN'' = Some ''system_admin''" by code_simp+
  have "demo_user ''bob'' ''o1'' ''member'' \<in> set (a_users (tables (ad_db demo_auth_start)))" by (simp add: demo_auth_start_def)
  from role_spelling_grants_system_admin[OF _ _ _ _ _ c(1) _ this, of "''SYSTEM_ADMIN''"] c(2) plain_sql_reliable demo_auth_ok
  show ?thesis by (simp add: demo_user_def)
qed

theorem demo_system_admin_by_spelling:
  "case serveAuth (demo_auth caseInsensitive) (demo_bearer ''ann'' ''o1'' ''org_admin'', PutUserRole ''bob'' (Some ''SYSTEM_ADMIN'')) demo_auth_start of
      (r, st') \<Rightarrow> r = Inr (AuthJSON 204 Empty) \<and>
        (case login (demo_auth caseInsensitive) (Some (''bob@x'', ''bob'')) st' of
           (AuthJSON code (SessionBody t resp), st2) \<Rightarrow> code = 200 \<and> ur_Role resp = ''system_admin'' \<and>
             \<not> isl (fst (serveAuth (demo_auth caseInsensitive) (''Bearer '' @ t, GetAdminUsers) st2))
         | _ \<Rightarrow> False)"
  by code_simp

end
