(* ===== verification/Run_Handler.thy ===== *)
theory Run_Handler
  imports Workflow_Handler Engine Auth
begin

text \<open>
  The endpoints for runs (\<open>internal/api/run_handler.go\<close>). The engine is the interface \<open>trigger.Dispatcher\<close>, a parameter over the tables of
  the run store. The decoder of a JSON schema and \<open>time.Parse\<close> are parameters; \<open>fmt.Sscanf\<close> is written out for the one verb used. \<open>iter\<close> is the order in
  which the runtime ranges over the properties of a schema.
\<close>

section \<open>Scanning a number\<close>

definition isBlank :: "char \<Rightarrow> bool" where
  "isBlank c \<longleftrightarrow> c \<in> set [CHR '' '', CHR 0x09, CHR 0x0B, CHR 0x0C, CHR 0x0D]"

fun digitsPrefix :: "string \<Rightarrow> string" where
  "digitsPrefix [] = []"
| "digitsPrefix (c # s) = (case digitVal c of None \<Rightarrow> [] | Some _ \<Rightarrow> c # digitsPrefix s)"

text \<open>\<open>fmt.Sscanf(s, "%d", &n)\<close>: blanks, a sign, digits; what follows is ignored, a newline in front is an error.\<close>

definition Sscanf_d :: "string \<Rightarrow> int option" where
  "Sscanf_d s =
     (let rest = dropWhile isBlank s;
          sign = (if rest \<noteq> [] \<and> (hd rest = CHR ''-'' \<or> hd rest = CHR ''+'') then [hd rest] else [])
      in Atoi (sign @ digitsPrefix (drop (length sign) rest)))"

section \<open>The advisory check of the initial data\<close>

record data_schema =
  js_Properties :: "(string \<times> string) list"
  js_Required :: "string list"

datatype data_warning = SchemaUnparsable | FieldMissing string | FieldMistyped string string

fun typeMismatch :: "string \<Rightarrow> val \<Rightarrow> bool" where
  "typeMismatch ty v =
     (if ty = ''number'' \<or> ty = ''integer'' then (case v of VFloat _ \<Rightarrow> False | VInt _ \<Rightarrow> False | VInt64 _ \<Rightarrow> False | _ \<Rightarrow> True)
      else if ty = ''boolean'' then (case v of VBool _ \<Rightarrow> False | _ \<Rightarrow> True)
      else if ty = ''string'' then (case v of VStr _ \<Rightarrow> False | _ \<Rightarrow> True)
      else False)"

definition fieldWarnings :: "data_schema \<Rightarrow> gomap \<Rightarrow> string \<times> string \<Rightarrow> data_warning list" where
  "fieldWarnings s data = (\<lambda>(fieldName, ty).
     case map_of data fieldName of
       None \<Rightarrow> if fieldName \<in> set (js_Required s) then [FieldMissing fieldName] else []
     | Some v \<Rightarrow> if typeMismatch ty v then [FieldMistyped fieldName ty] else [])"

definition validateInitialData :: "(string \<Rightarrow> data_schema option) \<Rightarrow> ((string \<times> string) list \<Rightarrow> (string \<times> string) list) \<Rightarrow> string \<Rightarrow> gomap \<Rightarrow> data_warning list" where
  "validateInitialData decode iter schema data =
     (case decode schema of
        None \<Rightarrow> [SchemaUnparsable]
      | Some s \<Rightarrow> concat (map (fieldWarnings s data) (iter (js_Properties s))))"

section \<open>The handlers\<close>

record run_api =
  ra_sql :: sql
  ra_wfjson :: wf_json
  ra_json :: json_lib
  ra_vault :: config_vault
  ra_store :: "string \<Rightarrow> wf_tables db inner_store"
  ra_decodeSchema :: "string \<Rightarrow> data_schema option"
  ra_iter :: "(string \<times> string) list \<Rightarrow> (string \<times> string) list"
  ra_Dispatch :: "string \<Rightarrow> run_request \<Rightarrow> run_tables db \<Rightarrow> (string + string) \<times> run_tables db"
  ra_parseTime :: "string \<Rightarrow> int option"

record run_state =
  rs_wf :: "wf_tables db"
  rs_runs :: "run_tables db"
  rs_warnings :: "(string \<times> data_warning list) list"

datatype run_response = RunJSON nat run | RunsJSON "run list" | RunError nat string

definition runStoreError :: "store_error \<Rightarrow> run_response" where
  "runStoreError e = (if e = ErrNotFound then RunError 404 ''NOT_FOUND'' else RunError 500 ''INTERNAL_ERROR'')"

text \<open>The body: \<open>None\<close> is refused by the decoder, \<open>Some None\<close> has no initial data or is empty.\<close>

definition triggerRun :: "run_api \<Rightarrow> string \<Rightarrow> string \<Rightarrow> gomap option option \<Rightarrow> run_state \<Rightarrow> run_response \<times> run_state" where
  "triggerRun A org workflowID reqBody st =
     (case GetWorkflowSchema (ra_sql A) org workflowID (rs_wf st) of
        (Inl e, d) \<Rightarrow> (runStoreError e, st\<lparr>rs_wf := d\<rparr>)
      | (Inr initialDataSchema, d) \<Rightarrow>
          (case reqBody of
             None \<Rightarrow> (RunError 400 ''VALIDATION_FAILED'', st\<lparr>rs_wf := d\<rparr>)
           | Some body \<Rightarrow>
               (let data = cfg_entries body;
                    warnings = (if initialDataSchema = [] then [] else validateInitialData (ra_decodeSchema A) (ra_iter A) initialDataSchema data);
                    st1 = st\<lparr> rs_wf := d, rs_warnings := (if warnings = [] then rs_warnings st else rs_warnings st @ [(workflowID, warnings)]) \<rparr>
                in case ra_Dispatch A org \<lparr> rq_WorkflowID = workflowID, rq_InitialData = data, rq_TriggeredBy = ''manual'', rq_NodeMocks = [], rq_WorkflowVersionNumber = None \<rparr> (rs_runs st) of
                     (Inl _, r) \<Rightarrow> (RunError 500 ''ENGINE_ERROR'', st1\<lparr>rs_runs := r\<rparr>)
                   | (Inr runID, r) \<Rightarrow>
                       (case GetRun (ra_sql A) (ra_json A) org runID r of
                          (Inl _, r') \<Rightarrow> (RunError 500 ''INTERNAL_ERROR'', st1\<lparr>rs_runs := r'\<rparr>)
                        | (Inr run, r') \<Rightarrow> (RunJSON 201 run, st1\<lparr>rs_runs := r'\<rparr>)))))"

definition getRun :: "run_api \<Rightarrow> string \<Rightarrow> string \<Rightarrow> run_state \<Rightarrow> run_response \<times> run_state" where
  "getRun A org runID st =
     (case GetRun (ra_sql A) (ra_json A) org runID (rs_runs st) of
        (Inl e, r) \<Rightarrow> (runStoreError e, st\<lparr>rs_runs := r\<rparr>)
      | (Inr run, r) \<Rightarrow> (RunJSON 200 run, st\<lparr>rs_runs := r\<rparr>))"

definition runFilter :: "run_api \<Rightarrow> string \<Rightarrow> string \<Rightarrow> string \<Rightarrow> string \<Rightarrow> string \<Rightarrow> run_filter" where
  "runFilter A workflowID statusParam limit since until =
     \<lparr> rf_WorkflowID = workflowID, rf_Status = statusParam, rf_Since = (if since = [] then None else ra_parseTime A since),
       rf_Until = (if until = [] then None else ra_parseTime A until),
       rf_Limit = (case Sscanf_d limit of Some n \<Rightarrow> if n > 0 then n else 50 | None \<Rightarrow> 50) \<rparr>"

definition listRuns :: "run_api \<Rightarrow> string \<Rightarrow> string \<Rightarrow> string \<Rightarrow> string \<Rightarrow> string \<Rightarrow> string \<Rightarrow> run_state \<Rightarrow> run_response \<times> run_state" where
  "listRuns A org workflowID statusParam limit since until st =
     (case GetWorkflow (ra_vault A) (ra_store A org) workflowID (rs_wf st) of
        (Inl e, d) \<Rightarrow> ((if e = FromStore ErrNotFound then RunError 404 ''NOT_FOUND'' else RunError 500 ''INTERNAL_ERROR''), st\<lparr>rs_wf := d\<rparr>)
      | (Inr _, d) \<Rightarrow>
          (case ListRuns (ra_sql A) (ra_json A) (runFilter A workflowID statusParam limit since until) (rs_runs st) of
             (Inl _, r) \<Rightarrow> (RunError 500 ''INTERNAL_ERROR'', st\<lparr> rs_wf := d, rs_runs := r \<rparr>)
           | (Inr runs, r) \<Rightarrow> (RunsJSON runs, st\<lparr> rs_wf := d, rs_runs := r \<rparr>)))"

section \<open>Facts\<close>

text \<open>The check is advisory: whatever schema is stored, the same request is dispatched and the same answer is given.\<close>

lemma schema_is_advisory:
  assumes "GetWorkflowSchema (ra_sql A) org i (rs_wf st) = (Inr schema, d)" "GetWorkflowSchema (ra_sql A) org i (rs_wf st1) = (Inr schema1, d1)" "rs_runs st1 = rs_runs st"
  shows "fst (triggerRun A org i (Some body) st1) = fst (triggerRun A org i (Some body) st) \<and>
    rs_runs (snd (triggerRun A org i (Some body) st1)) = rs_runs (snd (triggerRun A org i (Some body) st))"
  using assms by (simp add: triggerRun_def Let_def split: prod.split sum.split)

text \<open>Only fields that the schema lists as properties are ever reported, and a required one exactly when it is missing.\<close>

lemma required_field_reported:
  assumes "decode schema = Some s" "mset (iter (js_Properties s)) = mset (js_Properties s)"
  shows "FieldMissing f \<in> set (validateInitialData decode iter schema data) \<longleftrightarrow> f \<in> fst ` set (js_Properties s) \<and> f \<in> set (js_Required s) \<and> map_of data f = None"
proof -
  have set: "set (iter (js_Properties s)) = set (js_Properties s)" using assms(2) by (rule mset_eq_setD)
  have one: "FieldMissing f \<in> set (fieldWarnings s data p) \<longleftrightarrow> fst p = f \<and> f \<in> set (js_Required s) \<and> map_of data f = None" for p
    by (cases p) (auto simp: fieldWarnings_def split: option.split)
  show ?thesis by (auto simp: validateInitialData_def assms(1) set one)
qed

text \<open>The limit of a list of runs is positive.\<close>

lemma runFilter_limit: "0 < rf_Limit (runFilter A w s l a b)"
  by (simp add: runFilter_def split: option.split)

end
