(* ===== verification/Router.thy ===== *)
theory Router
  imports Handler_Sync Eval_Handler_Props Auth_Handler Run_Handler
begin

text \<open>
  The routes of \<open>internal/api/router.go\<close> for workflows, runs and evaluations: each handler behind the guard that the router puts in front of
  it, and what the guards guarantee.
\<close>

section \<open>Workflows\<close>

fun workflowScope :: "request \<Rightarrow> string" where
  "workflowScope ReqList = ''workflow:read''"
| "workflowScope (ReqCreate b) = ''workflow:write''"
| "workflowScope (ReqGet i) = ''workflow:read''"
| "workflowScope (ReqUpdate i b) = ''workflow:write''"
| "workflowScope (ReqDelete i) = ''workflow:write''"
| "workflowScope (ReqListVersions i) = ''workflow:read''"
| "workflowScope (ReqGetVersion i k) = ''workflow:read''"
| "workflowScope (ReqRestoreVersion i k) = ''workflow:write''"

definition serveWorkflows :: "gate \<Rightarrow> ('a, 'p, 'c) api \<Rightarrow> string \<Rightarrow> request \<Rightarrow> 'c api_state \<Rightarrow> (guard_error + response) \<times> 'c api_state" where
  "serveWorkflows G A hdr rq st = mux_perm G hdr (workflowScope rq) (answer (\<lambda>ctx. handle A (cx_org ctx) rq)) st"

section \<open>Runs\<close>

datatype run_endpoint = PostRun string "gomap option option" | ListRunsOf string string string string string | GetRunOf string

fun runScope :: "run_endpoint \<Rightarrow> string" where
  "runScope (PostRun i b) = ''workflow:run''"
| "runScope (ListRunsOf i s l a u) = ''workflow:read''"
| "runScope (GetRunOf i) = ''workflow:read''"

fun runHandle :: "run_api \<Rightarrow> string \<Rightarrow> run_endpoint \<Rightarrow> run_state \<Rightarrow> run_response \<times> run_state" where
  "runHandle A org (PostRun i b) = triggerRun A org i b"
| "runHandle A org (ListRunsOf i s l a u) = listRuns A org i s l a u"
| "runHandle A org (GetRunOf i) = getRun A org i"

definition serveRuns :: "gate \<Rightarrow> run_api \<Rightarrow> string \<Rightarrow> run_endpoint \<Rightarrow> run_state \<Rightarrow> (guard_error + run_response) \<times> run_state" where
  "serveRuns G A hdr rq st = mux_perm G hdr (runScope rq) (answer (\<lambda>ctx. runHandle A (cx_org ctx) rq)) st"

section \<open>Evaluations\<close>

datatype eval_endpoint =
    OfSuite string suite_request
  | ListSuitesOf string
  | PostSuite string "eval_suite option"
  | PutOrder string "string list option"
  | GetCaseOf string string
  | DeleteCaseOf string string
  | GetEvalRunOf string
  | CompareOf "string list \<Rightarrow> string list" string string
  | GetResultOf string

fun evalScope :: "eval_endpoint \<Rightarrow> string" where
  "evalScope (OfSuite i SuiteGet) = ''eval:read''"
| "evalScope (OfSuite i (SuitePut b)) = ''eval:write''"
| "evalScope (OfSuite i SuiteDelete) = ''eval:write''"
| "evalScope (OfSuite i (SuiteImport u)) = ''eval:write''"
| "evalScope (OfSuite i CaseList) = ''eval:read''"
| "evalScope (OfSuite i (CasePost b)) = ''eval:write''"
| "evalScope (OfSuite i (CasePut c b)) = ''eval:write''"
| "evalScope (OfSuite i RunPost) = ''eval:run''"
| "evalScope (OfSuite i (RunList s l off)) = ''eval:read''"
| "evalScope (ListSuitesOf w) = ''eval:read''"
| "evalScope (PostSuite w b) = ''eval:write''"
| "evalScope (PutOrder i b) = ''eval:write''"
| "evalScope (GetCaseOf i c) = ''eval:read''"
| "evalScope (DeleteCaseOf i c) = ''eval:write''"
| "evalScope (GetEvalRunOf i) = ''eval:read''"
| "evalScope (CompareOf iter h b) = ''eval:read''"
| "evalScope (GetResultOf i) = ''eval:read''"

fun evalHandle :: "('s, 'c) eval_api \<Rightarrow> string \<Rightarrow> eval_endpoint \<Rightarrow> 'c eval_state \<Rightarrow> eval_response \<times> 'c eval_state" where
  "evalHandle A org (OfSuite i rq) = serveSuite A org i rq"
| "evalHandle A org (ListSuitesOf w) = ListByWorkflow A org w"
| "evalHandle A org (PostSuite w b) = CreateSuite A org w b"
| "evalHandle A org (PutOrder i b) = ReorderCases A i b"
| "evalHandle A org (GetCaseOf i c) = GetCase A i c"
| "evalHandle A org (DeleteCaseOf i c) = DeleteCase A i c"
| "evalHandle A org (GetEvalRunOf i) = GetRun_handler A i"
| "evalHandle A org (CompareOf iter h b) = CompareRuns A iter h b"
| "evalHandle A org (GetResultOf i) = GetTestCaseResult_handler A i"

definition serveEvals :: "gate \<Rightarrow> ('s, 'c) eval_api \<Rightarrow> string \<Rightarrow> eval_endpoint \<Rightarrow> 'c eval_state \<Rightarrow> (guard_error + eval_response) \<times> 'c eval_state" where
  "serveEvals G A hdr rq st = mux_perm G hdr (evalScope rq) (answer (\<lambda>ctx. evalHandle A (cx_org ctx) rq)) st"

section \<open>The public webhooks\<close>

text \<open>
  The two writing routes that stand behind no guard. The workflow webhook is \<open>webhookHandler.handle\<close> on the store and the dispatcher of the
  run routes, with no tenant in its context; no token is looked at. The eval webhook is \<open>WebhookTrigger\<close>.
\<close>

definition serveWebhook :: "run_api \<Rightarrow> string \<Rightarrow> gomap option option \<Rightarrow> run_state \<Rightarrow> string http \<times> run_state" where
  "serveWebhook A workflowID body st =
     (case GetTriggerConfig (ra_sql A) (ra_wfjson A) workflowID (rs_wf st) of
        (Inl e, d) \<Rightarrow> ((if e = ErrNotFound then Refuse 404 ''NOT_FOUND'' else Refuse 500 ''INTERNAL_ERROR''), st\<lparr>rs_wf := d\<rparr>)
      | (Inr cfg, d) \<Rightarrow>
          (if tr_Kind cfg \<noteq> ''webhook'' then (Refuse 400 ''INVALID_TRIGGER'', st\<lparr>rs_wf := d\<rparr>)
           else case body of
                  None \<Rightarrow> (Refuse 400 ''INVALID_BODY'', st\<lparr>rs_wf := d\<rparr>)
                | Some initialData \<Rightarrow>
                    (case ra_Dispatch A [] \<lparr> rq_WorkflowID = workflowID, rq_InitialData = cfg_entries initialData, rq_TriggeredBy = ''webhook'', rq_NodeMocks = [],
                        rq_WorkflowVersionNumber = None \<rparr> (rs_runs st) of
                       (Inl _, r) \<Rightarrow> (Refuse 500 ''ENGINE_ERROR'', st\<lparr> rs_wf := d, rs_runs := r \<rparr>)
                     | (Inr runID, r) \<Rightarrow> (Reply 202 runID, st\<lparr> rs_wf := d, rs_runs := r \<rparr>))))"

definition serveEvalWebhook :: "('s, 'c) eval_api \<Rightarrow> string \<Rightarrow> string \<Rightarrow> 'c eval_state \<Rightarrow> eval_response \<times> 'c eval_state" where
  "serveEvalWebhook A suiteID hdr st = WebhookTrigger A suiteID hdr st"

section \<open>Reading changes nothing\<close>

lemma store_reads:
  "GetEvalSuite q J org i d = (x1, d') \<Longrightarrow> tables d' = tables d" "ListTestCases q J i d = (x2, d') \<Longrightarrow> tables d' = tables d"
  "GetTestCase q J i d = (x3, d') \<Longrightarrow> tables d' = tables d" "ListEvalSuites q J org i d = (x4, d') \<Longrightarrow> tables d' = tables d"
  "GetEvalRun q i d = (x5, d') \<Longrightarrow> tables d' = tables d" "ListEvalRuns q f d = (x6, d') \<Longrightarrow> tables d' = tables d"
  "GetTestCaseResult q J i d = (x7, d') \<Longrightarrow> tables d' = tables d" "ListTestCaseResults q J i d = (x8, d') \<Longrightarrow> tables d' = tables d"
  by (auto simp: GetEvalSuite_def ListTestCases_def GetTestCase_def ListEvalSuites_def GetEvalRun_def ListEvalRuns_def GetTestCaseResult_def ListTestCaseResults_def
      andThen_def query_def Let_def split: prod.splits sum.splits if_splits option.splits)

abbreviation evalUnchanged :: "'c eval_state \<Rightarrow> 'c eval_state \<Rightarrow> bool" where
  "evalUnchanged st st' \<equiv> tables (ev_db st') = tables (ev_db st) \<and> ev_sched st' = ev_sched st \<and> ev_jobs st' = ev_jobs st"

lemma eval_reads:
  "evalUnchanged st (snd (ListByWorkflow A org w st))" "evalUnchanged st (snd (GetSuite A org i st))" "evalUnchanged st (snd (ListCases A org i st))"
  "evalUnchanged st (snd (GetCase A i c st))" "evalUnchanged st (snd (ListRuns_handler A org i s l off st))" "evalUnchanged st (snd (GetRun_handler A i st))"
  "evalUnchanged st (snd (CompareRuns A iter h b st))" "evalUnchanged st (snd (GetTestCaseResult_handler A i st))"
  by (auto simp: ListByWorkflow_def GetSuite_def ListCases_def GetCase_def ListRuns_handler_def GetRun_handler_def CompareRuns_def GetTestCaseResult_handler_def Let_def
      dest!: store_reads split: prod.split sum.split)

lemma evalScope_read: "evalScope rq = ''eval:read'' \<Longrightarrow> evalUnchanged st (snd (evalHandle A org rq st))"
  by (cases "(A, org, rq)" rule: evalHandle.cases; (cases "snd (snd (A, org, rq))" rule: evalScope.cases)?) (simp_all add: eval_reads)

lemma workflowScope_read:
  "workflowScope rq = ''workflow:read'' \<Longrightarrow> tables (as_db (snd (handle A org rq st))) = tables (as_db st) \<and> as_triggers (snd (handle A org rq st)) = as_triggers st"
  by (cases rq) (simp_all add: reads_keep)

lemma run_reads:
  "GetRun q J org i d = (x1, d') \<Longrightarrow> tables d' = tables d" "ListRuns q J f d = (x2, d') \<Longrightarrow> tables d' = tables d"
  by (auto simp: GetRun_def ListRuns_def andThen_def query_def Let_def split: prod.splits sum.splits if_splits option.splits)

lemma runScope_read: "runScope rq = ''workflow:read'' \<Longrightarrow> tables (rs_runs (snd (runHandle A org rq st))) = tables (rs_runs st)"
  by (cases rq) (auto simp: getRun_def listRuns_def dest!: run_reads split: prod.split sum.split)

text \<open>What the guard leaves of a request: either it is turned away and nothing has happened, or the handler runs for the tenant of the caller.\<close>

lemma mux_perm_answer:
  "snd (mux_perm G hdr scope (answer (\<lambda>ctx. h (cx_org ctx))) st) = st
   \<or> (\<exists>c. caller G hdr = Some c \<and> HasPermission c scope
        \<and> mux_perm G hdr scope (answer (\<lambda>ctx. h (cx_org ctx))) st = (Inr (fst (h (cl_OrgID c) st)), snd (h (cl_OrgID c) st)))"
  by (auto simp: mux_perm_iff answer_def split: option.split prod.split)

lemma scopes:
  "workflowScope rq \<in> {''workflow:read'', ''workflow:write''}" "runScope re \<in> {''workflow:read'', ''workflow:run''}"
  "evalScope ee \<in> {''eval:read'', ''eval:write'', ''eval:run''}"
proof -
  show "workflowScope rq \<in> {''workflow:read'', ''workflow:write''}" by (cases rq) simp_all
  show "runScope re \<in> {''workflow:read'', ''workflow:run''}" by (cases re) simp_all
  show "evalScope ee \<in> {''eval:read'', ''eval:write'', ''eval:run''}" by (cases ee rule: evalScope.cases) simp_all
qed

section \<open>Writing needs the permission\<close>

text \<open>The stored trigger opens the workflow webhook; the stored secret opens the eval webhook.\<close>

lemma serveWebhook_writes:
  "tables (rs_runs (snd (serveWebhook R i body st))) = tables (rs_runs st) \<or>
   (\<exists>cfg d. GetTriggerConfig (ra_sql R) (ra_wfjson R) i (rs_wf st) = (Inr cfg, d) \<and> tr_Kind cfg = ''webhook'')"
  by (auto simp: serveWebhook_def split: prod.split sum.split option.split)

lemma serveEvalWebhook_writes:
  "evalUnchanged st (snd (serveEvalWebhook E i hdr st)) \<or>
   (\<exists>suite d secret. GetEvalSuite (eh_sql E) (eh_json E) [] i (ev_db st) = (Inr suite, d) \<and> es_TriggerKind suite = ''webhook'' \<and>
      bearerToken hdr = Some secret \<and> DecryptValue (eh_cipher E) (es_WebhookSecret suite) = Inr secret)"
proof (cases "GetEvalSuite (eh_sql E) (eh_json E) [] i (ev_db st)")
  case (Pair x d)
  then show ?thesis using store_reads(1)[OF Pair]
    by (cases x) (auto simp: serveEvalWebhook_def WebhookTrigger_def Let_def split: option.split sum.split)
qed

text \<open>
  C34. Whatever is sent to the workflow, version, run and evaluation routes that stand behind a permission, with whatever header: either the tables, the registered
  triggers, the schedules and the started runs stay as they were, or the header carries a token that verifies under the server's secret, the caller it names has the
  write (or run) permission for that kind of resource, and the request was answered by the handler called with the caller's organisation. The two public webhooks:
  the workflow webhook starts a run only when the trigger stored for that workflow is a webhook (it looks at no token), and the eval webhook starts a run
  only when the suite's stored trigger is a webhook and the bearer token is the suite's decrypted secret.
\<close>

theorem writes_need_permission:
  "((tables (as_db (snd (serveWorkflows G A hdr rq ws))) = tables (as_db ws) \<and> as_triggers (snd (serveWorkflows G A hdr rq ws)) = as_triggers ws)
      \<or> (\<exists>c. caller G hdr = Some c \<and> HasPermission c ''workflow:write''
           \<and> serveWorkflows G A hdr rq ws = (Inr (fst (handle A (cl_OrgID c) rq ws)), snd (handle A (cl_OrgID c) rq ws))))
   \<and> (tables (rs_runs (snd (serveRuns G R hdr re rs))) = tables (rs_runs rs)
      \<or> (\<exists>c. caller G hdr = Some c \<and> HasPermission c ''workflow:run''
           \<and> serveRuns G R hdr re rs = (Inr (fst (runHandle R (cl_OrgID c) re rs)), snd (runHandle R (cl_OrgID c) re rs))))
   \<and> (evalUnchanged es (snd (serveEvals G E hdr ee es))
      \<or> (\<exists>c scope. caller G hdr = Some c \<and> scope \<in> {''eval:write'', ''eval:run''} \<and> HasPermission c scope
           \<and> serveEvals G E hdr ee es = (Inr (fst (evalHandle E (cl_OrgID c) ee es)), snd (evalHandle E (cl_OrgID c) ee es))))
   \<and> (tables (rs_runs (snd (serveWebhook R i body rs))) = tables (rs_runs rs)
      \<or> (\<exists>cfg d. GetTriggerConfig (ra_sql R) (ra_wfjson R) i (rs_wf rs) = (Inr cfg, d) \<and> tr_Kind cfg = ''webhook''))
   \<and> (evalUnchanged es (snd (serveEvalWebhook E i hdr es))
      \<or> (\<exists>suite d secret. GetEvalSuite (eh_sql E) (eh_json E) [] i (ev_db es) = (Inr suite, d) \<and> es_TriggerKind suite = ''webhook'' \<and>
           bearerToken hdr = Some secret \<and> DecryptValue (eh_cipher E) (es_WebhookSecret suite) = Inr secret))"
proof (intro conjI)
  show "(tables (as_db (snd (serveWorkflows G A hdr rq ws))) = tables (as_db ws) \<and> as_triggers (snd (serveWorkflows G A hdr rq ws)) = as_triggers ws)
      \<or> (\<exists>c. caller G hdr = Some c \<and> HasPermission c ''workflow:write''
           \<and> serveWorkflows G A hdr rq ws = (Inr (fst (handle A (cl_OrgID c) rq ws)), snd (handle A (cl_OrgID c) rq ws)))"
    using mux_perm_answer[of G hdr "workflowScope rq" "\<lambda>org. handle A org rq" ws] workflowScope_read[of rq] scopes(1)[of rq]
    unfolding serveWorkflows_def by fastforce
  show "tables (rs_runs (snd (serveRuns G R hdr re rs))) = tables (rs_runs rs)
      \<or> (\<exists>c. caller G hdr = Some c \<and> HasPermission c ''workflow:run''
           \<and> serveRuns G R hdr re rs = (Inr (fst (runHandle R (cl_OrgID c) re rs)), snd (runHandle R (cl_OrgID c) re rs)))"
    using mux_perm_answer[of G hdr "runScope re" "\<lambda>org. runHandle R org re" rs] runScope_read[of re] scopes(2)[of re]
    unfolding serveRuns_def by fastforce
  show "evalUnchanged es (snd (serveEvals G E hdr ee es))
      \<or> (\<exists>c scope. caller G hdr = Some c \<and> scope \<in> {''eval:write'', ''eval:run''} \<and> HasPermission c scope
           \<and> serveEvals G E hdr ee es = (Inr (fst (evalHandle E (cl_OrgID c) ee es)), snd (evalHandle E (cl_OrgID c) ee es)))"
    using mux_perm_answer[of G hdr "evalScope ee" "\<lambda>org. evalHandle E org ee" es] evalScope_read[of ee] scopes(3)[of ee]
    unfolding serveEvals_def by fastforce
qed (rule serveWebhook_writes serveEvalWebhook_writes)+

end
