(* ===== verification/Eval_Secrets.thy ===== *)
theory Eval_Secrets
  imports Router
begin

text \<open>
  The webhook secret of an eval suite over time: which requests can change the row that guards a webhook, and which secrets the answers
  show. Builds on the handlers of \<open>internal/eval/handler.go\<close> and the routes of \<open>internal/api/router.go\<close>.
\<close>

section \<open>The row behind a webhook\<close>

abbreviation hookRow :: "sql \<Rightarrow> string \<Rightarrow> eval_tables \<Rightarrow> db_eval_suite option" where
  "hookRow q i t \<equiv> find (suiteVisible q [] i) (t_suites t)"

text \<open>A call of the evaluation API: a request for a tenant, or a call of the public webhook of a suite.\<close>

datatype eval_call = Asked string eval_endpoint | Hooked string string

fun serveCall :: "('s, 'c) eval_api \<Rightarrow> eval_call \<Rightarrow> 'c eval_state \<Rightarrow> eval_response \<times> 'c eval_state" where
  "serveCall A (Asked org rq) st = evalHandle A org rq st"
| "serveCall A (Hooked i hdr) st = serveEvalWebhook A i hdr st"

definition serveCalls :: "('s, 'c) eval_api \<Rightarrow> eval_call list \<Rightarrow> 'c eval_state \<Rightarrow> 'c eval_state" where
  "serveCalls A calls st = fold (\<lambda>c st. snd (serveCall A c st)) calls st"

text \<open>Every call but a change or the deletion of suite \<open>i\<close>.\<close>

fun sparesSuite :: "sql \<Rightarrow> string \<Rightarrow> eval_call \<Rightarrow> bool" where
  "sparesSuite q i (Asked org (OfSuite j (SuitePut b))) \<longleftrightarrow> \<not> sql_eq q j i"
| "sparesSuite q i (Asked org (OfSuite j SuiteDelete)) \<longleftrightarrow> \<not> sql_eq q j i"
| "sparesSuite q i _ \<longleftrightarrow> True"

lemma sql_eq_trans: "sql_eq q a b \<Longrightarrow> sql_eq q b c \<Longrightarrow> sql_eq q a c" "sql_eq q a b = sql_eq q b a"
  by (auto simp: sql_eq_def)

lemma frames_snd: "frames v m \<Longrightarrow> m d = (x, d') \<Longrightarrow> v (tables d') = v (tables d)"
  unfolding frames_def by (metis snd_conv)

lemma case_frames:
  "frames t_suites (CreateTestCase q J uuid now tc)" "frames t_suites (UpdateTestCase q J now tc)" "frames t_suites (DeleteTestCase q i)"
  "frames t_suites (ReorderTestCases q i ids)" "frames t_suites (CreateEvalRun q uuid now r)" "frames t_suites (GetEvalSuite q J org i)"
  "frames t_suites (GetTestCase q J i)" "frames t_suites (ListTestCases q J i)"
proof -
  have n: "frames t_suites (nextPosition q tc)" for tc
    by (auto simp: frames_def nextPosition_def query_def split: prod.split sum.split list.split)
  show "frames t_suites (CreateTestCase q J uuid now tc)"
    unfolding CreateTestCase_def Let_def by (intro frame_rules n frames_exec) (auto simp: insertCase_def split: if_splits prod.splits)
  show "frames t_suites (UpdateTestCase q J now tc)"
    unfolding UpdateTestCase_def GetTestCase_def by (auto intro!: frame_rules frames_exec simp: updateCases_def split: option.split)
  show "frames t_suites (DeleteTestCase q i)"
    unfolding DeleteTestCase_def by (intro frame_rules frames_exec) auto
  show "frames t_suites (ReorderTestCases q i ids)"
    unfolding ReorderTestCases_def by (auto intro!: frame_rules frames_exec simp: updateCases_def split: prod.split)
  show "frames t_suites (CreateEvalRun q uuid now r)"
    unfolding CreateEvalRun_def Let_def by (intro frame_rules frames_exec) (auto split: if_splits)
  show "frames t_suites (GetEvalSuite q J org i)" "frames t_suites (GetTestCase q J i)" "frames t_suites (ListTestCases q J i)"
    unfolding GetEvalSuite_def GetTestCase_def ListTestCases_def by (intro frame_rules)+
qed

lemma Execute_suites: "Execute P org i t d = (x, d') \<Longrightarrow> t_suites (tables d') = t_suites (tables d)"
  by (auto simp: Execute_def Let_def dest!: frames_snd[OF case_frames(5)] frames_snd[OF case_frames(6)] frames_snd[OF case_frames(8)]
      split: prod.splits sum.splits if_splits option.splits)

lemma startEvalRun_suites: "startEvalRun A org i t st = (x, st') \<Longrightarrow> t_suites (tables (ev_db st')) = t_suites (tables (ev_db st))"
  by (auto simp: startEvalRun_def dest!: Execute_suites split: prod.splits sum.splits)

lemma importRows_suites: "importRows A i rows (c, e, d) = (c', e', d') \<Longrightarrow> t_suites (tables d') = t_suites (tables d)"
  by (induction rows arbitrary: c e d) (auto dest!: frames_snd[OF case_frames(1)] split: prod.splits sum.splits)

lemma handler_suites:
  "t_suites (tables (ev_db (snd (ImportTestCases A org i up st)))) = t_suites (tables (ev_db st))"
  "t_suites (tables (ev_db (snd (CreateCase A org i b st)))) = t_suites (tables (ev_db st))"
  "t_suites (tables (ev_db (snd (UpdateCase A org i c b st)))) = t_suites (tables (ev_db st))"
  "t_suites (tables (ev_db (snd (DeleteCase A i c st)))) = t_suites (tables (ev_db st))"
  "t_suites (tables (ev_db (snd (ReorderCases A i ids st)))) = t_suites (tables (ev_db st))"
  "t_suites (tables (ev_db (snd (TriggerRun A org i st)))) = t_suites (tables (ev_db st))"
  "t_suites (tables (ev_db (snd (WebhookTrigger A i hdr st)))) = t_suites (tables (ev_db st))"
proof -
  note D = frames_snd[OF case_frames(6)] frames_snd[OF case_frames(7)]
  show "t_suites (tables (ev_db (snd (ImportTestCases A org i up st)))) = t_suites (tables (ev_db st))"
    by (auto simp: ImportTestCases_def dest!: D importRows_suites split: prod.split sum.split option.split upload.split)
  show "t_suites (tables (ev_db (snd (CreateCase A org i b st)))) = t_suites (tables (ev_db st))"
    by (auto simp: CreateCase_def Let_def dest!: D frames_snd[OF case_frames(1)] split: prod.split sum.split option.split)
  show "t_suites (tables (ev_db (snd (UpdateCase A org i c b st)))) = t_suites (tables (ev_db st))"
    by (auto simp: UpdateCase_def Let_def dest!: D frames_snd[OF case_frames(2)] split: prod.split sum.split option.split)
  show "t_suites (tables (ev_db (snd (DeleteCase A i c st)))) = t_suites (tables (ev_db st))"
    by (auto simp: DeleteCase_def dest!: D frames_snd[OF case_frames(3)] split: prod.split sum.split)
  show "t_suites (tables (ev_db (snd (ReorderCases A i ids st)))) = t_suites (tables (ev_db st))"
    by (auto simp: ReorderCases_def dest!: frames_snd[OF case_frames(4)] split: prod.split sum.split option.split)
  show "t_suites (tables (ev_db (snd (TriggerRun A org i st)))) = t_suites (tables (ev_db st))"
    by (auto simp: TriggerRun_def dest!: startEvalRun_suites split: prod.split sum.split)
  show "t_suites (tables (ev_db (snd (WebhookTrigger A i hdr st)))) = t_suites (tables (ev_db st))"
    by (auto simp: WebhookTrigger_def Let_def dest!: D startEvalRun_suites split: prod.split sum.split option.split)
qed

lemma find_same_ids: "(\<And>x. x \<in> set xs \<Longrightarrow> P (f x) = P x \<and> (P x \<longrightarrow> f x = x)) \<Longrightarrow> find P (map f xs) = find P xs"
  by (induction xs) auto

lemma find_spared: "(\<And>x. x \<in> set xs \<Longrightarrow> P x \<Longrightarrow> Q x) \<Longrightarrow> find P (filter Q xs) = find P xs"
  by (induction xs) auto

lemma CreateSuite_hookRow:
  assumes "hookRow (eh_sql A) i (tables (ev_db st)) = Some row"
  shows "hookRow (eh_sql A) i (tables (ev_db (snd (CreateSuite A org w b st)))) = Some row"
proof -
  have app: "hookRow q i (t\<lparr>t_suites := t_suites t @ [r]\<rparr>) = Some row" if "hookRow q i t = Some row" for q t r
    using that by (simp add: find_append)
  have "hookRow q i (tables d') = Some row" if "CreateEvalSuite q J org uuid now s d = (x, d')" "hookRow q i (tables d) = Some row" for q J uuid now s d x d'
  proof -
    have "hookRow q i (tables (snd (exec q (insertSuite q J org' cfg s') d))) = Some row" for org' cfg s'
      using that(2) app by (auto simp: exec_def insertSuite_def split: sql_outcome.split sum.split option.split)
    then show ?thesis using that
      by (auto simp: CreateEvalSuite_def Let_def fail_def give_def andThen_def split: option.splits prod.splits sum.splits) (metis snd_conv)+
  qed
  with assms show ?thesis by (auto simp: CreateSuite_def split: option.split prod.split sum.split)
qed

lemma UpdateEvalSuite_hookRow: "\<not> sql_eq q (es_ID s) i \<Longrightarrow> frames (hookRow q i) (UpdateEvalSuite q J org now s)"
proof -
  assume other: "\<not> sql_eq q (es_ID s) i"
  have "hookRow q i t' = hookRow q i t" if "updateSuites q J org cfg s' t = Inr (n, t')" "es_ID s' = es_ID s" for cfg s' t n t'
  proof -
    have k: "suiteVisible q [] i (row\<lparr> ds_Name := a, ds_Description := b, ds_PassThreshold := th, ds_MaxConcurrency := mc, ds_TriggerKind := k,
        ds_TriggerConfig := c, ds_UpdatedAt := u \<rparr>) = suiteVisible q [] i row" for row a b th mc k c u
      by (simp add: suiteVisible_def)
    have "suiteVisible q org (es_ID s) row \<Longrightarrow> \<not> suiteVisible q [] i row" for row
      using other by (auto simp: suiteVisible_def sql_eq_def)
    with that k show ?thesis
      by (auto simp: updateSuites_def Let_def split: if_splits option.splits intro!: find_same_ids)
  qed
  then show ?thesis
    unfolding UpdateEvalSuite_def GetEvalSuite_def Let_def by (intro frame_rules frames_exec) auto
qed

lemma applyTrigger_result:
  assumes "applyTrigger A s gen n = (Some (pt, s'), n')"
  shows "es_ID s' = es_ID s" "pt = [] \<or> (\<exists>raw. eh_random A n = Some raw \<and> pt = concat (map hexDigits raw))"
  using assms by (auto simp: applyTrigger_def Let_def split: if_splits sum.splits option.splits prod.splits)

lemma mergeSuite_ID: "es_ID (mergeSuite b s) = es_ID s"
  by (simp add: mergeSuite_def Let_def)

lemma GetEvalSuite_ID: "GetEvalSuite q J org j d = (Inr s, d') \<Longrightarrow> sql_eq q (es_ID s) j"
  by (auto simp: GetEvalSuite_def andThen_def query_def rowToEvalSuite_def suiteVisible_def Let_def find_Some_iff
      split: if_splits option.splits sum.splits)

lemma UpdateSuite_hookRow:
  assumes "\<not> sql_eq (eh_sql A) j i"
  shows "hookRow (eh_sql A) i (tables (ev_db (snd (UpdateSuite A org j b st)))) = hookRow (eh_sql A) i (tables (ev_db st))"
proof (cases "GetEvalSuite (eh_sql A) (eh_json A) org j (ev_db st)")
  case (Pair x d)
  have t: "t_suites (tables d) = t_suites (tables (ev_db st))" by (rule frames_snd[OF case_frames(6) Pair])
  have "hookRow (eh_sql A) i (tables d') = hookRow (eh_sql A) i (tables d)"
    if "x = Inr s" "applyTrigger A (mergeSuite b' s) gen n = (Some (pt, s'), n')" "UpdateEvalSuite (eh_sql A) (eh_json A) org now s' d = (y, d')" for s b' gen n pt s' n' now y d'
  proof -
    have "es_ID s' = es_ID s" using applyTrigger_result(1)[OF that(2)] mergeSuite_ID by simp
    moreover have "sql_eq (eh_sql A) (es_ID s) j" using GetEvalSuite_ID Pair that(1) by blast
    ultimately have "\<not> sql_eq (eh_sql A) (es_ID s') i" using assms by (auto simp: sql_eq_def)
    from frames_snd[OF UpdateEvalSuite_hookRow[OF this] that(3)] show ?thesis .
  qed
  then show ?thesis
    using Pair t by (cases x) (auto simp: UpdateSuite_def Let_def split: option.split prod.split sum.split)
qed

lemma DeleteSuite_hookRow:
  assumes "\<not> sql_eq (eh_sql A) j i"
  shows "hookRow (eh_sql A) i (tables (ev_db (snd (DeleteSuite A org j st)))) = hookRow (eh_sql A) i (tables (ev_db st))"
proof -
  have "hookRow q i (t\<lparr>t_suites := deleteRows (suiteVisible q org j) (t_suites t)\<rparr>) = hookRow q i t" if "\<not> sql_eq q j i" for q t
    using that by (auto simp: deleteRows_def suiteVisible_def sql_eq_def intro!: find_spared)
  then have "frames (hookRow q i) (DeleteEvalSuite q org j)" if "\<not> sql_eq q j i" for q
    unfolding DeleteEvalSuite_def by (intro frame_rules frames_exec) (use that in auto)
  from frames_snd[OF this[OF assms]] show ?thesis by (auto simp: DeleteSuite_def split: prod.split sum.split)
qed

lemma spared_hookRow:
  assumes "sparesSuite (eh_sql A) i c" "hookRow (eh_sql A) i (tables (ev_db st)) = Some row"
  shows "hookRow (eh_sql A) i (tables (ev_db (snd (serveCall A c st)))) = Some row"
proof (cases c)
  case (Hooked j hdr)
  with assms show ?thesis by (simp add: serveEvalWebhook_def handler_suites(7))
next
  case (Asked org rq)
  show ?thesis
  proof (cases rq)
    case (OfSuite j sr)
    with Asked assms show ?thesis
      by (cases sr) (simp_all add: UpdateSuite_hookRow DeleteSuite_hookRow handler_suites(1,2,3,6) eval_reads(2,3,5))
  qed (use Asked assms in \<open>simp_all add: handler_suites(4,5) eval_reads(1,4,6-8) CreateSuite_hookRow\<close>)
qed

lemma serveCalls_hookRow:
  assumes "list_all (sparesSuite (eh_sql A) i) calls" "hookRow (eh_sql A) i (tables (ev_db st)) = Some row"
  shows "hookRow (eh_sql A) i (tables (ev_db (serveCalls A calls st))) = Some row"
  using assms
proof (induction calls arbitrary: st)
  case (Cons c calls)
  from Cons.IH[OF _ spared_hookRow[of A i c st row]] Cons.prems show ?case by (simp add: serveCalls_def)
qed (simp add: serveCalls_def)

section \<open>The secrets an answer shows\<close>

fun shownSecrets :: "eval_body \<Rightarrow> string list" where
  "shownSecrets (SuiteBody r) = (case sr_WebhookSecret r of None \<Rightarrow> [] | Some s \<Rightarrow> [s])"
| "shownSecrets (SuiteWithCases r cases) = (case sr_WebhookSecret r of None \<Rightarrow> [] | Some s \<Rightarrow> [s])"
| "shownSecrets (SuitesBody suites) = map (\<lambda>s. es_WebhookSecret (ss_Suite s)) suites"
| "shownSecrets _ = []"

definition drawnNow :: "('s, 'c) eval_api \<Rightarrow> 'c eval_state \<Rightarrow> string \<Rightarrow> bool" where
  "drawnNow A st s \<longleftrightarrow> (case eh_random A (ev_rand st) of None \<Rightarrow> False | Some raw \<Rightarrow> s = concat (map hexDigits raw))"

lemma suiteResponse_shown:
  "s \<in> set (shownSecrets (SuiteBody (suiteResponse x pt))) \<Longrightarrow> s = ''***'' \<or> s = pt"
  by (auto simp: suiteResponse_def split: if_splits)

lemma written_shown:
  assumes "applyTrigger A x gen (ev_rand st) = (Some (pt, y), n)" "s \<in> set (shownSecrets (SuiteBody (suiteResponse z pt)))"
  shows "s \<in> {[], ''***''} \<or> drawnNow A st s"
  using suiteResponse_shown[OF assms(2)] applyTrigger_result(2)[OF assms(1)] by (auto simp: drawnNow_def)

lemma shown_secret:
  assumes "fst (serveCall A c st) = EvalJSON code body" "s \<in> set (shownSecrets body)"
  shows "s \<in> {[], ''***''} \<or> drawnNow A st s"
proof -
  consider (create) org w b where "c = Asked org (PostSuite w b)" | (update) org i b where "c = Asked org (OfSuite i (SuitePut b))"
    | (hook) i hdr where "c = Hooked i hdr"
    | (other) org rq where "c = Asked org rq" "\<forall>w b. rq \<noteq> PostSuite w b" "\<forall>i b. rq \<noteq> OfSuite i (SuitePut b)"
    by (metis eval_call.exhaust)
  then show ?thesis
  proof cases
    case create
    with assms show ?thesis
      by (auto simp: CreateSuite_def simp del: shownSecrets.simps split: option.splits if_splits prod.splits sum.splits dest: written_shown)
  next
    case update
    with assms show ?thesis
      by (auto simp: UpdateSuite_def Let_def storeError_def simp del: shownSecrets.simps split: option.splits if_splits prod.splits sum.splits dest: written_shown)
  next
    case hook
    with assms show ?thesis
      by (auto simp: serveEvalWebhook_def WebhookTrigger_def Let_def storeError_def split: option.splits if_splits prod.splits sum.splits)
  next
    case other
    have "s \<in> {[], ''***''}" if "GetSuite A org i st = (EvalJSON code body, st')" for org i st'
      using that assms(2) by (auto simp: GetSuite_def suiteResponse_def storeError_def split: prod.splits sum.splits if_splits)
    moreover have "s \<in> {[], ''***''}" if "ListByWorkflow A org w st = (EvalJSON code body, st')" for org w st'
      using that assms(2) by (auto simp: ListByWorkflow_def split: prod.splits sum.splits)
    ultimately show ?thesis using other assms
      by (cases rq; (cases "case rq of OfSuite i sr \<Rightarrow> sr | _ \<Rightarrow> SuiteGet")?)
         (fastforce simp: DeleteSuite_def ImportTestCases_def ListCases_def CreateCase_def UpdateCase_def TriggerRun_def ListRuns_handler_def ReorderCases_def GetCase_def
          DeleteCase_def GetRun_handler_def CompareRuns_def GetTestCaseResult_handler_def storeError_def Let_def prod_eq_iff
          split: prod.splits sum.splits option.splits upload.splits if_splits)+
  qed
qed

section \<open>The secret is the key to the webhook\<close>

lemma guard_of_row:
  assumes "reliable (eh_sql A)" "hookRow (eh_sql A) i (tables (ev_db st)) = Some row" "rowToEvalSuite (eh_sql A) (eh_json A) row = Inr suite"
    and "es_TriggerKind suite = ''webhook''" "\<not> es_WorkflowDeleted suite" "DecryptValue (eh_cipher A) (es_WebhookSecret suite) = Inr secret"
  shows "(fst (serveEvalWebhook A i hdr st) = EvalError 401 ''UNAUTHORIZED'' [] \<longleftrightarrow> bearerToken hdr \<noteq> Some secret) \<and>
    (bearerToken hdr \<noteq> Some secret \<longrightarrow> evalUnchanged st (snd (serveEvalWebhook A i hdr st)))"
proof -
  have get: "GetEvalSuite (eh_sql A) (eh_json A) [] i (ev_db st) = (Inr suite, tick (ev_db st))"
    using assms(2,3) by (simp add: GetEvalSuite_def andThen_def query_reliable[OF assms(1)])
  have "storeError e \<noteq> EvalError 401 ''UNAUTHORIZED'' []" for e by (simp add: storeError_def)
  then show ?thesis
    using assms(4-6) by (auto simp: serveEvalWebhook_def WebhookTrigger_def get Let_def split: option.split prod.split sum.split)
qed

text \<open>
  C29. The webhook secret is the key to the webhook. When a suite with a webhook trigger has been created, the answer carries a
  64-character secret. From then on, after any sequence of evaluation requests and webhook calls that does not change or delete this suite, a call of its webhook
  that does not present exactly this secret as its bearer token is refused with 401 and changes nothing (no table, no schedule, no run started), and a call that presents it is not
  refused with 401. And in no state does the answer to any evaluation request or webhook call show a stored secret: the secret fields of an answer are empty, \<open>***\<close>, or
  the secret drawn from the random source while serving that very request.
  Hypotheses: the cipher opens what it sealed, the random source yields bytes, the codec of the trigger column gives back the
  secret, the database does not fail.
\<close>

theorem webhook_secret_guards_webhook:
  assumes "reliable (eh_sql A)" "gcm_ok (eh_cipher A)" "random_bytes A" "secretSurvives (eh_sql A) (eh_json A)"
    and "CreateSuite A org wid (Some b) st = (EvalJSON 201 (SuiteBody resp), st')" "sr_TriggerKind resp = ''webhook''" "\<not> sr_WorkflowDeleted resp"
  shows "\<exists>secret. sr_WebhookSecret resp = Some secret \<and> length secret = 64 \<and> drawnNow A st secret \<and>
    (\<forall>calls hdr. list_all (sparesSuite (eh_sql A) (sr_ID resp)) calls \<longrightarrow>
       (fst (serveEvalWebhook A (sr_ID resp) hdr (serveCalls A calls st')) = EvalError 401 ''UNAUTHORIZED'' [] \<longleftrightarrow> bearerToken hdr \<noteq> Some secret) \<and>
       (bearerToken hdr \<noteq> Some secret \<longrightarrow>
          evalUnchanged (serveCalls A calls st') (snd (serveEvalWebhook A (sr_ID resp) hdr (serveCalls A calls st'))))) \<and>
    (\<forall>c st1 code body s. fst (serveCall A c st1) = EvalJSON code body \<and> s \<in> set (shownSecrets body) \<longrightarrow>
       s \<in> {[], ''***''} \<or> drawnNow A st1 s)"
proof -
  from CreateSuite_webhook[OF assms(2-6)] obtain secret row suite where r: "sr_WebhookSecret resp = Some secret" "length secret = 64" "secret \<noteq> ''***''"
    "hookRow (eh_sql A) (sr_ID resp) (tables (ev_db st')) = Some row" "rowToEvalSuite (eh_sql A) (eh_json A) row = Inr suite"
    "es_TriggerKind suite = ''webhook''" "es_WorkflowDeleted suite = sr_WorkflowDeleted resp" "DecryptValue (eh_cipher A) (es_WebhookSecret suite) = Inr secret" .
  have "fst (serveCall A (Asked org (PostSuite wid (Some b))) st) = EvalJSON 201 (SuiteBody resp)" "secret \<in> set (shownSecrets (SuiteBody resp))"
    using assms(5) r(1) by simp_all
  from shown_secret[OF this] r(2,3) have drawn: "drawnNow A st secret" by auto
  have guard: "(fst (serveEvalWebhook A (sr_ID resp) hdr (serveCalls A calls st')) = EvalError 401 ''UNAUTHORIZED'' [] \<longleftrightarrow> bearerToken hdr \<noteq> Some secret) \<and>
       (bearerToken hdr \<noteq> Some secret \<longrightarrow>
          evalUnchanged (serveCalls A calls st') (snd (serveEvalWebhook A (sr_ID resp) hdr (serveCalls A calls st'))))"
    if "list_all (sparesSuite (eh_sql A) (sr_ID resp)) calls" for calls hdr
    using guard_of_row[OF assms(1) serveCalls_hookRow[OF that r(4)] r(5,6) _ r(8)] r(7) assms(7) by simp
  show ?thesis
    by (intro exI[of _ secret] conjI allI impI r(1,2) drawn guard[THEN conjunct1] guard[THEN conjunct2, rule_format]) (assumption | blast dest: shown_secret)+
qed

theorem webhook_secret_guards_webhook_witness:
  "\<exists>resp st' secret. CreateSuite demo_eval ''acme'' ''w'' (Some demo_hook) demo_eval_start = (EvalJSON 201 (SuiteBody resp), st') \<and> sr_WebhookSecret resp = Some secret \<and> length secret = 64 \<and>
     fst (serveEvalWebhook demo_eval (sr_ID resp) ''Bearer x'' (serveCalls demo_eval [Asked ''acme'' (ListSuitesOf ''w''), Hooked ''s'' ''Bearer y''] st')) = EvalError 401 ''UNAUTHORIZED'' []"
proof -
  let ?c = "CreateSuite demo_eval ''acme'' ''w'' (Some demo_hook) demo_eval_start"
  have "case ?c of (EvalJSON code (SuiteBody r), _) \<Rightarrow> code = 201 \<and> sr_TriggerKind r = ''webhook'' \<and> \<not> sr_WorkflowDeleted r | _ \<Rightarrow> False" by code_simp
  then obtain r st' where c: "?c = (EvalJSON 201 (SuiteBody r), st')" "sr_TriggerKind r = ''webhook''" "\<not> sr_WorkflowDeleted r"
    by (auto split: prod.splits eval_response.splits eval_body.splits if_splits)
  from webhook_secret_guards_webhook[OF demo_eval_secrets c] obtain secret where s: "length secret = 64" "sr_WebhookSecret r = Some secret"
    "\<And>calls hdr. list_all (sparesSuite (eh_sql demo_eval) (sr_ID r)) calls \<Longrightarrow>
       fst (serveEvalWebhook demo_eval (sr_ID r) hdr (serveCalls demo_eval calls st')) = EvalError 401 ''UNAUTHORIZED'' [] \<longleftrightarrow> bearerToken hdr \<noteq> Some secret" by blast
  have "bearerToken ''Bearer x'' = Some ''x''" by code_simp
  moreover have "secret \<noteq> ''x''" using s(1) by auto
  ultimately have "bearerToken ''Bearer x'' \<noteq> Some secret" by simp
  from iffD2[OF s(3) this] c(1) s(1,2) show ?thesis by simp
qed

end
