(* ===== verification/Plugins.thy ===== *)
theory Plugins
  imports Auth_Handler
begin

text \<open>
  Out-of-process node plugins: their rows (\<open>internal/store/mysql/plugin_store.go\<close>), the registrar that connects to them
  (\<open>internal/node/plugin/registrar.go\<close>), the admin endpoints
  (\<open>internal/api/plugin_admin_handler.go\<close>) and their part of the start-up in \<open>cmd/server/main.go\<close>. gRPC is a parameter. A connection is
  its position in the list of the addresses dialled; the connections that a deferred \<open>Close\<close> gives up are recorded beside those that the
  registry closes.
\<close>

section \<open>Rows\<close>

text \<open>The columns of \<open>plugin_registrations\<close> are those of the record; the \<open>JSON\<close> columns are read back as the server prints them.\<close>

record plugin_registration =
  pl_TypeID :: string
  pl_Address :: string
  pl_DisplayName :: string
  pl_Category :: string
  pl_Description :: string
  pl_InputSchema :: string
  pl_OutputSchema :: string
  pl_RegisteredAt :: int

record grader_registration =
  gl_TypeID :: string
  gl_Address :: string
  gl_DisplayName :: string
  gl_Description :: string
  gl_ConfigSchema :: string
  gl_RegisteredAt :: int

record plugin_tables =
  t_plugins :: "plugin_registration list"
  t_graders :: "grader_registration list"

definition rowToPluginReg :: "sql \<Rightarrow> plugin_registration \<Rightarrow> plugin_registration" where
  "rowToPluginReg q r = r\<lparr> pl_InputSchema := sql_json q (pl_InputSchema r), pl_OutputSchema := sql_json q (pl_OutputSchema r) \<rparr>"

text \<open>\<open>INSERT ... ON DUPLICATE KEY UPDATE\<close>: a row that the collation identifies keeps its key and its time of registration.\<close>

definition upsertRow :: "sql \<Rightarrow> ('r \<Rightarrow> string) \<Rightarrow> ('r \<Rightarrow> 'r \<Rightarrow> 'r) \<Rightarrow> 'r \<Rightarrow> 'r list \<Rightarrow> 'r list" where
  "upsertRow q k merge new rows =
     (if \<exists>r \<in> set rows. sql_eq q (k r) (k new) then map (\<lambda>r. if sql_eq q (k r) (k new) then merge r new else r) rows else rows @ [new])"

definition SavePluginRegistration :: "sql \<Rightarrow> int \<Rightarrow> plugin_registration \<Rightarrow> (plugin_tables, unit) dbm" where
  "SavePluginRegistration q now reg =
     exec q (\<lambda>t. Inr ((), t\<lparr>t_plugins := upsertRow q pl_TypeID (\<lambda>old new. new\<lparr> pl_TypeID := pl_TypeID old, pl_RegisteredAt := pl_RegisteredAt old \<rparr>)
                                 (reg\<lparr>pl_RegisteredAt := now\<rparr>) (t_plugins t)\<rparr>))"

definition GetPluginRegistration :: "sql \<Rightarrow> string \<Rightarrow> (plugin_tables, plugin_registration) dbm" where
  "GetPluginRegistration q typeID =
     andThen (query q (\<lambda>t. firstRow (\<lambda>r. sql_eq q (pl_TypeID r) typeID) (t_plugins t))) (\<lambda>row. give (rowToPluginReg q row))"

definition ListPluginRegistrations :: "sql \<Rightarrow> (plugin_tables, plugin_registration list) dbm" where
  "ListPluginRegistrations q = query q (\<lambda>t. Inr (map (rowToPluginReg q) (sort_key pl_RegisteredAt (t_plugins t))))"

definition DeletePluginRegistration :: "sql \<Rightarrow> string \<Rightarrow> (plugin_tables, unit) dbm" where
  "DeletePluginRegistration q typeID =
     andThen (exec q (\<lambda>t. Inr (length (filter (\<lambda>r. sql_eq q (pl_TypeID r) typeID) (t_plugins t)),
                               t\<lparr>t_plugins := deleteRows (\<lambda>r. sql_eq q (pl_TypeID r) typeID) (t_plugins t)\<rparr>)))
       (\<lambda>n. if n = 0 then fail ErrNotFound else give ())"

section \<open>The registrar\<close>

record meta_response =
  mr_TypeId :: string
  mr_DisplayName :: string
  mr_Description :: string
  mr_InputSchema :: string
  mr_OutputSchema :: string

text \<open>
  gRPC and the JSON decoder: whether \<open>NewClient\<close> takes an address, what a connection answers to \<open>Meta\<close> within the timeout, and whether a text is a JSON
  document.
\<close>

record grpc_lib =
  rpc_NewClient :: "string \<Rightarrow> bool"
  rpc_Meta :: "nat \<Rightarrow> string \<Rightarrow> meta_response option"
  rpc_validJSON :: "string \<Rightarrow> bool"

datatype registrar_error = DialFault | MetaFault | InvalidMeta | ErrTypeIDMismatch | FromRegistry reg_error

record plugin_state =
  pn_db :: "plugin_tables db"
  pn_registry :: node_registry
  pn_dialed :: "string list"
  pn_dropped :: "nat list"

definition protoToMeta :: "grpc_lib \<Rightarrow> meta_response \<Rightarrow> node_meta option" where
  "protoToMeta L r =
     (if mr_TypeId r = [] then None
      else let inputSchema = (if mr_InputSchema r = [] then ''{}'' else mr_InputSchema r);
               outputSchema = (if mr_OutputSchema r = [] then ''{}'' else mr_OutputSchema r)
           in if \<not> rpc_validJSON L inputSchema \<or> \<not> rpc_validJSON L outputSchema then None
              else Some \<lparr> nm_TypeID = mr_TypeId r, nm_DisplayName = mr_DisplayName r, nm_Category = ''plugin'', nm_Description = mr_Description r,
                          nm_InputSchema = inputSchema, nm_OutputSchema = outputSchema \<rparr>)"

definition registrationOf :: "node_meta \<Rightarrow> string \<Rightarrow> plugin_registration" where
  "registrationOf meta addr =
     \<lparr> pl_TypeID = nm_TypeID meta, pl_Address = addr, pl_DisplayName = nm_DisplayName meta, pl_Category = nm_Category meta, pl_Description = nm_Description meta,
       pl_InputSchema = nm_InputSchema meta, pl_OutputSchema = nm_OutputSchema meta, pl_RegisteredAt = 0 \<rparr>"

definition giveUp :: "nat \<Rightarrow> plugin_state \<Rightarrow> plugin_state" where
  "giveUp conn st = st\<lparr>pn_dropped := pn_dropped st @ [conn]\<rparr>"

definition dialAndRegister ::
  "grpc_lib \<Rightarrow> string \<Rightarrow> string \<Rightarrow> (node_handler \<Rightarrow> node_registry \<Rightarrow> reg_error + node_registry) \<Rightarrow> plugin_state \<Rightarrow> (registrar_error + plugin_registration) \<times> plugin_state" where
  "dialAndRegister L addr expectedTypeID register st =
     (if \<not> rpc_NewClient L addr then (Inl DialFault, st)
      else
        (let conn = length (pn_dialed st); st1 = st\<lparr>pn_dialed := pn_dialed st @ [addr]\<rparr>
         in case rpc_Meta L conn addr of
              None \<Rightarrow> (Inl MetaFault, giveUp conn st1)
            | Some resp \<Rightarrow>
                (case protoToMeta L resp of
                   None \<Rightarrow> (Inl InvalidMeta, giveUp conn st1)
                 | Some meta \<Rightarrow>
                     (if expectedTypeID \<noteq> [] \<and> nm_TypeID meta \<noteq> expectedTypeID then (Inl ErrTypeIDMismatch, giveUp conn st1)
                      else case register \<lparr> nh_Meta = meta, nh_ident = conn, nh_closer = True \<rparr> (pn_registry st1) of
                             Inl e \<Rightarrow> (Inl (FromRegistry e), giveUp conn st1)
                           | Inr r \<Rightarrow> (Inr (registrationOf meta addr), st1\<lparr>pn_registry := r\<rparr>)))))"

definition RegisterOne :: "grpc_lib \<Rightarrow> string \<Rightarrow> plugin_state \<Rightarrow> (registrar_error + plugin_registration) \<times> plugin_state" where
  "RegisterOne L addr = dialAndRegister L addr [] TryRegister"

definition UpdateOne :: "grpc_lib \<Rightarrow> string \<Rightarrow> string \<Rightarrow> plugin_state \<Rightarrow> (registrar_error + plugin_registration) \<times> plugin_state" where
  "UpdateOne L typeID newAddr = dialAndRegister L newAddr typeID (\<lambda>h r. Inr (Replace h r))"

fun splitOn :: "char \<Rightarrow> string \<Rightarrow> string \<Rightarrow> string list" where
  "splitOn sep acc [] = [rev acc]"
| "splitOn sep acc (c # s) = (if c = sep then rev acc # splitOn sep [] s else splitOn sep (c # acc) s)"

text \<open>\<open>Register\<close>: failures are only logged.\<close>

definition RegisterAddresses :: "grpc_lib \<Rightarrow> string \<Rightarrow> plugin_state \<Rightarrow> plugin_state" where
  "RegisterAddresses L addresses st =
     (if addresses = [] then st
      else fold (\<lambda>a st. let addr = TrimSpace a in if addr = [] then st else snd (RegisterOne L addr st)) (splitOn (CHR '','') [] addresses) st)"

definition loadStored :: "grpc_lib \<Rightarrow> plugin_registration \<Rightarrow> plugin_state \<Rightarrow> plugin_state" where
  "loadStored L reg st =
     (if \<not> rpc_NewClient L (pl_Address reg) then st
      else
        (let conn = length (pn_dialed st); st1 = st\<lparr>pn_dialed := pn_dialed st @ [pl_Address reg]\<rparr>
         in case rpc_Meta L conn (pl_Address reg) of
              None \<Rightarrow> giveUp conn st1
            | Some resp \<Rightarrow>
                (if mr_TypeId resp \<noteq> pl_TypeID reg then giveUp conn st1
                 else case TryRegister \<lparr> nh_Meta = \<lparr> nm_TypeID = pl_TypeID reg, nm_DisplayName = pl_DisplayName reg, nm_Category = pl_Category reg,
                                           nm_Description = pl_Description reg, nm_InputSchema = pl_InputSchema reg, nm_OutputSchema = pl_OutputSchema reg \<rparr>,
                                         nh_ident = conn, nh_closer = True \<rparr> (pn_registry st1) of
                        Inl e \<Rightarrow> giveUp conn st1
                      | Inr r \<Rightarrow> st1\<lparr>pn_registry := r\<rparr>)))"

text \<open>\<open>LoadFromStore\<close>: one goroutine per row; \<open>sched\<close> is the order in which they get to register.\<close>

definition LoadFromStore :: "sql \<Rightarrow> grpc_lib \<Rightarrow> (plugin_registration list \<Rightarrow> plugin_registration list) \<Rightarrow> plugin_state \<Rightarrow> plugin_state" where
  "LoadFromStore q L sched st =
     (case ListPluginRegistrations q (pn_db st) of
        (Inl _, d) \<Rightarrow> st\<lparr>pn_db := d\<rparr>
      | (Inr regs, d) \<Rightarrow> fold (loadStored L) (sched regs) (st\<lparr>pn_db := d\<rparr>))"

section \<open>The admin endpoints\<close>

record plugin_env =
  pe_sql :: sql
  pe_now :: "nat \<Rightarrow> int"
  pe_rpc :: grpc_lib
  pe_sched :: "plugin_registration list \<Rightarrow> plugin_registration list"
  pe_early :: "node_handler list"
  pe_late :: "node_handler list"

datatype plugin_answer = PluginList "plugin_registration list" | PluginJSON nat plugin_registration | PluginNoContent | PluginError nat string

abbreviation pluginInvalid :: plugin_answer where
  "pluginInvalid \<equiv> PluginError 400 ''VALIDATION_FAILED''"

abbreviation pluginInternal :: plugin_answer where
  "pluginInternal \<equiv> PluginError 500 ''INTERNAL_ERROR''"

definition pluginMissing :: "store_error \<Rightarrow> plugin_answer" where
  "pluginMissing e = (if e = ErrNotFound then PluginError 404 ''NOT_FOUND'' else pluginInternal)"

definition dropQuietly :: "string \<Rightarrow> node_registry \<Rightarrow> node_registry" where
  "dropQuietly typeID r = (case Unregister typeID r of Inl _ \<Rightarrow> r | Inr r' \<Rightarrow> r')"

definition plugin_list :: "plugin_env \<Rightarrow> plugin_state \<Rightarrow> plugin_answer \<times> plugin_state" where
  "plugin_list P st =
     (case ListPluginRegistrations (pe_sql P) (pn_db st) of
        (Inl _, d) \<Rightarrow> (pluginInternal, st\<lparr>pn_db := d\<rparr>)
      | (Inr regs, d) \<Rightarrow> (PluginList regs, st\<lparr>pn_db := d\<rparr>))"

text \<open>The common end of \<open>register\<close> and \<open>update\<close>: persist, or take the entry out of the registry again.\<close>

definition persist :: "plugin_env \<Rightarrow> nat \<Rightarrow> plugin_registration \<Rightarrow> plugin_state \<Rightarrow> plugin_answer \<times> plugin_state" where
  "persist P code reg st =
     (case SavePluginRegistration (pe_sql P) (pe_now P (clock (pn_db st))) reg (pn_db st) of
        (Inl _, d) \<Rightarrow> (pluginInternal, st\<lparr> pn_db := d, pn_registry := dropQuietly (pl_TypeID reg) (pn_registry st) \<rparr>)
      | (Inr _, d) \<Rightarrow> (PluginJSON code reg, st\<lparr>pn_db := d\<rparr>))"

definition plugin_register :: "plugin_env \<Rightarrow> string option \<Rightarrow> plugin_state \<Rightarrow> plugin_answer \<times> plugin_state" where
  "plugin_register P reqBody st =
     (case reqBody of
        None \<Rightarrow> (pluginInvalid, st)
      | Some address \<Rightarrow>
          (if address = [] then (pluginInvalid, st)
           else case RegisterOne (pe_rpc P) address st of
                  (Inl (FromRegistry (ErrDuplicateTypeID _)), st1) \<Rightarrow> (PluginError 409 ''PLUGIN_ALREADY_REGISTERED'', st1)
                | (Inl _, st1) \<Rightarrow> (PluginError 502 ''PLUGIN_UNAVAILABLE'', st1)
                | (Inr reg, st1) \<Rightarrow> persist P 201 reg st1))"

definition plugin_update :: "plugin_env \<Rightarrow> string \<Rightarrow> string option \<Rightarrow> plugin_state \<Rightarrow> plugin_answer \<times> plugin_state" where
  "plugin_update P typeID reqBody st =
     (case GetPluginRegistration (pe_sql P) typeID (pn_db st) of
        (Inl e, d) \<Rightarrow> (pluginMissing e, st\<lparr>pn_db := d\<rparr>)
      | (Inr _, d) \<Rightarrow>
          (case reqBody of
             None \<Rightarrow> (pluginInvalid, st\<lparr>pn_db := d\<rparr>)
           | Some address \<Rightarrow>
               (if address = [] then (pluginInvalid, st\<lparr>pn_db := d\<rparr>)
                else case UpdateOne (pe_rpc P) typeID address (st\<lparr>pn_db := d\<rparr>) of
                       (Inl ErrTypeIDMismatch, st1) \<Rightarrow> (PluginError 422 ''TYPE_ID_MISMATCH'', st1)
                     | (Inl _, st1) \<Rightarrow> (PluginError 502 ''PLUGIN_UNAVAILABLE'', st1)
                     | (Inr reg, st1) \<Rightarrow> persist P 200 reg st1)))"

text \<open>\<open>Unregister\<close> fails only with \<open>ErrNodeNotFound\<close>, which \<open>deregister\<close> ignores.\<close>

definition plugin_deregister :: "plugin_env \<Rightarrow> string \<Rightarrow> plugin_state \<Rightarrow> plugin_answer \<times> plugin_state" where
  "plugin_deregister P typeID st =
     (case GetPluginRegistration (pe_sql P) typeID (pn_db st) of
        (Inl e, d) \<Rightarrow> (pluginMissing e, st\<lparr>pn_db := d\<rparr>)
      | (Inr _, d) \<Rightarrow>
          (case Unregister typeID (pn_registry st) of
             Inl (ErrDuplicateTypeID _) \<Rightarrow> (pluginInternal, st\<lparr>pn_db := d\<rparr>)
           | _ \<Rightarrow>
               (let st1 = st\<lparr> pn_db := d, pn_registry := dropQuietly typeID (pn_registry st) \<rparr>
                in case DeletePluginRegistration (pe_sql P) typeID (pn_db st1) of
                     (Inl e, d') \<Rightarrow> ((if e = ErrNotFound then PluginNoContent else pluginInternal), st1\<lparr>pn_db := d'\<rparr>)
                   | (Inr _, d') \<Rightarrow> (PluginNoContent, st1\<lparr>pn_db := d'\<rparr>))))"

datatype plugin_request = GetPlugins | PostPlugin "string option" | PutPlugin string "string option" | DeletePlugin string

fun pluginHandle :: "plugin_env \<Rightarrow> plugin_request \<Rightarrow> plugin_state \<Rightarrow> plugin_answer \<times> plugin_state" where
  "pluginHandle P GetPlugins = plugin_list P"
| "pluginHandle P (PostPlugin b) = plugin_register P b"
| "pluginHandle P (PutPlugin i b) = plugin_update P i b"
| "pluginHandle P (DeletePlugin i) = plugin_deregister P i"

definition servePlugins :: "plugin_env \<Rightarrow> gate \<Rightarrow> string \<Rightarrow> plugin_request \<Rightarrow> plugin_state \<Rightarrow> (guard_error + plugin_answer) \<times> plugin_state" where
  "servePlugins P G hdr rq st = mux_role G hdr systemAdmins (answer (\<lambda>_. pluginHandle P rq)) st"

section \<open>Start-up\<close>

text \<open>\<open>registry.Register\<close> for a list of built-in nodes; \<open>None\<close> is the panic on a duplicate.\<close>

fun registerAll :: "node_handler list \<Rightarrow> node_registry \<Rightarrow> node_registry option" where
  "registerAll [] r = Some r"
| "registerAll (h # hs) r = (case Register h r of None \<Rightarrow> None | Some r' \<Rightarrow> registerAll hs r')"

text \<open>
  A restart: the deferred \<open>Shutdown\<close> of the old process, then the built-in nodes, the stored plugins, \<open>PLUGIN_ADDRESSES\<close> and the RAG nodes, in the order
  of \<open>run\<close>. The rows stay.
\<close>

definition restart :: "plugin_env \<Rightarrow> string \<Rightarrow> plugin_state \<Rightarrow> plugin_state option" where
  "restart P addresses st =
     (case registerAll (pe_early P) NewRegistry of
        None \<Rightarrow> None
      | Some r0 \<Rightarrow>
          (let st1 = LoadFromStore (pe_sql P) (pe_rpc P) (pe_sched P)
                       (st\<lparr> pn_registry := r0, pn_dropped := pn_dropped st @ nr_closed (Shutdown (pn_registry st)) \<rparr>);
               st2 = RegisterAddresses (pe_rpc P) addresses st1
           in case registerAll (pe_late P) (pn_registry st2) of
                None \<Rightarrow> None
              | Some r \<Rightarrow> Some (st2\<lparr>pn_registry := r\<rparr>)))"

end
