(* ===== verification/Plugin_Props.thy ===== *)
theory Plugin_Props
  imports Plugins
begin

text \<open>
  What the plugin endpoints guarantee. The locale \<open>catalogue\<close> relates a registry to the table that backs it and to the connections that were dialled;
  it extends the contract \<open>registry\<close> and serves both kinds of plugins.
\<close>

section \<open>A registry backed by a table\<close>

locale catalogue = registry key own lookup add put drop_key held gone good
  for key :: "'h \<Rightarrow> string" and own :: "'h \<Rightarrow> nat multiset" and lookup :: "'r \<Rightarrow> string \<Rightarrow> 'h option" and add :: "'h \<Rightarrow> 'r \<Rightarrow> 'e + 'r" and put :: "'h \<Rightarrow> 'r \<Rightarrow> 'r"
    and drop_key :: "string \<Rightarrow> 'r \<Rightarrow> 'e + 'r" and held :: "'r \<Rightarrow> nat multiset" and gone :: "'r \<Rightarrow> nat multiset" and good :: "'r \<Rightarrow> bool" +
  fixes rowKey :: "'row \<Rightarrow> string"
    and serves :: "string list \<Rightarrow> 'h \<Rightarrow> 'row \<Rightarrow> bool"
    and fleeting :: "string list \<Rightarrow> 'h \<Rightarrow> bool"
  assumes serves_grow: "serves ds h row \<Longrightarrow> serves (ds @ [a]) h row"
    and fleeting_grow: "fleeting ds h \<Longrightarrow> fleeting (ds @ [a]) h"
begin

text \<open>Every entry is built in, fleeting, or serves a row; and the built-in entries are there.\<close>

definition backed :: "(string \<rightharpoonup> 'h) \<Rightarrow> string list \<Rightarrow> 'row list \<Rightarrow> 'r \<Rightarrow> bool" where
  "backed B ds rows r \<longleftrightarrow> good r \<and> B \<subseteq>\<^sub>m lookup r \<and>
     (\<forall>k h. lookup r k = Some h \<longrightarrow> B k = Some h \<or> fleeting ds h \<or> (\<exists>row \<in> set rows. rowKey row = k \<and> serves ds h row))"

definition accounted :: "string list \<Rightarrow> nat list \<Rightarrow> 'r \<Rightarrow> bool" where
  "accounted ds dropped r \<longleftrightarrow> mset [0..<length ds] = held r + gone r + mset dropped"

definition quiet :: "string \<Rightarrow> 'r \<Rightarrow> 'r" where
  "quiet k r = (case drop_key k r of Inl _ \<Rightarrow> r | Inr r' \<Rightarrow> r')"

lemma addD:
  assumes "good r" "add h r = Inr r'"
  shows "lookup r (key h) = None" "good r'" "lookup r' = (lookup r)(key h \<mapsto> h)" "held r' + gone r' = held r + gone r + own h"
proof -
  show new: "lookup r (key h) = None" using add_dup[of r h] assms(2) by (cases "lookup r (key h)") auto
  from add_new[OF assms(1) new] assms(2)
  show "good r'" "lookup r' = (lookup r)(key h \<mapsto> h)" "held r' + gone r' = held r + gone r + own h" by auto
qed

lemma quiet_law:
  assumes "good r"
  shows "good (quiet k r) \<and> lookup (quiet k r) = (lookup r)(k := None) \<and> held (quiet k r) + gone (quiet k r) = held r + gone r"
proof (cases "lookup r k")
  case None
  with drop_absent[OF None] assms show ?thesis by (auto simp: quiet_def)
next
  case (Some h)
  with drop_present[OF assms Some] show ?thesis by (auto simp: quiet_def)
qed

text \<open>One entry and the rows of its key change; an address may have been dialled meanwhile.\<close>

lemma backed_step:
  assumes b: "backed B ds rows r" and "good r'" "B k = None" "\<And>j. j \<noteq> k \<Longrightarrow> lookup r' j = lookup r j"
    and keep: "\<And>row. row \<in> set rows \<Longrightarrow> rowKey row \<noteq> k \<Longrightarrow> row \<in> set rows'" and ds: "ds' = ds \<or> (\<exists>a. ds' = ds @ [a])"
    and new: "\<And>h. lookup r' k = Some h \<Longrightarrow> fleeting ds' h \<or> (\<exists>row \<in> set rows'. rowKey row = k \<and> serves ds' h row)"
  shows "backed B ds' rows' r'"
proof -
  have "B j = Some h \<or> fleeting ds' h \<or> (\<exists>row \<in> set rows'. rowKey row = j \<and> serves ds' h row)" if "lookup r' j = Some h" for j h
  proof (cases "j = k")
    case True
    with new that show ?thesis by auto
  next
    case False
    with that assms(4) b have "B j = Some h \<or> fleeting ds h \<or> (\<exists>row \<in> set rows. rowKey row = j \<and> serves ds h row)" by (auto simp: backed_def)
    with False keep ds serves_grow fleeting_grow show ?thesis by blast
  qed
  moreover have "B \<subseteq>\<^sub>m lookup r'"
  proof (unfold map_le_def, rule ballI)
    fix j assume j: "j \<in> dom B"
    with assms(3) have "j \<noteq> k" by auto
    with j b assms(4)[of j] show "B j = lookup r' j" by (simp add: backed_def map_le_def)
  qed
  ultimately show ?thesis using assms(2) by (simp add: backed_def)
qed

lemma backed_dial: "backed B ds rows r \<Longrightarrow> backed B (ds @ [a]) rows r"
  using serves_grow fleeting_grow by (fastforce simp: backed_def)

lemma accounted_add:
  assumes "good r" "accounted ds dropped r" "own h = {#length ds#}" "add h r = Inr r' \<or> r' = put h r"
  shows "accounted (ds @ [a]) dropped r'"
proof -
  from assms(4) have "held r' + gone r' = held r + gone r + own h" using addD(4)[OF assms(1)] put_law[OF assms(1)] by auto
  with assms(2,3) show ?thesis by (simp add: accounted_def)
qed

lemma accounted_giveUp: "accounted ds dropped r \<Longrightarrow> accounted (ds @ [a]) (dropped @ [length ds]) r"
  by (simp add: accounted_def)

lemma accounted_quiet: "good r \<Longrightarrow> accounted ds dropped (quiet k r) = accounted ds dropped r"
  using quiet_law[of r k] by (simp add: accounted_def)

end

section \<open>Node plugins\<close>

definition servesPlugin :: "sql \<Rightarrow> string list \<Rightarrow> node_handler \<Rightarrow> plugin_registration \<Rightarrow> bool" where
  "servesPlugin q ds h row \<longleftrightarrow> nh_closer h \<and> nh_ident h < length ds \<and> ds ! nh_ident h = pl_Address row \<and>
     nm_TypeID (nh_Meta h) = pl_TypeID row \<and> nm_DisplayName (nh_Meta h) = pl_DisplayName row \<and> nm_Category (nh_Meta h) = pl_Category row \<and>
     nm_Description (nh_Meta h) = pl_Description row \<and>
     nm_InputSchema (nh_Meta h) \<in> {pl_InputSchema row, sql_json q (pl_InputSchema row)} \<and>
     nm_OutputSchema (nh_Meta h) \<in> {pl_OutputSchema row, sql_json q (pl_OutputSchema row)}"

definition dialedIn :: "string set \<Rightarrow> string list \<Rightarrow> node_handler \<Rightarrow> bool" where
  "dialedIn E ds h \<longleftrightarrow> nh_closer h \<and> nh_ident h < length ds \<and> ds ! nh_ident h \<in> E"

interpretation nodePlugins: catalogue node_key node_own "\<lambda>r. map_of (nr_handlers r)" TryRegister Replace Unregister
  node_held "\<lambda>r. mset (nr_closed r)" "\<lambda>r. wf_map (nr_handlers r)" pl_TypeID "servesPlugin q" "dialedIn E"
  by unfold_locales (auto simp: servesPlugin_def dialedIn_def nth_append)


lemma quiet_dropQuietly: "nodePlugins.quiet = dropQuietly"
  by (rule ext)+ (simp add: nodePlugins.quiet_def dropQuietly_def)

text \<open>Built-in nodes by type id. \<open>S\<close> holds the type ids that requests name and plugins report; the collation tells them apart.\<close>

definition byKey :: "node_handler list \<Rightarrow> string \<rightharpoonup> node_handler" where
  "byKey hs = map_of (map (\<lambda>h. (node_key h, h)) hs)"

definition builtins :: "plugin_env \<Rightarrow> string \<rightharpoonup> node_handler" where
  "builtins P = byKey (pe_early P @ pe_late P)"

lemma byKey_simps [simp]: "byKey [] = Map.empty" "byKey (h # hs) = (byKey hs)(node_key h \<mapsto> h)" "dom (byKey hs) = node_key ` set hs"
  by (simp_all add: byKey_def dom_map_of_conv_image_fst image_image)

lemma byKey_append: "node_key ` set hs \<inter> node_key ` set hs' = {} \<Longrightarrow> byKey (hs @ hs') = byKey hs ++ byKey hs'"
  using map_add_comm[of "byKey hs" "byKey hs'"] by (simp add: byKey_def[of "hs @ hs'"] byKey_def[symmetric])

lemma byKey_in: "distinct (map node_key hs) \<Longrightarrow> byKey hs k = Some h \<longleftrightarrow> h \<in> set hs \<and> node_key h = k"
  by (induction hs) (auto simp: rev_image_eqI)

definition pluginEnv :: "plugin_env \<Rightarrow> string set \<Rightarrow> bool" where
  "pluginEnv P S \<longleftrightarrow> inj_on (sql_key (pe_sql P)) S \<and> distinct (map node_key (pe_early P @ pe_late P)) \<and> (\<forall>h \<in> set (pe_early P @ pe_late P). \<not> nh_closer h) \<and>
     (\<forall>n a resp. rpc_Meta (pe_rpc P) n a = Some resp \<longrightarrow> mr_TypeId resp \<in> S \<and> mr_TypeId resp \<notin> node_key ` set (pe_late P)) \<and>
     (\<forall>regs. mset (pe_sched P regs) = mset regs)"

definition rowsOk :: "plugin_env \<Rightarrow> string set \<Rightarrow> plugin_registration list \<Rightarrow> bool" where
  "rowsOk P S rows \<longleftrightarrow> (\<forall>row \<in> set rows. pl_TypeID row \<in> S \<and> pl_TypeID row \<noteq> [] \<and> builtins P (pl_TypeID row) = None)"

definition pluginsOk :: "plugin_env \<Rightarrow> string set \<Rightarrow> string set \<Rightarrow> (string \<rightharpoonup> node_handler) \<Rightarrow> plugin_state \<Rightarrow> bool" where
  "pluginsOk P S E B st \<longleftrightarrow>
     nodePlugins.backed (pe_sql P) E B (pn_dialed st) (t_plugins (tables (pn_db st))) (pn_registry st) \<and>
     nodePlugins.accounted (pn_dialed st) (pn_dropped st) (pn_registry st) \<and> rowsOk P S (t_plugins (tables (pn_db st)))"

lemma pluginsOk_good: "pluginsOk P S E B st \<Longrightarrow> wf_map (nr_handlers (pn_registry st))"
  by (simp add: pluginsOk_def nodePlugins.backed_def)

subsection \<open>The rows\<close>

lemma upsertRow_cases:
  assumes "inj_on (sql_key q) S" "k ` set rows \<subseteq> S" "k new \<in> S" "\<And>r. k (merge r new) = k r"
  shows "row \<in> set rows \<Longrightarrow> k row \<noteq> k new \<Longrightarrow> row \<in> set (upsertRow q k merge new rows)"
    and "\<exists>row \<in> set (upsertRow q k merge new rows). k row = k new \<and> (row = new \<or> (\<exists>old. row = merge old new))"
    and "x \<in> set (upsertRow q k merge new rows) \<Longrightarrow> x \<in> set rows \<or> k x = k new"
proof -
  have same: "sql_eq q (k r) (k new) \<longleftrightarrow> k r = k new" if "r \<in> set rows" for r
    using assms(1,2,3) that by (auto simp: sql_eq_def inj_on_def)
  then show "row \<in> set rows \<Longrightarrow> k row \<noteq> k new \<Longrightarrow> row \<in> set (upsertRow q k merge new rows)"
    by (force simp: upsertRow_def)
  show "\<exists>row \<in> set (upsertRow q k merge new rows). k row = k new \<and> (row = new \<or> (\<exists>old. row = merge old new))"
  proof (cases "\<exists>r \<in> set rows. sql_eq q (k r) (k new)")
    case True
    then obtain r where r: "r \<in> set rows" "sql_eq q (k r) (k new)" by blast
    with same assms(4) have "merge r new \<in> set (upsertRow q k merge new rows)" "k (merge r new) = k new" by (auto simp: upsertRow_def)
    then show ?thesis by blast
  qed (simp add: upsertRow_def)
  from same assms(4) show "x \<in> set (upsertRow q k merge new rows) \<Longrightarrow> x \<in> set rows \<or> k x = k new"
    by (auto simp: upsertRow_def split: if_splits)
qed

lemma Save_cases:
  assumes "SavePluginRegistration q now reg d = (res, d')"
  obtains "t_plugins (tables d') = t_plugins (tables d)" "isl res"
  | "t_plugins (tables d') = upsertRow q pl_TypeID (\<lambda>old new. new\<lparr> pl_TypeID := pl_TypeID old, pl_RegisteredAt := pl_RegisteredAt old \<rparr>)
       (reg\<lparr>pl_RegisteredAt := now\<rparr>) (t_plugins (tables d))"
  using assms by (auto simp: SavePluginRegistration_def exec_def split: sql_outcome.splits)

lemma GetPlugin_cases:
  assumes "GetPluginRegistration q i d = (res, d')"
  shows "tables d' = tables d" "res = Inr x \<Longrightarrow> \<exists>row \<in> set (t_plugins (tables d)). sql_eq q (pl_TypeID row) i"
  using assms by (auto simp: GetPluginRegistration_def andThen_def query_def give_def find_Some_iff split: prod.splits sum.splits if_splits option.splits)

lemma ListPlugins_tables: "ListPluginRegistrations q d = (res, d') \<Longrightarrow> tables d' = tables d"
  by (auto simp: ListPluginRegistrations_def query_def)

lemma DeletePlugin_cases:
  assumes "DeletePluginRegistration q i d = (res, d')"
  shows "t_plugins (tables d') = t_plugins (tables d) \<or> t_plugins (tables d') = deleteRows (\<lambda>r. sql_eq q (pl_TypeID r) i) (t_plugins (tables d))"
  using assms by (auto simp: DeletePluginRegistration_def andThen_def exec_def give_def fail_def split: sql_outcome.splits prod.splits sum.splits if_splits)

lemma row_id: "pluginEnv P S \<Longrightarrow> rowsOk P S rows \<Longrightarrow> i \<in> S \<Longrightarrow> row \<in> set rows \<Longrightarrow> sql_eq (pe_sql P) (pl_TypeID row) i \<Longrightarrow> pl_TypeID row = i"
  by (auto simp: pluginEnv_def rowsOk_def sql_eq_def inj_on_def)

subsection \<open>Dialling\<close>

lemma protoToMeta_id: "protoToMeta L resp = Some meta \<Longrightarrow> nm_TypeID meta = mr_TypeId resp \<and> mr_TypeId resp \<noteq> []"
  by (auto simp: protoToMeta_def Let_def split: if_splits)

text \<open>What a call of the registrar comes to: nothing, a connection given up, or an entry with a connection.\<close>

lemma dialAndRegister_cases:
  assumes "dialAndRegister L addr expected register st = (res, st')"
  obtains (Refused) "st' = st" "isl res"
  | (Aborted) "st' = giveUp (length (pn_dialed st)) (st\<lparr>pn_dialed := pn_dialed st @ [addr]\<rparr>)" "isl res"
  | (Entered) resp meta r where "rpc_Meta L (length (pn_dialed st)) addr = Some resp" "protoToMeta L resp = Some meta" "expected = [] \<or> nm_TypeID meta = expected"
      "register \<lparr> nh_Meta = meta, nh_ident = length (pn_dialed st), nh_closer = True \<rparr> (pn_registry st) = Inr r"
      "st' = st\<lparr> pn_dialed := pn_dialed st @ [addr], pn_registry := r \<rparr>" "res = Inr (registrationOf meta addr)"
proof -
  let ?h = "\<lambda>meta. \<lparr> nh_Meta = meta, nh_ident = length (pn_dialed st), nh_closer = True \<rparr>"
  note unfolded = assms[unfolded dialAndRegister_def Let_def]
  show thesis
  proof (cases "rpc_NewClient L addr")
    case False
    with unfolded show thesis by (intro Refused) auto
  next
    case dial: True
    show thesis
    proof (cases "rpc_Meta L (length (pn_dialed st)) addr")
      case None
      with dial unfolded show thesis by (intro Aborted) auto
    next
      case resp: (Some resp)
      show thesis
      proof (cases "protoToMeta L resp")
        case None
        with dial resp unfolded show thesis by (intro Aborted) auto
      next
        case meta: (Some meta)
        show thesis
        proof (cases "expected = [] \<or> nm_TypeID meta = expected")
          case False
          with dial resp meta unfolded show thesis by (intro Aborted) auto
        next
          case id: True
          show thesis
          proof (cases "register (?h meta) (pn_registry st)")
            case (Inl e)
            with dial resp meta id unfolded show thesis by (intro Aborted) auto
          next
            case (Inr r)
            with dial resp meta id unfolded show thesis by (intro Entered[OF resp meta id Inr]) auto
          qed
        qed
      qed
    qed
  qed
qed

lemma giveUp_ok: "pluginsOk P S E B st \<Longrightarrow> pluginsOk P S E B (giveUp (length (pn_dialed st)) (st\<lparr>pn_dialed := pn_dialed st @ [addr]\<rparr>))"
  by (simp add: pluginsOk_def giveUp_def nodePlugins.backed_dial nodePlugins.accounted_giveUp)

text \<open>A new entry whose key has no built-in node; \<open>rows'\<close> are the rows afterwards.\<close>

lemma entered_ok:
  assumes ok: "pluginsOk P S E B st" and h: "nh_ident h = length (pn_dialed st)" "nh_closer h" and free: "B (node_key h) = None"
    and entered: "TryRegister h (pn_registry st) = Inr r \<or> r = Replace h (pn_registry st)"
    and rows: "\<And>row. row \<in> set (t_plugins (tables (pn_db st))) \<Longrightarrow> pl_TypeID row \<noteq> node_key h \<Longrightarrow> row \<in> set (t_plugins (tables d))" "rowsOk P S (t_plugins (tables d))"
    and backed: "addr \<in> E \<or> (\<exists>row \<in> set (t_plugins (tables d)). pl_TypeID row = node_key h \<and> servesPlugin (pe_sql P) (pn_dialed st @ [addr]) h row)"
  shows "pluginsOk P S E B (st\<lparr> pn_dialed := pn_dialed st @ [addr], pn_registry := r, pn_db := d \<rparr>)"
proof -
  have good: "wf_map (nr_handlers (pn_registry st))" by (rule pluginsOk_good[OF ok])
  from entered have r: "wf_map (nr_handlers r)" "map_of (nr_handlers r) = (map_of (nr_handlers (pn_registry st)))(node_key h \<mapsto> h)"
    using nodePlugins.addD(2,3)[OF good] nodes.put_law[OF good] by blast+
  from h backed have "dialedIn E (pn_dialed st @ [addr]) h \<or> (\<exists>row \<in> set (t_plugins (tables d)). pl_TypeID row = node_key h \<and> servesPlugin (pe_sql P) (pn_dialed st @ [addr]) h row)"
    by (auto simp: dialedIn_def)
  then have new: "dialedIn E (pn_dialed st @ [addr]) h' \<or> (\<exists>row \<in> set (t_plugins (tables d)). pl_TypeID row = node_key h \<and> servesPlugin (pe_sql P) (pn_dialed st @ [addr]) h' row)"
    if "map_of (nr_handlers r) (node_key h) = Some h'" for h'
    using that r(2) by simp
  from ok have "nodePlugins.backed (pe_sql P) E B (pn_dialed st) (t_plugins (tables (pn_db st))) (pn_registry st)" by (simp add: pluginsOk_def)
  from nodePlugins.backed_step[OF this r(1) free _ rows(1) _ new]
  have "nodePlugins.backed (pe_sql P) E B (pn_dialed st @ [addr]) (t_plugins (tables d)) r" by (simp add: r(2))
  moreover have "nodePlugins.accounted (pn_dialed st @ [addr]) (pn_dropped st) r"
    using ok h entered by (intro nodePlugins.accounted_add[OF good]) (auto simp: pluginsOk_def node_own_def)
  ultimately show ?thesis using rows(2) by (simp add: pluginsOk_def)
qed

subsection \<open>Requests\<close>

lemma saved_rows:
  fixes now :: int
  assumes env: "pluginEnv P S" and ok: "rowsOk P S rows" and id: "pl_TypeID reg \<in> S" "pl_TypeID reg \<noteq> []" "builtins P (pl_TypeID reg) = None"
  defines "rows' \<equiv> upsertRow (pe_sql P) pl_TypeID (\<lambda>old new. new\<lparr> pl_TypeID := pl_TypeID old, pl_RegisteredAt := pl_RegisteredAt old \<rparr>) (reg\<lparr>pl_RegisteredAt := now\<rparr>) rows"
  shows "rowsOk P S rows'" "row \<in> set rows \<Longrightarrow> pl_TypeID row \<noteq> pl_TypeID reg \<Longrightarrow> row \<in> set rows'"
    "\<exists>row \<in> set rows'. pl_TypeID row = pl_TypeID reg \<and> (\<forall>ds h. servesPlugin q ds h row = servesPlugin q ds h reg)"
proof -
  have "inj_on (sql_key (pe_sql P)) S" "pl_TypeID ` set rows \<subseteq> S" "pl_TypeID (reg\<lparr>pl_RegisteredAt := now\<rparr>) \<in> S" using env ok id by (auto simp: pluginEnv_def rowsOk_def)
  note up = upsertRow_cases[OF this, where merge = "\<lambda>old new. new\<lparr> pl_TypeID := pl_TypeID old, pl_RegisteredAt := pl_RegisteredAt old \<rparr>", folded rows'_def, simplified]
  show "row \<in> set rows \<Longrightarrow> pl_TypeID row \<noteq> pl_TypeID reg \<Longrightarrow> row \<in> set rows'" by (rule up(1))
  show "rowsOk P S rows'" using up(3) ok id by (fastforce simp: rowsOk_def)
  show "\<exists>row \<in> set rows'. pl_TypeID row = pl_TypeID reg \<and> (\<forall>ds h. servesPlugin q ds h row = servesPlugin q ds h reg)"
    using up(2) by (auto simp: servesPlugin_def)
qed

lemma serves_registration:
  "servesPlugin q (ds @ [addr]) \<lparr> nh_Meta = meta, nh_ident = length ds, nh_closer = True \<rparr> (registrationOf meta addr)"
  by (simp add: servesPlugin_def registrationOf_def)

lemma persist_ok:
  fixes st meta
  defines "h \<equiv> \<lparr> nh_Meta = meta, nh_ident = length (pn_dialed st), nh_closer = True \<rparr>"
  assumes env: "pluginEnv P S" and ok: "pluginsOk P S E B st" and id: "nm_TypeID meta \<in> S" "nm_TypeID meta \<noteq> []" "builtins P (nm_TypeID meta) = None" "B (nm_TypeID meta) = None"
    and entered: "TryRegister h (pn_registry st) = Inr r \<or> r = Replace h (pn_registry st)"
    and p: "persist P code (registrationOf meta addr) (st\<lparr> pn_dialed := pn_dialed st @ [addr], pn_registry := r \<rparr>) = (ans, st')"
  shows "pluginsOk P S E B st'"
proof -
  let ?reg = "registrationOf meta addr" and ?rows = "t_plugins (tables (pn_db st))"
  have reg: "pl_TypeID ?reg = nm_TypeID meta" "node_key h = nm_TypeID meta" by (simp_all add: registrationOf_def node_key_def h_def)
  have rows: "rowsOk P S ?rows" using ok by (simp add: pluginsOk_def)
  note saved = saved_rows[OF env rows, of ?reg, unfolded reg, OF id(1-3)]
  obtain res d where save: "SavePluginRegistration (pe_sql P) (pe_now P (clock (pn_db st))) ?reg (pn_db st) = (res, d)" by fastforce
  then have d: "t_plugins (tables d) = ?rows \<and> isl res \<or> t_plugins (tables d) = upsertRow (pe_sql P) pl_TypeID
      (\<lambda>old new. new\<lparr> pl_TypeID := pl_TypeID old, pl_RegisteredAt := pl_RegisteredAt old \<rparr>) (?reg\<lparr>pl_RegisteredAt := pe_now P (clock (pn_db st))\<rparr>) ?rows"
    by (rule Save_cases) auto
  have keep: "row \<in> set (t_plugins (tables d))" if "row \<in> set ?rows" "pl_TypeID row \<noteq> nm_TypeID meta" for row using d saved(2)[OF that] that(1) by auto
  have rows': "rowsOk P S (t_plugins (tables d))" using d saved(1) rows by auto
  show ?thesis
  proof (cases res)
    case (Inr u)
    with d have d': "t_plugins (tables d) = upsertRow (pe_sql P) pl_TypeID (\<lambda>old new. new\<lparr> pl_TypeID := pl_TypeID old, pl_RegisteredAt := pl_RegisteredAt old \<rparr>)
        (?reg\<lparr>pl_RegisteredAt := pe_now P (clock (pn_db st))\<rparr>) ?rows" by simp
    from saved(3)[of "pe_now P (clock (pn_db st))" "pe_sql P", folded d'] serves_registration[of "pe_sql P" "pn_dialed st" addr meta, folded h_def]
    have b: "\<exists>row \<in> set (t_plugins (tables d)). pl_TypeID row = node_key h \<and> servesPlugin (pe_sql P) (pn_dialed st @ [addr]) h row"
      unfolding reg by blast
    have "pluginsOk P S E B (st\<lparr> pn_dialed := pn_dialed st @ [addr], pn_registry := r, pn_db := d \<rparr>)"
      by (rule entered_ok[OF ok _ _ _ entered]) (use keep rows' id(4) b reg(2) in \<open>auto simp: h_def\<close>)
    with Inr p save show ?thesis by (simp add: persist_def)
  next
    case (Inl e)
    have good: "wf_map (nr_handlers (pn_registry st))" by (rule pluginsOk_good[OF ok])
    from entered have r: "wf_map (nr_handlers r)" "map_of (nr_handlers r) = (map_of (nr_handlers (pn_registry st)))(nm_TypeID meta \<mapsto> h)"
      using nodePlugins.addD(2,3)[OF good, of h r] nodes.put_law[OF good, of h] reg(2) by auto
    note q = nodePlugins.quiet_law[OF r(1), of "nm_TypeID meta", unfolded quiet_dropQuietly]
    have "nodePlugins.accounted (pn_dialed st @ [addr]) (pn_dropped st) (dropQuietly (nm_TypeID meta) r)"
      using nodePlugins.accounted_quiet[OF r(1), unfolded quiet_dropQuietly] nodePlugins.accounted_add[OF good _ _ entered] ok by (simp add: pluginsOk_def node_own_def h_def)
    moreover have "nodePlugins.backed (pe_sql P) E B (pn_dialed st @ [addr]) (t_plugins (tables d)) (dropQuietly (nm_TypeID meta) r)"
    proof (rule nodePlugins.backed_step[where k = "nm_TypeID meta"])
      show "nodePlugins.backed (pe_sql P) E B (pn_dialed st) ?rows (pn_registry st)" using ok by (simp add: pluginsOk_def)
    qed (use q r(2) keep id(4) in auto)
    ultimately show ?thesis using rows' p save Inl by (auto simp: persist_def reg pluginsOk_def)
  qed
qed

lemma pluginsOk_same:
  "pluginsOk P S E B st \<Longrightarrow> tables d = tables (pn_db st) \<Longrightarrow> pluginsOk P S E B (st\<lparr>pn_db := d\<rparr>)"
  by (simp add: pluginsOk_def)

text \<open>An entry in the registry blocks its type id; a built-in node is such an entry.\<close>

lemma TryRegister_free:
  assumes "pluginsOk P S E B st" "TryRegister h (pn_registry st) = Inr r"
  shows "B (node_key h) = None"
proof -
  from assms have "map_of (nr_handlers (pn_registry st)) (node_key h) = None" "B \<subseteq>\<^sub>m map_of (nr_handlers (pn_registry st))"
    using nodePlugins.addD(1)[OF pluginsOk_good[OF assms(1)]] by (auto simp: pluginsOk_def nodePlugins.backed_def)
  then show ?thesis by (cases "B (node_key h)") (auto simp: map_le_def dom_def)
qed

lemma reported_id: "pluginEnv P S \<Longrightarrow> rpc_Meta (pe_rpc P) n a = Some resp \<Longrightarrow> protoToMeta (pe_rpc P) resp = Some meta \<Longrightarrow> nm_TypeID meta \<in> S \<and> nm_TypeID meta \<noteq> []"
  using protoToMeta_id[of "pe_rpc P" resp meta] by (auto simp: pluginEnv_def)

lemma register_ok:
  assumes env: "pluginEnv P S" and ok: "pluginsOk P S E (builtins P) st"
  shows "pluginsOk P S E (builtins P) (snd (plugin_register P b st))"
proof (cases "b = None \<or> b = Some []")
  case False
  then obtain addr where b: "b = Some addr" "addr \<noteq> []" by auto
  obtain res st1 where one: "RegisterOne (pe_rpc P) addr st = (res, st1)" by fastforce
  from one[unfolded RegisterOne_def] show ?thesis
  proof (cases rule: dialAndRegister_cases)
    case (Entered resp meta r)
    note id = reported_id[OF env Entered(1,2)]
    let ?h = "\<lparr> nh_Meta = meta, nh_ident = length (pn_dialed st), nh_closer = True \<rparr>"
    have free: "builtins P (nm_TypeID meta) = None" using TryRegister_free[OF ok Entered(4)] by (simp add: node_key_def)
    obtain ans st' where p: "persist P 201 (registrationOf meta addr) (st\<lparr> pn_dialed := pn_dialed st @ [addr], pn_registry := r \<rparr>) = (ans, st')" by fastforce
    have "pluginsOk P S E (builtins P) st'" by (rule persist_ok[OF env ok _ _ free free _ p]) (use id Entered(4) in auto)
    with b one Entered(5,6) p show ?thesis by (simp add: plugin_register_def)
  qed (use b one ok giveUp_ok[OF ok] in \<open>auto simp: plugin_register_def split: registrar_error.split reg_error.split sum.split\<close>)
qed (use ok in \<open>auto simp: plugin_register_def\<close>)

lemma update_ok:
  assumes env: "pluginEnv P S" and ok: "pluginsOk P S E (builtins P) st" and "i \<in> S"
  shows "pluginsOk P S E (builtins P) (snd (plugin_update P i b st))"
proof -
  obtain got d where get: "GetPluginRegistration (pe_sql P) i (pn_db st) = (got, d)" by fastforce
  have same: "pluginsOk P S E (builtins P) (st\<lparr>pn_db := d\<rparr>)" by (rule pluginsOk_same[OF ok GetPlugin_cases(1)[OF get]])
  show ?thesis
  proof (cases "isl got \<or> b = None \<or> b = Some []")
    case False
    then obtain x addr where b: "b = Some addr" "addr \<noteq> []" "got = Inr x" by (cases got) auto
    from GetPlugin_cases(2)[OF get b(3)] obtain row where row: "row \<in> set (t_plugins (tables (pn_db st)))" "sql_eq (pe_sql P) (pl_TypeID row) i" by blast
    have rows: "rowsOk P S (t_plugins (tables (pn_db st)))" using ok by (simp add: pluginsOk_def)
    have i: "i \<noteq> []" "builtins P i = None" using row_id[OF env rows assms(3) row] rows row(1) by (auto simp: rowsOk_def)
    obtain res st1 where one: "UpdateOne (pe_rpc P) i addr (st\<lparr>pn_db := d\<rparr>) = (res, st1)" by fastforce
    from one[unfolded UpdateOne_def] show ?thesis
    proof (cases rule: dialAndRegister_cases)
      case (Entered resp meta r)
      note id = reported_id[OF env Entered(1,2)]
      have free: "builtins P (nm_TypeID meta) = None" using Entered(3) i by auto
      obtain ans st' where p: "persist P 200 (registrationOf meta addr) (st\<lparr> pn_db := d, pn_dialed := pn_dialed (st\<lparr>pn_db := d\<rparr>) @ [addr], pn_registry := r \<rparr>) = (ans, st')" by fastforce
      have "pluginsOk P S E (builtins P) st'" by (rule persist_ok[OF env same _ _ free free _ p]) (use id Entered(4) in auto)
      with b get one Entered(5,6) p show ?thesis by (simp add: plugin_update_def)
    qed (use b get one same giveUp_ok[OF same] in \<open>auto simp: plugin_update_def split: registrar_error.split sum.split\<close>)
  qed (use same get in \<open>auto simp: plugin_update_def split: option.split sum.split\<close>)
qed

lemma deregister_ok:
  assumes env: "pluginEnv P S" and ok: "pluginsOk P S E (builtins P) st" and "i \<in> S"
  shows "pluginsOk P S E (builtins P) (snd (plugin_deregister P i st))"
proof -
  obtain got d where get: "GetPluginRegistration (pe_sql P) i (pn_db st) = (got, d)" by fastforce
  have same: "pluginsOk P S E (builtins P) (st\<lparr>pn_db := d\<rparr>)" by (rule pluginsOk_same[OF ok GetPlugin_cases(1)[OF get]])
  show ?thesis
  proof (cases "isl got \<or> (\<exists>j. Unregister i (pn_registry st) = Inl (ErrDuplicateTypeID j))")
    case True
    with same get show ?thesis by (auto simp: plugin_deregister_def split: sum.split)
  next
    case False
    then obtain x where x: "got = Inr x" by (cases got) auto
    let ?rows = "t_plugins (tables (pn_db st))"
    from GetPlugin_cases(2)[OF get x] obtain row where row: "row \<in> set ?rows" "sql_eq (pe_sql P) (pl_TypeID row) i" by blast
    have rows: "rowsOk P S ?rows" using ok by (simp add: pluginsOk_def)
    have free: "builtins P i = None" using row_id[OF env rows assms(3) row] rows row(1) by (auto simp: rowsOk_def)
    obtain res d' where del: "DeletePluginRegistration (pe_sql P) i d = (res, d')" by fastforce
    from DeletePlugin_cases[OF del] GetPlugin_cases(1)[OF get] have d': "t_plugins (tables d') = ?rows \<or> t_plugins (tables d') = deleteRows (\<lambda>r. sql_eq (pe_sql P) (pl_TypeID r) i) ?rows" by simp
    note good = pluginsOk_good[OF ok]
    note q = nodePlugins.quiet_law[OF good, of i, unfolded quiet_dropQuietly]
    have keep: "r \<in> set (t_plugins (tables d'))" if "r \<in> set ?rows" "pl_TypeID r \<noteq> i" for r
      using d' that row_id[OF env rows assms(3) that(1)] by (auto simp: deleteRows_def)
    have rows': "rowsOk P S (t_plugins (tables d'))" using d' rows by (auto simp: rowsOk_def deleteRows_def)
    have "nodePlugins.accounted (pn_dialed st) (pn_dropped st) (dropQuietly i (pn_registry st))"
      using nodePlugins.accounted_quiet[OF good, unfolded quiet_dropQuietly] ok by (simp add: pluginsOk_def)
    moreover have "nodePlugins.backed (pe_sql P) E (builtins P) (pn_dialed st) (t_plugins (tables d')) (dropQuietly i (pn_registry st))"
    proof (rule nodePlugins.backed_step[where k = i])
      show "nodePlugins.backed (pe_sql P) E (builtins P) (pn_dialed st) ?rows (pn_registry st)" using ok by (simp add: pluginsOk_def)
    qed (use q keep free in auto)
    ultimately have "pluginsOk P S E (builtins P) (st\<lparr> pn_registry := dropQuietly i (pn_registry st), pn_db := d' \<rparr>)" using rows' by (simp add: pluginsOk_def)
    then show ?thesis using False get del x by (cases "Unregister i (pn_registry st)") (auto simp: plugin_deregister_def Let_def split: reg_error.splits sum.split)
  qed
qed

fun pluginNames :: "plugin_request \<Rightarrow> string set" where
  "pluginNames (PutPlugin i b) = {i}"
| "pluginNames (DeletePlugin i) = {i}"
| "pluginNames _ = {}"

lemma servePlugins_ok:
  assumes "pluginEnv P S" "pluginsOk P S E (builtins P) st" "pluginNames rq \<subseteq> S"
  shows "pluginsOk P S E (builtins P) (snd (servePlugins P G hdr rq st))"
proof -
  obtain res d where ls: "ListPluginRegistrations (pe_sql P) (pn_db st) = (res, d)" by fastforce
  then have "snd (plugin_list P st) = st\<lparr>pn_db := d\<rparr>" by (auto simp: plugin_list_def split: sum.split)
  then have "pluginsOk P S E (builtins P) (snd (plugin_list P st))" using pluginsOk_same[OF assms(2) ListPlugins_tables[OF ls]] by simp
  then have "pluginsOk P S E (builtins P) (snd (pluginHandle P rq st))"
    using register_ok[OF assms(1,2)] update_ok[OF assms(1,2)] deregister_ok[OF assms(1,2)] assms(3) by (cases rq) auto
  with assms(2) show ?thesis by (auto simp: servePlugins_def mux_role_iff answer_def split: option.split prod.split)
qed

subsection \<open>Start-up\<close>

lemma Register_TryRegister: "Register h r = Some r' \<longleftrightarrow> TryRegister h r = Inr r'"
  by (simp add: Register_def TryRegister_def Let_def)

lemma TryRegister_new: "map_of (nr_handlers r) (node_key h) = None \<Longrightarrow> \<exists>r'. TryRegister h r = Inr r'"
  by (simp add: TryRegister_def Let_def node_key_def)

text \<open>Registering built-in nodes that are not there yet.\<close>

lemma registerAll_ok:
  assumes "nodePlugins.backed q E B ds rows r" "nodePlugins.accounted ds dropped r" "distinct (map node_key hs)" "\<forall>h \<in> set hs. \<not> nh_closer h \<and> map_of (nr_handlers r) (node_key h) = None"
  shows "\<exists>r'. registerAll hs r = Some r' \<and> nodePlugins.backed q E (B ++ byKey hs) ds rows r' \<and> nodePlugins.accounted ds dropped r' \<and>
    (\<forall>k. k \<notin> node_key ` set hs \<longrightarrow> map_of (nr_handlers r') k = map_of (nr_handlers r) k)"
  using assms
proof (induction hs arbitrary: B r)
  case (Cons h hs)
  have good: "wf_map (nr_handlers r)" using Cons.prems(1) by (simp add: nodePlugins.backed_def)
  obtain r1 where r1: "TryRegister h r = Inr r1" using TryRegister_new Cons.prems(4) by fastforce
  note a = nodePlugins.addD[OF good r1]
  have "nodePlugins.backed q E (B(node_key h \<mapsto> h)) ds rows r1" using Cons.prems(1) a(2,3) by (auto simp: nodePlugins.backed_def map_le_def)
  moreover have "nodePlugins.accounted ds dropped r1" using Cons.prems(2,4) a(4) by (simp add: nodePlugins.accounted_def node_own_def)
  moreover have "\<forall>h' \<in> set hs. \<not> nh_closer h' \<and> map_of (nr_handlers r1) (node_key h') = None" using Cons.prems(3,4) by (auto simp: a(3)) (metis imageI)
  moreover have "distinct (map node_key hs)" using Cons.prems(3) by simp
  ultimately obtain r' where r': "registerAll hs r1 = Some r'" "nodePlugins.backed q E (B(node_key h \<mapsto> h) ++ byKey hs) ds rows r'"
      "nodePlugins.accounted ds dropped r'" "\<forall>k. k \<notin> node_key ` set hs \<longrightarrow> map_of (nr_handlers r') k = map_of (nr_handlers r1) k"
    using Cons.IH[of "B(node_key h \<mapsto> h)" r1] by blast
  have "B(node_key h \<mapsto> h) ++ byKey hs = B ++ byKey (h # hs)" using Cons.prems(3) by (simp add: map_add_upd_left)
  note all = r'(2)[unfolded this]
  have "registerAll (h # hs) r = Some r'" using r'(1) Register_TryRegister[of h r r1] r1 by simp
  moreover have "\<forall>k. k \<notin> node_key ` set (h # hs) \<longrightarrow> map_of (nr_handlers r') k = map_of (nr_handlers r) k" using r'(4) by (simp add: a(3))
  ultimately show ?case using all r'(3) by blast
qed simp

definition lateFree :: "plugin_env \<Rightarrow> plugin_state \<Rightarrow> bool" where
  "lateFree P st \<longleftrightarrow> (\<forall>h \<in> set (pe_late P). map_of (nr_handlers (pn_registry st)) (node_key h) = None)"

lemma lateFree_entered:
  assumes "pluginEnv P S" "pluginsOk P S E B st" "lateFree P st" "rpc_Meta (pe_rpc P) n a = Some resp" "node_key h = mr_TypeId resp" "TryRegister h (pn_registry st) = Inr r"
  shows "lateFree P (st\<lparr> pn_dialed := ds, pn_registry := r, pn_db := d \<rparr>)"
proof -
  have "node_key h \<notin> node_key ` set (pe_late P)" using assms(1,4,5) by (simp add: pluginEnv_def)
  then show ?thesis using assms(3) nodePlugins.addD(3)[OF pluginsOk_good[OF assms(2)] assms(6)] by (auto simp: lateFree_def) (metis imageI)
qed

lemma giveUp_lateFree: "lateFree P st \<Longrightarrow> lateFree P (giveUp n (st\<lparr>pn_dialed := ds\<rparr>))"
  by (simp add: lateFree_def giveUp_def)

lemma loadStored_cases:
  fixes reg st
  defines "h \<equiv> \<lparr> nh_Meta = \<lparr> nm_TypeID = pl_TypeID reg, nm_DisplayName = pl_DisplayName reg, nm_Category = pl_Category reg, nm_Description = pl_Description reg,
      nm_InputSchema = pl_InputSchema reg, nm_OutputSchema = pl_OutputSchema reg \<rparr>, nh_ident = length (pn_dialed st), nh_closer = True \<rparr>"
  obtains "loadStored L reg st = st" | "loadStored L reg st = giveUp (length (pn_dialed st)) (st\<lparr>pn_dialed := pn_dialed st @ [pl_Address reg]\<rparr>)"
  | resp r where "rpc_Meta L (length (pn_dialed st)) (pl_Address reg) = Some resp" "mr_TypeId resp = pl_TypeID reg" "TryRegister h (pn_registry st) = Inr r"
      "loadStored L reg st = st\<lparr> pn_dialed := pn_dialed st @ [pl_Address reg], pn_registry := r \<rparr>"
proof (cases "rpc_NewClient L (pl_Address reg)")
  case dial: True
  show thesis
  proof (cases "rpc_Meta L (length (pn_dialed st)) (pl_Address reg)")
    case None
    with dial show thesis by (intro that(2)) (simp add: loadStored_def)
  next
    case resp: (Some resp)
    show thesis
    proof (cases "mr_TypeId resp = pl_TypeID reg")
      case False
      with dial resp show thesis by (intro that(2)) (simp add: loadStored_def)
    next
      case id: True
      show thesis
      proof (cases "TryRegister h (pn_registry st)")
        case (Inl e)
        with dial resp id show thesis by (intro that(2)) (simp add: loadStored_def h_def)
      next
        case (Inr r)
        with dial resp id show thesis by (intro that(3)[OF resp id Inr]) (simp add: loadStored_def h_def)
      qed
    qed
  qed
qed (auto simp: loadStored_def intro: that(1))

lemma loadStored_ok:
  assumes env: "pluginEnv P S" and ok: "pluginsOk P S E B st" "lateFree P st" and row: "row \<in> set (t_plugins (tables (pn_db st)))"
  shows "pluginsOk P S E B (loadStored (pe_rpc P) (rowToPluginReg (pe_sql P) row) st) \<and> lateFree P (loadStored (pe_rpc P) (rowToPluginReg (pe_sql P) row) st) \<and>
    pn_db (loadStored (pe_rpc P) (rowToPluginReg (pe_sql P) row) st) = pn_db st"
proof -
  let ?reg = "rowToPluginReg (pe_sql P) row" and ?conn = "length (pn_dialed st)"
  let ?h = "\<lparr> nh_Meta = \<lparr> nm_TypeID = pl_TypeID ?reg, nm_DisplayName = pl_DisplayName ?reg, nm_Category = pl_Category ?reg, nm_Description = pl_Description ?reg,
      nm_InputSchema = pl_InputSchema ?reg, nm_OutputSchema = pl_OutputSchema ?reg \<rparr>, nh_ident = ?conn, nh_closer = True \<rparr>"
  show ?thesis
  proof (cases rule: loadStored_cases[of "pe_rpc P" ?reg st])
    case (3 resp r)
    have key: "node_key ?h = pl_TypeID row" by (simp add: node_key_def rowToPluginReg_def)
    have free: "B (node_key ?h) = None" by (rule TryRegister_free[OF ok(1) 3(3)])
    have "servesPlugin (pe_sql P) (pn_dialed st @ [pl_Address ?reg]) ?h row" by (simp add: servesPlugin_def rowToPluginReg_def)
    with row key have "pluginsOk P S E B (st\<lparr> pn_dialed := pn_dialed st @ [pl_Address ?reg], pn_registry := r, pn_db := pn_db st \<rparr>)"
      using ok(1) by (intro entered_ok[OF ok(1) _ _ free]) (auto simp: 3(3) pluginsOk_def)
    moreover have "lateFree P (st\<lparr> pn_dialed := pn_dialed st @ [pl_Address ?reg], pn_registry := r, pn_db := pn_db st \<rparr>)"
      using 3(2) by (intro lateFree_entered[OF env ok 3(1) _ 3(3)]) (simp add: node_key_def)
    ultimately show ?thesis using 3(4) by simp
  qed (use ok giveUp_ok[OF ok(1)] giveUp_lateFree[OF ok(2)] in \<open>auto simp: giveUp_def\<close>)
qed

lemma loads_ok:
  assumes env: "pluginEnv P S" and "pluginsOk P S E B st" "lateFree P st" "set regs \<subseteq> rowToPluginReg (pe_sql P) ` set (t_plugins (tables (pn_db st)))"
  shows "pluginsOk P S E B (fold (loadStored (pe_rpc P)) regs st) \<and> lateFree P (fold (loadStored (pe_rpc P)) regs st) \<and> pn_db (fold (loadStored (pe_rpc P)) regs st) = pn_db st"
  using assms(2-4)
proof (induction regs arbitrary: st)
  case (Cons reg regs)
  then obtain row where "reg = rowToPluginReg (pe_sql P) row" "row \<in> set (t_plugins (tables (pn_db st)))" by auto
  with loadStored_ok[OF env Cons.prems(1,2)] have "pluginsOk P S E B (loadStored (pe_rpc P) reg st)" "lateFree P (loadStored (pe_rpc P) reg st)" "pn_db (loadStored (pe_rpc P) reg st) = pn_db st"
    by auto
  with Cons.IH[of "loadStored (pe_rpc P) reg st"] Cons.prems(3) show ?case by simp
qed simp

lemma LoadFromStore_ok:
  assumes env: "pluginEnv P S" and ok: "pluginsOk P S E B st" "lateFree P st"
  shows "pluginsOk P S E B (LoadFromStore (pe_sql P) (pe_rpc P) (pe_sched P) st) \<and> lateFree P (LoadFromStore (pe_sql P) (pe_rpc P) (pe_sched P) st)"
proof -
  obtain res d where ls: "ListPluginRegistrations (pe_sql P) (pn_db st) = (res, d)" by fastforce
  have same: "pluginsOk P S E B (st\<lparr>pn_db := d\<rparr>)" by (rule pluginsOk_same[OF ok(1) ListPlugins_tables[OF ls]])
  show ?thesis
  proof (cases res)
    case (Inr regs)
    with ls have "set regs = rowToPluginReg (pe_sql P) ` set (t_plugins (tables d))" by (auto simp: ListPluginRegistrations_def query_def split: if_splits)
    moreover have "set (pe_sched P regs) = set regs" using env by (metis pluginEnv_def mset_eq_setD)
    ultimately have "pluginsOk P S E B (fold (loadStored (pe_rpc P)) (pe_sched P regs) (st\<lparr>pn_db := d\<rparr>)) \<and> lateFree P (fold (loadStored (pe_rpc P)) (pe_sched P regs) (st\<lparr>pn_db := d\<rparr>))"
      using loads_ok[OF env same, of "pe_sched P regs"] ok(2) by (simp add: lateFree_def)
    with ls Inr show ?thesis by (simp add: LoadFromStore_def)
  qed (use ls same ok(2) in \<open>simp add: LoadFromStore_def lateFree_def\<close>)
qed

lemma RegisterOne_env_ok:
  assumes env: "pluginEnv P S" and ok: "pluginsOk P S E B st" "lateFree P st" and "addr \<in> E"
  shows "pluginsOk P S E B (snd (RegisterOne (pe_rpc P) addr st)) \<and> lateFree P (snd (RegisterOne (pe_rpc P) addr st))"
proof -
  obtain res st1 where one: "RegisterOne (pe_rpc P) addr st = (res, st1)" by fastforce
  from one[unfolded RegisterOne_def] show ?thesis
  proof (cases rule: dialAndRegister_cases)
    case (Entered resp meta r)
    let ?h = "\<lparr> nh_Meta = meta, nh_ident = length (pn_dialed st), nh_closer = True \<rparr>"
    have "pluginsOk P S E B (st\<lparr> pn_dialed := pn_dialed st @ [addr], pn_registry := r, pn_db := pn_db st \<rparr>)"
      by (rule entered_ok[OF ok(1) _ _ TryRegister_free[OF ok(1) Entered(4)]]) (use assms(4) ok(1) Entered(4) in \<open>auto simp: pluginsOk_def\<close>)
    moreover have "lateFree P (st\<lparr> pn_dialed := pn_dialed st @ [addr], pn_registry := r, pn_db := pn_db st \<rparr>)"
      by (rule lateFree_entered[OF env ok Entered(1) _ Entered(4)]) (use protoToMeta_id[OF Entered(2)] in \<open>simp add: node_key_def\<close>)
    ultimately show ?thesis using one Entered(5) by simp
  qed (use one ok giveUp_ok[OF ok(1)] giveUp_lateFree[OF ok(2)] in auto)
qed

definition envAddresses :: "string \<Rightarrow> string set" where
  "envAddresses addresses = {TrimSpace a | a. a \<in> set (splitOn (CHR '','') [] addresses)} - {[]}"

lemma RegisterAddresses_ok:
  assumes env: "pluginEnv P S" and "pluginsOk P S E B st" "lateFree P st" and "envAddresses addresses \<subseteq> E"
  shows "pluginsOk P S E B (RegisterAddresses (pe_rpc P) addresses st) \<and> lateFree P (RegisterAddresses (pe_rpc P) addresses st)"
proof -
  let ?one = "\<lambda>a st. let addr = TrimSpace a in if addr = [] then st else snd (RegisterOne (pe_rpc P) addr st)"
  have "pluginsOk P S E B (fold ?one as st) \<and> lateFree P (fold ?one as st)" if "set as \<subseteq> set (splitOn (CHR '','') [] addresses)" for as
    using that assms(2,3)
  proof (induction as arbitrary: st)
    case (Cons a as)
    then have "TrimSpace a = [] \<or> TrimSpace a \<in> E" using assms(4) by (auto simp: envAddresses_def)
    with RegisterOne_env_ok[OF env Cons.prems(2,3)] Cons.prems have "pluginsOk P S E B (?one a st) \<and> lateFree P (?one a st)" by (auto simp: Let_def)
    with Cons.IH[of "?one a st"] Cons.prems(1) show ?case by simp
  qed simp
  with assms(2,3) show ?thesis by (simp add: RegisterAddresses_def)
qed

lemma Shutdown_closes: "mset (nr_closed (Shutdown r)) = mset (nr_closed r) + node_held r"
proof -
  have "mset (nr_closed (fold (\<lambda>(k, h). closeHandler h) es r)) = mset (nr_closed r) + entry_sum node_own es" for es
    by (induction es arbitrary: r) (auto simp: ac_simps)
  then show ?thesis by (simp add: Shutdown_def held_entry_sum)
qed

text \<open>A restart from any state whose connections are accounted for does not panic.\<close>

lemma restart_ok:
  assumes env: "pluginEnv P S" and rows: "rowsOk P S (t_plugins (tables (pn_db st)))" and acc: "nodePlugins.accounted (pn_dialed st) (pn_dropped st) (pn_registry st)"
    and "envAddresses addresses \<subseteq> E"
  shows "\<exists>st'. restart P addresses st = Some st' \<and> pluginsOk P S E (builtins P) st'"
proof -
  let ?dropped = "pn_dropped st @ nr_closed (Shutdown (pn_registry st))" 
  let ?rows = "t_plugins (tables (pn_db st))"
  have new: "nodePlugins.backed (pe_sql P) E Map.empty (pn_dialed st) ?rows NewRegistry" "nodePlugins.accounted (pn_dialed st) ?dropped NewRegistry"
    using acc by (simp_all add: nodePlugins.backed_def nodePlugins.accounted_def Shutdown_closes ac_simps)
  have hs: "distinct (map node_key (pe_early P))" "distinct (map node_key (pe_late P))" "node_key ` set (pe_early P) \<inter> node_key ` set (pe_late P) = {}"
      "\<forall>h \<in> set (pe_early P @ pe_late P). \<not> nh_closer h"
    using env by (simp_all add: pluginEnv_def)
  from registerAll_ok[OF new hs(1)] hs(4) obtain r0 where r0: "registerAll (pe_early P) NewRegistry = Some r0" "nodePlugins.backed (pe_sql P) E (byKey (pe_early P)) (pn_dialed st) ?rows r0"
      "nodePlugins.accounted (pn_dialed st) ?dropped r0" "\<forall>k. k \<notin> node_key ` set (pe_early P) \<longrightarrow> map_of (nr_handlers r0) k = None"
    by auto
  let ?st0 = "st\<lparr> pn_registry := r0, pn_dropped := ?dropped \<rparr>"
  have ok0: "pluginsOk P S E (byKey (pe_early P)) ?st0" using r0(2,3) rows by (simp add: pluginsOk_def)
  have "node_key h \<notin> node_key ` set (pe_early P)" if "h \<in> set (pe_late P)" for h using hs(3) that by blast
  with r0(4) have late0: "lateFree P ?st0" by (simp add: lateFree_def)
  let ?st2 = "RegisterAddresses (pe_rpc P) addresses (LoadFromStore (pe_sql P) (pe_rpc P) (pe_sched P) ?st0)"
  have ok2: "pluginsOk P S E (byKey (pe_early P)) ?st2" "lateFree P ?st2"
    using RegisterAddresses_ok[OF env _ _ assms(4)] LoadFromStore_ok[OF env ok0 late0] by blast+
  then have "nodePlugins.backed (pe_sql P) E (byKey (pe_early P)) (pn_dialed ?st2) (t_plugins (tables (pn_db ?st2))) (pn_registry ?st2)"
    "nodePlugins.accounted (pn_dialed ?st2) (pn_dropped ?st2) (pn_registry ?st2)" by (simp_all add: pluginsOk_def)
  from registerAll_ok[OF this hs(2)] ok2(2) hs(4) obtain r where r: "registerAll (pe_late P) (pn_registry ?st2) = Some r"
      "nodePlugins.backed (pe_sql P) E (byKey (pe_early P) ++ byKey (pe_late P)) (pn_dialed ?st2) (t_plugins (tables (pn_db ?st2))) r" "nodePlugins.accounted (pn_dialed ?st2) (pn_dropped ?st2) r"
    by (auto simp: lateFree_def)
  have "builtins P = byKey (pe_early P) ++ byKey (pe_late P)" using byKey_append[OF hs(3)] by (simp add: builtins_def)
  with r(2,3) ok2(1) have "pluginsOk P S E (builtins P) (?st2\<lparr>pn_registry := r\<rparr>)" by (simp add: pluginsOk_def)
  with r0(1) r(1) show ?thesis by (simp add: restart_def Let_def)
qed

subsection \<open>The life of a server\<close>

datatype plugin_event = Serve gate string plugin_request | Restart string

fun pluginRun :: "plugin_env \<Rightarrow> plugin_event list \<Rightarrow> plugin_state \<Rightarrow> plugin_state option" where
  "pluginRun P [] st = Some st"
| "pluginRun P (Serve G hdr rq # es) st = pluginRun P es (snd (servePlugins P G hdr rq st))"
| "pluginRun P (Restart addresses # es) st = (case restart P addresses st of None \<Rightarrow> None | Some st' \<Rightarrow> pluginRun P es st')"

fun eventOk :: "string set \<Rightarrow> string set \<Rightarrow> plugin_event \<Rightarrow> bool" where
  "eventOk S E (Serve G hdr rq) \<longleftrightarrow> pluginNames rq \<subseteq> S"
| "eventOk S E (Restart addresses) \<longleftrightarrow> envAddresses addresses \<subseteq> E"

lemma pluginRun_ok:
  assumes env: "pluginEnv P S" and "\<forall>e \<in> set es. eventOk S E e" "pluginsOk P S E (builtins P) st"
  shows "\<exists>st'. pluginRun P es st = Some st' \<and> pluginsOk P S E (builtins P) st'"
  using assms(2,3)
proof (induction es arbitrary: st)
  case (Cons e es)
  show ?case
  proof (cases e)
    case (Serve G hdr rq)
    with servePlugins_ok[OF env Cons.prems(2), of rq] Cons show ?thesis by simp
  next
    case (Restart addresses)
    with Cons.prems restart_ok[OF env, of st addresses E] obtain st1 where "restart P addresses st = Some st1" "pluginsOk P S E (builtins P) st1" by (auto simp: pluginsOk_def)
    with Restart Cons.IH[of st1] Cons.prems(1) show ?thesis by simp
  qed
qed simp

text \<open>
  C35. Plugins and their rows. From the first start of a server on, through any sequence of requests to the plugin endpoints and of restarts, whatever the
  database and the plugins answer: start-up does not panic; every built-in node stays registered; every other node type in the registry is served by a
  connection that was dialled to the address, and with the metadata, of a stored registration of that type, or to one of the addresses in
  \<open>PLUGIN_ADDRESSES\<close>; and every connection ever dialled is either in the registry or closed, and closed once. Hypotheses: the collation tells the type ids in
  use apart, no plugin reports the type id of a built-in node that is registered after the plugins, and no stored row has that of a built-in node.
\<close>

theorem plugins_stay_backed:
  assumes "pluginEnv P S" "rowsOk P S (t_plugins (tables d))" "\<forall>e \<in> set (Restart addresses # es). eventOk S E e"
  shows "\<exists>st. pluginRun P (Restart addresses # es) \<lparr> pn_db = d, pn_registry = NewRegistry, pn_dialed = [], pn_dropped = [] \<rparr> = Some st \<and>
    (\<forall>h \<in> set (pe_early P @ pe_late P). Lookup (node_key h) (pn_registry st) = Inr h) \<and>
    (\<forall>k h. Lookup k (pn_registry st) = Inr h \<longrightarrow> h \<in> set (pe_early P @ pe_late P) \<or> dialedIn E (pn_dialed st) h \<or>
       (\<exists>row \<in> set (t_plugins (tables (pn_db st))). pl_TypeID row = k \<and> servesPlugin (pe_sql P) (pn_dialed st) h row)) \<and>
    mset [0..<length (pn_dialed st)] = node_held (pn_registry st) + mset (nr_closed (pn_registry st)) + mset (pn_dropped st)"
proof -
  let ?st0 = "\<lparr> pn_db = d, pn_registry = NewRegistry, pn_dialed = [], pn_dropped = [] \<rparr>"
  have "\<exists>st1. restart P addresses ?st0 = Some st1 \<and> pluginsOk P S E (builtins P) st1"
    by (rule restart_ok[OF assms(1)]) (use assms(2,3) in \<open>simp_all add: nodePlugins.accounted_def\<close>)
  then obtain st1 where "restart P addresses ?st0 = Some st1" "pluginsOk P S E (builtins P) st1" by blast
  with pluginRun_ok[OF assms(1) _ this(2), of es] assms(3) obtain st where st: "pluginRun P (Restart addresses # es) ?st0 = Some st" "pluginsOk P S E (builtins P) st" by auto
  have B: "builtins P k = Some h \<longleftrightarrow> h \<in> set (pe_early P @ pe_late P) \<and> node_key h = k" for k h
    unfolding builtins_def by (rule byKey_in) (use assms(1) in \<open>simp add: pluginEnv_def\<close>)
  have b: "builtins P \<subseteq>\<^sub>m map_of (nr_handlers (pn_registry st))" using st(2) by (simp add: pluginsOk_def nodePlugins.backed_def)
  have "Lookup (node_key h) (pn_registry st) = Inr h" if "h \<in> set (pe_early P @ pe_late P)" for h
    using b B[of "node_key h" h] that by (auto simp: Lookup_iff map_le_def dom_def)
  with st B show ?thesis by (intro exI[of _ st]) (auto simp: pluginsOk_def nodePlugins.backed_def nodePlugins.accounted_def Lookup_iff)
qed

text \<open>
  A server with one node registered before and one after the plugins. An administrator registers a plugin and moves it to another address, where the
  database fails to save the move.
\<close>

definition demo_node :: "string \<Rightarrow> node_handler" where
  "demo_node t = (sample_handler t 0)\<lparr>nh_closer := False\<rparr>"

definition demo_plugins :: plugin_env where
  "demo_plugins = \<lparr> pe_sql = \<lparr> sql_outcome = (\<lambda>n. if n = 3 then NotDone else Done), sql_key = id, sql_json = id \<rparr>, pe_now = int,
     pe_rpc = \<lparr> rpc_NewClient = (\<lambda>a. True),
       rpc_Meta = (\<lambda>n a. if a = ''a:1'' \<or> a = ''b:1''
          then Some \<lparr> mr_TypeId = ''echo'', mr_DisplayName = ''Echo'', mr_Description = [], mr_InputSchema = [], mr_OutputSchema = [] \<rparr> else None),
       rpc_validJSON = (\<lambda>s. True) \<rparr>,
     pe_sched = rev, pe_early = [demo_node ''merge''], pe_late = [demo_node ''rag_ingest''] \<rparr>"

definition demo_gate :: gate where
  "demo_gate = \<lparr> ga_jwt = \<lparr> jw_SignedString = (\<lambda>key c iat expiry. Some (cl_Role c)),
       jw_ParseWithClaims = (\<lambda>kf now t. Some (\<lparr> cl_UserID = [], cl_OrgID = [], cl_Email = [], cl_Role = t, cl_OrgName = [], cl_Permissions = [] \<rparr>, True)) \<rparr>,
     ga_secret = [], ga_now = 0 \<rparr>"

definition demo_events :: "plugin_event list" where
  "demo_events = [Serve demo_gate ''Bearer system_admin'' (PostPlugin (Some ''a:1'')), Serve demo_gate ''Bearer system_admin'' (PutPlugin ''echo'' (Some ''b:1''))]"

theorem plugins_stay_backed_witness:
  "\<exists>st. pluginRun demo_plugins (Restart [] # demo_events) \<lparr> pn_db = \<lparr> tables = \<lparr> t_plugins = [], t_graders = [] \<rparr>, clock = 0 \<rparr>, pn_registry = NewRegistry, pn_dialed = [], pn_dropped = [] \<rparr> = Some st \<and>
     Lookup ''merge'' (pn_registry st) = Inr (demo_node ''merge'') \<and> Lookup ''rag_ingest'' (pn_registry st) = Inr (demo_node ''rag_ingest'') \<and>
     Lookup ''echo'' (pn_registry st) = Inl (ErrNodeNotFound ''echo'') \<and> map pl_Address (t_plugins (tables (pn_db st))) = [''a:1''] \<and>
     pn_dialed st = [''a:1'', ''b:1''] \<and> {#0, 1#} = node_held (pn_registry st) + mset (nr_closed (pn_registry st)) + mset (pn_dropped st)"
proof -
  let ?st0 = "\<lparr> pn_db = \<lparr> tables = \<lparr> t_plugins = [], t_graders = [] \<rparr>, clock = 0 \<rparr>, pn_registry = NewRegistry, pn_dialed = [], pn_dropped = [] \<rparr>"
  have keys: "node_key (demo_node t) = t" "\<not> nh_closer (demo_node t)" for t by (simp_all add: node_key_def demo_node_def sample_handler_def)
  have env: "pluginEnv demo_plugins UNIV" by (auto simp: pluginEnv_def demo_plugins_def keys split: if_splits)
  have rows: "rowsOk demo_plugins UNIV (t_plugins (tables \<lparr> tables = \<lparr> t_plugins = [], t_graders = [] \<rparr>, clock = 0 \<rparr>))" by (simp add: rowsOk_def)
  have evs: "\<forall>e \<in> set (Restart [] # demo_events). eventOk UNIV {} e" by (auto simp: demo_events_def envAddresses_def TrimSpace_def)
  have run: "(case pluginRun demo_plugins (Restart [] # demo_events) ?st0 of None \<Rightarrow> False | Some st \<Rightarrow>
      Lookup ''echo'' (pn_registry st) = Inl (ErrNodeNotFound ''echo'') \<and> map pl_Address (t_plugins (tables (pn_db st))) = [''a:1''] \<and> pn_dialed st = [''a:1'', ''b:1''])"
    by code_simp
  from plugins_stay_backed[OF env rows evs] obtain st where st: "pluginRun demo_plugins (Restart [] # demo_events) ?st0 = Some st"
      "\<forall>h \<in> set (pe_early demo_plugins @ pe_late demo_plugins). Lookup (node_key h) (pn_registry st) = Inr h"
      "mset [0..<length (pn_dialed st)] = node_held (pn_registry st) + mset (nr_closed (pn_registry st)) + mset (pn_dropped st)" by blast
  moreover from st(2) have "Lookup ''merge'' (pn_registry st) = Inr (demo_node ''merge'')" "Lookup ''rag_ingest'' (pn_registry st) = Inr (demo_node ''rag_ingest'')"
    by (simp_all add: demo_plugins_def keys)
  moreover have two: "mset [0..<length [''a:1'', ''b:1'']] = {#0, 1#}" by (simp add: upt_rec del: mset_upt)
  moreover have "pn_dialed st = [''a:1'', ''b:1'']" "Lookup ''echo'' (pn_registry st) = Inl (ErrNodeNotFound ''echo'')" "map pl_Address (t_plugins (tables (pn_db st))) = [''a:1'']"
    using run unfolding st(1) by simp_all
  ultimately show ?thesis by metis
qed

end
