(* ===== verification/Grader_Plugins.thy ===== *)
theory Grader_Plugins
  imports Plugin_Props
begin

text \<open>
  Out-of-process grader plugins: their rows (\<open>internal/store/mysql/grader_plugin_store.go\<close>), the registrar
  (\<open>internal/eval/grader_plugin/registrar.go\<close>) and the admin endpoints (\<open>internal/api/grader_plugin_admin_handler.go\<close>). They differ from those of node
  plugins in what they do when the database fails: an update that cannot be saved leaves the new connection live, and deregistering deletes
  the row first.
\<close>

section \<open>Rows\<close>

definition rowToGraderReg :: "sql \<Rightarrow> grader_registration \<Rightarrow> grader_registration" where
  "rowToGraderReg q r = r\<lparr>gl_ConfigSchema := sql_json q (gl_ConfigSchema r)\<rparr>"

definition keepGrader :: "grader_registration \<Rightarrow> grader_registration \<Rightarrow> grader_registration" where
  "keepGrader old new = new\<lparr> gl_TypeID := gl_TypeID old, gl_RegisteredAt := gl_RegisteredAt old \<rparr>"

definition SaveGraderRegistration :: "sql \<Rightarrow> int \<Rightarrow> grader_registration \<Rightarrow> (plugin_tables, unit) dbm" where
  "SaveGraderRegistration q now reg =
     exec q (\<lambda>t. Inr ((), t\<lparr>t_graders := upsertRow q gl_TypeID keepGrader (reg\<lparr>gl_RegisteredAt := now\<rparr>) (t_graders t)\<rparr>))"

definition GetGraderRegistration :: "sql \<Rightarrow> string \<Rightarrow> (plugin_tables, grader_registration) dbm" where
  "GetGraderRegistration q typeID =
     andThen (query q (\<lambda>t. firstRow (\<lambda>r. sql_eq q (gl_TypeID r) typeID) (t_graders t))) (\<lambda>row. give (rowToGraderReg q row))"

definition ListGraderRegistrations :: "sql \<Rightarrow> (plugin_tables, grader_registration list) dbm" where
  "ListGraderRegistrations q = query q (\<lambda>t. Inr (map (rowToGraderReg q) (sort_key gl_RegisteredAt (t_graders t))))"

definition DeleteGraderRegistration :: "sql \<Rightarrow> string \<Rightarrow> (plugin_tables, unit) dbm" where
  "DeleteGraderRegistration q typeID =
     andThen (exec q (\<lambda>t. Inr (length (filter (\<lambda>r. sql_eq q (gl_TypeID r) typeID) (t_graders t)),
                               t\<lparr>t_graders := deleteRows (\<lambda>r. sql_eq q (gl_TypeID r) typeID) (t_graders t)\<rparr>)))
       (\<lambda>n. if n = 0 then fail ErrNotFound else give ())"

section \<open>The registrar\<close>

record grader_meta_response =
  gmr_TypeId :: string
  gmr_DisplayName :: string
  gmr_Description :: string
  gmr_ConfigSchema :: string

record grader_rpc =
  grpc_NewClient :: "string \<Rightarrow> bool"
  grpc_Meta :: "nat \<Rightarrow> string \<Rightarrow> grader_meta_response option"
  grpc_validJSON :: "string \<Rightarrow> bool"

datatype grader_registrar_error = GraderDialFault | GraderMetaFault | GraderInvalidMeta | GraderTypeIDMismatch | FromGraderRegistry grader_reg_error

record grader_state =
  gn_db :: "plugin_tables db"
  gn_registry :: grader_registry
  gn_dialed :: "string list"
  gn_dropped :: "nat list"

definition grader_protoToMeta :: "grader_rpc \<Rightarrow> grader_meta_response \<Rightarrow> grader_meta option" where
  "grader_protoToMeta L r =
     (if gmr_TypeId r = [] then None
      else let configSchema = (if gmr_ConfigSchema r = [] then ''{}'' else gmr_ConfigSchema r)
           in if \<not> grpc_validJSON L configSchema then None
              else Some \<lparr> gm_TypeID = gmr_TypeId r, gm_DisplayName = gmr_DisplayName r, gm_Description = gmr_Description r, gm_ConfigSchema = configSchema \<rparr>)"

definition graderRegistrationOf :: "grader_meta \<Rightarrow> string \<Rightarrow> grader_registration" where
  "graderRegistrationOf meta addr =
     \<lparr> gl_TypeID = gm_TypeID meta, gl_Address = addr, gl_DisplayName = gm_DisplayName meta, gl_Description = gm_Description meta,
       gl_ConfigSchema = gm_ConfigSchema meta, gl_RegisteredAt = 0 \<rparr>"

definition abandon :: "nat \<Rightarrow> grader_state \<Rightarrow> grader_state" where
  "abandon conn st = st\<lparr>gn_dropped := gn_dropped st @ [conn]\<rparr>"

definition grader_dialAndRegister ::
  "grader_rpc \<Rightarrow> string \<Rightarrow> string \<Rightarrow> (grpc_proxy \<Rightarrow> grader_registry \<Rightarrow> grader_reg_error + grader_registry) \<Rightarrow> grader_state \<Rightarrow>
   (grader_registrar_error + grader_registration) \<times> grader_state" where
  "grader_dialAndRegister L addr expectedTypeID register st =
     (if \<not> grpc_NewClient L addr then (Inl GraderDialFault, st)
      else
        (let conn = length (gn_dialed st); st1 = st\<lparr>gn_dialed := gn_dialed st @ [addr]\<rparr>
         in case grpc_Meta L conn addr of
              None \<Rightarrow> (Inl GraderMetaFault, abandon conn st1)
            | Some resp \<Rightarrow>
                (case grader_protoToMeta L resp of
                   None \<Rightarrow> (Inl GraderInvalidMeta, abandon conn st1)
                 | Some meta \<Rightarrow>
                     (if expectedTypeID \<noteq> [] \<and> gm_TypeID meta \<noteq> expectedTypeID then (Inl GraderTypeIDMismatch, abandon conn st1)
                      else case register \<lparr> gp_meta = meta, gp_ident = conn \<rparr> (gn_registry st1) of
                             Inl e \<Rightarrow> (Inl (FromGraderRegistry e), abandon conn st1)
                           | Inr r \<Rightarrow> (Inr (graderRegistrationOf meta addr), st1\<lparr>gn_registry := r\<rparr>)))))"

definition grader_RegisterOne :: "grader_rpc \<Rightarrow> string \<Rightarrow> grader_state \<Rightarrow> (grader_registrar_error + grader_registration) \<times> grader_state" where
  "grader_RegisterOne L addr = grader_dialAndRegister L addr [] GraderRegister"

definition grader_UpdateOne :: "grader_rpc \<Rightarrow> string \<Rightarrow> string \<Rightarrow> grader_state \<Rightarrow> (grader_registrar_error + grader_registration) \<times> grader_state" where
  "grader_UpdateOne L typeID newAddr = grader_dialAndRegister L newAddr typeID (\<lambda>p r. Inr (GraderReplace p r))"

definition grader_loadStored :: "grader_rpc \<Rightarrow> grader_registration \<Rightarrow> grader_state \<Rightarrow> grader_state" where
  "grader_loadStored L reg st =
     (if \<not> grpc_NewClient L (gl_Address reg) then st
      else
        (let conn = length (gn_dialed st); st1 = st\<lparr>gn_dialed := gn_dialed st @ [gl_Address reg]\<rparr>
         in case grpc_Meta L conn (gl_Address reg) of
              None \<Rightarrow> abandon conn st1
            | Some resp \<Rightarrow>
                (if gmr_TypeId resp \<noteq> gl_TypeID reg then abandon conn st1
                 else case GraderRegister \<lparr> gp_meta = \<lparr> gm_TypeID = gl_TypeID reg, gm_DisplayName = gl_DisplayName reg, gm_Description = gl_Description reg,
                                              gm_ConfigSchema = gl_ConfigSchema reg \<rparr>, gp_ident = conn \<rparr> (gn_registry st1) of
                        Inl e \<Rightarrow> abandon conn st1
                      | Inr r \<Rightarrow> st1\<lparr>gn_registry := r\<rparr>)))"

definition grader_LoadFromStore :: "sql \<Rightarrow> grader_rpc \<Rightarrow> (grader_registration list \<Rightarrow> grader_registration list) \<Rightarrow> grader_state \<Rightarrow> grader_state" where
  "grader_LoadFromStore q L sched st =
     (case ListGraderRegistrations q (gn_db st) of
        (Inl _, d) \<Rightarrow> st\<lparr>gn_db := d\<rparr>
      | (Inr regs, d) \<Rightarrow> fold (grader_loadStored L) (sched regs) (st\<lparr>gn_db := d\<rparr>))"

section \<open>The admin endpoints\<close>

record grader_env =
  ge_sql :: sql
  ge_now :: "nat \<Rightarrow> int"
  ge_rpc :: grader_rpc
  ge_sched :: "grader_registration list \<Rightarrow> grader_registration list"

datatype grader_answer = GraderRegs "grader_registration list" | GraderJSON nat grader_registration | GraderNoContent | GraderError nat string

abbreviation graderInvalid :: grader_answer where
  "graderInvalid \<equiv> GraderError 400 ''VALIDATION_FAILED''"

abbreviation graderInternal :: grader_answer where
  "graderInternal \<equiv> GraderError 500 ''INTERNAL_ERROR''"

definition graderMissing :: "store_error \<Rightarrow> grader_answer" where
  "graderMissing e = (if e = ErrNotFound then GraderError 404 ''NOT_FOUND'' else graderInternal)"

definition dropGrader :: "string \<Rightarrow> grader_registry \<Rightarrow> grader_registry" where
  "dropGrader typeID r = (case GraderUnregister typeID r of Inl _ \<Rightarrow> r | Inr r' \<Rightarrow> r')"

definition grader_list :: "grader_env \<Rightarrow> grader_state \<Rightarrow> grader_answer \<times> grader_state" where
  "grader_list P st =
     (case ListGraderRegistrations (ge_sql P) (gn_db st) of
        (Inl _, d) \<Rightarrow> (graderInternal, st\<lparr>gn_db := d\<rparr>)
      | (Inr regs, d) \<Rightarrow> (GraderRegs regs, st\<lparr>gn_db := d\<rparr>))"

definition saveGrader :: "grader_env \<Rightarrow> grader_registration \<Rightarrow> grader_state \<Rightarrow> (store_error + unit) \<times> plugin_tables db" where
  "saveGrader P reg st = SaveGraderRegistration (ge_sql P) (ge_now P (clock (gn_db st))) reg (gn_db st)"

definition grader_register :: "grader_env \<Rightarrow> string option \<Rightarrow> grader_state \<Rightarrow> grader_answer \<times> grader_state" where
  "grader_register P reqBody st =
     (case reqBody of
        None \<Rightarrow> (graderInvalid, st)
      | Some address \<Rightarrow>
          (if address = [] then (graderInvalid, st)
           else case grader_RegisterOne (ge_rpc P) address st of
                  (Inl (FromGraderRegistry (ErrGraderAlreadyRegistered _)), st1) \<Rightarrow> (GraderError 409 ''GRADER_ALREADY_REGISTERED'', st1)
                | (Inl _, st1) \<Rightarrow> (GraderError 502 ''GRADER_UNAVAILABLE'', st1)
                | (Inr reg, st1) \<Rightarrow>
                    (case saveGrader P reg st1 of
                       (Inl _, d) \<Rightarrow> (graderInternal, st1\<lparr> gn_db := d, gn_registry := dropGrader (gl_TypeID reg) (gn_registry st1) \<rparr>)
                     | (Inr _, d) \<Rightarrow> (GraderJSON 201 reg, st1\<lparr>gn_db := d\<rparr>))))"

definition grader_update :: "grader_env \<Rightarrow> string \<Rightarrow> string option \<Rightarrow> grader_state \<Rightarrow> grader_answer \<times> grader_state" where
  "grader_update P typeID reqBody st =
     (case GetGraderRegistration (ge_sql P) typeID (gn_db st) of
        (Inl e, d) \<Rightarrow> (graderMissing e, st\<lparr>gn_db := d\<rparr>)
      | (Inr _, d) \<Rightarrow>
          (case reqBody of
             None \<Rightarrow> (graderInvalid, st\<lparr>gn_db := d\<rparr>)
           | Some address \<Rightarrow>
               (if address = [] then (graderInvalid, st\<lparr>gn_db := d\<rparr>)
                else case grader_UpdateOne (ge_rpc P) typeID address (st\<lparr>gn_db := d\<rparr>) of
                       (Inl GraderTypeIDMismatch, st1) \<Rightarrow> (GraderError 422 ''TYPE_ID_MISMATCH'', st1)
                     | (Inl _, st1) \<Rightarrow> (GraderError 502 ''GRADER_UNAVAILABLE'', st1)
                     | (Inr reg, st1) \<Rightarrow>
                         (case saveGrader P reg st1 of
                            (Inl _, d') \<Rightarrow> (graderInternal, st1\<lparr>gn_db := d'\<rparr>)
                          | (Inr _, d') \<Rightarrow> (GraderJSON 200 reg, st1\<lparr>gn_db := d'\<rparr>)))))"

definition grader_deregister :: "grader_env \<Rightarrow> string \<Rightarrow> grader_state \<Rightarrow> grader_answer \<times> grader_state" where
  "grader_deregister P typeID st =
     (case GetGraderRegistration (ge_sql P) typeID (gn_db st) of
        (Inl e, d) \<Rightarrow> (graderMissing e, st\<lparr>gn_db := d\<rparr>)
      | (Inr _, d) \<Rightarrow>
          (case DeleteGraderRegistration (ge_sql P) typeID d of
             (res, d') \<Rightarrow>
               (if res \<noteq> Inr () \<and> res \<noteq> Inl ErrNotFound then (graderInternal, st\<lparr>gn_db := d'\<rparr>)
                else case GraderUnregister typeID (gn_registry st) of
                       Inl (ErrGraderAlreadyRegistered _) \<Rightarrow> (graderInternal, st\<lparr>gn_db := d'\<rparr>)
                     | _ \<Rightarrow> (GraderNoContent, st\<lparr> gn_db := d', gn_registry := dropGrader typeID (gn_registry st) \<rparr>))))"

datatype grader_request = GetGraders | PostGrader "string option" | PutGrader string "string option" | DeleteGrader string

fun graderHandle :: "grader_env \<Rightarrow> grader_request \<Rightarrow> grader_state \<Rightarrow> grader_answer \<times> grader_state" where
  "graderHandle P GetGraders = grader_list P"
| "graderHandle P (PostGrader b) = grader_register P b"
| "graderHandle P (PutGrader i b) = grader_update P i b"
| "graderHandle P (DeleteGrader i) = grader_deregister P i"

definition serveGraders :: "grader_env \<Rightarrow> gate \<Rightarrow> string \<Rightarrow> grader_request \<Rightarrow> grader_state \<Rightarrow> (guard_error + grader_answer) \<times> grader_state" where
  "serveGraders P G hdr rq st = mux_role G hdr systemAdmins (answer (\<lambda>_. graderHandle P rq)) st"

text \<open>A restart: the deferred \<open>Shutdown\<close> of the old process, then the stored plugins.\<close>

definition grader_restart :: "grader_env \<Rightarrow> grader_state \<Rightarrow> grader_state" where
  "grader_restart P st =
     grader_LoadFromStore (ge_sql P) (ge_rpc P) (ge_sched P)
       (st\<lparr> gn_registry := NewGraderRegistry, gn_dropped := gn_dropped st @ gr_closed (GraderShutdown (gn_registry st)) \<rparr>)"

end
