(* ===== verification/Grader_Plugin_Props.thy ===== *)
theory Grader_Plugin_Props
  imports Grader_Plugins
begin

text \<open>
  Grader plugins and their rows: the facts of the locale \<open>catalogue\<close> for the grader registry, request by request and over restarts.
\<close>

definition reported :: "sql \<Rightarrow> bool" where
  "reported q \<longleftrightarrow> (\<forall>n. sql_outcome q n \<noteq> DoneUnreported)"

text \<open>When no statement fails, a live grader has the address and the metadata of its row; otherwise it has at least a row of its type.\<close>

definition servesGrader :: "sql \<Rightarrow> string list \<Rightarrow> grpc_proxy \<Rightarrow> grader_registration \<Rightarrow> bool" where
  "servesGrader q ds p row \<longleftrightarrow> gp_ident p < length ds \<and> gm_TypeID (gp_meta p) = gl_TypeID row \<and>
     (reliable q \<longrightarrow> ds ! gp_ident p = gl_Address row \<and> gm_DisplayName (gp_meta p) = gl_DisplayName row \<and> gm_Description (gp_meta p) = gl_Description row \<and>
        gm_ConfigSchema (gp_meta p) \<in> {gl_ConfigSchema row, sql_json q (gl_ConfigSchema row)})"

interpretation graderPlugins: catalogue grader_key "\<lambda>p. {#gp_ident p#}" GraderGet GraderRegister GraderReplace GraderUnregister
  grader_held "\<lambda>r. mset (gr_closed r)" "\<lambda>r. wf_map (gr_entries r)" gl_TypeID "servesGrader q" "\<lambda>_ _. False"
  by unfold_locales (auto simp: servesGrader_def nth_append)

lemma quiet_dropGrader: "graderPlugins.quiet = dropGrader"
  by (rule ext)+ (simp add: graderPlugins.quiet_def dropGrader_def)

definition graderEnv :: "grader_env \<Rightarrow> string set \<Rightarrow> bool" where
  "graderEnv P S \<longleftrightarrow> reported (ge_sql P) \<and> inj_on (sql_key (ge_sql P)) S \<and> (\<forall>n a resp. grpc_Meta (ge_rpc P) n a = Some resp \<longrightarrow> gmr_TypeId resp \<in> S) \<and>
     (\<forall>regs. mset (ge_sched P regs) = mset regs)"

definition graderRows :: "string set \<Rightarrow> grader_registration list \<Rightarrow> bool" where
  "graderRows S rows \<longleftrightarrow> (\<forall>row \<in> set rows. gl_TypeID row \<in> S \<and> gl_TypeID row \<noteq> [])"

definition gradersOk :: "grader_env \<Rightarrow> string set \<Rightarrow> grader_state \<Rightarrow> bool" where
  "gradersOk P S st \<longleftrightarrow>
     graderPlugins.backed (ge_sql P) Map.empty (gn_dialed st) (t_graders (tables (gn_db st))) (gn_registry st) \<and>
     graderPlugins.accounted (gn_dialed st) (gn_dropped st) (gn_registry st) \<and> graderRows S (t_graders (tables (gn_db st)))"

lemma gradersOk_good: "gradersOk P S st \<Longrightarrow> wf_map (gr_entries (gn_registry st))"
  by (simp add: gradersOk_def graderPlugins.backed_def)

lemma gradersOk_same: "gradersOk P S st \<Longrightarrow> tables d = tables (gn_db st) \<Longrightarrow> gradersOk P S (st\<lparr>gn_db := d\<rparr>)"
  by (simp add: gradersOk_def)

lemma abandon_ok: "gradersOk P S st \<Longrightarrow> gradersOk P S (abandon (length (gn_dialed st)) (st\<lparr>gn_dialed := gn_dialed st @ [addr]\<rparr>))"
  by (simp add: gradersOk_def abandon_def graderPlugins.backed_dial graderPlugins.accounted_giveUp)

section \<open>Rows\<close>

lemma SaveGrader_cases:
  assumes "SaveGraderRegistration q now reg d = (res, d')" "reported q"
  shows "res = Inr () \<and> t_graders (tables d') = upsertRow q gl_TypeID keepGrader (reg\<lparr>gl_RegisteredAt := now\<rparr>) (t_graders (tables d)) \<or>
    isl res \<and> tables d' = tables d \<and> \<not> reliable q"
  using assms by (cases "sql_outcome q (clock d)") (auto simp: SaveGraderRegistration_def exec_def reported_def reliable_def)

lemma GetGrader_cases:
  assumes "GetGraderRegistration q i d = (res, d')"
  shows "tables d' = tables d" "res = Inr x \<Longrightarrow> \<exists>row \<in> set (t_graders (tables d)). sql_eq q (gl_TypeID row) i"
  using assms by (auto simp: GetGraderRegistration_def andThen_def query_def give_def find_Some_iff split: prod.splits sum.splits if_splits option.splits)

lemma ListGraders_tables: "ListGraderRegistrations q d = (res, d') \<Longrightarrow> tables d' = tables d"
  by (auto simp: ListGraderRegistrations_def query_def)

lemma DeleteGrader_cases:
  assumes "DeleteGraderRegistration q i d = (res, d')" "reported q"
  shows "tables d' = tables d \<and> res = Inl SqlFault \<or> t_graders (tables d') = deleteRows (\<lambda>r. sql_eq q (gl_TypeID r) i) (t_graders (tables d)) \<and> (res = Inr () \<or> res = Inl ErrNotFound)"
  using assms by (cases "sql_outcome q (clock d)") (auto simp: DeleteGraderRegistration_def andThen_def exec_def give_def fail_def reported_def split: if_splits)

lemma grader_row_id: "graderEnv P S \<Longrightarrow> graderRows S rows \<Longrightarrow> i \<in> S \<Longrightarrow> row \<in> set rows \<Longrightarrow> sql_eq (ge_sql P) (gl_TypeID row) i \<Longrightarrow> gl_TypeID row = i"
  by (auto simp: graderEnv_def graderRows_def sql_eq_def inj_on_def)

lemma saved_graders:
  fixes now :: int
  assumes env: "graderEnv P S" and ok: "graderRows S rows" and id: "gl_TypeID reg \<in> S" "gl_TypeID reg \<noteq> []"
  defines "rows' \<equiv> upsertRow (ge_sql P) gl_TypeID keepGrader (reg\<lparr>gl_RegisteredAt := now\<rparr>) rows"
  shows "graderRows S rows'" "row \<in> set rows \<Longrightarrow> gl_TypeID row \<noteq> gl_TypeID reg \<Longrightarrow> row \<in> set rows'"
    "\<exists>row \<in> set rows'. gl_TypeID row = gl_TypeID reg \<and> (\<forall>ds p. servesGrader q ds p row = servesGrader q ds p reg)"
proof -
  have "inj_on (sql_key (ge_sql P)) S" "gl_TypeID ` set rows \<subseteq> S" "gl_TypeID (reg\<lparr>gl_RegisteredAt := now\<rparr>) \<in> S" using env ok id by (auto simp: graderEnv_def graderRows_def)
  note up = upsertRow_cases[OF this, where merge = keepGrader, folded rows'_def, simplified]
  have k: "gl_TypeID (keepGrader r new) = gl_TypeID r" for r new by (simp add: keepGrader_def)
  show "row \<in> set rows \<Longrightarrow> gl_TypeID row \<noteq> gl_TypeID reg \<Longrightarrow> row \<in> set rows'" by (rule up(1)[OF k])
  show "graderRows S rows'" using up(3)[OF k] ok id by (fastforce simp: graderRows_def)
  show "\<exists>row \<in> set rows'. gl_TypeID row = gl_TypeID reg \<and> (\<forall>ds p. servesGrader q ds p row = servesGrader q ds p reg)"
    using up(2)[OF k] by (auto simp: servesGrader_def keepGrader_def)
qed

section \<open>Changes\<close>

text \<open>One entry and the rows of its key change.\<close>

lemma grader_changed:
  assumes ok: "gradersOk P S st" and r: "wf_map (gr_entries (gn_registry st'))" "graderPlugins.accounted (gn_dialed st') (gn_dropped st') (gn_registry st')"
      "\<And>j. j \<noteq> k \<Longrightarrow> GraderGet (gn_registry st') j = GraderGet (gn_registry st) j"
    and ds: "gn_dialed st' = gn_dialed st \<or> (\<exists>a. gn_dialed st' = gn_dialed st @ [a])"
    and rows: "\<And>row. row \<in> set (t_graders (tables (gn_db st))) \<Longrightarrow> gl_TypeID row \<noteq> k \<Longrightarrow> row \<in> set (t_graders (tables (gn_db st')))" "graderRows S (t_graders (tables (gn_db st')))"
    and new: "\<And>p. GraderGet (gn_registry st') k = Some p \<Longrightarrow> \<exists>row \<in> set (t_graders (tables (gn_db st'))). gl_TypeID row = k \<and> servesGrader (ge_sql P) (gn_dialed st') p row"
  shows "gradersOk P S st'"
proof -
  have "graderPlugins.backed (ge_sql P) Map.empty (gn_dialed st') (t_graders (tables (gn_db st'))) (gn_registry st')"
  proof (rule graderPlugins.backed_step[where k = k])
    show "graderPlugins.backed (ge_sql P) Map.empty (gn_dialed st) (t_graders (tables (gn_db st))) (gn_registry st)" using ok by (simp add: gradersOk_def)
  qed (use r ds rows(1) new in auto)
  with r(2) rows(2) show ?thesis by (simp add: gradersOk_def)
qed

text \<open>What a call of the registrar comes to.\<close>

lemma grader_dial_outcome:
  assumes "grader_dialAndRegister L addr expected register st = (res, st')"
  shows "isl res \<and> (st' = st \<or> st' = abandon (length (gn_dialed st)) (st\<lparr>gn_dialed := gn_dialed st @ [addr]\<rparr>)) \<or>
    (\<exists>resp meta r. grpc_Meta L (length (gn_dialed st)) addr = Some resp \<and> grader_protoToMeta L resp = Some meta \<and> (expected \<noteq> [] \<longrightarrow> gm_TypeID meta = expected) \<and>
      register \<lparr> gp_meta = meta, gp_ident = length (gn_dialed st) \<rparr> (gn_registry st) = Inr r \<and>
      st' = st\<lparr> gn_dialed := gn_dialed st @ [addr], gn_registry := r \<rparr> \<and> res = Inr (graderRegistrationOf meta addr))"
  using assms by (auto simp: grader_dialAndRegister_def Let_def split: if_splits option.splits sum.splits)

lemma reported_grader:
  "graderEnv P S \<Longrightarrow> grpc_Meta (ge_rpc P) n a = Some resp \<Longrightarrow> grader_protoToMeta (ge_rpc P) resp = Some meta \<Longrightarrow> gm_TypeID meta \<in> S \<and> gm_TypeID meta \<noteq> []"
  by (auto simp: graderEnv_def grader_protoToMeta_def Let_def split: if_splits)

text \<open>A new entry, and what saving its row leads to.\<close>

lemma entered_registry:
  assumes ok: "gradersOk P S st" and "gp_ident p = length (gn_dialed st)" and entered: "GraderRegister p (gn_registry st) = Inr r \<or> r = GraderReplace p (gn_registry st)"
  shows "wf_map (gr_entries r)" "GraderGet r = (GraderGet (gn_registry st))(grader_key p \<mapsto> p)" "graderPlugins.accounted (gn_dialed st @ [addr]) (gn_dropped st) r"
proof -
  have good: "wf_map (gr_entries (gn_registry st))" by (rule gradersOk_good[OF ok])
  from entered show "wf_map (gr_entries r)" "GraderGet r = (GraderGet (gn_registry st))(grader_key p \<mapsto> p)"
    using graderPlugins.addD(2,3)[OF good, of p r] graders.put_law[OF good, of p] by auto
  show "graderPlugins.accounted (gn_dialed st @ [addr]) (gn_dropped st) r"
    by (rule graderPlugins.accounted_add[OF good _ _ entered]) (use ok assms(2) in \<open>simp_all add: gradersOk_def\<close>)
qed

lemma saved_ok:
  assumes env: "graderEnv P S" and ok: "gradersOk P S st" and id: "gm_TypeID meta \<in> S" "gm_TypeID meta \<noteq> []"
    and st': "gn_dialed st' = gn_dialed st @ [addr]" "gn_dropped st' = gn_dropped st"
    and r: "wf_map (gr_entries (gn_registry st'))" "GraderGet (gn_registry st') = (GraderGet (gn_registry st))(gm_TypeID meta \<mapsto> \<lparr> gp_meta = meta, gp_ident = length (gn_dialed st) \<rparr>)"
      "graderPlugins.accounted (gn_dialed st @ [addr]) (gn_dropped st) (gn_registry st')"
    and d: "t_graders (tables (gn_db st')) = upsertRow (ge_sql P) gl_TypeID keepGrader (graderRegistrationOf meta addr\<lparr>gl_RegisteredAt := now\<rparr>) (t_graders (tables (gn_db st)))"
  shows "gradersOk P S st'"
proof -
  let ?reg = "graderRegistrationOf meta addr"
  have reg: "gl_TypeID ?reg = gm_TypeID meta" by (simp add: graderRegistrationOf_def)
  have "graderRows S (t_graders (tables (gn_db st)))" using ok by (simp add: gradersOk_def)
  note saved = saved_graders[OF env this, of ?reg, unfolded reg, OF id, where now = now, folded d]
  have s: "servesGrader (ge_sql P) (gn_dialed st') \<lparr> gp_meta = meta, gp_ident = length (gn_dialed st) \<rparr> ?reg" by (simp add: servesGrader_def graderRegistrationOf_def st')
  show ?thesis
  proof (rule grader_changed[OF ok r(1), where k = "gm_TypeID meta"])
    show "\<exists>row \<in> set (t_graders (tables (gn_db st'))). gl_TypeID row = gm_TypeID meta \<and> servesGrader (ge_sql P) (gn_dialed st') p row"
      if "GraderGet (gn_registry st') (gm_TypeID meta) = Some p" for p
      using saved(3)[of "ge_sql P"] s that by (auto simp: r(2))
  qed (use r(2,3) st' saved(1,2) in auto)
qed

section \<open>Requests\<close>

lemma grader_register_ok:
  assumes env: "graderEnv P S" and ok: "gradersOk P S st"
  shows "gradersOk P S (snd (grader_register P b st))"
proof (cases "b = None \<or> b = Some []")
  case False
  then obtain addr where b: "b = Some addr" "addr \<noteq> []" by auto
  obtain res st1 where one: "grader_RegisterOne (ge_rpc P) addr st = (res, st1)" by fastforce
  from grader_dial_outcome[OF one[unfolded grader_RegisterOne_def]] show ?thesis
  proof (elim disjE exE conjE)
    fix resp meta r
    assume m: "grpc_Meta (ge_rpc P) (length (gn_dialed st)) addr = Some resp" "grader_protoToMeta (ge_rpc P) resp = Some meta"
      and r: "GraderRegister \<lparr> gp_meta = meta, gp_ident = length (gn_dialed st) \<rparr> (gn_registry st) = Inr r"
      and st1: "st1 = st\<lparr> gn_dialed := gn_dialed st @ [addr], gn_registry := r \<rparr>" "res = Inr (graderRegistrationOf meta addr)"
    let ?k = "gm_TypeID meta" and ?reg = "graderRegistrationOf meta addr"
    have key: "grader_key \<lparr> gp_meta = meta, gp_ident = length (gn_dialed st) \<rparr> = ?k" "gl_TypeID ?reg = ?k" by (simp_all add: grader_key_def graderRegistrationOf_def)
    note e = entered_registry[OF ok _ disjI1[OF r], unfolded key, simplified]
    obtain saved d where save: "saveGrader P ?reg st1 = (saved, d)" by fastforce
    have rep: "reported (ge_sql P)" using env by (simp add: graderEnv_def)
    from SaveGrader_cases[OF save[unfolded saveGrader_def] rep] show ?thesis
    proof (elim disjE conjE)
      assume s: "saved = Inr ()" and d: "t_graders (tables d) = upsertRow (ge_sql P) gl_TypeID keepGrader (?reg\<lparr>gl_RegisteredAt := ge_now P (clock (gn_db st1))\<rparr>) (t_graders (tables (gn_db st1)))"
      have "gradersOk P S (st1\<lparr>gn_db := d\<rparr>)"
        by (rule saved_ok[OF env ok, where meta = meta and addr = addr]) (use reported_grader[OF env m] e d in \<open>auto simp: st1(1)\<close>)
      with s st1 b one save show ?thesis by (simp add: grader_register_def)
    next
      assume f: "isl saved" "tables d = tables (gn_db st1)"
      note q = graderPlugins.quiet_law[OF e(1), of ?k, unfolded quiet_dropGrader]
      have "graderPlugins.accounted (gn_dialed st @ [addr]) (gn_dropped st) (dropGrader ?k r)" using graderPlugins.accounted_quiet[OF e(1), unfolded quiet_dropGrader] e(3) by simp
      then have "gradersOk P S (st1\<lparr> gn_db := d, gn_registry := dropGrader ?k r \<rparr>)"
        by (intro grader_changed[OF ok, where k = ?k]) (use q e(2) f(2) ok in \<open>auto simp: gradersOk_def st1(1)\<close>)
      with f(1) st1 b one save key(2) show ?thesis by (cases saved) (simp_all add: grader_register_def)
    qed
  qed (use b one ok abandon_ok[OF ok] in \<open>auto simp: grader_register_def split: grader_registrar_error.split grader_reg_error.split sum.split\<close>)
qed (use ok in \<open>auto simp: grader_register_def\<close>)

lemma grader_update_ok:
  assumes env: "graderEnv P S" and ok: "gradersOk P S st" and "i \<in> S"
  shows "gradersOk P S (snd (grader_update P i b st))"
proof -
  obtain got d where get: "GetGraderRegistration (ge_sql P) i (gn_db st) = (got, d)" by fastforce
  let ?st0 = "st\<lparr>gn_db := d\<rparr>" and ?rows = "t_graders (tables (gn_db st))"
  have same: "gradersOk P S ?st0" by (rule gradersOk_same[OF ok GetGrader_cases(1)[OF get]])
  show ?thesis
  proof (cases "isl got \<or> b = None \<or> b = Some []")
    case False
    then obtain x addr where b: "b = Some addr" "addr \<noteq> []" "got = Inr x" by (cases got) auto
    have rows: "graderRows S ?rows" using ok by (simp add: gradersOk_def)
    from GetGrader_cases(2)[OF get b(3)] obtain row where row: "row \<in> set ?rows" "gl_TypeID row = i" using grader_row_id[OF env rows assms(3)] by blast
    with rows have i: "i \<noteq> []" by (auto simp: graderRows_def)
    obtain res st1 where one: "grader_UpdateOne (ge_rpc P) i addr ?st0 = (res, st1)" by fastforce
    from grader_dial_outcome[OF one[unfolded grader_UpdateOne_def]] show ?thesis
    proof (elim disjE exE conjE)
      fix resp meta r
      assume m: "grpc_Meta (ge_rpc P) (length (gn_dialed ?st0)) addr = Some resp" "grader_protoToMeta (ge_rpc P) resp = Some meta" and id: "i \<noteq> [] \<longrightarrow> gm_TypeID meta = i"
        and r: "Inr (GraderReplace \<lparr> gp_meta = meta, gp_ident = length (gn_dialed ?st0) \<rparr> (gn_registry ?st0)) = Inr r"
        and st1: "st1 = ?st0\<lparr> gn_dialed := gn_dialed ?st0 @ [addr], gn_registry := r \<rparr>" "res = Inr (graderRegistrationOf meta addr)"
      let ?p = "\<lparr> gp_meta = meta, gp_ident = length (gn_dialed ?st0) \<rparr>"
      have key: "grader_key ?p = gm_TypeID meta" by (simp add: grader_key_def)
      from r have r: "r = GraderReplace ?p (gn_registry ?st0)" by simp
      from id i have id: "gm_TypeID meta = i" by simp
      note e = entered_registry[OF same _ disjI2[OF r], unfolded key, simplified]
      obtain saved d' where save: "saveGrader P (graderRegistrationOf meta addr) st1 = (saved, d')" by fastforce
      have rep: "reported (ge_sql P)" using env by (simp add: graderEnv_def)
      have "gradersOk P S (st1\<lparr>gn_db := d'\<rparr>)"
        using SaveGrader_cases[OF save[unfolded saveGrader_def] rep]
      proof (elim disjE conjE)
        assume d': "t_graders (tables d') = upsertRow (ge_sql P) gl_TypeID keepGrader (graderRegistrationOf meta addr\<lparr>gl_RegisteredAt := ge_now P (clock (gn_db st1))\<rparr>) (t_graders (tables (gn_db st1)))"
        show ?thesis by (rule saved_ok[OF env same, where meta = meta and addr = addr]) (use reported_grader[OF env m] e d' in \<open>auto simp: st1(1)\<close>)
      next
        assume f: "tables d' = tables (gn_db st1)" "\<not> reliable (ge_sql P)"
        with st1(1) GetGrader_cases(1)[OF get] have t: "t_graders (tables d') = ?rows" by simp
        have "servesGrader (ge_sql P) (gn_dialed st @ [addr]) ?p row" using f(2) row(2) id by (simp add: servesGrader_def)
        then show ?thesis by (intro grader_changed[OF ok, where k = i]) (use e t rows row id in \<open>auto simp: st1(1)\<close>)
      qed
      with b get one st1 save show ?thesis by (cases saved) (simp_all add: grader_update_def)
    qed (use b get one same abandon_ok[OF same] i in \<open>auto simp: grader_update_def split: grader_registrar_error.split sum.split\<close>)
  qed (use same get in \<open>auto simp: grader_update_def split: option.split sum.split\<close>)
qed

lemma grader_deregister_ok:
  assumes env: "graderEnv P S" and ok: "gradersOk P S st" and "i \<in> S"
  shows "gradersOk P S (snd (grader_deregister P i st))"
proof -
  obtain got d where get: "GetGraderRegistration (ge_sql P) i (gn_db st) = (got, d)" by fastforce
  have same: "gradersOk P S (st\<lparr>gn_db := d\<rparr>)" by (rule gradersOk_same[OF ok GetGrader_cases(1)[OF get]])
  obtain res d' where del: "DeleteGraderRegistration (ge_sql P) i d = (res, d')" by fastforce
  have rep: "reported (ge_sql P)" using env by (simp add: graderEnv_def)
  let ?rows = "t_graders (tables (gn_db st))"
  note cases = DeleteGrader_cases[OF del rep, unfolded GetGrader_cases(1)[OF get]]
  show ?thesis
  proof (cases "isl got \<or> res = Inl SqlFault")
    case True
    with cases have "isl got \<or> tables d' = tables (gn_db st) \<and> res = Inl SqlFault" by auto
    with same get del gradersOk_same[OF ok, of d'] show ?thesis by (cases got) (auto simp: grader_deregister_def)
  next
    case False
    have rows: "graderRows S ?rows" using ok by (simp add: gradersOk_def)
    from False cases have d': "t_graders (tables d') = deleteRows (\<lambda>r. sql_eq (ge_sql P) (gl_TypeID r) i) ?rows" "res = Inr () \<or> res = Inl ErrNotFound" by auto
    have keep: "r \<in> set (t_graders (tables d'))" if "r \<in> set ?rows" "gl_TypeID r \<noteq> i" for r
      using that grader_row_id[OF env rows assms(3) that(1)] by (auto simp: d'(1) deleteRows_def)
    have rows': "graderRows S (t_graders (tables d'))" using rows by (auto simp: d'(1) graderRows_def deleteRows_def)
    note good = gradersOk_good[OF ok]
    note q = graderPlugins.quiet_law[OF good, of i, unfolded quiet_dropGrader]
    have "graderPlugins.accounted (gn_dialed st) (gn_dropped st) (dropGrader i (gn_registry st))"
      using graderPlugins.accounted_quiet[OF good, unfolded quiet_dropGrader] ok by (simp add: gradersOk_def)
    then have ok': "gradersOk P S (st\<lparr> gn_db := d', gn_registry := dropGrader i (gn_registry st) \<rparr>)"
      by (intro grader_changed[OF ok, where k = i]) (use q keep rows' in auto)
    have "GraderUnregister i (gn_registry st) \<noteq> Inl (ErrGraderAlreadyRegistered j)" for j by (simp add: GraderUnregister_def split: option.split)
    with ok' False d'(2) get del show ?thesis
      by (cases got; cases "GraderUnregister i (gn_registry st)") (auto simp: grader_deregister_def split: grader_reg_error.split)
  qed
qed

section \<open>Restarts\<close>

lemma grader_load_outcome:
  fixes reg st
  defines "p \<equiv> \<lparr> gp_meta = \<lparr> gm_TypeID = gl_TypeID reg, gm_DisplayName = gl_DisplayName reg, gm_Description = gl_Description reg, gm_ConfigSchema = gl_ConfigSchema reg \<rparr>,
      gp_ident = length (gn_dialed st) \<rparr>"
  shows "grader_loadStored L reg st \<in> {st, abandon (length (gn_dialed st)) (st\<lparr>gn_dialed := gn_dialed st @ [gl_Address reg]\<rparr>)} \<or>
    (\<exists>r. GraderRegister p (gn_registry st) = Inr r \<and> grader_loadStored L reg st = st\<lparr> gn_dialed := gn_dialed st @ [gl_Address reg], gn_registry := r \<rparr>)"
  by (auto simp: grader_loadStored_def p_def Let_def split: option.split sum.split)

lemma grader_load_ok:
  assumes ok: "gradersOk P S st" and row: "row \<in> set (t_graders (tables (gn_db st)))"
  shows "gradersOk P S (grader_loadStored L (rowToGraderReg (ge_sql P) row) st) \<and> gn_db (grader_loadStored L (rowToGraderReg (ge_sql P) row) st) = gn_db st"
proof -
  let ?reg = "rowToGraderReg (ge_sql P) row"
  let ?p = "\<lparr> gp_meta = \<lparr> gm_TypeID = gl_TypeID ?reg, gm_DisplayName = gl_DisplayName ?reg, gm_Description = gl_Description ?reg, gm_ConfigSchema = gl_ConfigSchema ?reg \<rparr>,
      gp_ident = length (gn_dialed st) \<rparr>"
  from grader_load_outcome[of L ?reg st] show ?thesis
  proof (elim disjE exE conjE)
    fix r assume r: "GraderRegister ?p (gn_registry st) = Inr r" "grader_loadStored L ?reg st = st\<lparr> gn_dialed := gn_dialed st @ [gl_Address ?reg], gn_registry := r \<rparr>"
    have key: "grader_key ?p = gl_TypeID row" by (simp add: grader_key_def rowToGraderReg_def)
    note e = entered_registry[OF ok _ disjI1[OF r(1)], unfolded key, simplified]
    have "servesGrader (ge_sql P) (gn_dialed st @ [gl_Address ?reg]) ?p row" by (simp add: servesGrader_def rowToGraderReg_def)
    then have "gradersOk P S (st\<lparr> gn_dialed := gn_dialed st @ [gl_Address ?reg], gn_registry := r \<rparr>)"
      by (intro grader_changed[OF ok, where k = "gl_TypeID row"]) (use e ok row in \<open>auto simp: gradersOk_def\<close>)
    with r(2) show ?thesis by simp
  qed (use ok abandon_ok[OF ok] in \<open>auto simp: abandon_def\<close>)
qed

lemma grader_loads_ok:
  assumes "gradersOk P S st" "set regs \<subseteq> rowToGraderReg (ge_sql P) ` set (t_graders (tables (gn_db st)))"
  shows "gradersOk P S (fold (grader_loadStored L) regs st)"
  using assms
proof (induction regs arbitrary: st)
  case (Cons reg regs)
  then obtain row where "reg = rowToGraderReg (ge_sql P) row" "row \<in> set (t_graders (tables (gn_db st)))" by auto
  with grader_load_ok[OF Cons.prems(1)] have "gradersOk P S (grader_loadStored L reg st)" "gn_db (grader_loadStored L reg st) = gn_db st" by auto
  with Cons.IH[of "grader_loadStored L reg st"] Cons.prems(2) show ?case by simp
qed simp

lemma GraderShutdown_closes: "mset (gr_closed (GraderShutdown r)) = mset (gr_closed r) + grader_held r"
proof -
  have "mset (gr_closed (fold (\<lambda>(k, p). closeProxy p) es r)) = mset (gr_closed r) + entry_sum (\<lambda>p. {#gp_ident p#}) es" for es
    by (induction es arbitrary: r) (auto simp: closeProxy_def)
  then show ?thesis by (simp add: GraderShutdown_def held_entry_sum)
qed

lemma grader_restart_ok:
  assumes env: "graderEnv P S" and "graderRows S (t_graders (tables (gn_db st)))" "graderPlugins.accounted (gn_dialed st) (gn_dropped st) (gn_registry st)"
  shows "gradersOk P S (grader_restart P st)"
proof -
  let ?st0 = "st\<lparr> gn_registry := NewGraderRegistry, gn_dropped := gn_dropped st @ gr_closed (GraderShutdown (gn_registry st)) \<rparr>"
  have ok: "gradersOk P S ?st0" using assms(2,3)
    by (simp add: gradersOk_def graderPlugins.backed_def graderPlugins.accounted_def NewGraderRegistry_def GraderGet_def grader_held_def GraderShutdown_closes ac_simps)
  obtain res d where ls: "ListGraderRegistrations (ge_sql P) (gn_db ?st0) = (res, d)" by fastforce
  have same: "gradersOk P S (?st0\<lparr>gn_db := d\<rparr>)" by (rule gradersOk_same[OF ok ListGraders_tables[OF ls]])
  show ?thesis
  proof (cases res)
    case (Inr regs)
    with ls have "set regs = rowToGraderReg (ge_sql P) ` set (t_graders (tables d))" by (auto simp: ListGraderRegistrations_def query_def split: if_splits)
    moreover have "set (ge_sched P regs) = set regs" using env by (metis graderEnv_def mset_eq_setD)
    ultimately have "gradersOk P S (fold (grader_loadStored (ge_rpc P)) (ge_sched P regs) (?st0\<lparr>gn_db := d\<rparr>))" using grader_loads_ok[OF same] by simp
    with ls Inr show ?thesis by (simp add: grader_restart_def grader_LoadFromStore_def)
  qed (use ls same in \<open>simp add: grader_restart_def grader_LoadFromStore_def\<close>)
qed

section \<open>The life of a server\<close>

datatype grader_event = ServeGrader gate string grader_request | RestartGraders

fun graderRun :: "grader_env \<Rightarrow> grader_event list \<Rightarrow> grader_state \<Rightarrow> grader_state" where
  "graderRun P [] st = st"
| "graderRun P (ServeGrader G hdr rq # es) st = graderRun P es (snd (serveGraders P G hdr rq st))"
| "graderRun P (RestartGraders # es) st = graderRun P es (grader_restart P st)"

fun graderNames :: "grader_event \<Rightarrow> string set" where
  "graderNames (ServeGrader G hdr (PutGrader i b)) = {i}"
| "graderNames (ServeGrader G hdr (DeleteGrader i)) = {i}"
| "graderNames _ = {}"

lemma serveGraders_ok:
  assumes "graderEnv P S" "gradersOk P S st" "graderNames (ServeGrader G hdr rq) \<subseteq> S"
  shows "gradersOk P S (snd (serveGraders P G hdr rq st))"
proof -
  obtain res d where ls: "ListGraderRegistrations (ge_sql P) (gn_db st) = (res, d)" by fastforce
  then have "snd (grader_list P st) = st\<lparr>gn_db := d\<rparr>" by (auto simp: grader_list_def split: sum.split)
  then have "gradersOk P S (snd (grader_list P st))" using gradersOk_same[OF assms(2) ListGraders_tables[OF ls]] by simp
  then have "gradersOk P S (snd (graderHandle P rq st))"
    using grader_register_ok[OF assms(1,2)] grader_update_ok[OF assms(1,2)] grader_deregister_ok[OF assms(1,2)] assms(3) by (cases rq) auto
  with assms(2) show ?thesis by (auto simp: serveGraders_def mux_role_iff answer_def split: option.split prod.split)
qed

lemma graderRun_ok:
  assumes "graderEnv P S" "\<forall>e \<in> set es. graderNames e \<subseteq> S" "gradersOk P S st"
  shows "gradersOk P S (graderRun P es st)"
  using assms(2,3)
proof (induction es arbitrary: st)
  case (Cons e es)
  show ?case
  proof (cases e)
    case (ServeGrader G hdr rq)
    with serveGraders_ok[OF assms(1) Cons.prems(2), of G hdr rq] Cons show ?thesis by simp
  next
    case RestartGraders
    with grader_restart_ok[OF assms(1), of st] Cons show ?thesis by (simp add: gradersOk_def)
  qed
qed simp

text \<open>
  Grader plugins and their rows. From the first start on, through requests and restarts: every live grader plugin has a stored row of its type, and when no
  statement of the database fails it is connected to the address of that row and carries its metadata; every connection ever dialled is
  in the registry or closed, and closed once. Hypotheses: a failed statement has no effect, and the collation tells the type ids in use apart.
\<close>

theorem grader_plugins_stay_backed:
  assumes "graderEnv P S" "graderRows S (t_graders (tables d))" "\<forall>e \<in> set es. graderNames e \<subseteq> S"
  defines "st \<equiv> graderRun P (RestartGraders # es) \<lparr> gn_db = d, gn_registry = NewGraderRegistry, gn_dialed = [], gn_dropped = [] \<rparr>"
  shows "(\<forall>k p. GraderGet (gn_registry st) k = Some p \<longrightarrow> (\<exists>row \<in> set (t_graders (tables (gn_db st))). gl_TypeID row = k \<and> servesGrader (ge_sql P) (gn_dialed st) p row)) \<and>
    mset [0..<length (gn_dialed st)] = grader_held (gn_registry st) + mset (gr_closed (gn_registry st)) + mset (gn_dropped st)"
proof -
  let ?st0 = "\<lparr> gn_db = d, gn_registry = NewGraderRegistry, gn_dialed = [], gn_dropped = [] \<rparr>"
  have "gradersOk P S (grader_restart P ?st0)"
    by (rule grader_restart_ok[OF assms(1)]) (use assms(2) in \<open>simp_all add: graderPlugins.accounted_def NewGraderRegistry_def grader_held_def\<close>)
  from graderRun_ok[OF assms(1,3) this] show ?thesis by (simp add: st_def gradersOk_def graderPlugins.backed_def graderPlugins.accounted_def)
qed

end
