(* ===== verification/Ieee.thy ===== *)
theory Ieee
  imports Float64 "HOL-Library.Word"
begin

text \<open>
  Go's \<open>float32\<close> and \<open>float64\<close> with infinities and NaN, for the vector arithmetic of \<open>store/mysql/rag_store.go\<close>. A \<open>float32\<close> is its bit pattern, and
  its conversion to \<open>float64\<close> is exact. The sign of zero is not kept: no code that uses these operations can tell it. The square root is computed on integers,
  with enough digits for the rounding to be that of the exact root.
\<close>

datatype fl = Fin rat | Inf bool | NaN

type_synonym float32 = "32 word"

definition round64 :: "rat \<Rightarrow> fl" where
  "round64 q = (let y = fl64 q in if 2 ^ 1024 \<le> \<bar>y\<bar> then Inf (y < 0) else Fin y)"

definition roundPos32 :: "rat \<Rightarrow> rat" where
  "roundPos32 q = (let scale = 2 ^ (23 + doublings 126 q) / 2 ^ halvings 128 q in of_int (roundHalfEven (q * scale)) / scale)"

fun toFloat32 :: "fl \<Rightarrow> fl" where
  "toFloat32 (Fin q) =
     (let y = (if q < 0 then - roundPos32 (- q) else roundPos32 q) in if 2 ^ 128 \<le> \<bar>y\<bar> then Inf (y < 0) else Fin y)"
| "toFloat32 x = x"

definition Float32frombits :: "float32 \<Rightarrow> fl" where
  "Float32frombits w =
     (let e = unat (take_bit 8 (drop_bit 23 w)); f = unat (take_bit 23 w); s = (if bit w 31 then - 1 else 1)
      in if e = 255 then (if f = 0 then Inf (bit w 31) else NaN)
         else if e = 0 then Fin (s * of_nat f / 2 ^ 149)
         else Fin (s * of_nat (2 ^ 23 + f) * 2 ^ e / 2 ^ 150))"

fun fl_neg :: "fl \<Rightarrow> fl" where
  "fl_neg (Fin a) = Fin (- a)"
| "fl_neg (Inf s) = Inf (\<not> s)"
| "fl_neg NaN = NaN"

fun fl_add :: "fl \<Rightarrow> fl \<Rightarrow> fl" where
  "fl_add (Fin a) (Fin b) = round64 (a + b)"
| "fl_add (Inf s) (Inf t) = (if s = t then Inf s else NaN)"
| "fl_add (Inf s) (Fin b) = Inf s"
| "fl_add (Fin a) (Inf t) = Inf t"
| "fl_add x y = NaN"

fun fl_mul :: "fl \<Rightarrow> fl \<Rightarrow> fl" where
  "fl_mul (Fin a) (Fin b) = round64 (a * b)"
| "fl_mul (Inf s) (Inf t) = Inf (s \<noteq> t)"
| "fl_mul (Inf s) (Fin b) = (if b = 0 then NaN else Inf (s \<noteq> (b < 0)))"
| "fl_mul (Fin a) (Inf t) = (if a = 0 then NaN else Inf ((a < 0) \<noteq> t))"
| "fl_mul x y = NaN"

text \<open>A divisor that is zero is a positive zero here: it is a product of square roots.\<close>

fun fl_div :: "fl \<Rightarrow> fl \<Rightarrow> fl" where
  "fl_div (Fin a) (Fin b) = (if b = 0 then (if a = 0 then NaN else Inf (a < 0)) else round64 (a / b))"
| "fl_div (Inf s) (Fin b) = Inf (s \<noteq> (b < 0))"
| "fl_div (Fin a) (Inf t) = Fin 0"
| "fl_div x y = NaN"

fun isqrt :: "nat \<Rightarrow> nat" where
  "isqrt n = (if n = 0 then 0 else let r = 2 * isqrt (n div 4) in if (r + 1) * (r + 1) \<le> n then r + 1 else r)"

declare isqrt.simps [simp del]

definition sqrt64 :: "rat \<Rightarrow> rat" where
  "sqrt64 q =
     (let k = 54 + doublings 1074 q; n = nat \<lfloor>q * 4 ^ k\<rfloor>; s = isqrt n
      in if s * s = n then fl64 (of_nat s / 2 ^ k) else fl64 (of_nat (2 * s + 1) / 2 ^ (k + 1)))"

fun fl_sqrt :: "fl \<Rightarrow> fl" where
  "fl_sqrt (Fin q) = (if q < 0 then NaN else Fin (sqrt64 q))"
| "fl_sqrt (Inf s) = (if s then NaN else Inf False)"
| "fl_sqrt NaN = NaN"

fun fl_less :: "fl \<Rightarrow> fl \<Rightarrow> bool" where
  "fl_less (Fin a) (Fin b) = (a < b)"
| "fl_less (Inf s) (Inf t) = (s \<and> \<not> t)"
| "fl_less (Inf s) (Fin b) = s"
| "fl_less (Fin a) (Inf t) = (\<not> t)"
| "fl_less x y = False"

definition isFin :: "fl \<Rightarrow> bool" where
  "isFin x = (case x of Fin _ \<Rightarrow> True | _ \<Rightarrow> False)"

section \<open>The order\<close>

text \<open>Away from NaN the comparison is a strict weak order.\<close>

lemma fl_less_trans: "fl_less x y \<Longrightarrow> fl_less y z \<Longrightarrow> fl_less x z"
  by (cases x; cases y; cases z) auto

lemma fl_less_irrefl [simp]: "\<not> fl_less x x"
  by (cases x) auto

lemma fl_less_incomparable: "y \<noteq> NaN \<Longrightarrow> fl_less x z \<Longrightarrow> fl_less x y \<or> fl_less y z"
  by (cases x; cases y; cases z) auto

section \<open>Bounds of a rounding\<close>

lemma halvings_reach: "1 \<le> q \<Longrightarrow> 2 ^ halvings n q \<le> q"
proof (induction n arbitrary: q)
  case (Suc n)
  then show ?case using Suc.IH [of "q / 2"] by auto
qed simp

lemma halvings_before: "halvings n q = Suc j \<Longrightarrow> 1 \<le> q"
  by (cases n) (auto split: if_splits)

lemma doublings_none: "1 \<le> q \<Longrightarrow> doublings n q = 0"
  by (cases n) auto

definition grid :: "rat \<Rightarrow> rat" where
  "grid q = 2 ^ (52 + doublings 1022 q) / 2 ^ halvings 1024 q"

lemma grid_pos [simp]: "0 < grid q"
  by (simp add: grid_def)

lemma roundPos_grid:
  assumes "v * grid q = of_int k"
  shows "q \<le> v \<Longrightarrow> roundPos q \<le> v" "v \<le> q \<Longrightarrow> v \<le> roundPos q"
proof -
  have r: "roundPos q = of_int (roundHalfEven (q * grid q)) / grid q" by (simp add: roundPos_def grid_def Let_def)
  show "roundPos q \<le> v" if "q \<le> v"
  proof -
    have "q * grid q \<le> v * grid q" using that by (simp add: mult_right_mono less_imp_le)
    from roundHalfEven_mono [OF this] have "roundHalfEven (q * grid q) \<le> k" by (simp add: assms)
    then have "of_int (roundHalfEven (q * grid q)) \<le> v * grid q" by (simp add: assms)
    then show ?thesis unfolding r by (simp add: pos_divide_le_eq)
  qed
  show "v \<le> roundPos q" if "v \<le> q"
  proof -
    have "v * grid q \<le> q * grid q" using that by (simp add: mult_right_mono less_imp_le)
    from roundHalfEven_mono [OF this] have "k \<le> roundHalfEven (q * grid q)" by (simp add: assms)
    then have "v * grid q \<le> of_int (roundHalfEven (q * grid q))" by (simp add: assms)
    then show ?thesis unfolding r by (simp add: pos_le_divide_eq)
  qed
qed

lemma roundPos_nonneg: "0 \<le> q \<Longrightarrow> 0 \<le> roundPos q"
  using roundPos_grid(2) [of 0 q 0] by simp

text \<open>A multiple of \<open>2 ^ i\<close> with at most 53 bits bounds the rounding of what it bounds.\<close>

lemma roundPos_upper:
  assumes "0 \<le> q" "q \<le> of_nat k * 2 ^ i" "k \<le> 2 ^ 53"
  shows "roundPos q \<le> of_nat k * 2 ^ i"
proof -
  let ?h = "halvings 1024 q" and ?d = "doublings 1022 q"
  have "\<exists>z. of_nat k * 2 ^ i * grid q = of_int z"
  proof (cases "?h \<le> i + 52")
    case True
    then have "(2 ^ (i + (52 + ?d)) :: rat) = 2 ^ (i + 52 - ?h + ?d) * 2 ^ ?h" by (simp flip: power_add)
    then have "of_nat k * 2 ^ i * grid q = of_nat (k * 2 ^ (i + 52 - ?h + ?d))" unfolding grid_def by (simp add: power_add field_simps)
    then show ?thesis by (metis of_int_of_nat_eq)
  next
    case False
    then have h: "2 ^ ?h \<le> q" by (metis halvings_before halvings_reach not_less_eq_eq Suc_le_D le0 nat_le_linear)
    have "(2 ^ (i + 53) :: rat) \<le> 2 ^ ?h" using False by (intro power_increasing) simp_all
    moreover have "of_nat k * 2 ^ i \<le> (2 ^ 53 * 2 ^ i :: rat)" using assms(3) by (intro mult_right_mono) (simp_all flip: of_nat_power add: numeral_le_real_of_nat_iff)
    moreover have "(2 ^ 53 * 2 ^ i :: rat) = 2 ^ (i + 53)" by (simp add: power_add)
    ultimately have e: "q = 2 ^ (i + 53)" "q = of_nat k * 2 ^ i" "(2 ^ ?h :: rat) = 2 ^ (i + 53)" using h assms(2) by linarith+
    then have "?d = 0" by (intro doublings_none) (simp add: one_le_power)
    then have "of_nat k * 2 ^ i * grid q = 2 ^ 52" using e unfolding grid_def by (metis add.right_neutral nonzero_mult_div_cancel_left power_not_zero times_divide_eq_right zero_neq_numeral)
    then show ?thesis by (metis of_int_numeral of_int_power)
  qed
  then show ?thesis using roundPos_grid(1) assms(2) by blast
qed

lemma roundPos_lower:
  assumes "1 / 2 ^ j \<le> q" "j \<le> 1021"
  shows "1 / 2 ^ j \<le> roundPos q"
proof (cases "1 \<le> q")
  case True
  let ?h = "halvings 1024 q"
  have "1 * grid q = 2 ^ 52 / 2 ^ ?h" using True by (simp add: grid_def doublings_none)
  then have "2 ^ ?h * grid q = of_int (2 ^ 52)" by simp
  from roundPos_grid(2) [OF this halvings_reach [OF True]] have "2 ^ ?h \<le> roundPos q" .
  moreover have "(1 :: rat) \<le> 2 ^ ?h" "1 / 2 ^ j \<le> (1 :: rat)" by (simp_all add: one_le_power)
  ultimately show ?thesis by linarith
next
  case False
  let ?d = "doublings 1022 q"
  have d: "?d \<le> j"
  proof (cases ?d)
    case (Suc i)
    then have "q * 2 ^ i < 1" by (rule doublings_before)
    moreover have "2 ^ i / 2 ^ j \<le> q * 2 ^ i" using assms(1) by (simp add: field_simps)
    ultimately have "(2 ^ i / 2 ^ j :: rat) < 1" by linarith
    then show ?thesis using Suc by (simp add: divide_less_eq)
  qed simp
  have "1 \<le> q * 2 ^ ?d" using d assms(2) by (intro doublings_reach) simp
  then have q: "1 / 2 ^ ?d \<le> q" by (simp add: pos_divide_le_eq)
  have "1 / 2 ^ ?d * grid q = of_int (2 ^ 52)" using False by (simp add: grid_def halvings_small power_add)
  from roundPos_grid(2) [OF this q] have "1 / 2 ^ ?d \<le> roundPos q" .
  moreover have "(1 / 2 ^ j :: rat) \<le> 1 / 2 ^ ?d" using d by (intro divide_left_mono power_increasing) simp_all
  ultimately show ?thesis by linarith
qed

lemma round64_upper:
  assumes "\<bar>q\<bar> \<le> of_nat k * 2 ^ i" "k \<le> 2 ^ 53" "i \<le> 970"
  obtains y where "round64 q = Fin y" "\<bar>y\<bar> \<le> of_nat k * 2 ^ i" "0 \<le> q \<Longrightarrow> 0 \<le> y" "\<And>j. j \<le> 1021 \<Longrightarrow> 1 / 2 ^ j \<le> q \<Longrightarrow> 1 / 2 ^ j \<le> y"
proof -
  have y: "\<bar>fl64 q\<bar> = roundPos \<bar>q\<bar>" using roundPos_nonneg [of "\<bar>q\<bar>"] by (simp add: fl64_def)
  have u: "roundPos \<bar>q\<bar> \<le> of_nat k * 2 ^ i" using assms(1,2) by (intro roundPos_upper) simp_all
  have "of_nat k * 2 ^ i \<le> (2 ^ 53 * 2 ^ 970 :: rat)"
    using assms(2,3) by (intro mult_mono power_increasing) (simp_all flip: of_nat_power add: numeral_le_real_of_nat_iff)
  also have "\<dots> < 2 ^ 1024" by (simp flip: power_add)
  finally have "round64 q = Fin (fl64 q)" using y u by (simp add: round64_def Let_def)
  moreover have "0 \<le> fl64 q" if "0 \<le> q" using that roundPos_nonneg [of q] by (simp add: fl64_def)
  moreover have "1 / 2 ^ j \<le> fl64 q" if "j \<le> 1021" "1 / 2 ^ j \<le> q" for j
  proof -
    have "0 < q" using that(2) by (meson divide_pos_pos less_le_trans zero_less_numeral zero_less_one zero_less_power)
    then show ?thesis using roundPos_lower [OF that(2,1)] by (simp add: fl64_def)
  qed
  ultimately show ?thesis using that [of "fl64 q"] y u by simp
qed

lemma isqrt_bounds: "isqrt n * isqrt n \<le> n \<and> n < (isqrt n + 1) * (isqrt n + 1)"
proof (induction n rule: isqrt.induct)
  case (1 n)
  show ?case
  proof (cases "n = 0")
    case False
    define s where "s = isqrt (n div 4)"
    have s: "s * s \<le> n div 4" "n div 4 < (s + 1) * (s + 1)" using 1 False by (simp_all add: s_def)
    have "4 * (s * s) \<le> n" "n < 4 * ((s + 1) * (s + 1))" using s by linarith+
    then show ?thesis using False unfolding isqrt.simps [of n] s_def [symmetric] by (simp add: Let_def algebra_simps)
  qed (simp add: isqrt.simps)
qed

lemma isqrt_less: "n < m * m \<Longrightarrow> isqrt n < m"
  by (metis isqrt_bounds le_less_trans mult_le_mono not_le)

lemma isqrt_pos: "0 < n \<Longrightarrow> 0 < isqrt n"
  using isqrt_bounds [of n] by (cases "isqrt n") auto

text \<open>The root of a value of moderate size is of moderate size.\<close>

lemma sqrt64_bounds:
  assumes "1 / 2 ^ 298 \<le> q" "q < 2 ^ 400"
  shows "1 / 2 ^ 352 \<le> sqrt64 q" "sqrt64 q \<le> 2 ^ 200"
proof -
  define k where "k = 54 + doublings 1074 q"
  define n where "n = nat \<lfloor>q * 4 ^ k\<rfloor>"
  define s where "s = isqrt n"
  define x where "x = (if s * s = n then of_nat s / 2 ^ k else of_nat (2 * s + 1) / 2 ^ (k + 1) :: rat)"
  have q0: "0 < q" using assms(1) by (meson divide_pos_pos less_le_trans zero_less_numeral zero_less_one zero_less_power)
  have "doublings 1074 q \<le> 298"
  proof (cases "doublings 1074 q")
    case (Suc i)
    then have "q * 2 ^ i < 1" by (rule doublings_before)
    moreover have "2 ^ i / 2 ^ 298 \<le> q * 2 ^ i" using mult_right_mono [OF assms(1), of "2 ^ i"] by simp
    ultimately have "(2 ^ i / 2 ^ 298 :: rat) < 1" by linarith
    then have "(2 ^ i :: rat) < 2 ^ 298" by (simp only: divide_less_eq_1) simp
    then show ?thesis using Suc by (metis Suc_leI one_less_numeral_iff power_strict_increasing_iff semiring_norm(76))
  qed simp
  then have k: "k \<le> 352" "54 \<le> k" "doublings 1074 q < 1074" by (simp_all add: k_def)
  have "1 \<le> q * 2 ^ doublings 1074 q" using k(3) by (rule doublings_reach)
  also have "\<dots> \<le> q * 2 ^ (2 * k)" using q0 by (intro mult_left_mono power_increasing) (simp_all add: k_def)
  finally have "1 \<le> q * 4 ^ k" by (simp add: power_mult)
  then have "0 < n" unfolding n_def by linarith
  then have s1: "1 \<le> s" unfolding s_def by (metis isqrt_pos less_eq_Suc_le One_nat_def)
  have "of_nat n \<le> q * 4 ^ k" unfolding n_def using q0 by simp
  also have "\<dots> < 2 ^ 400 * 4 ^ k" using assms(2) by simp
  finally have "(of_nat n :: rat) < of_nat (2 ^ (200 + k) * 2 ^ (200 + k))" by (simp add: power_add power_mult flip: power_mult_distrib)
  then have "s < 2 ^ (200 + k)" unfolding s_def of_nat_less_iff by (rule isqrt_less)
  then have s2: "s + 1 \<le> 2 ^ (200 + k)" by simp
  have "(of_nat (s + 1) :: rat) \<le> of_nat (2 ^ (200 + k))" using s2 by (simp only: of_nat_le_iff)
  then have up: "x \<le> 2 ^ 200" unfolding x_def by (simp add: power_add divide_le_eq)
  have "1 / 2 ^ 352 \<le> (1 / 2 ^ k :: rat)" using k(1) by (intro divide_left_mono power_increasing) simp_all
  moreover have "1 / 2 ^ k \<le> (of_nat s / 2 ^ k :: rat)" using s1 by (simp add: divide_right_mono)
  moreover have "of_nat s / 2 ^ k \<le> x" unfolding x_def by (simp add: field_simps)
  ultimately have lo: "1 / 2 ^ 352 \<le> x" by linarith
  have x0: "0 \<le> x" unfolding x_def by simp
  have "sqrt64 q = fl64 x" unfolding sqrt64_def Let_def k_def [symmetric] n_def [symmetric] s_def [symmetric] x_def by (rule if_distrib [symmetric])
  then have r: "sqrt64 q = roundPos x" using x0 by (simp add: fl64_def)
  show "sqrt64 q \<le> 2 ^ 200" using roundPos_upper [of x 1 200] up x0 unfolding r by simp
  show "1 / 2 ^ 352 \<le> sqrt64 q" using roundPos_lower [OF lo] unfolding r by simp
qed

lemma Float32frombits_bounds:
  assumes "isFin (Float32frombits w)"
  obtains r where "Float32frombits w = Fin r" "\<bar>r\<bar> \<le> 2 ^ 128" "r = 0 \<or> 1 / 2 ^ 149 \<le> \<bar>r\<bar>"
proof -
  define e f where "e = unat (take_bit 8 (drop_bit 23 w))" and "f = unat (take_bit 23 w)"
  define s where "s = (if bit w 31 then - 1 else 1 :: rat)"
  have e: "e < 256" unfolding e_def using take_bit_nat_less_exp [of 8 "unat (drop_bit 23 w)"] by (simp add: unsigned_take_bit_eq)
  have f: "f < 2 ^ 23" unfolding f_def using take_bit_nat_less_exp [of 23 "unat w"] by (simp add: unsigned_take_bit_eq)
  have ne: "e \<noteq> 255" using assms by (auto simp: Float32frombits_def e_def f_def Let_def isFin_def split: if_splits)
  show ?thesis
  proof (cases "e = 0")
    case True
    then have r: "Float32frombits w = Fin (s * of_nat f / 2 ^ 149)" by (simp add: Float32frombits_def e_def f_def s_def Let_def)
    have a: "\<bar>s * of_nat f / 2 ^ 149\<bar> = of_nat f / 2 ^ 149" by (simp add: s_def abs_mult)
    have "(of_nat f :: rat) \<le> 2 ^ 23" using f by (metis of_nat_less_iff of_nat_numeral of_nat_power less_imp_le)
    moreover have "(2 ^ 23 :: rat) \<le> 2 ^ 128 * 2 ^ 149" by simp
    ultimately have "of_nat f / 2 ^ 149 \<le> (2 ^ 128 :: rat)" by (subst pos_divide_le_eq) (simp, linarith)
    then show ?thesis using that [OF r] a by (cases "f = 0") (simp_all add: divide_right_mono)
  next
    case False
    then have r: "Float32frombits w = Fin (s * of_nat (2 ^ 23 + f) * 2 ^ e / 2 ^ 150)" using ne by (simp add: Float32frombits_def e_def f_def s_def Let_def)
    have a: "\<bar>s * of_nat (2 ^ 23 + f) * 2 ^ e / 2 ^ 150\<bar> = of_nat (2 ^ 23 + f) * 2 ^ e / 2 ^ 150" by (simp add: s_def abs_mult)
    have "of_nat (2 ^ 23 + f) * 2 ^ e \<le> (2 ^ 24 * 2 ^ 254 :: rat)"
    proof (intro mult_mono power_increasing)
      have "2 ^ 23 + f \<le> 2 ^ 24" using f by simp
      then show "(of_nat (2 ^ 23 + f) :: rat) \<le> 2 ^ 24" by (metis of_nat_le_iff of_nat_numeral of_nat_power)
    qed (use e ne in auto)
    then have "of_nat (2 ^ 23 + f) * 2 ^ e / 2 ^ 150 \<le> (2 ^ 128 :: rat)" by (simp add: divide_le_eq)
    moreover have "1 \<le> (of_nat (2 ^ 23 + f) * 2 ^ e / 2 :: rat)"
    proof -
      have "(2 :: rat) \<le> of_nat (2 ^ 23 + f)" by simp
      then have "2 * 1 \<le> (of_nat (2 ^ 23 + f) * 2 ^ e :: rat)" by (intro mult_mono) (simp_all add: one_le_power)
      then show ?thesis by simp
    qed
    then have "1 / 2 ^ 149 \<le> (of_nat (2 ^ 23 + f) * 2 ^ e / 2 ^ 150 :: rat)" by (simp add: field_simps)
    ultimately show ?thesis using that [OF r] a by simp
  qed
qed

section \<open>Products of two float32\<close>

text \<open>
  The product of two \<open>float32\<close> has at most 48 significant bits and fits a \<open>float64\<close> exactly. So a sum \<open>c + a * b\<close> of such a product is the same whether the
  compiler rounds the product first or fuses both operations into one, as the language allows.
\<close>

lemma doublings_bound:
  assumes "1 / 2 ^ n \<le> q"
  shows "doublings m q \<le> n"
proof (rule ccontr)
  assume "\<not> doublings m q \<le> n"
  then obtain j where j: "doublings m q = Suc j" "n \<le> j" by (cases "doublings m q") auto
  have "(2 :: rat) ^ n \<le> 2 ^ j" using j(2) by (simp add: power_increasing)
  moreover have "1 \<le> q * 2 ^ n" using assms by (simp add: field_simps)
  moreover have "0 < q" using assms by (meson less_le_trans zero_less_divide_1_iff zero_less_numeral zero_less_power)
  ultimately have "1 \<le> q * 2 ^ j" by (meson less_imp_le mult_left_mono order_trans)
  then show False using doublings_before [OF j(1)] by simp
qed

lemma power_gap: "(2 :: rat) ^ a < 2 ^ b \<Longrightarrow> a < b"
  by simp

lemma short_product_grid:
  assumes q: "q = of_nat m * 2 ^ e / 2 ^ n" and m: "0 < m" "m < 2 ^ 48" and n: "n < 1022"
  shows "\<exists>k. q * grid q = of_int k"
proof -
  have m': "(of_nat m :: rat) < 2 ^ 48" using m(2) by (metis of_nat_less_iff of_nat_numeral of_nat_power)
  have pos: "0 < q" "1 \<le> (of_nat m :: rat)" using m by (simp_all add: q)
  show ?thesis
  proof (cases "1 \<le> q")
    case True
    let ?h = "halvings 1024 q"
    have "2 ^ ?h \<le> of_nat m * 2 ^ e / (2 ^ n :: rat)" using halvings_reach [OF True, of 1024] q by simp
    also have "\<dots> < 2 ^ 48 * 2 ^ e / 2 ^ n" using m' by (simp add: divide_strict_right_mono)
    finally have "(2 :: rat) ^ (?h + n) < 2 ^ (48 + e)" by (simp add: power_add field_simps)
    then have "?h + n < 48 + e" by (rule power_gap)
    then obtain r where r: "e + 52 = n + ?h + r" using le_iff_add [of "n + ?h" "e + 52"] by auto
    have "q * grid q = of_nat m * 2 ^ (e + 52) / 2 ^ (n + ?h)" using doublings_none [OF True] by (simp add: q grid_def power_add)
    also have "\<dots> = of_int (int m * 2 ^ r)" by (simp add: r power_add)
    finally show ?thesis by blast
  next
    case False
    let ?d = "doublings 1022 q"
    have h: "halvings 1024 q = 0" using False by (intro halvings_small) simp
    have "1 / 2 ^ n \<le> q" using mult_mono [OF pos(2), of 1 "2 ^ e"] by (simp add: q divide_right_mono)
    from doublings_bound [OF this, of 1022] n have "?d < 1022" by simp
    from doublings_reach [OF this] have "1 \<le> of_nat m * 2 ^ e / (2 ^ n :: rat) * 2 ^ ?d" using q by simp
    also have "\<dots> < 2 ^ 48 * 2 ^ e / 2 ^ n * 2 ^ ?d" using m' by (simp add: divide_strict_right_mono)
    finally have "(2 :: rat) ^ n < 2 ^ (48 + e + ?d)" by (simp add: power_add field_simps)
    then have "n < 48 + e + ?d" by (rule power_gap)
    then obtain r where r: "e + (52 + ?d) = n + r" using le_iff_add [of n "e + (52 + ?d)"] by auto
    have "q * grid q = of_nat m * 2 ^ (e + (52 + ?d)) / 2 ^ n" using h by (simp add: grid_def power_add) (simp add: q)
    also have "\<dots> = of_int (int m * 2 ^ r)" by (simp add: r power_add)
    finally show ?thesis by blast
  qed
qed

lemma Float32frombits_Fin:
  assumes "Float32frombits w = Fin a"
  shows "\<exists>m e. m < 2 ^ 24 \<and> \<bar>a\<bar> = of_nat m * 2 ^ e / 2 ^ 150"
proof -
  define e f where "e = unat (take_bit 8 (drop_bit 23 w))" and "f = unat (take_bit 23 w)"
  define s where "s = (if bit w 31 then - 1 else 1 :: rat)"
  have s: "\<bar>s\<bar> = 1" by (simp add: s_def)
  have f: "f < 2 ^ 23" unfolding f_def using take_bit_nat_less_exp [of 23 "unat w"] by (simp add: unsigned_take_bit_eq)
  have "a = s * (of_nat f * 2 ^ 1 / 2 ^ 150) \<or> a = s * (of_nat (2 ^ 23 + f) * 2 ^ e / 2 ^ 150)"
    using assms by (simp add: Float32frombits_def Let_def flip: e_def f_def s_def split: if_splits)
  then show ?thesis
  proof
    assume "a = s * (of_nat f * 2 ^ 1 / 2 ^ 150)"
    then have "\<bar>a\<bar> = of_nat f * 2 ^ 1 / 2 ^ 150" by (simp only: abs_mult abs_divide s) simp
    with f show ?thesis by (intro exI [of _ f] exI [of _ 1]) simp
  next
    assume "a = s * (of_nat (2 ^ 23 + f) * 2 ^ e / 2 ^ 150)"
    then have "\<bar>a\<bar> = of_nat (2 ^ 23 + f) * 2 ^ e / 2 ^ 150" by (simp only: abs_mult abs_divide s) simp
    with f show ?thesis by (intro exI [of _ "2 ^ 23 + f"] exI [of _ e]) simp
  qed
qed

lemma float32_product_exact:
  assumes "Float32frombits u = Fin a" "Float32frombits w = Fin b"
  shows "fl64 (a * b) = a * b"
proof -
  from Float32frombits_Fin [OF assms(1)] obtain m e where m: "m < 2 ^ 24" "\<bar>a\<bar> = of_nat m * 2 ^ e / 2 ^ 150" by blast
  from Float32frombits_Fin [OF assms(2)] obtain n f where n: "n < 2 ^ 24" "\<bar>b\<bar> = of_nat n * 2 ^ f / 2 ^ 150" by blast
  have q: "\<bar>a * b\<bar> = of_nat (m * n) * 2 ^ (e + f) / 2 ^ 300" by (simp add: abs_mult m(2) n(2) power_add field_simps)
  have mn: "m * n < 2 ^ 48" using mult_strict_mono [OF m(1) n(1)] by simp
  have "roundPos \<bar>a * b\<bar> = \<bar>a * b\<bar>" if "a * b \<noteq> 0"
  proof -
    have "0 < m * n" using that q by (cases "m * n = 0") auto
    from short_product_grid [OF q this mn] obtain k where "\<bar>a * b\<bar> * grid \<bar>a * b\<bar> = of_int k" by auto
    from roundPos_grid [OF this] show ?thesis by force
  qed
  then show ?thesis by (cases "a * b = 0") (auto simp: fl64_def roundPos_def roundHalfEven_def Let_def abs_if split: if_splits)
qed

lemma fused_multiply_add:
  assumes a: "Float32frombits u = Fin a" and b: "Float32frombits w = Fin b"
  shows "fl_add (Fin c) (fl_mul (Fin a) (Fin b)) = round64 (c + a * b)"
proof -
  have "\<bar>a\<bar> \<le> 2 ^ 128" using Float32frombits_bounds [of u] a by (auto simp: isFin_def)
  moreover have "\<bar>b\<bar> \<le> 2 ^ 128" using Float32frombits_bounds [of w] b by (auto simp: isFin_def)
  ultimately have "\<bar>a * b\<bar> \<le> 2 ^ 128 * 2 ^ 128" unfolding abs_mult by (rule mult_mono) simp_all
  also have "\<dots> < (2 :: rat) ^ 1024" by simp
  finally have "fl_mul (Fin a) (Fin b) = Fin (a * b)" using float32_product_exact [OF assms] by (simp add: round64_def)
  then show ?thesis by simp
qed

end
