(* ===== verification/Rag.thy ===== *)
theory Rag
  imports Node_Control Database Ieee
begin

text \<open>
  Retrieval-augmented generation: the nodes \<open>node/builtin/rag_ingest\<close> and \<open>rag_retrieve\<close> over the tables of \<open>store/mysql/rag_store.go\<close>. A rune is its
  UTF-8 encoding. The embedding provider is a parameter that answers the \<open>n\<close>-th call; so are the order in which the database returns rows, the order in which Go
  ranges over a map, and \<open>sort.Slice\<close>, which is not stable.
\<close>

section \<open>Runes and chunks\<close>

definition byteIn :: "nat \<Rightarrow> nat \<Rightarrow> char \<Rightarrow> bool" where
  "byteIn lo hi c \<longleftrightarrow> lo \<le> of_char c \<and> of_char c \<le> hi"

text \<open>The width of the encoding at the head of a string, if it is a valid one: \<open>utf8.DecodeRune\<close>.\<close>

fun runeWidth :: "string \<Rightarrow> nat option" where
  "runeWidth [] = None"
| "runeWidth (c # s) =
     (if byteIn 0 0x7F c then Some 1
      else if byteIn 0xC2 0xDF c then (case s of c1 # _ \<Rightarrow> if byteIn 0x80 0xBF c1 then Some 2 else None | _ \<Rightarrow> None)
      else if byteIn 0xE0 0xEF c then
        (case s of
           c1 # c2 # _ \<Rightarrow>
             if byteIn (if byteIn 0xE0 0xE0 c then 0xA0 else 0x80) (if byteIn 0xED 0xED c then 0x9F else 0xBF) c1 \<and> byteIn 0x80 0xBF c2 then Some 3 else None
         | _ \<Rightarrow> None)
      else if byteIn 0xF0 0xF4 c then
        (case s of
           c1 # c2 # c3 # _ \<Rightarrow>
             if byteIn (if byteIn 0xF0 0xF0 c then 0x90 else 0x80) (if byteIn 0xF4 0xF4 c then 0x8F else 0xBF) c1 \<and> byteIn 0x80 0xBF c2 \<and> byteIn 0x80 0xBF c3
             then Some 4 else None
         | _ \<Rightarrow> None)
      else None)"

definition runeError :: string where
  "runeError = [CHR 0xEF, CHR 0xBF, CHR 0xBD]"

text \<open>\<open>[]rune(s)\<close>: a byte that starts no valid encoding becomes U+FFFD.\<close>

fun runes :: "string \<Rightarrow> string list" where
  "runes [] = []"
| "runes (c # s) = (case runeWidth (c # s) of None \<Rightarrow> runeError # runes s | Some n \<Rightarrow> take n (c # s) # runes (drop (n - 1) s))"

definition defaultChunkSize :: int where "defaultChunkSize = 512"

definition defaultChunkOverlap :: int where "defaultChunkOverlap = 50"

definition maxDocIDLen :: nat where "maxDocIDLen = 200"

definition chunkParams :: "int \<Rightarrow> int \<Rightarrow> int \<times> int" where
  "chunkParams chunkSize overlap =
     (let chunkSize = (if chunkSize \<le> 0 then defaultChunkSize else chunkSize);
          overlap = (if overlap < 0 then 0 else overlap);
          overlap = (if overlap \<ge> chunkSize then chunkSize div 2 else overlap)
      in (chunkSize, overlap))"

text \<open>The loop over \<open>start\<close>; the step is \<open>Suc k\<close>.\<close>

function chunkLoop :: "nat \<Rightarrow> nat \<Rightarrow> string list \<Rightarrow> nat \<Rightarrow> string list" where
  "chunkLoop chunkSize k rs start =
     (if start < length rs then
        (let end = min (start + chunkSize) (length rs)
         in concat (take (end - start) (drop start rs)) # (if end \<ge> length rs then [] else chunkLoop chunkSize k rs (start + Suc k)))
      else [])"
  by pat_completeness auto

termination by (relation "measure (\<lambda>(_, _, rs, start). length rs - start)") auto

declare chunkLoop.simps [simp del]

definition chunkText :: "string \<Rightarrow> int \<Rightarrow> int \<Rightarrow> string list" where
  "chunkText text chunkSize overlap =
     (let (chunkSize, overlap) = chunkParams chunkSize overlap; rs = runes text
      in if rs = [] then []
         else let step = chunkSize - overlap; step = (if step \<le> 0 then 1 else step)
              in chunkLoop (nat chunkSize) (nat step - 1) rs 0)"

section \<open>Vectors\<close>

fun PutUint32 :: "float32 \<Rightarrow> string" where
  "PutUint32 w = map (\<lambda>i. char_of (unat (take_bit 8 (drop_bit (8 * i) w)))) [0, 1, 2, 3]"

definition embeddingToBytes :: "float32 list \<Rightarrow> string" where
  "embeddingToBytes v = concat (map PutUint32 v)"

fun bytesToEmbedding :: "string \<Rightarrow> float32 list" where
  "bytesToEmbedding (a # b # c # d # rest) =
     word_of_nat (of_char a + 2 ^ 8 * of_char b + 2 ^ 16 * of_char c + 2 ^ 24 * of_char d) # bytesToEmbedding rest"
| "bytesToEmbedding _ = []"

text \<open>
  The two vectors have the same length: \<open>SearchChunks\<close> skips the others. Go may fuse a product and a sum into one operation with a single
  rounding. The factors are \<open>float32\<close>, their product is exact, and both ways give the same sum (\<open>fused_multiply_add\<close>).
\<close>

fun accumulate :: "float32 \<times> float32 \<Rightarrow> fl \<times> fl \<times> fl \<Rightarrow> fl \<times> fl \<times> fl" where
  "accumulate (x, y) (dot, normA, normB) =
     (let a = Float32frombits x; b = Float32frombits y
      in (fl_add dot (fl_mul a b), fl_add normA (fl_mul a a), fl_add normB (fl_mul b b)))"

definition cosineDist :: "float32 list \<Rightarrow> float32 list \<Rightarrow> fl" where
  "cosineDist a b =
     (case fold accumulate (zip a b) (Fin 0, Fin 0, Fin 0) of
        (dot, normA, normB) \<Rightarrow>
          if normA = Fin 0 \<or> normB = Fin 0 then Fin 1
          else toFloat32 (fl_add (Fin 1) (fl_neg (fl_div dot (fl_mul (fl_sqrt normA) (fl_sqrt normB))))))"

section \<open>Tables\<close>

record rag_document =
  rd_id :: string
  rd_source :: string
  rd_created_at :: int

record rag_row =
  rr_id :: string
  rr_document_id :: string
  rr_chunk_index :: int
  rr_chunk_text :: string
  rr_embedding :: string

record rag_tables =
  t_documents :: "rag_document list"
  t_chunks :: "rag_row list"

record rag_chunk =
  rc_ID :: string
  rc_DocumentID :: string
  rc_ChunkIndex :: int
  rc_ChunkText :: string
  rc_Embedding :: "float32 list"

record rag_result =
  rx_ID :: string
  rx_ChunkText :: string
  rx_Score :: fl

definition clearDocument :: "sql \<Rightarrow> int \<Rightarrow> string \<Rightarrow> (rag_tables, unit) dbm" where
  "clearDocument q now docID =
     andThen
       (exec q (\<lambda>t. Inr ((), if \<exists>d \<in> set (t_documents t). sql_eq q (rd_id d) docID then t
                             else t\<lparr>t_documents := t_documents t @ [\<lparr> rd_id = docID, rd_source = docID, rd_created_at = now \<rparr>]\<rparr>)))
       (\<lambda>_. exec q (\<lambda>t. Inr ((), t\<lparr>t_chunks := filter (\<lambda>r. \<not> sql_eq q (rr_document_id r) docID) (t_chunks t)\<rparr>)))"

definition rowOf :: "rag_chunk \<Rightarrow> rag_row" where
  "rowOf c = \<lparr> rr_id = rc_ID c, rr_document_id = rc_DocumentID c, rr_chunk_index = rc_ChunkIndex c, rr_chunk_text = rc_ChunkText c,
               rr_embedding = embeddingToBytes (rc_Embedding c) \<rparr>"

definition insertChunk :: "sql \<Rightarrow> rag_chunk \<Rightarrow> (rag_tables, unit) dbm" where
  "insertChunk q c =
     exec q (\<lambda>t. if \<exists>r \<in> set (t_chunks t). sql_eq q (rr_id r) (rc_ID c) then Inl DuplicateKey
                 else Inr ((), t\<lparr>t_chunks := t_chunks t @ [rowOf c]\<rparr>))"

definition UpsertChunks :: "sql \<Rightarrow> int \<Rightarrow> (string list \<Rightarrow> string list) \<Rightarrow> rag_chunk list \<Rightarrow> (rag_tables, unit) dbm" where
  "UpsertChunks q now iter chunks =
     (if chunks = [] then give ()
      else transaction q
             (andThen (each (clearDocument q now) (iter (remdups (map rc_DocumentID chunks)))) (\<lambda>_. each (insertChunk q) chunks)))"

definition maxScanRows :: nat where "maxScanRows = 10000"

definition candidates :: "float32 list \<Rightarrow> rag_row list \<Rightarrow> rag_result list" where
  "candidates embedding rows =
     concat (map (\<lambda>r. let emb = bytesToEmbedding (rr_embedding r)
                      in if length emb \<noteq> length embedding then []
                         else [\<lparr> rx_ID = rr_id r, rx_ChunkText = rr_chunk_text r, rx_Score = cosineDist embedding emb \<rparr>]) rows)"

text \<open>How rows come back from a table scan, and \<open>sort.Slice\<close> with its \<open>less\<close>.\<close>

record rag_lib =
  rl_scan :: "rag_row list \<Rightarrow> rag_row list"
  rl_sortSlice :: "(rag_result \<Rightarrow> rag_result \<Rightarrow> bool) \<Rightarrow> rag_result list \<Rightarrow> rag_result list"
  rl_iter :: "string list \<Rightarrow> string list"

definition SearchChunks :: "sql \<Rightarrow> rag_lib \<Rightarrow> float32 list \<Rightarrow> int \<Rightarrow> string \<Rightarrow> (rag_tables, rag_result list) dbm" where
  "SearchChunks q L embedding topK docFilter =
     (let topK = (if topK \<le> 0 then 5 else topK)
      in andThen
           (query q (\<lambda>t. Inr (if docFilter \<noteq> [] then rl_scan L (filter (\<lambda>r. sql_eq q (rr_document_id r) docFilter) (t_chunks t))
                              else take maxScanRows (rl_scan L (t_chunks t)))))
           (\<lambda>rows. give (take (nat topK) (rl_sortSlice L (\<lambda>a b. fl_less (rx_Score a) (rx_Score b)) (candidates embedding rows)))))"

section \<open>Nodes\<close>

record embedding_request =
  er_APIKey :: string
  er_Model :: string
  er_Input :: string

datatype rag_error =
    RagRequired string
  | RagRender string handler_error
  | RagRenderedEmpty string
  | RagTooLong string
  | RagNoChunks
  | RagEmbed nat
  | RagEmptyEmbedding nat
  | RagTopK int
  | RagStore store_error

text \<open>\<open>re_any\<close> is how a \<open>float32\<close> in a \<open>map[string]any\<close> looks to the nodes that read it.\<close>

record rag_env =
  re_sql :: sql
  re_lib :: rag_lib
  re_now :: "nat \<Rightarrow> int"
  re_template :: template_engine
  re_Embed :: "nat \<Rightarrow> embedding_request \<Rightarrow> float32 list option"
  re_any :: "fl \<Rightarrow> val"

record rag_state =
  rs_db :: "rag_tables db"
  rs_calls :: nat

fun Itoa :: "nat \<Rightarrow> string" where
  "Itoa n = (if n < 10 then [char_of (48 + n)] else Itoa (n div 10) @ [char_of (48 + n mod 10)])"

declare Itoa.simps [simp del]

definition renderText :: "rag_env \<Rightarrow> node_input \<Rightarrow> string \<Rightarrow> rag_error + string" where
  "renderText E input key =
     (let raw = str_or_empty (map_of (cfg_entries (Config input)) key)
      in if raw = [] then Inl (RagRequired key)
         else case RenderTemplate (re_template E) raw (UpstreamData input) of
                Inl e \<Rightarrow> Inl (RagRender key e)
              | Inr s \<Rightarrow> if s = [] then Inl (RagRenderedEmpty key) else Inr s)"

definition resolveDocumentID :: "rag_env \<Rightarrow> node_input \<Rightarrow> rag_error + string" where
  "resolveDocumentID E input =
     (case renderText E input ''document_id'' of
        Inl e \<Rightarrow> Inl e
      | Inr docID \<Rightarrow> if length docID > maxDocIDLen then Inl (RagTooLong docID) else Inr docID)"

fun embedChunks :: "rag_env \<Rightarrow> string \<Rightarrow> string \<Rightarrow> string \<Rightarrow> nat \<Rightarrow> string list \<Rightarrow> nat \<Rightarrow> (rag_error + rag_chunk list) \<times> nat" where
  "embedChunks E apiKey model docID i [] calls = (Inr [], calls)"
| "embedChunks E apiKey model docID i (chunk # chunks) calls =
     (case re_Embed E calls \<lparr> er_APIKey = apiKey, er_Model = model, er_Input = chunk \<rparr> of
        None \<Rightarrow> (Inl (RagEmbed i), Suc calls)
      | Some v \<Rightarrow>
          if v = [] then (Inl (RagEmptyEmbedding i), Suc calls)
          else case embedChunks E apiKey model docID (Suc i) chunks (Suc calls) of
                 (Inl e, n) \<Rightarrow> (Inl e, n)
               | (Inr cs, n) \<Rightarrow>
                   (Inr (\<lparr> rc_ID = docID @ '':'' @ Itoa i, rc_DocumentID = docID, rc_ChunkIndex = int i, rc_ChunkText = chunk, rc_Embedding = v \<rparr> # cs), n))"

definition ingest_Execute :: "rag_env \<Rightarrow> node_input \<Rightarrow> rag_state \<Rightarrow> (rag_error + gomap) \<times> rag_state" where
  "ingest_Execute E input st =
     (let cfg = cfg_entries (Config input); apiKey = str_or_empty (map_of cfg ''api_key''); model = str_or_empty (map_of cfg ''model'')
      in case renderText E input ''text'' of
           Inl e \<Rightarrow> (Inl e, st)
         | Inr text \<Rightarrow>
             (case resolveDocumentID E input of
                Inl e \<Rightarrow> (Inl e, st)
              | Inr docID \<Rightarrow>
                  (let textChunks = chunkText text (ToInt (map_of cfg ''chunk_size'') defaultChunkSize) (ToInt (map_of cfg ''chunk_overlap'') defaultChunkOverlap)
                   in if textChunks = [] then (Inl RagNoChunks, st)
                      else case embedChunks E apiKey model docID 0 textChunks (rs_calls st) of
                             (Inl e, n) \<Rightarrow> (Inl e, st\<lparr>rs_calls := n\<rparr>)
                           | (Inr chunks, n) \<Rightarrow>
                               (case UpsertChunks (re_sql E) (re_now E (clock (rs_db st))) (rl_iter (re_lib E)) chunks (rs_db st) of
                                  (Inl e, d) \<Rightarrow> (Inl (RagStore e), \<lparr> rs_db = d, rs_calls = n \<rparr>)
                                | (Inr _, d) \<Rightarrow>
                                    (Inr [(''chunks_ingested'', VInt (int (length chunks))), (''document_id'', VStr docID)], \<lparr> rs_db = d, rs_calls = n \<rparr>)))))"

definition defaultTopK :: int where "defaultTopK = 5"

definition docFilterOf :: "rag_env \<Rightarrow> node_input \<Rightarrow> rag_error + string" where
  "docFilterOf E input =
     (if str_or_empty (map_of (cfg_entries (Config input)) ''document_id'') = [] then Inr [] else renderText E input ''document_id'')"

definition showResult :: "rag_env \<Rightarrow> rag_result \<Rightarrow> val" where
  "showResult E r = VMap [(''id'', VStr (rx_ID r)), (''chunk_text'', VStr (rx_ChunkText r)), (''score'', re_any E (rx_Score r))]"

definition retrieve_Execute :: "rag_env \<Rightarrow> node_input \<Rightarrow> rag_state \<Rightarrow> (rag_error + gomap) \<times> rag_state" where
  "retrieve_Execute E input st =
     (let cfg = cfg_entries (Config input); apiKey = str_or_empty (map_of cfg ''api_key''); model = str_or_empty (map_of cfg ''model'')
      in case renderText E input ''query'' of
           Inl e \<Rightarrow> (Inl e, st)
         | Inr question \<Rightarrow>
             (case docFilterOf E input of
                Inl e \<Rightarrow> (Inl e, st)
              | Inr docFilter \<Rightarrow>
                  (let topK = ToInt (map_of cfg ''top_k'') defaultTopK
                   in if topK \<le> 0 then (Inl (RagTopK topK), st)
                      else case re_Embed E (rs_calls st) \<lparr> er_APIKey = apiKey, er_Model = model, er_Input = question \<rparr> of
                             None \<Rightarrow> (Inl (RagEmbed 0), st\<lparr>rs_calls := Suc (rs_calls st)\<rparr>)
                           | Some v \<Rightarrow>
                               (case SearchChunks (re_sql E) (re_lib E) v topK docFilter (rs_db st) of
                                  (Inl e, d) \<Rightarrow> (Inl (RagStore e), \<lparr> rs_db = d, rs_calls = Suc (rs_calls st) \<rparr>)
                                | (Inr results, d) \<Rightarrow>
                                    (Inr [(''chunks'', VList (map (showResult E) results))], \<lparr> rs_db = d, rs_calls = Suc (rs_calls st) \<rparr>)))))"

end
