(* ===== verification/Rag_Props.thy ===== *)
theory Rag_Props
  imports Rag Workflow_Store_Props "HOL-Library.Multiset"
begin

text \<open>
  The chunks of a text cover it with the configured overlap; the distance of finite vectors is never NaN, so that \<open>sort.Slice\<close> gets an order; and what
  was ingested is what is retrieved, nearest first.
\<close>

section \<open>Runes\<close>

definition encoded :: "string \<Rightarrow> bool" where
  "encoded r \<longleftrightarrow> runeWidth r = Some (length r)"

lemma encoded_runeError: "encoded runeError"
  by (simp add: encoded_def runeError_def byteIn_def)

lemma runeWidth_take: "runeWidth s = Some n \<Longrightarrow> 0 < n \<and> n \<le> length s \<and> encoded (take n s)"
  by (cases s) (auto simp: encoded_def split: if_splits list.splits)

lemma runeWidth_append: "runeWidth r = Some n \<Longrightarrow> runeWidth (r @ s) = Some n"
  by (cases r) (auto split: if_splits list.splits)

lemma runes_encoded: "r \<in> set (runes s) \<Longrightarrow> encoded r"
proof (induction s rule: runes.induct)
  case (2 c s)
  then show ?case using encoded_runeError runeWidth_take [of "c # s"] by (auto split: option.splits)
qed simp

lemma encoded_ne: "encoded r \<Longrightarrow> r \<noteq> []"
  by (auto simp: encoded_def)

lemma runes_append: "encoded r \<Longrightarrow> runes (r @ s) = r # runes s"
proof -
  assume e: "encoded r"
  then obtain c t where r: "r = c # t" by (cases r) (auto dest: encoded_ne)
  have "runeWidth (c # t @ s) = Some (Suc (length t))" using e runeWidth_append [of r "length r" s] by (simp add: encoded_def r del: runeWidth.simps)
  then show ?thesis by (simp add: r del: runeWidth.simps)
qed

lemma runes_concat: "\<forall>r \<in> set rs. encoded r \<Longrightarrow> runes (concat rs) = rs"
  by (induction rs) (simp_all add: runes_append)

section \<open>Chunks\<close>

text \<open>Two neighbours share \<open>v\<close> runes; the later one brings new ones.\<close>

definition shares :: "nat \<Rightarrow> string list \<Rightarrow> string list \<Rightarrow> bool" where
  "shares v a b \<longleftrightarrow> drop (length a - v) a = take v b \<and> v < length b"

text \<open>\<open>css\<close> splits \<open>rs\<close> into pieces of \<open>n\<close> runes, of which neighbours share \<open>v\<close>.\<close>

definition covers :: "nat \<Rightarrow> nat \<Rightarrow> string list \<Rightarrow> string list list \<Rightarrow> bool" where
  "covers n v rs css \<longleftrightarrow>
     css \<noteq> [] \<and> hd css = take n rs \<and> hd css @ concat (map (drop v) (tl css)) = rs \<and>
     (\<forall>x \<in> set (butlast css). length x = n) \<and> (\<forall>x \<in> set css. 0 < length x \<and> length x \<le> n) \<and> successively (shares v) css"

lemma covers_single: "rs \<noteq> [] \<Longrightarrow> length rs \<le> n \<Longrightarrow> covers n v rs [rs]"
  by (simp add: covers_def)

lemma covers_step:
  assumes "n < length rs" "v < n" "covers n v (drop (n - v) rs) css"
  shows "covers n v rs (take n rs # css)"
proof -
  have "css \<noteq> []" using assms(3) unfolding covers_def by blast
  then obtain c cs where css: "css = c # cs" by (meson neq_Nil_conv)
  have c: "c = take n (drop (n - v) rs)" "c @ concat (map (drop v) cs) = drop (n - v) rs" using assms(3) unfolding covers_def css list.sel by blast+
  have len: "v < length c" using assms(1,2) by (simp add: c(1))
  have "drop v c @ concat (map (drop v) cs) = drop v (c @ concat (map (drop v) cs))" using len by simp
  also have "\<dots> = drop n rs" unfolding c(2) using assms(2) by simp
  finally have "take n rs @ concat (map (drop v) css) = rs" by (simp add: css)
  moreover have "shares v (take n rs) c" using len assms(1,2) by (simp add: shares_def c(1) drop_take min_def)
  moreover have "\<forall>x \<in> set (butlast css). length x = n" "\<forall>x \<in> set css. 0 < length x \<and> length x \<le> n" "successively (shares v) css"
    using assms(3) unfolding covers_def by blast+
  moreover have "length (take n rs) = n" "rs \<noteq> []" using assms(1) by auto
  ultimately show ?thesis using assms(1,2) by (simp add: covers_def css)
qed

lemma chunkLoop_covers:
  assumes "\<forall>r \<in> set rs. encoded r" "start < length rs" "Suc k \<le> n"
  shows "covers n (n - Suc k) (drop start rs) (map runes (chunkLoop n k rs start))"
  using assms
proof (induction n k rs start rule: chunkLoop.induct)
  case (1 n k rs start)
  have e: "runes (concat (take m (drop start rs))) = take m (drop start rs)" for m
    using 1(2) by (intro runes_concat) (meson in_set_dropD in_set_takeD)
  show ?case
  proof (cases "start + n \<ge> length rs")
    case True
    then show ?thesis using 1(3) e [of "length rs - start"] by (subst chunkLoop.simps) (simp add: min_def covers_single)
  next
    case False
    then have "covers n (n - Suc k) (drop (start + Suc k) rs) (map runes (chunkLoop n k rs (start + Suc k)))"
      using 1(2-4) by (intro 1(1)) (simp_all add: min_def)
    moreover have "drop (start + Suc k) rs = drop (n - (n - Suc k)) (drop start rs)" using 1(4) by (simp add: add.commute)
    ultimately have "covers n (n - Suc k) (drop start rs) (take n (drop start rs) # map runes (chunkLoop n k rs (start + Suc k)))"
      using False 1(4) by (intro covers_step) simp_all
    then show ?thesis using False 1(3) by (subst chunkLoop.simps) (simp add: e min_def)
  qed
qed

lemma chunkParams_range: "chunkParams a b = (n, v) \<Longrightarrow> 0 < n \<and> 0 \<le> v \<and> v < n"
  by (auto simp: chunkParams_def Let_def defaultChunkSize_def split: if_splits)

text \<open>
  C37. The chunks of a text, whatever the configured size and overlap, cover it: all but the last have \<open>n\<close> runes, no chunk is empty or longer,
  the last \<open>v\<close> runes of a chunk are the first \<open>v\<close> of the next, every chunk brings new runes, and dropping the shared ones leaves the runes of the text in order.
\<close>

theorem chunks_cover_text:
  assumes "chunkParams chunkSize overlap = (n, v)" "text \<noteq> []"
  shows "0 < n \<and> v < n \<and> covers (nat n) (nat v) (runes text) (map runes (chunkText text chunkSize overlap))"
proof -
  have p: "0 < n" "0 \<le> v" "v < n" using chunkParams_range [OF assms(1)] by auto
  have ne: "runes text \<noteq> []" using assms(2) by (cases "text") (simp_all del: runeWidth.simps split: option.splits)
  have "nat n - Suc (nat (n - v) - 1) = nat v" using p by linarith
  moreover have "covers (nat n) (nat n - Suc (nat (n - v) - 1)) (drop 0 (runes text)) (map runes (chunkLoop (nat n) (nat (n - v) - 1) (runes text) 0))"
    using p ne by (intro chunkLoop_covers) (auto intro: runes_encoded)
  ultimately show ?thesis using p ne by (simp add: chunkText_def assms(1) Let_def)
qed

section \<open>Vectors\<close>

lemma four_bytes:
  fixes n :: nat
  assumes "n < 2 ^ 32"
  shows "n mod 256 + 256 * (n div 256 mod 256) + 65536 * (n div 65536 mod 256) + 16777216 * (n div 16777216 mod 256) = n"
proof -
  define b c d where "b = n div 256" and "c = b div 256" and "d = c div 256"
  have e: "n div 65536 = c" "n div 16777216 = d" using div_mult2_eq [of n 256 256] div_mult2_eq [of n 65536 256] by (simp_all add: b_def c_def d_def)
  have "n < 256 * 16777216" using assms by simp
  then have "d < 256" unfolding e(2) [symmetric] by (rule less_mult_imp_div_less)
  moreover have "n = 256 * b + n mod 256" "b = 256 * c + b mod 256" "c = 256 * d + c mod 256" by (simp_all add: b_def c_def d_def)
  ultimately show ?thesis unfolding e b_def [symmetric] by simp
qed

lemma PutUint32_roundtrip: "bytesToEmbedding (PutUint32 w @ rest) = w # bytesToEmbedding rest"
proof -
  have n: "unat w < 2 ^ 32" using unsigned_less [of w] by simp
  have "unat (take_bit 8 (drop_bit j w)) = unat w div 2 ^ j mod 256" for j
    by (simp add: unsigned_take_bit_eq unsigned_drop_bit_eq) (simp add: take_bit_eq_mod drop_bit_eq_div n [simplified])
  then have b: "of_char (char_of (unat (take_bit 8 (drop_bit j w))) :: char) = unat w div 2 ^ j mod (256 :: nat)" for j by simp
  have "bytesToEmbedding (PutUint32 w @ rest) = word_of_nat (unat w) # bytesToEmbedding rest"
    using four_bytes [OF n] b [of 0] b [of 8] b [of 16] b [of 24] by simp
  then show ?thesis by simp
qed

lemma embedding_roundtrip: "bytesToEmbedding (embeddingToBytes v) = v"
  by (induction v) (simp_all add: embeddingToBytes_def PutUint32_roundtrip del: PutUint32.simps)

definition finiteVector :: "float32 list \<Rightarrow> bool" where
  "finiteVector v = list_all (\<lambda>w. isFin (Float32frombits w)) v"

text \<open>The accumulators after \<open>n\<close> coordinates: finite, and a norm that is not zero is not tiny.\<close>

definition accOk :: "nat \<Rightarrow> fl \<times> fl \<times> fl \<Rightarrow> bool" where
  "accOk n acc \<longleftrightarrow> (\<exists>d x y. acc = (Fin d, Fin x, Fin y) \<and> \<bar>d\<bar> \<le> of_nat n * 2 ^ 256 \<and>
     (\<forall>z \<in> {x, y}. 0 \<le> z \<and> z \<le> of_nat n * 2 ^ 256 \<and> (z = 0 \<or> 1 / 2 ^ 298 \<le> z)))"

lemma accOkE:
  assumes "accOk n acc"
  obtains d x y where "acc = (Fin d, Fin x, Fin y)" "\<bar>d\<bar> \<le> of_nat n * 2 ^ 256" "0 \<le> x" "x \<le> of_nat n * 2 ^ 256" "x = 0 \<or> 1 / 2 ^ 298 \<le> x"
    "0 \<le> y" "y \<le> of_nat n * 2 ^ 256" "y = 0 \<or> 1 / 2 ^ 298 \<le> y"
  using assms unfolding accOk_def by blast

lemma product_bound: "\<bar>a\<bar> \<le> 2 ^ 128 \<Longrightarrow> \<bar>b\<bar> \<le> 2 ^ 128 \<Longrightarrow> \<bar>a * b\<bar> \<le> (of_nat 1 * 2 ^ 256 :: rat)"
  using mult_mono [of "\<bar>a\<bar>" "2 ^ 128" "\<bar>b\<bar>" "2 ^ 128"] by (simp add: abs_mult)

lemma add_product:
  assumes "\<bar>d\<bar> \<le> of_nat n * 2 ^ 256" "\<bar>a\<bar> \<le> 2 ^ 128" "\<bar>b\<bar> \<le> 2 ^ 128" "Suc n \<le> 2 ^ 53"
  obtains y where "fl_add (Fin d) (fl_mul (Fin a) (Fin b)) = Fin y" "\<bar>y\<bar> \<le> of_nat (Suc n) * 2 ^ 256"
proof -
  obtain p where p: "round64 (a * b) = Fin p" "\<bar>p\<bar> \<le> of_nat 1 * 2 ^ 256" using round64_upper [OF product_bound [OF assms(2,3)]] by auto
  have "\<bar>d + p\<bar> \<le> of_nat (Suc n) * 2 ^ 256" using assms(1) p(2) abs_triangle_ineq [of d p] by (simp add: distrib_right)
  from round64_upper [OF this assms(4)] show ?thesis using that p(1) by auto
qed

lemma round64_square:
  assumes "0 \<le> q" "q \<le> of_nat k * 2 ^ 256" "k \<le> 2 ^ 53" "q = 0 \<or> 1 / 2 ^ 298 \<le> q"
  obtains y where "round64 q = Fin y" "0 \<le> y" "y \<le> of_nat k * 2 ^ 256" "y = 0 \<or> 1 / 2 ^ 298 \<le> y"
proof (cases "q = 0")
  case True
  then have "round64 q = Fin 0" by (simp add: round64_def)
  then show ?thesis using that by simp
next
  case False
  obtain y where y: "round64 q = Fin y" "\<bar>y\<bar> \<le> of_nat k * 2 ^ 256" "0 \<le> q \<Longrightarrow> 0 \<le> y" "\<And>j. j \<le> 1021 \<Longrightarrow> 1 / 2 ^ j \<le> q \<Longrightarrow> 1 / 2 ^ j \<le> y"
    using round64_upper [of q k 256] assms(1-3) by auto
  show ?thesis using that [OF y(1)] y(2) y(3) y(4) [of 298] assms(1,4) False by auto
qed

lemma add_square:
  assumes "0 \<le> d" "d \<le> of_nat n * 2 ^ 256" "d = 0 \<or> 1 / 2 ^ 298 \<le> d" "\<bar>a\<bar> \<le> 2 ^ 128" "a = 0 \<or> 1 / 2 ^ 149 \<le> \<bar>a\<bar>" "Suc n \<le> 2 ^ 53"
  obtains y where "fl_add (Fin d) (fl_mul (Fin a) (Fin a)) = Fin y" "0 \<le> y" "y \<le> of_nat (Suc n) * 2 ^ 256" "y = 0 \<or> 1 / 2 ^ 298 \<le> y"
proof -
  have a: "a * a = 0 \<or> 1 / 2 ^ 298 \<le> a * a" using assms(5) mult_mono [of "1 / 2 ^ 149" "\<bar>a\<bar>" "1 / 2 ^ 149" "\<bar>a\<bar>"] by auto
  obtain p where p: "round64 (a * a) = Fin p" "0 \<le> p" "p \<le> of_nat 1 * 2 ^ 256" "p = 0 \<or> 1 / 2 ^ 298 \<le> p"
    using round64_square [of "a * a" 1] product_bound [OF assms(4,4)] a by auto
  have "d + p \<le> of_nat (Suc n) * 2 ^ 256" using assms(2) p(3) by (simp add: distrib_right)
  moreover have "d + p = 0 \<or> 1 / 2 ^ 298 \<le> d + p" using assms(1,3) p(2,4) by auto
  ultimately show ?thesis using round64_square [of "d + p" "Suc n"] that assms(1,6) p(1,2) by auto
qed

lemma accumulate_ok:
  assumes "accOk n acc" "isFin (Float32frombits u)" "isFin (Float32frombits w)" "Suc n \<le> 2 ^ 53"
  shows "accOk (Suc n) (accumulate (u, w) acc)"
proof -
  obtain d x y where acc: "acc = (Fin d, Fin x, Fin y)" "\<bar>d\<bar> \<le> of_nat n * 2 ^ 256"
    and x: "0 \<le> x" "x \<le> of_nat n * 2 ^ 256" "x = 0 \<or> 1 / 2 ^ 298 \<le> x" and y: "0 \<le> y" "y \<le> of_nat n * 2 ^ 256" "y = 0 \<or> 1 / 2 ^ 298 \<le> y"
    using assms(1) by (rule accOkE)
  obtain a where a: "Float32frombits u = Fin a" "\<bar>a\<bar> \<le> 2 ^ 128" "a = 0 \<or> 1 / 2 ^ 149 \<le> \<bar>a\<bar>" using Float32frombits_bounds [OF assms(2)] .
  obtain b where b: "Float32frombits w = Fin b" "\<bar>b\<bar> \<le> 2 ^ 128" "b = 0 \<or> 1 / 2 ^ 149 \<le> \<bar>b\<bar>" using Float32frombits_bounds [OF assms(3)] .
  obtain d' where d': "fl_add (Fin d) (fl_mul (Fin a) (Fin b)) = Fin d'" "\<bar>d'\<bar> \<le> of_nat (Suc n) * 2 ^ 256" using add_product [OF acc(2) a(2) b(2) assms(4)] .
  obtain x' where x': "fl_add (Fin x) (fl_mul (Fin a) (Fin a)) = Fin x'" "0 \<le> x'" "x' \<le> of_nat (Suc n) * 2 ^ 256" "x' = 0 \<or> 1 / 2 ^ 298 \<le> x'"
    using add_square [OF x a(2,3) assms(4)] .
  obtain y' where y': "fl_add (Fin y) (fl_mul (Fin b) (Fin b)) = Fin y'" "0 \<le> y'" "y' \<le> of_nat (Suc n) * 2 ^ 256" "y' = 0 \<or> 1 / 2 ^ 298 \<le> y'"
    using add_square [OF y b(2,3) assms(4)] .
  have "accumulate (u, w) acc = (Fin d', Fin x', Fin y')" using d'(1) x'(1) y'(1) by (simp only: acc(1) accumulate.simps Let_def a(1) b(1))
  then show ?thesis using d'(2) x'(2-4) y'(2-4) unfolding accOk_def by blast
qed

lemma fold_accumulate_ok:
  "accOk n acc \<Longrightarrow> \<forall>(u, w) \<in> set ps. isFin (Float32frombits u) \<and> isFin (Float32frombits w) \<Longrightarrow> n + length ps \<le> 2 ^ 53 \<Longrightarrow>
    accOk (n + length ps) (fold accumulate ps acc)"
proof (induction ps arbitrary: n acc)
  case (Cons p ps)
  obtain u w where p: "p = (u, w)" by (cases p)
  have "accOk (Suc n) (accumulate p acc)" unfolding p using Cons.prems p by (intro accumulate_ok) auto
  then show ?case using Cons.IH [of "Suc n" "accumulate p acc"] Cons.prems by auto
qed simp

lemma toFloat32_NaN: "toFloat32 x = NaN \<longleftrightarrow> x = NaN"
  by (cases x) (auto simp: Let_def)

lemma cosineDist_not_NaN:
  assumes "finiteVector a" "finiteVector b" "length a \<le> 2 ^ 53"
  shows "cosineDist a b \<noteq> NaN"
proof -
  have "\<forall>(u, w) \<in> set (zip a b). isFin (Float32frombits u) \<and> isFin (Float32frombits w)"
    using assms(1,2) by (auto simp: finiteVector_def list_all_iff dest: set_zip_leftD set_zip_rightD)
  moreover have "accOk 0 (Fin 0, Fin 0, Fin 0)" by (simp add: accOk_def)
  ultimately have "accOk (0 + length (zip a b)) (fold accumulate (zip a b) (Fin 0, Fin 0, Fin 0))" using assms(3) by (intro fold_accumulate_ok) simp_all
  then have "accOk (length (zip a b)) (fold accumulate (zip a b) (Fin 0, Fin 0, Fin 0))" by (simp only: add_0)
  then obtain d x y where acc: "fold accumulate (zip a b) (Fin 0, Fin 0, Fin 0) = (Fin d, Fin x, Fin y)" "\<bar>d\<bar> \<le> of_nat (length (zip a b)) * 2 ^ 256"
    and "0 \<le> x" and x: "x \<le> of_nat (length (zip a b)) * 2 ^ 256" "x = 0 \<or> 1 / 2 ^ 298 \<le> x" and "0 \<le> y" and y: "y \<le> of_nat (length (zip a b)) * 2 ^ 256" "y = 0 \<or> 1 / 2 ^ 298 \<le> y"
    by (rule accOkE)
  show ?thesis
  proof (cases "x = 0 \<or> y = 0")
    case False
    have "of_nat (length (zip a b)) * 2 ^ 256 \<le> (2 ^ 53 * 2 ^ 256 :: rat)"
      using assms(3) by (intro mult_right_mono) (simp_all flip: of_nat_power add: numeral_le_real_of_nat_iff min_le_iff_disj)
    also have top: "(2 ^ 53 * 2 ^ 256 :: rat) = 2 ^ 309" by (simp flip: power_add)
    finally have n: "of_nat (length (zip a b)) * 2 ^ 256 \<le> (2 ^ 309 :: rat)" .
    have "(2 ^ 309 :: rat) < 2 ^ 400" by simp
    then have "x < 2 ^ 400" "y < 2 ^ 400" using x(1) y(1) n by linarith+
    then have sx: "1 / 2 ^ 352 \<le> sqrt64 x" "sqrt64 x \<le> 2 ^ 200" and sy: "1 / 2 ^ 352 \<le> sqrt64 y" "sqrt64 y \<le> 2 ^ 200"
      using sqrt64_bounds x(2) y(2) False by blast+
    have s0: "0 < sqrt64 x" "0 < sqrt64 y" using sx(1) sy(1) by (meson divide_pos_pos less_le_trans zero_less_numeral zero_less_one zero_less_power)+
    have "1 / 2 ^ 352 * (1 / 2 ^ 352) \<le> sqrt64 x * sqrt64 y" using sx(1) sy(1) s0 by (intro mult_mono) simp_all
    then have lo: "1 / 2 ^ 704 \<le> sqrt64 x * sqrt64 y" by (simp flip: power_add)
    have "sqrt64 x * sqrt64 y \<le> 2 ^ 200 * 2 ^ 200" using sx(2) sy(2) s0 by (intro mult_mono) simp_all
    then have "\<bar>sqrt64 x * sqrt64 y\<bar> \<le> of_nat 1 * 2 ^ 400" using s0 by (simp flip: power_add)
    from round64_upper [OF this] obtain m where "round64 (sqrt64 x * sqrt64 y) = Fin m" "\<And>j. j \<le> 1021 \<Longrightarrow> 1 / 2 ^ j \<le> sqrt64 x * sqrt64 y \<Longrightarrow> 1 / 2 ^ j \<le> m"
      by auto
    from this(1) this(2) [of 704] lo have m: "round64 (sqrt64 x * sqrt64 y) = Fin m" "1 / 2 ^ 704 \<le> m" by auto
    have m0: "0 < m" using m(2) by (meson divide_pos_pos less_le_trans zero_less_numeral zero_less_one zero_less_power)
    have "1 \<le> m * 2 ^ 704" using m(2) by (simp only: pos_divide_le_eq zero_less_power zero_less_numeral)
    then have "2 ^ 309 * 1 \<le> 2 ^ 309 * (m * 2 ^ 704)" by (intro mult_left_mono) simp_all
    also have "\<dots> = (2 ^ 309 * 2 ^ 704) * m" by (simp only: mult_ac)
    also have "(2 ^ 309 * 2 ^ 704 :: rat) = of_nat (2 ^ 43) * 2 ^ 970" by (simp flip: power_add)
    finally have "\<bar>d\<bar> \<le> of_nat (2 ^ 43) * 2 ^ 970 * m" using acc(2) n by linarith
    then have "\<bar>d / m\<bar> \<le> of_nat (2 ^ 43) * 2 ^ 970" using m0 by (simp add: abs_divide pos_divide_le_eq)
    from round64_upper [OF this] obtain r where r: "round64 (d / m) = Fin r" "\<bar>r\<bar> \<le> of_nat (2 ^ 43) * 2 ^ 970" by auto
    have "(1 :: rat) + of_nat (2 ^ 43) * 2 ^ 970 \<le> of_nat (2 ^ 44) * 2 ^ 970" by simp
    then have "\<bar>1 - r\<bar> \<le> of_nat (2 ^ 44) * 2 ^ 970" using r(2) by linarith
    from round64_upper [OF this] obtain z where z: "round64 (1 - r) = Fin z" by auto
    have "cosineDist a b = toFloat32 (Fin z)"
      using False s0 m0 x(2) y(2) unfolding cosineDist_def acc(1) by (auto simp: m(1) r(1) z not_less simp del: toFloat32.simps dest: order_trans)
    then show ?thesis by (simp only: toFloat32_NaN fl.simps not_False_eq_True)
  qed (simp add: cosineDist_def acc(1))
qed

section \<open>The store\<close>

text \<open>What the database, the runtime and \<open>sort.Slice\<close> promise.\<close>

definition strictWeak :: "('a \<Rightarrow> 'a \<Rightarrow> bool) \<Rightarrow> 'a list \<Rightarrow> bool" where
  "strictWeak lt xs \<longleftrightarrow>
     (\<forall>a \<in> set xs. \<not> lt a a) \<and> (\<forall>a \<in> set xs. \<forall>b \<in> set xs. \<forall>c \<in> set xs. lt a b \<and> lt b c \<longrightarrow> lt a c) \<and>
     (\<forall>a \<in> set xs. \<forall>b \<in> set xs. \<forall>c \<in> set xs. lt a c \<longrightarrow> lt a b \<or> lt b c)"

definition ragLaws :: "rag_lib \<Rightarrow> bool" where
  "ragLaws L \<longleftrightarrow>
     (\<forall>rows. mset (rl_scan L rows) = mset rows) \<and> (\<forall>xs. mset (rl_iter L xs) = mset xs) \<and>
     (\<forall>lt xs. mset (rl_sortSlice L lt xs) = mset xs \<and>
        (strictWeak lt xs \<longrightarrow> sorted_wrt (\<lambda>a b. \<not> lt b a) (rl_sortSlice L lt xs)))"

lemma each_insertChunk:
  "each (insertChunk q) cs d = (Inr u, d') \<Longrightarrow> t_chunks (tables d') = t_chunks (tables d) @ map rowOf cs"
proof (induction cs arbitrary: d)
  case (Cons c cs)
  from Cons.prems obtain d1 where d1: "insertChunk q c d = (Inr (), d1)" "each (insertChunk q) cs d1 = (Inr u, d')"
    by (auto elim: andThen_InrE)
  have "tables d1 = (tables d)\<lparr>t_chunks := t_chunks (tables d) @ [rowOf c]\<rparr>"
    using d1(1) unfolding insertChunk_def by (auto dest!: exec_Inr split: if_splits)
  then show ?case using Cons.IH [OF d1(2)] by simp
qed (simp add: db_simps)

lemma each_clearDocument:
  "each (clearDocument q now) ds d = (Inr u, d') \<Longrightarrow>
     t_chunks (tables d') = filter (\<lambda>r. \<forall>x \<in> set ds. \<not> sql_eq q (rr_document_id r) x) (t_chunks (tables d))"
proof (induction ds arbitrary: d)
  case (Cons x ds)
  from Cons.prems obtain d1 d2 where d: "exec q (\<lambda>t. Inr ((), if \<exists>d \<in> set (t_documents t). sql_eq q (rd_id d) x then t
      else t\<lparr>t_documents := t_documents t @ [\<lparr> rd_id = x, rd_source = x, rd_created_at = now \<rparr>]\<rparr>)) d = (Inr (), d1)"
    "exec q (\<lambda>t. Inr ((), t\<lparr>t_chunks := filter (\<lambda>r. \<not> sql_eq q (rr_document_id r) x) (t_chunks t)\<rparr>)) d1 = (Inr (), d2)"
    "each (clearDocument q now) ds d2 = (Inr u, d')"
    unfolding clearDocument_def by (auto elim!: andThen_InrE)
  have "t_chunks (tables d2) = filter (\<lambda>r. \<not> sql_eq q (rr_document_id r) x) (t_chunks (tables d))"
    using exec_pure [OF d(1)] exec_pure [OF d(2)] by simp
  then show ?case using Cons.IH [OF d(3)] by (simp add: conj_commute)
qed (simp add: db_simps)

lemma UpsertChunks_rows:
  assumes "UpsertChunks q now (rl_iter L) cs d = (Inr u, d')" "ragLaws L"
  shows "t_chunks (tables d') =
    filter (\<lambda>r. \<forall>c \<in> set cs. \<not> sql_eq q (rr_document_id r) (rc_DocumentID c)) (t_chunks (tables d)) @ map rowOf cs"
proof (cases "cs = []")
  case False
  from assms(1) False obtain d1 d2 where d: "each (clearDocument q now) (rl_iter L (remdups (map rc_DocumentID cs))) (tick d) = (Inr (), d1)"
    "each (insertChunk q) cs d1 = (Inr u, d2)" "tables d2 = tables d'"
    unfolding UpsertChunks_def by (auto elim!: transaction_InrE andThen_InrE)
  have "set (rl_iter L (remdups (map rc_DocumentID cs))) = rc_DocumentID ` set cs"
    using assms(2) unfolding ragLaws_def by (metis set_mset_mset set_remdups set_map)
  then show ?thesis using each_clearDocument [OF d(1)] each_insertChunk [OF d(2)] d(3) by simp
qed (use assms(1) in \<open>simp add: UpsertChunks_def db_simps\<close>)

lemma embedChunks_spec:
  "embedChunks E ak mo docID i chunks calls = (Inr cs, n) \<Longrightarrow>
     n = calls + length chunks \<and>
     (\<exists>vs. length vs = length chunks \<and> (\<forall>j < length chunks. re_Embed E (calls + j) \<lparr> er_APIKey = ak, er_Model = mo, er_Input = chunks ! j \<rparr> = Some (vs ! j)) \<and>
       cs = map (\<lambda>j. \<lparr> rc_ID = docID @ '':'' @ Itoa (i + j), rc_DocumentID = docID, rc_ChunkIndex = int (i + j), rc_ChunkText = chunks ! j, rc_Embedding = vs ! j \<rparr>)
              [0..<length chunks])"
proof (induction chunks arbitrary: i calls cs)
  case (Cons chunk chunks)
  from Cons.prems obtain v cs' where v: "re_Embed E calls \<lparr> er_APIKey = ak, er_Model = mo, er_Input = chunk \<rparr> = Some v"
    "embedChunks E ak mo docID (Suc i) chunks (Suc calls) = (Inr cs', n)"
    "cs = \<lparr> rc_ID = docID @ '':'' @ Itoa i, rc_DocumentID = docID, rc_ChunkIndex = int i, rc_ChunkText = chunk, rc_Embedding = v \<rparr> # cs'"
    by (auto split: option.splits if_splits prod.splits sum.splits)
  from Cons.IH [OF v(2)] obtain vs where vs: "n = Suc calls + length chunks" "length vs = length chunks"
    "\<forall>j < length chunks. re_Embed E (Suc calls + j) \<lparr> er_APIKey = ak, er_Model = mo, er_Input = chunks ! j \<rparr> = Some (vs ! j)"
    "cs' = map (\<lambda>j. \<lparr> rc_ID = docID @ '':'' @ Itoa (Suc i + j), rc_DocumentID = docID, rc_ChunkIndex = int (Suc i + j), rc_ChunkText = chunks ! j, rc_Embedding = vs ! j \<rparr>)
              [0..<length chunks]" by blast
  have "\<forall>j < Suc (length chunks). re_Embed E (calls + j) \<lparr> er_APIKey = ak, er_Model = mo, er_Input = (chunk # chunks) ! j \<rparr> = Some ((v # vs) ! j)"
    using v(1) vs(3) by (auto simp: less_Suc_eq_0_disj)
  moreover have "cs = map (\<lambda>j. \<lparr> rc_ID = docID @ '':'' @ Itoa (i + j), rc_DocumentID = docID, rc_ChunkIndex = int (i + j), rc_ChunkText = (chunk # chunks) ! j, rc_Embedding = (v # vs) ! j \<rparr>)
              [0..<Suc (length chunks)]"
    unfolding v(3) vs(4) by (simp add: upt_conv_Cons map_Suc_upt [symmetric] del: upt_Suc)
  ultimately show ?case using vs(1,2) by (intro conjI exI [of _ "v # vs"]) simp_all
qed simp

text \<open>The results that a document with these chunks and embeddings has for a query.\<close>

definition comparable :: "string \<Rightarrow> string list \<Rightarrow> float32 list list \<Rightarrow> float32 list \<Rightarrow> rag_result list" where
  "comparable docID chunks vs v =
     map (\<lambda>j. \<lparr> rx_ID = docID @ '':'' @ Itoa j, rx_ChunkText = chunks ! j, rx_Score = cosineDist v (vs ! j) \<rparr>)
         (filter (\<lambda>j. length (vs ! j) = length v) [0..<length chunks])"

lemma candidates_filter:
  "candidates v rows = map (\<lambda>r. \<lparr> rx_ID = rr_id r, rx_ChunkText = rr_chunk_text r, rx_Score = cosineDist v (bytesToEmbedding (rr_embedding r)) \<rparr>)
     (filter (\<lambda>r. length (bytesToEmbedding (rr_embedding r)) = length v) rows)"
  by (induction rows) (simp_all add: candidates_def Let_def)

lemma candidates_mset: "mset xs = mset ys \<Longrightarrow> mset (candidates v xs) = mset (candidates v ys)"
  by (simp add: candidates_filter)

lemma candidates_document:
  "candidates v (map rowOf (map (\<lambda>j. \<lparr> rc_ID = docID @ '':'' @ Itoa j, rc_DocumentID = docID, rc_ChunkIndex = int j, rc_ChunkText = chunks ! j, rc_Embedding = vs ! j \<rparr>) [0..<length chunks]))
     = comparable docID chunks vs v"
  by (simp add: candidates_filter comparable_def filter_map o_def rowOf_def embedding_roundtrip)

definition farther :: "rag_result \<Rightarrow> rag_result \<Rightarrow> bool" where
  "farther a b \<longleftrightarrow> fl_less (rx_Score b) (rx_Score a)"

lemma scores_strictWeak:
  assumes "\<forall>r \<in> set xs. rx_Score r \<noteq> NaN"
  shows "strictWeak (\<lambda>a b. fl_less (rx_Score a) (rx_Score b)) xs"
  unfolding strictWeak_def using assms fl_less_trans fl_less_incomparable fl_less_irrefl by blast

lemma comparable_not_NaN:
  assumes "\<forall>j < length chunks. finiteVector (vs ! j)" "finiteVector v" "length v \<le> 2 ^ 53" "r \<in> set (comparable docID chunks vs v)"
  shows "rx_Score r \<noteq> NaN"
  using assms cosineDist_not_NaN by (auto simp: comparable_def)

lemma SearchChunks_nearest:
  assumes "SearchChunks q L v topK docID d = (Inr results, d')" "ragLaws L" "0 < topK" "docID \<noteq> []"
    and "filter (\<lambda>r. sql_eq q (rr_document_id r) docID) (t_chunks (tables d)) = rows" "\<forall>r \<in> set (candidates v rows). rx_Score r \<noteq> NaN"
  shows "\<exists>rest. mset (results @ rest) = mset (candidates v rows) \<and> sorted_wrt (\<lambda>a b. \<not> farther a b) (results @ rest) \<and>
    length results = min (nat topK) (length (candidates v rows))"
proof -
  let ?lt = "\<lambda>a b. fl_less (rx_Score a) (rx_Score b)"
  define cs where "cs = candidates v (rl_scan L rows)"
  define sorted where "sorted = rl_sortSlice L ?lt cs"
  have r: "results = take (nat topK) sorted" using assms(1,3,4,5) unfolding SearchChunks_def sorted_def cs_def
    by (auto simp: give_def elim!: andThen_InrE dest!: query_Inr)
  have cs: "mset cs = mset (candidates v rows)" unfolding cs_def using assms(2) by (intro candidates_mset) (simp add: ragLaws_def)
  then have s: "mset sorted = mset (candidates v rows)" using assms(2) by (simp add: ragLaws_def sorted_def)
  have "\<forall>r \<in> set cs. rx_Score r \<noteq> NaN" using assms(6) cs by (metis set_mset_mset)
  then have "sorted_wrt (\<lambda>a b. \<not> farther a b) sorted" using scores_strictWeak assms(2) unfolding ragLaws_def sorted_def farther_def by blast
  moreover have "length results = min (nat topK) (length (candidates v rows))" using r s by (metis length_take min.commute size_mset)
  ultimately show ?thesis using s r by (intro exI [of _ "drop (nat topK) sorted"]) simp
qed

section \<open>The nodes\<close>

definition requestFor :: "node_input \<Rightarrow> string \<Rightarrow> embedding_request" where
  "requestFor input s =
     \<lparr> er_APIKey = str_or_empty (map_of (cfg_entries (Config input)) ''api_key''), er_Model = str_or_empty (map_of (cfg_entries (Config input)) ''model''), er_Input = s \<rparr>"

definition chunksOf :: "node_input \<Rightarrow> string \<Rightarrow> string list" where
  "chunksOf input s =
     chunkText s (ToInt (map_of (cfg_entries (Config input)) ''chunk_size'') defaultChunkSize) (ToInt (map_of (cfg_entries (Config input)) ''chunk_overlap'') defaultChunkOverlap)"

text \<open>Embeddings come from JSON, so their coordinates are finite; no vector has more than \<open>2 ^ 53\<close> of them.\<close>

definition finiteClient :: "rag_env \<Rightarrow> bool" where
  "finiteClient E \<longleftrightarrow> (\<forall>n rq v. re_Embed E n rq = Some v \<longrightarrow> finiteVector v \<and> length v \<le> 2 ^ 53)"

lemma ingest_stores:
  assumes "ingest_Execute E inp st = (Inr out, st')" "ragLaws (re_lib E)"
  obtains s docID vs where "renderText E inp ''text'' = Inr s" "resolveDocumentID E inp = Inr docID" "length vs = length (chunksOf inp s)"
    "\<forall>j < length (chunksOf inp s). re_Embed E (rs_calls st + j) (requestFor inp (chunksOf inp s ! j)) = Some (vs ! j)"
    "out = [(''chunks_ingested'', VInt (int (length (chunksOf inp s)))), (''document_id'', VStr docID)]"
    "rs_calls st' = rs_calls st + length (chunksOf inp s)"
    "t_chunks (tables (rs_db st')) = filter (\<lambda>r. \<not> sql_eq (re_sql E) (rr_document_id r) docID) (t_chunks (tables (rs_db st))) @
       map rowOf (map (\<lambda>j. \<lparr> rc_ID = docID @ '':'' @ Itoa j, rc_DocumentID = docID, rc_ChunkIndex = int j, rc_ChunkText = chunksOf inp s ! j, rc_Embedding = vs ! j \<rparr>)
         [0..<length (chunksOf inp s)])"
proof -
  from assms(1) obtain s docID where s: "renderText E inp ''text'' = Inr s" "resolveDocumentID E inp = Inr docID"
    unfolding ingest_Execute_def Let_def by (auto split: sum.splits)
  from assms(1) s obtain cs n d where c: "chunksOf inp s \<noteq> []"
    "embedChunks E (er_APIKey (requestFor inp [])) (er_Model (requestFor inp [])) docID 0 (chunksOf inp s) (rs_calls st) = (Inr cs, n)"
    "UpsertChunks (re_sql E) (re_now E (clock (rs_db st))) (rl_iter (re_lib E)) cs (rs_db st) = (Inr (), d)"
    "out = [(''chunks_ingested'', VInt (int (length cs))), (''document_id'', VStr docID)]" "st' = \<lparr> rs_db = d, rs_calls = n \<rparr>"
    unfolding ingest_Execute_def Let_def by (auto simp: chunksOf_def requestFor_def split: sum.splits if_splits prod.splits)
  from embedChunks_spec [OF c(2)] obtain vs where vs: "n = rs_calls st + length (chunksOf inp s)" "length vs = length (chunksOf inp s)"
    "\<forall>j < length (chunksOf inp s). re_Embed E (rs_calls st + j) (requestFor inp (chunksOf inp s ! j)) = Some (vs ! j)"
    "cs = map (\<lambda>j. \<lparr> rc_ID = docID @ '':'' @ Itoa j, rc_DocumentID = docID, rc_ChunkIndex = int j, rc_ChunkText = chunksOf inp s ! j, rc_Embedding = vs ! j \<rparr>)
         [0..<length (chunksOf inp s)]" by (auto simp: requestFor_def)
  have "(\<forall>c \<in> set cs. \<not> sql_eq (re_sql E) x (rc_DocumentID c)) \<longleftrightarrow> \<not> sql_eq (re_sql E) x docID" for x using c(1) by (auto simp: vs(4))
  then show ?thesis using that [OF s vs(2,3)] c(4,5) vs(1) UpsertChunks_rows [OF c(3) assms(2)] by (simp add: vs(4))
qed

text \<open>
  C36. A retrieval restricted to a document that was just ingested finds that ingestion and nothing else: with the database, the runtime and \<open>sort.Slice\<close> as
  documented and finite embeddings, the answer lists the \<open>top_k\<close> nearest of the chunks of the text whose embedding has as many coordinates as that of the query, with their
  texts, ids and distances, nearest first. Chunks of earlier ingestions of the document are gone, those of other documents are kept.
\<close>

theorem retrieval_finds_nearest_chunks:
  assumes "ragLaws (re_lib E)" "finiteClient E"
    and "ingest_Execute E inp st = (Inr out, st1)" "resolveDocumentID E inp = Inr docID"
    and "docFilterOf E inq = Inr docID" "retrieve_Execute E inq st1 = (Inr out', st2)"
  shows "\<exists>s vs question v results rest.
    renderText E inp ''text'' = Inr s \<and> length vs = length (chunksOf inp s) \<and>
    (\<forall>j < length (chunksOf inp s). re_Embed E (rs_calls st + j) (requestFor inp (chunksOf inp s ! j)) = Some (vs ! j)) \<and>
    renderText E inq ''query'' = Inr question \<and> re_Embed E (rs_calls st1) (requestFor inq question) = Some v \<and>
    out' = [(''chunks'', VList (map (showResult E) results))] \<and>
    mset (results @ rest) = mset (comparable docID (chunksOf inp s) vs v) \<and> sorted_wrt (\<lambda>a b. \<not> farther a b) (results @ rest) \<and>
    length results = min (nat (ToInt (map_of (cfg_entries (Config inq)) ''top_k'') defaultTopK)) (length (comparable docID (chunksOf inp s) vs v)) \<and>
    filter (\<lambda>r. \<not> sql_eq (re_sql E) (rr_document_id r) docID) (t_chunks (tables (rs_db st2))) =
      filter (\<lambda>r. \<not> sql_eq (re_sql E) (rr_document_id r) docID) (t_chunks (tables (rs_db st)))"
proof -
  let ?k = "ToInt (map_of (cfg_entries (Config inq)) ''top_k'') defaultTopK"
  obtain s docID' vs where i: "renderText E inp ''text'' = Inr s" "resolveDocumentID E inp = Inr docID'" "length vs = length (chunksOf inp s)"
    "\<forall>j < length (chunksOf inp s). re_Embed E (rs_calls st + j) (requestFor inp (chunksOf inp s ! j)) = Some (vs ! j)"
    "t_chunks (tables (rs_db st1)) = filter (\<lambda>r. \<not> sql_eq (re_sql E) (rr_document_id r) docID') (t_chunks (tables (rs_db st))) @
       map rowOf (map (\<lambda>j. \<lparr> rc_ID = docID' @ '':'' @ Itoa j, rc_DocumentID = docID', rc_ChunkIndex = int j, rc_ChunkText = chunksOf inp s ! j, rc_Embedding = vs ! j \<rparr>)
         [0..<length (chunksOf inp s)])" using assms(3,1) by (rule ingest_stores)
  have docID: "docID' = docID" "docID \<noteq> []" using i(2) assms(4) by (auto simp: resolveDocumentID_def renderText_def Let_def split: sum.splits if_splits)
  from assms(5,6) obtain question v results d where r: "renderText E inq ''query'' = Inr question" "0 < ?k" "re_Embed E (rs_calls st1) (requestFor inq question) = Some v"
    "SearchChunks (re_sql E) (re_lib E) v ?k docID (rs_db st1) = (Inr results, d)" "out' = [(''chunks'', VList (map (showResult E) results))]" "rs_db st2 = d"
    unfolding retrieve_Execute_def Let_def by (auto simp: requestFor_def split: sum.splits if_splits option.splits prod.splits)
  let ?rows = "map rowOf (map (\<lambda>j. \<lparr> rc_ID = docID @ '':'' @ Itoa j, rc_DocumentID = docID, rc_ChunkIndex = int j, rc_ChunkText = chunksOf inp s ! j, rc_Embedding = vs ! j \<rparr>)
         [0..<length (chunksOf inp s)])"
  have rows: "filter (\<lambda>r. sql_eq (re_sql E) (rr_document_id r) docID) (t_chunks (tables (rs_db st1))) = ?rows"
    "filter (\<lambda>r. \<not> sql_eq (re_sql E) (rr_document_id r) docID) (t_chunks (tables (rs_db st1))) =
      filter (\<lambda>r. \<not> sql_eq (re_sql E) (rr_document_id r) docID) (t_chunks (tables (rs_db st)))"
    unfolding i(5) docID(1) by (simp_all add: filter_map o_def rowOf_def sql_eq_def)
  have fin: "\<forall>j < length (chunksOf inp s). finiteVector (vs ! j)" "finiteVector v" "length v \<le> 2 ^ 53" using assms(2) i(4) r(3) unfolding finiteClient_def by blast+
  have "\<forall>r \<in> set (candidates v ?rows). rx_Score r \<noteq> NaN" unfolding candidates_document using comparable_not_NaN [OF fin] by blast
  from SearchChunks_nearest [OF r(4) assms(1) r(2) docID(2) rows(1) this]
  obtain rest where "mset (results @ rest) = mset (comparable docID (chunksOf inp s) vs v)" "sorted_wrt (\<lambda>a b. \<not> farther a b) (results @ rest)"
    "length results = min (nat ?k) (length (comparable docID (chunksOf inp s) vs v))" unfolding candidates_document by blast
  moreover have "tables (rs_db st2) = tables (rs_db st1)" using r(4,6) by (auto simp: SearchChunks_def give_def Let_def elim!: andThen_InrE dest!: query_Inr)
  ultimately show ?thesis using i(1,3,4) r(1,3,5) rows(2) by (intro exI conjI) (assumption | simp)+
qed

section \<open>Instances\<close>

text \<open>Insertion sort keeps what \<open>sort.Slice\<close> promises.\<close>

fun insertBy :: "('a \<Rightarrow> 'a \<Rightarrow> bool) \<Rightarrow> 'a \<Rightarrow> 'a list \<Rightarrow> 'a list" where
  "insertBy lt x [] = [x]"
| "insertBy lt x (y # ys) = (if lt y x then y # insertBy lt x ys else x # y # ys)"

definition insertionSort :: "('a \<Rightarrow> 'a \<Rightarrow> bool) \<Rightarrow> 'a list \<Rightarrow> 'a list" where
  "insertionSort lt xs = foldr (insertBy lt) xs []"

lemma insertBy_mset [simp]: "mset (insertBy lt x ys) = add_mset x (mset ys)"
  by (induction ys) auto

lemma insertionSort_mset: "mset (insertionSort lt xs) = mset xs"
  by (induction xs) (simp_all add: insertionSort_def)

lemma strictWeak_mono: "strictWeak lt xs \<Longrightarrow> set ys \<subseteq> set xs \<Longrightarrow> strictWeak lt ys"
  unfolding strictWeak_def by (meson subsetD)

lemma strictWeakD: "strictWeak lt xs \<Longrightarrow> a \<in> set xs \<Longrightarrow> b \<in> set xs \<Longrightarrow> c \<in> set xs \<Longrightarrow> lt a c \<longrightarrow> lt a b \<or> lt b c"
  unfolding strictWeak_def by blast

lemma insertBy_sorted:
  "strictWeak lt (x # ys) \<Longrightarrow> sorted_wrt (\<lambda>a b. \<not> lt b a) ys \<Longrightarrow> sorted_wrt (\<lambda>a b. \<not> lt b a) (insertBy lt x ys)"
proof (induction ys)
  case (Cons y ys)
  have w: "strictWeak lt (x # ys)" using Cons.prems(1) by (rule strictWeak_mono) auto
  have s: "set (insertBy lt x ys) = insert x (set ys)" by (metis insertBy_mset set_mset_add_mset_insert set_mset_mset)
  show ?case
  proof (cases "lt y x")
    case True
    then have "\<not> lt x y" using Cons.prems(1) unfolding strictWeak_def by (meson list.set_intros)
    then show ?thesis using True s Cons.IH [OF w] Cons.prems(2) by simp
  next
    case False
    have "\<not> lt z x" if "z \<in> set ys" for z
    proof -
      have "lt z x \<longrightarrow> lt z y \<or> lt y x" using strictWeakD [OF Cons.prems(1), of z y x] that by simp
      then show ?thesis using False that Cons.prems(2) by auto
    qed
    then show ?thesis using False Cons.prems(2) by simp
  qed
qed simp

lemma insertionSort_sorted: "strictWeak lt xs \<Longrightarrow> sorted_wrt (\<lambda>a b. \<not> lt b a) (insertionSort lt xs)"
proof (induction xs)
  case (Cons x xs)
  have "set (insertionSort lt xs) = set xs" by (metis insertionSort_mset set_mset_mset)
  then have "strictWeak lt (x # insertionSort lt xs)" "strictWeak lt xs" using strictWeak_mono [OF Cons.prems] by auto
  then show ?case using Cons.IH insertBy_sorted [of lt x "insertionSort lt xs"] by (simp add: insertionSort_def)
qed (simp add: insertionSort_def)

definition demo_rag :: rag_env where
  "demo_rag =
     \<lparr> re_sql = \<lparr> sql_outcome = (\<lambda>_. Done), sql_key = id, sql_json = id \<rparr>,
       re_lib = \<lparr> rl_scan = rev, rl_sortSlice = insertionSort, rl_iter = rev \<rparr>,
       re_now = (\<lambda>_. 0), re_template = (\<lambda>_ _. None),
       re_Embed = (\<lambda>_ rq. Some (if CHR ''a'' \<in> set (er_Input rq) then [0x3F800000, 0] else [0x3F800000, 0x3F800000])),
       re_any = (\<lambda>_. VNil) \<rparr>"

lemma demo_rag_laws: "ragLaws (re_lib demo_rag)"
  by (simp add: ragLaws_def demo_rag_def insertionSort_mset insertionSort_sorted)

lemma demo_rag_reliable: "reliable (re_sql demo_rag)"
  by (simp add: reliable_def demo_rag_def)

lemma demo_rag_finite: "finiteClient demo_rag"
  by (auto simp: finiteClient_def demo_rag_def finiteVector_def isFin_def Float32frombits_def Let_def)

definition demo_ingest :: node_input where
  "demo_ingest = \<lparr> UpstreamData = [],
     Config = Some [(''text'', VStr ''abcd''), (''document_id'', VStr ''d''), (''chunk_size'', VInt 2), (''chunk_overlap'', VInt 1)], DirectPredecessorIDs = [] \<rparr>"

definition demo_retrieve :: node_input where
  "demo_retrieve = \<lparr> UpstreamData = [], Config = Some [(''query'', VStr ''a''), (''document_id'', VStr ''d''), (''top_k'', VInt 2)], DirectPredecessorIDs = [] \<rparr>"

text \<open>Three-byte and stray bytes: the second chunk of the text repeats the last rune of the first.\<close>

theorem chunks_cover_text_witness:
  "chunkText [CHR ''x'', CHR 0xE2, CHR 0x82, CHR 0xAC, CHR ''y'', CHR 0xFF] 3 1 = [[CHR ''x'', CHR 0xE2, CHR 0x82, CHR 0xAC, CHR ''y''], CHR ''y'' # runeError] \<and>
   covers 3 1 (runes [CHR ''x'', CHR 0xE2, CHR 0x82, CHR 0xAC, CHR ''y'', CHR 0xFF])
     (map runes (chunkText [CHR ''x'', CHR 0xE2, CHR 0x82, CHR 0xAC, CHR ''y'', CHR 0xFF] 3 1))"
proof -
  have "chunkParams 3 1 = (3, 1)" by (simp add: chunkParams_def)
  from chunks_cover_text [OF this, of "[CHR ''x'', CHR 0xE2, CHR 0x82, CHR 0xAC, CHR ''y'', CHR 0xFF]"]
  have "covers 3 1 (runes [CHR ''x'', CHR 0xE2, CHR 0x82, CHR 0xAC, CHR ''y'', CHR 0xFF])
     (map runes (chunkText [CHR ''x'', CHR 0xE2, CHR 0x82, CHR 0xAC, CHR ''y'', CHR 0xFF] 3 1))" by (simp del: runes.simps)
  moreover have "chunkText [CHR ''x'', CHR 0xE2, CHR 0x82, CHR 0xAC, CHR ''y'', CHR 0xFF] 3 1 = [[CHR ''x'', CHR 0xE2, CHR 0x82, CHR 0xAC, CHR ''y''], CHR ''y'' # runeError]"
    by code_simp
  ultimately show ?thesis by blast
qed


definition demo_store :: rag_state where
  "demo_store = \<lparr> rs_db = \<lparr> tables = \<lparr> t_documents = [], t_chunks = [] \<rparr>, clock = 0 \<rparr>, rs_calls = 0 \<rparr>"

lemma demo_ingested: "\<exists>st. ingest_Execute demo_rag demo_ingest demo_store = (Inr [(''chunks_ingested'', VInt 3), (''document_id'', VStr ''d'')], st)"
proof -
  have "chunkText ''abcd'' 2 1 = [''ab'', ''bc'', ''cd'']" by code_simp
  moreover have "Itoa 0 = ''0''" "Itoa (Suc 0) = ''1''" "Itoa (Suc (Suc 0)) = ''2''" by code_simp+
  moreover have "renderText demo_rag demo_ingest ''text'' = Inr ''abcd''" "resolveDocumentID demo_rag demo_ingest = Inr ''d''" by code_simp+
  ultimately show ?thesis
    by (simp add: ingest_Execute_def demo_ingest_def demo_rag_def demo_store_def ToInt_def UpsertChunks_def transaction_def andThen_def clearDocument_def insertChunk_def exec_def
        sql_eq_def rowOf_def tick_def give_def)
qed

lemma SearchChunks_reliable: "reliable q \<Longrightarrow> \<exists>rs d'. SearchChunks q L v k f d = (Inr rs, d')"
  by (simp add: SearchChunks_def Let_def andThen_def db_simps)

lemma demo_retrieved: "\<exists>out st'. retrieve_Execute demo_rag demo_retrieve st = (Inr out, st')"
proof -
  have r: "renderText demo_rag demo_retrieve ''query'' = Inr ''a''" "docFilterOf demo_rag demo_retrieve = Inr ''d''" by code_simp+
  have "re_Embed demo_rag n rq \<noteq> None" for n rq by (simp add: demo_rag_def)
  then obtain v where v: "re_Embed demo_rag (rs_calls st) (requestFor demo_retrieve ''a'') = Some v" by auto
  obtain rs d where "SearchChunks (re_sql demo_rag) (re_lib demo_rag) v 2 ''d'' (rs_db st) = (Inr rs, d)"
    using SearchChunks_reliable [of "re_sql demo_rag"] demo_rag_reliable by blast
  then show ?thesis using r v by (simp add: retrieve_Execute_def requestFor_def ToInt_def demo_retrieve_def)
qed

theorem retrieval_finds_nearest_chunks_witness:
  "\<exists>st1 st2 vs v results rest.
     ingest_Execute demo_rag demo_ingest demo_store = (Inr [(''chunks_ingested'', VInt 3), (''document_id'', VStr ''d'')], st1) \<and>
     retrieve_Execute demo_rag demo_retrieve st1 = (Inr [(''chunks'', VList (map (showResult demo_rag) results))], st2) \<and>
     mset (results @ rest) = mset (comparable ''d'' [''ab'', ''bc'', ''cd''] vs v) \<and> sorted_wrt (\<lambda>a b. \<not> farther a b) (results @ rest)"
proof -
  obtain st1 where i: "ingest_Execute demo_rag demo_ingest demo_store = (Inr [(''chunks_ingested'', VInt 3), (''document_id'', VStr ''d'')], st1)" using demo_ingested by blast
  obtain out st2 where r: "retrieve_Execute demo_rag demo_retrieve st1 = (Inr out, st2)" using demo_retrieved by blast
  have d: "resolveDocumentID demo_rag demo_ingest = Inr ''d''" "docFilterOf demo_rag demo_retrieve = Inr ''d''" "renderText demo_rag demo_ingest ''text'' = Inr ''abcd''"
    "chunksOf demo_ingest ''abcd'' = [''ab'', ''bc'', ''cd'']" by code_simp+
  from retrieval_finds_nearest_chunks [OF demo_rag_laws demo_rag_finite i d(1,2) r] obtain s vs v results rest where
    "renderText demo_rag demo_ingest ''text'' = Inr s" "out = [(''chunks'', VList (map (showResult demo_rag) results))]"
    "mset (results @ rest) = mset (comparable ''d'' (chunksOf demo_ingest s) vs v)" "sorted_wrt (\<lambda>a b. \<not> farther a b) (results @ rest)" by blast
  then show ?thesis using i r d(3,4) by auto
qed

end
