(* ===== verification/Providers.thy ===== *)
theory Providers
  imports Rag
begin

text \<open>
  The clients of the AI providers: \<open>aiprovider/httpclient/retry.go\<close> and the clients of OpenAI, Anthropic and Ollama. The network is a parameter
  that answers the \<open>n\<close>-th transmission, and so are the cancellation of the caller's context, the random source, \<open>encoding/json\<close> and \<open>http.Client\<close>, which
  sends a request through the transport it is given and follows redirects. Durations are in nanoseconds. Messages of errors are left out where no code reads
  them.
\<close>

section \<open>The retrying transport\<close>

record web_request =
  wq_Method :: string
  wq_URL :: string
  wq_Header :: "(string \<times> string) list"
  wq_Body :: string

record web_response =
  wr_StatusCode :: int
  wr_Body :: string

datatype trip_error = NetworkFault | ContextDone | RebuildFault | HTTPStatus int

text \<open>\<open>NoResponse\<close> is Go's \<open>nil, nil\<close>.\<close>

datatype trip = Got web_response | Failed trip_error | NoResponse

record net =
  net_send :: "nat \<Rightarrow> web_request \<Rightarrow> web_response option"
  net_done :: "nat \<Rightarrow> bool"
  net_doneWaiting :: "nat \<Rightarrow> bool"
  net_rebuild :: "nat \<Rightarrow> bool"
  net_Int64N :: "nat \<Rightarrow> int \<Rightarrow> int"

record web =
  web_sent :: "web_request list"
  web_waits :: "int list"

record retry_transport =
  rt_maxRetries :: int
  rt_baseDelay :: int

definition isRetriableStatus :: "int \<Rightarrow> bool" where
  "isRetriableStatus code \<longleftrightarrow> code = 429 \<or> 500 \<le> code \<and> code \<le> 599"

definition second :: int where "second = 1000000000"

fun doubled :: "nat \<Rightarrow> int \<Rightarrow> int" where
  "doubled 0 d = d"
| "doubled (Suc n) d = (let d' = wrap64 (d * 2) in if d' > 30 * second then 30 * second else doubled n d')"

definition backoff :: "retry_transport \<Rightarrow> (int \<Rightarrow> int) \<Rightarrow> nat \<Rightarrow> int" where
  "backoff rt Int64N attempt =
     (let d = doubled (attempt - 1) (rt_baseDelay rt);
          spread = (if d < 0 then - (- d div 5) else d div 5);
          d = (if spread > 0 then wrap64 (d + (Int64N (spread * 2 + 1) - spread)) else d)
      in if d < 0 then 0 else d)"

text \<open>What happens before attempt \<open>n\<close>: the body is rebuilt and the backoff slept, unless the context ends first.\<close>

definition before :: "retry_transport \<Rightarrow> net \<Rightarrow> nat \<Rightarrow> web \<Rightarrow> trip_error option \<times> web" where
  "before rt N attempt w =
     (let n = length (web_sent w)
      in if attempt = 0 then (None, w)
         else if \<not> net_rebuild N n then (Some RebuildFault, w)
         else let w' = w\<lparr>web_waits := web_waits w @ [backoff rt (net_Int64N N n) attempt]\<rparr>
              in if net_doneWaiting N n then (Some ContextDone, w') else (None, w'))"

fun attempts :: "retry_transport \<Rightarrow> net \<Rightarrow> web_request \<Rightarrow> nat \<Rightarrow> nat \<Rightarrow> trip_error option \<Rightarrow> web \<Rightarrow> trip \<times> web" where
  "attempts rt N req attempt 0 lastErr w = ((case lastErr of None \<Rightarrow> NoResponse | Some e \<Rightarrow> Failed e), w)"
| "attempts rt N req attempt (Suc left) lastErr w =
     (case before rt N attempt w of
        (Some e, w1) \<Rightarrow> (Failed e, w1)
      | (None, w1) \<Rightarrow>
          (let n = length (web_sent w1); w2 = w1\<lparr>web_sent := web_sent w1 @ [req]\<rparr>
           in case net_send N n req of
                None \<Rightarrow> if net_done N n then (Failed NetworkFault, w2) else attempts rt N req (Suc attempt) left (Some NetworkFault) w2
              | Some resp \<Rightarrow>
                  if \<not> isRetriableStatus (wr_StatusCode resp) then (Got resp, w2)
                  else attempts rt N req (Suc attempt) left (Some (HTTPStatus (wr_StatusCode resp))) w2))"

definition RoundTrip :: "retry_transport \<Rightarrow> net \<Rightarrow> web_request \<Rightarrow> web \<Rightarrow> trip \<times> web" where
  "RoundTrip rt N req w = attempts rt N req 0 (nat (rt_maxRetries rt + 1)) None w"

section \<open>The clients\<close>

record llm_call =
  lc_APIKey :: string
  lc_Model :: string
  lc_SystemMsg :: string
  lc_Prompt :: string
  lc_MaxTokens :: int
  lc_Temperature :: "rat option"

record llm_reply =
  lp_Completion :: string
  lp_PromptTokens :: int
  lp_CompletionTokens :: int

datatype ai_error = KeyRequired | MarshalError | HTTPError | StatusError int string | DecodeError | ProviderError string | EmptyAnswer

text \<open>The answers as \<open>encoding/json\<close> decodes them into the structs of the clients.\<close>

record chat_result =
  ch_Choices :: "string list"
  ch_PromptTokens :: int
  ch_CompletionTokens :: int
  ch_Error :: "string option"

record message_result =
  ms_Content :: "(string \<times> string) list"
  ms_InputTokens :: int
  ms_OutputTokens :: int
  ms_Error :: "string option"

record embedding_result =
  em_Data :: "float32 list list"
  em_Error :: "string option"

type_synonym http_Do = "(web_request \<Rightarrow> web \<Rightarrow> trip \<times> web) \<Rightarrow> web_request \<Rightarrow> web \<Rightarrow> web_response option \<times> web"

record ai_lib =
  ai_net :: net
  ai_Do :: http_Do
  ai_Marshal :: "gomap \<Rightarrow> string option"
  ai_chat :: "string \<Rightarrow> chat_result option"
  ai_message :: "string \<Rightarrow> message_result option"
  ai_embedding :: "string \<Rightarrow> embedding_result option"
  ai_ollama :: "string \<Rightarrow> embedding_result option"

definition clientTransport :: retry_transport where
  "clientTransport = \<lparr> rt_maxRetries = 3, rt_baseDelay = second \<rparr>"

definition chatEndpoint :: string where "chatEndpoint = ''https://api.openai.com/v1/chat/completions''"

definition embeddingEndpoint :: string where "embeddingEndpoint = ''https://api.openai.com/v1/embeddings''"

definition messagesEndpoint :: string where "messagesEndpoint = ''https://api.anthropic.com/v1/messages''"

text \<open>Send, refuse a status from 400 on, decode.\<close>

definition callJSON :: "ai_lib \<Rightarrow> web_request \<Rightarrow> (string \<Rightarrow> 'r option) \<Rightarrow> web \<Rightarrow> (ai_error + 'r) \<times> web" where
  "callJSON L req decode w =
     (case ai_Do L (RoundTrip clientTransport (ai_net L)) req w of
        (None, w') \<Rightarrow> (Inl HTTPError, w')
      | (Some resp, w') \<Rightarrow>
          ((if wr_StatusCode resp \<ge> 400 then Inl (StatusError (wr_StatusCode resp) (wr_Body resp))
            else case decode (wr_Body resp) of None \<Rightarrow> Inl DecodeError | Some r \<Rightarrow> Inr r), w'))"

definition openaiRequest :: "string \<Rightarrow> string \<Rightarrow> string \<Rightarrow> web_request" where
  "openaiRequest url apiKey body =
     \<lparr> wq_Method = ''POST'', wq_URL = url, wq_Header = [(''Content-Type'', ''application/json''), (''Authorization'', ''Bearer '' @ apiKey)], wq_Body = body \<rparr>"

definition maxTokensOf :: "llm_call \<Rightarrow> int" where
  "maxTokensOf req = (if lc_MaxTokens req \<le> 0 then 1024 else lc_MaxTokens req)"

definition modelOr :: "string \<Rightarrow> string \<Rightarrow> string" where
  "modelOr fallback model = (if model = [] then fallback else model)"

definition temperatureEntry :: "llm_call \<Rightarrow> gomap" where
  "temperatureEntry req = (case lc_Temperature req of None \<Rightarrow> [] | Some t \<Rightarrow> [(''temperature'', VFloat t)])"

definition chatMessage :: "string \<Rightarrow> string \<Rightarrow> val" where
  "chatMessage role content = VMap [(''role'', VStr role), (''content'', VStr content)]"

definition openaiPayload :: "llm_call \<Rightarrow> gomap" where
  "openaiPayload req =
     [(''model'', VStr (modelOr ''gpt-4o'' (lc_Model req))),
      (''messages'', VList ((if lc_SystemMsg req \<noteq> [] then [chatMessage ''system'' (lc_SystemMsg req)] else []) @ [chatMessage ''user'' (lc_Prompt req)])),
      (''max_tokens'', VInt (maxTokensOf req))] @ temperatureEntry req"

definition openai_Complete :: "ai_lib \<Rightarrow> llm_call \<Rightarrow> web \<Rightarrow> (ai_error + llm_reply) \<times> web" where
  "openai_Complete L req w =
     (if lc_APIKey req = [] then (Inl KeyRequired, w)
      else case ai_Marshal L (openaiPayload req) of
             None \<Rightarrow> (Inl MarshalError, w)
           | Some body \<Rightarrow>
               (case callJSON L (openaiRequest chatEndpoint (lc_APIKey req) body) (ai_chat L) w of
                  (Inl e, w') \<Rightarrow> (Inl e, w')
                | (Inr result, w') \<Rightarrow>
                    ((case ch_Error result of
                        Some msg \<Rightarrow> Inl (ProviderError msg)
                      | None \<Rightarrow>
                          (case ch_Choices result of
                             [] \<Rightarrow> Inl EmptyAnswer
                           | content # _ \<Rightarrow>
                               Inr \<lparr> lp_Completion = content, lp_PromptTokens = ch_PromptTokens result, lp_CompletionTokens = ch_CompletionTokens result \<rparr>)), w')))"

definition openai_Embed :: "ai_lib \<Rightarrow> embedding_request \<Rightarrow> web \<Rightarrow> (ai_error + float32 list) \<times> web" where
  "openai_Embed L req w =
     (if er_APIKey req = [] then (Inl KeyRequired, w)
      else case ai_Marshal L [(''model'', VStr (modelOr ''text-embedding-3-small'' (er_Model req))), (''input'', VStr (er_Input req))] of
             None \<Rightarrow> (Inl MarshalError, w)
           | Some body \<Rightarrow>
               (case callJSON L (openaiRequest embeddingEndpoint (er_APIKey req) body) (ai_embedding L) w of
                  (Inl e, w') \<Rightarrow> (Inl e, w')
                | (Inr result, w') \<Rightarrow>
                    ((case em_Error result of
                        Some msg \<Rightarrow> Inl (ProviderError msg)
                      | None \<Rightarrow> (case em_Data result of [] \<Rightarrow> Inl EmptyAnswer | v # _ \<Rightarrow> Inr v)), w')))"

definition anthropicPayload :: "llm_call \<Rightarrow> gomap" where
  "anthropicPayload req =
     [(''model'', VStr (modelOr ''claude-sonnet-4-6'' (lc_Model req))), (''max_tokens'', VInt (maxTokensOf req)),
      (''messages'', VList [chatMessage ''user'' (lc_Prompt req)])] @
     (if lc_SystemMsg req \<noteq> [] then [(''system'', VStr (lc_SystemMsg req))] else []) @ temperatureEntry req"

definition anthropicRequest :: "string \<Rightarrow> string \<Rightarrow> web_request" where
  "anthropicRequest apiKey body =
     \<lparr> wq_Method = ''POST'', wq_URL = messagesEndpoint,
       wq_Header = [(''Content-Type'', ''application/json''), (''x-api-key'', apiKey), (''anthropic-version'', ''2023-06-01'')], wq_Body = body \<rparr>"

fun firstText :: "(string \<times> string) list \<Rightarrow> string" where
  "firstText [] = []"
| "firstText ((t, s) # blocks) = (if t = ''text'' then s else firstText blocks)"

definition anthropic_Complete :: "ai_lib \<Rightarrow> llm_call \<Rightarrow> web \<Rightarrow> (ai_error + llm_reply) \<times> web" where
  "anthropic_Complete L req w =
     (if lc_APIKey req = [] then (Inl KeyRequired, w)
      else case ai_Marshal L (anthropicPayload req) of
             None \<Rightarrow> (Inl MarshalError, w)
           | Some body \<Rightarrow>
               (case callJSON L (anthropicRequest (lc_APIKey req) body) (ai_message L) w of
                  (Inl e, w') \<Rightarrow> (Inl e, w')
                | (Inr result, w') \<Rightarrow>
                    ((case ms_Error result of
                        Some msg \<Rightarrow> Inl (ProviderError msg)
                      | None \<Rightarrow>
                          (let completion = firstText (ms_Content result)
                           in if completion = [] then Inl EmptyAnswer
                              else Inr \<lparr> lp_Completion = completion, lp_PromptTokens = ms_InputTokens result, lp_CompletionTokens = ms_OutputTokens result \<rparr>)), w')))"

text \<open>\<open>ollama.New\<close> normalises the address; the API key is ignored.\<close>

definition TrimRight :: "char \<Rightarrow> string \<Rightarrow> string" where
  "TrimRight c s = rev (dropWhile (\<lambda>x. x = c) (rev s))"

definition ollamaBase :: "string \<Rightarrow> string" where
  "ollamaBase baseURL = TrimRight (CHR ''/'') (if baseURL = [] then ''http://localhost:11434'' else baseURL)"

definition ollama_Embed :: "ai_lib \<Rightarrow> string \<Rightarrow> embedding_request \<Rightarrow> web \<Rightarrow> (ai_error + float32 list) \<times> web" where
  "ollama_Embed L baseURL req w =
     (case ai_Marshal L [(''model'', VStr (modelOr ''nomic-embed-text'' (er_Model req))), (''input'', VStr (er_Input req))] of
        None \<Rightarrow> (Inl MarshalError, w)
      | Some body \<Rightarrow>
          (case callJSON L \<lparr> wq_Method = ''POST'', wq_URL = baseURL @ ''/api/embed'', wq_Header = [(''Content-Type'', ''application/json'')], wq_Body = body \<rparr> (ai_ollama L) w of
             (Inl e, w') \<Rightarrow> (Inl e, w')
           | (Inr result, w') \<Rightarrow>
               ((case em_Error result of
                   Some msg \<Rightarrow> Inl (ProviderError msg)
                 | None \<Rightarrow> (case em_Data result of [] \<Rightarrow> Inl EmptyAnswer | v # _ \<Rightarrow> if v = [] then Inl EmptyAnswer else Inr v)), w')))"

section \<open>Bounds of the retries\<close>

definition randLaw :: "net \<Rightarrow> bool" where
  "randLaw N \<longleftrightarrow> (\<forall>n k. 0 < k \<longrightarrow> 0 \<le> net_Int64N N n k \<and> net_Int64N N n k < k)"

lemma doubled_spec:
  "0 \<le> d \<Longrightarrow> d \<le> 30 * second \<Longrightarrow> doubled n d = min (30 * second) (d * 2 ^ n)"
proof (induction n arbitrary: d)
  case (Suc n)
  have w: "wrap64 (d * 2) = d * 2" using Suc.prems by (intro wrap64_id) (simp_all add: second_def)
  show ?case
  proof (cases "d * 2 > 30 * second")
    case True
    have "d * 2 * 1 \<le> d * 2 * 2 ^ n" using Suc.prems(1) by (intro mult_left_mono) simp_all
    then show ?thesis using True by (simp add: w Let_def mult.assoc)
  next
    case False
    then show ?thesis using Suc.IH [of "d * 2"] Suc.prems(1) by (simp add: w Let_def mult.assoc)
  qed
qed simp

text \<open>The delay before attempt \<open>n\<close> is the base delay, doubled up to 30 seconds, give or take a fifth.\<close>

lemma backoff_bounds:
  assumes "0 \<le> rt_baseDelay rt" "rt_baseDelay rt \<le> 30 * second" "\<forall>k > 0. 0 \<le> r k \<and> r k < k" "1 \<le> n"
  shows "\<bar>backoff rt r n - min (30 * second) (rt_baseDelay rt * 2 ^ (n - 1))\<bar> \<le> min (30 * second) (rt_baseDelay rt * 2 ^ (n - 1)) div 5"
proof -
  define d where "d = min (30 * second) (rt_baseDelay rt * 2 ^ (n - 1))"
  have d: "doubled (n - 1) (rt_baseDelay rt) = d" unfolding d_def using assms(1,2) by (rule doubled_spec)
  have d0: "0 \<le> d" "d \<le> 30 * second" using assms(1) by (simp_all add: d_def second_def)
  show ?thesis
  proof (cases "0 < d div 5")
    case True
    then have "0 < d div 5 * 2 + 1" by simp
    then have r: "0 \<le> r (d div 5 * 2 + 1)" "r (d div 5 * 2 + 1) < d div 5 * 2 + 1" using assms(3) by blast+
    have "wrap64 (d + (r (d div 5 * 2 + 1) - d div 5)) = d + (r (d div 5 * 2 + 1) - d div 5)"
      using r d0 by (intro wrap64_id) (simp_all add: second_def)
    moreover have "0 \<le> d + (r (d div 5 * 2 + 1) - d div 5)" using r(1) d0(1) by linarith
    ultimately have "backoff rt r n = d + (r (d div 5 * 2 + 1) - d div 5)" using True d0 unfolding backoff_def d Let_def by simp
    then show ?thesis using r unfolding d_def [symmetric] by simp
  next
    case False
    then have "backoff rt r n = d" using d0 unfolding backoff_def d Let_def by simp
    then show ?thesis using d0 unfolding d_def [symmetric] by simp
  qed
qed

text \<open>Transmission \<open>n\<close> calls for another attempt.\<close>

definition retried :: "net \<Rightarrow> web_request \<Rightarrow> nat \<Rightarrow> bool" where
  "retried N req n = (case net_send N n req of None \<Rightarrow> \<not> net_done N n | Some r \<Rightarrow> isRetriableStatus (wr_StatusCode r))"

text \<open>
  What \<open>k\<close> transmissions from the \<open>n\<close>-th on amount to when \<open>left\<close> were allowed: all but the last were retried; the last gave the answer, or all were used up and
  called for another, or the caller's context ended during the last transmission or during the wait after it, or the body could not be read again for the next one.
\<close>

definition tripOk :: "net \<Rightarrow> web_request \<Rightarrow> nat \<Rightarrow> nat \<Rightarrow> nat \<Rightarrow> trip \<Rightarrow> bool" where
  "tripOk N req n k left t \<longleftrightarrow>
     k \<le> left \<and> (\<forall>i. Suc i < k \<longrightarrow> retried N req (n + i)) \<and>
     (case t of
        Got r \<Rightarrow> 0 < k \<and> net_send N (n + k - 1) req = Some r \<and> \<not> isRetriableStatus (wr_StatusCode r)
      | NoResponse \<Rightarrow> k = left \<and> (\<forall>i < k. retried N req (n + i))
      | Failed e \<Rightarrow>
          (if e = ContextDone then k < left \<and> (\<forall>i < k. retried N req (n + i)) \<and> net_doneWaiting N (n + k)
           else if e = RebuildFault then k < left \<and> (\<forall>i < k. retried N req (n + i)) \<and> \<not> net_rebuild N (n + k)
           else k = left \<and> (\<forall>i < k. retried N req (n + i)) \<or>
             e = NetworkFault \<and> 0 < k \<and> net_send N (n + k - 1) req = None \<and> net_done N (n + k - 1)))"

text \<open>One wait before every transmission but the first, and one more when the context ended in it.\<close>

definition waitCount :: "nat \<Rightarrow> trip \<Rightarrow> nat" where
  "waitCount k t = k + (if t = Failed ContextDone then 1 else 0)"

lemma tripOk_step:
  assumes "retried N req n" "tripOk N req (Suc n) k left t"
  shows "tripOk N req n (Suc k) (Suc left) t"
proof -
  have all: "retried N req (n + i)" if "i < Suc k" "\<forall>i < k. retried N req (Suc n + i)" for i
    using that assms(1) by (cases i) auto
  moreover have "retried N req (n + i)" if "Suc i < Suc k" "\<forall>i. Suc i < k \<longrightarrow> retried N req (Suc n + i)" for i
    using that assms(1) by (cases i) auto
  ultimately show ?thesis using assms(2) by (auto simp: tripOk_def split: trip.splits if_splits)
qed

definition waitsOk :: "retry_transport \<Rightarrow> nat \<Rightarrow> int list \<Rightarrow> bool" where
  "waitsOk rt a ws \<longleftrightarrow> (\<forall>j < length ws. let d = min (30 * second) (rt_baseDelay rt * 2 ^ (a + j - 1)) in \<bar>ws ! j - d\<bar> \<le> d div 5)"

lemma waitsOk_Cons:
  assumes "0 \<le> rt_baseDelay rt" "rt_baseDelay rt \<le> 30 * second" "randLaw N" "1 \<le> a" "waitsOk rt (Suc a) ws"
  shows "waitsOk rt a (backoff rt (net_Int64N N n) a # ws)"
proof -
  have "\<forall>k > 0. 0 \<le> net_Int64N N n k \<and> net_Int64N N n k < k" using assms(3) by (simp add: randLaw_def)
  from backoff_bounds [OF assms(1,2) this assms(4)] show ?thesis using assms(5) unfolding waitsOk_def Let_def by (auto simp: less_Suc_eq_0_disj)
qed

lemma attempts_later:
  assumes "0 \<le> rt_baseDelay rt" "rt_baseDelay rt \<le> 30 * second" "randLaw N"
  shows "1 \<le> a \<Longrightarrow> e \<notin> {Some ContextDone, Some RebuildFault} \<Longrightarrow> attempts rt N req a left e w = (t, w') \<Longrightarrow>
    \<exists>k ws. web_sent w' = web_sent w @ replicate k req \<and> web_waits w' = web_waits w @ ws \<and> length ws = waitCount k t \<and> waitsOk rt a ws \<and>
      tripOk N req (length (web_sent w)) k left t"
proof (induction left arbitrary: a e w)
  case 0
  then show ?case by (intro exI [of _ 0] exI [of _ "[]"]) (auto simp: waitsOk_def tripOk_def waitCount_def split: option.splits)
next
  case (Suc left)
  let ?n = "length (web_sent w)" and ?b = "backoff rt (net_Int64N N (length (web_sent w))) a"
  let ?w1 = "w\<lparr>web_waits := web_waits w @ [?b]\<rparr>" and ?w2 = "w\<lparr>web_waits := web_waits w @ [?b], web_sent := web_sent w @ [req]\<rparr>"
  have b: "waitsOk rt a [?b]" using waitsOk_Cons [OF assms Suc.prems(1), of "[]"] by (simp add: waitsOk_def)
  show ?case
  proof (cases "before rt N a w")
    case (Pair o1 w1)
    show ?thesis
    proof (cases o1)
      case (Some e')
      then have "t = Failed e'" "w' = w1" "web_sent w1 = web_sent w" "e' = RebuildFault \<and> \<not> net_rebuild N ?n \<and> web_waits w1 = web_waits w \<or> e' = ContextDone \<and> net_doneWaiting N ?n \<and> web_waits w1 = web_waits w @ [?b]"
        using Suc.prems Pair by (auto simp: before_def Let_def split: if_splits)
      then show ?thesis using b by (intro exI [of _ 0]) (auto simp: tripOk_def waitsOk_def waitCount_def)
    next
      case None
      then have w1: "w1 = ?w1" using Suc.prems(1) Pair by (auto simp: before_def Let_def split: if_splits)
      note run = Suc.prems(3) [unfolded attempts.simps Pair None, simplified, unfolded w1 Let_def]
      have stop: ?thesis if "t = Got r \<and> net_send N ?n req = Some r \<and> \<not> isRetriableStatus (wr_StatusCode r) \<or> t = Failed NetworkFault \<and> net_send N ?n req = None \<and> net_done N ?n" "w' = ?w2" for r
        using that b by (intro exI [of _ 1] exI [of _ "[?b]"]) (auto simp: tripOk_def waitCount_def)
      have go: ?thesis if r: "retried N req ?n" and a: "attempts rt N req (Suc a) left e' ?w2 = (t, w')" and e': "e' \<notin> {Some ContextDone, Some RebuildFault}" for e'
      proof -
        from Suc.IH [OF _ e' a] obtain k ws where "web_sent w' = web_sent ?w2 @ replicate k req" "web_waits w' = web_waits ?w2 @ ws" "length ws = waitCount k t" "waitsOk rt (Suc a) ws"
          "tripOk N req (length (web_sent ?w2)) k left t" by auto
        then show ?thesis using tripOk_step [OF r] waitsOk_Cons [OF assms Suc.prems(1), of ws ?n]
          by (intro exI [of _ "Suc k"] exI [of _ "?b # ws"]) (simp add: waitCount_def)
      qed
      show ?thesis
      proof (cases "net_send N ?n req")
        case None
        then show ?thesis using run stop go [unfolded retried_def] by (auto split: if_splits)
      next
        case (Some r)
        then show ?thesis using run stop [of r] go [unfolded retried_def] by (auto split: if_splits)
      qed
    qed
  qed
qed

lemma RoundTrip_bounded:
  assumes "0 \<le> rt_maxRetries rt" "0 \<le> rt_baseDelay rt" "rt_baseDelay rt \<le> 30 * second" "randLaw N" "RoundTrip rt N req w = (t, w')"
  shows "\<exists>k ws. 0 < k \<and> web_sent w' = web_sent w @ replicate k req \<and> web_waits w' = web_waits w @ ws \<and> length ws = waitCount (k - 1) t \<and> waitsOk rt 1 ws \<and>
    tripOk N req (length (web_sent w)) k (Suc (nat (rt_maxRetries rt))) t"
proof -
  let ?n = "length (web_sent w)" and ?w1 = "w\<lparr>web_sent := web_sent w @ [req]\<rparr>" and ?m = "nat (rt_maxRetries rt)"
  have m: "nat (rt_maxRetries rt + 1) = Suc ?m" using assms(1) by simp
  note run = assms(5) [unfolded RoundTrip_def m attempts.simps before_def, simplified, unfolded Let_def]
  have stop: ?thesis if "t = Got r \<and> net_send N ?n req = Some r \<and> \<not> isRetriableStatus (wr_StatusCode r) \<or> t = Failed NetworkFault \<and> net_send N ?n req = None \<and> net_done N ?n" "w' = ?w1" for r
    using that by (intro exI [of _ 1] exI [of _ "[]"]) (auto simp: tripOk_def waitsOk_def waitCount_def)
  have go: ?thesis if r: "retried N req ?n" and a: "attempts rt N req (Suc 0) ?m e ?w1 = (t, w')" and e: "e \<notin> {Some ContextDone, Some RebuildFault}" for e
  proof -
    from attempts_later [OF assms(2-4) _ e a] obtain k ws where "web_sent w' = web_sent ?w1 @ replicate k req" "web_waits w' = web_waits ?w1 @ ws" "length ws = waitCount k t" "waitsOk rt (Suc 0) ws"
      "tripOk N req (length (web_sent ?w1)) k ?m t" by auto
    then show ?thesis using tripOk_step [OF r] by (intro exI [of _ "Suc k"] exI [of _ ws]) simp
  qed
  show ?thesis
  proof (cases "net_send N ?n req")
    case None
    then show ?thesis using run stop go [unfolded retried_def] by (auto split: if_splits)
  next
    case (Some r)
    then show ?thesis using run stop [of r] go [unfolded retried_def] by (auto split: if_splits)
  qed
qed

section \<open>What the clients return\<close>

text \<open>\<open>http.Client.Do\<close> hands over the answer of its transport, unless it is a redirect.\<close>

definition redirect :: "web_response \<Rightarrow> bool" where
  "redirect r \<longleftrightarrow> 300 \<le> wr_StatusCode r \<and> wr_StatusCode r < 400"

definition doLaw :: "http_Do \<Rightarrow> bool" where
  "doLaw Do \<longleftrightarrow> (\<forall>T req w. case T req w of
     (Got r, w') \<Rightarrow> \<not> redirect r \<longrightarrow> Do T req w = (Some r, w')
   | (_, w') \<Rightarrow> Do T req w = (None, w'))"

definition aiLaws :: "ai_lib \<Rightarrow> bool" where
  "aiLaws L \<longleftrightarrow> randLaw (ai_net L) \<and> doLaw (ai_Do L)"

text \<open>
  The exchange behind a call: \<open>k\<close> transmissions of one request, between one and four, with a wait of about 1, 2 and 4 seconds before the second, third and fourth, and what they amount to. The
  answer is the body of the last response when it reports no error.
\<close>

definition exchanged :: "ai_lib \<Rightarrow> web_request \<Rightarrow> web \<Rightarrow> web \<Rightarrow> string option \<Rightarrow> bool" where
  "exchanged L req w w' ans \<longleftrightarrow>
     (\<exists>k ws t. 0 < k \<and> web_sent w' = web_sent w @ replicate k req \<and> web_waits w' = web_waits w @ ws \<and>
       length ws = (k - 1) + (if t = Failed ContextDone then 1 else 0) \<and> waitsOk clientTransport 1 ws \<and> tripOk (ai_net L) req (length (web_sent w)) k 4 t \<and>
       ans = (case t of Got r \<Rightarrow> if wr_StatusCode r < 400 then Some (wr_Body r) else None | _ \<Rightarrow> None))"

text \<open>The provider answered with a redirect, which \<open>http.Client\<close> follows by rules of its own.\<close>

definition redirected :: "ai_lib \<Rightarrow> web_request \<Rightarrow> web \<Rightarrow> bool" where
  "redirected L req w \<longleftrightarrow> (\<exists>k r. tripOk (ai_net L) req (length (web_sent w)) k 4 (Got r) \<and> redirect r)"

definition answered :: "(string \<Rightarrow> 'r option) \<Rightarrow> string option \<Rightarrow> 'r option" where
  "answered decode ans = (case ans of None \<Rightarrow> None | Some b \<Rightarrow> decode b)"

lemma callJSON_exchanged:
  assumes "aiLaws L" "callJSON L req decode w = (res, w')" "\<not> redirected L req w"
  obtains ans where "exchanged L req w w' ans" "\<And>r. res = Inr r \<longleftrightarrow> answered decode ans = Some r"
proof -
  obtain t w1 where rt: "RoundTrip clientTransport (ai_net L) req w = (t, w1)" by fastforce
  have law: "randLaw (ai_net L)" "doLaw (ai_Do L)" using assms(1) by (auto simp: aiLaws_def)
  have "0 \<le> rt_maxRetries clientTransport" "0 \<le> rt_baseDelay clientTransport" "rt_baseDelay clientTransport \<le> 30 * second" by (simp_all add: clientTransport_def second_def)
  from RoundTrip_bounded [OF this law(1) rt] obtain k ws where k: "0 < k" "web_sent w1 = web_sent w @ replicate k req" "web_waits w1 = web_waits w @ ws" "length ws = waitCount (k - 1) t"
    "waitsOk clientTransport 1 ws" "tripOk (ai_net L) req (length (web_sent w)) k 4 t" by (auto simp: clientTransport_def)
  have "case t of Got r \<Rightarrow> \<not> redirect r \<longrightarrow> ai_Do L (RoundTrip clientTransport (ai_net L)) req w = (Some r, w1) | _ \<Rightarrow> ai_Do L (RoundTrip clientTransport (ai_net L)) req w = (None, w1)"
    using law(2) [unfolded doLaw_def, THEN spec, of "RoundTrip clientTransport (ai_net L)", THEN spec, of req, THEN spec, of w] rt by (simp split: trip.splits)
  moreover have "\<not> redirect r" if "t = Got r" for r using assms(3) k(6) that by (auto simp: redirected_def)
  ultimately have do: "ai_Do L (RoundTrip clientTransport (ai_net L)) req w = ((case t of Got r \<Rightarrow> Some r | _ \<Rightarrow> None), w1)" by (simp split: trip.splits)
  let ?ans = "case t of Got r \<Rightarrow> if wr_StatusCode r < 400 then Some (wr_Body r) else None | _ \<Rightarrow> None"
  have w: "w' = w1" and r: "res = Inr r \<longleftrightarrow> answered decode ?ans = Some r" for r
    using assms(2) do by (auto simp: callJSON_def answered_def split: trip.splits option.splits if_splits)
  have "exchanged L req w w1 ?ans"
    unfolding exchanged_def using k by (intro exI [of _ k] exI [of _ ws] exI [of _ t]) (simp add: waitCount_def)
  then show thesis using that [of ?ans] w r by simp
qed

text \<open>
  C39. The LLM clients send nothing without an API key. Otherwise, unless the provider answers with a redirect, they transmit one request, carrying the payload and the key, to the endpoint of
  the provider between one and four times: again exactly when a transmission called for it (a network fault, status 429 or 5xx), with one wait of about 1, 2 and 4 seconds
  before the second, third and fourth, and they give up without a response only when four transmissions called for another, the caller's context ended, or the body could not be read
  again. They return a completion exactly when the last response has a status below 400 and decodes to one, and then it is what that response says: the first choice of OpenAI, the first text
  block of Anthropic, and never empty for the latter.
\<close>

theorem completions_come_from_provider:
  assumes "aiLaws L"
  shows "(openai_Complete L q w = (res, w') \<longrightarrow>
      w' = w \<and> (lc_APIKey q = [] \<and> res = Inl KeyRequired \<or> res = Inl MarshalError) \<or>
      (\<exists>body. lc_APIKey q \<noteq> [] \<and> ai_Marshal L (openaiPayload q) = Some body \<and>
         (redirected L (openaiRequest chatEndpoint (lc_APIKey q) body) w \<or>
          (\<exists>ans. exchanged L (openaiRequest chatEndpoint (lc_APIKey q) body) w w' ans \<and>
            (\<forall>x. (\<exists>p. res = Inr p \<and> lp_Completion p = x) \<longleftrightarrow>
               (\<exists>b c rest. ans = Some b \<and> ai_chat L b = Some c \<and> ch_Error c = None \<and> ch_Choices c = x # rest)))))) \<and>
    (anthropic_Complete L q w = (res, w') \<longrightarrow>
      w' = w \<and> (lc_APIKey q = [] \<and> res = Inl KeyRequired \<or> res = Inl MarshalError) \<or>
      (\<exists>body. lc_APIKey q \<noteq> [] \<and> ai_Marshal L (anthropicPayload q) = Some body \<and>
         (redirected L (anthropicRequest (lc_APIKey q) body) w \<or>
          (\<exists>ans. exchanged L (anthropicRequest (lc_APIKey q) body) w w' ans \<and>
            (\<forall>x. (\<exists>p. res = Inr p \<and> lp_Completion p = x) \<longleftrightarrow>
               (\<exists>b c. ans = Some b \<and> ai_message L b = Some c \<and> ms_Error c = None \<and> firstText (ms_Content c) = x \<and> x \<noteq> []))))))"
proof (intro conjI impI)
  show "w' = w \<and> (lc_APIKey q = [] \<and> res = Inl KeyRequired \<or> res = Inl MarshalError) \<or>
      (\<exists>body. lc_APIKey q \<noteq> [] \<and> ai_Marshal L (openaiPayload q) = Some body \<and>
         (redirected L (openaiRequest chatEndpoint (lc_APIKey q) body) w \<or>
          (\<exists>ans. exchanged L (openaiRequest chatEndpoint (lc_APIKey q) body) w w' ans \<and>
            (\<forall>x. (\<exists>p. res = Inr p \<and> lp_Completion p = x) \<longleftrightarrow>
               (\<exists>b c rest. ans = Some b \<and> ai_chat L b = Some c \<and> ch_Error c = None \<and> ch_Choices c = x # rest)))))"
    if run: "openai_Complete L q w = (res, w')"
  proof (cases "lc_APIKey q = [] \<or> ai_Marshal L (openaiPayload q) = None")
    case False
    then obtain body where body: "lc_APIKey q \<noteq> []" "ai_Marshal L (openaiPayload q) = Some body" by auto
    let ?req = "openaiRequest chatEndpoint (lc_APIKey q) body"
    show ?thesis
    proof (cases "redirected L ?req w")
      case False
      obtain r w1 where call: "callJSON L ?req (ai_chat L) w = (r, w1)" by fastforce
      from callJSON_exchanged [OF assms call False] obtain ans where a: "exchanged L ?req w w1 ans" "\<And>c. r = Inr c \<longleftrightarrow> answered (ai_chat L) ans = Some c" by blast
      have "w1 = w'" "(\<exists>p. res = Inr p \<and> lp_Completion p = x) \<longleftrightarrow> (\<exists>c rest. r = Inr c \<and> ch_Error c = None \<and> ch_Choices c = x # rest)" for x
        using run body call by (auto simp: openai_Complete_def split: sum.splits option.splits list.splits)
      then show ?thesis using body a by (auto simp: answered_def split: option.splits)
    qed (use body in blast)
  qed (use run in \<open>auto simp: openai_Complete_def split: if_splits\<close>)
  show "w' = w \<and> (lc_APIKey q = [] \<and> res = Inl KeyRequired \<or> res = Inl MarshalError) \<or>
      (\<exists>body. lc_APIKey q \<noteq> [] \<and> ai_Marshal L (anthropicPayload q) = Some body \<and>
         (redirected L (anthropicRequest (lc_APIKey q) body) w \<or>
          (\<exists>ans. exchanged L (anthropicRequest (lc_APIKey q) body) w w' ans \<and>
            (\<forall>x. (\<exists>p. res = Inr p \<and> lp_Completion p = x) \<longleftrightarrow>
               (\<exists>b c. ans = Some b \<and> ai_message L b = Some c \<and> ms_Error c = None \<and> firstText (ms_Content c) = x \<and> x \<noteq> [])))))"
    if run: "anthropic_Complete L q w = (res, w')"
  proof (cases "lc_APIKey q = [] \<or> ai_Marshal L (anthropicPayload q) = None")
    case False
    then obtain body where body: "lc_APIKey q \<noteq> []" "ai_Marshal L (anthropicPayload q) = Some body" by auto
    let ?req = "anthropicRequest (lc_APIKey q) body"
    show ?thesis
    proof (cases "redirected L ?req w")
      case False
      obtain r w1 where call: "callJSON L ?req (ai_message L) w = (r, w1)" by fastforce
      from callJSON_exchanged [OF assms call False] obtain ans where a: "exchanged L ?req w w1 ans" "\<And>c. r = Inr c \<longleftrightarrow> answered (ai_message L) ans = Some c" by blast
      have "w1 = w'" "(\<exists>p. res = Inr p \<and> lp_Completion p = x) \<longleftrightarrow> (\<exists>c. r = Inr c \<and> ms_Error c = None \<and> firstText (ms_Content c) = x \<and> x \<noteq> [])" for x
        using run body call by (auto simp: anthropic_Complete_def Let_def split: sum.splits option.splits if_splits)
      then show ?thesis using body a by (auto simp: answered_def split: option.splits)
    qed (use body in blast)
  qed (use run in \<open>auto simp: anthropic_Complete_def split: if_splits\<close>)
qed

definition demo_ai :: ai_lib where
  "demo_ai =
     \<lparr> ai_net = \<lparr> net_send = (\<lambda>n _. Some \<lparr> wr_StatusCode = (if n = 0 then 429 else 200), wr_Body = ''ok'' \<rparr>), net_done = (\<lambda>_. False), net_doneWaiting = (\<lambda>_. False),
         net_rebuild = (\<lambda>_. True), net_Int64N = (\<lambda>_ k. k - 1) \<rparr>,
       ai_Do = (\<lambda>T req w. case T req w of (Got r, w') \<Rightarrow> (Some r, w') | (_, w') \<Rightarrow> (None, w')),
       ai_Marshal = (\<lambda>_. Some ''payload''),
       ai_chat = (\<lambda>_. Some \<lparr> ch_Choices = [''hello''], ch_PromptTokens = 3, ch_CompletionTokens = 1, ch_Error = None \<rparr>),
       ai_message = (\<lambda>_. Some \<lparr> ms_Content = [(''tool_use'', []), (''text'', ''hello'')], ms_InputTokens = 3, ms_OutputTokens = 1, ms_Error = None \<rparr>),
       ai_embedding = (\<lambda>_. None), ai_ollama = (\<lambda>_. None) \<rparr>"

lemma demo_ai_laws: "aiLaws demo_ai"
  by (auto simp: aiLaws_def demo_ai_def randLaw_def doLaw_def redirect_def split: prod.splits trip.splits)

definition demo_call :: llm_call where
  "demo_call = \<lparr> lc_APIKey = ''key'', lc_Model = [], lc_SystemMsg = [], lc_Prompt = ''Say hello'', lc_MaxTokens = 0, lc_Temperature = None \<rparr>"

text \<open>A rate-limited call is repeated after 1.2 seconds, and its second answer is the completion.\<close>

theorem completions_come_from_provider_witness:
  "(case openai_Complete demo_ai demo_call \<lparr> web_sent = [], web_waits = [] \<rparr> of
      (Inr p, w') \<Rightarrow> lp_Completion p = ''hello'' \<and> length (web_sent w') = 2 \<and> web_waits w' = [1200000000] | _ \<Rightarrow> False) \<and>
   (\<exists>p w' b. openai_Complete demo_ai demo_call \<lparr> web_sent = [], web_waits = [] \<rparr> = (Inr p, w') \<and>
      exchanged demo_ai (openaiRequest chatEndpoint ''key'' ''payload'') \<lparr> web_sent = [], web_waits = [] \<rparr> w' (Some b))"
proof -
  have nr: "\<not> redirected demo_ai rq w" for rq w by (auto simp: redirected_def tripOk_def demo_ai_def redirect_def split: if_splits)
  have run: "case openai_Complete demo_ai demo_call \<lparr> web_sent = [], web_waits = [] \<rparr> of
      (Inr p, w') \<Rightarrow> lp_Completion p = ''hello'' \<and> length (web_sent w') = 2 \<and> web_waits w' = [1200000000] | _ \<Rightarrow> False" by code_simp
  then obtain p w' where r: "openai_Complete demo_ai demo_call \<lparr> web_sent = [], web_waits = [] \<rparr> = (Inr p, w')" by (auto split: prod.splits sum.splits)
  have "lc_APIKey demo_call = ''key''" "ai_Marshal demo_ai m = Some ''payload''" for m by (simp_all add: demo_call_def demo_ai_def)
  then have "\<exists>b. exchanged demo_ai (openaiRequest chatEndpoint ''key'' ''payload'') \<lparr> web_sent = [], web_waits = [] \<rparr> w' (Some b)"
    using completions_come_from_provider [OF demo_ai_laws, of demo_call "\<lparr> web_sent = [], web_waits = [] \<rparr>" "Inr p" w'] r nr by auto
  then show ?thesis using run r by blast
qed

end
