(* ===== verification/Calls.thy ===== *)
theory Calls
  imports Providers
begin

text \<open>
  The nodes that call out: \<open>http_request\<close>, \<open>llm\<close>, \<open>embedding\<close>, \<open>db_query\<close>, \<open>db_write\<close> under \<open>node/builtin\<close> with the connection pool of \<open>nodeutil/dbpool.go\<close>, and
  the proxy of a node plugin (\<open>node/plugin/grpc_proxy.go\<close>). \<open>net/http\<close>, \<open>database/sql\<close>, gRPC and \<open>encoding/json\<close> are parameters. What is sent is recorded.
\<close>

datatype call_error =
    Required string
  | RenderFailed string handler_error
  | RenderedEmpty string
  | ConfigFailed handler_error
  | ProviderFailed ai_error
  | OpenFailed
  | StatementFailed
  | ColumnsFailed
  | ScanFailed
  | RowsFailed
  | AffectedFailed
  | BuildFailed
  | DoFailed
  | ReadFailed
  | MarshalFailed
  | RPCFailed
  | PluginRefused string string
  | PluginEmpty
  | UnmarshalFailed

abbreviation cfgOf :: "node_input \<Rightarrow> gomap" where
  "cfgOf input \<equiv> cfg_entries (Config input)"

definition renderField :: "template_engine \<Rightarrow> node_input \<Rightarrow> string \<Rightarrow> string \<Rightarrow> call_error + string" where
  "renderField T input key s =
     (case RenderTemplate T s (UpstreamData input) of Inl e \<Rightarrow> Inl (RenderFailed key e) | Inr r \<Rightarrow> Inr r)"

section \<open>LLM and embedding nodes\<close>

fun toFloat :: "val option \<Rightarrow> rat option" where
  "toFloat (Some (VFloat n)) = Some n"
| "toFloat (Some (VInt n)) = Some (fl64 (of_int n))"
| "toFloat _ = None"

type_synonym llm_complete = "llm_call \<Rightarrow> web \<Rightarrow> (ai_error + llm_reply) \<times> web"

definition llm_Execute :: "llm_complete \<Rightarrow> template_engine \<Rightarrow> node_input \<Rightarrow> web \<Rightarrow> (call_error + gomap) \<times> web" where
  "llm_Execute client T input w =
     (let cfg = cfgOf input; rawPrompt = str_or_empty (map_of cfg ''prompt'')
      in if rawPrompt = [] then (Inl (Required ''prompt''), w)
         else case renderField T input ''prompt'' rawPrompt of
                Inl e \<Rightarrow> (Inl e, w)
              | Inr prompt \<Rightarrow>
                  (case renderField T input ''system_msg'' (str_or_empty (map_of cfg ''system_msg'')) of
                     Inl e \<Rightarrow> (Inl e, w)
                   | Inr systemMsg \<Rightarrow>
                       (case client \<lparr> lc_APIKey = str_or_empty (map_of cfg ''api_key''), lc_Model = str_or_empty (map_of cfg ''model''), lc_SystemMsg = systemMsg,
                                        lc_Prompt = prompt, lc_MaxTokens = ToInt (map_of cfg ''max_tokens'') 0, lc_Temperature = toFloat (map_of cfg ''temperature'') \<rparr> w of
                          (Inl e, w') \<Rightarrow> (Inl (ProviderFailed e), w')
                        | (Inr p, w') \<Rightarrow>
                            (Inr [(''completion'', VStr (lp_Completion p)), (''prompt_tokens'', VInt (lp_PromptTokens p)), (''completion_tokens'', VInt (lp_CompletionTokens p))], w'))))"

definition embedding_Execute ::
  "(embedding_request \<Rightarrow> web \<Rightarrow> (ai_error + float32 list) \<times> web) \<Rightarrow> (fl \<Rightarrow> val) \<Rightarrow> template_engine \<Rightarrow> node_input \<Rightarrow> web \<Rightarrow> (call_error + gomap) \<times> web" where
  "embedding_Execute client float32Val T input w =
     (let cfg = cfgOf input; rawInput = str_or_empty (map_of cfg ''input'')
      in if rawInput = [] then (Inl (Required ''input''), w)
         else case renderField T input ''input'' rawInput of
                Inl e \<Rightarrow> (Inl e, w)
              | Inr rendered \<Rightarrow>
                  (if rendered = [] then (Inl (RenderedEmpty ''input''), w)
                   else case client \<lparr> er_APIKey = str_or_empty (map_of cfg ''api_key''), er_Model = str_or_empty (map_of cfg ''model''), er_Input = rendered \<rparr> w of
                          (Inl e, w') \<Rightarrow> (Inl (ProviderFailed e), w')
                        | (Inr v, w') \<Rightarrow> (Inr [(''embedding'', VList (map (float32Val \<circ> Float32frombits) v))], w')))"

section \<open>HTTP node\<close>

record http_call =
  hc_Method :: string
  hc_URL :: string
  hc_Body :: "string option"
  hc_Header :: "(string \<times> string) list"
  hc_Timeout :: int

record http_reply =
  hp_StatusCode :: int
  hp_Body :: "string option"
  hp_Header :: "(string \<times> string list) list"

text \<open>\<open>hl_iter\<close> is the order in which Go ranges over the configured headers.\<close>

record http_lib =
  hl_NewRequest :: "string \<Rightarrow> string \<Rightarrow> bool"
  hl_CanonicalHeaderKey :: "string \<Rightarrow> string"
  hl_iter :: "gomap \<Rightarrow> gomap"
  hl_Do :: "nat \<Rightarrow> http_call \<Rightarrow> http_reply option"

definition defaultTimeout :: int where "defaultTimeout = 30 * second"

text \<open>The deadline of the request: the timeout of the client holds beside the one of the configuration.\<close>

definition requestTimeout :: "gomap \<Rightarrow> int" where
  "requestTimeout cfg =
     (case map_of cfg ''timeout_seconds'' of
        None \<Rightarrow> defaultTimeout
      | Some ts \<Rightarrow> (let secs = ToInt (Some ts) 0 in if secs > 0 then min defaultTimeout (wrap64 (secs * second)) else defaultTimeout))"

fun setHeaders :: "http_lib \<Rightarrow> template_engine \<Rightarrow> node_input \<Rightarrow> gomap \<Rightarrow> (string \<times> string) list \<Rightarrow> call_error + (string \<times> string) list" where
  "setHeaders L T input [] hs = Inr hs"
| "setHeaders L T input ((k, v) # rest) hs =
     (case renderField T input k (str_or_empty (Some v)) of
        Inl e \<Rightarrow> Inl e
      | Inr rendered \<Rightarrow> setHeaders L T input rest (AList.update (hl_CanonicalHeaderKey L k) rendered hs))"

definition firstValues :: "(string \<times> string list) list \<Rightarrow> gomap" where
  "firstValues hs = concat (map (\<lambda>(k, vals). case vals of [] \<Rightarrow> [] | v # _ \<Rightarrow> [(k, VStr v)]) hs)"

definition http_Execute :: "http_lib \<Rightarrow> template_engine \<Rightarrow> node_input \<Rightarrow> http_call list \<Rightarrow> (call_error + gomap) \<times> http_call list" where
  "http_Execute L T input sent =
     (let cfg = cfgOf input; rawURL = str_or_empty (map_of cfg ''url''); m = str_or_empty (map_of cfg ''method''); meth = (if m = [] then ''GET'' else m)
      in if rawURL = [] then (Inl (Required ''url''), sent)
         else case renderField T input ''url'' rawURL of
                Inl e \<Rightarrow> (Inl e, sent)
              | Inr urlStr \<Rightarrow>
                  (case (let rawBody = str_or_empty (map_of cfg ''body'')
                         in if rawBody = [] then Inr None else case renderField T input ''body'' rawBody of Inl e \<Rightarrow> Inl e | Inr b \<Rightarrow> Inr (Some b)) of
                     Inl e \<Rightarrow> (Inl e, sent)
                   | Inr body \<Rightarrow>
                       (if \<not> hl_NewRequest L meth urlStr then (Inl BuildFailed, sent)
                        else case setHeaders L T input (case as_map (map_of cfg ''headers'') of None \<Rightarrow> [] | Some h \<Rightarrow> hl_iter L h) [] of
                               Inl e \<Rightarrow> (Inl e, sent)
                             | Inr hs \<Rightarrow>
                                 (let req = \<lparr> hc_Method = meth, hc_URL = urlStr, hc_Body = body, hc_Header = hs, hc_Timeout = requestTimeout cfg \<rparr>
                                  in ((case hl_Do L (length sent) req of
                                         None \<Rightarrow> Inl DoFailed
                                       | Some resp \<Rightarrow>
                                           (case hp_Body resp of
                                              None \<Rightarrow> Inl ReadFailed
                                            | Some b \<Rightarrow> Inr [(''status_code'', VInt (hp_StatusCode resp)), (''body'', VStr b), (''headers'', VMap (firstValues (hp_Header resp)))])),
                                      sent @ [req])))))"

section \<open>Database nodes\<close>

text \<open>
  A result set: the columns, the rows that \<open>Next\<close> finds (\<open>None\<close> if \<open>Scan\<close> fails on it), and whether the iteration ends in an error. A \<open>*sql.DB\<close> is its position in the
  list of those opened.
\<close>

record sql_rows =
  sr_Columns :: "string list option"
  sr_Rows :: "val list option list"
  sr_Err :: bool

record sql_driver =
  sd_Open :: "nat \<Rightarrow> string \<Rightarrow> string \<Rightarrow> bool"
  sd_Query :: "nat \<Rightarrow> nat \<Rightarrow> string \<Rightarrow> val list \<Rightarrow> sql_rows option"
  sd_Exec :: "nat \<Rightarrow> nat \<Rightarrow> string \<Rightarrow> val list \<Rightarrow> int option option"

record sql_node =
  dn_pools :: "(string \<times> nat) list option"
  dn_opened :: "(string \<times> string) list"
  dn_sent :: "(nat \<times> string \<times> val list) list"
  dn_closed :: "nat list"

definition NewDBPool :: sql_node where
  "NewDBPool = \<lparr> dn_pools = Some [], dn_opened = [], dn_sent = [], dn_closed = [] \<rparr>"

definition NewTestPool :: sql_node where
  "NewTestPool = \<lparr> dn_pools = None, dn_opened = [], dn_sent = [], dn_closed = [] \<rparr>"

definition poolKey :: "string \<Rightarrow> string \<Rightarrow> string" where
  "poolKey driver dsn = driver @ [CHR 0x00] @ dsn"

definition openDB :: "sql_driver \<Rightarrow> string \<Rightarrow> string \<Rightarrow> sql_node \<Rightarrow> nat option \<times> sql_node" where
  "openDB D driver dsn st =
     (let n = length (dn_opened st)
      in if sd_Open D n driver dsn then (Some n, st\<lparr>dn_opened := dn_opened st @ [(driver, dsn)]\<rparr>) else (None, st))"

definition pool_Get :: "sql_driver \<Rightarrow> string \<Rightarrow> string \<Rightarrow> sql_node \<Rightarrow> (nat \<times> bool) option \<times> sql_node" where
  "pool_Get D driver dsn st =
     (case dn_pools st of
        None \<Rightarrow> (case openDB D driver dsn st of (None, st') \<Rightarrow> (None, st') | (Some c, st') \<Rightarrow> (Some (c, True), st'))
      | Some ps \<Rightarrow>
          (case map_of ps (poolKey driver dsn) of
             Some c \<Rightarrow> (Some (c, False), st)
           | None \<Rightarrow>
               (case openDB D driver dsn st of
                  (None, st') \<Rightarrow> (None, st')
                | (Some c, st') \<Rightarrow> (Some (c, False), st'\<lparr>dn_pools := Some (AList.update (poolKey driver dsn) c ps)\<rparr>))))"

text \<open>What both nodes read from their configuration.\<close>

record statement =
  sm_Driver :: string
  sm_DSN :: string
  sm_Query :: string
  sm_Args :: "val list"

definition prepare :: "template_engine \<Rightarrow> node_input \<Rightarrow> call_error + statement" where
  "prepare T input =
     (case GetRequiredString (cfgOf input) ''dsn'' of
        Inl e \<Rightarrow> Inl (ConfigFailed e)
      | Inr dsn \<Rightarrow>
          (case GetRequiredString (cfgOf input) ''query'' of
             Inl e \<Rightarrow> Inl (ConfigFailed e)
           | Inr rawQuery \<Rightarrow>
               (let d = (case GetOptionalString (cfgOf input) ''driver'' of Inl _ \<Rightarrow> [] | Inr s \<Rightarrow> s); driver = (if d = [] then ''mysql'' else d)
                in case renderField T input ''dsn'' dsn of
                     Inl e \<Rightarrow> Inl e
                   | Inr renderedDSN \<Rightarrow>
                       (case ResolveParams T (map_of (cfgOf input) ''params'') (UpstreamData input) of
                          Inl e \<Rightarrow> Inl (ConfigFailed e)
                        | Inr args \<Rightarrow> Inr \<lparr> sm_Driver = driver, sm_DSN = renderedDSN, sm_Query = rawQuery, sm_Args = args \<rparr>))))"

definition send :: "nat \<Rightarrow> statement \<Rightarrow> sql_node \<Rightarrow> sql_node" where
  "send c s st = st\<lparr>dn_sent := dn_sent st @ [(c, sm_Query s, sm_Args s)]\<rparr>"

definition finishWith :: "nat \<Rightarrow> bool \<Rightarrow> sql_node \<Rightarrow> sql_node" where
  "finishWith c closeWhenDone st = (if closeWhenDone then st\<lparr>dn_closed := dn_closed st @ [c]\<rparr> else st)"

definition defaultMaxRows :: int where "defaultMaxRows = 1000"

fun textOf :: "val \<Rightarrow> val" where
  "textOf (VBytes b) = VStr b"
| "textOf v = v"

definition rowMap :: "string list \<Rightarrow> val list \<Rightarrow> gomap" where
  "rowMap cols vals = fold (\<lambda>(c, v) row. AList.update c (textOf v) row) (zip cols vals) []"

text \<open>The loop over the rows; the flag tells whether \<open>Next\<close> came to the end.\<close>

fun scanRows :: "string list \<Rightarrow> nat \<Rightarrow> val list option list \<Rightarrow> gomap list \<Rightarrow> call_error + gomap list \<times> bool" where
  "scanRows cols maxRows [] rows = Inr (rows, True)"
| "scanRows cols maxRows (r # rs) rows =
     (if length rows < maxRows then
        (case r of None \<Rightarrow> Inl ScanFailed | Some vals \<Rightarrow> scanRows cols maxRows rs (rows @ [rowMap cols vals]))
      else Inr (rows, False))"

definition collect :: "nat \<Rightarrow> sql_rows \<Rightarrow> call_error + gomap list" where
  "collect maxRows sqlRows =
     (case sr_Columns sqlRows of
        None \<Rightarrow> Inl ColumnsFailed
      | Some cols \<Rightarrow>
          (case scanRows cols maxRows (sr_Rows sqlRows) [] of
             Inl e \<Rightarrow> Inl e
           | Inr (rows, ended) \<Rightarrow> if ended \<and> sr_Err sqlRows then Inl RowsFailed else Inr rows))"

definition maxRowsOf :: "gomap \<Rightarrow> int" where
  "maxRowsOf cfg = (let m = ToInt (map_of cfg ''max_rows'') defaultMaxRows in if m \<le> 0 then defaultMaxRows else m)"

definition db_query_Execute :: "sql_driver \<Rightarrow> template_engine \<Rightarrow> node_input \<Rightarrow> sql_node \<Rightarrow> (call_error + gomap) \<times> sql_node" where
  "db_query_Execute D T input st =
     (case prepare T input of
        Inl e \<Rightarrow> (Inl e, st)
      | Inr s \<Rightarrow>
          (case pool_Get D (sm_Driver s) (sm_DSN s) st of
             (None, st1) \<Rightarrow> (Inl OpenFailed, st1)
           | (Some (c, closeWhenDone), st1) \<Rightarrow>
               ((case sd_Query D (length (dn_sent st1)) c (sm_Query s) (sm_Args s) of
                   None \<Rightarrow> Inl StatementFailed
                 | Some sqlRows \<Rightarrow>
                     (case collect (nat (maxRowsOf (cfgOf input))) sqlRows of
                        Inl e \<Rightarrow> Inl e
                      | Inr rows \<Rightarrow> Inr [(''rows'', VList (map VMap rows)), (''row_count'', VInt (int (length rows)))])),
                finishWith c closeWhenDone (send c s st1))))"

definition db_write_Execute :: "sql_driver \<Rightarrow> template_engine \<Rightarrow> node_input \<Rightarrow> sql_node \<Rightarrow> (call_error + gomap) \<times> sql_node" where
  "db_write_Execute D T input st =
     (case prepare T input of
        Inl e \<Rightarrow> (Inl e, st)
      | Inr s \<Rightarrow>
          (case pool_Get D (sm_Driver s) (sm_DSN s) st of
             (None, st1) \<Rightarrow> (Inl OpenFailed, st1)
           | (Some (c, closeWhenDone), st1) \<Rightarrow>
               ((case sd_Exec D (length (dn_sent st1)) c (sm_Query s) (sm_Args s) of
                   None \<Rightarrow> Inl StatementFailed
                 | Some None \<Rightarrow> Inl AffectedFailed
                 | Some (Some affected) \<Rightarrow> Inr [(''rows_affected'', VInt64 affected)]),
                finishWith c closeWhenDone (send c s st1))))"

section \<open>Plugin proxy\<close>

record execute_request =
  xr_UpstreamData :: string
  xr_Config :: string
  xr_TimeoutMs :: int
  xr_DirectPredecessorIds :: "string list"

datatype execute_response = ExecError string string | ExecData string | ExecNeither

text \<open>A \<open>nil\<close> map is encoded as \<open>null\<close>; \<open>deadline\<close> is the time left in nanoseconds, if the context has a deadline.\<close>

record plugin_rpc =
  px_Marshal :: "gomap option \<Rightarrow> string option"
  px_Unmarshal :: "string \<Rightarrow> gomap option"
  px_Execute :: "nat \<Rightarrow> execute_request \<Rightarrow> execute_response option"

definition timeoutMs :: "int option \<Rightarrow> int" where
  "timeoutMs deadline = (case deadline of None \<Rightarrow> 0 | Some d \<Rightarrow> if d > 0 then d div 1000000 else 0)"

definition proxy_Execute :: "plugin_rpc \<Rightarrow> int option \<Rightarrow> node_input \<Rightarrow> execute_request list \<Rightarrow> (call_error + gomap) \<times> execute_request list" where
  "proxy_Execute X deadline input sent =
     (case px_Marshal X (Some (UpstreamData input)) of
        None \<Rightarrow> (Inl MarshalFailed, sent)
      | Some upstreamJSON \<Rightarrow>
          (case px_Marshal X (Config input) of
             None \<Rightarrow> (Inl MarshalFailed, sent)
           | Some configJSON \<Rightarrow>
               (let req = \<lparr> xr_UpstreamData = upstreamJSON, xr_Config = configJSON, xr_TimeoutMs = timeoutMs deadline, xr_DirectPredecessorIds = DirectPredecessorIDs input \<rparr>
                in ((case px_Execute X (length sent) req of
                       None \<Rightarrow> Inl RPCFailed
                     | Some (ExecError code msg) \<Rightarrow> Inl (PluginRefused code msg)
                     | Some ExecNeither \<Rightarrow> Inl PluginEmpty
                     | Some (ExecData raw) \<Rightarrow> (case px_Unmarshal X raw of None \<Rightarrow> Inl UnmarshalFailed | Some d \<Rightarrow> Inr d)),
                    sent @ [req]))))"

section \<open>What reaches the database\<close>

text \<open>
  Every pooled connection is filed under the driver and the data source it was opened for, joined by a NUL. The drivers that \<open>sql.Open\<close> knows are registered by the program
  under names without a NUL; it refuses every other name.
\<close>

definition poolOk :: "sql_node \<Rightarrow> bool" where
  "poolOk st \<longleftrightarrow>
     (\<forall>ps. dn_pools st = Some ps \<longrightarrow> distinct (map fst ps) \<and>
        (\<forall>(k, c) \<in> set ps. c < length (dn_opened st) \<and> CHR 0x00 \<notin> set (fst (dn_opened st ! c)) \<and>
           k = fst (dn_opened st ! c) @ CHR 0x00 # snd (dn_opened st ! c)))"

definition registered_drivers :: "sql_driver \<Rightarrow> bool" where
  "registered_drivers D \<longleftrightarrow> (\<forall>n driver dsn. sd_Open D n driver dsn \<longrightarrow> CHR 0x00 \<notin> set driver)"

lemma split_at_nul: "CHR 0x00 \<notin> set a \<Longrightarrow> CHR 0x00 \<notin> set b \<Longrightarrow> a @ CHR 0x00 # x = b @ CHR 0x00 # y \<longleftrightarrow> a = b \<and> x = y"
proof (induction a arbitrary: b)
  case Nil
  then show ?case by (cases b) auto
next
  case (Cons c a)
  then show ?case by (cases b) auto
qed

lemma NewDBPool_ok: "poolOk NewDBPool" "poolOk NewTestPool"
  by (simp_all add: poolOk_def NewDBPool_def NewTestPool_def)

lemma pool_Get_ok:
  assumes "pool_Get D driver dsn st = (r, st')" "poolOk st" "registered_drivers D"
  shows "poolOk st' \<and> dn_sent st' = dn_sent st \<and> dn_closed st' = dn_closed st \<and>
    (\<exists>new. dn_opened st' = dn_opened st @ new \<and> set new \<subseteq> {(driver, dsn)} \<and> length new \<le> 1) \<and>
    (\<forall>c b. r = Some (c, b) \<longrightarrow> c < length (dn_opened st') \<and> (CHR 0x00 \<notin> set driver \<longrightarrow> dn_opened st' ! c = (driver, dsn)) \<and> (b \<longleftrightarrow> dn_pools st = None))"
proof (cases "dn_pools st")
  case None
  then show ?thesis using assms(1,2) by (auto simp: pool_Get_def openDB_def poolOk_def Let_def split: if_splits)
next
  case (Some ps)
  have ps: "distinct (map fst ps)" "\<And>k c. (k, c) \<in> set ps \<Longrightarrow> c < length (dn_opened st) \<and> CHR 0x00 \<notin> set (fst (dn_opened st ! c)) \<and>
      k = fst (dn_opened st ! c) @ CHR 0x00 # snd (dn_opened st ! c)"
    using assms(2) Some by (auto simp: poolOk_def)
  show ?thesis
  proof (cases "map_of ps (poolKey driver dsn)")
    case (Some c)
    then have r: "r = Some (c, False)" "st' = st" using assms(1) \<open>dn_pools st = Some ps\<close> by (auto simp: pool_Get_def)
    note k = ps(2) [OF map_of_SomeD [OF Some]]
    have "dn_opened st ! c = (driver, dsn)" if "CHR 0x00 \<notin> set driver"
      using k split_at_nul [OF that, of "fst (dn_opened st ! c)" dsn "snd (dn_opened st ! c)"] by (auto simp: poolKey_def prod_eq_iff)
    then show ?thesis using r k assms(2) \<open>dn_pools st = Some ps\<close> by auto
  next
    case None
    let ?n = "length (dn_opened st)" and ?k = "driver @ CHR 0x00 # dsn"
    have key: "poolKey driver dsn = ?k" by (simp add: poolKey_def)
    have upd: "AList.update ?k ?n ps = ps @ [(?k, ?n)]"
      using None [unfolded key] by (induction ps) (auto split: if_splits)
    show ?thesis
    proof (cases "sd_Open D ?n driver dsn")
      case True
      then have st': "r = Some (?n, False)" "st' = st\<lparr> dn_opened := dn_opened st @ [(driver, dsn)], dn_pools := Some (ps @ [(?k, ?n)]) \<rparr>"
        using assms(1) None \<open>dn_pools st = Some ps\<close> by (simp_all add: pool_Get_def openDB_def key upd Let_def)
      have "CHR 0x00 \<notin> set driver" using True assms(3) by (auto simp: registered_drivers_def)
      moreover have "?k \<notin> fst ` set ps" using None key by (simp add: map_of_eq_None_iff)
      moreover have "c < Suc ?n \<and> CHR 0x00 \<notin> set (fst ((dn_opened st @ [(driver, dsn)]) ! c)) \<and>
          k = fst ((dn_opened st @ [(driver, dsn)]) ! c) @ CHR 0x00 # snd ((dn_opened st @ [(driver, dsn)]) ! c)" if "(k, c) \<in> set ps" for k c
        using ps(2) [OF that] by (auto simp: nth_append)
      ultimately have "poolOk st'" unfolding poolOk_def st'(2) using ps(1) by auto
      then show ?thesis using st' \<open>dn_pools st = Some ps\<close> by simp
    next
      case False
      then have "r = None" "st' = st" using assms(1) None \<open>dn_pools st = Some ps\<close> by (simp_all add: pool_Get_def openDB_def Let_def)
      then show ?thesis using assms(2) by simp
    qed
  qed
qed

lemma scanRows_bound: "scanRows cols m rs rows = Inr (out, ended) \<Longrightarrow> length rows \<le> m \<Longrightarrow> length out \<le> m"
  by (induction rs arbitrary: rows) (auto split: if_splits option.splits)

lemma scanRows_prefix:
  "scanRows cols m rs rows = Inr (out, ended) \<Longrightarrow> length rows \<le> m \<Longrightarrow>
     \<exists>vs. take (m - length rows) rs = map Some vs \<and> out = rows @ map (rowMap cols) vs"
proof (induction rs arbitrary: rows)
  case (Cons r rs)
  show ?case
  proof (cases "length rows < m")
    case True
    then obtain vals where r: "r = Some vals" "scanRows cols m rs (rows @ [rowMap cols vals]) = Inr (out, ended)" using Cons.prems(1) by (auto split: option.splits)
    from Cons.IH [OF r(2)] True obtain vs where "take (m - length (rows @ [rowMap cols vals])) rs = map Some vs" "out = (rows @ [rowMap cols vals]) @ map (rowMap cols) vs" by auto
    then show ?thesis using True r(1) by (intro exI [of _ "vals # vs"]) (simp add: take_Cons' Suc_diff_Suc [symmetric])
  qed (use Cons in auto)
qed auto

lemma prepare_query: "prepare T input = Inr s \<Longrightarrow> map_of (cfgOf input) ''query'' = Some (VStr (sm_Query s)) \<and>
    ResolveParams T (map_of (cfgOf input) ''params'') (UpstreamData input) = Inr (sm_Args s)"
  by (auto simp: prepare_def Let_def GetRequiredString_def split: sum.splits option.splits val.splits)

text \<open>What either node may do to the state: at most one statement, on a connection of the configured target.\<close>

definition statementOk :: "template_engine \<Rightarrow> node_input \<Rightarrow> sql_node \<Rightarrow> sql_node \<Rightarrow> bool" where
  "statementOk T input st st' \<longleftrightarrow>
     poolOk st' \<and>
     (dn_sent st' = dn_sent st \<and> dn_closed st' = dn_closed st \<or>
      (\<exists>c s. prepare T input = Inr s \<and> dn_sent st' = dn_sent st @ [(c, sm_Query s, sm_Args s)] \<and> map_of (cfgOf input) ''query'' = Some (VStr (sm_Query s)) \<and>
         c < length (dn_opened st') \<and> (CHR 0x00 \<notin> set (sm_Driver s) \<longrightarrow> dn_opened st' ! c = (sm_Driver s, sm_DSN s)) \<and>
         dn_closed st' = dn_closed st @ (if dn_pools st = None then [c] else [])))"

lemma poolOk_frame: "dn_pools st' = dn_pools st \<Longrightarrow> dn_opened st' = dn_opened st \<Longrightarrow> poolOk st \<Longrightarrow> poolOk st'"
  by (simp add: poolOk_def)

lemma sent_fields [simp]:
  "dn_pools (finishWith c b (send c s st)) = dn_pools st" "dn_opened (finishWith c b (send c s st)) = dn_opened st"
  "dn_sent (finishWith c b (send c s st)) = dn_sent st @ [(c, sm_Query s, sm_Args s)]"
  "dn_closed (finishWith c b (send c s st)) = dn_closed st @ (if b then [c] else [])"
  by (simp_all add: finishWith_def send_def)

lemma statement_sent:
  assumes "prepare T input = Inr s" "pool_Get D (sm_Driver s) (sm_DSN s) st = (Some (c, b), st1)" "poolOk st" "registered_drivers D"
  shows "statementOk T input st (finishWith c b (send c s st1))"
proof -
  have g: "poolOk st1" "dn_sent st1 = dn_sent st" "dn_closed st1 = dn_closed st" "c < length (dn_opened st1)"
    "CHR 0x00 \<notin> set (sm_Driver s) \<longrightarrow> dn_opened st1 ! c = (sm_Driver s, sm_DSN s)" "b \<longleftrightarrow> dn_pools st = None" using pool_Get_ok [OF assms(2-4)] by auto
  have "poolOk (finishWith c b (send c s st1))" by (rule poolOk_frame [OF _ _ g(1)]) simp_all
  moreover have "map_of (cfgOf input) ''query'' = Some (VStr (sm_Query s))" using prepare_query [OF assms(1)] by blast
  ultimately show ?thesis unfolding statementOk_def using g assms(1) by (intro conjI disjI2 exI [of _ c] exI [of _ s]) simp_all
qed

lemma nothing_sent: "pool_Get D driver dsn st = (None, st1) \<Longrightarrow> poolOk st \<Longrightarrow> registered_drivers D \<Longrightarrow> statementOk T input st st1"
  using pool_Get_ok [of D driver dsn st None st1] by (simp add: statementOk_def)

text \<open>
  C38. The database nodes send the configured SQL text as it is, whatever the upstream data: at most one statement, with the rendered parameters apart from the text, on a
  connection that was opened for exactly the configured driver (a name without a NUL) and the rendered data source: the pool never mixes up two targets.
  A query returns the first rows of the result, at most \<open>max_rows\<close> of them. Hypotheses: every pooled connection is filed under what it was opened for, which holds of a new pool and is
  kept, and \<open>sql.Open\<close> knows no driver with a NUL in its name.
\<close>

theorem sql_text_is_never_rendered:
  assumes "poolOk st" "registered_drivers D"
  shows "statementOk T input st (snd (db_query_Execute D T input st)) \<and> statementOk T input st (snd (db_write_Execute D T input st)) \<and>
    (\<forall>out. fst (db_query_Execute D T input st) = Inr out \<longrightarrow>
       (\<exists>n c q args sqlRows cols vs. sd_Query D n c q args = Some sqlRows \<and> sr_Columns sqlRows = Some cols \<and> map_of (cfgOf input) ''query'' = Some (VStr q) \<and>
          take (nat (maxRowsOf (cfgOf input))) (sr_Rows sqlRows) = map Some vs \<and> int (length vs) \<le> maxRowsOf (cfgOf input) \<and>
          out = [(''rows'', VList (map (VMap \<circ> rowMap cols) vs)), (''row_count'', VInt (int (length vs)))]))"
proof (cases "prepare T input")
  case (Inl e)
  then show ?thesis using assms by (simp add: db_query_Execute_def db_write_Execute_def statementOk_def)
next
  case (Inr s)
  obtain r st1 where g: "pool_Get D (sm_Driver s) (sm_DSN s) st = (r, st1)" by fastforce
  show ?thesis
  proof (cases r)
    case None
    then show ?thesis using nothing_sent [OF g [unfolded None] assms] Inr g by (simp add: db_query_Execute_def db_write_Execute_def)
  next
    case (Some p)
    obtain c b where p: "p = (c, b)" by (cases p)
    let ?m = "nat (maxRowsOf (cfgOf input))"
    have m: "0 < maxRowsOf (cfgOf input)" by (simp add: maxRowsOf_def Let_def defaultMaxRows_def)
    have "\<exists>n c q args sqlRows cols vs. sd_Query D n c q args = Some sqlRows \<and> sr_Columns sqlRows = Some cols \<and> map_of (cfgOf input) ''query'' = Some (VStr q) \<and>
          take ?m (sr_Rows sqlRows) = map Some vs \<and> int (length vs) \<le> maxRowsOf (cfgOf input) \<and>
          out = [(''rows'', VList (map (VMap \<circ> rowMap cols) vs)), (''row_count'', VInt (int (length vs)))]"
      if out: "fst (db_query_Execute D T input st) = Inr out" for out
    proof -
      from out obtain sqlRows cols rows ended where q: "sd_Query D (length (dn_sent st1)) c (sm_Query s) (sm_Args s) = Some sqlRows" "sr_Columns sqlRows = Some cols"
        "scanRows cols ?m (sr_Rows sqlRows) [] = Inr (rows, ended)" "out = [(''rows'', VList (map VMap rows)), (''row_count'', VInt (int (length rows)))]"
        using Inr g Some p by (auto simp: db_query_Execute_def collect_def split: option.splits sum.splits if_splits)
      from scanRows_prefix [OF q(3)] obtain vs where vs: "take ?m (sr_Rows sqlRows) = map Some vs" "rows = map (rowMap cols) vs" by auto
      have "length vs \<le> ?m" using vs(1) by (metis length_map length_take min.cobounded2)
      then show ?thesis using q vs m prepare_query [OF Inr] by (intro exI conjI) (assumption | simp | force)+
    qed
    then show ?thesis using statement_sent [OF Inr g [unfolded Some p] assms] Inr g Some p by (simp add: db_query_Execute_def db_write_Execute_def)
  qed
qed

definition demo_sql :: sql_driver where
  "demo_sql =
     \<lparr> sd_Open = (\<lambda>_ driver _. driver = ''mysql''),
       sd_Query = (\<lambda>_ _ _ _. Some \<lparr> sr_Columns = Some [''a''], sr_Rows = [Some [VBytes ''x''], Some [VBytes ''y'']], sr_Err = False \<rparr>),
       sd_Exec = (\<lambda>_ _ _ _. Some (Some 1)) \<rparr>"

definition demo_sql_input :: node_input where
  "demo_sql_input =
     \<lparr> UpstreamData = [(''n'', VStr ''1; DROP TABLE t'')],
       Config = Some [(''dsn'', VStr ''u@/db''), (''query'', VStr ''SELECT a FROM t WHERE b = ?''), (''params'', VList [VStr ''{{.n}}'']), (''max_rows'', VInt 1)],
       DirectPredecessorIDs = [''n''] \<rparr>"

definition demo_engine :: template_engine where
  "demo_engine = (\<lambda>_ d. case map_of d ''n'' of Some (VStr s) \<Rightarrow> Some s | _ \<Rightarrow> None)"

text \<open>A hostile value stays a parameter, and one of two rows is returned.\<close>

theorem sql_text_is_never_rendered_witness:
  "(case db_query_Execute demo_sql demo_engine demo_sql_input NewDBPool of
      (Inr out, st) \<Rightarrow> dn_sent st = [(0, ''SELECT a FROM t WHERE b = ?'', [VStr ''1; DROP TABLE t''])] \<and>
        out = [(''rows'', VList [VMap [(''a'', VStr ''x'')]]), (''row_count'', VInt 1)]
    | _ \<Rightarrow> False) \<and>
   statementOk demo_engine demo_sql_input NewDBPool (snd (db_query_Execute demo_sql demo_engine demo_sql_input NewDBPool))"
proof -
  have d: "registered_drivers demo_sql" by (simp add: registered_drivers_def demo_sql_def)
  have "case db_query_Execute demo_sql demo_engine demo_sql_input NewDBPool of
      (Inr out, st) \<Rightarrow> dn_sent st = [(0, ''SELECT a FROM t WHERE b = ?'', [VStr ''1; DROP TABLE t''])] \<and>
        out = [(''rows'', VList [VMap [(''a'', VStr ''x'')]]), (''row_count'', VInt 1)]
    | _ \<Rightarrow> False" by code_simp
  then show ?thesis using sql_text_is_never_rendered [OF NewDBPool_ok(1) d, of demo_engine demo_sql_input] by blast
qed

text \<open>The configured timeout can only shorten the 30 seconds of the client.\<close>

lemma requestTimeout_capped: "requestTimeout cfg \<le> defaultTimeout"
  by (simp add: requestTimeout_def Let_def split: option.splits)

end
