(* ===== verification/Spec2Isabelle.thy ===== *)
theory Spec2Isabelle
  imports Dag_Build Runner_Loops Runner_Events Engine_Props Vault_Props Grader_Vault Validator_Props Grader_Props Eval_Props Trigger_Props
    Handler_Props Eval_Handler_Props Auth_Instance Eval_Secrets Grader_Plugin_Props Rag_Props Calls
begin

text \<open>
  A verification development of \<^bold>\<open>cogniflow\<close>, a workflow server written in Go (\<open>src/backend\<close>). Users draw workflows as graphs of nodes,
  the server stores them, runs them on manual, cron, webhook, Kafka and SQS triggers, streams the events of a run, and evaluates
  workflows against test suites. Every theory opens with the part of the source it models. Definitions carry the names of the source where HOL
  allows it.

  \<^bold>\<open>The parts and the theories that model them\<close> (paths under \<open>src/backend/internal\<close>).

  \<^item> \<^emph>\<open>Shared vocabulary.\<close> \<open>Prelude\<close>: Go's dynamic values, maps, strings and integer conversions; \<open>Float64\<close>: rounding to float64; \<open>Store_Types\<close>:
    the records of \<open>store/store.go\<close>; \<open>Database\<close>: tables with a statement clock, \<open>query\<close>, \<open>exec\<close> and \<open>transaction\<close>.
  \<^item> \<^emph>\<open>Graph.\<close> \<open>Dag\<close>, \<open>Dag_Facts\<close>, \<open>Dag_Build\<close> for \<open>engine/dag.go\<close>: what \<open>Build\<close> accepts and in which order it lists the nodes. The locale \<open>wf_dag\<close> is what the
    runner relies on.
  \<^item> \<^emph>\<open>Runner.\<close> \<open>Exec_Context\<close>, \<open>Output_Parser\<close>, \<open>Event_Bus\<close>, \<open>Registry\<close> and \<open>Runner\<close> for \<open>engine/context.go\<close>, \<open>node/outputparser\<close>, \<open>engine/event.go\<close>,
    \<open>node/registry.go\<close>, \<open>engine/runner.go\<close>. A run is an \<open>inductive\<close> step relation between the supervisor and the goroutines of the nodes
    (\<open>Runner_Steps\<close>); \<open>Runner_Inv\<close>, \<open>Runner_Correct\<close>, \<open>Runner_Det\<close>, \<open>Runner_Props\<close>, \<open>Runner_Loops\<close>, \<open>Runner_Events\<close> show that every schedule dispatches each node once
    and in order, ends, gives the same result, stops at the first failure, bounds the restarts of a loop counted along the run, and publishes its events in order.
  \<^item> \<^emph>\<open>Engine.\<close> \<open>Run_Store\<close>, \<open>Engine\<close>, \<open>Engine_Props\<close> for \<open>store/mysql/run_store.go\<close> and \<open>engine/engine.go\<close>: many runs over the database and the bus; a
    terminal event is seen only after its outcome is stored, and an active run can always go on.
  \<^item> \<^emph>\<open>Nodes.\<close> \<open>Node_Control\<close>, \<open>Node_Props\<close> for the conditional, loop controller, merge and data transform nodes.
  \<^item> \<^emph>\<open>Secrets.\<close> \<open>Base64\<close>, \<open>Cipher\<close>, \<open>Config_Vault\<close>, \<open>Vault_Props\<close>, \<open>Grader_Vault\<close> for \<open>crypto\<close> and \<open>eval/vault.go\<close>: what is stored is sealed, what is
    read back is what was saved, the mask \<open>***\<close> keeps the old secret.
  \<^item> \<^emph>\<open>Workflows.\<close> \<open>Workflow_Store\<close> with \<open>_Props\<close>, \<open>Workflow_Roundtrip\<close>, \<open>Workflow_Versions\<close> for the workflow tables and their versions; \<open>Workflow_Validator\<close>, \<open>Validator_Props\<close>,
    \<open>Workflow_Handler\<close>, \<open>Handler_Sync\<close>, \<open>Handler_Props\<close> for the API: an accepted workflow builds and its nodes fail only on data, tenants are separated, triggers
    follow the database, answers hide secrets.
  \<^item> \<^emph>\<open>Triggers.\<close> \<open>Triggers\<close>, \<open>Trigger_Props\<close> for \<open>trigger/*.go\<close> and \<open>eval/scheduler.go\<close>: the manager refines a map from workflows to live triggers, and a Kafka
    message is committed only after its run was started.
  \<^item> \<^emph>\<open>Evaluation.\<close> \<open>Graders\<close>, \<open>Grader_Props\<close>, \<open>Eval_Store\<close>, \<open>Eval_Runner\<close>, \<open>Eval_Props\<close>, \<open>Eval_Import\<close>, \<open>Eval_Handler\<close>, \<open>Eval_Handler_Props\<close> for \<open>eval\<close> and
    \<open>store/mysql/eval_store.go\<close>: grading, the interleaved test cases of a run, import, comparison, webhook secrets, tenants.
  \<^item> \<^emph>\<open>Users.\<close> \<open>Auth\<close>, \<open>Auth_Store\<close>, \<open>Email\<close>, \<open>Auth_Handler\<close> for \<open>auth\<close>, \<open>store/mysql/auth_store.go\<close>, \<open>email\<close> and the handlers of sessions, users,
    organisations and e-mail settings. \<open>Auth_Steps\<close> is the access policy as a step relation that every request refines; \<open>Auth_Props\<close>,
    \<open>Auth_Login\<close>, \<open>Auth_Instance\<close> derive that tables stay well formed, that nobody gains system_admin except by the spelling of a role that the
    collation takes for it, that tenants are separated, and invitations lead to a login.
  \<^item> \<^emph>\<open>Routes.\<close> \<open>Run_Handler\<close>, \<open>Router\<close>, \<open>Eval_Secrets\<close> for \<open>api/run_handler.go\<close> and \<open>api/router.go\<close> with the two public webhooks: nothing is written
    without the permission or the secret of the webhook, and the secret is shown only by the request that draws it.
  \<^item> \<^emph>\<open>Plugins.\<close> \<open>Plugins\<close>, \<open>Plugin_Props\<close>, \<open>Grader_Plugins\<close>, \<open>Grader_Plugin_Props\<close> for \<open>node/plugin/registrar.go\<close>, \<open>eval/grader_plugin/registrar.go\<close>, their tables,
    admin endpoints and part of the start-up: an entry of the registry has an open connection and a row, and no connection is lost.
  \<^item> \<^emph>\<open>Retrieval.\<close> \<open>Ieee\<close>: float32 and float64 with infinities, NaN and a square root computed on integers; \<open>Rag\<close>, \<open>Rag_Props\<close> for \<open>node/builtin/rag_ingest\<close>,
    \<open>rag_retrieve\<close> and \<open>store/mysql/rag_store.go\<close>: chunks cover the text, distances of finite vectors are never NaN, and the nearest chunks are found.
  \<^item> \<^emph>\<open>Calls.\<close> \<open>Providers\<close> for \<open>aiprovider\<close> with its retries and their delays; \<open>Calls\<close> for the HTTP, LLM, embedding and SQL nodes, the connection pool and the plugin
    proxy: a call is repeated a bounded number of times, and upstream data never becomes SQL text.

  \<^bold>\<open>Interfaces.\<close> The locales state what one part relies on in another: \<open>registry\<close> (the two catalogues), \<open>wf_dag\<close> (the graph), the bus, the
  brackets of the model-backed graders, the store below the vault, the catalogue that a table backs. Each is interpreted on the definitions of the model.

  \<^bold>\<open>Parameters.\<close> Code that is not in the repository is an argument: node handlers as the runner sees them, gjson, regexp, the JSON codec,
  JSON Schema, the verbs of \<open>fmt\<close>, AES-GCM and the random source, CEL, \<open>text/template\<close>, the cron library, the AWS configuration, the Kafka and SQS
  brokers, MySQL (the outcome of each statement, the collation, the \<open>ENUM\<close> and \<open>JSON\<close> columns), the CSV reader, the LLM client, JWT, bcrypt, SMTP,
  gRPC, and the order in which the runtime ranges over a map. Where a theorem needs their documented behaviour it is a named hypothesis, and a
  witness gives an instance.

  \<^bold>\<open>Fuel.\<close> The searches of \<open>dag.go\<close> nest at most once per node and have \<open>Suc (length nodes)\<close>; the loop body search pops at most two entries per forward
  edge and has \<open>2 * length forwardEdges\<close>; \<open>propagateSkip\<close> has \<open>Suc (length nodes)\<close>; normalising a float64 takes at most 1022 doublings and 1024
  halvings. That the fuel is enough is proved where it is used. The loops that wait for goroutines are steps of relations, and their end is
  a theorem.

  \<^bold>\<open>Simplifications.\<close> A transaction is one atomic step. Requests of the handlers are served one after the other; the concurrency modelled is that of a run,
  of many runs in the engine, of the test cases of an eval run, of the buses and of the brokers. The registry does not change during a run. The
  texts of error messages and log lines are left out where no code reads them. The channel for the results of a run is always made: the panic of
  \<open>make\<close> for a \<open>max_iterations\<close> of billions is left out. \<open>strings.TrimSpace\<close> is that of Unicode; \<open>strings.ToLower\<close> maps the letters that can
  become ASCII, and the texts it is compared with are ASCII. Request bodies are the values the JSON decoder makes of them.

  \<^bold>\<open>Not modelled.\<close> The WebSocket streams, the generated protocol code, most of the process start-up (\<open>cmd/server\<close>), the migrations, logging, CORS and health endpoints, the
  descriptions of the nodes for the palette, the example plugin and the front end: I/O, generated code, or data with no behaviour of its own.
\<close>

end
